(* ===== verification/Prelude.thy ===== *)
theory Prelude
  imports Main "HOL-Library.Sublist"
begin

text \<open>
  Shared vocabulary of the development: Go's machine integers and time arithmetic, the
  functions of Go's \<open>strings\<close> and \<open>fmt\<close> packages that the modelled code calls, the result
  type of fallible operations, and the generic lemmas on lists, maps and operation
  sequences that the component theories use.

  A Go \<open>string\<close> is the list of its bytes (\<^typ>\<open>string\<close>, one \<^typ>\<open>char\<close> per byte), so
  \<open>len(s)\<close> is \<^const>\<open>length\<close>.  A \<open>time.Time\<close> is the number of nanoseconds since Go's zero
  time, so the zero value is \<open>0\<close>; \<open>time.Now()\<close> is always an argument of the operation that
  reads the clock.
\<close>

section \<open>Rule collections\<close>

named_theorems machine_simps \<open>unfolding rules of the small status machines\<close>
named_theorems frame_simps \<open>fields an operation leaves alone\<close>

section \<open>Integers and time\<close>

text \<open>Go's \<open>int\<close> and \<open>int64\<close> arithmetic wraps around at 64 bits; \<open>/\<close> truncates towards zero.\<close>

definition wrap64 :: "int \<Rightarrow> int" where
  "wrap64 x = (x + 2 ^ 63) mod 2 ^ 64 - 2 ^ 63"

definition go_quot :: "int \<Rightarrow> int \<Rightarrow> int" where
  "go_quot a b = sgn a * sgn b * (\<bar>a\<bar> div \<bar>b\<bar>)"

type_synonym time = int
type_synonym duration = int

definition zero_time :: time where
  "zero_time = 0"

definition is_zero :: "time \<Rightarrow> bool" where
  "is_zero t \<longleftrightarrow> t = zero_time"

text \<open>\<open>Time.Sub\<close> saturates at the bounds of \<open>time.Duration\<close> (an \<open>int64\<close>).\<close>

definition time_sub :: "time \<Rightarrow> time \<Rightarrow> duration" where
  "time_sub a b = max (- (2 ^ 63)) (min (2 ^ 63 - 1) (a - b))"

definition second :: duration where
  "second = 1000000000"

lemma wrap64_id: "- (2 ^ 63) \<le> x \<Longrightarrow> x < 2 ^ 63 \<Longrightarrow> wrap64 x = x"
  by (simp add: wrap64_def)

lemma wrap64_bounds: "- (2 ^ 63) \<le> wrap64 x \<and> wrap64 x < 2 ^ 63"
  by (simp add: wrap64_def)

lemma go_quot_pos: "0 \<le> a \<Longrightarrow> 0 < b \<Longrightarrow> go_quot a b = a div b"
  by (cases "a = 0") (auto simp: go_quot_def)

lemma time_sub_ge_iff:
  "- (2 ^ 63) < d \<Longrightarrow> d < 2 ^ 63 \<Longrightarrow> d \<le> time_sub a b \<longleftrightarrow> b + d \<le> a"
  by (auto simp: time_sub_def min_def max_def)

lemma time_sub_mono: "a \<le> a' \<Longrightarrow> time_sub a b \<le> time_sub a' b"
  by (auto simp: time_sub_def min_def max_def)

section \<open>Results of fallible operations\<close>

text \<open>A Go pair \<open>(value, error)\<close> is a sum: \<open>Inl\<close> the error, \<open>Inr\<close> the value.\<close>

text \<open>Where only the message of a Go error matters, the error is its text.\<close>

type_synonym go_error = string

fun bind_res :: "'e + 'a \<Rightarrow> ('a \<Rightarrow> 'e + 'b) \<Rightarrow> 'e + 'b" where
  "bind_res (Inl e) f = Inl e"
| "bind_res (Inr x) f = f x"

fun is_ok :: "'e + 'a \<Rightarrow> bool" where
  "is_ok (Inl _) = False"
| "is_ok (Inr _) = True"

lemma bind_res_Inr_iff [simp]:
  "bind_res r f = Inr y \<longleftrightarrow> (\<exists>x. r = Inr x \<and> f x = Inr y)"
  by (cases r) auto

lemma bind_res_Inl_iff:
  "bind_res r f = Inl e \<longleftrightarrow> r = Inl e \<or> (\<exists>x. r = Inr x \<and> f x = Inl e)"
  by (cases r) auto

lemma is_ok_iff: "is_ok r \<longleftrightarrow> (\<exists>x. r = Inr x)"
  by (cases r) auto

section \<open>Bytes and strings\<close>

definition newline :: string where
  "newline = [CHR 0x0A]"

definition has_prefix :: "string \<Rightarrow> string \<Rightarrow> bool" where
  "has_prefix s p \<longleftrightarrow> take (length p) s = p"

definition trim_prefix :: "string \<Rightarrow> string \<Rightarrow> string" where
  "trim_prefix s p = (if has_prefix s p then drop (length p) s else s)"

text \<open>\<open>strings.Join\<close>.\<close>

fun str_join :: "string \<Rightarrow> string list \<Rightarrow> string" where
  "str_join sep [] = []"
| "str_join sep [s] = s"
| "str_join sep (s # t # ss) = s @ sep @ str_join sep (t # ss)"

text \<open>\<open>strings.Index\<close>: the first position of a substring.\<close>

fun str_index :: "string \<Rightarrow> string \<Rightarrow> nat option" where
  "str_index s sub =
     (if has_prefix s sub then Some 0
      else case s of [] \<Rightarrow> None | _ # cs \<Rightarrow> map_option Suc (str_index cs sub))"

declare str_index.simps [simp del]

lemma has_prefix_append [simp]: "has_prefix (p @ s) p"
  by (simp add: has_prefix_def)

lemma has_prefix_split: "has_prefix s p \<Longrightarrow> s = p @ drop (length p) s"
  unfolding has_prefix_def by (metis append_take_drop_id)

lemma trim_prefix_append [simp]: "trim_prefix (p @ s) p = s"
  by (simp add: trim_prefix_def)

lemma str_index_split:
  "str_index s sub = Some i \<Longrightarrow> s = take i s @ sub @ drop (i + length sub) s \<and> i + length sub \<le> length s"
proof (induction s arbitrary: i)
  case Nil
  then show ?case
    by (auto simp: str_index.simps [of "[]"] has_prefix_def split: if_splits)
next
  case (Cons c cs)
  show ?case
  proof (cases "has_prefix (c # cs) sub")
    case True
    with Cons.prems have "i = 0" by (simp add: str_index.simps [of "c # cs"])
    moreover have "length sub \<le> length (c # cs)"
      using has_prefix_split [OF True] by (metis le_add1 length_append)
    ultimately show ?thesis using has_prefix_split [OF True] by simp
  next
    case False
    with Cons.prems obtain j where "str_index cs sub = Some j" and "i = Suc j"
      by (auto simp: str_index.simps [of "c # cs"])
    with Cons.IH show ?thesis by simp
  qed
qed

text \<open>Decimal rendering, \<open>%d\<close>.\<close>

fun dec_nat :: "nat \<Rightarrow> string" where
  "dec_nat n = (if n < 10 then [char_of (48 + n)] else dec_nat (n div 10) @ [char_of (48 + n mod 10)])"

declare dec_nat.simps [simp del]

definition dec_int :: "int \<Rightarrow> string" where
  "dec_int i = (if i < 0 then CHR ''-'' # dec_nat (nat (- i)) else dec_nat (nat i))"

text \<open>
  \<open>strconv.Quote\<close>, the verb \<open>%q\<close>.  The bytes of characters outside ASCII are kept as they are, which is
  what Go does for printable characters.
\<close>

definition hex_digit :: "nat \<Rightarrow> char" where
  "hex_digit n = char_of (if n < 10 then 48 + n else 87 + n)"

fun quote_byte :: "char \<Rightarrow> string" where
  "quote_byte c =
     (let b = of_char c :: nat
      in if c = CHR 0x22 then [CHR 0x5C, CHR 0x22]
         else if c = CHR 0x5C then [CHR 0x5C, CHR 0x5C]
         else if b = 7 then [CHR 0x5C, CHR ''a''] else if b = 8 then [CHR 0x5C, CHR ''b'']
         else if b = 12 then [CHR 0x5C, CHR ''f''] else if b = 10 then [CHR 0x5C, CHR ''n'']
         else if b = 13 then [CHR 0x5C, CHR ''r''] else if b = 9 then [CHR 0x5C, CHR ''t'']
         else if b = 11 then [CHR 0x5C, CHR ''v'']
         else if b < 32 \<or> b = 127
           then [CHR 0x5C, CHR ''x'', hex_digit (b div 16), hex_digit (b mod 16)]
         else [c])"

definition go_quote :: "string \<Rightarrow> string" where
  "go_quote s = [CHR 0x22] @ concat (map quote_byte s) @ [CHR 0x22]"

lemma dec_nat_nonempty [simp]: "dec_nat n \<noteq> []"
  by (subst dec_nat.simps) simp

text \<open>
  The conversion \<open>[]rune(s)\<close>: UTF-8 decoding, with a byte that starts no valid sequence read as the
  replacement character.  A rune is given by the bytes \<open>string(r)\<close> encodes it with.
\<close>

definition in_byte_range :: "nat \<Rightarrow> nat \<Rightarrow> char \<Rightarrow> bool" where
  "in_byte_range lo hi c \<longleftrightarrow> lo \<le> of_char c \<and> of_char c \<le> hi"

text \<open>The length of the valid sequence at the front of a string, \<open>0\<close> if there is none.\<close>

definition rune_width :: "string \<Rightarrow> nat" where
  "rune_width s =
     (case s of [] \<Rightarrow> 0
      | a # s1 \<Rightarrow>
          if in_byte_range 0 0x7F a then 1
          else case s1 of [] \<Rightarrow> 0
            | b # s2 \<Rightarrow>
                if in_byte_range 0xC2 0xDF a then (if in_byte_range 0x80 0xBF b then 2 else 0)
                else case s2 of [] \<Rightarrow> 0
                  | c # s3 \<Rightarrow>
                      if in_byte_range 0xE0 0xEF a
                      then (if in_byte_range (if a = CHR 0xE0 then 0xA0 else 0x80)
                                 (if a = CHR 0xED then 0x9F else 0xBF) b \<and> in_byte_range 0x80 0xBF c then 3 else 0)
                      else case s3 of [] \<Rightarrow> 0
                        | d # _ \<Rightarrow>
                            if in_byte_range 0xF0 0xF4 a \<and>
                               in_byte_range (if a = CHR 0xF0 then 0x90 else 0x80)
                                 (if a = CHR 0xF4 then 0x8F else 0xBF) b \<and>
                               in_byte_range 0x80 0xBF c \<and> in_byte_range 0x80 0xBF d then 4 else 0)"

definition rune_error :: string where
  "rune_error = [CHR 0xEF, CHR 0xBF, CHR 0xBD]"

function runes :: "string \<Rightarrow> string list" where
  "runes s =
     (if s = [] then []
      else if rune_width s = 0 then rune_error # runes (drop 1 s)
      else take (rune_width s) s # runes (drop (rune_width s) s))"
  by pat_completeness auto
termination
  by (relation "measure length") auto

declare runes.simps [simp del]

lemma runes_Nil [simp]: "runes [] = []"
  by (simp add: runes.simps)

lemma length_runes: "length (runes s) \<le> length s"
proof (induction s rule: runes.induct)
  case (1 s)
  show ?case
  proof (cases "s = [] \<or> rune_width s = 0")
    case True
    then show ?thesis using 1 by (cases s) (auto simp: runes.simps [of s] runes.simps [of "_ # _"])
  next
    case False
    then have "length (runes (drop (rune_width s) s)) \<le> length s - rune_width s" using 1(2) by simp
    moreover have "1 \<le> length s" using False by (cases s) auto
    moreover have "1 \<le> rune_width s" using False by simp
    ultimately have "Suc (length (runes (drop (rune_width s) s))) \<le> length s" by linarith
    then show ?thesis using False by (simp add: runes.simps [of s])
  qed
qed

section \<open>Maps\<close>

text \<open>\<open>delete(m, k)\<close>.\<close>

definition map_delete :: "'k \<Rightarrow> ('k \<rightharpoonup> 'v) \<Rightarrow> ('k \<rightharpoonup> 'v)" where
  "map_delete k m = m(k := None)"

lemma map_delete_apply [simp]: "map_delete k m j = (if j = k then None else m j)"
  by (simp add: map_delete_def)

lemma dom_map_delete [simp]: "dom (map_delete k m) = dom m - {k}"
  by (auto simp: map_delete_def)

section \<open>Running a sequence of guarded operations\<close>

text \<open>
  The entities of the program are updated in place by methods that return an error and
  leave the object alone when the operation is not allowed.  \<open>run_ops\<close> is a caller that
  performs a list of such operations on one object and ignores the errors.
\<close>

fun run_ops :: "('op \<Rightarrow> 's \<Rightarrow> 'e + 's) \<Rightarrow> 'op list \<Rightarrow> 's \<Rightarrow> 's" where
  "run_ops step [] s = s"
| "run_ops step (x # xs) s =
     (case step x s of Inl _ \<Rightarrow> run_ops step xs s | Inr s' \<Rightarrow> run_ops step xs s')"

lemma run_ops_append: "run_ops step (xs @ ys) s = run_ops step ys (run_ops step xs s)"
  by (induction xs arbitrary: s) (auto split: sum.splits)

lemma run_ops_invariant:
  assumes "\<And>x s s'. P s \<Longrightarrow> step x s = Inr s' \<Longrightarrow> P s'" and "P s"
  shows "P (run_ops step xs s)"
  using assms(2)
proof (induction xs arbitrary: s)
  case Nil
  then show ?case by simp
next
  case (Cons x xs)
  then show ?case using assms(1) by (auto split: sum.splits)
qed

text \<open>
  The contract of an entity with final states: in a terminal state every operation is
  refused.  Everything a client derives from it is proved once here.
\<close>

locale guarded_machine =
  fixes step :: "'op \<Rightarrow> 's \<Rightarrow> 'e + 's"
    and terminal :: "'s \<Rightarrow> bool"
  assumes terminal_refuses: "terminal s \<Longrightarrow> \<exists>e. step x s = Inl e"
begin

lemma terminal_run: "terminal s \<Longrightarrow> run_ops step xs s = s"
proof (induction xs)
  case Nil
  then show ?case by simp
next
  case (Cons x xs)
  then show ?case using terminal_refuses [of s x] by auto
qed

lemma terminal_final:
  "terminal (run_ops step xs s) \<Longrightarrow> run_ops step (xs @ ys) s = run_ops step xs s"
  by (simp add: run_ops_append terminal_run)

lemma step_not_terminal: "step x s = Inr s' \<Longrightarrow> \<not> terminal s"
  using terminal_refuses [of s x] by auto

end

text \<open>
  The contract of a service that serves requests one after the other: what every allowed request keeps is kept by any
  sequence of them.
\<close>

locale kept_law =
  fixes exec :: "'op \<Rightarrow> 's \<Rightarrow> 's" and I :: "'s \<Rightarrow> bool" and allowed :: "'op \<Rightarrow> bool"
  assumes step_kept: "allowed x \<Longrightarrow> I s \<Longrightarrow> I (exec x s)"
begin

lemma run_kept: "list_all allowed xs \<Longrightarrow> I s \<Longrightarrow> I (fold exec xs s)"
  by (induction xs arbitrary: s) (auto simp: step_kept)

lemma run_kept_always: "(\<And>x. allowed x) \<Longrightarrow> I s \<Longrightarrow> I (fold exec xs s)"
  by (rule run_kept) (simp add: list_all_iff)

end

section \<open>Lists\<close>

lemma filter_eq_sum_le:
  "(\<Sum>x\<leftarrow>filter P xs. (f x :: nat)) \<le> (\<Sum>x\<leftarrow>xs. f x)"
  by (induction xs) auto

lemma distinct_map_of_index: "distinct xs \<Longrightarrow> i < length xs \<Longrightarrow> j < length xs \<Longrightarrow> xs ! i = xs ! j \<longleftrightarrow> i = j"
  by (rule nth_eq_iff_index_eq)

end
