(* ===== verification/Domain_Packet.thy ===== *)
theory Domain_Packet
  imports Prelude
begin

text \<open>
  The domain entities that carry a status: the task packet exchanged between agents
  (\<open>internal/domain/task_packet.go\<close>), the tool call (\<open>tool_call.go\<close>), the workflow execution and
  its steps (\<open>workflow_execution.go\<close>, \<open>workflow_step.go\<close>), the agent run (\<open>agent_run.go\<close>), the
  session (\<open>session.go\<close>), the active flow (\<open>active_flow.go\<close>) and the context snapshot
  (\<open>agent_context_snapshot.go\<close>).  Errors are the messages of the source.

  The packet and the tool call refuse everything in their final states; they are instances of the
  \<open>guarded_machine\<close> contract.  The workflow entities are not: their \<open>Fail\<close> and \<open>Cancel\<close> only
  protect the completed state, and the theory proves which states are really final.
\<close>

section \<open>TaskPacket\<close>

datatype packet_status =
    TaskPacketPending | TaskPacketRunning | TaskPacketCompleted | TaskPacketFailed | TaskPacketTimeout

fun packet_status_string :: "packet_status \<Rightarrow> string" where
  "packet_status_string TaskPacketPending = ''pending''"
| "packet_status_string TaskPacketRunning = ''running''"
| "packet_status_string TaskPacketCompleted = ''completed''"
| "packet_status_string TaskPacketFailed = ''failed''"
| "packet_status_string TaskPacketTimeout = ''timeout''"

record task_packet =
  tp_id :: string
  tp_parent_agent :: string
  tp_child_agent :: string
  tp_session_id :: string
  tp_input :: string
  tp_status :: packet_status
  tp_result :: string
  tp_error :: string
  tp_timeout :: duration
  tp_created_at :: time
  tp_started_at :: time
  tp_finished_at :: time

definition packet_validate :: "task_packet \<Rightarrow> go_error + unit" where
  "packet_validate tp =
     (if tp_id tp = '''' then Inl ''task packet id is required''
      else if tp_parent_agent tp = '''' then Inl ''task packet parent_agent is required''
      else if tp_child_agent tp = '''' then Inl ''task packet child_agent is required''
      else if tp_input tp = '''' then Inl ''task packet input is required''
      else Inr ())"

definition NewTaskPacket ::
    "time \<Rightarrow> string \<Rightarrow> string \<Rightarrow> string \<Rightarrow> string \<Rightarrow> string \<Rightarrow> duration \<Rightarrow> go_error + task_packet" where
  "NewTaskPacket now tid parentAgent childAgent sessionID input timeout =
     (let tp = \<lparr>tp_id = tid, tp_parent_agent = parentAgent, tp_child_agent = childAgent,
                tp_session_id = sessionID, tp_input = input, tp_status = TaskPacketPending,
                tp_result = '''', tp_error = '''', tp_timeout = timeout, tp_created_at = now,
                tp_started_at = zero_time, tp_finished_at = zero_time\<rparr>
      in bind_res (packet_validate tp) (\<lambda>_. Inr tp))"

definition packet_start :: "time \<Rightarrow> task_packet \<Rightarrow> go_error + task_packet" where
  "packet_start now tp =
     (if tp_status tp \<noteq> TaskPacketPending
      then Inl (''task must be pending to start, current: '' @ packet_status_string (tp_status tp))
      else Inr (tp\<lparr>tp_status := TaskPacketRunning, tp_started_at := now\<rparr>))"

definition packet_complete :: "time \<Rightarrow> string \<Rightarrow> task_packet \<Rightarrow> go_error + task_packet" where
  "packet_complete now result tp =
     (if tp_status tp \<noteq> TaskPacketRunning
      then Inl (''task must be running to complete, current: '' @ packet_status_string (tp_status tp))
      else Inr (tp\<lparr>tp_status := TaskPacketCompleted, tp_result := result, tp_finished_at := now\<rparr>))"

definition packet_fail :: "time \<Rightarrow> string \<Rightarrow> task_packet \<Rightarrow> go_error + task_packet" where
  "packet_fail now errMsg tp =
     (if tp_status tp \<noteq> TaskPacketRunning \<and> tp_status tp \<noteq> TaskPacketPending
      then Inl (''task must be pending or running to fail, current: '' @ packet_status_string (tp_status tp))
      else Inr (tp\<lparr>tp_status := TaskPacketFailed, tp_error := errMsg, tp_finished_at := now\<rparr>))"

definition packet_mark_timeout :: "time \<Rightarrow> task_packet \<Rightarrow> go_error + task_packet" where
  "packet_mark_timeout now tp =
     (if tp_status tp \<noteq> TaskPacketRunning
      then Inl (''task must be running to timeout, current: '' @ packet_status_string (tp_status tp))
      else Inr (tp\<lparr>tp_status := TaskPacketTimeout, tp_error := ''task timed out'', tp_finished_at := now\<rparr>))"

fun packet_terminal_status :: "packet_status \<Rightarrow> bool" where
  "packet_terminal_status TaskPacketCompleted = True"
| "packet_terminal_status TaskPacketFailed = True"
| "packet_terminal_status TaskPacketTimeout = True"
| "packet_terminal_status _ = False"

definition packet_is_terminal :: "task_packet \<Rightarrow> bool" where
  "packet_is_terminal tp = packet_terminal_status (tp_status tp)"

definition packet_is_expired :: "time \<Rightarrow> task_packet \<Rightarrow> bool" where
  "packet_is_expired now tp =
     (if tp_timeout tp \<le> 0 then False
      else if is_zero (tp_started_at tp) then False
      else time_sub now (tp_started_at tp) > tp_timeout tp)"

datatype packet_op =
    PkStart time | PkComplete time string | PkFail time string | PkTimeout time

fun packet_step :: "packet_op \<Rightarrow> task_packet \<Rightarrow> go_error + task_packet" where
  "packet_step (PkStart now) tp = packet_start now tp"
| "packet_step (PkComplete now r) tp = packet_complete now r tp"
| "packet_step (PkFail now e) tp = packet_fail now e tp"
| "packet_step (PkTimeout now) tp = packet_mark_timeout now tp"

lemmas packet_defs [machine_simps] =
  packet_start_def packet_complete_def packet_fail_def packet_mark_timeout_def

interpretation packet_machine: guarded_machine packet_step packet_is_terminal
proof
  fix s x
  assume "packet_is_terminal s"
  then show "\<exists>e. packet_step x s = Inl e"
    by (cases x; cases "tp_status s") (simp_all add: packet_is_terminal_def machine_simps)
qed

text \<open>
  The data of a packet agree with its status: it carries a result only when completed, an error
  only when failed or timed out, and it has run unless it is pending or failed before its start.
\<close>

definition packet_inv :: "task_packet \<Rightarrow> bool" where
  "packet_inv tp \<longleftrightarrow>
     (tp_result tp \<noteq> '''' \<longrightarrow> tp_status tp = TaskPacketCompleted) \<and>
     (tp_error tp \<noteq> '''' \<longrightarrow> tp_status tp = TaskPacketFailed \<or> tp_status tp = TaskPacketTimeout) \<and>
     (tp_status tp = TaskPacketPending \<longrightarrow> is_zero (tp_started_at tp)) \<and>
     (\<not> packet_is_terminal tp \<longrightarrow> is_zero (tp_finished_at tp))"

lemma packet_step_inv: "packet_inv tp \<Longrightarrow> packet_step x tp = Inr tp' \<Longrightarrow> packet_inv tp'"
  by (cases x; cases "tp_status tp")
    (auto simp: packet_inv_def packet_is_terminal_def machine_simps split: if_splits)

lemma NewTaskPacket_inv: "NewTaskPacket now i p c s inp d = Inr tp \<Longrightarrow> packet_inv tp"
  by (auto simp: NewTaskPacket_def Let_def packet_inv_def is_zero_def)

section \<open>ToolCall\<close>

datatype tool_call_status =
    ToolCallStatusPending | ToolCallStatusExecuting | ToolCallStatusCompleted | ToolCallStatusFailed
  | ToolCallStatusOther string

fun tool_call_status_string :: "tool_call_status \<Rightarrow> string" where
  "tool_call_status_string ToolCallStatusPending = ''pending''"
| "tool_call_status_string ToolCallStatusExecuting = ''executing''"
| "tool_call_status_string ToolCallStatusCompleted = ''completed''"
| "tool_call_status_string ToolCallStatusFailed = ''failed''"
| "tool_call_status_string (ToolCallStatusOther s) = s"

text \<open>\<open>None\<close> arguments are Go's nil map.\<close>

record tool_call =
  tc_id :: string
  tc_session_id :: string
  tc_tool_name :: string
  tc_arguments :: "(string \<rightharpoonup> string) option"
  tc_status :: tool_call_status
  tc_result :: string
  tc_error :: string
  tc_created_at :: time
  tc_updated_at :: time

definition tool_call_validate :: "tool_call \<Rightarrow> go_error + unit" where
  "tool_call_validate tc =
     (if tc_session_id tc = '''' then Inl ''session_id is required''
      else if tc_tool_name tc = '''' then Inl ''tool_name is required''
      else case tc_status tc of
             ToolCallStatusOther s \<Rightarrow> Inl (''invalid tool call status: '' @ s)
           | _ \<Rightarrow> Inr ())"

definition NewToolCall ::
    "time \<Rightarrow> time \<Rightarrow> string \<Rightarrow> string \<Rightarrow> (string \<rightharpoonup> string) option \<Rightarrow> go_error + tool_call" where
  "NewToolCall now1 now2 sessionID toolName arguments =
     (let tc = \<lparr>tc_id = '''', tc_session_id = sessionID, tc_tool_name = toolName,
                tc_arguments = arguments, tc_status = ToolCallStatusPending, tc_result = '''',
                tc_error = '''', tc_created_at = now1, tc_updated_at = now2\<rparr>
      in bind_res (tool_call_validate tc) (\<lambda>_. Inr tc))"

definition tool_call_execute :: "time \<Rightarrow> tool_call \<Rightarrow> go_error + tool_call" where
  "tool_call_execute now tc =
     (if tc_status tc \<noteq> ToolCallStatusPending then Inl ''tool call must be pending to execute''
      else Inr (tc\<lparr>tc_status := ToolCallStatusExecuting, tc_updated_at := now\<rparr>))"

definition tool_call_complete :: "time \<Rightarrow> string \<Rightarrow> tool_call \<Rightarrow> go_error + tool_call" where
  "tool_call_complete now result tc =
     (if tc_status tc \<noteq> ToolCallStatusExecuting then Inl ''tool call must be executing to complete''
      else Inr (tc\<lparr>tc_status := ToolCallStatusCompleted, tc_result := result, tc_updated_at := now\<rparr>))"

definition tool_call_fail :: "time \<Rightarrow> string \<Rightarrow> tool_call \<Rightarrow> go_error + tool_call" where
  "tool_call_fail now errMsg tc =
     (if tc_status tc \<noteq> ToolCallStatusExecuting then Inl ''tool call must be executing to fail''
      else Inr (tc\<lparr>tc_status := ToolCallStatusFailed, tc_error := errMsg, tc_updated_at := now\<rparr>))"

definition tool_call_is_completed :: "tool_call \<Rightarrow> bool" where
  "tool_call_is_completed tc \<longleftrightarrow> tc_status tc = ToolCallStatusCompleted"

definition tool_call_is_failed :: "tool_call \<Rightarrow> bool" where
  "tool_call_is_failed tc \<longleftrightarrow> tc_status tc = ToolCallStatusFailed"

definition GetArgument :: "string \<Rightarrow> tool_call \<Rightarrow> string \<times> bool" where
  "GetArgument key tc =
     (case tc_arguments tc of
        None \<Rightarrow> ('''', False)
      | Some m \<Rightarrow> (case m key of None \<Rightarrow> ('''', False) | Some v \<Rightarrow> (v, True)))"

datatype tool_call_op = TcExecute time | TcComplete time string | TcFail time string

fun tool_call_step :: "tool_call_op \<Rightarrow> tool_call \<Rightarrow> go_error + tool_call" where
  "tool_call_step (TcExecute now) tc = tool_call_execute now tc"
| "tool_call_step (TcComplete now r) tc = tool_call_complete now r tc"
| "tool_call_step (TcFail now e) tc = tool_call_fail now e tc"

lemmas tool_call_defs [machine_simps] =
  tool_call_execute_def tool_call_complete_def tool_call_fail_def

definition tool_call_final :: "tool_call \<Rightarrow> bool" where
  "tool_call_final tc \<longleftrightarrow> tool_call_is_completed tc \<or> tool_call_is_failed tc"

interpretation tool_call_machine: guarded_machine tool_call_step tool_call_final
proof
  fix s x
  assume "tool_call_final s"
  then show "\<exists>e. tool_call_step x s = Inl e"
    by (cases x)
      (auto simp: tool_call_final_def tool_call_is_completed_def tool_call_is_failed_def machine_simps)
qed

section \<open>WorkflowExecution\<close>

datatype workflow_status =
    WorkflowStatusPending | WorkflowStatusRunning | WorkflowStatusCompleted
  | WorkflowStatusFailed | WorkflowStatusCancelled | WorkflowStatusOther string

record workflow_execution =
  we_id :: string
  we_task_id :: string
  we_workflow_type :: string
  we_status :: workflow_status
  we_created_at :: time
  we_updated_at :: time

definition workflow_validate :: "workflow_execution \<Rightarrow> go_error + unit" where
  "workflow_validate we =
     (if we_task_id we = '''' then Inl ''task_id is required''
      else if we_workflow_type we = '''' then Inl ''workflow_type is required''
      else if length (we_workflow_type we) > 100 then Inl ''workflow_type must not exceed 100 characters''
      else case we_status we of
             WorkflowStatusOther s \<Rightarrow> Inl (''invalid workflow status: '' @ s)
           | _ \<Rightarrow> Inr ())"

definition NewWorkflowExecution ::
    "time \<Rightarrow> time \<Rightarrow> string \<Rightarrow> string \<Rightarrow> go_error + workflow_execution" where
  "NewWorkflowExecution now1 now2 taskID workflowType =
     (let we = \<lparr>we_id = '''', we_task_id = taskID, we_workflow_type = workflowType,
                we_status = WorkflowStatusPending, we_created_at = now1, we_updated_at = now2\<rparr>
      in bind_res (workflow_validate we) (\<lambda>_. Inr we))"

definition workflow_start :: "time \<Rightarrow> workflow_execution \<Rightarrow> go_error + workflow_execution" where
  "workflow_start now we =
     (if we_status we \<noteq> WorkflowStatusPending then Inl ''workflow must be pending to start''
      else Inr (we\<lparr>we_status := WorkflowStatusRunning, we_updated_at := now\<rparr>))"

definition workflow_complete :: "time \<Rightarrow> workflow_execution \<Rightarrow> go_error + workflow_execution" where
  "workflow_complete now we =
     (if we_status we \<noteq> WorkflowStatusRunning then Inl ''workflow must be running to complete''
      else Inr (we\<lparr>we_status := WorkflowStatusCompleted, we_updated_at := now\<rparr>))"

definition workflow_fail :: "time \<Rightarrow> workflow_execution \<Rightarrow> go_error + workflow_execution" where
  "workflow_fail now we =
     (if we_status we = WorkflowStatusCompleted then Inl ''cannot fail completed workflow''
      else Inr (we\<lparr>we_status := WorkflowStatusFailed, we_updated_at := now\<rparr>))"

definition workflow_cancel :: "time \<Rightarrow> workflow_execution \<Rightarrow> go_error + workflow_execution" where
  "workflow_cancel now we =
     (if we_status we = WorkflowStatusCompleted then Inl ''cannot cancel completed workflow''
      else Inr (we\<lparr>we_status := WorkflowStatusCancelled, we_updated_at := now\<rparr>))"

definition workflow_is_completed :: "workflow_execution \<Rightarrow> bool" where
  "workflow_is_completed we \<longleftrightarrow> we_status we = WorkflowStatusCompleted"

definition workflow_is_failed :: "workflow_execution \<Rightarrow> bool" where
  "workflow_is_failed we \<longleftrightarrow> we_status we = WorkflowStatusFailed"

definition workflow_is_cancelled :: "workflow_execution \<Rightarrow> bool" where
  "workflow_is_cancelled we \<longleftrightarrow> we_status we = WorkflowStatusCancelled"

datatype workflow_op = WfStart time | WfComplete time | WfFail time | WfCancel time

fun workflow_step_op :: "workflow_op \<Rightarrow> workflow_execution \<Rightarrow> go_error + workflow_execution" where
  "workflow_step_op (WfStart now) we = workflow_start now we"
| "workflow_step_op (WfComplete now) we = workflow_complete now we"
| "workflow_step_op (WfFail now) we = workflow_fail now we"
| "workflow_step_op (WfCancel now) we = workflow_cancel now we"

lemmas workflow_defs [machine_simps] =
  workflow_start_def workflow_complete_def workflow_fail_def workflow_cancel_def

interpretation workflow_machine: guarded_machine workflow_step_op workflow_is_completed
proof
  fix s x
  assume "workflow_is_completed s"
  then show "\<exists>e. workflow_step_op x s = Inl e"
    by (cases x) (simp_all add: workflow_is_completed_def machine_simps)
qed

text \<open>
  Failed and cancelled are not final: \<open>Fail\<close> and \<open>Cancel\<close> switch between them.  What does hold is
  that a workflow that failed or was cancelled never runs or completes afterwards.
\<close>

definition workflow_stopped :: "workflow_execution \<Rightarrow> bool" where
  "workflow_stopped we \<longleftrightarrow> workflow_is_failed we \<or> workflow_is_cancelled we"

lemma workflow_stopped_step:
  "workflow_stopped we \<Longrightarrow> workflow_step_op x we = Inr we' \<Longrightarrow> workflow_stopped we'"
  by (cases x) (auto simp: workflow_stopped_def workflow_is_failed_def workflow_is_cancelled_def machine_simps
      split: if_splits)

section \<open>WorkflowStep\<close>

datatype workflow_step_status =
    WorkflowStepStatusPending | WorkflowStepStatusRunning | WorkflowStepStatusCompleted
  | WorkflowStepStatusFailed | WorkflowStepStatusSkipped | WorkflowStepStatusOther string

record workflow_step =
  ws_id :: string
  ws_workflow_id :: string
  ws_step_number :: int
  ws_agent_type_id :: string
  ws_status :: workflow_step_status
  ws_created_at :: time
  ws_updated_at :: time

definition wstep_validate :: "workflow_step \<Rightarrow> go_error + unit" where
  "wstep_validate ws =
     (if ws_workflow_id ws = '''' then Inl ''workflow_id is required''
      else if ws_step_number ws < 0 then Inl ''step_number must be non-negative''
      else if ws_agent_type_id ws = '''' then Inl ''agent_type_id is required''
      else case ws_status ws of
             WorkflowStepStatusOther s \<Rightarrow> Inl (''invalid workflow step status: '' @ s)
           | _ \<Rightarrow> Inr ())"

definition NewWorkflowStep ::
    "time \<Rightarrow> time \<Rightarrow> string \<Rightarrow> int \<Rightarrow> string \<Rightarrow> go_error + workflow_step" where
  "NewWorkflowStep now1 now2 workflowID stepNumber agentTypeID =
     (let ws = \<lparr>ws_id = '''', ws_workflow_id = workflowID, ws_step_number = stepNumber,
                ws_agent_type_id = agentTypeID, ws_status = WorkflowStepStatusPending,
                ws_created_at = now1, ws_updated_at = now2\<rparr>
      in bind_res (wstep_validate ws) (\<lambda>_. Inr ws))"

definition wstep_start :: "time \<Rightarrow> workflow_step \<Rightarrow> go_error + workflow_step" where
  "wstep_start now ws =
     (if ws_status ws \<noteq> WorkflowStepStatusPending then Inl ''step must be pending to start''
      else Inr (ws\<lparr>ws_status := WorkflowStepStatusRunning, ws_updated_at := now\<rparr>))"

definition wstep_complete :: "time \<Rightarrow> workflow_step \<Rightarrow> go_error + workflow_step" where
  "wstep_complete now ws =
     (if ws_status ws \<noteq> WorkflowStepStatusRunning then Inl ''step must be running to complete''
      else Inr (ws\<lparr>ws_status := WorkflowStepStatusCompleted, ws_updated_at := now\<rparr>))"

definition wstep_fail :: "time \<Rightarrow> workflow_step \<Rightarrow> go_error + workflow_step" where
  "wstep_fail now ws =
     (if ws_status ws = WorkflowStepStatusCompleted then Inl ''cannot fail completed step''
      else Inr (ws\<lparr>ws_status := WorkflowStepStatusFailed, ws_updated_at := now\<rparr>))"

definition wstep_skip :: "time \<Rightarrow> workflow_step \<Rightarrow> go_error + workflow_step" where
  "wstep_skip now ws =
     (if ws_status ws \<noteq> WorkflowStepStatusPending then Inl ''only pending steps can be skipped''
      else Inr (ws\<lparr>ws_status := WorkflowStepStatusSkipped, ws_updated_at := now\<rparr>))"

definition wstep_is_completed :: "workflow_step \<Rightarrow> bool" where
  "wstep_is_completed ws \<longleftrightarrow> ws_status ws = WorkflowStepStatusCompleted"

definition wstep_is_failed :: "workflow_step \<Rightarrow> bool" where
  "wstep_is_failed ws \<longleftrightarrow> ws_status ws = WorkflowStepStatusFailed"

definition wstep_is_skipped :: "workflow_step \<Rightarrow> bool" where
  "wstep_is_skipped ws \<longleftrightarrow> ws_status ws = WorkflowStepStatusSkipped"

datatype wstep_op = WsStart time | WsComplete time | WsFail time | WsSkip time

fun wstep_step :: "wstep_op \<Rightarrow> workflow_step \<Rightarrow> go_error + workflow_step" where
  "wstep_step (WsStart now) ws = wstep_start now ws"
| "wstep_step (WsComplete now) ws = wstep_complete now ws"
| "wstep_step (WsFail now) ws = wstep_fail now ws"
| "wstep_step (WsSkip now) ws = wstep_skip now ws"

lemmas wstep_defs [machine_simps] =
  wstep_start_def wstep_complete_def wstep_fail_def wstep_skip_def

interpretation wstep_machine: guarded_machine wstep_step wstep_is_completed
proof
  fix s x
  assume "wstep_is_completed s"
  then show "\<exists>e. wstep_step x s = Inl e"
    by (cases x) (simp_all add: wstep_is_completed_def machine_simps)
qed

text \<open>A skipped step can still be failed, but it is never started or completed.\<close>

definition wstep_not_run :: "workflow_step \<Rightarrow> bool" where
  "wstep_not_run ws \<longleftrightarrow> wstep_is_skipped ws \<or> wstep_is_failed ws"

lemma wstep_not_run_step: "wstep_not_run ws \<Longrightarrow> wstep_step x ws = Inr ws' \<Longrightarrow> wstep_not_run ws'"
  by (cases x) (auto simp: wstep_not_run_def wstep_is_skipped_def wstep_is_failed_def machine_simps
      split: if_splits)

section \<open>Properties\<close>

text \<open>A task packet that has completed, failed or timed out is never changed again, and at any
  point of the life of a packet made by NewTaskPacket a result is present only in the completed
  state, an error only in the failed and timed-out states, and a finish time only in final states.\<close>

theorem packet_life:
  assumes "NewTaskPacket now i p c s inp d = Inr tp"
  shows "packet_inv (run_ops packet_step xs tp) \<and>
    (packet_is_terminal (run_ops packet_step xs tp) \<longrightarrow>
       run_ops packet_step (xs @ ys) tp = run_ops packet_step xs tp)"
proof
  show "packet_inv (run_ops packet_step xs tp)"
    by (rule run_ops_invariant [where P = packet_inv and step = packet_step])
      (auto intro: packet_step_inv NewTaskPacket_inv [OF assms])
qed (auto intro: packet_machine.terminal_final)

definition sample_packet :: task_packet where
  "sample_packet = \<lparr>tp_id = ''t'', tp_parent_agent = ''p'', tp_child_agent = ''c'',
     tp_session_id = ''s'', tp_input = ''go'', tp_status = TaskPacketPending, tp_result = '''',
     tp_error = '''', tp_timeout = 0, tp_created_at = 1, tp_started_at = 0, tp_finished_at = 0\<rparr>"

theorem packet_life_witness:
  "packet_inv (run_ops packet_step [PkStart 2, PkTimeout 9] sample_packet) \<and>
   run_ops packet_step ([PkStart 2, PkTimeout 9] @ [PkComplete 10 ''late'']) sample_packet
     = run_ops packet_step [PkStart 2, PkTimeout 9] sample_packet"
proof -
  have new: "NewTaskPacket 1 ''t'' ''p'' ''c'' ''s'' ''go'' 0 = Inr sample_packet"
    by (simp add: NewTaskPacket_def packet_validate_def sample_packet_def zero_time_def)
  have "packet_is_terminal (run_ops packet_step [PkStart 2, PkTimeout 9] sample_packet)"
    by (simp add: sample_packet_def machine_simps packet_is_terminal_def)
  with packet_life [OF new] show ?thesis by blast
qed

text \<open>A workflow execution that failed or was cancelled never runs or completes afterwards,
  and a completed one never changes: whatever calls follow, the first stays failed or cancelled.\<close>

theorem workflow_stopped_stays_stopped:
  "workflow_stopped we \<Longrightarrow> workflow_stopped (run_ops workflow_step_op xs we)"
  by (rule run_ops_invariant [where P = workflow_stopped]) (rule workflow_stopped_step)

theorem workflow_stopped_stays_stopped_witness:
  "workflow_stopped (run_ops workflow_step_op [WfStart 5, WfFail 6, WfComplete 7]
     \<lparr>we_id = ''w'', we_task_id = ''t'', we_workflow_type = ''review'',
      we_status = WorkflowStatusCancelled, we_created_at = 1, we_updated_at = 2\<rparr>)"
  by (rule workflow_stopped_stays_stopped) (simp add: workflow_stopped_def workflow_is_cancelled_def)

end
