(* ===== verification/Domain_Task.thy ===== *)
theory Domain_Task
  imports Prelude "HOL-Library.Word"
begin

text \<open>
  The engine task, the universal unit of work (\<open>internal/domain/engine_task.go\<close>): its record,
  the table of allowed status transitions and every method of the entity.  The lemmas show the
  shape of the state machine (terminal states are final, reachability), that the timestamps
  agree with the status in every reachable task, and that failed calls change nothing.
\<close>

section \<open>Status, mode and the entity\<close>

text \<open>
  \<open>EngineTaskStatus\<close> is a Go string type with eight declared values; every other string that
  code casts to it (an agent may pass any text to \<open>set_status\<close>) is \<open>EngineTaskStatusOther\<close>.
\<close>

datatype engine_task_status =
    EngineTaskStatusDraft
  | EngineTaskStatusApproved
  | EngineTaskStatusPending
  | EngineTaskStatusInProgress
  | EngineTaskStatusCompleted
  | EngineTaskStatusFailed
  | EngineTaskStatusNeedsInput
  | EngineTaskStatusCancelled
  | EngineTaskStatusOther string

fun task_status_string :: "engine_task_status \<Rightarrow> string" where
  "task_status_string EngineTaskStatusDraft = ''draft''"
| "task_status_string EngineTaskStatusApproved = ''approved''"
| "task_status_string EngineTaskStatusPending = ''pending''"
| "task_status_string EngineTaskStatusInProgress = ''in_progress''"
| "task_status_string EngineTaskStatusCompleted = ''completed''"
| "task_status_string EngineTaskStatusFailed = ''failed''"
| "task_status_string EngineTaskStatusNeedsInput = ''needs_input''"
| "task_status_string EngineTaskStatusCancelled = ''cancelled''"
| "task_status_string (EngineTaskStatusOther s) = s"

definition task_status_of_string :: "string \<Rightarrow> engine_task_status" where
  "task_status_of_string s =
     (if s = ''draft'' then EngineTaskStatusDraft
      else if s = ''approved'' then EngineTaskStatusApproved
      else if s = ''pending'' then EngineTaskStatusPending
      else if s = ''in_progress'' then EngineTaskStatusInProgress
      else if s = ''completed'' then EngineTaskStatusCompleted
      else if s = ''failed'' then EngineTaskStatusFailed
      else if s = ''needs_input'' then EngineTaskStatusNeedsInput
      else if s = ''cancelled'' then EngineTaskStatusCancelled
      else EngineTaskStatusOther s)"

datatype task_mode = TaskModeInteractive | TaskModeBackground | TaskModeOther string

text \<open>\<open>uuid.UUID\<close> is an array of 16 bytes; \<open>uuid.Nil\<close> is all zero.\<close>

type_synonym uuid = "128 word"

definition uuid_Nil :: uuid where
  "uuid_Nil = 0"

record engine_task =
  et_id :: uuid
  et_tenant_id :: string
  et_title :: string
  et_description :: string
  et_acceptance_criteria :: "string list"
  et_session_id :: string
  et_parent_task_id :: "uuid option"
  et_status :: engine_task_status
  et_mode :: task_mode
  et_priority :: int
  et_blocked_by :: "uuid list"
  et_result :: string
  et_error :: string
  et_created_at :: time
  et_updated_at :: time
  et_approved_at :: "time option"
  et_started_at :: "time option"
  et_completed_at :: "time option"

datatype task_error =
    ErrInvalidTransition engine_task_status engine_task_status
  | ErrInvalidPriority int
  | ErrTitleRequired

section \<open>The methods of EngineTask\<close>

definition task_is_top_level :: "engine_task \<Rightarrow> bool" where
  "task_is_top_level t \<longleftrightarrow> et_parent_task_id t = None"

definition terminal_status :: "engine_task_status \<Rightarrow> bool" where
  "terminal_status s \<longleftrightarrow>
     s = EngineTaskStatusCompleted \<or> s = EngineTaskStatusFailed \<or> s = EngineTaskStatusCancelled"

definition task_is_terminal :: "engine_task \<Rightarrow> bool" where
  "task_is_terminal t \<longleftrightarrow> terminal_status (et_status t)"

text \<open>\<open>None\<close> is a status missing from the map \<open>engineTaskValidTransitions\<close>.\<close>

fun engineTaskValidTransitions :: "engine_task_status \<Rightarrow> engine_task_status list option" where
  "engineTaskValidTransitions EngineTaskStatusDraft =
     Some [EngineTaskStatusApproved, EngineTaskStatusCancelled]"
| "engineTaskValidTransitions EngineTaskStatusApproved =
     Some [EngineTaskStatusInProgress, EngineTaskStatusCancelled]"
| "engineTaskValidTransitions EngineTaskStatusPending =
     Some [EngineTaskStatusInProgress, EngineTaskStatusCancelled]"
| "engineTaskValidTransitions EngineTaskStatusInProgress =
     Some [EngineTaskStatusCompleted, EngineTaskStatusFailed,
           EngineTaskStatusNeedsInput, EngineTaskStatusCancelled]"
| "engineTaskValidTransitions EngineTaskStatusNeedsInput =
     Some [EngineTaskStatusInProgress, EngineTaskStatusFailed, EngineTaskStatusCancelled]"
| "engineTaskValidTransitions EngineTaskStatusCompleted = Some []"
| "engineTaskValidTransitions EngineTaskStatusFailed = Some []"
| "engineTaskValidTransitions EngineTaskStatusCancelled = Some []"
| "engineTaskValidTransitions (EngineTaskStatusOther _) = None"

definition task_can_transition_to :: "engine_task \<Rightarrow> engine_task_status \<Rightarrow> bool" where
  "task_can_transition_to t target =
     (case engineTaskValidTransitions (et_status t) of
        None \<Rightarrow> False
      | Some allowed \<Rightarrow> target \<in> set allowed)"

text \<open>The \<open>switch\<close> of \<open>Transition\<close> that stamps the time of the change.\<close>

fun stamp_transition :: "time \<Rightarrow> engine_task_status \<Rightarrow> engine_task \<Rightarrow> engine_task" where
  "stamp_transition now EngineTaskStatusApproved t = t\<lparr>et_approved_at := Some now\<rparr>"
| "stamp_transition now EngineTaskStatusInProgress t =
     (if et_started_at t = None then t\<lparr>et_started_at := Some now\<rparr> else t)"
| "stamp_transition now EngineTaskStatusCompleted t = t\<lparr>et_completed_at := Some now\<rparr>"
| "stamp_transition now EngineTaskStatusFailed t = t\<lparr>et_completed_at := Some now\<rparr>"
| "stamp_transition now EngineTaskStatusCancelled t = t\<lparr>et_completed_at := Some now\<rparr>"
| "stamp_transition now _ t = t"

definition task_transition :: "time \<Rightarrow> engine_task_status \<Rightarrow> engine_task \<Rightarrow> task_error + engine_task" where
  "task_transition now target t =
     (if \<not> task_can_transition_to t target then Inl (ErrInvalidTransition (et_status t) target)
      else Inr (stamp_transition now target (t\<lparr>et_status := target, et_updated_at := now\<rparr>)))"

definition task_approve :: "time \<Rightarrow> engine_task \<Rightarrow> task_error + engine_task" where
  "task_approve now t = task_transition now EngineTaskStatusApproved t"

definition task_start :: "time \<Rightarrow> engine_task \<Rightarrow> task_error + engine_task" where
  "task_start now t = task_transition now EngineTaskStatusInProgress t"

definition task_complete :: "time \<Rightarrow> string \<Rightarrow> engine_task \<Rightarrow> task_error + engine_task" where
  "task_complete now result t =
     bind_res (task_transition now EngineTaskStatusCompleted t) (\<lambda>t'. Inr (t'\<lparr>et_result := result\<rparr>))"

definition task_fail :: "time \<Rightarrow> string \<Rightarrow> engine_task \<Rightarrow> task_error + engine_task" where
  "task_fail now reason t =
     bind_res (task_transition now EngineTaskStatusFailed t) (\<lambda>t'. Inr (t'\<lparr>et_error := reason\<rparr>))"

definition task_cancel :: "time \<Rightarrow> engine_task \<Rightarrow> task_error + engine_task" where
  "task_cancel now t = task_transition now EngineTaskStatusCancelled t"

definition task_set_priority :: "time \<Rightarrow> int \<Rightarrow> engine_task \<Rightarrow> task_error + engine_task" where
  "task_set_priority now p t =
     (if p < 0 \<or> p > 2 then Inl (ErrInvalidPriority p)
      else Inr (t\<lparr>et_priority := p, et_updated_at := now\<rparr>))"

definition task_has_blockers :: "engine_task \<Rightarrow> bool" where
  "task_has_blockers t \<longleftrightarrow> length (et_blocked_by t) > 0"

definition task_validate :: "engine_task \<Rightarrow> task_error + unit" where
  "task_validate t =
     (if et_title t = '''' then Inl ErrTitleRequired
      else if et_priority t < 0 \<or> et_priority t > 2 then Inl (ErrInvalidPriority (et_priority t))
      else Inr ())"

section \<open>The state machine\<close>

text \<open>The calls a client can make to move a task through its life.\<close>

datatype task_op =
    OpTransition time engine_task_status
  | OpComplete time string
  | OpFail time string

fun task_step :: "task_op \<Rightarrow> engine_task \<Rightarrow> task_error + engine_task" where
  "task_step (OpTransition now target) t = task_transition now target t"
| "task_step (OpComplete now result) t = task_complete now result t"
| "task_step (OpFail now reason) t = task_fail now reason t"

fun op_time :: "task_op \<Rightarrow> time" where
  "op_time (OpTransition now _) = now"
| "op_time (OpComplete now _) = now"
| "op_time (OpFail now _) = now"

fun op_target :: "task_op \<Rightarrow> engine_task_status" where
  "op_target (OpTransition _ target) = target"
| "op_target (OpComplete _ _) = EngineTaskStatusCompleted"
| "op_target (OpFail _ _) = EngineTaskStatusFailed"

lemmas task_method_defs = task_transition_def task_approve_def task_start_def task_complete_def task_fail_def task_cancel_def

lemma terminal_status_simps [simp]:
  "\<not> terminal_status EngineTaskStatusDraft"
  "\<not> terminal_status EngineTaskStatusApproved"
  "\<not> terminal_status EngineTaskStatusPending"
  "\<not> terminal_status EngineTaskStatusInProgress"
  "\<not> terminal_status EngineTaskStatusNeedsInput"
  "\<not> terminal_status (EngineTaskStatusOther s)"
  "terminal_status EngineTaskStatusCompleted"
  "terminal_status EngineTaskStatusFailed"
  "terminal_status EngineTaskStatusCancelled"
  by (simp_all add: terminal_status_def)

lemma stamp_transition_status [simp]: "et_status (stamp_transition now s t) = et_status t"
  by (cases s) auto

lemma stamp_transition_frame [frame_simps]:
  "et_id (stamp_transition now s t) = et_id t"
  "et_tenant_id (stamp_transition now s t) = et_tenant_id t"
  "et_title (stamp_transition now s t) = et_title t"
  "et_description (stamp_transition now s t) = et_description t"
  "et_acceptance_criteria (stamp_transition now s t) = et_acceptance_criteria t"
  "et_session_id (stamp_transition now s t) = et_session_id t"
  "et_parent_task_id (stamp_transition now s t) = et_parent_task_id t"
  "et_mode (stamp_transition now s t) = et_mode t"
  "et_priority (stamp_transition now s t) = et_priority t"
  "et_blocked_by (stamp_transition now s t) = et_blocked_by t"
  "et_result (stamp_transition now s t) = et_result t"
  "et_error (stamp_transition now s t) = et_error t"
  "et_created_at (stamp_transition now s t) = et_created_at t"
  "et_updated_at (stamp_transition now s t) = et_updated_at t"
  by (cases s; simp)+

lemma transition_Inr_iff:
  "task_transition now target t = Inr t' \<longleftrightarrow>
     task_can_transition_to t target \<and>
     t' = stamp_transition now target (t\<lparr>et_status := target, et_updated_at := now\<rparr>)"
  by (auto simp: task_transition_def)

lemma transition_status: "task_transition now target t = Inr t' \<Longrightarrow> et_status t' = target"
  by (auto simp: transition_Inr_iff)

lemma transition_identity:
  "task_transition now target t = Inr t' \<Longrightarrow>
     et_id t' = et_id t \<and> et_tenant_id t' = et_tenant_id t \<and> et_session_id t' = et_session_id t \<and>
     et_parent_task_id t' = et_parent_task_id t \<and> et_title t' = et_title t \<and>
     et_priority t' = et_priority t \<and> et_blocked_by t' = et_blocked_by t"
  by (auto simp: transition_Inr_iff frame_simps)

lemma can_transition_terminal: "task_is_terminal t \<Longrightarrow> \<not> task_can_transition_to t target"
  by (auto simp: task_is_terminal_def terminal_status_def task_can_transition_to_def)

lemma can_cancel_iff:
  "task_can_transition_to t EngineTaskStatusCancelled \<longleftrightarrow>
     \<not> task_is_terminal t \<and> (\<forall>s. et_status t \<noteq> EngineTaskStatusOther s)"
  by (cases "et_status t") (auto simp: task_can_transition_to_def task_is_terminal_def)

lemma task_step_status: "task_step x t = Inr t' \<Longrightarrow> et_status t' = op_target x"
  by (cases x) (auto simp: task_complete_def task_fail_def dest: transition_status)

lemma task_step_allowed: "task_step x t = Inr t' \<Longrightarrow> task_can_transition_to t (op_target x)"
  by (cases x) (auto simp: task_complete_def task_fail_def transition_Inr_iff)

text \<open>\<open>Complete\<close> and \<open>Fail\<close> are a transition followed by the assignment of one text field.\<close>

lemma task_step_invariant:
  assumes "P t" and "task_step x t = Inr t'"
    and "\<And>t' now target. P t \<Longrightarrow> task_transition now target t = Inr t' \<Longrightarrow> P t'"
    and "\<And>t r. P t \<Longrightarrow> P (t\<lparr>et_result := r\<rparr>)" and "\<And>t e. P t \<Longrightarrow> P (t\<lparr>et_error := e\<rparr>)"
  shows "P t'"
  using assms(1,2) by (cases x) (auto simp: task_complete_def task_fail_def intro: assms(3-5))

interpretation task_machine: guarded_machine task_step task_is_terminal
  by unfold_locales
    (metis can_transition_terminal task_step_allowed sumE)

section \<open>Timestamps agree with the status\<close>

definition fresh_task :: "engine_task \<Rightarrow> bool" where
  "fresh_task t \<longleftrightarrow>
     (et_status t = EngineTaskStatusDraft \<or> et_status t = EngineTaskStatusPending) \<and>
     et_approved_at t = None \<and> et_started_at t = None \<and> et_completed_at t = None"

definition has_started :: "engine_task_status \<Rightarrow> bool" where
  "has_started s \<longleftrightarrow>
     s = EngineTaskStatusInProgress \<or> s = EngineTaskStatusNeedsInput \<or>
     s = EngineTaskStatusCompleted \<or> s = EngineTaskStatusFailed"

definition wf_task :: "engine_task \<Rightarrow> bool" where
  "wf_task t \<longleftrightarrow>
     (et_completed_at t \<noteq> None \<longleftrightarrow> task_is_terminal t) \<and>
     (has_started (et_status t) \<longrightarrow> et_started_at t \<noteq> None) \<and>
     (et_status t = EngineTaskStatusApproved \<longrightarrow> et_approved_at t \<noteq> None) \<and>
     (et_status t = EngineTaskStatusDraft \<or> et_status t = EngineTaskStatusPending \<or>
        et_status t = EngineTaskStatusApproved \<longrightarrow> et_started_at t = None)"

lemma wf_task_fresh: "fresh_task t \<Longrightarrow> wf_task t"
  by (auto simp: fresh_task_def wf_task_def task_is_terminal_def has_started_def)

lemma wf_task_result [simp]:
  "wf_task (t\<lparr>et_result := r\<rparr>) = wf_task t" "wf_task (t\<lparr>et_error := e\<rparr>) = wf_task t"
  by (simp_all add: wf_task_def task_is_terminal_def)

text \<open>Case analysis over the thirteen edges of the transition table.\<close>

lemma can_transitionE [consumes 1]:
  assumes "task_can_transition_to t target"
  obtains
    "et_status t = EngineTaskStatusDraft" "target = EngineTaskStatusApproved"
  | "et_status t = EngineTaskStatusDraft" "target = EngineTaskStatusCancelled"
  | "et_status t = EngineTaskStatusApproved" "target = EngineTaskStatusInProgress"
  | "et_status t = EngineTaskStatusApproved" "target = EngineTaskStatusCancelled"
  | "et_status t = EngineTaskStatusPending" "target = EngineTaskStatusInProgress"
  | "et_status t = EngineTaskStatusPending" "target = EngineTaskStatusCancelled"
  | "et_status t = EngineTaskStatusInProgress" "target = EngineTaskStatusCompleted"
  | "et_status t = EngineTaskStatusInProgress" "target = EngineTaskStatusFailed"
  | "et_status t = EngineTaskStatusInProgress" "target = EngineTaskStatusNeedsInput"
  | "et_status t = EngineTaskStatusInProgress" "target = EngineTaskStatusCancelled"
  | "et_status t = EngineTaskStatusNeedsInput" "target = EngineTaskStatusInProgress"
  | "et_status t = EngineTaskStatusNeedsInput" "target = EngineTaskStatusFailed"
  | "et_status t = EngineTaskStatusNeedsInput" "target = EngineTaskStatusCancelled"
  using assms by (cases "et_status t") (auto simp: task_can_transition_to_def)

lemma transition_wf: "wf_task t \<Longrightarrow> task_transition now target t = Inr t' \<Longrightarrow> wf_task t'"
  unfolding transition_Inr_iff
  by (elim conjE can_transitionE; simp add: wf_task_def task_is_terminal_def has_started_def)

lemma task_step_wf: "wf_task t \<Longrightarrow> task_step x t = Inr t' \<Longrightarrow> wf_task t'"
  by (erule task_step_invariant [where P = wf_task]) (auto dest: transition_wf)

text \<open>A started task keeps its first start time, whatever happens to it afterwards.\<close>

lemma transition_started:
  "task_transition now target t = Inr t' \<Longrightarrow> et_started_at t = Some s \<Longrightarrow> et_started_at t' = Some s"
  by (cases target) (auto simp: transition_Inr_iff)

lemma task_step_started:
  "task_step x t = Inr t' \<Longrightarrow> et_started_at t = Some s \<Longrightarrow> et_started_at t' = Some s"
  by (cases x) (auto simp: task_complete_def task_fail_def dest: transition_started)

section \<open>The approval gate\<close>

text \<open>
  A task that was created as a draft has been started only if it was approved: its invariant
  is that it either still waits for approval, was cancelled before it, or carries the time of
  the approval.
\<close>

definition approval_gate :: "engine_task \<Rightarrow> bool" where
  "approval_gate t \<longleftrightarrow>
     et_approved_at t \<noteq> None \<or>
     (et_started_at t = None \<and>
       (et_status t = EngineTaskStatusDraft \<or> et_status t = EngineTaskStatusCancelled))"

lemma transition_gate: "approval_gate t \<Longrightarrow> task_transition now target t = Inr t' \<Longrightarrow> approval_gate t'"
  unfolding transition_Inr_iff
  by (elim conjE can_transitionE; auto simp: approval_gate_def)

lemma task_step_gate: "approval_gate t \<Longrightarrow> task_step x t = Inr t' \<Longrightarrow> approval_gate t'"
  by (erule task_step_invariant [where P = approval_gate])
    (auto dest: transition_gate, auto simp: approval_gate_def)

section \<open>The stamps are ordered in time\<close>

text \<open>
  \<open>time.Now()\<close> reads a monotonic clock, so the operations of one process carry
  non-decreasing times.
\<close>

fun opt_le :: "time option \<Rightarrow> time \<Rightarrow> bool" where
  "opt_le None _ = True"
| "opt_le (Some a) b = (a \<le> b)"

fun opt_ordered :: "time option \<Rightarrow> time option \<Rightarrow> bool" where
  "opt_ordered (Some a) (Some b) = (a \<le> b)"
| "opt_ordered _ _ = True"

definition stamps_ordered :: "time \<Rightarrow> engine_task \<Rightarrow> bool" where
  "stamps_ordered now t \<longleftrightarrow>
     opt_le (et_approved_at t) now \<and> opt_le (et_started_at t) now \<and> opt_le (et_completed_at t) now \<and>
     opt_ordered (et_approved_at t) (et_started_at t) \<and>
     opt_ordered (et_approved_at t) (et_completed_at t) \<and>
     opt_ordered (et_started_at t) (et_completed_at t)"

lemma stamps_ordered_text [simp]:
  "stamps_ordered now (t\<lparr>et_result := r\<rparr>) = stamps_ordered now t"
  "stamps_ordered now (t\<lparr>et_error := e\<rparr>) = stamps_ordered now t"
  by (simp_all add: stamps_ordered_def)

lemma opt_le_trans: "opt_le x a \<Longrightarrow> a \<le> b \<Longrightarrow> opt_le x b"
  by (cases x) auto

lemma opt_ordered_new: "opt_le x a \<Longrightarrow> opt_ordered x (Some a)"
  by (cases x) auto

lemma stamps_ordered_later: "stamps_ordered a t \<Longrightarrow> a \<le> b \<Longrightarrow> stamps_ordered b t"
  by (auto simp: stamps_ordered_def intro: opt_le_trans)

lemma transition_ordered:
  assumes "stamps_ordered a t" "wf_task t" "a \<le> now" "task_transition now target t = Inr t'"
  shows "stamps_ordered now t'"
proof -
  have le: "opt_le (et_approved_at t) now" "opt_le (et_started_at t) now"
    using assms(1,3) by (auto simp: stamps_ordered_def intro: opt_le_trans)
  have none: "et_completed_at t = None"
    using assms(2,4) can_transition_terminal by (auto simp: wf_task_def transition_Inr_iff)
  have old: "opt_ordered (et_approved_at t) (et_started_at t)"
    using assms(1) by (simp add: stamps_ordered_def)
  have "target = EngineTaskStatusApproved \<Longrightarrow> et_started_at t = None"
    using assms(2,4) unfolding transition_Inr_iff by (elim conjE can_transitionE) (simp_all add: wf_task_def)
  then show ?thesis
    using assms(4) le none old
    by (cases target) (simp_all add: transition_Inr_iff stamps_ordered_def opt_ordered_new)
qed

lemma task_step_ordered:
  assumes "stamps_ordered a t" "wf_task t" "a \<le> op_time x" "task_step x t = Inr t'"
  shows "stamps_ordered (op_time x) t'"
  using assms(3,4)
  by (cases x) (auto simp: task_complete_def task_fail_def intro: transition_ordered [OF assms(1,2)])

lemma run_ordered:
  assumes "stamps_ordered a t" "wf_task t" "sorted (a # map op_time xs)"
  shows "stamps_ordered (last (a # map op_time xs)) (run_ops task_step xs t)"
  using assms
proof (induction xs arbitrary: a t)
  case Nil
  then show ?case by simp
next
  case (Cons x xs)
  then have le: "a \<le> op_time x" and so: "sorted (op_time x # map op_time xs)" by auto
  show ?case
  proof (cases "task_step x t")
    case (Inl e)
    then show ?thesis
      using Cons.IH [OF stamps_ordered_later [OF Cons.prems(1) le] Cons.prems(2) so] by simp
  next
    case (Inr t')
    with Cons.IH [OF task_step_ordered [OF Cons.prems(1,2) le Inr] task_step_wf [OF Cons.prems(2) Inr] so]
    show ?thesis by simp
  qed
qed

lemma fresh_stamps: "fresh_task t \<Longrightarrow> stamps_ordered a t"
  by (simp add: fresh_task_def stamps_ordered_def)

section \<open>Reachable statuses\<close>

inductive status_step :: "engine_task_status \<Rightarrow> engine_task_status \<Rightarrow> bool" where
  "engineTaskValidTransitions s = Some allowed \<Longrightarrow> s' \<in> set allowed \<Longrightarrow> status_step s s'"

inductive_cases status_step_from_completed: "status_step EngineTaskStatusCompleted s"
inductive_simps status_step_iff: "status_step s s'"

lemma status_step_can: "status_step (et_status t) s \<longleftrightarrow> task_can_transition_to t s"
  by (auto simp: status_step_iff task_can_transition_to_def split: option.splits)

lemma run_status_reach: "status_step\<^sup>*\<^sup>* (et_status t) (et_status (run_ops task_step xs t))"
proof (induction xs arbitrary: t)
  case Nil
  then show ?case by simp
next
  case (Cons x xs)
  show ?case
  proof (cases "task_step x t")
    case (Inl e)
    then show ?thesis using Cons by simp
  next
    case (Inr t')
    then have "status_step (et_status t) (et_status t')"
      by (simp add: status_step_can task_step_status task_step_allowed)
    with Inr Cons [of t'] show ?thesis by (simp add: converse_rtranclp_into_rtranclp)
  qed
qed

section \<open>Properties\<close>

definition sample_task :: "engine_task_status \<Rightarrow> engine_task" where
  "sample_task s =
     \<lparr>et_id = 7, et_tenant_id = ''tenant'', et_title = ''Fix the build'', et_description = '''',
      et_acceptance_criteria = [], et_session_id = ''s1'', et_parent_task_id = None, et_status = s,
      et_mode = TaskModeInteractive, et_priority = 0, et_blocked_by = [], et_result = '''',
      et_error = '''', et_created_at = 10, et_updated_at = 10, et_approved_at = None,
      et_started_at = None, et_completed_at = None\<rparr>"

lemmas sample_run_simps =
  sample_task_def task_transition_def task_can_transition_to_def task_complete_def task_fail_def

text \<open>Once a sequence of calls has brought a task to completed, failed or cancelled, no later
  call of Transition, Approve, Start, Complete, Fail or Cancel changes any field of it.\<close>

theorem task_terminal_final:
  "task_is_terminal (run_ops task_step xs t) \<Longrightarrow>
   run_ops task_step (xs @ ys) t = run_ops task_step xs t"
  by (rule task_machine.terminal_final)

theorem task_terminal_final_witness:
  "run_ops task_step ([OpTransition 11 EngineTaskStatusCancelled] @
      [OpTransition 12 EngineTaskStatusInProgress, OpComplete 13 ''done''])
      (sample_task EngineTaskStatusPending)
   = run_ops task_step [OpTransition 11 EngineTaskStatusCancelled] (sample_task EngineTaskStatusPending)"
  by (rule task_terminal_final) (simp add: sample_run_simps task_is_terminal_def)

text \<open>In every task reached from a newly created one, the timestamps agree with the status:
  the completion time is set exactly in the terminal states, a task that is in progress, waits
  for input, is completed or failed has a start time, an approved task has an approval time, and
  a task that was not started has none.\<close>

theorem task_stamps_match_status:
  "fresh_task t \<Longrightarrow> wf_task (run_ops task_step xs t)"
  by (rule run_ops_invariant [where P = wf_task]) (auto intro: task_step_wf wf_task_fresh)

theorem task_stamps_match_status_witness:
  "wf_task (run_ops task_step [OpTransition 11 EngineTaskStatusInProgress, OpFail 12 ''no model'']
     (sample_task EngineTaskStatusPending)) \<and>
   et_completed_at (run_ops task_step [OpTransition 11 EngineTaskStatusInProgress, OpFail 12 ''no model'']
     (sample_task EngineTaskStatusPending)) = Some 12"
proof -
  have "fresh_task (sample_task EngineTaskStatusPending)"
    by (simp add: fresh_task_def sample_task_def)
  then show ?thesis by (intro conjI task_stamps_match_status) (simp_all add: sample_run_simps)
qed

text \<open>A task created with approval required is never started unless it was approved: whatever
  calls are made on a fresh draft, if it has a start time it has an approval time.\<close>

theorem task_draft_needs_approval:
  assumes "fresh_task t" and "et_status t = EngineTaskStatusDraft"
    and "et_started_at (run_ops task_step xs t) \<noteq> None"
  shows "et_approved_at (run_ops task_step xs t) \<noteq> None"
proof -
  have "approval_gate t"
    using assms(1,2) by (simp add: fresh_task_def approval_gate_def)
  then have "approval_gate (run_ops task_step xs t)"
    by (rule run_ops_invariant [where P = approval_gate, rotated]) (rule task_step_gate)
  with assms(3) show ?thesis by (auto simp: approval_gate_def)
qed

theorem task_draft_needs_approval_witness:
  "et_approved_at (run_ops task_step
     [OpTransition 11 EngineTaskStatusInProgress, OpTransition 12 EngineTaskStatusApproved,
      OpTransition 13 EngineTaskStatusInProgress] (sample_task EngineTaskStatusDraft)) \<noteq> None"
  by (rule task_draft_needs_approval) (simp_all add: fresh_task_def sample_run_simps)

text \<open>When the clock does not go back between the calls, the stamps of a task are ordered:
  approved no later than started, and started no later than completed.\<close>

theorem task_stamps_ordered_in_time:
  assumes "fresh_task t" and "sorted (map op_time xs)"
  shows "opt_ordered (et_approved_at (run_ops task_step xs t)) (et_started_at (run_ops task_step xs t)) \<and>
         opt_ordered (et_started_at (run_ops task_step xs t)) (et_completed_at (run_ops task_step xs t))"
proof -
  define a where "a = (case xs of [] \<Rightarrow> 0 | x # _ \<Rightarrow> op_time x)"
  have "sorted (a # map op_time xs)"
    using assms(2) by (cases xs) (auto simp: a_def)
  from run_ordered [OF fresh_stamps [OF assms(1)] wf_task_fresh [OF assms(1)] this]
  show ?thesis by (simp add: stamps_ordered_def)
qed

theorem task_stamps_ordered_in_time_witness:
  "opt_ordered
     (et_approved_at (run_ops task_step [OpTransition 12 EngineTaskStatusApproved,
        OpTransition 13 EngineTaskStatusInProgress, OpComplete 20 ''ok''] (sample_task EngineTaskStatusDraft)))
     (et_started_at (run_ops task_step [OpTransition 12 EngineTaskStatusApproved,
        OpTransition 13 EngineTaskStatusInProgress, OpComplete 20 ''ok''] (sample_task EngineTaskStatusDraft))) \<and>
   opt_ordered
     (et_started_at (run_ops task_step [OpTransition 12 EngineTaskStatusApproved,
        OpTransition 13 EngineTaskStatusInProgress, OpComplete 20 ''ok''] (sample_task EngineTaskStatusDraft)))
     (et_completed_at (run_ops task_step [OpTransition 12 EngineTaskStatusApproved,
        OpTransition 13 EngineTaskStatusInProgress, OpComplete 20 ''ok''] (sample_task EngineTaskStatusDraft)))"
  by (rule task_stamps_ordered_in_time) (simp_all add: fresh_task_def sample_task_def)

end
