(* ===== verification/Task_Store.thy ===== *)
theory Task_Store
  imports Domain_Task "HOL-Library.Product_Lexorder"
begin

text \<open>
  The \<open>tasks\<close> table as the task repository sees it: the row (\<open>models.TaskModel\<close>), the mapping
  between rows and entities (\<open>toTaskModel\<close>, \<open>toEngineTask\<close>) and the database itself.  GORM and the
  database are not part of the repository, so they are a parameter: the record \<open>task_sql\<close> of the
  calls the repository makes.  The locale \<open>task_store\<close> states what those calls promise when they
  succeed (every call may also fail); it is interpreted on a table held in memory.

  The columns \<open>acceptance_criteria\<close> and \<open>blocked_by\<close> are JSON arrays in the database; the row
  carries the lists they encode.
\<close>

section \<open>Rows\<close>

fun task_mode_string :: "task_mode \<Rightarrow> string" where
  "task_mode_string TaskModeInteractive = ''interactive''"
| "task_mode_string TaskModeBackground = ''background''"
| "task_mode_string (TaskModeOther s) = s"

definition task_mode_of_string :: "string \<Rightarrow> task_mode" where
  "task_mode_of_string s =
     (if s = ''interactive'' then TaskModeInteractive
      else if s = ''background'' then TaskModeBackground else TaskModeOther s)"

record task_model =
  tm_id :: uuid
  tm_title :: string
  tm_description :: string
  tm_acceptance_criteria :: "string list"
  tm_session_id :: string
  tm_parent_task_id :: "uuid option"
  tm_status :: string
  tm_mode :: string
  tm_priority :: int
  tm_blocked_by :: "uuid list"
  tm_result :: string
  tm_error :: string
  tm_tenant_id :: string
  tm_created_at :: time
  tm_updated_at :: time
  tm_approved_at :: "time option"
  tm_started_at :: "time option"
  tm_completed_at :: "time option"

text \<open>The tenant column is left empty here; every caller fills it in.\<close>

definition toTaskModel :: "engine_task \<Rightarrow> task_model" where
  "toTaskModel t =
     \<lparr>tm_id = et_id t, tm_title = et_title t, tm_description = et_description t,
      tm_acceptance_criteria = et_acceptance_criteria t, tm_session_id = et_session_id t,
      tm_parent_task_id = et_parent_task_id t, tm_status = task_status_string (et_status t),
      tm_mode = task_mode_string (et_mode t), tm_priority = et_priority t,
      tm_blocked_by = et_blocked_by t, tm_result = et_result t, tm_error = et_error t,
      tm_tenant_id = '''', tm_created_at = et_created_at t, tm_updated_at = et_updated_at t,
      tm_approved_at = et_approved_at t, tm_started_at = et_started_at t,
      tm_completed_at = et_completed_at t\<rparr>"

definition toEngineTask :: "task_model \<Rightarrow> engine_task" where
  "toEngineTask m =
     \<lparr>et_id = tm_id m, et_tenant_id = '''', et_title = tm_title m, et_description = tm_description m,
      et_acceptance_criteria = tm_acceptance_criteria m, et_session_id = tm_session_id m,
      et_parent_task_id = tm_parent_task_id m, et_status = task_status_of_string (tm_status m),
      et_mode = task_mode_of_string (tm_mode m), et_priority = tm_priority m,
      et_blocked_by = tm_blocked_by m, et_result = tm_result m, et_error = tm_error m,
      et_created_at = tm_created_at m, et_updated_at = tm_updated_at m,
      et_approved_at = tm_approved_at m, et_started_at = tm_started_at m,
      et_completed_at = tm_completed_at m\<rparr>"

named_theorems row_simps \<open>fields of rows and entities through the mapping\<close>

lemma toTaskModel_fields [row_simps]:
  "tm_id (toTaskModel t) = et_id t"
  "tm_session_id (toTaskModel t) = et_session_id t"
  "tm_parent_task_id (toTaskModel t) = et_parent_task_id t"
  "tm_status (toTaskModel t) = task_status_string (et_status t)"
  "tm_mode (toTaskModel t) = task_mode_string (et_mode t)"
  "tm_priority (toTaskModel t) = et_priority t"
  "tm_blocked_by (toTaskModel t) = et_blocked_by t"
  "tm_approved_at (toTaskModel t) = et_approved_at t"
  "tm_started_at (toTaskModel t) = et_started_at t"
  "tm_completed_at (toTaskModel t) = et_completed_at t"
  by (simp_all add: toTaskModel_def)

lemma toEngineTask_fields [row_simps]:
  "et_id (toEngineTask m) = tm_id m"
  "et_session_id (toEngineTask m) = tm_session_id m"
  "et_parent_task_id (toEngineTask m) = tm_parent_task_id m"
  "et_status (toEngineTask m) = task_status_of_string (tm_status m)"
  "et_mode (toEngineTask m) = task_mode_of_string (tm_mode m)"
  "et_priority (toEngineTask m) = tm_priority m"
  "et_blocked_by (toEngineTask m) = tm_blocked_by m"
  "et_approved_at (toEngineTask m) = tm_approved_at m"
  "et_started_at (toEngineTask m) = tm_started_at m"
  "et_completed_at (toEngineTask m) = tm_completed_at m"
  by (simp_all add: toEngineTask_def)

text \<open>A status an entity can hold after it was read from a row.\<close>

definition plain_status :: "engine_task_status \<Rightarrow> bool" where
  "plain_status s \<longleftrightarrow> task_status_of_string (task_status_string s) = s"

lemma task_status_string_of [simp]: "task_status_string (task_status_of_string s) = s"
  by (simp add: task_status_of_string_def)

lemma plain_status_of_string [simp]: "plain_status (task_status_of_string s)"
  by (simp add: plain_status_def)

lemma plain_status_known [simp]: "(\<And>x. s \<noteq> EngineTaskStatusOther x) \<Longrightarrow> plain_status s"
  by (cases s) (auto simp: plain_status_def task_status_of_string_def)

lemma task_mode_string_of [simp]: "task_mode_string (task_mode_of_string s) = s"
  by (simp add: task_mode_of_string_def)

lemma row_roundtrip:
  "toTaskModel (toEngineTask m) = m\<lparr>tm_tenant_id := ''''\<rparr>"
  by (simp add: toTaskModel_def toEngineTask_def)

definition row_terminal :: "task_model \<Rightarrow> bool" where
  "row_terminal m \<longleftrightarrow> task_is_terminal (toEngineTask m)"

lemma row_terminal_iff:
  "row_terminal m \<longleftrightarrow> tm_status m \<in> {''completed'', ''failed'', ''cancelled''}"
  by (auto simp: row_terminal_def task_is_terminal_def terminal_status_def row_simps task_status_of_string_def)

section \<open>The database as a parameter\<close>

datatype db_error = ErrRecordNotFound | DbFailure string

datatype task_order = NoOrder | CreatedDesc | CreatedAsc | PriorityThenCreated

fun order_le :: "task_order \<Rightarrow> task_model \<Rightarrow> task_model \<Rightarrow> bool" where
  "order_le NoOrder a b = True"
| "order_le CreatedDesc a b = (tm_created_at b \<le> tm_created_at a)"
| "order_le CreatedAsc a b = (tm_created_at a \<le> tm_created_at b)"
| "order_le PriorityThenCreated a b =
     (tm_priority b < tm_priority a \<or>
      tm_priority a = tm_priority b \<and> tm_created_at a \<le> tm_created_at b)"

text \<open>
  \<open>sql_find\<close> takes the condition, the order, the limit and the offset (\<open>0\<close> for none);
  \<open>sql_user_sessions\<close> is the sub-select on the \<open>sessions\<close> table; \<open>sql_commit\<close> ends a transaction.
\<close>

record 'db task_sql =
  sql_first :: "(task_model \<Rightarrow> bool) \<Rightarrow> 'db \<Rightarrow> db_error + task_model"
  sql_find :: "(task_model \<Rightarrow> bool) \<Rightarrow> task_order \<Rightarrow> nat \<Rightarrow> nat \<Rightarrow> 'db \<Rightarrow> db_error + task_model list"
  sql_count :: "(task_model \<Rightarrow> bool) \<Rightarrow> 'db \<Rightarrow> db_error + nat"
  sql_create :: "task_model \<Rightarrow> 'db \<Rightarrow> db_error + ('db \<times> task_model)"
  sql_save :: "task_model \<Rightarrow> 'db \<Rightarrow> db_error + 'db"
  sql_commit :: "'db \<Rightarrow> db_error + 'db"
  sql_user_sessions :: "string \<Rightarrow> 'db \<Rightarrow> string list"

type_synonym task_table = "uuid \<rightharpoonup> task_model"

definition rows_of :: "task_table \<Rightarrow> (task_model \<Rightarrow> bool) \<Rightarrow> task_model set" where
  "rows_of t P = {r. \<exists>i. t i = Some r \<and> P r}"

definition found_rows :: "task_table \<Rightarrow> (task_model \<Rightarrow> bool) \<Rightarrow> task_order \<Rightarrow> task_model list \<Rightarrow> bool" where
  "found_rows t P ord rows \<longleftrightarrow>
     set rows = rows_of t P \<and> distinct (map tm_id rows) \<and> sorted_wrt (order_le ord) rows"

definition page :: "nat \<Rightarrow> nat \<Rightarrow> 'a list \<Rightarrow> 'a list" where
  "page lim off xs = (let ys = drop off xs in if lim > 0 then take lim ys else ys)"

lemma page_0 [simp]: "page 0 0 xs = xs"
  by (simp add: page_def)

text \<open>
  What the calls promise.  A saved or created row is stored as given, except for the time columns
  that GORM fills in (\<open>autoUpdateTime\<close>, \<open>autoCreateTime\<close>); a created row without an identifier gets
  a new one from the database.
\<close>

locale task_store =
  fixes S :: "'db task_sql"
    and tbl :: "'db \<Rightarrow> task_table"
  assumes keyed: "tbl s i = Some r \<Longrightarrow> tm_id r = i"
    and first_found: "sql_first S P s = Inr r \<Longrightarrow> r \<in> rows_of (tbl s) P"
    and first_missing: "sql_first S P s = Inl ErrRecordNotFound \<Longrightarrow> rows_of (tbl s) P = {}"
    and find_page: "sql_find S P ord lim off s = Inr rows \<Longrightarrow>
      \<exists>full. found_rows (tbl s) P ord full \<and> rows = page lim off full"
    and count_rows: "sql_count S P s = Inr n \<Longrightarrow> n = card (rows_of (tbl s) P)"
    and save_row: "sql_save S r s = Inr s' \<Longrightarrow>
      \<exists>u. tbl s' = (tbl s)(tm_id r \<mapsto> r\<lparr>tm_updated_at := u\<rparr>)"
    and create_row: "sql_create S r s = Inr (s', r') \<Longrightarrow> tm_status r \<noteq> '''' \<Longrightarrow> tm_mode r \<noteq> '''' \<Longrightarrow>
      \<exists>c u. r' = r\<lparr>tm_id := tm_id r', tm_created_at := c, tm_updated_at := u\<rparr> \<and>
        (tm_id r \<noteq> uuid_Nil \<longrightarrow> tm_id r' = tm_id r) \<and>
        tbl s (tm_id r') = None \<and> tbl s' = (tbl s)(tm_id r' \<mapsto> r')"
    and commit_same: "sql_commit S s = Inr s' \<Longrightarrow> tbl s' = tbl s"
begin

lemma find_all: "sql_find S P ord 0 0 s = Inr rows \<Longrightarrow> found_rows (tbl s) P ord rows"
  using find_page by fastforce

lemma find_mem: "sql_find S P ord 0 0 s = Inr rows \<Longrightarrow>
    r \<in> set rows \<longleftrightarrow> tbl s (tm_id r) = Some r \<and> P r"
  using keyed by (fastforce dest!: find_all simp: found_rows_def rows_of_def)

lemma first_id: "sql_first S (\<lambda>m. tm_id m = i \<and> Q m) s = Inr r \<Longrightarrow> tbl s i = Some r \<and> tm_id r = i \<and> Q r"
  using keyed by (fastforce dest!: first_found simp: rows_of_def)

lemma first_id_missing:
  "sql_first S (\<lambda>m. tm_id m = i \<and> Q m) s = Inl ErrRecordNotFound \<Longrightarrow> tbl s i = Some r \<Longrightarrow> \<not> Q r"
  using keyed by (fastforce dest!: first_missing simp: rows_of_def)

end

section \<open>A table in memory\<close>

text \<open>The rows in insertion order and a clock that the two time columns are read from.\<close>

record mem_db =
  mem_rows :: "task_model list"
  mem_clock :: time
  mem_sessions :: "(string \<times> string) list"

fun order_key :: "task_order \<Rightarrow> task_model \<Rightarrow> int \<times> int" where
  "order_key NoOrder r = (0, 0)"
| "order_key CreatedDesc r = (0, - tm_created_at r)"
| "order_key CreatedAsc r = (0, tm_created_at r)"
| "order_key PriorityThenCreated r = (- tm_priority r, tm_created_at r)"

fun row_lookup :: "uuid \<Rightarrow> task_model list \<Rightarrow> task_model option" where
  "row_lookup i [] = None"
| "row_lookup i (r # rs) = (if tm_id r = i then Some r else row_lookup i rs)"

fun row_upsert :: "task_model \<Rightarrow> task_model list \<Rightarrow> task_model list" where
  "row_upsert r [] = [r]"
| "row_upsert r (x # xs) = (if tm_id x = tm_id r then r # xs else x # row_upsert r xs)"

fun distinct_rows :: "task_model list \<Rightarrow> task_model list" where
  "distinct_rows [] = []"
| "distinct_rows (r # rs) = r # filter (\<lambda>x. tm_id x \<noteq> tm_id r) (distinct_rows rs)"

definition mem_tbl :: "mem_db \<Rightarrow> task_table" where
  "mem_tbl s = (\<lambda>i. row_lookup i (mem_rows s))"

definition mem_select :: "(task_model \<Rightarrow> bool) \<Rightarrow> mem_db \<Rightarrow> task_model list" where
  "mem_select P s = filter P (distinct_rows (mem_rows s))"

definition mem_store :: "mem_db task_sql" where
  "mem_store =
     \<lparr>sql_first = (\<lambda>P s. case mem_select P s of [] \<Rightarrow> Inl ErrRecordNotFound | r # _ \<Rightarrow> Inr r),
      sql_find = (\<lambda>P ord lim off s. Inr (page lim off (sort_key (order_key ord) (mem_select P s)))),
      sql_count = (\<lambda>P s. Inr (length (mem_select P s))),
      sql_create = (\<lambda>r s.
        if tm_id r = uuid_Nil then Inl (DbFailure ''null id'')
        else if row_lookup (tm_id r) (mem_rows s) \<noteq> None then Inl (DbFailure ''duplicate key'')
        else let r' = r\<lparr>tm_created_at := mem_clock s, tm_updated_at := mem_clock s\<rparr>
             in Inr (s\<lparr>mem_rows := mem_rows s @ [r'], mem_clock := mem_clock s + 1\<rparr>, r')),
      sql_save = (\<lambda>r s.
        Inr (s\<lparr>mem_rows := row_upsert (r\<lparr>tm_updated_at := mem_clock s\<rparr>) (mem_rows s),
               mem_clock := mem_clock s + 1\<rparr>)),
      sql_commit = Inr,
      sql_user_sessions = (\<lambda>u s. map fst (filter (\<lambda>p. snd p = u) (mem_sessions s)))\<rparr>"

lemma row_lookup_id: "row_lookup i rs = Some r \<Longrightarrow> tm_id r = i"
  by (induction rs) (auto split: if_splits)

lemma row_lookup_upsert:
  "row_lookup i (row_upsert r rs) = (if i = tm_id r then Some r else row_lookup i rs)"
  by (induction rs) auto

lemma row_lookup_snoc:
  "row_lookup (tm_id r) rs = None \<Longrightarrow>
     row_lookup i (rs @ [r]) = (if i = tm_id r then Some r else row_lookup i rs)"
  by (induction rs) (auto split: if_splits)

lemma set_distinct_rows: "set (distinct_rows rs) = {r. row_lookup (tm_id r) rs = Some r}"
  by (induction rs) auto

lemma distinct_distinct_rows: "distinct (map tm_id (distinct_rows rs))"
  by (induction rs) (auto simp: distinct_map_filter)

lemma mem_select_rows: "set (mem_select P s) = rows_of (mem_tbl s) P"
  by (auto simp: mem_select_def set_distinct_rows rows_of_def mem_tbl_def dest: row_lookup_id)

lemma mem_select_distinct: "distinct (map tm_id (mem_select P s))"
  by (simp add: mem_select_def distinct_map_filter distinct_distinct_rows)

lemma order_key_le: "order_key ord a \<le> order_key ord b \<Longrightarrow> order_le ord a b"
  by (cases ord) auto

lemma mem_found: "found_rows (mem_tbl s) P ord (sort_key (order_key ord) (mem_select P s))"
proof -
  let ?xs = "sort_key (order_key ord) (mem_select P s)"
  have "sorted_wrt (\<lambda>a b. order_key ord a \<le> order_key ord b) ?xs"
    using sorted_sort_key [of "order_key ord" "mem_select P s"] by (simp add: sorted_map)
  then have "sorted_wrt (order_le ord) ?xs"
    by (rule sorted_wrt_mono_rel [rotated]) (rule order_key_le)
  moreover have "distinct (map tm_id ?xs)"
    using mem_select_distinct [of P s] by (simp add: distinct_map inj_on_def)
  ultimately show ?thesis by (simp add: found_rows_def mem_select_rows)
qed

interpretation mem: task_store mem_store mem_tbl
proof
  fix s i r assume "mem_tbl s i = Some r"
  then show "tm_id r = i" by (auto simp: mem_tbl_def dest: row_lookup_id)
next
  fix P s r assume "sql_first mem_store P s = Inr r"
  then show "r \<in> rows_of (mem_tbl s) P"
    by (auto simp: mem_store_def mem_select_rows [symmetric] split: list.splits)
next
  fix P s assume "sql_first mem_store P s = Inl ErrRecordNotFound"
  then show "rows_of (mem_tbl s) P = {}"
    by (auto simp: mem_store_def mem_select_rows [symmetric] split: list.splits)
next
  fix P ord lim off s rows assume "sql_find mem_store P ord lim off s = Inr rows"
  then show "\<exists>full. found_rows (mem_tbl s) P ord full \<and> rows = page lim off full"
    using mem_found [of s P ord] by (auto simp: mem_store_def)
next
  fix P s n assume "sql_count mem_store P s = Inr n"
  then show "n = card (rows_of (mem_tbl s) P)"
    using mem_select_distinct [of P s] distinct_card [of "mem_select P s"]
    by (auto simp: mem_store_def mem_select_rows [symmetric] distinct_map)
next
  fix r s s' assume "sql_save mem_store r s = Inr s'"
  then have "mem_tbl s' = (mem_tbl s)(tm_id r \<mapsto> r\<lparr>tm_updated_at := mem_clock s\<rparr>)"
    by (auto simp: mem_store_def mem_tbl_def row_lookup_upsert fun_eq_iff)
  then show "\<exists>u. mem_tbl s' = (mem_tbl s)(tm_id r \<mapsto> r\<lparr>tm_updated_at := u\<rparr>)" by blast
next
  fix r s s' r'
  assume "sql_create mem_store r s = Inr (s', r')"
  then have new: "row_lookup (tm_id r) (mem_rows s) = None" and
    r': "r' = r\<lparr>tm_created_at := mem_clock s, tm_updated_at := mem_clock s\<rparr>" and
    s': "s' = s\<lparr>mem_rows := mem_rows s @ [r'], mem_clock := mem_clock s + 1\<rparr>"
    by (auto simp: mem_store_def Let_def split: if_splits)
  have id: "tm_id r' = tm_id r" by (simp add: r')
  have "mem_tbl s' = (mem_tbl s)(tm_id r' \<mapsto> r')"
    using new id by (simp add: s' mem_tbl_def fun_eq_iff row_lookup_snoc)
  moreover have "mem_tbl s (tm_id r') = None" using new id by (simp add: mem_tbl_def)
  moreover have "r' = r\<lparr>tm_id := tm_id r', tm_created_at := mem_clock s, tm_updated_at := mem_clock s\<rparr>"
    by (simp add: r')
  ultimately show "\<exists>c u. r' = r\<lparr>tm_id := tm_id r', tm_created_at := c, tm_updated_at := u\<rparr> \<and>
        (tm_id r \<noteq> uuid_Nil \<longrightarrow> tm_id r' = tm_id r) \<and>
        mem_tbl s (tm_id r') = None \<and> mem_tbl s' = (mem_tbl s)(tm_id r' \<mapsto> r')"
    using id by blast
next
  fix s s' assume "sql_commit mem_store s = Inr s'"
  then show "mem_tbl s' = mem_tbl s" by (simp add: mem_store_def)
qed

end
