(* ===== verification/Task_Repository.thy ===== *)
theory Task_Repository
  imports Task_Store
begin

text \<open>
  \<open>GORMTaskRepository\<close> (\<open>internal/infrastructure/persistence/configrepo/task_repository.go\<close>): every
  method, over the database parameter of \<open>Task_Store\<close>.  Reads return a value or an error; writes
  return the new database or an error.  \<open>Cancel\<close> runs in a transaction, so its error leaves the
  database as it was.

  The lemmas, proved in the locale \<open>task_store\<close>, show what each call does to the table: tenant
  isolation of the reads and writes, the exact set of rows \<open>GetReadySubtasks\<close> returns, and for the
  recursive cancel that it only turns unfinished rows of its tenant into cancelled ones and leaves no
  unfinished child under a row it cancelled.
\<close>

section \<open>Errors, context and filters\<close>

text \<open>\<open>RepoFailed\<close> carries the operation of the \<open>fmt.Errorf\<close> text, the task it names and the cause.\<close>

datatype repo_error =
    ErrEngineTaskNotFound
  | RepoFailed string "uuid option" db_error
  | RepoTask task_error
  | CancelTransition uuid task_error
  | CancelDepthExceeded uuid

definition CETenantID :: string where
  "CETenantID = ''00000000-0000-0000-0000-000000000001''"

definition tenantIDFromCtx :: "string \<Rightarrow> string" where
  "tenantIDFromCtx tid = (if tid = '''' then CETenantID else tid)"

definition tenantScope :: "string \<Rightarrow> task_model \<Rightarrow> bool" where
  "tenantScope ctx m \<longleftrightarrow> tm_tenant_id m = tenantIDFromCtx ctx"

record task_filter =
  tf_status :: "engine_task_status option"
  tf_user_sub :: "string option"
  tf_session_id :: "string option"
  tf_parent_task_id :: "uuid option"
  tf_limit :: int
  tf_offset :: int

definition opt_cond :: "'a option \<Rightarrow> ('a \<Rightarrow> bool) \<Rightarrow> bool" where
  "opt_cond x P = (case x of None \<Rightarrow> True | Some v \<Rightarrow> P v)"

definition applyTaskFilter :: "'db task_sql \<Rightarrow> 'db \<Rightarrow> task_filter \<Rightarrow> task_model \<Rightarrow> bool" where
  "applyTaskFilter S s f m \<longleftrightarrow>
     opt_cond (tf_status f) (\<lambda>st. tm_status m = task_status_string st) \<and>
     opt_cond (tf_user_sub f) (\<lambda>u. tm_session_id m \<in> set (sql_user_sessions S u s)) \<and>
     opt_cond (tf_session_id f) (\<lambda>sid. tm_session_id m = sid) \<and>
     opt_cond (tf_parent_task_id f) (\<lambda>p. tm_parent_task_id m = Some p)"

definition positive_nat :: "int \<Rightarrow> nat" where
  "positive_nat i = (if i > 0 then nat i else 0)"

section \<open>Reads\<close>

definition load_row :: "'db task_sql \<Rightarrow> string \<Rightarrow> string \<Rightarrow> uuid \<Rightarrow> 'db \<Rightarrow> repo_error + task_model" where
  "load_row S op ctx i s =
     (case sql_first S (\<lambda>m. tm_id m = i \<and> tenantScope ctx m) s of
        Inl ErrRecordNotFound \<Rightarrow> Inl ErrEngineTaskNotFound
      | Inl e \<Rightarrow> Inl (RepoFailed op (Some i) e)
      | Inr m \<Rightarrow> Inr m)"

definition repo_GetByID :: "'db task_sql \<Rightarrow> string \<Rightarrow> uuid \<Rightarrow> 'db \<Rightarrow> repo_error + engine_task" where
  "repo_GetByID S ctx i s = bind_res (load_row S ''get task'' ctx i s) (\<lambda>m. Inr (toEngineTask m))"

definition load_rows ::
    "'db task_sql \<Rightarrow> string \<Rightarrow> uuid option \<Rightarrow> (task_model \<Rightarrow> bool) \<Rightarrow> task_order \<Rightarrow> nat \<Rightarrow> nat \<Rightarrow> 'db \<Rightarrow>
     repo_error + engine_task list" where
  "load_rows S op about P ord lim off s =
     (case sql_find S P ord lim off s of
        Inl e \<Rightarrow> Inl (RepoFailed op about e)
      | Inr rows \<Rightarrow> Inr (map toEngineTask rows))"

definition repo_List :: "'db task_sql \<Rightarrow> string \<Rightarrow> task_filter \<Rightarrow> 'db \<Rightarrow> repo_error + engine_task list" where
  "repo_List S ctx f s =
     load_rows S ''list tasks'' None (\<lambda>m. tenantScope ctx m \<and> applyTaskFilter S s f m) CreatedDesc
       (positive_nat (tf_limit f)) (positive_nat (tf_offset f)) s"

definition repo_Count :: "'db task_sql \<Rightarrow> string \<Rightarrow> task_filter \<Rightarrow> 'db \<Rightarrow> repo_error + nat" where
  "repo_Count S ctx f s =
     (case sql_count S (\<lambda>m. tenantScope ctx m \<and> applyTaskFilter S s f m) s of
        Inl e \<Rightarrow> Inl (RepoFailed ''count tasks'' None e)
      | Inr n \<Rightarrow> Inr n)"

definition repo_GetSubTasks :: "'db task_sql \<Rightarrow> string \<Rightarrow> uuid \<Rightarrow> 'db \<Rightarrow> repo_error + engine_task list" where
  "repo_GetSubTasks S ctx parentID s =
     load_rows S ''get subtasks for'' (Some parentID)
       (\<lambda>m. tenantScope ctx m \<and> tm_parent_task_id m = Some parentID) CreatedAsc 0 0 s"

definition repo_GetPendingBySession :: "'db task_sql \<Rightarrow> string \<Rightarrow> string \<Rightarrow> 'db \<Rightarrow> repo_error + engine_task list" where
  "repo_GetPendingBySession S ctx sessionID s =
     load_rows S ''get pending tasks for session'' None
       (\<lambda>m. tenantScope ctx m \<and> tm_session_id m = sessionID \<and>
            tm_status m = task_status_string EngineTaskStatusPending) CreatedAsc 0 0 s"

definition repo_GetBySession :: "'db task_sql \<Rightarrow> string \<Rightarrow> string \<Rightarrow> 'db \<Rightarrow> repo_error + engine_task list" where
  "repo_GetBySession S ctx sessionID s =
     load_rows S ''get tasks for session'' None
       (\<lambda>m. tenantScope ctx m \<and> tm_session_id m = sessionID) PriorityThenCreated 0 0 s"

definition repo_GetByStatus ::
    "'db task_sql \<Rightarrow> string \<Rightarrow> string \<Rightarrow> engine_task_status \<Rightarrow> 'db \<Rightarrow> repo_error + engine_task list" where
  "repo_GetByStatus S ctx sessionID status s =
     load_rows S ''get tasks by status'' None
       (\<lambda>m. tenantScope ctx m \<and> tm_session_id m = sessionID \<and> tm_status m = task_status_string status)
       PriorityThenCreated 0 0 s"

text \<open>\<open>GetReadySubtasks\<close>: two queries, and the filter on the blockers between them.\<close>

definition real_blockers :: "engine_task \<Rightarrow> uuid list" where
  "real_blockers t = filter (\<lambda>b. b \<noteq> uuid_Nil) (et_blocked_by t)"

definition blocker_ids :: "engine_task list \<Rightarrow> uuid list" where
  "blocker_ids tasks = remdups (concat (map real_blockers tasks))"

definition repo_GetReadySubtasks :: "'db task_sql \<Rightarrow> string \<Rightarrow> uuid \<Rightarrow> 'db \<Rightarrow> repo_error + engine_task list" where
  "repo_GetReadySubtasks S ctx parentID s =
     bind_res
       (load_rows S ''get ready subtasks for'' (Some parentID)
          (\<lambda>m. tenantScope ctx m \<and> tm_parent_task_id m = Some parentID \<and>
               tm_status m = task_status_string EngineTaskStatusPending) PriorityThenCreated 0 0 s)
       (\<lambda>tasks.
          if tasks = [] then Inr []
          else if blocker_ids tasks = [] then Inr tasks
          else case sql_find S (\<lambda>m. tenantScope ctx m \<and> tm_id m \<in> set (blocker_ids tasks) \<and>
                 tm_status m \<in> set (map task_status_string
                   [EngineTaskStatusCompleted, EngineTaskStatusFailed, EngineTaskStatusCancelled])) NoOrder 0 0 s of
              Inl e \<Rightarrow> Inl (RepoFailed ''check blocker statuses'' None e)
            | Inr terminalBlockers \<Rightarrow>
                (let terminalSet = map tm_id terminalBlockers
                 in Inr (filter (\<lambda>t. list_all (\<lambda>b. b \<in> set terminalSet) (real_blockers t)) tasks)))"

section \<open>Writes\<close>

definition repo_Create :: "'db task_sql \<Rightarrow> string \<Rightarrow> engine_task \<Rightarrow> 'db \<Rightarrow> repo_error + ('db \<times> engine_task)" where
  "repo_Create S ctx task s =
     (let m = (toTaskModel task)\<lparr>tm_tenant_id := tenantIDFromCtx ctx\<rparr>
      in case sql_create S m s of
           Inl e \<Rightarrow> Inl (RepoFailed ''create task'' None e)
         | Inr (s', m') \<Rightarrow> Inr (s', task\<lparr>et_id := tm_id m'\<rparr>))"

definition save_task :: "'db task_sql \<Rightarrow> string \<Rightarrow> string \<Rightarrow> engine_task \<Rightarrow> 'db \<Rightarrow> repo_error + 'db" where
  "save_task S op tenant task s =
     (case sql_save S ((toTaskModel task)\<lparr>tm_tenant_id := tenant\<rparr>) s of
        Inl e \<Rightarrow> Inl (RepoFailed op (Some (et_id task)) e)
      | Inr s' \<Rightarrow> Inr s')"

definition repo_UpdateStatus ::
    "'db task_sql \<Rightarrow> time \<Rightarrow> string \<Rightarrow> uuid \<Rightarrow> engine_task_status \<Rightarrow> string \<Rightarrow> 'db \<Rightarrow> repo_error + 'db" where
  "repo_UpdateStatus S now ctx i status result s =
     bind_res (load_row S ''get task for status update'' ctx i s) (\<lambda>m.
       case task_transition now status (toEngineTask m) of
         Inl e \<Rightarrow> Inl (RepoTask e)
       | Inr task \<Rightarrow> save_task S ''update task status'' (tm_tenant_id m) (task\<lparr>et_result := result\<rparr>) s)"

definition repo_Update :: "'db task_sql \<Rightarrow> string \<Rightarrow> engine_task \<Rightarrow> 'db \<Rightarrow> repo_error + 'db" where
  "repo_Update S ctx task s =
     bind_res (load_row S ''find task for update'' ctx (et_id task) s) (\<lambda>existing.
       save_task S ''update task'' (tm_tenant_id existing) task s)"

definition MaxCancelDepth :: nat where
  "MaxCancelDepth = 64"

text \<open>
  \<open>cancelRecursive\<close> and its loop over the subtasks.  The map \<open>visited\<close> is shared by all the calls,
  so it is threaded with the database.  \<open>now i\<close> is what the clock shows when task \<open>i\<close> changes its
  status, which happens at most once.
\<close>

type_synonym 'db cancel_state = "uuid set \<times> 'db"

definition cancel_one ::
    "'db task_sql \<Rightarrow> (uuid \<Rightarrow> time) \<Rightarrow> string \<Rightarrow> uuid \<Rightarrow> string \<Rightarrow> nat \<Rightarrow> engine_task \<Rightarrow> 'db \<Rightarrow> repo_error + 'db" where
  "cancel_one S now tenantID i reason depth task s =
     (case task_transition (now i) EngineTaskStatusCancelled task of
        Inl e \<Rightarrow> Inl (CancelTransition i e)
      | Inr task1 \<Rightarrow>
          (let task2 = (if depth = 0 then task1\<lparr>et_result := reason\<rparr> else task1)
           in save_task S ''save cancelled task'' tenantID task2 s))"

function cancelRecursive ::
    "'db task_sql \<Rightarrow> (uuid \<Rightarrow> time) \<Rightarrow> string \<Rightarrow> uuid \<Rightarrow> string \<Rightarrow> nat \<Rightarrow> 'db cancel_state \<Rightarrow>
     repo_error + 'db cancel_state"
  and cancelSubtasks ::
    "'db task_sql \<Rightarrow> (uuid \<Rightarrow> time) \<Rightarrow> string \<Rightarrow> task_model list \<Rightarrow> nat \<Rightarrow> 'db cancel_state \<Rightarrow>
     repo_error + 'db cancel_state" where
  "cancelRecursive S now tenantID i reason depth (visited, s) =
     (if depth > MaxCancelDepth then Inl (CancelDepthExceeded i)
      else if i \<in> visited then Inr (visited, s)
      else case sql_first S (\<lambda>m. tm_id m = i \<and> tm_tenant_id m = tenantID) s of
          Inl ErrRecordNotFound \<Rightarrow> Inl ErrEngineTaskNotFound
        | Inl e \<Rightarrow> Inl (RepoFailed ''get task for cancel'' (Some i) e)
        | Inr m \<Rightarrow>
            (let task = toEngineTask m
             in if task_is_terminal task then Inr (insert i visited, s)
                else case cancel_one S now tenantID i reason depth task s of
                    Inl e \<Rightarrow> Inl e
                  | Inr s1 \<Rightarrow>
                      (case sql_find S (\<lambda>m. tm_parent_task_id m = Some i \<and> tm_tenant_id m = tenantID)
                              NoOrder 0 0 s1 of
                         Inl e \<Rightarrow> Inl (RepoFailed ''get subtasks for cancel'' (Some i) e)
                       | Inr subtasks \<Rightarrow>
                           cancelSubtasks S now tenantID subtasks (Suc depth) (insert i visited, s1))))"
| "cancelSubtasks S now tenantID [] depth st = Inr st"
| "cancelSubtasks S now tenantID (sub # subs) depth st =
     (case cancelRecursive S now tenantID (tm_id sub) '''' depth st of
        Inl e \<Rightarrow> Inl e
      | Inr st' \<Rightarrow> cancelSubtasks S now tenantID subs depth st')"
  by pat_completeness auto

termination
  by (relation "measures
      [\<lambda>x. case x of Inl (_, _, _, _, _, d, _) \<Rightarrow> 66 - d | Inr (_, _, _, _, d, _) \<Rightarrow> 66 - d,
       \<lambda>x. case x of Inl _ \<Rightarrow> 0 | Inr (_, _, _, subs, _, _) \<Rightarrow> Suc (length subs)]")
    (auto simp: MaxCancelDepth_def)

definition repo_Cancel ::
    "'db task_sql \<Rightarrow> (uuid \<Rightarrow> time) \<Rightarrow> string \<Rightarrow> uuid \<Rightarrow> string \<Rightarrow> 'db \<Rightarrow> repo_error + 'db" where
  "repo_Cancel S now ctx i reason s =
     (case cancelRecursive S now (tenantIDFromCtx ctx) i reason 0 ({}, s) of
        Inl e \<Rightarrow> Inl e
      | Inr (_, s') \<Rightarrow>
          (case sql_commit S s' of
             Inl e \<Rightarrow> Inl (RepoFailed ''commit'' None e)
           | Inr s'' \<Rightarrow> Inr s''))"


declare cancelRecursive.simps [simp del] cancelSubtasks.simps [simp del]

section \<open>What a cancel may do to a table\<close>

text \<open>Columns no operation of the repository changes on an existing row.\<close>

definition same_identity :: "task_model \<Rightarrow> task_model \<Rightarrow> bool" where
  "same_identity m m' \<longleftrightarrow>
     tm_id m' = tm_id m \<and> tm_tenant_id m' = tm_tenant_id m \<and> tm_parent_task_id m' = tm_parent_task_id m \<and>
     tm_session_id m' = tm_session_id m \<and> tm_title m' = tm_title m \<and> tm_priority m' = tm_priority m \<and>
     tm_blocked_by m' = tm_blocked_by m"

definition cancelled_from :: "task_model \<Rightarrow> task_model \<Rightarrow> bool" where
  "cancelled_from m m' \<longleftrightarrow>
     \<not> row_terminal m \<and> tm_status m' = ''cancelled'' \<and> tm_completed_at m' \<noteq> None \<and> same_identity m m'"

definition cancel_step :: "string \<Rightarrow> task_table \<Rightarrow> task_table \<Rightarrow> bool" where
  "cancel_step T t t' \<longleftrightarrow>
     (\<forall>i. t' i = t i \<or>
        (\<exists>m m'. t i = Some m \<and> t' i = Some m' \<and> tm_tenant_id m = T \<and> cancelled_from m m'))"

definition cancel_done :: "string \<Rightarrow> task_table \<Rightarrow> uuid \<Rightarrow> bool" where
  "cancel_done T t i \<longleftrightarrow> (\<exists>m. t i = Some m \<and> tm_tenant_id m = T \<and> row_terminal m)"

definition children_done :: "string \<Rightarrow> task_table \<Rightarrow> uuid \<Rightarrow> bool" where
  "children_done T t i \<longleftrightarrow>
     (\<forall>k m. t k = Some m \<longrightarrow> tm_parent_task_id m = Some i \<longrightarrow> tm_tenant_id m = T \<longrightarrow> row_terminal m)"

definition cancel_post :: "string \<Rightarrow> uuid set \<Rightarrow> task_table \<Rightarrow> uuid set \<Rightarrow> task_table \<Rightarrow> bool" where
  "cancel_post T vis t vis' t' \<longleftrightarrow>
     cancel_step T t t' \<and> vis \<subseteq> vis' \<and> (\<forall>j \<in> vis'. cancel_done T t' j) \<and>
     (\<forall>j. t' j \<noteq> t j \<longrightarrow> children_done T t' j)"

lemma cancelled_terminal: "tm_status m = ''cancelled'' \<Longrightarrow> row_terminal m"
  by (simp add: row_terminal_iff)

lemma cancel_stepE [consumes 2]:
  assumes "cancel_step T t t'" and "t' i = Some m'"
  obtains "t i = Some m'" | m where "t i = Some m" "tm_tenant_id m = T" "cancelled_from m m'"
  using assms unfolding cancel_step_def by (metis option.inject)

lemma cancel_step_refl [simp]: "cancel_step T t t"
  by (simp add: cancel_step_def)

lemma cancel_step_terminal:
  assumes "cancel_step T t t'" and "t i = Some m" and "row_terminal m"
  shows "t' i = Some m"
proof -
  have "t' i = t i \<or> (\<exists>m m'. t i = Some m \<and> t' i = Some m' \<and> tm_tenant_id m = T \<and> cancelled_from m m')"
    using assms(1) unfolding cancel_step_def by blast
  then show ?thesis using assms(2,3) by (auto simp: cancelled_from_def)
qed

lemma cancel_step_trans:
  assumes "cancel_step T t t1" and "cancel_step T t1 t2"
  shows "cancel_step T t t2"
  unfolding cancel_step_def
proof
  fix i
  show "t2 i = t i \<or> (\<exists>m m'. t i = Some m \<and> t2 i = Some m' \<and> tm_tenant_id m = T \<and> cancelled_from m m')"
  proof (cases "t1 i = t i")
    case True
    then show ?thesis using assms(2) unfolding cancel_step_def by metis
  next
    case False
    then obtain m m' where m: "t i = Some m" "t1 i = Some m'" "tm_tenant_id m = T" "cancelled_from m m'"
      using assms(1) unfolding cancel_step_def by metis
    then have "t2 i = Some m'"
      using cancel_step_terminal [OF assms(2) m(2)] by (simp add: cancelled_from_def cancelled_terminal)
    with m show ?thesis by blast
  qed
qed

lemma cancel_done_step: "cancel_step T t t' \<Longrightarrow> cancel_done T t i \<Longrightarrow> cancel_done T t' i"
  unfolding cancel_done_def using cancel_step_terminal by blast

lemma children_done_step:
  assumes "cancel_step T t t'" and "children_done T t i"
  shows "children_done T t' i"
  unfolding children_done_def
proof (intro allI impI)
  fix k m' assume k: "t' k = Some m'" and "tm_parent_task_id m' = Some i" and "tm_tenant_id m' = T"
  from assms(1) k show "row_terminal m'"
  proof (cases rule: cancel_stepE)
    case 1
    then show ?thesis using assms(2) \<open>tm_parent_task_id m' = Some i\<close> \<open>tm_tenant_id m' = T\<close>
      unfolding children_done_def by blast
  qed (simp add: cancelled_from_def cancelled_terminal)
qed

lemma cancel_post_refl: "\<forall>j \<in> vis. cancel_done T t j \<Longrightarrow> cancel_post T vis t vis t"
  by (simp add: cancel_post_def)

lemma cancel_post_trans:
  assumes "cancel_post T v t v1 t1" and "cancel_post T v1 t1 v2 t2"
  shows "cancel_post T v t v2 t2"
proof -
  have "children_done T t2 j" if "t2 j \<noteq> t j" for j
  proof (cases "t2 j = t1 j")
    case True
    with that have "t1 j \<noteq> t j" by simp
    then show ?thesis using assms children_done_step unfolding cancel_post_def by blast
  next
    case False
    then show ?thesis using assms(2) unfolding cancel_post_def by blast
  qed
  then show ?thesis using assms cancel_step_trans unfolding cancel_post_def by blast
qed

text \<open>A task cancelled first and its children afterwards: the parent joins the changed rows.\<close>

lemma cancel_post_parent:
  assumes "t i = Some m" and "tm_tenant_id m = T" and "cancelled_from m m'"
    and t1: "t1 = t(i \<mapsto> m')"
    and rest: "cancel_post T (insert i vis) t1 vis' t'"
    and kids: "\<And>k r. t1 k = Some r \<Longrightarrow> tm_parent_task_id r = Some i \<Longrightarrow> tm_tenant_id r = T \<Longrightarrow> k \<in> vis'"
  shows "cancel_post T vis t vis' t'"
proof -
  have step1: "cancel_step T t t1" using assms(1-3) by (auto simp: t1 cancel_step_def)
  have step2: "cancel_step T t1 t'" using rest by (simp add: cancel_post_def)
  have done_i: "children_done T t' i"
    unfolding children_done_def
  proof (intro allI impI)
    fix k r' assume k: "t' k = Some r'" and p: "tm_parent_task_id r' = Some i" and T: "tm_tenant_id r' = T"
    from step2 k obtain r where "t1 k = Some r" "tm_parent_task_id r = Some i" "tm_tenant_id r = T"
      by (cases rule: cancel_stepE) (use p T in \<open>auto simp: cancelled_from_def same_identity_def\<close>)
    then have "k \<in> vis'" by (rule kids)
    then have "cancel_done T t' k" using rest by (simp add: cancel_post_def)
    with k show "row_terminal r'" by (auto simp: cancel_done_def)
  qed
  have "children_done T t' j" if "t' j \<noteq> t j" for j
  proof (cases "j = i")
    case True
    with done_i show ?thesis by simp
  next
    case False
    with that have "t' j \<noteq> t1 j" by (simp add: t1)
    then show ?thesis using rest by (simp add: cancel_post_def)
  qed
  then show ?thesis
    using rest cancel_step_trans [OF step1 step2] by (auto simp: cancel_post_def)
qed

section \<open>Facts of every store\<close>

lemma transition_row:
  assumes "task_transition now target (toEngineTask m) = Inr t"
  shows "same_identity m ((toTaskModel t)\<lparr>tm_tenant_id := tm_tenant_id m, tm_updated_at := u\<rparr>)"
    and "\<not> row_terminal m" and "et_status t = target" and "et_id t = tm_id m"
proof -
  show "same_identity m ((toTaskModel t)\<lparr>tm_tenant_id := tm_tenant_id m, tm_updated_at := u\<rparr>)"
    using assms by (auto simp: transition_Inr_iff same_identity_def toTaskModel_def toEngineTask_def frame_simps)
  show "\<not> row_terminal m"
    using assms can_transition_terminal by (auto simp: transition_Inr_iff row_terminal_def)
  show "et_status t = target" by (rule transition_status [OF assms])
  show "et_id t = tm_id m" using transition_identity [OF assms] by (simp add: row_simps)
qed

lemma cancelled_from_transition:
  assumes "task_transition now EngineTaskStatusCancelled (toEngineTask m) = Inr t"
  shows "cancelled_from m ((toTaskModel (t\<lparr>et_result := r\<rparr>))\<lparr>tm_tenant_id := tm_tenant_id m, tm_updated_at := u\<rparr>)"
proof -
  have "et_completed_at t = Some now" using assms by (auto simp: transition_Inr_iff)
  moreover have "tm_status (toTaskModel t) = ''cancelled''"
    by (simp add: row_simps transition_row(3) [OF assms])
  moreover have "same_identity m ((toTaskModel t)\<lparr>tm_tenant_id := tm_tenant_id m, tm_updated_at := u\<rparr>)"
    by (rule transition_row(1) [OF assms])
  ultimately show ?thesis
    using transition_row(2) [OF assms] by (simp add: cancelled_from_def same_identity_def toTaskModel_def)
qed

context task_store
begin

lemma load_row_ok: "load_row S op ctx i s = Inr m \<Longrightarrow> tbl s i = Some m \<and> tenantScope ctx m \<and> tm_id m = i"
  unfolding load_row_def by (auto split: sum.splits db_error.splits dest: first_id)

lemma load_row_missing:
  "load_row S op ctx i s = Inl ErrEngineTaskNotFound \<Longrightarrow> tbl s i = Some m \<Longrightarrow> \<not> tenantScope ctx m"
  unfolding load_row_def by (auto split: sum.splits db_error.splits dest: first_id_missing)

lemma load_rows_all:
  assumes "load_rows S op about P ord 0 0 s = Inr ts"
  shows "\<exists>rows. found_rows (tbl s) P ord rows \<and> ts = map toEngineTask rows"
  using assms unfolding load_rows_def by (auto split: sum.splits dest: find_all)

lemma save_task_table:
  assumes "save_task S op T t s = Inr s'"
  shows "\<exists>u. tbl s' = (tbl s)(et_id t \<mapsto> (toTaskModel t)\<lparr>tm_tenant_id := T, tm_updated_at := u\<rparr>)"
proof -
  have "sql_save S ((toTaskModel t)\<lparr>tm_tenant_id := T\<rparr>) s = Inr s'"
    using assms by (auto simp: save_task_def split: sum.splits)
  from save_row [OF this] show ?thesis by (simp add: row_simps)
qed

lemma cancel_one_table:
  assumes "cancel_one S now (tm_tenant_id m) i reason d (toEngineTask m) s = Inr s'" and "tm_id m = i"
  shows "\<exists>m'. tbl s' = (tbl s)(i \<mapsto> m') \<and> cancelled_from m m'"
proof -
  obtain t where t: "task_transition (now i) EngineTaskStatusCancelled (toEngineTask m) = Inr t"
    and "\<exists>r. save_task S ''save cancelled task'' (tm_tenant_id m) (t\<lparr>et_result := r\<rparr>) s = Inr s'"
  proof (cases "task_transition (now i) EngineTaskStatusCancelled (toEngineTask m)")
    case (Inr t)
    have "\<exists>r. (if d = 0 then t\<lparr>et_result := reason\<rparr> else t) = t\<lparr>et_result := r\<rparr>"
      by (cases "d = 0") (auto intro: exI [of _ "et_result t"])
    then obtain r where r: "(if d = 0 then t\<lparr>et_result := reason\<rparr> else t) = t\<lparr>et_result := r\<rparr>" ..
    have "save_task S ''save cancelled task'' (tm_tenant_id m) (t\<lparr>et_result := r\<rparr>) s = Inr s'"
      using assms(1) Inr unfolding cancel_one_def by (simp add: r)
    with Inr that show ?thesis by blast
  qed (use assms(1) in \<open>simp add: cancel_one_def\<close>)
  then obtain r where "save_task S ''save cancelled task'' (tm_tenant_id m) (t\<lparr>et_result := r\<rparr>) s = Inr s'"
    by blast
  moreover have "et_id (t\<lparr>et_result := r\<rparr>) = i" using transition_row(4) [OF t] assms(2) by simp
  ultimately obtain u where "tbl s' = (tbl s)(i \<mapsto>
      (toTaskModel (t\<lparr>et_result := r\<rparr>))\<lparr>tm_tenant_id := tm_tenant_id m, tm_updated_at := u\<rparr>)"
    using save_task_table [of "''save cancelled task''" "tm_tenant_id m" "t\<lparr>et_result := r\<rparr>" s s'] by metis
  with cancelled_from_transition [OF t] show ?thesis by blast
qed

lemma find_children:
  assumes "sql_find S (\<lambda>m. tm_parent_task_id m = Some i \<and> tm_tenant_id m = T) NoOrder 0 0 s = Inr subs"
    and "tbl s k = Some r" and "tm_parent_task_id r = Some i" and "tm_tenant_id r = T"
  shows "k \<in> tm_id ` set subs"
  using find_mem [OF assms(1), of r] assms(2-4) keyed by force

lemma cancel_recursive_post:
  "S' = S \<Longrightarrow> cancelRecursive S' now T i reason d st = Inr st' \<Longrightarrow> \<forall>j \<in> fst st. cancel_done T (tbl (snd st)) j \<Longrightarrow>
     cancel_post T (fst st) (tbl (snd st)) (fst st') (tbl (snd st')) \<and> i \<in> fst st'"
  "S' = S \<Longrightarrow> cancelSubtasks S' now T subs d st = Inr st' \<Longrightarrow> \<forall>j \<in> fst st. cancel_done T (tbl (snd st)) j \<Longrightarrow>
     cancel_post T (fst st) (tbl (snd st)) (fst st') (tbl (snd st')) \<and> tm_id ` set subs \<subseteq> fst st'"
proof (induction S' now T i reason d st and S' now T subs d st arbitrary: st' and st'
    rule: cancelRecursive_cancelSubtasks.induct)
  case (1 S' now T i reason d vis s)
  show ?case
  proof (cases "i \<in> vis")
    case True
    then show ?thesis using "1.prems" by (auto simp: cancelRecursive.simps cancel_post_refl split: if_splits)
  next
    case False
    have depth: "\<not> MaxCancelDepth < d" using "1.prems" by (auto simp: cancelRecursive.simps)
    obtain m where first: "sql_first S (\<lambda>m. tm_id m = i \<and> tm_tenant_id m = T) s = Inr m"
      using "1.prems" False depth
      by (auto simp: cancelRecursive.simps split: sum.splits db_error.splits)
    then have m: "tbl s i = Some m" "tm_id m = i" "tm_tenant_id m = T" by (auto dest: first_id)
    show ?thesis
    proof (cases "task_is_terminal (toEngineTask m)")
      case True
      then have "st' = (insert i vis, s)"
        using "1.prems" False depth first by (simp add: cancelRecursive.simps)
      moreover have "cancel_done T (tbl s) i" using True m by (auto simp: cancel_done_def row_terminal_def)
      ultimately show ?thesis using "1.prems" by (auto simp: cancel_post_def)
    next
      case unfinished: False
      obtain s1 where one: "cancel_one S now T i reason d (toEngineTask m) s = Inr s1"
        using "1.prems" False depth first unfinished
        by (auto simp: cancelRecursive.simps Let_def split: sum.splits)
      obtain subs where subs: "sql_find S (\<lambda>m. tm_parent_task_id m = Some i \<and> tm_tenant_id m = T) NoOrder 0 0 s1 = Inr subs"
        using "1.prems" False depth first unfinished one
        by (auto simp: cancelRecursive.simps Let_def split: sum.splits)
      have rest: "cancelSubtasks S now T subs (Suc d) (insert i vis, s1) = Inr st'"
        using "1.prems" False depth first unfinished one subs by (simp add: cancelRecursive.simps Let_def)
      obtain m' where m': "tbl s1 = (tbl s)(i \<mapsto> m')" "cancelled_from m m'"
        using cancel_one_table [of now m i reason d s s1] one m by auto
      have step: "cancel_step T (tbl s) (tbl s1)" using m m' by (auto simp: cancel_step_def)
      have "cancel_done T (tbl s1) i"
        using m m' by (auto simp: cancel_done_def cancelled_from_def same_identity_def cancelled_terminal)
      then have inv: "\<forall>j \<in> insert i vis. cancel_done T (tbl s1) j"
        using "1.prems"(3) cancel_done_step [OF step] by auto
      have ih: "cancel_post T (insert i vis) (tbl s1) (fst st') (tbl (snd st')) \<and> tm_id ` set subs \<subseteq> fst st'"
        using "1.IH" [of m "toEngineTask m" s1 subs] "1.prems"(1) False depth first unfinished one subs rest inv by simp
      then have "insert i vis \<subseteq> fst st'" by (simp add: cancel_post_def)
      moreover have "cancel_post T vis (tbl s) (fst st') (tbl (snd st'))"
        by (rule cancel_post_parent [OF m(1) m(3) m'(2) m'(1)])
          (use ih find_children [OF subs] in auto)
      ultimately show ?thesis by auto
    qed
  qed
next
  case (2 S' now T d st)
  then show ?case by (simp add: cancelSubtasks.simps cancel_post_refl)
next
  case (3 S' now T sub subs d st)
  obtain st1 where st1: "cancelRecursive S now T (tm_id sub) '''' d st = Inr st1"
    and rest: "cancelSubtasks S now T subs d st1 = Inr st'"
    using "3.prems" by (auto simp: cancelSubtasks.simps split: sum.splits)
  have p1: "cancel_post T (fst st) (tbl (snd st)) (fst st1) (tbl (snd st1))" "tm_id sub \<in> fst st1"
    using "3.IH"(1) [of st1] "3.prems" st1 by auto
  then have "\<forall>j \<in> fst st1. cancel_done T (tbl (snd st1)) j" by (simp add: cancel_post_def)
  then have p2: "cancel_post T (fst st1) (tbl (snd st1)) (fst st') (tbl (snd st'))" "tm_id ` set subs \<subseteq> fst st'"
    using "3.IH"(2) [of st1 st'] "3.prems"(1) st1 rest by auto
  have "cancel_post T (fst st) (tbl (snd st)) (fst st') (tbl (snd st'))"
    by (rule cancel_post_trans [OF p1(1) p2(1)])
  moreover have "fst st1 \<subseteq> fst st'" using p2(1) by (simp add: cancel_post_def)
  ultimately show ?case using p1(2) p2(2) by auto
qed

end

section \<open>Tables that only move forward\<close>

text \<open>
  \<open>keeps_others T t t'\<close>: rows of the other tenants are exactly as before.  \<open>same_place\<close> is the part
  of a row no call ever changes, not even the ones that edit the text of a task.
\<close>

definition others :: "string \<Rightarrow> task_table \<Rightarrow> task_table" where
  "others T t = (\<lambda>i. case t i of None \<Rightarrow> None | Some m \<Rightarrow> if tm_tenant_id m = T then None else Some m)"

definition same_place :: "task_model \<Rightarrow> task_model \<Rightarrow> bool" where
  "same_place m m' \<longleftrightarrow>
     tm_id m' = tm_id m \<and> tm_tenant_id m' = tm_tenant_id m \<and> tm_parent_task_id m' = tm_parent_task_id m"

lemma same_identity_place: "same_identity m m' \<Longrightarrow> same_place m m'"
  by (simp add: same_identity_def same_place_def)

text \<open>One row of the tenant is replaced by another one in the same place.\<close>

definition row_update :: "string \<Rightarrow> task_table \<Rightarrow> task_table \<Rightarrow> uuid \<Rightarrow> task_model \<Rightarrow> task_model \<Rightarrow> bool" where
  "row_update T t t' i m m' \<longleftrightarrow>
     t i = Some m \<and> tm_tenant_id m = T \<and> same_place m m' \<and> t' = t(i \<mapsto> m')"

lemma row_update_others: "row_update T t t' i m m' \<Longrightarrow> others T t' = others T t"
  by (auto simp: row_update_def others_def same_place_def fun_eq_iff)

lemma cancel_step_others: "cancel_step T t t' \<Longrightarrow> others T t' = others T t"
proof
  fix i assume "cancel_step T t t'"
  then have "t' i = t i \<or> (\<exists>m m'. t i = Some m \<and> t' i = Some m' \<and> tm_tenant_id m = T \<and> cancelled_from m m')"
    by (simp add: cancel_step_def)
  then show "others T t' i = others T t i"
    by (auto simp: others_def cancelled_from_def same_identity_def)
qed

text \<open>What \<open>GetReadySubtasks\<close> should mean: every real blocker is a finished task of the tenant.\<close>

definition blocker_resolved :: "string \<Rightarrow> task_table \<Rightarrow> uuid \<Rightarrow> bool" where
  "blocker_resolved T t b \<longleftrightarrow> (\<exists>m. t b = Some m \<and> tm_tenant_id m = T \<and> row_terminal m)"

definition ready_row :: "string \<Rightarrow> task_table \<Rightarrow> uuid \<Rightarrow> task_model \<Rightarrow> bool" where
  "ready_row T t p m \<longleftrightarrow>
     tm_tenant_id m = T \<and> tm_parent_task_id m = Some p \<and> tm_status m = ''pending'' \<and>
     (\<forall>b \<in> set (tm_blocked_by m). b \<noteq> uuid_Nil \<longrightarrow> blocker_resolved T t b)"

lemma set_real_blockers: "set (real_blockers (toEngineTask m)) = set (tm_blocked_by m) - {uuid_Nil}"
  by (auto simp: real_blockers_def row_simps)

lemma set_blocker_ids: "set (blocker_ids ts) = (\<Union>t \<in> set ts. set (real_blockers t))"
  by (auto simp: blocker_ids_def)

lemma sorted_wrt_filter_rows: "found_rows t P ord rows \<Longrightarrow> found_rows t (\<lambda>m. P m \<and> Q m) ord (filter Q rows)"
  by (auto simp: found_rows_def rows_of_def sorted_wrt_filter distinct_map_filter)

lemma found_rows_cong: "found_rows t P ord rows \<Longrightarrow> (\<And>i m. t i = Some m \<Longrightarrow> P m = Q m) \<Longrightarrow> found_rows t Q ord rows"
  by (auto simp: found_rows_def rows_of_def)

context task_store
begin

lemma update_status_ok:
  assumes "repo_UpdateStatus S now ctx i status result s = Inr s'"
  shows "\<exists>m t m'. row_update (tenantIDFromCtx ctx) (tbl s) (tbl s') i m m' \<and> same_identity m m' \<and>
    task_transition now status (toEngineTask m) = Inr t \<and>
    (\<exists>u. m' = (toTaskModel (t\<lparr>et_result := result\<rparr>))\<lparr>tm_tenant_id := tm_tenant_id m, tm_updated_at := u\<rparr>)"
proof -
  obtain m where m: "load_row S ''get task for status update'' ctx i s = Inr m"
    using assms by (auto simp: repo_UpdateStatus_def)
  then obtain t where t: "task_transition now status (toEngineTask m) = Inr t"
    and save: "save_task S ''update task status'' (tm_tenant_id m) (t\<lparr>et_result := result\<rparr>) s = Inr s'"
    using assms by (auto simp: repo_UpdateStatus_def split: sum.splits)
  have row: "tbl s i = Some m" "tm_tenant_id m = tenantIDFromCtx ctx" "tm_id m = i"
    using load_row_ok [OF m] by (auto simp: tenantScope_def)
  obtain u where u: "tbl s' = (tbl s)(i \<mapsto>
      (toTaskModel (t\<lparr>et_result := result\<rparr>))\<lparr>tm_tenant_id := tm_tenant_id m, tm_updated_at := u\<rparr>)"
    using save_task_table [OF save] transition_row(4) [OF t] row by auto
  let ?m' = "(toTaskModel (t\<lparr>et_result := result\<rparr>))\<lparr>tm_tenant_id := tm_tenant_id m, tm_updated_at := u\<rparr>"
  have "same_identity m ?m'"
    using transition_row(1) [OF t, of u] by (simp add: same_identity_def toTaskModel_def)
  moreover have "row_update (tenantIDFromCtx ctx) (tbl s) (tbl s') i m ?m'"
    using row u same_identity_place [OF calculation] by (simp add: row_update_def)
  ultimately show ?thesis using t by blast
qed

lemma update_ok:
  assumes "repo_Update S ctx task s = Inr s'"
  shows "\<exists>m u. tbl s (et_id task) = Some m \<and> tm_tenant_id m = tenantIDFromCtx ctx \<and>
    tbl s' = (tbl s)(et_id task \<mapsto> (toTaskModel task)\<lparr>tm_tenant_id := tenantIDFromCtx ctx, tm_updated_at := u\<rparr>)"
proof -
  obtain m where m: "load_row S ''find task for update'' ctx (et_id task) s = Inr m"
    and save: "save_task S ''update task'' (tm_tenant_id m) task s = Inr s'"
    using assms by (auto simp: repo_Update_def)
  then show ?thesis using load_row_ok [OF m] save_task_table [OF save] by (auto simp: tenantScope_def)
qed

lemma create_ok:
  assumes "repo_Create S ctx task s = Inr (s', task')"
    and "plain_status (et_status task)" and "task_status_string (et_status task) \<noteq> ''''"
    and "task_mode_string (et_mode task) \<noteq> ''''"
  shows "\<exists>c u. tbl s (et_id task') = None \<and>
    tbl s' = (tbl s)(et_id task' \<mapsto> (toTaskModel task)\<lparr>tm_tenant_id := tenantIDFromCtx ctx,
      tm_id := et_id task', tm_created_at := c, tm_updated_at := u\<rparr>) \<and>
    (et_id task \<noteq> uuid_Nil \<longrightarrow> et_id task' = et_id task)"
proof -
  let ?m = "(toTaskModel task)\<lparr>tm_tenant_id := tenantIDFromCtx ctx\<rparr>"
  obtain m' where c: "sql_create S ?m s = Inr (s', m')" and t': "task' = task\<lparr>et_id := tm_id m'\<rparr>"
    using assms(1) by (auto simp: repo_Create_def Let_def split: sum.splits)
  have "tm_status ?m \<noteq> ''''" "tm_mode ?m \<noteq> ''''" using assms by (simp_all add: row_simps)
  from create_row [OF c this] obtain c u where
    "m' = ?m\<lparr>tm_id := tm_id m', tm_created_at := c, tm_updated_at := u\<rparr>"
    "et_id task \<noteq> uuid_Nil \<longrightarrow> tm_id m' = et_id task"
    "tbl s (tm_id m') = None" "tbl s' = (tbl s)(tm_id m' \<mapsto> m')"
    by (auto simp: row_simps)
  then show ?thesis using t' by (intro exI [of _ c] exI [of _ u]) auto
qed

lemma cancel_ok:
  assumes "repo_Cancel S now ctx i reason s = Inr s'"
  shows "cancel_step (tenantIDFromCtx ctx) (tbl s) (tbl s')"
    and "cancel_done (tenantIDFromCtx ctx) (tbl s') i"
    and "tbl s' j \<noteq> tbl s j \<Longrightarrow> children_done (tenantIDFromCtx ctx) (tbl s') j"
proof -
  obtain vis s1 where r: "cancelRecursive S now (tenantIDFromCtx ctx) i reason 0 ({}, s) = Inr (vis, s1)"
    and c: "sql_commit S s1 = Inr s'"
    using assms by (auto simp: repo_Cancel_def split: sum.splits)
  have post: "cancel_post (tenantIDFromCtx ctx) {} (tbl s) vis (tbl s')" "i \<in> vis"
    using cancel_recursive_post(1) [OF refl r] commit_same [OF c] by auto
  then show "cancel_step (tenantIDFromCtx ctx) (tbl s) (tbl s')"
    and "cancel_done (tenantIDFromCtx ctx) (tbl s') i"
    and "tbl s' j \<noteq> tbl s j \<Longrightarrow> children_done (tenantIDFromCtx ctx) (tbl s') j"
    by (simp_all add: cancel_post_def)
qed

lemma ready_ok:
  assumes "repo_GetReadySubtasks S ctx p s = Inr ts"
  shows "\<exists>rows. found_rows (tbl s) (ready_row (tenantIDFromCtx ctx) (tbl s) p) PriorityThenCreated rows \<and>
    ts = map toEngineTask rows"
proof -
  let ?T = "tenantIDFromCtx ctx"
  let ?P = "\<lambda>m. tenantScope ctx m \<and> tm_parent_task_id m = Some p \<and>
    tm_status m = task_status_string EngineTaskStatusPending"
  let ?St = "set (map task_status_string
    [EngineTaskStatusCompleted, EngineTaskStatusFailed, EngineTaskStatusCancelled])"
  let ?Q = "\<lambda>m. \<forall>b \<in> set (real_blockers (toEngineTask m)). blocker_resolved ?T (tbl s) b"
  obtain tasks where load: "load_rows S ''get ready subtasks for'' (Some p) ?P PriorityThenCreated 0 0 s = Inr tasks"
    and rest: "(if tasks = [] then Inr []
          else if blocker_ids tasks = [] then Inr tasks
          else case sql_find S (\<lambda>m. tenantScope ctx m \<and> tm_id m \<in> set (blocker_ids tasks) \<and>
                 tm_status m \<in> ?St) NoOrder 0 0 s of
              Inl e \<Rightarrow> Inl (RepoFailed ''check blocker statuses'' None e)
            | Inr tb \<Rightarrow> Inr (filter (\<lambda>t. list_all (\<lambda>b. b \<in> set (map tm_id tb)) (real_blockers t)) tasks)) = Inr ts"
    using assms unfolding repo_GetReadySubtasks_def bind_res_Inr_iff Let_def by blast
  obtain rows where rows: "found_rows (tbl s) ?P PriorityThenCreated rows" "tasks = map toEngineTask rows"
    using load_rows_all [OF load] by blast
  have split: "ready_row ?T (tbl s) p m \<longleftrightarrow> ?P m \<and> ?Q m" for m
    by (auto simp: ready_row_def tenantScope_def set_real_blockers)
  have "ts = map toEngineTask (filter ?Q rows)"
  proof (cases "blocker_ids tasks = []")
    case True
    then have "set (blocker_ids tasks) = {}" by simp
    then have "\<forall>t \<in> set tasks. set (real_blockers t) = {}" by (simp add: set_blocker_ids)
    then have "filter ?Q rows = rows" using rows(2) by (auto simp: filter_id_conv)
    moreover have "ts = tasks" using rest True by (auto split: if_splits)
    ultimately show ?thesis using rows(2) by simp
  next
    case False
    show ?thesis
    proof (cases "tasks = []")
      case True
      then show ?thesis using rest rows(2) by simp
    next
      case nonempty: False
      obtain tb where tb: "sql_find S (\<lambda>m. tenantScope ctx m \<and> tm_id m \<in> set (blocker_ids tasks) \<and>
                 tm_status m \<in> ?St) NoOrder 0 0 s = Inr tb"
        and ts: "ts = filter (\<lambda>t. list_all (\<lambda>b. b \<in> set (map tm_id tb)) (real_blockers t)) tasks"
        using rest False nonempty by (auto split: sum.splits)
      have St: "x \<in> ?St \<longleftrightarrow> x \<in> {''completed'', ''failed'', ''cancelled''}" for x by simp
      have found: "m \<in> set tb \<longleftrightarrow> tbl s (tm_id m) = Some m \<and> tm_tenant_id m = ?T \<and> tm_id m \<in> set (blocker_ids tasks) \<and> row_terminal m" for m
        using find_mem [OF tb] unfolding row_terminal_iff tenantScope_def St [symmetric] by blast
      have "b \<in> set (map tm_id tb) \<longleftrightarrow> blocker_resolved ?T (tbl s) b" if "b \<in> set (blocker_ids tasks)" for b
        using that keyed [of s b] unfolding blocker_resolved_def set_map image_iff Bex_def found by blast
      then have "list_all (\<lambda>b. b \<in> set (map tm_id tb)) (real_blockers t) \<longleftrightarrow>
          (\<forall>b \<in> set (real_blockers t). blocker_resolved ?T (tbl s) b)" if "t \<in> set tasks" for t
        using that unfolding set_blocker_ids list_all_iff by blast
      then have "ts = filter (\<lambda>t. \<forall>b \<in> set (real_blockers t). blocker_resolved ?T (tbl s) b) tasks"
        unfolding ts by (intro filter_cong) auto
      then show ?thesis by (simp add: rows(2) filter_map comp_def)
    qed
  qed
  moreover have "found_rows (tbl s) (ready_row ?T (tbl s) p) PriorityThenCreated (filter ?Q rows)"
    by (rule found_rows_cong [OF sorted_wrt_filter_rows [OF rows(1)]]) (simp add: split)
  ultimately show ?thesis by blast
qed

end

section \<open>Properties\<close>

text \<open>A successful Cancel changes only unfinished rows of the caller's tenant, and turns each of
  them into a cancelled row with a completion time and the same identity, parent, session, title,
  priority and blockers; every other row of the table, of this or another tenant, is as before.\<close>

theorem cancel_changes_only_unfinished:
  assumes "task_store S tbl" and "repo_Cancel S now ctx i reason s = Inr s'"
  shows "cancel_step (tenantIDFromCtx ctx) (tbl s) (tbl s') \<and>
    others (tenantIDFromCtx ctx) (tbl s') = others (tenantIDFromCtx ctx) (tbl s)"
  using task_store.cancel_ok(1) [OF assms] cancel_step_others by blast

definition demo_row :: "uuid \<Rightarrow> uuid option \<Rightarrow> string \<Rightarrow> string \<Rightarrow> uuid list \<Rightarrow> task_model" where
  "demo_row i p st tenant bl =
     \<lparr>tm_id = i, tm_title = ''t'', tm_description = '''', tm_acceptance_criteria = [],
      tm_session_id = ''s'', tm_parent_task_id = p, tm_status = st, tm_mode = ''interactive'',
      tm_priority = 0, tm_blocked_by = bl, tm_result = '''', tm_error = '''', tm_tenant_id = tenant,
      tm_created_at = 1, tm_updated_at = 1, tm_approved_at = None,
      tm_started_at = (if st = ''pending'' then None else Some 1),
      tm_completed_at = (if st = ''completed'' then Some 1 else None)\<rparr>"

definition demo_db :: mem_db where
  "demo_db = \<lparr>mem_rows =
     [demo_row 1 None ''in_progress'' ''A'' [], demo_row 2 (Some 1) ''completed'' ''A'' [],
      demo_row 3 (Some 1) ''pending'' ''A'' [2], demo_row 4 (Some 1) ''pending'' ''A'' [3, 2],
      demo_row 5 None ''pending'' ''B'' []], mem_clock = 9, mem_sessions = []\<rparr>"

definition demo_cancelled :: "repo_error + mem_db" where
  "demo_cancelled = repo_Cancel mem_store (\<lambda>_. 9) ''A'' 1 ''stop'' demo_db"

lemmas demo_simps = demo_db_def demo_row_def mem_select_def mem_tbl_def mem_store_def page_def
  MaxCancelDepth_def tenantScope_def tenantIDFromCtx_def toEngineTask_def toTaskModel_def
  task_status_of_string_def task_mode_of_string_def

lemma demo_tenant: "tenantIDFromCtx ''A'' = ''A''"
  by (simp add: tenantIDFromCtx_def)

lemma demo_cancelled_ok:
  "\<exists>s'. demo_cancelled = Inr s' \<and> map tm_status (mem_rows s') =
     [''cancelled'', ''completed'', ''cancelled'', ''cancelled'', ''pending'']"
  by (simp add: demo_cancelled_def repo_Cancel_def cancelRecursive.simps cancelSubtasks.simps
      cancel_one_def save_task_def task_transition_def task_can_transition_to_def task_is_terminal_def
      demo_simps)

theorem cancel_changes_only_unfinished_witness:
  "\<exists>s'. demo_cancelled = Inr s' \<and> cancel_step ''A'' (mem_tbl demo_db) (mem_tbl s') \<and>
     others ''A'' (mem_tbl s') = others ''A'' (mem_tbl demo_db)"
proof -
  obtain s' where s': "demo_cancelled = Inr s'" using demo_cancelled_ok by blast
  from cancel_changes_only_unfinished [OF mem.task_store_axioms s' [unfolded demo_cancelled_def]] s'
  show ?thesis unfolding demo_tenant by blast
qed

text \<open>C2: After a successful Cancel the named task is finished, and no row that the call cancelled
  has an unfinished child left in the tenant: the cascade reaches every unfinished descendant that
  is connected to the root by unfinished tasks.\<close>

theorem cancel_cascades:
  assumes "task_store S tbl" and "repo_Cancel S now ctx i reason s = Inr s'"
  shows "cancel_done (tenantIDFromCtx ctx) (tbl s') i \<and>
    (\<forall>j. tbl s' j \<noteq> tbl s j \<longrightarrow> children_done (tenantIDFromCtx ctx) (tbl s') j)"
  using task_store.cancel_ok(2,3) [OF assms] by blast

theorem cancel_cascades_witness:
  "\<exists>s'. demo_cancelled = Inr s' \<and> cancel_done ''A'' (mem_tbl s') 1 \<and>
     (\<forall>j. mem_tbl s' j \<noteq> mem_tbl demo_db j \<longrightarrow> children_done ''A'' (mem_tbl s') j)"
proof -
  obtain s' where s': "demo_cancelled = Inr s'" using demo_cancelled_ok by blast
  from cancel_cascades [OF mem.task_store_axioms s' [unfolded demo_cancelled_def]] s'
  show ?thesis unfolding demo_tenant by blast
qed

text \<open>GetReadySubtasks returns exactly the pending children of the parent in the caller's tenant
  all of whose non-nil blockers are finished tasks of that tenant, each once, by descending priority
  and then by creation time; a blocker that does not exist keeps its subtask out.\<close>

theorem ready_subtasks_exact:
  assumes "task_store S tbl" and "repo_GetReadySubtasks S ctx p s = Inr ts"
  shows "\<exists>rows. ts = map toEngineTask rows \<and>
    set rows = rows_of (tbl s) (ready_row (tenantIDFromCtx ctx) (tbl s) p) \<and>
    distinct (map tm_id rows) \<and> sorted_wrt (order_le PriorityThenCreated) rows"
  using task_store.ready_ok [OF assms] unfolding found_rows_def by blast

theorem ready_subtasks_exact_witness:
  "repo_GetReadySubtasks mem_store ''A'' 1 demo_db = Inr [toEngineTask (demo_row 3 (Some 1) ''pending'' ''A'' [2])] \<and>
   (\<exists>rows. [toEngineTask (demo_row 3 (Some 1) ''pending'' ''A'' [2])] = map toEngineTask rows \<and>
     set rows = rows_of (mem_tbl demo_db) (ready_row (tenantIDFromCtx ''A'') (mem_tbl demo_db) 1) \<and>
     distinct (map tm_id rows) \<and> sorted_wrt (order_le PriorityThenCreated) rows)"
proof -
  have r: "repo_GetReadySubtasks mem_store ''A'' 1 demo_db = Inr [toEngineTask (demo_row 3 (Some 1) ''pending'' ''A'' [2])]"
    by (simp add: repo_GetReadySubtasks_def load_rows_def real_blockers_def blocker_ids_def uuid_Nil_def
        Let_def demo_simps)
  from ready_subtasks_exact [OF mem.task_store_axioms r] r show ?thesis by blast
qed

end
