(* ===== verification/Task_Manager.thy ===== *)
theory Task_Manager
  imports Task_Repository
begin

text \<open>
  \<open>EngineTaskManagerAdapter\<close> (\<open>internal/infrastructure/taskrunner/engine_task_manager_adapter.go\<close>), the
  task manager behind the agent tools, the agent pool and the task worker: creation with the checks of
  blockers and parents, the status calls, priority, assignment, the next-task queue.

  The lemmas lift the facts of the repository to whole tables: every call keeps the table well formed
  (timestamps that agree with the status, parent chains inside the tenant of at most
  \<open>MaxTaskDepth\<close> tasks, so no cycles) and never touches the rows of other tenants.
\<close>

section \<open>Errors and parameters\<close>

definition MaxTaskDepth :: nat where
  "MaxTaskDepth = 10"

datatype mgr_error =
    MgrRepo repo_error
  | TitleRequired
  | BlockerEmpty
  | BlockerUnknown uuid
  | BlockerFailed uuid repo_error
  | ParentRequired
  | ParentNotFound uuid
  | ParentFailed uuid repo_error
  | ParentTerminal uuid engine_task_status
  | ParentCycle uuid
  | ParentWalk uuid repo_error
  | DepthExceeded nat

definition lift_repo :: "repo_error + 'a \<Rightarrow> mgr_error + 'a" where
  "lift_repo r = (case r of Inl e \<Rightarrow> Inl (MgrRepo e) | Inr x \<Rightarrow> Inr x)"

record create_params =
  cp_title :: string
  cp_description :: string
  cp_acceptance_criteria :: "string list"
  cp_session_id :: string
  cp_priority :: int
  cp_blocked_by :: "uuid list"
  cp_require_approval :: bool
  cp_mode :: task_mode

section \<open>Checks before a task is created\<close>

fun validateBlockers :: "'db task_sql \<Rightarrow> string \<Rightarrow> uuid list \<Rightarrow> 'db \<Rightarrow> mgr_error + unit" where
  "validateBlockers S ctx [] s = Inr ()"
| "validateBlockers S ctx (i # is) s =
     (if i = uuid_Nil then Inl BlockerEmpty
      else case repo_GetByID S ctx i s of
          Inl ErrEngineTaskNotFound \<Rightarrow> Inl (BlockerUnknown i)
        | Inl e \<Rightarrow> Inl (BlockerFailed i e)
        | Inr _ \<Rightarrow> validateBlockers S ctx is s)"

text \<open>The walk up the parent chain: the visited set grows in every round, so it ends.\<close>

function walkParents ::
    "'db task_sql \<Rightarrow> string \<Rightarrow> engine_task \<Rightarrow> nat \<Rightarrow> uuid set \<Rightarrow> 'db \<Rightarrow> mgr_error + nat" where
  "walkParents S ctx current depth visited s =
     (case et_parent_task_id current of
        None \<Rightarrow> Inr depth
      | Some p \<Rightarrow>
          if p \<in> visited then Inl (ParentCycle p)
          else case repo_GetByID S ctx p s of
              Inl e \<Rightarrow> Inl (ParentWalk p e)
            | Inr next \<Rightarrow> walkParents S ctx next (Suc depth) (insert p visited) s)"
  by pat_completeness auto

termination
  by (relation "measure (\<lambda>(_, _, _, _, visited, _). card (- visited))")
    (auto intro!: psubset_card_mono)

declare walkParents.simps [simp del]

definition validateParent :: "'db task_sql \<Rightarrow> string \<Rightarrow> uuid \<Rightarrow> 'db \<Rightarrow> mgr_error + nat" where
  "validateParent S ctx parentID s =
     (if parentID = uuid_Nil then Inl ParentRequired
      else case repo_GetByID S ctx parentID s of
          Inl ErrEngineTaskNotFound \<Rightarrow> Inl (ParentNotFound parentID)
        | Inl e \<Rightarrow> Inl (ParentFailed parentID e)
        | Inr parent \<Rightarrow>
            if task_is_terminal parent then Inl (ParentTerminal parentID (et_status parent))
            else bind_res (walkParents S ctx parent 1 {et_id parent} s)
              (\<lambda>depth. if depth \<ge> MaxTaskDepth then Inl (DepthExceeded depth) else Inr depth))"

section \<open>Creating tasks\<close>

text \<open>The entity both create calls build; \<open>newID\<close> is what \<open>uuid.New()\<close> returned.\<close>

definition new_task :: "uuid \<Rightarrow> uuid option \<Rightarrow> create_params \<Rightarrow> engine_task" where
  "new_task newID parent p =
     \<lparr>et_id = newID, et_tenant_id = '''', et_title = cp_title p, et_description = cp_description p,
      et_acceptance_criteria = cp_acceptance_criteria p, et_session_id = cp_session_id p,
      et_parent_task_id = parent,
      et_status = (if cp_require_approval p then EngineTaskStatusDraft else EngineTaskStatusPending),
      et_mode = (if task_mode_string (cp_mode p) = '''' then TaskModeInteractive else cp_mode p),
      et_priority = cp_priority p, et_blocked_by = cp_blocked_by p, et_result = '''', et_error = '''',
      et_created_at = zero_time, et_updated_at = zero_time, et_approved_at = None,
      et_started_at = None, et_completed_at = None\<rparr>"

definition store_new :: "'db task_sql \<Rightarrow> string \<Rightarrow> engine_task \<Rightarrow> 'db \<Rightarrow> mgr_error + ('db \<times> uuid)" where
  "store_new S ctx task s =
     bind_res (lift_repo (repo_Create S ctx task s)) (\<lambda>(s', task'). Inr (s', et_id task'))"

definition CreateTask :: "'db task_sql \<Rightarrow> uuid \<Rightarrow> string \<Rightarrow> create_params \<Rightarrow> 'db \<Rightarrow> mgr_error + ('db \<times> uuid)" where
  "CreateTask S newID ctx p s =
     (if cp_title p = '''' then Inl TitleRequired
      else bind_res (validateBlockers S ctx (cp_blocked_by p) s)
        (\<lambda>_. store_new S ctx (new_task newID None p) s))"

definition CreateSubTask ::
    "'db task_sql \<Rightarrow> uuid \<Rightarrow> string \<Rightarrow> uuid \<Rightarrow> create_params \<Rightarrow> 'db \<Rightarrow> mgr_error + ('db \<times> uuid)" where
  "CreateSubTask S newID ctx parentID p s =
     (if cp_title p = '''' then Inl TitleRequired
      else if parentID = uuid_Nil then Inl (ParentNotFound parentID)
      else bind_res (validateParent S ctx parentID s)
        (\<lambda>_. bind_res (validateBlockers S ctx (cp_blocked_by p) s)
          (\<lambda>_. store_new S ctx (new_task newID (Some parentID) p) s)))"

section \<open>Changing tasks\<close>

definition update_with ::
    "'db task_sql \<Rightarrow> string \<Rightarrow> uuid \<Rightarrow> (engine_task \<Rightarrow> task_error + engine_task option) \<Rightarrow> 'db \<Rightarrow> mgr_error + 'db" where
  "update_with S ctx i f s =
     bind_res (lift_repo (repo_GetByID S ctx i s)) (\<lambda>task.
       case f task of
         Inl e \<Rightarrow> Inl (MgrRepo (RepoTask e))
       | Inr None \<Rightarrow> Inr s
       | Inr (Some task') \<Rightarrow> lift_repo (repo_Update S ctx task' s))"

definition AttachSession :: "'db task_sql \<Rightarrow> string \<Rightarrow> uuid \<Rightarrow> string \<Rightarrow> 'db \<Rightarrow> mgr_error + 'db" where
  "AttachSession S ctx taskID sessionID s =
     update_with S ctx taskID
       (\<lambda>task. if et_session_id task = sessionID then Inr None
               else Inr (Some (task\<lparr>et_session_id := sessionID\<rparr>))) s"

definition UpdateTask :: "'db task_sql \<Rightarrow> string \<Rightarrow> uuid \<Rightarrow> string \<Rightarrow> string \<Rightarrow> 'db \<Rightarrow> mgr_error + 'db" where
  "UpdateTask S ctx i title description s =
     update_with S ctx i
       (\<lambda>task.
          let task1 = (if title \<noteq> '''' then task\<lparr>et_title := title\<rparr> else task);
              task2 = (if description \<noteq> '''' then task1\<lparr>et_description := description\<rparr> else task1)
          in Inr (Some task2)) s"

definition GetTask :: "'db task_sql \<Rightarrow> string \<Rightarrow> uuid \<Rightarrow> 'db \<Rightarrow> mgr_error + engine_task" where
  "GetTask S ctx i s = lift_repo (repo_GetByID S ctx i s)"

definition SetTaskStatus ::
    "'db task_sql \<Rightarrow> time \<Rightarrow> string \<Rightarrow> uuid \<Rightarrow> string \<Rightarrow> string \<Rightarrow> 'db \<Rightarrow> mgr_error + 'db" where
  "SetTaskStatus S now ctx i status result s =
     lift_repo (repo_UpdateStatus S now ctx i (task_status_of_string status) result s)"

definition ApproveTask :: "'db task_sql \<Rightarrow> time \<Rightarrow> string \<Rightarrow> uuid \<Rightarrow> 'db \<Rightarrow> mgr_error + 'db" where
  "ApproveTask S now ctx i s = lift_repo (repo_UpdateStatus S now ctx i EngineTaskStatusApproved '''' s)"

definition StartTask :: "'db task_sql \<Rightarrow> time \<Rightarrow> string \<Rightarrow> uuid \<Rightarrow> 'db \<Rightarrow> mgr_error + 'db" where
  "StartTask S now ctx i s = lift_repo (repo_UpdateStatus S now ctx i EngineTaskStatusInProgress '''' s)"

definition CompleteTask :: "'db task_sql \<Rightarrow> time \<Rightarrow> string \<Rightarrow> uuid \<Rightarrow> string \<Rightarrow> 'db \<Rightarrow> mgr_error + 'db" where
  "CompleteTask S now ctx i result s =
     lift_repo (repo_UpdateStatus S now ctx i EngineTaskStatusCompleted result s)"

definition FailTask :: "'db task_sql \<Rightarrow> time \<Rightarrow> string \<Rightarrow> uuid \<Rightarrow> string \<Rightarrow> 'db \<Rightarrow> mgr_error + 'db" where
  "FailTask S now ctx i reason s =
     update_with S ctx i (\<lambda>task. bind_res (task_fail now reason task) (\<lambda>t. Inr (Some t))) s"

definition CancelTask :: "'db task_sql \<Rightarrow> (uuid \<Rightarrow> time) \<Rightarrow> string \<Rightarrow> uuid \<Rightarrow> string \<Rightarrow> 'db \<Rightarrow> mgr_error + 'db" where
  "CancelTask S now ctx i reason s = lift_repo (repo_Cancel S now ctx i reason s)"

definition SetTaskPriority :: "'db task_sql \<Rightarrow> time \<Rightarrow> string \<Rightarrow> uuid \<Rightarrow> int \<Rightarrow> 'db \<Rightarrow> mgr_error + 'db" where
  "SetTaskPriority S now ctx i priority s =
     update_with S ctx i (\<lambda>task. bind_res (task_set_priority now priority task) (\<lambda>t. Inr (Some t))) s"

definition AssignTaskToAgent :: "'db task_sql \<Rightarrow> time \<Rightarrow> string \<Rightarrow> uuid \<Rightarrow> string \<Rightarrow> 'db \<Rightarrow> mgr_error + 'db" where
  "AssignTaskToAgent S now ctx i agentID s =
     update_with S ctx i
       (\<lambda>task.
          if et_status task = EngineTaskStatusApproved \<or> et_status task = EngineTaskStatusPending
          then bind_res (task_start now task) (\<lambda>t. Inr (Some t)) else Inr None) s"

section \<open>Queries\<close>

definition GetNextTask :: "'db task_sql \<Rightarrow> string \<Rightarrow> string \<Rightarrow> 'db \<Rightarrow> mgr_error + engine_task option" where
  "GetNextTask S ctx sessionID s =
     bind_res (lift_repo (repo_GetByStatus S ctx sessionID EngineTaskStatusInProgress s)) (\<lambda>inProgress.
       if inProgress \<noteq> [] then Inr (Some (hd inProgress))
       else bind_res (lift_repo (repo_GetByStatus S ctx sessionID EngineTaskStatusApproved s)) (\<lambda>approved.
         if approved \<noteq> [] then Inr (Some (hd approved))
         else bind_res (lift_repo (repo_GetByStatus S ctx sessionID EngineTaskStatusPending s)) (\<lambda>pending.
           if pending \<noteq> [] then Inr (Some (hd pending)) else Inr None)))"

definition GetTaskByAgentID :: "string \<Rightarrow> 'db \<Rightarrow> mgr_error + engine_task option" where
  "GetTaskByAgentID agentID s = Inr None"

definition ListTasksDomain :: "'db task_sql \<Rightarrow> string \<Rightarrow> string \<Rightarrow> 'db \<Rightarrow> mgr_error + engine_task list" where
  "ListTasksDomain S ctx sessionID s = lift_repo (repo_GetBySession S ctx sessionID s)"

definition ListSubtasksDomain :: "'db task_sql \<Rightarrow> string \<Rightarrow> uuid \<Rightarrow> 'db \<Rightarrow> mgr_error + engine_task list" where
  "ListSubtasksDomain S ctx parentID s = lift_repo (repo_GetSubTasks S ctx parentID s)"

text \<open>\<open>toTaskSummaries\<close>; \<open>uuid_string\<close> is the \<open>String\<close> method of the uuid package.\<close>

record task_summary =
  su_id :: string
  su_title :: string
  su_status :: string
  su_parent_id :: "string option"
  su_priority :: int

definition toTaskSummaries :: "(uuid \<Rightarrow> string) \<Rightarrow> engine_task list \<Rightarrow> task_summary list" where
  "toTaskSummaries uuid_string tasks =
     map (\<lambda>t. \<lparr>su_id = uuid_string (et_id t), su_title = et_title t,
               su_status = task_status_string (et_status t),
               su_parent_id = map_option uuid_string (et_parent_task_id t),
               su_priority = et_priority t\<rparr>) tasks"

definition ListTasks :: "'db task_sql \<Rightarrow> (uuid \<Rightarrow> string) \<Rightarrow> string \<Rightarrow> string \<Rightarrow> 'db \<Rightarrow> mgr_error + task_summary list" where
  "ListTasks S uuid_string ctx sessionID s =
     bind_res
       (lift_repo (repo_List S ctx \<lparr>tf_status = None, tf_user_sub = None, tf_session_id = Some sessionID,
          tf_parent_task_id = None, tf_limit = 0, tf_offset = 0\<rparr> s))
       (\<lambda>tasks. Inr (toTaskSummaries uuid_string tasks))"

definition ListSubtasks :: "'db task_sql \<Rightarrow> (uuid \<Rightarrow> string) \<Rightarrow> string \<Rightarrow> uuid \<Rightarrow> 'db \<Rightarrow> mgr_error + task_summary list" where
  "ListSubtasks S uuid_string ctx parentID s =
     bind_res (lift_repo (repo_GetSubTasks S ctx parentID s))
       (\<lambda>tasks. Inr (toTaskSummaries uuid_string tasks))"

definition ListReadySubtasks ::
    "'db task_sql \<Rightarrow> (uuid \<Rightarrow> string) \<Rightarrow> string \<Rightarrow> uuid \<Rightarrow> 'db \<Rightarrow> mgr_error + task_summary list" where
  "ListReadySubtasks S uuid_string ctx parentID s =
     bind_res (lift_repo (repo_GetReadySubtasks S ctx parentID s))
       (\<lambda>tasks. Inr (toTaskSummaries uuid_string tasks))"

section \<open>The calls as one step function\<close>

datatype task_cmd =
    CmdCreate uuid create_params
  | CmdCreateSub uuid uuid create_params
  | CmdUpdate uuid string string
  | CmdAttach uuid string
  | CmdSetStatus time uuid string string
  | CmdFail time uuid string
  | CmdCancel "uuid \<Rightarrow> time" uuid string
  | CmdSetPriority time uuid int
  | CmdAssign time uuid string

text \<open>A command of a caller whose context carries a tenant; created identifiers are dropped.\<close>

fun mgr_step :: "'db task_sql \<Rightarrow> string \<times> task_cmd \<Rightarrow> 'db \<Rightarrow> mgr_error + 'db" where
  "mgr_step S (ctx, CmdCreate n p) s = bind_res (CreateTask S n ctx p s) (\<lambda>(s', _). Inr s')"
| "mgr_step S (ctx, CmdCreateSub n par p) s = bind_res (CreateSubTask S n ctx par p s) (\<lambda>(s', _). Inr s')"
| "mgr_step S (ctx, CmdUpdate i t d) s = UpdateTask S ctx i t d s"
| "mgr_step S (ctx, CmdAttach i sid) s = AttachSession S ctx i sid s"
| "mgr_step S (ctx, CmdSetStatus now i st r) s = SetTaskStatus S now ctx i st r s"
| "mgr_step S (ctx, CmdFail now i r) s = FailTask S now ctx i r s"
| "mgr_step S (ctx, CmdCancel now i r) s = CancelTask S now ctx i r s"
| "mgr_step S (ctx, CmdSetPriority now i p) s = SetTaskPriority S now ctx i p s"
| "mgr_step S (ctx, CmdAssign now i a) s = AssignTaskToAgent S now ctx i a s"

lemma lift_repo_Inr [simp]: "lift_repo r = Inr x \<longleftrightarrow> r = Inr x"
  by (cases r) (auto simp: lift_repo_def)

section \<open>Parent chains\<close>

text \<open>\<open>depth_within n T t i\<close>: the chain from task \<open>i\<close> up to a top-level task stays inside tenant \<open>T\<close>
  and has at most \<open>n\<close> tasks.\<close>

fun depth_within :: "nat \<Rightarrow> string \<Rightarrow> task_table \<Rightarrow> uuid \<Rightarrow> bool" where
  "depth_within 0 T t i = False"
| "depth_within (Suc n) T t i =
     (case t i of
        None \<Rightarrow> False
      | Some m \<Rightarrow> tm_tenant_id m = T \<and>
          (case tm_parent_task_id m of None \<Rightarrow> True | Some p \<Rightarrow> depth_within n T t p))"

lemma depth_within_mono: "depth_within n T t i \<Longrightarrow> n \<le> n' \<Longrightarrow> depth_within n' T t i"
proof (induction n arbitrary: i n')
  case 0
  then show ?case by simp
next
  case (Suc n)
  then obtain k where "n' = Suc k" "n \<le> k" by (cases n') auto
  with Suc show ?case by (auto split: option.splits)
qed

definition keeps_places :: "task_table \<Rightarrow> task_table \<Rightarrow> bool" where
  "keeps_places t t' \<longleftrightarrow> (\<forall>i m. t i = Some m \<longrightarrow> (\<exists>m'. t' i = Some m' \<and> same_place m m'))"

lemma depth_within_keeps:
  assumes "keeps_places t t'"
  shows "depth_within n T t i \<Longrightarrow> depth_within n T t' i"
proof (induction n arbitrary: i)
  case 0
  then show ?case by simp
next
  case (Suc n)
  then obtain m where m: "t i = Some m" by (auto split: option.splits)
  then obtain m' where m': "t' i = Some m'" "same_place m m'"
    using assms by (auto simp: keeps_places_def)
  show ?case using Suc m m' by (auto simp: same_place_def split: option.splits)
qed

section \<open>Well-formed tables\<close>

definition row_ok :: "task_table \<Rightarrow> uuid \<Rightarrow> task_model \<Rightarrow> bool" where
  "row_ok t i m \<longleftrightarrow> wf_task (toEngineTask m) \<and> depth_within MaxTaskDepth (tm_tenant_id m) t i"

definition table_ok :: "task_table \<Rightarrow> bool" where
  "table_ok t \<longleftrightarrow> (\<forall>i m. t i = Some m \<longrightarrow> row_ok t i m)"

lemma wf_task_cong:
  "et_status t = et_status t' \<Longrightarrow> et_approved_at t = et_approved_at t' \<Longrightarrow> et_started_at t = et_started_at t' \<Longrightarrow>
     et_completed_at t = et_completed_at t' \<Longrightarrow> wf_task t = wf_task t'"
  by (simp add: wf_task_def task_is_terminal_def)

lemma wf_stored:
  "plain_status (et_status t) \<Longrightarrow>
     wf_task (toEngineTask ((toTaskModel t)\<lparr>tm_tenant_id := T, tm_updated_at := u\<rparr>)) = wf_task t"
  by (rule wf_task_cong) (simp_all add: toEngineTask_def toTaskModel_def plain_status_def)

lemma table_ok_update:
  assumes ok: "table_ok t" and upd: "row_update T t t' i m m'" and wf: "wf_task (toEngineTask m')"
  shows "table_ok t'"
  unfolding table_ok_def
proof (intro allI impI)
  fix j r assume r: "t' j = Some r"
  have place: "same_place m m'" and t': "t' = t(i \<mapsto> m')" and ti: "t i = Some m"
    using upd by (auto simp: row_update_def)
  have keeps: "keeps_places t t'" using place ti by (auto simp: keeps_places_def t' same_place_def)
  show "row_ok t' j r"
  proof (cases "j = i")
    case True
    have "depth_within MaxTaskDepth (tm_tenant_id m) t i" using ok ti by (simp add: table_ok_def row_ok_def)
    with True r t' place wf show ?thesis
      using depth_within_keeps [OF keeps] by (auto simp: row_ok_def same_place_def)
  next
    case False
    then have "t j = Some r" using r t' by simp
    then have "row_ok t j r" using ok by (simp add: table_ok_def)
    then show ?thesis using depth_within_keeps [OF keeps] by (simp add: row_ok_def)
  qed
qed

lemma table_ok_cancel:
  assumes ok: "table_ok t" and step: "cancel_step T t t'"
  shows "table_ok t'"
  unfolding table_ok_def
proof (intro allI impI)
  fix j r assume r: "t' j = Some r"
  have keeps: "keeps_places t t'"
    unfolding keeps_places_def
  proof (intro allI impI)
    fix i m assume m: "t i = Some m"
    have "t' i = t i \<or> (\<exists>m m'. t i = Some m \<and> t' i = Some m' \<and> tm_tenant_id m = T \<and> cancelled_from m m')"
      using step by (simp add: cancel_step_def)
    then show "\<exists>m'. t' i = Some m' \<and> same_place m m'"
      using m by (auto simp: same_place_def cancelled_from_def same_identity_def)
  qed
  from step r show "row_ok t' j r"
  proof (cases rule: cancel_stepE)
    case 1
    then have "row_ok t j r" using ok by (simp add: table_ok_def)
    then show ?thesis using depth_within_keeps [OF keeps] by (simp add: row_ok_def)
  next
    case (2 m)
    have "wf_task (toEngineTask r)"
      using 2 by (auto simp: cancelled_from_def wf_task_def task_is_terminal_def has_started_def row_simps
          task_status_of_string_def)
    moreover have "depth_within MaxTaskDepth (tm_tenant_id r) t' j"
    proof -
      have "row_ok t j m" using ok 2 by (simp add: table_ok_def)
      then have "depth_within MaxTaskDepth (tm_tenant_id m) t' j"
        using depth_within_keeps [OF keeps] by (simp add: row_ok_def)
      then show ?thesis using 2 by (simp add: cancelled_from_def same_identity_def)
    qed
    ultimately show ?thesis by (simp add: row_ok_def)
  qed
qed

lemma table_ok_create:
  assumes ok: "table_ok t" and new: "t i = None" and wf: "wf_task (toEngineTask m)"
    and parent: "\<And>p. tm_parent_task_id m = Some p \<Longrightarrow> depth_within 9 (tm_tenant_id m) t p"
  shows "table_ok (t(i \<mapsto> m))"
  unfolding table_ok_def
proof (intro allI impI)
  fix j r assume r: "(t(i \<mapsto> m)) j = Some r"
  have keeps: "keeps_places t (t(i \<mapsto> m))" using new by (auto simp: keeps_places_def same_place_def)
  show "row_ok (t(i \<mapsto> m)) j r"
  proof (cases "j = i")
    case True
    have "depth_within (Suc 9) (tm_tenant_id m) (t(i \<mapsto> m)) i"
      unfolding depth_within.simps using parent depth_within_keeps [OF keeps] by (auto split: option.splits)
    with True r wf show ?thesis by (simp add: row_ok_def MaxTaskDepth_def)
  next
    case False
    then have "row_ok t j r" using r ok by (simp add: table_ok_def)
    then show ?thesis using depth_within_keeps [OF keeps] by (simp add: row_ok_def)
  qed
qed

lemma new_task_wf: "wf_task (new_task n par p)"
  by (simp add: new_task_def wf_task_def task_is_terminal_def has_started_def)

lemma new_task_plain:
  "plain_status (et_status (new_task n par p))" "task_status_string (et_status (new_task n par p)) \<noteq> ''''"
  "task_mode_string (et_mode (new_task n par p)) \<noteq> ''''"
  by (simp_all add: new_task_def)

section \<open>Every call keeps tables well formed\<close>

text \<open>Functions that edit an entity without moving it: the shape of every \<open>update_with\<close>.\<close>

definition edits :: "(engine_task \<Rightarrow> task_error + engine_task option) \<Rightarrow> bool" where
  "edits f \<longleftrightarrow>
     (\<forall>t t'. f t = Inr (Some t') \<longrightarrow> plain_status (et_status t) \<longrightarrow>
        et_id t' = et_id t \<and> et_parent_task_id t' = et_parent_task_id t \<and>
        plain_status (et_status t') \<and> (wf_task t \<longrightarrow> wf_task t'))"

lemma transition_plain: "task_transition now target t = Inr t' \<Longrightarrow> plain_status (et_status t')"
  unfolding transition_Inr_iff by (elim conjE can_transitionE) simp_all

lemma edits_transition:
  assumes "task_transition now target t = Inr t'"
  shows "et_id t' = et_id t \<and> et_parent_task_id t' = et_parent_task_id t \<and>
    plain_status (et_status t') \<and> (wf_task t \<longrightarrow> wf_task t')"
  using transition_identity [OF assms] transition_plain [OF assms] transition_wf [OF _ assms] by blast

lemma wf_text [simp]:
  "wf_task (t\<lparr>et_session_id := x\<rparr>) = wf_task t" "wf_task (t\<lparr>et_title := x\<rparr>) = wf_task t"
  "wf_task (t\<lparr>et_description := x\<rparr>) = wf_task t" "wf_task (t\<lparr>et_priority := p, et_updated_at := n\<rparr>) = wf_task t"
  by (simp_all add: wf_task_def task_is_terminal_def)

lemma edits_attach: "edits (\<lambda>task. if et_session_id task = sid then Inr None else Inr (Some (task\<lparr>et_session_id := sid\<rparr>)))"
  by (simp add: edits_def)

lemma edits_update: "edits (\<lambda>task.
    let task1 = (if title \<noteq> '''' then task\<lparr>et_title := title\<rparr> else task);
        task2 = (if description \<noteq> '''' then task1\<lparr>et_description := description\<rparr> else task1)
    in Inr (Some task2))"
  by (simp add: edits_def Let_def)

lemma edits_fail: "edits (\<lambda>task. bind_res (task_fail now reason task) (\<lambda>t. Inr (Some t)))"
  unfolding edits_def task_fail_def by (auto dest!: edits_transition)

lemma edits_priority: "edits (\<lambda>task. bind_res (task_set_priority now p task) (\<lambda>t. Inr (Some t)))"
  by (auto simp: edits_def task_set_priority_def split: if_splits)

lemma edits_assign: "edits (\<lambda>task.
    if et_status task = EngineTaskStatusApproved \<or> et_status task = EngineTaskStatusPending
    then bind_res (task_start now task) (\<lambda>t. Inr (Some t)) else Inr None)"
  unfolding edits_def task_start_def by (auto dest!: edits_transition split: if_splits)

context task_store
begin

lemma get_by_id_ok:
  "repo_GetByID S ctx i s = Inr task \<Longrightarrow>
     \<exists>m. tbl s i = Some m \<and> tm_tenant_id m = tenantIDFromCtx ctx \<and> tm_id m = i \<and> task = toEngineTask m"
  by (auto simp: repo_GetByID_def tenantScope_def dest: load_row_ok)

lemma update_with_ok:
  assumes "update_with S ctx i f s = Inr s'" and "edits f"
  shows "s' = s \<or> (\<exists>m m'. row_update (tenantIDFromCtx ctx) (tbl s) (tbl s') i m m' \<and>
    (wf_task (toEngineTask m) \<longrightarrow> wf_task (toEngineTask m')))"
proof -
  let ?T = "tenantIDFromCtx ctx"
  obtain m where m: "tbl s i = Some m" "tm_tenant_id m = ?T" "tm_id m = i"
    and rest: "(case f (toEngineTask m) of Inl e \<Rightarrow> Inl (MgrRepo (RepoTask e)) | Inr None \<Rightarrow> Inr s
       | Inr (Some task') \<Rightarrow> lift_repo (repo_Update S ctx task' s)) = Inr s'"
    using assms(1) unfolding update_with_def by (auto dest: get_by_id_ok)
  show ?thesis
  proof (cases "s' = s")
    case False
    with rest obtain t where t: "f (toEngineTask m) = Inr (Some t)" and u: "repo_Update S ctx t s = Inr s'"
      by (auto split: sum.splits option.splits)
    have e: "et_id t = i" "et_parent_task_id t = tm_parent_task_id m" "plain_status (et_status t)"
        "wf_task (toEngineTask m) \<longrightarrow> wf_task t"
      using assms(2) t m by (auto simp: edits_def row_simps)
    obtain v where "tbl s' = (tbl s)(i \<mapsto> (toTaskModel t)\<lparr>tm_tenant_id := ?T, tm_updated_at := v\<rparr>)"
      using update_ok [OF u] e(1) by auto
    moreover have "same_place m ((toTaskModel t)\<lparr>tm_tenant_id := ?T, tm_updated_at := v\<rparr>)"
      using m e by (simp add: same_place_def row_simps)
    ultimately have "row_update ?T (tbl s) (tbl s') i m ((toTaskModel t)\<lparr>tm_tenant_id := ?T, tm_updated_at := v\<rparr>)"
      using m by (simp add: row_update_def)
    then show ?thesis using e(4) wf_stored [OF e(3), where T = ?T and u = v] by blast
  qed simp
qed

lemma walk_ok:
  "S' = S \<Longrightarrow> walkParents S' ctx cur d vis s = Inr n \<Longrightarrow> cur = toEngineTask m \<Longrightarrow> tbl s i = Some m \<Longrightarrow>
     tm_tenant_id m = tenantIDFromCtx ctx \<Longrightarrow> d \<le> n \<and> depth_within (Suc (n - d)) (tenantIDFromCtx ctx) (tbl s) i"
proof (induction S' ctx cur d vis s arbitrary: m i rule: walkParents.induct)
  case (1 S' ctx cur d vis s)
  show ?case
  proof (cases "et_parent_task_id cur")
    case None
    then show ?thesis using "1.prems" by (auto simp: walkParents.simps row_simps)
  next
    case (Some p)
    then obtain nxt where g: "p \<notin> vis" "repo_GetByID S ctx p s = Inr nxt"
      and w: "walkParents S ctx nxt (Suc d) (insert p vis) s = Inr n"
      using "1.prems"(1,2) by (auto simp: walkParents.simps [of _ _ cur] split: if_splits sum.splits)
    obtain m' where m': "tbl s p = Some m'" "tm_tenant_id m' = tenantIDFromCtx ctx" "nxt = toEngineTask m'"
      using get_by_id_ok [OF g(2)] by blast
    have ih: "Suc d \<le> n" "depth_within (Suc (n - Suc d)) (tenantIDFromCtx ctx) (tbl s) p"
      using "1.IH" [OF Some g(1), of nxt m' p] "1.prems"(1) g(2) w m' by auto
    then have "Suc (n - Suc d) = n - d" by simp
    with ih Some "1.prems" show ?thesis by (simp add: row_simps)
  qed
qed

lemma validate_parent_ok:
  assumes "validateParent S ctx p s = Inr n"
  shows "depth_within 9 (tenantIDFromCtx ctx) (tbl s) p \<and>
    (\<exists>m. tbl s p = Some m \<and> \<not> row_terminal m) \<and> depth_within n (tenantIDFromCtx ctx) (tbl s) p \<and> n < MaxTaskDepth"
proof -
  obtain task where g: "repo_GetByID S ctx p s = Inr task" and nt: "\<not> task_is_terminal task"
    and w: "walkParents S ctx task 1 {et_id task} s = Inr n" and n: "n < MaxTaskDepth"
    using assms by (auto simp: validateParent_def split: if_splits sum.splits repo_error.splits)
  obtain m where m: "tbl s p = Some m" "tm_tenant_id m = tenantIDFromCtx ctx" "task = toEngineTask m"
    using get_by_id_ok [OF g] by blast
  have "1 \<le> n \<and> depth_within (Suc (n - 1)) (tenantIDFromCtx ctx) (tbl s) p"
    by (rule walk_ok [OF refl w m(3,1,2)])
  then have x: "depth_within (Suc (n - 1)) (tenantIDFromCtx ctx) (tbl s) p" and "1 \<le> n" by blast+
  from \<open>1 \<le> n\<close> have "Suc (n - 1) = n" by simp
  with x have d: "depth_within n (tenantIDFromCtx ctx) (tbl s) p" by (simp only:)
  then have "depth_within 9 (tenantIDFromCtx ctx) (tbl s) p"
    by (rule depth_within_mono) (use n in \<open>simp add: MaxTaskDepth_def\<close>)
  then show ?thesis using d m nt n by (auto simp: row_terminal_def)
qed

lemma store_new_ok:
  assumes "store_new S ctx (new_task n par p) s = Inr (s', i)"
  shows "\<exists>m. tbl s i = None \<and> tbl s' = (tbl s)(i \<mapsto> m) \<and> tm_tenant_id m = tenantIDFromCtx ctx \<and>
    tm_parent_task_id m = par \<and> wf_task (toEngineTask m) \<and> tm_priority m = cp_priority p \<and>
    tm_blocked_by m = cp_blocked_by p"
proof -
  obtain t where c: "repo_Create S ctx (new_task n par p) s = Inr (s', t)" and i: "i = et_id t"
    using assms by (auto simp: store_new_def)
  obtain c u where "tbl s i = None" and t': "tbl s' = (tbl s)(i \<mapsto> (toTaskModel (new_task n par p))\<lparr>
      tm_tenant_id := tenantIDFromCtx ctx, tm_id := i, tm_created_at := c, tm_updated_at := u\<rparr>)"
    using create_ok [OF c new_task_plain] unfolding i by blast
  moreover have "wf_task (toEngineTask ((toTaskModel (new_task n par p))\<lparr>
      tm_tenant_id := tenantIDFromCtx ctx, tm_id := i, tm_created_at := c, tm_updated_at := u\<rparr>))"
    using new_task_wf [of n par p] new_task_plain(1) [of n par p]
    by (subst wf_task_cong [of _ "new_task n par p"]) (simp_all add: toEngineTask_def toTaskModel_def plain_status_def)
  moreover have "tm_parent_task_id (toTaskModel (new_task n par p)) = par"
      "tm_priority (toTaskModel (new_task n par p)) = cp_priority p"
      "tm_blocked_by (toTaskModel (new_task n par p)) = cp_blocked_by p"
    by (simp_all add: row_simps new_task_def)
  ultimately show ?thesis by auto
qed

lemma others_create: "t i = None \<Longrightarrow> tm_tenant_id m = T \<Longrightarrow> others T (t(i \<mapsto> m)) = others T t"
  by (auto simp: others_def fun_eq_iff)

lemma row_update_ok:
  assumes "row_update T (tbl s) (tbl s') i m m'" and "wf_task (toEngineTask m) \<longrightarrow> wf_task (toEngineTask m')"
    and "table_ok (tbl s)"
  shows "table_ok (tbl s') \<and> others T (tbl s') = others T (tbl s)"
proof -
  have "wf_task (toEngineTask m)" using assms(1,3) by (auto simp: row_update_def table_ok_def row_ok_def)
  then show ?thesis using assms table_ok_update row_update_others by blast
qed

lemma status_ok:
  assumes "repo_UpdateStatus S now ctx i st r s = Inr s'" and "table_ok (tbl s)"
  shows "table_ok (tbl s') \<and> others (tenantIDFromCtx ctx) (tbl s') = others (tenantIDFromCtx ctx) (tbl s)"
proof -
  obtain m t u where upd: "row_update (tenantIDFromCtx ctx) (tbl s) (tbl s') i m
      ((toTaskModel (t\<lparr>et_result := r\<rparr>))\<lparr>tm_tenant_id := tm_tenant_id m, tm_updated_at := u\<rparr>)"
    and t: "task_transition now st (toEngineTask m) = Inr t"
    using update_status_ok [OF assms(1)] by blast
  have "plain_status (et_status (t\<lparr>et_result := r\<rparr>))" using transition_plain [OF t] by simp
  from wf_stored [OF this] transition_wf [OF _ t] row_update_ok [OF upd _ assms(2)]
  show ?thesis by simp
qed

lemma edit_ok:
  assumes "update_with S ctx i f s = Inr s'" and "edits f" and "table_ok (tbl s)"
  shows "table_ok (tbl s') \<and> others (tenantIDFromCtx ctx) (tbl s') = others (tenantIDFromCtx ctx) (tbl s)"
  using update_with_ok [OF assms(1,2)] row_update_ok [OF _ _ assms(3)] assms(3) by blast

lemma create_table_ok:
  assumes "store_new S ctx (new_task n par p) s = Inr (s', i)" and "table_ok (tbl s)"
    and "\<And>q. par = Some q \<Longrightarrow> depth_within 9 (tenantIDFromCtx ctx) (tbl s) q"
  shows "table_ok (tbl s') \<and> others (tenantIDFromCtx ctx) (tbl s') = others (tenantIDFromCtx ctx) (tbl s)"
proof -
  obtain m where m: "tbl s i = None" "tbl s' = (tbl s)(i \<mapsto> m)" "tm_tenant_id m = tenantIDFromCtx ctx"
    "tm_parent_task_id m = par" "wf_task (toEngineTask m)"
    using store_new_ok [OF assms(1)] by blast
  have "table_ok (tbl s')"
    unfolding m(2) by (rule table_ok_create [OF assms(2) m(1) m(5)]) (use m(3,4) assms(3) in auto)
  moreover have "others (tenantIDFromCtx ctx) (tbl s') = others (tenantIDFromCtx ctx) (tbl s)"
    unfolding m(2) by (rule others_create) (rule m(1), rule m(3))
  ultimately show ?thesis by blast
qed

lemma mgr_step_ok:
  assumes "mgr_step S (ctx, c) s = Inr s'" and ok: "table_ok (tbl s)"
  shows "table_ok (tbl s') \<and> others (tenantIDFromCtx ctx) (tbl s') = others (tenantIDFromCtx ctx) (tbl s)"
proof (cases c)
  case (CmdCreate n p)
  then obtain i where "store_new S ctx (new_task n None p) s = Inr (s', i)"
    using assms(1) by (auto simp: CreateTask_def split: if_splits)
  then show ?thesis using create_table_ok [OF _ ok] by blast
next
  case (CmdCreateSub n par p)
  then obtain i d where "store_new S ctx (new_task n (Some par) p) s = Inr (s', i)"
    and "validateParent S ctx par s = Inr d"
    using assms(1) by (auto simp: CreateSubTask_def split: if_splits)
  then show ?thesis using create_table_ok [OF _ ok] validate_parent_ok by blast
next
  case (CmdCancel now i r)
  then have c: "repo_Cancel S now ctx i r s = Inr s'" using assms(1) by (simp add: CancelTask_def)
  show ?thesis using cancel_ok(1) [OF c] table_ok_cancel [OF ok] cancel_step_others by blast
next
  case (CmdSetStatus now i st r)
  then show ?thesis using assms(1) status_ok [OF _ ok] by (simp add: SetTaskStatus_def)
next
  case (CmdUpdate i t d)
  then have "UpdateTask S ctx i t d s = Inr s'" using assms(1) by simp
  then show ?thesis unfolding UpdateTask_def using edits_update ok by (rule edit_ok)
next
  case (CmdAttach i sid)
  then have "AttachSession S ctx i sid s = Inr s'" using assms(1) by simp
  then show ?thesis unfolding AttachSession_def using edits_attach ok by (rule edit_ok)
next
  case (CmdFail now i r)
  then have "FailTask S now ctx i r s = Inr s'" using assms(1) by simp
  then show ?thesis unfolding FailTask_def using edits_fail ok by (rule edit_ok)
next
  case (CmdSetPriority now i p)
  then have "SetTaskPriority S now ctx i p s = Inr s'" using assms(1) by simp
  then show ?thesis unfolding SetTaskPriority_def using edits_priority ok by (rule edit_ok)
next
  case (CmdAssign now i a)
  then have "AssignTaskToAgent S now ctx i a s = Inr s'" using assms(1) by simp
  then show ?thesis unfolding AssignTaskToAgent_def using edits_assign ok by (rule edit_ok)
qed

end

section \<open>The next task of a session\<close>

definition session_rows :: "task_table \<Rightarrow> string \<Rightarrow> string \<Rightarrow> string \<Rightarrow> task_model set" where
  "session_rows t T sid st =
     rows_of t (\<lambda>m. tm_tenant_id m = T \<and> tm_session_id m = sid \<and> tm_status m = st)"

text \<open>The head of a class: the row with the highest priority, the oldest one among those.\<close>

definition is_front :: "task_model set \<Rightarrow> task_model \<Rightarrow> bool" where
  "is_front R m \<longleftrightarrow> m \<in> R \<and> (\<forall>r \<in> R. r = m \<or> order_le PriorityThenCreated m r)"

fun next_choice :: "task_model set list \<Rightarrow> task_model option \<Rightarrow> bool" where
  "next_choice [] None = True"
| "next_choice [] (Some m) = False"
| "next_choice (R # Rs) x =
     (if R = {} then next_choice Rs x else (\<exists>m. x = Some m \<and> is_front R m))"

lemma found_rows_front: "found_rows t P PriorityThenCreated (r # rs) \<Longrightarrow> is_front (rows_of t P) r"
  by (auto simp: found_rows_def is_front_def)

context task_store
begin

lemma by_status_ok:
  assumes "repo_GetByStatus S ctx sid st s = Inr ts"
  shows "\<exists>rows. ts = map toEngineTask rows \<and>
    set rows = session_rows (tbl s) (tenantIDFromCtx ctx) sid (task_status_string st) \<and>
    (rows \<noteq> [] \<longrightarrow> is_front (session_rows (tbl s) (tenantIDFromCtx ctx) sid (task_status_string st)) (hd rows))"
proof -
  obtain rows where r: "found_rows (tbl s) (\<lambda>m. tenantScope ctx m \<and> tm_session_id m = sid \<and>
      tm_status m = task_status_string st) PriorityThenCreated rows" "ts = map toEngineTask rows"
    using load_rows_all assms unfolding repo_GetByStatus_def by blast
  have "set rows = session_rows (tbl s) (tenantIDFromCtx ctx) sid (task_status_string st)"
    using r(1) by (simp add: found_rows_def session_rows_def tenantScope_def)
  moreover have "is_front (session_rows (tbl s) (tenantIDFromCtx ctx) sid (task_status_string st)) (hd rows)"
    if "rows \<noteq> []"
    using that r(1) found_rows_front [of "tbl s" _ "hd rows" "tl rows"]
    by (simp add: session_rows_def tenantScope_def)
  ultimately show ?thesis using r(2) by blast
qed

lemma class_front:
  assumes "repo_GetByStatus S ctx sid st s = Inr ts" and "R = session_rows (tbl s) (tenantIDFromCtx ctx) sid (task_status_string st)"
  shows "if R = {} then ts = [] else ts \<noteq> [] \<and> (\<exists>m. hd ts = toEngineTask m \<and> is_front R m)"
proof -
  obtain rows where "ts = map toEngineTask rows" "set rows = R" "rows \<noteq> [] \<longrightarrow> is_front R (hd rows)"
    using by_status_ok [OF assms(1)] assms(2) by blast
  then show ?thesis by (cases rows) auto
qed

lemma get_next_ok:
  assumes "GetNextTask S ctx sid s = Inr x"
  shows "\<exists>m. x = map_option toEngineTask m \<and>
    next_choice (map (session_rows (tbl s) (tenantIDFromCtx ctx) sid) [''in_progress'', ''approved'', ''pending'']) m"
proof -
  let ?R = "session_rows (tbl s) (tenantIDFromCtx ctx) sid"
  obtain t1 where t1: "repo_GetByStatus S ctx sid EngineTaskStatusInProgress s = Inr t1"
    using assms by (auto simp: GetNextTask_def)
  note c1 = class_front [OF t1 refl, simplified]
  show ?thesis
  proof (cases "?R ''in_progress'' = {}")
    case False
    with c1 obtain m where "t1 \<noteq> []" "hd t1 = toEngineTask m" "is_front (?R ''in_progress'') m" by auto
    then show ?thesis using False assms t1
      by (intro exI [of _ "Some m"]) (simp add: GetNextTask_def lift_repo_def)
  next
    case e1: True
    with c1 have t1_nil: "t1 = []" by simp
    obtain t2 where t2: "repo_GetByStatus S ctx sid EngineTaskStatusApproved s = Inr t2"
      using assms t1 t1_nil by (auto simp: GetNextTask_def)
    note c2 = class_front [OF t2 refl, simplified]
    show ?thesis
    proof (cases "?R ''approved'' = {}")
      case False
      with c2 obtain m where "t2 \<noteq> []" "hd t2 = toEngineTask m" "is_front (?R ''approved'') m" by auto
      then show ?thesis using False e1 assms t1 t1_nil t2
        by (intro exI [of _ "Some m"]) (simp add: GetNextTask_def lift_repo_def)
    next
      case e2: True
      with c2 have t2_nil: "t2 = []" by simp
      obtain t3 where t3: "repo_GetByStatus S ctx sid EngineTaskStatusPending s = Inr t3"
        using assms t1 t1_nil t2 t2_nil by (auto simp: GetNextTask_def)
      have x: "x = (if t3 = [] then None else Some (hd t3))"
        using assms t1 t1_nil t2 t2_nil t3 by (auto simp: GetNextTask_def lift_repo_def)
      show ?thesis
      proof (cases "?R ''pending'' = {}")
        case True
        with class_front [OF t3 refl] x e1 e2 show ?thesis by (intro exI [of _ None]) simp
      next
        case False
        with class_front [OF t3 refl] obtain m where "t3 \<noteq> []" "hd t3 = toEngineTask m" "is_front (?R ''pending'') m"
          by auto
        with x False e1 e2 show ?thesis by (intro exI [of _ "Some m"]) simp
      qed
    qed
  qed
qed

end

section \<open>Properties\<close>

lemma run_mgr_ok:
  assumes "task_store S tbl" and "table_ok (tbl s)"
  shows "table_ok (tbl (run_ops (mgr_step S) cs s))"
proof (rule run_ops_invariant [where P = "\<lambda>s. table_ok (tbl s)"])
  fix x s s' assume "table_ok (tbl s)" "mgr_step S x s = Inr s'"
  then show "table_ok (tbl s')"
    using task_store.mgr_step_ok [OF assms(1), of "fst x" "snd x"] by simp
qed (rule assms(2))

text \<open>C1: In every table reached from a well-formed one (an empty one, for instance) by any sequence
  of task manager calls of any tenants, failed calls included, every task has timestamps that agree
  with its status, and the chain of its parents lies inside its tenant, has at most MaxTaskDepth tasks
  and so no cycle.\<close>

theorem task_table_stays_well_formed:
  assumes "task_store S tbl" and "table_ok (tbl s)" and "tbl (run_ops (mgr_step S) cs s) i = Some m"
  shows "wf_task (toEngineTask m) \<and>
    depth_within MaxTaskDepth (tm_tenant_id m) (tbl (run_ops (mgr_step S) cs s)) i"
  using run_mgr_ok [OF assms(1,2)] assms(3) unfolding table_ok_def row_ok_def by blast

definition demo_params :: create_params where
  "demo_params = \<lparr>cp_title = ''Release'', cp_description = '''', cp_acceptance_criteria = [],
     cp_session_id = ''s'', cp_priority = 1, cp_blocked_by = [], cp_require_approval = False,
     cp_mode = TaskModeInteractive\<rparr>"

definition empty_db :: mem_db where
  "empty_db = \<lparr>mem_rows = [], mem_clock = 5, mem_sessions = []\<rparr>"

definition demo_commands :: "(string \<times> task_cmd) list" where
  "demo_commands =
     [(''A'', CmdCreate 1 demo_params), (''A'', CmdCreateSub 2 1 demo_params),
      (''B'', CmdCancel (\<lambda>_. 7) 1 ''mine''), (''A'', CmdSetStatus 8 1 ''in_progress'' '''')]"

lemma empty_db_ok: "table_ok (mem_tbl empty_db)"
  by (simp add: table_ok_def mem_tbl_def empty_db_def)

lemmas manager_simps =
  CreateTask_def CreateSubTask_def store_new_def new_task_def repo_Create_def repo_GetByID_def load_row_def
  validateParent_def walkParents.simps lift_repo_def update_with_def demo_params_def uuid_Nil_def
  repo_UpdateStatus_def save_task_def task_transition_def task_can_transition_to_def
  task_is_terminal_def

lemma demo_commands_run:
  "map (\<lambda>m. (tm_id m, tm_parent_task_id m, tm_status m)) (mem_rows (run_ops (mgr_step mem_store) demo_commands empty_db))
   = [(1, None, ''in_progress''), (2, Some 1, ''pending'')]"
  by (simp add: demo_commands_def empty_db_def manager_simps demo_simps Let_def CancelTask_def SetTaskStatus_def
      repo_Cancel_def cancelRecursive.simps MaxTaskDepth_def)

theorem task_table_stays_well_formed_witness:
  "\<exists>m. mem_tbl (run_ops (mgr_step mem_store) demo_commands empty_db) 2 = Some m \<and> wf_task (toEngineTask m) \<and>
     depth_within MaxTaskDepth (tm_tenant_id m) (mem_tbl (run_ops (mgr_step mem_store) demo_commands empty_db)) 2"
proof -
  obtain m where m: "mem_tbl (run_ops (mgr_step mem_store) demo_commands empty_db) 2 = Some m"
    using demo_commands_run by (auto simp: mem_tbl_def map_eq_Cons_conv)
  with task_table_stays_well_formed [OF mem.task_store_axioms empty_db_ok m] show ?thesis by blast
qed



text \<open>GetNextTask returns the front task (highest priority, then oldest) among the tasks of the
  session in progress; if there is none, among the approved ones; if there is none, among the pending
  ones; and nothing exactly when the session has no task of these three kinds.\<close>

theorem next_task_choice:
  assumes "task_store S tbl" and "GetNextTask S ctx sid s = Inr x"
  shows "\<exists>m. x = map_option toEngineTask m \<and>
    next_choice (map (session_rows (tbl s) (tenantIDFromCtx ctx) sid) [''in_progress'', ''approved'', ''pending'']) m"
  by (rule task_store.get_next_ok [OF assms])

theorem next_task_choice_witness:
  "\<exists>m. Some (toEngineTask (demo_row 1 None ''in_progress'' ''A'' [])) = map_option toEngineTask m \<and>
     next_choice (map (session_rows (mem_tbl demo_db) (tenantIDFromCtx ''A'') ''s'')
       [''in_progress'', ''approved'', ''pending'']) m"
proof -
  have "GetNextTask mem_store ''A'' ''s'' demo_db = Inr (Some (toEngineTask (demo_row 1 None ''in_progress'' ''A'' [])))"
    by (simp add: GetNextTask_def repo_GetByStatus_def load_rows_def lift_repo_def demo_simps)
  then show ?thesis by (rule next_task_choice [OF mem.task_store_axioms])
qed

text \<open>A subtask is created only under a parent of the caller's tenant that exists, is not finished
  and has fewer than MaxTaskDepth tasks on its chain to the top; the new row has a fresh identifier and
  is the only change of the table.\<close>

theorem subtask_creation:
  assumes "task_store S tbl" and "CreateSubTask S n ctx p ps s = Inr (s', i)"
  shows "(\<exists>par. tbl s p = Some par \<and> tm_tenant_id par = tenantIDFromCtx ctx \<and> \<not> row_terminal par) \<and>
    depth_within (MaxTaskDepth - 1) (tenantIDFromCtx ctx) (tbl s) p \<and>
    (\<exists>m. tbl s i = None \<and> tbl s' = (tbl s)(i \<mapsto> m) \<and> tm_parent_task_id m = Some p \<and>
       tm_tenant_id m = tenantIDFromCtx ctx)"
proof -
  obtain d where v: "validateParent S ctx p s = Inr d"
    and st: "store_new S ctx (new_task n (Some p) ps) s = Inr (s', i)"
    using assms(2) by (auto simp: CreateSubTask_def split: if_splits)
  have d: "depth_within 9 (tenantIDFromCtx ctx) (tbl s) p" "\<exists>m. tbl s p = Some m \<and> \<not> row_terminal m"
    using task_store.validate_parent_ok [OF assms(1) v] by blast+
  have "depth_within (Suc 8) (tenantIDFromCtx ctx) (tbl s) p" using d(1) by simp
  then have "\<exists>par. tbl s p = Some par \<and> tm_tenant_id par = tenantIDFromCtx ctx"
    unfolding depth_within.simps by (auto split: option.splits)
  then show ?thesis
    using d task_store.store_new_ok [OF assms(1) st] by (auto simp: MaxTaskDepth_def)
qed

theorem subtask_creation_witness:
  "\<exists>s' i. CreateSubTask mem_store 9 ''A'' 3 demo_params demo_db = Inr (s', i) \<and>
     depth_within (MaxTaskDepth - 1) ''A'' (mem_tbl demo_db) 3"
proof -
  obtain s' i where c: "CreateSubTask mem_store 9 ''A'' 3 demo_params demo_db = Inr (s', i)"
    by (simp add: manager_simps demo_simps Let_def MaxTaskDepth_def)
  from subtask_creation [OF mem.task_store_axioms c] c show ?thesis unfolding demo_tenant by blast
qed

end
