(* ===== verification/Manage_Tasks_Tool.thy ===== *)
theory Manage_Tasks_Tool
  imports Task_Manager
begin

text \<open>
  The \<open>manage_tasks\<close> tool of the agents (\<open>internal/infrastructure/tools/engine_manage_tasks_tool.go\<close>):
  one handler per action, each with its checks in the order of the code, over the consumer-side
  interface \<open>EngineTaskManager\<close>.  The interface is the record \<open>task_manager\<close>; the locale
  \<open>session_tasks\<close> states what the tool may rely on, and it is interpreted on the adapter of
  \<open>Task_Manager\<close>.

  The input is the result of \<open>json.Unmarshal\<close> (its error text or the arguments), and the functions of
  the uuid package are the record \<open>uuid_lib\<close>.  A handler returns the text for the agent and the new
  store; the tool itself never returns a Go error.
\<close>

section \<open>Interfaces\<close>

record uuid_lib =
  uuid_parse :: "string \<Rightarrow> string + uuid"
  uuid_string :: "uuid \<Rightarrow> string"

record ('db, 'e) task_manager =
  mg_CreateTask :: "string \<Rightarrow> create_params \<Rightarrow> 'db \<Rightarrow> 'e + ('db \<times> uuid)"
  mg_UpdateTask :: "string \<Rightarrow> uuid \<Rightarrow> string \<Rightarrow> string \<Rightarrow> 'db \<Rightarrow> 'e + 'db"
  mg_GetTask :: "string \<Rightarrow> uuid \<Rightarrow> 'db \<Rightarrow> 'e + engine_task option"
  mg_ListTasks :: "string \<Rightarrow> string \<Rightarrow> 'db \<Rightarrow> 'e + task_summary list"
  mg_CreateSubTask :: "string \<Rightarrow> uuid \<Rightarrow> create_params \<Rightarrow> 'db \<Rightarrow> 'e + ('db \<times> uuid)"
  mg_ListSubtasks :: "string \<Rightarrow> uuid \<Rightarrow> 'db \<Rightarrow> 'e + task_summary list"
  mg_ListReadySubtasks :: "string \<Rightarrow> uuid \<Rightarrow> 'db \<Rightarrow> 'e + task_summary list"
  mg_SetTaskStatus :: "string \<Rightarrow> uuid \<Rightarrow> string \<Rightarrow> string \<Rightarrow> 'db \<Rightarrow> 'e + 'db"
  mg_ApproveTask :: "string \<Rightarrow> uuid \<Rightarrow> 'db \<Rightarrow> 'e + 'db"
  mg_StartTask :: "string \<Rightarrow> uuid \<Rightarrow> 'db \<Rightarrow> 'e + 'db"
  mg_CompleteTask :: "string \<Rightarrow> uuid \<Rightarrow> string \<Rightarrow> 'db \<Rightarrow> 'e + 'db"
  mg_FailTask :: "string \<Rightarrow> uuid \<Rightarrow> string \<Rightarrow> 'db \<Rightarrow> 'e + 'db"
  mg_CancelTask :: "string \<Rightarrow> uuid \<Rightarrow> string \<Rightarrow> 'db \<Rightarrow> 'e + 'db"
  mg_SetTaskPriority :: "string \<Rightarrow> uuid \<Rightarrow> int \<Rightarrow> 'db \<Rightarrow> 'e + 'db"
  mg_GetNextTask :: "string \<Rightarrow> string \<Rightarrow> 'db \<Rightarrow> 'e + engine_task option"
  mg_AssignTaskToAgent :: "string \<Rightarrow> uuid \<Rightarrow> string \<Rightarrow> 'db \<Rightarrow> 'e + 'db"
  mg_error_text :: "'e \<Rightarrow> string"

record create_arg =
  ca_title :: string
  ca_description :: string
  ca_acceptance_criteria :: "string list"
  ca_priority :: int

record manage_args =
  ma_action :: string
  ma_tasks :: "create_arg list"
  ma_task_id :: string
  ma_parent_task_id :: string
  ma_title :: string
  ma_description :: string
  ma_acceptance_criteria :: "string list"
  ma_status :: string
  ma_result :: string
  ma_reason :: string
  ma_priority :: "int option"
  ma_blocked_by :: "string list"
  ma_agent_id :: string
  ma_require_approval :: bool

text \<open>What every handler closes over: the uuid package, the manager, the session of the tool and the
  caller's context.\<close>

record ('db, 'e) tasks_tool =
  tt_uuid :: uuid_lib
  tt_manager :: "('db, 'e) task_manager"
  tt_session :: string
  tt_ctx :: string

section \<open>Parsing identifiers\<close>

definition parseToolTaskID :: "uuid_lib \<Rightarrow> string \<Rightarrow> string + uuid" where
  "parseToolTaskID U raw =
     (if raw = '''' then Inl ''task id is required''
      else case uuid_parse U raw of
          Inl e \<Rightarrow> Inl (''invalid task id '' @ go_quote raw @ '': '' @ e)
        | Inr i \<Rightarrow> Inr i)"

fun parseToolBlockerIDs :: "uuid_lib \<Rightarrow> string list \<Rightarrow> string + uuid list" where
  "parseToolBlockerIDs U [] = Inr []"
| "parseToolBlockerIDs U (s # ss) =
     (if s = '''' then Inl ''blocked_by contains empty task id''
      else case uuid_parse U s of
          Inl e \<Rightarrow> Inl (''blocked_by contains invalid task id '' @ go_quote s @ '': '' @ e)
        | Inr i \<Rightarrow> bind_res (parseToolBlockerIDs U ss) (\<lambda>is. Inr (i # is)))"

section \<open>Formatting\<close>

definition em_dash :: string where
  "em_dash = [CHR 0xE2, CHR 0x80, CHR 0x94]"

definition err_text :: "string \<Rightarrow> string" where
  "err_text e = ''[ERROR] '' @ e"

definition formatTaskList :: "task_summary list \<Rightarrow> string" where
  "formatTaskList tasks =
     (if tasks = [] then ''No tasks found.''
      else ''Tasks ('' @ dec_nat (length tasks) @ ''):'' @ newline @
        concat (map (\<lambda>tk.
          ''  ['' @ su_id tk @ ''] '' @ go_quote (su_title tk) @ '' '' @ em_dash @ '' '' @ su_status tk @
          '' (priority='' @ dec_int (su_priority tk) @ '')'' @
          (case su_parent_id tk of None \<Rightarrow> '''' | Some p \<Rightarrow> '' (parent: '' @ p @ '')'') @ newline) tasks))"

definition detail_line :: "string \<Rightarrow> string \<Rightarrow> string" where
  "detail_line label v = ''  '' @ label @ '': '' @ v @ newline"

definition formatTaskDetail :: "uuid_lib \<Rightarrow> engine_task \<Rightarrow> string" where
  "formatTaskDetail U t =
     ''Task ['' @ uuid_string U (et_id t) @ '']'' @ newline @
     detail_line ''Title'' (et_title t) @
     detail_line ''Status'' (task_status_string (et_status t)) @
     detail_line ''Priority'' (dec_int (et_priority t)) @
     (if et_description t \<noteq> '''' then detail_line ''Description'' (et_description t) else '''') @
     (if et_acceptance_criteria t \<noteq> []
      then ''  Acceptance Criteria:'' @ newline @
        concat (map (\<lambda>c. ''    - '' @ c @ newline) (et_acceptance_criteria t)) else '''') @
     (case et_parent_task_id t of None \<Rightarrow> '''' | Some p \<Rightarrow> detail_line ''Parent'' (uuid_string U p)) @
     (if et_blocked_by t \<noteq> []
      then detail_line ''Blocked By'' (str_join '', '' (map (uuid_string U) (et_blocked_by t))) else '''') @
     (if et_result t \<noteq> '''' then detail_line ''Result'' (et_result t) else '''') @
     (if et_error t \<noteq> '''' then detail_line ''Error'' (et_error t) else '''')"

section \<open>Handlers\<close>

text \<open>The loop of \<open>handleCreate\<close>: an error ends it, and the tasks created before it stay.\<close>

fun create_loop ::
    "('db, 'e) tasks_tool \<Rightarrow> bool \<Rightarrow> create_arg list \<Rightarrow> string list \<Rightarrow> 'db \<Rightarrow> (string + string list) \<times> 'db" where
  "create_loop T appr [] ids s = (Inr ids, s)"
| "create_loop T appr (a # as) ids s =
     (if ca_title a = '''' then (Inl ''[ERROR] each task must have a title'', s)
      else case mg_CreateTask (tt_manager T) (tt_ctx T)
          \<lparr>cp_title = ca_title a, cp_description = ca_description a,
           cp_acceptance_criteria = ca_acceptance_criteria a, cp_session_id = tt_session T,
           cp_priority = ca_priority a, cp_blocked_by = [], cp_require_approval = appr,
           cp_mode = TaskModeOther ''''\<rparr> s of
          Inl e \<Rightarrow> (Inl (''[ERROR] failed to create task '' @ go_quote (ca_title a) @ '': '' @
              mg_error_text (tt_manager T) e), s)
        | Inr (s', i) \<Rightarrow> create_loop T appr as (ids @ [uuid_string (tt_uuid T) i]) s')"

definition handleCreate :: "('db, 'e) tasks_tool \<Rightarrow> manage_args \<Rightarrow> 'db \<Rightarrow> string \<times> 'db" where
  "handleCreate T args s =
     (if ma_tasks args = []
      then (''[ERROR] tasks array is required and must not be empty for create action'', s)
      else case create_loop T (ma_require_approval args) (ma_tasks args) [] s of
          (Inl e, s') \<Rightarrow> (e, s')
        | (Inr ids, s') \<Rightarrow>
            (if length ids = 1 then ''Task created (ID: '' @ hd ids @ '').''
             else dec_nat (length ids) @ '' tasks created:'' @
               concat (map (\<lambda>(i, a). newline @ ''  ['' @ i @ ''] '' @ ca_title a) (zip ids (ma_tasks args))), s'))"

definition handleCreateSubtask :: "('db, 'e) tasks_tool \<Rightarrow> manage_args \<Rightarrow> 'db \<Rightarrow> string \<times> 'db" where
  "handleCreateSubtask T args s =
     (if ma_parent_task_id args = '''' then (''[ERROR] parent_task_id is required for create_subtask'', s)
      else if ma_title args = '''' then (''[ERROR] title is required for create_subtask'', s)
      else case parseToolTaskID (tt_uuid T) (ma_parent_task_id args) of
          Inl _ \<Rightarrow> (''[ERROR] parent task not found: '' @ ma_parent_task_id args, s)
        | Inr parentID \<Rightarrow>
            (case parseToolBlockerIDs (tt_uuid T) (ma_blocked_by args) of
               Inl e \<Rightarrow> (err_text e, s)
             | Inr blockers \<Rightarrow>
                 (case mg_CreateSubTask (tt_manager T) (tt_ctx T) parentID
                     \<lparr>cp_title = ma_title args, cp_description = ma_description args,
                      cp_acceptance_criteria = ma_acceptance_criteria args, cp_session_id = tt_session T,
                      cp_priority = (case ma_priority args of None \<Rightarrow> 0 | Some p \<Rightarrow> p),
                      cp_blocked_by = blockers, cp_require_approval = False, cp_mode = TaskModeOther ''''\<rparr> s of
                    Inl e \<Rightarrow> (err_text (mg_error_text (tt_manager T) e), s)
                  | Inr (s', i) \<Rightarrow>
                      (''Sub-task created (ID: '' @ uuid_string (tt_uuid T) i @ '', parent: '' @
                         ma_parent_task_id args @ '').'', s'))))"

text \<open>The last step of a handler: the manager call, its error or the message of success.\<close>

definition report :: "('db, 'e) tasks_tool \<Rightarrow> string \<Rightarrow> 'db \<Rightarrow> 'e + 'db \<Rightarrow> string \<times> 'db" where
  "report T msg s r =
     (case r of Inl e \<Rightarrow> (err_text (mg_error_text (tt_manager T) e), s) | Inr s' \<Rightarrow> (msg, s'))"

definition with_task_id :: "('db, 'e) tasks_tool \<Rightarrow> string \<Rightarrow> 'db \<Rightarrow> (uuid \<Rightarrow> string \<times> 'db) \<Rightarrow> string \<times> 'db" where
  "with_task_id T raw s k =
     (case parseToolTaskID (tt_uuid T) raw of Inl e \<Rightarrow> (err_text e, s) | Inr i \<Rightarrow> k i)"

definition checkSessionOwnership :: "('db, 'e) tasks_tool \<Rightarrow> uuid \<Rightarrow> 'db \<Rightarrow> string + engine_task" where
  "checkSessionOwnership T i s =
     (case mg_GetTask (tt_manager T) (tt_ctx T) i s of
        Inl e \<Rightarrow> Inl (mg_error_text (tt_manager T) e)
      | Inr None \<Rightarrow> Inl (''task '' @ uuid_string (tt_uuid T) i @ '' not found'')
      | Inr (Some task) \<Rightarrow>
          if et_session_id task \<noteq> tt_session T
          then Inl (''task '' @ uuid_string (tt_uuid T) i @ '' not found in current session'')
          else Inr task)"

definition with_owned :: "('db, 'e) tasks_tool \<Rightarrow> string \<Rightarrow> 'db \<Rightarrow> (uuid \<Rightarrow> engine_task \<Rightarrow> string \<times> 'db) \<Rightarrow> string \<times> 'db" where
  "with_owned T raw s k =
     with_task_id T raw s (\<lambda>i.
       case checkSessionOwnership T i s of Inl e \<Rightarrow> (err_text e, s) | Inr task \<Rightarrow> k i task)"

definition handleUpdate :: "('db, 'e) tasks_tool \<Rightarrow> manage_args \<Rightarrow> 'db \<Rightarrow> string \<times> 'db" where
  "handleUpdate T args s =
     (if ma_task_id args = '''' then (''[ERROR] task_id is required for update'', s)
      else if ma_title args = '''' \<and> ma_description args = ''''
        then (''[ERROR] at least one of title or description must be provided for update'', s)
      else with_task_id T (ma_task_id args) s (\<lambda>i.
        report T (''Task '' @ ma_task_id args @ '' updated.'') s
          (mg_UpdateTask (tt_manager T) (tt_ctx T) i (ma_title args) (ma_description args) s)))"

definition handleGet :: "('db, 'e) tasks_tool \<Rightarrow> manage_args \<Rightarrow> 'db \<Rightarrow> string \<times> 'db" where
  "handleGet T args s =
     (if ma_task_id args = '''' then (''[ERROR] task_id is required for get'', s)
      else with_owned T (ma_task_id args) s (\<lambda>i task. (formatTaskDetail (tt_uuid T) task, s)))"

definition handleList :: "('db, 'e) tasks_tool \<Rightarrow> 'db \<Rightarrow> string \<times> 'db" where
  "handleList T s =
     (case mg_ListTasks (tt_manager T) (tt_ctx T) (tt_session T) s of
        Inl e \<Rightarrow> (err_text (mg_error_text (tt_manager T) e), s)
      | Inr tasks \<Rightarrow> (formatTaskList tasks, s))"

definition handleListSubtasks :: "('db, 'e) tasks_tool \<Rightarrow> manage_args \<Rightarrow> 'db \<Rightarrow> string \<times> 'db" where
  "handleListSubtasks T args s =
     (if ma_parent_task_id args = '''' then (''[ERROR] parent_task_id is required for list_subtasks'', s)
      else with_task_id T (ma_parent_task_id args) s (\<lambda>p.
        case mg_ListSubtasks (tt_manager T) (tt_ctx T) p s of
          Inl e \<Rightarrow> (err_text (mg_error_text (tt_manager T) e), s)
        | Inr subs \<Rightarrow>
            (if subs = [] then ''No subtasks for parent '' @ ma_parent_task_id args @ ''.''
             else formatTaskList subs, s)))"

definition handleGetReady :: "('db, 'e) tasks_tool \<Rightarrow> manage_args \<Rightarrow> 'db \<Rightarrow> string \<times> 'db" where
  "handleGetReady T args s =
     (if ma_parent_task_id args = '''' then (''[ERROR] parent_task_id is required for get_ready'', s)
      else with_task_id T (ma_parent_task_id args) s (\<lambda>p.
        case mg_ListReadySubtasks (tt_manager T) (tt_ctx T) p s of
          Inl e \<Rightarrow> (err_text (mg_error_text (tt_manager T) e), s)
        | Inr ready \<Rightarrow>
            (if ready = [] then ''No ready subtasks for parent '' @ ma_parent_task_id args @ ''.''
             else formatTaskList ready, s)))"

definition handleGetNext :: "('db, 'e) tasks_tool \<Rightarrow> 'db \<Rightarrow> string \<times> 'db" where
  "handleGetNext T s =
     (case mg_GetNextTask (tt_manager T) (tt_ctx T) (tt_session T) s of
        Inl e \<Rightarrow> (err_text (mg_error_text (tt_manager T) e), s)
      | Inr None \<Rightarrow> (''No tasks ready for work.'', s)
      | Inr (Some task) \<Rightarrow> (formatTaskDetail (tt_uuid T) task, s))"

definition handleApprove :: "('db, 'e) tasks_tool \<Rightarrow> manage_args \<Rightarrow> 'db \<Rightarrow> string \<times> 'db" where
  "handleApprove T args s =
     (if ma_task_id args = '''' then (''[ERROR] task_id is required for approve'', s)
      else with_owned T (ma_task_id args) s (\<lambda>i _.
        report T (''Task '' @ ma_task_id args @ '' approved.'') s
          (mg_ApproveTask (tt_manager T) (tt_ctx T) i s)))"

definition handleStart :: "('db, 'e) tasks_tool \<Rightarrow> manage_args \<Rightarrow> 'db \<Rightarrow> string \<times> 'db" where
  "handleStart T args s =
     (if ma_task_id args = '''' then (''[ERROR] task_id is required for start'', s)
      else with_owned T (ma_task_id args) s (\<lambda>i _.
        report T (''Task '' @ ma_task_id args @ '' started.'') s
          (mg_StartTask (tt_manager T) (tt_ctx T) i s)))"

definition handleComplete :: "('db, 'e) tasks_tool \<Rightarrow> manage_args \<Rightarrow> 'db \<Rightarrow> string \<times> 'db" where
  "handleComplete T args s =
     (if ma_task_id args = '''' then (''[ERROR] task_id is required for complete'', s)
      else with_owned T (ma_task_id args) s (\<lambda>i _.
        report T (''Task '' @ ma_task_id args @ '' completed.'') s
          (mg_CompleteTask (tt_manager T) (tt_ctx T) i (ma_result args) s)))"

definition handleFail :: "('db, 'e) tasks_tool \<Rightarrow> manage_args \<Rightarrow> 'db \<Rightarrow> string \<times> 'db" where
  "handleFail T args s =
     (if ma_task_id args = '''' then (''[ERROR] task_id is required for fail'', s)
      else if ma_reason args = '''' then (''[ERROR] reason is required for fail'', s)
      else with_owned T (ma_task_id args) s (\<lambda>i _.
        report T (''Task '' @ ma_task_id args @ '' failed: '' @ ma_reason args) s
          (mg_FailTask (tt_manager T) (tt_ctx T) i (ma_reason args) s)))"

definition handleCancel :: "('db, 'e) tasks_tool \<Rightarrow> manage_args \<Rightarrow> 'db \<Rightarrow> string \<times> 'db" where
  "handleCancel T args s =
     (if ma_task_id args = '''' then (''[ERROR] task_id is required for cancel'', s)
      else with_owned T (ma_task_id args) s (\<lambda>i _.
        report T (''Task '' @ ma_task_id args @ '' cancelled.'') s
          (mg_CancelTask (tt_manager T) (tt_ctx T) i (ma_reason args) s)))"

definition handleSetStatus :: "('db, 'e) tasks_tool \<Rightarrow> manage_args \<Rightarrow> 'db \<Rightarrow> string \<times> 'db" where
  "handleSetStatus T args s =
     (if ma_task_id args = '''' then (''[ERROR] task_id is required for set_status'', s)
      else if ma_status args = '''' then (''[ERROR] status is required for set_status'', s)
      else with_task_id T (ma_task_id args) s (\<lambda>i.
        report T (''Task '' @ ma_task_id args @ '' status set to '' @ go_quote (ma_status args) @ ''.'') s
          (mg_SetTaskStatus (tt_manager T) (tt_ctx T) i (ma_status args) (ma_result args) s)))"

definition handleSetPriority :: "('db, 'e) tasks_tool \<Rightarrow> manage_args \<Rightarrow> 'db \<Rightarrow> string \<times> 'db" where
  "handleSetPriority T args s =
     (if ma_task_id args = '''' then (''[ERROR] task_id is required for set_priority'', s)
      else case ma_priority args of
          None \<Rightarrow> (''[ERROR] priority is required for set_priority (0=normal, 1=high, 2=critical)'', s)
        | Some p \<Rightarrow> with_owned T (ma_task_id args) s (\<lambda>i _.
            report T (''Task '' @ ma_task_id args @ '' priority set to '' @ dec_int p @ ''.'') s
              (mg_SetTaskPriority (tt_manager T) (tt_ctx T) i p s)))"

definition handleAssign :: "('db, 'e) tasks_tool \<Rightarrow> manage_args \<Rightarrow> 'db \<Rightarrow> string \<times> 'db" where
  "handleAssign T args s =
     (if ma_task_id args = '''' then (''[ERROR] task_id is required for assign'', s)
      else if ma_agent_id args = '''' then (''[ERROR] agent_id is required for assign'', s)
      else with_owned T (ma_task_id args) s (\<lambda>i _.
        report T (''Task '' @ ma_task_id args @ '' assigned to agent '' @ ma_agent_id args @ ''.'') s
          (mg_AssignTaskToAgent (tt_manager T) (tt_ctx T) i (ma_agent_id args) s)))"

definition manage_tasks_InvokableRun ::
    "('db, 'e) tasks_tool \<Rightarrow> string + manage_args \<Rightarrow> 'db \<Rightarrow> string \<times> 'db" where
  "manage_tasks_InvokableRun T input s =
     (case input of
        Inl e \<Rightarrow> (''[ERROR] Invalid JSON: '' @ e, s)
      | Inr args \<Rightarrow>
          (let a = ma_action args
           in if a = ''create'' then handleCreate T args s
              else if a = ''create_subtask'' then handleCreateSubtask T args s
              else if a = ''update'' then handleUpdate T args s
              else if a = ''get'' then handleGet T args s
              else if a = ''list'' then handleList T s
              else if a = ''list_subtasks'' then handleListSubtasks T args s
              else if a = ''get_ready'' then handleGetReady T args s
              else if a = ''get_next'' then handleGetNext T s
              else if a = ''approve'' then handleApprove T args s
              else if a = ''start'' then handleStart T args s
              else if a = ''complete'' then handleComplete T args s
              else if a = ''fail'' then handleFail T args s
              else if a = ''cancel'' then handleCancel T args s
              else if a = ''set_status'' then handleSetStatus T args s
              else if a = ''set_priority'' then handleSetPriority T args s
              else if a = ''assign'' then handleAssign T args s
              else (''[ERROR] Unknown action: '' @ go_quote a @ ''.'', s)))"

section \<open>What the tool relies on\<close>

text \<open>
  \<open>view\<close> is the set of tasks as the manager shows them.  A read returns what is there; a creation adds
  one task under an identifier that was free; every other call changes at most the task it names,
  except \<open>CancelTask\<close>, which may also change unfinished tasks below it.
\<close>

definition only_changes :: "uuid \<Rightarrow> (uuid \<rightharpoonup> engine_task) \<Rightarrow> (uuid \<rightharpoonup> engine_task) \<Rightarrow> bool" where
  "only_changes i v v' \<longleftrightarrow> (\<forall>j. j \<noteq> i \<longrightarrow> v' j = v j)"

lemma only_changes_refl [simp]: "only_changes i v v"
  by (simp add: only_changes_def)

locale session_tasks =
  fixes M :: "('db, 'e) task_manager"
    and view :: "'db \<Rightarrow> uuid \<rightharpoonup> engine_task"
  assumes get_task: "mg_GetTask M ctx i s = Inr (Some t) \<Longrightarrow> view s i = Some t"
    and create_task: "mg_CreateTask M ctx p s = Inr (s', i) \<Longrightarrow> view s i = None \<and> only_changes i (view s) (view s')"
    and create_subtask: "mg_CreateSubTask M ctx par p s = Inr (s', i) \<Longrightarrow> view s i = None \<and> only_changes i (view s) (view s')"
    and update_task: "mg_UpdateTask M ctx i ti de s = Inr s' \<Longrightarrow> only_changes i (view s) (view s')"
    and set_status: "mg_SetTaskStatus M ctx i st r s = Inr s' \<Longrightarrow> only_changes i (view s) (view s')"
    and approve_task: "mg_ApproveTask M ctx i s = Inr s' \<Longrightarrow> only_changes i (view s) (view s')"
    and start_task: "mg_StartTask M ctx i s = Inr s' \<Longrightarrow> only_changes i (view s) (view s')"
    and complete_task: "mg_CompleteTask M ctx i r s = Inr s' \<Longrightarrow> only_changes i (view s) (view s')"
    and fail_task: "mg_FailTask M ctx i r s = Inr s' \<Longrightarrow> only_changes i (view s) (view s')"
    and cancel_task: "mg_CancelTask M ctx i r s = Inr s' \<Longrightarrow> view s j = Some t \<Longrightarrow> task_is_terminal t \<Longrightarrow> view s' j = Some t"
    and set_priority: "mg_SetTaskPriority M ctx i pr s = Inr s' \<Longrightarrow> only_changes i (view s) (view s')"
    and assign_task: "mg_AssignTaskToAgent M ctx i a s = Inr s' \<Longrightarrow> only_changes i (view s) (view s')"
begin

text \<open>Tasks of other sessions are as before.\<close>

definition keeps_foreign :: "string \<Rightarrow> 'db \<Rightarrow> 'db \<Rightarrow> bool" where
  "keeps_foreign sid s s' \<longleftrightarrow> (\<forall>i t. view s i = Some t \<longrightarrow> et_session_id t \<noteq> sid \<longrightarrow> view s' i = Some t)"

lemma keeps_refl [simp]: "keeps_foreign sid s s"
  by (simp add: keeps_foreign_def)

lemma keeps_trans: "keeps_foreign sid s s1 \<Longrightarrow> keeps_foreign sid s1 s2 \<Longrightarrow> keeps_foreign sid s s2"
  by (simp add: keeps_foreign_def)

lemma keeps_new: "view s i = None \<and> only_changes i (view s) (view s') \<Longrightarrow> keeps_foreign sid s s'"
  unfolding keeps_foreign_def only_changes_def by (metis option.distinct(1))

lemma keeps_report:
  assumes "\<And>s'. r = Inr s' \<Longrightarrow> only_changes i (view s) (view s')"
    and "view s i = Some t" and "et_session_id t = sid"
  shows "keeps_foreign sid s (snd (report T msg s r))"
  using assms unfolding keeps_foreign_def report_def only_changes_def
  by (cases r) (auto split: sum.splits, metis option.inject)

lemma keeps_owned:
  assumes "\<And>i t. view s i = Some t \<Longrightarrow> et_session_id t = tt_session T \<Longrightarrow> keeps_foreign sid s (snd (k i t))"
    and "tt_manager T = M"
  shows "keeps_foreign sid s (snd (with_owned T raw s k))"
  unfolding with_owned_def with_task_id_def checkSessionOwnership_def
  using assms get_task by (auto split: sum.splits option.splits)

lemma keeps_create_loop:
  assumes "tt_manager T = M"
  shows "keeps_foreign sid s (snd (create_loop T appr as ids s))"
proof (induction as arbitrary: ids s)
  case Nil
  then show ?case by simp
next
  case (Cons a as)
  show ?case
    unfolding create_loop.simps assms
    by (auto split: sum.splits intro!: keeps_trans [OF keeps_new [OF create_task] Cons])
qed

lemma tool_keeps_foreign:
  assumes M: "tt_manager T = M"
    and a: "ma_action args \<notin> {''update'', ''set_status'', ''cancel''}"
  shows "keeps_foreign (tt_session T) s (snd (manage_tasks_InvokableRun T (Inr args) s))"
proof -
  let ?K = "\<lambda>r. keeps_foreign (tt_session T) s (snd r)"
  note owned = keeps_owned [OF _ M] keeps_report
  have "?K (handleCreate T args s)"
    using keeps_create_loop [OF M, of "tt_session T" s "ma_require_approval args" "ma_tasks args" "[]"]
    by (auto simp: handleCreate_def split: prod.splits sum.splits)
  moreover have "?K (handleCreateSubtask T args s)"
    using keeps_new [OF create_subtask] M by (auto simp: handleCreateSubtask_def split: sum.splits)
  moreover have "?K (handleGet T args s)" "?K (handleList T s)" "?K (handleListSubtasks T args s)"
      "?K (handleGetReady T args s)" "?K (handleGetNext T s)"
    by (auto simp: handleGet_def handleList_def handleListSubtasks_def handleGetReady_def handleGetNext_def
        with_task_id_def M intro!: keeps_owned split: sum.splits option.splits)
  moreover have "?K (handleApprove T args s)"
    unfolding handleApprove_def M by (auto intro!: owned dest: approve_task simp: M)
  moreover have "?K (handleStart T args s)"
    unfolding handleStart_def M by (auto intro!: owned dest: start_task simp: M)
  moreover have "?K (handleComplete T args s)"
    unfolding handleComplete_def M by (auto intro!: owned dest: complete_task simp: M)
  moreover have "?K (handleFail T args s)"
    unfolding handleFail_def M by (auto intro!: owned dest: fail_task simp: M)
  moreover have "?K (handleSetPriority T args s)"
    unfolding handleSetPriority_def M by (auto intro!: owned dest: set_priority simp: M split: option.splits)
  moreover have "?K (handleAssign T args s)"
    unfolding handleAssign_def M by (auto intro!: owned dest: assign_task simp: M)
  ultimately show ?thesis using a by (simp add: manage_tasks_InvokableRun_def Let_def)
qed

end

section \<open>The task manager adapter provides it\<close>

text \<open>
  The adapter as an \<open>EngineTaskManager\<close>.  \<open>gen\<close> is \<open>uuid.New()\<close> at the current store, \<open>now\<close> and \<open>nowc\<close>
  are the readings of the clock, \<open>txt\<close> renders the errors.
\<close>

definition adapter_manager ::
    "'db task_sql \<Rightarrow> uuid_lib \<Rightarrow> ('db \<Rightarrow> uuid) \<Rightarrow> time \<Rightarrow> (uuid \<Rightarrow> time) \<Rightarrow> (mgr_error \<Rightarrow> string) \<Rightarrow>
     ('db, mgr_error) task_manager" where
  "adapter_manager S U gen now nowc txt =
     \<lparr>mg_CreateTask = (\<lambda>ctx p s. CreateTask S (gen s) ctx p s),
      mg_UpdateTask = UpdateTask S,
      mg_GetTask = (\<lambda>ctx i s. bind_res (GetTask S ctx i s) (\<lambda>t. Inr (Some t))),
      mg_ListTasks = ListTasks S (uuid_string U),
      mg_CreateSubTask = (\<lambda>ctx par p s. CreateSubTask S (gen s) ctx par p s),
      mg_ListSubtasks = ListSubtasks S (uuid_string U),
      mg_ListReadySubtasks = ListReadySubtasks S (uuid_string U),
      mg_SetTaskStatus = SetTaskStatus S now,
      mg_ApproveTask = ApproveTask S now,
      mg_StartTask = StartTask S now,
      mg_CompleteTask = CompleteTask S now,
      mg_FailTask = FailTask S now,
      mg_CancelTask = CancelTask S nowc,
      mg_SetTaskPriority = SetTaskPriority S now,
      mg_GetNextTask = GetNextTask S,
      mg_AssignTaskToAgent = AssignTaskToAgent S now,
      mg_error_text = txt\<rparr>"

definition task_view :: "('db \<Rightarrow> task_table) \<Rightarrow> 'db \<Rightarrow> uuid \<rightharpoonup> engine_task" where
  "task_view tbl s i = map_option toEngineTask (tbl s i)"

lemma only_changes_upd: "tbl s' = (tbl s)(i \<mapsto> m) \<Longrightarrow> only_changes i (task_view tbl s) (task_view tbl s')"
  by (simp add: only_changes_def task_view_def)

context task_store
begin

lemma status_only:
  "repo_UpdateStatus S now ctx i st r s = Inr s' \<Longrightarrow> only_changes i (task_view tbl s) (task_view tbl s')"
  by (drule update_status_ok) (auto simp: row_update_def intro: only_changes_upd)

lemma edit_only:
  assumes "update_with S ctx i f s = Inr s'" and "edits f"
  shows "only_changes i (task_view tbl s) (task_view tbl s')"
  using update_with_ok [OF assms] by (auto simp: row_update_def intro: only_changes_upd)

lemma create_only:
  assumes "store_new S ctx (new_task n par p) s = Inr (s', i)"
  shows "task_view tbl s i = None \<and> only_changes i (task_view tbl s) (task_view tbl s')"
  using store_new_ok [OF assms] by (auto simp: task_view_def intro: only_changes_upd)

lemma adapter_session_tasks:
  "session_tasks (adapter_manager S U gen now nowc txt) (task_view tbl)"
proof
  let ?M = "adapter_manager S U gen now nowc txt"
  show "mg_GetTask ?M ctx i s = Inr (Some t) \<Longrightarrow> task_view tbl s i = Some t" for ctx i s t
    by (auto simp: adapter_manager_def GetTask_def task_view_def dest: get_by_id_ok)
  show "mg_CreateTask ?M ctx p s = Inr (s', i) \<Longrightarrow>
      task_view tbl s i = None \<and> only_changes i (task_view tbl s) (task_view tbl s')" for ctx p s s' i
    by (auto simp: adapter_manager_def CreateTask_def dest: create_only split: if_splits)
  show "mg_CreateSubTask ?M ctx par p s = Inr (s', i) \<Longrightarrow>
      task_view tbl s i = None \<and> only_changes i (task_view tbl s) (task_view tbl s')" for ctx par p s s' i
    by (auto simp: adapter_manager_def CreateSubTask_def dest: create_only split: if_splits)
  show "mg_UpdateTask ?M ctx i ti de s = Inr s' \<Longrightarrow> only_changes i (task_view tbl s) (task_view tbl s')"
    for ctx i ti de s s'
    using edit_only [OF _ edits_update] by (simp add: adapter_manager_def UpdateTask_def)
  show "mg_SetTaskStatus ?M ctx i st r s = Inr s' \<Longrightarrow> only_changes i (task_view tbl s) (task_view tbl s')"
    for ctx i st r s s'
    by (simp add: adapter_manager_def SetTaskStatus_def status_only)
  show "mg_ApproveTask ?M ctx i s = Inr s' \<Longrightarrow> only_changes i (task_view tbl s) (task_view tbl s')" for ctx i s s'
    by (simp add: adapter_manager_def ApproveTask_def status_only)
  show "mg_StartTask ?M ctx i s = Inr s' \<Longrightarrow> only_changes i (task_view tbl s) (task_view tbl s')" for ctx i s s'
    by (simp add: adapter_manager_def StartTask_def status_only)
  show "mg_CompleteTask ?M ctx i r s = Inr s' \<Longrightarrow> only_changes i (task_view tbl s) (task_view tbl s')" for ctx i r s s'
    by (simp add: adapter_manager_def CompleteTask_def status_only)
  show "mg_FailTask ?M ctx i r s = Inr s' \<Longrightarrow> only_changes i (task_view tbl s) (task_view tbl s')" for ctx i r s s'
    using edit_only [OF _ edits_fail] by (simp add: adapter_manager_def FailTask_def)
  show "mg_SetTaskPriority ?M ctx i pr s = Inr s' \<Longrightarrow> only_changes i (task_view tbl s) (task_view tbl s')"
    for ctx i pr s s'
    using edit_only [OF _ edits_priority] by (simp add: adapter_manager_def SetTaskPriority_def)
  show "mg_AssignTaskToAgent ?M ctx i a s = Inr s' \<Longrightarrow> only_changes i (task_view tbl s) (task_view tbl s')"
    for ctx i a s s'
    using edit_only [OF _ edits_assign] by (simp add: adapter_manager_def AssignTaskToAgent_def)
  fix ctx i r s s' j t
  assume c: "mg_CancelTask ?M ctx i r s = Inr s'" and v: "task_view tbl s j = Some t" and t: "task_is_terminal t"
  have "repo_Cancel S nowc ctx i r s = Inr s'" using c by (simp add: adapter_manager_def CancelTask_def)
  then have step: "cancel_step (tenantIDFromCtx ctx) (tbl s) (tbl s')" by (rule cancel_ok(1))
  obtain m where m: "tbl s j = Some m" "t = toEngineTask m" using v by (auto simp: task_view_def)
  have "tbl s' j = Some m" by (rule cancel_step_terminal [OF step m(1)]) (use t m in \<open>simp add: row_terminal_def\<close>)
  then show "task_view tbl s' j = Some t" using m by (simp add: task_view_def)
qed

end

definition demo_uuid :: uuid_lib where
  "demo_uuid = \<lparr>uuid_parse = (\<lambda>s. if s = ''1'' then Inr 1 else if s = ''2'' then Inr 2
       else if s = ''3'' then Inr 3 else Inl ''invalid UUID length''),
     uuid_string = (\<lambda>i. dec_nat (unat i))\<rparr>"

definition demo_manager :: "(mem_db, mgr_error) task_manager" where
  "demo_manager = adapter_manager mem_store demo_uuid (\<lambda>s. of_nat (Suc (length (mem_rows s)))) 20 (\<lambda>_. 20)
     (\<lambda>_. ''failed'')"

interpretation demo: session_tasks demo_manager "task_view mem_tbl"
  unfolding demo_manager_def by (rule mem.adapter_session_tasks)

section \<open>Properties\<close>

text \<open>A manage_tasks call other than update, set_status and cancel never changes a task that belongs
  to another session, whatever task identifiers the agent passes.\<close>

theorem tool_keeps_other_sessions:
  assumes "session_tasks M view" and "tt_manager T = M"
    and "ma_action args \<notin> {''update'', ''set_status'', ''cancel''}"
    and "view s i = Some t" and "et_session_id t \<noteq> tt_session T"
  shows "view (snd (manage_tasks_InvokableRun T (Inr args) s)) i = Some t"
  using session_tasks.tool_keeps_foreign [OF assms(1-3), of s] assms(4,5)
  unfolding session_tasks.keeps_foreign_def [OF assms(1)] by blast

definition demo_tool :: "(mem_db, mgr_error) tasks_tool" where
  "demo_tool = \<lparr>tt_uuid = demo_uuid, tt_manager = demo_manager, tt_session = ''other'', tt_ctx = ''A''\<rparr>"

definition demo_args :: "string \<Rightarrow> string \<Rightarrow> manage_args" where
  "demo_args a i =
     \<lparr>ma_action = a, ma_tasks = [], ma_task_id = i, ma_parent_task_id = '''', ma_title = ''Hacked'',
      ma_description = '''', ma_acceptance_criteria = [], ma_status = ''completed'', ma_result = '''',
      ma_reason = ''no'', ma_priority = None, ma_blocked_by = [], ma_agent_id = '''',
      ma_require_approval = False\<rparr>"

theorem tool_keeps_other_sessions_witness:
  "task_view mem_tbl (snd (manage_tasks_InvokableRun demo_tool (Inr (demo_args ''fail'' ''1'')) demo_db)) 1
   = Some (toEngineTask (demo_row 1 None ''in_progress'' ''A'' []))"
  by (rule tool_keeps_other_sessions [OF demo.session_tasks_axioms])
    (simp_all add: demo_tool_def demo_args_def task_view_def mem_tbl_def demo_db_def demo_row_def toEngineTask_def)

text \<open>The ownership check is missing in \<open>handleUpdate\<close>: a tool of session \<open>other\<close> renames task 1 of
  session \<open>s\<close>.\<close>

lemma update_ignores_session:
  "\<exists>t. task_view mem_tbl (snd (manage_tasks_InvokableRun demo_tool (Inr (demo_args ''update'' ''1'')) demo_db)) 1
     = Some t \<and> et_session_id t = ''s'' \<and> et_title t = ''Hacked''"
  by (simp add: manage_tasks_InvokableRun_def demo_tool_def demo_args_def handleUpdate_def with_task_id_def
      parseToolTaskID_def demo_uuid_def report_def demo_manager_def adapter_manager_def UpdateTask_def
      task_view_def repo_Update_def manager_simps demo_simps Let_def)



end
