(* ===== verification/Circuit_Breaker.thy ===== *)
theory Circuit_Breaker
  imports Prelude
begin

text \<open>
  The circuit breaker in front of MCP servers and models
  (\<open>internal/service/resilience/circuit_breaker.go\<close>) with its registry.  Every method reads the clock at
  most once; its reading is the argument \<open>now\<close>.  The state is normalised from open to half-open when it
  is read, as in \<open>currentState\<close>.

  The lemmas give the exact condition under which a request is refused, and a refinement: the pruned list
  of failure times the code keeps decides exactly like a reference breaker that remembers every failure
  since the last success and counts those inside the window.
\<close>

section \<open>The breaker\<close>

datatype circuit_state = CircuitClosed | CircuitOpen | CircuitHalfOpen

record cb_config =
  cc_failure_threshold :: int
  cc_failure_window :: duration
  cc_reset_interval :: duration

definition DefaultCircuitBreakerConfig :: cb_config where
  "DefaultCircuitBreakerConfig =
     \<lparr>cc_failure_threshold = 3, cc_failure_window = 60 * second, cc_reset_interval = 120 * second\<rparr>"

record circuit_breaker =
  cb_name :: string
  cb_conf :: cb_config
  cb_state :: circuit_state
  cb_failures :: "time list"
  cb_last_failure :: time
  cb_opened_at :: time
  cb_failure_count_at_open :: nat

definition NewCircuitBreaker :: "string \<Rightarrow> cb_config \<Rightarrow> circuit_breaker" where
  "NewCircuitBreaker name config =
     \<lparr>cb_name = name, cb_conf = config, cb_state = CircuitClosed, cb_failures = [],
      cb_last_failure = zero_time, cb_opened_at = zero_time, cb_failure_count_at_open = 0\<rparr>"

definition cb_currentState :: "time \<Rightarrow> circuit_breaker \<Rightarrow> circuit_breaker" where
  "cb_currentState now cb =
     (if cb_state cb = CircuitOpen \<and> time_sub now (cb_opened_at cb) \<ge> cc_reset_interval (cb_conf cb)
      then cb\<lparr>cb_state := CircuitHalfOpen\<rparr> else cb)"

definition cb_State :: "time \<Rightarrow> circuit_breaker \<Rightarrow> circuit_state \<times> circuit_breaker" where
  "cb_State now cb = (let cb' = cb_currentState now cb in (cb_state cb', cb'))"

definition AllowRequest :: "time \<Rightarrow> circuit_breaker \<Rightarrow> go_error option \<times> circuit_breaker" where
  "AllowRequest now cb =
     (let cb' = cb_currentState now cb
      in case cb_state cb' of
           CircuitClosed \<Rightarrow> (None, cb')
         | CircuitHalfOpen \<Rightarrow> (None, cb')
         | CircuitOpen \<Rightarrow>
             (Some (''circuit breaker open for '' @ cb_name cb' @ '': too many failures''), cb'))"

definition RecordSuccess :: "circuit_breaker \<Rightarrow> circuit_breaker" where
  "RecordSuccess cb =
     (let cb1 = (if cb_state cb = CircuitHalfOpen then cb\<lparr>cb_state := CircuitClosed\<rparr> else cb)
      in cb1\<lparr>cb_failures := []\<rparr>)"

definition RecordFailure :: "time \<Rightarrow> circuit_breaker \<Rightarrow> circuit_breaker" where
  "RecordFailure now cb0 =
     (let cb = cb0\<lparr>cb_last_failure := now\<rparr>
      in if cb_state cb = CircuitHalfOpen
         then cb\<lparr>cb_state := CircuitOpen, cb_opened_at := now, cb_failure_count_at_open := 1\<rparr>
         else let cutoff = now - cc_failure_window (cb_conf cb);
                  pruned = filter (\<lambda>t. t > cutoff) (cb_failures cb) @ [now];
                  cb1 = cb\<lparr>cb_failures := pruned\<rparr>
              in if int (length pruned) \<ge> cc_failure_threshold (cb_conf cb)
                 then cb1\<lparr>cb_state := CircuitOpen, cb_opened_at := now,
                          cb_failure_count_at_open := length pruned, cb_failures := []\<rparr>
                 else cb1)"

definition FailureCount :: "circuit_breaker \<Rightarrow> nat" where
  "FailureCount cb =
     (if cb_state cb = CircuitOpen \<or> cb_state cb = CircuitHalfOpen
      then cb_failure_count_at_open cb else length (cb_failures cb))"

section \<open>The registry\<close>

record cb_registry =
  cr_breakers :: "string \<rightharpoonup> circuit_breaker"
  cr_config :: cb_config

definition NewCircuitBreakerRegistry :: "cb_config \<Rightarrow> cb_registry" where
  "NewCircuitBreakerRegistry config = \<lparr>cr_breakers = Map.empty, cr_config = config\<rparr>"

text \<open>\<open>Get\<close> returns a pointer into the map; callers work on the entry \<open>name\<close>.\<close>

definition cr_Get :: "string \<Rightarrow> cb_registry \<Rightarrow> circuit_breaker \<times> cb_registry" where
  "cr_Get name r =
     (case cr_breakers r name of
        Some cb \<Rightarrow> (cb, r)
      | None \<Rightarrow>
          let cb = NewCircuitBreaker name (cr_config r)
          in (cb, r\<lparr>cr_breakers := (cr_breakers r)(name \<mapsto> cb)\<rparr>))"

definition cr_States :: "time \<Rightarrow> cb_registry \<Rightarrow> (string \<rightharpoonup> circuit_state) \<times> cb_registry" where
  "cr_States now r =
     (\<lambda>n. map_option (\<lambda>cb. fst (cb_State now cb)) (cr_breakers r n),
      r\<lparr>cr_breakers := \<lambda>n. map_option (\<lambda>cb. snd (cb_State now cb)) (cr_breakers r n)\<rparr>)"

definition cr_Reset :: "string \<Rightarrow> cb_registry \<Rightarrow> bool \<times> cb_registry" where
  "cr_Reset name r =
     (case cr_breakers r name of
        None \<Rightarrow> (False, r)
      | Some _ \<Rightarrow> (True, r\<lparr>cr_breakers := map_delete name (cr_breakers r)\<rparr>))"

record cb_snapshot =
  cs_name :: string
  cs_state :: circuit_state
  cs_failure_count :: nat
  cs_last_failure :: time

definition cb_snapshot_of :: "time \<Rightarrow> circuit_breaker \<Rightarrow> cb_snapshot" where
  "cb_snapshot_of now cb =
     (let (st, cb') = cb_State now cb
      in \<lparr>cs_name = cb_name cb, cs_state = st, cs_failure_count = FailureCount cb',
          cs_last_failure = cb_last_failure cb'\<rparr>)"

text \<open>\<open>names\<close> is the order in which Go visits the keys of the map.\<close>

definition cr_Snapshots :: "time \<Rightarrow> string list \<Rightarrow> cb_registry \<Rightarrow> cb_snapshot list" where
  "cr_Snapshots now names r =
     map (cb_snapshot_of now) (List.map_filter (cr_breakers r) names)"

section \<open>When a request is refused\<close>

lemmas breaker_defs = cb_currentState_def cb_State_def AllowRequest_def RecordSuccess_def RecordFailure_def

lemma currentState_frame [simp]:
  "cb_conf (cb_currentState now cb) = cb_conf cb" "cb_name (cb_currentState now cb) = cb_name cb"
  "cb_failures (cb_currentState now cb) = cb_failures cb" "cb_opened_at (cb_currentState now cb) = cb_opened_at cb"
  by (simp_all add: cb_currentState_def)

lemma allow_snd [simp]: "snd (AllowRequest now cb) = cb_currentState now cb"
  by (simp add: AllowRequest_def Let_def split: circuit_state.splits)

lemma allow_refuses_iff:
  assumes "- (2 ^ 63) < cc_reset_interval (cb_conf cb)" and "cc_reset_interval (cb_conf cb) < 2 ^ 63"
  shows "fst (AllowRequest now cb) \<noteq> None \<longleftrightarrow>
    cb_state cb = CircuitOpen \<and> now < cb_opened_at cb + cc_reset_interval (cb_conf cb)"
  using time_sub_ge_iff [OF assms, of now "cb_opened_at cb"]
  by (auto simp: AllowRequest_def cb_currentState_def Let_def split: circuit_state.splits)

lemma current_idem [simp]: "cb_currentState now (cb_currentState now cb) = cb_currentState now cb"
  by (simp add: cb_currentState_def)

lemma failure_conf [simp]: "cb_conf (RecordFailure now cb) = cb_conf cb"
  by (simp add: RecordFailure_def Let_def)

lemma success_conf [simp]: "cb_conf (RecordSuccess cb) = cb_conf cb"
  by (simp add: RecordSuccess_def Let_def)

section \<open>A reference breaker\<close>

text \<open>
  The reference never forgets a failure before a success or an opening, and looks at the window only when
  it decides: it opens when at least \<open>threshold\<close> of the remembered failures are younger than the window.
\<close>

record ref_breaker =
  rb_state :: circuit_state
  rb_streak :: "time list"
  rb_opened_at :: time

datatype cb_event = CbRead time | CbSuccess time | CbFailure time

fun event_time :: "cb_event \<Rightarrow> time" where
  "event_time (CbRead t) = t"
| "event_time (CbSuccess t) = t"
| "event_time (CbFailure t) = t"

definition in_window :: "cb_config \<Rightarrow> time \<Rightarrow> time list \<Rightarrow> time list" where
  "in_window c now ts = filter (\<lambda>t. now - cc_failure_window c < t) ts"

fun ref_step :: "cb_config \<Rightarrow> ref_breaker \<Rightarrow> cb_event \<Rightarrow> ref_breaker" where
  "ref_step c r (CbRead now) =
     (if rb_state r = CircuitOpen \<and> time_sub now (rb_opened_at r) \<ge> cc_reset_interval c
      then r\<lparr>rb_state := CircuitHalfOpen\<rparr> else r)"
| "ref_step c r (CbSuccess _) =
     r\<lparr>rb_state := (if rb_state r = CircuitHalfOpen then CircuitClosed else rb_state r), rb_streak := []\<rparr>"
| "ref_step c r (CbFailure now) =
     (if rb_state r = CircuitHalfOpen then r\<lparr>rb_state := CircuitOpen, rb_opened_at := now\<rparr>
      else if int (length (in_window c now (rb_streak r))) + 1 \<ge> cc_failure_threshold c
        then \<lparr>rb_state = CircuitOpen, rb_streak = [], rb_opened_at = now\<rparr>
      else r\<lparr>rb_streak := rb_streak r @ [now]\<rparr>)"

fun cb_step :: "circuit_breaker \<Rightarrow> cb_event \<Rightarrow> circuit_breaker" where
  "cb_step cb (CbRead now) = snd (AllowRequest now cb)"
| "cb_step cb (CbSuccess _) = RecordSuccess cb"
| "cb_step cb (CbFailure now) = RecordFailure now cb"

lemma cb_step_conf [simp]: "cb_conf (cb_step cb e) = cb_conf cb"
  by (cases e) simp_all

text \<open>The kept failures are those of the streak after some earlier cutoff.\<close>

definition cb_refines :: "time \<Rightarrow> circuit_breaker \<Rightarrow> ref_breaker \<Rightarrow> bool" where
  "cb_refines now cb r \<longleftrightarrow>
     cb_state cb = rb_state r \<and> cb_opened_at cb = rb_opened_at r \<and>
     (\<exists>cut. cut \<le> now - cc_failure_window (cb_conf cb) \<and> cb_failures cb = filter (\<lambda>t. cut < t) (rb_streak r))"

lemma filter_later: "(a :: time) \<le> b \<Longrightarrow> filter (\<lambda>t. b < t) (filter (\<lambda>t. a < t) xs) = filter (\<lambda>t. b < t) xs"
  by (induction xs) auto

lemma cb_refines_later: "cb_refines a cb r \<Longrightarrow> a \<le> b \<Longrightarrow> cb_refines b cb r"
  unfolding cb_refines_def by (meson diff_right_mono order_trans)

lemma cb_step_refines:
  assumes "cb_refines now cb r" and "now \<le> event_time e" and "0 < cc_failure_window (cb_conf cb)"
  shows "cb_refines (event_time e) (cb_step cb e) (ref_step (cb_conf cb) r e)"
proof -
  have ref: "cb_refines (event_time e) cb r" by (rule cb_refines_later [OF assms(1,2)])
  then obtain cut where st: "cb_state cb = rb_state r" "cb_opened_at cb = rb_opened_at r"
    and cut: "cut \<le> event_time e - cc_failure_window (cb_conf cb)"
    and fs: "cb_failures cb = filter (\<lambda>t. cut < t) (rb_streak r)"
    by (auto simp: cb_refines_def)
  show ?thesis
  proof (cases e)
    case (CbRead t)
    then show ?thesis using ref by (auto simp: cb_refines_def cb_currentState_def)
  next
    case (CbSuccess t)
    then show ?thesis using st cut by (auto simp: cb_refines_def RecordSuccess_def)
  next
    case (CbFailure t)
    let ?cut = "t - cc_failure_window (cb_conf cb)"
    have pruned: "filter (\<lambda>x. ?cut < x) (cb_failures cb) = in_window (cb_conf cb) t (rb_streak r)"
      unfolding fs in_window_def by (rule filter_later) (use cut CbFailure in simp)
    have new: "in_window (cb_conf cb) t (rb_streak r) @ [t] = filter (\<lambda>x. ?cut < x) (rb_streak r @ [t])"
      using assms(3) by (simp add: in_window_def)
    show ?thesis
    proof (cases "rb_state r = CircuitHalfOpen")
      case True
      have "cut \<le> ?cut" using cut CbFailure by simp
      then show ?thesis using CbFailure True st fs by (auto simp: cb_refines_def RecordFailure_def)
    next
      case not_half: False
      show ?thesis
      proof (cases "int (length (in_window (cb_conf cb) t (rb_streak r))) + 1 \<ge> cc_failure_threshold (cb_conf cb)")
        case True
        then show ?thesis using CbFailure not_half st unfolding cb_refines_def
          by (intro conjI exI [of _ ?cut]) (simp_all add: RecordFailure_def Let_def pruned)
      next
        case False
        then show ?thesis using CbFailure not_half st new unfolding cb_refines_def
          by (intro conjI exI [of _ ?cut]) (simp_all add: RecordFailure_def Let_def pruned)
      qed
    qed
  qed
qed

lemma cb_run_refines:
  assumes "cb_refines now cb r" and "sorted (now # map event_time es)" and "0 < cc_failure_window (cb_conf cb)"
  shows "\<exists>t. cb_refines t (foldl cb_step cb es) (foldl (ref_step (cb_conf cb)) r es)"
  using assms
proof (induction es arbitrary: now cb r)
  case Nil
  then show ?case by auto
next
  case (Cons e es)
  then have le: "now \<le> event_time e" and so: "sorted (event_time e # map event_time es)" by auto
  show ?case
    using Cons.IH [OF cb_step_refines [OF Cons.prems(1) le Cons.prems(3)] so] Cons.prems(3) by simp
qed

definition new_ref :: ref_breaker where
  "new_ref = \<lparr>rb_state = CircuitClosed, rb_streak = [], rb_opened_at = zero_time\<rparr>"

lemma new_refines: "cb_refines now (NewCircuitBreaker name c) new_ref"
  by (auto simp: cb_refines_def NewCircuitBreaker_def new_ref_def)

section \<open>Bounded memory\<close>

definition cb_small :: "circuit_breaker \<Rightarrow> bool" where
  "cb_small cb \<longleftrightarrow> cb_failures cb = [] \<or> int (length (cb_failures cb)) < cc_failure_threshold (cb_conf cb)"

lemma cb_step_small: "cb_small cb \<Longrightarrow> cb_small (cb_step cb e)"
  by (cases e) (auto simp: cb_small_def RecordSuccess_def RecordFailure_def Let_def)

lemma cb_run_small: "cb_small cb \<Longrightarrow> cb_small (foldl cb_step cb es)"
  by (induction es arbitrary: cb) (simp_all add: cb_step_small)

section \<open>Properties\<close>

text \<open>The breaker refuses a request exactly when it is open and less than the reset interval has
  passed since it opened; from that moment on requests pass as probes.\<close>

theorem breaker_refuses_exactly:
  assumes "- (2 ^ 63) < cc_reset_interval (cb_conf cb)" and "cc_reset_interval (cb_conf cb) < 2 ^ 63"
  shows "(fst (AllowRequest now cb) \<noteq> None \<longleftrightarrow>
      cb_state cb = CircuitOpen \<and> now < cb_opened_at cb + cc_reset_interval (cb_conf cb)) \<and>
    (cb_state cb = CircuitOpen \<longrightarrow> cb_opened_at cb + cc_reset_interval (cb_conf cb) \<le> now \<longrightarrow>
      cb_state (snd (AllowRequest now cb)) = CircuitHalfOpen)"
proof
  show "fst (AllowRequest now cb) \<noteq> None \<longleftrightarrow>
      cb_state cb = CircuitOpen \<and> now < cb_opened_at cb + cc_reset_interval (cb_conf cb)"
    by (rule allow_refuses_iff [OF assms])
  show "cb_state cb = CircuitOpen \<longrightarrow> cb_opened_at cb + cc_reset_interval (cb_conf cb) \<le> now \<longrightarrow>
      cb_state (snd (AllowRequest now cb)) = CircuitHalfOpen"
    using time_sub_ge_iff [OF assms, of now "cb_opened_at cb"] by (simp add: cb_currentState_def)
qed

definition tripped :: circuit_breaker where
  "tripped = RecordFailure 30 (RecordFailure 20 (RecordFailure 10
     (NewCircuitBreaker ''mcp'' DefaultCircuitBreakerConfig)))"

theorem breaker_refuses_exactly_witness:
  "fst (AllowRequest 31 tripped) \<noteq> None \<and> fst (AllowRequest (30 + 120 * second) tripped) = None \<and>
   cb_state (snd (AllowRequest (30 + 120 * second) tripped)) = CircuitHalfOpen"
proof -
  have t: "cb_state tripped = CircuitOpen" "cb_opened_at tripped = 30" "cc_reset_interval (cb_conf tripped) = 120 * second"
    by (simp_all add: tripped_def RecordFailure_def NewCircuitBreaker_def DefaultCircuitBreakerConfig_def second_def Let_def)
  then have b: "- (2 ^ 63) < cc_reset_interval (cb_conf tripped)" "cc_reset_interval (cb_conf tripped) < 2 ^ 63"
    by (simp_all add: second_def)
  show ?thesis
    using breaker_refuses_exactly [OF b, of 31] breaker_refuses_exactly [OF b, of "30 + 120 * second"] t
    by (simp add: second_def)
qed

text \<open>C6: With a clock that does not go back, the breaker goes through the same states as the reference
  that opens when at least the threshold of failures since the last success lie inside the window: the
  pruning of the failure list on every failure never changes a decision.\<close>

theorem breaker_implements_window_count:
  assumes "sorted (map event_time es)" and "0 < cc_failure_window c"
  shows "cb_state (foldl cb_step (NewCircuitBreaker name c) es) = rb_state (foldl (ref_step c) new_ref es) \<and>
    cb_opened_at (foldl cb_step (NewCircuitBreaker name c) es) = rb_opened_at (foldl (ref_step c) new_ref es)"
proof -
  define a where "a = (case es of [] \<Rightarrow> 0 | e # _ \<Rightarrow> event_time e)"
  have "sorted (a # map event_time es)" using assms(1) by (cases es) (auto simp: a_def)
  moreover have "0 < cc_failure_window (cb_conf (NewCircuitBreaker name c))"
    using assms(2) by (simp add: NewCircuitBreaker_def)
  ultimately show ?thesis
    using cb_run_refines [OF new_refines, of a es name c] by (auto simp: cb_refines_def NewCircuitBreaker_def)
qed

theorem breaker_implements_window_count_witness:
  "cb_state (foldl cb_step (NewCircuitBreaker ''m'' DefaultCircuitBreakerConfig)
      [CbFailure 1, CbFailure 2, CbRead 3, CbFailure (70 * second), CbFailure (71 * second)]) =
   rb_state (foldl (ref_step DefaultCircuitBreakerConfig) new_ref
      [CbFailure 1, CbFailure 2, CbRead 3, CbFailure (70 * second), CbFailure (71 * second)]) \<and>
   rb_state (foldl (ref_step DefaultCircuitBreakerConfig) new_ref
      [CbFailure 1, CbFailure 2, CbRead 3, CbFailure (70 * second), CbFailure (71 * second)]) = CircuitClosed"
proof
  show "cb_state (foldl cb_step (NewCircuitBreaker ''m'' DefaultCircuitBreakerConfig)
      [CbFailure 1, CbFailure 2, CbRead 3, CbFailure (70 * second), CbFailure (71 * second)]) =
   rb_state (foldl (ref_step DefaultCircuitBreakerConfig) new_ref
      [CbFailure 1, CbFailure 2, CbRead 3, CbFailure (70 * second), CbFailure (71 * second)])"
    by (rule breaker_implements_window_count [THEN conjunct1])
      (simp_all add: DefaultCircuitBreakerConfig_def second_def)
qed (simp add: new_ref_def in_window_def DefaultCircuitBreakerConfig_def second_def)

text \<open>A breaker keeps fewer failure times than its threshold (or none), however many requests fail.\<close>

theorem breaker_memory_bounded:
  "cb_failures (foldl cb_step (NewCircuitBreaker name c) es) = [] \<or>
   int (length (cb_failures (foldl cb_step (NewCircuitBreaker name c) es))) < cc_failure_threshold c"
proof -
  have "cb_conf (foldl cb_step cb es) = cb_conf cb" for cb
    by (induction es arbitrary: cb) simp_all
  moreover have "cb_small (foldl cb_step (NewCircuitBreaker name c) es)"
    by (rule cb_run_small) (simp add: cb_small_def NewCircuitBreaker_def)
  ultimately show ?thesis by (simp add: cb_small_def NewCircuitBreaker_def)
qed

text \<open>While the breaker is half-open every request passes, not only one probe.\<close>

lemma half_open_admits_all:
  "cb_state cb = CircuitHalfOpen \<Longrightarrow>
     fst (AllowRequest now cb) = None \<and> cb_state (snd (AllowRequest now cb)) = CircuitHalfOpen"
  by (simp add: AllowRequest_def cb_currentState_def)

end
