(* ===== verification/Domain_Lifecycle.thy ===== *)
theory Domain_Lifecycle
  imports Prelude
begin

text \<open>
  The lifecycle of a running agent: the state machine of \<open>internal/domain/lifecycle.go\<close>
  (\<open>LifecycleState\<close>, \<open>AgentLifecycle\<close>) and the agent instance of
  \<open>internal/domain/agent_lifecycle.go\<close> with its spawn and persistent modes.  The lemmas give the
  effect of each method on every branch, the invariant that ties the blocked reason to the blocked
  state, and the exact condition under which a context is due for compaction.
\<close>

section \<open>LifecycleState\<close>

datatype lifecycle_state =
    LifecycleInitializing
  | LifecycleReady
  | LifecycleRunning
  | LifecycleNeedsInput
  | LifecycleBlocked
  | LifecycleDegraded
  | LifecycleFinished
  | LifecycleOther string

fun lifecycle_string :: "lifecycle_state \<Rightarrow> string" where
  "lifecycle_string LifecycleInitializing = ''initializing''"
| "lifecycle_string LifecycleReady = ''ready''"
| "lifecycle_string LifecycleRunning = ''running''"
| "lifecycle_string LifecycleNeedsInput = ''needs_input''"
| "lifecycle_string LifecycleBlocked = ''blocked''"
| "lifecycle_string LifecycleDegraded = ''degraded''"
| "lifecycle_string LifecycleFinished = ''finished''"
| "lifecycle_string (LifecycleOther s) = s"

definition AllLifecycleStates :: "lifecycle_state list" where
  "AllLifecycleStates =
     [LifecycleInitializing, LifecycleReady, LifecycleRunning, LifecycleNeedsInput,
      LifecycleBlocked, LifecycleDegraded, LifecycleFinished]"

fun lifecycle_is_valid :: "lifecycle_state \<Rightarrow> bool" where
  "lifecycle_is_valid (LifecycleOther _) = False"
| "lifecycle_is_valid _ = True"

text \<open>The nested map \<open>validTransitions\<close>: the outer lookup may miss, the inner one yields \<open>false\<close>.\<close>

fun validTransitions :: "lifecycle_state \<Rightarrow> lifecycle_state list option" where
  "validTransitions LifecycleInitializing = Some [LifecycleReady, LifecycleBlocked]"
| "validTransitions LifecycleReady = Some [LifecycleRunning, LifecycleFinished]"
| "validTransitions LifecycleRunning =
     Some [LifecycleNeedsInput, LifecycleBlocked, LifecycleDegraded, LifecycleFinished]"
| "validTransitions LifecycleNeedsInput = Some [LifecycleRunning, LifecycleFinished]"
| "validTransitions LifecycleBlocked = Some [LifecycleRunning, LifecycleFinished]"
| "validTransitions LifecycleDegraded = Some [LifecycleRunning, LifecycleFinished]"
| "validTransitions LifecycleFinished = Some [LifecycleReady]"
| "validTransitions (LifecycleOther _) = None"

definition lifecycle_can_transition_to :: "lifecycle_state \<Rightarrow> lifecycle_state \<Rightarrow> bool" where
  "lifecycle_can_transition_to s next =
     (case validTransitions s of None \<Rightarrow> False | Some allowed \<Rightarrow> next \<in> set allowed)"

section \<open>AgentLifecycle\<close>

record blocked_reason =
  br_code :: string
  br_message :: string

record agent_lifecycle =
  al_agent_name :: string
  al_session_id :: string
  al_state :: lifecycle_state
  al_blocked_reason :: "blocked_reason option"

datatype lifecycle_error =
    ErrInvalidState lifecycle_state
  | ErrLifecycleTransition lifecycle_state lifecycle_state

text \<open>The texts of the errors.\<close>

fun lifecycle_error_text :: "lifecycle_error \<Rightarrow> go_error" where
  "lifecycle_error_text (ErrInvalidState next) = ''invalid lifecycle state: '' @ lifecycle_string next"
| "lifecycle_error_text (ErrLifecycleTransition s next) =
     ''invalid transition: '' @ lifecycle_string s @ '' -> '' @ lifecycle_string next"

definition NewAgentLifecycle :: "string \<Rightarrow> string \<Rightarrow> agent_lifecycle" where
  "NewAgentLifecycle agentName sessionID =
     \<lparr>al_agent_name = agentName, al_session_id = sessionID,
      al_state = LifecycleInitializing, al_blocked_reason = None\<rparr>"

definition lifecycle_transition_to ::
    "lifecycle_state \<Rightarrow> agent_lifecycle \<Rightarrow> lifecycle_error + agent_lifecycle" where
  "lifecycle_transition_to next l =
     (if \<not> lifecycle_is_valid next then Inl (ErrInvalidState next)
      else if \<not> lifecycle_can_transition_to (al_state l) next
        then Inl (ErrLifecycleTransition (al_state l) next)
      else let l' = l\<lparr>al_state := next\<rparr>
           in Inr (if next \<noteq> LifecycleBlocked then l'\<lparr>al_blocked_reason := None\<rparr> else l'))"

definition lifecycle_transition_to_blocked ::
    "blocked_reason \<Rightarrow> agent_lifecycle \<Rightarrow> lifecycle_error + agent_lifecycle" where
  "lifecycle_transition_to_blocked reason l =
     bind_res (lifecycle_transition_to LifecycleBlocked l)
       (\<lambda>l'. Inr (l'\<lparr>al_blocked_reason := Some reason\<rparr>))"

section \<open>AgentInstance\<close>

datatype lifecycle_mode = LifecycleModeSpawn | LifecycleModePersistent

record agent_instance =
  ai_agent_name :: string
  ai_mode :: lifecycle_mode
  ai_lifecycle :: agent_lifecycle
  ai_context_tokens :: int
  ai_max_context :: int
  ai_tasks_handled :: int

definition NewAgentInstance :: "string \<Rightarrow> lifecycle_mode \<Rightarrow> int \<Rightarrow> agent_instance" where
  "NewAgentInstance agentName mode maxContext =
     \<lparr>ai_agent_name = agentName, ai_mode = mode, ai_lifecycle = NewAgentLifecycle agentName '''',
      ai_context_tokens = 0, ai_max_context = maxContext, ai_tasks_handled = 0\<rparr>"

definition instance_transition ::
    "lifecycle_state \<Rightarrow> agent_instance \<Rightarrow> lifecycle_error + agent_instance" where
  "instance_transition next ai =
     bind_res (lifecycle_transition_to next (ai_lifecycle ai)) (\<lambda>l. Inr (ai\<lparr>ai_lifecycle := l\<rparr>))"

definition MarkReady :: "agent_instance \<Rightarrow> lifecycle_error + agent_instance" where
  "MarkReady ai = instance_transition LifecycleReady ai"

definition MarkRunning :: "agent_instance \<Rightarrow> lifecycle_error + agent_instance" where
  "MarkRunning ai = instance_transition LifecycleRunning ai"

definition MarkBlocked :: "agent_instance \<Rightarrow> lifecycle_error + agent_instance" where
  "MarkBlocked ai = instance_transition LifecycleBlocked ai"

text \<open>
  \<open>FinishTask\<close> counts the task before it tries the transition, so it changes the object on its
  error paths too: it returns the instance and the error, if any.
\<close>

definition FinishTask :: "agent_instance \<Rightarrow> agent_instance \<times> lifecycle_error option" where
  "FinishTask ai =
     (let ai1 = ai\<lparr>ai_tasks_handled := ai_tasks_handled ai + 1\<rparr>
      in case instance_transition LifecycleFinished ai1 of
           Inl e \<Rightarrow> (ai1, Some e)
         | Inr ai2 \<Rightarrow>
             (if ai_mode ai2 = LifecycleModePersistent
              then (case instance_transition LifecycleReady ai2 of
                      Inl e \<Rightarrow> (ai2, Some e) | Inr ai3 \<Rightarrow> (ai3, None))
              else (ai2, None)))"

definition NeedsCompaction :: "agent_instance \<Rightarrow> bool" where
  "NeedsCompaction ai =
     (if ai_max_context ai \<le> 0 then False
      else ai_context_tokens ai > go_quot (wrap64 (ai_max_context ai * 80)) 100)"

definition ResetContext :: "agent_instance \<Rightarrow> agent_instance" where
  "ResetContext ai = ai\<lparr>ai_context_tokens := 0\<rparr>"

definition IsFinished :: "agent_instance \<Rightarrow> bool" where
  "IsFinished ai \<longleftrightarrow> al_state (ai_lifecycle ai) = LifecycleFinished"

definition IsPersistent :: "agent_instance \<Rightarrow> bool" where
  "IsPersistent ai \<longleftrightarrow> ai_mode ai = LifecycleModePersistent"

definition instance_state :: "agent_instance \<Rightarrow> lifecycle_state" where
  "instance_state ai = al_state (ai_lifecycle ai)"

section \<open>The state machine\<close>

lemmas lifecycle_defs =
  lifecycle_transition_to_def lifecycle_can_transition_to_def instance_transition_def
  MarkReady_def MarkRunning_def MarkBlocked_def instance_state_def

lemma AllLifecycleStates_valid: "lifecycle_is_valid s \<longleftrightarrow> s \<in> set AllLifecycleStates"
  by (cases s) (simp_all add: AllLifecycleStates_def)

lemma lifecycle_valid_target: "lifecycle_can_transition_to s t \<Longrightarrow> lifecycle_is_valid t"
  by (cases s) (auto simp: lifecycle_can_transition_to_def)

lemma lifecycle_transition_Inr_iff:
  "lifecycle_transition_to next l = Inr l' \<longleftrightarrow>
     lifecycle_can_transition_to (al_state l) next \<and>
     l' = l\<lparr>al_state := next,
             al_blocked_reason := (if next = LifecycleBlocked then al_blocked_reason l else None)\<rparr>"
  by (auto simp: lifecycle_transition_to_def Let_def dest: lifecycle_valid_target)

lemma instance_transition_Inr_iff:
  "instance_transition next ai = Inr ai' \<longleftrightarrow>
     lifecycle_can_transition_to (instance_state ai) next \<and>
     ai' = ai\<lparr>ai_lifecycle := (ai_lifecycle ai)\<lparr>al_state := next,
       al_blocked_reason := (if next = LifecycleBlocked then al_blocked_reason (ai_lifecycle ai) else None)\<rparr>\<rparr>"
  by (auto simp: instance_transition_def lifecycle_transition_Inr_iff instance_state_def)

lemma instance_transition_state:
  "instance_transition next ai = Inr ai' \<Longrightarrow> instance_state ai' = next"
  by (auto simp: instance_transition_Inr_iff instance_state_def)

lemma instance_transition_frame:
  "instance_transition next ai = Inr ai' \<Longrightarrow>
     ai_mode ai' = ai_mode ai \<and> ai_context_tokens ai' = ai_context_tokens ai \<and>
     ai_max_context ai' = ai_max_context ai \<and> ai_tasks_handled ai' = ai_tasks_handled ai \<and>
     ai_agent_name ai' = ai_agent_name ai"
  by (auto simp: instance_transition_Inr_iff)

text \<open>A reason is recorded only while the agent is blocked.\<close>

definition reason_inv :: "agent_lifecycle \<Rightarrow> bool" where
  "reason_inv l \<longleftrightarrow> (al_blocked_reason l \<noteq> None \<longrightarrow> al_state l = LifecycleBlocked)"

datatype lifecycle_op = OpTransitionTo lifecycle_state | OpBlock blocked_reason

fun lifecycle_step :: "lifecycle_op \<Rightarrow> agent_lifecycle \<Rightarrow> lifecycle_error + agent_lifecycle" where
  "lifecycle_step (OpTransitionTo s) l = lifecycle_transition_to s l"
| "lifecycle_step (OpBlock r) l = lifecycle_transition_to_blocked r l"

lemma lifecycle_step_reason: "lifecycle_step x l = Inr l' \<Longrightarrow> reason_inv l'"
  by (cases x) (auto simp: lifecycle_transition_to_blocked_def lifecycle_transition_Inr_iff
      reason_inv_def lifecycle_can_transition_to_def split: option.splits)

section \<open>Finishing a task\<close>

definition can_finish :: "lifecycle_state \<Rightarrow> bool" where
  "can_finish s \<longleftrightarrow> lifecycle_can_transition_to s LifecycleFinished"

lemma can_finish_iff:
  "can_finish s \<longleftrightarrow>
     s \<in> {LifecycleReady, LifecycleRunning, LifecycleNeedsInput, LifecycleBlocked, LifecycleDegraded}"
  by (cases s) (simp_all add: can_finish_def lifecycle_can_transition_to_def)

lemma finish_task_error:
  "\<not> can_finish (instance_state ai) \<Longrightarrow>
     FinishTask ai = (ai\<lparr>ai_tasks_handled := ai_tasks_handled ai + 1\<rparr>,
       snd (FinishTask ai)) \<and> snd (FinishTask ai) \<noteq> None"
  by (auto simp: FinishTask_def Let_def instance_transition_def lifecycle_transition_to_def
      can_finish_def instance_state_def)

lemma finish_task_ok:
  assumes "can_finish (instance_state ai)"
  shows "snd (FinishTask ai) = None"
    and "instance_state (fst (FinishTask ai)) =
      (if ai_mode ai = LifecycleModePersistent then LifecycleReady else LifecycleFinished)"
    and "ai_tasks_handled (fst (FinishTask ai)) = ai_tasks_handled ai + 1"
    and "ai_mode (fst (FinishTask ai)) = ai_mode ai"
    and "ai_context_tokens (fst (FinishTask ai)) = ai_context_tokens ai"
    and "ai_max_context (fst (FinishTask ai)) = ai_max_context ai"
  using assms
  by (simp_all add: FinishTask_def Let_def instance_transition_def lifecycle_transition_to_def
      can_finish_def instance_state_def lifecycle_can_transition_to_def)

section \<open>Compaction threshold\<close>

lemma needs_compaction_iff:
  assumes "0 < ai_max_context ai" and "ai_max_context ai * 80 < 2 ^ 63"
  shows "NeedsCompaction ai \<longleftrightarrow> ai_max_context ai * 80 div 100 < ai_context_tokens ai"
proof -
  have "wrap64 (ai_max_context ai * 80) = ai_max_context ai * 80"
    using assms by (intro wrap64_id) auto
  then show ?thesis
    using assms by (simp add: NeedsCompaction_def go_quot_pos)
qed

section \<open>Properties\<close>

text \<open>In every lifecycle reached from a new one by TransitionTo and TransitionToBlocked calls,
  failed ones included, a blocked reason is present only while the state is blocked.\<close>

theorem lifecycle_reason_only_when_blocked:
  "reason_inv (run_ops lifecycle_step xs (NewAgentLifecycle name sid))"
  by (rule run_ops_invariant [where P = reason_inv])
    (auto intro: lifecycle_step_reason, simp add: reason_inv_def NewAgentLifecycle_def)

end
