(* ===== verification/Lifecycle_Manager.thy ===== *)
theory Lifecycle_Manager
  imports Domain_Lifecycle Domain_Packet
begin

text \<open>
  The lifecycle manager and the dispatcher (\<open>internal/service/lifecycle/manager.go\<close>, \<open>dispatcher.go\<close>):
  one agent instance and one stored conversation per key, spawn agents that leave nothing behind,
  persistent agents that carry their context from task to task, and task packets that follow the run.

  The agent itself (\<open>AgentRunner\<close>), the compactor and the name resolver are parameters; \<open>'w\<close> is the world
  they act on.  Calls are modelled one at a time: a runner that calls back into the same manager while
  it runs is outside the model.
\<close>

section \<open>The manager\<close>

record lc_manager =
  lm_instances :: "string \<rightharpoonup> agent_instance"
  lm_contexts :: "string \<rightharpoonup> string list"

record 'w lc_env =
  le_run :: "string \<Rightarrow> string \<Rightarrow> string \<Rightarrow> 'w \<Rightarrow> (go_error + string) \<times> 'w"
  le_compact :: "(string \<Rightarrow> string \<Rightarrow> 'w \<Rightarrow> 'w) option"
  le_resolve :: "(string \<Rightarrow> string) option"

definition NewManager :: lc_manager where
  "NewManager = \<lparr>lm_instances = Map.empty, lm_contexts = Map.empty\<rparr>"

definition resolvedKey :: "'w lc_env \<Rightarrow> string \<Rightarrow> string \<Rightarrow> string" where
  "resolvedKey E agentName sessionID =
     (case le_resolve E of
        None \<Rightarrow> agentName @ '':'' @ sessionID
      | Some f \<Rightarrow>
          if f agentName \<noteq> '''' then f agentName @ '':'' @ sessionID else agentName @ '':'' @ sessionID)"

definition stored_context :: "lc_manager \<Rightarrow> string \<Rightarrow> string list" where
  "stored_context m key = (case lm_contexts m key of None \<Rightarrow> [] | Some c \<Rightarrow> c)"

definition put_instance :: "string \<Rightarrow> agent_instance \<Rightarrow> lc_manager \<Rightarrow> lc_manager" where
  "put_instance key inst m = m\<lparr>lm_instances := (lm_instances m)(key \<mapsto> inst)\<rparr>"

definition getOrCreateInstance ::
    "string \<Rightarrow> string \<Rightarrow> lifecycle_mode \<Rightarrow> int \<Rightarrow> lc_manager \<Rightarrow> agent_instance \<times> lc_manager" where
  "getOrCreateInstance key agentName mode maxContext m =
     (case lm_instances m key of
        Some inst \<Rightarrow>
          (if mode = LifecycleModeSpawn
           then (let new = NewAgentInstance agentName mode maxContext in (new, put_instance key new m))
           else (inst, m))
      | None \<Rightarrow> (let inst = NewAgentInstance agentName mode maxContext in (inst, put_instance key inst m)))"

definition buildContextualInput :: "string list \<Rightarrow> string \<Rightarrow> string" where
  "buildContextualInput prevContext newInput =
     ''Previous context:'' @ newline @ concat (map (\<lambda>msg. msg @ newline) prevContext) @
     newline @ ''New task:'' @ newline @ newInput"

definition estimateTokens :: "string \<Rightarrow> int" where
  "estimateTokens text = int (length text div 4)"

text \<open>The guarded transitions before the run: an error stops the call, the instance stays as it is then.\<close>

definition ready_and_run :: "agent_instance \<Rightarrow> (go_error \<times> agent_instance) + agent_instance" where
  "ready_and_run inst =
     bind_res
       (if instance_state inst = LifecycleInitializing
        then (case MarkReady inst of
                Inl e \<Rightarrow> Inl (''mark ready: '' @ lifecycle_error_text e, inst) | Inr i \<Rightarrow> Inr i)
        else Inr inst)
       (\<lambda>inst1.
          if instance_state inst1 = LifecycleReady
          then (case MarkRunning inst1 of
                  Inl e \<Rightarrow> Inl (''mark running: '' @ lifecycle_error_text e, inst1) | Inr i \<Rightarrow> Inr i)
          else Inr inst1)"

definition compact_if_needed :: "'w lc_env \<Rightarrow> string \<Rightarrow> string \<Rightarrow> agent_instance \<Rightarrow> 'w \<Rightarrow> 'w" where
  "compact_if_needed E agentName sessionID inst w =
     (if IsPersistent inst \<and> NeedsCompaction inst
      then (case le_compact E of None \<Rightarrow> w | Some c \<Rightarrow> c agentName sessionID w) else w)"

definition run_input :: "agent_instance \<Rightarrow> string list \<Rightarrow> string \<Rightarrow> string" where
  "run_input inst prevContext input =
     (if IsPersistent inst \<and> length prevContext > 0 then buildContextualInput prevContext input else input)"

text \<open>After a successful run: store the context, finish the task, clean up a spawn agent.\<close>

definition finish_run ::
    "string \<Rightarrow> lifecycle_mode \<Rightarrow> string \<Rightarrow> string \<Rightarrow> agent_instance \<Rightarrow> lc_manager \<Rightarrow>
     (string \<times> go_error option) \<times> lc_manager" where
  "finish_run key mode input output inst m =
     (let m1 = (if IsPersistent inst
                then m\<lparr>lm_contexts := (lm_contexts m)(key \<mapsto>
                       stored_context m key @ [''User: '' @ input, ''Agent: '' @ output])\<rparr>
                else m);
          inst1 = (if IsPersistent inst
                   then inst\<lparr>ai_context_tokens :=
                          ai_context_tokens inst + (estimateTokens input + estimateTokens output)\<rparr>
                   else inst);
          (inst2, err) = FinishTask inst1;
          m2 = put_instance key inst2 m1
      in case err of
           Some e \<Rightarrow> ((output, Some (''finish task: '' @ lifecycle_error_text e)), m2)
         | None \<Rightarrow>
             (if mode = LifecycleModeSpawn
              then ((output, None), m2\<lparr>lm_instances := map_delete key (lm_instances m2),
                                       lm_contexts := map_delete key (lm_contexts m2)\<rparr>)
              else ((output, None), m2)))"

definition ExecuteTask ::
    "'w lc_env \<Rightarrow> string \<Rightarrow> string \<Rightarrow> string \<Rightarrow> lifecycle_mode \<Rightarrow> int \<Rightarrow> lc_manager \<times> 'w \<Rightarrow>
     (string \<times> go_error option) \<times> (lc_manager \<times> 'w)" where
  "ExecuteTask E agentName sessionID input mode maxContext mw =
     (let (m, w) = mw;
          key = resolvedKey E agentName sessionID;
          (inst0, m0) = getOrCreateInstance key agentName mode maxContext m;
          inst = (if mode = LifecycleModeSpawn then ResetContext inst0 else inst0);
          m1 = (if mode = LifecycleModeSpawn then m0\<lparr>lm_contexts := (lm_contexts m0)(key \<mapsto> [])\<rparr> else m0)
      in case ready_and_run inst of
           Inl (e, i) \<Rightarrow> (('''', Some e), (put_instance key i m1, w))
         | Inr inst1 \<Rightarrow>
             (let m2 = put_instance key inst1 m1;
                  w1 = compact_if_needed E agentName sessionID inst1 w;
                  fullInput = run_input inst1 (stored_context m2 key) input
              in case le_run E agentName fullInput sessionID w1 of
                   (Inl e, w2) \<Rightarrow>
                     (let blocked = (case MarkBlocked inst1 of Inl _ \<Rightarrow> inst1 | Inr i \<Rightarrow> i)
                      in (('''', Some (''agent '' @ go_quote agentName @ '' execution failed: '' @ e)),
                          (put_instance key blocked m2, w2)))
                 | (Inr output, w2) \<Rightarrow>
                     (let (r, m3) = finish_run key mode input output inst1 m2 in (r, (m3, w2)))))"

definition GetInstance :: "'w lc_env \<Rightarrow> string \<Rightarrow> string \<Rightarrow> lc_manager \<Rightarrow> agent_instance option" where
  "GetInstance E agentName sessionID m = lm_instances m (resolvedKey E agentName sessionID)"

definition ResetAgent :: "'w lc_env \<Rightarrow> string \<Rightarrow> string \<Rightarrow> lc_manager \<Rightarrow> lc_manager" where
  "ResetAgent E agentName sessionID m =
     (let key = resolvedKey E agentName sessionID;
          m1 = (case lm_instances m key of None \<Rightarrow> m | Some inst \<Rightarrow> put_instance key (ResetContext inst) m)
      in m1\<lparr>lm_contexts := (lm_contexts m1)(key \<mapsto> [])\<rparr>)"

definition ContextSize :: "'w lc_env \<Rightarrow> string \<Rightarrow> string \<Rightarrow> lc_manager \<Rightarrow> nat" where
  "ContextSize E agentName sessionID m = length (stored_context m (resolvedKey E agentName sessionID))"

section \<open>The dispatcher\<close>

datatype dispatch_event =
    TaskDispatched string string string
  | TaskCompletedEvent string string
  | TaskFailedEvent string string string
  | TaskTimeoutEvent string string

record 'w dispatcher =
  dp_tasks :: "string \<rightharpoonup> task_packet"
  dp_manager :: lc_manager
  dp_world :: 'w
  dp_events :: "dispatch_event list"

text \<open>
  The packet is shared between the map and the caller, so every change of it is written back to the map.
  \<open>now\<close> gives the clock of the four places that read it; \<open>expired\<close> tells whether the deadline of the
  execution context had passed when the run came back; \<open>stream\<close> is whether an event stream is attached.
\<close>

definition put_packet :: "string \<Rightarrow> task_packet \<Rightarrow> 'w dispatcher \<Rightarrow> 'w dispatcher" where
  "put_packet taskID p d = d\<lparr>dp_tasks := (dp_tasks d)(taskID \<mapsto> p)\<rparr>"

definition send_event :: "bool \<Rightarrow> dispatch_event \<Rightarrow> 'w dispatcher \<Rightarrow> 'w dispatcher" where
  "send_event stream e d = (if stream then d\<lparr>dp_events := dp_events d @ [e]\<rparr> else d)"

record dispatch_clock =
  dc_created :: time
  dc_started :: time
  dc_finished :: time

definition settle_failure ::
    "dispatch_clock \<Rightarrow> bool \<Rightarrow> bool \<Rightarrow> string \<Rightarrow> string \<Rightarrow> go_error \<Rightarrow> task_packet \<Rightarrow> 'w dispatcher \<Rightarrow>
     (task_packet option \<times> go_error option) \<times> 'w dispatcher" where
  "settle_failure clk expired stream taskID childAgent e packet d =
     (if expired
      then (let p = (case packet_mark_timeout (dc_finished clk) packet of Inl _ \<Rightarrow> packet | Inr p \<Rightarrow> p)
            in ((Some p, Some (''task '' @ go_quote taskID @ '' timed out'')),
                send_event stream (TaskTimeoutEvent taskID childAgent) (put_packet taskID p d)))
      else (let p = (case packet_fail (dc_finished clk) e packet of Inl _ \<Rightarrow> packet | Inr p \<Rightarrow> p)
            in ((Some p, Some (''task '' @ go_quote taskID @ '' failed: '' @ e)),
                send_event stream (TaskFailedEvent taskID childAgent e) (put_packet taskID p d))))"

definition Dispatch ::
    "'w lc_env \<Rightarrow> dispatch_clock \<Rightarrow> ('w \<Rightarrow> bool) \<Rightarrow> bool \<Rightarrow> string \<Rightarrow> string \<Rightarrow> string \<Rightarrow> string \<Rightarrow> string \<Rightarrow>
     lifecycle_mode \<Rightarrow> int \<Rightarrow> duration \<Rightarrow> 'w dispatcher \<Rightarrow> (task_packet option \<times> go_error option) \<times> 'w dispatcher" where
  "Dispatch E clk expired stream taskID parentAgent childAgent sessionID input childMode maxContext timeout d =
     (case NewTaskPacket (dc_created clk) taskID parentAgent childAgent sessionID input timeout of
        Inl e \<Rightarrow> ((None, Some (''create task packet: '' @ e)), d)
      | Inr packet \<Rightarrow>
          (let d1 = send_event stream (TaskDispatched taskID parentAgent childAgent) (put_packet taskID packet d)
           in case packet_start (dc_started clk) packet of
                Inl e \<Rightarrow> ((Some packet, Some (''start task: '' @ e)), d1)
              | Inr running \<Rightarrow>
                  (let d2 = put_packet taskID running d1;
                       ((output, err), (m, w)) =
                         ExecuteTask E childAgent taskID input childMode maxContext (dp_manager d2, dp_world d2);
                       d3 = d2\<lparr>dp_manager := m, dp_world := w\<rparr>
                   in case err of
                        Some e \<Rightarrow> settle_failure clk (expired w) stream taskID childAgent e running d3
                      | None \<Rightarrow>
                          (case packet_complete (dc_finished clk) output running of
                             Inl e \<Rightarrow> ((Some running, Some (''complete task: '' @ e)), d3)
                           | Inr done \<Rightarrow>
                               ((Some done, None),
                                send_event stream (TaskCompletedEvent taskID childAgent) (put_packet taskID done d3))))))"

definition GetTaskPacket :: "string \<Rightarrow> 'w dispatcher \<Rightarrow> task_packet option" where
  "GetTaskPacket taskID d = dp_tasks d taskID"

text \<open>The listings visit the map in an arbitrary order, given as \<open>keys\<close>.\<close>

definition ListTasksOfParent :: "string list \<Rightarrow> string \<Rightarrow> 'w dispatcher \<Rightarrow> task_packet list" where
  "ListTasksOfParent keys parentAgent d =
     filter (\<lambda>tp. tp_parent_agent tp = parentAgent) (List.map_filter (dp_tasks d) keys)"

definition ListTasksBySession :: "string list \<Rightarrow> string \<Rightarrow> 'w dispatcher \<Rightarrow> task_packet list" where
  "ListTasksBySession keys sessionID d =
     filter (\<lambda>tp. tp_session_id tp = sessionID) (List.map_filter (dp_tasks d) keys)"

section \<open>Spawn agents\<close>

lemma ready_and_run_new:
  "ready_and_run (NewAgentInstance name mode mc) =
     Inr ((NewAgentInstance name mode mc)\<lparr>ai_lifecycle :=
       (NewAgentLifecycle name '''')\<lparr>al_state := LifecycleRunning, al_blocked_reason := None\<rparr>\<rparr>)"
  by (simp add: ready_and_run_def NewAgentInstance_def NewAgentLifecycle_def lifecycle_defs)

lemma reset_new [simp]: "ResetContext (NewAgentInstance name mode mc) = NewAgentInstance name mode mc"
  by (simp add: ResetContext_def NewAgentInstance_def)

lemma get_or_create_spawn:
  "getOrCreateInstance key name LifecycleModeSpawn mc m =
     (NewAgentInstance name LifecycleModeSpawn mc, put_instance key (NewAgentInstance name LifecycleModeSpawn mc) m)"
  by (simp add: getOrCreateInstance_def Let_def split: option.splits)

lemma spawn_call:
  assumes "le_run E name input sid w = (r, w')"
  shows "ExecuteTask E name sid input LifecycleModeSpawn mc (m, w) =
    (case r of
       Inr output \<Rightarrow> ((output, None),
         (m\<lparr>lm_instances := map_delete (resolvedKey E name sid) (lm_instances m),
            lm_contexts := map_delete (resolvedKey E name sid) (lm_contexts m)\<rparr>, w'))
     | Inl e \<Rightarrow> ((''''  , Some (''agent '' @ go_quote name @ '' execution failed: '' @ e)),
         snd (ExecuteTask E name sid input LifecycleModeSpawn mc (m, w))))"
proof -
  have run: "run_input (i\<lparr>ai_lifecycle := l\<rparr>) c input = input"
      "compact_if_needed E name sid (i\<lparr>ai_lifecycle := l\<rparr>) w = w"
    if "i = NewAgentInstance name LifecycleModeSpawn mc" for i l c
    using that by (simp_all add: run_input_def compact_if_needed_def IsPersistent_def NewAgentInstance_def)
  have fin: "FinishTask ((NewAgentInstance name LifecycleModeSpawn mc)\<lparr>ai_lifecycle :=
       (NewAgentLifecycle name '''')\<lparr>al_state := LifecycleRunning, al_blocked_reason := None\<rparr>\<rparr>) =
     ((NewAgentInstance name LifecycleModeSpawn mc)\<lparr>ai_tasks_handled := 1, ai_lifecycle :=
       (NewAgentLifecycle name '''')\<lparr>al_state := LifecycleFinished, al_blocked_reason := None\<rparr>\<rparr>, None)"
    by (simp add: FinishTask_def NewAgentInstance_def NewAgentLifecycle_def lifecycle_defs)
  have np: "\<not> IsPersistent ((NewAgentInstance name LifecycleModeSpawn mc)\<lparr>ai_lifecycle := l\<rparr>)" for l
    by (simp add: IsPersistent_def NewAgentInstance_def)
  show ?thesis
  proof (cases r)
    case (Inl e)
    then show ?thesis using assms
      by (simp add: ExecuteTask_def get_or_create_spawn ready_and_run_new run Let_def)
  next
    case (Inr out)
    then show ?thesis using assms
      by (simp add: ExecuteTask_def get_or_create_spawn ready_and_run_new run Let_def finish_run_def np fin
          put_instance_def map_delete_def fun_upd_upd)
  qed
qed

section \<open>Persistent agents\<close>

definition persistent_ok :: "lc_manager \<Rightarrow> bool" where
  "persistent_ok m \<longleftrightarrow>
     (\<forall>key inst. lm_instances m key = Some inst \<longrightarrow>
        ai_mode inst = LifecycleModePersistent \<and>
        (instance_state inst = LifecycleReady \<or> instance_state inst = LifecycleBlocked))"

text \<open>The instance a persistent call works on.\<close>

definition current_instance :: "string \<Rightarrow> string \<Rightarrow> int \<Rightarrow> lc_manager \<Rightarrow> agent_instance" where
  "current_instance key name mc m =
     (case lm_instances m key of None \<Rightarrow> NewAgentInstance name LifecycleModePersistent mc | Some i \<Rightarrow> i)"

lemma get_or_create_persistent:
  "getOrCreateInstance key name LifecycleModePersistent mc m =
     (current_instance key name mc m, put_instance key (current_instance key name mc m) m)"
  by (cases m) (auto simp: getOrCreateInstance_def current_instance_def put_instance_def Let_def fun_upd_idem
      split: option.splits)

definition can_run :: "agent_instance \<Rightarrow> bool" where
  "can_run i \<longleftrightarrow> ai_mode i = LifecycleModePersistent \<and>
     (instance_state i = LifecycleInitializing \<or> instance_state i = LifecycleReady \<or> instance_state i = LifecycleBlocked)"

lemma current_can_run: "persistent_ok m \<Longrightarrow> can_run (current_instance key name mc m)"
  by (auto simp: persistent_ok_def can_run_def current_instance_def NewAgentInstance_def NewAgentLifecycle_def
      instance_state_def split: option.splits)

lemma ready_and_run_ok:
  assumes "can_run i"
  shows "\<exists>i'. ready_and_run i = Inr i' \<and> ai_mode i' = LifecycleModePersistent \<and>
    (instance_state i' = LifecycleRunning \<or> instance_state i' = LifecycleBlocked) \<and>
    ai_context_tokens i' = ai_context_tokens i \<and> ai_max_context i' = ai_max_context i \<and>
    ai_tasks_handled i' = ai_tasks_handled i"
  using assms unfolding can_run_def
  by (elim conjE disjE; simp add: ready_and_run_def lifecycle_defs lifecycle_defs)

lemma needs_compaction_cong:
  "ai_context_tokens i = ai_context_tokens j \<Longrightarrow> ai_max_context i = ai_max_context j \<Longrightarrow>
     NeedsCompaction i = NeedsCompaction j"
  by (simp add: NeedsCompaction_def)

lemma mark_blocked_state:
  "instance_state i = LifecycleRunning \<or> instance_state i = LifecycleBlocked \<Longrightarrow>
     instance_state (case MarkBlocked i of Inl _ \<Rightarrow> i | Inr j \<Rightarrow> j) = LifecycleBlocked \<and>
     ai_mode (case MarkBlocked i of Inl _ \<Rightarrow> i | Inr j \<Rightarrow> j) = ai_mode i"
  by (auto simp: lifecycle_defs)

text \<open>The world and the input the runner of a persistent call sees.\<close>

definition persistent_world :: "'w lc_env \<Rightarrow> string \<Rightarrow> string \<Rightarrow> int \<Rightarrow> lc_manager \<Rightarrow> 'w \<Rightarrow> 'w" where
  "persistent_world E name sid mc m w =
     (if NeedsCompaction (current_instance (resolvedKey E name sid) name mc m)
      then (case le_compact E of None \<Rightarrow> w | Some c \<Rightarrow> c name sid w) else w)"

definition persistent_input :: "string list \<Rightarrow> string \<Rightarrow> string" where
  "persistent_input ctx input = (if ctx = [] then input else buildContextualInput ctx input)"

lemma persistent_call_ok:
  assumes ok: "persistent_ok m" and key: "key = resolvedKey E name sid"
    and run: "le_run E name (persistent_input (stored_context m key) input) sid (persistent_world E name sid mc m w)
      = (Inr output, w')"
  shows "\<exists>m' inst. ExecuteTask E name sid input LifecycleModePersistent mc (m, w) = ((output, None), (m', w')) \<and>
    lm_instances m' = (lm_instances m)(key \<mapsto> inst) \<and>
    lm_contexts m' = (lm_contexts m)(key \<mapsto> stored_context m key @ [''User: '' @ input, ''Agent: '' @ output]) \<and>
    ai_mode inst = LifecycleModePersistent \<and> instance_state inst = LifecycleReady \<and>
    ai_context_tokens inst = ai_context_tokens (current_instance key name mc m) + estimateTokens input + estimateTokens output \<and>
    ai_tasks_handled inst = ai_tasks_handled (current_instance key name mc m) + 1"
proof -
  let ?i = "current_instance key name mc m"
  obtain i' where i': "ready_and_run ?i = Inr i'" "ai_mode i' = LifecycleModePersistent"
    "instance_state i' = LifecycleRunning \<or> instance_state i' = LifecycleBlocked"
    "ai_context_tokens i' = ai_context_tokens ?i" "ai_max_context i' = ai_max_context ?i"
    "ai_tasks_handled i' = ai_tasks_handled ?i"
    using ready_and_run_ok [OF current_can_run [OF ok]] by blast
  have pers: "IsPersistent i'" using i'(2) by (simp add: IsPersistent_def)
  have ctx: "stored_context (put_instance key j (put_instance key k m)) key = stored_context m key" for j k
    by (simp add: stored_context_def put_instance_def)
  have w1: "compact_if_needed E name sid i' w = persistent_world E name sid mc m w"
    using pers needs_compaction_cong [OF i'(4,5)] by (simp add: compact_if_needed_def persistent_world_def key)
  have inp: "run_input i' c input = persistent_input c input" for c
    using pers by (simp add: run_input_def persistent_input_def)
  let ?j = "i'\<lparr>ai_context_tokens := ai_context_tokens i' + (estimateTokens input + estimateTokens output)\<rparr>"
  have "can_finish (instance_state ?j)" using i'(3) by (auto simp: can_finish_iff instance_state_def)
  note fin = finish_task_ok [OF this]
  obtain i3 where fin3: "FinishTask ?j = (i3, None)" using fin(1) by (cases "FinishTask ?j") simp
  have "ExecuteTask E name sid input LifecycleModePersistent mc (m, w) =
      (let (r, m3) = finish_run key LifecycleModePersistent input output i' (put_instance key i' (put_instance key ?i m))
       in (r, (m3, w')))"
    using run by (simp add: ExecuteTask_def key [symmetric] get_or_create_persistent i'(1) w1 inp ctx Let_def)
  also have "\<dots> = ((output, None), (\<lparr>lm_instances = (lm_instances m)(key \<mapsto> i3),
      lm_contexts = (lm_contexts m)(key \<mapsto> stored_context m key @ [''User: '' @ input, ''Agent: '' @ output])\<rparr>, w'))"
    by (cases m) (simp add: finish_run_def pers fin3 Let_def put_instance_def stored_context_def)
  finally show ?thesis using fin fin3 i'(2,4,6) by auto
qed

lemma persistent_call_fails:
  assumes ok: "persistent_ok m" and key: "key = resolvedKey E name sid"
    and run: "le_run E name (persistent_input (stored_context m key) input) sid (persistent_world E name sid mc m w)
      = (Inl e, w')"
  shows "\<exists>m' inst. ExecuteTask E name sid input LifecycleModePersistent mc (m, w) =
      (('''', Some (''agent '' @ go_quote name @ '' execution failed: '' @ e)), (m', w')) \<and>
    lm_instances m' = (lm_instances m)(key \<mapsto> inst) \<and> lm_contexts m' = lm_contexts m \<and>
    ai_mode inst = LifecycleModePersistent \<and> instance_state inst = LifecycleBlocked"
proof -
  let ?i = "current_instance key name mc m"
  obtain i' where i': "ready_and_run ?i = Inr i'" "ai_mode i' = LifecycleModePersistent"
    "instance_state i' = LifecycleRunning \<or> instance_state i' = LifecycleBlocked"
    "ai_context_tokens i' = ai_context_tokens ?i" "ai_max_context i' = ai_max_context ?i"
    using ready_and_run_ok [OF current_can_run [OF ok]] by blast
  have pers: "IsPersistent i'" using i'(2) by (simp add: IsPersistent_def)
  have ctx: "stored_context (put_instance key j (put_instance key k m)) key = stored_context m key" for j k
    by (simp add: stored_context_def put_instance_def)
  have w1: "compact_if_needed E name sid i' w = persistent_world E name sid mc m w"
    using pers needs_compaction_cong [OF i'(4,5)] by (simp add: compact_if_needed_def persistent_world_def key)
  have inp: "run_input i' c input = persistent_input c input" for c
    using pers by (simp add: run_input_def persistent_input_def)
  have "ExecuteTask E name sid input LifecycleModePersistent mc (m, w) =
      (('''', Some (''agent '' @ go_quote name @ '' execution failed: '' @ e)),
       (put_instance key (case MarkBlocked i' of Inl _ \<Rightarrow> i' | Inr j \<Rightarrow> j) (put_instance key i' (put_instance key ?i m)), w'))"
    using run by (simp add: ExecuteTask_def key [symmetric] get_or_create_persistent i'(1) w1 inp ctx Let_def)
  then show ?thesis using mark_blocked_state [OF i'(3)] i'(2) by (auto simp: put_instance_def)
qed

lemma persistent_call_keeps:
  assumes "persistent_ok m"
  shows "persistent_ok (fst (snd (ExecuteTask E name sid input LifecycleModePersistent mc (m, w))))"
proof -
  let ?key = "resolvedKey E name sid"
  obtain r w' where r: "le_run E name (persistent_input (stored_context m ?key) input) sid
      (persistent_world E name sid mc m w) = (r, w')" by fastforce
  show ?thesis
  proof (cases r)
    case (Inl e)
    obtain m' inst where m': "ExecuteTask E name sid input LifecycleModePersistent mc (m, w) =
        (('''', Some (''agent '' @ go_quote name @ '' execution failed: '' @ e)), (m', w'))"
      and i: "lm_instances m' = (lm_instances m)(?key \<mapsto> inst)" "ai_mode inst = LifecycleModePersistent"
        "instance_state inst = LifecycleBlocked"
      using persistent_call_fails [OF assms refl r [unfolded Inl]] by blast
    from i assms have "persistent_ok m'" by (simp add: persistent_ok_def)
    then show ?thesis by (simp add: m')
  next
    case (Inr out)
    obtain m' inst where m': "ExecuteTask E name sid input LifecycleModePersistent mc (m, w) = ((out, None), (m', w'))"
      and i: "lm_instances m' = (lm_instances m)(?key \<mapsto> inst)" "ai_mode inst = LifecycleModePersistent"
        "instance_state inst = LifecycleReady"
      using persistent_call_ok [OF assms refl r [unfolded Inr]] by blast
    from i assms have "persistent_ok m'" by (simp add: persistent_ok_def)
    then show ?thesis by (simp add: m')
  qed
qed

text \<open>A client that only makes persistent calls: agent, session, input and context limit of each.\<close>

type_synonym persistent_request = "string \<times> string \<times> string \<times> int"

fun persistent_calls :: "'w lc_env \<Rightarrow> persistent_request list \<Rightarrow> lc_manager \<times> 'w \<Rightarrow> lc_manager \<times> 'w" where
  "persistent_calls E [] mw = mw"
| "persistent_calls E ((name, sid, input, mc) # cs) mw =
     persistent_calls E cs (snd (ExecuteTask E name sid input LifecycleModePersistent mc mw))"

lemma persistent_calls_ok: "persistent_ok (fst mw) \<Longrightarrow> persistent_ok (fst (persistent_calls E cs mw))"
proof (induction cs arbitrary: mw)
  case Nil
  then show ?case by simp
next
  case (Cons c cs)
  obtain name sid input mc where "c = (name, sid, input, mc)" by (cases c)
  moreover obtain m w where "mw = (m, w)" by (cases mw)
  ultimately show ?case
    using Cons.IH [of "snd (ExecuteTask E name sid input LifecycleModePersistent mc (m, w))"] Cons.prems
      persistent_call_keeps [of m E name sid input mc w] by simp
qed

section \<open>Packets follow the run\<close>

lemma new_packet_pending:
  assumes "NewTaskPacket now i p c s inp d = Inr tp"
  shows "tp_status tp = TaskPacketPending"
  using assms unfolding NewTaskPacket_def by (auto simp: Let_def)

lemma packet_start_pending:
  "tp_status p = TaskPacketPending \<Longrightarrow>
     packet_start now p = Inr (p\<lparr>tp_status := TaskPacketRunning, tp_started_at := now\<rparr>)"
  by (simp add: packet_start_def)

lemma send_event_tasks [simp]: "dp_tasks (send_event st e d) = dp_tasks d"
  by (simp add: send_event_def)

lemma settle_failure_running:
  assumes "tp_status packet = TaskPacketRunning" and "settle_failure clk ex st taskID ch e packet d = ((p, err), d')"
  shows "\<exists>tp. p = Some tp \<and> err \<noteq> None \<and> dp_tasks d' taskID = Some tp \<and>
    tp_status tp = (if ex then TaskPacketTimeout else TaskPacketFailed)"
  using assms by (auto simp: settle_failure_def packet_mark_timeout_def packet_fail_def put_packet_def Let_def split: if_splits)

lemma dispatch_cases:
  assumes disp: "Dispatch E clk ex st taskID parent child sid input mode mc tmo d = ((Some tp, err), d')"
  shows "dp_tasks d' taskID = Some tp \<and>
    (tp_status tp = TaskPacketCompleted \<and> err = None \<or>
     (tp_status tp = TaskPacketFailed \<or> tp_status tp = TaskPacketTimeout) \<and> err \<noteq> None)"
proof -
  obtain packet where new: "NewTaskPacket (dc_created clk) taskID parent child sid input tmo = Inr packet"
    using disp by (auto simp: Dispatch_def split: sum.splits)
  define running where "running = packet\<lparr>tp_status := TaskPacketRunning, tp_started_at := dc_started clk\<rparr>"
  define d2 where "d2 = put_packet taskID running
    (send_event st (TaskDispatched taskID parent child) (put_packet taskID packet d))"
  obtain out e m w where ex': "ExecuteTask E child taskID input mode mc (dp_manager d2, dp_world d2) = ((out, e), (m, w))"
    by (metis prod.collapse)
  have run: "tp_status running = TaskPacketRunning" by (simp add: running_def)
  have start: "packet_start (dc_started clk) packet = Inr running"
    using packet_start_pending [OF new_packet_pending [OF new]] by (simp add: running_def)
  show ?thesis
  proof (cases e)
    case (Some msg)
    then have "settle_failure clk (ex w) st taskID child msg running (d2\<lparr>dp_manager := m, dp_world := w\<rparr>) = ((Some tp, err), d')"
      using disp new start ex' by (simp add: Dispatch_def d2_def Let_def)
    from settle_failure_running [OF run this] show ?thesis by (auto split: if_splits)
  next
    case None
    then show ?thesis
      using disp new start ex' run
      by (auto simp: Dispatch_def d2_def Let_def packet_complete_def put_packet_def)
  qed
qed

section \<open>Properties\<close>

text \<open>A spawn agent is isolated: whatever conversation or instance is stored under its key, its runner
  gets exactly the given input, and after a successful task nothing is left under the key, while the
  rest of the manager is as before.\<close>

theorem spawn_leaves_nothing:
  assumes "le_run E name input sid w = (Inr output, w')"
  shows "ExecuteTask E name sid input LifecycleModeSpawn mc (m, w) = ((output, None),
    (m\<lparr>lm_instances := map_delete (resolvedKey E name sid) (lm_instances m),
       lm_contexts := map_delete (resolvedKey E name sid) (lm_contexts m)\<rparr>, w'))"
  using spawn_call [OF assms] by simp

text \<open>An agent that echoes its input after its first, failing run.\<close>

definition echo_env :: "nat lc_env" where
  "echo_env = \<lparr>le_run = (\<lambda>_ input _ n. (if n = 0 then Inl ''no model'' else Inr input, Suc n)),
     le_compact = None, le_resolve = None\<rparr>"

theorem spawn_leaves_nothing_witness:
  "ExecuteTask echo_env ''a'' ''s'' ''hello'' LifecycleModeSpawn 100
     (\<lparr>lm_instances = Map.empty, lm_contexts = [''a:s'' \<mapsto> [''old'']]\<rparr>, 1) =
   ((''hello'', None), (NewManager, 2))"
proof -
  have "le_run echo_env ''a'' ''hello'' ''s'' 1 = (Inr ''hello'', 2)" by (simp add: echo_env_def)
  from spawn_leaves_nothing [OF this] show ?thesis
    by (simp add: NewManager_def resolvedKey_def echo_env_def map_delete_def)
qed



text \<open>
  The two modes under one key do get stuck: a failed spawn run leaves its instance, the first persistent
  call on the key finishes it for good, and every later persistent call fails although the agent ran.
\<close>

lemma mixed_modes_stick:
  "let s1 = snd (ExecuteTask echo_env ''a'' ''s'' ''x'' LifecycleModeSpawn 100 (NewManager, 0));
       s2 = snd (ExecuteTask echo_env ''a'' ''s'' ''y'' LifecycleModePersistent 100 s1)
   in fst (ExecuteTask echo_env ''a'' ''s'' ''z'' LifecycleModePersistent 100 s2) =
        (''z'', Some ''finish task: invalid transition: finished -> finished'')"
  by (simp add: ExecuteTask_def echo_env_def NewManager_def resolvedKey_def getOrCreateInstance_def Let_def
      put_instance_def ready_and_run_def NewAgentInstance_def NewAgentLifecycle_def ResetContext_def
      lifecycle_defs compact_if_needed_def run_input_def IsPersistent_def finish_run_def FinishTask_def
      stored_context_def)

text \<open>The session that a dispatched child works under is the task's identifier, not the caller's session.\<close>

lemma dispatch_ignores_session:
  "Dispatch E clk ex st taskID parent child sid input mode mc tmo d = ((Some p, None), d') \<Longrightarrow>
     fst (fst (ExecuteTask E child taskID input mode mc (dp_manager d, dp_world d))) = tp_result p"
  by (auto simp: Dispatch_def Let_def packet_complete_def put_packet_def send_event_def settle_failure_def
      split: sum.splits prod.splits option.splits if_splits)

text \<open>Dispatch always settles the packet it returns: it is stored under the task's identifier, and it is
  completed exactly when no error is returned, failed or timed out exactly when one is; a packet never
  stays pending or running.\<close>

theorem dispatch_settles_packet:
  assumes "Dispatch E clk ex st taskID parent child sid input mode mc tmo d = ((Some tp, err), d')"
  shows "GetTaskPacket taskID d' = Some tp \<and> packet_is_terminal tp \<and>
    (err = None \<longleftrightarrow> tp_status tp = TaskPacketCompleted)"
  using dispatch_cases [OF assms] by (auto simp: GetTaskPacket_def packet_is_terminal_def)

definition demo_dispatcher :: "nat dispatcher" where
  "demo_dispatcher = \<lparr>dp_tasks = Map.empty, dp_manager = NewManager, dp_world = 0, dp_events = []\<rparr>"

theorem dispatch_settles_packet_witness:
  "\<exists>tp. fst (Dispatch echo_env \<lparr>dc_created = 1, dc_started = 2, dc_finished = 3\<rparr> (\<lambda>_. True) True ''t1'' ''boss'' ''a''
      ''s'' ''go'' LifecycleModeSpawn 100 5 demo_dispatcher) = (Some tp, Some ''task \"t1\" timed out'') \<and>
    packet_is_terminal tp"
proof -
  have "le_run echo_env ''a'' ''go'' ''t1'' 0 = (Inl ''no model'', 1)" by (simp add: echo_env_def)
  from spawn_call [OF this] obtain msg m w where
    "ExecuteTask echo_env ''a'' ''t1'' ''go'' LifecycleModeSpawn 100 (NewManager, 0) = (('''', Some msg), (m, w))"
    by (metis (no_types, lifting) prod.collapse sum.case(1))
  then obtain tp d' where r: "Dispatch echo_env \<lparr>dc_created = 1, dc_started = 2, dc_finished = 3\<rparr> (\<lambda>_. True) True ''t1''
      ''boss'' ''a'' ''s'' ''go'' LifecycleModeSpawn 100 5 demo_dispatcher = ((Some tp, Some ''task \"t1\" timed out''), d')"
    by (simp add: Dispatch_def NewTaskPacket_def packet_validate_def packet_start_def Let_def demo_dispatcher_def
        put_packet_def send_event_def settle_failure_def packet_mark_timeout_def go_quote_def)
  from dispatch_settles_packet [OF r] r show ?thesis by auto
qed

end
