(* ===== verification/Event_Bus.thy ===== *)
theory Event_Bus
  imports Prelude
begin

text \<open>
  The event bus between the producers of a session (user, agents, reminder timer) and its single consumer,
  the orchestrator (\<open>internal/service/orchestrator/event_bus.go\<close>).  The buffered channel is a queue with a
  capacity and a closed flag, with Go's rules: a closed channel still delivers what is buffered and then
  zero values for ever.

  \<open>Publish\<close> is also split into its two selects, because \<open>Close\<close> may run between them.  The locale
  \<open>event_queue\<close> is the contract the orchestrator uses; the bus is interpreted as an instance.
\<close>

section \<open>Events\<close>

datatype event_type =
    EventUserMessage | EventAgentCompleted | EventAgentFailed | EventWorkReminder | EventUserResponded
  | EventOther string

record orch_event =
  ev_type :: event_type
  ev_content :: string
  ev_agent_id :: string
  ev_subtask_id :: string

definition zero_event :: orch_event where
  "zero_event = \<lparr>ev_type = EventOther '''', ev_content = '''', ev_agent_id = '''', ev_subtask_id = ''''\<rparr>"

section \<open>The bus\<close>

record event_bus =
  eb_queue :: "orch_event list"
  eb_capacity :: nat
  eb_interrupt :: bool
  eb_closed :: bool

definition NewSessionEventBus :: "int \<Rightarrow> event_bus" where
  "NewSessionEventBus bufferSize =
     \<lparr>eb_queue = [], eb_capacity = nat (if bufferSize < 1 then 1 else bufferSize),
      eb_interrupt = False, eb_closed = False\<rparr>"

definition Publish :: "orch_event \<Rightarrow> event_bus \<Rightarrow> go_error option \<times> event_bus" where
  "Publish event b =
     (if eb_closed b then (Some ''event bus closed'', b)
      else if length (eb_queue b) < eb_capacity b then (None, b\<lparr>eb_queue := eb_queue b @ [event]\<rparr>)
      else (Some ''event bus buffer full'', b))"

text \<open>The channel of interrupts holds at most one signal.\<close>

definition signal_interrupt :: "event_bus \<Rightarrow> event_bus" where
  "signal_interrupt b = b\<lparr>eb_interrupt := True\<rparr>"

definition PublishInterrupt :: "orch_event \<Rightarrow> event_bus \<Rightarrow> go_error option \<times> event_bus" where
  "PublishInterrupt event b =
     (case Publish event b of
        (Some e, b') \<Rightarrow> (Some e, b')
      | (None, b') \<Rightarrow> (None, signal_interrupt b'))"

definition DrainInterrupts :: "event_bus \<Rightarrow> event_bus" where
  "DrainInterrupts b = b\<lparr>eb_interrupt := False\<rparr>"

definition CloseBus :: "event_bus \<Rightarrow> event_bus" where
  "CloseBus b = b\<lparr>eb_closed := True\<rparr>"

text \<open>
  A receive from \<open>Events()\<close>: \<open>None\<close> would block; otherwise the value, Go's \<open>ok\<close> flag and the bus after it.
\<close>

definition recv_event :: "event_bus \<Rightarrow> (orch_event \<times> bool \<times> event_bus) option" where
  "recv_event b =
     (case eb_queue b of
        e # es \<Rightarrow> Some (e, True, b\<lparr>eb_queue := es\<rparr>)
      | [] \<Rightarrow> if eb_closed b then Some (zero_event, False, b) else None)"

section \<open>Publish as two selects\<close>

datatype send_outcome = Sent event_bus | BusClosed | BufferFull | SendPanics

definition publish_check :: "event_bus \<Rightarrow> bool" where
  "publish_check b \<longleftrightarrow> \<not> eb_closed b"

text \<open>
  The second select.  On a closed bus both the send and the \<open>done\<close> case are ready, Go picks either, and a
  send on a closed channel panics.
\<close>

definition publish_send :: "orch_event \<Rightarrow> event_bus \<Rightarrow> send_outcome set" where
  "publish_send event b =
     (if eb_closed b then {SendPanics, BusClosed}
      else if length (eb_queue b) < eb_capacity b then {Sent (b\<lparr>eb_queue := eb_queue b @ [event]\<rparr>)}
      else {BufferFull})"

lemma publish_split:
  "Publish event b = (None, b') \<longleftrightarrow> publish_check b \<and> publish_send event b = {Sent b'}"
  by (auto simp: Publish_def publish_check_def publish_send_def)

lemma close_between_selects_panics:
  "publish_check b \<Longrightarrow> SendPanics \<in> publish_send event (CloseBus b)"
  by (simp add: publish_send_def CloseBus_def)

section \<open>The contract of the queue\<close>

locale event_queue =
  fixes publish :: "'e \<Rightarrow> 'b \<Rightarrow> go_error option \<times> 'b"
    and recv :: "'b \<Rightarrow> ('e \<times> bool \<times> 'b) option"
    and close :: "'b \<Rightarrow> 'b"
    and contents :: "'b \<Rightarrow> 'e list"
    and closed :: "'b \<Rightarrow> bool"
  assumes publish_ok: "publish e b = (None, b') \<Longrightarrow> \<not> closed b \<and> contents b' = contents b @ [e] \<and> closed b' = closed b"
    and publish_err: "publish e b = (Some m, b') \<Longrightarrow> b' = b"
    and recv_blocks: "recv b = None \<longleftrightarrow> contents b = [] \<and> \<not> closed b"
    and recv_value: "recv b = Some (e, True, b') \<Longrightarrow> contents b = e # contents b' \<and> closed b' = closed b"
    and recv_zero: "recv b = Some (e, False, b') \<Longrightarrow> contents b = [] \<and> closed b \<and> b' = b"
    and close_keeps: "contents (close b) = contents b \<and> closed (close b)"
begin

lemma publish_closed: "closed b \<Longrightarrow> \<exists>m. publish e b = (Some m, b)"
  using publish_ok publish_err by (metis not_Some_eq prod.collapse)

lemma recv_open: "\<not> closed b \<Longrightarrow> recv b = Some (e, ok, b') \<Longrightarrow> ok"
  using recv_zero by (cases ok) auto

lemma recv_value_open:
  assumes "recv b = Some (e, ok, b')" and "\<not> closed b"
  shows "contents b = e # contents b' \<and> \<not> closed b'"
  using recv_open [OF assms(2,1)] recv_value assms by auto

text \<open>After the buffer of a closed queue is used up, a receive returns for ever.\<close>

lemma recv_closed_ready: "closed b \<Longrightarrow> \<exists>e ok b'. recv b = Some (e, ok, b') \<and> closed b'"
proof -
  assume c: "closed b"
  then obtain e ok b' where r: "recv b = Some (e, ok, b')" using recv_blocks by (metis not_None_eq prod.collapse)
  then have "closed b'" using c recv_value [of b e b'] recv_zero [of b e b'] by (cases ok) auto
  with r show ?thesis by blast
qed

end

interpretation bus: event_queue Publish recv_event CloseBus eb_queue eb_closed
proof
  fix e b b' assume "Publish e b = (None, b')"
  then show "\<not> eb_closed b \<and> eb_queue b' = eb_queue b @ [e] \<and> eb_closed b' = eb_closed b"
    by (auto simp: Publish_def split: if_splits)
next
  fix e b m b' assume "Publish e b = (Some m, b')"
  then show "b' = b" by (auto simp: Publish_def split: if_splits)
next
  fix b show "recv_event b = None \<longleftrightarrow> eb_queue b = [] \<and> \<not> eb_closed b"
    by (cases "eb_queue b") (auto simp: recv_event_def)
next
  fix b e b' assume "recv_event b = Some (e, True, b')"
  then show "eb_queue b = e # eb_queue b' \<and> eb_closed b' = eb_closed b"
    by (auto simp: recv_event_def split: list.splits if_splits)
next
  fix b e b' assume "recv_event b = Some (e, False, b')"
  then show "eb_queue b = [] \<and> eb_closed b \<and> b' = b"
    by (auto simp: recv_event_def split: list.splits if_splits)
next
  fix b show "eb_queue (CloseBus b) = eb_queue b \<and> eb_closed (CloseBus b)"
    by (simp add: CloseBus_def)
qed

section \<open>Capacity\<close>

definition bus_ok :: "event_bus \<Rightarrow> bool" where
  "bus_ok b \<longleftrightarrow> length (eb_queue b) \<le> eb_capacity b \<and> 0 < eb_capacity b"

lemma new_bus_ok: "bus_ok (NewSessionEventBus n)"
  by (simp add: bus_ok_def NewSessionEventBus_def)

lemma publish_ok_bus: "bus_ok b \<Longrightarrow> bus_ok (snd (Publish e b))"
  by (auto simp: bus_ok_def Publish_def)

lemma recv_ok_bus: "bus_ok b \<Longrightarrow> recv_event b = Some (e, ok, b') \<Longrightarrow> bus_ok b'"
  by (auto simp: bus_ok_def recv_event_def split: list.splits if_splits)

end
