(* ===== verification/Orchestrator.thy ===== *)
theory Orchestrator
  imports Event_Bus
begin

text \<open>
  The supervisor's event loop (\<open>internal/service/orchestrator/orchestrator.go\<close>).  One round of \<open>Run\<close> takes
  a batch from the bus, checks the two limits, and runs a turn that ends by itself, by an interrupt or by
  the end of the context; then a reminder may be scheduled.  Producers, the timer and the closing of the
  bus act between the steps, so the whole is the step relation \<open>orch_step\<close>.

  \<open>drainPendingEvents\<close> may run for ever, so it is a partial function with \<open>None\<close> for "does not return".
  The fields \<open>or_accepted\<close> and \<open>or_batches\<close> record the history: the events the bus accepted and the
  batches the loop took.
\<close>

section \<open>State\<close>

datatype supervisor_state = StateIdle | StateThinking | StateWaitingForUser

definition maxEventsPerSession :: nat where
  "maxEventsPerSession = 200"

definition maxConsecutiveReminders :: nat where
  "maxConsecutiveReminders = 10"

datatype run_exit = ExitContext | ExitBusClosed | ExitMaxEvents | ExitStalled

text \<open>What the \<open>ActiveWorkChecker\<close> answers; no checker is configured when it is \<open>None\<close>.\<close>

record work_answer =
  wa_waiting :: bool
  wa_active :: bool
  wa_summary :: string

record orch =
  or_bus :: event_bus
  or_timer :: "string option"
  or_event_count :: nat
  or_consecutive :: nat
  or_state :: supervisor_state
  or_turn :: "string option"
  or_exit :: "run_exit option"
  or_ctx_done :: bool
  or_client_errors :: "string list"
  or_signals :: nat
  or_accepted :: "orch_event list"
  or_batches :: "orch_event list list"

definition new_orchestrator :: "event_bus \<Rightarrow> orch" where
  "new_orchestrator b =
     \<lparr>or_bus = b, or_timer = None, or_event_count = 0, or_consecutive = 0, or_state = StateIdle,
      or_turn = None, or_exit = None, or_ctx_done = False, or_client_errors = [], or_signals = 0,
      or_accepted = [], or_batches = []\<rparr>"

section \<open>The pieces of the loop\<close>

partial_function (option) drainPendingEvents ::
    "('b \<Rightarrow> ('e \<times> bool \<times> 'b) option) \<Rightarrow> 'e list \<Rightarrow> 'b \<Rightarrow> ('e list \<times> 'b) option" where
  "drainPendingEvents recv events b =
     (case recv b of
        None \<Rightarrow> Some (events, b)
      | Some (e, ok, b') \<Rightarrow> drainPendingEvents recv (events @ [e]) b')"

definition trackReminders :: "orch_event list \<Rightarrow> orch \<Rightarrow> bool \<times> orch" where
  "trackReminders events o1 =
     (if list_all (\<lambda>e. ev_type e = EventWorkReminder) events
      then (let n = or_consecutive o1 + length events
            in (n > maxConsecutiveReminders, o1\<lparr>or_consecutive := n\<rparr>))
      else (False, o1\<lparr>or_consecutive := 0\<rparr>))"

fun singleEventToMessage :: "orch_event \<Rightarrow> string" where
  "singleEventToMessage e =
     (case ev_type e of
        EventUserMessage \<Rightarrow> ev_content e
      | EventAgentCompleted \<Rightarrow> ''[SYSTEM] Code Agent '' @ ev_agent_id e @ '' completed subtask '' @
          ev_subtask_id e @ '': '' @ ev_content e
      | EventAgentFailed \<Rightarrow> ''[SYSTEM] Code Agent '' @ ev_agent_id e @ '' failed subtask '' @
          ev_subtask_id e @ '': '' @ ev_content e
      | EventWorkReminder \<Rightarrow> ''[SYSTEM] Reminder: you have active work. '' @ ev_content e
      | EventUserResponded \<Rightarrow> ''[SYSTEM] User responded to the pending question: '' @ ev_content e
      | EventOther _ \<Rightarrow> ''[SYSTEM] Unknown event: '' @ ev_content e)"

definition eventsToMessage :: "orch_event list \<Rightarrow> string" where
  "eventsToMessage events =
     (if length events = 1 then singleEventToMessage (hd events)
      else ''[SYSTEM] Multiple events:'' @ newline @ str_join newline (map singleEventToMessage events))"

definition cancelReminder :: "orch \<Rightarrow> orch" where
  "cancelReminder o1 = o1\<lparr>or_timer := None\<rparr>"

definition scheduleReminderIfNeeded :: "work_answer option \<Rightarrow> orch \<Rightarrow> orch" where
  "scheduleReminderIfNeeded checker o1 =
     (case checker of
        None \<Rightarrow> o1
      | Some a \<Rightarrow>
          if or_state o1 = StateWaitingForUser then o1
          else if \<not> wa_active a then o1
          else o1\<lparr>or_timer := Some (wa_summary a)\<rparr>)"

text \<open>The start of \<open>runTurnWithInterrupt\<close>, up to the launch of the turn.\<close>

definition start_turn :: "orch_event list \<Rightarrow> orch \<Rightarrow> orch" where
  "start_turn events o1 =
     (let o2 = (if list_ex (\<lambda>e. ev_type e = EventUserResponded) events
                then o1\<lparr>or_state := StateIdle, or_consecutive := 0\<rparr> else o1)
      in o2\<lparr>or_state := StateThinking, or_turn := Some (eventsToMessage events)\<rparr>)"

text \<open>\<open>Run\<close> from the received batch to the start of the turn; the two exits of the loop are on the way.\<close>

definition take_batch :: "orch_event list \<Rightarrow> orch \<Rightarrow> orch" where
  "take_batch events o0 =
     (let o1 = o0\<lparr>or_event_count := or_event_count o0 + length events\<rparr>
      in if or_event_count o1 > maxEventsPerSession then (cancelReminder o1)\<lparr>or_exit := Some ExitMaxEvents\<rparr>
         else case trackReminders events o1 of
             (True, o2) \<Rightarrow> (cancelReminder o2)\<lparr>or_exit := Some ExitStalled\<rparr>
           | (False, o2) \<Rightarrow>
               (let o3 = cancelReminder o2;
                    o4 = o3\<lparr>or_bus := DrainInterrupts (or_bus o3)\<rparr>
                in (start_turn events o4)\<lparr>or_batches := or_batches o4 @ [events]\<rparr>))"

definition handleTurnResult :: "work_answer option \<Rightarrow> string option \<Rightarrow> orch \<Rightarrow> orch" where
  "handleTurnResult checker err o1 =
     (case err of
        Some msg \<Rightarrow>
          if or_ctx_done o1 then o1\<lparr>or_state := StateIdle\<rparr>
          else o1\<lparr>or_state := StateIdle, or_client_errors := or_client_errors o1 @ [msg]\<rparr>
      | None \<Rightarrow>
          if (case checker of None \<Rightarrow> False | Some a \<Rightarrow> wa_waiting a)
          then o1\<lparr>or_state := StateWaitingForUser\<rparr> else o1\<lparr>or_state := StateIdle\<rparr>)"

definition turn_done :: "work_answer option \<Rightarrow> string option \<Rightarrow> orch \<Rightarrow> orch" where
  "turn_done checker err o1 =
     scheduleReminderIfNeeded checker ((handleTurnResult checker err o1)\<lparr>or_turn := None\<rparr>)"

text \<open>The other two ways a turn ends: interrupted, or its parent context is done.\<close>

definition turn_interrupted :: "work_answer option \<Rightarrow> orch \<Rightarrow> orch" where
  "turn_interrupted checker o1 =
     scheduleReminderIfNeeded checker
       (o1\<lparr>or_bus := DrainInterrupts (or_bus o1), or_state := StateIdle, or_turn := None\<rparr>)"

definition turn_cancelled :: "work_answer option \<Rightarrow> orch \<Rightarrow> orch" where
  "turn_cancelled checker o1 =
     scheduleReminderIfNeeded checker (o1\<lparr>or_state := StateIdle, or_turn := None\<rparr>)"

definition publish_event :: "orch_event \<Rightarrow> orch \<Rightarrow> orch" where
  "publish_event e o1 =
     (case Publish e (or_bus o1) of
        (None, b) \<Rightarrow> o1\<lparr>or_bus := b, or_accepted := or_accepted o1 @ [e]\<rparr>
      | (Some _, b) \<Rightarrow> o1\<lparr>or_bus := b\<rparr>)"

section \<open>The step relation\<close>

text \<open>
  \<open>publish_int\<close> is the first half of \<open>PublishInterrupt\<close>; its signal follows in a step of its own, as other
  goroutines may run between the two.
\<close>

inductive orch_step :: "orch \<Rightarrow> orch \<Rightarrow> bool" where
  publish: "orch_step s (publish_event e s)"
| publish_int: "Publish e (or_bus s) = (None, b) \<Longrightarrow>
    orch_step s ((publish_event e s)\<lparr>or_signals := Suc (or_signals s)\<rparr>)"
| signal: "or_signals s = Suc n \<Longrightarrow>
    orch_step s (s\<lparr>or_bus := signal_interrupt (or_bus s), or_signals := n\<rparr>)"
| timer: "or_timer s = Some summary \<Longrightarrow>
    orch_step s (publish_event \<lparr>ev_type = EventWorkReminder, ev_content = summary, ev_agent_id = '''',
      ev_subtask_id = ''''\<rparr> (s\<lparr>or_timer := None\<rparr>))"
| closing: "orch_step s (s\<lparr>or_bus := CloseBus (or_bus s)\<rparr>)"
| ctx: "orch_step s (s\<lparr>or_ctx_done := True\<rparr>)"
| batch: "or_exit s = None \<Longrightarrow> or_turn s = None \<Longrightarrow> recv_event (or_bus s) = Some (e, True, b) \<Longrightarrow>
    drainPendingEvents recv_event [e] b = Some (events, b') \<Longrightarrow>
    orch_step s (take_batch events (s\<lparr>or_bus := b'\<rparr>))"
| exit_closed: "or_exit s = None \<Longrightarrow> or_turn s = None \<Longrightarrow> recv_event (or_bus s) = Some (e, False, b) \<Longrightarrow>
    orch_step s ((cancelReminder s)\<lparr>or_exit := Some ExitBusClosed\<rparr>)"
| exit_ctx: "or_exit s = None \<Longrightarrow> or_turn s = None \<Longrightarrow> or_ctx_done s \<Longrightarrow>
    orch_step s ((cancelReminder s)\<lparr>or_exit := Some ExitContext\<rparr>)"
| finish: "or_turn s = Some q \<Longrightarrow> orch_step s (turn_done checker err s)"
| interrupt: "or_turn s = Some q \<Longrightarrow> eb_interrupt (or_bus s) \<Longrightarrow> orch_step s (turn_interrupted checker s)"
| cancel: "or_turn s = Some q \<Longrightarrow> or_ctx_done s \<Longrightarrow> orch_step s (turn_cancelled checker s)"

inductive_cases orch_stepE: "orch_step s s'"

section \<open>Draining\<close>

context event_queue
begin

lemma drain_open:
  "\<not> closed b \<Longrightarrow> \<exists>b'. drainPendingEvents recv acc b = Some (acc @ contents b, b') \<and> contents b' = [] \<and> \<not> closed b'"
proof (induction "contents b" arbitrary: acc b)
  case Nil
  then have "recv b = None" using recv_blocks by auto
  then show ?case using Nil by (simp add: drainPendingEvents.simps [of recv acc b])
next
  case (Cons x xs)
  then have "recv b \<noteq> None" using recv_blocks by (metis list.distinct(1))
  then obtain e ok b1 where r: "recv b = Some (e, ok, b1)" by (metis not_None_eq prod.collapse)
  from recv_value_open [OF r Cons.prems] have c: "contents b = e # contents b1" "\<not> closed b1" by auto
  then have "xs = contents b1" using Cons.hyps(2) by simp
  from Cons.hyps(1) [OF this c(2), of "acc @ [e]"] show ?case
    using r c by (simp add: drainPendingEvents.simps [of recv acc b])
qed

text \<open>On a closed queue the loop never leaves: every receive succeeds.\<close>

lemma drain_closed: "closed b \<Longrightarrow> drainPendingEvents recv acc b = None"
proof (rule ccontr)
  assume c: "closed b" and "drainPendingEvents recv acc b \<noteq> None"
  then obtain r where "drainPendingEvents recv acc b = Some r" by auto
  then have "recv = recv \<longrightarrow> \<not> closed b"
  proof (rule drainPendingEvents.raw_induct [where P = "\<lambda>rc acc b y. rc = recv \<longrightarrow> \<not> closed b", rotated])
    fix drain :: "('b \<Rightarrow> ('e \<times> bool \<times> 'b) option) \<Rightarrow> 'e list \<Rightarrow> 'b \<Rightarrow> ('e list \<times> 'b) option"
      and rc acc b y
    assume ih: "\<And>rc acc b y. drain rc acc b = Some y \<Longrightarrow> rc = recv \<longrightarrow> \<not> closed b"
      and eq: "(case rc b of None \<Rightarrow> Some (acc, b) | Some (e, ok, b') \<Rightarrow> drain rc (acc @ [e]) b') = Some y"
    show "rc = recv \<longrightarrow> \<not> closed b"
    proof (intro impI notI)
      assume rc: "rc = recv" and "closed b"
      then obtain e ok b' where "recv b = Some (e, ok, b')" "closed b'" using recv_closed_ready by blast
      with eq ih [of rc "acc @ [e]" b' y] rc show False by simp
    qed
  qed
  with c show False by simp
qed

end

section \<open>Invariants of the loop\<close>

text \<open>Events of the trailing batches that hold nothing but reminders (the newest batch first).\<close>

fun reminder_run :: "orch_event list list \<Rightarrow> nat" where
  "reminder_run [] = 0"
| "reminder_run (b # bs) =
     (if list_all (\<lambda>e. ev_type e = EventWorkReminder) b then length b + reminder_run bs else 0)"

definition no_loss :: "orch \<Rightarrow> bool" where
  "no_loss s \<longleftrightarrow>
     (or_exit s \<noteq> Some ExitMaxEvents \<and> or_exit s \<noteq> Some ExitStalled \<longrightarrow>
        concat (or_batches s) @ eb_queue (or_bus s) = or_accepted s)"

definition within_limits :: "orch \<Rightarrow> bool" where
  "within_limits s \<longleftrightarrow>
     length (concat (or_batches s)) \<le> maxEventsPerSession \<and>
     reminder_run (rev (or_batches s)) \<le> maxConsecutiveReminders \<and>
     (or_exit s = None \<longrightarrow>
        or_event_count s = length (concat (or_batches s)) \<and> or_consecutive s = reminder_run (rev (or_batches s)))"

definition reminder_idle :: "orch \<Rightarrow> bool" where
  "reminder_idle s \<longleftrightarrow>
     (or_timer s \<noteq> None \<longrightarrow> or_turn s = None \<and> or_state s = StateIdle) \<and>
     (or_turn s \<noteq> None \<longrightarrow> or_state s = StateThinking) \<and>
     (or_turn s = None \<longrightarrow> or_state s \<noteq> StateThinking)"

lemma reminder_run_le: "reminder_run bs \<le> length (concat bs)"
  by (induction bs) auto

lemma start_turn_fields [simp]:
  "or_bus (start_turn es s) = or_bus s" "or_timer (start_turn es s) = or_timer s"
  "or_event_count (start_turn es s) = or_event_count s" "or_exit (start_turn es s) = or_exit s"
  "or_batches (start_turn es s) = or_batches s" "or_accepted (start_turn es s) = or_accepted s"
  "or_state (start_turn es s) = StateThinking" "or_turn (start_turn es s) = Some (eventsToMessage es)"
  "or_consecutive (start_turn es s) =
     (if list_ex (\<lambda>e. ev_type e = EventUserResponded) es then 0 else or_consecutive s)"
  by (simp_all add: start_turn_def Let_def)

lemma schedule_fields [simp]:
  "or_bus (scheduleReminderIfNeeded c s) = or_bus s" "or_event_count (scheduleReminderIfNeeded c s) = or_event_count s"
  "or_consecutive (scheduleReminderIfNeeded c s) = or_consecutive s"
  "or_exit (scheduleReminderIfNeeded c s) = or_exit s" "or_batches (scheduleReminderIfNeeded c s) = or_batches s"
  "or_accepted (scheduleReminderIfNeeded c s) = or_accepted s" "or_state (scheduleReminderIfNeeded c s) = or_state s"
  "or_turn (scheduleReminderIfNeeded c s) = or_turn s"
  by (simp_all add: scheduleReminderIfNeeded_def split: option.splits)

lemma schedule_timer:
  "or_timer s = None \<Longrightarrow> or_timer (scheduleReminderIfNeeded c s) \<noteq> None \<Longrightarrow> or_state s \<noteq> StateWaitingForUser"
  by (auto simp: scheduleReminderIfNeeded_def split: option.splits if_splits)

lemma turn_result_fields [simp]:
  "or_bus (handleTurnResult c err s) = or_bus s" "or_event_count (handleTurnResult c err s) = or_event_count s"
  "or_consecutive (handleTurnResult c err s) = or_consecutive s" "or_exit (handleTurnResult c err s) = or_exit s"
  "or_batches (handleTurnResult c err s) = or_batches s" "or_accepted (handleTurnResult c err s) = or_accepted s"
  "or_timer (handleTurnResult c err s) = or_timer s"
  by (simp_all add: handleTurnResult_def split: option.splits)

lemma turn_result_state:
  "or_state (handleTurnResult c err s) = StateIdle \<or> or_state (handleTurnResult c err s) = StateWaitingForUser"
  by (simp add: handleTurnResult_def split: option.splits)

lemma publish_event_fields [simp]:
  "or_timer (publish_event e s) = or_timer s" "or_event_count (publish_event e s) = or_event_count s"
  "or_consecutive (publish_event e s) = or_consecutive s" "or_exit (publish_event e s) = or_exit s"
  "or_batches (publish_event e s) = or_batches s" "or_state (publish_event e s) = or_state s"
  "or_turn (publish_event e s) = or_turn s"
  by (simp_all add: publish_event_def split: prod.splits option.splits)

lemma publish_event_queue:
  "\<exists>new. eb_queue (or_bus (publish_event e s)) = eb_queue (or_bus s) @ new \<and>
     or_accepted (publish_event e s) = or_accepted s @ new"
  by (auto simp: publish_event_def Publish_def)

lemma no_loss_publish: "no_loss s \<Longrightarrow> no_loss (publish_event e s)"
  using publish_event_queue [of e s] by (auto simp: no_loss_def)

lemma no_loss_cong:
  "no_loss s \<Longrightarrow> or_exit s' = or_exit s \<Longrightarrow> or_batches s' = or_batches s \<Longrightarrow> eb_queue (or_bus s') = eb_queue (or_bus s) \<Longrightarrow>
     or_accepted s' = or_accepted s \<Longrightarrow> no_loss s'"
  by (simp add: no_loss_def)

text \<open>What a completed drain says about the bus: it was open, and everything in it was taken.\<close>

lemma drained:
  assumes "recv_event b0 = Some (e, True, b)" and "drainPendingEvents recv_event [e] b = Some (events, b')"
  shows "events = eb_queue b0 \<and> eb_queue b' = [] \<and> \<not> eb_closed b0"
proof -
  have o: "\<not> eb_closed b" using bus.drain_closed [of b "[e]"] assms(2) by auto
  have v: "eb_queue b0 = e # eb_queue b \<and> eb_closed b = eb_closed b0" by (rule bus.recv_value [OF assms(1)])
  from bus.drain_open [OF o, of "[e]"] assms(2) have "events = [e] @ eb_queue b \<and> eb_queue b' = []" by auto
  with o v show ?thesis by simp
qed

lemma take_batch_no_loss:
  assumes "no_loss s" and "or_exit s = None" and "eb_queue b' = []" and "events = eb_queue (or_bus s)"
  shows "no_loss (take_batch events (s\<lparr>or_bus := b'\<rparr>))"
  using assms
  by (auto simp: no_loss_def take_batch_def trackReminders_def cancelReminder_def DrainInterrupts_def Let_def
      split: if_splits bool.splits)

lemma not_all_reminders:
  "list_ex (\<lambda>e. ev_type e = EventUserResponded) es \<Longrightarrow> \<not> list_all (\<lambda>e. ev_type e = EventWorkReminder) es"
  by (force simp: list_ex_iff list_all_iff)

lemma take_batch_limits:
  assumes "within_limits s" and "or_exit s = None"
  shows "within_limits (take_batch events s)"
proof (cases "or_event_count s + length events > maxEventsPerSession")
  case True
  then show ?thesis using assms
    by (simp add: within_limits_def take_batch_def cancelReminder_def)
next
  case False
  show ?thesis
  proof (cases "list_all (\<lambda>e. ev_type e = EventWorkReminder) events")
    case all: True
    then have "\<not> list_ex (\<lambda>e. ev_type e = EventUserResponded) events" using not_all_reminders by blast
    with all False assms show ?thesis
      by (cases "or_consecutive s + length events > maxConsecutiveReminders")
        (simp_all add: within_limits_def take_batch_def trackReminders_def cancelReminder_def Let_def)
  next
    case some: False
    with False assms show ?thesis
      by (simp add: within_limits_def take_batch_def trackReminders_def cancelReminder_def Let_def)
  qed
qed

lemma take_batch_idle: "reminder_idle s \<Longrightarrow> or_turn s = None \<Longrightarrow> reminder_idle (take_batch events s)"
  by (auto simp: reminder_idle_def take_batch_def trackReminders_def cancelReminder_def Let_def
      split: bool.splits)

definition orch_inv :: "orch \<Rightarrow> bool" where
  "orch_inv s \<longleftrightarrow> no_loss s \<and> within_limits s \<and> reminder_idle s"

lemma limits_cong:
  "within_limits s \<Longrightarrow> or_exit s' = or_exit s \<Longrightarrow> or_batches s' = or_batches s \<Longrightarrow> or_event_count s' = or_event_count s \<Longrightarrow>
     or_consecutive s' = or_consecutive s \<Longrightarrow> within_limits s'"
  by (simp add: within_limits_def)

lemma limits_exit: "within_limits s \<Longrightarrow> within_limits ((cancelReminder s)\<lparr>or_exit := Some x\<rparr>)"
  by (simp add: within_limits_def cancelReminder_def)

lemma turn_end_idle:
  assumes "reminder_idle s" and "or_turn s = Some q" and "or_timer s' = None" and "or_turn s' = None"
    and "or_state s' = StateIdle \<or> or_state s' = StateWaitingForUser"
  shows "reminder_idle (scheduleReminderIfNeeded c s')"
  using assms(3-5) schedule_timer [OF assms(3), of c] by (auto simp: reminder_idle_def)

lemma turn_timer: "reminder_idle s \<Longrightarrow> or_turn s = Some q \<Longrightarrow> or_timer s = None"
  by (auto simp: reminder_idle_def)

lemma orch_step_inv: "orch_step s s' \<Longrightarrow> orch_inv s \<Longrightarrow> orch_inv s'"
proof (induction rule: orch_step.induct)
  case (publish s e)
  then show ?case using no_loss_publish [of s e]
    by (auto simp: orch_inv_def reminder_idle_def intro: limits_cong)
next
  case (publish_int e s b)
  have "no_loss (publish_event e s)" using publish_int no_loss_publish by (simp add: orch_inv_def)
  then have "no_loss ((publish_event e s)\<lparr>or_signals := Suc (or_signals s)\<rparr>)" by (rule no_loss_cong) simp_all
  moreover have "within_limits ((publish_event e s)\<lparr>or_signals := Suc (or_signals s)\<rparr>)"
    using publish_int by (auto simp: orch_inv_def intro: limits_cong)
  ultimately show ?case using publish_int by (simp add: orch_inv_def reminder_idle_def)
next
  case (signal s n)
  then show ?case
    by (auto simp: orch_inv_def signal_interrupt_def reminder_idle_def intro: no_loss_cong limits_cong)
next
  case (timer s summary)
  have "no_loss (s\<lparr>or_timer := None\<rparr>)" "within_limits (s\<lparr>or_timer := None\<rparr>)"
    using timer by (auto simp: orch_inv_def intro: no_loss_cong limits_cong)
  then show ?case
    using timer no_loss_publish by (auto simp: orch_inv_def reminder_idle_def intro: limits_cong)
next
  case (closing s)
  then show ?case
    by (auto simp: orch_inv_def CloseBus_def reminder_idle_def intro: no_loss_cong limits_cong)
next
  case (ctx s)
  then show ?case by (auto simp: orch_inv_def reminder_idle_def intro: no_loss_cong limits_cong)
next
  case (batch s e b events b')
  have d: "events = eb_queue (or_bus s)" "eb_queue b' = []" using drained [OF batch(3,4)] by auto
  have "no_loss (take_batch events (s\<lparr>or_bus := b'\<rparr>))"
    using batch d by (intro take_batch_no_loss) (simp_all add: orch_inv_def)
  moreover have "within_limits (take_batch events (s\<lparr>or_bus := b'\<rparr>))"
    using batch by (intro take_batch_limits) (auto simp: orch_inv_def intro: limits_cong)
  moreover have "reminder_idle (take_batch events (s\<lparr>or_bus := b'\<rparr>))"
    using batch by (intro take_batch_idle) (simp_all add: orch_inv_def reminder_idle_def)
  ultimately show ?case by (simp add: orch_inv_def)
next
  case (exit_closed s e b)
  then show ?case using limits_exit
    by (auto simp: orch_inv_def reminder_idle_def no_loss_def cancelReminder_def)
next
  case (exit_ctx s)
  then show ?case using limits_exit
    by (auto simp: orch_inv_def reminder_idle_def no_loss_def cancelReminder_def)
next
  case (finish s q checker err)
  have "reminder_idle (turn_done checker err s)"
    unfolding turn_done_def using finish turn_timer turn_result_state [of checker err s]
    by (intro turn_end_idle [of s q]) (auto simp: orch_inv_def)
  then show ?case using finish
    by (auto simp: orch_inv_def turn_done_def intro: no_loss_cong limits_cong)
next
  case (interrupt s q checker)
  have "reminder_idle (turn_interrupted checker s)"
    unfolding turn_interrupted_def using interrupt turn_timer
    by (intro turn_end_idle [of s q]) (auto simp: orch_inv_def)
  then show ?case using interrupt
    by (auto simp: orch_inv_def turn_interrupted_def DrainInterrupts_def intro: no_loss_cong limits_cong)
next
  case (cancel s q checker)
  have "reminder_idle (turn_cancelled checker s)"
    unfolding turn_cancelled_def using cancel turn_timer
    by (intro turn_end_idle [of s q]) (auto simp: orch_inv_def)
  then show ?case using cancel
    by (auto simp: orch_inv_def turn_cancelled_def intro: no_loss_cong limits_cong)
qed

lemma new_orch_inv: "orch_inv (new_orchestrator (NewSessionEventBus n))"
  by (simp add: orch_inv_def no_loss_def within_limits_def reminder_idle_def new_orchestrator_def NewSessionEventBus_def)

lemma orch_reach_inv: "orch_step\<^sup>*\<^sup>* (new_orchestrator (NewSessionEventBus n)) s \<Longrightarrow> orch_inv s"
  by (induction rule: rtranclp_induct) (auto intro: new_orch_inv orch_step_inv)

section \<open>Properties\<close>


definition msg :: "string \<Rightarrow> orch_event" where
  "msg c = \<lparr>ev_type = EventUserMessage, ev_content = c, ev_agent_id = '''', ev_subtask_id = ''''\<rparr>"

definition after_publish :: orch where
  "after_publish = (publish_event (msg ''hi'') (new_orchestrator (NewSessionEventBus 4)))\<lparr>or_signals := 1\<rparr>"

definition in_turn :: orch where
  "in_turn = take_batch [msg ''hi''] (after_publish\<lparr>or_bus := (or_bus after_publish)\<lparr>eb_queue := []\<rparr>\<rparr>)"

lemma after_publish_step: "orch_step (new_orchestrator (NewSessionEventBus 4)) after_publish"
proof -
  let ?s = "new_orchestrator (NewSessionEventBus 4)"
  have "Publish (msg ''hi'') (or_bus ?s) = (None, (or_bus ?s)\<lparr>eb_queue := [msg ''hi'']\<rparr>)"
    by (simp add: Publish_def new_orchestrator_def NewSessionEventBus_def)
  from orch_step.publish_int [OF this] show ?thesis
    by (simp add: after_publish_def new_orchestrator_def)
qed

lemma after_publish_bus:
  "or_bus after_publish = \<lparr>eb_queue = [msg ''hi''], eb_capacity = 4, eb_interrupt = False, eb_closed = False\<rparr>"
  "or_exit after_publish = None" "or_turn after_publish = None"
  by (simp_all add: after_publish_def publish_event_def Publish_def new_orchestrator_def NewSessionEventBus_def)

lemma in_turn_step: "orch_step after_publish in_turn"
proof -
  let ?b = "\<lparr>eb_queue = [], eb_capacity = 4, eb_interrupt = False, eb_closed = False\<rparr>"
  have r: "recv_event (or_bus after_publish) = Some (msg ''hi'', True, ?b)"
    by (simp add: after_publish_bus recv_event_def)
  have d: "drainPendingEvents recv_event [msg ''hi''] ?b = Some ([msg ''hi''], ?b)"
    by (simp add: drainPendingEvents.simps recv_event_def)
  from orch_step.batch [OF after_publish_bus(2,3) r d] show ?thesis
    by (simp add: in_turn_def after_publish_bus)
qed

lemma in_turn_reachable: "orch_step\<^sup>*\<^sup>* (new_orchestrator (NewSessionEventBus 4)) in_turn"
  using after_publish_step in_turn_step by (meson rtranclp.rtrancl_into_rtrancl rtranclp.rtrancl_refl)

lemma in_turn_fields:
  "or_turn in_turn = Some ''hi''" "or_exit in_turn = None" "or_batches in_turn = [[msg ''hi'']]"
  "or_accepted in_turn = [msg ''hi'']" "or_signals in_turn = 1" "eb_queue (or_bus in_turn) = []"
  by (simp_all add: in_turn_def take_batch_def trackReminders_def start_turn_def cancelReminder_def Let_def msg_def
      after_publish_def publish_event_def Publish_def new_orchestrator_def NewSessionEventBus_def
      eventsToMessage_def DrainInterrupts_def maxEventsPerSession_def)


text \<open>
  The message that a turn is working on can cancel that very turn: its signal may arrive after the turn
  has started, when nothing else was ever published.
\<close>

lemma own_signal_interrupts_turn:
  "\<exists>s. orch_step\<^sup>*\<^sup>* (new_orchestrator (NewSessionEventBus 4)) s \<and> or_accepted s = [msg ''hi''] \<and>
     or_turn s = Some ''hi'' \<and> eb_interrupt (or_bus s) \<and> orch_step s (turn_interrupted None s)"
proof -
  let ?s = "in_turn\<lparr>or_bus := signal_interrupt (or_bus in_turn), or_signals := 0\<rparr>"
  have "orch_step in_turn ?s" using orch_step.signal [of in_turn 0] by (simp add: in_turn_fields)
  then have "orch_step\<^sup>*\<^sup>* (new_orchestrator (NewSessionEventBus 4)) ?s" using in_turn_reachable by simp
  moreover have "orch_step ?s (turn_interrupted None ?s)"
    by (rule orch_step.interrupt [of _ "''hi''"]) (simp_all add: in_turn_fields signal_interrupt_def)
  ultimately show ?thesis
    by (intro exI [of _ ?s]) (simp add: in_turn_fields signal_interrupt_def)
qed

text \<open>The turns of one session get at most 200 events in total, and the turns at the end of the history
  that were caused by reminders alone at most 10, so a session without real events stops asking the model.\<close>

theorem supervisor_turns_bounded:
  assumes "orch_step\<^sup>*\<^sup>* (new_orchestrator (NewSessionEventBus n)) s"
  shows "length (concat (or_batches s)) \<le> maxEventsPerSession \<and>
    reminder_run (rev (or_batches s)) \<le> maxConsecutiveReminders"
  using orch_reach_inv [OF assms] by (simp add: orch_inv_def within_limits_def)

theorem supervisor_turns_bounded_witness:
  "length (concat (or_batches in_turn)) \<le> maxEventsPerSession \<and>
   reminder_run (rev (or_batches in_turn)) \<le> maxConsecutiveReminders"
  by (rule supervisor_turns_bounded [OF in_turn_reachable])

text \<open>A reminder timer is pending only between turns and only while the supervisor is idle: never during
  a turn and never while it waits for the user.\<close>

theorem reminders_only_when_idle:
  assumes "orch_step\<^sup>*\<^sup>* (new_orchestrator (NewSessionEventBus n)) s" and "or_timer s = Some summary"
  shows "or_turn s = None \<and> or_state s = StateIdle"
  using orch_reach_inv [OF assms(1)] assms(2) by (simp add: orch_inv_def reminder_idle_def)

definition reminded :: orch where
  "reminded = turn_done (Some \<lparr>wa_waiting = False, wa_active = True, wa_summary = ''2 open''\<rparr>) None in_turn"

theorem reminders_only_when_idle_witness:
  "or_timer reminded = Some ''2 open'' \<and> or_turn reminded = None \<and> or_state reminded = StateIdle"
proof -
  have "orch_step in_turn reminded"
    unfolding reminded_def by (rule orch_step.finish) (rule in_turn_fields)
  then have r: "orch_step\<^sup>*\<^sup>* (new_orchestrator (NewSessionEventBus 4)) reminded" using in_turn_reachable by simp
  have "or_timer reminded = Some ''2 open''"
    by (simp add: reminded_def turn_done_def scheduleReminderIfNeeded_def handleTurnResult_def)
  with reminders_only_when_idle [OF r this] show ?thesis by simp
qed

text \<open>C26: The batching loop returns exactly when the bus is open, and then with everything that was queued, in
  order, leaving the queue empty; once the bus is closed it never returns, because a closed channel keeps
  delivering zero values.\<close>

theorem drain_returns_iff_open:
  "(eb_closed b \<longrightarrow> drainPendingEvents recv_event acc b = None) \<and>
   (\<not> eb_closed b \<longrightarrow>
      (\<exists>b'. drainPendingEvents recv_event acc b = Some (acc @ eb_queue b, b') \<and> eb_queue b' = []))"
  using bus.drain_closed [of b acc] bus.drain_open [of b acc] by blast

theorem drain_returns_iff_open_witness:
  "drainPendingEvents recv_event [msg ''hi''] (CloseBus (NewSessionEventBus 4)) = None"
  using drain_returns_iff_open [of "CloseBus (NewSessionEventBus 4)" "[msg ''hi'']"] by (simp add: CloseBus_def)

end
