(* ===== verification/Agent_Run.thy ===== *)
theory Agent_Run
  imports Task_Store
begin

text \<open>
  Runs of agents: the entity (\<open>internal/domain/agent_run.go\<close>), its row
  (\<open>internal/infrastructure/persistence/models/agent_run.go\<close>) and the storage
  (\<open>internal/infrastructure/persistence/agent_run_storage.go\<close>).  GORM and the database are the parameter
  \<open>run_sql\<close>; the locale \<open>run_store\<close> holds what its calls promise when they succeed, and is interpreted on a
  table in memory.
\<close>

section \<open>The entity\<close>

datatype agent_run_status =
    AgentRunRunning | AgentRunCompleted | AgentRunFailed | AgentRunStopped | AgentRunOther string

fun agent_run_status_string :: "agent_run_status \<Rightarrow> string" where
  "agent_run_status_string AgentRunRunning = ''running''"
| "agent_run_status_string AgentRunCompleted = ''completed''"
| "agent_run_status_string AgentRunFailed = ''failed''"
| "agent_run_status_string AgentRunStopped = ''stopped''"
| "agent_run_status_string (AgentRunOther s) = s"

definition agent_run_status_of_string :: "string \<Rightarrow> agent_run_status" where
  "agent_run_status_of_string s =
     (if s = ''running'' then AgentRunRunning else if s = ''completed'' then AgentRunCompleted
      else if s = ''failed'' then AgentRunFailed else if s = ''stopped'' then AgentRunStopped
      else AgentRunOther s)"

record agent_run =
  ar_id :: string
  ar_agent_id :: string
  ar_task_id :: string
  ar_session_id :: string
  ar_status :: agent_run_status
  ar_result :: string
  ar_error :: string
  ar_started_at :: time
  ar_completed_at :: "time option"

definition run_validate :: "agent_run \<Rightarrow> go_error + unit" where
  "run_validate r =
     (if ar_id r = '''' then Inl ''id is required''
      else if ar_session_id r = '''' then Inl ''session_id is required''
      else case ar_status r of
          AgentRunOther s \<Rightarrow> Inl (''invalid agent run status: '' @ s)
        | _ \<Rightarrow> Inr ())"

definition NewAgentRun :: "time \<Rightarrow> string \<Rightarrow> string \<Rightarrow> string \<Rightarrow> go_error + agent_run" where
  "NewAgentRun now i agentID sessionID =
     (let run = \<lparr>ar_id = i, ar_agent_id = agentID, ar_task_id = '''', ar_session_id = sessionID,
                 ar_status = AgentRunRunning, ar_result = '''', ar_error = '''',
                 ar_started_at = now, ar_completed_at = None\<rparr>
      in bind_res (run_validate run) (\<lambda>_. Inr run))"

definition run_complete :: "time \<Rightarrow> string \<Rightarrow> agent_run \<Rightarrow> agent_run" where
  "run_complete now result r = r\<lparr>ar_status := AgentRunCompleted, ar_result := result, ar_completed_at := Some now\<rparr>"

definition run_fail :: "time \<Rightarrow> string \<Rightarrow> agent_run \<Rightarrow> agent_run" where
  "run_fail now reason r = r\<lparr>ar_status := AgentRunFailed, ar_error := reason, ar_completed_at := Some now\<rparr>"

definition run_stop :: "time \<Rightarrow> agent_run \<Rightarrow> agent_run" where
  "run_stop now r = r\<lparr>ar_status := AgentRunStopped, ar_completed_at := Some now\<rparr>"

definition run_is_terminal :: "agent_run \<Rightarrow> bool" where
  "run_is_terminal r \<longleftrightarrow> ar_status r = AgentRunCompleted \<or> ar_status r = AgentRunFailed \<or> ar_status r = AgentRunStopped"

lemma agent_run_status_string_of [simp]: "agent_run_status_string (agent_run_status_of_string s) = s"
  by (simp add: agent_run_status_of_string_def)

lemma agent_run_status_running [simp]:
  "agent_run_status_of_string s = AgentRunRunning \<longleftrightarrow> s = ''running''"
  by (simp add: agent_run_status_of_string_def)

lemma NewAgentRun_fields:
  "NewAgentRun now i a s = Inr r \<Longrightarrow>
     ar_id r = i \<and> ar_session_id r = s \<and> ar_status r = AgentRunRunning \<and> i \<noteq> '''' \<and> s \<noteq> ''''"
  by (auto simp: NewAgentRun_def run_validate_def Let_def split: if_splits)

lemma NewAgentRun_ok: "i \<noteq> '''' \<Longrightarrow> s \<noteq> '''' \<Longrightarrow> \<exists>r. NewAgentRun now i a s = Inr r"
  by (auto simp: NewAgentRun_def run_validate_def Let_def)

section \<open>Rows\<close>

record agent_run_model =
  am_id :: string
  am_agent_id :: string
  am_task_id :: string
  am_session_id :: string
  am_status :: string
  am_result :: string
  am_error :: string
  am_tenant_id :: string
  am_started_at :: time
  am_completed_at :: "time option"

definition agentRunToModel :: "agent_run \<Rightarrow> agent_run_model" where
  "agentRunToModel r =
     \<lparr>am_id = ar_id r, am_agent_id = ar_agent_id r, am_task_id = ar_task_id r,
      am_session_id = ar_session_id r, am_status = agent_run_status_string (ar_status r),
      am_result = ar_result r, am_error = ar_error r, am_tenant_id = '''',
      am_started_at = ar_started_at r, am_completed_at = ar_completed_at r\<rparr>"

definition modelToAgentRun :: "agent_run_model \<Rightarrow> agent_run" where
  "modelToAgentRun m =
     \<lparr>ar_id = am_id m, ar_agent_id = am_agent_id m, ar_task_id = am_task_id m,
      ar_session_id = am_session_id m, ar_status = agent_run_status_of_string (am_status m),
      ar_result = am_result m, ar_error = am_error m, ar_started_at = am_started_at m,
      ar_completed_at = am_completed_at m\<rparr>"

definition modelsToAgentRuns :: "agent_run_model list \<Rightarrow> agent_run list" where
  "modelsToAgentRuns ms = map modelToAgentRun ms"

lemma agent_run_roundtrip: "agentRunToModel (modelToAgentRun m) = m\<lparr>am_tenant_id := ''''\<rparr>"
  by (simp add: agentRunToModel_def modelToAgentRun_def)

section \<open>Storage\<close>

datatype storage_error =
    RunInsertFailed db_error | RunUpdateFailed db_error | RunNotFound string | RunGetFailed db_error
  | RunQueryFailed string db_error

datatype run_order = StartedDesc | StartedAsc

fun run_order_le :: "run_order \<Rightarrow> agent_run_model \<Rightarrow> agent_run_model \<Rightarrow> bool" where
  "run_order_le StartedDesc a b = (am_started_at b \<le> am_started_at a)"
| "run_order_le StartedAsc a b = (am_started_at a \<le> am_started_at b)"

record 'd run_sql =
  rq_create :: "agent_run_model \<Rightarrow> 'd \<Rightarrow> db_error + 'd"
  rq_updates :: "(agent_run_model \<Rightarrow> bool) \<Rightarrow> (agent_run_model \<Rightarrow> agent_run_model) \<Rightarrow> 'd \<Rightarrow> db_error + (nat \<times> 'd)"
  rq_first :: "(agent_run_model \<Rightarrow> bool) \<Rightarrow> 'd \<Rightarrow> db_error + agent_run_model"
  rq_find :: "(agent_run_model \<Rightarrow> bool) \<Rightarrow> run_order \<Rightarrow> 'd \<Rightarrow> db_error + agent_run_model list"
  rq_count :: "(agent_run_model \<Rightarrow> bool) \<Rightarrow> 'd \<Rightarrow> db_error + nat"

definition rs_Save :: "'d run_sql \<Rightarrow> agent_run \<Rightarrow> 'd \<Rightarrow> storage_error + 'd" where
  "rs_Save Q run d =
     (case rq_create Q (agentRunToModel run) d of Inl e \<Rightarrow> Inl (RunInsertFailed e) | Inr d' \<Rightarrow> Inr d')"

definition rs_Update :: "'d run_sql \<Rightarrow> agent_run \<Rightarrow> 'd \<Rightarrow> storage_error + 'd" where
  "rs_Update Q run d =
     (case rq_updates Q (\<lambda>m. am_id m = ar_id run)
             (\<lambda>m. m\<lparr>am_status := agent_run_status_string (ar_status run), am_result := ar_result run,
                   am_error := ar_error run, am_completed_at := ar_completed_at run\<rparr>) d of
        Inl e \<Rightarrow> Inl (RunUpdateFailed e)
      | Inr (n, d') \<Rightarrow> if n = 0 then Inl (RunNotFound (ar_id run)) else Inr d')"

definition rs_GetByID :: "'d run_sql \<Rightarrow> string \<Rightarrow> 'd \<Rightarrow> storage_error + agent_run option" where
  "rs_GetByID Q i d =
     (case rq_first Q (\<lambda>m. am_id m = i) d of
        Inl ErrRecordNotFound \<Rightarrow> Inr None
      | Inl e \<Rightarrow> Inl (RunGetFailed e)
      | Inr m \<Rightarrow> Inr (Some (modelToAgentRun m)))"

definition rs_GetBySessionID :: "'d run_sql \<Rightarrow> string \<Rightarrow> 'd \<Rightarrow> storage_error + agent_run list" where
  "rs_GetBySessionID Q sessionID d =
     (case rq_find Q (\<lambda>m. am_session_id m = sessionID) StartedDesc d of
        Inl e \<Rightarrow> Inl (RunQueryFailed ''query agent runs by session'' e)
      | Inr ms \<Rightarrow> Inr (modelsToAgentRuns ms))"

definition running_in :: "string \<Rightarrow> agent_run_model \<Rightarrow> bool" where
  "running_in sessionID m \<longleftrightarrow> am_session_id m = sessionID \<and> am_status m = ''running''"

definition rs_GetRunningBySession :: "'d run_sql \<Rightarrow> string \<Rightarrow> 'd \<Rightarrow> storage_error + agent_run list" where
  "rs_GetRunningBySession Q sessionID d =
     (case rq_find Q (running_in sessionID) StartedAsc d of
        Inl e \<Rightarrow> Inl (RunQueryFailed ''query running agent runs'' e)
      | Inr ms \<Rightarrow> Inr (modelsToAgentRuns ms))"

definition CountRunningBySession :: "'d run_sql \<Rightarrow> string \<Rightarrow> 'd \<Rightarrow> storage_error + nat" where
  "CountRunningBySession Q sessionID d =
     (case rq_count Q (running_in sessionID) d of
        Inl e \<Rightarrow> Inl (RunQueryFailed ''count running agent runs'' e) | Inr n \<Rightarrow> Inr n)"

definition CleanupOrphanedRuns :: "'d run_sql \<Rightarrow> time \<Rightarrow> 'd \<Rightarrow> storage_error + (nat \<times> 'd)" where
  "CleanupOrphanedRuns Q now d =
     (case rq_updates Q (\<lambda>m. am_status m = ''running'')
             (\<lambda>m. m\<lparr>am_status := ''stopped'', am_completed_at := Some now\<rparr>) d of
        Inl e \<Rightarrow> Inl (RunQueryFailed ''cleanup orphaned runs'' e) | Inr r \<Rightarrow> Inr r)"

section \<open>What the database promises\<close>

text \<open>\<open>rows d\<close> lists the rows of the table, one per primary key.\<close>

locale run_store =
  fixes Q :: "'d run_sql"
    and rows :: "'d \<Rightarrow> agent_run_model list"
  assumes keys: "distinct (map am_id (rows d))"
    and create_row: "rq_create Q m d = Inr d' \<Longrightarrow>
      am_id m \<notin> am_id ` set (rows d) \<and> (\<exists>t. rows d' = rows d @ [m\<lparr>am_tenant_id := t\<rparr>])"
    and update_rows: "rq_updates Q P f d = Inr (n, d') \<Longrightarrow> (\<And>m. am_id (f m) = am_id m) \<Longrightarrow>
      rows d' = map (\<lambda>m. if P m then f m else m) (rows d) \<and> n = length (filter P (rows d))"
    and first_found: "rq_first Q P d = Inr m \<Longrightarrow> m \<in> set (rows d) \<and> P m"
    and first_missing: "rq_first Q P d = Inl ErrRecordNotFound \<Longrightarrow> filter P (rows d) = []"
    and find_rows: "rq_find Q P ord d = Inr ms \<Longrightarrow>
      set ms = set (filter P (rows d)) \<and> distinct (map am_id ms) \<and> sorted_wrt (run_order_le ord) ms"
    and count_rows: "rq_count Q P d = Inr n \<Longrightarrow> n = length (filter P (rows d))"
begin

lemma row_unique: "m \<in> set (rows d) \<Longrightarrow> m' \<in> set (rows d) \<Longrightarrow> am_id m = am_id m' \<Longrightarrow> m = m'"
  using keys [of d] by (auto simp: distinct_map dest: inj_onD)

lemma save_rows: "rs_Save Q run d = Inr d' \<Longrightarrow>
    ar_id run \<notin> am_id ` set (rows d) \<and> (\<exists>t. rows d' = rows d @ [(agentRunToModel run)\<lparr>am_tenant_id := t\<rparr>])"
  using create_row [of "agentRunToModel run" d d']
  by (auto simp: rs_Save_def agentRunToModel_def split: sum.splits)

definition finish_row :: "agent_run \<Rightarrow> agent_run_model \<Rightarrow> agent_run_model" where
  "finish_row run m =
     (if am_id m = ar_id run
      then m\<lparr>am_status := agent_run_status_string (ar_status run), am_result := ar_result run,
             am_error := ar_error run, am_completed_at := ar_completed_at run\<rparr>
      else m)"

lemma update_run_rows: "rs_Update Q run d = Inr d' \<Longrightarrow> rows d' = map (finish_row run) (rows d)"
  unfolding rs_Update_def finish_row_def
  by (auto split: sum.splits if_splits dest!: update_rows)

lemma get_run: "rs_GetByID Q i d = Inr (Some run) \<Longrightarrow>
    \<exists>m \<in> set (rows d). am_id m = i \<and> run = modelToAgentRun m"
  by (auto simp: rs_GetByID_def split: sum.splits db_error.splits dest!: first_found)

lemma count_running: "CountRunningBySession Q sid d = Inr n \<Longrightarrow> n = length (filter (running_in sid) (rows d))"
  by (auto simp: CountRunningBySession_def split: sum.splits dest: count_rows)

lemma cleanup_none_running:
  assumes "CleanupOrphanedRuns Q now d = Inr (n, d')"
  shows "filter (\<lambda>m. am_status m = ''running'') (rows d') = []"
    and "n = length (filter (\<lambda>m. am_status m = ''running'') (rows d))"
  using assms by (auto simp: CleanupOrphanedRuns_def filter_empty_conv split: sum.splits dest!: update_rows)

end

text \<open>A storage that accepts every record with a new key, as long as the texts fit the columns.\<close>

locale reliable_run_store = run_store Q rows for Q :: "'d run_sql" and rows :: "'d \<Rightarrow> agent_run_model list" +
  fixes accepts :: "agent_run_model \<Rightarrow> bool"
  assumes create_ok: "accepts m \<Longrightarrow> am_id m \<notin> am_id ` set (rows d) \<Longrightarrow> \<exists>d'. rq_create Q m d = Inr d'"
    and create_rejected: "\<not> accepts m \<Longrightarrow> \<exists>e. rq_create Q m d = Inl e"
begin

lemma save_ok: "accepts (agentRunToModel run) \<Longrightarrow> ar_id run \<notin> am_id ` set (rows d) \<Longrightarrow> \<exists>d'. rs_Save Q run d = Inr d'"
  using create_ok [of "agentRunToModel run" d] by (auto simp: rs_Save_def agentRunToModel_def)

lemma save_rejected: "\<not> accepts (agentRunToModel run) \<Longrightarrow> \<exists>e. rs_Save Q run d = Inl e"
  using create_rejected [of "agentRunToModel run" d] by (auto simp: rs_Save_def)

lemma missing_key: "rs_GetByID Q i d = Inr None \<Longrightarrow> i \<notin> am_id ` set (rows d)"
  by (auto simp: rs_GetByID_def filter_empty_conv split: sum.splits db_error.splits dest!: first_missing)

end

section \<open>A table in memory\<close>

text \<open>
  The rows in insertion order.  The parameter says which texts the columns of type \<open>uuid\<close> accept: an
  insert with another text fails, as it does in PostgreSQL.
\<close>

fun distinct_runs :: "agent_run_model list \<Rightarrow> agent_run_model list" where
  "distinct_runs [] = []"
| "distinct_runs (m # ms) = m # filter (\<lambda>x. am_id x \<noteq> am_id m) (distinct_runs ms)"

text \<open>The default of the column \<open>tenant_id\<close>.\<close>

definition run_tenant_default :: string where
  "run_tenant_default = ''00000000-0000-0000-0000-000000000001''"

definition run_row_typed :: "(string \<Rightarrow> bool) \<Rightarrow> agent_run_model \<Rightarrow> bool" where
  "run_row_typed is_uuid m \<longleftrightarrow>
     is_uuid (am_id m) \<and> is_uuid (am_agent_id m) \<and> is_uuid (am_session_id m)"

definition mem_run_store :: "(string \<Rightarrow> bool) \<Rightarrow> agent_run_model list run_sql" where
  "mem_run_store is_uuid =
     \<lparr>rq_create = (\<lambda>m d.
        if \<not> run_row_typed is_uuid m then Inl (DbFailure ''invalid input syntax for type uuid'')
        else if am_id m \<in> set (map am_id d) then Inl (DbFailure ''duplicate key'')
        else Inr (distinct_runs d @ [m\<lparr>am_tenant_id := run_tenant_default\<rparr>])),
      rq_updates = (\<lambda>P f d.
        Inr (length (filter P (distinct_runs d)), map (\<lambda>m. if P m then f m else m) (distinct_runs d))),
      rq_first = (\<lambda>P d. case filter P (distinct_runs d) of [] \<Rightarrow> Inl ErrRecordNotFound | m # _ \<Rightarrow> Inr m),
      rq_find = (\<lambda>P ord d. Inr (sort_key (case ord of StartedDesc \<Rightarrow> (\<lambda>m. - am_started_at m)
                                             | StartedAsc \<Rightarrow> am_started_at) (filter P (distinct_runs d)))),
      rq_count = (\<lambda>P d. Inr (length (filter P (distinct_runs d))))\<rparr>"

lemma am_id_distinct_runs [simp]: "am_id ` set (distinct_runs d) = am_id ` set d"
proof (induction d)
  case Nil
  then show ?case by simp
next
  case (Cons m d)
  have "am_id ` set (distinct_runs (m # d)) = insert (am_id m) (am_id ` set (distinct_runs d))" by auto
  then show ?case using Cons.IH by simp
qed

lemma distinct_distinct_runs: "distinct (map am_id (distinct_runs d))"
  by (induction d) (auto simp: distinct_map_filter)

lemma distinct_runs_id: "distinct (map am_id d) \<Longrightarrow> distinct_runs d = d"
proof (induction d)
  case Nil
  then show ?case by simp
next
  case (Cons m d)
  then have "distinct_runs d = d" and "am_id m \<notin> am_id ` set d" by auto
  moreover from this(2) have "filter (\<lambda>x. am_id x \<noteq> am_id m) d = d"
    by (intro filter_True) (metis image_eqI)
  ultimately show ?case by simp
qed

lemma run_order_sorted:
  "sorted_wrt (run_order_le ord) (sort_key (case ord of StartedDesc \<Rightarrow> (\<lambda>m. - am_started_at m)
     | StartedAsc \<Rightarrow> am_started_at) ms)"
proof (cases ord)
  case StartedDesc
  have "sorted (map (\<lambda>m. - am_started_at m) (sort_key (\<lambda>m. - am_started_at m) ms))" by simp
  then have "sorted_wrt (\<lambda>a b. - am_started_at a \<le> - am_started_at b) (sort_key (\<lambda>m. - am_started_at m) ms)"
    by (simp add: sorted_map)
  then show ?thesis using StartedDesc
    by (auto elim: sorted_wrt_mono_rel [rotated])
next
  case StartedAsc
  have "sorted (map am_started_at (sort_key am_started_at ms))" by simp
  then have "sorted_wrt (\<lambda>a b. am_started_at a \<le> am_started_at b) (sort_key am_started_at ms)"
    by (simp add: sorted_map)
  then show ?thesis using StartedAsc
    by (auto elim: sorted_wrt_mono_rel [rotated])
qed

interpretation mem_runs: run_store "mem_run_store is_uuid" distinct_runs for is_uuid
proof
  fix d show "distinct (map am_id (distinct_runs d))" by (rule distinct_distinct_runs)
next
  fix m d d' assume "rq_create (mem_run_store is_uuid) m d = Inr d'"
  then have new: "am_id m \<notin> am_id ` set d" and d': "d' = distinct_runs d @ [m\<lparr>am_tenant_id := run_tenant_default\<rparr>]"
    by (auto simp: mem_run_store_def split: if_splits)
  have "distinct (map am_id d')" using new distinct_distinct_runs [of d] by (simp add: d')
  then have "distinct_runs d' = d'" by (rule distinct_runs_id)
  with new d' show "am_id m \<notin> am_id ` set (distinct_runs d) \<and>
      (\<exists>t. distinct_runs d' = distinct_runs d @ [m\<lparr>am_tenant_id := t\<rparr>])" by auto
next
  fix P f d n d'
  assume u: "rq_updates (mem_run_store is_uuid) P f d = Inr (n, d')" and f: "\<And>m. am_id (f m) = am_id m"
  let ?d = "map (\<lambda>m. if P m then f m else m) (distinct_runs d)"
  have "map am_id ?d = map am_id (distinct_runs d)" using f by auto
  then have "distinct (map am_id ?d)" using distinct_distinct_runs [of d] by (rule ssubst)
  then have "distinct_runs ?d = ?d" by (rule distinct_runs_id)
  with u show "distinct_runs d' = ?d \<and> n = length (filter P (distinct_runs d))"
    by (auto simp: mem_run_store_def)
next
  fix P d m assume "rq_first (mem_run_store is_uuid) P d = Inr m"
  then obtain ms where "filter P (distinct_runs d) = m # ms"
    by (auto simp: mem_run_store_def split: list.splits)
  then have "m \<in> set (filter P (distinct_runs d))" by (metis list.set_intros(1))
  then show "m \<in> set (distinct_runs d) \<and> P m" by simp
next
  fix P d assume "rq_first (mem_run_store is_uuid) P d = Inl ErrRecordNotFound"
  then show "filter P (distinct_runs d) = []" by (auto simp: mem_run_store_def split: list.splits)
next
  fix P ord d ms assume "rq_find (mem_run_store is_uuid) P ord d = Inr ms"
  then have ms: "ms = sort_key (case ord of StartedDesc \<Rightarrow> (\<lambda>m. - am_started_at m)
     | StartedAsc \<Rightarrow> am_started_at) (filter P (distinct_runs d))" by (simp add: mem_run_store_def)
  have "distinct (map am_id (filter P (distinct_runs d)))"
    by (simp add: distinct_map_filter distinct_distinct_runs)
  then have "distinct (map am_id ms)" by (simp add: ms distinct_map)
  then show "set ms = set (filter P (distinct_runs d)) \<and> distinct (map am_id ms) \<and> sorted_wrt (run_order_le ord) ms"
    using run_order_sorted [of ord "filter P (distinct_runs d)"] by (simp add: ms)
next
  fix P d n assume "rq_count (mem_run_store is_uuid) P d = Inr n"
  then show "n = length (filter P (distinct_runs d))" by (simp add: mem_run_store_def)
qed

interpretation mem_runs_ok: reliable_run_store "mem_run_store is_uuid" distinct_runs "run_row_typed is_uuid" for is_uuid
proof
  fix m d assume "run_row_typed is_uuid m" and "am_id m \<notin> am_id ` set (distinct_runs d)"
  then show "\<exists>d'. rq_create (mem_run_store is_uuid) m d = Inr d'" by (auto simp: mem_run_store_def)
next
  fix m and d :: "agent_run_model list" assume "\<not> run_row_typed is_uuid m"
  then show "\<exists>e. rq_create (mem_run_store is_uuid) m d = Inl e" by (auto simp: mem_run_store_def)
qed

end
