(* ===== verification/Interrupt_Manager.thy ===== *)
theory Interrupt_Manager
  imports Prelude
begin

text \<open>
  The interrupt contexts of blocking spawns (\<open>internal/service/agent/interrupt_manager.go\<close>).  A context is
  a number; \<open>im_causes\<close> holds the text of the error a cancelled context carries, so a context without an
  entry is still alive.  Each method runs under the mutex and is one step.

  The theory proves which waits a user message wakes, and how many of them get the role of responder.
\<close>

section \<open>State and operations\<close>

record interrupt_manager =
  im_ctx :: "string \<rightharpoonup> nat"
  im_fn :: "string \<rightharpoonup> nat"
  im_claimed :: "string \<rightharpoonup> bool"
  im_causes :: "nat \<rightharpoonup> string"
  im_next :: nat

definition NewInterruptManager :: interrupt_manager where
  "NewInterruptManager =
     \<lparr>im_ctx = Map.empty, im_fn = Map.empty, im_claimed = Map.empty, im_causes = Map.empty, im_next = 0\<rparr>"

text \<open>\<open>context.WithCancelCause\<close>: a new context and its cancel function; only the first cancel counts.\<close>

definition cancel_cause :: "nat \<Rightarrow> string \<Rightarrow> interrupt_manager \<Rightarrow> interrupt_manager" where
  "cancel_cause c cause m =
     (case im_causes m c of None \<Rightarrow> m\<lparr>im_causes := (im_causes m)(c \<mapsto> cause)\<rparr> | Some _ \<Rightarrow> m)"

definition install_ctx :: "string \<Rightarrow> interrupt_manager \<Rightarrow> interrupt_manager" where
  "install_ctx sid m =
     m\<lparr>im_ctx := (im_ctx m)(sid \<mapsto> im_next m), im_fn := (im_fn m)(sid \<mapsto> im_next m), im_next := Suc (im_next m)\<rparr>"

definition user_message_prefix :: string where
  "user_message_prefix = ''user_message:''"

definition NotifyUserMessage :: "string \<Rightarrow> string \<Rightarrow> interrupt_manager \<Rightarrow> interrupt_manager" where
  "NotifyUserMessage sid message m =
     (case im_fn m sid of
        None \<Rightarrow> m
      | Some c \<Rightarrow>
          install_ctx sid (cancel_cause c (user_message_prefix @ message)
            (m\<lparr>im_claimed := (im_claimed m)(sid \<mapsto> False)\<rparr>)))"

definition HasBlockingWait :: "string \<Rightarrow> interrupt_manager \<Rightarrow> bool" where
  "HasBlockingWait sid m \<longleftrightarrow> im_ctx m sid \<noteq> None"

definition ClaimInterruptResponder :: "string \<Rightarrow> interrupt_manager \<Rightarrow> bool \<times> interrupt_manager" where
  "ClaimInterruptResponder sid m =
     (if im_claimed m sid = Some True then (False, m)
      else (True, m\<lparr>im_claimed := (im_claimed m)(sid \<mapsto> True)\<rparr>))"

definition GetOrCreateInterruptCtx :: "string \<Rightarrow> interrupt_manager \<Rightarrow> nat \<times> interrupt_manager" where
  "GetOrCreateInterruptCtx sid m =
     (case im_ctx m sid of
        Some c \<Rightarrow> (c, m)
      | None \<Rightarrow> (im_next m, (install_ctx sid m)\<lparr>im_claimed := (im_claimed m)(sid \<mapsto> False)\<rparr>))"

definition CleanupIfNoRunning :: "string \<Rightarrow> bool \<Rightarrow> interrupt_manager \<Rightarrow> interrupt_manager" where
  "CleanupIfNoRunning sid hasRunning m =
     (if hasRunning then m
      else m\<lparr>im_ctx := map_delete sid (im_ctx m), im_fn := map_delete sid (im_fn m),
             im_claimed := map_delete sid (im_claimed m)\<rparr>)"

definition ExtractUserMessage :: "string option \<Rightarrow> string" where
  "ExtractUserMessage err =
     (case err of None \<Rightarrow> ''''
      | Some msg \<Rightarrow> if has_prefix msg user_message_prefix then trim_prefix msg user_message_prefix else msg)"

section \<open>Calls in any order\<close>

datatype interrupt_call =
    Notify string string | Claim string | Enter string | Cleanup string bool

fun call_session :: "interrupt_call \<Rightarrow> string" where
  "call_session (Notify sid _) = sid"
| "call_session (Claim sid) = sid"
| "call_session (Enter sid) = sid"
| "call_session (Cleanup sid _) = sid"

fun interrupt_step :: "interrupt_call \<Rightarrow> interrupt_manager \<Rightarrow> interrupt_manager" where
  "interrupt_step (Notify sid msg) m = NotifyUserMessage sid msg m"
| "interrupt_step (Claim sid) m = snd (ClaimInterruptResponder sid m)"
| "interrupt_step (Enter sid) m = snd (GetOrCreateInterruptCtx sid m)"
| "interrupt_step (Cleanup sid r) m = CleanupIfNoRunning sid r m"

text \<open>The answers that the claims for one session get during a sequence of calls.\<close>

fun claim_answers :: "string \<Rightarrow> interrupt_call list \<Rightarrow> interrupt_manager \<Rightarrow> bool list" where
  "claim_answers sid [] m = []"
| "claim_answers sid (c # cs) m =
     (if c = Claim sid then [fst (ClaimInterruptResponder sid m)] else []) @
     claim_answers sid cs (interrupt_step c m)"

definition im_inv :: "interrupt_manager \<Rightarrow> bool" where
  "im_inv m \<longleftrightarrow> im_ctx m = im_fn m \<and> inj_on (im_ctx m) (dom (im_ctx m)) \<and>
     (\<forall>sid c. im_ctx m sid = Some c \<longrightarrow> c < im_next m \<and> im_causes m c = None) \<and>
     (\<forall>c. im_causes m c \<noteq> None \<longrightarrow> c < im_next m)"

lemma im_inv_new: "im_inv NewInterruptManager"
  by (simp add: im_inv_def NewInterruptManager_def)

lemma im_inv_install:
  assumes "im_inv m"
  shows "im_inv (install_ctx sid m)"
proof -
  have lt: "\<And>s c. im_ctx m s = Some c \<Longrightarrow> c < im_next m" and
    fresh: "\<And>c. im_causes m c \<noteq> None \<Longrightarrow> c < im_next m"
    using assms by (auto simp: im_inv_def)
  then have new: "im_causes m (im_next m) = None" by (metis less_irrefl)
  have "inj_on ((im_ctx m)(sid \<mapsto> im_next m)) (dom ((im_ctx m)(sid \<mapsto> im_next m)))"
    using assms lt by (fastforce simp: im_inv_def inj_on_def)
  then show ?thesis
    using assms new lt fresh by (auto simp: im_inv_def install_ctx_def less_Suc_eq)
qed

lemma im_inv_claimed [simp]: "im_inv (m\<lparr>im_claimed := x\<rparr>) = im_inv m"
  by (simp add: im_inv_def)

text \<open>Cancelling the context of a session leaves it stale; installing a new one restores the invariant.\<close>

lemma im_inv_notify:
  assumes "im_inv m"
  shows "im_inv (NotifyUserMessage sid msg m)"
proof (cases "im_fn m sid")
  case None
  then show ?thesis using assms by (simp add: NotifyUserMessage_def)
next
  case (Some c)
  let ?m = "install_ctx sid m"
  have inv: "im_inv ?m" by (rule im_inv_install [OF assms])
  have c: "im_causes m c = None" "c < im_next m" and ctx: "im_ctx m sid = Some c"
    using assms Some by (auto simp: im_inv_def)
  have other: "im_ctx ?m s \<noteq> Some c" for s
  proof (cases "s = sid")
    case True
    then show ?thesis using c by (simp add: install_ctx_def)
  next
    case False
    have "im_ctx m s \<noteq> Some c"
    proof
      assume "im_ctx m s = Some c"
      with ctx assms have "s = sid" by (intro inj_onD [of "im_ctx m" "dom (im_ctx m)"]) (auto simp: im_inv_def)
      with False show "False" by simp
    qed
    then show ?thesis using False by (simp add: install_ctx_def)
  qed
  have eq: "NotifyUserMessage sid msg m =
      ?m\<lparr>im_claimed := (im_claimed m)(sid \<mapsto> False),
         im_causes := (im_causes m)(c \<mapsto> user_message_prefix @ msg)\<rparr>"
    using Some c by (simp add: NotifyUserMessage_def cancel_cause_def install_ctx_def)
  have "im_causes ?m = im_causes m" and "im_next m < im_next ?m" by (simp_all add: install_ctx_def)
  then show ?thesis using inv other c unfolding eq by (auto simp: im_inv_def)
qed

lemma im_inv_step: "im_inv m \<Longrightarrow> im_inv (interrupt_step c m)"
proof (cases c)
  case (Notify sid msg)
  then show "im_inv m \<Longrightarrow> ?thesis" by (simp add: im_inv_notify)
next
  case (Claim sid)
  then show "im_inv m \<Longrightarrow> ?thesis" by (simp add: ClaimInterruptResponder_def)
next
  case (Enter sid)
  then show "im_inv m \<Longrightarrow> ?thesis"
    by (simp add: GetOrCreateInterruptCtx_def im_inv_install split: option.splits)
next
  case (Cleanup sid r)
  then show "im_inv m \<Longrightarrow> ?thesis"
    by (auto simp: CleanupIfNoRunning_def im_inv_def inj_on_def dom_def)
qed

lemma im_inv_run: "im_inv m \<Longrightarrow> im_inv (fold interrupt_step cs m)"
  by (induction cs arbitrary: m) (auto simp: im_inv_step)

section \<open>Who gets the role\<close>

text \<open>The calls that give the role of a session back.\<close>

definition releases :: "string \<Rightarrow> interrupt_call \<Rightarrow> bool" where
  "releases sid c \<longleftrightarrow> (\<exists>msg. c = Notify sid msg) \<or> c = Cleanup sid False"

lemma taken_stays:
  assumes "\<not> releases sid c" and "im_claimed m sid = Some True" and "im_ctx m sid \<noteq> None"
  shows "im_claimed (interrupt_step c m) sid = Some True \<and> im_ctx (interrupt_step c m) sid \<noteq> None"
  using assms
  by (cases c)
    (auto simp: releases_def NotifyUserMessage_def install_ctx_def cancel_cause_def
      ClaimInterruptResponder_def GetOrCreateInterruptCtx_def CleanupIfNoRunning_def split: option.splits)

lemma waiting_stays:
  assumes "\<not> releases sid c" and "im_ctx m sid \<noteq> None"
  shows "im_ctx (interrupt_step c m) sid \<noteq> None"
  using assms
  by (cases c)
    (auto simp: releases_def NotifyUserMessage_def install_ctx_def cancel_cause_def
      ClaimInterruptResponder_def GetOrCreateInterruptCtx_def CleanupIfNoRunning_def split: option.splits)

lemma claims_after_taken:
  "\<lbrakk>im_claimed m sid = Some True; im_ctx m sid \<noteq> None; list_all (\<lambda>c. \<not> releases sid c) cs\<rbrakk> \<Longrightarrow>
     set (claim_answers sid cs m) \<subseteq> {False}"
proof (induction cs arbitrary: m)
  case Nil
  then show ?case by simp
next
  case (Cons c cs)
  then have "im_claimed (interrupt_step c m) sid = Some True" "im_ctx (interrupt_step c m) sid \<noteq> None"
    using taken_stays [of sid c m] by auto
  from Cons.IH [OF this] Cons.prems show ?case by (auto simp: ClaimInterruptResponder_def)
qed

lemma other_call_claims:
  assumes "\<not> releases sid c" and "c \<noteq> Claim sid" and "im_ctx m sid \<noteq> None"
  shows "im_claimed (interrupt_step c m) sid = im_claimed m sid"
  using assms
  by (cases c)
    (auto simp: releases_def NotifyUserMessage_def install_ctx_def cancel_cause_def
      ClaimInterruptResponder_def GetOrCreateInterruptCtx_def CleanupIfNoRunning_def split: option.splits)

lemma claims_first_wins:
  "\<lbrakk>im_claimed m sid = Some False; im_ctx m sid \<noteq> None; list_all (\<lambda>c. \<not> releases sid c) cs\<rbrakk> \<Longrightarrow>
     \<exists>n. claim_answers sid cs m = [] \<or> claim_answers sid cs m = True # replicate n False"
proof (induction cs arbitrary: m)
  case Nil
  then show ?case by simp
next
  case (Cons c cs)
  then have live: "im_ctx (interrupt_step c m) sid \<noteq> None" and rest: "list_all (\<lambda>c. \<not> releases sid c) cs"
    using waiting_stays [of sid c m] by auto
  show ?case
  proof (cases "c = Claim sid")
    case True
    with Cons.prems have "im_claimed (interrupt_step c m) sid = Some True"
      by (simp add: ClaimInterruptResponder_def)
    from claims_after_taken [OF this live rest]
    have "claim_answers sid cs (interrupt_step c m) =
        replicate (length (claim_answers sid cs (interrupt_step c m))) False"
      by (metis replicate_length_same singletonD subsetD)
    moreover have "claim_answers sid (c # cs) m = True # claim_answers sid cs (interrupt_step c m)"
      using True Cons.prems by (simp add: ClaimInterruptResponder_def)
    ultimately show ?thesis by metis
  next
    case False
    with Cons.prems have "im_claimed (interrupt_step c m) sid = Some False"
      using other_call_claims [of sid c m] by simp
    from Cons.IH [OF this live rest] False show ?thesis by simp
  qed
qed

section \<open>Properties\<close>

text \<open>a user message wakes exactly the waits of its session that have entered before it, with the
  message as it was sent: the context they hold is cancelled with it, no other context of the manager is
  touched, and a wait that enters afterwards gets a context that is still alive.  Until the next message
  or the clean-up of the session, whatever is called in between and however many waits were woken,
  the first one to ask becomes the responder and all others are refused.\<close>

theorem one_responder_per_message:
  assumes "m = fold interrupt_step before NewInterruptManager"
    and "im_ctx m sid = Some c"
    and "list_all (\<lambda>x. \<not> releases sid x) later"
  shows "let m' = NotifyUserMessage sid msg m in
    im_causes m c = None \<and> ExtractUserMessage (im_causes m' c) = msg \<and>
    (\<forall>d. d \<noteq> c \<longrightarrow> im_causes m' d = im_causes m d) \<and>
    im_causes m' (fst (GetOrCreateInterruptCtx sid m')) = None \<and>
    (\<exists>n. claim_answers sid later m' = [] \<or> claim_answers sid later m' = True # replicate n False)"
proof -
  define m' where "m' = NotifyUserMessage sid msg m"
  have inv: "im_inv m" unfolding assms(1) by (rule im_inv_run [OF im_inv_new])
  then have fn: "im_fn m sid = Some c" and alive: "im_causes m c = None" and lt: "c < im_next m"
    using assms(2) by (auto simp: im_inv_def)
  have m': "m' = install_ctx sid (m\<lparr>im_claimed := (im_claimed m)(sid \<mapsto> False),
      im_causes := (im_causes m)(c \<mapsto> user_message_prefix @ msg)\<rparr>)"
    unfolding m'_def using fn alive by (simp add: NotifyUserMessage_def cancel_cause_def)
  have inv': "im_inv m'" unfolding m'_def by (rule im_inv_notify [OF inv])
  have ctx': "im_ctx m' sid = Some (im_next m)" by (simp add: m' install_ctx_def)
  then have "im_causes m' (fst (GetOrCreateInterruptCtx sid m')) = None"
    using inv' by (auto simp: im_inv_def GetOrCreateInterruptCtx_def)
  moreover have "im_claimed m' sid = Some False" by (simp add: m' install_ctx_def)
  then have "\<exists>n. claim_answers sid later m' = [] \<or> claim_answers sid later m' = True # replicate n False"
    using claims_first_wins [of m' sid later] ctx' assms(3) by simp
  ultimately show ?thesis
    unfolding Let_def m'_def [symmetric] using alive by (simp add: m' install_ctx_def ExtractUserMessage_def)
qed

theorem one_responder_per_message_witness:
  "ExtractUserMessage (im_causes (NotifyUserMessage ''s'' ''stop''
      (fold interrupt_step [Enter ''s'', Enter ''t'', Enter ''s''] NewInterruptManager)) 0) = ''stop'' \<and>
   claim_answers ''s'' [Claim ''s'', Claim ''t'', Claim ''s'']
     (NotifyUserMessage ''s'' ''stop'' (fold interrupt_step [Enter ''s'', Enter ''t'', Enter ''s''] NewInterruptManager)) =
     [True, False]"
proof -
  let ?m = "fold interrupt_step [Enter ''s'', Enter ''t'', Enter ''s''] NewInterruptManager"
  have c: "im_ctx ?m ''s'' = Some 0"
    by (simp add: NewInterruptManager_def GetOrCreateInterruptCtx_def install_ctx_def)
  have "claim_answers ''s'' [Claim ''s'', Claim ''t'', Claim ''s''] (NotifyUserMessage ''s'' ''stop'' ?m) = [True, False]"
    by (simp add: NewInterruptManager_def GetOrCreateInterruptCtx_def install_ctx_def
        NotifyUserMessage_def cancel_cause_def ClaimInterruptResponder_def)
  with one_responder_per_message [of ?m "[Enter ''s'', Enter ''t'', Enter ''s'']" "''s''" 0
      "[Claim ''s'', Claim ''t'', Claim ''s'']" "''stop''", OF refl c]
  show ?thesis by (simp add: releases_def Let_def)
qed

text \<open>
  The guarantee ends with the next message: waits woken by the first message that have not asked yet
  compete with those of the second one, so a single message can get two responders.
\<close>

lemma second_message_second_responder:
  "claim_answers ''s'' [Claim ''s'', Notify ''s'' ''more'', Claim ''s'']
     (fold interrupt_step [Enter ''s'', Enter ''s'', Notify ''s'' ''stop''] NewInterruptManager) = [True, True]"
  by (simp add: NewInterruptManager_def GetOrCreateInterruptCtx_def install_ctx_def
      NotifyUserMessage_def cancel_cause_def ClaimInterruptResponder_def)

end
