(* ===== verification/Agent_Pool.thy ===== *)
theory Agent_Pool
  imports Agent_Run Interrupt_Manager Event_Bus Manage_Tasks_Tool
begin

text \<open>
  The pool of code agents (\<open>internal/service/agent/agent_pool.go\<close>, \<open>agent_events.go\<close>,
  \<open>agent_pool_adapter.go\<close>): the registry of running agents under one mutex, their completion channels, the
  run records in the database, and the goroutine of every agent that settles it when its engine returns.

  A \<open>*RunningAgent\<close> is an object: \<open>ap_objs\<close> holds all objects by agent identifier, \<open>ap_agents\<close> the keys that
  are in the map, because a goroutine keeps its pointer after the entry is deleted.  Go's maps have no
  order; the model lists them in order of registration.  Critical sections are single steps.  What happens
  between them interleaves, and so the function that settles an agent is also given as its five steps.

  The task manager, the run storage and the uuid package are parameters; the engine is the environment: it
  decides when an agent returns, and with what.
\<close>

section \<open>Agents\<close>

record running_agent =
  ra_id :: string
  ra_subtask_id :: string
  ra_subtask_title :: string
  ra_session_id :: string
  ra_project_key :: string
  ra_status :: string
  ra_result :: string
  ra_error :: string
  ra_started_at :: time
  ra_ctx :: nat
  ra_cancelled :: bool
  ra_completion :: "bool option"
  ra_blocking_spawn :: bool
  ra_agent_type :: string
  ra_description :: string

record agent_snapshot =
  sn_id :: string
  sn_subtask_id :: string
  sn_subtask_title :: string
  sn_session_id :: string
  sn_project_key :: string
  sn_status :: string
  sn_result :: string
  sn_error :: string
  sn_started_at :: time
  sn_blocking_spawn :: bool

record completion_info =
  ci_agent_id :: string
  ci_subtask_id :: string
  ci_status :: string
  ci_result :: string
  ci_error :: string

definition snapshot :: "running_agent \<Rightarrow> agent_snapshot" where
  "snapshot a =
     \<lparr>sn_id = ra_id a, sn_subtask_id = ra_subtask_id a, sn_subtask_title = ra_subtask_title a,
      sn_session_id = ra_session_id a, sn_project_key = ra_project_key a, sn_status = ra_status a,
      sn_result = ra_result a, sn_error = ra_error a, sn_started_at = ra_started_at a,
      sn_blocking_spawn = ra_blocking_spawn a\<rparr>"

definition toCompletionInfo :: "agent_snapshot \<Rightarrow> completion_info" where
  "toCompletionInfo s =
     \<lparr>ci_agent_id = sn_id s, ci_subtask_id = sn_subtask_id s, ci_status = sn_status s,
      ci_result = sn_result s, ci_error = sn_error s\<rparr>"

text \<open>The channel: \<open>None\<close> is nil, otherwise whether it is closed.\<close>

definition signalCompletion :: "running_agent \<Rightarrow> running_agent" where
  "signalCompletion a = (case ra_completion a of None \<Rightarrow> a | Some _ \<Rightarrow> a\<lparr>ra_completion := Some True\<rparr>)"

definition signalled :: "running_agent \<Rightarrow> bool" where
  "signalled a \<longleftrightarrow> ra_completion a = Some True"

section \<open>What the pool depends on\<close>

record ('db, 'e) subtask_manager =
  sm_AssignTaskToAgent :: "string \<Rightarrow> uuid \<Rightarrow> string \<Rightarrow> 'db \<Rightarrow> 'e + 'db"
  sm_CompleteTask :: "string \<Rightarrow> uuid \<Rightarrow> string \<Rightarrow> 'db \<Rightarrow> 'e + 'db"
  sm_FailTask :: "string \<Rightarrow> uuid \<Rightarrow> string \<Rightarrow> 'db \<Rightarrow> 'e + 'db"
  sm_GetTask :: "string \<Rightarrow> uuid \<Rightarrow> 'db \<Rightarrow> 'e + engine_task option"

record ('db, 'e, 'd) pool_env =
  pe_tasks :: "('db, 'e) subtask_manager"
  pe_runs :: "'d run_sql option"
  pe_uuid :: uuid_lib

datatype 'e pool_error =
    InvalidSubtaskID string string | PoolGetTask 'e | PoolTaskNotFound string | PoolAssign 'e
  | PoolCountRunning storage_error | MaxConcurrentReached nat int | PoolCreateRun go_error
  | AgentNotFound string | AgentNotRunning string string | AgentStillRunning string
  | RestartGetTask 'e | RestartTaskNotFound string

datatype pool_event_type = EventTypeAgentSpawned | EventTypeAgentCompleted | EventTypeAgentFailed

record pool_event =
  pv_type :: pool_event_type
  pv_session :: string
  pv_agent_id :: string
  pv_content :: string
  pv_subtask :: "(string \<times> string) option"

datatype outcome = Succeeded string | Errored string

datatype run_job = JobStop string | JobComplete string string | JobFail string string

record ('db, 'd) agent_pool =
  ap_objs :: "string \<rightharpoonup> running_agent"
  ap_agents :: "string list"
  ap_max :: int
  ap_session_ctxs :: "string \<rightharpoonup> nat"
  ap_ctx_done :: "nat list"
  ap_next_ctx :: nat
  ap_callbacks :: "string list"
  ap_emitted :: "(pool_event \<times> bool) list"
  ap_bus :: "event_bus option"
  ap_interrupt :: interrupt_manager
  ap_jobs :: "run_job list"
  ap_db :: 'db
  ap_runs :: 'd

definition NewAgentPool :: "int \<Rightarrow> 'db \<Rightarrow> 'd \<Rightarrow> ('db, 'd) agent_pool" where
  "NewAgentPool maxConcurrent db d =
     \<lparr>ap_objs = Map.empty, ap_agents = [], ap_max = maxConcurrent, ap_session_ctxs = Map.empty,
      ap_ctx_done = [], ap_next_ctx = 0, ap_callbacks = [], ap_emitted = [], ap_bus = None,
      ap_interrupt = NewInterruptManager, ap_jobs = [], ap_db = db, ap_runs = d\<rparr>"

definition pool_lookup :: "('db, 'd) agent_pool \<Rightarrow> string \<Rightarrow> running_agent option" where
  "pool_lookup p aid = (if aid \<in> set (ap_agents p) then ap_objs p aid else None)"

definition set_obj :: "string \<Rightarrow> running_agent \<Rightarrow> ('db, 'd) agent_pool \<Rightarrow> ('db, 'd) agent_pool" where
  "set_obj aid a p = p\<lparr>ap_objs := (ap_objs p)(aid \<mapsto> a)\<rparr>"

definition put_agent :: "string \<Rightarrow> running_agent \<Rightarrow> ('db, 'd) agent_pool \<Rightarrow> ('db, 'd) agent_pool" where
  "put_agent aid a p =
     (set_obj aid a p)\<lparr>ap_agents := (if aid \<in> set (ap_agents p) then ap_agents p else ap_agents p @ [aid])\<rparr>"

text \<open>The entries of the map.\<close>

definition pool_agents :: "('db, 'd) agent_pool \<Rightarrow> running_agent list" where
  "pool_agents p = List.map_filter (ap_objs p) (ap_agents p)"

section \<open>Starting agents\<close>

definition getOrCreateSessionCtx :: "string \<Rightarrow> ('db, 'd) agent_pool \<Rightarrow> nat \<times> ('db, 'd) agent_pool" where
  "getOrCreateSessionCtx sid p =
     (case ap_session_ctxs p sid of
        Some c \<Rightarrow> (c, p)
      | None \<Rightarrow> (ap_next_ctx p, p\<lparr>ap_session_ctxs := (ap_session_ctxs p)(sid \<mapsto> ap_next_ctx p),
                                   ap_next_ctx := Suc (ap_next_ctx p)\<rparr>))"

definition check_limit ::
    "('db, 'e, 'd) pool_env \<Rightarrow> string \<Rightarrow> ('db, 'd) agent_pool \<Rightarrow> 'e pool_error option" where
  "check_limit E sid p =
     (if ap_max p > 0
      then case pe_runs E of
          None \<Rightarrow> None
        | Some Q \<Rightarrow>
            (case CountRunningBySession Q sid (ap_runs p) of
               Inl e \<Rightarrow> Some (PoolCountRunning e)
             | Inr count \<Rightarrow>
                 if int count \<ge> ap_max p then Some (MaxConcurrentReached count (ap_max p)) else None)
      else None)"

definition registerAgent ::
    "('db, 'e, 'd) pool_env \<Rightarrow> time \<Rightarrow> string \<Rightarrow> string \<Rightarrow> running_agent \<Rightarrow> ('db, 'd) agent_pool \<Rightarrow>
     'e pool_error option \<times> ('db, 'd) agent_pool" where
  "registerAgent E now sid aid running p =
     (case check_limit E sid p of
        Some e \<Rightarrow> (Some e, p)
      | None \<Rightarrow>
          (let p1 = put_agent aid running p
           in case pe_runs E of
               None \<Rightarrow> (None, p1)
             | Some Q \<Rightarrow>
                 (case NewAgentRun now aid (ra_agent_type running) sid of
                    Inl e \<Rightarrow> (Some (PoolCreateRun e), p1)
                  | Inr run \<Rightarrow>
                      (case rs_Save Q run (ap_runs p1) of
                         Inl _ \<Rightarrow> (None, p1)
                       | Inr d \<Rightarrow> (None, p1\<lparr>ap_runs := d\<rparr>)))))"

definition emitEventForSession :: "pool_event \<Rightarrow> ('db, 'd) agent_pool \<Rightarrow> ('db, 'd) agent_pool" where
  "emitEventForSession ev p =
     p\<lparr>ap_emitted := ap_emitted p @ [(ev, pv_session ev \<in> set (ap_callbacks p))]\<rparr>"

definition buildCodeAgentInput :: "engine_task \<Rightarrow> string" where
  "buildCodeAgentInput subtask =
     ''Subtask: '' @ et_title subtask @ newline @ newline @ ''Description: '' @ et_description subtask @
     (if et_acceptance_criteria subtask \<noteq> []
      then newline @ newline @ ''Acceptance criteria:'' @
        concat (map (\<lambda>c. newline @ ''- '' @ c) (et_acceptance_criteria subtask))
      else '''')"

definition new_running ::
    "string \<Rightarrow> string \<Rightarrow> string \<Rightarrow> string \<Rightarrow> string \<Rightarrow> time \<Rightarrow> nat \<Rightarrow> bool \<Rightarrow> string \<Rightarrow> string \<Rightarrow> running_agent" where
  "new_running agentID subtaskID title sid projectKey now c blocking agentType description =
     \<lparr>ra_id = agentID, ra_subtask_id = subtaskID, ra_subtask_title = title, ra_session_id = sid,
      ra_project_key = projectKey, ra_status = ''running'', ra_result = '''', ra_error = '''',
      ra_started_at = now, ra_ctx = c, ra_cancelled = False, ra_completion = Some False,
      ra_blocking_spawn = blocking, ra_agent_type = agentType, ra_description = description\<rparr>"

text \<open>
  \<open>new\<close> is the first eight digits of a new uuid, \<open>now\<close> the clock.  The result is the agent's identifier;
  the goroutine it starts is part of the step relation below.
\<close>

definition Spawn ::
    "('db, 'e, 'd) pool_env \<Rightarrow> time \<Rightarrow> string \<Rightarrow> string \<Rightarrow> string \<Rightarrow> string \<Rightarrow> string \<Rightarrow> bool \<Rightarrow>
     ('db, 'd) agent_pool \<Rightarrow> ('e pool_error + string) \<times> ('db, 'd) agent_pool" where
  "Spawn E now new ctx sid projectKey subtaskID blocking p =
     (let agentID = ''code-agent-'' @ new
      in case uuid_parse (pe_uuid E) subtaskID of
          Inl e \<Rightarrow> (Inl (InvalidSubtaskID subtaskID e), p)
        | Inr i \<Rightarrow>
            (case sm_GetTask (pe_tasks E) ctx i (ap_db p) of
               Inl e \<Rightarrow> (Inl (PoolGetTask e), p)
             | Inr None \<Rightarrow> (Inl (PoolTaskNotFound subtaskID), p)
             | Inr (Some subtask) \<Rightarrow>
                 (case sm_AssignTaskToAgent (pe_tasks E) ctx i agentID (ap_db p) of
                    Inl e \<Rightarrow> (Inl (PoolAssign e), p)
                  | Inr db \<Rightarrow>
                      (let (c, p1) = getOrCreateSessionCtx sid (p\<lparr>ap_db := db\<rparr>);
                           running = new_running agentID subtaskID (et_title subtask) sid projectKey now c blocking
                             ''coder'' ''''
                       in case registerAgent E now sid agentID running p1 of
                           (Some e, p2) \<Rightarrow> (Inl e, p2)
                         | (None, p2) \<Rightarrow>
                             (Inr agentID,
                              emitEventForSession
                                \<lparr>pv_type = EventTypeAgentSpawned, pv_session = sid, pv_agent_id = agentID,
                                 pv_content = buildCodeAgentInput subtask,
                                 pv_subtask = Some (subtaskID, et_title subtask)\<rparr> p2)))))"

definition firstLine :: "string \<Rightarrow> nat \<Rightarrow> string" where
  "firstLine text maxLen =
     (let line = takeWhile (\<lambda>c. c \<noteq> CHR 0x0A) text
      in if length (runes line) > maxLen then concat (take maxLen (runes line)) @ ''...'' else line)"

definition SpawnWithDescription ::
    "('db, 'e, 'd) pool_env \<Rightarrow> time \<Rightarrow> string \<Rightarrow> string \<Rightarrow> string \<Rightarrow>
     string \<Rightarrow> string \<Rightarrow> bool \<Rightarrow> ('db, 'd) agent_pool \<Rightarrow>
     ('e pool_error + string) \<times> ('db, 'd) agent_pool" where
  "SpawnWithDescription E now new sid projectKey agentType description blocking p =
     (let agentID = agentType @ ''-'' @ new;
          (c, p1) = getOrCreateSessionCtx sid p;
          running = new_running agentID '''' (firstLine description 50) sid projectKey now c blocking
            agentType description
      in case registerAgent E now sid agentID running p1 of
          (Some e, p2) \<Rightarrow> (Inl e, p2)
        | (None, p2) \<Rightarrow>
            (Inr agentID,
             emitEventForSession
               \<lparr>pv_type = EventTypeAgentSpawned, pv_session = sid, pv_agent_id = agentID,
                pv_content = description, pv_subtask = None\<rparr> p2))"

section \<open>Reading, stopping, restarting\<close>

definition GetStatus :: "string \<Rightarrow> ('db, 'd) agent_pool \<Rightarrow> agent_snapshot option" where
  "GetStatus aid p = map_option snapshot (pool_lookup p aid)"

definition GetAllAgents :: "('db, 'd) agent_pool \<Rightarrow> agent_snapshot list" where
  "GetAllAgents p = map snapshot (pool_agents p)"

definition stop_agent :: "running_agent \<Rightarrow> running_agent" where
  "stop_agent a = (signalCompletion (a\<lparr>ra_status := ''stopped''\<rparr>))\<lparr>ra_cancelled := True\<rparr>"

definition add_job :: "('db, 'e, 'd) pool_env \<Rightarrow> run_job \<Rightarrow> ('db, 'd) agent_pool \<Rightarrow> ('db, 'd) agent_pool" where
  "add_job E j p = (case pe_runs E of None \<Rightarrow> p | Some _ \<Rightarrow> p\<lparr>ap_jobs := ap_jobs p @ [j]\<rparr>)"

definition StopAgent ::
    "('db, 'e, 'd) pool_env \<Rightarrow> string \<Rightarrow> ('db, 'd) agent_pool \<Rightarrow> 'e pool_error option \<times> ('db, 'd) agent_pool" where
  "StopAgent E aid p =
     (case pool_lookup p aid of
        None \<Rightarrow> (Some (AgentNotFound aid), p)
      | Some a \<Rightarrow>
          if ra_status a \<noteq> ''running'' then (Some (AgentNotRunning aid (ra_status a)), p)
          else (None, add_job E (JobStop aid) (set_obj aid (stop_agent a) p)))"

definition CancelRunningAgents :: "string \<Rightarrow> ('db, 'd) agent_pool \<Rightarrow> ('db, 'd) agent_pool" where
  "CancelRunningAgents sid p =
     p\<lparr>ap_objs := (\<lambda>aid. map_option (\<lambda>a.
          if aid \<in> set (ap_agents p) \<and> ra_session_id a = sid \<and> ra_status a = ''running''
          then stop_agent a else a) (ap_objs p aid))\<rparr>"

definition in_session :: "string \<Rightarrow> ('db, 'd) agent_pool \<Rightarrow> string \<Rightarrow> bool" where
  "in_session sid p aid \<longleftrightarrow> (case ap_objs p aid of None \<Rightarrow> False | Some a \<Rightarrow> ra_session_id a = sid)"

definition RemoveSession :: "string \<Rightarrow> ('db, 'd) agent_pool \<Rightarrow> ('db, 'd) agent_pool" where
  "RemoveSession sid p =
     (let p1 = p\<lparr>ap_callbacks := filter (\<lambda>s. s \<noteq> sid) (ap_callbacks p)\<rparr>;
          p2 = (case ap_session_ctxs p1 sid of
                  None \<Rightarrow> p1
                | Some c \<Rightarrow> p1\<lparr>ap_ctx_done := c # ap_ctx_done p1,
                               ap_session_ctxs := map_delete sid (ap_session_ctxs p1)\<rparr>)
      in p2\<lparr>ap_objs := (\<lambda>aid. map_option (\<lambda>a.
              if aid \<in> set (ap_agents p2) \<and> ra_session_id a = sid \<and> ra_status a = ''running''
              then (signalCompletion a)\<lparr>ra_cancelled := True\<rparr> else a) (ap_objs p2 aid)),
            ap_agents := filter (\<lambda>aid. \<not> in_session sid p2 aid) (ap_agents p2)\<rparr>)"

definition RestartAgent ::
    "('db, 'e, 'd) pool_env \<Rightarrow> time \<Rightarrow> string \<Rightarrow> string \<Rightarrow> string \<Rightarrow> bool \<Rightarrow>
     ('db, 'd) agent_pool \<Rightarrow> ('e pool_error + string) \<times> ('db, 'd) agent_pool" where
  "RestartAgent E now new ctx aid blocking p =
     (case pool_lookup p aid of
        None \<Rightarrow> (Inl (AgentNotFound aid), p)
      | Some a \<Rightarrow>
          if ra_status a = ''running'' then (Inl (AgentStillRunning aid), p)
          else if ra_subtask_id a = ''''
          then SpawnWithDescription E now new (ra_session_id a) '''' (ra_agent_type a)
                 (ra_description a) blocking p
          else case uuid_parse (pe_uuid E) (ra_subtask_id a) of
              Inl e \<Rightarrow> (Inl (InvalidSubtaskID (ra_subtask_id a) e), p)
            | Inr i \<Rightarrow>
                (case sm_GetTask (pe_tasks E) ctx i (ap_db p) of
                   Inl e \<Rightarrow> (Inl (RestartGetTask e), p)
                 | Inr None \<Rightarrow> (Inl (RestartTaskNotFound (ra_subtask_id a)), p)
                 | Inr (Some _) \<Rightarrow>
                     Spawn E now new ctx (ra_session_id a) (ra_project_key a) (ra_subtask_id a) blocking p))"

definition SetEventCallbackForSession :: "string \<Rightarrow> ('db, 'd) agent_pool \<Rightarrow> ('db, 'd) agent_pool" where
  "SetEventCallbackForSession sid p = p\<lparr>ap_callbacks := sid # ap_callbacks p\<rparr>"

definition SetMaxConcurrent :: "int \<Rightarrow> ('db, 'd) agent_pool \<Rightarrow> ('db, 'd) agent_pool" where
  "SetMaxConcurrent n p = p\<lparr>ap_max := n\<rparr>"

definition SetEventBus :: "event_bus \<Rightarrow> ('db, 'd) agent_pool \<Rightarrow> ('db, 'd) agent_pool" where
  "SetEventBus bus p = p\<lparr>ap_bus := Some bus\<rparr>"

section \<open>Settling an agent\<close>

text \<open>The five parts of \<open>markCompleted\<close> and \<open>markFailed\<close>: state, task and run record, event, channel, bus.\<close>

fun outcome_text :: "outcome \<Rightarrow> string" where
  "outcome_text (Succeeded result) = result"
| "outcome_text (Errored reason) = reason"

fun outcome_state :: "outcome \<Rightarrow> running_agent \<Rightarrow> running_agent" where
  "outcome_state (Succeeded result) a = a\<lparr>ra_status := ''completed'', ra_result := result\<rparr>"
| "outcome_state (Errored reason) a = a\<lparr>ra_status := ''failed'', ra_error := reason\<rparr>"

definition settle_state :: "outcome \<Rightarrow> string \<Rightarrow> ('db, 'd) agent_pool \<Rightarrow> ('db, 'd) agent_pool" where
  "settle_state out aid p =
     (case pool_lookup p aid of None \<Rightarrow> p | Some a \<Rightarrow> set_obj aid (outcome_state out a) p)"

definition settle_task ::
    "('db, 'e, 'd) pool_env \<Rightarrow> outcome \<Rightarrow> string \<Rightarrow> string \<Rightarrow> ('db, 'd) agent_pool \<Rightarrow> ('db, 'd) agent_pool" where
  "settle_task E out aid subtaskID p =
     (let p1 = (if subtaskID = '''' then p
                else case uuid_parse (pe_uuid E) subtaskID of
                    Inl _ \<Rightarrow> p
                  | Inr i \<Rightarrow>
                      (case (case out of
                               Succeeded result \<Rightarrow> sm_CompleteTask (pe_tasks E) '''' i result (ap_db p)
                             | Errored reason \<Rightarrow> sm_FailTask (pe_tasks E) '''' i reason (ap_db p)) of
                         Inl _ \<Rightarrow> p
                       | Inr db \<Rightarrow> p\<lparr>ap_db := db\<rparr>))
      in add_job E (case out of Succeeded result \<Rightarrow> JobComplete aid result
                              | Errored reason \<Rightarrow> JobFail aid reason) p1)"

definition completed_content :: "string \<Rightarrow> string \<Rightarrow> string" where
  "completed_content title result =
     (if title = '''' then (if length result > 200 then take 200 result @ ''...'' else result)
      else ''Completed: '' @ title)"

definition failed_content :: "string \<Rightarrow> string \<Rightarrow> string" where
  "failed_content title reason =
     (if title \<noteq> '''' then ''Failed: '' @ title @ newline @ ''Reason: '' @ reason else reason)"

definition settle_emit ::
    "outcome \<Rightarrow> string \<Rightarrow> string \<Rightarrow> string \<Rightarrow> string \<Rightarrow> ('db, 'd) agent_pool \<Rightarrow> ('db, 'd) agent_pool" where
  "settle_emit out aid subtaskID sid title p =
     emitEventForSession
       \<lparr>pv_type = (case out of Succeeded _ \<Rightarrow> EventTypeAgentCompleted | Errored _ \<Rightarrow> EventTypeAgentFailed),
        pv_session = sid, pv_agent_id = aid,
        pv_content = (case out of Succeeded result \<Rightarrow> completed_content title result
                                | Errored reason \<Rightarrow> failed_content title reason),
        pv_subtask = Some (subtaskID, title)\<rparr> p"

definition settle_signal :: "bool \<Rightarrow> string \<Rightarrow> ('db, 'd) agent_pool \<Rightarrow> ('db, 'd) agent_pool" where
  "settle_signal present aid p =
     (if present
      then (case ap_objs p aid of None \<Rightarrow> p | Some a \<Rightarrow> set_obj aid (signalCompletion a) p) else p)"

definition settle_publish :: "outcome \<Rightarrow> string \<Rightarrow> string \<Rightarrow> ('db, 'd) agent_pool \<Rightarrow> ('db, 'd) agent_pool" where
  "settle_publish out aid subtaskID p =
     (case ap_bus p of
        None \<Rightarrow> p
      | Some bus \<Rightarrow>
          p\<lparr>ap_bus := Some (snd (Publish
              \<lparr>ev_type = (case out of Succeeded _ \<Rightarrow> EventAgentCompleted | Errored _ \<Rightarrow> EventAgentFailed),
               ev_content = outcome_text out, ev_agent_id = aid, ev_subtask_id = subtaskID\<rparr> bus))\<rparr>)"

text \<open>What the first critical section reads: title, session, and whether the agent is in the map.\<close>

definition settle_read :: "string \<Rightarrow> ('db, 'd) agent_pool \<Rightarrow> string \<times> string \<times> bool" where
  "settle_read aid p =
     (case pool_lookup p aid of None \<Rightarrow> ('''', '''', False) | Some a \<Rightarrow> (ra_subtask_title a, ra_session_id a, True))"

definition settle_all ::
    "('db, 'e, 'd) pool_env \<Rightarrow> outcome \<Rightarrow> string \<Rightarrow> string \<Rightarrow> ('db, 'd) agent_pool \<Rightarrow> ('db, 'd) agent_pool" where
  "settle_all E out aid subtaskID p =
     (let (title, sid, present) = settle_read aid p;
          p1 = settle_state out aid p;
          p2 = settle_task E out aid subtaskID p1;
          p3 = settle_emit out aid subtaskID sid title p2;
          p4 = settle_signal present aid p3
      in settle_publish out aid subtaskID p4)"

definition markCompleted ::
    "('db, 'e, 'd) pool_env \<Rightarrow> string \<Rightarrow> string \<Rightarrow> string \<Rightarrow> ('db, 'd) agent_pool \<Rightarrow> ('db, 'd) agent_pool" where
  "markCompleted E aid subtaskID result p = settle_all E (Succeeded result) aid subtaskID p"

definition markFailed ::
    "('db, 'e, 'd) pool_env \<Rightarrow> string \<Rightarrow> string \<Rightarrow> string \<Rightarrow> ('db, 'd) agent_pool \<Rightarrow> ('db, 'd) agent_pool" where
  "markFailed E aid subtaskID reason p =
     (case pool_lookup p aid of None \<Rightarrow> p | Some _ \<Rightarrow> settle_all E (Errored reason) aid subtaskID p)"

text \<open>The goroutines that bring the run record up to date.\<close>

fun job_agent :: "run_job \<Rightarrow> string" where
  "job_agent (JobStop aid) = aid"
| "job_agent (JobComplete aid _) = aid"
| "job_agent (JobFail aid _) = aid"

fun job_update :: "time \<Rightarrow> run_job \<Rightarrow> agent_run \<Rightarrow> agent_run" where
  "job_update now (JobStop _) run = run_stop now run"
| "job_update now (JobComplete _ result) run = run_complete now result run"
| "job_update now (JobFail _ reason) run = run_fail now reason run"

definition run_run_job :: "'d run_sql \<Rightarrow> time \<Rightarrow> run_job \<Rightarrow> 'd \<Rightarrow> 'd" where
  "run_run_job Q now j d =
     (case rs_GetByID Q (job_agent j) d of
        Inl _ \<Rightarrow> d
      | Inr None \<Rightarrow> d
      | Inr (Some run) \<Rightarrow> (case rs_Update Q (job_update now j run) d of Inl _ \<Rightarrow> d | Inr d' \<Rightarrow> d'))"

section \<open>Waiting\<close>

record wait_result =
  wr_all_done :: bool
  wr_interrupted :: bool
  wr_is_responder :: bool
  wr_user_message :: string
  wr_still_running :: "string list"
  wr_results :: "string \<rightharpoonup> completion_info"

definition buildResults :: "string \<Rightarrow> ('db, 'd) agent_pool \<Rightarrow> string \<rightharpoonup> completion_info" where
  "buildResults sid p =
     (\<lambda>aid. case pool_lookup p aid of
        None \<Rightarrow> None
      | Some a \<Rightarrow> if ra_session_id a = sid \<and> ra_status a \<noteq> ''running''
                  then Some (toCompletionInfo (snapshot a)) else None)"

definition getRunningAgentIDs :: "string \<Rightarrow> ('db, 'd) agent_pool \<Rightarrow> string list" where
  "getRunningAgentIDs sid p =
     map ra_id (filter (\<lambda>a. ra_session_id a = sid \<and> ra_status a = ''running'') (pool_agents p))"

definition cleanupInterruptCtx :: "string \<Rightarrow> ('db, 'd) agent_pool \<Rightarrow> ('db, 'd) agent_pool" where
  "cleanupInterruptCtx sid p =
     p\<lparr>ap_interrupt := CleanupIfNoRunning sid (getRunningAgentIDs sid p \<noteq> []) (ap_interrupt p)\<rparr>"

text \<open>A wait in progress: its interrupt context, its session context and the agents whose channels it collected.\<close>

record wait_state =
  ws_interrupt :: nat
  ws_ctx :: nat
  ws_agents :: "string list"

definition wait_enter :: "string \<Rightarrow> ('db, 'd) agent_pool \<Rightarrow> wait_state \<times> ('db, 'd) agent_pool" where
  "wait_enter sid p =
     (let (ic, im) = GetOrCreateInterruptCtx sid (ap_interrupt p);
          (c, p1) = getOrCreateSessionCtx sid (p\<lparr>ap_interrupt := im\<rparr>)
      in (\<lparr>ws_interrupt = ic, ws_ctx = c, ws_agents = getRunningAgentIDs sid p1\<rparr>, p1))"

definition channels_closed :: "wait_state \<Rightarrow> ('db, 'd) agent_pool \<Rightarrow> bool" where
  "channels_closed ws p \<longleftrightarrow>
     list_all (\<lambda>aid. case ap_objs p aid of None \<Rightarrow> False | Some a \<Rightarrow> signalled a) (ws_agents ws)"

datatype wait_outcome = WaitReturns wait_result | WaitCancelled

text \<open>
  The select: every case that is ready may be chosen, none if none is (the wait blocks).  \<open>turn_done\<close> is the
  context of the caller.  The deferred clean-up runs after the result is built.
\<close>

definition all_done_result :: "string \<Rightarrow> ('db, 'd) agent_pool \<Rightarrow> wait_result" where
  "all_done_result sid p =
     \<lparr>wr_all_done = True, wr_interrupted = False, wr_is_responder = False, wr_user_message = '''',
      wr_still_running = [], wr_results = buildResults sid p\<rparr>"

definition WaitForAllSessionAgents ::
    "string \<Rightarrow> bool \<Rightarrow> wait_state \<Rightarrow> ('db, 'd) agent_pool \<Rightarrow> (wait_outcome \<times> ('db, 'd) agent_pool) set" where
  "WaitForAllSessionAgents sid turn_done ws p =
     (if ws_agents ws = [] then {(WaitReturns (all_done_result sid p), cleanupInterruptCtx sid p)}
      else
       (if channels_closed ws p
        then {(WaitReturns (all_done_result sid p), cleanupInterruptCtx sid p)} else {}) \<union>
       (case im_causes (ap_interrupt p) (ws_interrupt ws) of
          None \<Rightarrow> {}
        | Some cause \<Rightarrow>
            (let (responder, im) = ClaimInterruptResponder sid (ap_interrupt p);
                 p1 = p\<lparr>ap_interrupt := im\<rparr>
             in {(WaitReturns \<lparr>wr_all_done = False, wr_interrupted = True, wr_is_responder = responder,
                     wr_user_message = ExtractUserMessage (Some cause),
                     wr_still_running = getRunningAgentIDs sid p1, wr_results = buildResults sid p1\<rparr>,
                  cleanupInterruptCtx sid p1)})) \<union>
       (if turn_done \<or> ws_ctx ws \<in> set (ap_ctx_done p)
        then {(WaitCancelled, cleanupInterruptCtx sid p)} else {}))"

datatype agent_wait = AgentInfoReady completion_info | AgentWaitBlocks | AgentWaitCancelled

text \<open>\<open>WaitForAgent\<close> with the agent looked up in \<open>p\<close> and the select evaluated in the later state \<open>p'\<close>.\<close>

definition not_found_info :: "string \<Rightarrow> completion_info" where
  "not_found_info aid = \<lparr>ci_agent_id = aid, ci_subtask_id = '''', ci_status = ''not_found'',
     ci_result = '''', ci_error = ''''\<rparr>"

definition WaitForAgent ::
    "string \<Rightarrow> string \<Rightarrow> bool \<Rightarrow> ('db, 'd) agent_pool \<Rightarrow> ('db, 'd) agent_pool \<Rightarrow> agent_wait set" where
  "WaitForAgent sid aid ctx_done p p' =
     (case pool_lookup p aid of
        None \<Rightarrow> {AgentInfoReady (case buildResults sid p aid of Some i \<Rightarrow> i | None \<Rightarrow> not_found_info aid)}
      | Some _ \<Rightarrow>
          (let ready = (case ap_objs p' aid of
               Some a \<Rightarrow> if signalled a
                 then {AgentInfoReady (case pool_lookup p' aid of
                         None \<Rightarrow> not_found_info aid | Some a' \<Rightarrow> toCompletionInfo (snapshot a'))} else {}
             | None \<Rightarrow> {}) \<union> (if ctx_done then {AgentWaitCancelled} else {})
           in if ready = {} then {AgentWaitBlocks} else ready))"

end
