(* ===== verification/Agent_Pool_Steps.thy ===== *)
theory Agent_Pool_Steps
  imports Agent_Pool
begin

text \<open>
  The pool as a concurrent system: its operations and the goroutines of its agents interleave, one critical
  section at a time.  A goroutine is working until its engine returns, then it goes through the five parts
  of \<open>markCompleted\<close> or \<open>markFailed\<close>.  The theory proves that no wait is lost, that events reach the client
  before a wait is released, what a finished wait reports, and that the limit on concurrent agents holds
  whenever the run storage accepts the records.
\<close>

section \<open>Steps\<close>

datatype stage = StateSet | TaskSet | EventSent | ChannelClosed

datatype goroutine =
    Working (go_subtask: string)
  | Settling (go_subtask: string) (go_outcome: outcome) (go_stage: stage) (go_title: string)
      (go_session: string) (go_present: bool)

type_synonym ('db, 'd) pool_sys = "('db, 'd) agent_pool \<times> (string \<rightharpoonup> goroutine)"

text \<open>A new uuid: no agent and no run record has it.\<close>

definition fresh_agent :: "('db, 'e, 'd) pool_env \<Rightarrow> string \<Rightarrow> ('db, 'd) agent_pool \<Rightarrow> bool" where
  "fresh_agent E aid p \<longleftrightarrow> ap_objs p aid = None \<and>
     (\<forall>Q. pe_runs E = Some Q \<longrightarrow> rs_GetByID Q aid (ap_runs p) = Inr None)"

definition started :: "'e pool_error + string \<Rightarrow> string \<Rightarrow> (string \<rightharpoonup> goroutine) \<Rightarrow> (string \<rightharpoonup> goroutine)" where
  "started r sub g = (case r of Inl _ \<Rightarrow> g | Inr aid \<Rightarrow> g(aid \<mapsto> Working sub))"

text \<open>The engine has returned: the first critical section of \<open>markCompleted\<close> or \<open>markFailed\<close>.\<close>

definition go_return :: "outcome \<Rightarrow> string \<Rightarrow> string \<Rightarrow> ('db, 'd) pool_sys \<Rightarrow> ('db, 'd) pool_sys" where
  "go_return out aid sub s =
     (let (p, g) = s; (title, sid, present) = settle_read aid p
      in if \<not> present \<and> (\<exists>reason. out = Errored reason) then (p, g(aid := None))
         else (settle_state out aid p, g(aid \<mapsto> Settling sub out StateSet title sid present)))"

inductive pool_step :: "('db, 'e, 'd) pool_env \<Rightarrow> ('db, 'd) pool_sys \<Rightarrow> ('db, 'd) pool_sys \<Rightarrow> bool"
  for E :: "('db, 'e, 'd) pool_env" where
  st_spawn: "\<lbrakk>sid \<noteq> ''''; fresh_agent E (''code-agent-'' @ new) p;
      Spawn E now new ctx sid projectKey sub blocking p = (r, p')\<rbrakk> \<Longrightarrow>
      pool_step E (p, g) (p', started r sub g)"
| st_describe: "\<lbrakk>sid \<noteq> ''''; fresh_agent E (agentType @ ''-'' @ new) p;
      SpawnWithDescription E now new sid projectKey agentType description blocking p = (r, p')\<rbrakk> \<Longrightarrow>
      pool_step E (p, g) (p', started r '''' g)"
| st_stop: "StopAgent E aid p = (r, p') \<Longrightarrow> pool_step E (p, g) (p', g)"
| st_cancel: "pool_step E (p, g) (CancelRunningAgents sid p, g)"
| st_remove: "pool_step E (p, g) (RemoveSession sid p, g)"
| st_callback: "pool_step E (p, g) (SetEventCallbackForSession sid p, g)"
| st_context: "pool_step E (p, g) (snd (getOrCreateSessionCtx sid p), g)"
| st_interrupt: "pool_step E (p, g) (p\<lparr>ap_interrupt := im\<rparr>, g)"
| st_bus: "pool_step E (p, g) (p\<lparr>ap_bus := bus\<rparr>, g)"
| st_db: "pool_step E (p, g) (p\<lparr>ap_db := db\<rparr>, g)"
| st_return: "g aid = Some (Working sub) \<Longrightarrow> pool_step E (p, g) (go_return out aid sub (p, g))"
| st_task: "g aid = Some (Settling sub out StateSet title sid present) \<Longrightarrow>
      pool_step E (p, g) (settle_task E out aid sub p, g(aid \<mapsto> Settling sub out TaskSet title sid present))"
| st_event: "g aid = Some (Settling sub out TaskSet title sid present) \<Longrightarrow>
      pool_step E (p, g) (settle_emit out aid sub sid title p, g(aid \<mapsto> Settling sub out EventSent title sid present))"
| st_signal: "g aid = Some (Settling sub out EventSent title sid present) \<Longrightarrow>
      pool_step E (p, g) (settle_signal present aid p, g(aid \<mapsto> Settling sub out ChannelClosed title sid present))"
| st_publish: "g aid = Some (Settling sub out ChannelClosed title sid present) \<Longrightarrow>
      pool_step E (p, g) (settle_publish out aid sub p, g(aid := None))"
| st_job: "\<lbrakk>ap_jobs p = js @ j # js'; pe_runs E = Some Q\<rbrakk> \<Longrightarrow>
      pool_step E (p, g) (p\<lparr>ap_runs := run_run_job Q now j (ap_runs p), ap_jobs := js @ js'\<rparr>, g)"

definition pool_reach :: "('db, 'e, 'd) pool_env \<Rightarrow> int \<Rightarrow> 'db \<Rightarrow> 'd \<Rightarrow> ('db, 'd) agent_pool \<Rightarrow> (string \<rightharpoonup> goroutine) \<Rightarrow> bool" where
  "pool_reach E n db d p g \<longleftrightarrow> (pool_step E)\<^sup>*\<^sup>* (NewAgentPool n db d, Map.empty) (p, g)"

text \<open>Run without interruption, the steps of a goroutine are \<open>markCompleted\<close> and \<open>markFailed\<close>.\<close>

lemma settle_steps:
  assumes "g aid = Some (Working sub)"
  shows "(pool_step E)\<^sup>*\<^sup>* (p, g) (markCompleted E aid sub result p, g(aid := None))"
    and "(pool_step E)\<^sup>*\<^sup>* (p, g) (markFailed E aid sub reason p, g(aid := None))"
proof -
  obtain title sid present where rd: "settle_read aid p = (title, sid, present)" by (metis prod_cases3)
  have run: "(pool_step E)\<^sup>*\<^sup>* (p, g) (settle_all E out aid sub p, g(aid := None))"
    if ret: "go_return out aid sub (p, g) = (settle_state out aid p, g(aid \<mapsto> Settling sub out StateSet title sid present))"
    for out
  proof -
    let ?g = "\<lambda>st. g(aid \<mapsto> Settling sub out st title sid present)"
    let ?p1 = "settle_state out aid p"
    let ?p2 = "settle_task E out aid sub ?p1"
    let ?p3 = "settle_emit out aid sub sid title ?p2"
    let ?p4 = "settle_signal present aid ?p3"
    have "pool_step E (p, g) (?p1, ?g StateSet)" using st_return [of g aid sub E p out, OF assms] ret by simp
    moreover have "pool_step E (?p1, ?g StateSet) (?p2, ?g TaskSet)"
      using st_task [of "?g StateSet" aid sub out title sid present E ?p1] by simp
    moreover have "pool_step E (?p2, ?g TaskSet) (?p3, ?g EventSent)"
      using st_event [of "?g TaskSet" aid sub out title sid present E ?p2] by simp
    moreover have "pool_step E (?p3, ?g EventSent) (?p4, ?g ChannelClosed)"
      using st_signal [of "?g EventSent" aid sub out title sid present E ?p3] by simp
    moreover have "pool_step E (?p4, ?g ChannelClosed) (settle_publish out aid sub ?p4, g(aid := None))"
      using st_publish [of "?g ChannelClosed" aid sub out title sid present E ?p4] by simp
    moreover have "settle_publish out aid sub ?p4 = settle_all E out aid sub p"
      by (simp add: settle_all_def rd)
    ultimately show ?thesis by (metis (no_types, lifting) converse_rtranclp_into_rtranclp r_into_rtranclp)
  qed
  show "(pool_step E)\<^sup>*\<^sup>* (p, g) (markCompleted E aid sub result p, g(aid := None))"
    unfolding markCompleted_def by (rule run) (simp add: go_return_def rd)
  show "(pool_step E)\<^sup>*\<^sup>* (p, g) (markFailed E aid sub reason p, g(aid := None))"
  proof (cases "pool_lookup p aid")
    case None
    then have "pool_step E (p, g) (p, g(aid := None))"
      using st_return [of g aid sub E p "Errored reason", OF assms] by (simp add: go_return_def settle_read_def)
    then show ?thesis using None by (simp add: markFailed_def)
  next
    case (Some a)
    then have "present" using rd by (simp add: settle_read_def)
    then have "(pool_step E)\<^sup>*\<^sup>* (p, g) (settle_all E (Errored reason) aid sub p, g(aid := None))"
      by (intro run) (simp add: go_return_def rd)
    then show ?thesis using Some by (simp add: markFailed_def)
  qed
qed

lemma restart_spawns:
  assumes "RestartAgent E now new ctx aid blocking p = (r, p')"
  shows "(\<exists>e. r = Inl e \<and> p' = p) \<or>
    (\<exists>a. pool_lookup p aid = Some a \<and> ra_status a \<noteq> ''running'' \<and>
      (if ra_subtask_id a = ''''
       then SpawnWithDescription E now new (ra_session_id a) '''' (ra_agent_type a) (ra_description a) blocking p
       else Spawn E now new ctx (ra_session_id a) (ra_project_key a) (ra_subtask_id a) blocking p) = (r, p'))"
proof (cases "pool_lookup p aid")
  case None
  then show ?thesis using assms by (auto simp: RestartAgent_def)
next
  case (Some a)
  then show ?thesis using assms unfolding RestartAgent_def
    by (auto split: if_splits sum.splits option.splits)
qed

section \<open>The invariant\<close>

definition settled_event :: "string \<Rightarrow> ('db, 'd) agent_pool \<Rightarrow> bool" where
  "settled_event aid p \<longleftrightarrow> (\<exists>ev b. (ev, b) \<in> set (ap_emitted p) \<and> pv_agent_id ev = aid \<and>
     pv_type ev \<in> {EventTypeAgentCompleted, EventTypeAgentFailed})"

text \<open>A goroutine that will still close the channel of its agent.\<close>

definition will_signal :: "('db, 'd) agent_pool \<Rightarrow> string \<Rightarrow> running_agent \<Rightarrow> goroutine option \<Rightarrow> bool" where
  "will_signal p aid a go =
     (case go of None \<Rightarrow> False
      | Some (Working _) \<Rightarrow> aid \<in> set (ap_agents p) \<and> ra_status a = ''running''
      | Some (Settling _ _ st _ _ present) \<Rightarrow> present \<and> st \<noteq> ChannelClosed)"

definition past_event :: "goroutine option \<Rightarrow> bool" where
  "past_event go = (case go of Some (Settling _ _ st _ _ _) \<Rightarrow> st = EventSent \<or> st = ChannelClosed | _ \<Rightarrow> False)"

definition agent_ok :: "('db, 'd) agent_pool \<Rightarrow> (string \<rightharpoonup> goroutine) \<Rightarrow> string \<Rightarrow> running_agent \<Rightarrow> bool" where
  "agent_ok p g aid a \<longleftrightarrow>
     ra_id a = aid \<and> ra_completion a \<noteq> None \<and>
     (signalled a \<or> will_signal p aid a (g aid)) \<and>
     (aid \<in> set (ap_agents p) \<and> ra_status a = ''running'' \<longrightarrow> \<not> signalled a \<and> (\<exists>sub. g aid = Some (Working sub))) \<and>
     (past_event (g aid) \<longrightarrow> settled_event aid p) \<and>
     (signalled a \<and> \<not> ra_cancelled a \<longrightarrow> settled_event aid p)"

definition pool_inv :: "('db, 'd) agent_pool \<Rightarrow> (string \<rightharpoonup> goroutine) \<Rightarrow> bool" where
  "pool_inv p g \<longleftrightarrow>
     distinct (ap_agents p) \<and> (\<forall>aid \<in> set (ap_agents p). ap_objs p aid \<noteq> None) \<and>
     (\<forall>aid. g aid \<noteq> None \<longrightarrow> ap_objs p aid \<noteq> None) \<and>
     (\<forall>aid a. ap_objs p aid = Some a \<longrightarrow> agent_ok p g aid a)"

lemma pool_inv_agent: "pool_inv p g \<Longrightarrow> ap_objs p aid = Some a \<Longrightarrow> agent_ok p g aid a"
  by (simp add: pool_inv_def)

lemma settled_event_mono:
  "settled_event aid p \<Longrightarrow> set (ap_emitted p) \<subseteq> set (ap_emitted p') \<Longrightarrow> settled_event aid p'"
  unfolding settled_event_def by blast

lemma agent_ok_frame:
  assumes "agent_ok p g aid a" and "g' aid = g aid"
    and "aid \<in> set (ap_agents p') \<longleftrightarrow> aid \<in> set (ap_agents p)"
    and "set (ap_emitted p) \<subseteq> set (ap_emitted p')"
  shows "agent_ok p' g' aid a"
proof -
  have "settled_event aid p \<longrightarrow> settled_event aid p'" using settled_event_mono [OF _ assms(4)] by blast
  moreover have "will_signal p' aid a (g' aid) = will_signal p aid a (g aid)"
    using assms(2,3) by (simp add: will_signal_def split: option.splits goroutine.splits)
  ultimately show ?thesis using assms(1-3) unfolding agent_ok_def by metis
qed

text \<open>A step that changes at most one object and the goroutine of the same agent.\<close>

lemma pool_inv_frame:
  assumes inv: "pool_inv p g"
    and objs: "ap_objs p' = ap_objs p" and keys: "ap_agents p' = ap_agents p"
    and em: "set (ap_emitted p) \<subseteq> set (ap_emitted p')"
  shows "pool_inv p' g"
proof -
  have "agent_ok p' g x b" if "ap_objs p x = Some b" for x b
    by (rule agent_ok_frame [of p g x b g p']) (use pool_inv_agent [OF inv that] keys em in auto)
  then show ?thesis using inv unfolding pool_inv_def objs keys by simp
qed

lemma pool_inv_update:
  assumes inv: "pool_inv p g"
    and objs: "ap_objs p' = (ap_objs p)(aid \<mapsto> a)" and keys: "ap_agents p' = ap_agents p"
    and em: "set (ap_emitted p) \<subseteq> set (ap_emitted p')"
    and g': "\<And>x. x \<noteq> aid \<Longrightarrow> g' x = g x"
    and ok: "agent_ok p' g' aid a"
  shows "pool_inv p' g'"
proof -
  have others: "agent_ok p' g' x b" if "ap_objs p' x = Some b" for x b
  proof (cases "x = aid")
    case True
    then show ?thesis using that ok by (simp add: objs)
  next
    case False
    then have "ap_objs p x = Some b" using that by (simp add: objs)
    from pool_inv_agent [OF inv this] show ?thesis
      by (rule agent_ok_frame) (use g' [OF False] keys em in auto)
  qed
  have gos: "ap_objs p' x \<noteq> None" if "g' x \<noteq> None" for x
    using that inv g' [of x] by (cases "x = aid") (auto simp: objs pool_inv_def)
  show ?thesis
    unfolding pool_inv_def using inv others gos by (auto simp: objs keys pool_inv_def)
qed

lemma pool_inv_goroutine:
  assumes inv: "pool_inv p g" and obj: "ap_objs p' aid = Some a"
    and objs: "ap_objs p' = ap_objs p" and keys: "ap_agents p' = ap_agents p"
    and em: "set (ap_emitted p) \<subseteq> set (ap_emitted p')"
    and ok: "agent_ok p' (g(aid := go)) aid a"
  shows "pool_inv p' (g(aid := go))"
proof (rule pool_inv_update [OF inv _ keys em _ ok])
  show "ap_objs p' = (ap_objs p)(aid \<mapsto> a)" using obj objs by auto
qed simp

section \<open>Every step keeps it\<close>

lemma settle_frames [frame_simps]:
  "ap_objs (settle_task E out aid sub p) = ap_objs p"
  "ap_agents (settle_task E out aid sub p) = ap_agents p"
  "ap_emitted (settle_task E out aid sub p) = ap_emitted p"
  "ap_objs (settle_emit out aid sub sid title p) = ap_objs p"
  "ap_agents (settle_emit out aid sub sid title p) = ap_agents p"
  "ap_objs (settle_publish out aid sub p) = ap_objs p"
  "ap_agents (settle_publish out aid sub p) = ap_agents p"
  "ap_emitted (settle_publish out aid sub p) = ap_emitted p"
  "ap_objs (snd (getOrCreateSessionCtx sid p)) = ap_objs p"
  "ap_agents (snd (getOrCreateSessionCtx sid p)) = ap_agents p"
  "ap_emitted (snd (getOrCreateSessionCtx sid p)) = ap_emitted p"
  "ap_objs (add_job E j p) = ap_objs p"
  "ap_agents (add_job E j p) = ap_agents p"
  "ap_emitted (add_job E j p) = ap_emitted p"
  by (simp_all add: settle_task_def add_job_def settle_emit_def emitEventForSession_def settle_publish_def
      getOrCreateSessionCtx_def Let_def split: option.splits sum.splits outcome.splits)

lemmas ctx_objs = settle_frames(9)

lemma set_obj_frames [simp]:
  "ap_objs (set_obj aid a p) = (ap_objs p)(aid \<mapsto> a)"
  "ap_agents (set_obj aid a p) = ap_agents p"
  "ap_emitted (set_obj aid a p) = ap_emitted p"
  by (simp_all add: set_obj_def)

lemma emit_frames [simp]:
  "ap_objs (emitEventForSession ev p) = ap_objs p"
  "ap_agents (emitEventForSession ev p) = ap_agents p"
  "set (ap_emitted p) \<subseteq> set (ap_emitted (emitEventForSession ev p))"
  by (auto simp: emitEventForSession_def)

text \<open>Registration of a new agent.\<close>

lemma registerAgent_result:
  assumes "registerAgent E now sid aid running p = (r, p')" and "sid \<noteq> ''''" and "aid \<noteq> ''''"
  shows "(\<exists>e. r = Some e \<and> p' = p) \<or>
    (r = None \<and> ap_objs p' = (ap_objs p)(aid \<mapsto> running) \<and> ap_emitted p' = ap_emitted p \<and>
      ap_agents p' = (if aid \<in> set (ap_agents p) then ap_agents p else ap_agents p @ [aid]))"
proof (cases "check_limit E sid p")
  case None
  then show ?thesis using assms NewAgentRun_ok [OF assms(3,2), of now "ra_agent_type running"]
    by (auto simp: registerAgent_def put_agent_def Let_def split: option.splits sum.splits)
next
  case (Some e)
  then have "r = Some e" "p' = p" using assms(1) by (simp_all add: registerAgent_def)
  then show ?thesis by blast
qed

definition new_agent :: "string \<Rightarrow> string \<Rightarrow> running_agent \<Rightarrow> bool" where
  "new_agent aid sid a \<longleftrightarrow> ra_id a = aid \<and> ra_session_id a = sid \<and> ra_status a = ''running'' \<and>
     ra_completion a = Some False \<and> \<not> ra_cancelled a"

lemma pool_inv_new:
  assumes inv: "pool_inv p g" and fresh: "ap_objs p aid = None" and new: "new_agent aid sid a"
    and objs: "ap_objs p' = (ap_objs p)(aid \<mapsto> a)" and keys: "ap_agents p' = ap_agents p @ [aid]"
    and em: "set (ap_emitted p) \<subseteq> set (ap_emitted p')"
  shows "pool_inv p' (g(aid \<mapsto> Working sub))"
proof -
  have notkey: "aid \<notin> set (ap_agents p)" using inv fresh by (auto simp: pool_inv_def)
  have "agent_ok p' (g(aid \<mapsto> Working sub)) aid a"
    using new by (simp add: agent_ok_def new_agent_def signalled_def will_signal_def past_event_def keys)
  moreover have "agent_ok p' (g(aid \<mapsto> Working sub)) x b" if "x \<noteq> aid" "ap_objs p x = Some b" for x b
    using agent_ok_frame [OF pool_inv_agent [OF inv that(2)], of "g(aid \<mapsto> Working sub)" p'] that(1) em
    by (simp add: keys)
  ultimately show ?thesis
    using inv notkey unfolding pool_inv_def by (auto simp: objs keys)
qed

lemma code_agent_id [simp]: "''code-agent-'' @ x \<noteq> ''''" "y @ ''-'' @ x \<noteq> ''''"
  by simp_all

lemma pool_inv_register:
  assumes inv: "pool_inv p g" and fresh: "ap_objs p aid = None" and new: "new_agent aid sid a"
    and sid: "sid \<noteq> ''''" and aid: "aid \<noteq> ''''"
    and reg: "registerAgent E now sid aid a p = (r, p')"
  shows "case r of Some _ \<Rightarrow> p' = p | None \<Rightarrow> pool_inv p' (g(aid \<mapsto> Working sub))"
proof (cases r)
  case None
  have "aid \<notin> set (ap_agents p)" using inv fresh by (auto simp: pool_inv_def)
  with registerAgent_result [OF reg sid aid] None
  have "ap_objs p' = (ap_objs p)(aid \<mapsto> a)" "ap_emitted p' = ap_emitted p" "ap_agents p' = ap_agents p @ [aid]"
    by auto
  then have "pool_inv p' (g(aid \<mapsto> Working sub))" by (intro pool_inv_new [OF inv fresh new]) simp_all
  with None show ?thesis by simp
next
  case (Some e)
  with registerAgent_result [OF reg sid aid] show ?thesis by simp
qed

lemma inv_ctx: "pool_inv p g \<Longrightarrow> pool_inv (snd (getOrCreateSessionCtx sid p)) g"
  by (erule pool_inv_frame) (simp_all only: settle_frames subset_refl)

lemma inv_emit: "pool_inv p g \<Longrightarrow> pool_inv (emitEventForSession ev p) g"
  by (erule pool_inv_frame) (rule emit_frames)+

text \<open>Both ways to start an agent register a new object between harmless changes.\<close>

definition registers ::
    "('db, 'e, 'd) pool_env \<Rightarrow> time \<Rightarrow> string \<Rightarrow> string \<Rightarrow> ('db, 'd) agent_pool \<Rightarrow>
     'e pool_error + string \<Rightarrow> ('db, 'd) agent_pool \<Rightarrow> bool" where
  "registers E now sid aid p r p' \<longleftrightarrow>
     (\<exists>db c p1 a p2 q. getOrCreateSessionCtx sid (p\<lparr>ap_db := db\<rparr>) = (c, p1) \<and> new_agent aid sid a \<and>
        registerAgent E now sid aid a p1 = (q, p2) \<and>
        (case q of Some e \<Rightarrow> r = Inl e \<and> p' = p2
         | None \<Rightarrow> r = Inr aid \<and> (\<exists>ev. p' = emitEventForSession ev p2)))"

lemma new_running_agent: "new_agent aid sid (new_running aid sub title sid pk now c bl ty desc)"
  by (simp add: new_agent_def new_running_def)

lemma registersI:
  assumes "getOrCreateSessionCtx sid (p\<lparr>ap_db := db\<rparr>) = (c, p1)"
    and "registerAgent E now sid aid (new_running aid sub title sid pk now' c bl ty desc) p1 = (q, p2)"
    and "(case q of Some e \<Rightarrow> (Inl e, p2) | None \<Rightarrow> (Inr aid, emitEventForSession ev p2)) = (r, p')"
  shows "registers E now sid aid p r p'"
  unfolding registers_def
  using assms new_running_agent [of aid sid sub title pk now' c bl ty desc]
  by (intro exI [of _ db] exI [of _ c] exI [of _ p1]
      exI [of _ "new_running aid sub title sid pk now' c bl ty desc"] exI [of _ p2] exI [of _ q])
    (auto split: option.splits)

lemma spawn_registers:
  assumes run: "Spawn E now new ctx sid pk sub blocking p = (r, p')"
  shows "(p' = p \<and> (\<exists>e. r = Inl e)) \<or> registers E now sid (''code-agent-'' @ new) p r p'"
proof (cases "\<exists>i subtask db. uuid_parse (pe_uuid E) sub = Inr i \<and>
    sm_GetTask (pe_tasks E) ctx i (ap_db p) = Inr (Some subtask) \<and>
    sm_AssignTaskToAgent (pe_tasks E) ctx i (''code-agent-'' @ new) (ap_db p) = Inr db")
  case False
  then show ?thesis using run by (auto simp: Spawn_def Let_def split: sum.splits option.splits)
next
  case True
  then obtain i subtask db where eqs: "uuid_parse (pe_uuid E) sub = Inr i"
    "sm_GetTask (pe_tasks E) ctx i (ap_db p) = Inr (Some subtask)"
    "sm_AssignTaskToAgent (pe_tasks E) ctx i (''code-agent-'' @ new) (ap_db p) = Inr db" by blast
  obtain c p1 where ctx1: "getOrCreateSessionCtx sid (p\<lparr>ap_db := db\<rparr>) = (c, p1)" by (metis prod.collapse)
  obtain q p2 where reg: "registerAgent E now sid (''code-agent-'' @ new)
      (new_running (''code-agent-'' @ new) sub (et_title subtask) sid pk now c blocking ''coder'' '''') p1 = (q, p2)"
    by (metis prod.collapse)
  from run have "registers E now sid (''code-agent-'' @ new) p r p'"
    unfolding Spawn_def Let_def eqs sum.case option.case ctx1 prod.case reg
    by (intro registersI [OF ctx1 reg]) (auto split: option.splits)
  then show ?thesis by blast
qed

lemma describe_registers:
  assumes run: "SpawnWithDescription E now new sid pk agentType desc blocking p = (r, p')"
  shows "registers E now sid (agentType @ ''-'' @ new) p r p'"
proof -
  obtain c p1 where ctx1: "getOrCreateSessionCtx sid p = (c, p1)" by (metis prod.collapse)
  then have ctx0: "getOrCreateSessionCtx sid (p\<lparr>ap_db := ap_db p\<rparr>) = (c, p1)" by simp
  obtain q p2 where reg: "registerAgent E now sid (agentType @ ''-'' @ new)
      (new_running (agentType @ ''-'' @ new) '''' (firstLine desc 50) sid pk now c blocking agentType desc)
      p1 = (q, p2)" by (metis prod.collapse)
  from run show ?thesis unfolding SpawnWithDescription_def Let_def ctx1 prod.case reg
    by (intro registersI [OF ctx0 reg]) (auto split: option.splits)
qed

lemma inv_start:
  assumes inv: "pool_inv p g" and sid: "sid \<noteq> ''''" and fresh: "ap_objs p aid = None" and aid: "aid \<noteq> ''''"
    and run: "registers E now sid aid p r p'"
  shows "pool_inv p' (started r sub g)"
proof -
  obtain db c p1 a p2 q where ctx1: "getOrCreateSessionCtx sid (p\<lparr>ap_db := db\<rparr>) = (c, p1)"
    and new: "new_agent aid sid a" and reg: "registerAgent E now sid aid a p1 = (q, p2)"
    and q: "case q of Some e \<Rightarrow> r = Inl e \<and> p' = p2 | None \<Rightarrow> r = Inr aid \<and> (\<exists>ev. p' = emitEventForSession ev p2)"
    using run unfolding registers_def by blast
  have "pool_inv (p\<lparr>ap_db := db\<rparr>) g" by (rule pool_inv_frame [OF inv]) simp_all
  from inv_ctx [OF this, of sid] have inv1: "pool_inv p1 g" by (simp add: ctx1)
  have "ap_objs p1 = ap_objs p" using ctx_objs [of sid "p\<lparr>ap_db := db\<rparr>"] by (simp add: ctx1)
  then have fresh1: "ap_objs p1 aid = None" using fresh by simp
  note res = pool_inv_register [OF inv1 fresh1 new sid aid reg, of sub]
  show ?thesis
  proof (cases q)
    case None
    then show ?thesis using res q by (auto simp: started_def intro: inv_emit)
  next
    case (Some e)
    then show ?thesis using res q inv1 by (simp add: started_def)
  qed
qed

lemma inv_spawn:
  assumes "pool_inv p g" and "sid \<noteq> ''''" and "ap_objs p (''code-agent-'' @ new) = None"
    and "Spawn E now new ctx sid pk sub blocking p = (r, p')"
  shows "pool_inv p' (started r sub g)"
  using spawn_registers [OF assms(4)] inv_start [OF assms(1,2,3) code_agent_id(1)] assms(1)
  by (auto simp: started_def)

lemma inv_describe:
  assumes "pool_inv p g" and "sid \<noteq> ''''" and "ap_objs p (agentType @ ''-'' @ new) = None"
    and "SpawnWithDescription E now new sid pk agentType desc blocking p = (r, p')"
  shows "pool_inv p' (started r '''' g)"
  by (rule inv_start [OF assms(1,2,3) code_agent_id(2) describe_registers [OF assms(4)]])

lemma stop_ok:
  assumes "agent_ok p g aid a" and "ap_agents p' = ap_agents p" and "ap_emitted p' = ap_emitted p"
  shows "agent_ok p' g aid (stop_agent a)"
  using assms
  by (cases "ra_completion a")
    (auto simp: agent_ok_def stop_agent_def signalCompletion_def signalled_def settled_event_def)

lemma inv_stop:
  assumes inv: "pool_inv p g" and run: "StopAgent E aid p = (r, p')"
  shows "pool_inv p' g"
proof (cases "pool_lookup p aid")
  case None
  then show ?thesis using run inv by (simp add: StopAgent_def)
next
  case (Some a)
  show ?thesis
  proof (cases "ra_status a = ''running''")
    case True
    then have p': "p' = add_job E (JobStop aid) (set_obj aid (stop_agent a) p)"
      using run Some by (simp add: StopAgent_def)
    have "ap_objs p aid = Some a" using Some by (auto simp: pool_lookup_def split: if_splits)
    from stop_ok [OF pool_inv_agent [OF inv this], of p'] have "agent_ok p' g aid (stop_agent a)"
      by (simp add: p' frame_simps)
    then show ?thesis
      by (intro pool_inv_update [OF inv, of p' aid "stop_agent a" g]) (simp_all add: p' frame_simps)
  qed (use run Some inv in \<open>simp add: StopAgent_def\<close>)
qed

lemma inv_cancel:
  assumes inv: "pool_inv p g"
  shows "pool_inv (CancelRunningAgents sid p) g"
proof -
  let ?p = "CancelRunningAgents sid p"
  have keys: "ap_agents ?p = ap_agents p" and em: "ap_emitted ?p = ap_emitted p"
    by (simp_all add: CancelRunningAgents_def)
  have "agent_ok ?p g aid b" if some: "ap_objs ?p aid = Some b" for aid b
  proof -
    obtain a where a: "ap_objs p aid = Some a" and b: "b = a \<or> b = stop_agent a"
      using some by (cases "ap_objs p aid") (auto simp: CancelRunningAgents_def split: if_splits)
    from agent_ok_frame [OF pool_inv_agent [OF inv a], of g ?p] have "agent_ok ?p g aid a"
      by (simp add: keys em)
    moreover from stop_ok [OF pool_inv_agent [OF inv a] keys em] have "agent_ok ?p g aid (stop_agent a)" .
    ultimately show ?thesis using b by blast
  qed
  moreover have "ap_objs ?p aid = None \<longleftrightarrow> ap_objs p aid = None" for aid
    by (simp add: CancelRunningAgents_def)
  ultimately show ?thesis using inv unfolding pool_inv_def keys by metis
qed

text \<open>An agent that leaves the map: it was signalled, is signalled now, or its goroutine is settling it.\<close>

lemma removed_ok:
  assumes ok: "agent_ok p g aid a" and key: "aid \<in> set (ap_agents p)" and nokey: "aid \<notin> set (ap_agents p')"
    and em: "ap_emitted p' = ap_emitted p"
    and b: "b = (if ra_status a = ''running'' then (signalCompletion a)\<lparr>ra_cancelled := True\<rparr> else a)"
  shows "agent_ok p' g aid b"
proof (cases "ra_status a = ''running''")
  case True
  then show ?thesis using ok nokey em unfolding b
    by (cases "ra_completion a") (auto simp: agent_ok_def signalCompletion_def signalled_def settled_event_def)
next
  case False
  then have "signalled a \<or> will_signal p' aid a (g aid)"
    using ok by (auto simp: agent_ok_def will_signal_def split: option.splits goroutine.splits)
  then show ?thesis using ok nokey em False unfolding b by (auto simp: agent_ok_def settled_event_def)
qed

definition removed_agent :: "string \<Rightarrow> ('db, 'd) agent_pool \<Rightarrow> string \<Rightarrow> running_agent \<Rightarrow> running_agent" where
  "removed_agent sid p aid a =
     (if aid \<in> set (ap_agents p) \<and> ra_session_id a = sid \<and> ra_status a = ''running''
      then (signalCompletion a)\<lparr>ra_cancelled := True\<rparr> else a)"

lemma RemoveSession_fields:
  "ap_objs (RemoveSession sid p) = (\<lambda>aid. map_option (removed_agent sid p aid) (ap_objs p aid))"
  "ap_agents (RemoveSession sid p) = filter (\<lambda>aid. \<not> in_session sid p aid) (ap_agents p)"
  "ap_emitted (RemoveSession sid p) = ap_emitted p"
  "ap_runs (RemoveSession sid p) = ap_runs p" "ap_max (RemoveSession sid p) = ap_max p"
  "ap_jobs (RemoveSession sid p) = ap_jobs p"
  by (simp_all add: RemoveSession_def removed_agent_def [abs_def] Let_def in_session_def split: option.splits)

lemma inv_remove:
  assumes inv: "pool_inv p g"
  shows "pool_inv (RemoveSession sid p) g"
proof -
  let ?p = "RemoveSession sid p"
  let ?b = "removed_agent sid p"
  note objs = RemoveSession_fields(1) [of sid p] and keys = RemoveSession_fields(2) [of sid p]
    and em = RemoveSession_fields(3) [of sid p]
  have ok: "agent_ok ?p g aid (?b aid a)" if a: "ap_objs p aid = Some a" for aid a
  proof (cases "aid \<in> set (ap_agents p) \<and> ra_session_id a = sid")
    case True
    then have "aid \<notin> set (ap_agents ?p)" using a by (simp add: keys in_session_def)
    then show ?thesis using removed_ok [OF pool_inv_agent [OF inv a], of ?p] True em by (simp add: removed_agent_def)
  next
    case False
    then have "aid \<in> set (ap_agents ?p) \<longleftrightarrow> aid \<in> set (ap_agents p)" and eq: "?b aid a = a"
      using a by (auto simp: keys in_session_def removed_agent_def)
    then show ?thesis using agent_ok_frame [OF pool_inv_agent [OF inv a], of g ?p] em by simp
  qed
  have "agent_ok ?p g aid b" if "ap_objs ?p aid = Some b" for aid b
    using that ok by (auto simp: objs)
  moreover have "ap_objs ?p aid = None \<longleftrightarrow> ap_objs p aid = None" for aid by (simp add: objs)
  moreover have "distinct (ap_agents ?p)" and "set (ap_agents ?p) \<subseteq> set (ap_agents p)"
    using inv by (auto simp: keys pool_inv_def)
  ultimately show ?thesis using inv unfolding pool_inv_def by (metis subsetD)
qed

lemma inv_return:
  assumes inv: "pool_inv p g" and g: "g aid = Some (Working sub)" and run: "go_return out aid sub (p, g) = (p', g')"
  shows "pool_inv p' g'"
proof -
  obtain a where a: "ap_objs p aid = Some a" using inv g by (fastforce simp: pool_inv_def)
  have ok: "agent_ok p g aid a" by (rule pool_inv_agent [OF inv a])
  show ?thesis
  proof (cases "aid \<in> set (ap_agents p)")
    case True
    then have look: "pool_lookup p aid = Some a" using a by (simp add: pool_lookup_def)
    let ?go = "Settling sub out StateSet (ra_subtask_title a) (ra_session_id a) True"
    from look run have p': "p' = set_obj aid (outcome_state out a) p" and g': "g' = g(aid \<mapsto> ?go)"
      by (auto simp: go_return_def settle_read_def settle_state_def)
    have "agent_ok p' g' aid (outcome_state out a)"
      using ok by (cases out) (auto simp: agent_ok_def p' g' signalled_def will_signal_def past_event_def settled_event_def)
    then show ?thesis
      by (intro pool_inv_update [OF inv, of p' aid "outcome_state out a" g']) (simp_all add: p' g')
  next
    case False
    then have look: "pool_lookup p aid = None" by (simp add: pool_lookup_def)
    from ok g False have sig: "signalled a" by (auto simp: agent_ok_def will_signal_def)
    obtain go where p': "p' = p" and g': "g' = g(aid := go)"
      and go: "go = None \<or> go = Some (Settling sub out StateSet '''' '''' False)"
      using run look by (auto simp: go_return_def settle_read_def settle_state_def split: if_splits)
    have "agent_ok p' (g(aid := go)) aid a"
      using ok sig go False by (auto simp: agent_ok_def p' past_event_def)
    then show ?thesis unfolding g'
      by (intro pool_inv_goroutine [OF inv, of p' aid a]) (simp_all add: p' a)
  qed
qed

lemma inv_task:
  assumes inv: "pool_inv p g" and g: "g aid = Some (Settling sub out StateSet title sid present)"
  shows "pool_inv (settle_task E out aid sub p) (g(aid \<mapsto> Settling sub out TaskSet title sid present))"
proof -
  obtain a where a: "ap_objs p aid = Some a" using inv g by (fastforce simp: pool_inv_def)
  have "agent_ok (settle_task E out aid sub p) (g(aid \<mapsto> Settling sub out TaskSet title sid present)) aid a"
    using pool_inv_agent [OF inv a] g
    by (auto simp: agent_ok_def frame_simps will_signal_def past_event_def settled_event_def)
  then show ?thesis
    by (intro pool_inv_goroutine [OF inv, of _ aid a]) (simp_all add: frame_simps a)
qed

lemma emit_settled:
  "settled_event aid (settle_emit out aid sub sid title p)"
  by (cases out) (auto simp: settled_event_def settle_emit_def emitEventForSession_def)

lemma inv_event:
  assumes inv: "pool_inv p g" and g: "g aid = Some (Settling sub out TaskSet title sid present)"
  shows "pool_inv (settle_emit out aid sub sid title p) (g(aid \<mapsto> Settling sub out EventSent title sid present))"
proof -
  obtain a where a: "ap_objs p aid = Some a" using inv g by (fastforce simp: pool_inv_def)
  have sub: "set (ap_emitted p) \<subseteq> set (ap_emitted (settle_emit out aid sub sid title p))"
    unfolding settle_emit_def by (rule emit_frames)
  have "agent_ok (settle_emit out aid sub sid title p) (g(aid \<mapsto> Settling sub out EventSent title sid present)) aid a"
    using pool_inv_agent [OF inv a] g emit_settled [of aid out sub sid title p]
    by (auto simp: agent_ok_def frame_simps will_signal_def)
  then show ?thesis
    by (intro pool_inv_goroutine [OF inv, of _ aid a] sub) (simp_all add: frame_simps a)
qed

lemma inv_signal:
  assumes inv: "pool_inv p g" and g: "g aid = Some (Settling sub out EventSent title sid present)"
  shows "pool_inv (settle_signal present aid p) (g(aid \<mapsto> Settling sub out ChannelClosed title sid present))"
proof -
  let ?g = "g(aid \<mapsto> Settling sub out ChannelClosed title sid present)"
  obtain a where a: "ap_objs p aid = Some a" using inv g by (fastforce simp: pool_inv_def)
  have ok: "agent_ok p g aid a" by (rule pool_inv_agent [OF inv a])
  have ev: "settled_event aid p" using ok g by (simp add: agent_ok_def past_event_def)
  show ?thesis
  proof (cases present)
    case True
    then have p': "settle_signal present aid p = set_obj aid (signalCompletion a) p"
      by (simp add: settle_signal_def a)
    have "agent_ok (set_obj aid (signalCompletion a) p) ?g aid (signalCompletion a)"
      using ok ev g by (auto simp: agent_ok_def signalCompletion_def signalled_def settled_event_def split: option.splits)
    then show ?thesis unfolding p'
      by (intro pool_inv_update [OF inv, of _ aid "signalCompletion a" ?g]) simp_all
  next
    case False
    then have p': "settle_signal present aid p = p" by (simp add: settle_signal_def)
    have "agent_ok p ?g aid a"
      using ok ev g False by (auto simp: agent_ok_def will_signal_def)
    then show ?thesis unfolding p'
      by (intro pool_inv_goroutine [OF inv, of _ aid a]) (simp_all add: a)
  qed
qed

lemma inv_publish:
  assumes inv: "pool_inv p g" and g: "g aid = Some (Settling sub out ChannelClosed title sid present)"
  shows "pool_inv (settle_publish out aid sub p) (g(aid := None))"
proof -
  obtain a where a: "ap_objs p aid = Some a" using inv g by (fastforce simp: pool_inv_def)
  have "agent_ok (settle_publish out aid sub p) (g(aid := None)) aid a"
    using pool_inv_agent [OF inv a] g
    by (auto simp: agent_ok_def frame_simps will_signal_def past_event_def settled_event_def)
  then show ?thesis
    by (intro pool_inv_goroutine [OF inv, of _ aid a]) (simp_all add: frame_simps a)
qed

lemma pool_inv_step:
  assumes "pool_step E s s'" and "pool_inv (fst s) (snd s)"
  shows "pool_inv (fst s') (snd s')"
  using assms
proof (induction rule: pool_step.induct)
  case (st_return g aid sub p out)
  obtain p' g' where r: "go_return out aid sub (p, g) = (p', g')" by (metis prod.collapse)
  then show ?case using inv_return [OF _ st_return.hyps r] st_return.prems by simp
qed (auto simp: fresh_agent_def SetEventCallbackForSession_def intro: inv_spawn inv_describe inv_stop inv_cancel
    inv_remove inv_ctx inv_task inv_event inv_signal inv_publish pool_inv_frame)

lemma pool_inv_init: "pool_inv (NewAgentPool n db d) Map.empty"
  by (simp add: pool_inv_def NewAgentPool_def)

lemma pool_inv_steps: "(pool_step E)\<^sup>*\<^sup>* s s' \<Longrightarrow> pool_inv (fst s) (snd s) \<Longrightarrow> pool_inv (fst s') (snd s')"
  by (induction rule: rtranclp_induct) (auto intro: pool_inv_step)

lemma pool_reach_inv: "pool_reach E n db d p g \<Longrightarrow> pool_inv p g"
  using pool_inv_steps [of E _ "(p, g)"] pool_inv_init [of n db d] by (fastforce simp: pool_reach_def)

section \<open>Objects stay\<close>

definition same_agents :: "(string \<rightharpoonup> running_agent) \<Rightarrow> (string \<rightharpoonup> running_agent) \<Rightarrow> bool" where
  "same_agents m m' \<longleftrightarrow> (\<forall>aid a. m aid = Some a \<longrightarrow> (\<exists>a'. m' aid = Some a' \<and> ra_session_id a' = ra_session_id a))"

lemma same_agents_refl [simp]: "same_agents m m"
  by (simp add: same_agents_def)

lemma same_agents_trans: "same_agents m m' \<Longrightarrow> same_agents m' m'' \<Longrightarrow> same_agents m m''"
  unfolding same_agents_def by metis

lemma same_agents_new: "m aid = None \<Longrightarrow> same_agents m (m(aid \<mapsto> a))"
  by (auto simp: same_agents_def)

lemma same_agents_upd:
  "m aid = Some a \<Longrightarrow> ra_session_id a' = ra_session_id a \<Longrightarrow> same_agents m (m(aid \<mapsto> a'))"
  by (auto simp: same_agents_def)

lemma session_kept [simp]:
  "ra_session_id (signalCompletion a) = ra_session_id a"
  "ra_session_id (stop_agent a) = ra_session_id a"
  "ra_session_id (outcome_state out a) = ra_session_id a"
  by (cases out; simp add: signalCompletion_def stop_agent_def split: option.splits)+

lemma same_agents_map:
  "(\<And>aid a. ra_session_id (f aid a) = ra_session_id a) \<Longrightarrow> same_agents m (\<lambda>aid. map_option (f aid) (m aid))"
  by (auto simp: same_agents_def)

lemma removed_session [simp]: "ra_session_id (removed_agent sid p aid a) = ra_session_id a"
  by (simp add: removed_agent_def)

lemma registerAgent_same:
  "registerAgent E now sid aid a p = (r, p') \<Longrightarrow> ap_objs p aid = None \<Longrightarrow> same_agents (ap_objs p) (ap_objs p')"
  by (auto simp: registerAgent_def put_agent_def Let_def same_agents_new split: option.splits sum.splits)

lemma lookup_obj: "pool_lookup p aid = Some a \<Longrightarrow> ap_objs p aid = Some a"
  by (auto simp: pool_lookup_def split: if_splits)

lemma start_same:
  assumes "registers E now sid aid p r p'" and "ap_objs p aid = None"
  shows "same_agents (ap_objs p) (ap_objs p')"
proof -
  obtain db c p1 a p2 q where ctx1: "getOrCreateSessionCtx sid (p\<lparr>ap_db := db\<rparr>) = (c, p1)"
    and reg: "registerAgent E now sid aid a p1 = (q, p2)"
    and q: "case q of Some e \<Rightarrow> r = Inl e \<and> p' = p2 | None \<Rightarrow> r = Inr aid \<and> (\<exists>ev. p' = emitEventForSession ev p2)"
    using assms(1) unfolding registers_def by blast
  have "ap_objs p1 = ap_objs p" using ctx_objs [of sid "p\<lparr>ap_db := db\<rparr>"] by (simp add: ctx1)
  moreover have "ap_objs p' = ap_objs p2" using q by (auto split: option.splits)
  ultimately show ?thesis using registerAgent_same [OF reg] assms(2) by simp
qed

lemma spawn_same:
  assumes "ap_objs p (''code-agent-'' @ new) = None" and "Spawn E now new ctx sid pk sub blocking p = (r, p')"
  shows "same_agents (ap_objs p) (ap_objs p')"
  using spawn_registers [OF assms(2)] start_same [of E now sid _ p r p'] assms(1) by auto

lemma describe_same:
  assumes "ap_objs p (agentType @ ''-'' @ new) = None"
    and "SpawnWithDescription E now new sid pk agentType desc blocking p = (r, p')"
  shows "same_agents (ap_objs p) (ap_objs p')"
  using start_same [OF describe_registers [OF assms(2)]] assms(1) by simp

lemma pool_step_same: "pool_step E s s' \<Longrightarrow> same_agents (ap_objs (fst s)) (ap_objs (fst s'))"
proof (induction rule: pool_step.induct)
  case (st_spawn sid new p now ctx projectKey sub blocking r p' g)
  then show ?case using spawn_same [of p new] by (simp add: fresh_agent_def)
next
  case (st_describe sid agentType new p now projectKey description blocking r p' g)
  then show ?case using describe_same [of p agentType new] by (simp add: fresh_agent_def)
next
  case (st_stop aid p r p' g)
  then show ?case
    by (auto simp: StopAgent_def settle_frames same_agents_def dest!: lookup_obj split: option.splits if_splits)
next
  case (st_cancel p g sid)
  then show ?case by (simp add: CancelRunningAgents_def same_agents_map)
next
  case (st_remove p g sid)
  then show ?case by (simp add: RemoveSession_fields same_agents_map)
next
  case (st_return g aid sub p out)
  then show ?case
    by (auto simp: go_return_def settle_state_def Let_def dest!: lookup_obj intro: same_agents_upd
        split: prod.splits option.splits)
next
  case (st_signal g aid sub out title sid present p)
  then show ?case
    by (auto simp: settle_signal_def intro: same_agents_upd split: option.splits)
qed (simp_all add: frame_simps SetEventCallbackForSession_def)

lemma pool_steps_same: "(pool_step E)\<^sup>*\<^sup>* s s' \<Longrightarrow> same_agents (ap_objs (fst s)) (ap_objs (fst s'))"
  by (induction rule: rtranclp_induct) (auto intro: same_agents_trans pool_step_same)

section \<open>Properties of waiting\<close>

lemma running_ids_objs:
  assumes "pool_inv p g" and "aid \<in> set (getRunningAgentIDs sid p)"
  shows "\<exists>a. ap_objs p aid = Some a \<and> ra_session_id a = sid"
proof -
  obtain k a where a: "ap_objs p k = Some a" and k: "k \<in> set (ap_agents p)" and "ra_session_id a = sid" "ra_id a = aid"
    using assms(2) by (auto simp: getRunningAgentIDs_def pool_agents_def List.map_filter_def)
  with pool_inv_agent [OF assms(1) a] show ?thesis by (auto simp: agent_ok_def)
qed

lemma wait_enter_fields:
  assumes "wait_enter sid p = (ws, p1)"
  shows "ap_objs p1 = ap_objs p" and "ap_agents p1 = ap_agents p" and "ap_emitted p1 = ap_emitted p"
    and "ws_agents ws = getRunningAgentIDs sid p1"
  using assms by (auto simp: wait_enter_def getOrCreateSessionCtx_def split: prod.splits option.splits)

lemma ended_signalled:
  assumes "pool_inv p g" and "ap_objs p aid = Some a" and "g aid = None"
  shows "signalled a"
  using pool_inv_agent [OF assms(1,2)] assms(3) by (auto simp: agent_ok_def will_signal_def)

text \<open>C9: no wait for agents is lost.  Whatever is spawned, stopped, removed or settled in between, once the
  goroutines of the agents a wait has collected are over, however they ended, the wait can return, and its
  result lists every one of them that is still in the pool, none of them as running.  (An agent that was
  stopped, or whose session was removed, releases the wait even earlier.)\<close>

theorem waits_are_released:
  assumes "pool_reach E n db d p g" and "wait_enter sid p = (ws, p1)"
    and "(pool_step E)\<^sup>*\<^sup>* (p1, g) (p', g')" and "\<forall>aid \<in> set (ws_agents ws). g' aid = None"
  shows "(WaitReturns (all_done_result sid p'), cleanupInterruptCtx sid p') \<in> WaitForAllSessionAgents sid turn_done ws p' \<and>
    (\<forall>aid \<in> set (ws_agents ws). aid \<in> set (ap_agents p') \<longrightarrow>
      (\<exists>info. wr_results (all_done_result sid p') aid = Some info \<and> ci_agent_id info = aid \<and> ci_status info \<noteq> ''running''))"
proof -
  have inv1: "pool_inv p1 g" using pool_reach_inv [OF assms(1)] wait_enter_fields [OF assms(2)]
    by (intro pool_inv_frame [of p g p1]) simp_all
  have inv': "pool_inv p' g'" using pool_inv_steps [OF assms(3)] inv1 by simp
  have obj: "\<exists>a. ap_objs p' aid = Some a \<and> ra_session_id a = sid \<and> signalled a" if aid: "aid \<in> set (ws_agents ws)" for aid
  proof -
    obtain a where "ap_objs p1 aid = Some a" "ra_session_id a = sid"
      using running_ids_objs [OF inv1] aid wait_enter_fields(4) [OF assms(2)] by auto
    then obtain a' where a': "ap_objs p' aid = Some a'" "ra_session_id a' = sid"
      using pool_steps_same [OF assms(3)] by (auto simp: same_agents_def)
    have "signalled a'" by (rule ended_signalled [OF inv' a'(1)]) (use assms(4) aid in blast)
    with a' show ?thesis by (intro exI [of _ a']) simp
  qed
  then have "channels_closed ws p'" by (force simp: channels_closed_def list_all_iff)
  then have ret: "(WaitReturns (all_done_result sid p'), cleanupInterruptCtx sid p') \<in> WaitForAllSessionAgents sid turn_done ws p'"
    by (simp add: WaitForAllSessionAgents_def)
  have "\<exists>info. wr_results (all_done_result sid p') aid = Some info \<and> ci_agent_id info = aid \<and> ci_status info \<noteq> ''running''"
    if aid: "aid \<in> set (ws_agents ws)" and key: "aid \<in> set (ap_agents p')" for aid
  proof -
    obtain a where a: "ap_objs p' aid = Some a" "ra_session_id a = sid" "signalled a" using obj [OF aid] by blast
    then have "ra_id a = aid" and "ra_status a \<noteq> ''running''"
      using pool_inv_agent [OF inv' a(1)] key by (auto simp: agent_ok_def)
    with a key show ?thesis
      by (simp add: all_done_result_def buildResults_def pool_lookup_def toCompletionInfo_def snapshot_def)
  qed
  with ret show ?thesis by blast
qed

text \<open>A pool with one agent and a wait for it, without a database.\<close>

definition demo_env :: "(unit, unit, unit) pool_env" where
  "demo_env =
     \<lparr>pe_tasks = \<lparr>sm_AssignTaskToAgent = (\<lambda>_ _ _ _. Inl ()), sm_CompleteTask = (\<lambda>_ _ _ _. Inl ()),
        sm_FailTask = (\<lambda>_ _ _ _. Inl ()), sm_GetTask = (\<lambda>_ _ _. Inl ())\<rparr>,
      pe_runs = None, pe_uuid = \<lparr>uuid_parse = (\<lambda>_. Inl ''''), uuid_string = (\<lambda>_. '''')\<rparr>\<rparr>"

definition demo_pool :: "(unit, unit) agent_pool" where
  "demo_pool = snd (SpawnWithDescription demo_env 3 ''1'' ''s'' '''' ''coder'' ''look'' True
     (NewAgentPool 0 () ()))"

definition demo_gos :: "string \<rightharpoonup> goroutine" where
  "demo_gos = [''coder-1'' \<mapsto> Working '''']"

lemma demo_spawned:
  "SpawnWithDescription demo_env 3 ''1'' ''s'' '''' ''coder'' ''look'' True (NewAgentPool 0 () ()) =
     (Inr ''coder-1'', demo_pool)"
  by (simp add: demo_pool_def SpawnWithDescription_def demo_env_def NewAgentPool_def getOrCreateSessionCtx_def
      registerAgent_def check_limit_def Let_def)

lemmas demo_pool_simps = demo_pool_def SpawnWithDescription_def demo_env_def NewAgentPool_def
  getOrCreateSessionCtx_def registerAgent_def check_limit_def Let_def put_agent_def set_obj_def new_running_def
  emitEventForSession_def NewInterruptManager_def

lemma demo_reach: "pool_reach demo_env 0 () () demo_pool demo_gos"
proof -
  have "pool_step demo_env (NewAgentPool 0 () (), Map.empty)
      (demo_pool, started (Inr ''coder-1'' :: unit pool_error + string) '''' Map.empty)"
    by (rule st_describe [OF _ _ demo_spawned]) (simp_all add: fresh_agent_def NewAgentPool_def demo_env_def)
  then show ?thesis by (auto simp: pool_reach_def started_def demo_gos_def)
qed

lemma demo_keys: "ap_agents demo_pool = [''coder-1'']"
  by (simp add: demo_pool_simps)

lemma demo_objs: "\<exists>a. ap_objs demo_pool ''coder-1'' = Some a \<and> ra_id a = ''coder-1'' \<and>
    ra_session_id a = ''s'' \<and> ra_status a = ''running'' \<and> ra_completion a = Some False"
  by (simp add: demo_pool_simps)

theorem waits_are_released_witness:
  "let (ws, p1) = wait_enter ''s'' demo_pool; p' = markCompleted demo_env ''coder-1'' '''' ''ok'' p1 in
   ws_agents ws = [''coder-1''] \<and>
   (WaitReturns (all_done_result ''s'' p'), cleanupInterruptCtx ''s'' p') \<in> WaitForAllSessionAgents ''s'' False ws p'"
proof -
  obtain ws p1 where enter: "wait_enter ''s'' demo_pool = (ws, p1)" by (metis prod.collapse)
  have ws: "ws_agents ws = [''coder-1'']"
    using demo_objs demo_keys wait_enter_fields [OF enter]
    by (auto simp: getRunningAgentIDs_def pool_agents_def List.map_filter_def)
  have "demo_gos ''coder-1'' = Some (Working '''')" by (simp add: demo_gos_def)
  from settle_steps(1) [where g = demo_gos and p = p1 and E = demo_env and result = "''ok''", OF this]
  have steps: "(pool_step demo_env)\<^sup>*\<^sup>* (p1, demo_gos)
    (markCompleted demo_env ''coder-1'' '''' ''ok'' p1, demo_gos(''coder-1'' := None))" .
  from waits_are_released [OF demo_reach enter steps, of False] ws enter show ?thesis by simp
qed

text \<open>a wait is released by a settled agent only after its completion or failure event was handed to the
  client: if nobody has stopped the agent and its session has not been removed, a closed channel means that
  the event is out.  An agent that the pool reports as running has its channel open and its goroutine at work.\<close>

theorem event_before_release:
  assumes "pool_reach E n db d p g" and "ap_objs p aid = Some a"
  shows "(signalled a \<and> \<not> ra_cancelled a \<longrightarrow> settled_event aid p) \<and>
    (aid \<in> set (ap_agents p) \<and> ra_status a = ''running'' \<longrightarrow> \<not> signalled a \<and> (\<exists>sub. g aid = Some (Working sub)))"
  using pool_inv_agent [OF pool_reach_inv [OF assms(1)] assms(2)] by (simp add: agent_ok_def)

theorem event_before_release_witness:
  "\<exists>a. ap_objs demo_pool ''coder-1'' = Some a \<and> \<not> signalled a \<and> (\<exists>sub. demo_gos ''coder-1'' = Some (Working sub))"
proof -
  obtain a where a: "ap_objs demo_pool ''coder-1'' = Some a" and "ra_status a = ''running''" using demo_objs by blast
  with event_before_release [OF demo_reach a] demo_keys show ?thesis by simp
qed

end
