(* ===== verification/Agent_Pool_Limit.thy ===== *)
theory Agent_Pool_Limit
  imports Agent_Pool_Steps
begin

text \<open>
  The limit on concurrent agents (\<open>registerAgent\<close> of \<open>internal/service/agent/agent_pool.go\<close>).  The pool
  does not count its agents: it counts the run records of the session, which it writes when it registers an
  agent and updates after the agent has left the state \<open>running\<close>.  The theory shows that this is enough
  whenever the storage takes the records, and what happens when it does not.
\<close>

section \<open>Running agents and their records\<close>

definition running_agents :: "string \<Rightarrow> ('db, 'd) agent_pool \<Rightarrow> string set" where
  "running_agents sid p =
     {aid \<in> set (ap_agents p). \<exists>a. ap_objs p aid = Some a \<and> ra_session_id a = sid \<and> ra_status a = ''running''}"

lemma finite_running [simp]: "finite (running_agents sid p)"
  by (simp add: running_agents_def)

definition limit_inv :: "('d \<Rightarrow> agent_run_model list) \<Rightarrow> ('db, 'd) agent_pool \<Rightarrow> bool" where
  "limit_inv rows p \<longleftrightarrow>
     (\<forall>sid. \<forall>aid \<in> running_agents sid p. \<exists>m \<in> set (rows (ap_runs p)). am_id m = aid \<and> running_in sid m) \<and>
     (\<forall>j \<in> set (ap_jobs p). ap_objs p (job_agent j) \<noteq> None \<and> (\<forall>sid. job_agent j \<notin> running_agents sid p)) \<and>
     (\<forall>sid. int (card (running_agents sid p)) \<le> ap_max p)"

text \<open>A step that starts no agent.\<close>

definition quiet :: "('db, 'd) agent_pool \<Rightarrow> ('db, 'd) agent_pool \<Rightarrow> bool" where
  "quiet p p' \<longleftrightarrow> ap_max p' = ap_max p \<and> (\<forall>sid. running_agents sid p' \<subseteq> running_agents sid p)"

lemma quietI:
  assumes "ap_max p' = ap_max p" and "set (ap_agents p') \<subseteq> set (ap_agents p)"
    and "\<And>aid a'. ap_objs p' aid = Some a' \<Longrightarrow> aid \<in> set (ap_agents p') \<Longrightarrow> ra_status a' = ''running'' \<Longrightarrow>
      \<exists>a. ap_objs p aid = Some a \<and> ra_session_id a = ra_session_id a' \<and> ra_status a = ''running''"
  shows "quiet p p'"
  using assms by (fastforce simp: quiet_def running_agents_def)

lemma limit_inv_quiet:
  assumes inv: "limit_inv rows p" and q: "quiet p p'" and same: "same_agents (ap_objs p) (ap_objs p')"
    and runs: "ap_runs p' = ap_runs p"
    and jobs: "\<And>j. j \<in> set (ap_jobs p') \<Longrightarrow> j \<in> set (ap_jobs p) \<or>
      ap_objs p' (job_agent j) \<noteq> None \<and> (\<forall>sid. job_agent j \<notin> running_agents sid p')"
  shows "limit_inv rows p'"
proof -
  have "card (running_agents sid p') \<le> card (running_agents sid p)" for sid
    using q by (intro card_mono) (auto simp: quiet_def)
  then have "int (card (running_agents sid p')) \<le> ap_max p'" for sid
    using inv q by (metis limit_inv_def quiet_def of_nat_le_iff order_trans)
  moreover have "ap_objs p' (job_agent j) \<noteq> None \<and> (\<forall>sid. job_agent j \<notin> running_agents sid p')"
    if "j \<in> set (ap_jobs p')" for j
    using jobs [OF that] inv q same unfolding limit_inv_def quiet_def same_agents_def
    by (metis (no_types, lifting) not_Some_eq subsetD)
  ultimately show ?thesis
    using inv q unfolding limit_inv_def quiet_def runs by blast
qed

lemma quiet_set_obj:
  assumes "ap_objs p aid = Some a" and "ra_session_id a' = ra_session_id a"
    and "ra_status a' = ''running'' \<Longrightarrow> ra_status a = ''running''"
  shows "quiet p (set_obj aid a' p)"
  using assms by (intro quietI) (auto simp: set_obj_def split: if_splits)

lemma running_agents_cong:
  "ap_objs p' = ap_objs p \<Longrightarrow> ap_agents p' = ap_agents p \<Longrightarrow> running_agents sid p' = running_agents sid p"
  by (simp add: running_agents_def)

section \<open>Registration\<close>

context reliable_run_store
begin

lemma count_bound:
  assumes inv: "limit_inv rows p" and count: "CountRunningBySession Q sid (ap_runs p) = Inr n"
  shows "card (running_agents sid p) \<le> n"
proof -
  let ?rows = "filter (running_in sid) (rows (ap_runs p))"
  have "running_agents sid p \<subseteq> am_id ` set ?rows" using inv by (fastforce simp: limit_inv_def)
  then have "card (running_agents sid p) \<le> card (am_id ` set ?rows)" by (intro card_mono) auto
  also have "\<dots> \<le> length ?rows" by (metis card_image_le finite_set card_length le_trans)
  finally show ?thesis using count_running [OF count] by simp
qed

lemma limit_inv_register:
  assumes inv: "limit_inv rows p" and pool: "pool_inv p g"
    and runs: "pe_runs E = Some Q" and max: "0 < ap_max p"
    and fresh: "fresh_agent E aid p" and sid: "sid \<noteq> ''''" and aid: "aid \<noteq> ''''"
    and acc: "\<And>m. accepts m"
    and new: "new_agent aid sid a" and reg: "registerAgent E now sid aid a p = (r, p')"
  shows "limit_inv rows p'"
proof (cases r)
  case (Some e)
  with registerAgent_result [OF reg sid aid] inv show ?thesis by simp
next
  case None
  have obj: "ap_objs p aid = None" and norow: "aid \<notin> am_id ` set (rows (ap_runs p))"
    using fresh runs missing_key by (auto simp: fresh_agent_def)
  have key: "aid \<notin> set (ap_agents p)" using pool obj by (auto simp: pool_inv_def)
  obtain run where run: "NewAgentRun now aid (ra_agent_type a) sid = Inr run" using NewAgentRun_ok [OF aid sid] by blast
  note rf = NewAgentRun_fields [OF run]
  obtain d where save: "rs_Save Q run (ap_runs p) = Inr d"
    using save_ok [OF acc, of run "ap_runs p"] rf norow by auto
  obtain n where count: "CountRunningBySession Q sid (ap_runs p) = Inr n" and lt: "int n < ap_max p"
    using reg None runs max by (auto simp: registerAgent_def check_limit_def split: sum.splits if_splits)
  have p': "p' = (put_agent aid a p)\<lparr>ap_runs := d\<rparr>"
    using reg runs max count lt run save by (auto simp: registerAgent_def check_limit_def Let_def put_agent_def set_obj_def)
  obtain t where rows': "rows d = rows (ap_runs p) @ [(agentRunToModel run)\<lparr>am_tenant_id := t\<rparr>]"
    using save_rows [OF save] by blast
  have R: "running_agents s p' = (if s = sid then insert aid (running_agents s p) else running_agents s p)" for s
    using new key obj by (auto simp: running_agents_def p' put_agent_def set_obj_def new_agent_def)
  have "int (card (running_agents s p')) \<le> ap_max p'" for s
  proof (cases "s = sid")
    case True
    have "card (running_agents s p') \<le> Suc (card (running_agents s p))" by (simp add: R card_insert_if)
    also have "\<dots> \<le> Suc n" using count_bound [OF inv count] True by simp
    finally have "int (card (running_agents s p')) \<le> int (Suc n)" by simp
    also have "\<dots> \<le> ap_max p'" using lt by (simp add: p' put_agent_def set_obj_def)
    finally show ?thesis .
  next
    case False
    then have "running_agents s p' = running_agents s p" by (simp add: R)
    moreover have "ap_max p' = ap_max p" by (simp add: p' put_agent_def set_obj_def)
    ultimately show ?thesis using inv by (simp add: limit_inv_def)
  qed
  moreover have "\<exists>m \<in> set (rows d). am_id m = x \<and> running_in s m" if "x \<in> running_agents s p'" for s x
    using that inv rf by (auto simp: R rows' limit_inv_def running_in_def agentRunToModel_def split: if_splits)
  moreover have "ap_objs p' (job_agent j) \<noteq> None \<and> (\<forall>s. job_agent j \<notin> running_agents s p')"
    if j: "j \<in> set (ap_jobs p')" for j
  proof -
    have "ap_jobs p' = ap_jobs p" and "ap_objs p' = (ap_objs p)(aid \<mapsto> a)"
      by (simp_all add: p' put_agent_def set_obj_def)
    with j inv obj show ?thesis by (auto simp: R limit_inv_def)
  qed
  ultimately show ?thesis by (simp add: limit_inv_def p')
qed

text \<open>Bringing a record up to date does not touch the records of running agents.\<close>

lemma limit_inv_job:
  assumes inv: "limit_inv rows p" and jobs: "ap_jobs p = js @ j # js'"
  shows "limit_inv rows (p\<lparr>ap_runs := run_run_job Q now j (ap_runs p), ap_jobs := js @ js'\<rparr>)"
proof -
  let ?d = "run_run_job Q now j (ap_runs p)"
  have keep: "m \<in> set (rows ?d)" if "m \<in> set (rows (ap_runs p))" and "am_id m \<noteq> job_agent j" for m
  proof (cases "?d = ap_runs p")
    case False
    then obtain run where get: "rs_GetByID Q (job_agent j) (ap_runs p) = Inr (Some run)"
      and upd: "rs_Update Q (job_update now j run) (ap_runs p) = Inr ?d"
      by (auto simp: run_run_job_def split: sum.splits option.splits)
    have "ar_id run = job_agent j" using get_run [OF get] by (auto simp: modelToAgentRun_def)
    then have "ar_id (job_update now j run) = job_agent j"
      by (cases j) (simp_all add: run_stop_def run_complete_def run_fail_def)
    then have "finish_row (job_update now j run) m = m" using that(2) by (simp add: finish_row_def)
    then show ?thesis using that(1) update_run_rows [OF upd] by force
  qed (use that in simp)
  have no: "job_agent j \<notin> running_agents s p" for s using inv jobs by (simp add: limit_inv_def)
  have R: "running_agents s (p\<lparr>ap_runs := ?d, ap_jobs := js @ js'\<rparr>) = running_agents s p" for s
    by (rule running_agents_cong) simp_all
  have "\<exists>m \<in> set (rows ?d). am_id m = x \<and> running_in s m" if x: "x \<in> running_agents s p" for s x
  proof -
    obtain m where "m \<in> set (rows (ap_runs p))" "am_id m = x" "running_in s m"
      using inv x unfolding limit_inv_def by blast
    with keep [of m] no [of s] x show ?thesis by metis
  qed
  then show ?thesis using inv jobs by (auto simp: limit_inv_def R)
qed

text \<open>Both ways to start an agent register it between harmless changes.\<close>

lemma limit_inv_same:
  assumes "limit_inv rows p" and "ap_objs p' = ap_objs p" and "ap_agents p' = ap_agents p"
    and "ap_runs p' = ap_runs p" and "ap_jobs p' = ap_jobs p" and "ap_max p' = ap_max p"
  shows "limit_inv rows p'"
  using assms by (simp add: limit_inv_def running_agents_cong [of p' p])

lemma limit_inv_ctx: "limit_inv rows p \<Longrightarrow> limit_inv rows (snd (getOrCreateSessionCtx sid p))"
  by (erule limit_inv_same) (simp_all add: getOrCreateSessionCtx_def split: option.splits)

lemma fresh_ctx: "fresh_agent E aid p \<Longrightarrow> fresh_agent E aid (snd (getOrCreateSessionCtx sid p))"
  by (simp add: fresh_agent_def getOrCreateSessionCtx_def split: option.splits)

lemma max_ctx [simp]: "ap_max (snd (getOrCreateSessionCtx sid p)) = ap_max p"
  by (simp add: getOrCreateSessionCtx_def split: option.splits)

lemma limit_inv_start:
  assumes inv: "limit_inv rows p" and pool: "pool_inv p g"
    and runs: "pe_runs E = Some Q" and max: "0 < ap_max p" and acc: "\<And>m. accepts m"
    and fresh: "fresh_agent E aid p" and sid: "sid \<noteq> ''''" and aid: "aid \<noteq> ''''"
    and reg: "registers E now sid aid p r p'"
  shows "limit_inv rows p'" and "ap_max p' = ap_max p"
proof -
  obtain db c p1 a p2 q where ctx1: "getOrCreateSessionCtx sid (p\<lparr>ap_db := db\<rparr>) = (c, p1)"
    and new: "new_agent aid sid a" and reg: "registerAgent E now sid aid a p1 = (q, p2)"
    and q: "case q of Some e \<Rightarrow> r = Inl e \<and> p' = p2 | None \<Rightarrow> r = Inr aid \<and> (\<exists>ev. p' = emitEventForSession ev p2)"
    using reg unfolding registers_def by blast
  have inv0: "limit_inv rows (p\<lparr>ap_db := db\<rparr>)" by (rule limit_inv_same [OF inv]) simp_all
  have pool0: "pool_inv (p\<lparr>ap_db := db\<rparr>) g" by (rule pool_inv_frame [OF pool]) simp_all
  have fresh0: "fresh_agent E aid (p\<lparr>ap_db := db\<rparr>)" using fresh by (simp add: fresh_agent_def)
  have max1: "ap_max p1 = ap_max p" using max_ctx [of sid "p\<lparr>ap_db := db\<rparr>"] ctx1 by simp
  have inv2: "limit_inv rows p2"
  proof (rule limit_inv_register [OF _ _ runs _ _ sid aid acc new reg])
    show "limit_inv rows p1" using limit_inv_ctx [OF inv0, of sid] ctx1 by simp
    show "pool_inv p1 g" using inv_ctx [OF pool0, of sid] ctx1 by simp
    show "fresh_agent E aid p1" using fresh_ctx [OF fresh0, of sid] ctx1 by simp
    show "0 < ap_max p1" using max1 max by simp
  qed
  have "ap_max p2 = ap_max p1" using reg
    by (auto simp: registerAgent_def put_agent_def set_obj_def Let_def split: option.splits sum.splits)
  then show "limit_inv rows p'" and "ap_max p' = ap_max p"
    using q inv2 max1 by (auto simp: emitEventForSession_def intro: limit_inv_same split: option.splits)
qed

lemma limit_inv_stop:
  assumes inv: "limit_inv rows p" and runs: "pe_runs E = Some Q" and run: "StopAgent E aid p = (r, p')"
  shows "limit_inv rows p' \<and> ap_max p' = ap_max p"
proof (cases "\<exists>a. pool_lookup p aid = Some a \<and> ra_status a = ''running''")
  case False
  then have "p' = p" using run by (auto simp: StopAgent_def split: option.splits if_splits)
  then show ?thesis using inv by simp
next
  case True
  then obtain a where look: "pool_lookup p aid = Some a" and run1: "ra_status a = ''running''" by blast
  let ?p = "set_obj aid (stop_agent a) p"
  have p': "p' = ?p\<lparr>ap_jobs := ap_jobs p @ [JobStop aid]\<rparr>"
    using run look run1 runs by (simp add: StopAgent_def add_job_def set_obj_def)
  have obj: "ap_objs p aid = Some a" by (rule lookup_obj [OF look])
  have stopped: "ra_status (stop_agent a) = ''stopped''"
    by (simp add: stop_agent_def signalCompletion_def split: option.splits)
  then have "quiet p ?p" using obj by (intro quiet_set_obj) simp_all
  then have q: "quiet p p'" by (simp add: p' quiet_def running_agents_def set_obj_def)
  have "limit_inv rows p'"
  proof (rule limit_inv_quiet [OF inv q])
    show "same_agents (ap_objs p) (ap_objs p')" using obj by (auto simp: p' set_obj_def intro: same_agents_upd)
    show "ap_runs p' = ap_runs p" by (simp add: p' set_obj_def)
    fix j assume "j \<in> set (ap_jobs p')"
    then show "j \<in> set (ap_jobs p) \<or> ap_objs p' (job_agent j) \<noteq> None \<and> (\<forall>sid. job_agent j \<notin> running_agents sid p')"
      using stopped by (auto simp: p' set_obj_def running_agents_def)
  qed
  then show ?thesis using q by (simp add: quiet_def)
qed

lemma limit_inv_quiet_same:
  assumes "limit_inv rows p" and "quiet p p'" and "same_agents (ap_objs p) (ap_objs p')"
    and "ap_runs p' = ap_runs p" and "ap_jobs p' = ap_jobs p"
  shows "limit_inv rows p' \<and> ap_max p' = ap_max p"
  using limit_inv_quiet [OF assms(1-4)] assms(2,5) by (simp add: quiet_def)

lemma limit_inv_return:
  assumes inv: "limit_inv rows p" and same: "same_agents (ap_objs p) (ap_objs p')"
    and ret: "go_return out aid sub (p, g) = (p', g')"
  shows "limit_inv rows p' \<and> ap_max p' = ap_max p"
proof (cases "pool_lookup p aid")
  case None
  then have "p' = p" using ret by (auto simp: go_return_def settle_read_def settle_state_def split: if_splits)
  then show ?thesis using inv by simp
next
  case (Some a)
  then have p': "p' = set_obj aid (outcome_state out a) p"
    using ret by (auto simp: go_return_def settle_read_def settle_state_def split: if_splits)
  have "ra_status (outcome_state out a) \<noteq> ''running''" by (cases out) simp_all
  then have "quiet p p'" using lookup_obj [OF Some] by (auto simp: p' intro: quiet_set_obj)
  then show ?thesis by (rule limit_inv_quiet_same [OF inv _ same]) (simp_all add: p' set_obj_def)
qed

lemma limit_inv_task:
  assumes inv: "limit_inv rows p" and pool: "pool_inv p g"
    and g: "g aid = Some (Settling sub out StateSet title sid present)"
  shows "limit_inv rows (settle_task E out aid sub p) \<and> ap_max (settle_task E out aid sub p) = ap_max p"
proof -
  let ?p = "settle_task E out aid sub p"
  have max: "ap_max ?p = ap_max p" and runs: "ap_runs ?p = ap_runs p"
    by (simp_all add: settle_task_def add_job_def Let_def split: option.splits sum.splits outcome.splits)
  have objs: "ap_objs ?p = ap_objs p" and keys: "ap_agents ?p = ap_agents p" by (simp_all only: settle_frames)
  have jobs: "j \<in> set (ap_jobs ?p) \<Longrightarrow> j \<in> set (ap_jobs p) \<or> job_agent j = aid" for j
    by (auto simp: settle_task_def add_job_def Let_def split: option.splits sum.splits outcome.splits if_splits)
  obtain a where a: "ap_objs p aid = Some a" using pool g by (fastforce simp: pool_inv_def)
  have "aid \<notin> running_agents s ?p" for s
    using pool_inv_agent [OF pool a] a g by (auto simp: running_agents_def objs keys agent_ok_def)
  then have "limit_inv rows ?p"
    using jobs a by (intro limit_inv_quiet [OF inv _ _ runs])
      (auto simp: quiet_def max objs keys running_agents_cong [of ?p p])
  then show ?thesis by (simp add: max)
qed

lemma limit_inv_signal:
  assumes inv: "limit_inv rows p"
  shows "limit_inv rows (settle_signal present aid p) \<and> ap_max (settle_signal present aid p) = ap_max p"
proof (cases "ap_objs p aid")
  case None
  then show ?thesis using inv by (simp add: settle_signal_def)
next
  case (Some a)
  have st: "ra_status (signalCompletion a) = ra_status a" by (simp add: signalCompletion_def split: option.splits)
  have "limit_inv rows (set_obj aid (signalCompletion a) p) \<and> ap_max (set_obj aid (signalCompletion a) p) = ap_max p"
    using Some st by (intro limit_inv_quiet_same [OF inv quiet_set_obj [OF Some]])
      (simp_all add: set_obj_def same_agents_upd)
  then show ?thesis using Some inv by (simp add: settle_signal_def)
qed

lemma limit_inv_cancel:
  assumes inv: "limit_inv rows p"
  shows "limit_inv rows (CancelRunningAgents sid p) \<and> ap_max (CancelRunningAgents sid p) = ap_max p"
proof (rule limit_inv_quiet_same [OF inv])
  have stopped: "ra_status (stop_agent a) = ''stopped''" for a
    by (simp add: stop_agent_def signalCompletion_def split: option.splits)
  show "quiet p (CancelRunningAgents sid p)"
    by (rule quietI) (auto simp: CancelRunningAgents_def stopped split: if_splits)
qed (simp_all add: CancelRunningAgents_def same_agents_map)

lemma limit_inv_remove:
  assumes inv: "limit_inv rows p"
  shows "limit_inv rows (RemoveSession sid p) \<and> ap_max (RemoveSession sid p) = ap_max p"
proof (rule limit_inv_quiet_same [OF inv])
  have st: "ra_status (removed_agent sid p aid a) = ra_status a" for aid a
    by (simp add: removed_agent_def signalCompletion_def split: option.splits)
  show "quiet p (RemoveSession sid p)"
    by (rule quietI) (auto simp: RemoveSession_fields st)
qed (simp_all add: RemoveSession_fields same_agents_map)

lemma limit_inv_step:
  assumes step: "pool_step E s s'" and "limit_inv rows (fst s)" and "pool_inv (fst s) (snd s)"
    and "pe_runs E = Some Q" and "0 < ap_max (fst s)" and acc: "\<And>m. accepts m"
  shows "limit_inv rows (fst s') \<and> ap_max (fst s') = ap_max (fst s)"
  using assms
proof (induction rule: pool_step.induct)
  case (st_spawn sid new p now ctx projectKey sub blocking r p' g)
  have "p' = p \<or> registers E now sid (''code-agent-'' @ new) p r p'"
    using spawn_registers [OF st_spawn.hyps(3)] by blast
  then show ?case
  proof
    assume reg: "registers E now sid (''code-agent-'' @ new) p r p'"
    from limit_inv_start [OF _ _ st_spawn.prems(3) _ acc st_spawn.hyps(2,1) code_agent_id(1) reg] st_spawn.prems
    show ?case by simp
  qed (use st_spawn.prems in simp)
next
  case (st_describe sid agentType new p now projectKey description blocking r p' g)
  note reg = describe_registers [OF st_describe.hyps(3)]
  from limit_inv_start [OF _ _ st_describe.prems(3) _ acc st_describe.hyps(2,1) code_agent_id(2) reg] st_describe.prems
  show ?case by simp
next
  case (st_return g aid sub p out)
  obtain p' g' where ret: "go_return out aid sub (p, g) = (p', g')" by (metis prod.collapse)
  have "same_agents (ap_objs p) (ap_objs p')"
    using pool_step_same [OF pool_step.st_return [of g aid sub E p out, OF st_return.hyps]] ret by simp
  then show ?case using limit_inv_return [OF _ _ ret] st_return.prems ret by simp
next
  case (st_job p js j js' Q' g now)
  then show ?case using limit_inv_job [of p js j js' now] by simp
next
  case (st_stop aid p r p' g)
  then show ?case using limit_inv_stop by simp
next
  case (st_task g aid sub out title sid present p)
  then show ?case using limit_inv_task [of p g aid sub out title sid present E] by simp
qed (auto simp: limit_inv_cancel limit_inv_remove limit_inv_signal
    intro: limit_inv_ctx limit_inv_same simp: SetEventCallbackForSession_def settle_emit_def emitEventForSession_def settle_publish_def
    split: option.splits)

lemma limit_inv_steps:
  assumes "(pool_step E)\<^sup>*\<^sup>* s s'" and "limit_inv rows (fst s)" and "pool_inv (fst s) (snd s)"
    and "pe_runs E = Some Q" and "0 < ap_max (fst s)" and acc: "\<And>m. accepts m"
  shows "limit_inv rows (fst s') \<and> ap_max (fst s') = ap_max (fst s) \<and> pool_inv (fst s') (snd s')"
  using assms
proof (induction rule: rtranclp_induct)
  case (step s1 s2)
  then show ?case using limit_inv_step [OF step.hyps(2) _ _ step.prems(3) _ acc] pool_inv_step [OF step.hyps(2)]
    by auto
qed simp

end

section \<open>The limit\<close>

lemma limit_inv_init: "0 \<le> n \<Longrightarrow> limit_inv rows (NewAgentPool n db d)"
  by (simp add: limit_inv_def NewAgentPool_def running_agents_def)


definition limit_env :: "(unit, unit, agent_run_model list) pool_env" where
  "limit_env =
     \<lparr>pe_tasks = \<lparr>sm_AssignTaskToAgent = (\<lambda>_ _ _ _. Inl ()), sm_CompleteTask = (\<lambda>_ _ _ _. Inl ()),
        sm_FailTask = (\<lambda>_ _ _ _. Inl ()), sm_GetTask = (\<lambda>_ _ _. Inl ())\<rparr>,
      pe_runs = Some (mem_run_store (\<lambda>_. True)),
      pe_uuid = \<lparr>uuid_parse = (\<lambda>_. Inl ''''), uuid_string = (\<lambda>_. '''')\<rparr>\<rparr>"

definition limit_pool :: "(unit, agent_run_model list) agent_pool" where
  "limit_pool = snd (SpawnWithDescription limit_env 3 ''1'' ''s'' '''' ''coder'' ''look'' True
     (NewAgentPool 1 () []))"

lemmas limit_simps = SpawnWithDescription_def limit_env_def NewAgentPool_def getOrCreateSessionCtx_def
  registerAgent_def check_limit_def Let_def put_agent_def set_obj_def new_running_def NewAgentRun_def
  run_validate_def rs_Save_def mem_run_store_def run_row_typed_def agentRunToModel_def
  CountRunningBySession_def running_in_def emitEventForSession_def

lemma limit_spawned:
  "SpawnWithDescription limit_env 3 ''1'' ''s'' '''' ''coder'' ''look'' True (NewAgentPool 1 () []) =
     (Inr ''coder-1'', limit_pool)"
  by (simp add: limit_pool_def limit_simps)

lemma limit_refuses:
  "fst (SpawnWithDescription limit_env 4 ''2'' ''s'' '''' ''coder'' ''look'' True limit_pool) =
     Inl (MaxConcurrentReached 1 1)"
  by (simp add: limit_pool_def limit_simps)


section \<open>Where the pool does not keep its word\<close>

text \<open>
  The columns \<open>id\<close> and \<open>agent_id\<close> of the table have the type \<open>uuid\<close>, and the pool writes texts such as
  \<open>code-agent-1a2b3c4d\<close> and \<open>coder\<close> into them.  Every insert fails, the error is only logged, no record is
  ever counted, and so no agent is ever refused.
\<close>

lemma limit_never_reached:
  assumes "pe_runs E = Some (mem_run_store is_uuid)" and "ap_runs p = []" and "\<not> is_uuid (ra_agent_type running)"
    and "sid \<noteq> ''''" and "aid \<noteq> ''''"
  shows "registerAgent E now sid aid running p = (None, put_agent aid running p) \<and>
    ap_runs (put_agent aid running p) = []"
  using assms
  by (simp add: registerAgent_def check_limit_def CountRunningBySession_def mem_run_store_def NewAgentRun_def
      run_validate_def Let_def rs_Save_def run_row_typed_def agentRunToModel_def put_agent_def set_obj_def)

text \<open>An agent that was stopped does not stay stopped: when its engine returns, usually with the error of the
  cancelled context, the agent is marked as failed, and its task too.\<close>

lemma stop_does_not_stick:
  assumes "pool_lookup p aid = Some a" and "ra_status a = ''running''" and "StopAgent E aid p = (r, p')"
  shows "\<exists>a'. pool_lookup p' aid = Some a' \<and> ra_status a' = ''stopped'' \<and>
    (\<exists>a''. ap_objs (settle_state (Errored reason) aid p') aid = Some a'' \<and> ra_status a'' = ''failed'')"
proof -
  have key: "aid \<in> set (ap_agents p)" using assms(1) by (auto simp: pool_lookup_def split: if_splits)
  have p': "p' = add_job E (JobStop aid) (set_obj aid (stop_agent a) p)"
    using assms by (simp add: StopAgent_def)
  have look: "pool_lookup p' aid = Some (stop_agent a)" using key by (simp add: p' pool_lookup_def settle_frames)
  have "ra_status (stop_agent a) = ''stopped''" by (simp add: stop_agent_def signalCompletion_def split: option.splits)
  then show ?thesis using look by (simp add: settle_state_def)
qed

text \<open>With an empty session the record cannot be built; the agent stays registered as running although
  \<open>Spawn\<close> has reported an error and no goroutine was started, and every wait of that session blocks.\<close>

lemma unregistered_agent_stays:
  assumes "pe_runs E = Some Q" and "ap_max p = 0"
  shows "registerAgent E now '''' aid running p =
    (Some (PoolCreateRun (if aid = '''' then ''id is required'' else ''session_id is required'')), put_agent aid running p)"
  using assms by (simp add: registerAgent_def check_limit_def NewAgentRun_def run_validate_def Let_def)

text \<open>The task manager of the engine, as the pool is given it.\<close>

definition pool_tasks :: "'db task_sql \<Rightarrow> time \<Rightarrow> ('db, mgr_error) subtask_manager" where
  "pool_tasks S now =
     \<lparr>sm_AssignTaskToAgent = AssignTaskToAgent S now, sm_CompleteTask = CompleteTask S now,
      sm_FailTask = FailTask S now, sm_GetTask = (\<lambda>ctx i s. map_sum id Some (GetTask S ctx i s))\<rparr>"

text \<open>
  Settling an agent runs with \<open>context.Background()\<close>, which carries no tenant: the task is looked up among the
  tasks of the community tenant only, so the task of an agent of any other tenant stays in progress.
\<close>

lemma settling_keeps_other_tenants:
  assumes "task_store S tbl" and "table_ok (tbl (ap_db p))" and "pe_tasks E = pool_tasks S now"
  shows "others CETenantID (tbl (ap_db (settle_all E out aid sub p))) = others CETenantID (tbl (ap_db p))"
proof -
  have db: "ap_db (settle_all E out aid sub p) = ap_db (settle_task E out aid sub (settle_state out aid p))"
    by (auto simp: settle_all_def settle_publish_def settle_signal_def settle_emit_def emitEventForSession_def
        set_obj_def Let_def split: prod.splits option.splits)
  have st: "ap_db (settle_state out aid p) = ap_db p"
    by (simp add: settle_state_def set_obj_def split: option.splits)
  let ?db = "ap_db (settle_task E out aid sub (settle_state out aid p))"
  have "?db = ap_db p \<or> (\<exists>i. sm_CompleteTask (pool_tasks S now) '''' i (outcome_text out) (ap_db p) = Inr ?db \<or>
      sm_FailTask (pool_tasks S now) '''' i (outcome_text out) (ap_db p) = Inr ?db)"
    using assms(3) st
    by (cases out) (auto simp: settle_task_def add_job_def Let_def split: option.splits sum.splits if_splits)
  then consider "?db = ap_db p"
    | i where "mgr_step S ('''', CmdSetStatus now i ''completed'' (outcome_text out)) (ap_db p) = Inr ?db"
    | i where "mgr_step S ('''', CmdFail now i (outcome_text out)) (ap_db p) = Inr ?db"
    by (auto simp: pool_tasks_def CompleteTask_def SetTaskStatus_def task_status_of_string_def)
  then have "others (tenantIDFromCtx '''') (tbl ?db) = others (tenantIDFromCtx '''') (tbl (ap_db p))"
  proof cases
    case (2 i)
    from task_store.mgr_step_ok [OF assms(1) this assms(2)] show ?thesis by blast
  next
    case (3 i)
    from task_store.mgr_step_ok [OF assms(1) this assms(2)] show ?thesis by blast
  qed simp
  then show ?thesis by (simp add: db tenantIDFromCtx_def)
qed

end
