(* ===== verification/Go_Strings.thy ===== *)
theory Go_Strings
  imports Prelude
begin

text \<open>
  More of Go's \<open>strings\<close> and \<open>strconv\<close> packages, as the modelled code calls them: \<open>Split\<close> on a line
  break, \<open>TrimSpace\<close>, \<open>TrimRight\<close>, \<open>ToLower\<close> on ASCII, \<open>ToValidUTF8\<close> and \<open>Atoi\<close>, with the facts the
  component theories use.
\<close>

section \<open>Decimal numbers\<close>

definition is_digit :: "char \<Rightarrow> bool" where
  "is_digit c \<longleftrightarrow> in_byte_range 48 57 c"

definition digits_value :: "string \<Rightarrow> int" where
  "digits_value ds = foldl (\<lambda>n d. 10 * n + int (of_char d - 48)) 0 ds"

text \<open>\<open>strconv.Atoi\<close>: an optional sign and digits, refused outside the range of a 64-bit integer.\<close>

definition go_atoi :: "string \<Rightarrow> int option" where
  "go_atoi s =
     (let neg = (take 1 s = ''-''); ds = (if take 1 s = ''-'' \<or> take 1 s = ''+'' then drop 1 s else s);
          n = (if neg then - digits_value ds else digits_value ds)
      in if ds \<noteq> [] \<and> (\<forall>c \<in> set ds. is_digit c) \<and> - (2 ^ 63) \<le> n \<and> n < 2 ^ 63 then Some n else None)"

lemma digit_char [simp]: "k < 10 \<Longrightarrow> of_char (char_of (48 + k) :: char) = 48 + k" for k :: nat
  by simp

lemma digits_value_append: "digits_value (ds @ [d]) = 10 * digits_value ds + int (of_char d - 48)"
  by (simp add: digits_value_def)

lemma digits_value_dec_nat: "digits_value (dec_nat n) = int n"
proof (induction n rule: dec_nat.induct)
  case (1 n)
  show ?case
  proof (cases "n < 10")
    case True
    then show ?thesis by (subst dec_nat.simps) (simp add: digits_value_def)
  next
    case False
    then have "digits_value (dec_nat (n div 10)) = int (n div 10)" using 1 by simp
    moreover have "10 * int (n div 10) + int (n mod 10) = int n" by presburger
    ultimately show ?thesis using False by (subst dec_nat.simps) (simp add: digits_value_append)
  qed
qed

lemma dec_nat_digits: "c \<in> set (dec_nat n) \<Longrightarrow> is_digit c"
proof (induction n rule: dec_nat.induct)
  case (1 n)
  have digit: "is_digit (char_of (48 + k))" if "k < 10" for k :: nat
    using that by (simp add: is_digit_def in_byte_range_def)
  show ?case
  proof (cases "n < 10")
    case True
    then show ?thesis using 1(2) digit by (subst (asm) dec_nat.simps) simp
  next
    case False
    then show ?thesis using 1 digit [of "n mod 10"] by (subst (asm) (2) dec_nat.simps) auto
  qed
qed

lemma hd_dec_nat: "is_digit (hd (dec_nat n))"
  by (rule dec_nat_digits [of _ n]) simp

lemma sign_not_digit [simp]: "\<not> is_digit (CHR ''-'')" "\<not> is_digit (CHR ''+'')"
  by (simp_all add: is_digit_def in_byte_range_def)

lemma dec_nat_no_sign: "take 1 (dec_nat n) \<noteq> ''-''" "take 1 (dec_nat n) \<noteq> ''+''"
  using hd_dec_nat [of n] by (cases "dec_nat n"; auto)+

lemma go_atoi_dec_int: "- (2 ^ 63) \<le> n \<Longrightarrow> n < 2 ^ 63 \<Longrightarrow> go_atoi (dec_int n) = Some n"
  using dec_nat_no_sign [of "nat n"] dec_nat_digits
  by (auto simp: go_atoi_def dec_int_def Let_def digits_value_dec_nat)

section \<open>Trimming\<close>

fun trim_right_byte :: "char \<Rightarrow> string \<Rightarrow> string" where
  "trim_right_byte c s = rev (dropWhile (\<lambda>x. x = c) (rev s))"

text \<open>The encodings of the white space characters of Unicode, \<open>unicode.IsSpace\<close>.\<close>

definition space_runes :: "string list" where
  "space_runes =
     [[CHR 0x20], [CHR 0x0A], [CHR 0x09], [CHR 0x0D], [CHR 0x0B], [CHR 0x0C], [CHR 0xC2, CHR 0x85], [CHR 0xC2, CHR 0xA0],
      [CHR 0xE1, CHR 0x9A, CHR 0x80], [CHR 0xE2, CHR 0x80, CHR 0x80], [CHR 0xE2, CHR 0x80, CHR 0x81],
      [CHR 0xE2, CHR 0x80, CHR 0x82], [CHR 0xE2, CHR 0x80, CHR 0x83], [CHR 0xE2, CHR 0x80, CHR 0x84],
      [CHR 0xE2, CHR 0x80, CHR 0x85], [CHR 0xE2, CHR 0x80, CHR 0x86], [CHR 0xE2, CHR 0x80, CHR 0x87],
      [CHR 0xE2, CHR 0x80, CHR 0x88], [CHR 0xE2, CHR 0x80, CHR 0x89], [CHR 0xE2, CHR 0x80, CHR 0x8A],
      [CHR 0xE2, CHR 0x80, CHR 0xA8], [CHR 0xE2, CHR 0x80, CHR 0xA9], [CHR 0xE2, CHR 0x80, CHR 0xAF],
      [CHR 0xE2, CHR 0x81, CHR 0x9F], [CHR 0xE3, CHR 0x80, CHR 0x80]]"

fun drop_runes :: "nat \<Rightarrow> string list \<Rightarrow> string \<Rightarrow> string" where
  "drop_runes 0 rs s = s"
| "drop_runes (Suc k) rs s =
     (case filter (\<lambda>r. has_prefix s r) rs of [] \<Rightarrow> s | r # _ \<Rightarrow> drop_runes k rs (drop (length r) s))"

text \<open>\<open>strings.TrimSpace\<close>: at most \<open>len(s)\<close> characters can be removed at each end.\<close>

definition trim_left_space :: "string \<Rightarrow> string" where
  "trim_left_space s = drop_runes (length s) space_runes s"

definition trim_right_space :: "string \<Rightarrow> string" where
  "trim_right_space s = rev (drop_runes (length s) (map rev space_runes) (rev s))"

definition trim_space :: "string \<Rightarrow> string" where
  "trim_space s = trim_right_space (trim_left_space s)"

lemma drop_runes_suffix: "\<exists>p. s = p @ drop_runes k rs s"
proof (induction k arbitrary: s)
  case (Suc k)
  then show ?case
  proof (cases "filter (\<lambda>r. has_prefix s r) rs")
    case (Cons r rest)
    obtain p where "drop (length r) s = p @ drop_runes k rs (drop (length r) s)" using Suc by blast
    then have "s = (take (length r) s @ p) @ drop_runes k rs (drop (length r) s)" by (metis append.assoc append_take_drop_id)
    then show ?thesis using Cons by (intro exI [of _ "take (length r) s @ p"]) simp
  qed simp
qed simp

lemma trim_right_space_prefix: "\<exists>q. s = trim_right_space s @ q"
proof -
  obtain p where "rev s = p @ drop_runes (length s) (map rev space_runes) (rev s)" using drop_runes_suffix by blast
  then have "s = trim_right_space s @ rev p" unfolding trim_right_space_def by (metis rev_append rev_rev_ident)
  then show ?thesis by blast
qed

lemma trim_space_inside: "\<exists>p q. s = p @ trim_space s @ q"
proof -
  obtain p where p: "s = p @ trim_left_space s" using drop_runes_suffix unfolding trim_left_space_def by blast
  obtain q where "trim_left_space s = trim_space s @ q" using trim_right_space_prefix unfolding trim_space_def by blast
  then show ?thesis using p by metis
qed

lemma length_trim_space: "length (trim_space s) \<le> length s"
proof -
  obtain p q where "s = p @ trim_space s @ q" using trim_space_inside by blast
  then have "length s = length p + (length (trim_space s) + length q)" by (metis length_append)
  then show ?thesis by simp
qed

section \<open>Splitting\<close>

text \<open>\<open>strings.Split\<close> with a one-byte separator; the result is never empty.\<close>

fun split_byte :: "char \<Rightarrow> string \<Rightarrow> string list" where
  "split_byte c [] = [[]]"
| "split_byte c (x # xs) =
     (if x = c then [] # split_byte c xs
      else case split_byte c xs of [] \<Rightarrow> [[x]] | l # ls \<Rightarrow> (x # l) # ls)"

lemma split_byte_nonempty [simp]: "split_byte c s \<noteq> []"
  by (induction s) (auto split: list.splits)

lemma join_split_byte: "str_join [c] (split_byte c s) = s"
proof (induction s)
  case (Cons x xs)
  obtain l ls where "split_byte c xs = l # ls" by (cases "split_byte c xs") auto
  then show ?case using Cons by (cases ls) auto
qed simp

lemma split_byte_no_sep: "l \<in> set (split_byte c s) \<Longrightarrow> c \<notin> set l"
proof (induction s arbitrary: l)
  case (Cons x xs)
  then show ?case by (cases "split_byte c xs") (auto split: if_splits)
qed simp

lemma split_byte_append_sep:
  "c \<notin> set l \<Longrightarrow> split_byte c (l @ c # s) = l # split_byte c s"
proof (induction l)
  case (Cons x l)
  then show ?case by (cases "split_byte c s") auto
qed simp

lemma split_byte_line: "c \<notin> set l \<Longrightarrow> split_byte c l = [l]"
  by (induction l) auto

lemma split_byte_join:
  "ls \<noteq> [] \<Longrightarrow> (\<And>l. l \<in> set ls \<Longrightarrow> c \<notin> set l) \<Longrightarrow> split_byte c (str_join [c] ls) = ls"
proof (induction ls rule: induct_list012)
  case (3 l m ls)
  then show ?case using split_byte_append_sep [of c l "str_join [c] (m # ls)"] by simp
qed (auto simp: split_byte_line)

text \<open>\<open>strings.Split\<close> with a longer separator, by \<open>strings.Index\<close>.\<close>

function split_on :: "string \<Rightarrow> string \<Rightarrow> string list" where
  "split_on sep s =
     (case str_index s sep of
        Some i \<Rightarrow> if sep = [] then [s] else take i s # split_on sep (drop (i + length sep) s)
      | None \<Rightarrow> [s])"
  by pat_completeness auto
termination
proof (relation "measure (\<lambda>(sep, s). length s)", simp)
  fix sep s i
  assume "str_index s sep = Some i" "sep \<noteq> []"
  then have "length s = i + length sep + length (drop (i + length sep) s)" "0 < length sep"
    using str_index_split [of s sep i] by (auto simp del: length_greater_0_conv)
  then have "length (drop (i + length sep) s) < length s" by linarith
  then show "((sep, drop (i + length sep) s), sep, s) \<in> measure (\<lambda>(sep, s). length s)" by (simp only: in_measure case_prod_conv)
qed

declare split_on.simps [simp del]

lemma split_on_nonempty [simp]: "split_on sep s \<noteq> []"
  by (simp add: split_on.simps [of sep s] split: option.splits)

lemma join_split_on: "str_join sep (split_on sep s) = s"
proof (induction sep s rule: split_on.induct)
  case (1 sep s)
  show ?case
  proof (cases "\<exists>i. str_index s sep = Some i \<and> sep \<noteq> []")
    case False
    then show ?thesis by (subst split_on.simps) (auto split: option.splits)
  next
    case True
    then obtain i where i: "str_index s sep = Some i" "sep \<noteq> []" by blast
    then have IH: "str_join sep (split_on sep (drop (i + length sep) s)) = drop (i + length sep) s" using 1 by blast
    obtain l ls where "split_on sep (drop (i + length sep) s) = l # ls"
      by (cases "split_on sep (drop (i + length sep) s)") auto
    then have "str_join sep (split_on sep s) = take i s @ sep @ drop (i + length sep) s"
      using IH i by (subst split_on.simps) simp
    then show ?thesis using str_index_split [OF i(1)] by simp
  qed
qed

section \<open>Letters\<close>

definition lower_byte :: "char \<Rightarrow> char" where
  "lower_byte c = (if in_byte_range 65 90 c then char_of (of_char c + 32 :: nat) else c)"

text \<open>\<open>strings.ToLower\<close> on the ASCII letters.\<close>

definition lower_ascii :: "string \<Rightarrow> string" where
  "lower_ascii s = map lower_byte s"

section \<open>Valid UTF-8\<close>

text \<open>\<open>utf8.ValidString\<close> and \<open>strings.ToValidUTF8\<close>, which replaces every run of invalid bytes once.\<close>

function valid_utf8 :: "string \<Rightarrow> bool" where
  "valid_utf8 s =
     (if s = [] then True else if rune_width s = 0 then False else valid_utf8 (drop (rune_width s) s))"
  by pat_completeness auto
termination
  by (relation "measure length") auto

function to_valid_utf8 :: "bool \<Rightarrow> string \<Rightarrow> string \<Rightarrow> string" where
  "to_valid_utf8 invalid r s =
     (if s = [] then []
      else if rune_width s = 0 then (if invalid then [] else r) @ to_valid_utf8 True r (drop 1 s)
      else take (rune_width s) s @ to_valid_utf8 False r (drop (rune_width s) s))"
  by pat_completeness auto
termination
  by (relation "measure (\<lambda>(_, _, s). length s)") auto

declare valid_utf8.simps [simp del] to_valid_utf8.simps [simp del]

lemma rune_width_append: "rune_width s \<noteq> 0 \<Longrightarrow> rune_width (take (rune_width s) s @ t) = rune_width s \<and> rune_width s \<le> length s"
proof (cases s)
  case (Cons a s1)
  assume width: "rune_width s \<noteq> 0"
  show ?thesis
  proof (cases "in_byte_range 0 0x7F a")
    case True
    then show ?thesis by (simp add: Cons rune_width_def)
  next
    case False
    then obtain b s2 where s1: "s1 = b # s2" using width Cons by (cases s1) (simp_all add: rune_width_def)
    show ?thesis
    proof (cases "in_byte_range 0xC2 0xDF a")
      case True
      then show ?thesis using width False by (simp add: Cons s1 rune_width_def numeral_2_eq_2 split: if_splits)
    next
      case two: False
      then obtain c s3 where s2: "s2 = c # s3" using width Cons s1 False by (cases s2) (simp_all add: rune_width_def)
      show ?thesis
      proof (cases "in_byte_range 0xE0 0xEF a")
        case True
        then show ?thesis using width False two
          by (simp add: Cons s1 s2 rune_width_def numeral_3_eq_3 split: if_splits)
      next
        case three: False
        then obtain d s4 where s3: "s3 = d # s4" using width Cons s1 s2 False two by (cases s3) (simp_all add: rune_width_def)
        show ?thesis using width False two three
          by (simp add: Cons s1 s2 s3 rune_width_def eval_nat_numeral split: if_splits)
      qed
    qed
  qed
qed (simp add: rune_width_def)

lemma valid_utf8_Nil [simp]: "valid_utf8 []"
  by (simp add: valid_utf8.simps)

lemma valid_utf8_rune: "rune_width s \<noteq> 0 \<Longrightarrow> valid_utf8 t \<Longrightarrow> valid_utf8 (take (rune_width s) s @ t)"
  using rune_width_append [of s t] by (subst valid_utf8.simps) simp

lemma valid_utf8_append: "valid_utf8 s \<Longrightarrow> valid_utf8 t \<Longrightarrow> valid_utf8 (s @ t)"
proof (induction s rule: valid_utf8.induct)
  case (1 s)
  show ?case
  proof (cases "s = []")
    case False
    then have width: "rune_width s \<noteq> 0" and rest: "valid_utf8 (drop (rune_width s) s)"
      using 1(2) by (simp_all add: valid_utf8.simps [of s] split: if_splits)
    then have "valid_utf8 (drop (rune_width s) s @ t)" using 1(1) False 1(3) by simp
    from valid_utf8_rune [OF width this] show ?thesis by (metis append.assoc append_take_drop_id)
  qed (use 1 in simp)
qed

lemma valid_utf8_concat: "(\<And>s. s \<in> set ss \<Longrightarrow> valid_utf8 s) \<Longrightarrow> valid_utf8 (concat ss)"
  by (induction ss) (auto intro: valid_utf8_append)

lemma valid_utf8_ascii [simp]: "of_char c < (128 :: nat) \<Longrightarrow> valid_utf8 (c # s) = valid_utf8 s"
proof -
  assume "of_char c < (128 :: nat)"
  then have "rune_width (c # s) = 1" by (auto simp: rune_width_def in_byte_range_def)
  then show ?thesis by (subst valid_utf8.simps) simp
qed

lemma to_valid_is_valid: "valid_utf8 r \<Longrightarrow> valid_utf8 (to_valid_utf8 invalid r s)"
proof (induction invalid r s rule: to_valid_utf8.induct)
  case (1 invalid r s)
  consider "s = []" | "s \<noteq> []" "rune_width s = 0" | "s \<noteq> []" "rune_width s \<noteq> 0" by blast
  then show ?case
  proof cases
    case 1
    then show ?thesis by (simp add: to_valid_utf8.simps)
  next
    case 2
    then show ?thesis using "1.IH"(1) [OF 2] "1.prems" by (subst to_valid_utf8.simps) (auto intro: valid_utf8_append)
  next
    case 3
    then show ?thesis using "1.IH"(2) [OF 3] "1.prems" by (subst to_valid_utf8.simps) (auto intro: valid_utf8_rune)
  qed
qed

lemma to_valid_id: "valid_utf8 s \<Longrightarrow> to_valid_utf8 invalid r s = s"
proof (induction s arbitrary: invalid rule: valid_utf8.induct)
  case (1 s)
  show ?case
  proof (cases "s = []")
    case False
    then show ?thesis using 1 by (simp add: valid_utf8.simps [of s] to_valid_utf8.simps [of invalid r s] split: if_splits)
  qed (simp add: to_valid_utf8.simps)
qed

lemma rune_error_valid [simp]: "valid_utf8 rune_error"
proof -
  have width: "rune_width rune_error = 3" by (simp add: rune_error_def rune_width_def in_byte_range_def)
  show ?thesis by (subst valid_utf8.simps) (simp add: width, simp add: rune_error_def)
qed

end
