(* ===== verification/Output_Buffer.thy ===== *)
theory Output_Buffer
  imports Go_Strings
begin

text \<open>
  The output of a shell (\<open>internal/infrastructure/shell/output_buffer.go\<close>): a buffer that keeps the last
  bytes of what the process has written and finds the marker line that ends a command.  The regular
  expression of the marker is deterministic, so its matches are computed by a left-to-right scan.  A wait
  is split at its blocking point: it registers a channel, and the channel is filled by the \<open>Append\<close> that
  completes the marker, closed by \<open>CancelPending\<close>, or given up at the timeout.

  The theory proves that the buffer is the tail of the output and that a command's exit code and output are
  read back from what the wrapped command prints.
\<close>

section \<open>Markers\<close>

definition DefaultMaxSize :: int where
  "DefaultMaxSize = 1024 * 1024"

record marker_result =
  mr_exit_code :: int
  mr_output :: string

definition marker_prefix :: string where
  "marker_prefix = ''__BYTEBREW_DONE_''"

definition is_hex :: "char \<Rightarrow> bool" where
  "is_hex c \<longleftrightarrow> in_byte_range 97 102 c \<or> is_digit c"

text \<open>A match of \<open>markerRegex\<close> at the front of a string: the two groups and what follows.\<close>

definition match_marker :: "string \<Rightarrow> (string \<times> string \<times> string) option" where
  "match_marker s =
     (if has_prefix s marker_prefix
      then (let r = drop (length marker_prefix) s; mid = takeWhile is_hex r; r2 = dropWhile is_hex r
            in if mid \<noteq> [] \<and> has_prefix r2 ''_''
               then (let r3 = drop 1 r2; sign = (if has_prefix r3 ''-'' then ''-'' else ''''); r4 = drop (length sign) r3;
                         ds = takeWhile is_digit r4; r5 = dropWhile is_digit r4
                     in if ds \<noteq> [] \<and> has_prefix r5 ''__'' then Some (mid, sign @ ds, drop 2 r5) else None)
               else None)
      else None)"

text \<open>The exit code of a marker: an optional minus sign and digits.\<close>

definition code_text :: "string \<Rightarrow> bool" where
  "code_text code \<longleftrightarrow> (\<exists>sign ds. code = sign @ ds \<and> (sign = [] \<or> sign = ''-'') \<and> ds \<noteq> [] \<and> (\<forall>c \<in> set ds. is_digit c))"

definition marker_text :: "string \<Rightarrow> string \<Rightarrow> string" where
  "marker_text mid code = marker_prefix @ mid @ ''_'' @ code @ ''__''"

lemma match_marker_split:
  assumes "match_marker s = Some (mid, code, rest)"
  shows "s = marker_text mid code @ rest" and "mid \<noteq> []" and "\<forall>c \<in> set mid. is_hex c" and "code_text code"
proof -
  define r where "r = drop (length marker_prefix) s"
  define r3 where "r3 = drop 1 (dropWhile is_hex r)"
  define sign where "sign = (if has_prefix r3 ''-'' then ''-'' else [])"
  define r5 where "r5 = dropWhile is_digit (drop (length sign) r3)"
  have parts: "has_prefix s marker_prefix" "mid = takeWhile is_hex r" "mid \<noteq> []" "has_prefix (dropWhile is_hex r) ''_''"
    "code = sign @ takeWhile is_digit (drop (length sign) r3)" "takeWhile is_digit (drop (length sign) r3) \<noteq> []"
    "has_prefix r5 ''__''" "rest = drop 2 r5"
    using assms unfolding match_marker_def Let_def r_def [symmetric] r3_def [symmetric] sign_def [symmetric] r5_def [symmetric]
    by (auto split: if_splits)
  have "r5 = ''__'' @ rest" using has_prefix_split [OF parts(7)] parts(8) by (simp add: numeral_2_eq_2)
  moreover have "drop (length sign) r3 = takeWhile is_digit (drop (length sign) r3) @ r5" by (simp add: r5_def)
  moreover have "r3 = sign @ drop (length sign) r3" using has_prefix_split [of r3 "''-''"] by (simp add: sign_def)
  ultimately have "r3 = code @ ''__'' @ rest" using parts(5) by (metis append.assoc)
  moreover have "dropWhile is_hex r = ''_'' @ r3" using has_prefix_split [OF parts(4)] by (simp add: r3_def)
  moreover have "r = mid @ dropWhile is_hex r" by (simp add: parts(2))
  moreover have "s = marker_prefix @ r" using has_prefix_split [OF parts(1)] by (simp add: r_def)
  ultimately show "s = marker_text mid code @ rest" by (simp add: marker_text_def)
  show "mid \<noteq> []" by (rule parts(3))
  show "\<forall>c \<in> set mid. is_hex c" using parts(2) by (auto dest: set_takeWhileD)
  show "code_text code" unfolding code_text_def
    using parts(5,6) by (intro exI [of _ sign] exI [of _ "takeWhile is_digit (drop (length sign) r3)"])
      (auto simp: sign_def dest: set_takeWhileD)
qed

lemma not_hex [simp]: "\<not> is_hex (CHR ''_'')" "\<not> is_hex (CHR 0x0A)" "\<not> is_digit (CHR ''_'')" "\<not> is_digit (CHR 0x0A)"
  by (simp_all add: is_hex_def is_digit_def in_byte_range_def)

lemma match_marker_text:
  assumes "mid \<noteq> []" and hex: "\<forall>c \<in> set mid. is_hex c" and "code_text code"
  shows "match_marker (marker_text mid code @ rest) = Some (mid, code, rest)"
proof -
  obtain sign ds where code: "code = sign @ ds" "sign = [] \<or> sign = ''-''" "ds \<noteq> []" "\<forall>c \<in> set ds. is_digit c"
    using assms(3) by (auto simp: code_text_def)
  have "has_prefix (code @ ''__'' @ rest) ''-'' \<longleftrightarrow> sign = ''-''"
    using code by (cases ds) (auto simp: has_prefix_def)
  then have sign: "(if has_prefix (code @ ''__'' @ rest) ''-'' then ''-'' else []) = sign" using code(2) by auto
  have tw: "takeWhile is_hex (mid @ ''_'' @ t) = mid" "dropWhile is_hex (mid @ ''_'' @ t) = ''_'' @ t" for t
    using hex by (simp_all add: takeWhile_append2 dropWhile_append2)
  have td: "takeWhile is_digit (ds @ ''__'' @ rest) = ds" "dropWhile is_digit (ds @ ''__'' @ rest) = ''__'' @ rest"
    using code(4) by (simp_all add: takeWhile_append2 dropWhile_append2)
  have "drop (length sign) (code @ ''__'' @ rest) = ds @ ''__'' @ rest" by (simp add: code(1))
  then show ?thesis
    using assms(1) sign tw td code(1,3)
    unfolding match_marker_def marker_text_def append.assoc has_prefix_append Let_def
    by (simp add: has_prefix_def)
qed

lemma match_marker_shorter: "match_marker s = Some (mid, code, rest) \<Longrightarrow> length rest < length s"
  using match_marker_split(1) [of s mid code rest] by (simp add: marker_text_def marker_prefix_def)

text \<open>\<open>FindAllStringSubmatchIndex\<close>: the matches with the number of bytes before them.\<close>

function marker_matches :: "nat \<Rightarrow> string \<Rightarrow> (nat \<times> string \<times> string) list" where
  "marker_matches i s =
     (case match_marker s of
        Some (mid, code, rest) \<Rightarrow> (i, mid, code) # marker_matches (i + (length s - length rest)) rest
      | None \<Rightarrow> (case s of [] \<Rightarrow> [] | _ # cs \<Rightarrow> marker_matches (Suc i) cs))"
  by pat_completeness auto
termination
  by (relation "measure (\<lambda>(i, s). length s)") (auto dest: match_marker_shorter)

declare marker_matches.simps [simp del]

definition findMarker :: "string \<Rightarrow> string \<Rightarrow> marker_result option" where
  "findMarker buffer mid =
     (case filter (\<lambda>(i, m, code). m = mid \<and> go_atoi code \<noteq> None) (marker_matches 0 buffer) of
        [] \<Rightarrow> None
      | (i, m, code) # _ \<Rightarrow>
          Some \<lparr>mr_exit_code = the (go_atoi code), mr_output = trim_right_byte (CHR 0x0A) (take i buffer)\<rparr>)"

section \<open>The buffer\<close>

datatype wait_chan = Waiting | Delivered marker_result | Closed

record output_buffer =
  ob_buffer :: string
  ob_max :: nat
  ob_pending_id :: string
  ob_pending_ch :: "nat option"
  ob_chans :: "wait_chan list"

definition NewOutputBuffer :: "int \<Rightarrow> output_buffer" where
  "NewOutputBuffer maxSize =
     \<lparr>ob_buffer = [], ob_max = nat (if maxSize \<le> 0 then DefaultMaxSize else maxSize), ob_pending_id = [],
      ob_pending_ch = None, ob_chans = []\<rparr>"

text \<open>The non-blocking send to a channel that holds one result.\<close>

definition deliver :: "nat \<Rightarrow> marker_result \<Rightarrow> output_buffer \<Rightarrow> output_buffer" where
  "deliver ch r b =
     (if ch < length (ob_chans b) \<and> ob_chans b ! ch = Waiting then b\<lparr>ob_chans := (ob_chans b)[ch := Delivered r]\<rparr> else b)"

definition last_bytes :: "nat \<Rightarrow> string \<Rightarrow> string" where
  "last_bytes n s = drop (length s - n) s"

definition buffer_Append :: "string \<Rightarrow> output_buffer \<Rightarrow> output_buffer" where
  "buffer_Append chunk b =
     (let buf = ob_buffer b @ chunk;
          buf = (if length buf > ob_max b then drop (length buf - ob_max b) buf else buf);
          b = b\<lparr>ob_buffer := buf\<rparr>
      in case ob_pending_ch b of
           None \<Rightarrow> b
         | Some ch \<Rightarrow>
             if ob_pending_id b = [] then b
             else (case findMarker buf (ob_pending_id b) of
                     None \<Rightarrow> b
                   | Some r \<Rightarrow> deliver ch r (b\<lparr>ob_pending_id := [], ob_pending_ch := None\<rparr>)))"

text \<open>\<open>WaitForMarker\<close> up to its \<open>select\<close>: the result at once, or the channel that is waited on.\<close>

definition wait_begin :: "string \<Rightarrow> output_buffer \<Rightarrow> output_buffer \<times> (marker_result + nat)" where
  "wait_begin mid b =
     (case findMarker (ob_buffer b) mid of
        Some r \<Rightarrow> (b, Inl r)
      | None \<Rightarrow> (b\<lparr>ob_pending_id := mid, ob_pending_ch := Some (length (ob_chans b)), ob_chans := ob_chans b @ [Waiting]\<rparr>,
                 Inr (length (ob_chans b))))"

text \<open>A receive on the channel: blocked while it is empty, the zero value once it is closed.\<close>

definition zero_result :: marker_result where
  "zero_result = \<lparr>mr_exit_code = 0, mr_output = []\<rparr>"

definition wait_receive :: "nat \<Rightarrow> output_buffer \<Rightarrow> marker_result option" where
  "wait_receive ch b =
     (case ob_chans b ! ch of Waiting \<Rightarrow> None | Delivered r \<Rightarrow> Some r | Closed \<Rightarrow> Some zero_result)"

definition wait_timeout :: "output_buffer \<Rightarrow> output_buffer" where
  "wait_timeout b = b\<lparr>ob_pending_id := [], ob_pending_ch := None\<rparr>"

definition GetOutput :: "output_buffer \<Rightarrow> string" where
  "GetOutput b = ob_buffer b"

definition buffer_Reset :: "output_buffer \<Rightarrow> output_buffer" where
  "buffer_Reset b = b\<lparr>ob_buffer := []\<rparr>"

definition CancelPending :: "output_buffer \<Rightarrow> output_buffer" where
  "CancelPending b =
     (let b = (case ob_pending_ch b of None \<Rightarrow> b | Some ch \<Rightarrow> b\<lparr>ob_chans := (ob_chans b)[ch := Closed]\<rparr>)
      in b\<lparr>ob_pending_id := [], ob_pending_ch := None\<rparr>)"

text \<open>\<open>WrapCommand\<close>, with the random identifier as argument.\<close>

definition WrapCommand :: "string \<Rightarrow> string \<Rightarrow> string" where
  "WrapCommand mid command =
     command @ '' 2>&1; __vexit=$?; printf '' @ [CHR 0x27, CHR 0x5C] @ ''n__BYTEBREW_DONE_'' @ mid @ ''_%d__'' @
     [CHR 0x5C] @ ''n'' @ [CHR 0x27] @ '' $__vexit''"

section \<open>Matches and lines\<close>

lemma has_prefix_newline:
  assumes "CHR 0x0A \<notin> set p"
  shows "has_prefix (x @ CHR 0x0A # t) p = has_prefix x p"
  using assms
proof (induction p arbitrary: x)
  case (Cons c p)
  then show ?case by (cases x) (auto simp: has_prefix_def)
qed (simp add: has_prefix_def)

lemma no_newline:
  "\<forall>c \<in> set s. is_hex c \<Longrightarrow> CHR 0x0A \<notin> set s" "\<forall>c \<in> set s. is_digit c \<Longrightarrow> CHR 0x0A \<notin> set s"
  using not_hex by blast+

lemma match_marker_newline:
  "match_marker (x @ CHR 0x0A # t) = map_option (\<lambda>(mid, code, rest). (mid, code, rest @ CHR 0x0A # t)) (match_marker x)"
proof (cases "match_marker (x @ CHR 0x0A # t)")
  case (Some m)
  obtain mid code rest where m: "m = (mid, code, rest)" by (cases m)
  note parts = match_marker_split [OF Some [unfolded m]]
  have nonl: "CHR 0x0A \<notin> set (marker_text mid code)"
    using parts(3,4) by (auto simp: marker_text_def marker_prefix_def code_text_def dest: no_newline)
  then have "has_prefix x (marker_text mid code)" using has_prefix_newline [OF nonl, of x t] parts(1) by simp
  then obtain r where x: "x = marker_text mid code @ r" by (metis has_prefix_split)
  then have "rest = r @ CHR 0x0A # t" using parts(1) by simp
  then show ?thesis using match_marker_text [OF parts(2,3,4)] x Some m by simp
next
  case None
  have "match_marker x = None"
  proof (rule ccontr)
    assume "match_marker x \<noteq> None"
    then obtain mid code rest where "match_marker x = Some (mid, code, rest)" by auto
    note parts = match_marker_split [OF this]
    then have "match_marker (x @ CHR 0x0A # t) \<noteq> None" using match_marker_text [OF parts(2,3,4)] by simp
    then show False using None by simp
  qed
  then show ?thesis using None by simp
qed

lemma match_marker_newline_start [simp]: "match_marker (CHR 0x0A # t) = None"
  using match_marker_newline [of "[]" t] by (simp add: match_marker_def has_prefix_def marker_prefix_def)

lemma marker_matches_newline:
  "marker_matches i (x @ CHR 0x0A # t) = marker_matches i x @ marker_matches (Suc (i + length x)) t"
proof (induction i x rule: marker_matches.induct)
  case (1 i x)
  show ?case
  proof (cases "match_marker x")
    case None
    then have none: "match_marker (x @ CHR 0x0A # t) = None" by (simp add: match_marker_newline)
    show ?thesis
    proof (cases x)
      case Nil
      then show ?thesis by (simp add: marker_matches.simps [of i "_ # _"] marker_matches.simps [of i "[]"])
        (simp add: match_marker_def has_prefix_def marker_prefix_def)
    next
      case (Cons c cs)
      then have "marker_matches (Suc i) (cs @ CHR 0x0A # t) = marker_matches (Suc i) cs @ marker_matches (Suc (Suc i + length cs)) t"
        using 1(1) [OF None Cons] by simp
      then show ?thesis using Cons None none
        by (simp add: marker_matches.simps [of i "c # cs"] marker_matches.simps [of i "c # cs @ _"])
    qed
  next
    case (Some m)
    obtain mid code rest where m: "m = (mid, code, rest)" by (cases m)
    have less: "length rest < length x" using match_marker_shorter Some m by blast
    have "marker_matches (i + (length x - length rest)) (rest @ CHR 0x0A # t) =
        marker_matches (i + (length x - length rest)) rest @ marker_matches (Suc (i + (length x - length rest) + length rest)) t"
      using 1(2) Some m by simp
    then show ?thesis using Some m less
      by (simp add: marker_matches.simps [of i x] marker_matches.simps [of i "x @ _"] match_marker_newline)
  qed
qed

lemma marker_matches_marker:
  assumes "mid \<noteq> []" and "\<forall>c \<in> set mid. is_hex c" and "code_text code"
  shows "marker_matches i (marker_text mid code @ rest) =
    (i, mid, code) # marker_matches (i + length (marker_text mid code)) rest"
  using match_marker_text [OF assms] by (simp add: marker_matches.simps [of i "marker_text mid code @ rest"])

lemma marker_matches_ids: "(j, m, code) \<in> set (marker_matches i s) \<Longrightarrow> sublist m s"
proof (induction i s arbitrary: j m code rule: marker_matches.induct)
  case (1 i s)
  show ?case
  proof (cases "match_marker s")
    case None
    then obtain c cs where s: "s = c # cs" and "(j, m, code) \<in> set (marker_matches (Suc i) cs)"
      using 1(3) by (cases s) (simp_all add: marker_matches.simps [of i])
    then have "sublist m cs" using 1(1) None by blast
    then show ?thesis using s by (simp add: sublist_Cons_right)
  next
    case (Some p)
    obtain mid code' rest where p: "p = (mid, code', rest)" by (cases p)
    have s: "s = marker_text mid code' @ rest" using match_marker_split(1) Some p by blast
    consider "(j, m, code) = (i, mid, code')" | "(j, m, code) \<in> set (marker_matches (i + (length s - length rest)) rest)"
      using 1(3) Some p by (auto simp: marker_matches.simps [of i s])
    then show ?thesis
    proof cases
      case 1
      then have "s = marker_prefix @ m @ (''_'' @ code' @ ''__'' @ rest)" using s by (simp add: marker_text_def)
      then show ?thesis unfolding sublist_def by blast
    next
      case 2
      then have "sublist m rest" using 1(2) Some p by blast
      then show ?thesis using sublist_order.order_trans [OF _ sublist_append_leftI] s by metis
    qed
  qed
qed

lemma findMarker_absent: "\<not> sublist mid s \<Longrightarrow> findMarker s mid = None"
proof -
  assume absent: "\<not> sublist mid s"
  have "filter (\<lambda>(i, m, code). m = mid \<and> go_atoi code \<noteq> None) (marker_matches 0 s) = []"
    using marker_matches_ids absent by (auto simp: filter_empty_conv)
  then show ?thesis by (simp add: findMarker_def)
qed

lemma code_text_dec_int: "code_text (dec_int n)"
proof (cases "n < 0")
  case True
  then show ?thesis unfolding code_text_def dec_int_def
    by (intro exI [of _ "''-''"] exI [of _ "dec_nat (nat (- n))"]) (auto intro: dec_nat_digits)
next
  case False
  then show ?thesis unfolding code_text_def dec_int_def
    by (intro exI [of _ "[]"] exI [of _ "dec_nat (nat n)"]) (auto intro: dec_nat_digits)
qed

lemma findMarker_first:
  assumes "mid \<noteq> []" and "\<forall>c \<in> set mid. is_hex c" and "- (2 ^ 63) \<le> code" and "code < 2 ^ 63"
  shows "findMarker (marker_text mid (dec_int code) @ rest) mid = Some \<lparr>mr_exit_code = code, mr_output = []\<rparr>"
  using marker_matches_marker [OF assms(1,2) code_text_dec_int, of 0] go_atoi_dec_int [OF assms(3,4)]
  by (simp add: findMarker_def)

text \<open>C15: The exit code and the output of a command come back from the text of its marker: whatever the command has
  printed, as long as it did not print a marker of its own with this identifier, the line
  \<open>printf\<close> writes after it is found, its exit code is parsed back to the number that was printed, and
  the output is everything before the marker without the line breaks at its end.\<close>

theorem marker_round_trip:
  assumes "findMarker out mid = None" and "mid \<noteq> []" and "\<forall>c \<in> set mid. is_hex c"
    and "- (2 ^ 63) \<le> code" and "code < 2 ^ 63"
  shows "findMarker (out @ newline @ marker_text mid (dec_int code) @ rest) mid =
    Some \<lparr>mr_exit_code = code, mr_output = trim_right_byte (CHR 0x0A) out\<rparr>"
proof -
  have "filter (\<lambda>(i, m, code). m = mid \<and> go_atoi code \<noteq> None) (marker_matches 0 out) = []"
    using assms(1) by (auto simp: findMarker_def split: list.splits)
  then show ?thesis
    using marker_matches_marker [OF assms(2,3) code_text_dec_int, of "Suc (length out)"] go_atoi_dec_int [OF assms(4,5)]
    by (simp add: findMarker_def newline_def marker_matches_newline)
qed

theorem marker_round_trip_witness:
  "findMarker (''ok'' @ newline @ newline @ marker_text ''0af'' (dec_int (- 1)) @ newline) ''0af'' =
    Some \<lparr>mr_exit_code = - 1, mr_output = ''ok''\<rparr>"
proof -
  have "\<not> sublist ''0af'' (''ok'' @ newline)"
    by (simp add: newline_def sublist_Cons_right)
  from marker_round_trip [OF findMarker_absent [OF this], of "- 1" newline] show ?thesis
    by (simp add: newline_def is_hex_def is_digit_def in_byte_range_def)
qed

section \<open>The buffer and a wait\<close>

lemma length_last_bytes: "length (last_bytes n s) = min n (length s)"
  by (auto simp: last_bytes_def)

lemma last_bytes_append: "last_bytes n (last_bytes n s @ t) = last_bytes n (s @ t)"
  by (cases "length s \<le> n") (simp_all add: last_bytes_def add.commute)

lemma last_bytes_short: "length s \<le> n \<Longrightarrow> last_bytes n s = s"
  by (simp add: last_bytes_def)

lemma last_bytes_split: "length t \<le> n \<Longrightarrow> last_bytes n (s @ t) = last_bytes (n - length t) s @ t"
  by (auto simp: last_bytes_def)

lemma last_bytes_sublist: "sublist (last_bytes n s) s"
  unfolding last_bytes_def by simp

lemma buffer_Append_buffer [simp]: "ob_buffer (buffer_Append c b) = last_bytes (ob_max b) (ob_buffer b @ c)"
  by (auto simp: buffer_Append_def Let_def last_bytes_def deliver_def split: option.splits)

lemma buffer_Append_max [simp]: "ob_max (buffer_Append c b) = ob_max b"
  by (auto simp: buffer_Append_def Let_def deliver_def split: option.splits)

lemma fold_Append_max [simp]: "ob_max (fold buffer_Append cs b) = ob_max b"
  by (induction cs arbitrary: b) auto

lemma fold_Append_buffer:
  "length (ob_buffer b) \<le> ob_max b \<Longrightarrow>
    ob_buffer (fold buffer_Append cs b) = last_bytes (ob_max b) (ob_buffer b @ concat cs)"
proof (induction cs rule: rev_induct)
  case (snoc c cs)
  then show ?case by (simp add: last_bytes_append)
qed (simp add: last_bytes_short)

text \<open>The ring buffer equals its specification: whatever the chunks are and however they cut the
  stream, the buffer holds the last \<open>maxSize\<close> bytes of everything the process has written.\<close>

theorem buffer_is_tail_of_output:
  "ob_buffer (fold buffer_Append chunks (NewOutputBuffer n)) =
    last_bytes (nat (if n \<le> 0 then DefaultMaxSize else n)) (concat chunks)"
  by (subst fold_Append_buffer) (simp_all add: NewOutputBuffer_def)

lemma buffer_Append_quiet:
  "findMarker (last_bytes (ob_max b) (ob_buffer b @ c)) (ob_pending_id b) = None \<Longrightarrow>
    buffer_Append c b = b\<lparr>ob_buffer := last_bytes (ob_max b) (ob_buffer b @ c)\<rparr>"
  by (auto simp: buffer_Append_def Let_def last_bytes_def split: option.splits)

lemma buffer_Append_found:
  assumes "findMarker (last_bytes (ob_max b) (ob_buffer b @ c)) (ob_pending_id b) = Some r" and "ob_pending_id b \<noteq> []"
    and "ob_pending_ch b = Some ch" and "ch < length (ob_chans b)" and "ob_chans b ! ch = Waiting"
  shows "wait_receive ch (buffer_Append c b) = Some r"
  using assms by (auto simp: buffer_Append_def Let_def last_bytes_def deliver_def wait_receive_def split: if_splits)

lemma fold_Append_quiet:
  assumes "\<not> sublist (ob_pending_id b) (ob_buffer b @ concat cs)" and "length (ob_buffer b) \<le> ob_max b"
  shows "fold buffer_Append cs b = b\<lparr>ob_buffer := last_bytes (ob_max b) (ob_buffer b @ concat cs)\<rparr>"
  using assms(1)
proof (induction cs rule: rev_induct)
  case Nil
  then show ?case using assms(2) by (simp add: last_bytes_short)
next
  case (snoc c cs)
  have whole: "\<not> sublist (ob_pending_id b) (ob_buffer b @ concat cs @ c)" using snoc.prems by simp
  then have "\<not> sublist (ob_pending_id b) (ob_buffer b @ concat cs)"
    using sublist_order.order_trans [OF _ sublist_append_rightI, of _ "ob_buffer b @ concat cs" c] by simp blast
  note IH = snoc.IH [OF this]
  have "\<not> sublist (ob_pending_id b) (last_bytes (ob_max b) (ob_buffer b @ concat cs @ c))"
    using whole last_bytes_sublist sublist_order.order_trans by blast
  then show ?case
    using findMarker_absent [of "ob_pending_id b" "last_bytes (ob_max b) (ob_buffer b @ concat cs @ c)"]
    by (simp add: IH) (subst buffer_Append_quiet; simp add: last_bytes_append)
qed

lemma wait_begin_Inr:
  "wait_begin mid b = (b1, Inr ch) \<Longrightarrow> ob_buffer b1 = ob_buffer b \<and> ob_max b1 = ob_max b \<and> ob_pending_id b1 = mid \<and>
     ob_pending_ch b1 = Some ch \<and> ch < length (ob_chans b1) \<and> ob_chans b1 ! ch = Waiting"
  by (auto simp: wait_begin_def split: option.splits)

text \<open>A wait returns the exit code of its command however the output arrives.  The lines of the command's
  output are appended one by one, none of them containing the identifier of the marker, then the line of the
  marker: the wait receives the exit code, with the output that still fits into the buffer beside the marker.\<close>

theorem wait_gets_exit_code:
  assumes wait: "wait_begin mid (buffer_Reset b) = (b1, Inr ch)"
    and mid: "mid \<noteq> []" "\<forall>c \<in> set mid. is_hex c" and code: "- (2 ^ 63) \<le> code" "code < 2 ^ 63"
    and other: "\<not> sublist mid (concat (map (\<lambda>l. l @ newline) ls))"
    and fits: "length (marker_text mid (dec_int code) @ newline) \<le> ob_max b"
  shows "wait_receive ch (fold buffer_Append (map (\<lambda>l. l @ newline) (ls @ [marker_text mid (dec_int code)])) b1) =
    Some \<lparr>mr_exit_code = code, mr_output = trim_right_byte (CHR 0x0A)
       (last_bytes (ob_max b - length (marker_text mid (dec_int code) @ newline)) (concat (map (\<lambda>l. l @ newline) ls)))\<rparr>"
proof -
  let ?out = "concat (map (\<lambda>l. l @ newline) ls)" and ?m = "marker_text mid (dec_int code) @ newline"
  have b1: "ob_buffer b1 = []" "ob_max b1 = ob_max b" "ob_pending_id b1 = mid" "ob_pending_ch b1 = Some ch"
    "ch < length (ob_chans b1)" "ob_chans b1 ! ch = Waiting"
    using wait_begin_Inr [OF wait] by (simp_all add: buffer_Reset_def)
  let ?b2 = "fold buffer_Append (map (\<lambda>l. l @ newline) ls) b1"
  have b2: "?b2 = b1\<lparr>ob_buffer := last_bytes (ob_max b) ?out\<rparr>"
    using fold_Append_quiet [of b1 "map (\<lambda>l. l @ newline) ls"] other b1 by simp
  let ?tail = "last_bytes (ob_max b - length ?m) ?out"
  have "findMarker (?tail @ ?m) mid = Some \<lparr>mr_exit_code = code, mr_output = trim_right_byte (CHR 0x0A) ?tail\<rparr>"
  proof (cases "?tail = []")
    case True
    then show ?thesis using findMarker_first [OF mid code, of newline] by simp
  next
    case False
    then have "ls \<noteq> []" by (auto simp: last_bytes_def)
    then have "last ?out = CHR 0x0A" by (cases ls rule: rev_cases) (simp_all add: newline_def)
    moreover have "last ?tail = last ?out" using False by (simp add: last_bytes_def)
    ultimately have tail: "?tail = butlast ?tail @ newline" using False
      by (metis append_butlast_last_id newline_def)
    have "sublist (butlast ?tail) ?out"
      using tail sublist_order.order_trans [OF sublist_append_rightI [of "butlast ?tail" newline]]
      by (metis last_bytes_sublist)
    then have "findMarker (butlast ?tail) mid = None"
      using findMarker_absent other sublist_order.order_trans [of mid "butlast ?tail" ?out] by blast
    from marker_round_trip [OF this mid code, of newline] tail
    have "findMarker (?tail @ ?m) mid =
        Some \<lparr>mr_exit_code = code, mr_output = trim_right_byte (CHR 0x0A) (butlast ?tail)\<rparr>" by (metis append.assoc)
    moreover have "trim_right_byte (CHR 0x0A) (butlast ?tail @ newline) = trim_right_byte (CHR 0x0A) (butlast ?tail)"
      by (simp add: newline_def)
    ultimately show ?thesis using tail by metis
  qed
  moreover have "last_bytes (ob_max b) (last_bytes (ob_max b) ?out @ ?m) = ?tail @ ?m"
    by (simp only: last_bytes_append last_bytes_split [OF fits])
  ultimately have "wait_receive ch (buffer_Append ?m ?b2) =
      Some \<lparr>mr_exit_code = code, mr_output = trim_right_byte (CHR 0x0A) ?tail\<rparr>"
    using b1 mid(1) unfolding b2 by (intro buffer_Append_found) simp_all
  then show ?thesis by simp
qed

text \<open>The command \<open>false\<close>, started in an empty buffer of a hundred bytes, after printing \<open>no\<close>.\<close>

theorem wait_gets_exit_code_witness:
  "wait_receive 0 (fold buffer_Append (map (\<lambda>l. l @ newline) ([''no''] @ [marker_text ''0af'' (dec_int 1)]))
      (fst (wait_begin ''0af'' (buffer_Reset (NewOutputBuffer 100))))) =
    Some \<lparr>mr_exit_code = 1, mr_output = trim_right_byte (CHR 0x0A)
       (last_bytes (ob_max (NewOutputBuffer 100) - length (marker_text ''0af'' (dec_int 1) @ newline))
         (concat (map (\<lambda>l. l @ newline) [''no''])))\<rparr>"
proof -
  have empty: "findMarker [] mid = None" for mid
    by (simp add: findMarker_def marker_matches.simps match_marker_def has_prefix_def marker_prefix_def)
  have "wait_begin ''0af'' (buffer_Reset (NewOutputBuffer 100)) =
      (fst (wait_begin ''0af'' (buffer_Reset (NewOutputBuffer 100))), Inr 0)"
    by (simp add: wait_begin_def buffer_Reset_def empty NewOutputBuffer_def)
  moreover have "\<not> sublist ''0af'' (concat (map (\<lambda>l. l @ newline) [''no'']))" by (simp add: newline_def sublist_Cons_right)
  moreover have "length (marker_text ''0af'' (dec_int 1) @ newline) \<le> ob_max (NewOutputBuffer 100)"
    by (simp add: marker_text_def marker_prefix_def dec_int_def dec_nat.simps newline_def NewOutputBuffer_def)
  ultimately show ?thesis
    by (intro wait_gets_exit_code) (simp_all add: is_hex_def is_digit_def in_byte_range_def)
qed

text \<open>A wait that is cancelled reads the zero value of the closed channel, which says that the command has succeeded.\<close>

lemma cancelled_wait_reads_success:
  "wait_begin mid b = (b1, Inr ch) \<Longrightarrow> wait_receive ch (CancelPending b1) = Some \<lparr>mr_exit_code = 0, mr_output = []\<rparr>"
  by (frule wait_begin_Inr) (simp add: CancelPending_def wait_receive_def zero_result_def)

end
