(* ===== verification/Shell_Session.thy ===== *)
theory Shell_Session
  imports Output_Buffer
begin

text \<open>
  Persistent shells and background processes
  (\<open>internal/infrastructure/shell/session.go\<close>, \<open>session_manager.go\<close>, \<open>background_process.go\<close>).  The operating
  system is a parameter: whether the pipes and the process can be created, whether the command can be
  written, and which lines the process prints before the wait ends.  What is written to the standard input
  of the shell is part of the state, because it is what the shell will read.

  The theory proves what \<open>Execute\<close> returns, that a session is always left idle, the size of the pools and
  the identities of the background processes.
\<close>

section \<open>A session\<close>

record shell_result =
  sr_stdout :: string
  sr_exit_code :: int
  sr_completed :: bool

text \<open>\<open>process\<close> is the started command, with the flag that \<open>ProcessState\<close> is set.\<close>

record shell_session =
  sh_process :: "bool option"
  sh_stdin :: bool
  sh_input :: string
  sh_buffer :: output_buffer
  sh_executing :: bool
  sh_shell :: string
  sh_cwd :: string

definition NewShellSession :: "string \<Rightarrow> string \<Rightarrow> int \<Rightarrow> shell_session" where
  "NewShellSession shell cwd maxOutputSize =
     \<lparr>sh_process = None, sh_stdin = False, sh_input = [],
      sh_buffer = NewOutputBuffer (if maxOutputSize \<le> 0 then DefaultMaxSize else maxOutputSize), sh_executing = False,
      sh_shell = shell, sh_cwd = cwd\<rparr>"

record shell_env =
  se_stdin_pipe :: "go_error option"
  se_stdout_pipe :: "go_error option"
  se_stderr_pipe :: "go_error option"
  se_start :: "go_error option"
  se_write :: "go_error option"
  se_marker :: string
  se_lines :: "string list"

definition IsAlive :: "shell_session \<Rightarrow> bool" where
  "IsAlive s = (case sh_process s of None \<Rightarrow> False | Some exited \<Rightarrow> \<not> exited)"

definition IsExecuting :: "shell_session \<Rightarrow> bool" where
  "IsExecuting s = sh_executing s"

definition Interrupt :: "shell_session \<Rightarrow> shell_session" where
  "Interrupt s = (if sh_stdin s then s\<lparr>sh_input := sh_input s @ [CHR 0x03]\<rparr> else s)"

definition Destroy :: "shell_session \<Rightarrow> shell_session" where
  "Destroy s =
     s\<lparr>sh_buffer := CancelPending (sh_buffer s), sh_stdin := False, sh_process := None\<rparr>"

text \<open>A new process starts with an empty input and a new buffer of the same size.\<close>

definition ensureAlive :: "shell_env \<Rightarrow> shell_session \<Rightarrow> shell_session \<times> go_error option" where
  "ensureAlive e s =
     (if IsAlive s then (s, None)
      else
        let s = Destroy s
        in case se_stdin_pipe e of Some err \<Rightarrow> (s, Some (''create stdin pipe: '' @ err))
           | None \<Rightarrow>
         case se_stdout_pipe e of Some err \<Rightarrow> (s, Some (''create stdout pipe: '' @ err))
           | None \<Rightarrow>
         case se_stderr_pipe e of Some err \<Rightarrow> (s, Some (''create stderr pipe: '' @ err))
           | None \<Rightarrow>
         case se_start e of Some err \<Rightarrow> (s, Some (''start shell process: '' @ err))
           | None \<Rightarrow>
         (s\<lparr>sh_process := Some False, sh_stdin := True, sh_input := [],
            sh_buffer := NewOutputBuffer (int (ob_max (sh_buffer s)))\<rparr>, None))"

text \<open>\<open>pipeToBuffer\<close> appends one line at a time.\<close>

definition pipeToBuffer :: "string list \<Rightarrow> output_buffer \<Rightarrow> output_buffer" where
  "pipeToBuffer lines b = fold buffer_Append (map (\<lambda>l. l @ newline) lines) b"

definition completed :: "marker_result \<Rightarrow> shell_result" where
  "completed r = \<lparr>sr_stdout = mr_output r, sr_exit_code = mr_exit_code r, sr_completed = True\<rparr>"

text \<open>The wait of \<open>Execute\<close>: the result, or the partial output when the timeout comes first.\<close>

definition wait_for_command :: "shell_env \<Rightarrow> shell_session \<Rightarrow> shell_session \<times> shell_result" where
  "wait_for_command e s =
     (case wait_begin (se_marker e) (sh_buffer s) of
        (b, Inl r) \<Rightarrow> (s\<lparr>sh_buffer := b\<rparr>, completed r)
      | (b, Inr ch) \<Rightarrow>
          let b = pipeToBuffer (se_lines e) b
          in case wait_receive ch b of
               Some r \<Rightarrow> (s\<lparr>sh_buffer := b\<rparr>, completed r)
             | None \<Rightarrow>
                 let s = Interrupt (s\<lparr>sh_buffer := wait_timeout b\<rparr>)
                 in (s, \<lparr>sr_stdout = GetOutput (sh_buffer s), sr_exit_code = - 1, sr_completed = False\<rparr>))"

definition Execute :: "shell_env \<Rightarrow> string \<Rightarrow> shell_session \<Rightarrow> shell_session \<times> (go_error + shell_result)" where
  "Execute e command s =
     (if sh_executing s then (s, Inl ''session is already executing a command'')
      else
        case ensureAlive e (s\<lparr>sh_executing := True\<rparr>) of
          (s, Some err) \<Rightarrow> (s\<lparr>sh_executing := False\<rparr>, Inl (''ensure shell alive: '' @ err))
        | (s, None) \<Rightarrow>
            let s = s\<lparr>sh_buffer := buffer_Reset (sh_buffer s)\<rparr>
            in case se_write e of
                 Some err \<Rightarrow> (s\<lparr>sh_executing := False\<rparr>, Inl (''write command to shell: '' @ err))
               | None \<Rightarrow>
                   let (s, r) = wait_for_command e (s\<lparr>sh_input := sh_input s @ WrapCommand (se_marker e) command @ newline\<rparr>)
                   in (s\<lparr>sh_executing := False\<rparr>, Inr r))"

section \<open>What Execute guarantees\<close>

lemma Execute_idle: "\<not> sh_executing s \<Longrightarrow> Execute e c s = (s', r) \<Longrightarrow> \<not> sh_executing s'"
  by (auto simp: Execute_def Let_def split: if_splits option.splits prod.splits)

lemma Execute_busy: "sh_executing s \<Longrightarrow> Execute e c s = (s, Inl ''session is already executing a command'')"
  by (simp add: Execute_def)

lemma ensureAlive_buffer_max: "ensureAlive e s = (s', None) \<Longrightarrow> 0 < ob_max (sh_buffer s) \<Longrightarrow> ob_max (sh_buffer s') = ob_max (sh_buffer s)"
  by (auto simp: ensureAlive_def Let_def NewOutputBuffer_def Destroy_def CancelPending_def split: if_splits option.splits)

lemma ensureAlive_stdin:
  "ensureAlive e s = (s', None) \<Longrightarrow> (IsAlive s \<Longrightarrow> sh_stdin s) \<Longrightarrow> sh_stdin s'"
  by (auto simp: ensureAlive_def Let_def split: if_splits option.splits)

lemma no_marker_in_empty: "findMarker [] mid = None"
  by (simp add: findMarker_def marker_matches.simps match_marker_def has_prefix_def marker_prefix_def)

text \<open>C14: A command that ends before its timeout is reported as it ended.  Whatever the state of the idle session
  was, if the shell can be started and written to and prints lines without the identifier of the marker
  followed by the marker of the command, \<open>Execute\<close> returns the exit code and the output (its last bytes, when it
  does not fit into the buffer beside the marker), and the session is idle again.\<close>

theorem execute_reports_exit_code:
  assumes idle: "\<not> sh_executing s" and alive: "ensureAlive e (s\<lparr>sh_executing := True\<rparr>) = (s1, None)"
    and "se_write e = None" and lines: "se_lines e = ls @ [marker_text (se_marker e) (dec_int code)]"
    and mid: "se_marker e \<noteq> []" "\<forall>c \<in> set (se_marker e). is_hex c"
    and code: "- (2 ^ 63) \<le> code" "code < 2 ^ 63"
    and other: "\<not> sublist (se_marker e) (concat (map (\<lambda>l. l @ newline) ls))"
    and fits: "length (marker_text (se_marker e) (dec_int code) @ newline) \<le> ob_max (sh_buffer s)"
  shows "\<exists>s'. Execute e command s = (s', Inr
      \<lparr>sr_stdout = trim_right_byte (CHR 0x0A) (last_bytes (ob_max (sh_buffer s) -
           length (marker_text (se_marker e) (dec_int code) @ newline)) (concat (map (\<lambda>l. l @ newline) ls))),
       sr_exit_code = code, sr_completed = True\<rparr>) \<and> \<not> sh_executing s'"
proof -
  have "0 < ob_max (sh_buffer s)" using fits by (cases "ob_max (sh_buffer s)") (simp_all add: newline_def)
  then have size: "ob_max (sh_buffer s1) = ob_max (sh_buffer s)" using ensureAlive_buffer_max [OF alive] by simp
  obtain b1 ch where wait: "wait_begin (se_marker e) (buffer_Reset (sh_buffer s1)) = (b1, Inr ch)"
    by (simp add: wait_begin_def buffer_Reset_def no_marker_in_empty)
  have "wait_receive ch (pipeToBuffer (se_lines e) b1) = Some \<lparr>mr_exit_code = code, mr_output = trim_right_byte (CHR 0x0A)
      (last_bytes (ob_max (sh_buffer s) - length (marker_text (se_marker e) (dec_int code) @ newline))
        (concat (map (\<lambda>l. l @ newline) ls)))\<rparr>"
    unfolding pipeToBuffer_def lines size [symmetric]
    by (rule wait_gets_exit_code [OF wait mid code other]) (simp only: size fits)
  then show ?thesis
    using idle assms(3) by (simp add: Execute_def alive Let_def wait_for_command_def wait completed_def)
qed

text \<open>A fresh session of a hundred bytes runs \<open>false\<close>, which prints one line.\<close>

definition false_env :: shell_env where
  "false_env = \<lparr>se_stdin_pipe = None, se_stdout_pipe = None, se_stderr_pipe = None, se_start = None, se_write = None,
     se_marker = ''0af'', se_lines = [''no'', marker_text ''0af'' (dec_int 1)]\<rparr>"

theorem execute_reports_exit_code_witness:
  "\<exists>s'. Execute false_env ''false'' (NewShellSession ''/bin/sh'' ''/'' 100) = (s', Inr
      \<lparr>sr_stdout = trim_right_byte (CHR 0x0A) (last_bytes (ob_max (sh_buffer (NewShellSession ''/bin/sh'' ''/'' 100)) -
           length (marker_text (se_marker false_env) (dec_int 1) @ newline)) (concat (map (\<lambda>l. l @ newline) [''no'']))),
       sr_exit_code = 1, sr_completed = True\<rparr>) \<and> \<not> sh_executing s'"
proof (rule execute_reports_exit_code)
  let ?s = "NewShellSession ''/bin/sh'' ''/'' 100"
  show "ensureAlive false_env (?s\<lparr>sh_executing := True\<rparr>) = (fst (ensureAlive false_env (?s\<lparr>sh_executing := True\<rparr>)), None)"
    by (simp add: ensureAlive_def IsAlive_def NewShellSession_def false_env_def Let_def)
  show "length (marker_text (se_marker false_env) (dec_int 1) @ newline) \<le> ob_max (sh_buffer ?s)"
    by (simp add: marker_text_def marker_prefix_def dec_int_def dec_nat.simps newline_def NewOutputBuffer_def false_env_def
        NewShellSession_def)
qed (simp_all add: false_env_def NewShellSession_def is_hex_def is_digit_def in_byte_range_def newline_def sublist_Cons_right)

text \<open>
  What a timeout leaves behind: \<open>Interrupt\<close> writes the byte \<open>0x03\<close> to a pipe, which no terminal turns into a
  signal, and the next command is written right behind it, so that the shell reads both as one word.
\<close>

definition running_shell :: "shell_session \<Rightarrow> bool" where
  "running_shell s \<longleftrightarrow> sh_process s = Some False \<and> sh_stdin s \<and> \<not> sh_executing s"

lemma Execute_running:
  "running_shell s \<Longrightarrow> se_write e = None \<Longrightarrow>
    Execute e c s =
      (let (s', r) = wait_for_command e (s\<lparr>sh_executing := True, sh_buffer := buffer_Reset (sh_buffer s),
             sh_input := sh_input s @ WrapCommand (se_marker e) c @ newline\<rparr>)
       in (s'\<lparr>sh_executing := False\<rparr>, Inr r))"
  by (simp add: running_shell_def Execute_def ensureAlive_def IsAlive_def Let_def)

lemma wait_for_command_frame:
  "wait_for_command e s = (s', r) \<Longrightarrow> sh_process s' = sh_process s \<and> sh_stdin s' = sh_stdin s \<and>
     (sr_completed r \<longrightarrow> sh_input s' = sh_input s) \<and>
     (\<not> sr_completed r \<longrightarrow> sh_stdin s \<longrightarrow> sh_input s' = sh_input s @ [CHR 0x03])"
  by (auto simp: wait_for_command_def completed_def Interrupt_def Let_def split: prod.splits sum.splits option.splits if_splits)

lemma Execute_running_frame:
  assumes "running_shell s" and "se_write e = None" and "Execute e c s = (s', Inr r)"
  shows "running_shell s'" and "sh_input s' = sh_input s @ WrapCommand (se_marker e) c @ newline @
    (if sr_completed r then [] else [CHR 0x03])"
proof -
  define t where "t = s\<lparr>sh_executing := True, sh_buffer := buffer_Reset (sh_buffer s),
    sh_input := sh_input s @ WrapCommand (se_marker e) c @ newline\<rparr>"
  obtain t' r' where t': "wait_for_command e t = (t', r')" by (cases "wait_for_command e t")
  have "s' = t'\<lparr>sh_executing := False\<rparr>" and "r' = r"
    using assms by (simp_all add: Execute_running t_def [symmetric] t')
  with wait_for_command_frame [OF t'] assms(1) show "running_shell s'"
    and "sh_input s' = sh_input s @ WrapCommand (se_marker e) c @ newline @ (if sr_completed r then [] else [CHR 0x03])"
    by (simp_all add: t_def running_shell_def)
qed

lemma interrupt_joins_next_command:
  assumes "running_shell s" and "se_write e = None" and "se_write e' = None"
    and first: "Execute e c s = (s1, Inr r)" and "\<not> sr_completed r" and second: "Execute e' c' s1 = (s2, Inr r')"
  shows "\<exists>rest. sh_input s2 = sh_input s @ WrapCommand (se_marker e) c @ newline @ [CHR 0x03] @
    WrapCommand (se_marker e') c' @ newline @ rest"
  using Execute_running_frame [OF assms(1,2) first] Execute_running_frame(2) [OF _ assms(3) second] assms(5)
  by (simp only: if_False append.assoc) blast

text \<open>No operation sets \<open>ProcessState\<close> while the process is kept: once started, a shell counts as alive until it is destroyed.\<close>

lemma wait_for_command_process: "sh_process (fst (wait_for_command e s)) = sh_process s"
  using wait_for_command_frame [of e s] by (cases "wait_for_command e s") auto

lemma started_shell_stays_alive:
  "IsAlive s \<Longrightarrow> IsAlive (fst (Execute e c s)) \<and> sh_process (fst (Execute e c s)) = sh_process s"
proof -
  assume alive: "IsAlive s"
  then have "ensureAlive e (s\<lparr>sh_executing := True\<rparr>) = (s\<lparr>sh_executing := True\<rparr>, None)"
    by (simp add: ensureAlive_def IsAlive_def)
  then have "sh_process (fst (Execute e c s)) = sh_process s"
    using wait_for_command_process by (auto simp: Execute_def Let_def case_prod_beta split: option.splits)
  then show ?thesis using alive by (simp add: IsAlive_def)
qed

section \<open>The pools of sessions\<close>

definition PoolSize :: nat where
  "PoolSize = 3"

record session_manager =
  sm_pools :: "string \<rightharpoonup> shell_session list"

definition NewSessionManager :: session_manager where
  "NewSessionManager = \<lparr>sm_pools = Map.empty\<rparr>"

definition poolKey :: "string \<Rightarrow> string \<Rightarrow> string" where
  "poolKey projectRoot agentID = (if agentID = [] then projectRoot else projectRoot @ ''::'' @ agentID)"

definition pool_of :: "session_manager \<Rightarrow> string \<Rightarrow> shell_session list" where
  "pool_of m key = (case sm_pools m key of None \<Rightarrow> [] | Some p \<Rightarrow> p)"

fun first_idle :: "nat \<Rightarrow> shell_session list \<Rightarrow> nat option" where
  "first_idle i [] = None"
| "first_idle i (s # ss) = (if \<not> IsExecuting s then Some i else first_idle (Suc i) ss)"

text \<open>The session is given by its pool and its place in it; sessions are only ever appended.\<close>

definition GetAvailableSession :: "string \<Rightarrow> string \<Rightarrow> string \<Rightarrow> session_manager \<Rightarrow> session_manager \<times> (string \<times> nat) option" where
  "GetAvailableSession shell projectRoot agentID m =
     (let key = poolKey projectRoot agentID; pool = pool_of m key
      in case first_idle 0 pool of
           Some i \<Rightarrow> (m, Some (key, i))
         | None \<Rightarrow>
             if length pool < PoolSize
             then (m\<lparr>sm_pools := (sm_pools m)(key \<mapsto> pool @ [NewShellSession shell projectRoot DefaultMaxSize])\<rparr>,
                   Some (key, length pool))
             else (m, None))"

text \<open>\<open>DisposeAll\<close>: the destroyed sessions, in the order in which the map is read.\<close>

definition session_DisposeAll :: "string list \<Rightarrow> session_manager \<Rightarrow> session_manager \<times> shell_session list" where
  "session_DisposeAll order m = (m\<lparr>sm_pools := Map.empty\<rparr>, map Destroy (concat (map (pool_of m) order)))"

lemma first_idle_Some:
  "first_idle i ss = Some j \<Longrightarrow> i \<le> j \<and> j - i < length ss \<and> \<not> IsExecuting (ss ! (j - i))"
proof (induction ss arbitrary: i)
  case (Cons s ss)
  show ?case
  proof (cases "IsExecuting s")
    case True
    then have "Suc i \<le> j \<and> j - Suc i < length ss \<and> \<not> IsExecuting (ss ! (j - Suc i))" using Cons by simp
    moreover from this have "j - i = Suc (j - Suc i)" by linarith
    ultimately show ?thesis by simp
  qed (use Cons in simp)
qed simp

lemma first_idle_None: "first_idle i ss = None \<longleftrightarrow> (\<forall>s \<in> set ss. IsExecuting s)"
  by (induction ss arbitrary: i) auto

definition pools_bounded :: "session_manager \<Rightarrow> bool" where
  "pools_bounded m \<longleftrightarrow> (\<forall>key. length (pool_of m key) \<le> PoolSize)"

text \<open>A request is refused only if all three sessions of the pool are busy; else the session is idle.\<close>

lemma GetAvailableSession_idle:
  assumes "GetAvailableSession sh root aid m = (m', Some (key, i))"
  shows "i < length (pool_of m' key) \<and> \<not> IsExecuting (pool_of m' key ! i)"
proof (cases "first_idle 0 (pool_of m (poolKey root aid))")
  case None
  then show ?thesis using assms
    by (auto simp: GetAvailableSession_def Let_def pool_of_def IsExecuting_def NewShellSession_def nth_append split: if_splits)
next
  case (Some j)
  then show ?thesis using assms first_idle_Some [OF Some] by (auto simp: GetAvailableSession_def Let_def)
qed

lemma GetAvailableSession_refused:
  "pools_bounded m \<Longrightarrow> GetAvailableSession sh root aid m = (m', None) \<Longrightarrow>
    length (pool_of m (poolKey root aid)) = PoolSize \<and> (\<forall>s \<in> set (pool_of m (poolKey root aid)). IsExecuting s)"
  by (auto simp: GetAvailableSession_def Let_def first_idle_None pools_bounded_def le_antisym split: option.splits if_splits)

lemma GetAvailableSession_bounded: "pools_bounded m \<Longrightarrow> pools_bounded (fst (GetAvailableSession sh root aid m))"
  by (auto simp: GetAvailableSession_def Let_def pools_bounded_def pool_of_def split: option.splits)

text \<open>The key of a pool does not determine the agent.\<close>

lemma pools_of_two_agents: "poolKey ''/p'' ''a::b'' = poolKey ''/p::a'' ''b''"
  by (simp add: poolKey_def)

section \<open>Background processes\<close>

record bg_process =
  bg_id :: string
  bg_command :: string
  bg_pid :: int
  bg_start :: time
  bg_status :: string
  bg_exit_code :: int

record bg_entry =
  be_info :: bg_process
  be_buffer :: output_buffer
  be_cleanup :: bool

record bg_manager =
  bm_processes :: "string \<rightharpoonup> bg_entry"
  bm_next :: nat

definition NewBackgroundProcessManager :: bg_manager where
  "NewBackgroundProcessManager = \<lparr>bm_processes = Map.empty, bm_next = 0\<rparr>"

text \<open>\<open>Spawn\<close> with the errors of the pipes and of the start, or the process identifier.\<close>

definition bg_Spawn :: "go_error + int \<Rightarrow> string \<Rightarrow> time \<Rightarrow> bg_manager \<Rightarrow> bg_manager \<times> (go_error + bg_process)" where
  "bg_Spawn started command now m =
     (case started of
        Inl err \<Rightarrow> (m, Inl err)
      | Inr pid \<Rightarrow>
          let n = Suc (bm_next m); bid = ''bg-'' @ dec_nat n;
              info = \<lparr>bg_id = bid, bg_command = command, bg_pid = pid, bg_start = now, bg_status = ''running'', bg_exit_code = 0\<rparr>
          in (m\<lparr>bm_next := n, bm_processes := (bm_processes m)(bid \<mapsto>
                \<lparr>be_info = info, be_buffer = NewOutputBuffer DefaultMaxSize, be_cleanup = False\<rparr>)\<rparr>, Inr info))"

definition pipeReader :: "string \<Rightarrow> string \<Rightarrow> bg_manager \<Rightarrow> bg_manager" where
  "pipeReader bid chunk m =
     (case bm_processes m bid of None \<Rightarrow> m
      | Some e \<Rightarrow> m\<lparr>bm_processes := (bm_processes m)(bid \<mapsto> e\<lparr>be_buffer := buffer_Append chunk (be_buffer e)\<rparr>)\<rparr>)"

definition bg_List :: "string list \<Rightarrow> bg_manager \<Rightarrow> bg_process list" where
  "bg_List order m = map (\<lambda>k. be_info (the (bm_processes m k))) (filter (\<lambda>k. bm_processes m k \<noteq> None) order)"

definition bg_ReadOutput :: "string \<Rightarrow> bg_manager \<Rightarrow> go_error + string" where
  "bg_ReadOutput bid m =
     (case bm_processes m bid of
        None \<Rightarrow> Inl (''background process '' @ bid @ '' not found'')
      | Some e \<Rightarrow> Inr (GetOutput (be_buffer e)))"

text \<open>\<open>Kill\<close>: whether the process is signalled, and the error.\<close>

definition bg_Kill :: "(int \<Rightarrow> go_error option) \<Rightarrow> string \<Rightarrow> bg_manager \<Rightarrow> bool \<times> go_error option" where
  "bg_Kill kill bid m =
     (case bm_processes m bid of
        None \<Rightarrow> (False, Some (''background process '' @ bid @ '' not found''))
      | Some e \<Rightarrow>
          if bg_status (be_info e) = ''exited'' then (False, None) else (True, kill (bg_pid (be_info e))))"

text \<open>\<open>waitForExit\<close> after the process has ended: the error of \<open>Wait\<close> is none, an exit code, or another one.\<close>

datatype wait_error = ExitError int | OtherWaitError

definition waitForExit :: "string \<Rightarrow> wait_error option \<Rightarrow> bg_manager \<Rightarrow> bg_manager" where
  "waitForExit bid err m =
     (case bm_processes m bid of
        None \<Rightarrow> m
      | Some e \<Rightarrow>
          let info = (be_info e)\<lparr>bg_status := ''exited''\<rparr>;
              info = (case err of None \<Rightarrow> info | Some (ExitError c) \<Rightarrow> info\<lparr>bg_exit_code := c\<rparr>
                      | Some OtherWaitError \<Rightarrow> info\<lparr>bg_exit_code := - 1\<rparr>)
          in m\<lparr>bm_processes := (bm_processes m)(bid \<mapsto> e\<lparr>be_info := info, be_cleanup := True\<rparr>)\<rparr>)"

definition cleanup_fires :: "string \<Rightarrow> bg_manager \<Rightarrow> bg_manager" where
  "cleanup_fires bid m = m\<lparr>bm_processes := map_delete bid (bm_processes m)\<rparr>"

text \<open>\<open>DisposeAll\<close>: the processes it kills, in the order in which the map is read.\<close>

definition bg_DisposeAll :: "string list \<Rightarrow> bg_manager \<Rightarrow> bg_manager \<times> int list" where
  "bg_DisposeAll order m =
     (m\<lparr>bm_processes := Map.empty\<rparr>,
      map bg_pid (filter (\<lambda>i. bg_status i = ''running'') (bg_List order m)))"

datatype bg_step = BgSpawn "go_error + int" string time | BgOutput string string | BgExit string "wait_error option"
  | BgCleanup string | BgDispose "string list"

fun bg_run :: "bg_step \<Rightarrow> bg_manager \<Rightarrow> bg_manager" where
  "bg_run (BgSpawn started cmd now) m = fst (bg_Spawn started cmd now m)"
| "bg_run (BgOutput bid chunk) m = pipeReader bid chunk m"
| "bg_run (BgExit bid err) m = waitForExit bid err m"
| "bg_run (BgCleanup bid) m = cleanup_fires bid m"
| "bg_run (BgDispose order) m = fst (bg_DisposeAll order m)"

definition numbered :: "nat \<Rightarrow> string \<Rightarrow> bool" where
  "numbered n k \<longleftrightarrow> (\<exists>i. 1 \<le> i \<and> i \<le> n \<and> k = ''bg-'' @ dec_nat i)"

definition entry_ok :: "string \<Rightarrow> bg_entry \<Rightarrow> bool" where
  "entry_ok k e \<longleftrightarrow> bg_id (be_info e) = k \<and> (be_cleanup e \<longleftrightarrow> bg_status (be_info e) = ''exited'') \<and>
     (bg_status (be_info e) = ''running'' \<longrightarrow> bg_exit_code (be_info e) = 0) \<and>
     bg_status (be_info e) \<in> {''running'', ''exited''}"

definition bg_inv :: "bg_manager \<Rightarrow> bool" where
  "bg_inv m \<longleftrightarrow> (\<forall>k e. bm_processes m k = Some e \<longrightarrow> numbered (bm_next m) k \<and> entry_ok k e)"

lemma numbered_Suc: "numbered n k \<Longrightarrow> numbered (Suc n) k" "numbered (Suc n) (''bg-'' @ dec_nat (Suc n))"
  unfolding numbered_def by (blast intro: le_SucI) (intro exI [of _ "Suc n"], simp)

lemma waitForExit_inv: "bg_inv m \<Longrightarrow> bg_inv (waitForExit bid err m)"
  by (auto simp: bg_inv_def entry_ok_def waitForExit_def Let_def split: option.splits wait_error.splits)

lemma bg_run_inv: "bg_inv m \<Longrightarrow> bg_inv (bg_run x m)"
proof (cases x)
  case (BgSpawn started cmd now)
  assume "bg_inv m"
  then show ?thesis unfolding BgSpawn using numbered_Suc [of "bm_next m"]
    by (cases started) (auto simp: bg_inv_def bg_Spawn_def Let_def entry_ok_def)
next
  case (BgExit bid err)
  assume "bg_inv m"
  then show ?thesis unfolding BgExit by (simp add: waitForExit_inv)
qed (auto simp: bg_inv_def entry_ok_def pipeReader_def cleanup_fires_def bg_DisposeAll_def split: option.splits if_splits)

lemma dec_nat_inject: "dec_nat n = dec_nat k \<Longrightarrow> n = k"
  by (metis digits_value_dec_nat of_nat_eq_iff)

text \<open>The identifier of a new process is not in use, so no process is ever replaced by another one.\<close>

lemma spawn_identifier_fresh:
  assumes "bg_inv m" and "bg_Spawn (Inr pid) cmd now m = (m', Inr info)"
  shows "bm_processes m (bg_id info) = None \<and> (\<forall>k. k \<noteq> bg_id info \<longrightarrow> bm_processes m' k = bm_processes m k)"
proof -
  have info: "bg_id info = ''bg-'' @ dec_nat (Suc (bm_next m))" using assms(2) by (auto simp: bg_Spawn_def Let_def)
  have "bm_processes m (bg_id info) = None"
  proof (rule ccontr)
    assume "bm_processes m (bg_id info) \<noteq> None"
    then obtain n where "n \<le> bm_next m" "bg_id info = ''bg-'' @ dec_nat n" using assms(1) by (auto simp: bg_inv_def numbered_def)
    then show False using info dec_nat_inject [of n "Suc (bm_next m)"] by simp
  qed
  then show ?thesis using assms(2) info by (auto simp: bg_Spawn_def Let_def)
qed

end
