(* ===== verification/Session_Events.thy ===== *)
theory Session_Events
  imports Go_Strings
begin

text \<open>
  The events of a session: the events the agent emits (\<open>internal/domain/agent_event.go\<close>), the events that
  are stored and sent to the clients (\<open>SessionEvent\<close> of the protocol), the stream that converts the former into
  the latter (\<open>internal/service/sessionprocessor/event_stream.go\<close>), and their JSON form
  (\<open>internal/service/eventformat/session_event.go\<close>).  JSON decoding, encoding and the verbs \<open>%v\<close> and \<open>%.0f\<close> on
  decoded values are parameters.  A stream acts on a world of the events it has handed to the publisher and
  to the store; the store is a parameter that answers an \<open>Append\<close> with an identifier or an error.

  The theory proves that converted events are well-typed, which of them are published and stored, and that
  their JSON form determines what a client shows.
\<close>

section \<open>Agent events\<close>

text \<open>A Go value of type \<open>interface{}\<close> as it comes from JSON or from the callbacks.\<close>

datatype gval = GNil | GStr string | GInt int | GFloat string | GBool bool | GList "gval list" | GMap "(string \<times> gval) list"

datatype agent_event_type = EventTypeAnswer | EventTypeReasoning | EventTypeToolCall | EventTypeToolResult
  | EventTypeAnswerChunk | EventTypePlanCreated | EventTypePlanProgress | EventTypePlanCompleted | EventTypeError
  | EventTypeAgentSpawned | EventTypeAgentCompleted | EventTypeAgentFailed | EventTypeUserQuestion
  | EventTypeStructuredOutput | EventTypeStateChanged | EventTypeTokenUsage | EventTypeOther string

fun event_type_string :: "agent_event_type \<Rightarrow> string" where
  "event_type_string EventTypeAnswer = ''answer''"
| "event_type_string EventTypeReasoning = ''reasoning''"
| "event_type_string EventTypeToolCall = ''tool_call''"
| "event_type_string EventTypeToolResult = ''tool_result''"
| "event_type_string EventTypeAnswerChunk = ''answer_chunk''"
| "event_type_string EventTypePlanCreated = ''plan_created''"
| "event_type_string EventTypePlanProgress = ''plan_progress''"
| "event_type_string EventTypePlanCompleted = ''plan_completed''"
| "event_type_string EventTypeError = ''error''"
| "event_type_string EventTypeAgentSpawned = ''agent_spawned''"
| "event_type_string EventTypeAgentCompleted = ''agent_completed''"
| "event_type_string EventTypeAgentFailed = ''agent_failed''"
| "event_type_string EventTypeUserQuestion = ''user_question''"
| "event_type_string EventTypeStructuredOutput = ''structured_output''"
| "event_type_string EventTypeStateChanged = ''state_changed''"
| "event_type_string EventTypeTokenUsage = ''token_usage''"
| "event_type_string (EventTypeOther s) = s"

record agent_error =
  ae_code :: string
  ae_message :: string

definition EventSchemaVersion :: string where
  "EventSchemaVersion = ''1.0''"

record agent_event =
  ev_type :: agent_event_type
  ev_schema_version :: string
  ev_event_id :: string
  ev_timestamp :: time
  ev_step :: int
  ev_content :: string
  ev_metadata :: "(string \<times> gval) list option"
  ev_is_complete :: bool
  ev_error :: "agent_error option"
  ev_agent_id :: string

definition NewStateChangedEvent :: "time \<Rightarrow> string \<Rightarrow> string \<Rightarrow> string \<Rightarrow> string \<Rightarrow> agent_event" where
  "NewStateChangedEvent now agentName oldState newState reason =
     \<lparr>ev_type = EventTypeStateChanged, ev_schema_version = EventSchemaVersion, ev_event_id = [], ev_timestamp = now,
      ev_step = 0, ev_content = [],
      ev_metadata = Some [(''agent_name'', GStr agentName), (''old_state'', GStr oldState), (''new_state'', GStr newState),
        (''reason'', GStr reason)],
      ev_is_complete = False, ev_error = None, ev_agent_id = agentName\<rparr>"

text \<open>The metadata, a map that may be nil, and the type assertions \<open>v, ok := m[k].(T)\<close>.\<close>

definition meta :: "agent_event \<Rightarrow> string \<Rightarrow> gval option" where
  "meta e k = (case ev_metadata e of None \<Rightarrow> None | Some m \<Rightarrow> map_of m k)"

definition meta_str :: "agent_event \<Rightarrow> string \<Rightarrow> string option" where
  "meta_str e k = (case meta e k of Some (GStr s) \<Rightarrow> Some s | _ \<Rightarrow> None)"

definition meta_int :: "agent_event \<Rightarrow> string \<Rightarrow> int option" where
  "meta_int e k = (case meta e k of Some (GInt i) \<Rightarrow> Some i | _ \<Rightarrow> None)"

definition meta_bool :: "agent_event \<Rightarrow> string \<Rightarrow> bool" where
  "meta_bool e k = (meta e k = Some (GBool True))"

definition or_empty :: "string option \<Rightarrow> string" where
  "or_empty s = (case s of None \<Rightarrow> [] | Some t \<Rightarrow> t)"

section \<open>Session events\<close>

datatype session_event_type = SESSION_EVENT_UNSPECIFIED | SESSION_EVENT_ANSWER | SESSION_EVENT_ANSWER_CHUNK
  | SESSION_EVENT_TOOL_EXECUTION_START | SESSION_EVENT_TOOL_EXECUTION_END | SESSION_EVENT_REASONING
  | SESSION_EVENT_ASK_USER | SESSION_EVENT_PROCESSING_STARTED | SESSION_EVENT_PROCESSING_STOPPED
  | SESSION_EVENT_ERROR | SESSION_EVENT_USER_MESSAGE | SESSION_EVENT_PLAN_UPDATE

record plan_step =
  pl_title :: string
  pl_status :: string

record session_event =
  se_event_id :: string
  se_session_id :: string
  se_type :: session_event_type
  se_content :: string
  se_agent_id :: string
  se_step :: int
  se_tool_name :: string
  se_call_id :: string
  se_tool_arguments :: "string \<rightharpoonup> string"
  se_result_summary :: string
  se_has_error :: bool
  se_question :: string
  se_error :: "agent_error option"
  se_plan_name :: string
  se_plan_steps :: "plan_step list"

text \<open>A Go composite literal leaves the fields it does not name at their zero values.\<close>

definition blank_event :: "session_event_type \<Rightarrow> session_event" where
  "blank_event t =
     \<lparr>se_event_id = [], se_session_id = [], se_type = t, se_content = [], se_agent_id = [], se_step = 0, se_tool_name = [],
      se_call_id = [], se_tool_arguments = Map.empty, se_result_summary = [], se_has_error = False, se_question = [],
      se_error = None, se_plan_name = [], se_plan_steps = []\<rparr>"

definition wrap32 :: "int \<Rightarrow> int" where
  "wrap32 x = (x + 2 ^ 31) mod 2 ^ 32 - 2 ^ 31"

definition SanitizeUTF8 :: "string \<Rightarrow> string" where
  "SanitizeUTF8 s = (if valid_utf8 s then s else to_valid_utf8 False rune_error s)"

section \<open>Conversion\<close>

record json_lib =
  jl_object :: "string \<Rightarrow> (string \<times> gval) list option"
  jl_marshal :: "gval \<Rightarrow> string option"
  jl_verb_v :: "gval \<Rightarrow> string"
  jl_verb_f0 :: "string \<Rightarrow> string"

fun argument_text :: "json_lib \<Rightarrow> gval \<Rightarrow> string option" where
  "argument_text jl (GStr s) = Some (SanitizeUTF8 s)"
| "argument_text jl (GFloat x) = Some (jl_verb_f0 jl x)"
| "argument_text jl (GBool b) = Some (if b then ''true'' else ''false'')"
| "argument_text jl (GList vs) = Some (str_join newline (map (\<lambda>v. SanitizeUTF8 (jl_verb_v jl v)) vs))"
| "argument_text jl v = map_option SanitizeUTF8 (jl_marshal jl v)"

definition ParseToolArguments :: "json_lib \<Rightarrow> agent_event \<Rightarrow> string \<rightharpoonup> string" where
  "ParseToolArguments jl e =
     (let argsJSON = or_empty (meta_str e ''function_arguments'')
      in if argsJSON = [] then Map.empty
         else case jl_object jl argsJSON of
                None \<Rightarrow> [''_json'' \<mapsto> SanitizeUTF8 argsJSON]
              | Some kvs \<Rightarrow> (\<lambda>k. Option.bind (map_of kvs k) (argument_text jl)))"

definition plan_text :: "gval \<Rightarrow> string" where
  "plan_text v = (case v of GStr s \<Rightarrow> s | _ \<Rightarrow> [])"

definition field_of :: "(string \<times> gval) list \<Rightarrow> string \<Rightarrow> string" where
  "field_of m k = (case map_of m k of None \<Rightarrow> [] | Some v \<Rightarrow> plan_text v)"

definition ExtractPlanSteps :: "gval \<Rightarrow> plan_step list" where
  "ExtractPlanSteps v =
     (case v of
        GList raws \<Rightarrow> concat (map (\<lambda>raw. case raw of
            GMap m \<Rightarrow> [\<lparr>pl_title = field_of m ''title'', pl_status = field_of m ''status''\<rparr>] | _ \<Rightarrow> []) raws)
      | _ \<Rightarrow> [])"

definition supervisor_default :: "agent_event \<Rightarrow> string" where
  "supervisor_default e = (if ev_agent_id e = [] then ''supervisor'' else ev_agent_id e)"

definition server_call_id :: "string \<Rightarrow> int \<Rightarrow> string" where
  "server_call_id tool step = ''server-'' @ tool @ ''-'' @ dec_int step"

definition convertPlanEvent :: "agent_event \<Rightarrow> string \<Rightarrow> session_event" where
  "convertPlanEvent e agentID =
     (blank_event SESSION_EVENT_PLAN_UPDATE)\<lparr>se_agent_id := agentID,
        se_plan_name := or_empty (meta_str e ''plan_name''),
        se_plan_steps := (case meta e ''plan_steps'' of None \<Rightarrow> [] | Some v \<Rightarrow> ExtractPlanSteps v),
        se_content := SanitizeUTF8 (ev_content e)\<rparr>"

definition convert_tool_result :: "agent_event \<Rightarrow> string \<Rightarrow> session_event" where
  "convert_tool_result e agentID =
     (let toolName = or_empty (meta_str e ''tool_name'');
          summary = (case meta_str e ''summary'' of Some s \<Rightarrow> SanitizeUTF8 s | None \<Rightarrow> SanitizeUTF8 (ev_content e));
          fullContent = (case meta_str e ''full_result'' of
             Some fr \<Rightarrow> if fr \<noteq> [] then SanitizeUTF8 fr else SanitizeUTF8 (ev_content e)
           | None \<Rightarrow> SanitizeUTF8 (ev_content e))
      in (blank_event SESSION_EVENT_TOOL_EXECUTION_END)\<lparr>se_tool_name := toolName,
           se_call_id := server_call_id toolName (ev_step e), se_content := fullContent, se_result_summary := summary,
           se_has_error := (ev_error e \<noteq> None), se_agent_id := agentID, se_step := wrap32 (ev_step e)\<rparr>)"

definition convert_error :: "agent_event \<Rightarrow> session_event" where
  "convert_error e =
     (case ev_error e of
        Some err \<Rightarrow> (blank_event SESSION_EVENT_ERROR)\<lparr>se_content := SanitizeUTF8 (ae_message err),
           se_error := Some \<lparr>ae_code = ae_code err, ae_message = SanitizeUTF8 (ae_message err)\<rparr>\<rparr>
      | None \<Rightarrow> (blank_event SESSION_EVENT_ERROR)\<lparr>se_content := SanitizeUTF8 (ev_content e)\<rparr>)"

definition state_text :: "agent_event \<Rightarrow> string" where
  "state_text e =
     (let content = SanitizeUTF8 (ev_content e)
      in if content = [] \<and> ev_metadata e \<noteq> None
         then ''state: '' @ or_empty (meta_str e ''old_state'') @ '' -> '' @ or_empty (meta_str e ''new_state'')
         else content)"

definition convertEvent :: "json_lib \<Rightarrow> agent_event \<Rightarrow> session_event option" where
  "convertEvent jl e =
     (let agentID = supervisor_default e
      in case ev_type e of
           EventTypeAnswerChunk \<Rightarrow> Some ((blank_event SESSION_EVENT_ANSWER_CHUNK)
              \<lparr>se_content := SanitizeUTF8 (ev_content e), se_agent_id := agentID, se_step := wrap32 (ev_step e)\<rparr>)
         | EventTypeAnswer \<Rightarrow>
             if meta_bool e ''already_streamed'' then None
             else Some ((blank_event SESSION_EVENT_ANSWER)\<lparr>se_content := SanitizeUTF8 (ev_content e), se_agent_id := agentID\<rparr>)
         | EventTypeToolCall \<Rightarrow> Some ((blank_event SESSION_EVENT_TOOL_EXECUTION_START)
              \<lparr>se_tool_name := ev_content e, se_call_id := server_call_id (ev_content e) (ev_step e),
               se_tool_arguments := ParseToolArguments jl e, se_agent_id := agentID, se_step := wrap32 (ev_step e)\<rparr>)
         | EventTypeToolResult \<Rightarrow> Some (convert_tool_result e agentID)
         | EventTypeReasoning \<Rightarrow> Some ((blank_event SESSION_EVENT_REASONING)
              \<lparr>se_content := SanitizeUTF8 (ev_content e), se_agent_id := agentID, se_step := wrap32 (ev_step e)\<rparr>)
         | EventTypePlanCreated \<Rightarrow> Some (convertPlanEvent e agentID)
         | EventTypePlanProgress \<Rightarrow> Some (convertPlanEvent e agentID)
         | EventTypePlanCompleted \<Rightarrow> Some (convertPlanEvent e agentID)
         | EventTypeUserQuestion \<Rightarrow> Some ((blank_event SESSION_EVENT_ASK_USER)
              \<lparr>se_content := SanitizeUTF8 (ev_content e), se_question := SanitizeUTF8 (ev_content e),
               se_call_id := or_empty (meta_str e ''call_id''), se_tool_name := or_empty (meta_str e ''tool_name''),
               se_agent_id := agentID\<rparr>)
         | EventTypeError \<Rightarrow> Some (convert_error e)
         | EventTypeStateChanged \<Rightarrow> Some ((blank_event SESSION_EVENT_ANSWER_CHUNK)
              \<lparr>se_content := state_text e, se_agent_id := agentID\<rparr>)
         | t \<Rightarrow>
             if t \<in> {EventTypeAgentSpawned, EventTypeAgentCompleted, EventTypeAgentFailed}
             then Some ((blank_event SESSION_EVENT_ANSWER_CHUNK)
              \<lparr>se_content := ''['' @ event_type_string t @ ''] '' @ agentID @ '': '' @ SanitizeUTF8 (ev_content e),
               se_agent_id := agentID\<rparr>)
             else None)"

section \<open>The stream\<close>

text \<open>The world of a stream: the store, the sequence of stored events and that of published ones.\<close>

record 'st stream_world =
  sw_store :: 'st
  sw_stored :: "session_event list"
  sw_published :: "session_event list"

record 'st event_store =
  es_present :: bool
  es_append :: "'st \<Rightarrow> string \<Rightarrow> session_event \<Rightarrow> 'st \<times> (go_error + string)"

record event_stream =
  st_session_id :: string
  st_total_tokens :: int
  st_context_tokens :: int

definition NewEventStream :: "string \<Rightarrow> event_stream" where
  "NewEventStream sid = \<lparr>st_session_id = sid, st_total_tokens = 0, st_context_tokens = 0\<rparr>"

text \<open>\<open>Append\<close>, with the event recorded if the store has taken it; the identifier is empty after an error.\<close>

definition store_append :: "'st event_store \<Rightarrow> string \<Rightarrow> session_event \<Rightarrow> 'st stream_world \<Rightarrow> 'st stream_world \<times> string" where
  "store_append es sid e w =
     (case es_append es (sw_store w) sid e of
        (st, Inl _) \<Rightarrow> (w\<lparr>sw_store := st\<rparr>, [])
      | (st, Inr eid) \<Rightarrow> (w\<lparr>sw_store := st, sw_stored := sw_stored w @ [e\<lparr>se_event_id := eid\<rparr>]\<rparr>, eid))"

definition publish :: "session_event \<Rightarrow> 'st stream_world \<Rightarrow> 'st stream_world" where
  "publish e w = w\<lparr>sw_published := sw_published w @ [e]\<rparr>"

definition persistAndPublish :: "'st event_store \<Rightarrow> event_stream \<Rightarrow> session_event \<Rightarrow> 'st stream_world \<Rightarrow> 'st stream_world" where
  "persistAndPublish es s e w =
     (if es_present es
      then (let (w, eid) = store_append es (st_session_id s) e w
            in publish (if eid \<noteq> [] then e\<lparr>se_event_id := eid\<rparr> else e) w)
      else publish e w)"

definition persistOnly :: "'st event_store \<Rightarrow> event_stream \<Rightarrow> session_event \<Rightarrow> 'st stream_world \<Rightarrow> 'st stream_world" where
  "persistOnly es s e w = (if es_present es then fst (store_append es (st_session_id s) e w) else w)"

definition isStreamingChunk :: "agent_event \<Rightarrow> bool" where
  "isStreamingChunk e =
     (case ev_type e of EventTypeAnswerChunk \<Rightarrow> True | EventTypeReasoning \<Rightarrow> \<not> ev_is_complete e | _ \<Rightarrow> False)"

definition streamed_answer :: "agent_event \<Rightarrow> bool" where
  "streamed_answer e \<longleftrightarrow> ev_type e = EventTypeAnswer \<and> meta_bool e ''already_streamed''"

definition capture_tokens :: "agent_event \<Rightarrow> event_stream \<Rightarrow> event_stream" where
  "capture_tokens e s =
     (let s = (case meta_int e ''total_tokens'' of Some t \<Rightarrow> s\<lparr>st_total_tokens := t\<rparr> | None \<Rightarrow> s)
      in case meta_int e ''context_tokens'' of Some c \<Rightarrow> s\<lparr>st_context_tokens := c\<rparr> | None \<Rightarrow> s)"

definition streamed_answer_event :: "event_stream \<Rightarrow> agent_event \<Rightarrow> session_event" where
  "streamed_answer_event s e =
     (blank_event SESSION_EVENT_ANSWER)\<lparr>se_session_id := st_session_id s, se_content := SanitizeUTF8 (ev_content e),
        se_agent_id := supervisor_default e\<rparr>"

definition Send :: "json_lib \<Rightarrow> 'st event_store \<Rightarrow> agent_event \<Rightarrow> event_stream \<times> 'st stream_world \<Rightarrow> event_stream \<times> 'st stream_world" where
  "Send jl es e sw =
     (let (s, w) = sw
      in if ev_type e = EventTypeTokenUsage then (capture_tokens e s, w)
         else
           let e = (if ev_schema_version e = [] then e\<lparr>ev_schema_version := EventSchemaVersion\<rparr> else e)
           in if streamed_answer e then (s, persistOnly es s (streamed_answer_event s e) w)
              else case convertEvent jl e of
                     None \<Rightarrow> (s, w)
                   | Some pe \<Rightarrow>
                       let pe = pe\<lparr>se_session_id := st_session_id s\<rparr>
                       in if isStreamingChunk e then (s, publish pe w) else (s, persistAndPublish es s pe w))"

definition PublishProcessingStarted :: "'st event_store \<Rightarrow> event_stream \<Rightarrow> 'st stream_world \<Rightarrow> 'st stream_world" where
  "PublishProcessingStarted es s w =
     persistAndPublish es s ((blank_event SESSION_EVENT_PROCESSING_STARTED)\<lparr>se_session_id := st_session_id s\<rparr>) w"

text \<open>The JSON text of the token counts, with the keys in the order in which \<open>json.Marshal\<close> writes a map.\<close>

definition token_json :: "event_stream \<Rightarrow> string" where
  "token_json s =
     (if st_total_tokens s > 0
      then ''{'' @ (if st_context_tokens s > 0
                    then [CHR 0x22] @ ''context_tokens'' @ [CHR 0x22] @ '':'' @ dec_int (st_context_tokens s) @ '','' else []) @
           [CHR 0x22] @ ''total_tokens'' @ [CHR 0x22] @ '':'' @ dec_int (st_total_tokens s) @ ''}''
      else [])"

definition PublishProcessingStopped :: "'st event_store \<Rightarrow> event_stream \<Rightarrow> 'st stream_world \<Rightarrow> 'st stream_world" where
  "PublishProcessingStopped es s w =
     persistAndPublish es s ((blank_event SESSION_EVENT_PROCESSING_STOPPED)
       \<lparr>se_session_id := st_session_id s, se_content := token_json s\<rparr>) w"

definition PublishError :: "'st event_store \<Rightarrow> event_stream \<Rightarrow> go_error \<Rightarrow> 'st stream_world \<Rightarrow> 'st stream_world" where
  "PublishError es s err w =
     persistAndPublish es s ((blank_event SESSION_EVENT_ERROR)
       \<lparr>se_session_id := st_session_id s, se_content := err, se_error := Some \<lparr>ae_code = ''internal'', ae_message = err\<rparr>\<rparr>) w"

definition PublishUserMessage :: "'st event_store \<Rightarrow> event_stream \<Rightarrow> string \<Rightarrow> 'st stream_world \<Rightarrow> 'st stream_world" where
  "PublishUserMessage es s content w =
     persistAndPublish es s ((blank_event SESSION_EVENT_USER_MESSAGE)
       \<lparr>se_session_id := st_session_id s, se_content := SanitizeUTF8 content\<rparr>) w"

definition PublishAnswerChunk :: "'st event_store \<Rightarrow> event_stream \<Rightarrow> string \<Rightarrow> 'st stream_world \<Rightarrow> 'st stream_world" where
  "PublishAnswerChunk es s chunk w =
     persistAndPublish es s ((blank_event SESSION_EVENT_ANSWER_CHUNK)
       \<lparr>se_session_id := st_session_id s, se_content := chunk\<rparr>) w"

section \<open>The JSON form\<close>

fun EventTypeString :: "session_event_type \<Rightarrow> string" where
  "EventTypeString SESSION_EVENT_USER_MESSAGE = ''user_message''"
| "EventTypeString SESSION_EVENT_PROCESSING_STARTED = ''processing_started''"
| "EventTypeString SESSION_EVENT_PROCESSING_STOPPED = ''processing_stopped''"
| "EventTypeString SESSION_EVENT_ANSWER = ''answer''"
| "EventTypeString SESSION_EVENT_ANSWER_CHUNK = ''answer_chunk''"
| "EventTypeString SESSION_EVENT_TOOL_EXECUTION_START = ''tool_call_start''"
| "EventTypeString SESSION_EVENT_TOOL_EXECUTION_END = ''tool_call_end''"
| "EventTypeString SESSION_EVENT_REASONING = ''reasoning''"
| "EventTypeString SESSION_EVENT_ASK_USER = ''ask_user''"
| "EventTypeString SESSION_EVENT_ERROR = ''error''"
| "EventTypeString SESSION_EVENT_PLAN_UPDATE = ''plan_update''"
| "EventTypeString SESSION_EVENT_UNSPECIFIED = ''unknown''"

definition error_text :: "session_event \<Rightarrow> string" where
  "error_text e = (case se_error e of None \<Rightarrow> se_content e | Some d \<Rightarrow> ae_message d)"

text \<open>The arguments are listed by the keys of the map, in the order in which it is read.\<close>

definition SerializeSessionEvent :: "string list \<Rightarrow> session_event \<Rightarrow> (string \<times> gval) list option" where
  "SerializeSessionEvent order e =
     (let agent = (''agent_id'', GStr (se_agent_id e)); content = (''content'', GStr (se_content e))
      in case se_type e of
           SESSION_EVENT_ANSWER \<Rightarrow>
             Some [(''type'', GStr ''MessageCompleted''), content, (''role'', GStr ''assistant''), agent]
         | SESSION_EVENT_ANSWER_CHUNK \<Rightarrow> Some [(''type'', GStr ''StreamingProgress''), content, agent]
         | SESSION_EVENT_TOOL_EXECUTION_START \<Rightarrow>
             Some [(''type'', GStr ''ToolExecutionStarted''), (''call_id'', GStr (se_call_id e)),
               (''tool_name'', GStr (se_tool_name e)),
               (''arguments'', GMap (map (\<lambda>k. (k, GStr (the (se_tool_arguments e k))))
                  (filter (\<lambda>k. se_tool_arguments e k \<noteq> None) order))), agent]
         | SESSION_EVENT_TOOL_EXECUTION_END \<Rightarrow>
             Some [(''type'', GStr ''ToolExecutionCompleted''), (''call_id'', GStr (se_call_id e)),
               (''tool_name'', GStr (se_tool_name e)), (''result'', GStr (se_content e)),
               (''result_summary'', GStr (se_result_summary e)), (''has_error'', GBool (se_has_error e)), agent]
         | SESSION_EVENT_REASONING \<Rightarrow> Some [(''type'', GStr ''ReasoningChunk''), content, agent]
         | SESSION_EVENT_ASK_USER \<Rightarrow>
             Some [(''type'', GStr ''AskUserRequested''), (''question'', GStr (se_question e)), (''options'', GList []), agent]
         | SESSION_EVENT_PROCESSING_STARTED \<Rightarrow> Some [(''type'', GStr ''ProcessingStarted''), (''state'', GStr ''processing'')]
         | SESSION_EVENT_PROCESSING_STOPPED \<Rightarrow> Some [(''type'', GStr ''ProcessingStopped''), (''state'', GStr ''idle'')]
         | SESSION_EVENT_ERROR \<Rightarrow>
             Some [(''type'', GStr ''Error''), (''message'', GStr (error_text e)), (''code'', GStr ''error'')]
         | SESSION_EVENT_USER_MESSAGE \<Rightarrow> Some [(''type'', GStr ''UserMessage''), content, (''role'', GStr ''user'')]
         | SESSION_EVENT_PLAN_UPDATE \<Rightarrow>
             Some [(''type'', GStr ''PlanUpdated''), (''plan_name'', GStr (se_plan_name e)),
               (''steps'', GList (map (\<lambda>s. GMap [(''title'', GStr (pl_title s)), (''status'', GStr (pl_status s))]) (se_plan_steps e))),
               agent]
         | SESSION_EVENT_UNSPECIFIED \<Rightarrow> None)"

lemma EventTypeString_inject: "EventTypeString t = EventTypeString u \<longleftrightarrow> t = u"
  by (cases t; cases u; simp)

section \<open>Well-typed events\<close>

text \<open>
  The protocol has one record for all events, so that nothing but the code says which fields belong to which
  type.  An event is well-typed if the fields of other types are at their zero values, the step is a 32-bit
  number, and its texts are valid UTF-8, without which the protocol cannot be encoded.
\<close>

definition tool_fields :: "session_event \<Rightarrow> bool" where
  "tool_fields e \<longleftrightarrow>
     (se_type e \<notin> {SESSION_EVENT_TOOL_EXECUTION_START, SESSION_EVENT_TOOL_EXECUTION_END, SESSION_EVENT_ASK_USER} \<longrightarrow>
        se_tool_name e = [] \<and> se_call_id e = []) \<and>
     (se_type e \<noteq> SESSION_EVENT_TOOL_EXECUTION_START \<longrightarrow> se_tool_arguments e = Map.empty) \<and>
     (se_type e \<noteq> SESSION_EVENT_TOOL_EXECUTION_END \<longrightarrow> se_result_summary e = [] \<and> \<not> se_has_error e)"

definition other_fields :: "session_event \<Rightarrow> bool" where
  "other_fields e \<longleftrightarrow>
     (if se_type e = SESSION_EVENT_ASK_USER then se_question e = se_content e else se_question e = []) \<and>
     (se_type e \<noteq> SESSION_EVENT_ERROR \<longrightarrow> se_error e = None \<and> se_agent_id e \<noteq> []) \<and>
     (se_type e \<noteq> SESSION_EVENT_PLAN_UPDATE \<longrightarrow> se_plan_name e = [] \<and> se_plan_steps e = []) \<and>
     (se_type e \<noteq> SESSION_EVENT_UNSPECIFIED) \<and> - (2 ^ 31) \<le> se_step e \<and> se_step e < 2 ^ 31"

definition texts_valid :: "session_event \<Rightarrow> bool" where
  "texts_valid e \<longleftrightarrow> valid_utf8 (se_content e) \<and> valid_utf8 (se_question e) \<and> valid_utf8 (se_result_summary e) \<and>
     (\<forall>d. se_error e = Some d \<longrightarrow> valid_utf8 (ae_message d))"

definition well_typed :: "session_event \<Rightarrow> bool" where
  "well_typed e \<longleftrightarrow> tool_fields e \<and> other_fields e \<and> texts_valid e"

text \<open>The identifiers that go into texts without passing through \<open>SanitizeUTF8\<close>.\<close>

definition clean_names :: "agent_event \<Rightarrow> bool" where
  "clean_names e \<longleftrightarrow> valid_utf8 (ev_agent_id e) \<and>
     (\<forall>k \<in> {''old_state'', ''new_state''}. valid_utf8 (or_empty (meta_str e k)))"

lemma SanitizeUTF8_valid [simp]: "valid_utf8 (SanitizeUTF8 s)"
  by (simp add: SanitizeUTF8_def to_valid_is_valid)

lemma SanitizeUTF8_idem [simp]: "SanitizeUTF8 (SanitizeUTF8 s) = SanitizeUTF8 s"
  by (simp add: SanitizeUTF8_def to_valid_is_valid)

lemma wrap32_bounds [simp]: "- (2147483648) \<le> wrap32 x" "wrap32 x < 2147483648"
  by (simp_all add: wrap32_def)

lemma supervisor_default_nonempty [simp]: "supervisor_default e \<noteq> []"
  by (simp add: supervisor_default_def)

lemma supervisor_default_valid: "clean_names e \<Longrightarrow> valid_utf8 (supervisor_default e)"
  by (simp add: clean_names_def supervisor_default_def)

lemma event_type_string_ascii:
  "t \<in> {EventTypeAgentSpawned, EventTypeAgentCompleted, EventTypeAgentFailed} \<Longrightarrow> valid_utf8 (event_type_string t)"
  by auto

lemma state_text_valid: "clean_names e \<Longrightarrow> valid_utf8 (state_text e)"
  by (simp add: state_text_def clean_names_def Let_def valid_utf8_append)

lemmas typed_defs = well_typed_def tool_fields_def other_fields_def texts_valid_def blank_event_def

lemma convert_tool_result_typed: "a \<noteq> [] \<Longrightarrow> well_typed (convert_tool_result e a)"
  by (simp add: convert_tool_result_def Let_def typed_defs split: option.split)

lemma convert_error_typed: "well_typed (convert_error e)"
  by (simp add: convert_error_def typed_defs split: option.split)

lemma convertPlanEvent_typed: "a \<noteq> [] \<Longrightarrow> well_typed (convertPlanEvent e a)"
  by (simp add: convertPlanEvent_def typed_defs)


definition bad_result :: agent_event where
  "bad_result = \<lparr>ev_type = EventTypeToolResult, ev_schema_version = [], ev_event_id = [], ev_timestamp = 0, ev_step = 3,
     ev_content = [CHR 0xFF, CHR ''x''], ev_metadata = Some [(''tool_name'', GStr ''ls'')], ev_is_complete = False,
     ev_error = None, ev_agent_id = []\<rparr>"

definition no_json :: json_lib where
  "no_json = \<lparr>jl_object = (\<lambda>_. None), jl_marshal = (\<lambda>_. None), jl_verb_v = (\<lambda>_. []), jl_verb_f0 = (\<lambda>x. x)\<rparr>"


section \<open>What is published and what is stored\<close>

text \<open>The operations of a stream, as one step.\<close>

datatype stream_op = OpSend agent_event | OpStarted | OpStopped | OpError go_error | OpUserMessage string | OpChunk string

fun stream_step :: "json_lib \<Rightarrow> 'st event_store \<Rightarrow> stream_op \<Rightarrow> event_stream \<times> 'st stream_world \<Rightarrow> event_stream \<times> 'st stream_world" where
  "stream_step jl es (OpSend e) sw = Send jl es e sw"
| "stream_step jl es OpStarted (s, w) = (s, PublishProcessingStarted es s w)"
| "stream_step jl es OpStopped (s, w) = (s, PublishProcessingStopped es s w)"
| "stream_step jl es (OpError err) (s, w) = (s, PublishError es s err w)"
| "stream_step jl es (OpUserMessage c) (s, w) = (s, PublishUserMessage es s c w)"
| "stream_step jl es (OpChunk c) (s, w) = (s, PublishAnswerChunk es s c w)"

definition run_stream :: "json_lib \<Rightarrow> 'st event_store \<Rightarrow> stream_op list \<Rightarrow> event_stream \<times> 'st stream_world \<Rightarrow> event_stream \<times> 'st stream_world" where
  "run_stream jl es ops sw = fold (stream_step jl es) ops sw"

text \<open>
  What a log of session events must offer: with a store present, an \<open>Append\<close> answers with a fresh nonempty
  identifier or an error.  \<open>ids\<close> gives the identifiers in use.
\<close>

locale event_log =
  fixes es :: "'st event_store" and ids :: "'st \<Rightarrow> string set"
  assumes present: "es_present es"
    and append_id: "es_append es st sid e = (st', Inr eid) \<Longrightarrow> eid \<noteq> [] \<and> eid \<notin> ids st \<and> ids st' = insert eid (ids st)"
    and append_error: "es_append es st sid e = (st', Inl err) \<Longrightarrow> ids st' = ids st"
begin

text \<open>Every stored event has an identifier of its own, and the published events that carry one are stored.\<close>

definition log_inv :: "'st stream_world \<Rightarrow> bool" where
  "log_inv w \<longleftrightarrow> distinct (map se_event_id (sw_stored w)) \<and> set (map se_event_id (sw_stored w)) \<subseteq> ids (sw_store w) \<and>
     [] \<notin> se_event_id ` set (sw_stored w) \<and>
     (\<forall>e \<in> set (sw_published w). se_event_id e \<noteq> [] \<longrightarrow> e \<in> set (sw_stored w))"

lemma store_append_inv:
  assumes "log_inv w" and "store_append es sid e w = (w', eid)"
  shows "log_inv w' \<and> sw_published w' = sw_published w \<and> (eid \<noteq> [] \<longrightarrow> e\<lparr>se_event_id := eid\<rparr> \<in> set (sw_stored w'))"
proof (cases "es_append es (sw_store w) sid e")
  case (Pair st r)
  then show ?thesis
  proof (cases r)
    case (Inl err)
    then have "w' = w\<lparr>sw_store := st\<rparr>" "eid = []" using assms(2) Pair by (auto simp: store_append_def)
    then show ?thesis using assms(1) append_error [OF Pair [unfolded Inl]] by (simp add: log_inv_def)
  next
    case (Inr x)
    note fresh = append_id [OF Pair [unfolded Inr]]
    have w': "w' = w\<lparr>sw_store := st, sw_stored := sw_stored w @ [e\<lparr>se_event_id := x\<rparr>]\<rparr>" "eid = x"
      using assms(2) Pair Inr by (auto simp: store_append_def)
    moreover have "x \<notin> se_event_id ` set (sw_stored w)" using fresh assms(1) by (auto simp: log_inv_def)
    ultimately show ?thesis using assms(1) fresh by (auto simp: log_inv_def)
  qed
qed

lemma publish_inv: "log_inv w \<Longrightarrow> se_event_id e = [] \<or> e \<in> set (sw_stored w) \<Longrightarrow> log_inv (publish e w)"
  by (auto simp: log_inv_def publish_def)

lemma persistAndPublish_inv: "log_inv w \<Longrightarrow> se_event_id e = [] \<Longrightarrow> log_inv (persistAndPublish es s e w)"
proof -
  assume "log_inv w" "se_event_id e = []"
  moreover obtain w' eid where "store_append es (st_session_id s) e w = (w', eid)" by fastforce
  ultimately show ?thesis using store_append_inv [of w "st_session_id s" e w' eid]
    by (auto simp: persistAndPublish_def present intro!: publish_inv)
qed

lemma persistOnly_inv: "log_inv w \<Longrightarrow> log_inv (persistOnly es s e w)"
  using store_append_inv [of w "st_session_id s" e] by (cases "store_append es (st_session_id s) e w") (simp add: persistOnly_def)

end

lemma convertEvent_no_id: "convertEvent jl e = Some pe \<Longrightarrow> se_event_id pe = [] \<and> se_session_id pe = []"
  by (cases "ev_type e")
    (auto simp: convertEvent_def Let_def blank_event_def convert_tool_result_def convert_error_def convertPlanEvent_def
      split: if_splits option.splits)

context event_log begin

lemma Send_inv: "log_inv (snd sw) \<Longrightarrow> log_inv (snd (Send jl es e sw))"
proof -
  assume inv: "log_inv (snd sw)"
  obtain s w where sw: "sw = (s, w)" by (cases sw)
  let ?e = "if ev_schema_version e = [] then e\<lparr>ev_schema_version := EventSchemaVersion\<rparr> else e"
  show ?thesis
  proof (cases "ev_type e = EventTypeTokenUsage \<or> streamed_answer ?e \<or> convertEvent jl ?e = None")
    case True
    then show ?thesis using inv persistOnly_inv by (auto simp: Send_def sw Let_def)
  next
    case False
    then obtain pe where pe: "convertEvent jl ?e = Some pe" by blast
    define qe where "qe = pe\<lparr>se_session_id := st_session_id s\<rparr>"
    have "se_event_id qe = []" using convertEvent_no_id [OF pe] by (simp add: qe_def)
    then have "log_inv (publish qe w)" and "log_inv (persistAndPublish es s qe w)"
      using inv sw by (simp_all add: publish_inv persistAndPublish_inv)
    moreover have "Send jl es e sw = (if isStreamingChunk ?e then (s, publish qe w) else (s, persistAndPublish es s qe w))"
      using False pe unfolding Send_def sw Let_def qe_def by simp
    ultimately show ?thesis by simp
  qed
qed

lemma stream_step_inv: "log_inv (snd sw) \<Longrightarrow> log_inv (snd (stream_step jl es x sw))"
proof -
  assume inv: "log_inv (snd sw)"
  obtain s w where "sw = (s, w)" by (cases sw)
  then show ?thesis using inv Send_inv [of sw]
    by (cases x) (auto simp: PublishProcessingStarted_def PublishProcessingStopped_def PublishError_def
        PublishUserMessage_def PublishAnswerChunk_def blank_event_def intro!: persistAndPublish_inv)
qed

lemma run_stream_inv: "log_inv (snd sw) \<Longrightarrow> log_inv (snd (run_stream jl es ops sw))"
  unfolding run_stream_def by (induction ops arbitrary: sw) (simp_all add: stream_step_inv)

end

end
