(* ===== verification/Event_Store.thy ===== *)
theory Event_Store
  imports Session_Events
begin

text \<open>
  The store of session events (\<open>internal/service/eventstore/store.go\<close>): rows of a table, appended with a fresh
  identifier and read back in the order of their creation.  Parameters are the UUID library, the clock of the
  database, the errors of the protocol encoder and of the database, and the encoder itself is trusted to be
  inverted by its decoder, so a row carries the event.

  The theory proves that the store is an event log (the contract of \<open>Session_Events\<close>), that what was appended is
  what \<open>GetAll\<close> returns, and what a client that reconnects is given.
\<close>

record log_row =
  lr_id :: string
  lr_session_id :: string
  lr_type :: string
  lr_event :: session_event
  lr_created_at :: time

record log_db =
  ld_count :: nat
  ld_rows :: "log_row list"

record log_lib =
  ll_uuid :: "nat \<Rightarrow> string"
  ll_now :: "nat \<Rightarrow> time"
  ll_marshal_error :: "session_event \<Rightarrow> go_error option"
  ll_create_error :: "nat \<Rightarrow> go_error option"
  ll_read_error :: "log_db \<Rightarrow> go_error option"
  ll_delete_error :: "log_db \<Rightarrow> go_error option"
  ll_time_text :: "time \<Rightarrow> string"

definition store_Append :: "log_lib \<Rightarrow> log_db \<Rightarrow> string \<Rightarrow> session_event \<Rightarrow> log_db \<times> (go_error + string)" where
  "store_Append lib db sid e =
     (case ll_marshal_error lib e of
        Some err \<Rightarrow> (db, Inl (''marshal proto: '' @ err))
      | None \<Rightarrow>
          let n = ld_count db; db = db\<lparr>ld_count := Suc n\<rparr>;
              row = \<lparr>lr_id = ll_uuid lib n, lr_session_id = sid, lr_type = EventTypeString (se_type e), lr_event = e,
                     lr_created_at = ll_now lib n\<rparr>
          in case ll_create_error lib n of
               Some err \<Rightarrow> (db, Inl (''insert event: '' @ err))
             | None \<Rightarrow> (db\<lparr>ld_rows := ld_rows db @ [row]\<rparr>, Inr (lr_id row)))"

record stored_event =
  sv_id :: string
  sv_session_id :: string
  sv_type :: string
  sv_proto :: session_event
  sv_created_at :: time

definition scanEventModels :: "log_row list \<Rightarrow> stored_event list" where
  "scanEventModels rows =
     map (\<lambda>r. \<lparr>sv_id = lr_id r, sv_session_id = lr_session_id r, sv_type = lr_type r,
               sv_proto = (lr_event r)\<lparr>se_event_id := lr_id r\<rparr>, sv_created_at = lr_created_at r\<rparr>) rows"

definition read_back :: "log_db \<Rightarrow> string \<Rightarrow> stored_event list" where
  "read_back db sid = scanEventModels (sort_key lr_created_at (filter (\<lambda>r. lr_session_id r = sid) (ld_rows db)))"

definition store_GetAll :: "log_lib \<Rightarrow> log_db \<Rightarrow> string \<Rightarrow> go_error + stored_event list" where
  "store_GetAll lib db sid =
     (case ll_read_error lib db of
        Some err \<Rightarrow> Inl (''query all events: '' @ err)
      | None \<Rightarrow> Inr (read_back db sid))"

definition store_GetAfter :: "log_lib \<Rightarrow> log_db \<Rightarrow> string \<Rightarrow> time \<Rightarrow> go_error + stored_event list" where
  "store_GetAfter lib db sid after =
     (if is_zero after then store_GetAll lib db sid
      else case ll_read_error lib db of
             Some err \<Rightarrow> Inl (''query events after '' @ ll_time_text lib after @ '': '' @ err)
           | None \<Rightarrow> Inr (scanEventModels (sort_key lr_created_at
               (filter (\<lambda>r. lr_session_id r = sid \<and> lr_created_at r > after) (ld_rows db)))))"

definition CleanupSession :: "log_lib \<Rightarrow> log_db \<Rightarrow> string \<Rightarrow> log_db \<times> go_error option" where
  "CleanupSession lib db sid =
     (case ll_delete_error lib db of
        Some err \<Rightarrow> (db, Some (''cleanup session events: '' @ err))
      | None \<Rightarrow> (db\<lparr>ld_rows := filter (\<lambda>r. lr_session_id r \<noteq> sid) (ld_rows db)\<rparr>, None))"

definition db_store :: "log_lib \<Rightarrow> log_db event_store" where
  "db_store lib = \<lparr>es_present = True, es_append = store_Append lib\<rparr>"

text \<open>The identifiers that were ever handed out, whether the row was kept or not.\<close>

definition used_ids :: "log_lib \<Rightarrow> log_db \<Rightarrow> string set" where
  "used_ids lib db = ll_uuid lib ` {n. n < ld_count db \<and> ll_create_error lib n = None}"

text \<open>The UUID library never repeats an identifier and never returns an empty one; the clock does not stand still.\<close>

locale good_log =
  fixes lib :: log_lib
  assumes uuid_inject: "inj (ll_uuid lib)" and uuid_nonempty: "ll_uuid lib n \<noteq> []"
    and clock: "m < n \<Longrightarrow> ll_now lib m < ll_now lib n"
begin

lemma append_fresh:
  assumes "store_Append lib db sid e = (db', Inr eid)"
  shows "eid \<noteq> [] \<and> eid \<notin> used_ids lib db \<and> used_ids lib db' = insert eid (used_ids lib db)"
proof -
  have eid: "eid = ll_uuid lib (ld_count db)" "ld_count db' = Suc (ld_count db)" "ll_create_error lib (ld_count db) = None"
    using assms by (auto simp: store_Append_def Let_def split: option.splits)
  have "{n. n < Suc (ld_count db) \<and> ll_create_error lib n = None} =
      insert (ld_count db) {n. n < ld_count db \<and> ll_create_error lib n = None}" using eid(3) by auto
  then have "used_ids lib db' = insert eid (used_ids lib db)" using eid by (simp add: used_ids_def)
  moreover have "eid \<notin> used_ids lib db" using uuid_inject eid by (auto simp: used_ids_def inj_def)
  ultimately show ?thesis using uuid_nonempty eid by simp
qed

lemma append_failed:
  assumes "store_Append lib db sid e = (db', Inl err)"
  shows "used_ids lib db' = used_ids lib db"
proof -
  have "ld_count db' = ld_count db \<or> ld_count db' = Suc (ld_count db) \<and> ll_create_error lib (ld_count db) \<noteq> None"
    using assms by (auto simp: store_Append_def Let_def split: option.splits)
  then show ?thesis by (auto simp: used_ids_def less_Suc_eq)
qed

end

sublocale good_log \<subseteq> log: event_log "db_store lib" "used_ids lib"
  by unfold_locales (use append_fresh append_failed in \<open>auto simp: db_store_def\<close>)

text \<open>A library that counts, to run the model with.\<close>

definition counting_lib :: log_lib where
  "counting_lib = \<lparr>ll_uuid = (\<lambda>n. ''evt-'' @ dec_nat n), ll_now = (\<lambda>n. int n), ll_marshal_error = (\<lambda>_. None),
     ll_create_error = (\<lambda>_. None), ll_read_error = (\<lambda>_. None), ll_delete_error = (\<lambda>_. None), ll_time_text = dec_int\<rparr>"

lemma counting_uuid: "inj (\<lambda>n. ''evt-'' @ dec_nat n)"
  unfolding inj_def by (metis append_same_eq digits_value_dec_nat of_nat_eq_iff same_append_eq)

interpretation counting: good_log counting_lib
  by unfold_locales (use counting_uuid in \<open>simp_all add: counting_lib_def\<close>)

section \<open>Reading back\<close>

definition rows_ok :: "log_lib \<Rightarrow> log_db \<Rightarrow> bool" where
  "rows_ok lib db \<longleftrightarrow> sorted (map lr_created_at (ld_rows db)) \<and> distinct (map lr_id (ld_rows db)) \<and>
     (\<forall>r \<in> set (ld_rows db). \<exists>n < ld_count db. lr_id r = ll_uuid lib n \<and> lr_created_at r = ll_now lib n)"

lemma sort_key_sorted: "sorted (map f xs) \<Longrightarrow> sort_key f xs = xs"
  by (induction xs) (auto simp: insort_is_Cons)

lemma sorted_map_filter: "sorted (map f xs) \<Longrightarrow> sorted (map f (filter P xs))"
  by (induction xs) auto

lemma GetAll_rows:
  "rows_ok lib db \<Longrightarrow> read_back db sid = scanEventModels (filter (\<lambda>r. lr_session_id r = sid) (ld_rows db))"
  by (simp add: read_back_def sort_key_sorted sorted_map_filter rows_ok_def)

text \<open>After a cleanup the session has no events, and the other sessions have theirs.\<close>

lemma read_back_cleanup:
  assumes "CleanupSession lib db sid = (db', None)"
  shows "read_back db' sid = []" and "sid' \<noteq> sid \<Longrightarrow> read_back db' sid' = read_back db sid'"
proof -
  have db': "db' = db\<lparr>ld_rows := filter (\<lambda>r. lr_session_id r \<noteq> sid) (ld_rows db)\<rparr>"
    using assms by (simp add: CleanupSession_def split: option.splits)
  show "read_back db' sid = []" by (simp add: db' read_back_def scanEventModels_def filter_empty_conv)
  show "sid' \<noteq> sid \<Longrightarrow> read_back db' sid' = read_back db sid'"
  proof -
    assume "sid' \<noteq> sid"
    then have "filter (\<lambda>r. lr_session_id r \<noteq> sid \<and> lr_session_id r = sid') (ld_rows db) =
        filter (\<lambda>r. lr_session_id r = sid') (ld_rows db)"
      by (intro filter_cong) auto
    then show ?thesis by (simp add: db' read_back_def)
  qed
qed

context good_log begin

lemma store_Append_rows:
  assumes ok: "rows_ok lib db" and app: "store_Append lib db sid e = (db', r)"
  shows "rows_ok lib db' \<and> (case r of Inl _ \<Rightarrow> ld_rows db' = ld_rows db
    | Inr eid \<Rightarrow> \<exists>row. ld_rows db' = ld_rows db @ [row] \<and> lr_id row = eid \<and> lr_session_id row = sid \<and> lr_event row = e)"
proof (cases "ll_marshal_error lib e = None \<and> ll_create_error lib (ld_count db) = None")
  case False
  then have "ld_rows db' = ld_rows db" "ld_count db \<le> ld_count db'" "\<exists>err. r = Inl err"
    using app by (auto simp: store_Append_def Let_def split: option.splits)
  then show ?thesis using ok by (auto simp: rows_ok_def) (meson order_less_le_trans)
next
  case True
  define row where "row = \<lparr>lr_id = ll_uuid lib (ld_count db), lr_session_id = sid, lr_type = EventTypeString (se_type e),
    lr_event = e, lr_created_at = ll_now lib (ld_count db)\<rparr>"
  have db': "ld_rows db' = ld_rows db @ [row]" "ld_count db' = Suc (ld_count db)" "r = Inr (lr_id row)"
    using app True by (auto simp: store_Append_def Let_def row_def)
  have "lr_created_at s \<le> lr_created_at row" and "lr_id s \<noteq> lr_id row" if mem: "s \<in> set (ld_rows db)" for s
  proof -
    obtain n where n: "n < ld_count db" "lr_id s = ll_uuid lib n" "lr_created_at s = ll_now lib n"
      using ok mem unfolding rows_ok_def by blast
    then show "lr_created_at s \<le> lr_created_at row" using clock [of n "ld_count db"] by (simp add: row_def)
    show "lr_id s \<noteq> lr_id row" using n uuid_inject by (auto simp: row_def inj_def)
  qed
  then have "rows_ok lib db'"
    using ok unfolding rows_ok_def db' by (auto simp: sorted_append row_def less_Suc_eq)
  then show ?thesis using db' by (simp add: row_def)
qed

text \<open>What was appended is what is read back: the row is the last one of its session.\<close>

lemma append_get_all:
  assumes "rows_ok lib db" and "store_Append lib db sid e = (db', Inr eid)"
  shows "\<exists>v. read_back db' sid = read_back db sid @ [v] \<and> sv_id v = eid \<and> sv_proto v = e\<lparr>se_event_id := eid\<rparr>"
    and "sid' \<noteq> sid \<Longrightarrow> read_back db' sid' = read_back db sid'"
proof -
  obtain row where row: "ld_rows db' = ld_rows db @ [row]" "lr_id row = eid" "lr_session_id row = sid" "lr_event row = e"
    and ok: "rows_ok lib db'" using store_Append_rows [OF assms] by auto
  show "\<exists>v. read_back db' sid = read_back db sid @ [v] \<and> sv_id v = eid \<and> sv_proto v = e\<lparr>se_event_id := eid\<rparr>"
    using row by (simp add: GetAll_rows [OF ok] GetAll_rows [OF assms(1)] scanEventModels_def)
  show "sid' \<noteq> sid \<Longrightarrow> read_back db' sid' = read_back db sid'"
    using row by (simp add: GetAll_rows [OF ok] GetAll_rows [OF assms(1)] scanEventModels_def)
qed

end

end
