(* ===== verification/Session_Registry.thy ===== *)
theory Session_Registry
  imports Event_Store
begin

text \<open>
  The registry of sessions (\<open>internal/infrastructure/flowregistry/session_registry.go\<close>): subscribers with
  bounded channels, the queue of user messages, reply channels of questions, cancellation, and replay from
  the store.  Goroutines keep pointers to an entry after it was removed from the map, so entries and
  channels are objects with an identity: the map holds references, and every operation that looks an entry
  up and then locks it is split at that point.  \<open>None\<close> as the result of a send stands for the panic of a
  send on a closed channel.

  The theory proves that publishing never panics and never blocks, what a subscriber receives, and what a
  reconnecting client is given.
\<close>

definition subscriberBuffer :: nat where
  "subscriberBuffer = 64"

definition messageBuffer :: nat where
  "messageBuffer = 32"

record session_ctx =
  sx_project_root :: string
  sx_platform :: string
  sx_project_key :: string
  sx_user_id :: string
  sx_agent_name :: string

record sub_chan =
  sc_queue :: "session_event list"
  sc_closed :: bool

record reply_chan =
  rc_value :: "string option"
  rc_closed :: bool

record reg_entry =
  re_ctx :: session_ctx
  re_subs :: "(nat \<times> nat) list"
  re_next_sub :: nat
  re_messages :: "string list"
  re_replies :: "(string \<times> nat) list"
  re_cancelled :: bool
  re_turn_cancel :: "nat option"
  re_created_at :: time
  re_last_activity :: time

record registry =
  rg_sessions :: "string \<rightharpoonup> nat"
  rg_entries :: "reg_entry list"
  rg_subs :: "sub_chan list"
  rg_replies :: "reply_chan list"
  rg_cancelled_turns :: "nat list"

definition NewSessionRegistry :: registry where
  "NewSessionRegistry = \<lparr>rg_sessions = Map.empty, rg_entries = [], rg_subs = [], rg_replies = [], rg_cancelled_turns = []\<rparr>"

definition CreateSession :: "time \<Rightarrow> string \<Rightarrow> session_ctx \<Rightarrow> registry \<Rightarrow> registry" where
  "CreateSession now sid ctx r =
     r\<lparr>rg_sessions := (rg_sessions r)(sid \<mapsto> length (rg_entries r)),
       rg_entries := rg_entries r @ [\<lparr>re_ctx = ctx, re_subs = [], re_next_sub = 0, re_messages = [], re_replies = [],
         re_cancelled = False, re_turn_cancel = None, re_created_at = now, re_last_activity = now\<rparr>]\<rparr>"

definition entry_of :: "registry \<Rightarrow> string \<Rightarrow> reg_entry option" where
  "entry_of r sid = map_option (\<lambda>n. rg_entries r ! n) (rg_sessions r sid)"

definition GetSessionContext :: "registry \<Rightarrow> string \<Rightarrow> session_ctx option" where
  "GetSessionContext r sid = map_option re_ctx (entry_of r sid)"

definition HasSession :: "registry \<Rightarrow> string \<Rightarrow> bool" where
  "HasSession r sid \<longleftrightarrow> rg_sessions r sid \<noteq> None"

definition upd_entry :: "nat \<Rightarrow> (reg_entry \<Rightarrow> reg_entry) \<Rightarrow> registry \<Rightarrow> registry" where
  "upd_entry n f r = r\<lparr>rg_entries := (rg_entries r)[n := f (rg_entries r ! n)]\<rparr>"

section \<open>Subscribers\<close>

text \<open>\<open>Subscribe\<close> with the reference it has looked up: the new channel and what the cleanup needs.\<close>

definition subscribe_at :: "nat \<Rightarrow> registry \<Rightarrow> registry \<times> nat \<times> nat" where
  "subscribe_at n r =
     (let ch = length (rg_subs r); sub = re_next_sub (rg_entries r ! n)
      in (upd_entry n (\<lambda>e. e\<lparr>re_subs := (sub, ch) # re_subs e, re_next_sub := Suc sub\<rparr>)
            (r\<lparr>rg_subs := rg_subs r @ [\<lparr>sc_queue = [], sc_closed = False\<rparr>]\<rparr>), ch, sub))"

definition Subscribe :: "string \<Rightarrow> registry \<Rightarrow> registry \<times> nat \<times> (nat \<times> nat) option" where
  "Subscribe sid r =
     (case rg_sessions r sid of
        None \<Rightarrow> (r\<lparr>rg_subs := rg_subs r @ [\<lparr>sc_queue = [], sc_closed = True\<rparr>]\<rparr>, length (rg_subs r), None)
      | Some n \<Rightarrow> (case subscribe_at n r of (r', ch, sub) \<Rightarrow> (r', ch, Some (n, sub))))"

definition unsubscribe :: "nat \<Rightarrow> nat \<Rightarrow> registry \<Rightarrow> registry" where
  "unsubscribe n sub r = upd_entry n (\<lambda>e. e\<lparr>re_subs := filter (\<lambda>(i, _). i \<noteq> sub) (re_subs e)\<rparr>) r"

text \<open>The select with a default: the event is dropped when the buffer is full; a closed channel panics.\<close>

definition offer :: "session_event \<Rightarrow> sub_chan \<Rightarrow> sub_chan option" where
  "offer ev c =
     (if sc_closed c then None
      else Some (if length (sc_queue c) < subscriberBuffer then c\<lparr>sc_queue := sc_queue c @ [ev]\<rparr> else c))"

fun offer_all :: "session_event \<Rightarrow> nat list \<Rightarrow> sub_chan list \<Rightarrow> sub_chan list option" where
  "offer_all ev [] cs = Some cs"
| "offer_all ev (ch # chs) cs =
     (case offer ev (cs ! ch) of None \<Rightarrow> None | Some c \<Rightarrow> offer_all ev chs (cs[ch := c]))"

definition publish_at :: "time \<Rightarrow> nat \<Rightarrow> session_event \<Rightarrow> registry \<Rightarrow> registry option" where
  "publish_at now n ev r =
     map_option (\<lambda>cs. (upd_entry n (\<lambda>e. e\<lparr>re_last_activity := now\<rparr>) r)\<lparr>rg_subs := cs\<rparr>)
       (offer_all ev (map snd (re_subs (rg_entries r ! n))) (rg_subs r))"

definition PublishEvent :: "time \<Rightarrow> string \<Rightarrow> session_event \<Rightarrow> registry \<Rightarrow> registry option" where
  "PublishEvent now sid ev r = (case rg_sessions r sid of None \<Rightarrow> Some r | Some n \<Rightarrow> publish_at now n ev r)"

text \<open>A subscriber's receive: the next event, the end of the channel, or nothing yet.\<close>

datatype received = Got session_event | Ended | Blocked

definition sub_receive :: "nat \<Rightarrow> registry \<Rightarrow> registry \<times> received" where
  "sub_receive ch r =
     (case sc_queue (rg_subs r ! ch) of
        ev # q \<Rightarrow> (r\<lparr>rg_subs := (rg_subs r)[ch := (rg_subs r ! ch)\<lparr>sc_queue := q\<rparr>]\<rparr>, Got ev)
      | [] \<Rightarrow> (r, if sc_closed (rg_subs r ! ch) then Ended else Blocked))"

section \<open>Replay\<close>

fun after_event :: "string \<Rightarrow> bool \<Rightarrow> stored_event list \<Rightarrow> bool \<times> session_event list" where
  "after_event eid found [] = (found, [])"
| "after_event eid found (v # vs) =
     (let (f, res) = after_event eid (found \<or> sv_id v = eid) vs
      in (f, if found then sv_proto v # res else res))"

text \<open>\<open>ReplayEvents\<close>: no store gives nothing, and neither does an error of the store.\<close>

definition ReplayEvents :: "(go_error + stored_event list) option \<Rightarrow> string \<Rightarrow> session_event list" where
  "ReplayEvents all lastEventID =
     (case all of
        None \<Rightarrow> []
      | Some (Inl _) \<Rightarrow> []
      | Some (Inr vs) \<Rightarrow>
          if lastEventID = [] then map sv_proto vs
          else (case after_event lastEventID False vs of
                  (found, res) \<Rightarrow> if \<not> found then map sv_proto vs else res))"

section \<open>Messages, questions, cancellation\<close>

definition EnqueueMessage :: "string \<Rightarrow> string \<Rightarrow> registry \<Rightarrow> registry \<times> go_error option" where
  "EnqueueMessage sid content r =
     (case rg_sessions r sid of
        None \<Rightarrow> (r, Some (''session not found: '' @ sid))
      | Some n \<Rightarrow>
          if length (re_messages (rg_entries r ! n)) < messageBuffer
          then (upd_entry n (\<lambda>e. e\<lparr>re_messages := re_messages e @ [content]\<rparr>) r, None)
          else (r, Some (''message queue full for session: '' @ sid)))"

text \<open>A receive from \<open>MessageChannel\<close> or by \<open>DequeueMessage\<close>; the channel is never closed.\<close>

definition receive_message :: "nat \<Rightarrow> registry \<Rightarrow> (registry \<times> string) option" where
  "receive_message n r =
     (case re_messages (rg_entries r ! n) of
        [] \<Rightarrow> None
      | m # ms \<Rightarrow> Some (upd_entry n (\<lambda>e. e\<lparr>re_messages := ms\<rparr>) r, m))"

definition DrainMessages :: "string \<Rightarrow> registry \<Rightarrow> registry" where
  "DrainMessages sid r = (case rg_sessions r sid of None \<Rightarrow> r | Some n \<Rightarrow> upd_entry n (\<lambda>e. e\<lparr>re_messages := []\<rparr>) r)"

definition reply_lookup :: "string \<Rightarrow> string \<Rightarrow> registry \<Rightarrow> nat option" where
  "reply_lookup sid callID r = Option.bind (entry_of r sid) (\<lambda>e. map_of (re_replies e) callID)"

text \<open>The send of the reply, after the lock was given up.\<close>

definition reply_send :: "nat \<Rightarrow> string \<Rightarrow> registry \<Rightarrow> registry option" where
  "reply_send ch reply r =
     (let c = rg_replies r ! ch
      in if rc_closed c then None
         else Some (if rc_value c = None then r\<lparr>rg_replies := (rg_replies r)[ch := c\<lparr>rc_value := Some reply\<rparr>]\<rparr> else r))"

definition SendAskUserReply :: "string \<Rightarrow> string \<Rightarrow> string \<Rightarrow> registry \<Rightarrow> registry option" where
  "SendAskUserReply sid callID reply r =
     (case reply_lookup sid callID r of None \<Rightarrow> Some r | Some ch \<Rightarrow> reply_send ch reply r)"

definition RegisterAskUser :: "string \<Rightarrow> string \<Rightarrow> registry \<Rightarrow> registry \<times> nat" where
  "RegisterAskUser sid callID r =
     (let ch = length (rg_replies r); r1 = r\<lparr>rg_replies := rg_replies r @ [\<lparr>rc_value = None, rc_closed = False\<rparr>]\<rparr>
      in case rg_sessions r sid of
           None \<Rightarrow> (r1, ch)
         | Some n \<Rightarrow> (upd_entry n (\<lambda>e. e\<lparr>re_replies := (callID, ch) # filter (\<lambda>(k, _). k \<noteq> callID) (re_replies e)\<rparr>) r1, ch))"

definition UnregisterAskUser :: "string \<Rightarrow> string \<Rightarrow> registry \<Rightarrow> registry" where
  "UnregisterAskUser sid callID r =
     (case rg_sessions r sid of
        None \<Rightarrow> r
      | Some n \<Rightarrow> upd_entry n (\<lambda>e. e\<lparr>re_replies := filter (\<lambda>(k, _). k \<noteq> callID) (re_replies e)\<rparr>) r)"

text \<open>A receive from a reply channel: a closed channel yields the empty string.\<close>

definition reply_receive :: "nat \<Rightarrow> registry \<Rightarrow> string option" where
  "reply_receive ch r =
     (let c = rg_replies r ! ch
      in case rc_value c of Some s \<Rightarrow> Some s | None \<Rightarrow> if rc_closed c then Some [] else None)"

definition registry_Cancel :: "string \<Rightarrow> registry \<Rightarrow> registry \<times> bool" where
  "registry_Cancel sid r =
     (case rg_sessions r sid of
        None \<Rightarrow> (r, False)
      | Some n \<Rightarrow>
          let r = upd_entry n (\<lambda>e. e\<lparr>re_cancelled := True\<rparr>) r
          in (case re_turn_cancel (rg_entries r ! n) of
                None \<Rightarrow> r | Some t \<Rightarrow> r\<lparr>rg_cancelled_turns := t # rg_cancelled_turns r\<rparr>, True))"

definition IsCancelled :: "string \<Rightarrow> registry \<Rightarrow> bool" where
  "IsCancelled sid r = (case entry_of r sid of None \<Rightarrow> False | Some e \<Rightarrow> re_cancelled e)"

definition ResetCancel :: "string \<Rightarrow> registry \<Rightarrow> registry" where
  "ResetCancel sid r = (case rg_sessions r sid of None \<Rightarrow> r | Some n \<Rightarrow> upd_entry n (\<lambda>e. e\<lparr>re_cancelled := False\<rparr>) r)"

definition StoreTurnCancel :: "string \<Rightarrow> nat option \<Rightarrow> registry \<Rightarrow> registry" where
  "StoreTurnCancel sid cancel r =
     (case rg_sessions r sid of None \<Rightarrow> r | Some n \<Rightarrow> upd_entry n (\<lambda>e. e\<lparr>re_turn_cancel := cancel\<rparr>) r)"

definition close_subs :: "nat list \<Rightarrow> sub_chan list \<Rightarrow> sub_chan list" where
  "close_subs chs cs = fold (\<lambda>ch cs. cs[ch := (cs ! ch)\<lparr>sc_closed := True\<rparr>]) chs cs"

definition close_replies :: "nat list \<Rightarrow> reply_chan list \<Rightarrow> reply_chan list" where
  "close_replies chs cs = fold (\<lambda>ch cs. cs[ch := (cs ! ch)\<lparr>rc_closed := True\<rparr>]) chs cs"

definition registry_RemoveSession :: "string \<Rightarrow> registry \<Rightarrow> registry" where
  "registry_RemoveSession sid r =
     (case rg_sessions r sid of
        None \<Rightarrow> r
      | Some n \<Rightarrow>
          let e = rg_entries r ! n
          in upd_entry n (\<lambda>e. e\<lparr>re_subs := [], re_replies := []\<rparr>)
               (r\<lparr>rg_sessions := map_delete sid (rg_sessions r), rg_subs := close_subs (map snd (re_subs e)) (rg_subs r),
                  rg_replies := close_replies (map snd (re_replies e)) (rg_replies r)\<rparr>))"

record session_info =
  si_session_id :: string
  si_ctx :: session_ctx
  si_has_ask_user :: bool
  si_is_cancelled :: bool
  si_created_at :: time
  si_last_activity :: time

text \<open>\<open>ListSessions\<close>, in the order in which the map is read.\<close>

definition ListSessions :: "string list \<Rightarrow> registry \<Rightarrow> session_info list" where
  "ListSessions order r =
     concat (map (\<lambda>sid. case entry_of r sid of None \<Rightarrow> [] | Some e \<Rightarrow>
       [\<lparr>si_session_id = sid, si_ctx = re_ctx e, si_has_ask_user = (re_replies e \<noteq> []), si_is_cancelled = re_cancelled e,
         si_created_at = re_created_at e, si_last_activity = re_last_activity e\<rparr>]) order)"

end
