(* ===== verification/Session_Registry_Steps.thy ===== *)
theory Session_Registry_Steps
  imports Session_Registry
begin

text \<open>
  The runs of the session registry: any interleaving of the operations, each with the references its goroutine
  holds.  The invariant says that the channels of the subscribers an entry lists are open and belong to no
  other entry.  From it follow that publishing never panics and what every subscriber receives.
\<close>

datatype reg_step = RCreate time string session_ctx | RSubscribe nat | RUnsubscribe nat nat | RPublish time nat session_event
  | RReceive nat | REnqueue string string | RTake nat | RDrain string | RReply nat string | RRegister string string
  | RUnregister string string | RCancel string | RReset string | RStoreCancel string "nat option" | RRemove string

text \<open>A step with a reference that no goroutine can hold does nothing; \<open>None\<close> is a panic.\<close>

definition reg_run :: "reg_step \<Rightarrow> registry \<Rightarrow> registry option" where
  "reg_run x r =
     (case x of
        RCreate now sid ctx \<Rightarrow> Some (CreateSession now sid ctx r)
      | RSubscribe n \<Rightarrow> Some (if n < length (rg_entries r) then fst (subscribe_at n r) else r)
      | RUnsubscribe n sub \<Rightarrow> Some (if n < length (rg_entries r) then unsubscribe n sub r else r)
      | RPublish now n ev \<Rightarrow> if n < length (rg_entries r) then publish_at now n ev r else Some r
      | RReceive ch \<Rightarrow> Some (if ch < length (rg_subs r) then fst (sub_receive ch r) else r)
      | REnqueue sid content \<Rightarrow> Some (fst (EnqueueMessage sid content r))
      | RTake n \<Rightarrow> Some (if n < length (rg_entries r) then (case receive_message n r of None \<Rightarrow> r | Some (r', _) \<Rightarrow> r') else r)
      | RDrain sid \<Rightarrow> Some (DrainMessages sid r)
      | RReply ch reply \<Rightarrow> if ch < length (rg_replies r) then reply_send ch reply r else Some r
      | RRegister sid call \<Rightarrow> Some (fst (RegisterAskUser sid call r))
      | RUnregister sid call \<Rightarrow> Some (UnregisterAskUser sid call r)
      | RCancel sid \<Rightarrow> Some (fst (registry_Cancel sid r))
      | RReset sid \<Rightarrow> Some (ResetCancel sid r)
      | RStoreCancel sid c \<Rightarrow> Some (StoreTurnCancel sid c r)
      | RRemove sid \<Rightarrow> Some (registry_RemoveSession sid r))"

fun reg_runs :: "reg_step list \<Rightarrow> registry \<Rightarrow> registry option" where
  "reg_runs [] r = Some r"
| "reg_runs (x # xs) r = Option.bind (reg_run x r) (reg_runs xs)"

section \<open>The invariant\<close>

definition chans :: "registry \<Rightarrow> nat \<Rightarrow> nat list" where
  "chans r n = map snd (re_subs (rg_entries r ! n))"

definition chans_open :: "registry \<Rightarrow> bool" where
  "chans_open r \<longleftrightarrow> (\<forall>n < length (rg_entries r). distinct (chans r n) \<and>
     (\<forall>ch \<in> set (chans r n). ch < length (rg_subs r) \<and> \<not> sc_closed (rg_subs r ! ch)))"

definition chans_apart :: "registry \<Rightarrow> bool" where
  "chans_apart r \<longleftrightarrow> (\<forall>n m ch. n < length (rg_entries r) \<longrightarrow> m < length (rg_entries r) \<longrightarrow>
     ch \<in> set (chans r n) \<longrightarrow> ch \<in> set (chans r m) \<longrightarrow> n = m)"

definition refs_ok :: "registry \<Rightarrow> bool" where
  "refs_ok r \<longleftrightarrow> (\<forall>sid n. rg_sessions r sid = Some n \<longrightarrow> n < length (rg_entries r))"

definition reg_inv :: "registry \<Rightarrow> bool" where
  "reg_inv r \<longleftrightarrow> chans_open r \<and> chans_apart r \<and> refs_ok r"

text \<open>Operations that leave the subscribers alone.\<close>

definition same_subs :: "registry \<Rightarrow> registry \<Rightarrow> bool" where
  "same_subs r r' \<longleftrightarrow> length (rg_entries r') = length (rg_entries r) \<and> rg_subs r' = rg_subs r \<and> rg_sessions r' = rg_sessions r \<and>
     (\<forall>n. chans r' n = chans r n)"

lemma same_subs_inv: "same_subs r r' \<Longrightarrow> reg_inv r \<Longrightarrow> reg_inv r'"
  by (simp add: same_subs_def reg_inv_def chans_open_def chans_apart_def refs_ok_def)

lemma upd_entry_simps [simp]:
  "length (rg_entries (upd_entry n f r)) = length (rg_entries r)" "rg_subs (upd_entry n f r) = rg_subs r"
  "rg_sessions (upd_entry n f r) = rg_sessions r" "rg_replies (upd_entry n f r) = rg_replies r"
  by (simp_all add: upd_entry_def)

lemma chans_upd_entry:
  "n < length (rg_entries r) \<Longrightarrow> chans (upd_entry n f r) m = (if m = n then map snd (re_subs (f (rg_entries r ! n))) else chans r m)"
  by (simp add: chans_def upd_entry_def nth_list_update)

lemma chans_upd_same: "(\<And>e. re_subs (f e) = re_subs e) \<Longrightarrow> chans (upd_entry n f r) m = chans r m"
  by (cases "n < length (rg_entries r)") (simp_all add: chans_def upd_entry_def nth_list_update list_update_beyond)

lemma same_subs_refl [simp]: "same_subs r r"
  by (simp add: same_subs_def)

lemma same_subs_upd [intro]: "(\<And>e. re_subs (f e) = re_subs e) \<Longrightarrow> same_subs r (upd_entry n f r)"
  by (simp add: same_subs_def chans_upd_same)

lemma same_subs_replies:
  "same_subs r (r\<lparr>rg_replies := x\<rparr>)" "same_subs r (r\<lparr>rg_cancelled_turns := y\<rparr>)"
  by (simp_all add: same_subs_def chans_def)

lemma same_subs_trans: "same_subs r s \<Longrightarrow> same_subs s t \<Longrightarrow> same_subs r t"
  by (simp add: same_subs_def)

lemma quiet_steps:
  assumes "reg_run x r = Some r'"
    and "x \<in> {REnqueue sid c, RTake n, RDrain sid, RReply ch c, RRegister sid c, RUnregister sid c, RCancel sid, RReset sid,
      RStoreCancel sid k}"
  shows "same_subs r r'"
  using assms
  by (elim insertE emptyE)
    (auto simp: reg_run_def EnqueueMessage_def receive_message_def DrainMessages_def reply_send_def RegisterAskUser_def
      UnregisterAskUser_def registry_Cancel_def ResetCancel_def StoreTurnCancel_def Let_def same_subs_replies
      intro: same_subs_trans [OF same_subs_replies(1) same_subs_upd] same_subs_trans [OF same_subs_upd same_subs_replies(2)]
      split: option.splits if_splits list.splits)

lemma reg_invI:
  assumes "\<And>n. n < length (rg_entries r) \<Longrightarrow> distinct (chans r n)"
    and "\<And>n ch. n < length (rg_entries r) \<Longrightarrow> ch \<in> set (chans r n) \<Longrightarrow> ch < length (rg_subs r) \<and> \<not> sc_closed (rg_subs r ! ch)"
    and "\<And>n m ch. n < length (rg_entries r) \<Longrightarrow> m < length (rg_entries r) \<Longrightarrow>
      ch \<in> set (chans r n) \<Longrightarrow> ch \<in> set (chans r m) \<Longrightarrow> n = m"
    and "\<And>sid n. rg_sessions r sid = Some n \<Longrightarrow> n < length (rg_entries r)"
  shows "reg_inv r"
  using assms unfolding reg_inv_def chans_open_def chans_apart_def refs_ok_def by blast

lemma reg_invD:
  assumes "reg_inv r"
  shows "n < length (rg_entries r) \<Longrightarrow> distinct (chans r n)"
    and "n < length (rg_entries r) \<Longrightarrow> ch \<in> set (chans r n) \<Longrightarrow> ch < length (rg_subs r) \<and> \<not> sc_closed (rg_subs r ! ch)"
    and "n < length (rg_entries r) \<Longrightarrow> m < length (rg_entries r) \<Longrightarrow> ch \<in> set (chans r n) \<Longrightarrow> ch \<in> set (chans r m) \<Longrightarrow> n = m"
    and "rg_sessions r sid = Some n \<Longrightarrow> n < length (rg_entries r)"
  using assms unfolding reg_inv_def chans_open_def chans_apart_def refs_ok_def by blast+

lemma CreateSession_inv: "reg_inv r \<Longrightarrow> reg_inv (CreateSession now sid ctx r)"
proof -
  assume inv: "reg_inv r"
  let ?r = "CreateSession now sid ctx r"
  have len: "length (rg_entries ?r) = Suc (length (rg_entries r))" "rg_subs ?r = rg_subs r"
    by (simp_all add: CreateSession_def)
  have ch: "chans ?r n = (if n < length (rg_entries r) then chans r n else [])" if "n < Suc (length (rg_entries r))" for n
    using that by (auto simp: chans_def CreateSession_def nth_append)
  show ?thesis
  proof (rule reg_invI)
    show "n < length (rg_entries ?r)" if "rg_sessions ?r s = Some n" for s n
      using that reg_invD(4) [OF inv] by (auto simp: CreateSession_def less_SucI split: if_splits)
  qed (use reg_invD [OF inv] ch len in \<open>auto split: if_splits\<close>)
qed

lemma subscribe_at_inv:
  assumes inv: "reg_inv r" and n: "n < length (rg_entries r)"
  shows "reg_inv (fst (subscribe_at n r))"
proof -
  let ?r = "fst (subscribe_at n r)"
  have len: "length (rg_entries ?r) = length (rg_entries r)" "rg_subs ?r = rg_subs r @ [\<lparr>sc_queue = [], sc_closed = False\<rparr>]"
    "rg_sessions ?r = rg_sessions r"
    by (simp_all add: subscribe_at_def Let_def)
  have ch: "chans ?r m = (if m = n then length (rg_subs r) # chans r n else chans r m)" for m
    using n by (simp add: subscribe_at_def Let_def chans_upd_entry) (simp add: chans_def)
  have new: "length (rg_subs r) \<notin> set (chans r m)" if "m < length (rg_entries r)" for m
    using reg_invD(2) [OF inv that] by blast
  have old: "ch < length (rg_subs r) \<and> \<not> sc_closed ((rg_subs r @ [x]) ! ch)"
    if "m < length (rg_entries r)" "ch \<in> set (chans r m)" for m ch x
    using reg_invD(2) [OF inv that] by (simp add: nth_append)
  show ?thesis
  proof (rule reg_invI)
    show "distinct (chans ?r m)" if "m < length (rg_entries ?r)" for m
      using that new reg_invD(1) [OF inv] by (simp add: ch len)
    show "k < length (rg_subs ?r) \<and> \<not> sc_closed (rg_subs ?r ! k)"
      if "m < length (rg_entries ?r)" "k \<in> set (chans ?r m)" for m k
      using that old [of m k] by (auto simp: ch len less_SucI split: if_splits)
    show "m = p" if "m < length (rg_entries ?r)" "p < length (rg_entries ?r)" "k \<in> set (chans ?r m)" "k \<in> set (chans ?r p)" for m p k
      using that new reg_invD(3) [OF inv] by (auto simp: ch len split: if_splits)
  qed (use reg_invD(4) [OF inv] len in auto)
qed

lemma unsubscribe_inv:
  assumes inv: "reg_inv r" and n: "n < length (rg_entries r)"
  shows "reg_inv (unsubscribe n sub r)"
proof -
  let ?r = "unsubscribe n sub r"
  have ch: "chans ?r m = (if m = n then map snd (filter (\<lambda>(i, _). i \<noteq> sub) (re_subs (rg_entries r ! n))) else chans r m)" for m
    using n by (simp add: unsubscribe_def chans_upd_entry)
  have part: "set (chans ?r m) \<subseteq> set (chans r m)" for m by (auto simp: ch) (force simp: chans_def)
  show ?thesis
  proof (rule reg_invI)
    show "distinct (chans ?r m)" if "m < length (rg_entries ?r)" for m
    proof -
      have "distinct (map snd (re_subs (rg_entries r ! m)))" using that reg_invD(1) [OF inv, of m] by (simp add: chans_def unsubscribe_def)
      then have "distinct (map snd (filter P (re_subs (rg_entries r ! m))))" for P by (rule distinct_map_filter)
      then show ?thesis using \<open>distinct (map snd (re_subs (rg_entries r ! m)))\<close> by (cases "m = n") (simp_all add: ch chans_def [of r])
    qed
  qed (use reg_invD [OF inv] part in \<open>auto simp: unsubscribe_def, blast+\<close>)
qed

lemma offer_all_open:
  assumes "distinct chs" and "\<And>ch. ch \<in> set chs \<Longrightarrow> ch < length cs \<and> \<not> sc_closed (cs ! ch)"
  shows "\<exists>cs'. offer_all ev chs cs = Some cs' \<and> length cs' = length cs \<and>
    (\<forall>ch. cs' ! ch = (if ch \<in> set chs then the (offer ev (cs ! ch)) else cs ! ch))"
  using assms
proof (induction chs arbitrary: cs)
  case (Cons ch chs)
  then obtain c where c: "offer ev (cs ! ch) = Some c" by (auto simp: offer_def)
  have "\<And>k. k \<in> set chs \<Longrightarrow> k < length (cs[ch := c]) \<and> \<not> sc_closed (cs[ch := c] ! k)"
    using Cons.prems by (auto simp: nth_list_update)
  from Cons.IH [OF _ this] obtain cs' where cs': "offer_all ev chs (cs[ch := c]) = Some cs'" "length cs' = length cs"
    "\<forall>k. cs' ! k = (if k \<in> set chs then the (offer ev (cs[ch := c] ! k)) else cs[ch := c] ! k)"
    using Cons.prems(1) by auto
  then show ?case using Cons.prems c by (auto simp: nth_list_update intro!: exI [of _ cs'])
qed simp

lemma offer_open: "\<not> sc_closed c \<Longrightarrow> \<exists>c'. offer ev c = Some c' \<and> \<not> sc_closed c'"
  by (simp add: offer_def)

lemma publish_at_open:
  assumes inv: "reg_inv r" and n: "n < length (rg_entries r)"
  shows "\<exists>r'. publish_at now n ev r = Some r' \<and> reg_inv r' \<and> (\<forall>m. chans r' m = chans r m) \<and>
    length (rg_entries r') = length (rg_entries r) \<and> length (rg_subs r') = length (rg_subs r) \<and>
    (\<forall>ch. rg_subs r' ! ch = (if ch \<in> set (chans r n) then the (offer ev (rg_subs r ! ch)) else rg_subs r ! ch))"
proof -
  obtain cs where cs: "offer_all ev (chans r n) (rg_subs r) = Some cs" "length cs = length (rg_subs r)"
    "\<forall>ch. cs ! ch = (if ch \<in> set (chans r n) then the (offer ev (rg_subs r ! ch)) else rg_subs r ! ch)"
    using offer_all_open [OF reg_invD(1) [OF inv n] reg_invD(2) [OF inv n]] by blast
  define r' where "r' = (upd_entry n (\<lambda>e. e\<lparr>re_last_activity := now\<rparr>) r)\<lparr>rg_subs := cs\<rparr>"
  have ch: "chans r' m = chans r m" for m
    using chans_upd_same [of "\<lambda>e. e\<lparr>re_last_activity := now\<rparr>" n r m] by (simp add: r'_def chans_def)
  have r': "length (rg_entries r') = length (rg_entries r)" "rg_subs r' = cs" "rg_sessions r' = rg_sessions r"
    by (simp_all add: r'_def)
  have "reg_inv r'"
  proof (rule reg_invI)
    show "k < length (rg_subs r') \<and> \<not> sc_closed (rg_subs r' ! k)"
      if "m < length (rg_entries r')" "k \<in> set (chans r' m)" for m k
      using that reg_invD(2) [OF inv, of m k] offer_open [of "rg_subs r ! k" ev] cs by (auto simp: r' ch)
  qed (use reg_invD [OF inv] in \<open>auto simp: r' ch\<close>)
  moreover have "publish_at now n ev r = Some r'" using cs(1) by (simp add: publish_at_def chans_def r'_def)
  ultimately show ?thesis using ch r' cs by auto
qed

lemma sub_receive_inv:
  assumes inv: "reg_inv r" shows "reg_inv (fst (sub_receive ch r))"
proof -
  have "chans (fst (sub_receive ch r)) n = chans r n" for n
    by (simp add: sub_receive_def chans_def split: list.split)
  moreover have "sc_closed (rg_subs (fst (sub_receive ch r)) ! k) = sc_closed (rg_subs r ! k)" for k
    by (cases "ch < length (rg_subs r)")
      (simp_all add: sub_receive_def nth_list_update list_update_beyond split: list.split)
  moreover have "length (rg_subs (fst (sub_receive ch r))) = length (rg_subs r)"
    "rg_entries (fst (sub_receive ch r)) = rg_entries r" "rg_sessions (fst (sub_receive ch r)) = rg_sessions r"
    by (simp_all add: sub_receive_def split: list.split)
  ultimately show ?thesis using inv by (simp add: reg_inv_def chans_open_def chans_apart_def refs_ok_def)
qed

lemma close_subs_nth:
  assumes "\<And>k. k \<in> set chs \<Longrightarrow> k < length cs"
  shows "length (close_subs chs cs) = length cs" and
    "close_subs chs cs ! ch = (if ch \<in> set chs then (cs ! ch)\<lparr>sc_closed := True\<rparr> else cs ! ch)"
proof -
  have *: "length (close_subs chs cs) = length cs \<and>
      close_subs chs cs ! ch = (if ch \<in> set chs then (cs ! ch)\<lparr>sc_closed := True\<rparr> else cs ! ch)"
    using assms unfolding close_subs_def
    by (induction chs arbitrary: cs) (auto simp: nth_list_update)
  then show "length (close_subs chs cs) = length cs" and
    "close_subs chs cs ! ch = (if ch \<in> set chs then (cs ! ch)\<lparr>sc_closed := True\<rparr> else cs ! ch)" by blast+
qed

lemma registry_RemoveSession_inv:
  assumes inv: "reg_inv r" shows "reg_inv (registry_RemoveSession sid r)"
proof (cases "rg_sessions r sid")
  case None
  then show ?thesis using inv by (simp add: registry_RemoveSession_def)
next
  case (Some n)
  let ?r = "registry_RemoveSession sid r"
  have n: "n < length (rg_entries r)" by (rule reg_invD(4) [OF inv Some])
  have ch: "chans ?r m = (if m = n then [] else chans r m)" for m
    using n Some by (simp add: registry_RemoveSession_def Let_def chans_upd_entry) (simp add: chans_def)
  have parts: "length (rg_entries ?r) = length (rg_entries r)" "rg_subs ?r = close_subs (chans r n) (rg_subs r)"
    "rg_sessions ?r = map_delete sid (rg_sessions r)"
    using Some by (simp_all add: registry_RemoveSession_def Let_def chans_def)
  note close = close_subs_nth [of "chans r n" "rg_subs r"]
  have inrange: "\<And>k. k \<in> set (chans r n) \<Longrightarrow> k < length (rg_subs r)" using reg_invD(2) [OF inv n] by blast
  show ?thesis
  proof (rule reg_invI)
    show "k < length (rg_subs ?r) \<and> \<not> sc_closed (rg_subs ?r ! k)" if "m < length (rg_entries ?r)" "k \<in> set (chans ?r m)" for m k
      using that reg_invD(2,3) [OF inv] n inrange by (auto simp: parts ch close split: if_splits)
    show "m < length (rg_entries ?r)" if "rg_sessions ?r s = Some m" for s m
      using that reg_invD(4) [OF inv] by (auto simp: parts split: if_splits)
  qed (use reg_invD [OF inv] in \<open>auto simp: parts ch split: if_splits\<close>)
qed

lemma reg_run_inv:
  assumes inv: "reg_inv r" and step: "reg_run x r = Some r'"
  shows "reg_inv r'"
proof (cases x)
  case (RCreate now sid ctx)
  then show ?thesis using CreateSession_inv [OF inv] step by (auto simp: reg_run_def)
next
  case (RSubscribe n)
  then show ?thesis using subscribe_at_inv [OF inv] inv step by (auto simp: reg_run_def split: if_splits)
next
  case (RUnsubscribe n sub)
  then show ?thesis using unsubscribe_inv [OF inv] inv step by (auto simp: reg_run_def split: if_splits)
next
  case (RPublish now n ev)
  then show ?thesis using publish_at_open [OF inv, of n now ev] inv step by (auto simp: reg_run_def split: if_splits)
next
  case (RReceive ch)
  then show ?thesis using sub_receive_inv [OF inv] inv step by (auto simp: reg_run_def split: if_splits)
next
  case (RRemove sid)
  then show ?thesis using registry_RemoveSession_inv [OF inv] step by (auto simp: reg_run_def)
qed (use same_subs_inv [OF quiet_steps [OF step] inv] in auto)

lemma reg_runs_inv: "reg_inv r \<Longrightarrow> reg_runs xs r = Some r' \<Longrightarrow> reg_inv r'"
proof (induction xs arbitrary: r)
  case (Cons x xs)
  then show ?case using reg_run_inv by (cases "reg_run x r") auto
qed simp

lemma NewSessionRegistry_inv: "reg_inv NewSessionRegistry"
  by (rule reg_invI) (simp_all add: NewSessionRegistry_def)


text \<open>The subscriber of a removed session is closed, a new one of the same identifier is not.\<close>

definition some_ctx :: session_ctx where
  "some_ctx = \<lparr>sx_project_root = [], sx_platform = [], sx_project_key = [], sx_user_id = [], sx_agent_name = ''a''\<rparr>"

definition remove_and_recreate :: "reg_step list" where
  "remove_and_recreate = [RCreate 1 ''s'' some_ctx, RSubscribe 0, RRemove ''s'', RCreate 2 ''s'' some_ctx, RSubscribe 1]"


text \<open>
  Sending a reply is different: the reply channel is looked up under the lock and used after it.  If the
  session is removed in between, the channel is closed and the send panics.
\<close>

lemma reply_after_removal_panics:
  "\<exists>r ch. reg_runs [RCreate 1 ''s'' some_ctx, RRegister ''s'' ''q''] NewSessionRegistry = Some r \<and>
     reply_lookup ''s'' ''q'' r = Some ch \<and> reg_runs [RRemove ''s'', RReply ch ''yes''] r = None"
  by (simp add: reg_run_def NewSessionRegistry_def CreateSession_def RegisterAskUser_def registry_RemoveSession_def
      close_subs_def close_replies_def upd_entry_def Let_def reply_lookup_def entry_of_def reply_send_def)

text \<open>So does a subscription: its channel is added to an entry that is gone and is never closed.\<close>

lemma subscription_after_removal_hangs:
  "\<exists>r. reg_runs [RCreate 1 ''s'' some_ctx, RRemove ''s'', RSubscribe 0] NewSessionRegistry = Some r \<and>
     rg_sessions r ''s'' = None \<and> snd (sub_receive 0 r) = Blocked"
  by (simp add: reg_run_def NewSessionRegistry_def CreateSession_def subscribe_at_def registry_RemoveSession_def
      close_subs_def close_replies_def upd_entry_def Let_def sub_receive_def)

section \<open>What a subscriber receives\<close>

fun published_to :: "nat \<Rightarrow> reg_step list \<Rightarrow> session_event list" where
  "published_to n [] = []"
| "published_to n (RPublish now m ev # xs) = (if m = n then ev # published_to n xs else published_to n xs)"
| "published_to n (x # xs) = published_to n xs"

text \<open>The events one subscriber takes out of its channel during a run.\<close>

fun taken :: "nat \<Rightarrow> reg_step list \<Rightarrow> registry \<Rightarrow> session_event list" where
  "taken ch [] r = []"
| "taken ch (x # xs) r =
     (case reg_run x r of
        None \<Rightarrow> []
      | Some r' \<Rightarrow>
          (if x = RReceive ch \<and> ch < length (rg_subs r)
           then (case sc_queue (rg_subs r ! ch) of [] \<Rightarrow> [] | ev # _ \<Rightarrow> [ev]) else []) @ taken ch xs r')"

definition queue_of :: "registry \<Rightarrow> nat \<Rightarrow> session_event list" where
  "queue_of r ch = sc_queue (rg_subs r ! ch)"

text \<open>One step of a channel that only entry \<open>n\<close> may feed.\<close>

definition fed_by :: "nat \<Rightarrow> nat \<Rightarrow> registry \<Rightarrow> bool" where
  "fed_by n ch r \<longleftrightarrow> ch < length (rg_subs r) \<and> length (queue_of r ch) \<le> subscriberBuffer \<and>
     (\<forall>m < length (rg_entries r). m \<noteq> n \<longrightarrow> ch \<notin> set (chans r m)) \<and> n < length (rg_entries r)"

lemma quiet_step_queue: "same_subs r r' \<Longrightarrow> queue_of r' ch = queue_of r ch \<and> chans r' = chans r"
  by (auto simp: same_subs_def queue_of_def)

lemma same_subs_fed: "same_subs r r' \<Longrightarrow> fed_by n ch r \<Longrightarrow> fed_by n ch r'"
  by (simp add: fed_by_def same_subs_def queue_of_def)

definition chan_step :: "nat \<Rightarrow> nat \<Rightarrow> registry \<Rightarrow> session_event list \<Rightarrow> session_event list \<Rightarrow> registry \<Rightarrow> bool" where
  "chan_step n ch r got pub r' \<longleftrightarrow> fed_by n ch r' \<and> subseq (got @ queue_of r' ch) (queue_of r ch @ pub) \<and>
     (ch \<in> set (chans r' n) \<longrightarrow> ch \<in> set (chans r n)) \<and>
     (ch \<in> set (chans r' n) \<and> length (queue_of r ch) + length pub \<le> subscriberBuffer \<longrightarrow>
        got @ queue_of r' ch = queue_of r ch @ pub)"

lemma chan_step_keep:
  "fed_by n ch r' \<Longrightarrow> queue_of r' ch = queue_of r ch \<Longrightarrow> (ch \<in> set (chans r' n) \<Longrightarrow> ch \<in> set (chans r n)) \<Longrightarrow>
    chan_step n ch r [] [] r'"
  by (simp add: chan_step_def)

lemma fed_by_same:
  "fed_by n ch r \<Longrightarrow> length (rg_entries r') = length (rg_entries r) \<Longrightarrow> length (rg_subs r') = length (rg_subs r) \<Longrightarrow>
    (\<And>m. set (chans r' m) \<subseteq> set (chans r m)) \<Longrightarrow> length (queue_of r' ch) \<le> subscriberBuffer \<Longrightarrow> fed_by n ch r'"
  by (auto simp: fed_by_def)

lemma publish_chan_step:
  assumes inv: "reg_inv r" and fed: "fed_by n ch r" and m: "m < length (rg_entries r)" and pub: "publish_at now m ev r = Some r'"
  shows "chan_step n ch r [] (if m = n then [ev] else []) r'"
proof -
  obtain r'' where r'': "publish_at now m ev r = Some r''" "\<forall>k. chans r'' k = chans r k"
    "length (rg_entries r'') = length (rg_entries r)" "length (rg_subs r'') = length (rg_subs r)"
    "\<forall>k. rg_subs r'' ! k = (if k \<in> set (chans r m) then the (offer ev (rg_subs r ! k)) else rg_subs r ! k)"
    using publish_at_open [OF inv m, of now ev] by blast
  have r': "chans r' k = chans r k" "length (rg_entries r') = length (rg_entries r)" "length (rg_subs r') = length (rg_subs r)"
    "rg_subs r' ! k = (if k \<in> set (chans r m) then the (offer ev (rg_subs r ! k)) else rg_subs r ! k)" for k
    using r'' pub by simp_all
  have short: "length (queue_of r ch) \<le> subscriberBuffer" using fed by (simp add: fed_by_def)
  show ?thesis
  proof (cases "ch \<in> set (chans r m)")
    case False
    then have q: "queue_of r' ch = queue_of r ch" using r'(4) by (simp add: queue_of_def)
    have "fed_by n ch r'" by (rule fed_by_same [OF fed]) (simp_all add: r' q short)
    then show ?thesis using False q by (auto simp: chan_step_def r'(1) subseq_rev_drop_many)
  next
    case True
    then have mn: "m = n" using fed m by (auto simp: fed_by_def)
    have "\<not> sc_closed (rg_subs r ! ch)" using reg_invD(2) [OF inv m True] by simp
    then have q: "queue_of r' ch = (if length (queue_of r ch) < subscriberBuffer then queue_of r ch @ [ev] else queue_of r ch)"
      using r'(4) True by (simp add: queue_of_def offer_def)
    have "fed_by n ch r'" by (rule fed_by_same [OF fed]) (simp_all add: r' q short)
    then show ?thesis using q mn True short by (simp add: chan_step_def r'(1) subseq_rev_drop_many)
  qed
qed

lemma create_chan_step: "fed_by n ch r \<Longrightarrow> chan_step n ch r [] [] (CreateSession now sid ctx r)"
proof -
  assume fed: "fed_by n ch r"
  let ?r = "CreateSession now sid ctx r"
  have "chans ?r m = chans r m" if "m < length (rg_entries r)" for m
    using that by (simp add: chans_def CreateSession_def nth_append)
  moreover have "chans ?r (length (rg_entries r)) = []" by (simp add: chans_def CreateSession_def)
  moreover have "length (rg_entries ?r) = Suc (length (rg_entries r))" "rg_subs ?r = rg_subs r"
    by (simp_all add: CreateSession_def)
  ultimately show ?thesis using fed
    by (intro chan_step_keep) (auto simp: fed_by_def queue_of_def less_Suc_eq)
qed

lemma subscribe_chan_step: "fed_by n ch r \<Longrightarrow> k < length (rg_entries r) \<Longrightarrow> chan_step n ch r [] [] (fst (subscribe_at k r))"
proof -
  assume fed: "fed_by n ch r" and k: "k < length (rg_entries r)"
  let ?r = "fst (subscribe_at k r)"
  have "chans ?r m = (if m = k then length (rg_subs r) # chans r k else chans r m)" for m
    using k by (simp add: subscribe_at_def Let_def chans_upd_entry) (simp add: chans_def)
  moreover have "rg_subs ?r = rg_subs r @ [\<lparr>sc_queue = [], sc_closed = False\<rparr>]" "length (rg_entries ?r) = length (rg_entries r)"
    by (simp_all add: subscribe_at_def Let_def)
  ultimately show ?thesis using fed
    by (intro chan_step_keep) (auto simp: fed_by_def queue_of_def nth_append split: if_splits)
qed

lemma unsubscribe_chan_step: "fed_by n ch r \<Longrightarrow> k < length (rg_entries r) \<Longrightarrow> chan_step n ch r [] [] (unsubscribe k sub r)"
proof -
  assume fed: "fed_by n ch r" and k: "k < length (rg_entries r)"
  have sub: "set (chans (unsubscribe k sub r) m) \<subseteq> set (chans r m)" for m
    using k by (auto simp: unsubscribe_def chans_upd_entry) (force simp: chans_def)
  have "rg_subs (unsubscribe k sub r) = rg_subs r" "length (rg_entries (unsubscribe k sub r)) = length (rg_entries r)"
    by (simp_all add: unsubscribe_def)
  then show ?thesis using fed sub by (intro chan_step_keep) (auto simp: fed_by_def queue_of_def)
qed

lemma remove_chan_step: "reg_inv r \<Longrightarrow> fed_by n ch r \<Longrightarrow> chan_step n ch r [] [] (registry_RemoveSession sid r)"
proof (cases "rg_sessions r sid")
  case (Some k)
  let ?r = "registry_RemoveSession sid r"
  assume inv: "reg_inv r" and fed: "fed_by n ch r"
  have k: "k < length (rg_entries r)" by (rule reg_invD(4) [OF inv Some])
  have same: "chans ?r m = (if m = k then [] else chans r m)" for m
    using k Some by (simp add: registry_RemoveSession_def Let_def chans_upd_entry) (simp add: chans_def)
  have parts: "length (rg_entries ?r) = length (rg_entries r)" "rg_subs ?r = close_subs (chans r k) (rg_subs r)"
    using Some by (simp_all add: registry_RemoveSession_def Let_def chans_def)
  have inrange: "\<And>j. j \<in> set (chans r k) \<Longrightarrow> j < length (rg_subs r)" using reg_invD(2) [OF inv k] by blast
  have "queue_of ?r ch = queue_of r ch" "length (rg_subs ?r) = length (rg_subs r)"
    using close_subs_nth [OF inrange] by (simp_all add: queue_of_def parts)
  then show ?thesis using fed parts(1) same by (intro chan_step_keep) (auto simp: fed_by_def split: if_splits)
qed (simp add: registry_RemoveSession_def chan_step_keep)

lemma receive_chan_step:
  "fed_by n ch r \<Longrightarrow> k < length (rg_subs r) \<Longrightarrow>
    chan_step n ch r (if k = ch then take 1 (queue_of r ch) else []) [] (fst (sub_receive k r))"
proof -
  assume fed: "fed_by n ch r" and k: "k < length (rg_subs r)"
  let ?r = "fst (sub_receive k r)"
  have same: "chans ?r m = chans r m" "length (rg_entries ?r) = length (rg_entries r)" "length (rg_subs ?r) = length (rg_subs r)" for m
    by (simp_all add: sub_receive_def chans_def split: list.split)
  have q: "queue_of ?r ch = (if k = ch then tl (queue_of r ch) else queue_of r ch)"
    using k by (auto simp: sub_receive_def queue_of_def nth_list_update split: list.split)
  have "length (queue_of r ch) \<le> subscriberBuffer" using fed by (simp add: fed_by_def)
  then have "fed_by n ch ?r" by (intro fed_by_same [OF fed]) (simp_all add: same q le_trans [OF diff_le_self])
  then show ?thesis using q by (cases "queue_of r ch") (simp_all add: chan_step_def same(1))
qed

lemma reg_run_chan_step:
  assumes inv: "reg_inv r" and fed: "fed_by n ch r" and step: "reg_run x r = Some r'"
  shows "chan_step n ch r (taken ch [x] r) (published_to n [x]) r'"
proof -
  have idle: "chan_step n ch r [] [] r" by (rule chan_step_keep [OF fed]) simp_all
  have quiet: "chan_step n ch r [] [] r'" if "same_subs r r'"
    using same_subs_fed [OF that fed] quiet_step_queue [OF that] by (intro chan_step_keep) simp_all
  have took: "(case queue_of r ch of [] \<Rightarrow> [] | ev # _ \<Rightarrow> [ev]) = take 1 (queue_of r ch)" by (cases "queue_of r ch") simp_all
  show ?thesis
  proof (cases x)
    case (RCreate now sid ctx)
    then show ?thesis using create_chan_step [OF fed] step by (auto simp: reg_run_def)
  next
    case (RSubscribe k)
    then show ?thesis using subscribe_chan_step [OF fed] idle step by (auto simp: reg_run_def split: if_splits)
  next
    case (RUnsubscribe k sub)
    then show ?thesis using unsubscribe_chan_step [OF fed] idle step by (auto simp: reg_run_def split: if_splits)
  next
    case (RPublish now m ev)
    then show ?thesis using publish_chan_step [OF inv fed, of m now ev r'] idle step fed
      by (cases "m < length (rg_entries r)") (auto simp: reg_run_def fed_by_def)
  next
    case (RReceive k)
    show ?thesis
    proof (cases "k < length (rg_subs r)")
      case True
      then show ?thesis using receive_chan_step [OF fed True] step RReceive took
        by (auto simp: reg_run_def queue_of_def)
    next
      case False
      then show ?thesis using idle step RReceive by (auto simp: reg_run_def)
    qed
  next
    case (RRemove sid)
    then show ?thesis using remove_chan_step [OF inv fed] step by (auto simp: reg_run_def)
  qed (use quiet [OF quiet_steps [OF step]] step in simp_all)
qed

lemma chan_step_trans:
  assumes "chan_step n ch r g p r'" and "chan_step n ch r' g' p' r''"
  shows "chan_step n ch r (g @ g') (p @ p') r''"
proof -
  have "subseq (g @ g' @ queue_of r'' ch) (g @ queue_of r' ch @ p')"
    using assms(2) by (intro list_emb_append_mono [of _ g]) (simp_all add: chan_step_def)
  moreover have "subseq ((g @ queue_of r' ch) @ p') ((queue_of r ch @ p) @ p')"
    using assms(1) by (intro list_emb_append_mono [of _ "g @ queue_of r' ch" "queue_of r ch @ p"]) (simp_all add: chan_step_def)
  ultimately have "subseq ((g @ g') @ queue_of r'' ch) (queue_of r ch @ p @ p')"
    by (metis append.assoc subseq_order.order_trans)
  moreover have "(g @ g') @ queue_of r'' ch = queue_of r ch @ p @ p'"
    if "ch \<in> set (chans r'' n)" "length (queue_of r ch) + length (p @ p') \<le> subscriberBuffer"
  proof -
    have one: "g @ queue_of r' ch = queue_of r ch @ p" using that assms by (simp add: chan_step_def)
    then have "length (queue_of r' ch) \<le> length (queue_of r ch) + length p" by (metis le_add2 length_append)
    then have "g' @ queue_of r'' ch = queue_of r' ch @ p'" using that assms by (simp add: chan_step_def)
    with one show ?thesis by (metis append.assoc)
  qed
  ultimately show ?thesis using assms by (simp add: chan_step_def)
qed

lemma taken_Cons: "reg_run x r = Some r' \<Longrightarrow> taken ch (x # xs) r = taken ch [x] r @ taken ch xs r'"
  by simp

lemma published_Cons: "published_to n (x # xs) = published_to n [x] @ published_to n xs"
  by (cases x) simp_all

lemma reg_runs_chan_step:
  "reg_inv r \<Longrightarrow> fed_by n ch r \<Longrightarrow> reg_runs xs r = Some r' \<Longrightarrow> chan_step n ch r (taken ch xs r) (published_to n xs) r'"
proof (induction xs arbitrary: r)
  case Nil
  then show ?case by (auto intro: chan_step_keep)
next
  case (Cons x xs)
  then obtain r1 where r1: "reg_run x r = Some r1" "reg_runs xs r1 = Some r'" by (cases "reg_run x r") auto
  have step: "chan_step n ch r (taken ch [x] r) (published_to n [x]) r1" by (rule reg_run_chan_step [OF Cons.prems(1,2) r1(1)])
  then have "fed_by n ch r1" by (simp add: chan_step_def)
  from chan_step_trans [OF step Cons.IH [OF reg_run_inv [OF Cons.prems(1) r1(1)] this r1(2)]]
  show ?case by (subst taken_Cons [OF r1(1)], subst published_Cons)
qed

text \<open>What a subscriber receives: in every run after its subscription the events it has taken and those still
  waiting for it are events published to its session since, in the order of publication and without repetition;
  and as long as it is subscribed and no more were published than its channel holds, none is missing.\<close>

theorem subscriber_sees_published:
  assumes "reg_runs xs NewSessionRegistry = Some r" and sub: "Subscribe sid r = (r1, ch, Some (n, i))"
    and run: "reg_runs ys r1 = Some r2"
  shows "subseq (taken ch ys r1 @ queue_of r2 ch) (published_to n ys) \<and>
    (ch \<in> set (chans r2 n) \<and> length (published_to n ys) \<le> subscriberBuffer \<longrightarrow>
       taken ch ys r1 @ queue_of r2 ch = published_to n ys)"
proof -
  have inv: "reg_inv r" using reg_runs_inv [OF NewSessionRegistry_inv assms(1)] .
  have n: "rg_sessions r sid = Some n" and r1: "r1 = fst (subscribe_at n r)" and ch: "ch = length (rg_subs r)"
    using sub by (auto simp: Subscribe_def subscribe_at_def Let_def split: option.splits prod.splits)
  have len: "n < length (rg_entries r)" by (rule reg_invD(4) [OF inv n])
  have inv1: "reg_inv r1" using subscribe_at_inv [OF inv len] r1 by simp
  have subs: "rg_subs r1 = rg_subs r @ [\<lparr>sc_queue = [], sc_closed = False\<rparr>]" "length (rg_entries r1) = length (rg_entries r)"
    "chans r1 m = (if m = n then ch # chans r n else chans r m)" for m
    using len by (simp_all add: r1 ch subscribe_at_def Let_def chans_upd_entry) (simp add: chans_def)
  have "fed_by n ch r1"
    using len reg_invD(2) [OF inv] by (auto simp: fed_by_def subs queue_of_def ch)
  from reg_runs_chan_step [OF inv1 this run] show ?thesis
    by (simp add: chan_step_def queue_of_def subs ch)
qed

theorem subscriber_sees_published_witness:
  "\<exists>r r1 r2. reg_runs [RCreate 1 ''s'' some_ctx] NewSessionRegistry = Some r \<and> Subscribe ''s'' r = (r1, 0, Some (0, 0)) \<and>
     reg_runs [RPublish 2 0 (blank_event SESSION_EVENT_ANSWER), RReceive 0, RPublish 3 0 (blank_event SESSION_EVENT_REASONING)] r1 = Some r2 \<and>
     subseq (taken 0 [RPublish 2 0 (blank_event SESSION_EVENT_ANSWER), RReceive 0, RPublish 3 0 (blank_event SESSION_EVENT_REASONING)] r1 @
       queue_of r2 0)
       (published_to 0 [RPublish 2 0 (blank_event SESSION_EVENT_ANSWER), RReceive 0, RPublish 3 0 (blank_event SESSION_EVENT_REASONING)])"
proof -
  let ?ys = "[RPublish 2 0 (blank_event SESSION_EVENT_ANSWER), RReceive 0, RPublish 3 0 (blank_event SESSION_EVENT_REASONING)]"
  let ?r = "CreateSession 1 ''s'' some_ctx NewSessionRegistry"
  have r: "reg_runs [RCreate 1 ''s'' some_ctx] NewSessionRegistry = Some ?r" by (simp add: reg_run_def)
  obtain r1 where r1: "Subscribe ''s'' ?r = (r1, 0, Some (0, 0))"
    by (simp add: Subscribe_def subscribe_at_def CreateSession_def NewSessionRegistry_def Let_def)
  have "reg_runs ?ys r1 \<noteq> None"
    using r1 by (auto simp: Subscribe_def subscribe_at_def CreateSession_def NewSessionRegistry_def Let_def reg_run_def
        publish_at_def upd_entry_def offer_def sub_receive_def subscriberBuffer_def)
  then obtain r2 where r2: "reg_runs ?ys r1 = Some r2" by blast
  from subscriber_sees_published [OF r r1 r2] r r1 r2 show ?thesis by blast
qed

section \<open>Reconnecting\<close>

lemma after_event_last:
  assumes "distinct (map sv_id (vs @ v # ws))"
  shows "after_event (sv_id v) False (vs @ v # ws) = (True, map sv_proto ws)"
proof -
  have found: "after_event eid True us = (True, map sv_proto us)" for eid us
    by (induction us) simp_all
  show ?thesis using assms by (induction vs) (auto simp: found)
qed

lemma after_event_unknown: "eid \<notin> sv_id ` set vs \<Longrightarrow> fst (after_event eid False vs) = False"
  by (induction vs) (auto simp: case_prod_beta Let_def)

text \<open>A client that has seen the stored events up to some event is given exactly the rest; one that names no stored
  event is given all of them.\<close>

lemma replay_gives_the_rest:
  assumes "distinct (map sv_id (vs @ v # ws))" and "sv_id v \<noteq> []"
  shows "map sv_proto (vs @ [v]) @ ReplayEvents (Some (Inr (vs @ v # ws))) (sv_id v) = map sv_proto (vs @ v # ws)"
  using assms after_event_last [OF assms(1)] by (simp add: ReplayEvents_def)

lemma replay_unknown: "eid \<notin> sv_id ` set vs \<Longrightarrow> ReplayEvents (Some (Inr vs)) eid = map sv_proto vs"
  using after_event_unknown [of eid vs] by (auto simp: ReplayEvents_def split: prod.split)

end
