(* ===== verification/Session_Processor.thy ===== *)
theory Session_Processor
  imports Session_Registry_Steps
begin

text \<open>
  The background loops that process the messages of a session
  (\<open>internal/service/sessionprocessor/processor.go\<close>).  A loop is a goroutine with the channel it reads, found once
  at its start, and its cancellation; a turn is the sequence of operations it performs on its event stream, with
  the turn executor as a parameter: the chunks and events it emits and its error.  The tool confirmation that
  runs inside a turn is split at its wait for the reply.

  The theory proves how a turn looks to a client, and what happens to loops that are stopped and started again.
\<close>

section \<open>Loops\<close>

record proc_loop =
  lp_session :: string
  lp_entry :: "nat option"
  lp_cancelled :: bool
  lp_running :: bool

record processor =
  pr_active :: "string \<rightharpoonup> nat"
  pr_turns :: "string list"
  pr_loops :: "proc_loop list"

definition NewProcessor :: processor where
  "NewProcessor = \<lparr>pr_active = Map.empty, pr_turns = [], pr_loops = []\<rparr>"

text \<open>\<open>StartProcessing\<close>; the new goroutine has asked the registry for the message channel.\<close>

definition StartProcessing :: "registry \<Rightarrow> string \<Rightarrow> processor \<Rightarrow> processor" where
  "StartProcessing reg sid p =
     (if pr_active p sid \<noteq> None then p
      else p\<lparr>pr_active := (pr_active p)(sid \<mapsto> length (pr_loops p)),
             pr_loops := pr_loops p @ [\<lparr>lp_session = sid, lp_entry = rg_sessions reg sid, lp_cancelled = False, lp_running = True\<rparr>]\<rparr>)"

definition upd_loop :: "nat \<Rightarrow> (proc_loop \<Rightarrow> proc_loop) \<Rightarrow> processor \<Rightarrow> processor" where
  "upd_loop i f p = p\<lparr>pr_loops := (pr_loops p)[i := f (pr_loops p ! i)]\<rparr>"

definition StopProcessing :: "string \<Rightarrow> processor \<Rightarrow> processor" where
  "StopProcessing sid p =
     (case pr_active p sid of
        None \<Rightarrow> p
      | Some i \<Rightarrow> (upd_loop i (\<lambda>l. l\<lparr>lp_cancelled := True\<rparr>) p)\<lparr>pr_active := map_delete sid (pr_active p)\<rparr>)"

definition IsProcessing :: "string \<Rightarrow> processor \<Rightarrow> bool" where
  "IsProcessing sid p \<longleftrightarrow> pr_active p sid \<noteq> None"

definition IsTurnActive :: "string \<Rightarrow> processor \<Rightarrow> bool" where
  "IsTurnActive sid p \<longleftrightarrow> sid \<in> set (pr_turns p)"

text \<open>What the \<open>select\<close> of a loop can do: end, because it was cancelled or its channel is closed, or take a message.\<close>

datatype loop_choice = LoopEnds | LoopTakes string registry | LoopWaits

definition loop_choices :: "registry \<Rightarrow> proc_loop \<Rightarrow> loop_choice list" where
  "loop_choices reg l =
     (if lp_cancelled l then [LoopEnds] else []) @
     (case lp_entry l of
        None \<Rightarrow> [LoopEnds]
      | Some n \<Rightarrow> (case receive_message n reg of Some (reg', m) \<Rightarrow> [LoopTakes m reg'] | None \<Rightarrow> []))"

definition select_loop :: "registry \<Rightarrow> proc_loop \<Rightarrow> nat \<Rightarrow> loop_choice" where
  "select_loop reg l k =
     (let cs = loop_choices reg l in if cs = [] then LoopWaits else cs ! (k mod length cs))"

text \<open>The deferred function at the end of a loop.\<close>

definition loop_exit :: "nat \<Rightarrow> processor \<Rightarrow> processor" where
  "loop_exit i p =
     (let p = upd_loop i (\<lambda>l. l\<lparr>lp_running := False\<rparr>) p
      in p\<lparr>pr_active := map_delete (lp_session (pr_loops p ! i)) (pr_active p)\<rparr>)"

definition turn_begins :: "string \<Rightarrow> processor \<Rightarrow> processor" where
  "turn_begins sid p = p\<lparr>pr_turns := sid # pr_turns p\<rparr>"

definition turn_ends :: "string \<Rightarrow> processor \<Rightarrow> processor" where
  "turn_ends sid p = p\<lparr>pr_turns := filter (\<lambda>s. s \<noteq> sid) (pr_turns p)\<rparr>"

section \<open>A turn\<close>

text \<open>What a turn executor does with its callbacks, and its error; whether the turn was cancelled.\<close>

datatype turn_emit = EmitChunk string | EmitEvent agent_event

record turn_run =
  tr_emits :: "turn_emit list"
  tr_error :: "go_error option"
  tr_cancelled :: bool

fun emit_op :: "turn_emit \<Rightarrow> stream_op" where
  "emit_op (EmitChunk c) = OpChunk c"
| "emit_op (EmitEvent e) = OpSend e"

definition no_model_error :: "string \<Rightarrow> go_error" where
  "no_model_error agent = ''no model available for agent '' @ go_quote agent @ '' '' @
     [CHR 0xE2, CHR 0x80, CHR 0x94] @ '' configure a model via Admin Dashboard''"

text \<open>\<open>processMessage\<close>: the operations on the stream; no executor means that no model is configured.\<close>

definition processMessage :: "session_ctx option \<Rightarrow> turn_run option \<Rightarrow> string \<Rightarrow> stream_op list" where
  "processMessage ctx run message =
     (case ctx of
        None \<Rightarrow> []
      | Some c \<Rightarrow>
          [OpUserMessage message, OpStarted] @
          (case run of
             None \<Rightarrow> [OpError (no_model_error (sx_agent_name c))]
           | Some t \<Rightarrow>
               map emit_op (tr_emits t) @
               (case tr_error t of None \<Rightarrow> [] | Some err \<Rightarrow> if tr_cancelled t then [] else [OpError err])) @
          [OpStopped])"

section \<open>Confirmation of a tool\<close>

definition confirm_question :: "string \<Rightarrow> string \<Rightarrow> string" where
  "confirm_question toolName args = ''Confirm execution of '' @ toolName @ '' with arguments: '' @ args"

definition confirm_event :: "string \<Rightarrow> string \<Rightarrow> string \<Rightarrow> agent_event" where
  "confirm_event callID toolName args =
     \<lparr>ev_type = EventTypeUserQuestion, ev_schema_version = [], ev_event_id = [], ev_timestamp = 0, ev_step = 0,
      ev_content = confirm_question toolName args,
      ev_metadata = Some [(''call_id'', GStr callID), (''tool_name'', GStr toolName)], ev_is_complete = False,
      ev_error = None, ev_agent_id = []\<rparr>"

definition denied_reply :: "string \<Rightarrow> bool" where
  "denied_reply reply \<longleftrightarrow> lower_ascii (trim_space reply) \<in> {''cancel'', ''no'', ''deny'', ''reject'', ''cancelled''}"

text \<open>How the wait of \<open>RequestConfirmation\<close> ends: a reply, the timeout, or the end of the context.\<close>

datatype confirm_end = Replied string | TimedOut | ContextDone go_error

definition confirm_result :: "confirm_end \<Rightarrow> go_error + bool" where
  "confirm_result e =
     (case e of Replied reply \<Rightarrow> Inr (\<not> denied_reply reply) | TimedOut \<Rightarrow> Inr False | ContextDone err \<Rightarrow> Inl err)"

definition confirm_begin :: "string \<Rightarrow> string \<Rightarrow> registry \<Rightarrow> registry \<times> nat" where
  "confirm_begin sid callID reg = RegisterAskUser sid callID reg"

text \<open>What the wait has received from its channel so far.\<close>

definition confirm_received :: "nat \<Rightarrow> registry \<Rightarrow> confirm_end option" where
  "confirm_received ch reg = map_option Replied (reply_receive ch reg)"

definition confirm_finish :: "string \<Rightarrow> string \<Rightarrow> registry \<Rightarrow> registry" where
  "confirm_finish sid callID reg = UnregisterAskUser sid callID reg"

section \<open>Stopping and starting again\<close>

text \<open>
  The deferred function of a loop removes the entry of its session, whoever owns it by then.  If a session is
  stopped and started again before the first loop has ended, the end of the first loop takes the second one
  out of the table: a third can be started beside it.
\<close>

definition restart_race :: "registry \<Rightarrow> string \<Rightarrow> processor" where
  "restart_race reg sid =
     StartProcessing reg sid (loop_exit 0 (StartProcessing reg sid (StopProcessing sid (StartProcessing reg sid NewProcessor))))"

lemma restart_race_two_loops:
  "length (filter (\<lambda>l. lp_session l = sid \<and> lp_running l \<and> \<not> lp_cancelled l) (pr_loops (restart_race reg sid))) = 2"
  by (simp add: restart_race_def StartProcessing_def StopProcessing_def loop_exit_def upd_loop_def NewProcessor_def Let_def)

text \<open>A cancelled loop may still take a message, since \<open>select\<close> chooses freely among what is ready.\<close>

lemma cancelled_loop_may_take:
  "lp_cancelled l \<Longrightarrow> lp_entry l = Some n \<Longrightarrow> receive_message n reg = Some (reg', m) \<Longrightarrow>
    select_loop reg l 1 = LoopTakes m reg'"
  by (simp add: select_loop_def loop_choices_def)

text \<open>A confirmation that is pending when its session is removed reads the zero value of the closed channel, which is not
  one of the words of refusal: the tool is executed.\<close>

lemma empty_reply_confirms: "confirm_result (Replied []) = Inr True"
  by (simp add: confirm_result_def denied_reply_def trim_space_def trim_left_space_def trim_right_space_def lower_ascii_def)

lemma removal_confirms:
  "\<exists>reg ch. reg_runs [RCreate 1 ''s'' some_ctx] NewSessionRegistry = Some reg \<and>
     confirm_received ch (registry_RemoveSession ''s'' (fst (confirm_begin ''s'' ''q'' reg))) = Some (Replied []) \<and>
     ch = snd (confirm_begin ''s'' ''q'' reg)"
  by (simp add: reg_run_def NewSessionRegistry_def CreateSession_def confirm_begin_def RegisterAskUser_def
      registry_RemoveSession_def close_subs_def close_replies_def upd_entry_def Let_def confirm_received_def reply_receive_def)

section \<open>What a client sees of a turn\<close>

definition agent_types :: "session_event_type set" where
  "agent_types = {SESSION_EVENT_ANSWER, SESSION_EVENT_ANSWER_CHUNK, SESSION_EVENT_TOOL_EXECUTION_START,
     SESSION_EVENT_TOOL_EXECUTION_END, SESSION_EVENT_REASONING, SESSION_EVENT_ASK_USER, SESSION_EVENT_ERROR,
     SESSION_EVENT_PLAN_UPDATE}"

text \<open>What \<open>Send\<close> may publish for an event: answers only for answers that were not streamed, errors only for errors.\<close>

definition send_types :: "agent_event \<Rightarrow> session_event_type set" where
  "send_types e =
     (case ev_type e of
        EventTypeAnswer \<Rightarrow> if meta_bool e ''already_streamed'' then {} else {SESSION_EVENT_ANSWER}
      | EventTypeError \<Rightarrow> {SESSION_EVENT_ERROR}
      | _ \<Rightarrow> agent_types - {SESSION_EVENT_ANSWER, SESSION_EVENT_ERROR})"

lemma send_types_agent: "send_types e \<subseteq> agent_types"
  by (cases "ev_type e") (auto simp: send_types_def agent_types_def)

lemma convertEvent_type: "convertEvent jl e = Some pe \<Longrightarrow> se_type pe \<in> send_types e"
  by (cases "ev_type e")
    (auto simp: convertEvent_def Let_def blank_event_def convert_tool_result_def convert_error_def convertPlanEvent_def
      agent_types_def send_types_def split: if_splits option.splits)

lemma persistAndPublish_published:
  "\<exists>eid. sw_published (persistAndPublish es s e w) = sw_published w @ [e\<lparr>se_event_id := eid\<rparr>]"
proof (cases "es_present es")
  case True
  obtain w' eid where sa: "store_append es (st_session_id s) e w = (w', eid)" by fastforce
  then have "sw_published w' = sw_published w" by (auto simp: store_append_def split: prod.splits sum.splits)
  then have "sw_published (persistAndPublish es s e w) =
      sw_published w @ [e\<lparr>se_event_id := if eid = [] then se_event_id e else eid\<rparr>]"
    using True sa by (simp add: persistAndPublish_def publish_def)
  then show ?thesis by blast
next
  case False
  then have "sw_published (persistAndPublish es s e w) = sw_published w @ [e\<lparr>se_event_id := se_event_id e\<rparr>]"
    by (simp add: persistAndPublish_def publish_def)
  then show ?thesis by blast
qed

lemma persistOnly_published [simp]: "sw_published (persistOnly es s e w) = sw_published w"
  by (auto simp: persistOnly_def store_append_def split: prod.splits sum.splits)

definition published_by :: "json_lib \<Rightarrow> 'st event_store \<Rightarrow> stream_op list \<Rightarrow> event_stream \<times> 'st stream_world \<Rightarrow> session_event list" where
  "published_by jl es ops sw = drop (length (sw_published (snd sw))) (sw_published (snd (run_stream jl es ops sw)))"

fun types_ok :: "stream_op \<Rightarrow> session_event list \<Rightarrow> bool" where
  "types_ok (OpSend e) evs \<longleftrightarrow> se_type ` set evs \<subseteq> send_types e \<and> length evs \<le> 1"
| "types_ok OpStarted evs \<longleftrightarrow> map se_type evs = [SESSION_EVENT_PROCESSING_STARTED]"
| "types_ok OpStopped evs \<longleftrightarrow> map se_type evs = [SESSION_EVENT_PROCESSING_STOPPED]"
| "types_ok (OpError err) evs \<longleftrightarrow> map se_type evs = [SESSION_EVENT_ERROR]"
| "types_ok (OpUserMessage c) evs \<longleftrightarrow> map se_type evs = [SESSION_EVENT_USER_MESSAGE]"
| "types_ok (OpChunk c) evs \<longleftrightarrow> map se_type evs = [SESSION_EVENT_ANSWER_CHUNK]"

lemma Send_published:
  "\<exists>evs. sw_published (snd (Send jl es e sw)) = sw_published (snd sw) @ evs \<and> types_ok (OpSend e) evs"
proof -
  obtain s w where sw: "sw = (s, w)" by (cases sw)
  let ?e = "if ev_schema_version e = [] then e\<lparr>ev_schema_version := EventSchemaVersion\<rparr> else e"
  show ?thesis
  proof (cases "ev_type e = EventTypeTokenUsage \<or> streamed_answer ?e \<or> convertEvent jl ?e = None")
    case True
    then show ?thesis by (intro exI [of _ "[]"]) (auto simp: Send_def sw Let_def)
  next
    case False
    then obtain pe where pe: "convertEvent jl ?e = Some pe" by blast
    define qe where "qe = pe\<lparr>se_session_id := st_session_id s\<rparr>"
    have ty: "se_type qe \<in> send_types e"
      using convertEvent_type [OF pe] by (simp add: qe_def send_types_def meta_bool_def meta_def split: if_splits)
    have snd_eq: "snd (Send jl es e sw) = (if isStreamingChunk ?e then publish qe w else persistAndPublish es s qe w)"
      using False pe unfolding Send_def sw Let_def qe_def by simp
    show ?thesis
    proof (cases "isStreamingChunk ?e")
      case True
      then show ?thesis using ty snd_eq by (intro exI [of _ "[qe]"]) (simp add: publish_def sw)
    next
      case False
      then obtain eid where "sw_published (snd (Send jl es e sw)) = sw_published w @ [qe\<lparr>se_event_id := eid\<rparr>]"
        using persistAndPublish_published [of es s qe w] snd_eq by auto
      then show ?thesis using ty by (intro exI [of _ "[qe\<lparr>se_event_id := eid\<rparr>]"]) (simp add: sw)
    qed
  qed
qed

lemma persist_types:
  "se_type e = t \<Longrightarrow> \<exists>evs. sw_published (persistAndPublish es s e w) = sw_published w @ evs \<and> map se_type evs = [t]"
  using persistAndPublish_published [of es s e w] by auto

lemma stream_step_published:
  "\<exists>evs. sw_published (snd (stream_step jl es x sw)) = sw_published (snd sw) @ evs \<and> types_ok x evs"
proof -
  obtain s w where sw: "sw = (s, w)" by (cases sw)
  show ?thesis
  proof (cases x)
    case (OpSend e)
    then show ?thesis using Send_published by simp
  qed (simp_all add: sw PublishProcessingStarted_def PublishProcessingStopped_def PublishError_def PublishUserMessage_def
      PublishAnswerChunk_def persist_types blank_event_def)
qed

fun ops_types_ok :: "stream_op list \<Rightarrow> session_event list \<Rightarrow> bool" where
  "ops_types_ok [] evs \<longleftrightarrow> evs = []"
| "ops_types_ok (x # xs) evs \<longleftrightarrow> (\<exists>a b. evs = a @ b \<and> types_ok x a \<and> ops_types_ok xs b)"

lemma run_stream_published:
  "\<exists>evs. sw_published (snd (run_stream jl es ops sw)) = sw_published (snd sw) @ evs \<and> ops_types_ok ops evs"
proof (induction ops arbitrary: sw)
  case Nil
  then show ?case by (simp add: run_stream_def)
next
  case (Cons x ops)
  obtain a where a: "sw_published (snd (stream_step jl es x sw)) = sw_published (snd sw) @ a" "types_ok x a"
    using stream_step_published by blast
  obtain b where b: "sw_published (snd (run_stream jl es ops (stream_step jl es x sw))) =
      sw_published (snd (stream_step jl es x sw)) @ b" "ops_types_ok ops b"
    using Cons by blast
  then show ?case using a by (intro exI [of _ "a @ b"]) (auto simp: run_stream_def)
qed

lemma published_by_types: "ops_types_ok ops (published_by jl es ops sw)"
proof -
  obtain evs where "sw_published (snd (run_stream jl es ops sw)) = sw_published (snd sw) @ evs" "ops_types_ok ops evs"
    using run_stream_published by blast
  then show ?thesis by (simp add: published_by_def)
qed

lemma ops_types_append:
  "ops_types_ok (xs @ ys) evs \<Longrightarrow> \<exists>a b. evs = a @ b \<and> ops_types_ok xs a \<and> ops_types_ok ys b"
proof (induction xs arbitrary: evs)
  case Nil
  then show ?case by auto
next
  case (Cons x xs)
  then obtain a b where "evs = a @ b" "types_ok x a" "ops_types_ok (xs @ ys) b" by auto
  moreover from Cons.IH [OF this(3)] obtain c d where "b = c @ d" "ops_types_ok xs c" "ops_types_ok ys d" by blast
  ultimately show ?case by (intro exI [of _ "a @ c"] exI [of _ d]) auto
qed

text \<open>Operations of the agent: everything but the frame of a turn.\<close>

fun agent_op :: "stream_op \<Rightarrow> bool" where
  "agent_op (OpSend _) = True"
| "agent_op (OpError _) = True"
| "agent_op (OpChunk _) = True"
| "agent_op _ = False"

lemma agent_ops_types: "ops_types_ok ops evs \<Longrightarrow> \<forall>x \<in> set ops. agent_op x \<Longrightarrow> se_type ` set evs \<subseteq> agent_types"
proof (induction ops arbitrary: evs)
  case (Cons x ops)
  then obtain a b where ab: "evs = a @ b" "types_ok x a" "ops_types_ok ops b" by auto
  then have "se_type ` set b \<subseteq> agent_types" using Cons by simp
  moreover have "se_type ` set a \<subseteq> agent_types"
  proof (cases x)
    case (OpSend e)
    then show ?thesis using ab(2) send_types_agent [of e] by auto
  qed (use ab(2) Cons.prems(2) in \<open>auto simp: agent_types_def\<close>)
  ultimately show ?case using ab(1) by auto
qed simp

text \<open>A turn whose agent reports no error and no answer but streamed ones publishes neither.\<close>

fun silent_op :: "stream_op \<Rightarrow> bool" where
  "silent_op (OpSend e) \<longleftrightarrow> send_types e \<inter> {SESSION_EVENT_ANSWER, SESSION_EVENT_ERROR} = {}"
| "silent_op (OpError _) = False"
| "silent_op _ = True"

lemma silent_ops_types:
  "ops_types_ok ops evs \<Longrightarrow> \<forall>x \<in> set ops. silent_op x \<Longrightarrow> se_type ` set evs \<inter> {SESSION_EVENT_ANSWER, SESSION_EVENT_ERROR} = {}"
proof (induction ops arbitrary: evs)
  case (Cons x ops)
  then obtain a b where ab: "evs = a @ b" "types_ok x a" "ops_types_ok ops b" by auto
  then have "se_type ` set b \<inter> {SESSION_EVENT_ANSWER, SESSION_EVENT_ERROR} = {}" using Cons by simp
  moreover have "se_type ` set a \<inter> {SESSION_EVENT_ANSWER, SESSION_EVENT_ERROR} = {}"
    using ab(2) Cons.prems(2) by (cases x) (auto simp: map_eq_Cons_conv)
  ultimately show ?case using ab(1) by auto
qed simp

lemma turn_shape:
  assumes "ctx \<noteq> None"
  shows "\<exists>u b m e. published_by jl es (processMessage ctx run message) sw = u # b # m @ [e] \<and>
    se_type u = SESSION_EVENT_USER_MESSAGE \<and> se_type b = SESSION_EVENT_PROCESSING_STARTED \<and>
    se_type e = SESSION_EVENT_PROCESSING_STOPPED \<and> se_type ` set m \<subseteq> agent_types"
proof -
  obtain c where c: "ctx = Some c" using assms by blast
  define mid where "mid = (case run of None \<Rightarrow> [OpError (no_model_error (sx_agent_name c))]
     | Some t \<Rightarrow> map emit_op (tr_emits t) @
         (case tr_error t of None \<Rightarrow> [] | Some err \<Rightarrow> if tr_cancelled t then [] else [OpError err]))"
  have agent: "\<forall>x \<in> set mid. agent_op x"
  proof -
    have "agent_op (emit_op k)" for k by (cases k) simp_all
    then show ?thesis by (auto simp: mid_def split: option.split)
  qed
  have "ops_types_ok ([OpUserMessage message, OpStarted] @ mid @ [OpStopped]) (published_by jl es (processMessage ctx run message) sw)"
    using published_by_types [of "processMessage ctx run message"] by (simp add: processMessage_def c mid_def)
  then obtain evs1 evs2 where split: "published_by jl es (processMessage ctx run message) sw = evs1 @ evs2"
    "ops_types_ok [OpUserMessage message, OpStarted] evs1" "ops_types_ok (mid @ [OpStopped]) evs2"
    using ops_types_append by blast
  obtain m evs3 where m: "evs2 = m @ evs3" "ops_types_ok mid m" "ops_types_ok [OpStopped] evs3"
    using ops_types_append [OF split(3)] by blast
  obtain u b where "evs1 = [u, b]" "se_type u = SESSION_EVENT_USER_MESSAGE" "se_type b = SESSION_EVENT_PROCESSING_STARTED"
    using split(2) by (auto simp: map_eq_Cons_conv)
  moreover obtain e where "evs3 = [e]" "se_type e = SESSION_EVENT_PROCESSING_STOPPED" using m(3) by (auto simp: map_eq_Cons_conv)
  ultimately show ?thesis using split(1) m(1) agent_ops_types [OF m(2) agent] by auto
qed

text \<open>C16: How a turn looks to a client: it starts with the user's message and the start of the processing, it ends with
  the end of the processing, and in between there are only events of the agent, so the end is announced exactly
  once, whether the model is missing, the turn fails, is cancelled or succeeds.\<close>

theorem turn_is_bracketed:
  assumes "ctx \<noteq> None"
  shows "\<exists>u b m e. published_by jl es (processMessage ctx run message) sw = u # b # m @ [e] \<and>
    se_type u = SESSION_EVENT_USER_MESSAGE \<and> se_type b = SESSION_EVENT_PROCESSING_STARTED \<and>
    se_type e = SESSION_EVENT_PROCESSING_STOPPED \<and> se_type ` set m \<subseteq> agent_types"
  by (rule turn_shape [OF assms])

theorem turn_is_bracketed_witness:
  "\<exists>u b m e. published_by no_json (db_store counting_lib) (processMessage (Some some_ctx) None ''hi'')
       (NewEventStream ''s'', \<lparr>sw_store = \<lparr>ld_count = 0, ld_rows = []\<rparr>, sw_stored = [], sw_published = []\<rparr>) = u # b # m @ [e] \<and>
     se_type u = SESSION_EVENT_USER_MESSAGE \<and> se_type b = SESSION_EVENT_PROCESSING_STARTED \<and>
     se_type e = SESSION_EVENT_PROCESSING_STOPPED \<and> se_type ` set m \<subseteq> agent_types"
  by (rule turn_is_bracketed) simp

end
