(* ===== verification/Task_Executor.thy ===== *)
theory Task_Executor
  imports Session_Processor Task_Manager
begin

text \<open>
  The executor of background tasks (\<open>internal/infrastructure/taskrunner/task_executor.go\<close>) and the worker pool
  that feeds it (\<open>internal/service/task/worker.go\<close>).  \<open>Execute\<close> is written over the models of the task
  manager, of the session registry and of the session processor; what the rest of the system does between the
  first message and the end of the wait is a parameter: the state it leaves and what the wait has received.

  The theory proves what the executor writes on a task and what it leaves behind, and, with the turn of the
  session processor, which turns end in an answer.
\<close>

section \<open>The wait for the answer\<close>

text \<open>What the \<open>select\<close> of the wait receives: the end of the context, or from the subscription.\<close>

datatype wait_input = WaitDone go_error | WaitClosed | WaitNil | WaitEvent session_event

text \<open>The text of a protocol message is the business of the protocol library.\<close>

definition agent_error_msg :: "(agent_error \<Rightarrow> string) \<Rightarrow> session_event \<Rightarrow> string" where
  "agent_error_msg pb ev =
     (case se_error ev of
        Some d \<Rightarrow> if pb d \<noteq> [] then ''agent error: '' @ pb d
                  else if se_content ev \<noteq> [] then ''agent error: '' @ se_content ev else ''agent error''
      | None \<Rightarrow> if se_content ev \<noteq> [] then ''agent error: '' @ se_content ev else ''agent error'')"

definition no_answer :: go_error where
  "no_answer = ''agent stopped without producing a final answer''"

text \<open>No result means that the wait goes on.\<close>

fun waitForCompletion :: "(agent_error \<Rightarrow> string) \<Rightarrow> string \<Rightarrow> wait_input list \<Rightarrow> (go_error + string) option" where
  "waitForCompletion pb ans [] = None"
| "waitForCompletion pb ans (WaitDone err # ins) =
     Some (if ans \<noteq> [] then Inr ans else Inl (''task wait cancelled: '' @ err))"
| "waitForCompletion pb ans (WaitClosed # ins) =
     Some (if ans = [] then Inl ''session channel closed before final answer'' else Inr ans)"
| "waitForCompletion pb ans (WaitNil # ins) = waitForCompletion pb ans ins"
| "waitForCompletion pb ans (WaitEvent ev # ins) =
     (case se_type ev of
        SESSION_EVENT_ANSWER \<Rightarrow> waitForCompletion pb (se_content ev) ins
      | SESSION_EVENT_PROCESSING_STOPPED \<Rightarrow> Some (if ans = [] then Inl no_answer else Inr ans)
      | SESSION_EVENT_ERROR \<Rightarrow> Some (Inl (agent_error_msg pb ev))
      | _ \<Rightarrow> waitForCompletion pb ans ins)"

lemma wait_answer_nonempty: "waitForCompletion pb ans ins = Some (Inr a) \<Longrightarrow> a \<noteq> []"
  by (induction pb ans ins rule: waitForCompletion.induct) (auto split: if_splits session_event_type.splits)

section \<open>One task\<close>

definition DefaultTaskTimeout :: int where
  "DefaultTaskTimeout = 30 * 60 * 1000000000"

definition NewTaskExecutor_timeout :: "int \<Rightarrow> int" where
  "NewTaskExecutor_timeout timeout = (if timeout \<le> 0 then DefaultTaskTimeout else timeout)"

definition isAutonomous :: "engine_task \<Rightarrow> bool" where
  "isAutonomous t \<longleftrightarrow> et_mode t = TaskModeBackground"

definition buildInitialMessage :: "engine_task \<Rightarrow> string" where
  "buildInitialMessage t =
     ''# Task: '' @ et_title t @ [CHR 0x0A, CHR 0x0A] @
     (if et_description t \<noteq> [] then et_description t @ [CHR 0x0A, CHR 0x0A] else []) @
     (if et_acceptance_criteria t \<noteq> []
      then ''Acceptance criteria:'' @ [CHR 0x0A] @
        concat (map (\<lambda>ac. ''- '' @ ac @ [CHR 0x0A]) (et_acceptance_criteria t)) @ [CHR 0x0A]
      else []) @
     ''Complete this task now. Respond with the final result when done.''"

record 'db exec_state =
  xs_db :: 'db
  xs_registry :: registry
  xs_processor :: processor

text \<open>
  The identifier of a new session, the times of the writes, the text of protocol messages, and what happens
  until the wait ends.
\<close>

record 'db exec_env =
  xe_session_id :: string
  xe_created_at :: time
  xe_started_at :: time
  xe_finished_at :: time
  xe_pb_text :: "agent_error \<Rightarrow> string"
  xe_run :: "'db exec_state \<Rightarrow> 'db exec_state \<times> wait_input list"

datatype exec_error = ExecGetTask uuid mgr_error | ExecFailed go_error | ExecComplete mgr_error

text \<open>The transition to \<open>in_progress\<close>; its error is only logged.\<close>

definition exec_start :: "'db task_sql \<Rightarrow> time \<Rightarrow> string \<Rightarrow> uuid \<Rightarrow> engine_task \<Rightarrow> 'db \<Rightarrow> 'db" where
  "exec_start S now ctx i t db =
     (if et_status t \<noteq> EngineTaskStatusInProgress
      then (case SetTaskStatus S now ctx i (task_status_string EngineTaskStatusInProgress) [] db of Inr db' \<Rightarrow> db' | Inl _ \<Rightarrow> db)
      else db)"

definition cron_context :: session_ctx where
  "cron_context = \<lparr>sx_project_root = [], sx_platform = ''cron'', sx_project_key = [], sx_user_id = [], sx_agent_name = []\<rparr>"

text \<open>The session of the task, or a new one; whether it is the executor's own.\<close>

definition exec_session :: "'db task_sql \<Rightarrow> 'db exec_env \<Rightarrow> string \<Rightarrow> uuid \<Rightarrow> engine_task \<Rightarrow> 'db exec_state \<Rightarrow> 'db exec_state \<times> string \<times> bool" where
  "exec_session S env ctx i t st =
     (if et_session_id t \<noteq> [] then (st, et_session_id t, False)
      else let sid = xe_session_id env
           in (st\<lparr>xs_registry := CreateSession (xe_created_at env) sid cron_context (xs_registry st),
                  xs_db := (case AttachSession S ctx i sid (xs_db st) of Inr db \<Rightarrow> db | Inl _ \<Rightarrow> xs_db st)\<rparr>, sid, True))"

definition finalizeSession :: "string \<Rightarrow> bool \<Rightarrow> 'db exec_state \<Rightarrow> 'db exec_state" where
  "finalizeSession sid owned st =
     (let st = st\<lparr>xs_processor := StopProcessing sid (xs_processor st)\<rparr>
      in if owned then st\<lparr>xs_registry := registry_RemoveSession sid (xs_registry st)\<rparr> else st)"

text \<open>The reason is cut to the size of its column; an error of the write is only logged.\<close>

definition markFailed_task :: "'db task_sql \<Rightarrow> time \<Rightarrow> string \<Rightarrow> uuid \<Rightarrow> go_error \<Rightarrow> 'db exec_state \<Rightarrow> 'db exec_state \<times> exec_error option" where
  "markFailed_task S now ctx i cause st =
     (case FailTask S now ctx i (if length cause > 4000 then take 4000 cause else cause) (xs_db st) of
        Inr db \<Rightarrow> (st\<lparr>xs_db := db\<rparr>, Some (ExecFailed cause))
      | Inl _ \<Rightarrow> (st, Some (ExecFailed cause)))"

definition needs_input_reason :: go_error where
  "needs_input_reason = ''task requires user input but is running in autonomous mode (status='' @
     task_status_string EngineTaskStatusNeedsInput @ '')''"

definition exec_finish :: "'db task_sql \<Rightarrow> time \<Rightarrow> string \<Rightarrow> uuid \<Rightarrow> engine_task \<Rightarrow> string \<Rightarrow> 'db exec_state \<Rightarrow> 'db exec_state \<times> exec_error option" where
  "exec_finish S now ctx i t answer st =
     (if isAutonomous t \<and>
         (case GetTask S ctx i (xs_db st) of Inr cur \<Rightarrow> et_status cur = EngineTaskStatusNeedsInput | Inl _ \<Rightarrow> False)
      then markFailed_task S now ctx i needs_input_reason st
      else case CompleteTask S now ctx i answer (xs_db st) of
             Inl e \<Rightarrow> (st, Some (ExecComplete e))
           | Inr db \<Rightarrow> (st\<lparr>xs_db := db\<rparr>, None))"

definition exec_unsubscribe :: "(nat \<times> nat) option \<Rightarrow> 'db exec_state \<Rightarrow> 'db exec_state" where
  "exec_unsubscribe sub st =
     (case sub of None \<Rightarrow> st | Some (n, k) \<Rightarrow> st\<lparr>xs_registry := unsubscribe n k (xs_registry st)\<rparr>)"

text \<open>From the subscription to the end of the call; no result means that the wait goes on.\<close>

definition exec_run :: "'db task_sql \<Rightarrow> 'db exec_env \<Rightarrow> string \<Rightarrow> uuid \<Rightarrow> engine_task \<Rightarrow> string \<Rightarrow> bool \<Rightarrow> 'db exec_state \<Rightarrow> ('db exec_state \<times> exec_error option) option" where
  "exec_run S env ctx i t sid own st =
     (case EnqueueMessage sid (buildInitialMessage t) (xs_registry st) of
        (_, Some err) \<Rightarrow>
          Some (markFailed_task S (xe_finished_at env) ctx i (''enqueue initial message: '' @ err) (finalizeSession sid own st))
      | (reg, None) \<Rightarrow>
          (case xe_run env (st\<lparr>xs_registry := reg\<rparr>) of
             (st, ins) \<Rightarrow>
               map_option (\<lambda>r. case r of
                   Inl err \<Rightarrow> markFailed_task S (xe_finished_at env) ctx i err (finalizeSession sid own st)
                 | Inr answer \<Rightarrow> exec_finish S (xe_finished_at env) ctx i t answer (finalizeSession sid own st))
                 (waitForCompletion (xe_pb_text env) [] ins)))"

definition task_Execute :: "'db task_sql \<Rightarrow> 'db exec_env \<Rightarrow> string \<Rightarrow> uuid \<Rightarrow> 'db exec_state \<Rightarrow> ('db exec_state \<times> exec_error option) option" where
  "task_Execute S env ctx i st =
     (case GetTask S ctx i (xs_db st) of
        Inl e \<Rightarrow> Some (st, Some (ExecGetTask i e))
      | Inr t \<Rightarrow>
          if task_is_terminal t then Some (st, None)
          else let st = st\<lparr>xs_db := exec_start S (xe_started_at env) ctx i t (xs_db st)\<rparr>;
                   (st, sid, own) = exec_session S env ctx i t st;
                   (reg, ch, sub) = Subscribe sid (xs_registry st);
                   st = st\<lparr>xs_registry := reg, xs_processor := StartProcessing reg sid (xs_processor st)\<rparr>
               in map_option (\<lambda>(st, err). (exec_unsubscribe sub st, err)) (exec_run S env ctx i t sid own st))"

section \<open>Which turns end in an answer\<close>

text \<open>The answers and the first error among the events of a turn; the answer that counts is the last one.\<close>

definition answers_of :: "session_event list \<Rightarrow> session_event list" where
  "answers_of evs = filter (\<lambda>ev. se_type ev = SESSION_EVENT_ANSWER) evs"

definition first_error :: "session_event list \<Rightarrow> session_event option" where
  "first_error evs = find (\<lambda>ev. se_type ev = SESSION_EVENT_ERROR) evs"

definition last_answer :: "string \<Rightarrow> session_event list \<Rightarrow> string" where
  "last_answer ans evs = (case answers_of evs of [] \<Rightarrow> ans | _ \<Rightarrow> se_content (last (answers_of evs)))"

definition turn_result :: "(agent_error \<Rightarrow> string) \<Rightarrow> session_event list \<Rightarrow> go_error + string" where
  "turn_result pb evs =
     (case first_error evs of
        Some ev \<Rightarrow> Inl (agent_error_msg pb ev)
      | None \<Rightarrow> if last_answer [] evs = [] then Inl no_answer else Inr (last_answer [] evs))"

lemma last_answer_Cons:
  "last_answer ans (ev # evs) = last_answer (if se_type ev = SESSION_EVENT_ANSWER then se_content ev else ans) evs"
  by (simp add: last_answer_def answers_of_def split: list.splits)

lemma first_error_Cons: "first_error (ev # evs) = (if se_type ev = SESSION_EVENT_ERROR then Some ev else first_error evs)"
  by (simp add: first_error_def)

lemma wait_middle:
  assumes "se_type ` set m \<subseteq> agent_types" and "se_type e = SESSION_EVENT_PROCESSING_STOPPED"
  shows "waitForCompletion pb ans (map WaitEvent (m @ [e])) =
    Some (case first_error m of Some ev \<Rightarrow> Inl (agent_error_msg pb ev)
          | None \<Rightarrow> if last_answer ans m = [] then Inl no_answer else Inr (last_answer ans m))"
  using assms(1)
proof (induction m arbitrary: ans)
  case Nil
  then show ?case using assms(2) by (simp add: first_error_def last_answer_def answers_of_def)
next
  case (Cons ev m)
  then have ev: "se_type ev \<in> agent_types" and "se_type ` set m \<subseteq> agent_types" by simp_all
  from ev have "waitForCompletion pb ans (map WaitEvent ((ev # m) @ [e])) =
      (if se_type ev = SESSION_EVENT_ERROR then Some (Inl (agent_error_msg pb ev))
       else waitForCompletion pb (if se_type ev = SESSION_EVENT_ANSWER then se_content ev else ans) (map WaitEvent (m @ [e])))"
    by (auto simp: agent_types_def)
  then show ?case
    unfolding Cons.IH [OF \<open>se_type ` set m \<subseteq> agent_types\<close>] last_answer_Cons first_error_Cons by simp
qed

lemma turn_result_frame:
  assumes "se_type u = SESSION_EVENT_USER_MESSAGE" "se_type b = SESSION_EVENT_PROCESSING_STARTED"
    "se_type e = SESSION_EVENT_PROCESSING_STOPPED"
  shows "first_error (u # b # m @ [e]) = first_error m" and "last_answer [] (u # b # m @ [e]) = last_answer [] m"
  using assms by (induction m) (simp_all add: first_error_def last_answer_def answers_of_def split: list.splits)

text \<open>
  The events of a turn always end the wait of the task executor; the task fails with the first error of
  the turn, and without an error its result is the last answer that was published, if that is not empty.
\<close>

lemma turn_ends_wait:
  assumes "ctx \<noteq> None"
  shows "waitForCompletion pb [] (map WaitEvent (published_by jl es (processMessage ctx run message) sw)) =
    Some (turn_result pb (published_by jl es (processMessage ctx run message) sw))"
proof -
  obtain u b m e where evs: "published_by jl es (processMessage ctx run message) sw = u # b # m @ [e]"
    and ty: "se_type u = SESSION_EVENT_USER_MESSAGE" "se_type b = SESSION_EVENT_PROCESSING_STARTED"
      "se_type e = SESSION_EVENT_PROCESSING_STOPPED" and m: "se_type ` set m \<subseteq> agent_types"
    using turn_shape [OF assms] by metis
  show ?thesis
    unfolding evs turn_result_def turn_result_frame [OF ty] using ty wait_middle [OF m ty(3), of pb "[]"] by simp
qed

definition only_streamed :: "turn_run \<Rightarrow> bool" where
  "only_streamed t \<longleftrightarrow> tr_error t = None \<and>
     (\<forall>k \<in> set (tr_emits t). case k of EmitChunk _ \<Rightarrow> True
        | EmitEvent e \<Rightarrow> ev_type e \<noteq> EventTypeError \<and> (ev_type e = EventTypeAnswer \<longrightarrow> meta_bool e ''already_streamed''))"

lemma silent_emit:
  "(case k of EmitChunk _ \<Rightarrow> True
    | EmitEvent e \<Rightarrow> ev_type e \<noteq> EventTypeError \<and> (ev_type e = EventTypeAnswer \<longrightarrow> meta_bool e ''already_streamed'')) \<Longrightarrow>
   silent_op (emit_op k)"
proof (cases k)
  case (EmitEvent e)
  then show "(case k of EmitChunk _ \<Rightarrow> True
    | EmitEvent e \<Rightarrow> ev_type e \<noteq> EventTypeError \<and> (ev_type e = EventTypeAnswer \<longrightarrow> meta_bool e ''already_streamed'')) \<Longrightarrow> ?thesis"
    by (cases "ev_type e") (auto simp: send_types_def agent_types_def)
qed simp

lemma silent_turn_fails:
  assumes "only_streamed t"
  shows "waitForCompletion pb [] (map WaitEvent (published_by jl es (processMessage (Some c) (Some t) message) sw)) =
    Some (Inl no_answer)"
proof -
  let ?evs = "published_by jl es (processMessage (Some c) (Some t) message) sw"
  have "\<forall>x \<in> set (processMessage (Some c) (Some t) message). silent_op x"
    using assms silent_emit unfolding only_streamed_def processMessage_def by fastforce
  with published_by_types have "se_type ` set ?evs \<inter> {SESSION_EVENT_ANSWER, SESSION_EVENT_ERROR} = {}"
    by (rule silent_ops_types)
  then have none: "se_type ev \<noteq> SESSION_EVENT_ANSWER \<and> se_type ev \<noteq> SESSION_EVENT_ERROR" if "ev \<in> set ?evs" for ev
    using that by (metis Int_iff empty_iff image_eqI insertI1 insertI2)
  then have "answers_of ?evs = []" "first_error ?evs = None"
    by (auto simp: answers_of_def first_error_def filter_empty_conv find_None_iff dest!: none)
  then show ?thesis
    by (simp add: turn_ends_wait turn_result_def last_answer_def)
qed

text \<open>The wait of the task executor ends with every turn.  The task fails with the first error of the turn; without
  an error its result is the last answer the turn has published, and if it has published none, or an empty one,
  the task fails too.\<close>

theorem task_answer_of_turn:
  assumes "ctx \<noteq> None"
  shows "waitForCompletion pb [] (map WaitEvent (published_by jl es (processMessage ctx run message) sw)) =
    Some (turn_result pb (published_by jl es (processMessage ctx run message) sw))"
  by (rule turn_ends_wait [OF assms])

theorem task_answer_of_turn_witness:
  "waitForCompletion (\<lambda>_. []) [] (map WaitEvent (published_by no_json (db_store counting_lib) (processMessage (Some some_ctx) None ''hi'')
     (NewEventStream ''s'', \<lparr>sw_store = \<lparr>ld_count = 0, ld_rows = []\<rparr>, sw_stored = [], sw_published = []\<rparr>))) =
   Some (turn_result (\<lambda>_. []) (published_by no_json (db_store counting_lib) (processMessage (Some some_ctx) None ''hi'')
     (NewEventStream ''s'', \<lparr>sw_store = \<lparr>ld_count = 0, ld_rows = []\<rparr>, sw_stored = [], sw_published = []\<rparr>)))"
  by (rule task_answer_of_turn) simp

section \<open>What is written on the task\<close>

context task_store
begin

lemma complete_row:
  assumes "CompleteTask S now ctx i result s = Inr s'"
  shows "\<exists>m. tbl s' i = Some m \<and> tm_status m = ''completed'' \<and> tm_result m = result"
proof -
  obtain m t m' where up: "row_update (tenantIDFromCtx ctx) (tbl s) (tbl s') i m m'"
    and t: "task_transition now EngineTaskStatusCompleted (toEngineTask m) = Inr t"
    and m': "\<exists>u. m' = (toTaskModel (t\<lparr>et_result := result\<rparr>))\<lparr>tm_tenant_id := tm_tenant_id m, tm_updated_at := u\<rparr>"
    using update_status_ok [of now ctx i EngineTaskStatusCompleted result s s'] assms by (auto simp: CompleteTask_def)
  then have "tm_status m' = ''completed''" "tm_result m' = result"
    using transition_status [OF t] by (auto simp: toTaskModel_def)
  moreover have "tbl s' i = Some m'" using up by (simp add: row_update_def)
  ultimately show ?thesis by blast
qed

lemma fail_row:
  assumes "FailTask S now ctx i reason s = Inr s'"
  shows "\<exists>m. tbl s' i = Some m \<and> tm_status m = ''failed'' \<and> tm_error m = reason"
proof -
  obtain task where get: "repo_GetByID S ctx i s = Inr task"
    and rest: "(case bind_res (task_fail now reason task) (\<lambda>t. Inr (Some t)) of
       Inl e \<Rightarrow> Inl (MgrRepo (RepoTask e)) | Inr None \<Rightarrow> Inr s | Inr (Some task') \<Rightarrow> lift_repo (repo_Update S ctx task' s)) = Inr s'"
    using assms unfolding FailTask_def update_with_def by auto
  obtain m where m: "tbl s i = Some m" "tm_id m = i" "task = toEngineTask m" using get_by_id_ok [OF get] by blast
  obtain t where t: "task_fail now reason (toEngineTask m) = Inr t" and up: "repo_Update S ctx t s = Inr s'"
    using rest m(3) by (cases "task_fail now reason task") auto
  from t obtain t1 where t1: "task_transition now EngineTaskStatusFailed (toEngineTask m) = Inr t1" "t = t1\<lparr>et_error := reason\<rparr>"
    by (auto simp: task_fail_def)
  then have fields: "et_status t = EngineTaskStatusFailed" "et_error t = reason" "et_id t = i"
    using transition_status [OF t1(1)] transition_row(4) [OF t1(1)] m by simp_all
  obtain u where "tbl s' = (tbl s)(i \<mapsto> (toTaskModel t)\<lparr>tm_tenant_id := tenantIDFromCtx ctx, tm_updated_at := u\<rparr>)"
    using update_ok [OF up] fields by auto
  then show ?thesis using fields by (simp add: toTaskModel_def)
qed

lemma finish_settles:
  assumes "exec_finish S now ctx i t answer st = (st', None)"
  shows "\<exists>m. tbl (xs_db st') i = Some m \<and> tm_status m = ''completed'' \<and> tm_result m = answer"
  using assms complete_row
  by (auto simp: exec_finish_def markFailed_task_def split: if_splits sum.splits)

lemma markFailed_settles:
  assumes "markFailed_task S now ctx i cause st = (st', err)"
  shows "err = Some (ExecFailed cause) \<and>
    ((\<exists>m. tbl (xs_db st') i = Some m \<and> tm_status m = ''failed'' \<and> tm_error m = take 4000 cause) \<or>
     \<not> is_ok (FailTask S now ctx i (take 4000 cause) (xs_db st')))"
proof -
  have "(if length cause > 4000 then take 4000 cause else cause) = take 4000 cause" by simp
  then have "(st', err) = (case FailTask S now ctx i (take 4000 cause) (xs_db st) of
      Inr db \<Rightarrow> (st\<lparr>xs_db := db\<rparr>, Some (ExecFailed cause)) | Inl _ \<Rightarrow> (st, Some (ExecFailed cause)))"
    using assms unfolding markFailed_task_def by simp
  then show ?thesis
    by (cases "FailTask S now ctx i (take 4000 cause) (xs_db st)") (auto simp: is_ok_iff dest: fail_row)
qed

end

text \<open>What the end of a call writes keeps the session and the loops as \<open>finalizeSession\<close> left them.\<close>

lemma finish_frames:
  "xs_registry (fst (markFailed_task S now ctx i cause st)) = xs_registry st \<and>
   xs_processor (fst (markFailed_task S now ctx i cause st)) = xs_processor st"
  "xs_registry (fst (exec_finish S now ctx i t answer st)) = xs_registry st \<and>
   xs_processor (fst (exec_finish S now ctx i t answer st)) = xs_processor st"
  by (auto simp: markFailed_task_def exec_finish_def split: sum.splits if_splits)

lemma removed_entry: "rg_sessions (registry_RemoveSession sid reg) sid = None"
  by (auto simp: registry_RemoveSession_def Let_def upd_entry_def split: option.splits)

lemma finalized:
  "pr_active (xs_processor (finalizeSession sid own st)) sid = None \<and>
   (own \<longrightarrow> rg_sessions (xs_registry (finalizeSession sid own st)) sid = None)"
  by (auto simp: finalizeSession_def Let_def StopProcessing_def upd_loop_def removed_entry split: option.splits)

text \<open>Every way out of \<open>exec_run\<close> goes through the end of the session.\<close>

lemma exec_run_cases:
  assumes "exec_run S env ctx i t sid own st = Some r"
  shows "(\<exists>st1 cause. r = markFailed_task S (xe_finished_at env) ctx i cause (finalizeSession sid own st1)) \<or>
    (\<exists>st1 a. a \<noteq> [] \<and> r = exec_finish S (xe_finished_at env) ctx i t a (finalizeSession sid own st1))"
proof -
  obtain reg e where en: "EnqueueMessage sid (buildInitialMessage t) (xs_registry st) = (reg, e)" by fastforce
  show ?thesis
  proof (cases e)
    case None
    obtain st1 ins where run: "xe_run env (st\<lparr>xs_registry := reg\<rparr>) = (st1, ins)" by fastforce
    then obtain w where w: "waitForCompletion (xe_pb_text env) [] ins = Some w"
      and r: "r = (case w of Inl err \<Rightarrow> markFailed_task S (xe_finished_at env) ctx i err (finalizeSession sid own st1)
        | Inr answer \<Rightarrow> exec_finish S (xe_finished_at env) ctx i t answer (finalizeSession sid own st1))"
      using assms en None by (auto simp: exec_run_def)
    show ?thesis
    proof (cases w)
      case (Inl err)
      then show ?thesis using r by auto
    next
      case (Inr a)
      then have "a \<noteq> []" using wait_answer_nonempty w by blast
      then show ?thesis using r Inr by auto
    qed
  next
    case (Some err)
    then have "r = markFailed_task S (xe_finished_at env) ctx i (''enqueue initial message: '' @ err) (finalizeSession sid own st)"
      using assms en by (simp add: exec_run_def)
    then show ?thesis by blast
  qed
qed

lemma exec_run_finalized:
  assumes "exec_run S env ctx i t sid own st = Some (st', err)"
  shows "pr_active (xs_processor st') sid = None \<and> (own \<longrightarrow> rg_sessions (xs_registry st') sid = None)"
  using exec_run_cases [OF assms]
proof (elim disjE exE conjE)
  fix st1 cause
  assume "(st', err) = markFailed_task S (xe_finished_at env) ctx i cause (finalizeSession sid own st1)"
  then have "st' = fst (markFailed_task S (xe_finished_at env) ctx i cause (finalizeSession sid own st1))" by (metis fst_conv)
  then show ?thesis using finalized finish_frames(1) by metis
next
  fix st1 a
  assume "(st', err) = exec_finish S (xe_finished_at env) ctx i t a (finalizeSession sid own st1)"
  then have "st' = fst (exec_finish S (xe_finished_at env) ctx i t a (finalizeSession sid own st1))" by (metis fst_conv)
  then show ?thesis using finalized finish_frames(2) by metis
qed

text \<open>What a call means for the task it was given, for a task that was not finished before.\<close>

definition task_settled :: "'db task_sql \<Rightarrow> ('db \<Rightarrow> task_table) \<Rightarrow> 'db exec_env \<Rightarrow> string \<Rightarrow> uuid \<Rightarrow> 'db \<Rightarrow> exec_error option \<Rightarrow> bool" where
  "task_settled S tbl env ctx i db err =
     (case err of
        None \<Rightarrow> \<exists>m. tbl db i = Some m \<and> tm_status m = ''completed'' \<and> tm_result m \<noteq> []
      | Some (ExecFailed cause) \<Rightarrow>
          (\<exists>m. tbl db i = Some m \<and> tm_status m = ''failed'' \<and> tm_error m = take 4000 cause) \<or>
          \<not> is_ok (FailTask S (xe_finished_at env) ctx i (take 4000 cause) db)
      | Some (ExecComplete e) \<Rightarrow> \<exists>a. CompleteTask S (xe_finished_at env) ctx i a db = Inl e
      | Some (ExecGetTask _ _) \<Rightarrow> False)"

context task_store
begin

lemma finish_task_settled:
  assumes "exec_finish S (xe_finished_at env) ctx i t a st = (st', err)" and "a \<noteq> []"
  shows "task_settled S tbl env ctx i (xs_db st') err"
proof (cases "markFailed_task S (xe_finished_at env) ctx i needs_input_reason st = (st', err)")
  case True
  then show ?thesis using markFailed_settles [OF True] by (simp add: task_settled_def)
next
  case False
  then have r: "(case CompleteTask S (xe_finished_at env) ctx i a (xs_db st) of
      Inl e \<Rightarrow> (st, Some (ExecComplete e)) | Inr db \<Rightarrow> (st\<lparr>xs_db := db\<rparr>, None)) = (st', err)"
    using assms(1) unfolding exec_finish_def by (auto split: if_splits)
  show ?thesis
  proof (cases "CompleteTask S (xe_finished_at env) ctx i a (xs_db st)")
    case (Inl e)
    then show ?thesis using r by (auto simp: task_settled_def)
  next
    case (Inr db)
    then show ?thesis using r complete_row [OF Inr] assms(2) by (auto simp: task_settled_def)
  qed
qed

lemma run_task_settled:
  assumes "exec_run S env ctx i t sid own st = Some (st', err)"
  shows "task_settled S tbl env ctx i (xs_db st') err"
  using exec_run_cases [OF assms]
proof (elim disjE exE conjE)
  fix st1 cause
  assume r: "(st', err) = markFailed_task S (xe_finished_at env) ctx i cause (finalizeSession sid own st1)"
  show ?thesis using markFailed_settles [OF r [symmetric]] by (auto simp: task_settled_def)
next
  fix st1 a
  assume "a \<noteq> []" "(st', err) = exec_finish S (xe_finished_at env) ctx i t a (finalizeSession sid own st1)"
  then show ?thesis using finish_task_settled by metis
qed

end

lemma exec_unsubscribe_frames:
  "xs_db (exec_unsubscribe sub st) = xs_db st" "xs_processor (exec_unsubscribe sub st) = xs_processor st"
  "rg_sessions (xs_registry (exec_unsubscribe sub st)) = rg_sessions (xs_registry st)"
  by (auto simp: exec_unsubscribe_def unsubscribe_def upd_entry_def split: option.splits prod.splits)

lemma Execute_run:
  assumes "task_Execute S env ctx i st = Some (st', err)" and "GetTask S ctx i (xs_db st) = Inr t" and "\<not> task_is_terminal t"
  shows "\<exists>st1 st2 sid sub. exec_run S env ctx i t sid (et_session_id t = []) st1 = Some (st2, err) \<and>
    st' = exec_unsubscribe sub st2 \<and> sid = (if et_session_id t = [] then xe_session_id env else et_session_id t)"
proof -
  define st0 where "st0 = st\<lparr>xs_db := exec_start S (xe_started_at env) ctx i t (xs_db st)\<rparr>"
  obtain st1 sid own where s: "exec_session S env ctx i t st0 = (st1, sid, own)" by (metis prod_cases3)
  obtain reg ch sub where r: "Subscribe sid (xs_registry st1) = (reg, ch, sub)" by (metis prod_cases3)
  have own: "own = (et_session_id t = [])" "sid = (if et_session_id t = [] then xe_session_id env else et_session_id t)"
    using s by (auto simp: exec_session_def Let_def split: if_splits)
  have "\<exists>st2. exec_run S env ctx i t sid own (st1\<lparr>xs_registry := reg, xs_processor := StartProcessing reg sid (xs_processor st1)\<rparr>)
      = Some (st2, err) \<and> st' = exec_unsubscribe sub st2"
    using assms s r by (auto simp: task_Execute_def Let_def st0_def [symmetric])
  then show ?thesis using own by blast
qed

lemma Execute_returns:
  assumes "\<And>st. waitForCompletion (xe_pb_text env) [] (snd (xe_run env st)) \<noteq> None"
  shows "\<exists>st' err. task_Execute S env ctx i st = Some (st', err)"
proof -
  have runs: "\<exists>r. exec_run S env ctx i t sid own st = Some r" for t sid own st
  proof -
    obtain reg e where en: "EnqueueMessage sid (buildInitialMessage t) (xs_registry st) = (reg, e)" by fastforce
    obtain st1 ins where run: "xe_run env (st\<lparr>xs_registry := reg\<rparr>) = (st1, ins)" by fastforce
    obtain w where "waitForCompletion (xe_pb_text env) [] ins = Some w"
      using assms [of "st\<lparr>xs_registry := reg\<rparr>"] run by auto
    then show ?thesis using en run by (cases e) (simp_all add: exec_run_def)
  qed
  show ?thesis
  proof (cases "GetTask S ctx i (xs_db st)")
    case (Inl e)
    then show ?thesis by (simp add: task_Execute_def)
  next
    case (Inr t)
    define st0 where "st0 = st\<lparr>xs_db := exec_start S (xe_started_at env) ctx i t (xs_db st)\<rparr>"
    obtain st1 sid own where s: "exec_session S env ctx i t st0 = (st1, sid, own)" by (metis prod_cases3)
    obtain reg ch sub where r: "Subscribe sid (xs_registry st1) = (reg, ch, sub)" by (metis prod_cases3)
    obtain st2 err where "exec_run S env ctx i t sid own (st1\<lparr>xs_registry := reg, xs_processor := StartProcessing reg sid (xs_processor st1)\<rparr>)
        = Some (st2, err)" using runs by (metis prod.exhaust)
    then show ?thesis using Inr s r by (simp add: task_Execute_def st0_def [symmetric] Let_def)
  qed
qed

text \<open>C19: A call of the executor on an unfinished task settles it: without an error the task is completed with a
  nonempty result, with an error of the run the task is failed and carries the first 4000 bytes of that error,
  unless the task manager refuses the write.  The processing loop of the session is stopped, and a session
  that the executor has opened itself is removed, on every way out.\<close>

theorem execute_settles_task:
  assumes "task_store S tbl" and "task_Execute S env ctx i st = Some (st', err)"
    and "GetTask S ctx i (xs_db st) = Inr t" and "\<not> task_is_terminal t"
  shows "task_settled S tbl env ctx i (xs_db st') err \<and>
    \<not> IsProcessing (if et_session_id t = [] then xe_session_id env else et_session_id t) (xs_processor st') \<and>
    (et_session_id t = [] \<longrightarrow> \<not> HasSession (xs_registry st') (xe_session_id env))"
proof -
  obtain st1 st2 sid sub where run: "exec_run S env ctx i t sid (et_session_id t = []) st1 = Some (st2, err)"
    and st': "st' = exec_unsubscribe sub st2" and sid: "sid = (if et_session_id t = [] then xe_session_id env else et_session_id t)"
    using Execute_run [OF assms(2-4)] by blast
  show ?thesis
    using task_store.run_task_settled [OF assms(1) run] exec_run_finalized [OF run] sid
    by (auto simp: st' exec_unsubscribe_frames IsProcessing_def HasSession_def)
qed

text \<open>A task of its own session: the agent answers, the session ends.\<close>

definition demo_exec_env :: "mem_db exec_env" where
  "demo_exec_env = \<lparr>xe_session_id = ''cron-1'', xe_created_at = 1, xe_started_at = 2, xe_finished_at = 3, xe_pb_text = (\<lambda>_. []),
     xe_run = (\<lambda>st. (st, [WaitEvent ((blank_event SESSION_EVENT_ANSWER)\<lparr>se_content := ''done''\<rparr>),
       WaitEvent (blank_event SESSION_EVENT_PROCESSING_STOPPED)]))\<rparr>"

definition demo_exec_state :: "mem_db exec_state" where
  "demo_exec_state = \<lparr>xs_db = demo_db, xs_registry = NewSessionRegistry, xs_processor = NewProcessor\<rparr>"

theorem execute_settles_task_witness:
  "\<exists>st' err. task_Execute mem_store demo_exec_env ''A'' 1 demo_exec_state = Some (st', err) \<and>
     task_settled mem_store mem_tbl demo_exec_env ''A'' 1 (xs_db st') err \<and> \<not> IsProcessing ''s'' (xs_processor st')"
proof -
  obtain st' err where e: "task_Execute mem_store demo_exec_env ''A'' 1 demo_exec_state = Some (st', err)"
    using Execute_returns [of demo_exec_env mem_store] by (force simp: demo_exec_env_def blank_event_def)
  let ?t = "toEngineTask (demo_row 1 None ''in_progress'' ''A'' [])"
  have g: "GetTask mem_store ''A'' 1 (xs_db demo_exec_state) = Inr ?t"
    by (simp add: demo_exec_state_def GetTask_def lift_repo_def repo_GetByID_def load_row_def tenantScope_def demo_tenant demo_simps)
  have "\<not> task_is_terminal ?t" "et_session_id ?t = ''s''"
    by (simp_all add: task_is_terminal_def terminal_status_def row_simps demo_row_def task_status_of_string_def)
  then show ?thesis
    using execute_settles_task [OF mem.task_store_axioms e g] e by simp
qed

end
