(* ===== verification/Task_Worker.thy ===== *)
theory Task_Worker
  imports Task_Manager
begin

text \<open>
  The worker pool of background tasks (\<open>internal/service/task/worker.go\<close>) and the reminder of active work
  (\<open>internal/service/task/reminder.go\<close>).  The pool is a step function over its channel and its flags; a
  submission is split between its look at the flag and its send, because \<open>Stop\<close> may come in between.

  The theory proves that the queue loses and reorders nothing as long as the pool runs and that it stays within
  its capacity, when a submission panics, and when and what the reminder reports.
\<close>

section \<open>The worker pool\<close>

definition queueCapacity :: nat where
  "queueCapacity = 100"

record task_worker =
  tw_concurrency :: int
  tw_queue :: "uuid list"
  tw_closed :: bool
  tw_cancelled :: bool
  tw_stopped :: bool
  tw_goroutines :: nat

definition NewTaskWorker :: "int \<Rightarrow> task_worker" where
  "NewTaskWorker concurrency = \<lparr>tw_concurrency = concurrency, tw_queue = [], tw_closed = False, tw_cancelled = False,
     tw_stopped = False, tw_goroutines = 0\<rparr>"

definition worker_Start :: "task_worker \<Rightarrow> task_worker" where
  "worker_Start w = w\<lparr>tw_goroutines := tw_goroutines w + nat (tw_concurrency w)\<rparr>"

text \<open>What a worker goroutine may do at its \<open>select\<close>; Go picks any of the cases that are ready.\<close>

datatype worker_choice = WorkerEnds | WorkerTakes uuid task_worker

definition worker_choices :: "task_worker \<Rightarrow> worker_choice list" where
  "worker_choices w =
     (if tw_cancelled w then [WorkerEnds] else []) @
     (case tw_queue w of
        i # q \<Rightarrow> [WorkerTakes i (w\<lparr>tw_queue := q\<rparr>)]
      | [] \<Rightarrow> if tw_closed w then [WorkerEnds] else [])"

text \<open>The two parts of \<open>Submit\<close>; a send on a closed channel panics, also in a \<open>select\<close> with a default.\<close>

definition submit_admitted :: "task_worker \<Rightarrow> bool" where
  "submit_admitted w \<longleftrightarrow> \<not> tw_stopped w"

definition submit_send :: "uuid \<Rightarrow> task_worker \<Rightarrow> (task_worker \<times> bool) option" where
  "submit_send i w =
     (if tw_closed w then None
      else if length (tw_queue w) < queueCapacity then Some (w\<lparr>tw_queue := tw_queue w @ [i]\<rparr>, True)
      else Some (w, False))"

definition worker_Submit :: "uuid \<Rightarrow> task_worker \<Rightarrow> (task_worker \<times> bool) option" where
  "worker_Submit i w = (if submit_admitted w then submit_send i w else Some (w, False))"

text \<open>\<open>Stop\<close>: the flag, the cancellation and the close, in this order; closing twice panics.\<close>

definition stop_flag :: "task_worker \<Rightarrow> task_worker" where
  "stop_flag w = w\<lparr>tw_stopped := True\<rparr>"

definition stop_cancel :: "task_worker \<Rightarrow> task_worker" where
  "stop_cancel w = w\<lparr>tw_cancelled := True\<rparr>"

definition stop_close :: "task_worker \<Rightarrow> task_worker option" where
  "stop_close w = (if tw_closed w then None else Some (w\<lparr>tw_closed := True\<rparr>))"

definition worker_Stop :: "task_worker \<Rightarrow> task_worker option" where
  "worker_Stop w = stop_close (stop_cancel (stop_flag w))"

text \<open>
  The pool with its history: the submitters between the look and the send, and what was accepted and taken.
\<close>

record pool_world =
  pw_worker :: task_worker
  pw_submitting :: "uuid list"
  pw_accepted :: "uuid list"
  pw_taken :: "uuid list"

datatype worker_step = SubmitLooks uuid | SubmitSends uuid | StopFlag | StopCancel | StopClose | TakesTask | GoroutineEnds

text \<open>A panic is no result; a step that is not enabled changes nothing.\<close>

definition worker_run :: "worker_step \<Rightarrow> pool_world \<Rightarrow> pool_world option" where
  "worker_run x p =
     (let w = pw_worker p
      in case x of
           SubmitLooks i \<Rightarrow> Some (if submit_admitted w then p\<lparr>pw_submitting := i # pw_submitting p\<rparr> else p)
         | SubmitSends i \<Rightarrow>
             if i \<notin> set (pw_submitting p) then Some p
             else (case submit_send i w of
                 None \<Rightarrow> None
               | Some (w', ok) \<Rightarrow> Some (p\<lparr>pw_worker := w', pw_submitting := remove1 i (pw_submitting p),
                   pw_accepted := (if ok then pw_accepted p @ [i] else pw_accepted p)\<rparr>))
         | StopFlag \<Rightarrow> Some (p\<lparr>pw_worker := stop_flag w\<rparr>)
         | StopCancel \<Rightarrow> Some (p\<lparr>pw_worker := stop_cancel w\<rparr>)
         | StopClose \<Rightarrow> map_option (\<lambda>w'. p\<lparr>pw_worker := w'\<rparr>) (stop_close w)
         | TakesTask \<Rightarrow>
             (case filter (\<lambda>c. c \<noteq> WorkerEnds) (worker_choices w) of
                WorkerTakes i w' # _ \<Rightarrow> Some (p\<lparr>pw_worker := w', pw_taken := pw_taken p @ [i]\<rparr>)
              | _ \<Rightarrow> Some p)
         | GoroutineEnds \<Rightarrow>
             Some (if WorkerEnds \<in> set (worker_choices w) then p\<lparr>pw_worker := w\<lparr>tw_goroutines := tw_goroutines w - 1\<rparr>\<rparr> else p))"

fun worker_runs :: "worker_step list \<Rightarrow> pool_world \<Rightarrow> pool_world option" where
  "worker_runs [] p = Some p"
| "worker_runs (x # xs) p = (case worker_run x p of None \<Rightarrow> None | Some p' \<Rightarrow> worker_runs xs p')"

definition new_pool_world :: "int \<Rightarrow> pool_world" where
  "new_pool_world n = \<lparr>pw_worker = worker_Start (NewTaskWorker n), pw_submitting = [], pw_accepted = [], pw_taken = []\<rparr>"

definition worker_inv :: "pool_world \<Rightarrow> bool" where
  "worker_inv p \<longleftrightarrow> pw_accepted p = pw_taken p @ tw_queue (pw_worker p) \<and> length (tw_queue (pw_worker p)) \<le> queueCapacity"

lemmas worker_defs = worker_run_def submit_send_def submit_admitted_def stop_flag_def stop_cancel_def stop_close_def
  worker_choices_def

lemma worker_run_inv: "worker_inv p \<Longrightarrow> worker_run x p = Some p' \<Longrightarrow> worker_inv p'"
  by (cases x) (auto simp: worker_defs worker_inv_def Let_def split: if_splits list.splits)

lemma worker_runs_inv: "worker_inv p \<Longrightarrow> worker_runs xs p = Some p' \<Longrightarrow> worker_inv p'"
  by (induction xs arbitrary: p) (auto split: option.splits dest: worker_run_inv)

text \<open>A panic comes from a send of a submission that looked before the pool was stopped, or from a second \<open>Stop\<close>.\<close>

lemma worker_panics:
  "worker_run x p = None \<longleftrightarrow>
     tw_closed (pw_worker p) \<and> (x = StopClose \<or> (\<exists>i \<in> set (pw_submitting p). x = SubmitSends i))"
  by (cases x) (auto simp: worker_defs Let_def split: if_splits list.splits)

lemma submit_after_stop_panics:
  "worker_runs [SubmitLooks i, StopFlag, StopCancel, StopClose, SubmitSends i] (new_pool_world n) = None"
  by (simp add: worker_defs Let_def new_pool_world_def NewTaskWorker_def worker_Start_def)

text \<open>
  A stopped pool may still run a task: the cancellation and the queue are both ready.  A task that stays in the
  queue is never run.
\<close>

lemma stopped_pool_may_run:
  "worker_runs [SubmitLooks i, SubmitSends i, StopFlag, StopCancel, StopClose, TakesTask] (new_pool_world n) \<noteq> None \<and>
   (\<forall>p. worker_runs [SubmitLooks i, SubmitSends i, StopFlag, StopCancel, StopClose, TakesTask] (new_pool_world n) = Some p \<longrightarrow>
     pw_taken p = [i])"
  by (simp add: worker_defs Let_def new_pool_world_def NewTaskWorker_def worker_Start_def queueCapacity_def)

section \<open>The reminder of active work\<close>

record task_entry =
  te_id :: string
  te_title :: string
  te_status :: string
  te_priority :: int
  te_assigned_agent :: string
  te_created_at :: time

text \<open>The UUID library prints and parses identifiers.\<close>

definition domainToEntries :: "(uuid \<Rightarrow> string) \<Rightarrow> engine_task list \<Rightarrow> task_entry list" where
  "domainToEntries us tasks =
     map (\<lambda>t. \<lparr>te_id = us (et_id t), te_title = et_title t, te_status = task_status_string (et_status t),
                 te_priority = et_priority t, te_assigned_agent = [], te_created_at = et_created_at t\<rparr>) tasks"

record reminder_source =
  rs_uuid_string :: "uuid \<Rightarrow> string"
  rs_uuid_parse :: "string \<Rightarrow> uuid option"
  rs_tasks :: "string \<Rightarrow> engine_task list option"
  rs_subtasks :: "uuid \<Rightarrow> engine_task list option"

definition reminder_ListTasks :: "reminder_source \<Rightarrow> string \<Rightarrow> task_entry list option" where
  "reminder_ListTasks R sid = map_option (domainToEntries (rs_uuid_string R)) (rs_tasks R sid)"

definition ListSubtasksDetail :: "reminder_source \<Rightarrow> string \<Rightarrow> task_entry list option" where
  "ListSubtasksDetail R parentID =
     (case rs_uuid_parse R parentID of
        None \<Rightarrow> None
      | Some i \<Rightarrow> map_option (domainToEntries (rs_uuid_string R)) (rs_subtasks R i))"

definition minute :: int where
  "minute = 60 * 1000000000"

text \<open>\<open>Duration.String\<close> of a positive number of whole minutes.\<close>

definition minutes_text :: "int \<Rightarrow> string" where
  "minutes_text d =
     (let m = d div minute
      in (if m \<ge> 60 then dec_int (m div 60) @ ''h'' else []) @ dec_int (m mod 60) @ ''m0s'')"

definition warning_sign :: string where
  "warning_sign = [CHR 0xE2, CHR 0x9A, CHR 0xA0]"

definition arrow :: string where
  "arrow = [CHR 0xE2, CHR 0x86, CHR 0x92]"

definition dash_rune :: string where
  "dash_rune = [CHR 0xE2, CHR 0x80, CHR 0x94]"

definition hourglass :: string where
  "hourglass = [CHR 0xE2, CHR 0x8F, CHR 0xB3]"

definition running_subtasks :: "task_entry list \<Rightarrow> string list" where
  "running_subtasks subs =
     map (\<lambda>s. te_assigned_agent s @ arrow @ te_title s)
       (filter (\<lambda>s. te_status s = ''in_progress'' \<and> te_assigned_agent s \<noteq> []) subs)"

definition ready_subtasks :: "task_entry list \<Rightarrow> string list" where
  "ready_subtasks subs =
     map (\<lambda>s. ''['' @ te_id s @ ''] '' @ te_title s)
       (filter (\<lambda>s. te_status s = ''pending'' \<or> te_status s = ''approved'') subs)"

definition draft_line :: "time \<Rightarrow> task_entry \<Rightarrow> string" where
  "draft_line now t =
     (let age = time_sub now (te_created_at t)
      in if age > 30 * minute
         then ''  '' @ warning_sign @ '' STALE: pending approval for '' @ minutes_text age @ '' '' @ dash_rune @
           '' consider cancelling'' @ newline
         else ''  '' @ hourglass @ '' Awaiting user approval'' @ newline)"

definition task_lines :: "time \<Rightarrow> reminder_source \<Rightarrow> task_entry \<Rightarrow> string" where
  "task_lines now R t =
     (let subs = (case ListSubtasksDetail R (te_id t) of None \<Rightarrow> [] | Some ss \<Rightarrow> ss);
          completed = length (filter (\<lambda>s. te_status s = ''completed'') subs);
          running = running_subtasks subs; ready = ready_subtasks subs
      in ''Task ['' @ te_id t @ ''] '' @ go_quote (te_title t) @ '' ('' @ te_status t @ '', priority='' @ dec_int (te_priority t) @
         '', '' @ dec_nat completed @ ''/'' @ dec_nat (length subs) @ '' subtasks)'' @ newline @
         (if te_status t = ''draft'' then draft_line now t else []) @
         (if running \<noteq> [] then ''  Running: '' @ str_join '', '' running @ newline else []) @
         (if ready \<noteq> []
          then ''  Ready to spawn: '' @ str_join '', '' ready @ newline @ ''  '' @ arrow @
            '' ACTION REQUIRED: Call spawn_agent(action=spawn, subtask_id=<ID>) for each ready subtask.'' @ newline
          else []) @
         (if subs = [] \<and> te_status t = ''in_progress''
          then ''  '' @ warning_sign @
            '' No subtasks yet. Next: manage_tasks(action=create_subtask, parent_task_id=...).'' @ newline
          else []))"

definition active_entries :: "task_entry list \<Rightarrow> task_entry list" where
  "active_entries ts = filter (\<lambda>t. te_status t \<noteq> ''completed'' \<and> te_status t \<noteq> ''failed'' \<and> te_status t \<noteq> ''cancelled'') ts"

text \<open>\<open>GetContextReminder\<close>: the text and its priority, or nothing.\<close>

definition GetContextReminder :: "time \<Rightarrow> reminder_source \<Rightarrow> string \<Rightarrow> (string \<times> int) option" where
  "GetContextReminder now R sid =
     (case reminder_ListTasks R sid of
        None \<Rightarrow> None
      | Some tasks \<Rightarrow>
          if tasks = [] \<or> active_entries tasks = [] then None
          else Some (''**ACTIVE WORK:**'' @ newline @ concat (map (task_lines now R) (active_entries tasks)), 90))"

text \<open>The task manager as the source.\<close>

definition manager_source :: "'db task_sql \<Rightarrow> (uuid \<Rightarrow> string) \<Rightarrow> (string \<Rightarrow> uuid option) \<Rightarrow> string \<Rightarrow> 'db \<Rightarrow> reminder_source" where
  "manager_source S us up ctx db =
     \<lparr>rs_uuid_string = us, rs_uuid_parse = up,
      rs_tasks = (\<lambda>sid. case ListTasksDomain S ctx sid db of Inr ts \<Rightarrow> Some ts | Inl _ \<Rightarrow> None),
      rs_subtasks = (\<lambda>i. case ListSubtasksDomain S ctx i db of Inr ts \<Rightarrow> Some ts | Inl _ \<Rightarrow> None)\<rparr>"

text \<open>There is a reminder exactly if the tasks can be read and one of them is not finished.\<close>

lemma terminal_string:
  "plain_status s \<Longrightarrow> terminal_status s \<longleftrightarrow> task_status_string s \<in> {''completed'', ''failed'', ''cancelled''}"
  by (cases s) (auto simp: terminal_status_def plain_status_def task_status_of_string_def)

lemma reminder_iff:
  assumes "\<And>ts t. rs_tasks R sid = Some ts \<Longrightarrow> t \<in> set ts \<Longrightarrow> plain_status (et_status t)"
  shows "GetContextReminder now R sid \<noteq> None \<longleftrightarrow> (\<exists>ts. rs_tasks R sid = Some ts \<and> (\<exists>t \<in> set ts. \<not> task_is_terminal t))"
proof (cases "rs_tasks R sid")
  case None
  then show ?thesis by (simp add: GetContextReminder_def reminder_ListTasks_def)
next
  case (Some ts)
  have "active_entries (domainToEntries (rs_uuid_string R) ts) = [] \<longleftrightarrow> (\<forall>t \<in> set ts. task_is_terminal t)"
    using assms [OF Some] by (auto simp: active_entries_def domainToEntries_def filter_empty_conv task_is_terminal_def terminal_string)
  moreover have "domainToEntries (rs_uuid_string R) ts = [] \<longleftrightarrow> ts = []" by (simp add: domainToEntries_def)
  ultimately show ?thesis
    using Some by (auto simp: GetContextReminder_def reminder_ListTasks_def)
qed

text \<open>The mapping drops the agent, so no subtask is ever reported as running.\<close>

lemma nothing_is_running: "running_subtasks (domainToEntries us ts) = []"
  by (simp add: running_subtasks_def domainToEntries_def filter_map comp_def)

text \<open>A subtask counts as ready by its status alone, whatever blocks it.\<close>

lemma blocked_subtask_is_ready:
  "et_status t = EngineTaskStatusPending \<Longrightarrow> t \<in> set ts \<Longrightarrow>
     ''['' @ us (et_id t) @ ''] '' @ et_title t \<in> set (ready_subtasks (domainToEntries us ts))"
  by (force simp: ready_subtasks_def domainToEntries_def)

text \<open>
  Every unfinished task of the session is reported as a task of its own, a subtask too, although the code means
  to look at the top-level tasks only.
\<close>

lemma subtask_is_reported_as_task:
  assumes "rs_tasks R sid = Some ts" and "t \<in> set ts" and "\<not> task_is_terminal t" and "plain_status (et_status t)"
  shows "\<exists>a b. GetContextReminder now R sid = Some (a @ ''Task ['' @ rs_uuid_string R (et_id t) @ '']'' @ b, 90)"
proof -
  let ?es = "active_entries (domainToEntries (rs_uuid_string R) ts)"
  let ?e = "hd (domainToEntries (rs_uuid_string R) [t])"
  have "?e \<in> set ?es"
    using assms by (auto simp: active_entries_def domainToEntries_def task_is_terminal_def terminal_string)
  then obtain xs ys where es: "?es = xs @ ?e # ys" by (auto simp: in_set_conv_decomp)
  have "\<exists>c. task_lines now R ?e = ''Task ['' @ rs_uuid_string R (et_id t) @ '']'' @ c"
    by (simp add: task_lines_def Let_def domainToEntries_def)
  then obtain c where c: "task_lines now R ?e = ''Task ['' @ rs_uuid_string R (et_id t) @ '']'' @ c" ..
  have "GetContextReminder now R sid = Some (''**ACTIVE WORK:**'' @ newline @ concat (map (task_lines now R) ?es), 90)"
    using assms(1) es by (auto simp: GetContextReminder_def reminder_ListTasks_def active_entries_def)
  also have "concat (map (task_lines now R) ?es) =
      concat (map (task_lines now R) xs) @ ''Task ['' @ rs_uuid_string R (et_id t) @ '']'' @ c @ concat (map (task_lines now R) ys)"
    unfolding es by (simp add: c)
  finally have "GetContextReminder now R sid = Some ((''**ACTIVE WORK:**'' @ newline @ concat (map (task_lines now R) xs)) @
      ''Task ['' @ rs_uuid_string R (et_id t) @ '']'' @ (c @ concat (map (task_lines now R) ys)), 90)"
    by simp
  then show ?thesis by blast
qed

end
