(* ===== verification/Go_Text.thy ===== *)
theory Go_Text
  imports Go_Strings
begin

text \<open>
  More of the \<open>strings\<close> package of Go: containment and replacement of a substring, words, bounded splitting and
  lower case.  The lemmas say when a replacement leaves a text alone and how it treats the first occurrence.
\<close>

definition str_contains :: "string \<Rightarrow> string \<Rightarrow> bool" where
  "str_contains s sub \<longleftrightarrow> str_index s sub \<noteq> None"

definition has_suffix :: "string \<Rightarrow> string \<Rightarrow> bool" where
  "has_suffix s p \<longleftrightarrow> length p \<le> length s \<and> drop (length s - length p) s = p"

text \<open>\<open>strings.ReplaceAll\<close> of a nonempty text.\<close>

definition replace_all :: "string \<Rightarrow> string \<Rightarrow> string \<Rightarrow> string" where
  "replace_all old new s = str_join new (split_on old s)"

text \<open>\<open>strings.SplitN\<close> with a one-byte separator and a positive bound.\<close>

definition split_n :: "char \<Rightarrow> nat \<Rightarrow> string \<Rightarrow> string list" where
  "split_n c n s =
     (let parts = split_byte c s
      in if length parts \<le> n then parts else take (n - 1) parts @ [str_join [c] (drop (n - 1) parts)])"

text \<open>The characters of a text with the bytes they are made of; a byte that is not part of one stands for itself.\<close>

function raw_runes :: "string \<Rightarrow> string list" where
  "raw_runes s =
     (if s = [] then []
      else if rune_width s = 0 then take 1 s # raw_runes (drop 1 s)
      else take (rune_width s) s # raw_runes (drop (rune_width s) s))"
  by pat_completeness auto
termination
  by (relation "measure length") auto

declare raw_runes.simps [simp del]

lemma concat_raw_runes: "concat (raw_runes s) = s"
proof (induction s rule: raw_runes.induct)
  case (1 s)
  show ?case
  proof (cases "s = []")
    case True
    then show ?thesis by (simp add: raw_runes.simps)
  next
    case False
    show ?thesis
    proof (cases "rune_width s = 0")
      case True
      with False 1(1) show ?thesis by (subst raw_runes.simps) (simp del: drop_0 take_0)
    next
      case width: False
      with False 1(2) show ?thesis by (subst raw_runes.simps) simp
    qed
  qed
qed

text \<open>\<open>strings.Fields\<close>: the maximal runs of characters that are no white space.\<close>

fun field_groups :: "string list \<Rightarrow> string \<Rightarrow> string list" where
  "field_groups [] w = (if w = [] then [] else [w])"
| "field_groups (r # rs) w =
     (if r \<in> set space_runes then (if w = [] then field_groups rs [] else w # field_groups rs [])
      else field_groups rs (w @ r))"

definition fields :: "string \<Rightarrow> string list" where
  "fields s = field_groups (raw_runes s) []"

text \<open>
  \<open>strings.ToLower\<close> as far as ASCII letters come out of it: besides the capital letters, the signs Kelvin and
  capital I with a dot become ASCII letters; the case of other characters is left alone.
\<close>

definition lower_rune :: "string \<Rightarrow> string" where
  "lower_rune r =
     (if r = [CHR 0xE2, CHR 0x84, CHR 0xAA] then ''k''
      else if r = [CHR 0xC4, CHR 0xB0] then ''i''
      else lower_ascii r)"

definition lower_text :: "string \<Rightarrow> string" where
  "lower_text s = concat (map lower_rune (runes s))"

section \<open>Occurrences and replacement\<close>

lemma str_index_None_iff: "str_index s sub = None \<longleftrightarrow> (\<forall>a b. s \<noteq> a @ sub @ b)"
proof (induction s)
  case Nil
  show ?case by (subst str_index.simps) (auto simp: has_prefix_def)
next
  case (Cons c s)
  have "(\<exists>a b. c # s = a @ sub @ b) \<longleftrightarrow> has_prefix (c # s) sub \<or> (\<exists>a b. s = a @ sub @ b)" (is "?L \<longleftrightarrow> ?R")
  proof
    assume ?L
    then obtain a b where ab: "c # s = a @ sub @ b" by blast
    then show ?R by (cases a) (auto simp: has_prefix_def)
  next
    assume ?R
    then show ?L by (metis append_Cons append_Nil has_prefix_split)
  qed
  then show ?case using Cons by (subst str_index.simps) auto
qed

lemma str_index_char_None: "str_index s [c] = None \<longleftrightarrow> c \<notin> set s"
  by (auto simp: str_index_None_iff in_set_conv_decomp)

lemma str_index_char_Some: "str_index s [c] = Some i \<Longrightarrow> c \<notin> set (take i s)"
proof (induction s arbitrary: i)
  case Nil
  then show ?case by (subst (asm) str_index.simps) (simp add: has_prefix_def)
next
  case (Cons x s)
  then show ?case by (subst (asm) str_index.simps) (auto simp: has_prefix_def split: if_splits)
qed

lemma str_contains_iff: "str_contains s sub \<longleftrightarrow> (\<exists>a b. s = a @ sub @ b)"
  using str_index_None_iff [of s sub] by (auto simp: str_contains_def)

lemma str_contains_sub: "str_contains s (x @ sub @ y) \<Longrightarrow> str_contains s sub"
  unfolding str_contains_iff by (metis append.assoc)

lemma replace_all_none: "\<not> str_contains s old \<Longrightarrow> replace_all old new s = s"
  by (simp add: replace_all_def str_contains_def split_on.simps [of old s])

lemma str_join_Cons: "xs \<noteq> [] \<Longrightarrow> str_join sep (x # xs) = x @ sep @ str_join sep xs"
  by (cases xs) auto

text \<open>The first occurrence is where no earlier one starts.\<close>

lemma str_index_first:
  assumes "\<And>a1 a2. a = a1 @ a2 \<Longrightarrow> a2 \<noteq> [] \<Longrightarrow> \<not> has_prefix (a2 @ sub @ b) sub"
  shows "str_index (a @ sub @ b) sub = Some (length a)"
  using assms
proof (induction a)
  case Nil
  then show ?case by (subst str_index.simps) simp
next
  case (Cons c a)
  have "\<not> has_prefix ((c # a) @ sub @ b) sub" using Cons.prems [of "[]" "c # a"] by simp
  moreover have "str_index (a @ sub @ b) sub = Some (length a)"
    using Cons.IH Cons.prems [of "c # _"] by (metis append_Cons)
  ultimately show ?case by (subst str_index.simps) simp
qed

lemma replace_all_first:
  assumes "old \<noteq> []" and "\<And>a1 a2. a = a1 @ a2 \<Longrightarrow> a2 \<noteq> [] \<Longrightarrow> \<not> has_prefix (a2 @ old @ b) old"
  shows "replace_all old new (a @ old @ b) = a @ new @ replace_all old new b"
proof -
  have "str_index (a @ old @ b) old = Some (length a)" by (rule str_index_first) (rule assms(2))
  then have "split_on old (a @ old @ b) = a # split_on old b"
    using assms(1) by (subst split_on.simps) simp
  then show ?thesis by (simp add: replace_all_def str_join_Cons)
qed

lemma set_trim_space: "set (trim_space s) \<subseteq> set s"
  using trim_space_inside [of s] by (metis UnCI set_append subsetI)

end
