(* ===== verification/Agent_Callbacks.thy ===== *)
theory Agent_Callbacks
  imports Session_Events Go_Text
begin

text \<open>
  The callbacks that turn a run of the agent framework into events
  (\<open>internal/infrastructure/agents/callbacks\<close>: step counter, token accumulator, event emitter, model and tool
  handlers, builder), the store of the texts of model calls (\<open>agents/step_content_store.go\<close>), the clean-up of
  reasoning (\<open>agents/reasoning_extractor.go\<close>) and the summaries of tool results
  (\<open>tools/result_summarizer.go\<close>).  The framework calls the handlers; a streamed model call is a job that handles
  one frame at a time, so jobs and tools may interleave in any order.

  The theory proves that the answers handed on for the history carry exactly the text that was streamed to the
  client, whatever the interleaving, and what becomes of the identifiers of tool calls.
\<close>

section \<open>Summaries of tool results\<close>

definition numbered_line :: "string \<Rightarrow> bool" where
  "numbered_line l \<longleftrightarrow> (\<exists>d \<in> set (take 1 l). is_digit d) \<and> take 1 (dropWhile is_digit l) = ''.''"

definition citations :: "int \<Rightarrow> string" where
  "citations count = (if count = 1 then ''1 citation'' else dec_int count @ '' citations'')"

definition summarizeSmartSearch :: "string \<Rightarrow> string" where
  "summarizeSmartSearch result =
     (case (if has_prefix result ''Found '' \<and> 2 \<le> length (fields result) then go_atoi (fields result ! 1) else None) of
        Some count \<Rightarrow> citations count
      | None \<Rightarrow> citations (int (length (filter (\<lambda>l. numbered_line (trim_space l)) (split_n (CHR 0x0A) 200 result)))))"

definition summary_firstLine :: "string \<Rightarrow> string" where
  "summary_firstLine s =
     (let line = trim_space (hd (split_n (CHR 0x0A) 2 s))
      in if length (runes line) > 60 then concat (take 60 (runes line)) @ ''...'' else line)"

definition SummarizeToolResult :: "string \<Rightarrow> string \<Rightarrow> string" where
  "SummarizeToolResult toolName result =
     (if result = [] then []
      else if toolName = ''smart_search'' then summarizeSmartSearch result
      else if toolName \<in> {''manage_tasks'', ''manage_subtasks'', ''spawn_agent'', ''lsp''} then summary_firstLine result
      else [])"

section \<open>Reasoning\<close>

definition quote2 :: string where
  "quote2 = [CHR 0x22, CHR 0x22]"

text \<open>The JSON decoder of a string is a parameter.\<close>

definition cleanReasoningContent :: "(string \<Rightarrow> string option) \<Rightarrow> string \<Rightarrow> string" where
  "cleanReasoningContent decode content =
     (if \<not> str_contains content quote2 \<and> \<not> has_prefix content [CHR 0x22] then content
      else case (if has_prefix content [CHR 0x22] then decode content else None) of
             Some decoded \<Rightarrow> decoded
           | None \<Rightarrow>
               let c1 = (if has_prefix content [CHR 0x22] then drop 1 content else content);
                   c2 = (if has_suffix c1 [CHR 0x22] then take (length c1 - 1) c1 else c1)
               in replace_all quote2 [] c2)"

text \<open>The fields of a model message that the handlers read; the calls by their number.\<close>

record model_message =
  mm_content :: string
  mm_reasoning :: string
  mm_tool_calls :: nat

definition ExtractReasoning :: "(string \<Rightarrow> string option) \<Rightarrow> model_message \<Rightarrow> string option" where
  "ExtractReasoning decode m = (if mm_reasoning m = [] then None else Some (cleanReasoningContent decode (mm_reasoning m)))"

section \<open>Texts of model calls\<close>

type_synonym step_store = "int \<rightharpoonup> string"

definition store_get :: "step_store \<Rightarrow> int \<Rightarrow> string" where
  "store_get st k = or_empty (st k)"

definition store_add :: "int \<Rightarrow> string \<Rightarrow> step_store \<Rightarrow> step_store" where
  "store_add k content st = st(k \<mapsto> store_get st k @ content)"

definition ClearBefore :: "int \<Rightarrow> step_store \<Rightarrow> step_store" where
  "ClearBefore step st = st |` {k. k \<ge> step - 1}"

definition store_clear :: "step_store \<Rightarrow> step_store" where
  "store_clear st = Map.empty"

section \<open>Counters\<close>

record step_counter =
  ct_step :: int
  ct_model_calls :: int
  ct_pending :: string

definition NewStepCounter :: step_counter where
  "NewStepCounter = \<lparr>ct_step = 0, ct_model_calls = 0, ct_pending = []\<rparr>"

text \<open>\<open>IncrementStep\<close> with the outcome of the global callback, if there is one.\<close>

definition IncrementStep :: "(int \<Rightarrow> go_error option) option \<Rightarrow> step_counter \<Rightarrow> step_counter \<times> go_error option" where
  "IncrementStep cb c =
     (let c' = c\<lparr>ct_step := ct_step c + 1\<rparr>
      in (c', case cb of None \<Rightarrow> None | Some f \<Rightarrow> f (ct_step c')))"

definition IncrementModelCallCount :: "step_counter \<Rightarrow> step_counter" where
  "IncrementModelCallCount c = c\<lparr>ct_model_calls := ct_model_calls c + 1\<rparr>"

definition SetPendingAssistantContent :: "string \<Rightarrow> step_counter \<Rightarrow> step_counter" where
  "SetPendingAssistantContent content c = c\<lparr>ct_pending := content\<rparr>"

definition ConsumePendingAssistantContent :: "step_counter \<Rightarrow> step_counter \<times> string" where
  "ConsumePendingAssistantContent c = (c\<lparr>ct_pending := []\<rparr>, ct_pending c)"

record token_usage =
  tu_prompt :: int
  tu_completion :: int
  tu_total :: int

definition NewTokenAccumulator :: token_usage where
  "NewTokenAccumulator = \<lparr>tu_prompt = 0, tu_completion = 0, tu_total = 0\<rparr>"

definition token_Add :: "token_usage option \<Rightarrow> token_usage \<Rightarrow> token_usage" where
  "token_Add usage a =
     (case usage of
        None \<Rightarrow> a
      | Some u \<Rightarrow> \<lparr>tu_prompt = wrap64 (tu_prompt a + tu_prompt u), tu_completion = wrap64 (tu_completion a + tu_completion u),
          tu_total = wrap64 (tu_total a + tu_total u)\<rparr>)"

section \<open>The handlers and what they hand on\<close>

text \<open>An event for the event callback, a chunk for the chunk callback, a note for the tool call recorder.\<close>

datatype callback_out = OutEvent agent_event | OutChunk string | OutCall string string | OutResult string string string

record callback_config =
  cb_events :: bool
  cb_chunks :: bool
  cb_store :: bool
  cb_recorder :: bool
  cb_session_id :: string
  cb_agent_id :: string
  cb_step_callback :: "(int \<Rightarrow> go_error option) option"
  cb_decode :: "string \<Rightarrow> string option"

record handler_state =
  hs_counter :: step_counter
  hs_tokens :: token_usage
  hs_store :: step_store
  hs_reasoning :: string
  hs_answer_started :: bool
  hs_chunks :: string
  hs_streamed :: bool
  hs_out :: "callback_out list"

text \<open>\<open>NewBuilder\<close>: the agent has a default name; the store is shared with the agent, so it is given.\<close>

definition NewBuilder :: "callback_config \<Rightarrow> step_store \<Rightarrow> callback_config \<times> handler_state" where
  "NewBuilder cfg st =
     (cfg\<lparr>cb_agent_id := (if cb_agent_id cfg = [] then ''supervisor'' else cb_agent_id cfg)\<rparr>,
      \<lparr>hs_counter = NewStepCounter, hs_tokens = NewTokenAccumulator, hs_store = st, hs_reasoning = [],
       hs_answer_started = False, hs_chunks = [], hs_streamed = False, hs_out = []\<rparr>)"

definition hand_on :: "callback_out list \<Rightarrow> handler_state \<Rightarrow> handler_state" where
  "hand_on xs h = h\<lparr>hs_out := hs_out h @ xs\<rparr>"

text \<open>\<open>Emit\<close>; an error of the callback is only logged.\<close>

definition Emit :: "callback_config \<Rightarrow> agent_event \<Rightarrow> handler_state \<Rightarrow> handler_state" where
  "Emit cfg e h =
     (if \<not> cb_events cfg then h
      else hand_on [OutEvent (if ev_agent_id e = [] then e\<lparr>ev_agent_id := cb_agent_id cfg\<rparr> else e)] h)"

definition new_event :: "agent_event_type \<Rightarrow> time \<Rightarrow> handler_state \<Rightarrow> string \<Rightarrow> (string \<times> gval) list option \<Rightarrow> bool \<Rightarrow> agent_event" where
  "new_event t now h content metadata complete =
     \<lparr>ev_type = t, ev_schema_version = [], ev_event_id = [], ev_timestamp = now, ev_step = ct_step (hs_counter h),
      ev_content = content, ev_metadata = metadata, ev_is_complete = complete, ev_error = None, ev_agent_id = []\<rparr>"

section \<open>Model calls\<close>

text \<open>\<open>OnModelEnd\<close>: the whole output of a call that was not streamed; no message means a nil output.\<close>

definition OnModelEnd :: "callback_config \<Rightarrow> time \<Rightarrow> (token_usage option \<times> model_message) option \<Rightarrow> handler_state \<Rightarrow> handler_state" where
  "OnModelEnd cfg now output h =
     (case output of
        None \<Rightarrow> h
      | Some (usage, msg) \<Rightarrow>
          let h = h\<lparr>hs_tokens := token_Add usage (hs_tokens h)\<rparr>;
              h = (case ExtractReasoning (cb_decode cfg) msg of
                     None \<Rightarrow> h
                   | Some reasoning \<Rightarrow> Emit cfg (new_event EventTypeReasoning now h reasoning (Some []) True) h);
              h = (if mm_content msg \<noteq> [] \<and> mm_tool_calls msg > 0 \<and> cb_store cfg
                   then h\<lparr>hs_store := store_add (ct_model_calls (hs_counter h)) (mm_content msg) (hs_store h)\<rparr> else h);
              h = h\<lparr>hs_counter := IncrementModelCallCount (hs_counter h)\<rparr>;
              h = (if mm_content msg \<noteq> [] \<and> mm_tool_calls msg > 0
                   then h\<lparr>hs_counter := SetPendingAssistantContent (mm_content msg) (hs_counter h)\<rparr> else h)
          in if mm_content msg \<noteq> [] \<and> mm_tool_calls msg = 0
             then Emit cfg (new_event EventTypeAnswerChunk now h (mm_content msg) None False) h else h)"

text \<open>A streamed call: the index of the call and whether it made tool calls so far.\<close>

record stream_job =
  sj_index :: int
  sj_tool_calls :: bool

definition stream_begins :: "handler_state \<Rightarrow> handler_state \<times> stream_job" where
  "stream_begins h =
     (h\<lparr>hs_counter := IncrementModelCallCount (hs_counter h)\<rparr>,
      \<lparr>sj_index = ct_model_calls (hs_counter h), sj_tool_calls = False\<rparr>)"

definition final_reasoning :: "callback_config \<Rightarrow> time \<Rightarrow> handler_state \<Rightarrow> handler_state" where
  "final_reasoning cfg now h =
     (if hs_reasoning h \<noteq> []
      then (Emit cfg (new_event EventTypeReasoning now h (hs_reasoning h) (Some []) True) h)\<lparr>hs_reasoning := []\<rparr>
      else h)"

definition stream_reasoning :: "callback_config \<Rightarrow> time \<Rightarrow> model_message \<Rightarrow> handler_state \<Rightarrow> handler_state" where
  "stream_reasoning cfg now msg h =
     (case ExtractReasoning (cb_decode cfg) msg of
        None \<Rightarrow> h
      | Some reasoning \<Rightarrow>
          let h = h\<lparr>hs_reasoning := hs_reasoning h @ reasoning\<rparr>
          in Emit cfg (new_event EventTypeReasoning now h (hs_reasoning h) (Some []) False) h)"

definition stream_content :: "callback_config \<Rightarrow> time \<Rightarrow> int \<Rightarrow> string \<Rightarrow> handler_state \<Rightarrow> handler_state" where
  "stream_content cfg now idx content h =
     (if content = [] then h
      else let h = (if cb_store cfg then h\<lparr>hs_store := store_add idx content (hs_store h)\<rparr> else h)
           in if \<not> cb_chunks cfg then h
              else let h = (if hs_answer_started h then h else final_reasoning cfg now (h\<lparr>hs_answer_started := True\<rparr>));
                       h = h\<lparr>hs_chunks := hs_chunks h @ content, hs_streamed := True\<rparr>
                   in hand_on [OutChunk content] h)"

text \<open>One frame; no message means a nil frame.\<close>

definition stream_frame :: "callback_config \<Rightarrow> time \<Rightarrow> (token_usage option \<times> model_message) option \<Rightarrow> handler_state \<times> stream_job \<Rightarrow> handler_state \<times> stream_job" where
  "stream_frame cfg now frame hj =
     (let (h, j) = hj
      in case frame of
           None \<Rightarrow> (h, j)
         | Some (usage, msg) \<Rightarrow>
             let h = h\<lparr>hs_tokens := token_Add usage (hs_tokens h)\<rparr>;
                 h = stream_content cfg now (sj_index j) (mm_content msg) (stream_reasoning cfg now msg h)
             in (h, if mm_tool_calls msg > 0 then j\<lparr>sj_tool_calls := True\<rparr> else j))"

text \<open>The end of the stream, with or without an error; the quota error of the step is only logged.\<close>

definition stream_ends :: "callback_config \<Rightarrow> time \<Rightarrow> bool \<Rightarrow> handler_state \<times> stream_job \<Rightarrow> handler_state" where
  "stream_ends cfg now failed hj =
     (let (h, j) = hj; h = final_reasoning cfg now h; h = h\<lparr>hs_answer_started := False\<rparr>
      in if failed \<or> sj_tool_calls j then h
         else h\<lparr>hs_counter := fst (IncrementStep (cb_step_callback cfg) (hs_counter h))\<rparr>)"

definition FinalizeAccumulatedText :: "callback_config \<Rightarrow> time \<Rightarrow> handler_state \<Rightarrow> handler_state" where
  "FinalizeAccumulatedText cfg now h =
     (let accumulated = hs_chunks h; streamed = hs_streamed h; h = h\<lparr>hs_chunks := [], hs_streamed := False\<rparr>
      in if accumulated = [] then h
         else Emit cfg (new_event EventTypeAnswer now h accumulated
                (Some (if streamed then [(''already_streamed'', GBool True)] else [])) False) h)"

definition EmitTokenUsage :: "callback_config \<Rightarrow> int \<Rightarrow> handler_state \<Rightarrow> handler_state" where
  "EmitTokenUsage cfg contextTokens h =
     (let t = hs_tokens h
      in if tu_total t = 0 then h
         else Emit cfg
           \<lparr>ev_type = EventTypeTokenUsage, ev_schema_version = [], ev_event_id = [], ev_timestamp = 0, ev_step = 0, ev_content = [],
            ev_metadata = Some ([(''total_tokens'', GInt (tu_total t)), (''prompt_tokens'', GInt (tu_prompt t)),
              (''completion_tokens'', GInt (tu_completion t))] @
              (if contextTokens > 0 then [(''context_tokens'', GInt contextTokens)] else [])),
            ev_is_complete = False, ev_error = None, ev_agent_id = []\<rparr> h)"

section \<open>Tools\<close>

definition recorded :: "callback_config \<Rightarrow> string \<Rightarrow> bool" where
  "recorded cfg name \<longleftrightarrow> cb_recorder cfg \<and> cb_session_id cfg \<noteq> [] \<and> name \<noteq> []"

text \<open>\<open>OnToolStart\<close>; empty arguments stand for a nil input, too.\<close>

definition OnToolStart :: "callback_config \<Rightarrow> time \<Rightarrow> string \<Rightarrow> string \<Rightarrow> handler_state \<Rightarrow> handler_state" where
  "OnToolStart cfg now name args h =
     (let step = ct_step (hs_counter h);
          h = (if recorded cfg name then hand_on [OutCall (cb_session_id cfg) name] h else h);
          h = FinalizeAccumulatedText cfg now h;
          (c, pending) = ConsumePendingAssistantContent (hs_counter h);
          h = h\<lparr>hs_counter := c\<rparr>;
          metadata = [(''id'', GStr (server_call_id name step)), (''tool_name'', GStr name)] @
            (if args \<noteq> [] then [(''function_arguments'', GStr args)] else []) @
            (if pending \<noteq> [] then [(''assistant_content'', GStr pending)] else [])
      in Emit cfg ((new_event EventTypeToolCall now h name (Some metadata) False)\<lparr>ev_step := step\<rparr>) h)"

definition tool_metadata :: "string \<Rightarrow> string \<Rightarrow> (string \<times> gval) list" where
  "tool_metadata name content =
     [(''tool_name'', GStr name), (''result_length'', GInt (int (length content))), (''full_result'', GStr content)] @
     (if SummarizeToolResult name content \<noteq> [] then [(''summary'', GStr (SummarizeToolResult name content))] else [])"

text \<open>The common end of a tool: the event, the note of the result and the next step; a quota error ends the context.\<close>

definition tool_ends :: "callback_config \<Rightarrow> string \<Rightarrow> string \<Rightarrow> agent_event \<Rightarrow> handler_state \<Rightarrow> handler_state \<times> go_error option" where
  "tool_ends cfg name content e h =
     (let h = Emit cfg e h;
          h = (if recorded cfg name then hand_on [OutResult (cb_session_id cfg) name content] h else h);
          (c, err) = IncrementStep (cb_step_callback cfg) (hs_counter h)
      in (h\<lparr>hs_counter := c\<rparr>, err))"

definition OnToolEnd :: "callback_config \<Rightarrow> time \<Rightarrow> string \<Rightarrow> string option \<Rightarrow> handler_state \<Rightarrow> handler_state \<times> go_error option" where
  "OnToolEnd cfg now name output h =
     (case output of
        None \<Rightarrow> (h, None)
      | Some response \<Rightarrow>
          let preview = (if length response > 500 \<and> name \<noteq> ''smart_search'' then take 500 response @ ''...'' else response);
              e = new_event EventTypeToolResult now h preview (Some (tool_metadata name response)) False;
              e = (if has_prefix response ''[ERROR]''
                   then e\<lparr>ev_error := Some \<lparr>ae_code = ''tool_error'', ae_message = response\<rparr>\<rparr> else e)
          in tool_ends cfg name response e h)"

text \<open>The error of a tool; an error of an MCP server carries its own text.\<close>

datatype tool_failure = PlainFailure string | McpFailure string string

definition failure_content :: "tool_failure \<Rightarrow> string" where
  "failure_content f = (case f of PlainFailure t \<Rightarrow> t | McpFailure _ content \<Rightarrow> content)"

definition OnToolError :: "callback_config \<Rightarrow> time \<Rightarrow> string \<Rightarrow> tool_failure \<Rightarrow> handler_state \<Rightarrow> handler_state \<times> go_error option" where
  "OnToolError cfg now name failure h =
     (let content = failure_content failure
      in tool_ends cfg name content
           ((new_event EventTypeToolResult now h content (Some (tool_metadata name content)) False)
              \<lparr>ev_error := Some \<lparr>ae_code = ''tool_error'', ae_message = content\<rparr>\<rparr>) h)"

section \<open>What the client has seen and what the history gets\<close>

text \<open>The calls of the framework in any order; the streamed calls are numbered by their start.\<close>

datatype callback_step = CbModelEnd time "(token_usage option \<times> model_message) option" | CbStreamBegins
  | CbFrame nat time "(token_usage option \<times> model_message) option" | CbStreamEnds nat time bool
  | CbToolStart time string string | CbToolEnd time string "string option" | CbToolError time string tool_failure
  | CbFinalize time | CbTokens int

fun cb_run :: "callback_config \<Rightarrow> callback_step \<Rightarrow> handler_state \<times> stream_job list \<Rightarrow> handler_state \<times> stream_job list" where
  "cb_run cfg (CbModelEnd now out) (h, js) = (OnModelEnd cfg now out h, js)"
| "cb_run cfg CbStreamBegins (h, js) = (case stream_begins h of (h', j) \<Rightarrow> (h', js @ [j]))"
| "cb_run cfg (CbFrame i now fr) (h, js) =
     (if i < length js then (case stream_frame cfg now fr (h, js ! i) of (h', j) \<Rightarrow> (h', js[i := j])) else (h, js))"
| "cb_run cfg (CbStreamEnds i now failed) (h, js) = (if i < length js then (stream_ends cfg now failed (h, js ! i), js) else (h, js))"
| "cb_run cfg (CbToolStart now name args) (h, js) = (OnToolStart cfg now name args h, js)"
| "cb_run cfg (CbToolEnd now name out) (h, js) = (fst (OnToolEnd cfg now name out h), js)"
| "cb_run cfg (CbToolError now name f) (h, js) = (fst (OnToolError cfg now name f h), js)"
| "cb_run cfg (CbFinalize now) (h, js) = (FinalizeAccumulatedText cfg now h, js)"
| "cb_run cfg (CbTokens n) (h, js) = (EmitTokenUsage cfg n h, js)"

definition cb_runs :: "callback_config \<Rightarrow> callback_step list \<Rightarrow> handler_state \<times> stream_job list \<Rightarrow> handler_state \<times> stream_job list" where
  "cb_runs cfg xs w = fold (cb_run cfg) xs w"

fun chunk_of :: "callback_out \<Rightarrow> string" where
  "chunk_of (OutChunk c) = c"
| "chunk_of _ = []"

fun answer_of :: "callback_out \<Rightarrow> string" where
  "answer_of (OutEvent e) = (if ev_type e = EventTypeAnswer then ev_content e else [])"
| "answer_of _ = []"

fun unmarked_answer :: "callback_out \<Rightarrow> bool" where
  "unmarked_answer (OutEvent e) \<longleftrightarrow> ev_type e = EventTypeAnswer \<and> \<not> meta_bool e ''already_streamed''"
| "unmarked_answer _ = False"

definition chunk_text :: "callback_out list \<Rightarrow> string" where
  "chunk_text xs = concat (map chunk_of xs)"

definition answer_text :: "callback_out list \<Rightarrow> string" where
  "answer_text xs = concat (map answer_of xs)"

text \<open>What was streamed is what was handed on as answers followed by what is not handed on yet.\<close>

definition texts_inv :: "handler_state \<Rightarrow> bool" where
  "texts_inv h \<longleftrightarrow> chunk_text (hs_out h) = answer_text (hs_out h) @ hs_chunks h \<and>
     (hs_chunks h \<noteq> [] \<longrightarrow> hs_streamed h) \<and> \<not> list_ex unmarked_answer (hs_out h)"

text \<open>Everything but the streaming of content and the end of a text leaves this alone.\<close>

definition same_texts :: "handler_state \<Rightarrow> handler_state \<Rightarrow> bool" where
  "same_texts h h' \<longleftrightarrow> chunk_text (hs_out h') = chunk_text (hs_out h) \<and> answer_text (hs_out h') = answer_text (hs_out h) \<and>
     hs_chunks h' = hs_chunks h \<and> hs_streamed h' = hs_streamed h \<and>
     list_ex unmarked_answer (hs_out h') = list_ex unmarked_answer (hs_out h)"

lemma same_texts_refl: "same_texts h h"
  by (simp add: same_texts_def)

lemma same_texts_trans: "same_texts h h1 \<Longrightarrow> same_texts h1 h2 \<Longrightarrow> same_texts h h2"
  by (simp add: same_texts_def)

lemma same_texts_inv: "same_texts h h' \<Longrightarrow> texts_inv h \<Longrightarrow> texts_inv h'"
  by (simp add: same_texts_def texts_inv_def)

lemma Emit_same [simp]: "ev_type e \<noteq> EventTypeAnswer \<Longrightarrow> same_texts h (Emit cfg e h') = same_texts h h'"
  by (simp add: same_texts_def Emit_def hand_on_def chunk_text_def answer_text_def)

lemma note_same [simp]: "same_texts h (hand_on [OutCall s n] h') = same_texts h h'"
  "same_texts h (hand_on [OutResult s n r] h') = same_texts h h'"
  by (simp_all add: same_texts_def hand_on_def chunk_text_def answer_text_def)

lemma fields_same [simp]:
  "same_texts h (h'\<lparr>hs_counter := c\<rparr>) = same_texts h h'" "same_texts h (h'\<lparr>hs_tokens := t\<rparr>) = same_texts h h'"
  "same_texts h (h'\<lparr>hs_store := st\<rparr>) = same_texts h h'" "same_texts h (h'\<lparr>hs_reasoning := r\<rparr>) = same_texts h h'"
  "same_texts h (h'\<lparr>hs_answer_started := b\<rparr>) = same_texts h h'"
  by (simp_all add: same_texts_def)

lemma new_event_type [simp]: "ev_type (new_event t now h c m b) = t"
  by (simp add: new_event_def)

lemma final_reasoning_same [simp]: "same_texts h (final_reasoning cfg now h') = same_texts h h'"
  by (simp add: final_reasoning_def)

lemma stream_reasoning_same [simp]: "same_texts h (stream_reasoning cfg now msg h') = same_texts h h'"
  by (simp add: stream_reasoning_def Let_def split: option.split)

lemma OnModelEnd_same: "same_texts h (OnModelEnd cfg now out h)"
  by (simp add: OnModelEnd_def Let_def same_texts_refl split: option.split prod.split)

lemma stream_ends_same: "same_texts h (stream_ends cfg now failed (h, j))"
  by (simp add: stream_ends_def Let_def same_texts_refl)

lemma tool_ends_same: "ev_type e \<noteq> EventTypeAnswer \<Longrightarrow> same_texts h (fst (tool_ends cfg name content e h))"
  by (simp add: tool_ends_def Let_def same_texts_refl split: prod.split)

lemma tokens_same: "same_texts h (EmitTokenUsage cfg n h)"
  by (simp add: EmitTokenUsage_def Let_def same_texts_refl)

lemma content_inv: "texts_inv h \<Longrightarrow> texts_inv (stream_content cfg now idx content h)"
proof -
  assume inv: "texts_inv h"
  define h1 where "h1 = (if cb_store cfg then h\<lparr>hs_store := store_add idx content (hs_store h)\<rparr> else h)"
  define h2 where "h2 = (if hs_answer_started h1 then h1 else final_reasoning cfg now (h1\<lparr>hs_answer_started := True\<rparr>))"
  have "same_texts h h1" "same_texts h h2" by (simp_all add: h1_def h2_def same_texts_refl)
  then have "texts_inv h1" "texts_inv h2" using inv same_texts_inv by blast+
  then show ?thesis
    using inv by (auto simp: stream_content_def Let_def h1_def [symmetric] h2_def [symmetric] texts_inv_def hand_on_def
        chunk_text_def answer_text_def)
qed

lemma finalize_inv:
  assumes "texts_inv h" and "cb_events cfg"
  shows "texts_inv (FinalizeAccumulatedText cfg now h)" and "hs_chunks (FinalizeAccumulatedText cfg now h) = []"
proof -
  have mark: "meta_bool (new_event EventTypeAnswer now h' c (Some [(''already_streamed'', GBool True)]) False) ''already_streamed''"
    for h' c by (simp add: meta_bool_def meta_def new_event_def)
  show "texts_inv (FinalizeAccumulatedText cfg now h)"
    using assms mark unfolding FinalizeAccumulatedText_def Let_def texts_inv_def Emit_def hand_on_def
    by (auto simp: chunk_text_def answer_text_def meta_bool_def meta_def new_event_def)
  show "hs_chunks (FinalizeAccumulatedText cfg now h) = []"
    by (simp add: FinalizeAccumulatedText_def Let_def Emit_def hand_on_def)
qed

lemma cb_run_inv:
  assumes "texts_inv h" and "cb_events cfg" and "cb_run cfg x (h, js) = (h', js')"
  shows "texts_inv h'"
proof (cases x)
  case (CbModelEnd now out)
  then show ?thesis using assms same_texts_inv OnModelEnd_same by fastforce
next
  case CbStreamBegins
  then have "same_texts h h'" using assms(3) by (auto simp: stream_begins_def same_texts_refl)
  then show ?thesis using assms(1) same_texts_inv by blast
next
  case (CbFrame i now fr)
  show ?thesis
  proof (cases "i < length js \<and> fr \<noteq> None")
    case True
    then obtain usage msg where fr: "fr = Some (usage, msg)" by auto
    define h1 where "h1 = stream_reasoning cfg now msg (h\<lparr>hs_tokens := token_Add usage (hs_tokens h)\<rparr>)"
    have "same_texts h h1" by (simp add: h1_def same_texts_refl)
    then have "texts_inv (stream_content cfg now (sj_index (js ! i)) (mm_content msg) h1)"
      using assms(1) same_texts_inv content_inv by blast
    then show ?thesis using assms(3) True CbFrame fr by (simp add: stream_frame_def Let_def h1_def)
  next
    case False
    then show ?thesis using assms CbFrame by (cases fr) (auto simp: stream_frame_def split: if_splits)
  qed
next
  case (CbStreamEnds i now failed)
  then show ?thesis using assms same_texts_inv [OF stream_ends_same] by (auto split: if_splits)
next
  case (CbToolStart now name args)
  define h1 where "h1 = (if recorded cfg name then hand_on [OutCall (cb_session_id cfg) name] h else h)"
  have "same_texts h h1" by (simp add: h1_def same_texts_refl)
  then have inv: "texts_inv (FinalizeAccumulatedText cfg now h1)" using assms same_texts_inv finalize_inv(1) by blast
  have "same_texts (FinalizeAccumulatedText cfg now h1) (OnToolStart cfg now name args h)"
    by (simp add: OnToolStart_def Let_def h1_def [symmetric] same_texts_refl split: prod.split)
  then show ?thesis using inv assms(3) CbToolStart same_texts_inv by auto
next
  case (CbToolEnd now name out)
  have "same_texts h (fst (OnToolEnd cfg now name out h))"
    by (auto simp: OnToolEnd_def Let_def same_texts_refl tool_ends_same split: option.split)
  then show ?thesis using assms CbToolEnd same_texts_inv by auto
next
  case (CbToolError now name f)
  have "same_texts h (fst (OnToolError cfg now name f h))"
    by (auto simp: OnToolError_def Let_def tool_ends_same)
  then show ?thesis using assms CbToolError same_texts_inv by auto
next
  case (CbFinalize now)
  then show ?thesis using assms finalize_inv(1) by auto
next
  case (CbTokens n)
  then show ?thesis using assms same_texts_inv [OF tokens_same] by auto
qed

lemma cb_runs_inv: "texts_inv h \<Longrightarrow> cb_events cfg \<Longrightarrow> texts_inv (fst (cb_runs cfg xs (h, js)))"
proof (induction xs arbitrary: h js)
  case (Cons x xs)
  obtain h' js' where "cb_run cfg x (h, js) = (h', js')" by fastforce
  then show ?case using Cons cb_run_inv [OF Cons.prems, of x js h' js'] by (simp add: cb_runs_def)
qed (simp add: cb_runs_def)

lemma NewBuilder_inv: "texts_inv (snd (NewBuilder cfg st))"
  by (simp add: NewBuilder_def texts_inv_def chunk_text_def answer_text_def)

text \<open>C20: In whatever order the framework streams frames, runs tools and ends calls, once the accumulated text is
  finalized the answers that were handed on for the history carry together exactly the text that was streamed
  to the client, in the same order, and each is marked as streamed already, so the client gets no text twice.\<close>

theorem streamed_text_reaches_history:
  assumes "cb_events cfg" and "NewBuilder cfg st = (cfg', h)"
  shows "answer_text (hs_out (fst (cb_runs cfg' (xs @ [CbFinalize now]) (h, [])))) =
      chunk_text (hs_out (fst (cb_runs cfg' (xs @ [CbFinalize now]) (h, [])))) \<and>
    \<not> list_ex unmarked_answer (hs_out (fst (cb_runs cfg' (xs @ [CbFinalize now]) (h, []))))"
proof -
  obtain h1 js where run: "cb_runs cfg' xs (h, []) = (h1, js)" by fastforce
  have cfg': "cb_events cfg'" using assms by (auto simp: NewBuilder_def)
  have "texts_inv h" using NewBuilder_inv [of cfg st] assms(2) by simp
  then have "texts_inv h1" using cb_runs_inv [OF _ cfg', of h xs "[]"] run by simp
  then show ?thesis
    using finalize_inv [OF _ cfg', of h1 now] run by (simp add: cb_runs_def texts_inv_def)
qed

text \<open>A text in two chunks.\<close>

definition sample_config :: callback_config where
  "sample_config = \<lparr>cb_events = True, cb_chunks = True, cb_store = True, cb_recorder = False, cb_session_id = ''s'', cb_agent_id = [],
     cb_step_callback = None, cb_decode = (\<lambda>_. None)\<rparr>"

definition said :: "string \<Rightarrow> (token_usage option \<times> model_message) option" where
  "said c = Some (None, \<lparr>mm_content = c, mm_reasoning = [], mm_tool_calls = 0\<rparr>)"

definition sample_steps :: "callback_step list" where
  "sample_steps = [CbStreamBegins, CbFrame 0 1 (said ''Hi ''), CbFrame 0 2 (said ''there'')]"

theorem streamed_text_reaches_history_witness:
  "chunk_text (hs_out (fst (cb_runs (fst (NewBuilder sample_config Map.empty)) (sample_steps @ [CbFinalize 6])
      (snd (NewBuilder sample_config Map.empty), [])))) = ''Hi there'' \<and>
   answer_text (hs_out (fst (cb_runs (fst (NewBuilder sample_config Map.empty)) (sample_steps @ [CbFinalize 6])
      (snd (NewBuilder sample_config Map.empty), [])))) =
   chunk_text (hs_out (fst (cb_runs (fst (NewBuilder sample_config Map.empty)) (sample_steps @ [CbFinalize 6])
      (snd (NewBuilder sample_config Map.empty), []))))"
proof -
  have "cb_events sample_config" by (simp add: sample_config_def)
  note streamed_text_reaches_history [OF this, of Map.empty "fst (NewBuilder sample_config Map.empty)"
      "snd (NewBuilder sample_config Map.empty)" sample_steps 6]
  moreover have "chunk_text (hs_out (fst (cb_runs (fst (NewBuilder sample_config Map.empty)) (sample_steps @ [CbFinalize 6])
      (snd (NewBuilder sample_config Map.empty), [])))) = ''Hi there''"
    by (simp add: cb_runs_def sample_steps_def said_def sample_config_def NewBuilder_def stream_begins_def stream_frame_def
        stream_content_def stream_reasoning_def ExtractReasoning_def final_reasoning_def
        FinalizeAccumulatedText_def Emit_def hand_on_def chunk_text_def Let_def)
  ultimately show ?thesis by simp
qed

section \<open>Identifiers of tool calls\<close>

lemma Emit_counter [simp]: "hs_counter (Emit cfg e h) = hs_counter h"
  by (simp add: Emit_def hand_on_def)

lemma Emit_out: "cb_events cfg \<Longrightarrow> hs_out (Emit cfg e h) = hs_out h @ [OutEvent (e\<lparr>ev_agent_id := if ev_agent_id e = [] then cb_agent_id cfg else ev_agent_id e\<rparr>)]"
  by (simp add: Emit_def hand_on_def)

lemma hand_on_fields [simp]: "hs_counter (hand_on xs h) = hs_counter h" "hs_out (hand_on xs h) = hs_out h @ xs"
  by (simp_all add: hand_on_def)

lemma finalize_counter [simp]: "hs_counter (FinalizeAccumulatedText cfg now h) = hs_counter h"
  by (simp add: FinalizeAccumulatedText_def Let_def)

lemma OnToolStart_step [simp]: "ct_step (hs_counter (OnToolStart cfg now name args h)) = ct_step (hs_counter h)"
  by (simp add: OnToolStart_def Let_def ConsumePendingAssistantContent_def)

text \<open>A call is announced under the step at its start, its result under the step at its end.\<close>

lemma OnToolStart_event:
  assumes "cb_events cfg"
  shows "\<exists>e. last (hs_out (OnToolStart cfg now name args h)) = OutEvent e \<and> ev_type e = EventTypeToolCall \<and>
    meta_str e ''id'' = Some (server_call_id name (ct_step (hs_counter h))) \<and> ev_step e = ct_step (hs_counter h)"
  using assms by (simp add: OnToolStart_def Let_def ConsumePendingAssistantContent_def Emit_out meta_str_def meta_def new_event_def)

lemma OnToolEnd_event:
  assumes "cb_events cfg"
  shows "\<exists>e xs. hs_out (fst (OnToolEnd cfg now name (Some r) h)) = hs_out h @ OutEvent e # xs \<and> ev_type e = EventTypeToolResult \<and>
    ev_step e = ct_step (hs_counter h) \<and> ct_step (hs_counter (fst (OnToolEnd cfg now name (Some r) h))) = ct_step (hs_counter h) + 1"
  using assms by (simp add: OnToolEnd_def tool_ends_def Let_def IncrementStep_def Emit_out new_event_def)

text \<open>
  Two tools that run at the same time: the second result is reported under another step than its call, so the
  identifier that \<open>convertEvent\<close> makes of it is not the one of the call.
\<close>

lemma parallel_result_other_step:
  assumes "cb_events cfg" and "h1 = OnToolStart cfg t2 b args2 (OnToolStart cfg t1 a args1 h)"
    and "h2 = fst (OnToolEnd cfg t3 a (Some r) h1)"
  shows "\<exists>e xs. hs_out (fst (OnToolEnd cfg t4 b (Some s) h2)) = hs_out h2 @ OutEvent e # xs \<and>
    ev_step e = ct_step (hs_counter h) + 1"
proof -
  have "ct_step (hs_counter h2) = ct_step (hs_counter h) + 1"
    using OnToolEnd_event [OF assms(1), of t3 a r h1] assms(2,3) by auto
  then show ?thesis using OnToolEnd_event [OF assms(1), of t4 b s h2] by auto
qed

section \<open>Reasoning that contains quotes\<close>

text \<open>The clean-up takes an empty string literal for the seam of two chunks.\<close>

lemma reasoning_loses_quotes:
  "cleanReasoningContent dec ([CHR ''x''] @ quote2 @ [CHR ''y'']) = ''xy''"
proof -
  have "str_contains ([CHR ''x''] @ quote2 @ [CHR ''y'']) quote2" unfolding str_contains_iff by blast
  moreover have "replace_all quote2 [] ([CHR ''x''] @ quote2 @ [CHR ''y'']) = [CHR ''x''] @ [] @ replace_all quote2 [] [CHR ''y'']"
    by (rule replace_all_first) (auto simp: quote2_def has_prefix_def append_eq_Cons_conv Cons_eq_append_conv)
  moreover have "replace_all quote2 [] [CHR ''y''] = [CHR ''y'']"
    by (rule replace_all_none) (auto simp: str_contains_iff quote2_def Cons_eq_append_conv)
  ultimately show ?thesis
    by (simp add: cleanReasoningContent_def has_prefix_def has_suffix_def Let_def)
qed

end
