(* ===== verification/Context_Rewriter.thy ===== *)
theory Context_Rewriter
  imports Prelude
begin

text \<open>
  Compression of a conversation that has outgrown the context of the model
  (\<open>internal/infrastructure/agents/context_rewriter.go\<close>).  A message has the fields of eino's
  \<open>schema.Message\<close> that the code reads.  The backward pass over the conversation is a recursion over the
  list of indices from the last to the first, with the two index maps as lists of indices.

  The theory proves what survives a compression, in which order, and how large the result can be.
\<close>

section \<open>Messages\<close>

datatype role = System | User | Assistant | Tool | RoleOther string

record tool_call_ref =
  tc_call_id :: string
  tc_type :: string
  tc_name :: string
  tc_arguments :: string

record message =
  ms_role :: role
  ms_content :: string
  ms_name :: string
  ms_tool_calls :: "tool_call_ref list"
  ms_tool_call_id :: string
  ms_tool_name :: string

definition charsPerToken :: int where
  "charsPerToken = 4"

definition charsToTokens :: "int \<Rightarrow> int" where
  "charsToTokens chars = go_quot chars charsPerToken"

definition tokensToChars :: "int \<Rightarrow> int" where
  "tokensToChars tokens = wrap64 (tokens * charsPerToken)"

definition call_chars :: "tool_call_ref \<Rightarrow> nat" where
  "call_chars tc = length (tc_call_id tc) + length (tc_type tc) + length (tc_name tc) + length (tc_arguments tc)"

definition messageChars :: "message \<Rightarrow> nat" where
  "messageChars m =
     length (ms_content m) + sum_list (map call_chars (ms_tool_calls m)) +
     length (ms_tool_call_id m) + length (ms_tool_name m) + length (ms_name m)"

definition total_chars :: "message list \<Rightarrow> nat" where
  "total_chars ms = sum_list (map messageChars ms)"

section \<open>The backward pass\<close>

definition calls_tools :: "message \<Rightarrow> bool" where
  "calls_tools m \<longleftrightarrow> ms_role m = Assistant \<and> ms_tool_calls m \<noteq> []"

text \<open>\<open>toolCallToAssistant\<close>: the last message of the conversation that makes the call.\<close>

definition call_owner :: "message list \<Rightarrow> string \<Rightarrow> nat option" where
  "call_owner conv cid =
     (case filter (\<lambda>i. calls_tools (conv ! i) \<and> cid \<in> set (map tc_call_id (ms_tool_calls (conv ! i)))) (rev [0..<length conv]) of
        [] \<Rightarrow> None | i # _ \<Rightarrow> Some i)"

text \<open>The message a tool result is paired with: the one that makes its call, else the one before it.\<close>

definition assistant_index :: "message list \<Rightarrow> nat \<Rightarrow> nat option" where
  "assistant_index conv i =
     (let byID = (if ms_tool_call_id (conv ! i) \<noteq> '''' then call_owner conv (ms_tool_call_id (conv ! i)) else None)
      in case byID of
           Some a \<Rightarrow> Some a
         | None \<Rightarrow> if i > 0 \<and> calls_tools (conv ! (i - 1)) then Some (i - 1) else None)"

record pass_state =
  ps_keep :: "nat list"
  ps_skip :: "nat list"
  ps_size :: int
  ps_removed :: "string list"

definition first_call_name :: "message \<Rightarrow> string" where
  "first_call_name m = (case ms_tool_calls m of [] \<Rightarrow> '''' | tc # _ \<Rightarrow> tc_name tc)"

definition has_tool_result :: "message list \<Rightarrow> nat \<Rightarrow> bool" where
  "has_tool_result conv i \<longleftrightarrow>
     (\<exists>j \<in> set [Suc i..<length conv]. j \<le> i + length (ms_tool_calls (conv ! i)) + 1 \<and> ms_role (conv ! j) = Tool)"

definition pass_tool :: "message list \<Rightarrow> int \<Rightarrow> nat \<Rightarrow> pass_state \<Rightarrow> pass_state" where
  "pass_tool conv cap i s =
     (case assistant_index conv i of
        Some a \<Rightarrow>
          if a \<notin> set (ps_skip s)
          then (let pairSize = int (messageChars (conv ! i)) + int (messageChars (conv ! a))
                in if ps_size s + pairSize > cap
                   then s\<lparr>ps_removed := ps_removed s @ [ms_name (conv ! i)] @
                            (if ms_tool_calls (conv ! a) \<noteq> [] then [first_call_name (conv ! a) @ '' (call)''] else []),
                          ps_skip := a # ps_skip s\<rparr>
                   else s\<lparr>ps_keep := a # i # ps_keep s, ps_size := ps_size s + pairSize, ps_skip := a # ps_skip s\<rparr>)
          else s\<lparr>ps_removed := ps_removed s @ [ms_name (conv ! i) @ '' (orphaned)'']\<rparr>
      | None \<Rightarrow> s\<lparr>ps_removed := ps_removed s @ [ms_name (conv ! i) @ '' (orphaned)'']\<rparr>)"

definition pass_one :: "message list \<Rightarrow> int \<Rightarrow> nat \<Rightarrow> pass_state \<Rightarrow> pass_state" where
  "pass_one conv cap i s =
     (let m = conv ! i
      in if ms_role m = User then s\<lparr>ps_keep := i # ps_keep s\<rparr>
         else if i \<in> set (ps_skip s) then s
         else if ms_role m = Tool then pass_tool conv cap i s
         else if calls_tools m
         then (if has_tool_result conv i then s
               else s\<lparr>ps_removed := ps_removed s @ [first_call_name m @ '' (orphaned call)'']\<rparr>)
         else if ps_size s + int (messageChars m) > cap then s
         else s\<lparr>ps_keep := i # ps_keep s, ps_size := ps_size s + int (messageChars m)\<rparr>)"

fun backward_pass :: "message list \<Rightarrow> int \<Rightarrow> nat list \<Rightarrow> pass_state \<Rightarrow> pass_state" where
  "backward_pass conv cap [] s = s"
| "backward_pass conv cap (i # is) s = backward_pass conv cap is (pass_one conv cap i s)"

section \<open>The rewriter\<close>

definition system_prompt :: "message list \<Rightarrow> message option" where
  "system_prompt input =
     (case filter (\<lambda>m. ms_role m = System) input of [] \<Rightarrow> None | ms \<Rightarrow> Some (last ms))"

definition conversation :: "message list \<Rightarrow> message list" where
  "conversation input = filter (\<lambda>m. ms_role m \<noteq> System) input"

definition reserved_chars :: "message list \<Rightarrow> int" where
  "reserved_chars input =
     (case system_prompt input of None \<Rightarrow> 0 | Some m \<Rightarrow> int (messageChars m)) +
     int (total_chars (filter (\<lambda>m. ms_role m = User) (conversation input)))"

definition remaining_capacity :: "int \<Rightarrow> int \<Rightarrow> int" where
  "remaining_capacity maxChars reserved =
     (let reserved1 = (if reserved > maxChars then maxChars else reserved);
          remaining = maxChars - reserved1
      in if remaining < 0 then 0 else remaining)"

definition kept_messages :: "message list \<Rightarrow> nat list \<Rightarrow> message list" where
  "kept_messages conv keep = map ((!) conv) (filter (\<lambda>i. i \<in> set keep) [0..<length conv])"

definition run_pass :: "int \<Rightarrow> message list \<Rightarrow> pass_state" where
  "run_pass maxChars input =
     backward_pass (conversation input) (remaining_capacity maxChars (reserved_chars input))
       (rev [0..<length (conversation input)]) \<lparr>ps_keep = [], ps_skip = [], ps_size = 0, ps_removed = []\<rparr>"

definition compress :: "int \<Rightarrow> message list \<Rightarrow> message list" where
  "compress maxChars input =
     (case system_prompt input of None \<Rightarrow> [] | Some m \<Rightarrow> [m]) @
     kept_messages (conversation input) (ps_keep (run_pass maxChars input))"

definition NewContextRewriter :: "int \<Rightarrow> message list \<Rightarrow> message list" where
  "NewContextRewriter maxContextTokens input =
     (if input = [] then input
      else if int (total_chars input) \<le> tokensToChars maxContextTokens then input
      else compress (tokensToChars maxContextTokens) input)"

text \<open>The size handed to the callback \<open>onContextSize\<close>; an empty input is not reported.\<close>

definition reported_tokens :: "int \<Rightarrow> message list \<Rightarrow> int option" where
  "reported_tokens maxContextTokens input =
     (if input = [] then None
      else Some (charsToTokens (int (total_chars (NewContextRewriter maxContextTokens input)))))"

section \<open>What the pass keeps\<close>

lemma call_owner_Some:
  assumes "call_owner conv cid = Some a"
  shows "a < length conv \<and> calls_tools (conv ! a) \<and> cid \<in> set (map tc_call_id (ms_tool_calls (conv ! a)))"
proof -
  let ?is = "filter (\<lambda>i. calls_tools (conv ! i) \<and> cid \<in> set (map tc_call_id (ms_tool_calls (conv ! i))))
      (rev [0..<length conv])"
  obtain rest where "?is = a # rest" using assms by (cases ?is) (auto simp: call_owner_def)
  then have "a \<in> set ?is" by (metis list.set_intros(1))
  then show ?thesis by simp
qed

lemma assistant_index_Some:
  assumes "assistant_index conv i = Some a" and "i < length conv"
  shows "a < length conv" and "calls_tools (conv ! a)"
  using assms call_owner_Some [of conv "ms_tool_call_id (conv ! i)" a]
  by (auto simp: assistant_index_def Let_def split: option.splits if_splits)

definition kept_size :: "message list \<Rightarrow> nat list \<Rightarrow> int" where
  "kept_size conv keep = (\<Sum>i \<in> {i \<in> set keep. ms_role (conv ! i) \<noteq> User}. int (messageChars (conv ! i)))"

text \<open>The state after the indices from \<open>k\<close> on have been processed, part by part.\<close>

definition keep_ok :: "message list \<Rightarrow> nat \<Rightarrow> nat set \<Rightarrow> nat set \<Rightarrow> bool" where
  "keep_ok conv k S K \<longleftrightarrow> (\<forall>i \<in> K. i < length conv \<and> (calls_tools (conv ! i) \<and> i \<in> S \<or> \<not> calls_tools (conv ! i) \<and> k \<le> i))"

definition users_ok :: "message list \<Rightarrow> nat \<Rightarrow> nat set \<Rightarrow> bool" where
  "users_ok conv k K \<longleftrightarrow> (\<forall>i < length conv. k \<le> i \<longrightarrow> ms_role (conv ! i) = User \<longrightarrow> i \<in> K)"

definition paired :: "message list \<Rightarrow> nat set \<Rightarrow> bool" where
  "paired conv K \<longleftrightarrow>
     (\<forall>i \<in> K. ms_role (conv ! i) = Tool \<longrightarrow> (\<exists>a \<in> K. assistant_index conv i = Some a)) \<and>
     (\<forall>a \<in> K. calls_tools (conv ! a) \<longrightarrow> (\<exists>i \<in> K. ms_role (conv ! i) = Tool \<and> assistant_index conv i = Some a)) \<and>
     (\<forall>i \<in> K. \<forall>j \<in> K. ms_role (conv ! i) = Tool \<longrightarrow> ms_role (conv ! j) = Tool \<longrightarrow>
        assistant_index conv i = assistant_index conv j \<longrightarrow> i = j)"

definition pass_inv :: "message list \<Rightarrow> int \<Rightarrow> nat \<Rightarrow> pass_state \<Rightarrow> bool" where
  "pass_inv conv cap k s \<longleftrightarrow>
     keep_ok conv k (set (ps_skip s)) (set (ps_keep s)) \<and> users_ok conv k (set (ps_keep s)) \<and>
     paired conv (set (ps_keep s)) \<and> ps_size s = kept_size conv (ps_keep s) \<and> ps_size s \<le> cap"

lemma keep_ok_weaken: "keep_ok conv (Suc k) S K \<Longrightarrow> keep_ok conv k S K"
  by (force simp: keep_ok_def)

lemma keep_ok_skip: "keep_ok conv k S K \<Longrightarrow> keep_ok conv k (insert a S) K"
  by (auto simp: keep_ok_def)

lemma keep_ok_insert:
  "keep_ok conv k S K \<Longrightarrow> i < length conv \<Longrightarrow> k \<le> i \<Longrightarrow> \<not> calls_tools (conv ! i) \<Longrightarrow> keep_ok conv k S (insert i K)"
  by (auto simp: keep_ok_def)

lemma keep_ok_insert_call:
  "keep_ok conv k S K \<Longrightarrow> a < length conv \<Longrightarrow> calls_tools (conv ! a) \<Longrightarrow> keep_ok conv k (insert a S) (insert a K)"
  by (auto simp: keep_ok_def)

lemma users_ok_weaken: "users_ok conv (Suc k) K \<Longrightarrow> ms_role (conv ! k) \<noteq> User \<or> k \<in> K \<Longrightarrow> users_ok conv k K"
  unfolding users_ok_def by (metis le_antisym not_less_eq_eq)

lemma users_ok_mono: "users_ok conv k K \<Longrightarrow> K \<subseteq> K' \<Longrightarrow> users_ok conv k K'"
  by (auto simp: users_ok_def)

lemma paired_plain:
  "paired conv K \<Longrightarrow> \<not> calls_tools (conv ! i) \<Longrightarrow> ms_role (conv ! i) \<noteq> Tool \<Longrightarrow> paired conv (insert i K)"
  unfolding paired_def by auto

lemma paired_pair:
  assumes pairs: "paired conv K" and index: "assistant_index conv i = Some a" and tool: "ms_role (conv ! i) = Tool"
    and call: "calls_tools (conv ! a)" and new: "a \<notin> K"
  shows "paired conv (insert a (insert i K))"
proof -
  have other: "ms_role (conv ! a) \<noteq> Tool" "\<not> calls_tools (conv ! i)" using tool call by (simp_all add: calls_tools_def)
  have unique: "assistant_index conv j \<noteq> Some a" if "j \<in> K" "ms_role (conv ! j) = Tool" for j
    using pairs new that unfolding paired_def by (metis option.inject)
  show ?thesis
    unfolding paired_def
  proof (intro conjI)
    show "\<forall>j \<in> insert a (insert i K). ms_role (conv ! j) = Tool \<longrightarrow>
        (\<exists>b \<in> insert a (insert i K). assistant_index conv j = Some b)"
      using pairs index other by (auto simp: paired_def)
    show "\<forall>b \<in> insert a (insert i K). calls_tools (conv ! b) \<longrightarrow>
        (\<exists>j \<in> insert a (insert i K). ms_role (conv ! j) = Tool \<and> assistant_index conv j = Some b)"
      using pairs index tool other by (auto simp: paired_def)
    show "\<forall>j \<in> insert a (insert i K). \<forall>l \<in> insert a (insert i K). ms_role (conv ! j) = Tool \<longrightarrow>
        ms_role (conv ! l) = Tool \<longrightarrow> assistant_index conv j = assistant_index conv l \<longrightarrow> j = l"
    proof (intro ballI impI)
      fix j l
      assume "j \<in> insert a (insert i K)" "l \<in> insert a (insert i K)" "ms_role (conv ! j) = Tool" "ms_role (conv ! l) = Tool"
        and same: "assistant_index conv j = assistant_index conv l"
      then have "j = i \<or> j \<in> K" "l = i \<or> l \<in> K" "j \<in> K \<Longrightarrow> l \<in> K \<Longrightarrow> j = l"
        "j \<in> K \<Longrightarrow> assistant_index conv j \<noteq> Some a" "l \<in> K \<Longrightarrow> assistant_index conv l \<noteq> Some a"
        using other unique pairs unfolding paired_def by auto
      then show "j = l" using index same by auto
    qed
  qed
qed

lemma kept_size_Cons:
  assumes "i \<notin> set keep"
  shows "kept_size conv (i # keep) =
    (if ms_role (conv ! i) = User then 0 else int (messageChars (conv ! i))) + kept_size conv keep"
proof -
  have "{j \<in> set (i # keep). ms_role (conv ! j) \<noteq> User} =
      (if ms_role (conv ! i) = User then {} else {i}) \<union> {j \<in> set keep. ms_role (conv ! j) \<noteq> User}" by auto
  then show ?thesis using assms by (simp add: kept_size_def)
qed

lemma pass_inv_weaken:
  "pass_inv conv cap (Suc i) s \<Longrightarrow> ms_role (conv ! i) \<noteq> User \<Longrightarrow> pass_inv conv cap i (s\<lparr>ps_removed := r\<rparr>)"
  by (simp add: pass_inv_def keep_ok_weaken users_ok_weaken)

lemma not_kept_yet: "keep_ok conv (Suc i) S K \<Longrightarrow> \<not> calls_tools (conv ! i) \<Longrightarrow> i \<notin> K"
  by (force simp: keep_ok_def)

lemma pass_tool_inv:
  assumes inv: "pass_inv conv cap (Suc i) s" and i: "i < length conv" and tool: "ms_role (conv ! i) = Tool"
  shows "pass_inv conv cap i (pass_tool conv cap i s)"
proof -
  have notcall: "\<not> calls_tools (conv ! i)" using tool by (simp add: calls_tools_def)
  have weak: "pass_inv conv cap i (s\<lparr>ps_removed := r\<rparr>)" for r
    by (rule pass_inv_weaken [OF inv]) (simp add: tool)
  show ?thesis
  proof (cases "\<exists>a. assistant_index conv i = Some a \<and> a \<notin> set (ps_skip s)")
    case False
    then have "\<exists>r. pass_tool conv cap i s = s\<lparr>ps_removed := r\<rparr>"
      by (auto simp: pass_tool_def split: option.splits)
    then show ?thesis using weak by auto
  next
    case True
    then obtain a where a: "assistant_index conv i = Some a" "a \<notin> set (ps_skip s)" by blast
    have call: "calls_tools (conv ! a)" "a < length conv" using assistant_index_Some [OF a(1) i] by auto
    have ai: "a \<noteq> i" using call notcall by auto
    have keep: "keep_ok conv i (set (ps_skip s)) (set (ps_keep s))" and users: "users_ok conv i (set (ps_keep s))"
      and pairs: "paired conv (set (ps_keep s))"
      and size: "ps_size s = kept_size conv (ps_keep s)" "ps_size s \<le> cap"
      using weak [of "ps_removed s"] by (simp_all add: pass_inv_def)
    show ?thesis
    proof (cases "ps_size s + (int (messageChars (conv ! i)) + int (messageChars (conv ! a))) > cap")
      case True
      then obtain r where "pass_tool conv cap i s = s\<lparr>ps_removed := r, ps_skip := a # ps_skip s\<rparr>"
        using a by (auto simp: pass_tool_def)
      then show ?thesis using keep_ok_skip [OF keep, of a] users pairs size by (simp add: pass_inv_def)
    next
      case False
      then have res: "pass_tool conv cap i s = s\<lparr>ps_keep := a # i # ps_keep s,
        ps_size := ps_size s + (int (messageChars (conv ! i)) + int (messageChars (conv ! a))), ps_skip := a # ps_skip s\<rparr>"
        using a by (simp add: pass_tool_def Let_def)
      have "keep_ok conv (Suc i) (set (ps_skip s)) (set (ps_keep s))" using inv by (simp add: pass_inv_def)
      from not_kept_yet [OF this notcall] have "i \<notin> set (ps_keep s)" .
      moreover have fresh: "a \<notin> set (ps_keep s)" using keep a(2) call by (auto simp: keep_ok_def)
      ultimately have "kept_size conv (a # i # ps_keep s) =
          ps_size s + (int (messageChars (conv ! i)) + int (messageChars (conv ! a)))"
        using ai tool call size by (simp add: kept_size_Cons calls_tools_def)
      moreover have "keep_ok conv i (insert a (set (ps_skip s))) (insert a (insert i (set (ps_keep s))))"
        by (intro keep_ok_insert_call keep_ok_insert keep call notcall i order_refl)
      moreover have "users_ok conv i (insert a (insert i (set (ps_keep s))))"
        by (rule users_ok_mono [OF users]) auto
      ultimately show ?thesis
        using False paired_pair [OF pairs a(1) tool call(1) fresh] by (simp add: res pass_inv_def)
    qed
  qed
qed

lemma pass_keep_inv:
  assumes inv: "pass_inv conv cap (Suc i) s" and i: "i < length conv"
    and plain: "\<not> calls_tools (conv ! i)" "ms_role (conv ! i) \<noteq> Tool"
    and n: "n = (if ms_role (conv ! i) = User then 0 else int (messageChars (conv ! i)))" and fits: "ps_size s + n \<le> cap"
  shows "pass_inv conv cap i (s\<lparr>ps_keep := i # ps_keep s, ps_size := ps_size s + n\<rparr>)"
proof -
  have keep: "keep_ok conv (Suc i) (set (ps_skip s)) (set (ps_keep s))" and size: "ps_size s = kept_size conv (ps_keep s)"
    and pairs: "paired conv (set (ps_keep s))" and users: "users_ok conv (Suc i) (set (ps_keep s))"
    using inv by (simp_all add: pass_inv_def)
  have "kept_size conv (i # ps_keep s) = n + kept_size conv (ps_keep s)"
    using kept_size_Cons [OF not_kept_yet [OF keep plain(1)]] by (simp add: n)
  moreover have "users_ok conv i (insert i (set (ps_keep s)))"
    by (rule users_ok_weaken [OF users_ok_mono [OF users]]) auto
  ultimately show ?thesis
    using keep_ok_insert [OF keep_ok_weaken [OF keep] i order_refl plain(1)] paired_plain [OF pairs plain] size fits
    by (simp add: pass_inv_def)
qed

lemma pass_one_inv:
  assumes inv: "pass_inv conv cap (Suc i) s" and i: "i < length conv"
  shows "pass_inv conv cap i (pass_one conv cap i s)"
proof -
  let ?m = "conv ! i"
  note weak = pass_inv_weaken [OF inv]
  consider (user) "ms_role ?m = User" | (skip) "ms_role ?m \<noteq> User" "i \<in> set (ps_skip s)"
    | (tool) "i \<notin> set (ps_skip s)" "ms_role ?m = Tool"
    | (call) "ms_role ?m \<noteq> User" "ms_role ?m \<noteq> Tool" "i \<notin> set (ps_skip s)" "calls_tools ?m"
    | (regular) "ms_role ?m \<noteq> User" "ms_role ?m \<noteq> Tool" "i \<notin> set (ps_skip s)" "\<not> calls_tools ?m"
    by blast
  then show ?thesis
  proof cases
    case user
    then have "ps_size s + 0 \<le> cap" "\<not> calls_tools ?m" "ms_role ?m \<noteq> Tool"
      using inv by (simp_all add: pass_inv_def calls_tools_def)
    with pass_keep_inv [OF inv i, of 0] user show ?thesis by (simp add: pass_one_def)
  next
    case tool
    then show ?thesis using pass_tool_inv [OF inv i] by (simp add: pass_one_def)
  next
    case regular
    show ?thesis
    proof (cases "ps_size s + int (messageChars ?m) > cap")
      case True
      then show ?thesis using weak [of "ps_removed s"] regular by (simp add: pass_one_def)
    next
      case False
      with pass_keep_inv [OF inv i regular(4,2) refl] regular show ?thesis by (simp add: pass_one_def)
    qed
  next
    case skip
    then show ?thesis using weak [of "ps_removed s"] by (simp add: pass_one_def)
  next
    case call
    then show ?thesis using weak weak [of "ps_removed s"] by (simp add: pass_one_def)
  qed
qed

lemma backward_pass_inv:
  "pass_inv conv cap k s \<Longrightarrow> k \<le> length conv \<Longrightarrow> pass_inv conv cap 0 (backward_pass conv cap (rev [0..<k]) s)"
proof (induction k arbitrary: s)
  case (Suc k)
  then show ?case using pass_one_inv [of conv cap k s] by simp
qed simp

lemma run_pass_inv:
  "pass_inv (conversation input) (remaining_capacity maxChars (reserved_chars input)) 0 (run_pass maxChars input)"
  unfolding run_pass_def
  by (rule backward_pass_inv)
    (simp_all add: pass_inv_def kept_size_def remaining_capacity_def Let_def keep_ok_def users_ok_def paired_def)

section \<open>What a compression does to the conversation\<close>

lemma kept_messages_nths: "kept_messages conv keep = nths conv (set keep)"
proof (induction conv rule: rev_induct)
  case Nil
  then show ?case by (simp add: kept_messages_def)
next
  case (snoc m conv)
  have "map ((!) (conv @ [m])) (filter (\<lambda>i. i \<in> set keep) [0..<length conv]) = kept_messages conv keep"
    unfolding kept_messages_def by (rule map_cong) (auto simp: nth_append)
  then have "kept_messages (conv @ [m]) keep =
      kept_messages conv keep @ (if length conv \<in> set keep then [m] else [])"
    by (simp add: kept_messages_def)
  then show ?case using snoc by (simp add: nths_append nths_singleton)
qed

lemma filter_nths_all:
  "(\<And>i. i < length xs \<Longrightarrow> P (xs ! i) \<Longrightarrow> i \<in> A) \<Longrightarrow> filter P (nths xs A) = filter P xs"
proof (induction xs rule: rev_induct)
  case (snoc x xs)
  have "filter P (nths xs A) = filter P xs"
    by (rule snoc.IH) (metis snoc.prems length_append_singleton less_SucI nth_append)
  moreover have "P x \<Longrightarrow> length xs \<in> A" using snoc.prems [of "length xs"] by simp
  ultimately show ?case by (auto simp: nths_append nths_singleton)
qed simp

lemma sum_list_nths: "sum_list (map f (nths xs A)) = (\<Sum>i \<in> {i \<in> A. i < length xs}. (f (xs ! i) :: nat))"
proof (induction xs rule: rev_induct)
  case (snoc x xs)
  have "{i \<in> A. i < length (xs @ [x])} = {i \<in> A. i < length xs} \<union> (if length xs \<in> A then {length xs} else {})"
    by (auto simp: less_Suc_eq)
  moreover have "(\<Sum>i \<in> {i \<in> A. i < length xs}. f ((xs @ [x]) ! i)) = (\<Sum>i \<in> {i \<in> A. i < length xs}. f (xs ! i))"
    by (rule sum.cong) (auto simp: nth_append)
  ultimately show ?case using snoc by (simp add: nths_append nths_singleton)
qed simp

lemma total_chars_append [simp]: "total_chars (xs @ ys) = total_chars xs + total_chars ys"
  by (simp add: total_chars_def)

lemma total_chars_Cons [simp]: "total_chars (x # xs) = messageChars x + total_chars xs"
  by (simp add: total_chars_def)

lemma total_chars_Nil [simp]: "total_chars [] = 0"
  by (simp add: total_chars_def)

lemma total_chars_split: "total_chars xs = total_chars (filter P xs) + total_chars (filter (\<lambda>x. \<not> P x) xs)"
  by (induction xs) auto

lemma filter_nths: "filter P (nths xs A) = nths xs {i \<in> A. i < length xs \<and> P (xs ! i)}"
proof (induction xs rule: rev_induct)
  case (snoc x xs)
  have "nths xs {i \<in> A. i < length (xs @ [x]) \<and> P ((xs @ [x]) ! i)} = nths xs {i \<in> A. i < length xs \<and> P (xs ! i)}"
    unfolding nths_def by (intro arg_cong [where f = "map fst"] filter_cong) (auto simp: set_zip nth_append)
  then show ?case using snoc by (simp add: nths_append nths_singleton nth_append)
qed simp

lemma kept_size_nths:
  assumes "\<And>i. i \<in> set keep \<Longrightarrow> i < length conv"
  shows "int (total_chars (filter (\<lambda>m. ms_role m \<noteq> User) (nths conv (set keep)))) = kept_size conv keep"
proof -
  have "{i \<in> {i \<in> set keep. i < length conv \<and> ms_role (conv ! i) \<noteq> User}. i < length conv} =
      {i \<in> set keep. ms_role (conv ! i) \<noteq> User}" using assms by auto
  then show ?thesis unfolding total_chars_def kept_size_def filter_nths sum_list_nths by simp
qed

lemma conversation_not_system: "m \<in> set (conversation input) \<Longrightarrow> ms_role m \<noteq> System"
  by (simp add: conversation_def)

lemma users_of_conversation: "filter (\<lambda>m. ms_role m = User) (conversation input) = filter (\<lambda>m. ms_role m = User) input"
  by (induction input) (auto simp: conversation_def)

lemma system_prompt_role: "system_prompt input = Some m \<Longrightarrow> ms_role m = System"
proof -
  assume "system_prompt input = Some m"
  then have "m = last (filter (\<lambda>m. ms_role m = System) input)" "filter (\<lambda>m. ms_role m = System) input \<noteq> []"
    by (auto simp: system_prompt_def split: list.splits)
  then show ?thesis using last_in_set by fastforce
qed

lemma compress_nths:
  "compress maxChars input = (case system_prompt input of None \<Rightarrow> [] | Some m \<Rightarrow> [m]) @
     nths (conversation input) (set (ps_keep (run_pass maxChars input)))"
  by (simp add: compress_def kept_messages_nths)

lemma nths_conversation_not_system: "m \<in> set (nths (conversation input) A) \<Longrightarrow> ms_role m \<noteq> System"
  using conversation_not_system in_set_nthsD by fastforce

lemma conversation_compress:
  "conversation (compress maxChars input) = nths (conversation input) (set (ps_keep (run_pass maxChars input)))"
proof -
  have "filter (\<lambda>m. ms_role m \<noteq> System) (nths (conversation input) A) = nths (conversation input) A" for A
    using nths_conversation_not_system by (simp add: filter_id_conv)
  then show ?thesis
    unfolding compress_nths conversation_def [of "_ @ _"]
    by (auto simp: system_prompt_role split: option.splits)
qed

lemma system_prompt_compress: "system_prompt (compress maxChars input) = system_prompt input"
proof -
  have "filter (\<lambda>m. ms_role m = System) (nths (conversation input) A) = []" for A
    using nths_conversation_not_system by (auto simp: filter_empty_conv)
  then show ?thesis
    unfolding compress_nths system_prompt_def [of "_ @ _"]
    by (cases "system_prompt input") (simp_all add: system_prompt_role)
qed

lemma users_compress: "filter (\<lambda>m. ms_role m = User) (compress maxChars input) = filter (\<lambda>m. ms_role m = User) input"
proof -
  have "users_ok (conversation input) 0 (set (ps_keep (run_pass maxChars input)))"
    using run_pass_inv [of input maxChars] by (simp add: pass_inv_def)
  then have "filter (\<lambda>m. ms_role m = User) (nths (conversation input) (set (ps_keep (run_pass maxChars input)))) =
      filter (\<lambda>m. ms_role m = User) input"
    using users_of_conversation by (subst filter_nths_all) (auto simp: users_ok_def)
  then show ?thesis using users_of_conversation [of "compress maxChars input"] by (simp add: conversation_compress)
qed

lemma total_chars_compress:
  "int (total_chars (compress maxChars input)) \<le> max maxChars (reserved_chars input)"
proof -
  let ?conv = "conversation input" and ?s = "run_pass maxChars input"
  have inv: "pass_inv ?conv (remaining_capacity maxChars (reserved_chars input)) 0 ?s" by (rule run_pass_inv)
  then have "\<And>i. i \<in> set (ps_keep ?s) \<Longrightarrow> i < length ?conv" by (auto simp: pass_inv_def keep_ok_def)
  from kept_size_nths [OF this]
  have kept: "int (total_chars (filter (\<lambda>m. ms_role m \<noteq> User) (nths ?conv (set (ps_keep ?s))))) \<le>
      remaining_capacity maxChars (reserved_chars input)"
    using inv by (simp add: pass_inv_def)
  have "filter (\<lambda>m. ms_role m = User) (nths ?conv (set (ps_keep ?s))) = filter (\<lambda>m. ms_role m = User) input"
    using users_compress [of maxChars input] users_of_conversation [of "compress maxChars input"]
    by (simp add: conversation_compress)
  then have "total_chars (nths ?conv (set (ps_keep ?s))) = total_chars (filter (\<lambda>m. ms_role m = User) input) +
      total_chars (filter (\<lambda>m. ms_role m \<noteq> User) (nths ?conv (set (ps_keep ?s))))"
    by (subst total_chars_split [of _ "\<lambda>m. ms_role m = User"]) simp
  moreover have "remaining_capacity maxChars (reserved_chars input) + reserved_chars input \<le> max maxChars (reserved_chars input)"
    by (auto simp: remaining_capacity_def Let_def)
  ultimately show ?thesis using kept
    by (auto simp: compress_nths reserved_chars_def users_of_conversation split: option.splits)
qed

text \<open>C11: Whatever the limit is, the rewriter loses no user message and reorders nothing: the user messages
  are exactly those of the input in the same order, the conversation is a subsequence of the input's, and
  the system prompt stays the last one of the input.
\<close>

theorem rewriting_keeps_the_users_side:
  "filter (\<lambda>m. ms_role m = User) (NewContextRewriter limit input) = filter (\<lambda>m. ms_role m = User) input \<and>
   subseq (conversation (NewContextRewriter limit input)) (conversation input) \<and>
   system_prompt (NewContextRewriter limit input) = system_prompt input"
  using subseq_conv_nths [of "conversation (compress (tokensToChars limit) input)" "conversation input"]
  by (auto simp: NewContextRewriter_def users_compress system_prompt_compress conversation_compress)

text \<open>C12: What the rewriter hands to the model never exceeds the limit, unless the system prompt and the user
  messages alone do: then it is at most their size, so nothing else is sent.
\<close>

theorem rewriting_respects_the_limit:
  "int (total_chars (NewContextRewriter limit input)) \<le> max (tokensToChars limit) (reserved_chars input)"
  using total_chars_compress [of "tokensToChars limit" input] by (auto simp: NewContextRewriter_def)


text \<open>
  A conversation whose last assistant message has made two calls: the old answer is too large for the limit
  of ten tokens, everything after it fits.
\<close>

definition text_message :: "role \<Rightarrow> string \<Rightarrow> message" where
  "text_message r text = \<lparr>ms_role = r, ms_content = text, ms_name = [], ms_tool_calls = [], ms_tool_call_id = [], ms_tool_name = []\<rparr>"

definition two_calls :: "message list" where
  "two_calls =
     [text_message Assistant ''an old and very long answer to some question'', text_message User ''list'',
      (text_message Assistant [])\<lparr>ms_tool_calls := [\<lparr>tc_call_id = ''a'', tc_type = [], tc_name = ''ls'', tc_arguments = []\<rparr>,
                                               \<lparr>tc_call_id = ''b'', tc_type = [], tc_name = ''ls'', tc_arguments = []\<rparr>]\<rparr>,
      (text_message Tool ''x'')\<lparr>ms_tool_call_id := ''a''\<rparr>, (text_message Tool ''y'')\<lparr>ms_tool_call_id := ''b''\<rparr>]"

lemmas rewriter_defs = tokensToChars_def wrap64_def charsPerToken_def total_chars_def messageChars_def call_chars_def
  text_message_def two_calls_def


text \<open>The result of the first call is dropped, the message that asks for it is kept, and there was room for both.\<close>

lemma sibling_result_lost:
  "NewContextRewriter 10 two_calls = [two_calls ! 1, two_calls ! 2, two_calls ! 4] \<and>
   int (total_chars (tl two_calls)) \<le> tokensToChars 10"
proof
  have "total_chars two_calls > 40" by (simp add: rewriter_defs)
  then have big: "\<not> int (total_chars two_calls) \<le> tokensToChars 10" by (simp add: tokensToChars_def wrap64_def charsPerToken_def)
  show "NewContextRewriter 10 two_calls = [two_calls ! 1, two_calls ! 2, two_calls ! 4]"
    using big
    by (simp add: NewContextRewriter_def compress_def kept_messages_def run_pass_def conversation_def system_prompt_def
        reserved_chars_def remaining_capacity_def pass_one_def pass_tool_def calls_tools_def assistant_index_def
        call_owner_def rewriter_defs upt_rec Let_def)
  show "int (total_chars (tl two_calls)) \<le> tokensToChars 10" by (simp add: rewriter_defs)
qed

end
