(* ===== verification/Agent_Loop.thy ===== *)
theory Agent_Loop
  imports Agent_Callbacks Context_Rewriter
begin

text \<open>
  The agent around the reasoning loop of the framework (\<open>internal/infrastructure/agents/react/agent.go\<close>): the
  messages it starts with, the classification of errors, the retries with back-off and feedback, the end of a
  run, and the repair of malformed tool arguments.  What the framework does in an attempt, the calls of the
  callbacks and its result, is a parameter.

  The theory bounds the retries, and shows which streamed text the end of a run hands on for the history.
\<close>

section \<open>Errors\<close>

definition contains_any :: "string list \<Rightarrow> string \<Rightarrow> bool" where
  "contains_any ps s \<longleftrightarrow> list_ex (str_contains s) ps"

definition isRateLimitError :: "go_error \<Rightarrow> bool" where
  "isRateLimitError err = contains_any [''rate limit'', ''too many requests'', ''429'', ''quota exceeded''] (lower_text err)"

definition isRecoverableAgentError :: "go_error \<Rightarrow> bool" where
  "isRecoverableAgentError err \<longleftrightarrow>
     \<not> contains_any [''context canceled'', ''context deadline exceeded'', ''unauthorized'', ''authentication'',
       ''invalid api key'', ''permission denied'', ''exceeds max steps'', ''max steps''] (lower_text err)"

text \<open>Nanoseconds; the attempts are few, so the shift does not overflow.\<close>

definition rateLimitBackoff :: "nat \<Rightarrow> int" where
  "rateLimitBackoff attempt = 2 ^ attempt * 2 * second"

definition formatAgentErrorFeedback :: "go_error \<Rightarrow> string" where
  "formatAgentErrorFeedback err =
     (let low = lower_text err
      in if str_contains low ''xml'' \<or> str_contains err ''element'' \<and> str_contains err ''closed by''
         then ''[SYSTEM ERROR] Your previous response had invalid XML format. Please ensure proper XML tag formatting for tool calls.''
         else if str_contains low ''json'' \<or> str_contains low ''unmarshal''
         then ''[SYSTEM ERROR] Your previous response had invalid JSON format. Please ensure proper JSON formatting in your tool call arguments.''
         else if str_contains low ''tool not found'' \<or> str_contains low ''unknown tool''
         then ''[SYSTEM ERROR] The tool you tried to call does not exist. Please use only the tools listed in your available tools.''
         else ''[SYSTEM ERROR] An error occurred processing your previous response: '' @ err @ ''. Please try a different approach.'')"

section \<open>Tool arguments\<close>

text \<open>The matches of \<open><[^>]+>\<close> and of \<open>\{[^{}]*\}\<close>.\<close>

definition after_tag :: "string \<Rightarrow> string option" where
  "after_tag s =
     (let body = takeWhile (\<lambda>c. c \<noteq> CHR ''>'') s; rest = dropWhile (\<lambda>c. c \<noteq> CHR ''>'') s
      in if body \<noteq> [] \<and> rest \<noteq> [] then Some (tl rest) else None)"

lemma after_tag_shorter: "after_tag s = Some r \<Longrightarrow> length r < length s"
  using length_dropWhile_le [of "\<lambda>c. c \<noteq> CHR ''>''" s]
  by (cases "dropWhile (\<lambda>c. c \<noteq> CHR ''>'') s") (auto simp: after_tag_def Let_def split: if_splits)

function strip_tags :: "string \<Rightarrow> string" where
  "strip_tags [] = []"
| "strip_tags (c # s) =
     (if c = CHR ''<''
      then (case after_tag s of Some r \<Rightarrow> strip_tags r | None \<Rightarrow> c # strip_tags s)
      else c # strip_tags s)"
  by pat_completeness auto
termination
  by (relation "measure length") (auto dest: after_tag_shorter)

definition object_body :: "string \<Rightarrow> string" where
  "object_body s = takeWhile (\<lambda>c. c \<noteq> CHR ''{'' \<and> c \<noteq> CHR ''}'') s"

function flat_objects :: "string \<Rightarrow> string list" where
  "flat_objects [] = []"
| "flat_objects (c # s) =
     (if c = CHR ''{'' then
        (if take 1 (drop (length (object_body s)) s) = ''}''
         then (''{'' @ object_body s @ ''}'') # flat_objects (drop (Suc (length (object_body s))) s)
         else flat_objects s)
      else flat_objects s)"
  by pat_completeness auto
termination
  by (relation "measure length") auto

text \<open>\<open>json.Valid\<close> is a parameter.\<close>

definition sanitizeToolArguments :: "(string \<Rightarrow> bool) \<Rightarrow> string \<Rightarrow> string" where
  "sanitizeToolArguments valid arguments =
     (let cleaned = trim_space (strip_tags arguments)
      in if valid cleaned then cleaned
         else case filter valid (flat_objects cleaned) of m # _ \<Rightarrow> m | [] \<Rightarrow> arguments)"

definition ToolArgumentsHandler :: "(string \<Rightarrow> bool) \<Rightarrow> string \<Rightarrow> string" where
  "ToolArgumentsHandler valid arguments = (if valid arguments then arguments else sanitizeToolArguments valid arguments)"

definition UnknownToolsHandler :: "string list \<Rightarrow> string \<Rightarrow> string" where
  "UnknownToolsHandler toolNames name =
     ''[ERROR] Tool '' @ [CHR 0x27] @ name @ [CHR 0x27] @ '' does not exist. Available tools: '' @ str_join '', '' toolNames @
     ''. Use ONLY these tools.''"

section \<open>Attempts\<close>

definition user_message :: "string \<Rightarrow> message" where
  "user_message input = \<lparr>ms_role = User, ms_content = input, ms_name = [], ms_tool_calls = [], ms_tool_call_id = [], ms_tool_name = []\<rparr>"

definition system_feedback :: "string \<Rightarrow> message" where
  "system_feedback text = \<lparr>ms_role = System, ms_content = text, ms_name = [], ms_tool_calls = [], ms_tool_call_id = [], ms_tool_name = []\<rparr>"

definition buildMessagesWithHistory :: "message list \<Rightarrow> string \<Rightarrow> message list" where
  "buildMessagesWithHistory history input = history @ [user_message input]"

definition maxErrorRetries :: nat where
  "maxErrorRetries = 2"

definition maxRateLimitRetries :: nat where
  "maxRateLimitRetries = 5"

text \<open>
  The framework in the \<open>k\<close>-th attempt: the calls of the callbacks and the result; the state of the context after
  it, and during the back-off that follows it.
\<close>

record attempt_env =
  at_run :: "nat \<Rightarrow> message list \<Rightarrow> callback_step list \<times> (go_error + string)"
  at_ctx_err :: "nat \<Rightarrow> go_error option"
  at_backoff_err :: "nat \<Rightarrow> go_error option"

datatype loop_end = LoopResult string | RateLimitExceeded go_error | BackoffCancelled go_error | LoopCancelled go_error
  | NotRecoverable go_error | RetriesExhausted go_error | LoopOver

record loop_state =
  ls_retry :: nat
  ls_rate :: nat
  ls_attempts :: nat
  ls_messages :: "message list"
  ls_waits :: "int list"
  ls_callbacks :: handler_state
  ls_jobs :: "stream_job list"

text \<open>A new builder; the store is shared, and what was handed on stays handed on.\<close>

definition renew :: "callback_config \<Rightarrow> handler_state \<Rightarrow> handler_state" where
  "renew cfg h = (snd (NewBuilder cfg (hs_store h)))\<lparr>hs_out := hs_out h\<rparr>"

definition attempt_done :: "callback_config \<Rightarrow> callback_step list \<Rightarrow> loop_state \<Rightarrow> loop_state" where
  "attempt_done cfg steps s =
     (case cb_runs cfg steps (ls_callbacks s, ls_jobs s) of
        (h, js) \<Rightarrow> s\<lparr>ls_attempts := Suc (ls_attempts s), ls_callbacks := h, ls_jobs := js\<rparr>)"

text \<open>The loop; only the streaming variant looks at the context before it classifies an error.\<close>

function retry_loop :: "bool \<Rightarrow> callback_config \<Rightarrow> attempt_env \<Rightarrow> loop_state \<Rightarrow> loop_state \<times> loop_end" where
  "retry_loop streaming cfg env s =
     (if ls_retry s > maxErrorRetries then (s, LoopOver)
      else
        let k = ls_attempts s; r = at_run env k (ls_messages s); s' = attempt_done cfg (fst r) s
        in case snd r of
             Inr answer \<Rightarrow> (s', LoopResult answer)
           | Inl err \<Rightarrow>
               if isRateLimitError err then
                 if ls_rate s + 1 > maxRateLimitRetries then (s', RateLimitExceeded err)
                 else case at_backoff_err env k of
                        Some e \<Rightarrow> (s', BackoffCancelled e)
                      | None \<Rightarrow> retry_loop streaming cfg env
                          (s'\<lparr>ls_rate := ls_rate s + 1, ls_waits := ls_waits s @ [rateLimitBackoff (ls_rate s)]\<rparr>)
               else case (if streaming then at_ctx_err env k else None) of
                 Some e \<Rightarrow> (s', LoopCancelled e)
               | None \<Rightarrow>
                   if \<not> isRecoverableAgentError err then (s', NotRecoverable err)
                   else if ls_retry s \<ge> maxErrorRetries then (s', RetriesExhausted err)
                   else retry_loop streaming cfg env
                     (s'\<lparr>ls_retry := ls_retry s + 1, ls_messages := ls_messages s @ [system_feedback (formatAgentErrorFeedback err)],
                         ls_callbacks := renew cfg (ls_callbacks s'), ls_jobs := []\<rparr>))"
  by pat_completeness auto
termination
  by (relation "measure (\<lambda>(_, _, _, s). (maxErrorRetries - ls_retry s) + (maxRateLimitRetries - ls_rate s))")
    (auto simp: attempt_done_def split: prod.splits)

declare retry_loop.simps [simp del]

definition start_loop :: "message list \<Rightarrow> handler_state \<Rightarrow> loop_state" where
  "start_loop ms h = \<lparr>ls_retry = 0, ls_rate = 0, ls_attempts = 0, ls_messages = ms, ls_waits = [], ls_callbacks = h, ls_jobs = []\<rparr>"

section \<open>Whole runs\<close>

text \<open>
  \<open>RunWithCallbacks\<close>: the answer goes out as an event of its own, past the emitter, before the usage of tokens.
  The messages afterwards are only logged.
\<close>

definition RunWithCallbacks :: "callback_config \<Rightarrow> attempt_env \<Rightarrow> (int \<Rightarrow> string option) \<Rightarrow> time \<Rightarrow> int \<Rightarrow> message list \<Rightarrow> string \<Rightarrow> loop_state \<times> loop_end" where
  "RunWithCallbacks cfg env st now contextTokens history input =
     (let (cfg, h) = NewBuilder cfg st;
          (s, e) = retry_loop False cfg env (start_loop (buildMessagesWithHistory history input) h)
      in case e of
           LoopResult answer \<Rightarrow>
             let h = ls_callbacks s;
                 h = (if answer \<noteq> [] \<and> cb_events cfg
                      then hand_on [OutEvent (new_event EventTypeAnswer now h answer None True)] h else h)
             in (s\<lparr>ls_callbacks := EmitTokenUsage cfg contextTokens h\<rparr>, e)
         | _ \<Rightarrow> (s, e))"

text \<open>How reading the stream ends; both the end of the file and a cancelled context leave the loop normally.\<close>

datatype read_end = ReadEof | ReadCancelled | ReadFailed go_error

text \<open>\<open>Stream\<close>: the calls of the callbacks while the stream is read come after the successful attempt.\<close>

definition Stream_end :: "callback_config \<Rightarrow> callback_step list \<Rightarrow> read_end \<Rightarrow> time \<Rightarrow> int \<Rightarrow> loop_state \<Rightarrow> loop_state \<times> go_error option" where
  "Stream_end cfg drain ended now contextTokens s =
     (let h = fst (cb_runs cfg drain (ls_callbacks s, ls_jobs s))
      in case ended of
           ReadFailed err \<Rightarrow> (s\<lparr>ls_callbacks := h\<rparr>, Some err)
         | _ \<Rightarrow> (s\<lparr>ls_callbacks := EmitTokenUsage cfg contextTokens (FinalizeAccumulatedText cfg now h)\<rparr>, None))"

definition loop_error :: "loop_end \<Rightarrow> go_error option" where
  "loop_error e =
     (case e of LoopResult _ \<Rightarrow> None | RateLimitExceeded err \<Rightarrow> Some err | BackoffCancelled err \<Rightarrow> Some err
      | LoopCancelled err \<Rightarrow> Some err | NotRecoverable err \<Rightarrow> Some err | RetriesExhausted err \<Rightarrow> Some err | LoopOver \<Rightarrow> None)"

definition agent_Stream :: "callback_config \<Rightarrow> attempt_env \<Rightarrow> (int \<Rightarrow> string option) \<Rightarrow> callback_step list \<Rightarrow> read_end \<Rightarrow> time \<Rightarrow> int \<Rightarrow> message list \<Rightarrow> string \<Rightarrow> loop_state \<times> go_error option" where
  "agent_Stream cfg env st drain ended now contextTokens history input =
     (let (cfg, h) = NewBuilder cfg st;
          (s, e) = retry_loop True cfg env (start_loop (buildMessagesWithHistory history input) h)
      in case e of
           LoopResult _ \<Rightarrow> Stream_end cfg drain ended now contextTokens s
         | _ \<Rightarrow> (s, loop_error e))"

section \<open>The retries are bounded\<close>

text \<open>Between two attempts; and at the end, where one attempt more was made than was counted.\<close>

definition retry_inv :: "message list \<Rightarrow> nat \<Rightarrow> loop_state \<Rightarrow> bool" where
  "retry_inv ms extra s \<longleftrightarrow> ls_retry s \<le> maxErrorRetries \<and> ls_rate s \<le> maxRateLimitRetries \<and>
     ls_attempts s = ls_retry s + ls_rate s + extra \<and> ls_waits s = map rateLimitBackoff [0..<ls_rate s] \<and>
     (\<exists>fs. length fs = ls_retry s \<and> ls_messages s = ms @ map system_feedback fs)"

lemma attempt_done_fields [simp]:
  "ls_retry (attempt_done cfg steps s) = ls_retry s" "ls_rate (attempt_done cfg steps s) = ls_rate s"
  "ls_attempts (attempt_done cfg steps s) = Suc (ls_attempts s)" "ls_waits (attempt_done cfg steps s) = ls_waits s"
  "ls_messages (attempt_done cfg steps s) = ls_messages s"
  by (simp_all add: attempt_done_def split: prod.split)

lemma attempt_done_inv: "retry_inv ms 0 s \<Longrightarrow> retry_inv ms 1 (attempt_done cfg steps s)"
  by (simp add: retry_inv_def)

lemma after_backoff_inv:
  assumes "retry_inv ms 0 s" and "ls_rate s + 1 \<le> maxRateLimitRetries"
  shows "retry_inv ms 0 ((attempt_done cfg steps s)\<lparr>ls_rate := ls_rate s + 1, ls_waits := ls_waits s @ [rateLimitBackoff (ls_rate s)]\<rparr>)"
  using assms by (simp add: retry_inv_def)

lemma after_feedback_inv:
  assumes "retry_inv ms 0 s" and "ls_retry s < maxErrorRetries"
  shows "retry_inv ms 0 ((attempt_done cfg steps s)\<lparr>ls_retry := ls_retry s + 1, ls_messages := ls_messages s @ [system_feedback f],
    ls_callbacks := h, ls_jobs := js\<rparr>)"
proof -
  obtain fs where "length fs = ls_retry s" "ls_messages s = ms @ map system_feedback fs"
    using assms(1) by (auto simp: retry_inv_def)
  then have "length (fs @ [f]) = ls_retry s + 1 \<and> ls_messages s @ [system_feedback f] = ms @ map system_feedback (fs @ [f])" by simp
  then show ?thesis using assms unfolding retry_inv_def by (intro conjI exI [of _ "fs @ [f]"]) simp_all
qed

lemma retry_loop_inv:
  "retry_inv ms 0 s \<Longrightarrow> retry_inv ms 1 (fst (retry_loop streaming cfg env s)) \<and> snd (retry_loop streaming cfg env s) \<noteq> LoopOver"
proof (induction streaming cfg env s rule: retry_loop.induct)
  case (1 streaming cfg env s)
  have le: "\<not> ls_retry s > maxErrorRetries" using 1(3) by (simp add: retry_inv_def)
  define steps where "steps = fst (at_run env (ls_attempts s) (ls_messages s))"
  have done_inv: "retry_inv ms 1 (attempt_done cfg steps s)" by (rule attempt_done_inv [OF 1(3)])
  show ?case
  proof (cases "snd (at_run env (ls_attempts s) (ls_messages s))")
    case (Inr answer)
    then show ?thesis using le done_inv by (simp add: retry_loop.simps [of _ _ _ s] Let_def steps_def)
  next
    case (Inl err)
    note run = Inl
    show ?thesis
    proof (cases "isRateLimitError err")
      case True
      show ?thesis
      proof (cases "ls_rate s + 1 > maxRateLimitRetries \<or> at_backoff_err env (ls_attempts s) \<noteq> None")
        case True
        then show ?thesis using le done_inv run \<open>isRateLimitError err\<close>
          by (auto simp: retry_loop.simps [of _ _ _ s] Let_def steps_def)
      next
        case False
        then have "retry_inv ms 0 ((attempt_done cfg steps s)\<lparr>ls_rate := ls_rate s + 1, ls_waits := ls_waits s @ [rateLimitBackoff (ls_rate s)]\<rparr>)"
          using after_backoff_inv [OF 1(3)] by simp
        from 1(1) [OF le refl refl refl run True _ _ this [unfolded steps_def]] show ?thesis
          using le run True False by (simp add: retry_loop.simps [of _ _ _ s] Let_def)
      qed
    next
      case False
      note not_rate = False
      show ?thesis
      proof (cases "(if streaming then at_ctx_err env (ls_attempts s) else None) = None \<and> isRecoverableAgentError err \<and> ls_retry s < maxErrorRetries")
        case True
        then have "retry_inv ms 0 ((attempt_done cfg steps s)\<lparr>ls_retry := ls_retry s + 1,
            ls_messages := ls_messages s @ [system_feedback (formatAgentErrorFeedback err)],
            ls_callbacks := renew cfg (ls_callbacks (attempt_done cfg steps s)), ls_jobs := []\<rparr>)"
          using after_feedback_inv [OF 1(3)] by simp
        from 1(2) [OF le refl refl refl run not_rate _ _ _ this [unfolded steps_def]] show ?thesis
          using le run not_rate True by (simp add: retry_loop.simps [of _ _ _ s] Let_def)
      next
        case False
        then show ?thesis using le done_inv run not_rate
          by (auto simp: retry_loop.simps [of _ _ _ s] Let_def steps_def split: option.split)
      qed
    qed
  qed
qed

lemma waits_sum: "k \<le> 5 \<Longrightarrow> sum_list (map rateLimitBackoff [0..<k]) \<le> 62 * second"
proof -
  assume "k \<le> 5"
  have "sum_list (map rateLimitBackoff [0..<k]) = (2 ^ k - 1) * 2 * second"
    by (induction k) (simp_all add: rateLimitBackoff_def algebra_simps)
  moreover have "(2::int) ^ k \<le> 2 ^ 5" using \<open>k \<le> 5\<close> by (intro power_increasing) auto
  ultimately show ?thesis by (simp add: second_def)
qed

lemma start_inv: "retry_inv ms 0 (start_loop ms h)"
  by (simp add: retry_inv_def start_loop_def)

definition within_bounds :: "message list \<Rightarrow> loop_state \<Rightarrow> bool" where
  "within_bounds ms s \<longleftrightarrow> ls_attempts s \<le> 8 \<and> sum_list (ls_waits s) \<le> 62 * second \<and>
     (\<exists>fs. length fs \<le> 2 \<and> ls_messages s = ms @ map system_feedback fs)"

lemma ended_within_bounds:
  assumes "retry_inv ms 1 s"
  shows "within_bounds ms s"
proof -
  obtain fs where "length fs = ls_retry s" "ls_messages s = ms @ map system_feedback fs"
    using assms by (auto simp: retry_inv_def)
  moreover have "ls_retry s \<le> 2" "ls_rate s \<le> 5" "ls_attempts s = ls_retry s + ls_rate s + 1"
      "ls_waits s = map rateLimitBackoff [0..<ls_rate s]"
    using assms by (simp_all add: retry_inv_def maxErrorRetries_def maxRateLimitRetries_def)
  ultimately show ?thesis
    using waits_sum [of "ls_rate s"] unfolding within_bounds_def by (intro conjI exI [of _ fs]) simp_all
qed

lemma within_bounds_callbacks [simp]: "within_bounds ms (s\<lparr>ls_callbacks := h\<rparr>) = within_bounds ms s"
  by (simp add: within_bounds_def)

lemma Stream_end_bounds: "within_bounds ms s \<Longrightarrow> within_bounds ms (fst (Stream_end cfg drain ended now n s))"
  by (cases ended) (simp_all add: Stream_end_def Let_def)

text \<open>C21: Whatever the framework does in each attempt, a run of the agent, streamed or not, makes at most eight attempts,
  waits at most 62 seconds in all for the rate limit, appends at most two messages of feedback to those of the
  history and the user, and always ends with the result or the error of an attempt or of a cancelled wait, never by
  the condition of the loop.\<close>

theorem agent_retries_bounded:
  "within_bounds (history @ [user_message input]) (fst (RunWithCallbacks cfg env st now n history input)) \<and>
   within_bounds (history @ [user_message input]) (fst (agent_Stream cfg env st drain ended now n history input)) \<and>
   snd (RunWithCallbacks cfg env st now n history input) \<noteq> LoopOver"
proof -
  obtain cfg' h where new: "NewBuilder cfg st = (cfg', h)" by fastforce
  let ?s0 = "start_loop (history @ [user_message input]) h"
  obtain s e where run: "retry_loop False cfg' env ?s0 = (s, e)" by fastforce
  obtain s2 e2 where stream: "retry_loop True cfg' env ?s0 = (s2, e2)" by fastforce
  have inv: "within_bounds (history @ [user_message input]) s" "within_bounds (history @ [user_message input]) s2" "e \<noteq> LoopOver"
    using retry_loop_inv [of "history @ [user_message input]" ?s0 False cfg' env, OF start_inv]
      retry_loop_inv [of "history @ [user_message input]" ?s0 True cfg' env, OF start_inv] run stream ended_within_bounds by auto
  have r: "within_bounds (history @ [user_message input]) (fst (RunWithCallbacks cfg env st now n history input)) \<and>
      snd (RunWithCallbacks cfg env st now n history input) \<noteq> LoopOver"
    using inv by (simp add: RunWithCallbacks_def new run buildMessagesWithHistory_def Let_def split: loop_end.split)
  have "within_bounds (history @ [user_message input]) (fst (agent_Stream cfg env st drain ended now n history input))"
    using inv by (simp add: agent_Stream_def new stream buildMessagesWithHistory_def Stream_end_bounds split: loop_end.split)
  then show ?thesis using r by blast
qed

section \<open>The text of a run\<close>

lemma attempt_done_texts:
  "texts_inv (ls_callbacks s) \<Longrightarrow> cb_events cfg \<Longrightarrow> texts_inv (ls_callbacks (attempt_done cfg steps s))"
  using cb_runs_inv [of "ls_callbacks s" cfg steps "ls_jobs s"]
  by (cases "cb_runs cfg steps (ls_callbacks s, ls_jobs s)") (simp add: attempt_done_def)

definition waited :: "loop_state \<Rightarrow> loop_state \<Rightarrow> loop_state" where
  "waited s d = d\<lparr>ls_rate := ls_rate s + 1, ls_waits := ls_waits s @ [rateLimitBackoff (ls_rate s)]\<rparr>"

definition fed_back :: "callback_config \<Rightarrow> string \<Rightarrow> loop_state \<Rightarrow> loop_state \<Rightarrow> loop_state" where
  "fed_back cfg f s d = d\<lparr>ls_retry := ls_retry s + 1, ls_messages := ls_messages s @ [system_feedback f],
     ls_callbacks := renew cfg (ls_callbacks d), ls_jobs := []\<rparr>"

text \<open>An attempt ends the loop, or it is followed by a wait or by feedback.\<close>

lemma retry_loop_step:
  assumes "\<not> ls_retry s > maxErrorRetries" and "d = attempt_done cfg (fst (at_run env (ls_attempts s) (ls_messages s))) s"
  shows "(\<exists>e. retry_loop streaming cfg env s = (d, e)) \<or>
    ls_rate s + 1 \<le> maxRateLimitRetries \<and> retry_loop streaming cfg env s = retry_loop streaming cfg env (waited s d) \<or>
    ls_retry s < maxErrorRetries \<and> (\<exists>f. retry_loop streaming cfg env s = retry_loop streaming cfg env (fed_back cfg f s d))"
  using assms
  by (cases "snd (at_run env (ls_attempts s) (ls_messages s))";
      cases "at_backoff_err env (ls_attempts s)"; cases "at_ctx_err env (ls_attempts s)")
    (auto simp: retry_loop.simps [of _ _ _ s] Let_def waited_def fed_back_def)

lemma retry_loop_cases_induct:
  assumes over: "\<And>s. P s (s, LoopOver)"
    and stop: "\<And>s steps e. P s (attempt_done cfg steps s, e)"
    and wait: "\<And>s steps r. P (waited s (attempt_done cfg steps s)) r \<Longrightarrow> P s r"
    and feed: "\<And>s steps f r. P (fed_back cfg f s (attempt_done cfg steps s)) r \<Longrightarrow> P s r"
  shows "P s (retry_loop streaming cfg env s)"
proof (induction "(maxErrorRetries - ls_retry s) + (maxRateLimitRetries - ls_rate s)" arbitrary: s rule: less_induct)
  case less
  let ?d = "attempt_done cfg (fst (at_run env (ls_attempts s) (ls_messages s))) s"
  show ?case
  proof (cases "ls_retry s > maxErrorRetries")
    case True
    then show ?thesis using over by (simp add: retry_loop.simps)
  next
    case False
    consider e where "retry_loop streaming cfg env s = (?d, e)"
      | "ls_rate s + 1 \<le> maxRateLimitRetries" "retry_loop streaming cfg env s = retry_loop streaming cfg env (waited s ?d)"
      | f where "ls_retry s < maxErrorRetries" "retry_loop streaming cfg env s = retry_loop streaming cfg env (fed_back cfg f s ?d)"
      using retry_loop_step [OF False refl] by blast
    then show ?thesis
    proof cases
      case 1
      then show ?thesis using stop by (simp only:)
    next
      case 2
      have "P (waited s ?d) (retry_loop streaming cfg env (waited s ?d))" using 2(1) by (intro less) (simp add: waited_def)
      from wait [OF this] show ?thesis by (simp only: 2(2))
    next
      case 3
      have "P (fed_back cfg f s ?d) (retry_loop streaming cfg env (fed_back cfg f s ?d))"
        using 3(1) by (intro less) (simp add: fed_back_def)
      from feed [OF this] show ?thesis by (simp only: 3(2))
    qed
  qed
qed

lemma retry_loop_retries: "ls_retry s \<le> ls_retry (fst (retry_loop streaming cfg env s))"
  by (rule retry_loop_cases_induct [where P = "\<lambda>s r. ls_retry s \<le> ls_retry (fst r)"]) (simp_all add: waited_def fed_back_def)

text \<open>Without a retry with feedback no streamed text gets lost between the attempts.\<close>

lemma retry_loop_texts:
  assumes "cb_events cfg" and "texts_inv (ls_callbacks s)" and "ls_retry (fst (retry_loop streaming cfg env s)) = 0"
  shows "texts_inv (ls_callbacks (fst (retry_loop streaming cfg env s)))"
proof -
  let ?P = "\<lambda>s r. ls_retry s \<le> ls_retry (fst r) \<and>
    (texts_inv (ls_callbacks s) \<longrightarrow> ls_retry (fst r) = 0 \<longrightarrow> texts_inv (ls_callbacks (fst r)))"
  have "?P s (retry_loop streaming cfg env s)"
  proof (rule retry_loop_cases_induct [where P = ?P])
    fix s :: loop_state and steps and r :: "loop_state \<times> loop_end"
    assume IH: "?P (waited s (attempt_done cfg steps s)) r"
    have "texts_inv (ls_callbacks s) \<Longrightarrow> texts_inv (ls_callbacks (waited s (attempt_done cfg steps s)))"
      using attempt_done_texts [OF _ assms(1), of s steps] by (simp add: waited_def)
    moreover have "ls_retry (waited s (attempt_done cfg steps s)) = ls_retry s" by (simp add: waited_def)
    ultimately show "?P s r" using IH by metis
  next
    fix s :: loop_state and steps f and r :: "loop_state \<times> loop_end"
    assume IH: "?P (fed_back cfg f s (attempt_done cfg steps s)) r"
    have "ls_retry (fed_back cfg f s (attempt_done cfg steps s)) = Suc (ls_retry s)" by (simp add: fed_back_def)
    then show "?P s r" using IH by simp
  next
    fix s :: loop_state and steps and e :: loop_end
    show "?P s (attempt_done cfg steps s, e)" using attempt_done_texts [OF _ assms(1), of s steps] by simp
  qed simp
  then show ?thesis using assms by blast
qed

lemma Stream_end_texts:
  assumes "cb_events cfg" and "texts_inv (ls_callbacks s)" and "Stream_end cfg drain ended now n s = (s', None)"
  shows "answer_text (hs_out (ls_callbacks s')) = chunk_text (hs_out (ls_callbacks s'))"
proof -
  let ?h = "fst (cb_runs cfg drain (ls_callbacks s, ls_jobs s))"
  let ?f = "FinalizeAccumulatedText cfg now ?h"
  have inv: "texts_inv ?h" by (rule cb_runs_inv [OF assms(2,1)])
  have "ls_callbacks s' = EmitTokenUsage cfg n ?f" using assms(3) by (cases ended) (auto simp: Stream_end_def Let_def)
  moreover have "texts_inv (EmitTokenUsage cfg n ?f)"
    by (rule same_texts_inv [OF tokens_same finalize_inv(1) [OF inv assms(1)]])
  moreover have "hs_chunks (EmitTokenUsage cfg n ?f) = []"
    using finalize_inv(2) [OF inv assms(1), of now] tokens_same [of ?f cfg n] by (simp add: same_texts_def)
  ultimately show ?thesis by (simp add: texts_inv_def)
qed

text \<open>A streamed run that returns without an error and needed no feedback, whatever waits for the rate limit it had,
  has handed on for the history exactly the text that it streamed to the client.\<close>

theorem stream_hands_on_its_text:
  assumes "cb_events cfg" and "agent_Stream cfg env st drain ended now n history input = (s, None)" and "ls_retry s = 0"
  shows "answer_text (hs_out (ls_callbacks s)) = chunk_text (hs_out (ls_callbacks s))"
proof -
  obtain cfg' h where new: "NewBuilder cfg st = (cfg', h)" by fastforce
  have cfg': "cb_events cfg'" and h: "texts_inv h" using assms(1) new NewBuilder_inv [of cfg st] by (auto simp: NewBuilder_def)
  let ?s0 = "start_loop (history @ [user_message input]) h"
  obtain s1 e where run: "retry_loop True cfg' env ?s0 = (s1, e)" by fastforce
  have inv: "e \<noteq> LoopOver"
    using retry_loop_inv [of "history @ [user_message input]" ?s0 True cfg' env, OF start_inv] run by auto
  have finish: "Stream_end cfg' drain ended now n s1 = (s, None)"
    using assms(2) inv by (cases e) (auto simp: agent_Stream_def new run buildMessagesWithHistory_def loop_error_def)
  then have "ls_retry s1 = 0" using assms(3) by (cases ended) (auto simp: Stream_end_def Let_def)
  then have "texts_inv (ls_callbacks s1)"
    using retry_loop_texts [OF cfg', of ?s0 True env] run h by (simp add: start_loop_def)
  then show ?thesis by (rule Stream_end_texts [OF cfg' _ finish])
qed

text \<open>An attempt that streams ''Hi there'' and then is read to its end.\<close>

definition one_attempt :: attempt_env where
  "one_attempt = \<lparr>at_run = (\<lambda>k ms. (sample_steps, Inr [])), at_ctx_err = (\<lambda>k. None), at_backoff_err = (\<lambda>k. None)\<rparr>"

text \<open>What the callbacks of the attempt leave, and what the end of the run makes of it.\<close>

definition sample_built :: callback_config where
  "sample_built = fst (NewBuilder sample_config Map.empty)"

definition sample_handler :: handler_state where
  "sample_handler = fst (cb_runs sample_built sample_steps (snd (NewBuilder sample_config Map.empty), []))"

lemmas sample_callback_defs = cb_runs_def sample_steps_def said_def sample_config_def NewBuilder_def stream_begins_def
  stream_frame_def stream_content_def stream_reasoning_def ExtractReasoning_def final_reasoning_def
  FinalizeAccumulatedText_def EmitTokenUsage_def Emit_def hand_on_def chunk_text_def answer_text_def new_event_def Let_def

lemma sample_builder: "NewBuilder sample_config Map.empty = (sample_built, snd (NewBuilder sample_config Map.empty))"
  by (simp add: sample_built_def)

lemma one_attempt_loop:
  "retry_loop True cfg one_attempt (start_loop ms h) = (attempt_done cfg sample_steps (start_loop ms h), LoopResult [])"
  by (subst retry_loop.simps) (simp add: start_loop_def one_attempt_def Let_def)

lemma sample_stream:
  "agent_Stream sample_config one_attempt Map.empty [] ended 6 0 [] ''Say hi'' =
     Stream_end sample_built [] ended 6 0
       (attempt_done sample_built sample_steps (start_loop [user_message ''Say hi''] (snd (NewBuilder sample_config Map.empty))))"
  unfolding agent_Stream_def by (subst sample_builder) (simp add: one_attempt_loop buildMessagesWithHistory_def)

lemma sample_attempt:
  "ls_callbacks (attempt_done sample_built sample_steps (start_loop ms (snd (NewBuilder sample_config Map.empty)))) = sample_handler"
  by (simp add: attempt_done_def start_loop_def sample_handler_def split: prod.split)

lemma sample_chunks: "chunk_text (hs_out sample_handler) = ''Hi there''" "answer_text (hs_out sample_handler) = []"
  by (simp_all add: sample_handler_def sample_built_def sample_callback_defs)

theorem stream_hands_on_its_text_witness:
  "\<exists>s. agent_Stream sample_config one_attempt Map.empty [] ReadEof 6 0 [] ''Say hi'' = (s, None) \<and> ls_attempts s = 1 \<and>
     answer_text (hs_out (ls_callbacks s)) = chunk_text (hs_out (ls_callbacks s))"
proof -
  obtain s e where s: "agent_Stream sample_config one_attempt Map.empty [] ReadEof 6 0 [] ''Say hi'' = (s, e)" by fastforce
  have "e = None" "ls_retry s = 0" "ls_attempts s = 1" using s by (auto simp: sample_stream Stream_end_def Let_def start_loop_def)
  moreover have "cb_events sample_config" by (simp add: sample_config_def)
  ultimately show ?thesis
    using stream_hands_on_its_text [of sample_config one_attempt Map.empty "[]" ReadEof 6 0 "[]" "''Say hi''" s] s by simp
qed

text \<open>A read that fails returns before the accumulated text is handed on: the client has it, the history has not.\<close>

lemma failed_read_loses_text:
  "\<exists>s. agent_Stream sample_config one_attempt Map.empty [] (ReadFailed err) 6 0 [] ''Say hi'' = (s, Some err) \<and>
     chunk_text (hs_out (ls_callbacks s)) = ''Hi there'' \<and> answer_text (hs_out (ls_callbacks s)) = []"
  by (simp add: sample_stream Stream_end_def Let_def cb_runs_def sample_attempt sample_chunks)

text \<open>The new builder of a retry with feedback forgets what the failed attempt had streamed and not handed on yet.\<close>

lemma feedback_forgets_text: "hs_chunks (ls_callbacks (fed_back cfg f s d)) = [] \<and> hs_out (ls_callbacks (fed_back cfg f s d)) = hs_out (ls_callbacks d)"
  by (simp add: fed_back_def renew_def NewBuilder_def)

section \<open>The answer of a run without streaming\<close>

text \<open>The final event of \<open>RunWithCallbacks\<close> carries no agent, whatever agent runs.\<close>

lemma answer_event_has_no_agent:
  assumes "NewBuilder cfg st = (cfg', h)" and "cb_events cfg'" and "answer \<noteq> []"
    and "retry_loop False cfg' env (start_loop (buildMessagesWithHistory history input) h) = (s, LoopResult answer)"
  shows "\<exists>e xs. hs_out (ls_callbacks (fst (RunWithCallbacks cfg env st now n history input))) =
      hs_out (ls_callbacks s) @ OutEvent e # xs \<and> ev_type e = EventTypeAnswer \<and> ev_content e = answer \<and> ev_agent_id e = []"
  using assms by (simp add: RunWithCallbacks_def Let_def EmitTokenUsage_def Emit_def hand_on_def new_event_def)

text \<open>
  Without streaming, the end of the last call of the model announces the answer as a chunk, and the run announces
  it once more.
\<close>

lemma model_end_announces_answer:
  assumes "cb_events cfg" and "mm_content msg \<noteq> []" and "mm_tool_calls msg = 0"
  shows "\<exists>e. last (hs_out (OnModelEnd cfg now (Some (usage, msg)) h)) = OutEvent e \<and>
    ev_type e = EventTypeAnswerChunk \<and> ev_content e = mm_content msg"
  using assms by (simp add: OnModelEnd_def Let_def Emit_out new_event_def)

section \<open>Repaired arguments\<close>

text \<open>Arguments that are valid already are kept; the repair gives valid arguments or the original ones.\<close>

lemma ToolArgumentsHandler_valid: "valid a \<Longrightarrow> ToolArgumentsHandler valid a = a"
  by (simp add: ToolArgumentsHandler_def)

lemma sanitize_valid_or_same:
  "valid (sanitizeToolArguments valid a) \<or> sanitizeToolArguments valid a = a"
proof (cases "filter valid (flat_objects (trim_space (strip_tags a)))")
  case Nil
  then show ?thesis by (simp add: sanitizeToolArguments_def Let_def)
next
  case (Cons m ms)
  then have "valid m" by (metis filter_eq_ConsD)
  then show ?thesis using Cons by (simp add: sanitizeToolArguments_def Let_def)
qed

end
