(* ===== verification/Message_Modifier.thy ===== *)
theory Message_Modifier
  imports Tool_History Agent_Loop "HOL-Library.Multiset"
begin

text \<open>
  What the model gets to see besides the conversation (\<open>agents/react/message_modifier.go\<close>): the system prompt with
  its notes, the texts recovered for the calls whose content the framework drops, the reminders by priority.
  Then the check of a stream for tool calls (\<open>agents/enhanced_stream_tool_call_checker.go\<close>) and the assembly of an
  agent from its configuration (\<open>NewAgent\<close> in \<open>agents/react/agent.go\<close>).

  The theory shows that nothing of the conversation is lost or reordered, which text a message is filled with, and
  where the reminders stand.
\<close>

section \<open>The system prompt\<close>

text \<open>
  The format of the urgency warning is the function that prints the number of steps, with none for an empty
  format; the store is absent for nil; a provider is what it answers for a session.
\<close>

record modifier =
  md_system_prompt :: string
  md_urgency :: "(int \<Rightarrow> string) option"
  md_max_steps :: int
  md_store :: "step_store option"
  md_providers :: "(string \<Rightarrow> (string \<times> int) option) list"
  md_session_id :: string
  md_tool_names :: "string list"
  md_step :: int

definition NewMessageModifier ::
    "string \<Rightarrow> (int \<Rightarrow> string) option \<Rightarrow> int \<Rightarrow> step_store option \<Rightarrow> (string \<Rightarrow> (string \<times> int) option) list \<Rightarrow> string \<Rightarrow> string list \<Rightarrow> modifier" where
  "NewMessageModifier prompt urgency maxSteps store providers sid names =
     \<lparr>md_system_prompt = prompt, md_urgency = urgency, md_max_steps = maxSteps, md_store = store, md_providers = providers,
      md_session_id = sid, md_tool_names = names, md_step = 0\<rparr>"

definition sanitizeForSystemPrompt :: "string \<Rightarrow> nat \<Rightarrow> string" where
  "sanitizeForSystemPrompt input maxLen =
     (let result = map (\<lambda>c. if c = CHR 0x0A \<or> c = CHR 0x0D then CHR '' '' else c) input
      in if length (runes result) > maxLen then concat (take maxLen (runes result)) @ ''...'' else result)"

definition tools_note :: "string list \<Rightarrow> string" where
  "tools_note names =
     (if names = [] then []
      else newline @ newline @ ''**Available tools:** '' @ str_join '', '' names @ newline @
        ''Only use these tools. Do not invent or call tools that are not listed.'')"

definition urgency_note :: "modifier \<Rightarrow> string" where
  "urgency_note m =
     (let remaining = md_max_steps m - md_step m
      in if md_max_steps m > 0 \<and> remaining \<le> 3 \<and> remaining > 0
         then (case md_urgency m of None \<Rightarrow> [] | Some f \<Rightarrow> f remaining) else [])"

definition user_question :: "message list \<Rightarrow> string" where
  "user_question input =
     (let qs = filter (\<lambda>x. ms_role x = User \<and> ms_content x \<noteq> []) input in if qs = [] then [] else ms_content (last qs))"

definition task_note :: "int \<Rightarrow> string \<Rightarrow> string" where
  "task_note step question =
     (if step \<ge> 2 \<and> question \<noteq> []
      then newline @ newline @ ''**CURRENT TASK (Step '' @ dec_int step @ ''):** Answer the user'' @ [CHR 0x27] @ ''s question: '' @
        [CHR 0x22] @ sanitizeForSystemPrompt question 500 @ [CHR 0x22] @ newline @ ''Do NOT get distracted - answer THIS question!''
      else [])"

definition current_prompt :: "modifier \<Rightarrow> message list \<Rightarrow> string" where
  "current_prompt m input =
     md_system_prompt m @ tools_note (md_tool_names m) @ urgency_note m @ task_note (md_step m) (user_question input)"

section \<open>Recovered texts and reminders\<close>

definition fill_one :: "step_store option \<Rightarrow> int \<Rightarrow> message \<Rightarrow> message" where
  "fill_one store k msg =
     (if ms_content msg = [] \<and> ms_tool_calls msg \<noteq> []
      then (case store of
              None \<Rightarrow> msg
            | Some st \<Rightarrow>
                (case st k of
                   None \<Rightarrow> msg
                 | Some content \<Rightarrow>
                     if content = [] then msg
                     else \<lparr>ms_role = ms_role msg, ms_content = content, ms_name = ms_name msg, ms_tool_calls = ms_tool_calls msg,
                            ms_tool_call_id = [], ms_tool_name = []\<rparr>))
      else msg)"

fun fill_messages :: "step_store option \<Rightarrow> int \<Rightarrow> message list \<Rightarrow> message list" where
  "fill_messages store k [] = []"
| "fill_messages store k (msg # ms) =
     (if ms_role msg = Assistant then fill_one store k msg # fill_messages store (k + 1) ms
      else msg # fill_messages store k ms)"

text \<open>The library sorts up to twelve elements by insertion, which keeps the order of equal priorities.\<close>

definition reminders_of :: "modifier \<Rightarrow> (string \<times> int) list" where
  "reminders_of m =
     (if md_providers m = [] \<or> md_session_id m = [] then []
      else sort_key snd (List.map_filter (\<lambda>p. p (md_session_id m)) (md_providers m)))"

definition reminder_messages :: "modifier \<Rightarrow> message list" where
  "reminder_messages m = map (\<lambda>r. system_feedback (fst r)) (reminders_of m)"

definition Modify :: "modifier \<Rightarrow> message list \<Rightarrow> message list \<times> modifier" where
  "Modify m input =
     (system_feedback (current_prompt m input) # fill_messages (md_store m) 0 input @ reminder_messages m,
      m\<lparr>md_step := md_step m + 1\<rparr>)"

definition ResetStep :: "modifier \<Rightarrow> modifier" where
  "ResetStep m = m\<lparr>md_step := 0\<rparr>"

section \<open>Tool calls in a stream\<close>

text \<open>The frames up to the first error; after the last one comes the end of the file.\<close>

fun stream_has_calls :: "(go_error + message option) list \<Rightarrow> go_error + bool" where
  "stream_has_calls [] = Inr False"
| "stream_has_calls (Inl err # fs) = Inl err"
| "stream_has_calls (Inr None # fs) = stream_has_calls fs"
| "stream_has_calls (Inr (Some msg) # fs) = (if ms_tool_calls msg \<noteq> [] then Inr True else stream_has_calls fs)"

definition NewEnhancedStreamToolCallChecker :: "(go_error + message option) list option \<Rightarrow> go_error + bool" where
  "NewEnhancedStreamToolCallChecker sr = (case sr of None \<Rightarrow> Inr False | Some frames \<Rightarrow> stream_has_calls frames)"

section \<open>The assembly of an agent\<close>

record prompts_config =
  pc_system :: string
  pc_urgency :: "(int \<Rightarrow> string) option"

record agent_settings =
  as_prompts :: "prompts_config option"
  as_max_context :: int
  as_max_turn :: int
  as_checker :: bool
  as_return_directly :: "string list"
  as_log_path :: string

text \<open>Whether there is a chat model; a tool is its name, if it has one to give.\<close>

record react_config =
  rc_model :: bool
  rc_tools :: "string option list"
  rc_max_steps :: int
  rc_session_id :: string
  rc_settings :: "agent_settings option"
  rc_history :: "message list"
  rc_providers :: "(string \<Rightarrow> (string \<times> int) option) list"
  rc_sequential :: bool
  rc_agent_id :: string
  rc_parent_id :: string
  rc_subtask_id :: string

datatype logger_choice = NoLogger | SupervisorLogger int | CodeAgentLogger string string string int

record react_agent =
  ra_max_steps :: int
  ra_tool_names :: "string list"
  ra_sequential :: bool
  ra_logger :: logger_choice
  ra_modifier :: "modifier option"
  ra_rewriter :: "(int \<times> int) option"
  ra_checker :: bool
  ra_return_directly :: "string list"
  ra_history :: "message list"
  ra_session_id :: string
  ra_agent_id :: string
  ra_max_turn :: int

definition agent_name :: "string \<Rightarrow> string" where
  "agent_name aid = (if aid = [] then ''supervisor'' else aid)"

definition agent_logger :: "react_config \<Rightarrow> logger_choice" where
  "agent_logger rc =
     (case rc_settings rc of
        None \<Rightarrow> NoLogger
      | Some st \<Rightarrow>
          if as_log_path st = [] \<or> rc_session_id rc = [] then NoLogger
          else let limit = (if as_max_context st \<le> 0 then 16000 else as_max_context st)
               in if rc_parent_id rc \<noteq> [] \<or> rc_subtask_id rc \<noteq> []
                  then CodeAgentLogger (agent_name (rc_agent_id rc)) (rc_parent_id rc) (rc_subtask_id rc) limit
                  else SupervisorLogger limit)"

definition effective_max_steps :: "react_config \<Rightarrow> int" where
  "effective_max_steps rc = (if rc_max_steps rc \<le> 0 then 10000 else rc_max_steps rc)"

definition tool_names_of :: "react_config \<Rightarrow> string list" where
  "tool_names_of rc = List.map_filter id (rc_tools rc)"

text \<open>A new store of texts; it is shared by the modifier and the callbacks.\<close>

definition agent_modifier :: "react_config \<Rightarrow> agent_settings \<Rightarrow> modifier option" where
  "agent_modifier rc st =
     (case as_prompts st of
        None \<Rightarrow> None
      | Some p \<Rightarrow>
          if pc_system p = [] then None
          else Some (NewMessageModifier (pc_system p) (pc_urgency p) (effective_max_steps rc) (Some Map.empty)
                 (rc_providers rc) (rc_session_id rc) (tool_names_of rc)))"

definition agent_rewriter :: "agent_settings \<Rightarrow> (int \<times> int) option" where
  "agent_rewriter st =
     (if as_max_context st > 0
      then Some (as_max_context st, case as_prompts st of None \<Rightarrow> 0 | Some p \<Rightarrow> int (length (pc_system p)) div 4)
      else None)"

text \<open>\<open>NewAgent\<close>; the answer of the framework's constructor is a parameter.\<close>

definition NewAgent :: "go_error option \<Rightarrow> react_config \<Rightarrow> go_error + react_agent" where
  "NewAgent framework_err rc =
     (if \<not> rc_model rc then Inl ''chat model is required''
      else case framework_err of
        Some err \<Rightarrow> Inl (''failed to create react agent: '' @ err)
      | None \<Rightarrow> Inr
          \<lparr>ra_max_steps = effective_max_steps rc, ra_tool_names = tool_names_of rc, ra_sequential = (rc_tools rc \<noteq> [] \<and> rc_sequential rc),
           ra_logger = agent_logger rc,
           ra_modifier = (case rc_settings rc of None \<Rightarrow> None | Some st \<Rightarrow> agent_modifier rc st),
           ra_rewriter = (case rc_settings rc of None \<Rightarrow> None | Some st \<Rightarrow> agent_rewriter st),
           ra_checker = (case rc_settings rc of None \<Rightarrow> False | Some st \<Rightarrow> as_checker st),
           ra_return_directly = (case rc_settings rc of None \<Rightarrow> [] | Some st \<Rightarrow> as_return_directly st),
           ra_history = rc_history rc, ra_session_id = rc_session_id rc, ra_agent_id = agent_name (rc_agent_id rc),
           ra_max_turn = (case rc_settings rc of None \<Rightarrow> 0 | Some st \<Rightarrow> as_max_turn st)\<rparr>)"

text \<open>What the rewriter reported last, with the estimate for the system prompt.\<close>

definition lastContextTokens :: "react_agent \<Rightarrow> int option \<Rightarrow> int" where
  "lastContextTokens a reported =
     (case (ra_rewriter a, reported) of (Some (_, promptTokens), Some n) \<Rightarrow> n + promptTokens | _ \<Rightarrow> 0)"

definition stream_timeout :: "react_agent \<Rightarrow> duration" where
  "stream_timeout a = (if ra_max_turn a > 0 then ra_max_turn a * second else 120 * second)"

section \<open>Nothing of the conversation is lost\<close>

definition same_but_content :: "message \<Rightarrow> message \<Rightarrow> bool" where
  "same_but_content a b \<longleftrightarrow> b = a \<or>
     ms_role a = Assistant \<and> ms_content a = [] \<and> ms_tool_calls a \<noteq> [] \<and>
     ms_role b = Assistant \<and> ms_tool_calls b = ms_tool_calls a \<and> ms_name b = ms_name a"

lemma fill_one_same: "ms_role msg = Assistant \<Longrightarrow> same_but_content msg (fill_one store k msg)"
  by (auto simp: fill_one_def same_but_content_def split: option.split)

lemma fill_messages_same: "list_all2 same_but_content ms (fill_messages store k ms)"
  by (induction store k ms rule: fill_messages.induct) (simp_all add: fill_one_same, simp add: same_but_content_def)

text \<open>The assistant messages are filled by their number, every other message is left alone.\<close>

lemma fill_messages_append:
  "fill_messages store k (xs @ ys) =
     fill_messages store k xs @ fill_messages store (k + int (length (filter (\<lambda>x. ms_role x = Assistant) xs))) ys"
  by (induction store k xs rule: fill_messages.induct) (auto simp: algebra_simps)

definition assistants :: "message list \<Rightarrow> nat" where
  "assistants ms = length (filter (\<lambda>x. ms_role x = Assistant) ms)"

lemma fill_at:
  assumes "ms_role msg = Assistant"
  shows "fill_messages store 0 (xs @ msg # ys) ! length xs = fill_one store (int (assistants xs)) msg"
proof -
  have "length (fill_messages store 0 xs) = length xs"
    using fill_messages_same [of xs store 0] by (simp add: list_all2_lengthD)
  then show ?thesis using assms by (simp add: fill_messages_append assistants_def nth_append)
qed

text \<open>What the modifier gives the model starts with one system message with the prompt, goes on with all messages of the
  conversation in their order, of which only assistant messages with tool calls and no text may get a text, and
  ends with the reminders of all providers that have one, as system messages in ascending order of priority; without
  a session there are no reminders.\<close>

theorem modifier_keeps_conversation:
  "hd (fst (Modify m input)) = system_feedback (current_prompt m input) \<and>
   list_all2 same_but_content input (take (length input) (tl (fst (Modify m input)))) \<and>
   drop (length input) (tl (fst (Modify m input))) = map (\<lambda>r. system_feedback (fst r)) (reminders_of m) \<and>
   sorted (map snd (reminders_of m)) \<and>
   mset (reminders_of m) = mset (if md_session_id m = [] then [] else List.map_filter (\<lambda>p. p (md_session_id m)) (md_providers m))"
proof -
  have "length (fill_messages (md_store m) 0 input) = length input"
    using fill_messages_same [of input "md_store m" 0] by (simp add: list_all2_lengthD)
  then show ?thesis using fill_messages_same [of input "md_store m" 0]
    by (simp add: Modify_def reminder_messages_def reminders_of_def map_filter_def)
qed

text \<open>The text of a call is found only if all assistant messages before it are those of earlier calls of the run.\<close>

lemma recovered_text:
  assumes "ms_role msg = Assistant" and "ms_content msg = []" and "ms_tool_calls msg \<noteq> []"
    and "st (int (assistants xs)) = Some content" and "content \<noteq> []"
  shows "ms_content (fill_messages (Some st) 0 (xs @ msg # ys) ! length xs) = content"
  using assms by (simp add: fill_at fill_one_def)

text \<open>
  The calls of a run are counted from 0, the assistant messages of the conversation from its beginning: an answer in
  the history shifts them, and the first call of a run stays without its text.
\<close>

lemma history_shifts_recovery:
  assumes "ms_role msg = Assistant" and "ms_role answer = Assistant" and "ms_role q = User" and "ms_role q2 = User"
    and "st = store_add 0 content Map.empty"
  shows "fill_messages (Some st) 0 [q, answer, q2, msg] ! 3 = msg"
  using assms fill_at [of msg "Some st" "[q, answer, q2]" "[]"]
  by (simp add: assistants_def fill_one_def store_add_def store_get_def numeral_3_eq_3)

section \<open>Order of the reminders\<close>

text \<open>The reminder about the safety of tool results comes last, after the history of tool calls.\<close>

lemma security_reminder_last:
  assumes "md_providers m = ps @ [security_GetContextReminder]" and "md_session_id m \<noteq> []"
    and "\<And>p c k. p \<in> set ps \<Longrightarrow> p (md_session_id m) = Some (c, k) \<Longrightarrow> k < 100"
  shows "ms_content (last (fst (Modify m input))) = securityReminder"
proof -
  define rs where "rs = List.map_filter (\<lambda>p. p (md_session_id m)) ps"
  have "\<forall>x \<in> set rs. snd x < 100"
    using assms(3) by (fastforce simp: map_filter_def rs_def)
  have "sort_key snd (rs @ [(securityReminder, 100)]) = sort_key snd rs @ [(securityReminder, 100)]"
  proof (rule properties_for_sort_key)
    show "mset (sort_key snd rs @ [(securityReminder, 100)]) = mset (rs @ [(securityReminder, 100)])" by simp
    show "filter (\<lambda>x. snd k = snd x) (sort_key snd rs @ [(securityReminder, 100)]) =
        filter (\<lambda>x. snd k = snd x) (rs @ [(securityReminder, 100)])" for k :: "string \<times> int"
    proof -
      have swap: "(\<lambda>x. snd k = snd x) = (\<lambda>x :: string \<times> int. snd x = snd k)" by auto
      show ?thesis unfolding swap filter_append sort_key_stable ..
    qed
    show "sorted (map snd (sort_key snd rs @ [(securityReminder, 100)]))"
      using \<open>\<forall>x \<in> set rs. snd x < 100\<close> by (auto simp: sorted_append less_imp_le)
  qed
  then show ?thesis
    using assms(1,2) by (simp add: Modify_def reminder_messages_def reminders_of_def security_GetContextReminder_def map_filter_def
        system_feedback_def rs_def)
qed

section \<open>Streams and limits\<close>

text \<open>A stream has tool calls exactly if a frame before its first error has one.\<close>

lemma stream_has_calls_iff:
  "stream_has_calls (map Inr fs) = Inr (\<exists>msg. Some msg \<in> set fs \<and> ms_tool_calls msg \<noteq> [])"
proof (induction fs)
  case (Cons f fs)
  then show ?case by (cases f) auto
qed simp

lemma agent_limits:
  assumes "NewAgent None rc = Inr a"
  shows "ra_max_steps a > 0" and "stream_timeout a > 0"
  using assms by (auto simp: NewAgent_def effective_max_steps_def stream_timeout_def second_def split: if_splits)

end
