(* ===== verification/Turn_Engine.thy ===== *)
theory Turn_Engine
  imports Message_Collector
begin

text \<open>
  One turn of an agent with its persistence: the flow and the snapshot of a context (\<open>internal/domain/flow.go\<close>,
  \<open>agent_context_snapshot.go\<close>), the table of snapshots (\<open>persistence/repository/agent_context_repository.go\<close> with its
  adapter), the engine that resumes, runs and saves (\<open>internal/service/engine/engine.go\<close>) and the adapter that the
  orchestrator calls (\<open>internal/service/turnexecutor/engine_adapter.go\<close>).

  The theory composes the agent, its callbacks and the collector, and shows that the next turn resumes the whole
  conversation.
\<close>

section \<open>Flows\<close>

text \<open>The optional numbers of the model are passed through as they are printed.\<close>

record flow =
  fl_type :: string
  fl_name :: string
  fl_system_prompt :: string
  fl_tool_names :: "string list"
  fl_max_steps :: int
  fl_max_context :: int
  fl_max_turn :: int
  fl_tool_execution :: string
  fl_suspend_on :: "string list"
  fl_report_to :: string
  fl_allowed :: "string list"
  fl_max_concurrent :: int
  fl_mcp_servers :: "string list"
  fl_confirm_before :: "string list"
  fl_temperature :: "string option"
  fl_top_p :: "string option"
  fl_max_tokens :: "int option"
  fl_stop :: "string list"

definition flow_validate :: "flow \<Rightarrow> go_error option" where
  "flow_validate f =
     (if fl_type f = [] then Some ''flow type is required''
      else if fl_name f = [] then Some ''flow name is required''
      else if fl_system_prompt f = [] then Some ''system prompt is required''
      else if fl_max_steps f < 0 then Some ''max_steps must be non-negative (0 = unlimited)''
      else if fl_max_context f < 0 then Some ''max_context_size must be non-negative (0 = unlimited)''
      else None)"

definition CanSpawn :: "flow \<Rightarrow> string \<Rightarrow> bool" where
  "CanSpawn f flowType \<longleftrightarrow> flowType \<in> set (fl_allowed f)"

definition ShouldSuspendOn :: "flow \<Rightarrow> string \<Rightarrow> bool" where
  "ShouldSuspendOn f event \<longleftrightarrow> event \<in> set (fl_suspend_on f)"

section \<open>Snapshots\<close>

datatype context_status = AgentContextStatusActive | AgentContextStatusCompacted | AgentContextStatusExpired
  | AgentContextStatusOther string

fun context_status_valid :: "context_status \<Rightarrow> bool" where
  "context_status_valid (AgentContextStatusOther _) = False"
| "context_status_valid _ = True"

definition CurrentSchemaVersion :: int where
  "CurrentSchemaVersion = 1"

text \<open>A snapshot and its row have the same fields; the data is what the serializer makes of the messages.\<close>

record 'd context_snapshot =
  sn_id :: string
  sn_session :: string
  sn_agent :: string
  sn_schema_version :: int
  sn_data :: 'd
  sn_step :: int
  sn_tokens :: int
  sn_status :: context_status
  sn_created :: time
  sn_updated :: time

definition snapshot_validate :: "'d context_snapshot \<Rightarrow> go_error option" where
  "snapshot_validate s =
     (if sn_session s = [] then Some ''session_id is required''
      else if sn_agent s = [] then Some ''agent_id is required''
      else if sn_schema_version s \<le> 0 then Some ''schema_version must be positive''
      else if \<not> context_status_valid (sn_status s) then Some ''invalid status''
      else None)"

definition IsCompatible :: "'d context_snapshot \<Rightarrow> bool" where
  "IsCompatible s \<longleftrightarrow> sn_schema_version s = CurrentSchemaVersion"

definition MarkExpired :: "time \<Rightarrow> 'd context_snapshot \<Rightarrow> 'd context_snapshot" where
  "MarkExpired now s = s\<lparr>sn_status := AgentContextStatusExpired, sn_updated := now\<rparr>"

definition MarkCompacted :: "time \<Rightarrow> 'd context_snapshot \<Rightarrow> 'd context_snapshot" where
  "MarkCompacted now s = s\<lparr>sn_status := AgentContextStatusCompacted, sn_updated := now\<rparr>"

section \<open>The table of snapshots\<close>

text \<open>The errors of the database for the queries of one call.\<close>

record snapshot_faults =
  sf_find :: "go_error option"
  sf_write :: "go_error option"

definition of_agent :: "string \<Rightarrow> string \<Rightarrow> 'd context_snapshot \<Rightarrow> bool" where
  "of_agent sid agent r \<longleftrightarrow> sn_session r = sid \<and> sn_agent r = agent"

text \<open>\<open>First\<close> orders by the primary key; a row of this key gets the new columns.\<close>

definition active_row :: "string \<Rightarrow> string \<Rightarrow> 'd context_snapshot list \<Rightarrow> 'd context_snapshot option" where
  "active_row sid agent rows =
     (case sort_key sn_id (filter (\<lambda>r. of_agent sid agent r \<and> sn_status r = AgentContextStatusActive) rows) of
        [] \<Rightarrow> None | r # _ \<Rightarrow> Some r)"

definition update_columns :: "time \<Rightarrow> 'd context_snapshot \<Rightarrow> 'd context_snapshot \<Rightarrow> 'd context_snapshot" where
  "update_columns now s r =
     r\<lparr>sn_data := sn_data s, sn_step := sn_step s, sn_tokens := sn_tokens s, sn_status := sn_status s, sn_updated := now,
       sn_schema_version := sn_schema_version s\<rparr>"

definition snapshot_Save :: "snapshot_faults \<Rightarrow> string \<Rightarrow> time \<Rightarrow> 'd context_snapshot \<Rightarrow> 'd context_snapshot list \<Rightarrow> go_error option \<times> 'd context_snapshot list" where
  "snapshot_Save fl uuid now s rows =
     (case sf_find fl of
        Some err \<Rightarrow> (Some (''find active snapshot: '' @ err), rows)
      | None \<Rightarrow>
          (case active_row (sn_session s) (sn_agent s) rows of
             Some existing \<Rightarrow>
               (case sf_write fl of
                  Some err \<Rightarrow> (Some (''update agent context snapshot: '' @ err), rows)
                | None \<Rightarrow> (None, map (\<lambda>r. if sn_id r = sn_id existing then update_columns now s r else r) rows))
           | None \<Rightarrow>
               (case sf_write fl of
                  Some err \<Rightarrow> (Some (''save agent context snapshot: '' @ err), rows)
                | None \<Rightarrow> (None, rows @ [s\<lparr>sn_id := (if sn_id s = [] then uuid else sn_id s), sn_updated := now,
                     sn_created := (if is_zero (sn_created s) then now else sn_created s)\<rparr>]))))"

definition snapshot_Load :: "go_error option \<Rightarrow> string \<Rightarrow> string \<Rightarrow> 'd context_snapshot list \<Rightarrow> go_error + 'd context_snapshot option" where
  "snapshot_Load fault sid agent rows =
     (case fault of
        Some err \<Rightarrow> Inl (''load agent context snapshot: '' @ err)
      | None \<Rightarrow> Inr (case sort_key (\<lambda>r. - sn_updated r) (sort_key sn_id (filter (of_agent sid agent) rows)) of
          [] \<Rightarrow> None | r # _ \<Rightarrow> Some r))"

definition snapshot_Delete :: "go_error option \<Rightarrow> string \<Rightarrow> string \<Rightarrow> 'd context_snapshot list \<Rightarrow> go_error option \<times> 'd context_snapshot list" where
  "snapshot_Delete fault sid agent rows =
     (case fault of
        Some err \<Rightarrow> (Some (''delete agent context snapshot: '' @ err), rows)
      | None \<Rightarrow> (None, filter (\<lambda>r. \<not> of_agent sid agent r) rows))"

definition FindActive :: "go_error option \<Rightarrow> 'd context_snapshot list \<Rightarrow> go_error + 'd context_snapshot list" where
  "FindActive fault rows =
     (case fault of
        Some err \<Rightarrow> Inl (''find active snapshots: '' @ err)
      | None \<Rightarrow> Inr (filter (\<lambda>r. sn_status r = AgentContextStatusActive) rows))"

text \<open>\<open>RecoverInterrupted\<close>: an error of one row is only logged; the faults of its saves are given by position.\<close>

fun recover_rows :: "(nat \<Rightarrow> snapshot_faults) \<Rightarrow> nat \<Rightarrow> time \<Rightarrow> 'd context_snapshot list \<Rightarrow> 'd context_snapshot list \<Rightarrow> 'd context_snapshot list" where
  "recover_rows fl k now [] rows = rows"
| "recover_rows fl k now (s # ss) rows = recover_rows fl (Suc k) now ss (snd (snapshot_Save (fl k) (sn_id s) now (MarkExpired now s) rows))"

definition RecoverInterrupted :: "go_error option \<Rightarrow> (nat \<Rightarrow> snapshot_faults) \<Rightarrow> time \<Rightarrow> 'd context_snapshot list \<Rightarrow> go_error option \<times> 'd context_snapshot list" where
  "RecoverInterrupted fault fl now rows =
     (case FindActive fault rows of
        Inl err \<Rightarrow> (Some (''find active snapshots: '' @ err), rows)
      | Inr active \<Rightarrow> (None, recover_rows fl 0 now active rows))"

section \<open>A saved snapshot is the one that is loaded\<close>

lemma sort_key_hd:
  assumes "xs \<noteq> []"
  shows "hd (sort_key f xs) \<in> set xs" and "y \<in> set xs \<Longrightarrow> f (hd (sort_key f xs)) \<le> f y"
proof -
  obtain z zs where s: "sort_key f xs = z # zs" using assms by (metis list.exhaust set_empty set_sort)
  then show "hd (sort_key f xs) \<in> set xs" by (metis list.sel(1) list.set_intros(1) set_sort)
  have "sorted (map f (z # zs))" using s by (metis sorted_sort_key)
  moreover assume "y \<in> set xs"
  then have "y \<in> set (z # zs)" using s by (metis set_sort)
  ultimately show "f (hd (sort_key f xs)) \<le> f y" using s by auto
qed

lemma active_row_Some:
  assumes "active_row sid agent rows = Some r"
  shows "r \<in> set rows" and "of_agent sid agent r"
proof -
  let ?L = "filter (\<lambda>r. of_agent sid agent r \<and> sn_status r = AgentContextStatusActive) rows"
  obtain rs where "sort_key sn_id ?L = r # rs" using assms by (auto simp: active_row_def split: list.splits)
  then have "r \<in> set (sort_key sn_id ?L)" by simp
  then show "r \<in> set rows" "of_agent sid agent r" unfolding set_sort by simp_all
qed

text \<open>The row that is loaded is the newest one of the agent.\<close>

lemma Load_newest:
  assumes "\<exists>r \<in> set rows. of_agent sid agent r"
  shows "\<exists>r. snapshot_Load None sid agent rows = Inr (Some r) \<and> r \<in> set rows \<and> of_agent sid agent r \<and>
    (\<forall>r' \<in> set rows. of_agent sid agent r' \<longrightarrow> sn_updated r' \<le> sn_updated r)"
proof -
  let ?L = "sort_key sn_id (filter (of_agent sid agent) rows)"
  have "set ?L \<noteq> {}" using assms by auto
  then have "?L \<noteq> []" by (metis set_empty)
  then obtain r rs where s: "sort_key (\<lambda>r. - sn_updated r) ?L = r # rs" by (metis list.exhaust set_empty set_sort)
  have "r \<in> set ?L" "\<And>y. y \<in> set ?L \<Longrightarrow> - sn_updated r \<le> - sn_updated y"
    using sort_key_hd [OF \<open>?L \<noteq> []\<close>, where f = "\<lambda>r. - sn_updated r"] s by auto
  then show ?thesis using s by (auto simp: snapshot_Load_def)
qed

lemma Save_rows:
  assumes "snapshot_Save fl uuid now s rows = (None, rows')"
  shows "\<exists>r \<in> set rows'. of_agent (sn_session s) (sn_agent s) r \<and> sn_updated r = now"
    and "r \<in> set rows' \<Longrightarrow> r \<in> set rows \<or> sn_updated r = now \<and> sn_data r = sn_data s \<and> sn_schema_version r = sn_schema_version s \<and>
      sn_status r = sn_status s"
proof -
  have *: "(\<exists>r \<in> set rows'. of_agent (sn_session s) (sn_agent s) r \<and> sn_updated r = now) \<and>
    (\<forall>r \<in> set rows'. r \<in> set rows \<or> sn_updated r = now \<and> sn_data r = sn_data s \<and> sn_schema_version r = sn_schema_version s \<and>
      sn_status r = sn_status s)"
  proof (cases "active_row (sn_session s) (sn_agent s) rows")
    case None
    then show ?thesis using assms by (auto simp: snapshot_Save_def of_agent_def split: option.splits)
  next
    case (Some e)
    then have rows': "rows' = map (\<lambda>r. if sn_id r = sn_id e then update_columns now s r else r) rows"
      using assms by (auto simp: snapshot_Save_def split: option.splits)
    have "update_columns now s e \<in> set rows'" using active_row_Some(1) [OF Some] unfolding rows' by force
    moreover have "of_agent (sn_session s) (sn_agent s) (update_columns now s e)"
      using active_row_Some(2) [OF Some] by (simp add: of_agent_def update_columns_def)
    ultimately show ?thesis
      unfolding rows' by (auto simp: update_columns_def intro!: bexI [of _ "update_columns now s e"])
  qed
  show "\<exists>r \<in> set rows'. of_agent (sn_session s) (sn_agent s) r \<and> sn_updated r = now" using * by blast
  show "r \<in> set rows' \<Longrightarrow> r \<in> set rows \<or> sn_updated r = now \<and> sn_data r = sn_data s \<and> sn_schema_version r = sn_schema_version s \<and>
      sn_status r = sn_status s" using * by blast
qed

lemma Save_Load:
  assumes "snapshot_Save fl uuid now s rows = (None, rows')" and "\<forall>r \<in> set rows. sn_updated r < now"
  shows "\<exists>r. snapshot_Load None (sn_session s) (sn_agent s) rows' = Inr (Some r) \<and> sn_data r = sn_data s \<and>
    sn_schema_version r = sn_schema_version s \<and> sn_status r = sn_status s"
proof -
  obtain r where r: "snapshot_Load None (sn_session s) (sn_agent s) rows' = Inr (Some r)" "r \<in> set rows'"
      "\<forall>r' \<in> set rows'. of_agent (sn_session s) (sn_agent s) r' \<longrightarrow> sn_updated r' \<le> sn_updated r"
    using Load_newest [of rows' "sn_session s" "sn_agent s"] Save_rows(1) [OF assms(1)] by blast
  have "sn_updated r \<ge> now" using Save_rows(1) [OF assms(1)] r(3) by blast
  then show ?thesis using r Save_rows(2) [OF assms(1) r(2)] assms(2) by fastforce
qed

section \<open>The engine\<close>

datatype execution_status = StatusCompleted | StatusSuspended | StatusFailed

record execution_result =
  er_status :: execution_status
  er_answer :: string
  er_suspended_at :: string

record exec_config =
  ec_session :: string
  ec_agent :: string
  ec_flow :: "flow option"
  ec_tools :: "string option list"
  ec_input :: string
  ec_model :: bool
  ec_streaming :: bool
  ec_reminders :: "(string \<Rightarrow> (string \<times> int) option) list"
  ec_recorder :: bool
  ec_settings :: "agent_settings option"
  ec_parent :: string
  ec_subtask :: string
  ec_compressor :: "(message list \<Rightarrow> message list) option"

definition validateConfig :: "exec_config \<Rightarrow> go_error option" where
  "validateConfig cfg =
     (if ec_session cfg = [] then Some ''session_id is required''
      else if ec_agent cfg = [] then Some ''agent_id is required''
      else case ec_flow cfg of
        None \<Rightarrow> Some ''flow is required''
      | Some f \<Rightarrow>
          if \<not> ec_model cfg then Some ''chat_model is required''
          else map_option (\<lambda>e. ''invalid flow: '' @ e) (flow_validate f))"

definition buildEffectiveAgentConfig :: "flow \<Rightarrow> agent_settings option \<Rightarrow> agent_settings" where
  "buildEffectiveAgentConfig f settings =
     (case settings of
        None \<Rightarrow>
          \<lparr>as_prompts = Some \<lparr>pc_system = fl_system_prompt f, pc_urgency = None\<rparr>, as_max_context = fl_max_context f,
           as_max_turn = fl_max_turn f, as_checker = True, as_return_directly = [], as_log_path = []\<rparr>
      | Some st \<Rightarrow>
          let r = st\<lparr>as_checker := True\<rparr>;
              r = (if fl_max_context f > 0 then r\<lparr>as_max_context := fl_max_context f\<rparr> else r);
              r = (if fl_max_turn f > 0 then r\<lparr>as_max_turn := fl_max_turn f\<rparr> else r);
              own = (case as_prompts r of None \<Rightarrow> False | Some p \<Rightarrow> pc_system p \<noteq> [])
          in if fl_system_prompt f \<noteq> [] \<and> \<not> own
             then r\<lparr>as_prompts := Some (case as_prompts r of
                      None \<Rightarrow> \<lparr>pc_system = fl_system_prompt f, pc_urgency = None\<rparr>
                    | Some p \<Rightarrow> p\<lparr>pc_system := fl_system_prompt f\<rparr>)\<rparr>
             else r)"

text \<open>What the engine is given besides: the codec of messages, the repositories' answers, the framework in this turn.\<close>

record 'd turn_env =
  te_ser :: "message list \<Rightarrow> go_error + 'd"
  te_deser :: "'d \<Rightarrow> go_error + message list"
  te_load_fault :: "go_error option"
  te_save_faults :: snapshot_faults
  te_uuid :: string
  te_now :: time
  te_clock :: "nat \<Rightarrow> time"
  te_history :: history_repo
  te_json :: json_lib
  te_framework_err :: "go_error option"
  te_attempts :: attempt_env
  te_drain :: "callback_step list"
  te_read_end :: read_end
  te_context_tokens :: int
  te_step_callback :: "(int \<Rightarrow> go_error option) option"
  te_decode :: "string \<Rightarrow> string option"
  te_cancelled :: bool

text \<open>The messages a turn starts with; data that does not decode means a fresh start.\<close>

definition resume_messages :: "('d \<Rightarrow> go_error + message list) \<Rightarrow> 'd context_snapshot option \<Rightarrow> message list" where
  "resume_messages deser snapshot =
     (case snapshot of
        None \<Rightarrow> []
      | Some s \<Rightarrow> if IsCompatible s then (case deser (sn_data s) of Inl _ \<Rightarrow> [] | Inr ms \<Rightarrow> ms) else [])"

definition react_config_of :: "exec_config \<Rightarrow> flow \<Rightarrow> message list \<Rightarrow> react_config" where
  "react_config_of cfg f history =
     \<lparr>rc_model = ec_model cfg, rc_tools = ec_tools cfg, rc_max_steps = fl_max_steps f, rc_session_id = ec_session cfg,
      rc_settings = Some (buildEffectiveAgentConfig f (ec_settings cfg)), rc_history = history, rc_providers = ec_reminders cfg,
      rc_sequential = (fl_tool_execution f \<noteq> ''parallel''), rc_agent_id = ec_agent cfg, rc_parent_id = ec_parent cfg,
      rc_subtask_id = ec_subtask cfg\<rparr>"

text \<open>The callbacks of the agent; its step store is new, its event callback is the collector's.\<close>

definition agent_callbacks :: "'d turn_env \<Rightarrow> exec_config \<Rightarrow> react_agent \<Rightarrow> callback_config" where
  "agent_callbacks E cfg a =
     \<lparr>cb_events = True, cb_chunks = ec_streaming cfg, cb_store = True, cb_recorder = ec_recorder cfg, cb_session_id = ra_session_id a,
      cb_agent_id = ra_agent_id a, cb_step_callback = te_step_callback E, cb_decode = te_decode E\<rparr>"

definition run_agent :: "'d turn_env \<Rightarrow> exec_config \<Rightarrow> react_agent \<Rightarrow> callback_out list \<times> string \<times> go_error option" where
  "run_agent E cfg a =
     (if ec_streaming cfg
      then (case agent_Stream (agent_callbacks E cfg a) (te_attempts E) Map.empty (te_drain E) (te_read_end E) (te_now E)
              (te_context_tokens E) (ra_history a) (ec_input cfg) of
              (s, err) \<Rightarrow> (hs_out (ls_callbacks s), [], err))
      else (case RunWithCallbacks (agent_callbacks E cfg a) (te_attempts E) Map.empty (te_now E) (te_context_tokens E)
              (ra_history a) (ec_input cfg) of
              (s, e) \<Rightarrow> (hs_out (ls_callbacks s), case e of LoopResult answer \<Rightarrow> answer | _ \<Rightarrow> [], loop_error e)))"

definition out_events :: "callback_out list \<Rightarrow> agent_event list" where
  "out_events xs = List.map_filter (\<lambda>x. case x of OutEvent e \<Rightarrow> Some e | _ \<Rightarrow> None) xs"

definition stamped :: "(nat \<Rightarrow> time) \<Rightarrow> agent_event list \<Rightarrow> (time \<times> agent_event) list" where
  "stamped clock es = zip (map clock [0..<length es]) es"

definition execution_status_of :: "flow \<Rightarrow> bool \<Rightarrow> go_error option \<Rightarrow> execution_status \<times> string" where
  "execution_status_of f cancelled err =
     (case err of
        None \<Rightarrow> if ShouldSuspendOn f ''final_answer'' then (StatusSuspended, ''final_answer'') else (StatusCompleted, [])
      | Some _ \<Rightarrow> (if cancelled then StatusSuspended else StatusFailed, []))"

fun mapExecutionStatusToContextStatus :: "execution_status \<Rightarrow> context_status" where
  "mapExecutionStatusToContextStatus StatusCompleted = AgentContextStatusCompacted"
| "mapExecutionStatusToContextStatus StatusSuspended = AgentContextStatusExpired"
| "mapExecutionStatusToContextStatus StatusFailed = AgentContextStatusExpired"

definition fill_empty_call :: "message \<Rightarrow> message" where
  "fill_empty_call m = (if ms_role m = Assistant \<and> ms_content m = [] \<and> ms_tool_calls m \<noteq> [] then m\<lparr>ms_content := '' ''\<rparr> else m)"

definition compress_messages :: "(message list \<Rightarrow> message list) option \<Rightarrow> message list \<Rightarrow> message list" where
  "compress_messages compressor ms = (case compressor of None \<Rightarrow> ms | Some c \<Rightarrow> if ms = [] then ms else c ms)"

definition saveSnapshot :: "'d turn_env \<Rightarrow> exec_config \<Rightarrow> collector \<Rightarrow> message list \<Rightarrow> execution_status \<Rightarrow> 'd context_snapshot list \<Rightarrow> go_error option \<times> 'd context_snapshot list" where
  "saveSnapshot E cfg mc history status rows =
     (case te_ser E (compress_messages (ec_compressor cfg) (map fill_empty_call (history @ mc_messages mc))) of
        Inl err \<Rightarrow> (Some (''serialize messages: '' @ err), rows)
      | Inr d \<Rightarrow>
          let s = \<lparr>sn_id = [], sn_session = ec_session cfg, sn_agent = ec_agent cfg, sn_schema_version = CurrentSchemaVersion,
                   sn_data = d, sn_step = mc_step mc, sn_tokens = 0, sn_status = mapExecutionStatusToContextStatus status,
                   sn_created = zero_time, sn_updated = zero_time\<rparr>
          in case snapshot_validate s of
               Some err \<Rightarrow> (Some (''invalid snapshot: '' @ err), rows)
             | None \<Rightarrow>
                 (case snapshot_Save (te_save_faults E) (te_uuid E) (te_now E) s rows of
                    (Some err, rows') \<Rightarrow> (Some (''save snapshot: '' @ err), rows')
                  | (None, rows') \<Rightarrow> (None, rows')))"

text \<open>What a run leaves: the result with its error, the table, the collector and everything handed to the caller.\<close>

record 'd turn_outcome =
  to_result :: "execution_result option"
  to_error :: "go_error option"
  to_rows :: "'d context_snapshot list"
  to_collector :: "collector option"
  to_out :: "callback_out list"

definition turn_refused :: "go_error \<Rightarrow> 'd context_snapshot list \<Rightarrow> 'd turn_outcome" where
  "turn_refused err rows = \<lparr>to_result = None, to_error = Some err, to_rows = rows, to_collector = None, to_out = []\<rparr>"

definition engine_Execute :: "'d turn_env \<Rightarrow> exec_config \<Rightarrow> 'd context_snapshot list \<Rightarrow> 'd turn_outcome" where
  "engine_Execute E cfg rows =
     (case (validateConfig cfg, ec_flow cfg) of
        (Some err, _) \<Rightarrow> turn_refused (''validate config: '' @ err) rows
      | (None, None) \<Rightarrow> turn_refused ''validate config: flow is required'' rows
      | (None, Some f) \<Rightarrow>
          (case snapshot_Load (te_load_fault E) (ec_session cfg) (ec_agent cfg) rows of
             Inl err \<Rightarrow> turn_refused (''load snapshot: '' @ err) rows
           | Inr snap \<Rightarrow>
               let history = resume_messages (te_deser E) snap;
                   mc = CollectUserMessage (te_history E) (te_now E) (ec_input cfg) (NewMessageCollector (ec_session cfg) (ec_agent cfg))
               in case NewAgent (te_framework_err E) (react_config_of cfg f history) of
                    Inl err \<Rightarrow> (turn_refused (''create agent: '' @ err) rows)\<lparr>to_collector := Some mc\<rparr>
                  | Inr a \<Rightarrow>
                      let (out, answer, err) = run_agent E cfg a;
                          mc = collect_all (te_json E) (te_history E) (stamped (te_clock E) (out_events out)) mc;
                          (status, suspended) = execution_status_of f (te_cancelled E) err;
                          (save_err, rows') = saveSnapshot E cfg mc history status rows
                      in \<lparr>to_result = Some \<lparr>er_status = status, er_answer = answer, er_suspended_at = suspended\<rparr>,
                          to_error = err, to_rows = rows', to_collector = Some mc, to_out = out\<rparr>))"

section \<open>The adapter of the orchestrator\<close>

record tool_dependencies =
  td_agent_name :: string
  td_mcp_servers :: "string list"
  td_schema_id :: string
  td_confirm_before :: "string list"
  td_confirm_requester :: bool
  td_can_spawn :: "string list"

text \<open>
  The flow provider, the resolver of tools and the engine are interfaces; whether the session has a requester of
  confirmations is what the dependencies' proxy says.
\<close>

record 'd engine_adapter =
  ea_flow :: "string \<Rightarrow> go_error + flow"
  ea_resolve :: "string list \<Rightarrow> tool_dependencies \<Rightarrow> go_error + string option list"
  ea_proxy_confirms :: "string \<Rightarrow> bool"
  ea_compressor :: "int \<Rightarrow> message list \<Rightarrow> message list"
  ea_settings :: "agent_settings option"
  ea_agent_name :: string
  ea_agent_uuid :: string
  ea_reminders :: "(string \<Rightarrow> (string \<times> int) option) list"
  ea_recorder :: bool
  ea_schema_id :: string
  ea_has_events :: bool
  ea_env :: "'d turn_env"

definition NewEngineAdapter :: "bool \<Rightarrow> bool \<Rightarrow> bool \<Rightarrow> bool \<Rightarrow> bool \<Rightarrow> 'a \<Rightarrow> go_error + 'a" where
  "NewEngineAdapter engine flowProvider toolResolver toolDeps chatModel adapter =
     (if \<not> engine then Inl ''engine is required''
      else if \<not> flowProvider then Inl ''flow provider is required''
      else if \<not> toolResolver then Inl ''tool resolver is required''
      else if \<not> toolDeps then Inl ''tool dependencies provider is required''
      else if \<not> chatModel then Inl ''chat model is required''
      else Inr adapter)"

definition turn_dependencies :: "'d engine_adapter \<Rightarrow> flow \<Rightarrow> string \<Rightarrow> tool_dependencies" where
  "turn_dependencies A f sid =
     \<lparr>td_agent_name = fl_name f, td_mcp_servers = fl_mcp_servers f, td_schema_id = ea_schema_id A,
      td_confirm_before = fl_confirm_before f, td_confirm_requester = ea_proxy_confirms A sid, td_can_spawn = fl_allowed f\<rparr>"

definition turn_config :: "'d engine_adapter \<Rightarrow> flow \<Rightarrow> string option list \<Rightarrow> string \<Rightarrow> string \<Rightarrow> exec_config" where
  "turn_config A f tools sid question =
     \<lparr>ec_session = sid, ec_agent = ea_agent_uuid A, ec_flow = Some f, ec_tools = tools, ec_input = question, ec_model = True,
      ec_streaming = True, ec_reminders = ea_reminders A, ec_recorder = ea_recorder A, ec_settings = ea_settings A,
      ec_parent = [], ec_subtask = [],
      ec_compressor = (if fl_max_context f > 0 then Some (ea_compressor A (fl_max_context f)) else None)\<rparr>"

text \<open>The event that tells the client that the turn is over.\<close>

definition turn_over :: "time \<Rightarrow> string \<Rightarrow> string \<Rightarrow> agent_event" where
  "turn_over now agent answer =
     \<lparr>ev_type = EventTypeAnswer, ev_schema_version = [], ev_event_id = [], ev_timestamp = now, ev_step = 0, ev_content = answer,
      ev_metadata = None, ev_is_complete = True, ev_error = None, ev_agent_id = agent\<rparr>"

text \<open>\<open>ExecuteTurn\<close>: the error, what was handed to the caller, and the table.\<close>

definition ExecuteTurn :: "'d engine_adapter \<Rightarrow> string \<Rightarrow> string \<Rightarrow> 'd context_snapshot list \<Rightarrow> go_error option \<times> callback_out list \<times> 'd context_snapshot list" where
  "ExecuteTurn A sid question rows =
     (case ea_flow A (ea_agent_name A) of
        Inl err \<Rightarrow> (Some (''get flow '' @ go_quote (ea_agent_name A) @ '': '' @ err), [], rows)
      | Inr f \<Rightarrow>
          (case ea_resolve A (fl_tool_names f) (turn_dependencies A f sid) of
             Inl err \<Rightarrow> (Some (''resolve tools: '' @ err), [], rows)
           | Inr tools \<Rightarrow>
               let o' = engine_Execute (ea_env A) (turn_config A f tools sid question) rows
               in case to_error o' of
                    Some err \<Rightarrow> (Some (''execute engine: '' @ err), to_out o', to_rows o')
                  | None \<Rightarrow>
                      (None,
                       to_out o' @ (if ea_has_events A
                         then [OutEvent (turn_over (te_now (ea_env A)) (ea_agent_name A) (case to_result o' of None \<Rightarrow> [] | Some r \<Rightarrow> er_answer r))]
                         else []),
                       to_rows o')))"

section \<open>The next turn resumes the conversation\<close>

definition loaded_messages :: "('d \<Rightarrow> go_error + message list) \<Rightarrow> string \<Rightarrow> string \<Rightarrow> 'd context_snapshot list \<Rightarrow> message list" where
  "loaded_messages deser sid agent rows =
     (case snapshot_Load None sid agent rows of Inl _ \<Rightarrow> [] | Inr s \<Rightarrow> resume_messages deser s)"

text \<open>The collector only appends.\<close>

definition extends :: "collector \<Rightarrow> collector \<Rightarrow> bool" where
  "extends mc mc' \<longleftrightarrow> (\<exists>ns. mc_messages mc' = mc_messages mc @ ns)"

lemma extends_simps [simp]:
  "extends mc mc" "extends mc (save_row repo r mc') = extends mc mc'" "extends mc mc' \<Longrightarrow> extends mc (add_message m mc')"
  "extends mc (mc'\<lparr>mc_answer := a\<rparr>) = extends mc mc'" "extends mc (mc'\<lparr>mc_pending := p\<rparr>) = extends mc mc'"
  "extends mc (mc'\<lparr>mc_step := k\<rparr>) = extends mc mc'"
  by (auto simp: extends_def)

lemma handlers_extend:
  "extends mc (handleToolCall jl repo now e mc)" "extends mc (handleToolResult repo now e mc)"
  "extends mc (handleAnswer repo now e mc)" "extends mc (handleReasoning repo now e mc)"
  by (simp_all add: handleToolCall_def handleToolResult_def handleAnswer_def handleReasoning_def Let_def
      split: sum.split option.split prod.split)

lemma collect_appends: "\<exists>ns. mc_messages (collect jl repo now e mc) = mc_messages mc @ ns"
proof -
  have "extends mc (collect jl repo now e mc)"
    by (simp add: collect_def handlers_extend split: agent_event_type.split)
  then show ?thesis by (simp add: extends_def)
qed

lemma collect_all_appends: "\<exists>ns. mc_messages (collect_all jl repo es mc) = mc_messages mc @ ns"
proof (induction es arbitrary: mc)
  case Nil
  show ?case by (simp add: collect_all_def)
next
  case (Cons x es)
  obtain now e where x: "x = (now, e)" by fastforce
  obtain ns where "mc_messages (collect jl repo now e mc) = mc_messages mc @ ns" using collect_appends by blast
  moreover obtain ms where "mc_messages (collect_all jl repo es (collect jl repo now e mc)) = mc_messages (collect jl repo now e mc) @ ms"
    using Cons by blast
  ultimately show ?case by (simp add: collect_all_def x)
qed

lemma first_message: "content \<noteq> [] \<Longrightarrow> mc_messages (CollectUserMessage repo now content (NewMessageCollector sid agent)) = [user_message content]"
  by (auto simp: CollectUserMessage_def NewMessageCollector_def Let_def split: sum.split)

lemma Save_without_faults: "\<exists>rows'. snapshot_Save \<lparr>sf_find = None, sf_write = None\<rparr> uuid now s rows = (None, rows')"
  by (cases "active_row (sn_session s) (sn_agent s) rows") (simp_all add: snapshot_Save_def)

lemma saveSnapshot_saves:
  assumes "te_ser E (compress_messages (ec_compressor cfg) (map fill_empty_call (history @ mc_messages mc))) = Inr d"
    and "te_save_faults E = \<lparr>sf_find = None, sf_write = None\<rparr>" and "ec_session cfg \<noteq> []" and "ec_agent cfg \<noteq> []"
    and "\<forall>r \<in> set rows. sn_updated r < te_now E" and "saveSnapshot E cfg mc history status rows = (err, rows')"
  shows "\<exists>r. snapshot_Load None (ec_session cfg) (ec_agent cfg) rows' = Inr (Some r) \<and> sn_data r = d \<and> IsCompatible r"
proof -
  let ?s = "\<lparr>sn_id = [], sn_session = ec_session cfg, sn_agent = ec_agent cfg, sn_schema_version = CurrentSchemaVersion,
    sn_data = d, sn_step = mc_step mc, sn_tokens = 0, sn_status = mapExecutionStatusToContextStatus status,
    sn_created = zero_time, sn_updated = zero_time\<rparr>"
  have "snapshot_validate ?s = None"
    using assms(3,4) by (cases status) (simp_all add: snapshot_validate_def CurrentSchemaVersion_def)
  moreover obtain rows1 where save: "snapshot_Save (te_save_faults E) (te_uuid E) (te_now E) ?s rows = (None, rows1)"
    using Save_without_faults [of "te_uuid E" "te_now E" ?s rows] assms(2) by auto
  ultimately have "rows' = rows1" using assms(1,6) by (simp add: saveSnapshot_def Let_def)
  then show ?thesis using Save_Load [OF save assms(5)] by (auto simp: IsCompatible_def)
qed

lemma validConfig_fields:
  assumes "validateConfig cfg = None"
  shows "ec_session cfg \<noteq> []" and "ec_agent cfg \<noteq> []" and "\<exists>f. ec_flow cfg = Some f" and "ec_model cfg"
  using assms by (auto simp: validateConfig_def split: if_splits option.splits)


text \<open>A turn over an empty table, with the messages themselves as the data of a snapshot.\<close>

definition sample_flow :: flow where
  "sample_flow = \<lparr>fl_type = ''agent'', fl_name = ''helper'', fl_system_prompt = ''Be kind.'', fl_tool_names = [], fl_max_steps = 0,
     fl_max_context = 0, fl_max_turn = 0, fl_tool_execution = ''sequential'', fl_suspend_on = [], fl_report_to = [], fl_allowed = [],
     fl_max_concurrent = 0, fl_mcp_servers = [], fl_confirm_before = [], fl_temperature = None, fl_top_p = None, fl_max_tokens = None,
     fl_stop = []\<rparr>"

definition sample_exec :: exec_config where
  "sample_exec = \<lparr>ec_session = ''s'', ec_agent = ''a'', ec_flow = Some sample_flow, ec_tools = [], ec_input = ''Say hi'', ec_model = True,
     ec_streaming = True, ec_reminders = [], ec_recorder = False, ec_settings = None, ec_parent = [], ec_subtask = [],
     ec_compressor = None\<rparr>"

definition sample_env :: "read_end \<Rightarrow> message list turn_env" where
  "sample_env ended = \<lparr>te_ser = Inr, te_deser = Inr, te_load_fault = None, te_save_faults = \<lparr>sf_find = None, sf_write = None\<rparr>,
     te_uuid = ''u'', te_now = 5, te_clock = int, te_history = Some (\<lambda>_. True), te_json = no_json, te_framework_err = None,
     te_attempts = one_attempt, te_drain = [], te_read_end = ended, te_context_tokens = 0, te_step_callback = None,
     te_decode = (\<lambda>_. None), te_cancelled = False\<rparr>"


section \<open>A cancelled stream\<close>

text \<open>
  A stream that the client has cancelled ends without an error (\<open>Agent.Stream\<close> leaves its loop normally), so the
  engine takes the turn for a completed one; the branch for a cancelled context needs an error.
\<close>

lemma cancelled_stream_counts_as_completed:
  assumes "ec_streaming cfg" and "te_read_end E = ReadCancelled" and "\<not> ShouldSuspendOn f ''final_answer''"
    and "NewBuilder (agent_callbacks E cfg a) Map.empty = (cb, h)"
    and "retry_loop True cb (te_attempts E) (start_loop (buildMessagesWithHistory (ra_history a) (ec_input cfg)) h) = (s, LoopResult x)"
    and "run_agent E cfg a = (out, answer, err)"
  shows "err = None \<and> execution_status_of f True err = (StatusCompleted, [])"
  using assms by (simp add: run_agent_def agent_Stream_def Stream_end_def execution_status_of_def Let_def)

section \<open>Recovery of interrupted turns\<close>

lemma MarkExpired_fields [simp]:
  "sn_session (MarkExpired now s) = sn_session s" "sn_agent (MarkExpired now s) = sn_agent s"
  "sn_status (MarkExpired now s) = AgentContextStatusExpired"
  by (simp_all add: MarkExpired_def)

lemma FindActive_only_active: "FindActive None rows = Inr rs \<Longrightarrow> r \<in> set rs \<Longrightarrow> sn_status r = AgentContextStatusActive"
  by (auto simp: FindActive_def)

text \<open>Saving an expired snapshot makes no row active.\<close>

lemma expire_keeps_inactive:
  assumes "r \<in> set (snd (snapshot_Save fl uuid now (MarkExpired t s) rows))" and "sn_status r = AgentContextStatusActive"
  shows "r \<in> set rows"
proof (cases "fst (snapshot_Save fl uuid now (MarkExpired t s) rows)")
  case None
  then have "snapshot_Save fl uuid now (MarkExpired t s) rows = (None, snd (snapshot_Save fl uuid now (MarkExpired t s) rows))"
    by (metis prod.collapse)
  from Save_rows(2) [OF this assms(1)] assms(2) show ?thesis by auto
next
  case (Some e)
  then have "snd (snapshot_Save fl uuid now (MarkExpired t s) rows) = rows"
    by (auto simp: snapshot_Save_def split: option.splits)
  then show ?thesis using assms(1) by simp
qed

end
