(* ===== verification/Domain_Errors.thy ===== *)
theory Domain_Errors
  imports Prelude
begin

text \<open>
  The errors of the program as values (\<open>pkg/errors/errors.go\<close>): a domain error has a code, a message and perhaps a
  cause, \<open>fmt.Errorf\<close> puts a text before the error it wraps, and everything else is opaque.  \<open>errors.As\<close> walks the chain
  of causes.

  The theory shows that the code of an error survives any number of wrappings, and that of two domain errors in one
  chain the outer one decides.
\<close>

definition CodeInternal :: string where "CodeInternal = ''INTERNAL_ERROR''"
definition CodeInvalidInput :: string where "CodeInvalidInput = ''INVALID_INPUT''"
definition CodeNotFound :: string where "CodeNotFound = ''NOT_FOUND''"
definition CodeAlreadyExists :: string where "CodeAlreadyExists = ''ALREADY_EXISTS''"
definition CodeUnauthorized :: string where "CodeUnauthorized = ''UNAUTHORIZED''"
definition CodeForbidden :: string where "CodeForbidden = ''FORBIDDEN''"
definition CodeTimeout :: string where "CodeTimeout = ''TIMEOUT''"
definition CodeUnavailable :: string where "CodeUnavailable = ''UNAVAILABLE''"
definition CodePermissionDenied :: string where "CodePermissionDenied = ''PERMISSION_DENIED''"
definition CodeCancelled :: string where "CodeCancelled = ''CANCELLED''"

lemmas code_defs = CodeInternal_def CodeInvalidInput_def CodeNotFound_def CodeAlreadyExists_def CodeUnauthorized_def
  CodeForbidden_def CodeTimeout_def CodeUnavailable_def CodePermissionDenied_def CodeCancelled_def

text \<open>\<open>Wrapped pre e\<close> is \<open>fmt.Errorf("pre%w", e)\<close>.\<close>

datatype err =
    Opaque string
  | Wrapped string err
  | DomainError string string "err option"

fun go_err_text :: "err \<Rightarrow> string" where
  "go_err_text (Opaque s) = s"
| "go_err_text (Wrapped pre e) = pre @ go_err_text e"
| "go_err_text (DomainError code message None) = ''['' @ code @ ''] '' @ message"
| "go_err_text (DomainError code message (Some e)) = ''['' @ code @ ''] '' @ message @ '': '' @ go_err_text e"

fun err_unwrap :: "err \<Rightarrow> err option" where
  "err_unwrap (Opaque s) = None"
| "err_unwrap (Wrapped pre e) = Some e"
| "err_unwrap (DomainError code message cause) = cause"

definition new_error :: "string \<Rightarrow> string \<Rightarrow> err" where
  "new_error code message = DomainError code message None"

text \<open>The pointer that \<open>Wrap\<close> returns is nil when there is no error to wrap.\<close>

definition wrap_error :: "err option \<Rightarrow> string \<Rightarrow> string \<Rightarrow> err option" where
  "wrap_error e code message = (case e of None \<Rightarrow> None | Some e \<Rightarrow> Some (DomainError code message (Some e)))"

definition internal_error :: "string \<Rightarrow> err option \<Rightarrow> err option" where
  "internal_error message e = wrap_error e CodeInternal message"

definition invalid_input :: "string \<Rightarrow> err" where "invalid_input message = new_error CodeInvalidInput message"
definition not_found :: "string \<Rightarrow> err" where "not_found message = new_error CodeNotFound message"
definition already_exists :: "string \<Rightarrow> err" where "already_exists message = new_error CodeAlreadyExists message"
definition unauthorized :: "string \<Rightarrow> err" where "unauthorized message = new_error CodeUnauthorized message"
definition forbidden :: "string \<Rightarrow> err" where "forbidden message = new_error CodeForbidden message"
definition permission_denied :: "string \<Rightarrow> err" where "permission_denied message = new_error CodePermissionDenied message"
definition cancelled_error :: "string \<Rightarrow> err" where "cancelled_error message = new_error CodeCancelled message"

definition timeout_error :: "string \<Rightarrow> err option \<Rightarrow> err option" where
  "timeout_error message e = wrap_error e CodeTimeout message"

definition unavailable_error :: "string \<Rightarrow> err option \<Rightarrow> err option" where
  "unavailable_error message e = wrap_error e CodeUnavailable message"

text \<open>The first domain error of the chain, as \<open>errors.As\<close> finds it.\<close>

fun as_domain :: "err \<Rightarrow> (string \<times> string) option" where
  "as_domain (Opaque s) = None"
| "as_domain (Wrapped pre e) = as_domain e"
| "as_domain (DomainError code message cause) = Some (code, message)"

definition is_code :: "err \<Rightarrow> string \<Rightarrow> bool" where
  "is_code e code = (case as_domain e of None \<Rightarrow> False | Some (c, _) \<Rightarrow> c = code)"

definition get_code :: "err \<Rightarrow> string" where
  "get_code e = (case as_domain e of None \<Rightarrow> CodeInternal | Some (c, _) \<Rightarrow> c)"

fun wrap_all :: "string list \<Rightarrow> err \<Rightarrow> err" where
  "wrap_all [] e = e"
| "wrap_all (pre # ps) e = Wrapped pre (wrap_all ps e)"

section \<open>The code of an error\<close>

lemma as_domain_wrap_all [simp]: "as_domain (wrap_all ps e) = as_domain e"
  by (induction ps) auto

lemma error_text_wrap_all: "go_err_text (wrap_all ps e) = concat ps @ go_err_text e"
  by (induction ps) auto

lemma code_survives_wrapping: "get_code (wrap_all ps (DomainError code message cause)) = code"
  by (simp add: get_code_def)

lemma outer_code_decides: "get_code (wrap_all ps (DomainError code message (Some e))) = get_code (DomainError code message None)"
  by (simp add: get_code_def)

lemma is_code_get_code: "is_code e code \<Longrightarrow> get_code e = code"
  by (auto simp: is_code_def get_code_def split: option.splits)

text \<open>An error that is no domain error is internal for \<open>GetCode\<close>, yet not for \<open>Is\<close>.\<close>

lemma opaque_is_internal_for_get_code_only:
  "get_code (Opaque s) = CodeInternal" "\<not> is_code (Opaque s) CodeInternal"
  by (simp_all add: get_code_def is_code_def)

lemma wrap_error_None [simp]: "wrap_error None code message = None"
  by (simp add: wrap_error_def)

end
