(* ===== verification/Tool_Tiers.thy ===== *)
theory Tool_Tiers
  imports Session_Events Go_Text Domain_Errors "HOL-Library.List_Lexorder" "HOL-Library.Char_ord"
begin

text \<open>
  The names of the tools and what they may do: tiers (\<open>internal/domain/tool_tier.go\<close>) and their enforcement by
  deployment (\<open>internal/service/capability/tier_enforcer.go\<close>), capabilities with the tools they bring
  (\<open>internal/domain/capability.go\<close>, \<open>service/capability/injector.go\<close>), their use cases
  (\<open>internal/usecase/capability*\<close>), the classification of tools (\<open>infrastructure/tools/classifier.go\<close>,
  \<open>tool_metadata.go\<close>) and the registry of tools (\<open>registry.go\<close>).

  A kind of capability is the string that the table holds, because the code converts strings without a check and has
  a branch for unknown ones.
\<close>

section \<open>Tiers\<close>

datatype tool_tier = ToolTierCore | ToolTierCapability | ToolTierSelfHosted | ToolTierMCP

fun tier_number :: "tool_tier \<Rightarrow> nat" where
  "tier_number ToolTierCore = 1"
| "tier_number ToolTierCapability = 2"
| "tier_number ToolTierSelfHosted = 3"
| "tier_number ToolTierMCP = 4"

lemma tier_number_inj: "tier_number a = tier_number b \<Longrightarrow> a = b"
  by (cases a; cases b) auto

instantiation tool_tier :: linorder
begin

definition less_eq_tool_tier :: "tool_tier \<Rightarrow> tool_tier \<Rightarrow> bool" where
  "less_eq_tool_tier a b \<longleftrightarrow> tier_number a \<le> tier_number b"

definition less_tool_tier :: "tool_tier \<Rightarrow> tool_tier \<Rightarrow> bool" where
  "less_tool_tier a b \<longleftrightarrow> tier_number a < tier_number b"

instance
  by standard (auto simp: less_eq_tool_tier_def less_tool_tier_def intro: tier_number_inj)

end

definition CoreToolNames :: "string list" where
  "CoreToolNames = [''show_structured_output'', ''manage_tasks'', ''manage_subtasks'', ''wait'']"

definition CapabilityToolNames :: "string list" where
  "CapabilityToolNames = [''memory_recall'', ''memory_store'', ''knowledge_search'']"

definition SelfHostedToolNames :: "string list" where
  "SelfHostedToolNames =
     [''read_file'', ''write_file'', ''edit_file'', ''glob'', ''grep_search'', ''search_code'', ''smart_search'',
      ''get_project_tree'', ''get_function'', ''get_class'', ''get_file_structure'', ''lsp'', ''execute_command'']"

definition ClassifyToolTier :: "string \<Rightarrow> tool_tier" where
  "ClassifyToolTier toolName =
     (if toolName \<in> set CoreToolNames then ToolTierCore
      else if toolName \<in> set CapabilityToolNames then ToolTierCapability
      else if toolName \<in> set SelfHostedToolNames then ToolTierSelfHosted
      else if has_prefix toolName ''spawn_'' then ToolTierCore
      else if has_prefix toolName ''admin_'' then ToolTierSelfHosted
      else ToolTierMCP)"

datatype deployment_mode = DeploymentModeCE | DeploymentModeCloud

definition IsAllowed :: "deployment_mode \<Rightarrow> string \<Rightarrow> go_error option" where
  "IsAllowed mode toolName =
     (if ClassifyToolTier toolName = ToolTierSelfHosted \<and> mode = DeploymentModeCloud
      then Some (''tool '' @ go_quote toolName @ '' is a Tier 3 (self-hosted only) tool and is blocked in Cloud deployment'')
      else None)"

fun FilterAllowed :: "deployment_mode \<Rightarrow> string list \<Rightarrow> string list \<times> string list" where
  "FilterAllowed mode [] = ([], [])"
| "FilterAllowed mode (name # names) =
     (let (allowed, blocked) = FilterAllowed mode names
      in if IsAllowed mode name \<noteq> None then (allowed, name # blocked) else (name # allowed, blocked))"

section \<open>Kinds of tools\<close>

datatype tool_type = ToolTypeProxied | ToolTypeServerSide

record tool_classifier =
  cl_proxied :: "string list"
  cl_server :: "string list"

definition NewToolClassifier :: tool_classifier where
  "NewToolClassifier = \<lparr>cl_proxied = [], cl_server = [''manage_tasks'', ''manage_subtasks'', ''spawn_agent'']\<rparr>"

definition ClassifyTool :: "tool_classifier \<Rightarrow> string \<Rightarrow> tool_type" where
  "ClassifyTool c toolName =
     (if toolName \<in> set (cl_proxied c) then ToolTypeProxied
      else if toolName \<in> set (cl_server c) then ToolTypeServerSide
      else ToolTypeServerSide)"

definition IsProxied :: "tool_classifier \<Rightarrow> string \<Rightarrow> bool" where
  "IsProxied c toolName \<longleftrightarrow> ClassifyTool c toolName = ToolTypeProxied"

definition IsServerSide :: "tool_classifier \<Rightarrow> string \<Rightarrow> bool" where
  "IsServerSide c toolName \<longleftrightarrow> ClassifyTool c toolName = ToolTypeServerSide"

datatype security_zone = ZoneSafe | ZoneCaution | ZoneDangerous

record tool_info =
  tm_name :: string
  tm_description :: string
  tm_zone :: security_zone

definition safe_metadata :: "string \<Rightarrow> string \<Rightarrow> tool_info" where
  "safe_metadata name description = \<lparr>tm_name = name, tm_description = description, tm_zone = ZoneSafe\<rparr>"

definition toolMetadataRegistry :: "tool_info list" where
  "toolMetadataRegistry =
     [safe_metadata ''manage_tasks''
        ''Creates, updates, and manages work tasks. The agent uses this to plan work, track progress, and organize subtasks for delegation to other agents.'',
      safe_metadata ''manage_subtasks''
        (''Manages subtasks within a parent task '' @ [CHR 0xE2, CHR 0x80, CHR 0x94] @ '' create, update status, mark complete. Used for granular progress tracking.''),
      safe_metadata ''spawn_agent''
        ''Spawns a specialized sub-agent (e.g. code-agent, reviewer) to handle a specific subtask. The sub-agent works independently and returns a summary when done.'',
      safe_metadata ''show_structured_output''
        ''Displays a structured output block (table, action buttons) to the user during a conversation.'',
      safe_metadata ''wait''
        ''Pauses the agent for a defined duration. Used for pacing, polling, or scheduled follow-ups.'',
      safe_metadata ''memory_recall''
        ''Recalls stored memories for the current schema/user pair. Auto-injected when the Memory capability is enabled.'',
      safe_metadata ''memory_store''
        ''Stores a new memory entry for the current schema/user pair. Auto-injected when the Memory capability is enabled.'',
      safe_metadata ''knowledge_search''
        (''Searches the agent'' @ [CHR 39] @ ''s knowledge base using semantic similarity. Finds relevant information from indexed documents (markdown, text) even when exact keywords don'' @ [CHR 39] @ ''t match.'')]"

definition GetToolMetadata :: "string \<Rightarrow> tool_info" where
  "GetToolMetadata name =
     (case find (\<lambda>m. tm_name m = name) toolMetadataRegistry of
        Some m \<Rightarrow> m
      | None \<Rightarrow> \<lparr>tm_name = name, tm_description = ''Custom tool'', tm_zone = ZoneCaution\<rparr>)"

section \<open>Capabilities\<close>

record capability =
  cap_id :: string
  cap_agent :: string
  cap_type :: string
  cap_config :: "(string \<times> gval) list"
  cap_enabled :: bool
  cap_created :: time
  cap_updated :: time

definition AllCapabilityTypes :: "string list" where
  "AllCapabilityTypes = [''memory'', ''knowledge'']"

definition capability_type_valid :: "string \<Rightarrow> bool" where
  "capability_type_valid ct \<longleftrightarrow> ct = ''memory'' \<or> ct = ''knowledge''"

definition type_tools :: "string \<Rightarrow> string list" where
  "type_tools ct =
     (if ct = ''memory'' then [''memory_recall'', ''memory_store'']
      else if ct = ''knowledge'' then [''knowledge_search'']
      else [])"

definition capability_validate :: "capability \<Rightarrow> go_error option" where
  "capability_validate c =
     (if cap_agent c = [] then Some ''capability agent_name is required''
      else if \<not> capability_type_valid (cap_type c) then Some (''invalid capability type: '' @ cap_type c)
      else None)"

definition NewCapability :: "time \<Rightarrow> time \<Rightarrow> string \<Rightarrow> string \<Rightarrow> (string \<times> gval) list option \<Rightarrow> go_error + capability" where
  "NewCapability now1 now2 agentName capType config =
     (let c = \<lparr>cap_id = [], cap_agent = agentName, cap_type = capType, cap_config = (case config of None \<Rightarrow> [] | Some m \<Rightarrow> m),
               cap_enabled = True, cap_created = now1, cap_updated = now2\<rparr>
      in case capability_validate c of Some e \<Rightarrow> Inl e | None \<Rightarrow> Inr c)"

text \<open>The records that a reader of capabilities returns, and the tools they bring, each once.\<close>

record capability_record =
  cr_id :: string
  cr_agent :: string
  cr_type :: string
  cr_config :: "(string \<times> gval) list option"
  cr_enabled :: bool

fun add_new :: "string list \<Rightarrow> string list \<Rightarrow> string list" where
  "add_new [] acc = acc"
| "add_new (n # ns) acc = add_new ns (if n \<in> set acc then acc else acc @ [n])"

definition InjectedTools :: "(string \<Rightarrow> go_error + capability_record list) \<Rightarrow> string \<Rightarrow> go_error + string list" where
  "InjectedTools reader agentName =
     (case reader agentName of
        Inl e \<Rightarrow> Inl (''list capabilities for agent '' @ go_quote agentName @ '': '' @ e)
      | Inr caps \<Rightarrow> Inr (add_new (concat (map (\<lambda>c. type_tools (cr_type c)) caps)) []))"

text \<open>
  The use cases around capabilities.  The repository is an interface: a function on its state that may fail; \<open>Create\<close>
  answers with the number of the new record.
\<close>

record capability_input =
  ci_agent :: string
  ci_type :: string
  ci_config :: "(string \<times> gval) list option"
  ci_enabled :: bool

definition capability_add ::
    "(capability_record \<Rightarrow> 'r \<Rightarrow> err option \<times> string \<times> 'r) \<Rightarrow> time \<Rightarrow> time \<Rightarrow> capability_input \<Rightarrow> 'r \<Rightarrow> (err + capability_record) \<times> 'r" where
  "capability_add create now1 now2 input r =
     (case NewCapability now1 now2 (ci_agent input) (ci_type input) (ci_config input) of
        Inl e \<Rightarrow> (Inl (invalid_input e), r)
      | Inr c \<Rightarrow>
          (let rec = \<lparr>cr_id = [], cr_agent = cap_agent c, cr_type = cap_type c, cr_config = Some (cap_config c), cr_enabled = ci_enabled input\<rparr>
           in case create rec r of
                (Some e, _, r') \<Rightarrow> (Inl (Wrapped ''add capability: '' e), r')
              | (None, i, r') \<Rightarrow> (Inr (rec\<lparr>cr_id := i\<rparr>), r')))"

definition capability_list ::
    "(string \<Rightarrow> err + capability_record list) \<Rightarrow> string \<Rightarrow> err + (string \<times> string \<times> (string \<times> gval) list option \<times> bool) list" where
  "capability_list list_by agentName =
     (if agentName = [] then Inl (invalid_input ''agent name is required'')
      else case list_by agentName of
             Inl e \<Rightarrow> Inl (Wrapped ''list capabilities: '' e)
           | Inr rs \<Rightarrow> Inr (map (\<lambda>r. (cr_id r, cr_type r, cr_config r, cr_enabled r)) rs))"

definition capability_remove :: "(nat \<Rightarrow> 'r \<Rightarrow> err option \<times> 'r) \<Rightarrow> nat \<Rightarrow> 'r \<Rightarrow> err option \<times> 'r" where
  "capability_remove delete i r =
     (if i = 0 then (Some (invalid_input ''capability id is required''), r)
      else case delete i r of
             (Some e, r') \<Rightarrow> (Some (Wrapped ''remove capability: '' e), r')
           | (None, r') \<Rightarrow> (None, r'))"

definition capability_update ::
    "(nat \<Rightarrow> string \<times> (string \<times> gval) list option \<times> bool \<Rightarrow> 'r \<Rightarrow> err option \<times> 'r) \<Rightarrow> nat \<Rightarrow> capability_input \<Rightarrow> 'r \<Rightarrow> err option \<times> 'r" where
  "capability_update update i input r =
     (if i = 0 then (Some (invalid_input ''capability id is required''), r)
      else if ci_type input \<noteq> [] \<and> \<not> capability_type_valid (ci_type input)
           then (Some (invalid_input (''invalid capability type: '' @ ci_type input)), r)
      else case update i (ci_type input, ci_config input, ci_enabled input) r of
             (Some e, r') \<Rightarrow> (Some (Wrapped ''update capability: '' e), r')
           | (None, r') \<Rightarrow> (None, r'))"

section \<open>The registry of tools\<close>

type_synonym 't tool_registry = "(string \<times> 't) list"

definition registry_Register :: "string \<Rightarrow> 't \<Rightarrow> 't tool_registry \<Rightarrow> err option \<times> 't tool_registry" where
  "registry_Register name t r =
     (if map_of r name \<noteq> None then (Some (new_error CodeAlreadyExists (''tool already registered: '' @ name)), r)
      else (None, (name, t) # r))"

definition registry_Unregister :: "string \<Rightarrow> 't tool_registry \<Rightarrow> err option \<times> 't tool_registry" where
  "registry_Unregister name r =
     (if map_of r name = None then (Some (new_error CodeNotFound (''tool not found: '' @ name)), r)
      else (None, filter (\<lambda>(n, _). n \<noteq> name) r))"

definition registry_Get :: "string \<Rightarrow> 't tool_registry \<Rightarrow> err + 't" where
  "registry_Get name r =
     (case map_of r name of None \<Rightarrow> Inl (new_error CodeNotFound (''tool not found: '' @ name)) | Some t \<Rightarrow> Inr t)"

definition registry_GetAll :: "'t tool_registry \<Rightarrow> 't list" where
  "registry_GetAll r = map snd r"

definition registry_Count :: "'t tool_registry \<Rightarrow> nat" where
  "registry_Count r = length r"

definition tool_registry_ok :: "'t tool_registry \<Rightarrow> bool" where
  "tool_registry_ok r \<longleftrightarrow> distinct (map fst r)"

lemma Register_keeps [simp]: "tool_registry_ok r \<Longrightarrow> tool_registry_ok (snd (registry_Register name t r))"
  by (auto simp: tool_registry_ok_def registry_Register_def map_of_eq_None_iff)

lemma Unregister_keeps [simp]: "tool_registry_ok r \<Longrightarrow> tool_registry_ok (snd (registry_Unregister name r))"
  by (auto simp: tool_registry_ok_def registry_Unregister_def distinct_map inj_on_def)

lemma Get_after_Register:
  "fst (registry_Register name t r) = None \<Longrightarrow> registry_Get name (snd (registry_Register name t r)) = Inr t"
  by (auto simp: registry_Register_def registry_Get_def split: if_splits)

lemma Get_after_Unregister:
  "registry_Get name (snd (registry_Unregister name r)) = Inl (new_error CodeNotFound (''tool not found: '' @ name))"
proof (cases "map_of r name")
  case None
  then show ?thesis by (simp add: registry_Unregister_def registry_Get_def)
next
  case (Some t)
  have "map_of (filter (\<lambda>(n, _). n \<noteq> name) r) name = None" by (auto simp: map_of_eq_None_iff)
  then show ?thesis using Some by (simp add: registry_Unregister_def registry_Get_def)
qed

section \<open>What the tiers allow\<close>

lemma tier_order: "ToolTierCore < ToolTierCapability" "ToolTierCapability < ToolTierSelfHosted" "ToolTierSelfHosted < ToolTierMCP"
  by (simp_all add: less_tool_tier_def)

lemma FilterAllowed_eq:
  "FilterAllowed mode names = (filter (\<lambda>n. IsAllowed mode n = None) names, filter (\<lambda>n. IsAllowed mode n \<noteq> None) names)"
  by (induction names) auto

lemma ce_allows_all: "FilterAllowed DeploymentModeCE names = (names, [])"
  by (simp add: FilterAllowed_eq IsAllowed_def)

lemma spawn_is_core: "ClassifyToolTier (''spawn_'' @ name) = ToolTierCore"
  by (auto simp: ClassifyToolTier_def CoreToolNames_def CapabilityToolNames_def SelfHostedToolNames_def has_prefix_def)

lemma admin_is_self_hosted: "ClassifyToolTier (''admin_'' @ name) = ToolTierSelfHosted"
  by (auto simp: ClassifyToolTier_def CoreToolNames_def CapabilityToolNames_def SelfHostedToolNames_def has_prefix_def)

text \<open>Tools of the tier of capabilities are exactly those that a kind of capability brings.\<close>

lemma capability_tier_iff:
  "ClassifyToolTier n = ToolTierCapability \<longleftrightarrow> (\<exists>ct \<in> set AllCapabilityTypes. n \<in> set (type_tools ct))"
  by (auto simp: ClassifyToolTier_def CoreToolNames_def CapabilityToolNames_def SelfHostedToolNames_def
      AllCapabilityTypes_def type_tools_def)

lemma metadata_name: "tm_name (GetToolMetadata name) = name"
  by (auto simp: GetToolMetadata_def find_Some_iff split: option.splits)

lemma unknown_kind_is_server_side: "IsServerSide NewToolClassifier n"
  by (simp add: IsServerSide_def ClassifyTool_def NewToolClassifier_def)

section \<open>Injected tools\<close>

lemma set_add_new [simp]: "set (add_new ns acc) = set ns \<union> set acc"
  by (induction ns arbitrary: acc) auto

lemma distinct_add_new [simp]: "distinct acc \<Longrightarrow> distinct (add_new ns acc)"
  by (induction ns arbitrary: acc) auto

lemma InjectedTools_set:
  "InjectedTools reader a = Inr names \<Longrightarrow> reader a = Inr caps \<Longrightarrow>
   distinct names \<and> set names = (\<Union>c \<in> set caps. set (type_tools (cr_type c)))"
  by (auto simp: InjectedTools_def)

lemma capability_add_enabled:
  assumes "capability_add create now1 now2 input r = (Inr rec, r')"
  shows "cr_enabled rec = ci_enabled input" and "cr_agent rec \<noteq> []" and "capability_type_valid (cr_type rec)"
  using assms
  by (auto simp: capability_add_def NewCapability_def capability_validate_def Let_def split: sum.splits option.splits prod.splits if_splits)

text \<open>An update without a kind passes the check, and the empty kind is what the repository is asked to write.\<close>

lemma empty_kind_is_written:
  "i \<noteq> 0 \<Longrightarrow> ci_type input = [] \<Longrightarrow>
   snd (capability_update (\<lambda>i w r. (None, [w])) i input r) = [([], ci_config input, ci_enabled input)]"
  by (simp add: capability_update_def)

end
