(* ===== verification/Agent_Registry.thy ===== *)
theory Agent_Registry
  imports Turn_Engine Tool_Tiers "HOL-Library.AList"
begin

text \<open>
  The registry of agents (\<open>internal/infrastructure/agentregistry\<close>): which tools an agent has
  (\<open>DeriveRuntimeTools\<close>), the flow that a record becomes (\<open>toFlow\<close>), the cache of one tenant (\<open>registry.go\<close>), the
  manager with one cache per tenant (\<open>manager.go\<close>) and the adapters that the turn executor calls
  (\<open>flow_provider.go\<close>, \<open>tenant_aware_flow_provider.go\<close>).

  The repositories are a record of functions of the tenant that the context carries; the empty string is a context
  without one.  Go's maps have no order; the cache lists its agents in the order in which the records were read, a later
  record of the same name replaces an earlier one.
\<close>

section \<open>Records and what they become\<close>

record custom_tool_record =
  ctr_name :: string
  ctr_config :: string

record agent_record =
  ar_id :: string
  ar_name :: string
  ar_model_id :: "string option"
  ar_model_name :: string
  ar_system_prompt :: string
  ar_lifecycle :: string
  ar_tool_execution :: string
  ar_max_steps :: int
  ar_max_context :: int
  ar_max_turn :: int
  ar_temperature :: "string option"
  ar_top_p :: "string option"
  ar_max_tokens :: "int option"
  ar_stop :: "string list"
  ar_confirm_before :: "string list"
  ar_builtin_tools :: "string list"
  ar_custom_tools :: "custom_tool_record list"
  ar_mcp_servers :: "string list"
  ar_can_spawn :: "string list"
  ar_is_system :: bool

definition capability_names :: "capability_record \<Rightarrow> string list" where
  "capability_names c =
     (if \<not> cr_enabled c then []
      else if cr_type c = ''memory'' then [''memory_recall'', ''memory_store'']
      else if cr_type c = ''knowledge'' then [''knowledge_search'']
      else [])"

definition DeriveRuntimeTools :: "agent_record \<Rightarrow> capability_record list \<Rightarrow> string list" where
  "DeriveRuntimeTools agent caps =
     sort (add_new (ar_builtin_tools agent @ map ctr_name (ar_custom_tools agent) @
                    map (\<lambda>n. ''spawn_'' @ n) (ar_can_spawn agent) @ concat (map capability_names caps)) [])"

definition confirmation_note :: "string list \<Rightarrow> string" where
  "confirmation_note names =
     (if names = [] then []
      else newline @ newline @ ''## Confirmation required'' @ newline @
           ''The runtime will request user confirmation before executing: '' @ str_join '', '' names)"

definition toFlow :: "agent_record \<Rightarrow> flow" where
  "toFlow rec =
     \<lparr>fl_type = ar_name rec, fl_name = ar_name rec,
      fl_system_prompt = ar_system_prompt rec @ confirmation_note (ar_confirm_before rec),
      fl_tool_names = ar_builtin_tools rec @ map ctr_name (ar_custom_tools rec),
      fl_max_steps = ar_max_steps rec, fl_max_context = ar_max_context rec, fl_max_turn = ar_max_turn rec,
      fl_tool_execution = ar_tool_execution rec,
      fl_suspend_on = (if ar_lifecycle rec = ''persistent'' then [''final_answer''] else []),
      fl_report_to = (if ar_lifecycle rec = ''persistent'' then ''user''
                      else if ar_lifecycle rec = ''spawn'' then ''parent_agent'' else []),
      fl_allowed = ar_can_spawn rec, fl_max_concurrent = 0,
      fl_mcp_servers = ar_mcp_servers rec, fl_confirm_before = ar_confirm_before rec,
      fl_temperature = ar_temperature rec, fl_top_p = ar_top_p rec, fl_max_tokens = ar_max_tokens rec, fl_stop = ar_stop rec\<rparr>"

section \<open>The registry of one tenant\<close>

record registered_agent =
  ra_flow :: flow
  ra_record :: agent_record
  ra_derived :: "string list"

type_synonym agent_registry = "(string \<times> registered_agent) list"

record agent_readers =
  rd_agents :: "string \<Rightarrow> go_error + agent_record list"
  rd_capabilities :: "(string \<Rightarrow> go_error + (string \<rightharpoonup> capability_record list)) option"

definition register_agent :: "(string \<rightharpoonup> capability_record list) \<Rightarrow> agent_record \<Rightarrow> agent_registry \<Rightarrow> agent_registry" where
  "register_agent caps rec =
     AList.update (ar_name rec)
       \<lparr>ra_flow = toFlow rec, ra_record = rec,
        ra_derived = DeriveRuntimeTools rec (case caps (ar_name rec) of None \<Rightarrow> [] | Some cs \<Rightarrow> cs)\<rparr>"

text \<open>\<open>Load\<close> and \<open>Reload\<close>: a failure leaves the registry as it is, success replaces it.\<close>

definition registry_Load :: "agent_readers \<Rightarrow> string \<Rightarrow> agent_registry \<Rightarrow> go_error option \<times> agent_registry" where
  "registry_Load R tenant old =
     (case rd_agents R tenant of
        Inl e \<Rightarrow> (Some (''load agents: '' @ e), old)
      | Inr records \<Rightarrow>
          (case (case rd_capabilities R of None \<Rightarrow> Inr Map.empty | Some f \<Rightarrow> f tenant) of
             Inl e \<Rightarrow> (Some (''load capabilities: '' @ e), old)
           | Inr caps \<Rightarrow> (None, fold (register_agent caps) records [])))"

definition registry_agent :: "string \<Rightarrow> agent_registry \<Rightarrow> go_error + registered_agent" where
  "registry_agent name r =
     (case map_of r name of None \<Rightarrow> Inl (''agent '' @ go_quote name @ '' not found'') | Some a \<Rightarrow> Inr a)"

definition GetByID :: "string \<Rightarrow> agent_registry \<Rightarrow> go_error + registered_agent" where
  "GetByID i r =
     (case find (\<lambda>(_, a). ar_id (ra_record a) = i) r of
        None \<Rightarrow> Inl (''agent with id '' @ go_quote i @ '' not found'')
      | Some (_, a) \<Rightarrow> Inr a)"

definition GetFlow :: "string \<Rightarrow> agent_registry \<Rightarrow> go_error + flow" where
  "GetFlow name r = map_sum id ra_flow (registry_agent name r)"

definition registry_List :: "agent_registry \<Rightarrow> string list" where
  "registry_List r = sort (map fst r)"

definition GetDefault :: "agent_registry \<Rightarrow> go_error + registered_agent option" where
  "GetDefault r =
     (if r = [] then Inl ''no agents configured''
      else Inr (map_of r (fold (\<lambda>n first. if first = [] \<or> n < first then n else first) (map fst r) [])))"

definition ResolveAgentUUID :: "string \<Rightarrow> agent_registry \<Rightarrow> string" where
  "ResolveAgentUUID name r = (case map_of r name of None \<Rightarrow> [] | Some a \<Rightarrow> ar_id (ra_record a))"

definition ResolveModelID :: "string \<Rightarrow> agent_registry \<Rightarrow> string option" where
  "ResolveModelID name r = (case map_of r name of None \<Rightarrow> None | Some a \<Rightarrow> ar_model_id (ra_record a))"

section \<open>One registry per tenant\<close>

record registry_manager =
  mg_per_tenant :: bool
  mg_single :: "agent_registry option"
  mg_tenants :: "string \<rightharpoonup> agent_registry"

definition NewRegistryManager :: "bool \<Rightarrow> registry_manager" where
  "NewRegistryManager perTenant =
     \<lparr>mg_per_tenant = perTenant, mg_single = (if perTenant then None else Some []), mg_tenants = Map.empty\<rparr>"

text \<open>The tenant is \<open>ctx\<close>; \<open>None\<close> is the panic of a call on a nil registry.\<close>

definition Init :: "agent_readers \<Rightarrow> string \<Rightarrow> registry_manager \<Rightarrow> (go_error option \<times> registry_manager) option" where
  "Init R ctx m =
     (if mg_per_tenant m then Some (None, m)
      else case mg_single m of
             None \<Rightarrow> None
           | Some r \<Rightarrow> (let (e, r') = registry_Load R ctx r in Some (e, m\<lparr>mg_single := Some r'\<rparr>)))"

definition Single :: "registry_manager \<Rightarrow> agent_registry option option" where
  "Single m = (if mg_per_tenant m then None else Some (mg_single m))"

definition GetForContext :: "agent_readers \<Rightarrow> string \<Rightarrow> registry_manager \<Rightarrow> (go_error + agent_registry option) \<times> registry_manager" where
  "GetForContext R ctx m =
     (if \<not> mg_per_tenant m then (Inr (mg_single m), m)
      else if ctx = [] then (Inl ''tenant_id required in context for multi-tenant mode'', m)
      else case mg_tenants m ctx of
             Some r \<Rightarrow> (Inr (Some r), m)
           | None \<Rightarrow>
               (case registry_Load R ctx [] of
                  (Some e, _) \<Rightarrow> (Inl (''load registry for tenant '' @ ctx @ '': '' @ e), m)
                | (None, r) \<Rightarrow> (Inr (Some r), m\<lparr>mg_tenants := (mg_tenants m)(ctx \<mapsto> r)\<rparr>)))"

definition InvalidateTenant :: "string \<Rightarrow> registry_manager \<Rightarrow> registry_manager" where
  "InvalidateTenant tenant m =
     (if \<not> mg_per_tenant m then m else m\<lparr>mg_tenants := map_delete tenant (mg_tenants m)\<rparr>)"

text \<open>Without tenants, \<open>InvalidateAll\<close> reloads with a background context and drops the error.\<close>

definition manager_InvalidateAll :: "agent_readers \<Rightarrow> registry_manager \<Rightarrow> registry_manager" where
  "manager_InvalidateAll R m =
     (if \<not> mg_per_tenant m
      then (case mg_single m of None \<Rightarrow> m | Some r \<Rightarrow> m\<lparr>mg_single := Some (snd (registry_Load R [] r))\<rparr>)
      else m\<lparr>mg_tenants := Map.empty\<rparr>)"

section \<open>What the turn executor sees\<close>

definition tenant_GetFlow :: "agent_readers \<Rightarrow> string \<Rightarrow> string \<Rightarrow> registry_manager \<Rightarrow> ((go_error + flow) \<times> registry_manager) option" where
  "tenant_GetFlow R ctx name m =
     (case GetForContext R ctx m of
        (Inl e, m') \<Rightarrow> Some (Inl (''resolve tenant registry: '' @ e), m')
      | (Inr None, m') \<Rightarrow> None
      | (Inr (Some r), m') \<Rightarrow> Some (GetFlow name r, m'))"

definition tenant_ResolveAgentUUID :: "agent_readers \<Rightarrow> string \<Rightarrow> string \<Rightarrow> registry_manager \<Rightarrow> (string \<times> registry_manager) option" where
  "tenant_ResolveAgentUUID R ctx name m =
     (case GetForContext R ctx m of
        (Inl e, m') \<Rightarrow> Some ([], m')
      | (Inr None, m') \<Rightarrow> None
      | (Inr (Some r), m') \<Rightarrow> Some (ResolveAgentUUID name r, m'))"

definition tenant_ResolveModelID :: "agent_readers \<Rightarrow> string \<Rightarrow> string \<Rightarrow> registry_manager \<Rightarrow> (string option \<times> registry_manager) option" where
  "tenant_ResolveModelID R ctx name m =
     (case GetForContext R ctx m of
        (Inl e, m') \<Rightarrow> Some (None, m')
      | (Inr None, m') \<Rightarrow> None
      | (Inr (Some r), m') \<Rightarrow> Some (ResolveModelID name r, m'))"

datatype flow_provider = RegistryProvider | TenantAwareProvider | FallbackProvider

text \<open>\<open>ResolveFlowProvider\<close> and \<open>ResolveAgentModelResolver\<close>, given which of the two exist.\<close>

definition ResolveFlowProvider :: "bool \<Rightarrow> bool \<Rightarrow> flow_provider" where
  "ResolveFlowProvider registry manager =
     (if registry then RegistryProvider else if manager then TenantAwareProvider else FallbackProvider)"

definition ResolveAgentModelResolver :: "bool \<Rightarrow> bool \<Rightarrow> flow_provider option" where
  "ResolveAgentModelResolver registry tenantAware =
     (if registry then Some RegistryProvider else if tenantAware then Some TenantAwareProvider else None)"

section \<open>The derived tools\<close>

lemma set_capability_names:
  "set (capability_names c) = (if cr_enabled c then set (type_tools (cr_type c)) else {})"
  by (simp add: capability_names_def type_tools_def)

text \<open>The tools of an agent: \<open>DeriveRuntimeTools\<close> returns a sorted list without repetitions that has exactly the
  built-in tools, the custom tools, one spawn tool per agent that may be spawned and the tools of the enabled
  capabilities.\<close>

theorem derived_tools_exact:
  "sorted (DeriveRuntimeTools agent caps) \<and> distinct (DeriveRuntimeTools agent caps) \<and>
   set (DeriveRuntimeTools agent caps) =
     set (ar_builtin_tools agent) \<union> ctr_name ` set (ar_custom_tools agent) \<union>
     (\<lambda>n. ''spawn_'' @ n) ` set (ar_can_spawn agent) \<union>
     (\<Union>c \<in> {c \<in> set caps. cr_enabled c}. set (type_tools (cr_type c)))"
  by (auto simp: DeriveRuntimeTools_def set_capability_names split: if_splits)

text \<open>
  The flow of an agent names its custom tools but neither its spawn tools nor those of its capabilities: the turn
  executor works from the flow, so these have to be added when the tools are resolved.
\<close>

lemma flow_tools: "set (fl_tool_names (toFlow rec)) = set (ar_builtin_tools rec) \<union> ctr_name ` set (ar_custom_tools rec)"
  by (simp add: toFlow_def)

lemma toFlow_valid_iff:
  "flow_validate (toFlow rec) = None \<longleftrightarrow>
   ar_name rec \<noteq> [] \<and> (ar_system_prompt rec \<noteq> [] \<or> ar_confirm_before rec \<noteq> []) \<and> 0 \<le> ar_max_steps rec \<and> 0 \<le> ar_max_context rec"
  by (auto simp: flow_validate_def toFlow_def confirmation_note_def)

section \<open>Loading\<close>

lemma register_agent_lookup:
  "map_of (register_agent caps rec r) n =
     (if n = ar_name rec
      then Some \<lparr>ra_flow = toFlow rec, ra_record = rec,
                 ra_derived = DeriveRuntimeTools rec (case caps (ar_name rec) of None \<Rightarrow> [] | Some cs \<Rightarrow> cs)\<rparr>
      else map_of r n)"
  by (simp add: register_agent_def update_conv')

text \<open>An entry agrees with the record it was made from.\<close>

definition agent_entry_ok :: "agent_record list \<Rightarrow> string \<times> registered_agent \<Rightarrow> bool" where
  "agent_entry_ok records e \<longleftrightarrow>
     ra_record (snd e) \<in> set records \<and> fst e = ar_name (ra_record (snd e)) \<and> ra_flow (snd e) = toFlow (ra_record (snd e))"

definition registry_ok :: "agent_record list \<Rightarrow> agent_registry \<Rightarrow> bool" where
  "registry_ok records r \<longleftrightarrow> distinct (map fst r) \<and> list_all (agent_entry_ok records) r"

lemma agent_entry_ok_update:
  "list_all (agent_entry_ok records) r \<Longrightarrow> agent_entry_ok records (n, a) \<Longrightarrow> list_all (agent_entry_ok records) (AList.update n a r)"
  by (induction r) auto

lemma register_agent_ok: "registry_ok records r \<Longrightarrow> rec \<in> set records \<Longrightarrow> registry_ok records (register_agent caps rec r)"
  by (auto simp: registry_ok_def register_agent_def distinct_update intro!: agent_entry_ok_update) (simp add: agent_entry_ok_def)

lemma fold_register_ok: "set recs \<subseteq> set records \<Longrightarrow> registry_ok records r \<Longrightarrow> registry_ok records (fold (register_agent caps) recs r)"
  by (induction recs arbitrary: r) (auto intro: register_agent_ok)

lemma Load_ok:
  assumes "registry_Load R tenant old = (None, r)"
  obtains records where "rd_agents R tenant = Inr records" and "registry_ok records r"
proof -
  from assms obtain records caps where rs: "rd_agents R tenant = Inr records"
    and r: "r = fold (register_agent caps) records []"
    by (auto simp: registry_Load_def split: sum.splits)
  have "registry_ok records []" by (simp add: registry_ok_def)
  then have "registry_ok records r" unfolding r by (rule fold_register_ok [OF subset_refl])
  then show thesis using rs that by blast
qed

lemma Load_failed_keeps: "registry_Load R tenant old = (Some e, r) \<Longrightarrow> r = old"
  by (auto simp: registry_Load_def split: sum.splits)

lemma map_of_entry_ok:
  assumes "registry_ok records r" and "map_of r n = Some a"
  shows "ra_record a \<in> set records" and "ar_name (ra_record a) = n" and "ra_flow a = toFlow (ra_record a)"
proof -
  have "(n, a) \<in> set r" using assms(2) by (rule map_of_SomeD)
  then have "agent_entry_ok records (n, a)" using assms(1) by (auto simp: registry_ok_def list_all_iff)
  then show "ra_record a \<in> set records" and "ar_name (ra_record a) = n" and "ra_flow a = toFlow (ra_record a)"
    by (auto simp: agent_entry_ok_def)
qed

text \<open>The default agent is the first of the sorted names.\<close>

lemma fold_least:
  fixes names :: "string list"
  assumes "first \<noteq> []" and "[] \<notin> set names"
  shows "fold (\<lambda>n first. if first = [] \<or> n < first then n else first) names first = fold min names first"
  using assms
proof (induction names arbitrary: first)
  case (Cons n names)
  have step: "(if first = [] \<or> n < first then n else first) = min n first" using Cons.prems by (auto simp: min_def)
  have "min n first \<noteq> []" using Cons.prems by (auto simp: min_def)
  then show ?case using Cons.IH [of "min n first"] Cons.prems(2) by (simp add: step)
qed simp

lemma GetDefault_least:
  assumes "r \<noteq> []" and "[] \<notin> set (map fst r)"
  shows "GetDefault r = Inr (map_of r (Min (set (map fst r))))"
proof -
  obtain n ns where ns: "map fst r = n # ns" using assms(1) by (cases "map fst r") auto
  then have "fold (\<lambda>n first. if first = [] \<or> n < first then n else first) (map fst r) [] = fold min ns n"
    using fold_least [of n ns] assms(2) by auto
  then show ?thesis using assms(1) ns by (simp add: GetDefault_def Min.set_eq_fold [symmetric])
qed

section \<open>One tenant never sees another's agents\<close>

datatype manager_op = OpGetForContext string | OpInvalidateTenant string | OpInvalidateAll

text \<open>Every operation comes with what the repositories answer at that moment.\<close>

fun manager_step :: "agent_readers \<times> manager_op \<Rightarrow> registry_manager \<Rightarrow> registry_manager" where
  "manager_step (R, OpGetForContext ctx) m = snd (GetForContext R ctx m)"
| "manager_step (R, OpInvalidateTenant tenant) m = InvalidateTenant tenant m"
| "manager_step (R, OpInvalidateAll) m = manager_InvalidateAll R m"

definition loaded_from :: "agent_readers set \<Rightarrow> registry_manager \<Rightarrow> bool" where
  "loaded_from Rs m \<longleftrightarrow>
     mg_per_tenant m \<and> (\<forall>t r. mg_tenants m t = Some r \<longrightarrow> (\<exists>R \<in> Rs. registry_Load R t [] = (None, r)))"

lemma loaded_from_mono: "loaded_from Rs m \<Longrightarrow> Rs \<subseteq> Rs' \<Longrightarrow> loaded_from Rs' m"
  by (fastforce simp: loaded_from_def)

lemma GetForContext_loaded:
  assumes "loaded_from Rs m" and "R \<in> Rs"
  shows "loaded_from Rs (snd (GetForContext R ctx m))"
    and "fst (GetForContext R ctx m) = Inr x \<Longrightarrow> \<exists>r. x = Some r \<and> (\<exists>R' \<in> Rs. registry_Load R' ctx [] = (None, r))"
  using assms by (cases "mg_tenants m ctx"; auto simp: GetForContext_def loaded_from_def split: option.splits prod.splits if_splits)+

lemma manager_step_loaded:
  assumes "loaded_from Rs m" and "fst op \<in> Rs"
  shows "loaded_from Rs (manager_step op m)"
proof (cases op)
  case (Pair R o')
  then show ?thesis
    using assms GetForContext_loaded(1) [of Rs m R]
    by (cases o') (auto simp: loaded_from_def InvalidateTenant_def manager_InvalidateAll_def map_delete_def split: if_splits)
qed

lemma manager_run_loaded:
  assumes "loaded_from Rs m" and "fst ` set ops \<subseteq> Rs"
  shows "loaded_from Rs (fold manager_step ops m)"
  using assms by (induction ops arbitrary: m) (auto intro: manager_step_loaded)

text \<open>C23: Tenant isolation of the agent registries: whatever requests and invalidations a multi-tenant manager has seen,
  the registry it hands to a request contains only agents that the repository listed for the tenant of that request
  (now or when the registry was loaded), each under its own name and with the flow made from its record.\<close>

theorem registry_tenants_isolated:
  assumes "GetForContext R ctx (fold manager_step ops (NewRegistryManager True)) = (Inr x, m')"
  shows "\<exists>r R' records. x = Some r \<and> R' \<in> insert R (fst ` set ops) \<and> rd_agents R' ctx = Inr records \<and>
           (\<forall>n a. map_of r n = Some a \<longrightarrow> ra_record a \<in> set records \<and> ar_name (ra_record a) = n \<and> ra_flow a = toFlow (ra_record a))"
proof -
  let ?Rs = "insert R (fst ` set ops)"
  have "loaded_from ?Rs (NewRegistryManager True)" by (simp add: loaded_from_def NewRegistryManager_def)
  then have "loaded_from ?Rs (fold manager_step ops (NewRegistryManager True))" by (rule manager_run_loaded) auto
  from GetForContext_loaded(2) [OF this insertI1, of ctx x] assms obtain r R'
    where x: "x = Some r" and R': "R' \<in> ?Rs" and l: "registry_Load R' ctx [] = (None, r)" by auto
  obtain records where "rd_agents R' ctx = Inr records" and "registry_ok records r" using Load_ok [OF l] .
  then show ?thesis using x R' map_of_entry_ok by (intro exI [of _ r] exI [of _ R'] exI [of _ records]) auto
qed

lemma fresh_after_InvalidateTenant:
  "mg_per_tenant m \<Longrightarrow> ctx \<noteq> [] \<Longrightarrow> registry_Load R ctx [] = (None, r) \<Longrightarrow>
   fst (GetForContext R ctx (InvalidateTenant ctx m)) = Inr (Some r)"
  by (simp add: GetForContext_def InvalidateTenant_def map_delete_def)

text \<open>Without an invalidation the cache answers, whatever the repositories say by then.\<close>

lemma cached_until_invalidated:
  "mg_per_tenant m \<Longrightarrow> ctx \<noteq> [] \<Longrightarrow> fst (GetForContext R ctx m) = Inr (Some r) \<Longrightarrow>
   fst (GetForContext R' ctx (snd (GetForContext R ctx m))) = Inr (Some r)"
  by (auto simp: GetForContext_def split: option.splits prod.splits)

definition demo_agent :: "string \<Rightarrow> agent_record" where
  "demo_agent name =
     \<lparr>ar_id = ''1'', ar_name = name, ar_model_id = None, ar_model_name = [], ar_system_prompt = ''help'', ar_lifecycle = [],
      ar_tool_execution = [], ar_max_steps = 0, ar_max_context = 0, ar_max_turn = 0, ar_temperature = None, ar_top_p = None,
      ar_max_tokens = None, ar_stop = [], ar_confirm_before = [], ar_builtin_tools = [''manage_tasks''], ar_custom_tools = [],
      ar_mcp_servers = [], ar_can_spawn = [], ar_is_system = False\<rparr>"

definition demo_readers :: agent_readers where
  "demo_readers = \<lparr>rd_agents = (\<lambda>t. Inr [demo_agent (t @ ''-agent'')]), rd_capabilities = None\<rparr>"

theorem registry_tenants_isolated_witness:
  "\<exists>(r :: agent_registry) records. rd_agents demo_readers ''a'' = Inr records \<and> map_of r ''a-agent'' \<noteq> None \<and>
     (\<forall>n a. map_of r n = Some a \<longrightarrow> ra_record a \<in> set records \<and> ar_name (ra_record a) = n)"
proof -
  let ?ops = "[(demo_readers, OpGetForContext ''b''), (demo_readers, OpInvalidateTenant ''a'')]"
  let ?r = "register_agent Map.empty (demo_agent ''a-agent'') []"
  have g: "GetForContext demo_readers ''a'' (fold manager_step ?ops (NewRegistryManager True)) =
        (Inr (Some ?r), snd (GetForContext demo_readers ''a'' (fold manager_step ?ops (NewRegistryManager True))))"
    by (simp add: GetForContext_def NewRegistryManager_def InvalidateTenant_def map_delete_def registry_Load_def demo_readers_def)
  from registry_tenants_isolated [OF g] obtain r R' records where r: "Some ?r = Some r" "R' \<in> {demo_readers}"
    "rd_agents R' ''a'' = Inr records" "\<forall>n a. map_of r n = Some a \<longrightarrow> ra_record a \<in> set records \<and> ar_name (ra_record a) = n"
    by (simp only: set_simps image_insert image_empty fst_conv) blast
  have "map_of ?r ''a-agent'' \<noteq> None" by (simp add: register_agent_lookup demo_agent_def)
  moreover have "r = ?r" and "R' = demo_readers" using r(1,2) by auto
  ultimately show ?thesis using r(3,4) by blast
qed

end
