(* ===== verification/Tool_Resolver.thy ===== *)
theory Tool_Resolver
  imports Agent_Registry Tool_Wrappers
begin

text \<open>
  Which tools an agent gets and how they are wrapped (\<open>internal/infrastructure/tools/builtin_tool_store.go\<close>,
  \<open>builtin_factories.go\<close>, \<open>deps_provider.go\<close>, \<open>resolver.go\<close>).  A resolved tool is a term: the constructor
  that made it inside the wrappers around it.  \<open>invoke\<close> gives such a term its behaviour, with the wrappers of
  \<open>Tool_Wrappers\<close>.

  Of the service objects behind a tool the terms keep whether they are there; a searcher, a spawner, a requester of
  confirmations exist once per process or session.  The tools of a server and the answers of the injector, the
  resolvers and the readers of configuration are parameters.
\<close>

section \<open>Tools as terms\<close>

text \<open>The embedder of a knowledge tool is the global one, the agent's own or one given for the call; the threshold is zero or a number as printed.\<close>

datatype embedder = GlobalEmbedder | AgentEmbedder | GivenEmbedder

datatype base_tool =
    ManageTasksTool string
  | StructuredOutputTool bool string
  | MemoryRecallTool string string
  | MemoryStoreTool string string int
  | PoolSpawnTool string string
  | GenericSpawnTool string bool
  | TargetSpawnTool string string
  | KnowledgeSearchTool string "string list" embedder int "string option"
  | DeclarativeTool string
  | ServerTool string string

datatype tool_term =
    Base base_tool
  | Safe tool_term string content_risk
  | Cancellable tool_term
  | Confirmation tool_term
  | Timeout tool_term int
  | Breaker tool_term string

fun base_name :: "base_tool \<Rightarrow> string" where
  "base_name (ManageTasksTool sid) = ''manage_tasks''"
| "base_name (StructuredOutputTool emits sid) = ''show_structured_output''"
| "base_name (MemoryRecallTool schema user) = ''memory_recall''"
| "base_name (MemoryStoreTool schema user n) = ''memory_store''"
| "base_name (PoolSpawnTool sid project) = ''spawn_agent''"
| "base_name (GenericSpawnTool sid persists) = ''spawn_agent''"
| "base_name (TargetSpawnTool target sid) = ''spawn_'' @ target"
| "base_name (KnowledgeSearchTool agent kbs e topK threshold) = ''knowledge_search''"
| "base_name (DeclarativeTool name) = name"
| "base_name (ServerTool server name) = name"

fun base_of :: "tool_term \<Rightarrow> base_tool" where
  "base_of (Base b) = b"
| "base_of (Safe t name risk) = base_of t"
| "base_of (Cancellable t) = base_of t"
| "base_of (Confirmation t) = base_of t"
| "base_of (Timeout t ms) = base_of t"
| "base_of (Breaker t server) = base_of t"

definition term_name :: "tool_term \<Rightarrow> string" where
  "term_name t = base_name (base_of t)"

section \<open>The store of built-in tools\<close>

record tool_deps = tool_dependencies +
  dp_session :: string
  dp_project :: string
  dp_background :: bool
  dp_proxy :: bool
  dp_agent_pool :: bool
  dp_task_manager :: bool
  dp_emitter :: bool
  dp_user :: string
  dp_recaller :: bool
  dp_storer :: bool
  dp_max_entries :: int

type_synonym builtin_store = "(string \<times> (tool_deps \<Rightarrow> base_tool option)) list"

definition store_Register :: "string \<Rightarrow> (tool_deps \<Rightarrow> base_tool option) \<Rightarrow> builtin_store \<Rightarrow> builtin_store" where
  "store_Register name factory s = AList.update name factory s"

definition store_Get :: "builtin_store \<Rightarrow> string \<Rightarrow> (tool_deps \<Rightarrow> base_tool option) option" where
  "store_Get s name = map_of s name"

definition store_Names :: "builtin_store \<Rightarrow> string list" where
  "store_Names s = sort (map fst s)"

definition manage_tasks_factory :: "tool_deps \<Rightarrow> base_tool option" where
  "manage_tasks_factory d = (if \<not> dp_task_manager d then None else Some (ManageTasksTool (dp_session d)))"

definition structured_output_factory :: "tool_deps \<Rightarrow> base_tool option" where
  "structured_output_factory d = Some (StructuredOutputTool (dp_emitter d) (dp_session d))"

definition memory_recall_factory :: "tool_deps \<Rightarrow> base_tool option" where
  "memory_recall_factory d =
     (if \<not> dp_recaller d \<or> td_schema_id d = [] then None else Some (MemoryRecallTool (td_schema_id d) (dp_user d)))"

definition memory_store_factory :: "tool_deps \<Rightarrow> base_tool option" where
  "memory_store_factory d =
     (if \<not> dp_storer d \<or> td_schema_id d = [] then None else Some (MemoryStoreTool (td_schema_id d) (dp_user d) (dp_max_entries d)))"

definition RegisterAllBuiltins :: "builtin_store \<Rightarrow> builtin_store" where
  "RegisterAllBuiltins s =
     store_Register ''memory_store'' memory_store_factory
       (store_Register ''memory_recall'' memory_recall_factory
         (store_Register ''show_structured_output'' structured_output_factory
           (store_Register ''manage_tasks'' manage_tasks_factory s)))"

text \<open>What the application registers besides, when there is a pool of agents (\<open>internal/app/storage_factory.go\<close>).\<close>

definition register_pool_spawn :: "bool \<Rightarrow> builtin_store \<Rightarrow> builtin_store" where
  "register_pool_spawn pool s =
     (if \<not> pool then s else store_Register ''spawn_agent'' (\<lambda>d. Some (PoolSpawnTool (dp_session d) (dp_project d))) s)"

record deps_provider =
  pv_proxy :: bool
  pv_agent_pool :: bool
  pv_task_manager :: bool

definition GetDependencies :: "deps_provider \<Rightarrow> string \<Rightarrow> string \<Rightarrow> tool_deps" where
  "GetDependencies p sessionID projectKey =
     \<lparr>td_agent_name = [], td_mcp_servers = [], td_schema_id = [], td_confirm_before = [], td_confirm_requester = False,
      td_can_spawn = [], dp_session = sessionID, dp_project = projectKey, dp_background = False, dp_proxy = pv_proxy p,
      dp_agent_pool = pv_agent_pool p, dp_task_manager = pv_task_manager p, dp_emitter = False, dp_user = [],
      dp_recaller = False, dp_storer = False, dp_max_entries = 0\<rparr>"

section \<open>The resolver\<close>

record agent_tool_resolver =
  rv_builtins :: builtin_store
  rv_searcher :: bool
  rv_embedder :: bool
  rv_embed_resolver :: "(string \<Rightarrow> go_error + bool) option"
  rv_mcp :: "(string \<Rightarrow> go_error + string list) option"
  rv_spawner :: bool
  rv_injector :: "(string \<Rightarrow> go_error + string list) option"
  rv_breakers :: bool
  rv_cap_config :: "(string \<Rightarrow> string \<Rightarrow> go_error + (string \<times> gval) list option) option"
  rv_kb_resolver :: "(string \<Rightarrow> go_error + string list) option"
  rv_timeout :: int
  rv_float_int :: "string \<Rightarrow> int"
  rv_float_pos :: "string \<Rightarrow> bool"

definition NewAgentToolResolver :: "(string \<Rightarrow> int) \<Rightarrow> (string \<Rightarrow> bool) \<Rightarrow> builtin_store \<Rightarrow> agent_tool_resolver" where
  "NewAgentToolResolver fi fp s =
     \<lparr>rv_builtins = s, rv_searcher = False, rv_embedder = False, rv_embed_resolver = None, rv_mcp = None, rv_spawner = False,
      rv_injector = None, rv_breakers = False, rv_cap_config = None, rv_kb_resolver = None, rv_timeout = 0,
      rv_float_int = fi, rv_float_pos = fp\<rparr>"

text \<open>
  \<open>NewSafeToolWrapper\<close> returns its argument for a tool without risk.  The tools of one server: the timeout goes inside,
  the breaker around it.
\<close>

definition safe_term :: "tool_term \<Rightarrow> string \<Rightarrow> content_risk \<Rightarrow> tool_term" where
  "safe_term t name risk = (if risk = RiskNone then t else Safe t name risk)"

definition wrap_server_tool :: "agent_tool_resolver \<Rightarrow> string \<Rightarrow> string \<Rightarrow> tool_term" where
  "wrap_server_tool rv server name =
     (let t = Base (ServerTool server name);
          t1 = (if rv_timeout rv > 0 then Timeout t (rv_timeout rv) else t)
      in if rv_breakers rv then Breaker t1 server else t1)"

definition cap_number :: "agent_tool_resolver \<Rightarrow> (string \<times> gval) list \<Rightarrow> int" where
  "cap_number rv kcfg =
     (case map_of kcfg ''top_k'' of Some (GFloat x) \<Rightarrow> if rv_float_int rv x > 0 then rv_float_int rv x else 5 | _ \<Rightarrow> 5)"

definition cap_threshold :: "agent_tool_resolver \<Rightarrow> (string \<times> gval) list \<Rightarrow> string option" where
  "cap_threshold rv kcfg =
     (case map_of kcfg ''similarity_threshold'' of Some (GFloat x) \<Rightarrow> if rv_float_pos rv x then Some x else None | _ \<Rightarrow> None)"

text \<open>\<open>reads\<close> is whether the name of the agent is looked at first; \<open>ResolveForAgent\<close> does not ask for it.\<close>

definition knowledge_settings :: "agent_tool_resolver \<Rightarrow> bool \<Rightarrow> string \<Rightarrow> int \<times> string option" where
  "knowledge_settings rv reads agent =
     (case rv_cap_config rv of
        Some read \<Rightarrow>
          if reads then (case read agent ''knowledge'' of Inr (Some kcfg) \<Rightarrow> (cap_number rv kcfg, cap_threshold rv kcfg) | _ \<Rightarrow> (5, None))
          else (5, None)
      | None \<Rightarrow> (5, None))"

definition knowledge_bases :: "agent_tool_resolver \<Rightarrow> bool \<Rightarrow> string \<Rightarrow> string list" where
  "knowledge_bases rv reads agent =
     (case rv_kb_resolver rv of
        Some f \<Rightarrow> if reads then (case f agent of Inr ids \<Rightarrow> ids | Inl _ \<Rightarrow> []) else []
      | None \<Rightarrow> [])"

definition agent_embedder :: "agent_tool_resolver \<Rightarrow> bool \<Rightarrow> string \<Rightarrow> embedder option" where
  "agent_embedder rv reads agent =
     (let global = (if rv_embedder rv then Some GlobalEmbedder else None)
      in case rv_embed_resolver rv of
           Some f \<Rightarrow> if reads \<and> f agent = Inr True then Some AgentEmbedder else global
         | None \<Rightarrow> global)"

definition NewKnowledgeSearchTool :: "string \<Rightarrow> string list \<Rightarrow> embedder \<Rightarrow> int \<Rightarrow> string option \<Rightarrow> base_tool" where
  "NewKnowledgeSearchTool agent kbs e limit threshold = KnowledgeSearchTool agent kbs e (if limit \<le> 0 then 5 else limit) threshold"

definition knowledge_tool :: "agent_tool_resolver \<Rightarrow> bool \<Rightarrow> string \<Rightarrow> embedder \<Rightarrow> tool_term" where
  "knowledge_tool rv reads agent e =
     (let (topK, threshold) = knowledge_settings rv reads agent
      in Base (NewKnowledgeSearchTool agent (knowledge_bases rv reads agent) e topK threshold))"

text \<open>The names to resolve and those among them that a capability brought.\<close>

definition inject_names :: "agent_tool_resolver \<Rightarrow> string list \<Rightarrow> string \<Rightarrow> string list \<times> string list" where
  "inject_names rv toolNames agent =
     (case rv_injector rv of
        None \<Rightarrow> (toolNames, [])
      | Some f \<Rightarrow>
          if agent = [] then (toolNames, [])
          else (case f agent of
                  Inl e \<Rightarrow> (toolNames, [])
                | Inr injected \<Rightarrow> (fold (\<lambda>n acc. if n \<in> set acc then acc else acc @ [n]) injected toolNames, injected)))"

definition wrap_builtin :: "tool_deps \<Rightarrow> string \<Rightarrow> base_tool \<Rightarrow> tool_term" where
  "wrap_builtin d name b =
     (let t = Cancellable (safe_term (Base b) name (GetContentRiskLevel name))
      in if td_confirm_requester d \<and> name \<in> set (td_confirm_before d) then Confirmation t else t)"

fun resolve_builtins :: "builtin_store \<Rightarrow> tool_deps \<Rightarrow> string list \<Rightarrow> string list \<Rightarrow> go_error + tool_term list" where
  "resolve_builtins s d injected [] = Inr []"
| "resolve_builtins s d injected (name # names) =
     (if name = ''knowledge_search'' then resolve_builtins s d injected names
      else case store_Get s name of
             None \<Rightarrow>
               if name \<in> set injected then resolve_builtins s d injected names
               else Inl (''resolve tool '' @ name @ '': unknown builtin tool'')
           | Some factory \<Rightarrow>
               (case factory d of
                  None \<Rightarrow> resolve_builtins s d injected names
                | Some b \<Rightarrow> map_sum id ((#) (wrap_builtin d name b)) (resolve_builtins s d injected names)))"

fun resolve_servers :: "agent_tool_resolver \<Rightarrow> (string \<Rightarrow> go_error + string list) \<Rightarrow> string list \<Rightarrow> go_error + tool_term list" where
  "resolve_servers rv mcp [] = Inr []"
| "resolve_servers rv mcp (server # servers) =
     (case mcp server of
        Inl e \<Rightarrow> Inl (''mcp server '' @ go_quote server @ '' unreachable: '' @ e)
      | Inr names \<Rightarrow> map_sum id ((@) (map (wrap_server_tool rv server) names)) (resolve_servers rv mcp servers))"

definition Resolve :: "agent_tool_resolver \<Rightarrow> string list \<Rightarrow> tool_deps \<Rightarrow> go_error + tool_term list" where
  "Resolve rv toolNames d =
     (let agent = td_agent_name d; reads = (agent \<noteq> []);
          (names, injected) = inject_names rv toolNames agent
      in bind_res (resolve_builtins (rv_builtins rv) d injected names) (\<lambda>builtins.
           let knowledge =
                 (case agent_embedder rv reads agent of
                    Some e \<Rightarrow>
                      if ''knowledge_search'' \<in> set injected \<and> rv_searcher rv then [knowledge_tool rv reads agent e] else []
                  | None \<Rightarrow> []);
               spawns =
                 (if rv_spawner rv
                  then Base (GenericSpawnTool (dp_session d) (dp_task_manager d)) #
                       map (\<lambda>target. Base (TargetSpawnTool target (dp_session d))) (td_can_spawn d)
                  else [])
           in bind_res (case rv_mcp rv of None \<Rightarrow> Inr [] | Some mcp \<Rightarrow> resolve_servers rv mcp (td_mcp_servers d))
                (\<lambda>servers. Inr (builtins @ knowledge @ spawns @ servers))))"

section \<open>Resolution for a registered agent\<close>

record resolve_context =
  rc_agent :: registered_agent
  rc_deps :: tool_deps
  rc_confirms :: bool
  rc_spawner :: bool
  rc_searcher :: bool
  rc_embedder :: bool

definition agent_builtins :: "builtin_store \<Rightarrow> tool_deps \<Rightarrow> string list \<Rightarrow> tool_term list" where
  "agent_builtins s d names =
     concat (map (\<lambda>name.
       if name = ''knowledge_search'' \<or> has_prefix name ''spawn_'' then []
       else case store_Get s name of
              None \<Rightarrow> []
            | Some factory \<Rightarrow> (case factory d of None \<Rightarrow> [] | Some b \<Rightarrow> [Base b])) names)"

definition agent_spawns :: "resolve_context \<Rightarrow> tool_term list" where
  "agent_spawns rc =
     (let names = ra_derived (rc_agent rc); sid = dp_session (rc_deps rc)
      in if \<not> rc_spawner rc then []
         else map (\<lambda>n. Base (TargetSpawnTool (trim_prefix n ''spawn_'') sid))
                (filter (\<lambda>n. has_prefix n ''spawn_'' \<and> n \<noteq> ''spawn_agent'') names) @
              (if ''spawn_agent'' \<in> set names then [Base (GenericSpawnTool sid (dp_task_manager (rc_deps rc)))] else []))"

definition agent_customs :: "resolve_context \<Rightarrow> tool_term list" where
  "agent_customs rc =
     map (\<lambda>ct. Base (DeclarativeTool (ctr_name ct)))
       (filter (\<lambda>ct. ctr_name ct \<in> set (ra_derived (rc_agent rc))) (ar_custom_tools (ra_record (rc_agent rc))))"

definition confirm_listed :: "bool \<Rightarrow> string list \<Rightarrow> tool_term list \<Rightarrow> tool_term list" where
  "confirm_listed confirms names ts =
     (if names \<noteq> [] \<and> confirms then map (\<lambda>t. if term_name t \<in> set names then Confirmation t else t) ts else ts)"

definition agent_knowledge :: "agent_tool_resolver \<Rightarrow> resolve_context \<Rightarrow> tool_term list" where
  "agent_knowledge rv rc =
     (let agent = ar_name (ra_record (rc_agent rc));
          e = (if rc_embedder rc then Some GivenEmbedder else agent_embedder rv True agent)
      in if ''knowledge_search'' \<in> set (ra_derived (rc_agent rc)) \<and> (rc_searcher rc \<or> rv_searcher rv)
         then (case e of None \<Rightarrow> [] | Some e \<Rightarrow> [knowledge_tool rv True agent e]) else [])"

text \<open>Here a server that cannot be reached is left out.\<close>

definition resolveMCPTools :: "agent_tool_resolver \<Rightarrow> string list \<Rightarrow> tool_term list" where
  "resolveMCPTools rv servers =
     (case rv_mcp rv of
        None \<Rightarrow> []
      | Some mcp \<Rightarrow>
          concat (map (\<lambda>server. case mcp server of Inl e \<Rightarrow> [] | Inr names \<Rightarrow> map (wrap_server_tool rv server) names) servers))"

definition ResolveForAgent :: "agent_tool_resolver \<Rightarrow> resolve_context \<Rightarrow> tool_term list" where
  "ResolveForAgent rv rc =
     (let rec = ra_record (rc_agent rc);
          tools = agent_builtins (rv_builtins rv) (rc_deps rc) (ra_derived (rc_agent rc)) @ agent_spawns rc @ agent_customs rc
      in confirm_listed (rc_confirms rc) (ar_confirm_before rec) tools @ agent_knowledge rv rc @ resolveMCPTools rv (ar_mcp_servers rec))"

section \<open>What a resolved tool does\<close>

record 'w tool_world =
  tw_base :: "base_tool \<Rightarrow> 'w invokable"
  tw_requester :: "string \<Rightarrow> string \<Rightarrow> 'w \<Rightarrow> (run_error + bool) \<times> 'w"
  tw_now :: "'w \<Rightarrow> time"
  tw_breaker :: "string \<Rightarrow> 'w \<Rightarrow> circuit_breaker"
  tw_set_breaker :: "string \<Rightarrow> circuit_breaker \<Rightarrow> 'w \<Rightarrow> 'w"

fun invoke :: "'w tool_world \<Rightarrow> tool_term \<Rightarrow> 'w invokable" where
  "invoke E (Base b) = tw_base E b"
| "invoke E (Safe t name risk) = NewSafeToolWrapper (invoke E t) name risk"
| "invoke E (Cancellable t) = \<lparr>ti_info = ti_info (invoke E t), ti_run = cancellable_run (invoke E t)\<rparr>"
| "invoke E (Confirmation t) = \<lparr>ti_info = ti_info (invoke E t), ti_run = confirmation_run (invoke E t) (tw_requester E)\<rparr>"
| "invoke E (Timeout t ms) =
     \<lparr>ti_info = ti_info (invoke E t), ti_run = (\<lambda>ctx args w. timeout_wrapper_run (invoke E t) ms (tw_now E w) ctx args w)\<rparr>"
| "invoke E (Breaker t server) =
     \<lparr>ti_info = ti_info (invoke E t),
      ti_run = (\<lambda>ctx args w.
        let (r, b, w') = cb_wrapper_run AllowRequest RecordSuccess RecordFailure (invoke E t) (tw_now E w)
                           (tw_now E (snd (ti_run (invoke E t) ctx args w))) ctx args (tw_breaker E server w, w)
        in (r, tw_set_breaker E server b w'))\<rparr>"

definition infos_ok :: "'w tool_world \<Rightarrow> bool" where
  "infos_ok E \<longleftrightarrow> (\<forall>b. ti_info (tw_base E b) = (Some (base_name b), None))"

lemma invoke_info: "infos_ok E \<Longrightarrow> ti_info (invoke E t) = (Some (term_name t), None)"
  by (induction t) (auto simp: infos_ok_def term_name_def NewSafeToolWrapper_def)

section \<open>Confirmation\<close>

fun from_store :: "base_tool \<Rightarrow> bool" where
  "from_store (GenericSpawnTool sid persists) = False"
| "from_store (TargetSpawnTool target sid) = False"
| "from_store (KnowledgeSearchTool agent kbs e topK threshold) = False"
| "from_store (ServerTool server name) = False"
| "from_store _ = True"

definition store_ok :: "builtin_store \<Rightarrow> bool" where
  "store_ok s \<longleftrightarrow> (\<forall>n f d b. map_of s n = Some f \<longrightarrow> f d = Some b \<longrightarrow> base_name b = n \<and> from_store b)"

lemma store_ok_Register:
  "store_ok s \<Longrightarrow> (\<And>d b. f d = Some b \<Longrightarrow> base_name b = n \<and> from_store b) \<Longrightarrow> store_ok (store_Register n f s)"
  by (auto simp: store_ok_def store_Register_def update_conv' split: if_splits)

lemma store_ok_builtins: "store_ok (register_pool_spawn pool (RegisterAllBuiltins []))"
proof -
  have "store_ok (RegisterAllBuiltins [])"
    unfolding RegisterAllBuiltins_def
    by (intro store_ok_Register)
       (auto simp: store_ok_def manage_tasks_factory_def structured_output_factory_def memory_recall_factory_def
          memory_store_factory_def split: if_splits)
  then show ?thesis by (auto simp: register_pool_spawn_def intro!: store_ok_Register)
qed

lemma base_of_safe_term [simp]: "base_of (safe_term t n risk) = base_of t"
  by (simp add: safe_term_def)

lemma base_of_wrap_builtin [simp]: "base_of (wrap_builtin d n b) = b"
  by (simp add: wrap_builtin_def Let_def)

lemma map_sum_Inr: "map_sum id f r = Inr y \<longleftrightarrow> (\<exists>x. r = Inr x \<and> y = f x)"
  by (cases r) auto

lemma resolve_builtins_made:
  assumes "resolve_builtins s d injected names = Inr ts" and "t \<in> set ts"
  shows "\<exists>n f b. map_of s n = Some f \<and> f d = Some b \<and> t = wrap_builtin d n b \<and> n \<in> set names"
  using assms
proof (induction names arbitrary: ts)
  case (Cons name names)
  show ?case
  proof (cases "resolve_builtins s d injected names = Inr ts")
    case True
    then show ?thesis using Cons.IH [OF True Cons.prems(2)] by auto
  next
    case False
    with Cons.prems(1) obtain f b ts' where f: "map_of s name = Some f" "f d = Some b"
      and ts': "resolve_builtins s d injected names = Inr ts'" "ts = wrap_builtin d name b # ts'"
      by (auto simp: store_Get_def map_sum_Inr split: if_splits option.splits)
    from Cons.prems(2) ts'(2) consider "t = wrap_builtin d name b" | "t \<in> set ts'" by auto
    then show ?thesis
    proof cases
      case 1
      then show ?thesis using f by (intro exI [of _ name] exI [of _ f] exI [of _ b]) simp
    next
      case 2
      then show ?thesis using Cons.IH [OF ts'(1)] by auto
    qed
  qed
qed simp

lemma resolve_builtins_sound:
  assumes "store_ok s" and "resolve_builtins s d injected names = Inr ts" and "t \<in> set ts"
  shows "\<exists>b. t = wrap_builtin d (base_name b) b \<and> from_store b \<and> base_name b \<in> set names"
proof -
  obtain n f b where m: "map_of s n = Some f" "f d = Some b" "t = wrap_builtin d n b" "n \<in> set names"
    using resolve_builtins_made [OF assms(2,3)] by blast
  have "base_name b = n" "from_store b" using m(1,2) assms(1) by (auto simp: store_ok_def)
  then show ?thesis using m by (intro exI [of _ b]) simp
qed

lemma resolve_servers_sound:
  "resolve_servers rv mcp servers = Inr ts \<Longrightarrow> t \<in> set ts \<Longrightarrow>
   \<exists>server \<in> set servers. \<exists>name. t = wrap_server_tool rv server name"
proof (induction servers arbitrary: ts)
  case (Cons server servers)
  then obtain names ts' where "mcp server = Inr names" "resolve_servers rv mcp servers = Inr ts'"
    "ts = map (wrap_server_tool rv server) names @ ts'"
    by (auto simp: map_sum_Inr split: sum.splits)
  then show ?case using Cons by auto
qed simp

lemma base_of_wrap_server_tool [simp]: "base_of (wrap_server_tool rv server name) = ServerTool server name"
  by (simp add: wrap_server_tool_def Let_def)

lemma server_group:
  "(case rv_mcp rv of None \<Rightarrow> Inr [] | Some mcp \<Rightarrow> resolve_servers rv mcp names) = Inr servers \<Longrightarrow> t \<in> set servers \<Longrightarrow>
   \<exists>s n. t = wrap_server_tool rv s n"
proof (cases "rv_mcp rv")
  case (Some mcp)
  then show "(case rv_mcp rv of None \<Rightarrow> Inr [] | Some mcp \<Rightarrow> resolve_servers rv mcp names) = Inr servers \<Longrightarrow> t \<in> set servers \<Longrightarrow> ?thesis"
    using resolve_servers_sound [of rv mcp names servers t] by auto
qed simp

text \<open>The four groups of the tools that \<open>Resolve\<close> returns.\<close>

lemma bind_res_Inr: "bind_res r f = Inr y \<longleftrightarrow> (\<exists>x. r = Inr x \<and> f x = Inr y)"
  by (cases r) auto

lemma Resolve_groups:
  assumes "Resolve rv toolNames d = Inr ts"
  obtains builtins knowledge spawns servers where
    "resolve_builtins (rv_builtins rv) d (snd (inject_names rv toolNames (td_agent_name d)))
       (fst (inject_names rv toolNames (td_agent_name d))) = Inr builtins"
    and "\<forall>t \<in> set knowledge. \<exists>agent kbs e topK threshold. t = Base (KnowledgeSearchTool agent kbs e topK threshold)"
    and "\<forall>t \<in> set spawns. \<exists>sid x. t = Base (GenericSpawnTool sid x) \<or> (\<exists>target. t = Base (TargetSpawnTool target sid))"
    and "(case rv_mcp rv of None \<Rightarrow> Inr [] | Some mcp \<Rightarrow> resolve_servers rv mcp (td_mcp_servers d)) = Inr servers"
    and "ts = builtins @ knowledge @ spawns @ servers"
proof -
  let ?agent = "td_agent_name d"
  let ?k = "case agent_embedder rv (?agent \<noteq> []) ?agent of
              Some e \<Rightarrow> if ''knowledge_search'' \<in> set (snd (inject_names rv toolNames ?agent)) \<and> rv_searcher rv
                        then [knowledge_tool rv (?agent \<noteq> []) ?agent e] else []
            | None \<Rightarrow> []"
  let ?s = "if rv_spawner rv
            then Base (GenericSpawnTool (dp_session d) (dp_task_manager d)) #
                 map (\<lambda>target. Base (TargetSpawnTool target (dp_session d))) (td_can_spawn d)
            else []"
  from assms obtain builtins servers where
    b: "resolve_builtins (rv_builtins rv) d (snd (inject_names rv toolNames ?agent)) (fst (inject_names rv toolNames ?agent)) = Inr builtins"
    and s: "(case rv_mcp rv of None \<Rightarrow> Inr [] | Some mcp \<Rightarrow> resolve_servers rv mcp (td_mcp_servers d)) = Inr servers"
    and ts: "ts = builtins @ ?k @ ?s @ servers"
    unfolding Resolve_def Let_def by (auto simp only: bind_res_Inr case_prod_beta sum.inject)
  have "\<forall>t \<in> set ?k. \<exists>agent kbs e topK threshold. t = Base (KnowledgeSearchTool agent kbs e topK threshold)"
    by (auto simp: knowledge_tool_def NewKnowledgeSearchTool_def case_prod_beta split: option.splits)
  moreover have "\<forall>t \<in> set ?s. \<exists>sid x. t = Base (GenericSpawnTool sid x) \<or> (\<exists>target. t = Base (TargetSpawnTool target sid))"
    by auto
  ultimately show thesis using that b s ts by blast
qed

text \<open>C24: A tool of the store that the agent's \<open>confirm_before\<close> lists does nothing before the user has said yes: if
  the requester refuses, fails or is cancelled, a call of the resolved tool changes nothing beyond what asking did.\<close>

theorem listed_tools_wait_for_confirmation:
  assumes "store_ok (rv_builtins rv)" and "infos_ok E"
    and "Resolve rv names d = Inr ts" and "t \<in> set ts" and "from_store (base_of t)"
    and "td_confirm_requester d" and "term_name t \<in> set (td_confirm_before d)"
    and "tw_requester E (term_name t) args w = (answer, w1)" and "answer \<noteq> Inr True"
  shows "snd (ti_run (invoke E t) ctx args w) = w1"
proof -
  obtain builtins where b: "resolve_builtins (rv_builtins rv) d (snd (inject_names rv names (td_agent_name d)))
      (fst (inject_names rv names (td_agent_name d))) = Inr builtins" and tb: "t \<in> set builtins"
  proof (rule Resolve_groups [OF assms(3)], goal_cases)
    case (1 builtins knowledge spawns servers)
    have "t \<notin> set knowledge" "t \<notin> set spawns" using 1(3,4) assms(5) by (auto dest!: bspec)
    moreover have "t \<notin> set servers" using server_group [OF 1(5), of t] assms(5) by auto
    ultimately show ?case using 1(1,2,6) assms(4) by auto
  qed
  obtain base where t: "t = wrap_builtin d (base_name base) base"
    using resolve_builtins_sound [OF assms(1) b tb] by auto
  then have "term_name t = base_name base" by (simp add: term_name_def)
  then obtain u where u: "t = Confirmation u" using t assms(6,7) by (auto simp: wrap_builtin_def Let_def)
  then have "ti_info (invoke E u) = (Some (term_name t), None)"
    using invoke_info [OF assms(2), of u] by (simp add: term_name_def)
  then show ?thesis using u assms(8,9) by (auto simp: confirmation_run_def split: sum.splits)
qed

definition demo_deps :: tool_deps where
  "demo_deps = (GetDependencies \<lparr>pv_proxy = True, pv_agent_pool = False, pv_task_manager = True\<rparr> ''s'' ''p'')
     \<lparr>td_confirm_before := [''manage_tasks''], td_confirm_requester := True\<rparr>"

definition demo_resolver :: agent_tool_resolver where
  "demo_resolver = (NewAgentToolResolver (\<lambda>_. 0) (\<lambda>_. False) (RegisterAllBuiltins []))
     \<lparr>rv_mcp := Some (\<lambda>server. if server = ''shop'' then Inr [''create_order''] else Inl ''connection refused''), rv_timeout := 1000, rv_breakers := True\<rparr>"

text \<open>A world that counts the calls of tools; the user always refuses.\<close>

definition counting_world :: "(nat \<times> circuit_breaker) tool_world" where
  "counting_world =
     \<lparr>tw_base = (\<lambda>b. \<lparr>ti_info = (Some (base_name b), None), ti_run = (\<lambda>ctx args w. ((''done'', None), (Suc (fst w), snd w)))\<rparr>),
      tw_requester = (\<lambda>name args w. (Inr False, w)),
      tw_now = (\<lambda>w. 0), tw_breaker = (\<lambda>s w. snd w), tw_set_breaker = (\<lambda>s b w. (fst w, b))\<rparr>"

lemma demo_resolve: "Resolve demo_resolver [''manage_tasks''] demo_deps = Inr [Confirmation (Cancellable (Base (ManageTasksTool ''s'')))]"
  by (simp add: Resolve_def Let_def inject_names_def demo_resolver_def demo_deps_def NewAgentToolResolver_def GetDependencies_def
      RegisterAllBuiltins_def store_Register_def store_Get_def update_conv' manage_tasks_factory_def wrap_builtin_def safe_term_def
      GetContentRiskLevel_def agent_embedder_def)

theorem listed_tools_wait_for_confirmation_witness:
  "snd (ti_run (invoke counting_world (Confirmation (Cancellable (Base (ManageTasksTool ''s''))))) \<lparr>gc_err = None, gc_deadline = None\<rparr> [] (0, NewCircuitBreaker [] DefaultCircuitBreakerConfig)) = (0, NewCircuitBreaker [] DefaultCircuitBreakerConfig)"
  by (rule listed_tools_wait_for_confirmation [OF _ _ demo_resolve, where answer = "Inr False"])
     (use store_ok_builtins [of False] in \<open>simp_all add: register_pool_spawn_def demo_resolver_def NewAgentToolResolver_def infos_ok_def counting_world_def
        demo_deps_def term_name_def\<close>)

text \<open>The confirmation list has no effect on the tools of servers: with or without it, they come unguarded.\<close>

lemma servers_ignore_confirmation:
  assumes "Resolve rv names d = Inr ts" and "t \<in> set ts" and "base_of t = ServerTool server name" and "store_ok (rv_builtins rv)"
  shows "t = wrap_server_tool rv server name"
proof (rule Resolve_groups [OF assms(1)], goal_cases)
  case (1 builtins knowledge spawns servers)
  have "t \<notin> set builtins" using resolve_builtins_sound [OF assms(4) 1(1), of t] assms(3) by auto
  moreover have "t \<notin> set knowledge" "t \<notin> set spawns" using 1(2,3) assms(3) by (auto dest!: bspec)
  ultimately have "t \<in> set servers" using 1(5) assms(2) by auto
  then obtain s n where "t = wrap_server_tool rv s n" using server_group [OF 1(4)] by blast
  then show ?case using assms(3) by auto
qed

text \<open>A server whose breaker refuses is left alone: with breakers configured, a call of any resolved tool of that
  server returns an error without running the tool, and only the breaker's own state may change.\<close>

theorem refused_server_is_left_alone:
  assumes "Resolve rv names d = Inr ts" and "t \<in> set ts" and "base_of t = ServerTool server name"
    and "store_ok (rv_builtins rv)" and "rv_breakers rv" and "breaker_refusing (tw_breaker E server w) (tw_now E w)"
  shows "(\<exists>b. snd (ti_run (invoke E t) ctx args w) = tw_set_breaker E server b w) \<and>
         snd (fst (ti_run (invoke E t) ctx args w)) \<noteq> None"
proof -
  from servers_ignore_confirmation [OF assms(1-4)] assms(5) obtain u where t: "t = Breaker u server"
    by (simp add: wrap_server_tool_def Let_def)
  show ?thesis
    using breaker.refused_untouched [OF assms(6), of "invoke E u"] t by (auto simp: case_prod_beta)
qed

lemma demo_server_resolve:
  "Resolve demo_resolver [] (demo_deps\<lparr>td_mcp_servers := [''shop'']\<rparr>) =
   Inr [Breaker (Timeout (Base (ServerTool ''shop'' ''create_order'')) 1000) ''shop'']"
  by (simp add: Resolve_def Let_def inject_names_def demo_resolver_def demo_deps_def NewAgentToolResolver_def GetDependencies_def
      agent_embedder_def wrap_server_tool_def)

definition open_breaker :: circuit_breaker where
  "open_breaker = (NewCircuitBreaker ''shop'' DefaultCircuitBreakerConfig)\<lparr>cb_state := CircuitOpen\<rparr>"

lemma demo_store_ok: "store_ok (rv_builtins demo_resolver)"
  using store_ok_builtins [of False] by (simp add: register_pool_spawn_def demo_resolver_def NewAgentToolResolver_def)

theorem refused_server_is_left_alone_witness:
  "\<exists>b. snd (ti_run (invoke counting_world (Breaker (Timeout (Base (ServerTool ''shop'' ''create_order'')) 1000) ''shop''))
         \<lparr>gc_err = None, gc_deadline = None\<rparr> [] (0, open_breaker)) = (0, b)"
proof -
  have "(\<exists>b. snd (ti_run (invoke counting_world (Breaker (Timeout (Base (ServerTool ''shop'' ''create_order'')) 1000) ''shop''))
             \<lparr>gc_err = None, gc_deadline = None\<rparr> [] (0, open_breaker)) = tw_set_breaker counting_world ''shop'' b (0, open_breaker)) \<and>
        snd (fst (ti_run (invoke counting_world (Breaker (Timeout (Base (ServerTool ''shop'' ''create_order'')) 1000) ''shop''))
             \<lparr>gc_err = None, gc_deadline = None\<rparr> [] (0, open_breaker))) \<noteq> None"
    by (rule refused_server_is_left_alone [OF demo_server_resolve _ _ demo_store_ok, where server = "''shop''" and name = "''create_order''"])
       (simp_all add: demo_resolver_def breaker_refusing_def counting_world_def open_breaker_def cb_currentState_def
          NewCircuitBreaker_def DefaultCircuitBreakerConfig_def time_sub_def zero_time_def second_def wrap64_def)
  then show ?thesis by (simp add: counting_world_def)
qed

section \<open>When the tools can be resolved\<close>

definition known_tool :: "builtin_store \<Rightarrow> string list \<Rightarrow> string \<Rightarrow> bool" where
  "known_tool s injected n \<longleftrightarrow> n = ''knowledge_search'' \<or> map_of s n \<noteq> None \<or> n \<in> set injected"

lemma resolve_builtins_ok_iff: "is_ok (resolve_builtins s d injected names) \<longleftrightarrow> list_all (known_tool s injected) names"
proof (induction names)
  case (Cons n names)
  have "is_ok (map_sum id f r) = is_ok r" for f and r :: "go_error + tool_term list" by (cases r) auto
  then show ?case using Cons by (auto simp: known_tool_def store_Get_def split: option.splits)
qed simp

lemma resolve_servers_ok_iff: "is_ok (resolve_servers rv mcp servers) \<longleftrightarrow> list_all (\<lambda>s. is_ok (mcp s)) servers"
proof (induction servers)
  case (Cons s servers)
  have "is_ok (map_sum id f r) = is_ok r" for f and r :: "go_error + tool_term list" by (cases r) auto
  then show ?case using Cons by (auto split: sum.splits)
qed simp

lemma is_ok_bind: "is_ok (bind_res r f) \<longleftrightarrow> (\<exists>x. r = Inr x \<and> is_ok (f x))"
  by (cases r) auto



text \<open>The tools of a turn can be resolved exactly if every name is known to the store, is \<open>knowledge_search\<close> or came
  from a capability, and every server of the agent answers: one unknown name or one unreachable server fails the turn.\<close>

theorem resolve_succeeds_iff:
  "is_ok (Resolve rv toolNames d) \<longleftrightarrow>
   list_all (known_tool (rv_builtins rv) (snd (inject_names rv toolNames (td_agent_name d)))) toolNames \<and>
   (case rv_mcp rv of None \<Rightarrow> True | Some mcp \<Rightarrow> list_all (\<lambda>s. is_ok (mcp s)) (td_mcp_servers d))"
proof -
  let ?inj = "snd (inject_names rv toolNames (td_agent_name d))" and ?all = "fst (inject_names rv toolNames (td_agent_name d))"
  have set_fold: "set (fold (\<lambda>n acc. if n \<in> set acc then acc else acc @ [n]) ns acc) = set acc \<union> set ns" for ns acc :: "string list"
    by (induction ns arbitrary: acc) auto
  have all: "set ?all = set toolNames \<union> set ?inj"
    by (auto simp: inject_names_def set_fold split: option.splits sum.splits)
  have b: "list_all (known_tool (rv_builtins rv) ?inj) ?all \<longleftrightarrow> list_all (known_tool (rv_builtins rv) ?inj) toolNames"
    unfolding list_all_iff all by (auto simp: known_tool_def)
  have s: "is_ok (case rv_mcp rv of None \<Rightarrow> Inr [] | Some mcp \<Rightarrow> resolve_servers rv mcp (td_mcp_servers d)) \<longleftrightarrow>
           (case rv_mcp rv of None \<Rightarrow> True | Some mcp \<Rightarrow> list_all (\<lambda>s. is_ok (mcp s)) (td_mcp_servers d))"
    by (auto simp: resolve_servers_ok_iff split: option.splits)
  have "is_ok (Resolve rv toolNames d) \<longleftrightarrow>
        is_ok (resolve_builtins (rv_builtins rv) d ?inj ?all) \<and>
        is_ok (case rv_mcp rv of None \<Rightarrow> Inr [] | Some mcp \<Rightarrow> resolve_servers rv mcp (td_mcp_servers d))"
    by (auto simp: Resolve_def Let_def is_ok_bind is_ok_iff case_prod_beta)
  then show ?thesis by (simp only: resolve_builtins_ok_iff b s)
qed

text \<open>The dependencies of a turn: those of the session, completed from the flow by the adapter of the orchestrator.\<close>

definition with_dependencies :: "tool_deps \<Rightarrow> tool_dependencies \<Rightarrow> tool_deps" where
  "with_dependencies base td =
     base\<lparr>td_agent_name := td_agent_name td, td_mcp_servers := td_mcp_servers td, td_schema_id := td_schema_id td,
          td_confirm_before := td_confirm_before td, td_confirm_requester := td_confirm_requester td, td_can_spawn := td_can_spawn td\<rparr>"

definition adapter_resolve :: "agent_tool_resolver \<Rightarrow> tool_deps \<Rightarrow> string list \<Rightarrow> tool_dependencies \<Rightarrow> go_error + string option list" where
  "adapter_resolve rv base names td = map_sum id (map (\<lambda>t. Some (term_name t))) (Resolve rv names (with_dependencies base td))"

text \<open>
  The flow of an agent lists its custom tools by name, but the resolver of the production path makes no custom tools:
  it takes the name for that of a built-in tool.  Every turn of such an agent ends before the model is asked.
\<close>

theorem custom_tool_fails_every_turn:
  assumes "ea_flow A (ea_agent_name A) = Inr (toFlow rec)" and "ea_resolve A = adapter_resolve rv base"
    and "ct \<in> set (ar_custom_tools rec)"
    and "\<not> known_tool (rv_builtins rv) (snd (inject_names rv (fl_tool_names (toFlow rec)) (ar_name rec))) (ctr_name ct)"
  shows "\<exists>err. ExecuteTurn A sid question rows = (Some (''resolve tools: '' @ err), [], rows)"
proof -
  let ?td = "turn_dependencies A (toFlow rec) sid"
  have n: "ctr_name ct \<in> set (fl_tool_names (toFlow rec))" using assms(3) by (auto simp: flow_tools)
  have a: "td_agent_name (with_dependencies base ?td) = ar_name rec"
    by (simp add: with_dependencies_def turn_dependencies_def toFlow_def)
  have "\<not> is_ok (Resolve rv (fl_tool_names (toFlow rec)) (with_dependencies base ?td))"
    using n assms(4) by (auto simp: resolve_succeeds_iff a list_all_iff)
  then obtain e where "Resolve rv (fl_tool_names (toFlow rec)) (with_dependencies base ?td) = Inl e"
    by (cases "Resolve rv (fl_tool_names (toFlow rec)) (with_dependencies base ?td)") auto
  then show ?thesis using assms(1,2) by (simp add: ExecuteTurn_def adapter_resolve_def)
qed

text \<open>
  No code gives the dependencies of a session an emitter of events: the tool for structured output is always made
  without one.
\<close>

lemma structured_output_without_emitter:
  assumes "Resolve rv names (with_dependencies (GetDependencies p sid project) td) = Inr ts"
    and "rv_builtins rv = register_pool_spawn pool (RegisterAllBuiltins [])"
    and "t \<in> set ts" and "base_of t = StructuredOutputTool emits s"
  shows "\<not> emits"
proof -
  let ?d = "with_dependencies (GetDependencies p sid project) td"
  obtain builtins where b: "resolve_builtins (rv_builtins rv) ?d (snd (inject_names rv names (td_agent_name ?d)))
      (fst (inject_names rv names (td_agent_name ?d))) = Inr builtins" and tb: "t \<in> set builtins"
  proof (rule Resolve_groups [OF assms(1)], goal_cases)
    case (1 builtins knowledge spawns servers)
    have "t \<notin> set knowledge" "t \<notin> set spawns" using 1(3,4) assms(4) by (auto dest!: bspec)
    moreover have "t \<notin> set servers" using server_group [OF 1(5), of t] assms(4) by auto
    ultimately show ?case using 1(1,2,6) assms(3) by auto
  qed
  from resolve_builtins_made [OF b tb] obtain n f where "map_of (rv_builtins rv) n = Some f" "f ?d = Some (StructuredOutputTool emits s)"
    using assms(4) by auto
  then show ?thesis
    unfolding assms(2)
    by (auto simp: register_pool_spawn_def RegisterAllBuiltins_def store_Register_def update_conv' manage_tasks_factory_def
        structured_output_factory_def memory_recall_factory_def memory_store_factory_def with_dependencies_def GetDependencies_def
        split: if_splits)
qed

end
