(* ===== verification/Memory_Store.thy ===== *)
theory Memory_Store
  imports Task_Repository Session_Events Go_Text "HOL-Library.AList"
begin

text \<open>
  The long-term memory of agents: the entity (\<open>internal/domain/memory.go\<close>), the table
  (\<open>infrastructure/persistence/memory_storage.go\<close>), the retention worker (\<open>service/memory/retention_worker.go\<close>), the
  use cases (\<open>internal/usecase/memory*\<close>) and the two tools of agents (\<open>infrastructure/tools/memory_store_tool.go\<close>,
  \<open>memory_recall_tool.go\<close>).

  The table is a list of rows; the database stamps a row when it is inserted.  What a query may answer instead of a
  result is a record of errors.  The encoding of the metadata, the decoding of arguments and the lower case of Unicode are
  parameters.

  The theory shows that a limit on the entries of a user holds and what is evicted for it, that no operation leaves its
  tenant, and what a recall returns.
\<close>

section \<open>Entries\<close>

record memory =
  me_id :: string
  me_tenant :: string
  me_schema :: string
  me_user :: string
  me_content :: string
  me_metadata :: "(string \<times> string) list"
  me_created :: time
  me_updated :: time

definition memory_validate :: "memory \<Rightarrow> go_error option" where
  "memory_validate m =
     (if me_schema m = [] then Some ''schema_id is required''
      else if me_user m = [] then Some ''user_sub is required''
      else if me_content m = [] then Some ''content is required''
      else None)"

definition NewMemory :: "time \<Rightarrow> time \<Rightarrow> string \<Rightarrow> string \<Rightarrow> string \<Rightarrow> go_error + memory" where
  "NewMemory now1 now2 schemaID userSub content =
     (let m = \<lparr>me_id = [], me_tenant = [], me_schema = schemaID, me_user = userSub, me_content = content, me_metadata = [],
               me_created = now1, me_updated = now2\<rparr>
      in case memory_validate m of Some e \<Rightarrow> Inl e | None \<Rightarrow> Inr m)"

definition AddMetadata :: "time \<Rightarrow> string \<times> string \<Rightarrow> memory \<Rightarrow> memory" where
  "AddMetadata now kv m = m\<lparr>me_metadata := AList.update (fst kv) (snd kv) (me_metadata m), me_updated := now\<rparr>"

definition GetMetadata :: "string \<Rightarrow> memory \<Rightarrow> string option" where
  "GetMetadata key m = map_of (me_metadata m) key"

definition DefaultMemoryConfig :: int where
  "DefaultMemoryConfig = 0"

section \<open>The table\<close>

record memory_row =
  mr_id :: string
  mr_tenant :: string
  mr_schema :: string
  mr_user :: string
  mr_content :: string
  mr_metadata :: string
  mr_created :: time
  mr_updated :: time

record metadata_codec =
  mc_encode :: "(string \<times> string) list \<Rightarrow> string option"
  mc_decode :: "string \<Rightarrow> (string \<times> string) list"

record memory_faults =
  mf_count :: "go_error option"
  mf_find :: "go_error option"
  mf_delete :: "go_error option"
  mf_insert :: "go_error option"

definition of_triple :: "string \<Rightarrow> string \<Rightarrow> string \<Rightarrow> memory_row \<Rightarrow> bool" where
  "of_triple tenant schema user r \<longleftrightarrow> mr_tenant r = tenant \<and> mr_schema r = schema \<and> mr_user r = user"

definition memoryToModel :: "metadata_codec \<Rightarrow> memory \<Rightarrow> string \<Rightarrow> string \<Rightarrow> time \<Rightarrow> memory_row" where
  "memoryToModel C m i tenant now =
     \<lparr>mr_id = i, mr_tenant = tenant, mr_schema = me_schema m, mr_user = me_user m, mr_content = me_content m,
      mr_metadata = (if me_metadata m = [] then ''{}'' else case mc_encode C (me_metadata m) of None \<Rightarrow> ''{}'' | Some s \<Rightarrow> s),
      mr_created = now, mr_updated = now\<rparr>"

definition modelToMemory :: "metadata_codec \<Rightarrow> memory_row \<Rightarrow> memory" where
  "modelToMemory C r =
     \<lparr>me_id = mr_id r, me_tenant = [], me_schema = mr_schema r, me_user = mr_user r, me_content = mr_content r,
      me_metadata = (if mr_metadata r = [] then [] else mc_decode C (mr_metadata r)), me_created = mr_created r, me_updated = mr_updated r\<rparr>"

definition oldest_rows :: "nat \<Rightarrow> (memory_row \<Rightarrow> bool) \<Rightarrow> memory_row list \<Rightarrow> memory_row list" where
  "oldest_rows n P rows = take n (sort_key mr_created (filter P rows))"

definition evictIfNeeded ::
    "memory_faults \<Rightarrow> string \<Rightarrow> string \<Rightarrow> string \<Rightarrow> int \<Rightarrow> memory_row list \<Rightarrow> go_error option \<times> memory_row list" where
  "evictIfNeeded F tenant schema user maxEntries rows =
     (case mf_count F of
        Some e \<Rightarrow> (Some (''count memories: '' @ e), rows)
      | None \<Rightarrow>
          (let toDelete = int (length (filter (of_triple tenant schema user) rows)) - maxEntries + 1
           in if toDelete \<le> 0 then (None, rows)
              else case mf_find F of
                     Some e \<Rightarrow> (Some (''find oldest memories: '' @ e), rows)
                   | None \<Rightarrow>
                       (let ids = map mr_id (oldest_rows (nat toDelete) (of_triple tenant schema user) rows)
                        in case mf_delete F of
                             Some e \<Rightarrow> (Some (''delete oldest memories: '' @ e), rows)
                           | None \<Rightarrow> (None, filter (\<lambda>r. \<not> (mr_tenant r = tenant \<and> mr_id r \<in> set ids)) rows))))"

text \<open>\<open>uuid\<close> is the new identifier, \<open>now\<close> the stamp of the database.\<close>

definition memory_Store ::
    "metadata_codec \<Rightarrow> memory_faults \<Rightarrow> string \<Rightarrow> time \<Rightarrow> string \<Rightarrow> memory \<Rightarrow> int \<Rightarrow> memory_row list \<Rightarrow> (go_error + memory) \<times> memory_row list" where
  "memory_Store C F uuid now ctx m maxEntries rows =
     (let tenant = tenantIDFromCtx ctx;
          (e, rows1) = (if maxEntries > 0 then evictIfNeeded F tenant (me_schema m) (me_user m) maxEntries rows else (None, rows))
      in case e of
           Some e \<Rightarrow> (Inl (''evict memories: '' @ e), rows1)
         | None \<Rightarrow>
             (case mf_insert F of
                Some e \<Rightarrow> (Inl (''insert memory: '' @ e), rows1)
              | None \<Rightarrow> (Inr (m\<lparr>me_id := uuid\<rparr>), rows1 @ [memoryToModel C m uuid tenant now])))"

text \<open>Newest first.\<close>

definition newest_first :: "memory_row list \<Rightarrow> memory_row list" where
  "newest_first rows = sort_key (\<lambda>r. - mr_created r) rows"

definition ListBySchema :: "metadata_codec \<Rightarrow> go_error option \<Rightarrow> string \<Rightarrow> string \<Rightarrow> memory_row list \<Rightarrow> go_error + memory list" where
  "ListBySchema C fault ctx schema rows =
     (case fault of
        Some e \<Rightarrow> Inl (''list memories by schema: '' @ e)
      | None \<Rightarrow> Inr (map (modelToMemory C) (newest_first (filter (\<lambda>r. mr_tenant r = tenantIDFromCtx ctx \<and> mr_schema r = schema) rows))))"

definition ListBySchemaAndUser ::
    "metadata_codec \<Rightarrow> go_error option \<Rightarrow> string \<Rightarrow> string \<Rightarrow> string \<Rightarrow> memory_row list \<Rightarrow> go_error + memory list" where
  "ListBySchemaAndUser C fault ctx schema user rows =
     (case fault of
        Some e \<Rightarrow> Inl (''list memories by schema+user: '' @ e)
      | None \<Rightarrow> Inr (map (modelToMemory C) (newest_first (filter (of_triple (tenantIDFromCtx ctx) schema user) rows))))"

text \<open>A deletion answers with the number of rows it has affected.\<close>

definition delete_where :: "(memory_row \<Rightarrow> bool) \<Rightarrow> memory_row list \<Rightarrow> nat \<times> memory_row list" where
  "delete_where P rows = (length (filter P rows), filter (\<lambda>r. \<not> P r) rows)"

definition DeleteBySchema :: "go_error option \<Rightarrow> string \<Rightarrow> string \<Rightarrow> memory_row list \<Rightarrow> (go_error + nat) \<times> memory_row list" where
  "DeleteBySchema fault ctx schema rows =
     (case fault of
        Some e \<Rightarrow> (Inl (''delete memories by schema: '' @ e), rows)
      | None \<Rightarrow>
          (let (n, rows') = delete_where (\<lambda>r. mr_tenant r = tenantIDFromCtx ctx \<and> mr_schema r = schema) rows in (Inr n, rows')))"

definition DeleteByID :: "go_error option \<Rightarrow> string \<Rightarrow> string \<Rightarrow> memory_row list \<Rightarrow> go_error option \<times> memory_row list" where
  "DeleteByID fault ctx i rows =
     (case fault of
        Some e \<Rightarrow> (Some (''delete memory: '' @ e), rows)
      | None \<Rightarrow>
          (let (n, rows') = delete_where (\<lambda>r. mr_tenant r = tenantIDFromCtx ctx \<and> mr_id r = i) rows
           in if n = 0 then (Some (''memory not found: '' @ i), rows') else (None, rows')))"

definition CountBySchemaAndUser :: "go_error option \<Rightarrow> string \<Rightarrow> string \<Rightarrow> string \<Rightarrow> memory_row list \<Rightarrow> go_error + nat" where
  "CountBySchemaAndUser fault ctx schema user rows =
     (case fault of
        Some e \<Rightarrow> Inl (''count memories: '' @ e)
      | None \<Rightarrow> Inr (length (filter (of_triple (tenantIDFromCtx ctx) schema user) rows)))"

text \<open>\<open>AddDate(0, 0, -n)\<close> in a zone whose days all have 24 hours.\<close>

definition days_before :: "time \<Rightarrow> int \<Rightarrow> time" where
  "days_before now n = now - n * (24 * 3600 * second)"

definition CleanupExpiredBySchema ::
    "go_error option \<Rightarrow> time \<Rightarrow> string \<Rightarrow> string \<Rightarrow> int \<Rightarrow> memory_row list \<Rightarrow> (go_error + nat) \<times> memory_row list" where
  "CleanupExpiredBySchema fault now ctx schema retentionDays rows =
     (if retentionDays \<le> 0 then (Inr 0, rows)
      else case fault of
             Some e \<Rightarrow> (Inl (''cleanup expired memories: '' @ e), rows)
           | None \<Rightarrow>
               (let (n, rows') = delete_where (\<lambda>r. mr_tenant r = tenantIDFromCtx ctx \<and> mr_schema r = schema \<and>
                                    mr_created r < days_before now retentionDays) rows
                in (Inr n, rows')))"

section \<open>The retention worker\<close>

record memory_capability =
  mk_agent_id :: string
  mk_type :: string
  mk_enabled :: bool
  mk_config :: string

text \<open>
  The queries of the worker, each with an error or a result: the capabilities; the name of an agent, the identifier of a
  name (empty when there is no row; names are not unique over tenants, so the database chooses), the schemas whose
  relations mention an agent, and the errors of the deletion.
\<close>

record retention_db =
  rt_capabilities :: "go_error + memory_capability list"
  rt_agent_name :: "string \<Rightarrow> go_error + string"
  rt_agent_id :: "string \<Rightarrow> go_error + string"
  rt_schemas :: "string \<Rightarrow> go_error + string list"
  rt_cleanup_error :: "string \<Rightarrow> go_error option"

definition retention_days :: "(string \<Rightarrow> int) \<Rightarrow> (string \<times> gval) list \<Rightarrow> int" where
  "retention_days to_int config =
     (if map_of config ''unlimited_retention'' = Some (GBool True) then 0
      else case map_of config ''retention_days'' of Some (GFloat x) \<Rightarrow> to_int x | _ \<Rightarrow> 0)"

text \<open>The schemas that a capability's retention is applied to, with the days.\<close>

definition retention_targets :: "json_lib \<Rightarrow> (string \<Rightarrow> int) \<Rightarrow> retention_db \<Rightarrow> memory_capability \<Rightarrow> (string \<times> int) list" where
  "retention_targets J to_int D cap =
     (if mk_config cap = [] then []
      else case jl_object J (mk_config cap) of
             None \<Rightarrow> []
           | Some config \<Rightarrow>
               (let days = retention_days to_int config
                in if days \<le> 0 then []
                   else case rt_agent_name D (mk_agent_id cap) of
                          Inl _ \<Rightarrow> []
                        | Inr name \<Rightarrow>
                            if name = [] then []
                            else (case rt_agent_id D name of
                                    Inl _ \<Rightarrow> []
                                  | Inr i \<Rightarrow>
                                      if i = [] then []
                                      else (case rt_schemas D i of Inl _ \<Rightarrow> [] | Inr schemas \<Rightarrow> map (\<lambda>s. (s, days)) schemas))))"

fun cleanup_targets :: "retention_db \<Rightarrow> (nat \<Rightarrow> time) \<Rightarrow> nat \<Rightarrow> string \<Rightarrow> (string \<times> int) list \<Rightarrow> nat \<times> memory_row list \<Rightarrow> nat \<times> memory_row list" where
  "cleanup_targets D clock k ctx [] w = w"
| "cleanup_targets D clock k ctx ((schema, days) # ts) (acc, rows) =
     (case CleanupExpiredBySchema (rt_cleanup_error D schema) (clock k) ctx schema days rows of
        (Inl e, rows') \<Rightarrow> cleanup_targets D clock (Suc k) ctx ts (acc, rows')
      | (Inr n, rows') \<Rightarrow> cleanup_targets D clock (Suc k) ctx ts (acc + n, rows'))"

definition runOnce ::
    "json_lib \<Rightarrow> (string \<Rightarrow> int) \<Rightarrow> retention_db \<Rightarrow> (nat \<Rightarrow> time) \<Rightarrow> string \<Rightarrow> memory_row list \<Rightarrow> nat \<times> memory_row list" where
  "runOnce J to_int D clock ctx rows =
     (case rt_capabilities D of
        Inl e \<Rightarrow> (0, rows)
      | Inr caps \<Rightarrow>
          cleanup_targets D clock 0 ctx
            (concat (map (retention_targets J to_int D) (filter (\<lambda>c. mk_type c = ''memory'' \<and> mk_enabled c) caps))) (0, rows))"

section \<open>Use cases\<close>

definition memory_store_usecase ::
    "(memory \<Rightarrow> int \<Rightarrow> 'r \<Rightarrow> (go_error + memory) \<times> 'r) \<Rightarrow> (nat \<Rightarrow> time) \<Rightarrow> string \<Rightarrow> string \<Rightarrow> string \<Rightarrow>
     (string \<times> string) list \<Rightarrow> int \<Rightarrow> 'r \<Rightarrow> (go_error + memory) \<times> 'r" where
  "memory_store_usecase store clock schemaID userSub content metadata maxEntries r =
     (case NewMemory (clock 0) (clock 1) schemaID userSub content of
        Inl e \<Rightarrow> (Inl (''create memory: '' @ e), r)
      | Inr m \<Rightarrow>
          (case store (fold (AddMetadata (clock 2)) metadata m) maxEntries r of
             (Inl e, r') \<Rightarrow> (Inl (''store memory: '' @ e), r')
           | (Inr m', r') \<Rightarrow> (Inr m', r')))"

definition memory_recall_usecase :: "(string \<Rightarrow> string \<Rightarrow> go_error + memory list) \<Rightarrow> string \<Rightarrow> string \<Rightarrow> go_error + memory list" where
  "memory_recall_usecase list_by schemaID userID =
     (if schemaID = [] then Inl ''schema_id is required''
      else if userID = [] then Inl ''user_id is required''
      else case list_by schemaID userID of Inl e \<Rightarrow> Inl (''recall memories: '' @ e) | Inr ms \<Rightarrow> Inr ms)"

definition memory_list_usecase :: "(string \<Rightarrow> go_error + memory list) \<Rightarrow> string \<Rightarrow> go_error + memory list" where
  "memory_list_usecase list_by schemaID =
     (if schemaID = [] then Inl ''schema_id is required''
      else case list_by schemaID of Inl e \<Rightarrow> Inl (''list memories: '' @ e) | Inr ms \<Rightarrow> Inr ms)"

definition memory_clear_all :: "(string \<Rightarrow> 'r \<Rightarrow> (go_error + nat) \<times> 'r) \<Rightarrow> string \<Rightarrow> 'r \<Rightarrow> (go_error + nat) \<times> 'r" where
  "memory_clear_all delete schemaID r =
     (if schemaID = [] then (Inl ''schema_id is required'', r)
      else case delete schemaID r of
             (Inl e, r') \<Rightarrow> (Inl (''clear memories: '' @ e), r')
           | (Inr n, r') \<Rightarrow> (Inr n, r'))"

definition memory_delete_one :: "(string \<Rightarrow> 'r \<Rightarrow> go_error option \<times> 'r) \<Rightarrow> string \<Rightarrow> 'r \<Rightarrow> go_error option \<times> 'r" where
  "memory_delete_one delete i r =
     (if i = [] then (Some ''memory id is required'', r)
      else case delete i r of
             (Some e, r') \<Rightarrow> (Some (''delete memory: '' @ e), r')
           | (None, r') \<Rightarrow> (None, r'))"

section \<open>The tools\<close>

text \<open>Arguments come decoded; for \<open>memory_recall\<close> with what was decoded before an error, which is not fatal there.\<close>

definition memory_store_run ::
    "(memory \<Rightarrow> int \<Rightarrow> 'r \<Rightarrow> (go_error + memory) \<times> 'r) \<Rightarrow> (nat \<Rightarrow> time) \<Rightarrow> (string \<Rightarrow> go_error + string \<times> (string \<times> string) list) \<Rightarrow>
     string \<Rightarrow> string \<Rightarrow> int \<Rightarrow> string \<Rightarrow> 'r \<Rightarrow> string \<times> 'r" where
  "memory_store_run store clock decode schemaID userSub maxEntries args r =
     (case decode args of
        Inl e \<Rightarrow> (''[ERROR] Invalid arguments: '' @ e, r)
      | Inr (content, metadata) \<Rightarrow>
          if content = [] then (''[ERROR] content is required.'', r)
          else (case NewMemory (clock 0) (clock 1) schemaID userSub content of
                  Inl e \<Rightarrow> (''[ERROR] Invalid memory: '' @ e, r)
                | Inr m \<Rightarrow>
                    (case store (fold (AddMetadata (clock 2)) metadata m) maxEntries r of
                       (Inl e, r') \<Rightarrow> (''[ERROR] Failed to store memory: '' @ e, r')
                     | (Inr _, r') \<Rightarrow> (''Memory stored successfully.'', r'))))"

definition recall_limit :: "int \<Rightarrow> int" where
  "recall_limit n = (let n1 = (if n \<le> 0 then 10 else n) in if n1 > 50 then 50 else n1)"

definition matches_query :: "(string \<Rightarrow> string) \<Rightarrow> string \<Rightarrow> memory \<Rightarrow> bool" where
  "matches_query lower query m \<longleftrightarrow> list_all (\<lambda>w. str_contains (lower (me_content m)) w) (Go_Text.fields (lower query))"

definition recall_line :: "nat \<Rightarrow> memory \<Rightarrow> string" where
  "recall_line i m =
     dec_nat (i + 1) @ ''. '' @ me_content m @ newline @
     (if me_metadata m = [] then []
      else ''   Metadata: '' @ str_join '', '' (map (\<lambda>(k, v). k @ ''='' @ v) (me_metadata m)) @ newline)"

text \<open>The memories that a recall shows.\<close>

definition recalled :: "(string \<Rightarrow> string) \<Rightarrow> string \<Rightarrow> int \<Rightarrow> memory list \<Rightarrow> memory list" where
  "recalled lower query limit ms =
     take (nat (recall_limit limit)) (if query = [] then ms else filter (matches_query lower query) ms)"

definition memory_recall_run ::
    "(string \<Rightarrow> string) \<Rightarrow> (string \<Rightarrow> string \<Rightarrow> go_error + memory list) \<Rightarrow> (string \<Rightarrow> string \<times> int) \<Rightarrow> string \<Rightarrow> string \<Rightarrow> string \<Rightarrow> string" where
  "memory_recall_run lower list_by decode schemaID userSub args =
     (let (query, limit) = (if args = [] then ([], 0) else decode args)
      in case list_by schemaID userSub of
           Inl e \<Rightarrow> ''[ERROR] Failed to recall memories: '' @ e
         | Inr ms \<Rightarrow>
             if ms = [] then ''No memories found for this user in this schema.''
             else let shown = recalled lower query limit ms
                  in if shown = [] then ''No memories matching '' @ [CHR 34] @ query @ [CHR 34] @ '' found.''
                     else ''## Recalled '' @ dec_nat (length shown) @ '' memories'' @ newline @ newline @
                          concat (map (\<lambda>(i, m). recall_line i m) (enumerate 0 shown)))"

section \<open>Tenants\<close>

definition others_kept :: "string \<Rightarrow> memory_row list \<Rightarrow> memory_row list \<Rightarrow> bool" where
  "others_kept tenant rows rows' \<longleftrightarrow> filter (\<lambda>r. mr_tenant r \<noteq> tenant) rows' = filter (\<lambda>r. mr_tenant r \<noteq> tenant) rows"

lemma others_kept_refl [simp]: "others_kept tenant rows rows"
  by (simp add: others_kept_def)

lemma others_kept_trans: "others_kept t a b \<Longrightarrow> others_kept t b c \<Longrightarrow> others_kept t a c"
  by (simp add: others_kept_def)

lemma others_kept_filter: "(\<And>r. mr_tenant r \<noteq> tenant \<Longrightarrow> Q r) \<Longrightarrow> others_kept tenant rows (filter Q rows)"
  unfolding others_kept_def filter_filter by (rule filter_cong) auto

lemma evict_keeps_others: "others_kept tenant rows (snd (evictIfNeeded F tenant schema user n rows))"
  by (auto simp: evictIfNeeded_def Let_def split: option.splits intro!: others_kept_filter)

lemma Store_keeps_others: "others_kept (tenantIDFromCtx ctx) rows (snd (memory_Store C F uuid now ctx m n rows))"
proof -
  let ?t = "tenantIDFromCtx ctx"
  have append: "mr_tenant r = ?t \<Longrightarrow> others_kept ?t rows rows1 \<Longrightarrow> others_kept ?t rows (rows1 @ [r])" for r rows1
    by (simp add: others_kept_def)
  have "others_kept ?t rows (snd (if n > 0 then evictIfNeeded F ?t (me_schema m) (me_user m) n rows else (None, rows)))"
    by (simp add: evict_keeps_others)
  then show ?thesis
    by (auto simp: memory_Store_def Let_def case_prod_beta memoryToModel_def split: option.splits if_splits intro!: append)
qed

lemma DeleteBySchema_keeps_others: "others_kept (tenantIDFromCtx ctx) rows (snd (DeleteBySchema fault ctx schema rows))"
  by (auto simp: DeleteBySchema_def delete_where_def split: option.splits intro!: others_kept_filter)

lemma DeleteByID_keeps_others: "others_kept (tenantIDFromCtx ctx) rows (snd (DeleteByID fault ctx i rows))"
  by (auto simp: DeleteByID_def delete_where_def Let_def split: option.splits intro!: others_kept_filter)

lemma Cleanup_keeps_others: "others_kept (tenantIDFromCtx ctx) rows (snd (CleanupExpiredBySchema fault now ctx schema days rows))"
  by (auto simp: CleanupExpiredBySchema_def delete_where_def Let_def split: option.splits intro!: others_kept_filter)

lemma cleanup_targets_keep_others:
  "others_kept (tenantIDFromCtx ctx) (snd w) (snd (cleanup_targets D clock k ctx ts w))"
proof (induction D clock k ctx ts w rule: cleanup_targets.induct)
  case (2 D clock k ctx schema days ts acc rows)
  let ?c = "CleanupExpiredBySchema (rt_cleanup_error D schema) (clock k) ctx schema days rows"
  have "others_kept (tenantIDFromCtx ctx) rows (snd ?c)" by (rule Cleanup_keeps_others)
  then show ?case using 2 by (cases ?c; cases "fst ?c") (auto intro: others_kept_trans)
qed simp

text \<open>
  The worker runs with the context of the application, which carries no tenant: whatever retention a tenant has
  configured, only memories of the default tenant are ever deleted.
\<close>

lemma retention_only_for_default_tenant: "others_kept CETenantID rows (snd (runOnce J to_int D clock [] rows))"
  using cleanup_targets_keep_others [of "[]" "(0, rows)" D clock 0]
  by (simp add: runOnce_def tenantIDFromCtx_def split: sum.splits)

section \<open>The limit holds and the oldest entries go\<close>

definition no_memory_faults :: memory_faults where
  "no_memory_faults = \<lparr>mf_count = None, mf_find = None, mf_delete = None, mf_insert = None\<rparr>"

definition row_ids_ok :: "string \<Rightarrow> memory_row list \<Rightarrow> bool" where
  "row_ids_ok uuid rows \<longleftrightarrow> distinct (map mr_id rows) \<and> uuid \<notin> mr_id ` set rows"

text \<open>Rows that are taken out by their identifiers are exactly the chosen ones.\<close>

lemma filter_by_ids:
  assumes "distinct (map mr_id rows)" and "set chosen \<subseteq> set rows" and "\<And>r. r \<in> set chosen \<Longrightarrow> mr_tenant r = tenant"
  shows "filter (\<lambda>r. \<not> (mr_tenant r = tenant \<and> mr_id r \<in> mr_id ` set chosen)) rows = filter (\<lambda>r. r \<notin> set chosen) rows"
proof (rule filter_cong [OF refl])
  fix r assume r: "r \<in> set rows"
  have "mr_id r \<in> mr_id ` set chosen \<longleftrightarrow> r \<in> set chosen"
    using assms(1,2) r by (auto simp: distinct_map dest: inj_onD)
  then show "(\<not> (mr_tenant r = tenant \<and> mr_id r \<in> mr_id ` set chosen)) = (r \<notin> set chosen)" using assms(3) by auto
qed

lemma evict_effect:
  assumes "distinct (map mr_id rows)" and "P = of_triple tenant schema user"
  shows "evictIfNeeded no_memory_faults tenant schema user maxEntries rows =
     (None, filter (\<lambda>r. r \<notin> set (oldest_rows (nat (int (length (filter P rows)) - maxEntries + 1)) P rows)) rows)"
proof -
  let ?n = "int (length (filter P rows)) - maxEntries + 1"
  let ?old = "oldest_rows (nat ?n) P rows"
  have sub: "set ?old \<subseteq> set rows" and ten: "\<And>r. r \<in> set ?old \<Longrightarrow> mr_tenant r = tenant"
    by (auto simp: oldest_rows_def assms(2) of_triple_def dest!: in_set_takeD)
  show ?thesis
    using filter_by_ids [OF assms(1) sub ten]
    by (auto simp: evictIfNeeded_def no_memory_faults_def Let_def assms(2) oldest_rows_def)
qed

lemma oldest_rows_split:
  assumes "distinct rows" and "k = oldest_rows n P rows"
  shows "set k \<subseteq> set (filter P rows)" and "distinct k" and "length k = min n (length (filter P rows))"
    and "\<And>x y. x \<in> set k \<Longrightarrow> y \<in> set (filter P rows) \<Longrightarrow> y \<notin> set k \<Longrightarrow> mr_created x \<le> mr_created y"
proof -
  let ?s = "sort_key mr_created (filter P rows)"
  have s: "set ?s = set (filter P rows)" "distinct ?s" "length ?s = length (filter P rows)" "sorted (map mr_created ?s)"
    using assms(1) by simp_all
  show "set k \<subseteq> set (filter P rows)" unfolding assms(2) oldest_rows_def by (metis s(1) set_take_subset)
  show "distinct k" unfolding assms(2) oldest_rows_def using s(2) by simp
  show "length k = min n (length (filter P rows))" unfolding assms(2) oldest_rows_def using s(3) by simp
  fix x y assume x: "x \<in> set k" and y: "y \<in> set (filter P rows)" "y \<notin> set k"
  have "y \<in> set (drop n ?s)" using y s(1) unfolding assms(2) oldest_rows_def
    by (metis Un_iff append_take_drop_id set_append)
  moreover have "x \<in> set (take n ?s)" using x unfolding assms(2) oldest_rows_def .
  moreover have "sorted (map mr_created (take n ?s) @ map mr_created (drop n ?s))"
    using s(4) by (metis append_take_drop_id map_append)
  ultimately show "mr_created x \<le> mr_created y" by (auto simp: sorted_append)
qed

text \<open>C25: The memory of a user keeps to its limit: storing an entry with a limit leaves exactly one more entry than
  before, or as many as the limit allows, the new one among them; whatever was evicted is not younger than anything
  that was kept, and the entries of other users, schemas and tenants are untouched.\<close>

theorem memory_limit_holds:
  assumes "row_ids_ok uuid rows" and "maxEntries > 0"
    and "memory_Store C no_memory_faults uuid now ctx m maxEntries rows = (res, rows')"
    and "P = of_triple (tenantIDFromCtx ctx) (me_schema m) (me_user m)"
  shows "length (filter P rows') = min (length (filter P rows)) (nat (maxEntries - 1)) + 1 \<and>
         memoryToModel C m uuid (tenantIDFromCtx ctx) now \<in> set rows' \<and>
         filter (\<lambda>r. \<not> P r) rows' = filter (\<lambda>r. \<not> P r) rows \<and>
         (\<forall>x \<in> set (filter P rows) - set rows'. \<forall>y \<in> set (filter P rows) \<inter> set rows'. mr_created x \<le> mr_created y)"
proof -
  let ?new = "memoryToModel C m uuid (tenantIDFromCtx ctx) now"
  define n where "n = nat (int (length (filter P rows)) - maxEntries + 1)"
  define k where "k = oldest_rows n P rows"
  have d: "distinct rows" and di: "distinct (map mr_id rows)" using assms(1) by (auto simp: row_ids_ok_def distinct_map)
  have "mr_id ?new = uuid" by (simp add: memoryToModel_def)
  then have fresh: "?new \<notin> set rows" using assms(1) imageI [of ?new "set rows" mr_id] by (metis row_ids_ok_def)
  note k = oldest_rows_split [OF d k_def]
  have rows': "rows' = filter (\<lambda>r. r \<notin> set k) rows @ [?new]"
    using assms(2,3) evict_effect [OF di assms(4), of maxEntries] by (simp add: memory_Store_def Let_def assms(4) [symmetric] k_def n_def no_memory_faults_def)
  have Pnew: "P ?new" by (simp add: assms(4) of_triple_def memoryToModel_def)
  have "filter P rows' = filter (\<lambda>r. r \<notin> set k) (filter P rows) @ [?new]"
    using Pnew by (simp add: rows' conj_commute)
  moreover have "length (filter (\<lambda>r. r \<notin> set k) (filter P rows)) = length (filter P rows) - length k"
  proof -
    have "length (filter (\<lambda>r. r \<notin> set k) (filter P rows)) = card (set (filter P rows) - set k)"
      using d by (subst distinct_card [symmetric]) (auto simp: set_diff_eq intro!: arg_cong [where f = card])
    moreover have "card (set (filter P rows)) = length (filter P rows)" using d by (intro distinct_card) simp
    ultimately show ?thesis using k(1,2) by (simp only: card_Diff_subset finite_set distinct_card)
  qed
  ultimately have len: "length (filter P rows') = min (length (filter P rows)) (nat (maxEntries - 1)) + 1"
    using k(3) assms(2) by (simp add: n_def)
  have rest: "filter (\<lambda>r. \<not> P r) rows' = filter (\<lambda>r. \<not> P r) rows"
    using Pnew k(1) by (auto simp: rows' intro!: filter_cong)
  have "mr_created x \<le> mr_created y" if x: "x \<in> set (filter P rows) - set rows'" and y: "y \<in> set (filter P rows) \<inter> set rows'" for x y
  proof -
    have "x \<in> set k" using x by (auto simp: rows')
    moreover have "y \<notin> set k" using y fresh by (auto simp: rows')
    ultimately show ?thesis using k(4) y by auto
  qed
  then show ?thesis using len rest rows' by auto
qed

definition plain_codec :: metadata_codec where
  "plain_codec = \<lparr>mc_encode = (\<lambda>_. None), mc_decode = (\<lambda>_. [])\<rparr>"

definition demo_memory_row :: "string \<Rightarrow> time \<Rightarrow> memory_row" where
  "demo_memory_row i t =
     \<lparr>mr_id = i, mr_tenant = ''t'', mr_schema = ''s'', mr_user = ''u'', mr_content = ''c'', mr_metadata = ''{}'', mr_created = t, mr_updated = t\<rparr>"

definition demo_memory :: memory where
  "demo_memory = \<lparr>me_id = [], me_tenant = [], me_schema = ''s'', me_user = ''u'', me_content = ''d'', me_metadata = [], me_created = 0, me_updated = 0\<rparr>"

theorem memory_limit_holds_witness:
  "length (filter (of_triple ''t'' ''s'' ''u'')
     (snd (memory_Store plain_codec no_memory_faults ''3'' 9 ''t'' demo_memory 2 [demo_memory_row ''2'' 5, demo_memory_row ''1'' 4]))) = 2"
proof -
  let ?rows = "[demo_memory_row ''2'' 5, demo_memory_row ''1'' 4]"
  have ok: "row_ids_ok ''3'' ?rows" by (simp add: row_ids_ok_def demo_memory_row_def)
  have P: "of_triple ''t'' ''s'' ''u'' = of_triple (tenantIDFromCtx ''t'') (me_schema demo_memory) (me_user demo_memory)"
    by (simp add: tenantIDFromCtx_def demo_memory_def)
  from memory_limit_holds [OF ok _ surjective_pairing P, of 2 plain_codec 9]
  show ?thesis by (simp add: of_triple_def demo_memory_row_def)
qed

section \<open>What a recall shows\<close>

text \<open>A recall shows at most 50 memories, all of them in the order of the list (newest first), and each contains
  every word of the query, whatever limit the model asks for.\<close>

theorem recall_is_bounded:
  "length (recalled lower query limit ms) \<le> 50 \<and> subseq (recalled lower query limit ms) ms \<and>
   list_all (\<lambda>m. query = [] \<or> matches_query lower query m) (recalled lower query limit ms)"
proof -
  let ?ms = "if query = [] then ms else filter (matches_query lower query) ms"
  have "nat (recall_limit limit) \<le> 50" by (simp add: recall_limit_def Let_def nat_le_iff)
  then have "length (take (nat (recall_limit limit)) ?ms) \<le> 50" by (simp add: min_le_iff_disj)
  moreover have "subseq (take (nat (recall_limit limit)) ?ms) ?ms"
    by (metis prefix_imp_subseq take_is_prefix)
  moreover have "subseq ?ms ms" by simp
  moreover have "list_all (\<lambda>m. query = [] \<or> matches_query lower query m) (take (nat (recall_limit limit)) ?ms)"
    by (auto simp: list_all_iff dest: in_set_takeD)
  ultimately show ?thesis unfolding recalled_def by (metis subseq_order.trans)
qed

lemma newest_first_sorted: "sorted (map (\<lambda>r. - mr_created r) (newest_first rows))" and "set (newest_first rows) = set rows"
  by (simp_all add: newest_first_def)

text \<open>What a user stores is what the same user recalls, and nobody else.\<close>

lemma stored_is_listed:
  assumes "memory_Store C no_memory_faults uuid now ctx m 0 rows = (res, rows')"
    and "ListBySchemaAndUser C None ctx (me_schema m) (me_user m) rows' = Inr ms"
  shows "\<exists>m' \<in> set ms. me_id m' = uuid \<and> me_content m' = me_content m"
  using assms
  by (auto simp: memory_Store_def ListBySchemaAndUser_def no_memory_faults_def of_triple_def newest_first_def
      memoryToModel_def modelToMemory_def image_iff)

lemma tool_refuses_empty_content: "decode args = Inr ([], md) \<Longrightarrow> memory_store_run store clock decode s u n args r = (''[ERROR] content is required.'', r)"
  by (simp add: memory_store_run_def)

lemma tool_without_user: "decode args = Inr (c, md) \<Longrightarrow> s \<noteq> [] \<Longrightarrow> c \<noteq> [] \<Longrightarrow>
   memory_store_run store clock decode s [] n args r = (''[ERROR] Invalid memory: user_sub is required'', r)"
  by (simp add: memory_store_run_def NewMemory_def memory_validate_def)

end
