(* ===== verification/Agent_Tools.thy ===== *)
theory Agent_Tools
  imports Agent_Pool Session_Events Go_Text
begin

text \<open>
  The tools by which a model shows structured output, searches the knowledge base, calls an HTTP endpoint and spawns other
  agents (\<open>internal/infrastructure/tools\<close>: \<open>structured_output_tool.go\<close>, \<open>knowledge_search_tool.go\<close>,
  \<open>declarative_tool.go\<close>, \<open>spawn_tool.go\<close>, \<open>spawn_agent_tool.go\<close>).

  Arguments come decoded; the decoders of nested JSON, the encoder, the HTTP client, the searches and the embedding are
  parameters.  The pool of agents is an interface on a world: a wait that never returns has no outcome.

  The theory shows which questions are accepted, what a hybrid search returns, and when a spawn tool touches the pool.
\<close>

section \<open>Structured output\<close>

record question_option =
  qo_label :: string
  qo_value :: string

record question =
  qu_id :: string
  qu_label :: string
  qu_type :: string
  qu_options :: "question_option list"
  qu_default :: string

record structured_row =
  sr_label :: string
  sr_value :: string

record structured_action =
  sa_label :: string
  sa_type :: string
  sa_value :: string

record structured_output =
  so_output_type :: string
  so_title :: string
  so_description :: string
  so_rows :: "structured_row list"
  so_actions :: "structured_action list"
  so_questions :: "question list"

definition maxQuestions :: nat where "maxQuestions = 5"
definition maxQuestionOpts :: nat where "maxQuestionOpts = 5"

text \<open>The first complaint about the options of question \<open>i\<close>, counted from 1.\<close>

fun check_options :: "nat \<Rightarrow> nat \<Rightarrow> question_option list \<Rightarrow> string" where
  "check_options i j [] = []"
| "check_options i j (opt # opts) =
     (if qo_label opt = [] then ''question '' @ dec_nat i @ '' option '' @ dec_nat j @ '': label is required''
      else check_options i (Suc j) opts)"

definition check_question :: "nat \<Rightarrow> question \<Rightarrow> string" where
  "check_question i q =
     (if qu_id q = [] then ''question '' @ dec_nat i @ '': id is required''
      else if qu_label q = [] then ''question '' @ dec_nat i @ '': label is required''
      else if qu_type q = ''text'' then []
      else if qu_type q = ''select'' \<or> qu_type q = ''multiselect''
           then (if length (qu_options q) < 2 then ''question '' @ dec_nat i @ '': '' @ qu_type q @ '' requires at least 2 options''
                 else if length (qu_options q) > maxQuestionOpts
                      then ''question '' @ dec_nat i @ '': too many options, maximum '' @ dec_nat maxQuestionOpts
                 else check_options i 1 (qu_options q))
      else ''question '' @ dec_nat i @ '': unsupported type '' @ go_quote (qu_type q) @ '' (use text|select|multiselect)'')"

fun check_questions :: "nat \<Rightarrow> question list \<Rightarrow> string" where
  "check_questions i [] = []"
| "check_questions i (q # qs) = (if check_question i q \<noteq> [] then check_question i q else check_questions (Suc i) qs)"

definition validateStructuredQuestions :: "string \<Rightarrow> question list \<Rightarrow> string" where
  "validateStructuredQuestions outputType questions =
     (if outputType = ''form'' \<and> questions = [] then ''form output_type requires at least one question''
      else if length questions > maxQuestions then ''too many questions: maximum '' @ dec_nat maxQuestions @ '' allowed''
      else check_questions 1 questions)"

text \<open>\<open>as_string\<close> and \<open>as_questions\<close> decode a JSON string and a JSON array of questions.\<close>

definition parseStructuredQuestions ::
    "(string \<Rightarrow> string option) \<Rightarrow> (string \<Rightarrow> go_error + question list) \<Rightarrow> string \<Rightarrow> go_error + question list" where
  "parseStructuredQuestions as_string as_questions raw =
     (if raw = [] \<or> raw = ''null'' then Inr []
      else case as_string raw of
             Some s \<Rightarrow>
               if s = [] then Inr []
               else (case as_questions s of Inl e \<Rightarrow> Inl (''failed to parse questions string: '' @ e) | Inr qs \<Rightarrow> Inr qs)
           | None \<Rightarrow> (case as_questions raw of Inl e \<Rightarrow> Inl (''failed to parse questions: '' @ e) | Inr qs \<Rightarrow> Inr qs))"

record structured_args =
  sg_output_type :: string
  sg_title :: string
  sg_description :: string
  sg_rows :: "structured_row list"
  sg_actions :: "structured_action list"
  sg_questions :: string

record structured_json =
  sj_args :: "string \<Rightarrow> go_error + structured_args"
  sj_string :: "string \<Rightarrow> string option"
  sj_questions :: "string \<Rightarrow> go_error + question list"
  sj_marshal :: "structured_output \<Rightarrow> go_error + string"

text \<open>The answer and the content of the event, if one is sent.\<close>

definition structured_output_run :: "structured_json \<Rightarrow> bool \<Rightarrow> string \<Rightarrow> string \<times> string option" where
  "structured_output_run J emitter args_json =
     (case sj_args J args_json of
        Inl e \<Rightarrow> (''[ERROR] Invalid JSON: '' @ e, None)
      | Inr args \<Rightarrow>
          if sg_output_type args = [] then (''[ERROR] output_type is required'', None)
          else (case parseStructuredQuestions (sj_string J) (sj_questions J) (sg_questions args) of
                  Inl e \<Rightarrow> (''[ERROR] '' @ e, None)
                | Inr questions \<Rightarrow>
                    (let complaint = validateStructuredQuestions (sg_output_type args) questions
                     in if complaint \<noteq> [] then (''[ERROR] '' @ complaint, None)
                        else (case sj_marshal J \<lparr>so_output_type = sg_output_type args, so_title = sg_title args,
                                       so_description = sg_description args, so_rows = sg_rows args, so_actions = sg_actions args,
                                       so_questions = questions\<rparr> of
                                Inl e \<Rightarrow> (''[ERROR] failed to serialize output: '' @ e, None)
                              | Inr content \<Rightarrow>
                                  (''Structured output displayed to user.'', if emitter then Some content else None)))))"

section \<open>Searching the knowledge base\<close>

record knowledge_chunk =
  kc_id :: string
  kc_file_name :: string
  kc_content :: string

record 'v knowledge_search =
  ks_agent :: string
  ks_kbs :: "string list"
  ks_default_limit :: int
  ks_embed :: "string \<Rightarrow> go_error + 'v"
  ks_similar :: "string list \<Rightarrow> 'v \<Rightarrow> int \<Rightarrow> go_error + knowledge_chunk list"
  ks_keyword :: "string list \<Rightarrow> string \<Rightarrow> int \<Rightarrow> go_error + knowledge_chunk list"

fun add_chunks :: "knowledge_chunk list \<Rightarrow> knowledge_chunk list \<Rightarrow> knowledge_chunk list" where
  "add_chunks [] chunks = chunks"
| "add_chunks (c # cs) chunks = add_chunks cs (if kc_id c \<in> kc_id ` set chunks then chunks else chunks @ [c])"

definition merge_keyword :: "(string \<Rightarrow> go_error + knowledge_chunk list) \<Rightarrow> string \<Rightarrow> knowledge_chunk list \<Rightarrow> knowledge_chunk list" where
  "merge_keyword keyword word chunks =
     (if length word < 4 then chunks
      else case keyword word of Inl _ \<Rightarrow> chunks | Inr kw \<Rightarrow> add_chunks kw chunks)"

definition knowledge_limit :: "int \<Rightarrow> int \<Rightarrow> int" where
  "knowledge_limit dflt n = (let n1 = (if n \<le> 0 then dflt else n) in if n1 > 20 then 20 else n1)"

definition result_text :: "string \<Rightarrow> nat \<Rightarrow> knowledge_chunk \<Rightarrow> string" where
  "result_text agent i c =
     (let source = (if kc_file_name c \<noteq> [] \<and> kc_file_name c \<noteq> ''.'' then kc_file_name c else agent)
      in ''### Result '' @ dec_nat (i + 1) @ '' (Source: '' @ source @ '')'' @ newline @ kc_content c @ newline @ newline @
         ''---'' @ newline @ newline)"

text \<open>The chunks that a search finds, or the error it answers with.\<close>

definition found_chunks :: "'v knowledge_search \<Rightarrow> string \<Rightarrow> int \<Rightarrow> string + knowledge_chunk list" where
  "found_chunks K query limit =
     (case ks_embed K query of
        Inl e \<Rightarrow> Inl (''[ERROR] Failed to embed query: '' @ e)
      | Inr v \<Rightarrow>
          (case ks_similar K (ks_kbs K) v (knowledge_limit (ks_default_limit K) limit) of
             Inl e \<Rightarrow> Inl (''[ERROR] Search failed: '' @ e)
           | Inr chunks \<Rightarrow> Inr (fold (merge_keyword (\<lambda>w. ks_keyword K (ks_kbs K) w 3)) (Go_Text.fields query) chunks)))"

definition knowledge_search_run :: "(string \<Rightarrow> go_error + string \<times> int) \<Rightarrow> 'v knowledge_search \<Rightarrow> string \<Rightarrow> string" where
  "knowledge_search_run decode K args =
     (case decode args of
        Inl e \<Rightarrow> ''[ERROR] Invalid arguments: '' @ e @ ''. Please provide a query.''
      | Inr (query, limit) \<Rightarrow>
          if query = [] then ''[ERROR] query is required.''
          else if ks_kbs K = []
               then ''No results found in knowledge base for: '' @ [CHR 34] @ query @ [CHR 34] @ ''. No knowledge bases linked to agent.''
          else (case found_chunks K query limit of
                  Inl answer \<Rightarrow> answer
                | Inr [] \<Rightarrow>
                    ''No results found in knowledge base for: '' @ [CHR 34] @ query @ [CHR 34] @ ''. Try different search terms.''
                | Inr chunks \<Rightarrow>
                    ''## Knowledge search results for '' @ [CHR 34] @ query @ [CHR 34] @ newline @ newline @
                    concat (map (\<lambda>(i, c). result_text (ks_agent K) i c) (enumerate 0 chunks))))"

section \<open>Calling an endpoint\<close>

record http_tool =
  ht_endpoint :: string
  ht_method :: string
  ht_headers :: "(string \<times> string) list"
  ht_auth :: "(string \<times> string) option"

record http_request =
  hq_method :: string
  hq_url :: string
  hq_body :: "string option"
  hq_headers :: "(string \<times> string) list"

text \<open>The libraries of URLs, JSON and HTTP, the upper case of Unicode and the environment.\<close>

record http_world =
  hw_upper :: "string \<Rightarrow> string"
  hw_args :: "string \<Rightarrow> go_error + (string \<times> gval) list"
  hw_query :: "string \<Rightarrow> (string \<times> gval) list \<Rightarrow> go_error + string"
  hw_body :: "(string \<times> gval) list \<Rightarrow> go_error + string"
  hw_request :: "http_request \<Rightarrow> go_error option"
  hw_do :: "http_request \<Rightarrow> go_error + int \<times> (go_error + string)"
  hw_lookup :: "string \<Rightarrow> string"

definition isHTTPMethod :: "string \<Rightarrow> bool" where
  "isHTTPMethod m \<longleftrightarrow> m \<in> set [''GET'', ''POST'', ''PUT'', ''DELETE'', ''PATCH'', ''HEAD'']"

definition parseEndpoint :: "(string \<Rightarrow> string) \<Rightarrow> string \<Rightarrow> string \<Rightarrow> string \<times> string" where
  "parseEndpoint upper endpoint verb =
     (case split_n (CHR 32) 2 endpoint of
        [a, b] \<Rightarrow>
          if isHTTPMethod (upper a) then (upper a, b)
          else (upper (if verb = [] then ''GET'' else verb), endpoint)
      | _ \<Rightarrow> (upper (if verb = [] then ''GET'' else verb), endpoint))"

definition buildRequest :: "http_world \<Rightarrow> string \<Rightarrow> string \<Rightarrow> (string \<times> gval) list \<Rightarrow> go_error + string \<times> string option" where
  "buildRequest H verb baseURL args =
     (if verb = ''GET'' \<or> verb = ''HEAD''
      then (case hw_query H baseURL args of Inl e \<Rightarrow> Inl (''parse URL: '' @ e) | Inr u \<Rightarrow> Inr (u, None))
      else (case hw_body H args of Inl e \<Rightarrow> Inl (''marshal body: '' @ e) | Inr b \<Rightarrow> Inr (baseURL, Some b)))"

definition request_headers :: "http_world \<Rightarrow> http_tool \<Rightarrow> bool \<Rightarrow> (string \<times> string) list" where
  "request_headers H t hasBody =
     ht_headers t @ (if hasBody then [(''Content-Type'', ''application/json'')] else []) @
     (case ht_auth t of
        Some (kind, token_env) \<Rightarrow>
          if kind = ''bearer'' \<and> hw_lookup H token_env \<noteq> [] then [(''Authorization'', ''Bearer '' @ hw_lookup H token_env)] else []
      | None \<Rightarrow> [])"

definition declarative_run :: "http_world \<Rightarrow> http_tool \<Rightarrow> string \<Rightarrow> go_error + string" where
  "declarative_run H t args_json =
     (let (verb, baseURL) = parseEndpoint (hw_upper H) (ht_endpoint t) (ht_method t)
      in case hw_args H args_json of
           Inl e \<Rightarrow> Inl (''parse args: '' @ e)
         | Inr args \<Rightarrow>
             (case buildRequest H verb baseURL args of
                Inl e \<Rightarrow> Inl (''build request: '' @ e)
              | Inr (url, body) \<Rightarrow>
                  (let req = \<lparr>hq_method = verb, hq_url = url, hq_body = body, hq_headers = request_headers H t (body \<noteq> None)\<rparr>
                   in case hw_request H req of
                        Some e \<Rightarrow> Inl (''create request: '' @ e)
                      | None \<Rightarrow>
                          (case hw_do H req of
                             Inl e \<Rightarrow> Inl (''HTTP request failed: '' @ e)
                           | Inr (status, Inl e) \<Rightarrow> Inl (''read response: '' @ e)
                           | Inr (status, Inr text) \<Rightarrow>
                               Inr (if status \<ge> 400 then ''HTTP '' @ dec_int status @ '': '' @ text else text)))))"

section \<open>Spawning agents\<close>

text \<open>The pool as its tools see it; the order in which Go walks a map of results is \<open>sp_order\<close>.\<close>

record 'w spawn_pool =
  sp_spawn_task :: "string \<Rightarrow> 'w \<Rightarrow> (go_error + string) \<times> 'w"
  sp_spawn_described :: "string \<Rightarrow> string \<Rightarrow> 'w \<Rightarrow> (go_error + string) \<times> 'w"
  sp_wait_all :: "'w \<Rightarrow> ((go_error + wait_result) \<times> 'w) option"
  sp_wait_agent :: "string \<Rightarrow> 'w \<Rightarrow> ((go_error + completion_info) \<times> 'w) option"
  sp_status :: "string \<Rightarrow> 'w \<Rightarrow> completion_info option"
  sp_all :: "'w \<Rightarrow> completion_info list"
  sp_stop :: "string \<Rightarrow> 'w \<Rightarrow> go_error option \<times> 'w"
  sp_restart :: "string \<Rightarrow> 'w \<Rightarrow> (go_error + string) \<times> 'w"
  sp_order :: "(string \<rightharpoonup> completion_info) \<Rightarrow> completion_info list"

definition formatAgentCompletion :: "string \<Rightarrow> completion_info \<Rightarrow> string" where
  "formatAgentCompletion aid i =
     ''Agent: '' @ aid @ newline @ ''Subtask: '' @ ci_subtask_id i @ newline @ ''Status: '' @ ci_status i @
     (if ci_result i = [] then [] else newline @ ''Result: '' @ ci_result i) @
     (if ci_error i = [] then [] else newline @ ''Error: '' @ ci_error i)"

definition interrupt_answer :: "wait_result \<Rightarrow> string \<Rightarrow> string" where
  "interrupt_answer r paused =
     (if wr_is_responder r
      then ''[INTERRUPT] User message received while agents work.'' @ newline @ ''User said: '' @ wr_user_message r @ newline @
           ''Agents still running: '' @ str_join '', '' (wr_still_running r) @ newline @ newline @
           ''Handle the user'' @ [CHR 39] @ ''s message, then call spawn_agent(action=wait) to resume waiting.''
      else paused)"

definition paused_short :: string where
  "paused_short = ''[PAUSED] Interrupt handled by parallel spawn call.''"

definition paused_long :: string where
  "paused_long = ''[PAUSED] Interrupt handled by parallel spawn call. See the [INTERRUPT] result in the other spawn response.''"

record spawn_args =
  sw_action :: string
  sw_subtask :: string
  sw_agent :: string
  sw_flow_type :: string
  sw_description :: string

definition after_wait ::
    "'w spawn_pool \<Rightarrow> string \<Rightarrow> (wait_result \<Rightarrow> string) \<Rightarrow> 'w \<Rightarrow> (string \<times> 'w) option" where
  "after_wait P paused answer w =
     (case sp_wait_all P w of
        None \<Rightarrow> None
      | Some (Inl e, w') \<Rightarrow> Some (''[ERROR] wait failed: '' @ e, w')
      | Some (Inr r, w') \<Rightarrow> Some (if wr_interrupted r then interrupt_answer r paused else answer r, w'))"

definition pool_spawn_run :: "'w spawn_pool \<Rightarrow> spawn_args \<Rightarrow> 'w \<Rightarrow> (string \<times> 'w) option" where
  "pool_spawn_run P a w =
     (let kind = (if sw_flow_type a = [] then ''coder'' else sw_flow_type a)
      in if kind \<notin> set [''coder'', ''researcher'', ''reviewer'']
         then Some (''[ERROR] invalid flow_type: '' @ sw_flow_type a @ ''. Must be: coder, researcher, reviewer'', w)
         else if kind = ''coder'' \<and> sw_subtask a = [] then Some (''[ERROR] subtask_id is required for coder agent'', w)
         else if kind \<noteq> ''coder'' \<and> sw_description a = []
              then Some (''[ERROR] task_description is required for '' @ sw_flow_type a @ '' agent'', w)
         else (case (if kind = ''coder'' then sp_spawn_task P (sw_subtask a) w else sp_spawn_described P kind (sw_description a) w) of
                 (Inl e, w') \<Rightarrow>
                   Some (if str_contains e ''max concurrent agents reached''
                         then ''Cannot spawn new agent: '' @ e @
                              ''. Use spawn_agent(action=list) to check running agents, or spawn_agent(action=stop, agent_id=...) to stop one.''
                         else if kind = ''coder''
                         then ''[ERROR] '' @ e @ ''. subtask_id MUST be the exact ID returned by manage_subtasks(action=create), e.g. '' @
                              [CHR 34] @ ''a1b2c3d4'' @ [CHR 34] @
                              ''. Do NOT invent IDs. Use manage_subtasks(action=get_ready, task_id=...) to list available subtask IDs.''
                         else ''[ERROR] '' @ e, w')
               | (Inr aid, w') \<Rightarrow>
                   after_wait P paused_long
                     (\<lambda>r. case wr_results r aid of
                            Some i \<Rightarrow> formatAgentCompletion aid i
                          | None \<Rightarrow> ''Agent '' @ aid @ '' completed (no result in map).'') w'))"

definition pool_status_text :: "completion_info \<Rightarrow> string" where
  "pool_status_text i = formatAgentCompletion (ci_agent_id i) i"

definition SpawnAgentTool_run :: "'w spawn_pool \<Rightarrow> (go_error + spawn_args) \<Rightarrow> 'w \<Rightarrow> (string \<times> 'w) option" where
  "SpawnAgentTool_run P decoded w =
     (case decoded of
        Inl e \<Rightarrow> Some (''[ERROR] Invalid JSON: '' @ e, w)
      | Inr a \<Rightarrow>
          if sw_action a = []
          then Some (''[ERROR] '' @ [CHR 34] @ ''action'' @ [CHR 34] @ '' field is empty. You MUST specify an action.'' @ newline @
                     ''Valid actions: spawn, wait, status, list, stop, restart.'' @ newline @
                     ''Typical workflow: manage_subtasks(action=create) '' @ [CHR 0xE2, CHR 0x86, CHR 0x92] @
                     '' spawn_agent(action=spawn, subtask_id=<ID from create response>).'' @ newline @
                     ''Example: {'' @ [CHR 34] @ ''action'' @ [CHR 34] @ '': '' @ [CHR 34] @ ''spawn'' @ [CHR 34] @ '', '' @
                     [CHR 34] @ ''subtask_id'' @ [CHR 34] @ '': '' @ [CHR 34] @ ''abc123'' @ [CHR 34] @ ''}'', w)
          else if sw_action a = ''spawn'' then pool_spawn_run P a w
          else if sw_action a = ''wait''
          then after_wait P paused_short
                 (\<lambda>r. if sp_order P (wr_results r) = [] then ''All agents completed (no results).''
                      else str_join (newline @ ''---'' @ newline)
                             (map (\<lambda>i. formatAgentCompletion (ci_agent_id i) i) (sp_order P (wr_results r)))) w
          else if sw_action a = ''status''
          then (if sw_agent a = [] then Some (''[ERROR] agent_id is required for status'', w)
                else case sp_status P (sw_agent a) w of
                       None \<Rightarrow> Some (''[STALE] Agent '' @ sw_agent a @ '' no longer exists (server was restarted). '' @
                                 ''If the subtask is still in_progress, fail it and create a new subtask with spawn action.'', w)
                     | Some i \<Rightarrow> Some (pool_status_text i, w))
          else if sw_action a = ''list''
          then (if sp_all P w = [] then Some (''No agents running.'', w)
                else Some (''Agents ('' @ dec_nat (length (sp_all P w)) @ ''):'' @ newline @
                           concat (map (\<lambda>i. ''  ['' @ ci_agent_id i @ ''] subtask='' @ ci_subtask_id i @ '' status='' @ ci_status i @ newline)
                             (sp_all P w)), w))
          else if sw_action a = ''stop''
          then (if sw_agent a = [] then Some (''[ERROR] agent_id is required for stop'', w)
                else case sp_stop P (sw_agent a) w of
                       (Some e, w') \<Rightarrow> Some (''[ERROR] '' @ e, w')
                     | (None, w') \<Rightarrow> Some (''Agent '' @ sw_agent a @ '' stopped.'', w'))
          else if sw_action a = ''restart''
          then (if sw_agent a = [] then Some (''[ERROR] agent_id is required for restart'', w)
                else case sp_restart P (sw_agent a) w of
                       (Inl e, w') \<Rightarrow> Some (''[ERROR] '' @ e, w')
                     | (Inr new, w') \<Rightarrow>
                         after_wait P paused_short
                           (\<lambda>r. ''Agent restarted.'' @ newline @ ''Old agent: '' @ sw_agent a @ newline @ ''New agent: '' @ new @
                                (case wr_results r new of
                                   Some i \<Rightarrow> newline @ newline @ formatAgentCompletion new i
                                 | None \<Rightarrow> newline @ ''Status: completed'')) w')
          else Some (''[ERROR] Unknown action: '' @ sw_action a @ ''. Valid: spawn, wait, status, list, stop, restart'', w))"

text \<open>The tools \<open>spawn_<name>\<close> and the general \<open>spawn_agent\<close>; \<open>quote\<close> is how the name is shown.\<close>

definition agent_answer :: "string \<Rightarrow> (go_error + completion_info) \<Rightarrow> string" where
  "agent_answer shown r =
     (case r of
        Inl e \<Rightarrow> ''Agent '' @ shown @ '' spawned but wait failed: '' @ e
      | Inr i \<Rightarrow>
          if ci_status i = ''failed'' \<or> ci_error i \<noteq> [] then ''Agent '' @ shown @ '' failed: '' @ ci_error i
          else if ci_result i \<noteq> [] then ''Agent '' @ shown @ '' completed:'' @ newline @ ci_result i
          else ''Agent '' @ shown @ '' completed (no output)'')"

definition target_spawn :: "'w spawn_pool \<Rightarrow> string \<Rightarrow> string \<Rightarrow> 'w \<Rightarrow> ((go_error + string) \<times> 'w) option" where
  "target_spawn P target description w =
     (if description = [] then Some (Inl ''description required for spawn action'', w)
      else case sp_spawn_described P target description w of
             (Inl e, w') \<Rightarrow> Some (Inl (''spawn agent: '' @ e), w')
           | (Inr aid, w') \<Rightarrow>
               (case sp_wait_agent P aid w' of
                  None \<Rightarrow> None
                | Some (r, w'') \<Rightarrow> Some (Inr (agent_answer ([CHR 39] @ target @ [CHR 39]) r), w'')))"

text \<open>The encoder of JSON is \<open>marshal\<close>; of the results of a wait it gets what the tool makes of them.\<close>

record spawn_json =
  sn_summaries :: "(string \<times> string \<times> string \<times> string) list \<Rightarrow> go_error + string"
  sn_info :: "completion_info \<Rightarrow> go_error + string"
  sn_infos :: "completion_info list \<Rightarrow> go_error + string"

definition target_spawn_run ::
    "'w spawn_pool \<Rightarrow> spawn_json \<Rightarrow> string \<Rightarrow> (go_error + string \<times> string \<times> string) \<Rightarrow> 'w \<Rightarrow> ((go_error + string) \<times> 'w) option" where
  "target_spawn_run P J target decoded w =
     (case decoded of
        Inl e \<Rightarrow> Some (Inl (''parse args: '' @ e), w)
      | Inr (action, description, aid) \<Rightarrow>
          if action = ''spawn'' then target_spawn P target description w
          else if action = ''wait''
          then (case sp_wait_all P w of
                  None \<Rightarrow> None
                | Some (Inl e, w') \<Rightarrow> Some (Inl (''wait for agents: '' @ e), w')
                | Some (Inr r, w') \<Rightarrow>
                    Some (case sn_summaries J (map (\<lambda>i. (ci_agent_id i, ci_agent_id i, ci_result i, ci_status i)) (sp_order P (wr_results r))) of
                            Inl e \<Rightarrow> Inl (''marshal wait result: '' @ e) | Inr s \<Rightarrow> Inr s, w'))
          else if action = ''status''
          then (if aid = [] then Some (Inl ''agent_id required for status action'', w)
                else case sp_status P aid w of
                       None \<Rightarrow> Some (Inr (''Agent '' @ aid @ '' not found''), w)
                     | Some i \<Rightarrow> Some (case sn_info J i of Inl e \<Rightarrow> Inl (''marshal agent info: '' @ e) | Inr s \<Rightarrow> Inr s, w))
          else if action = ''list''
          then Some (case sn_infos J (sp_all P w) of Inl e \<Rightarrow> Inl (''marshal agent infos: '' @ e) | Inr s \<Rightarrow> Inr s, w)
          else if action = ''stop''
          then (if aid = [] then Some (Inl ''agent_id required for stop action'', w)
                else case sp_stop P aid w of
                       (Some e, w') \<Rightarrow> Some (Inl (''stop agent: '' @ e), w')
                     | (None, w') \<Rightarrow> Some (Inr (''Agent '' @ aid @ '' stopped''), w'))
          else Some (Inl (''unknown action '' @ go_quote action), w))"

text \<open>The general tool first records two tasks, if there is a task manager; its errors are only logged.\<close>

record 'w spawn_tasks =
  sk_root :: "string \<Rightarrow> 'w \<Rightarrow> (go_error + string) \<times> 'w"
  sk_sub :: "string \<Rightarrow> string \<Rightarrow> string \<Rightarrow> 'w \<Rightarrow> (go_error + string) \<times> 'w"

definition record_spawn :: "'w spawn_tasks option \<Rightarrow> string \<Rightarrow> string \<Rightarrow> 'w \<Rightarrow> 'w" where
  "record_spawn T agent input w =
     (case T of
        None \<Rightarrow> w
      | Some T \<Rightarrow>
          (case sk_root T ''Agent orchestration'' w of
             (Inl _, w') \<Rightarrow> w'
           | (Inr root, w') \<Rightarrow> snd (sk_sub T root (''Spawn: '' @ agent) input w')))"

definition generic_spawn_run ::
    "'w spawn_pool \<Rightarrow> 'w spawn_tasks option \<Rightarrow> (go_error + string \<times> string) \<Rightarrow> 'w \<Rightarrow> ((go_error + string) \<times> 'w) option" where
  "generic_spawn_run P T decoded w =
     (case decoded of
        Inl e \<Rightarrow> Some (Inl (''parse args: '' @ e), w)
      | Inr (agent, input) \<Rightarrow>
          if agent = [] then Some (Inr ''[ERROR] agent_name is required'', w)
          else (case sp_spawn_described P agent input (record_spawn T agent input w) of
                  (Inl e, w') \<Rightarrow> Some (Inr (''[ERROR] spawn agent '' @ go_quote agent @ '': '' @ e), w')
                | (Inr aid, w') \<Rightarrow>
                    (case sp_wait_agent P aid w' of
                       None \<Rightarrow> None
                     | Some (r, w'') \<Rightarrow> Some (Inr (agent_answer (go_quote agent) r), w''))))"

section \<open>Which questions are accepted\<close>

definition question_ok :: "question \<Rightarrow> bool" where
  "question_ok q \<longleftrightarrow>
     qu_id q \<noteq> [] \<and> qu_label q \<noteq> [] \<and>
     (if qu_type q = ''text'' then True
      else (qu_type q = ''select'' \<or> qu_type q = ''multiselect'') \<and> 2 \<le> length (qu_options q) \<and> length (qu_options q) \<le> 5 \<and>
           list_all (\<lambda>opt. qo_label opt \<noteq> []) (qu_options q))"

lemma check_options_ok: "check_options i j opts = [] \<longleftrightarrow> list_all (\<lambda>opt. qo_label opt \<noteq> []) opts"
  by (induction opts arbitrary: j) auto

lemma check_question_ok: "check_question i q = [] \<longleftrightarrow> question_ok q"
  by (auto simp: check_question_def question_ok_def check_options_ok maxQuestionOpts_def)

lemma check_questions_ok: "check_questions i qs = [] \<longleftrightarrow> list_all question_ok qs"
  by (induction qs arbitrary: i) (auto simp: check_question_ok)

text \<open>A form is shown exactly if it is well formed: between one and five questions, each with an identifier, a label and
  a known type, and each choice with two to five labelled options.\<close>

theorem questions_accepted_iff:
  "validateStructuredQuestions outputType questions = [] \<longleftrightarrow>
   \<not> (outputType = ''form'' \<and> questions = []) \<and> length questions \<le> 5 \<and> list_all question_ok questions"
  by (simp add: validateStructuredQuestions_def maxQuestions_def check_questions_ok)

lemma shown_output_is_valid:
  assumes "structured_output_run J emitter a = (answer, Some content)"
  obtains args questions where "sj_args J a = Inr args"
    and "parseStructuredQuestions (sj_string J) (sj_questions J) (sg_questions args) = Inr questions"
    and "validateStructuredQuestions (sg_output_type args) questions = []" and "emitter"
  using assms by (auto simp: structured_output_run_def Let_def split: sum.splits if_splits)

text \<open>Without an emitter the tool says that the output is displayed, and displays nothing.\<close>

lemma silent_without_emitter: "snd (structured_output_run J False a) = None"
  by (auto simp: structured_output_run_def Let_def split: sum.splits)

lemma answer_ignores_emitter: "fst (structured_output_run J True a) = fst (structured_output_run J False a)"
  by (auto simp: structured_output_run_def Let_def split: sum.splits)

section \<open>The result of a hybrid search\<close>

definition new_chunks :: "knowledge_chunk list \<Rightarrow> knowledge_chunk list \<Rightarrow> bool" where
  "new_chunks old extra \<longleftrightarrow> distinct (map kc_id extra) \<and> kc_id ` set extra \<inter> kc_id ` set old = {}"

lemma new_chunks_append:
  "new_chunks old xs \<Longrightarrow> new_chunks (old @ xs) ys \<Longrightarrow> new_chunks old (xs @ ys)"
  by (auto simp: new_chunks_def)

lemma add_chunks_extends: "\<exists>extra. add_chunks cs chunks = chunks @ extra \<and> new_chunks chunks extra"
proof (induction cs arbitrary: chunks)
  case Nil
  then show ?case by (simp add: new_chunks_def)
next
  case (Cons c cs)
  show ?case
  proof (cases "kc_id c \<in> kc_id ` set chunks")
    case True
    then show ?thesis using Cons.IH [of chunks] by simp
  next
    case False
    obtain extra where e: "add_chunks cs (chunks @ [c]) = (chunks @ [c]) @ extra" "new_chunks (chunks @ [c]) extra"
      using Cons.IH by blast
    have "new_chunks chunks [c]" using False by (simp add: new_chunks_def)
    then have "new_chunks chunks ([c] @ extra)" using e(2) by (rule new_chunks_append)
    then show ?thesis using False e(1) by (intro exI [of _ "[c] @ extra"]) simp
  qed
qed

lemma merge_keywords_extend: "\<exists>extra. fold (merge_keyword kw) words chunks = chunks @ extra \<and> new_chunks chunks extra"
proof (induction words arbitrary: chunks)
  case Nil
  then show ?case by (simp add: new_chunks_def)
next
  case (Cons w words)
  have "\<exists>e1. merge_keyword kw w chunks = chunks @ e1 \<and> new_chunks chunks e1"
  proof (cases "length w < 4 \<or> (\<exists>e. kw w = Inl e)")
    case True
    then show ?thesis by (intro exI [of _ "[]"]) (auto simp: merge_keyword_def new_chunks_def)
  next
    case False
    then obtain cs where "kw w = Inr cs" by (cases "kw w") auto
    then show ?thesis using False add_chunks_extends [of cs chunks] by (simp add: merge_keyword_def)
  qed
  then obtain e1 where e1: "merge_keyword kw w chunks = chunks @ e1" "new_chunks chunks e1" by blast
  obtain e2 where e2: "fold (merge_keyword kw) words (chunks @ e1) = (chunks @ e1) @ e2" "new_chunks (chunks @ e1) e2"
    using Cons.IH by blast
  then show ?case using e1 new_chunks_append [OF e1(2) e2(2)] by (intro exI [of _ "e1 @ e2"]) simp
qed

text \<open>A knowledge search puts the results of the similarity search first, in their order, and after them only
  chunks that were found by a keyword and are not among the earlier ones, each once.\<close>

theorem keyword_results_follow:
  assumes "ks_embed K query = Inr v" and "ks_similar K (ks_kbs K) v (knowledge_limit (ks_default_limit K) limit) = Inr similar"
    and "found_chunks K query limit = Inr chunks"
  shows "\<exists>extra. chunks = similar @ extra \<and> distinct (map kc_id extra) \<and> kc_id ` set extra \<inter> kc_id ` set similar = {}"
proof -
  have "chunks = fold (merge_keyword (\<lambda>w. ks_keyword K (ks_kbs K) w 3)) (Go_Text.fields query) similar"
    using assms by (simp add: found_chunks_def)
  then show ?thesis using merge_keywords_extend [of "\<lambda>w. ks_keyword K (ks_kbs K) w 3" "Go_Text.fields query" similar]
    by (auto simp: new_chunks_def)
qed

definition demo_search :: "unit knowledge_search" where
  "demo_search =
     \<lparr>ks_agent = ''a'', ks_kbs = [''kb''], ks_default_limit = 1, ks_embed = (\<lambda>_. Inr ()),
      ks_similar = (\<lambda>_ _ n. Inr (take (nat n) [\<lparr>kc_id = ''1'', kc_file_name = [], kc_content = ''x''\<rparr>])),
      ks_keyword = (\<lambda>_ w _. Inr [\<lparr>kc_id = ''1'', kc_file_name = [], kc_content = ''x''\<rparr>, \<lparr>kc_id = w, kc_file_name = [], kc_content = ''y''\<rparr>])\<rparr>"

lemma demo_search_result:
  "found_chunks demo_search ''refund'' 1 =
     Inr [\<lparr>kc_id = ''1'', kc_file_name = [], kc_content = ''x''\<rparr>, \<lparr>kc_id = ''refund'', kc_file_name = [], kc_content = ''y''\<rparr>]"
  by code_simp

theorem keyword_results_follow_witness:
  "\<exists>extra. [\<lparr>kc_id = ''1'', kc_file_name = [], kc_content = ''x''\<rparr>, \<lparr>kc_id = ''refund'', kc_file_name = [], kc_content = ''y''\<rparr>] =
     [\<lparr>kc_id = ''1'', kc_file_name = [], kc_content = ''x''\<rparr>] @ extra \<and> distinct (map kc_id extra) \<and>
     kc_id ` set extra \<inter> kc_id ` set [\<lparr>kc_id = ''1'', kc_file_name = [], kc_content = ''x''\<rparr>] = {}"
  by (rule keyword_results_follow [OF _ _ demo_search_result, where v = "()"])
     (simp_all add: demo_search_def knowledge_limit_def)

text \<open>The limit bounds the similarity search only: with a limit of one, two results come back.\<close>

lemma limit_is_exceeded: "found_chunks demo_search ''refund'' 1 = Inr chunks \<Longrightarrow> length chunks = 2"
  by (auto simp: demo_search_result)

section \<open>Spawning\<close>

lemma unknown_kind_refused:
  "sw_flow_type a \<notin> set [[], ''coder'', ''researcher'', ''reviewer''] \<Longrightarrow> \<exists>answer. pool_spawn_run P a w = Some (answer, w)"
  by (simp add: pool_spawn_run_def)

lemma spawn_without_target_refused:
  "(sw_flow_type a = [] \<or> sw_flow_type a = ''coder'') \<and> sw_subtask a = [] \<Longrightarrow> \<exists>answer. pool_spawn_run P a w = Some (answer, w)"
  by (auto simp: pool_spawn_run_def Let_def)

text \<open>A spawn whose wait was not interrupted answers with the result of the agent that was spawned.\<close>

lemma spawn_reports_its_agent:
  assumes "sw_subtask a \<noteq> []" and "sw_flow_type a = []" and "sp_spawn_task P (sw_subtask a) w = (Inr aid, w1)"
    and "sp_wait_all P w1 = Some (Inr r, w2)" and "\<not> wr_interrupted r" and "wr_results r aid = Some i"
  shows "pool_spawn_run P a w = Some (formatAgentCompletion aid i, w2)"
  using assms by (simp add: pool_spawn_run_def after_wait_def)

text \<open>A wait that was interrupted hands the user's message to one caller, the others are told that they are paused.\<close>

lemma only_the_responder_sees_the_message:
  "wr_interrupted r \<Longrightarrow> sp_wait_all P w = Some (Inr r, w') \<Longrightarrow>
   after_wait P paused answer w = Some (if wr_is_responder r then interrupt_answer r paused else paused, w')"
  by (simp add: after_wait_def interrupt_answer_def)

text \<open>The general tool creates its tasks before the agent is spawned and never looks at them again, whatever happens.\<close>

lemma tasks_stay_after_failed_spawn:
  "agent \<noteq> [] \<Longrightarrow> sp_spawn_described P agent input (record_spawn T agent input w) = (Inl e, w') \<Longrightarrow>
   generic_spawn_run P T (Inr (agent, input)) w = Some (Inr (''[ERROR] spawn agent '' @ go_quote agent @ '': '' @ e), w')"
  by (simp add: generic_spawn_run_def)

lemma http_error_is_an_answer:
  assumes "parseEndpoint (hw_upper H) (ht_endpoint t) (ht_method t) = (verb, u)" and "hw_args H a = Inr args"
    and "buildRequest H verb u args = Inr (url, body)" and "\<And>q. hw_request H q = None"
    and "\<And>q. hw_do H q = Inr (status, Inr text)" and "status \<ge> 400"
  shows "declarative_run H t a = Inr (''HTTP '' @ dec_int status @ '': '' @ text)"
  using assms by (simp add: declarative_run_def Let_def)

lemma get_has_no_body: "buildRequest H ''GET'' u args = Inr (url, body) \<Longrightarrow> body = None"
  by (auto simp: buildRequest_def split: sum.splits)

text \<open>
  The wait of \<open>spawn_<name>\<close> does not look at the interrupt: the message of the user that ended the wait, which no
  other caller will be given, is not in its answer.
\<close>

lemma target_wait_drops_the_message:
  assumes "sp_wait_all P w = Some (Inr r, w')" and "sp_wait_all P' w = Some (Inr (r\<lparr>wr_interrupted := False, wr_user_message := []\<rparr>), w')"
    and "sp_order P' = sp_order P"
  shows "target_spawn_run P J target (Inr (''wait'', d, i)) w = target_spawn_run P' J target (Inr (''wait'', d, i)) w"
  using assms by (simp add: target_spawn_run_def)

end
