(* ===== verification/Model_Repository.thy ===== *)
theory Model_Repository
  imports Task_Repository "HOL-Library.List_Lexorder" "HOL-Library.Char_ord"
begin

text \<open>
  The table of models and its repository (\<open>internal/infrastructure/persistence/configrepo/llm_provider_repository.go\<close>,
  \<open>persistence/models/llm_provider.go\<close>, the indexes and checks of \<open>migrations\<close>).

  The table is the list of its rows in the order of the storage.  A query can fail with an error of the database, which
  is an argument; a statement that would break an index or a check fails, too, and changes nothing.  \<open>Updates\<close> of a
  record writes the columns whose value is not the zero value of Go.

  The theory shows that the table keeps its indexes, that no operation touches a row of another tenant, and that
  \<open>SetDefault\<close> leaves exactly one default.
\<close>

section \<open>The table\<close>

text \<open>The configuration of a row is absent for the empty text; otherwise the object with the dimension is what counts.\<close>

record llm_row =
  lr_id :: string
  lr_name :: string
  lr_type :: string
  lr_kind :: string
  lr_default :: bool
  lr_base_url :: string
  lr_model_name :: string
  lr_api_key :: string
  lr_api_version :: string
  lr_config :: "int option"
  lr_tenant :: string
  lr_created :: time
  lr_updated :: time

definition EmbeddingDim :: "llm_row \<Rightarrow> int" where
  "EmbeddingDim r = (case lr_config r of None \<Rightarrow> 0 | Some d \<Rightarrow> d)"

definition default_chat :: "string \<Rightarrow> llm_row \<Rightarrow> bool" where
  "default_chat tenant r \<longleftrightarrow> lr_tenant r = tenant \<and> lr_default r \<and> lr_kind r = ''chat''"

definition row_checks :: "llm_row \<Rightarrow> bool" where
  "row_checks r \<longleftrightarrow> lr_type r \<in> {''ollama'', ''openai_compatible'', ''anthropic'', ''azure_openai''} \<and> lr_kind r \<in> {''chat'', ''embedding''}"

text \<open>The primary key, the index on tenant and name, the partial index on the default and the checks.\<close>

definition indexes_hold :: "llm_row list \<Rightarrow> bool" where
  "indexes_hold rows \<longleftrightarrow>
     distinct (map lr_id rows) \<and> distinct (map (\<lambda>r. (lr_tenant r, lr_name r)) rows) \<and>
     distinct (map lr_tenant (filter (\<lambda>r. lr_default r \<and> lr_kind r = ''chat'') rows)) \<and> list_all row_checks rows"

text \<open>How a statement ends: an error of the database, a broken index or check, or the new rows.\<close>

definition checked :: "go_error option \<Rightarrow> (llm_row list \<Rightarrow> go_error) \<Rightarrow> llm_row list \<Rightarrow> llm_row list \<Rightarrow> go_error option \<times> llm_row list" where
  "checked fault broken new rows =
     (case fault of
        Some e \<Rightarrow> (Some e, rows)
      | None \<Rightarrow> if indexes_hold new then (None, new) else (Some (broken new), rows))"

section \<open>The repository\<close>

definition lr_scope :: "string \<Rightarrow> llm_row \<Rightarrow> bool" where
  "lr_scope ctx r \<longleftrightarrow> lr_tenant r = tenantIDFromCtx ctx"

text \<open>\<open>First\<close> orders by the primary key.\<close>

definition first_row :: "('r \<Rightarrow> string) \<Rightarrow> ('r \<Rightarrow> bool) \<Rightarrow> 'r list \<Rightarrow> 'r option" where
  "first_row key P rows = (case sort_key key (filter P rows) of [] \<Rightarrow> None | r # _ \<Rightarrow> Some r)"

definition llm_List :: "go_error option \<Rightarrow> string \<Rightarrow> llm_row list \<Rightarrow> go_error + llm_row list" where
  "llm_List fault ctx rows =
     (case fault of Some e \<Rightarrow> Inl (''list llm providers: '' @ e) | None \<Rightarrow> Inr (sort_key lr_name (filter (lr_scope ctx) rows)))"

definition llm_GetByID :: "go_error option \<Rightarrow> string \<Rightarrow> string \<Rightarrow> llm_row list \<Rightarrow> go_error + llm_row" where
  "llm_GetByID fault ctx i rows =
     (case fault of
        Some e \<Rightarrow> Inl (''get llm provider '' @ i @ '': '' @ e)
      | None \<Rightarrow>
          (case first_row lr_id (\<lambda>r. lr_scope ctx r \<and> lr_id r = i) rows of
             None \<Rightarrow> Inl (''get llm provider '' @ i @ '': record not found'')
           | Some r \<Rightarrow> Inr r))"

definition llm_Create ::
    "go_error option \<Rightarrow> (llm_row list \<Rightarrow> go_error) \<Rightarrow> string \<Rightarrow> time \<Rightarrow> string \<Rightarrow> llm_row \<Rightarrow> llm_row list \<Rightarrow> (go_error + llm_row) \<times> llm_row list" where
  "llm_Create fault broken uuid now ctx m rows =
     (let r = m\<lparr>lr_id := uuid, lr_tenant := tenantIDFromCtx ctx, lr_created := now, lr_updated := now,
                lr_kind := (if lr_kind m = [] then ''chat'' else lr_kind m),
                lr_config := Some (EmbeddingDim m)\<rparr>
      in case checked fault broken (rows @ [r]) rows of
           (Some e, rows') \<Rightarrow> (Inl (''create llm provider: '' @ e), rows')
         | (None, rows') \<Rightarrow> (Inr r, rows'))"

definition nonempty_or :: "string \<Rightarrow> string \<Rightarrow> string" where
  "nonempty_or old new = (if new = [] then old else new)"

definition merge_row :: "time \<Rightarrow> llm_row \<Rightarrow> llm_row \<Rightarrow> llm_row" where
  "merge_row now m r =
     r\<lparr>lr_name := nonempty_or (lr_name r) (lr_name m), lr_type := nonempty_or (lr_type r) (lr_type m),
       lr_kind := nonempty_or (lr_kind r) (lr_kind m), lr_default := (lr_default m \<or> lr_default r),
       lr_base_url := nonempty_or (lr_base_url r) (lr_base_url m),
       lr_model_name := nonempty_or (lr_model_name r) (lr_model_name m),
       lr_api_key := nonempty_or (lr_api_key r) (lr_api_key m),
       lr_api_version := nonempty_or (lr_api_version r) (lr_api_version m),
       lr_config := (case lr_config m of None \<Rightarrow> lr_config r | Some d \<Rightarrow> Some d), lr_updated := now\<rparr>"

definition change_rows :: "('r \<Rightarrow> bool) \<Rightarrow> ('r \<Rightarrow> 'r) \<Rightarrow> 'r list \<Rightarrow> 'r list" where
  "change_rows P f rows = map (\<lambda>r. if P r then f r else r) rows"

definition llm_Update ::
    "go_error option \<Rightarrow> (llm_row list \<Rightarrow> go_error) \<Rightarrow> time \<Rightarrow> string \<Rightarrow> string \<Rightarrow> llm_row \<Rightarrow> llm_row list \<Rightarrow> go_error option \<times> llm_row list" where
  "llm_Update fault broken now ctx i m rows =
     (let mine = (\<lambda>r. lr_scope ctx r \<and> lr_id r = i)
      in case checked fault broken (change_rows mine (merge_row now m) rows) rows of
           (Some e, rows') \<Rightarrow> (Some (''update llm provider: '' @ e), rows')
         | (None, rows') \<Rightarrow> if filter mine rows = [] then (Some (''llm provider not found: '' @ i), rows') else (None, rows'))"

definition llm_Delete :: "go_error option \<Rightarrow> string \<Rightarrow> string \<Rightarrow> llm_row list \<Rightarrow> go_error option \<times> llm_row list" where
  "llm_Delete fault ctx i rows =
     (let mine = (\<lambda>r. lr_scope ctx r \<and> lr_id r = i)
      in case fault of
           Some e \<Rightarrow> (Some (''delete llm provider: '' @ e), rows)
         | None \<Rightarrow> if filter mine rows = [] then (Some (''llm provider not found: '' @ i), rows)
                   else (None, filter (\<lambda>r. \<not> mine r) rows))"

definition GetModelKind :: "go_error option \<Rightarrow> string \<Rightarrow> string \<Rightarrow> llm_row list \<Rightarrow> go_error + string" where
  "GetModelKind fault ctx i rows =
     (case fault of
        Some e \<Rightarrow> Inl (''get model kind '' @ i @ '': '' @ e)
      | None \<Rightarrow>
          (case filter (\<lambda>r. lr_scope ctx r \<and> lr_id r = i) rows of
             [] \<Rightarrow> Inl (''model not found: '' @ i)
           | r # _ \<Rightarrow> if lr_kind r = [] then Inl (''model not found: '' @ i) else Inr (lr_kind r)))"

definition llm_GetDefault :: "go_error option \<Rightarrow> string \<Rightarrow> string \<Rightarrow> llm_row list \<Rightarrow> go_error + llm_row option" where
  "llm_GetDefault fault ctx kind rows =
     (let k = (if kind = [] then ''chat'' else kind)
      in case fault of
           Some e \<Rightarrow> Inl (''get default '' @ k @ '' model: '' @ e)
         | None \<Rightarrow> Inr (first_row lr_id (\<lambda>r. lr_scope ctx r \<and> lr_default r \<and> lr_kind r = k) rows))"

text \<open>The two statements of the transaction, with the errors that the database may answer.\<close>

definition cleared :: "time \<Rightarrow> string \<Rightarrow> string \<Rightarrow> llm_row list \<Rightarrow> llm_row list" where
  "cleared now tenant i rows = change_rows (\<lambda>r. default_chat tenant r \<and> lr_id r \<noteq> i) (\<lambda>r. r\<lparr>lr_default := False, lr_updated := now\<rparr>) rows"

definition promoted :: "time \<Rightarrow> string \<Rightarrow> string \<Rightarrow> llm_row list \<Rightarrow> llm_row list" where
  "promoted now tenant i rows = change_rows (\<lambda>r. lr_id r = i \<and> lr_tenant r = tenant) (\<lambda>r. r\<lparr>lr_default := True, lr_updated := now\<rparr>) rows"

definition SetDefault ::
    "go_error option \<Rightarrow> go_error option \<Rightarrow> (llm_row list \<Rightarrow> go_error) \<Rightarrow> time \<Rightarrow> string \<Rightarrow> string \<Rightarrow> llm_row list \<Rightarrow> go_error option \<times> llm_row list" where
  "SetDefault fault1 fault2 broken now ctx i rows =
     (let tenant = tenantIDFromCtx ctx
      in case checked fault1 broken (cleared now tenant i rows) rows of
           (Some e, _) \<Rightarrow> (Some e, rows)
         | (None, rows1) \<Rightarrow>
             (case checked fault2 broken (promoted now tenant i rows1) rows1 of
                (Some e, _) \<Rightarrow> (Some e, rows)
              | (None, rows2) \<Rightarrow>
                  if filter (\<lambda>r. lr_id r = i \<and> lr_tenant r = tenant) rows1 = [] then (Some (''model not found: '' @ i), rows)
                  else (None, rows2)))"

section \<open>What the statements keep\<close>

lemma checked_indexes: "indexes_hold rows \<Longrightarrow> indexes_hold (snd (checked fault broken new rows))"
  by (simp add: checked_def split: option.split)

lemma checked_rows: "snd (checked fault broken new rows) \<in> {new, rows}"
  by (simp add: checked_def split: option.split)

lemma checked_None: "checked fault broken new rows = (None, rows') \<longleftrightarrow> fault = None \<and> indexes_hold new \<and> rows' = new"
  by (auto simp: checked_def split: option.split)

lemma indexes_filter: "indexes_hold rows \<Longrightarrow> indexes_hold (filter P rows)"
  unfolding indexes_hold_def filter_filter
  by (auto simp: distinct_map_filter list_all_iff conj_commute distinct_map inj_on_def)

lemma llm_Create_indexes: "indexes_hold rows \<Longrightarrow> indexes_hold (snd (llm_Create fault broken uuid now ctx m rows))"
  using checked_indexes unfolding llm_Create_def Let_def by (auto split: prod.splits option.splits) (metis snd_conv)+

lemma llm_Update_indexes: "indexes_hold rows \<Longrightarrow> indexes_hold (snd (llm_Update fault broken now ctx i m rows))"
  using checked_indexes unfolding llm_Update_def Let_def by (auto split: prod.splits option.splits) (metis snd_conv)+

lemma llm_Delete_indexes: "indexes_hold rows \<Longrightarrow> indexes_hold (snd (llm_Delete fault ctx i rows))"
  by (simp add: llm_Delete_def Let_def indexes_filter split: option.split)

lemma SetDefault_cases:
  "SetDefault fault1 fault2 broken now ctx i rows =
     (if fault1 = None \<and> indexes_hold (cleared now (tenantIDFromCtx ctx) i rows) \<and> fault2 = None
         \<and> indexes_hold (promoted now (tenantIDFromCtx ctx) i (cleared now (tenantIDFromCtx ctx) i rows))
         \<and> (\<exists>r \<in> set (cleared now (tenantIDFromCtx ctx) i rows). lr_id r = i \<and> lr_tenant r = tenantIDFromCtx ctx)
      then (None, promoted now (tenantIDFromCtx ctx) i (cleared now (tenantIDFromCtx ctx) i rows))
      else (fst (SetDefault fault1 fault2 broken now ctx i rows), rows))"
  by (auto simp: SetDefault_def checked_def Let_def filter_empty_conv split: option.splits prod.splits)

lemma SetDefault_indexes: "indexes_hold rows \<Longrightarrow> indexes_hold (snd (SetDefault fault1 fault2 broken now ctx i rows))"
  by (subst SetDefault_cases) auto

text \<open>No operation touches a row of another tenant.\<close>

definition rows_of_others :: "string \<Rightarrow> llm_row list \<Rightarrow> llm_row list" where
  "rows_of_others ctx rows = filter (\<lambda>r. \<not> lr_scope ctx r) rows"

lemma change_rows_others:
  "(\<And>r. P r \<Longrightarrow> lr_scope ctx r \<and> lr_tenant (f r) = lr_tenant r) \<Longrightarrow> rows_of_others ctx (change_rows P f rows) = rows_of_others ctx rows"
  by (induction rows) (auto simp: rows_of_others_def change_rows_def lr_scope_def)

lemma merge_row_simps [simp]: "lr_tenant (merge_row now m r) = lr_tenant r" "lr_id (merge_row now m r) = lr_id r"
  by (simp_all add: merge_row_def)

lemma llm_Create_others: "rows_of_others ctx (snd (llm_Create fault broken uuid now ctx m rows)) = rows_of_others ctx rows"
  by (auto simp: llm_Create_def checked_def Let_def rows_of_others_def lr_scope_def split: option.splits)

lemma llm_Update_others: "rows_of_others ctx (snd (llm_Update fault broken now ctx i m rows)) = rows_of_others ctx rows"
  by (auto simp: llm_Update_def checked_def Let_def split: option.splits intro!: change_rows_others)

lemma llm_Delete_others: "rows_of_others ctx (snd (llm_Delete fault ctx i rows)) = rows_of_others ctx rows"
  by (auto simp: llm_Delete_def rows_of_others_def lr_scope_def Let_def filter_filter split: option.splits intro!: filter_cong)

lemma SetDefault_others: "rows_of_others ctx (snd (SetDefault fault1 fault2 broken now ctx i rows)) = rows_of_others ctx rows"
proof -
  have "rows_of_others ctx (promoted now (tenantIDFromCtx ctx) i (cleared now (tenantIDFromCtx ctx) i rows)) = rows_of_others ctx rows"
    unfolding promoted_def cleared_def
    by (subst change_rows_others, simp add: lr_scope_def)+ (simp_all add: lr_scope_def default_chat_def)
  then show ?thesis by (subst SetDefault_cases) auto
qed

section \<open>The default\<close>

lemma distinct_map_filter_nth:
  "distinct (map f (filter P xs)) \<longleftrightarrow> (\<forall>i j. i < j \<and> j < length xs \<and> P (xs ! i) \<and> P (xs ! j) \<longrightarrow> f (xs ! i) \<noteq> f (xs ! j))"
proof (induction xs)
  case (Cons x xs)
  have "(\<forall>i j. i < j \<and> j < length (x # xs) \<and> P ((x # xs) ! i) \<and> P ((x # xs) ! j) \<longrightarrow> f ((x # xs) ! i) \<noteq> f ((x # xs) ! j))
     \<longleftrightarrow> (P x \<longrightarrow> (\<forall>y \<in> set xs. P y \<longrightarrow> f x \<noteq> f y)) \<and>
         (\<forall>i j. i < j \<and> j < length xs \<and> P (xs ! i) \<and> P (xs ! j) \<longrightarrow> f (xs ! i) \<noteq> f (xs ! j))" (is "?L \<longleftrightarrow> ?R1 \<and> ?R2")
  proof (intro iffI conjI)
    assume L: ?L
    show ?R1
    proof (intro impI ballI)
      fix y assume "P x" "y \<in> set xs" "P y"
      then obtain j where "j < length xs" "xs ! j = y" by (auto simp: in_set_conv_nth)
      with L [rule_format, of 0 "Suc j"] \<open>P x\<close> \<open>P y\<close> show "f x \<noteq> f y" by simp
    qed
    show ?R2 using L [rule_format, of "Suc _" "Suc _"] by simp
  next
    assume R: "?R1 \<and> ?R2"
    show ?L
    proof (intro allI impI)
      fix i j assume ij: "i < j \<and> j < length (x # xs) \<and> P ((x # xs) ! i) \<and> P ((x # xs) ! j)"
      then obtain j' where "j = Suc j'" by (cases j) auto
      then show "f ((x # xs) ! i) \<noteq> f ((x # xs) ! j)" using R ij by (cases i) auto
    qed
  qed
  then show ?case using Cons by (auto simp: image_iff)
qed simp

definition turn_default :: "time \<Rightarrow> string \<Rightarrow> string \<Rightarrow> llm_row \<Rightarrow> llm_row" where
  "turn_default now tenant i r =
     (if lr_id r = i \<and> lr_tenant r = tenant then r\<lparr>lr_default := True, lr_updated := now\<rparr>
      else if default_chat tenant r then r\<lparr>lr_default := False, lr_updated := now\<rparr> else r)"

lemma promoted_cleared: "promoted now tenant i (cleared now tenant i rows) = map (turn_default now tenant i) rows"
  by (auto simp: promoted_def cleared_def change_rows_def turn_default_def default_chat_def)

lemma default_flags:
  "(lr_default (turn_default now tenant i r) \<and> lr_kind (turn_default now tenant i r) = ''chat'') \<longleftrightarrow>
     lr_kind r = ''chat'' \<and> (if lr_tenant r = tenant then lr_id r = i else lr_default r)"
  by (auto simp: turn_default_def default_chat_def)

lemma turn_default_keeps [simp]:
  "lr_id (turn_default now tenant i r) = lr_id r" "lr_tenant (turn_default now tenant i r) = lr_tenant r"
  "lr_name (turn_default now tenant i r) = lr_name r" "row_checks (turn_default now tenant i r) = row_checks r"
  by (auto simp: turn_default_def row_checks_def)

lemma distinct_key_eq: "distinct (map f xs) \<Longrightarrow> i < length xs \<Longrightarrow> j < length xs \<Longrightarrow> f (xs ! i) = f (xs ! j) \<Longrightarrow> i = j"
  by (metis distinct_conv_nth length_map nth_map)

lemma indexes_map:
  assumes rows: "indexes_hold rows"
    and keeps: "\<And>r. lr_id (h r) = lr_id r" "\<And>r. lr_tenant (h r) = lr_tenant r" "\<And>r. lr_name (h r) = lr_name r" "\<And>r. row_checks (h r) = row_checks r"
    and one: "\<And>r s. r \<in> set rows \<Longrightarrow> s \<in> set rows \<Longrightarrow> lr_tenant r = lr_tenant s \<Longrightarrow> lr_default (h r) \<and> lr_kind (h r) = ''chat'' \<Longrightarrow>
           lr_default (h s) \<and> lr_kind (h s) = ''chat'' \<Longrightarrow> lr_id r = lr_id s"
  shows "indexes_hold (map h rows)"
proof -
  have ids: "distinct (map lr_id rows)" using rows by (simp add: indexes_hold_def)
  have "distinct (map lr_tenant (filter (\<lambda>r. lr_default r \<and> lr_kind r = ''chat'') (map h rows)))"
    unfolding distinct_map_filter_nth
  proof (intro allI impI)
    fix j k assume jk: "j < k \<and> k < length (map h rows) \<and> (lr_default (map h rows ! j) \<and> lr_kind (map h rows ! j) = ''chat'')
        \<and> lr_default (map h rows ! k) \<and> lr_kind (map h rows ! k) = ''chat''"
    then have len: "j < length rows" "k < length rows" "j \<noteq> k" by auto
    show "lr_tenant (map h rows ! j) \<noteq> lr_tenant (map h rows ! k)"
    proof
      assume same: "lr_tenant (map h rows ! j) = lr_tenant (map h rows ! k)"
      have "lr_id (rows ! j) = lr_id (rows ! k)"
        by (rule one) (use jk len same in \<open>simp_all add: keeps\<close>)
      then show False using distinct_key_eq [OF ids] len by blast
    qed
  qed
  then show ?thesis using rows by (simp add: indexes_hold_def comp_def keeps list_all_iff)
qed

lemma one_default:
  assumes "indexes_hold rows" "r \<in> set rows" "s \<in> set rows" "default_chat tenant r" "default_chat tenant s"
  shows "lr_id r = lr_id s"
proof -
  let ?F = "filter (\<lambda>r. lr_default r \<and> lr_kind r = ''chat'') rows"
  have inj: "inj_on lr_tenant (set ?F)" using assms(1) unfolding indexes_hold_def distinct_map by blast
  have mem: "r \<in> set ?F" "s \<in> set ?F" using assms by (simp_all add: default_chat_def)
  have "lr_tenant r = lr_tenant s" using assms(4,5) by (simp add: default_chat_def)
  then have "r = s" by (rule inj_onD [OF inj _ mem])
  then show ?thesis by simp
qed

lemma turned_indexes:
  assumes "indexes_hold rows"
  shows "indexes_hold (map (turn_default now tenant i) rows)"
proof (rule indexes_map [OF assms turn_default_keeps])
  fix r s
  assume rs: "r \<in> set rows" "s \<in> set rows" "lr_tenant r = lr_tenant s"
    and r: "lr_default (turn_default now tenant i r) \<and> lr_kind (turn_default now tenant i r) = ''chat''"
    and s: "lr_default (turn_default now tenant i s) \<and> lr_kind (turn_default now tenant i s) = ''chat''"
  show "lr_id r = lr_id s"
  proof (cases "lr_tenant r = tenant")
    case True
    then show ?thesis using r s rs(3) unfolding default_flags by simp
  next
    case False
    then have "default_chat (lr_tenant r) r" "default_chat (lr_tenant r) s"
      using r s rs(3) unfolding default_flags by (auto simp: default_chat_def)
    then show ?thesis by (rule one_default [OF assms rs(1,2)])
  qed
qed

lemma cleared_indexes:
  assumes "indexes_hold rows"
  shows "indexes_hold (cleared now tenant i rows)"
  unfolding cleared_def change_rows_def
proof (rule indexes_map [OF assms])
  fix r s
  let ?h = "\<lambda>r. if default_chat tenant r \<and> lr_id r \<noteq> i then r\<lparr>lr_default := False, lr_updated := now\<rparr> else r"
  assume rs: "r \<in> set rows" "s \<in> set rows" "lr_tenant r = lr_tenant s"
    and "lr_default (?h r) \<and> lr_kind (?h r) = ''chat''" and "lr_default (?h s) \<and> lr_kind (?h s) = ''chat''"
  then have "default_chat (lr_tenant r) r" "default_chat (lr_tenant r) s" by (auto simp: default_chat_def split: if_splits)
  then show "lr_id r = lr_id s" by (rule one_default [OF assms rs(1,2)])
qed (auto simp: row_checks_def)

lemma SetDefault_succeeds:
  assumes "indexes_hold rows" "r \<in> set rows" "lr_id r = i" "lr_tenant r = tenantIDFromCtx ctx"
  shows "SetDefault None None broken now ctx i rows = (None, map (turn_default now (tenantIDFromCtx ctx) i) rows)"
proof -
  let ?t = "tenantIDFromCtx ctx" let ?c = "cleared now ?t i rows"
  have "r \<in> set ?c" using assms(2,3) by (force simp: cleared_def change_rows_def)
  then have "\<exists>r \<in> set ?c. lr_id r = i \<and> lr_tenant r = ?t" using assms(3,4) by blast
  moreover have "indexes_hold (promoted now ?t i ?c)" unfolding promoted_cleared by (rule turned_indexes) (rule assms(1))
  ultimately show ?thesis
    using cleared_indexes [OF assms(1), of now ?t i] by (subst SetDefault_cases) (simp add: promoted_cleared)
qed

lemma filter_one_id: "distinct (map f xs) \<Longrightarrow> r \<in> set xs \<Longrightarrow> filter (\<lambda>x. f x = f r) xs = [r]"
  by (induction xs) (auto simp: filter_empty_conv image_iff)

text \<open>Making a chat model the default succeeds unless the database fails, and afterwards this model is the one
  default chat model of the tenant.\<close>

theorem set_default_is_exact:
  assumes "indexes_hold rows" "r \<in> set rows" "lr_tenant r = tenantIDFromCtx ctx" "lr_kind r = ''chat''"
  shows "fst (SetDefault None None broken now ctx (lr_id r) rows) = None
    \<and> map lr_id (filter (default_chat (tenantIDFromCtx ctx)) (snd (SetDefault None None broken now ctx (lr_id r) rows))) = [lr_id r]"
proof -
  let ?t = "tenantIDFromCtx ctx" let ?h = "turn_default now ?t (lr_id r)"
  have ids: "distinct (map lr_id rows)" using assms(1) by (simp add: indexes_hold_def)
  have same: "x = r" if "x \<in> set rows" "lr_id x = lr_id r" for x
    using ids that assms(2) by (auto simp: distinct_map inj_on_def)
  have "filter (default_chat ?t \<circ> ?h) rows = filter (\<lambda>x. lr_id x = lr_id r) rows"
    using same assms(3,4) default_flags [of now ?t "lr_id r"]
    by (intro filter_cong refl) (auto simp: default_chat_def comp_def)
  also have "\<dots> = [r]" by (rule filter_one_id [OF ids assms(2)])
  finally have "filter (default_chat ?t) (map ?h rows) = [?h r]" by (simp add: filter_map)
  then show ?thesis by (simp add: SetDefault_succeeds [OF assms(1,2) refl assms(3)])
qed

definition example_llm :: "string \<Rightarrow> string \<Rightarrow> bool \<Rightarrow> llm_row" where
  "example_llm i kind is_default =
     \<lparr>lr_id = i, lr_name = i, lr_type = ''ollama'', lr_kind = kind, lr_default = is_default, lr_base_url = [], lr_model_name = i,
      lr_api_key = [], lr_api_version = [], lr_config = Some 0, lr_tenant = ''t1'', lr_created = 0, lr_updated = 0\<rparr>"

definition example_models :: "llm_row list" where
  "example_models = [example_llm ''m1'' ''chat'' True, example_llm ''m2'' ''chat'' False, example_llm ''m3'' ''embedding'' False]"

lemma example_models_hold: "indexes_hold example_models"
  by (simp add: indexes_hold_def example_models_def example_llm_def row_checks_def)

theorem set_default_is_exact_witness:
  "map lr_id (filter (default_chat ''t1'') (snd (SetDefault None None (\<lambda>rows. ''duplicate key'') 5 ''t1'' ''m2'' example_models))) = [''m2'']"
proof -
  let ?r = "example_llm ''m2'' ''chat'' False"
  have "?r \<in> set example_models" by (simp add: example_models_def)
  moreover have "lr_tenant ?r = tenantIDFromCtx ''t1''" "lr_kind ?r = ''chat''" by (simp_all add: example_llm_def tenantIDFromCtx_def)
  ultimately show ?thesis
    using set_default_is_exact [OF example_models_hold, of ?r "''t1''" "\<lambda>rows. ''duplicate key''" 5]
    by (simp add: example_llm_def tenantIDFromCtx_def)
qed

text \<open>Promoting a model for embeddings takes the default from the chat models.\<close>

lemma embedding_takes_the_default:
  assumes "indexes_hold rows" "r \<in> set rows" "lr_tenant r = tenantIDFromCtx ctx" "lr_kind r = ''embedding''"
  shows "SetDefault None None broken now ctx (lr_id r) rows = (None, map (turn_default now (tenantIDFromCtx ctx) (lr_id r)) rows)
    \<and> llm_GetDefault None ctx ''chat'' (map (turn_default now (tenantIDFromCtx ctx) (lr_id r)) rows) = Inr None"
proof -
  let ?t = "tenantIDFromCtx ctx" let ?h = "turn_default now ?t (lr_id r)"
  have ids: "distinct (map lr_id rows)" using assms(1) by (simp add: indexes_hold_def)
  have same: "x = r" if "x \<in> set rows" "lr_id x = lr_id r" for x
    using ids that assms(2) by (auto simp: distinct_map inj_on_def)
  have "\<not> (lr_scope ctx (?h x) \<and> lr_default (?h x) \<and> lr_kind (?h x) = ''chat'')" if "x \<in> set rows" for x
    using same [OF that] assms(3,4) default_flags [of now ?t "lr_id r" x] by (auto simp: lr_scope_def)
  then have "filter (\<lambda>x. lr_scope ctx x \<and> lr_default x \<and> lr_kind x = ''chat'') (map ?h rows) = []"
    by (auto simp: filter_empty_conv)
  then show ?thesis by (simp add: SetDefault_succeeds [OF assms(1,2) refl assms(3)] llm_GetDefault_def first_row_def)
qed

end
