(* ===== verification/Agent_Repository.thy ===== *)
theory Agent_Repository
  imports Model_Repository Agent_Registry
begin

text \<open>
  The tables of agents and their repository (\<open>persistence/configrepo/agent_repository.go\<close>,
  \<open>persistence/models/agent.go\<close>): an agent with its tools, the servers it is linked to, the relations that say whom
  it may spawn, and the model that its name is resolved to.

  Tables are lists of rows in the order of the storage; a query without an order answers in this order.  Any query can
  fail, \<open>fault\<close> says with what.  The codec of the JSON columns and the new identifier are arguments.  A transaction
  that fails leaves the tables as they were.

  The theory shows that a saved agent is read back as it was given, that a change stays within its tenant, and that the
  name of a model is resolved across the tenants.
\<close>

section \<open>The tables\<close>

record agent_row =
  ag_id :: string
  ag_name :: string
  ag_tenant :: string
  ag_model_id :: "string option"
  ag_system_prompt :: string
  ag_lifecycle :: string
  ag_tool_execution :: string
  ag_max_steps :: int
  ag_max_context :: int
  ag_max_turn :: int
  ag_temperature :: "string option"
  ag_top_p :: "string option"
  ag_max_tokens :: "int option"
  ag_stop :: "string option"
  ag_confirm :: "string option"
  ag_is_system :: bool

record agent_tool_row =
  at_agent :: string
  at_tenant :: string
  at_type :: string
  at_name :: string
  at_config :: "string option"
  at_sort :: nat

record server_link =
  sl_agent :: string
  sl_server :: string
  sl_tenant :: string

record server_row =
  sv_id :: string
  sv_name :: string
  sv_tenant :: string

record relation_row =
  rl_source :: string
  rl_target :: string
  rl_tenant :: string

record agent_tables =
  tb_agents :: "agent_row list"
  tb_tools :: "agent_tool_row list"
  tb_links :: "server_link list"
  tb_servers :: "server_row list"
  tb_relations :: "relation_row list"
  tb_models :: "llm_row list"

record list_codec =
  lc_encode :: "string list \<Rightarrow> string"
  lc_decode :: "string \<Rightarrow> go_error + string list"

datatype agent_query =
    FindAgents | FindAgent | CountAgents | InsertAgent | UpdateAgent | DeleteAgent | FindLinks | FindRelations
  | FindServers | InsertLink string | DeleteTools | DeleteLinks | InsertTools | FindModel

section \<open>Rows and records\<close>

definition decode_column :: "list_codec \<Rightarrow> string \<Rightarrow> string option \<Rightarrow> go_error + string list" where
  "decode_column C what col =
     (case col of
        None \<Rightarrow> Inr []
      | Some s \<Rightarrow> if s = [] then Inr []
                  else (case lc_decode C s of Inl e \<Rightarrow> Inl (''parse '' @ what @ '': '' @ e) | Inr xs \<Rightarrow> Inr xs))"

definition model_name_of :: "llm_row list \<Rightarrow> string option \<Rightarrow> string" where
  "model_name_of models i =
     (case i of None \<Rightarrow> [] | Some m \<Rightarrow> (case filter (\<lambda>r. lr_id r = m) models of [] \<Rightarrow> [] | r # _ \<Rightarrow> lr_name r))"

definition custom_record :: "agent_tool_row \<Rightarrow> custom_tool_record" where
  "custom_record t = \<lparr>ctr_name = at_name t, ctr_config = (case at_config t of None \<Rightarrow> [] | Some c \<Rightarrow> c)\<rparr>"

definition toAgentRecord :: "list_codec \<Rightarrow> llm_row list \<Rightarrow> agent_tool_row list \<Rightarrow> agent_row \<Rightarrow> go_error + agent_record" where
  "toAgentRecord C models tools a =
     bind_res (decode_column C ''stop_sequences'' (ag_stop a)) (\<lambda>stop.
     bind_res (decode_column C ''confirm_before'' (ag_confirm a)) (\<lambda>confirm.
       Inr \<lparr>ar_id = ag_id a, ar_name = ag_name a, ar_model_id = ag_model_id a, ar_model_name = model_name_of models (ag_model_id a),
            ar_system_prompt = ag_system_prompt a, ar_lifecycle = ag_lifecycle a, ar_tool_execution = ag_tool_execution a,
            ar_max_steps = ag_max_steps a, ar_max_context = ag_max_context a, ar_max_turn = ag_max_turn a,
            ar_temperature = ag_temperature a, ar_top_p = ag_top_p a, ar_max_tokens = ag_max_tokens a, ar_stop = stop,
            ar_confirm_before = confirm, ar_builtin_tools = map at_name (filter (\<lambda>t. at_type t = ''builtin'') tools),
            ar_custom_tools = map custom_record (filter (\<lambda>t. at_type t = ''custom'') tools),
            ar_mcp_servers = [], ar_can_spawn = [], ar_is_system = ag_is_system a\<rparr>))"

definition list_column :: "list_codec \<Rightarrow> string list \<Rightarrow> string option" where
  "list_column C xs = (if xs = [] then None else Some (lc_encode C xs))"

text \<open>The name is looked up among the models of all tenants; the first one by identifier counts.\<close>

definition resolve_model_name :: "go_error option \<Rightarrow> string \<Rightarrow> llm_row list \<Rightarrow> go_error + string option" where
  "resolve_model_name fault name models =
     (if name = [] then Inr None
      else case fault of
             Some e \<Rightarrow> Inl (''resolve model '' @ [CHR 34] @ name @ [CHR 34] @ '': '' @ e)
           | None \<Rightarrow>
               (case first_row lr_id (\<lambda>r. lr_name r = name) models of
                  None \<Rightarrow> Inl (''resolve model '' @ [CHR 34] @ name @ [CHR 34] @ '': record not found'')
                | Some r \<Rightarrow> Inr (Some (lr_id r))))"

definition tool_rows :: "string \<Rightarrow> string \<Rightarrow> agent_record \<Rightarrow> agent_tool_row list" where
  "tool_rows agent tenant rec =
     map (\<lambda>(i, name). \<lparr>at_agent = agent, at_tenant = tenant, at_type = ''builtin'', at_name = name, at_config = None, at_sort = i\<rparr>)
       (List.enumerate 0 (ar_builtin_tools rec)) @
     map (\<lambda>(i, c). \<lparr>at_agent = agent, at_tenant = tenant, at_type = ''custom'', at_name = ctr_name c,
                    at_config = (if ctr_config c = [] then None else Some (ctr_config c)), at_sort = i\<rparr>)
       (List.enumerate (length (ar_builtin_tools rec)) (ar_custom_tools rec))"

text \<open>The row without identifier and tenant.\<close>

definition toAgentModelWithDB :: "list_codec \<Rightarrow> go_error option \<Rightarrow> llm_row list \<Rightarrow> agent_record \<Rightarrow> go_error + agent_row" where
  "toAgentModelWithDB C fault models rec =
     bind_res (resolve_model_name fault (ar_model_name rec) models) (\<lambda>mid.
       Inr \<lparr>ag_id = [], ag_name = ar_name rec, ag_tenant = [], ag_model_id = mid, ag_system_prompt = ar_system_prompt rec,
            ag_lifecycle = ar_lifecycle rec, ag_tool_execution = ar_tool_execution rec, ag_max_steps = ar_max_steps rec,
            ag_max_context = ar_max_context rec, ag_max_turn = ar_max_turn rec, ag_temperature = ar_temperature rec,
            ag_top_p = ar_top_p rec, ag_max_tokens = ar_max_tokens rec, ag_stop = list_column C (ar_stop rec),
            ag_confirm = list_column C (ar_confirm_before rec), ag_is_system = ar_is_system rec\<rparr>)"

section \<open>Reading\<close>

definition in_tenant :: "string \<Rightarrow> agent_row \<Rightarrow> bool" where
  "in_tenant ctx a \<longleftrightarrow> ag_tenant a = tenantIDFromCtx ctx"

definition server_name_of :: "agent_tables \<Rightarrow> string \<Rightarrow> string" where
  "server_name_of db i = (case filter (\<lambda>s. sv_id s = i) (tb_servers db) of [] \<Rightarrow> [] | s # _ \<Rightarrow> sv_name s)"

definition agent_name_of :: "agent_tables \<Rightarrow> string \<Rightarrow> string" where
  "agent_name_of db i = (case filter (\<lambda>a. ag_id a = i) (tb_agents db) of [] \<Rightarrow> [] | a # _ \<Rightarrow> ag_name a)"

definition server_names :: "string \<Rightarrow> agent_tables \<Rightarrow> string \<Rightarrow> string list" where
  "server_names ctx db agent =
     map (\<lambda>l. server_name_of db (sl_server l)) (filter (\<lambda>l. sl_tenant l = tenantIDFromCtx ctx \<and> sl_agent l = agent) (tb_links db))"

text \<open>All relations are grouped by the name of their source.\<close>

definition spawn_names :: "string \<Rightarrow> agent_tables \<Rightarrow> string \<Rightarrow> string list" where
  "spawn_names ctx db name =
     map (\<lambda>l. agent_name_of db (rl_target l))
       (filter (\<lambda>l. rl_tenant l = tenantIDFromCtx ctx \<and> agent_name_of db (rl_source l) = name) (tb_relations db))"

definition tools_of :: "agent_tables \<Rightarrow> string \<Rightarrow> agent_tool_row list" where
  "tools_of db agent = filter (\<lambda>t. at_agent t = agent) (tb_tools db)"

fun all_results :: "('a \<Rightarrow> 'e + 'b) \<Rightarrow> 'a list \<Rightarrow> 'e + 'b list" where
  "all_results f [] = Inr []"
| "all_results f (x # xs) = bind_res (f x) (\<lambda>y. bind_res (all_results f xs) (\<lambda>ys. Inr (y # ys)))"

definition listed_record :: "list_codec \<Rightarrow> string \<Rightarrow> agent_tables \<Rightarrow> agent_row \<Rightarrow> go_error + agent_record" where
  "listed_record C ctx db a =
     (case toAgentRecord C (tb_models db) (tools_of db (ag_id a)) a of
        Inl e \<Rightarrow> Inl (''convert agent '' @ [CHR 34] @ ag_name a @ [CHR 34] @ '': '' @ e)
      | Inr rec \<Rightarrow> Inr (rec\<lparr>ar_mcp_servers := server_names ctx db (ag_id a), ar_can_spawn := spawn_names ctx db (ag_name a)\<rparr>))"

definition agents_List :: "list_codec \<Rightarrow> (agent_query \<Rightarrow> go_error option) \<Rightarrow> string \<Rightarrow> agent_tables \<Rightarrow> go_error + agent_record list" where
  "agents_List C fault ctx db =
     (case fault FindAgents of
        Some e \<Rightarrow> Inl (''list agents: '' @ e)
      | None \<Rightarrow>
          (case fault FindLinks of
             Some e \<Rightarrow> Inl (''load mcp servers: load agent mcp servers: '' @ e)
           | None \<Rightarrow>
               (case fault FindRelations of
                  Some e \<Rightarrow> Inl (''load can_spawn: load agent relations: '' @ e)
                | None \<Rightarrow> all_results (listed_record C ctx db) (filter (in_tenant ctx) (tb_agents db)))))"

text \<open>The relations of one agent; any error counts as no relations.\<close>

definition loadCanSpawnForAgent :: "(agent_query \<Rightarrow> go_error option) \<Rightarrow> string \<Rightarrow> agent_tables \<Rightarrow> string \<Rightarrow> string list" where
  "loadCanSpawnForAgent fault ctx db name =
     (if fault FindAgent \<noteq> None \<or> fault FindRelations \<noteq> None then []
      else case first_row ag_id (\<lambda>a. in_tenant ctx a \<and> ag_name a = name) (tb_agents db) of
             None \<Rightarrow> []
           | Some a \<Rightarrow> map (\<lambda>l. agent_name_of db (rl_target l))
                         (filter (\<lambda>l. rl_tenant l = tenantIDFromCtx ctx \<and> rl_source l = ag_id a) (tb_relations db)))"

definition found_record :: "list_codec \<Rightarrow> (agent_query \<Rightarrow> go_error option) \<Rightarrow> string \<Rightarrow> agent_tables \<Rightarrow> string \<Rightarrow> agent_row \<Rightarrow> go_error + agent_record" where
  "found_record C fault ctx db name a =
     (case toAgentRecord C (tb_models db) (tools_of db (ag_id a)) a of
        Inl e \<Rightarrow> Inl (''convert agent '' @ [CHR 34] @ name @ [CHR 34] @ '': '' @ e)
      | Inr rec \<Rightarrow>
          (case fault FindLinks of
             Some e \<Rightarrow> Inl (''load mcp servers for agent '' @ [CHR 34] @ name @ [CHR 34] @ '': load mcp servers: '' @ e)
           | None \<Rightarrow> Inr (rec\<lparr>ar_mcp_servers := server_names ctx db (ag_id a),
                              ar_can_spawn := loadCanSpawnForAgent fault ctx db (ag_name a)\<rparr>)))"

definition agents_GetByName :: "list_codec \<Rightarrow> (agent_query \<Rightarrow> go_error option) \<Rightarrow> string \<Rightarrow> string \<Rightarrow> agent_tables \<Rightarrow> go_error + agent_record" where
  "agents_GetByName C fault ctx name db =
     (case fault FindAgent of
        Some e \<Rightarrow> Inl (''get agent '' @ [CHR 34] @ name @ [CHR 34] @ '': '' @ e)
      | None \<Rightarrow>
          (case first_row ag_id (\<lambda>a. in_tenant ctx a \<and> ag_name a = name) (tb_agents db) of
             None \<Rightarrow> Inl (''get agent '' @ [CHR 34] @ name @ [CHR 34] @ '': record not found'')
           | Some a \<Rightarrow> found_record C fault ctx db name a))"

definition agents_Count :: "(agent_query \<Rightarrow> go_error option) \<Rightarrow> string \<Rightarrow> agent_tables \<Rightarrow> go_error + nat" where
  "agents_Count fault ctx db =
     (case fault CountAgents of
        Some e \<Rightarrow> Inl (''count agents: '' @ e)
      | None \<Rightarrow> Inr (length (filter (in_tenant ctx) (tb_agents db))))"

section \<open>Writing\<close>

definition agent_checks :: "agent_row \<Rightarrow> bool" where
  "agent_checks a \<longleftrightarrow> ag_lifecycle a \<in> {''persistent'', ''spawn''} \<and> ag_tool_execution a \<in> {''sequential'', ''parallel''}"

definition agents_ok :: "agent_row list \<Rightarrow> bool" where
  "agents_ok as \<longleftrightarrow> distinct (map ag_id as) \<and> distinct (map (\<lambda>a. (ag_tenant a, ag_name a)) as) \<and> list_all agent_checks as"

definition link_server :: "string \<Rightarrow> string \<Rightarrow> server_row \<Rightarrow> server_link" where
  "link_server agent tenant s = \<lparr>sl_agent = agent, sl_server = sv_id s, sl_tenant = tenant\<rparr>"

text \<open>Each link is a statement of its own; the primary key is the pair of agent and server.\<close>

fun insert_links ::
    "(agent_query \<Rightarrow> go_error option) \<Rightarrow> string \<Rightarrow> string \<Rightarrow> server_row list \<Rightarrow> server_link list \<Rightarrow> go_error option \<times> server_link list" where
  "insert_links fault agent tenant [] links = (None, links)"
| "insert_links fault agent tenant (s # ss) links =
     (case fault (InsertLink (sv_id s)) of
        Some e \<Rightarrow> (Some (''link mcp server '' @ [CHR 34] @ sv_name s @ [CHR 34] @ '': '' @ e), links)
      | None \<Rightarrow>
          if \<exists>l \<in> set links. sl_agent l = agent \<and> sl_server l = sv_id s
          then (Some (''link mcp server '' @ [CHR 34] @ sv_name s @ [CHR 34] @ '': duplicate key''), links)
          else insert_links fault agent tenant ss (links @ [link_server agent tenant s]))"

definition chosen_servers :: "string \<Rightarrow> string list \<Rightarrow> server_row list \<Rightarrow> server_row list" where
  "chosen_servers tenant names servers = filter (\<lambda>s. sv_name s \<in> set names \<and> sv_tenant s = tenant) servers"

definition createMCPAssociations ::
    "(agent_query \<Rightarrow> go_error option) \<Rightarrow> string \<Rightarrow> string \<Rightarrow> string list \<Rightarrow> agent_tables \<Rightarrow> go_error option \<times> agent_tables" where
  "createMCPAssociations fault ctx agent names db =
     (if names = [] then (None, db)
      else case fault FindServers of
             Some e \<Rightarrow> (Some (''resolve mcp servers: '' @ e), db)
           | None \<Rightarrow>
               (let (e, links) = insert_links fault agent (tenantIDFromCtx ctx)
                      (chosen_servers (tenantIDFromCtx ctx) names (tb_servers db)) (tb_links db)
                in (e, db\<lparr>tb_links := links\<rparr>)))"

definition or_default :: "'a \<Rightarrow> 'a \<Rightarrow> 'a \<Rightarrow> 'a" where
  "or_default zero d x = (if x = zero then d else x)"

text \<open>Columns with a default get it in place of the zero value.\<close>

definition column_defaults :: "agent_row \<Rightarrow> agent_row" where
  "column_defaults a =
     a\<lparr>ag_lifecycle := or_default [] ''persistent'' (ag_lifecycle a),
       ag_tool_execution := or_default [] ''sequential'' (ag_tool_execution a),
       ag_max_context := or_default 0 16000 (ag_max_context a), ag_max_turn := or_default 0 120 (ag_max_turn a)\<rparr>"

definition tool_key :: "agent_tool_row \<Rightarrow> string \<times> string" where
  "tool_key t = (at_type t, at_name t)"

text \<open>The library saves owned rows with ON CONFLICT DO NOTHING: of two tools of one name the first one is kept.\<close>

fun keep_first :: "('a \<Rightarrow> 'k) \<Rightarrow> 'k set \<Rightarrow> 'a list \<Rightarrow> 'a list" where
  "keep_first key seen [] = []"
| "keep_first key seen (x # xs) =
     (if key x \<in> seen then keep_first key seen xs else x # keep_first key (insert (key x) seen) xs)"

definition agents_Create ::
    "list_codec \<Rightarrow> (agent_query \<Rightarrow> go_error option) \<Rightarrow> string \<Rightarrow> string \<Rightarrow> agent_record \<Rightarrow> agent_tables \<Rightarrow> go_error option \<times> agent_tables" where
  "agents_Create C fault uuid ctx rec db =
     (let tenant = tenantIDFromCtx ctx
      in case toAgentModelWithDB C (fault FindModel) (tb_models db) rec of
           Inl e \<Rightarrow> (Some (''build agent model: '' @ e), db)
         | Inr a \<Rightarrow>
             (let a' = column_defaults (a\<lparr>ag_id := uuid, ag_tenant := tenant\<rparr>);
                  failed = (\<lambda>e. (Some (''create agent '' @ [CHR 34] @ ar_name rec @ [CHR 34] @ '': '' @ e), db))
              in case fault InsertAgent of
                   Some e \<Rightarrow> failed e
                 | None \<Rightarrow>
                     if \<not> agents_ok (tb_agents db @ [a']) then failed ''duplicate key or check''
                     else (let db1 = db\<lparr>tb_agents := tb_agents db @ [a'],
                                        tb_tools := tb_tools db @ keep_first tool_key {} (tool_rows uuid tenant rec)\<rparr>
                           in case createMCPAssociations fault ctx uuid (ar_mcp_servers rec) db1 of
                                (Some e, db2) \<Rightarrow> (Some (''create mcp associations: '' @ e), db2)
                              | (None, db2) \<Rightarrow> (None, db2))))"

definition owned_tool :: "string \<Rightarrow> string \<Rightarrow> agent_tool_row \<Rightarrow> bool" where
  "owned_tool agent tenant t \<longleftrightarrow> at_agent t = agent \<and> at_tenant t = tenant"

definition owned_link :: "string \<Rightarrow> string \<Rightarrow> server_link \<Rightarrow> bool" where
  "owned_link agent tenant l \<longleftrightarrow> sl_agent l = agent \<and> sl_tenant l = tenant"

definition without_owned :: "string \<Rightarrow> string \<Rightarrow> agent_tables \<Rightarrow> agent_tables" where
  "without_owned agent tenant db =
     db\<lparr>tb_tools := filter (\<lambda>t. \<not> owned_tool agent tenant t) (tb_tools db),
        tb_links := filter (\<lambda>l. \<not> owned_link agent tenant l) (tb_links db)\<rparr>"

text \<open>The scalar columns of the row that is there already.\<close>

definition write_columns :: "agent_row \<Rightarrow> agent_row \<Rightarrow> agent_row" where
  "write_columns new a = new\<lparr>ag_id := ag_id a, ag_tenant := ag_tenant a\<rparr>"

definition tools_ok :: "agent_tool_row list \<Rightarrow> bool" where
  "tools_ok ts \<longleftrightarrow> distinct (map (\<lambda>t. (at_agent t, at_type t, at_name t)) ts)"

text \<open>The body of the transaction.\<close>

definition update_tx ::
    "list_codec \<Rightarrow> (agent_query \<Rightarrow> go_error option) \<Rightarrow> string \<Rightarrow> string \<Rightarrow> string \<Rightarrow> agent_record \<Rightarrow> agent_tables \<Rightarrow> go_error + agent_tables" where
  "update_tx C fault ctx i name rec db =
     (let tenant = tenantIDFromCtx ctx
      in case fault DeleteTools of Some e \<Rightarrow> Inl (''delete old tools: '' @ e) | None \<Rightarrow>
         case fault DeleteLinks of Some e \<Rightarrow> Inl (''delete old mcp associations: '' @ e) | None \<Rightarrow>
         case toAgentModelWithDB C (fault FindModel) (tb_models db) rec of Inl e \<Rightarrow> Inl (''build agent model: '' @ e) | Inr new \<Rightarrow>
           (let agents' = change_rows (\<lambda>a. ag_id a = i \<and> ag_tenant a = tenant) (write_columns new) (tb_agents db);
                tools' = tb_tools (without_owned i tenant db) @ tool_rows i tenant rec;
                failed = (\<lambda>e. Inl (''update agent '' @ [CHR 34] @ name @ [CHR 34] @ '': '' @ e))
            in case fault UpdateAgent of
                 Some e \<Rightarrow> failed e
               | None \<Rightarrow>
                   if \<not> agents_ok agents' then failed ''duplicate key or check''
                   else if tool_rows i tenant rec \<noteq> [] \<and> (fault InsertTools \<noteq> None \<or> \<not> tools_ok tools')
                   then Inl (''create tools: '' @ (case fault InsertTools of Some e \<Rightarrow> e | None \<Rightarrow> ''duplicate key''))
                   else (case createMCPAssociations fault ctx i (ar_mcp_servers rec)
                            ((without_owned i tenant db)\<lparr>tb_agents := agents', tb_tools := tools'\<rparr>) of
                           (Some e, _) \<Rightarrow> Inl (''create mcp associations: '' @ e)
                         | (None, db') \<Rightarrow> Inr db')))"

definition agents_Update ::
    "list_codec \<Rightarrow> (agent_query \<Rightarrow> go_error option) \<Rightarrow> string \<Rightarrow> string \<Rightarrow> agent_record \<Rightarrow> agent_tables \<Rightarrow> go_error option \<times> agent_tables" where
  "agents_Update C fault ctx name rec db =
     (let lost = (\<lambda>e. (Some (''find agent '' @ [CHR 34] @ name @ [CHR 34] @ '': '' @ e), db))
      in case fault FindAgent of
           Some e \<Rightarrow> lost e
         | None \<Rightarrow>
             (case first_row ag_id (\<lambda>a. in_tenant ctx a \<and> ag_name a = name) (tb_agents db) of
                None \<Rightarrow> lost ''record not found''
              | Some a \<Rightarrow>
                  (case update_tx C fault ctx (ag_id a) name rec db of Inl e \<Rightarrow> (Some e, db) | Inr db' \<Rightarrow> (None, db'))))"

text \<open>The storage deletes what refers to the agent, relations included.\<close>

definition without_agent :: "string \<Rightarrow> agent_tables \<Rightarrow> agent_tables" where
  "without_agent i db =
     db\<lparr>tb_agents := filter (\<lambda>a. ag_id a \<noteq> i) (tb_agents db), tb_tools := filter (\<lambda>t. at_agent t \<noteq> i) (tb_tools db),
        tb_links := filter (\<lambda>l. sl_agent l \<noteq> i) (tb_links db),
        tb_relations := filter (\<lambda>l. rl_source l \<noteq> i \<and> rl_target l \<noteq> i) (tb_relations db)\<rparr>"

definition agents_Delete :: "(agent_query \<Rightarrow> go_error option) \<Rightarrow> string \<Rightarrow> string \<Rightarrow> agent_tables \<Rightarrow> go_error option \<times> agent_tables" where
  "agents_Delete fault ctx name db =
     (let lost = (\<lambda>e. (Some (''find agent '' @ [CHR 34] @ name @ [CHR 34] @ '': '' @ e), db))
      in case fault FindAgent of
           Some e \<Rightarrow> lost e
         | None \<Rightarrow>
             (case first_row ag_id (\<lambda>a. in_tenant ctx a \<and> ag_name a = name) (tb_agents db) of
                None \<Rightarrow> lost ''record not found''
              | Some a \<Rightarrow>
                  (case fault DeleteTools of Some e \<Rightarrow> (Some (''delete tools: '' @ e), db) | None \<Rightarrow>
                   case fault DeleteLinks of Some e \<Rightarrow> (Some (''delete mcp associations: '' @ e), db) | None \<Rightarrow>
                   case fault DeleteAgent of
                     Some e \<Rightarrow> (Some (''delete agent '' @ [CHR 34] @ name @ [CHR 34] @ '': '' @ e), db)
                   | None \<Rightarrow> (None, without_agent (ag_id a) db))))"

section \<open>What is read back\<close>

definition codec_ok :: "list_codec \<Rightarrow> bool" where
  "codec_ok C \<longleftrightarrow> (\<forall>xs. xs \<noteq> [] \<longrightarrow> lc_encode C xs \<noteq> [] \<and> lc_decode C (lc_encode C xs) = Inr xs)"

text \<open>Tools and links carry the tenant of their agent, servers have identifiers of their own.\<close>

definition owners_ok :: "agent_tables \<Rightarrow> bool" where
  "owners_ok db \<longleftrightarrow>
     (\<forall>a \<in> set (tb_agents db). \<forall>t \<in> set (tb_tools db). at_agent t = ag_id a \<longrightarrow> at_tenant t = ag_tenant a) \<and>
     (\<forall>a \<in> set (tb_agents db). \<forall>l \<in> set (tb_links db). sl_agent l = ag_id a \<longrightarrow> sl_tenant l = ag_tenant a) \<and>
     distinct (map sv_id (tb_servers db))"

lemma decode_list_column: "codec_ok C \<Longrightarrow> decode_column C what (list_column C xs) = Inr xs"
  by (simp add: decode_column_def list_column_def codec_ok_def)

lemma filter_all: "(\<And>x. x \<in> set xs \<Longrightarrow> P x) \<Longrightarrow> filter P xs = xs"
  by (induction xs) auto

lemma filter_none: "(\<And>x. x \<in> set xs \<Longrightarrow> \<not> P x) \<Longrightarrow> filter P xs = []"
  by (induction xs) auto

lemma builtin_rows: "filter (\<lambda>t. at_type t = ''builtin'') (tool_rows i tenant rec) =
    map (\<lambda>(k, name). \<lparr>at_agent = i, at_tenant = tenant, at_type = ''builtin'', at_name = name, at_config = None, at_sort = k\<rparr>)
      (List.enumerate 0 (ar_builtin_tools rec))"
  unfolding tool_rows_def filter_append by (subst filter_all, force) (subst filter_none, force, simp)

lemma custom_rows: "filter (\<lambda>t. at_type t = ''custom'') (tool_rows i tenant rec) =
    map (\<lambda>(k, c). \<lparr>at_agent = i, at_tenant = tenant, at_type = ''custom'', at_name = ctr_name c,
                    at_config = (if ctr_config c = [] then None else Some (ctr_config c)), at_sort = k\<rparr>)
       (List.enumerate (length (ar_builtin_tools rec)) (ar_custom_tools rec))"
  unfolding tool_rows_def filter_append by (subst filter_none, force) (subst filter_all, force, simp)

lemma map_enumerate_snd: "(\<And>k x. f (k, x) = g x) \<Longrightarrow> map f (List.enumerate n xs) = map g xs"
  by (induction xs arbitrary: n) simp_all

lemma builtin_tool_rows: "map at_name (filter (\<lambda>t. at_type t = ''builtin'') (tool_rows i tenant rec)) = ar_builtin_tools rec"
  unfolding builtin_rows map_map by (subst map_enumerate_snd [where g = "\<lambda>x. x"]) simp_all

lemma custom_tool_rows: "map custom_record (filter (\<lambda>t. at_type t = ''custom'') (tool_rows i tenant rec)) = ar_custom_tools rec"
  unfolding custom_rows map_map by (subst map_enumerate_snd [where g = "\<lambda>x. x"]) (simp_all add: custom_record_def)

lemma first_row_Some: 
  assumes "first_row key P rows = Some r"
  shows "r \<in> set rows \<and> P r"
proof -
  have "r \<in> set (sort_key key (filter P rows))"
    using assms by (cases "sort_key key (filter P rows)") (simp_all add: first_row_def)
  then show ?thesis by simp
qed

lemma resolved_name:
  assumes "resolve_model_name fault name models = Inr mid" "indexes_hold models"
  shows "model_name_of models mid = name"
proof (cases "name = []")
  case True
  then show ?thesis using assms by (simp add: resolve_model_name_def model_name_of_def)
next
  case False
  then obtain r where r: "first_row lr_id (\<lambda>r. lr_name r = name) models = Some r" and mid: "mid = Some (lr_id r)"
    using assms(1) by (auto simp: resolve_model_name_def split: option.splits)
  have mem: "r \<in> set models" "lr_name r = name" using first_row_Some [OF r] by simp_all
  have "filter (\<lambda>x. lr_id x = lr_id r) models = [r]"
    using assms(2) mem(1) by (intro filter_one_id) (simp_all add: indexes_hold_def)
  then show ?thesis using mem(2) by (simp add: model_name_of_def mid)
qed

lemma first_row_only: "filter P rows = [r] \<Longrightarrow> first_row key P rows = Some r"
  by (simp add: first_row_def)

lemma insert_links_ok: "insert_links fault agent tenant ss links = (None, links') \<Longrightarrow> links' = links @ map (link_server agent tenant) ss"
  by (induction ss arbitrary: links) (fastforce split: option.splits if_splits)+

lemma associations_ok:
  assumes "createMCPAssociations fault ctx agent names db = (None, db')"
  shows "db' = db\<lparr>tb_links := tb_links db @ map (link_server agent (tenantIDFromCtx ctx)) (chosen_servers (tenantIDFromCtx ctx) names (tb_servers db))\<rparr>"
  using assms by (auto simp: createMCPAssociations_def chosen_servers_def dest!: insert_links_ok split: if_splits option.splits prod.splits)

text \<open>What a successful change has written.\<close>

lemma update_tx_ok:
  assumes "update_tx C fault ctx i name rec db = Inr db'"
  obtains new where "toAgentModelWithDB C (fault FindModel) (tb_models db) rec = Inr new"
    "agents_ok (change_rows (\<lambda>a. ag_id a = i \<and> ag_tenant a = tenantIDFromCtx ctx) (write_columns new) (tb_agents db))"
    "db' = (without_owned i (tenantIDFromCtx ctx) db)
       \<lparr>tb_agents := change_rows (\<lambda>a. ag_id a = i \<and> ag_tenant a = tenantIDFromCtx ctx) (write_columns new) (tb_agents db),
        tb_tools := tb_tools (without_owned i (tenantIDFromCtx ctx) db) @ tool_rows i (tenantIDFromCtx ctx) rec,
        tb_links := tb_links (without_owned i (tenantIDFromCtx ctx) db) @
          map (link_server i (tenantIDFromCtx ctx)) (chosen_servers (tenantIDFromCtx ctx) (ar_mcp_servers rec) (tb_servers db))\<rparr>"
proof -
  let ?t = "tenantIDFromCtx ctx"
  have free: "fault DeleteTools = None" "fault DeleteLinks = None" "fault UpdateAgent = None"
    using assms by (auto simp: update_tx_def Let_def split: option.splits sum.splits)
  then obtain new where new: "toAgentModelWithDB C (fault FindModel) (tb_models db) rec = Inr new"
    using assms by (cases "toAgentModelWithDB C (fault FindModel) (tb_models db) rec") (simp_all add: update_tx_def Let_def)
  let ?agents = "change_rows (\<lambda>a. ag_id a = i \<and> ag_tenant a = ?t) (write_columns new) (tb_agents db)"
  let ?mid = "(without_owned i ?t db)\<lparr>tb_agents := ?agents, tb_tools := tb_tools (without_owned i ?t db) @ tool_rows i ?t rec\<rparr>"
  have ok: "agents_ok ?agents" using assms free new by (simp add: update_tx_def Let_def split: if_splits)
  have "createMCPAssociations fault ctx i (ar_mcp_servers rec) ?mid = (None, db')"
    using assms free new ok by (auto simp: update_tx_def Let_def split: if_splits prod.splits option.splits)
  from associations_ok [OF this] have "db' = ?mid\<lparr>tb_links := tb_links (without_owned i ?t db) @
      map (link_server i ?t) (chosen_servers ?t (ar_mcp_servers rec) (tb_servers db))\<rparr>"
    by (simp add: without_owned_def)
  with new ok that show ?thesis by simp
qed

lemma new_row_fields:
  "toAgentModelWithDB C fault models rec = Inr new \<Longrightarrow> \<exists>mid. resolve_model_name fault (ar_model_name rec) models = Inr mid \<and>
     new = \<lparr>ag_id = [], ag_name = ar_name rec, ag_tenant = [], ag_model_id = mid, ag_system_prompt = ar_system_prompt rec,
            ag_lifecycle = ar_lifecycle rec, ag_tool_execution = ar_tool_execution rec, ag_max_steps = ar_max_steps rec,
            ag_max_context = ar_max_context rec, ag_max_turn = ar_max_turn rec, ag_temperature = ar_temperature rec,
            ag_top_p = ar_top_p rec, ag_max_tokens = ar_max_tokens rec, ag_stop = list_column C (ar_stop rec),
            ag_confirm = list_column C (ar_confirm_before rec), ag_is_system = ar_is_system rec\<rparr>"
  by (auto simp: toAgentModelWithDB_def)

lemma read_written_row:
  assumes "codec_ok C" "indexes_hold models" "toAgentModelWithDB C fault models rec = Inr new" 
  shows "\<exists>mid. toAgentRecord C models (tool_rows i tenant rec) (write_columns new a) =
    Inr (rec\<lparr>ar_id := ag_id a, ar_model_id := mid, ar_mcp_servers := [], ar_can_spawn := []\<rparr>)"
proof -
  obtain mid where mid: "resolve_model_name fault (ar_model_name rec) models = Inr mid"
    and new: "new = \<lparr>ag_id = [], ag_name = ar_name rec, ag_tenant = [], ag_model_id = mid, ag_system_prompt = ar_system_prompt rec,
            ag_lifecycle = ar_lifecycle rec, ag_tool_execution = ar_tool_execution rec, ag_max_steps = ar_max_steps rec,
            ag_max_context = ar_max_context rec, ag_max_turn = ar_max_turn rec, ag_temperature = ar_temperature rec,
            ag_top_p = ar_top_p rec, ag_max_tokens = ar_max_tokens rec, ag_stop = list_column C (ar_stop rec),
            ag_confirm = list_column C (ar_confirm_before rec), ag_is_system = ar_is_system rec\<rparr>"
    using new_row_fields [OF assms(3)] by blast
  have "toAgentRecord C models (tool_rows i tenant rec) (write_columns new a) =
    Inr (rec\<lparr>ar_id := ag_id a, ar_model_id := mid, ar_mcp_servers := [], ar_can_spawn := []\<rparr>)"
    by (cases rec) (simp add: toAgentRecord_def write_columns_def new decode_list_column [OF assms(1)] resolved_name [OF mid assms(2)]
        builtin_tool_rows custom_tool_rows)
  then show ?thesis by blast
qed

lemma found_by_name:
  assumes "agents_ok as" "a \<in> set as" "in_tenant ctx a"
  shows "first_row ag_id (\<lambda>x. in_tenant ctx x \<and> ag_name x = ag_name a) as = Some a"
proof (rule first_row_only)
  have "distinct (map (\<lambda>a. (ag_tenant a, ag_name a)) as)" using assms(1) by (simp add: agents_ok_def)
  then have "filter (\<lambda>x. (ag_tenant x, ag_name x) = (ag_tenant a, ag_name a)) as = [a]" by (rule filter_one_id) (rule assms(2))
  moreover have "(\<lambda>x. in_tenant ctx x \<and> ag_name x = ag_name a) = (\<lambda>x. (ag_tenant x, ag_name x) = (ag_tenant a, ag_name a))"
    using assms(3) by (auto simp: in_tenant_def)
  ultimately show "filter (\<lambda>x. in_tenant ctx x \<and> ag_name x = ag_name a) as = [a]" by simp
qed

lemma tools_after_update:
  assumes "owners_ok db" "a \<in> set (tb_agents db)"
  shows "filter (\<lambda>t. at_agent t = ag_id a) (tb_tools (without_owned (ag_id a) (ag_tenant a) db) @ tool_rows (ag_id a) tenant rec)
    = tool_rows (ag_id a) tenant rec"
proof -
  have "filter (\<lambda>t. at_agent t = ag_id a) (tb_tools (without_owned (ag_id a) (ag_tenant a) db)) = []"
    using assms by (intro filter_none) (auto simp: without_owned_def owned_tool_def owners_ok_def)
  moreover have "filter (\<lambda>t. at_agent t = ag_id a) (tool_rows (ag_id a) tenant rec) = tool_rows (ag_id a) tenant rec"
    by (intro filter_all) (auto simp: tool_rows_def)
  ultimately show ?thesis by simp
qed

lemma links_after_update:
  assumes "owners_ok db" "a \<in> set (tb_agents db)"
  shows "filter (\<lambda>l. sl_tenant l = ag_tenant a \<and> sl_agent l = ag_id a)
      (tb_links (without_owned (ag_id a) (ag_tenant a) db) @ map (link_server (ag_id a) (ag_tenant a)) ss)
    = map (link_server (ag_id a) (ag_tenant a)) ss"
proof -
  have "filter (\<lambda>l. sl_tenant l = ag_tenant a \<and> sl_agent l = ag_id a) (tb_links (without_owned (ag_id a) (ag_tenant a) db)) = []"
    by (intro filter_none) (auto simp: without_owned_def owned_link_def)
  moreover have "filter (\<lambda>l. sl_tenant l = ag_tenant a \<and> sl_agent l = ag_id a) (map (link_server (ag_id a) (ag_tenant a)) ss)
      = map (link_server (ag_id a) (ag_tenant a)) ss"
    by (intro filter_all) (auto simp: link_server_def)
  ultimately show ?thesis by simp
qed

lemma server_name_found: "distinct (map sv_id (tb_servers db)) \<Longrightarrow> s \<in> set (tb_servers db) \<Longrightarrow> server_name_of db (sv_id s) = sv_name s"
  using filter_one_id [of sv_id "tb_servers db" s] by (simp add: server_name_of_def)


section \<open>Tenants\<close>

text \<open>What the other tenants have.\<close>

definition foreign_agents :: "string \<Rightarrow> agent_tables \<Rightarrow> agent_row list \<times> agent_tool_row list \<times> server_link list" where
  "foreign_agents ctx db =
     (filter (\<lambda>a. \<not> in_tenant ctx a) (tb_agents db), filter (\<lambda>t. at_tenant t \<noteq> tenantIDFromCtx ctx) (tb_tools db),
      filter (\<lambda>l. sl_tenant l \<noteq> tenantIDFromCtx ctx) (tb_links db))"

lemma insert_links_tenant:
  "filter (\<lambda>l. sl_tenant l \<noteq> tenant) (snd (insert_links fault agent tenant ss links)) = filter (\<lambda>l. sl_tenant l \<noteq> tenant) links"
  by (induction ss arbitrary: links) (auto simp: link_server_def split: option.split)

lemma associations_tenant: "foreign_agents ctx (snd (createMCPAssociations fault ctx agent names db)) = foreign_agents ctx db"
  using insert_links_tenant [of "tenantIDFromCtx ctx" fault agent "chosen_servers (tenantIDFromCtx ctx) names (tb_servers db)" "tb_links db"]
  by (auto simp: createMCPAssociations_def foreign_agents_def split: option.split prod.split)

lemma tool_rows_tenant: "t \<in> set (tool_rows i tenant rec) \<Longrightarrow> at_tenant t = tenant"
  by (auto simp: tool_rows_def)

lemma keep_first_subset: "set (keep_first key seen xs) \<subseteq> set xs"
  by (induction xs arbitrary: seen) auto

lemma foreign_without_owned: "foreign_agents ctx (without_owned i (tenantIDFromCtx ctx) db) = foreign_agents ctx db"
  by (auto simp: foreign_agents_def without_owned_def owned_tool_def owned_link_def filter_filter intro!: filter_cong)

lemma foreign_written:
  assumes "\<And>a. P a \<Longrightarrow> in_tenant ctx a" "\<And>a. P a \<Longrightarrow> in_tenant ctx (f a)"
  shows "filter (\<lambda>a. \<not> in_tenant ctx a) (change_rows P f as) = filter (\<lambda>a. \<not> in_tenant ctx a) as"
  using assms by (induction as) (auto simp: change_rows_def)

lemma Update_foreign: "foreign_agents ctx (snd (agents_Update C fault ctx name rec db)) = foreign_agents ctx db"
proof -
  let ?t = "tenantIDFromCtx ctx"
  have tx: "foreign_agents ctx db' = foreign_agents ctx db" if upd: "update_tx C fault ctx i name rec db = Inr db'" for i db'
  proof -
    obtain new where "db' = (without_owned i ?t db)
       \<lparr>tb_agents := change_rows (\<lambda>a. ag_id a = i \<and> ag_tenant a = ?t) (write_columns new) (tb_agents db),
        tb_tools := tb_tools (without_owned i ?t db) @ tool_rows i ?t rec,
        tb_links := tb_links (without_owned i ?t db) @ map (link_server i ?t) (chosen_servers ?t (ar_mcp_servers rec) (tb_servers db))\<rparr>"
      using update_tx_ok [OF upd] by blast
    moreover have "filter (\<lambda>t. at_tenant t \<noteq> ?t) (tool_rows i ?t rec) = []"
      by (rule filter_none) (use tool_rows_tenant in auto)
    moreover have "filter (\<lambda>l. sl_tenant l \<noteq> ?t) (map (link_server i ?t) ss) = []" for ss
      by (rule filter_none) (auto simp: link_server_def)
    moreover have "filter (\<lambda>a. \<not> in_tenant ctx a) (change_rows (\<lambda>a. ag_id a = i \<and> ag_tenant a = ?t) (write_columns new) (tb_agents db))
        = filter (\<lambda>a. \<not> in_tenant ctx a) (tb_agents db)"
      by (rule foreign_written) (auto simp: in_tenant_def write_columns_def)
    ultimately show ?thesis using foreign_without_owned [of ctx i db] by (simp add: foreign_agents_def without_owned_def)
  qed
  then show ?thesis by (auto simp: agents_Update_def Let_def split: option.splits sum.splits)
qed

lemma Create_foreign: "foreign_agents ctx (snd (agents_Create C fault uuid ctx rec db)) = foreign_agents ctx db"
proof -
  let ?t = "tenantIDFromCtx ctx"
  have tools: "filter (\<lambda>t. at_tenant t \<noteq> ?t) (keep_first tool_key {} (tool_rows uuid ?t rec)) = []"
    by (rule filter_none) (use tool_rows_tenant keep_first_subset in fastforce)
  have step: "foreign_agents ctx (db\<lparr>tb_agents := tb_agents db @ [column_defaults (a\<lparr>ag_id := uuid, ag_tenant := ?t\<rparr>)],
      tb_tools := tb_tools db @ keep_first tool_key {} (tool_rows uuid ?t rec)\<rparr>) = foreign_agents ctx db" for a
    by (simp add: foreign_agents_def tools in_tenant_def column_defaults_def)
  show ?thesis
    using associations_tenant step by (simp add: agents_Create_def Let_def split: sum.split option.split prod.split) (metis snd_conv)
qed

lemma Delete_foreign:
  assumes "owners_ok db" "distinct (map ag_id (tb_agents db))"
  shows "foreign_agents ctx (snd (agents_Delete fault ctx name db)) = foreign_agents ctx db"
proof -
  have "foreign_agents ctx (without_agent (ag_id a) db) = foreign_agents ctx db"
    if "first_row ag_id (\<lambda>a. in_tenant ctx a \<and> ag_name a = name) (tb_agents db) = Some a" for a
  proof -
    have a: "a \<in> set (tb_agents db)" "ag_tenant a = tenantIDFromCtx ctx" using first_row_Some [OF that] by (simp_all add: in_tenant_def)
    have "x = a" if "x \<in> set (tb_agents db)" "ag_id x = ag_id a" for x
      using assms(2) a(1) that by (auto simp: distinct_map inj_on_def)
    then show ?thesis
      using a assms(1) by (auto simp: foreign_agents_def without_agent_def in_tenant_def owners_ok_def filter_filter intro!: filter_cong)
  qed
  then show ?thesis by (auto simp: agents_Delete_def Let_def split: option.splits)
qed

text \<open>Creating, changing and deleting an agent leaves the agents, the tools and the links of every other tenant as
  they are.\<close>

theorem agent_changes_stay_in_tenant:
  assumes "owners_ok db" "distinct (map ag_id (tb_agents db))"
  shows "foreign_agents ctx (snd (agents_Create C fault uuid ctx rec db)) = foreign_agents ctx db
    \<and> foreign_agents ctx (snd (agents_Update C fault ctx name rec db)) = foreign_agents ctx db
    \<and> foreign_agents ctx (snd (agents_Delete fault ctx name db)) = foreign_agents ctx db"
  using Create_foreign Update_foreign Delete_foreign [OF assms] by blast

section \<open>Examples\<close>

definition sample_row :: "string \<Rightarrow> string \<Rightarrow> agent_row" where
  "sample_row i tenant =
     \<lparr>ag_id = i, ag_name = ''helper'', ag_tenant = tenant, ag_model_id = None, ag_system_prompt = ''Help.'', ag_lifecycle = ''persistent'',
      ag_tool_execution = ''sequential'', ag_max_steps = 0, ag_max_context = 16000, ag_max_turn = 120, ag_temperature = None,
      ag_top_p = None, ag_max_tokens = None, ag_stop = None, ag_confirm = None, ag_is_system = False\<rparr>"

definition sample_tables :: agent_tables where
  "sample_tables =
     \<lparr>tb_agents = [sample_row ''a1'' ''t1'', sample_row ''a2'' ''t2''], tb_tools = [], tb_links = [],
      tb_servers = [\<lparr>sv_id = ''s1'', sv_name = ''files'', sv_tenant = ''t2''\<rparr>], tb_relations = [],
      tb_models = [example_llm ''m1'' ''chat'' True]\<rparr>"

definition sample_record :: agent_record where
  "sample_record =
     \<lparr>ar_id = [], ar_name = ''helper'', ar_model_id = None, ar_model_name = ''m1'', ar_system_prompt = ''Help well.'',
      ar_lifecycle = ''persistent'', ar_tool_execution = ''sequential'', ar_max_steps = 5, ar_max_context = 8000, ar_max_turn = 60,
      ar_temperature = None, ar_top_p = None, ar_max_tokens = None, ar_stop = [''END''], ar_confirm_before = [],
      ar_builtin_tools = [''manage_tasks''], ar_custom_tools = [], ar_mcp_servers = [''files''], ar_can_spawn = [], ar_is_system = False\<rparr>"

text \<open>A codec for the examples: each character after a one, the end of a text as a zero.\<close>

definition sample_text :: "string \<Rightarrow> string" where
  "sample_text x = concat (map (\<lambda>c. [CHR 49, c]) x) @ [CHR 48]"

fun sample_decode :: "string \<Rightarrow> string \<Rightarrow> string list" where
  "sample_decode cur [] = []"
| "sample_decode cur [f] = [cur]"
| "sample_decode cur (f # c # rest) =
     (if f = CHR 48 then cur # sample_decode [] (c # rest) else sample_decode (cur @ [c]) rest)"

definition sample_codec :: list_codec where
  "sample_codec = \<lparr>lc_encode = (\<lambda>xs. concat (map sample_text xs)), lc_decode = (\<lambda>s. Inr (sample_decode [] s))\<rparr>"

lemma sample_decode_end: "sample_decode cur (CHR 48 # rest) = cur # sample_decode [] rest"
  by (cases rest) simp_all

lemma sample_decode_text: "sample_decode cur (sample_text x @ rest) = (cur @ x) # sample_decode [] rest"
  by (induction x arbitrary: cur) (simp_all add: sample_text_def sample_decode_end)

lemma sample_codec_ok: "codec_ok sample_codec"
proof -
  have "sample_decode [] (concat (map sample_text xs)) = xs" for xs
    by (induction xs) (simp_all add: sample_decode_text)
  moreover have "concat (map sample_text xs) \<noteq> []" if "xs \<noteq> []" for xs
    using that by (cases xs) (simp_all add: sample_text_def)
  ultimately show ?thesis by (simp add: codec_ok_def sample_codec_def)
qed

definition sample_updated :: agent_tables where
  "sample_updated =
     sample_tables\<lparr>
       tb_agents := [sample_row ''a1'' ''t1'',
         (sample_row ''a2'' ''t2'')\<lparr>ag_model_id := Some ''m1'', ag_system_prompt := ''Help well.'', ag_max_steps := 5, ag_max_context := 8000,
           ag_max_turn := 60, ag_stop := Some (sample_text ''END'')\<rparr>],
       tb_tools := [\<lparr>at_agent = ''a2'', at_tenant = ''t2'', at_type = ''builtin'', at_name = ''manage_tasks'', at_config = None, at_sort = 0\<rparr>],
       tb_links := [\<lparr>sl_agent = ''a2'', sl_server = ''s1'', sl_tenant = ''t2''\<rparr>]\<rparr>"

lemma sample_resolved: "resolve_model_name None ''m1'' (tb_models sample_tables) = Inr (Some ''m1'')"
  by (simp add: resolve_model_name_def sample_tables_def first_row_def example_llm_def)

lemma sample_update: "agents_Update sample_codec (\<lambda>q. None) ''t2'' ''helper'' sample_record sample_tables = (None, sample_updated)"
proof -
  have found: "first_row ag_id (\<lambda>a. in_tenant ''t2'' a \<and> ag_name a = ''helper'') (tb_agents sample_tables) = Some (sample_row ''a2'' ''t2'')"
    by (simp add: first_row_def sample_tables_def sample_row_def in_tenant_def tenantIDFromCtx_def)
  have "update_tx sample_codec (\<lambda>q. None) ''t2'' ''a2'' ''helper'' sample_record sample_tables = Inr sample_updated"
    using sample_resolved
    by (simp add: update_tx_def toAgentModelWithDB_def sample_record_def Let_def tenantIDFromCtx_def without_owned_def
        sample_tables_def sample_updated_def change_rows_def sample_row_def write_columns_def agents_ok_def agent_checks_def
        tools_ok_def tool_rows_def createMCPAssociations_def chosen_servers_def link_server_def list_column_def sample_codec_def)
  then show ?thesis by (simp add: agents_Update_def found Let_def) (simp add: sample_row_def)
qed

lemma sample_ok: "owners_ok sample_tables" "indexes_hold (tb_models sample_tables)"
  by (simp_all add: owners_ok_def sample_tables_def indexes_hold_def example_llm_def row_checks_def)


theorem agent_changes_stay_in_tenant_witness:
  "foreign_agents ''t2'' (snd (agents_Delete (\<lambda>q. None) ''t2'' ''helper'' sample_tables)) = foreign_agents ''t2'' sample_tables"
  using agent_changes_stay_in_tenant [OF sample_ok(1), of "''t2''"]
  by (simp add: sample_tables_def sample_row_def)

text \<open>The agent of one tenant is bound to the model of another one, and with it to its key.\<close>

lemma model_of_another_tenant:
  "fst (agents_Update sample_codec (\<lambda>q. None) ''t2'' ''helper'' sample_record sample_tables) = None
   \<and> map ag_model_id (filter (in_tenant ''t2'') (tb_agents (snd (agents_Update sample_codec (\<lambda>q. None) ''t2'' ''helper'' sample_record sample_tables)))) = [Some ''m1'']
   \<and> map lr_tenant (filter (\<lambda>m. lr_id m = ''m1'') (tb_models sample_tables)) = [''t1'']"
  by (simp add: sample_update) (simp add: sample_updated_def sample_tables_def sample_row_def in_tenant_def tenantIDFromCtx_def example_llm_def)

text \<open>An agent that is created before its servers are linked stays when a link fails.\<close>

lemma created_without_its_servers:
  "fst (agents_Create sample_codec (\<lambda>q. if q = FindServers then Some ''timeout'' else None) ''a3'' ''t2''
      (sample_record\<lparr>ar_name := ''other''\<rparr>) sample_tables) = Some ''create mcp associations: resolve mcp servers: timeout''
   \<and> map ag_name (tb_agents (snd (agents_Create sample_codec (\<lambda>q. if q = FindServers then Some ''timeout'' else None) ''a3'' ''t2''
      (sample_record\<lparr>ar_name := ''other''\<rparr>) sample_tables))) = [''helper'', ''helper'', ''other'']"
  using sample_resolved
  by (simp add: agents_Create_def toAgentModelWithDB_def sample_record_def Let_def tenantIDFromCtx_def
      sample_row_def agents_ok_def agent_checks_def createMCPAssociations_def column_defaults_def or_default_def)
     (simp add: sample_tables_def sample_row_def agents_ok_def agent_checks_def)

end
