(* ===== verification/Model_Service.thy ===== *)
theory Model_Service
  imports Agent_Repository Domain_Errors Go_Text
begin

text \<open>
  The service of models and its handlers (\<open>internal/app/model_service_http_adapter.go\<close>,
  \<open>internal/delivery/http/model_handler.go\<close>, \<open>delivery/http/json.go\<close>): listing, creating, replacing, patching and
  deleting the models of a tenant, the default among them, and the agents that are bound to it.

  The state is the tables of agents and models and the list of the cached clients that were dropped.  The answers of the
  database to each query, the new identifier, the clock and the format of a time are arguments; a request comes decoded.

  The theory shows that a tenant with a new chat model has exactly one default, that the tenants are kept apart, that the
  cached client of a changed model is dropped, and where a request does not do what its answer says.
\<close>

section \<open>The environment of a request\<close>

datatype model_query = ListQ | DefaultQ | CreateQ | ClearQ | PromoteQ | GetQ | UpdateQ | UsersQ | DeleteQ

record model_env =
  mv_fault :: "model_query \<Rightarrow> go_error option"
  mv_agent_fault :: "agent_query \<Rightarrow> go_error option"
  mv_broken :: "llm_row list \<Rightarrow> go_error"
  mv_codec :: list_codec
  mv_uuid :: string
  mv_now :: time
  mv_format :: "time \<Rightarrow> string"
  mv_agents :: bool
  mv_cache :: bool

record model_world =
  mw_db :: agent_tables
  mw_dropped :: "string list"

definition models_of :: "model_world \<Rightarrow> llm_row list" where
  "models_of w = tb_models (mw_db w)"

definition with_models :: "llm_row list \<Rightarrow> model_world \<Rightarrow> model_world" where
  "with_models rows w = w\<lparr>mw_db := (mw_db w)\<lparr>tb_models := rows\<rparr>\<rparr>"

definition drop_client :: "model_env \<Rightarrow> string \<Rightarrow> model_world \<Rightarrow> model_world" where
  "drop_client E i w = (if mv_cache E then w\<lparr>mw_dropped := mw_dropped w @ [i]\<rparr> else w)"

record model_response =
  rp_id :: string
  rp_name :: string
  rp_type :: string
  rp_kind :: string
  rp_base_url :: string
  rp_model_name :: string
  rp_has_key :: bool
  rp_api_version :: string
  rp_dim :: int
  rp_default :: bool
  rp_created :: string

record create_request =
  cq_name :: string
  cq_type :: string
  cq_kind :: string
  cq_base_url :: string
  cq_model_name :: string
  cq_api_key :: string
  cq_api_version :: string
  cq_dim :: int
  cq_default :: bool

record patch_request =
  pq_name :: "string option"
  pq_type :: "string option"
  pq_kind :: "string option"
  pq_base_url :: "string option"
  pq_model_name :: "string option"
  pq_api_key :: "string option"
  pq_api_version :: "string option"
  pq_dim :: "int option"
  pq_default :: "bool option"

definition or_chat :: "string \<Rightarrow> string" where
  "or_chat kind = (if kind = [] then ''chat'' else kind)"

definition response_of :: "model_env \<Rightarrow> llm_row \<Rightarrow> model_response" where
  "response_of E r =
     \<lparr>rp_id = lr_id r, rp_name = lr_name r, rp_type = lr_type r, rp_kind = lr_kind r, rp_base_url = lr_base_url r,
      rp_model_name = lr_model_name r, rp_has_key = (lr_api_key r \<noteq> []), rp_api_version = lr_api_version r, rp_dim = EmbeddingDim r,
      rp_default = lr_default r, rp_created = mv_format E (lr_created r)\<rparr>"

definition plain_error :: "string \<Rightarrow> go_error \<Rightarrow> err" where
  "plain_error pre e = Wrapped (pre @ '': '') (Opaque e)"

section \<open>The service\<close>

definition ListModels :: "model_env \<Rightarrow> string \<Rightarrow> model_world \<Rightarrow> err + model_response list" where
  "ListModels E ctx w =
     (case llm_List (mv_fault E ListQ) ctx (models_of w) of
        Inl e \<Rightarrow> Inl (plain_error ''list models'' e)
      | Inr rows \<Rightarrow> Inr (map (\<lambda>r. (response_of E r)\<lparr>rp_kind := or_chat (lr_kind r)\<rparr>) rows))"

definition unbound :: "agent_record \<Rightarrow> bool" where
  "unbound a \<longleftrightarrow> ar_model_id a = None \<or> ar_model_id a = Some []"

definition rebind :: "model_env \<Rightarrow> string \<Rightarrow> string \<Rightarrow> agent_record \<Rightarrow> agent_tables \<Rightarrow> agent_tables" where
  "rebind E ctx model_name a db =
     (if unbound a then snd (agents_Update (mv_codec E) (mv_agent_fault E) ctx (ar_name a) (a\<lparr>ar_model_name := model_name\<rparr>) db) else db)"

definition backfillTenantAgentsToDefault :: "model_env \<Rightarrow> string \<Rightarrow> string \<Rightarrow> model_world \<Rightarrow> model_world" where
  "backfillTenantAgentsToDefault E ctx i w =
     (if \<not> mv_agents E \<or> i = [] then w
      else case agents_List (mv_codec E) (mv_agent_fault E) ctx (mw_db w) of
             Inl e \<Rightarrow> w
           | Inr agents \<Rightarrow>
               (case llm_GetByID (mv_fault E GetQ) ctx i (models_of w) of
                  Inl e \<Rightarrow> w
                | Inr provider \<Rightarrow> w\<lparr>mw_db := fold (rebind E ctx (lr_name provider)) agents (mw_db w)\<rparr>))"

definition set_default :: "model_env \<Rightarrow> string \<Rightarrow> string \<Rightarrow> model_world \<Rightarrow> go_error option \<times> model_world" where
  "set_default E ctx i w =
     (let (e, rows) = SetDefault (mv_fault E ClearQ) (mv_fault E PromoteQ) (mv_broken E) (mv_now E) ctx i (models_of w)
      in (e, with_models rows w))"

definition unique_violation :: "go_error \<Rightarrow> bool" where
  "unique_violation e \<longleftrightarrow> str_contains e ''duplicate key'' \<or> str_contains e ''unique constraint'' \<or> str_contains e ''UNIQUE constraint''"

definition row_of_request :: "create_request \<Rightarrow> string \<Rightarrow> bool \<Rightarrow> llm_row" where
  "row_of_request req kind is_default =
     \<lparr>lr_id = [], lr_name = cq_name req, lr_type = cq_type req, lr_kind = kind, lr_default = is_default, lr_base_url = cq_base_url req,
      lr_model_name = cq_model_name req, lr_api_key = cq_api_key req, lr_api_version = cq_api_version req,
      lr_config = (if cq_dim req > 0 then Some (cq_dim req) else None), lr_tenant = [], lr_created = 0, lr_updated = 0\<rparr>"

text \<open>Whether the new model is promoted because the tenant has no default yet.\<close>

definition auto_promoted :: "model_env \<Rightarrow> string \<Rightarrow> create_request \<Rightarrow> string \<Rightarrow> model_world \<Rightarrow> go_error + bool" where
  "auto_promoted E ctx req kind w =
     (if kind = ''chat'' \<and> \<not> cq_default req
      then (case llm_GetDefault (mv_fault E DefaultQ) ctx ''chat'' (models_of w) of
              Inl e \<Rightarrow> Inl e | Inr None \<Rightarrow> Inr True | Inr (Some r) \<Rightarrow> Inr False)
      else Inr False)"

definition after_create :: "model_env \<Rightarrow> string \<Rightarrow> create_request \<Rightarrow> string \<Rightarrow> bool \<Rightarrow> llm_row \<Rightarrow> model_world \<Rightarrow> (err + model_response) \<times> model_world" where
  "after_create E ctx req kind auto r w =
     (let explicit = (kind = ''chat'' \<and> cq_default req \<and> \<not> auto);
          (e, w1) = (if explicit then set_default E ctx (lr_id r) w else (None, w))
      in case e of
           Some e \<Rightarrow> (Inl (plain_error ''promote to default'' e), w1)
         | None \<Rightarrow>
             (let r' = (if explicit then r\<lparr>lr_default := True\<rparr> else r);
                  w2 = (if kind = ''chat'' \<and> lr_default r' then backfillTenantAgentsToDefault E ctx (lr_id r') w1 else w1)
              in (Inr (response_of E r'), w2)))"

definition CreateModel :: "model_env \<Rightarrow> string \<Rightarrow> create_request \<Rightarrow> model_world \<Rightarrow> (err + model_response) \<times> model_world" where
  "CreateModel E ctx req w =
     (let kind = or_chat (cq_kind req)
      in case auto_promoted E ctx req kind w of
           Inl e \<Rightarrow> (Inl (plain_error ''check existing default model'' e), w)
         | Inr auto \<Rightarrow>
             (let (res, rows) = llm_Create (mv_fault E CreateQ) (mv_broken E) (mv_uuid E) (mv_now E) ctx (row_of_request req kind auto) (models_of w);
                  w1 = with_models rows w
              in case res of
                   Inl e \<Rightarrow>
                     (Inl (if unique_violation e then already_exists (''model with name '' @ [CHR 34] @ cq_name req @ [CHR 34] @ '' already exists'')
                           else plain_error ''create model'' e), w1)
                 | Inr r \<Rightarrow> after_create E ctx (req\<lparr>cq_default := cq_default req \<or> auto\<rparr>) kind auto r w1))"

definition named :: "string \<Rightarrow> llm_row list \<Rightarrow> llm_row option" where
  "named name rows = List.find (\<lambda>r. lr_name r = name) rows"

text \<open>The promotion that a replacement or a patch asks for, and the end of both.\<close>

definition promote_and_drop ::
    "model_env \<Rightarrow> string \<Rightarrow> string \<Rightarrow> bool \<Rightarrow> llm_row \<Rightarrow> (bool \<Rightarrow> model_response) \<Rightarrow> model_world \<Rightarrow> (err + model_response) \<times> model_world" where
  "promote_and_drop E ctx what wanted existing answer w =
     (if wanted \<and> \<not> lr_default existing
      then (case set_default E ctx (lr_id existing) w of
              (Some e, w1) \<Rightarrow> (Inl (plain_error what e), w1)
            | (None, w1) \<Rightarrow>
                (Inr (answer True), drop_client E (lr_id existing) (backfillTenantAgentsToDefault E ctx (lr_id existing) w1)))
      else (Inr (answer (lr_default existing)), drop_client E (lr_id existing) w))"

definition update_answer :: "model_env \<Rightarrow> create_request \<Rightarrow> llm_row \<Rightarrow> bool \<Rightarrow> model_response" where
  "update_answer E req existing is_default =
     \<lparr>rp_id = lr_id existing, rp_name = (if cq_name req = [] then lr_name existing else cq_name req), rp_type = cq_type req,
      rp_kind = or_chat (cq_kind req), rp_base_url = cq_base_url req, rp_model_name = cq_model_name req,
      rp_has_key = (lr_api_key existing \<noteq> [] \<or> cq_api_key req \<noteq> []), rp_api_version = cq_api_version req, rp_dim = cq_dim req,
      rp_default = is_default, rp_created = mv_format E (lr_created existing)\<rparr>"

definition model_not_found :: "string \<Rightarrow> err" where
  "model_not_found name = not_found (''model not found: '' @ name)"

definition UpdateModel :: "model_env \<Rightarrow> string \<Rightarrow> string \<Rightarrow> create_request \<Rightarrow> model_world \<Rightarrow> (err + model_response) \<times> model_world" where
  "UpdateModel E ctx name req w =
     (case llm_List (mv_fault E ListQ) ctx (models_of w) of
        Inl e \<Rightarrow> (Inl (plain_error ''list models for update'' e), w)
      | Inr rows \<Rightarrow>
          (case named name rows of
             None \<Rightarrow> (Inl (model_not_found name), w)
           | Some existing \<Rightarrow>
               (let upd = row_of_request req (or_chat (cq_kind req)) (lr_default existing)
                in case llm_Update (mv_fault E UpdateQ) (mv_broken E) (mv_now E) ctx (lr_id existing) upd (models_of w) of
                     (Some e, rows') \<Rightarrow> (Inl (plain_error ''update model'' e), with_models rows' w)
                   | (None, rows') \<Rightarrow>
                       promote_and_drop E ctx ''promote model to default'' (cq_default req) existing (update_answer E req existing)
                         (with_models rows' w))))"

definition given :: "'a option \<Rightarrow> 'a \<Rightarrow> 'a" where
  "given x y = (case x of None \<Rightarrow> y | Some v \<Rightarrow> v)"

text \<open>The row as the patch wants it; an empty key leaves the key alone.\<close>

definition patched :: "patch_request \<Rightarrow> llm_row \<Rightarrow> llm_row" where
  "patched req existing =
     \<lparr>lr_id = [], lr_name = given (pq_name req) (lr_name existing), lr_type = given (pq_type req) (lr_type existing),
      lr_kind = given (pq_kind req) (or_chat (lr_kind existing)), lr_default = lr_default existing,
      lr_base_url = given (pq_base_url req) (lr_base_url existing), lr_model_name = given (pq_model_name req) (lr_model_name existing),
      lr_api_key = (if given (pq_api_key req) [] \<noteq> [] then given (pq_api_key req) [] else lr_api_key existing),
      lr_api_version = given (pq_api_version req) (lr_api_version existing),
      lr_config = Some (given (pq_dim req) (EmbeddingDim existing)), lr_tenant = [], lr_created = 0, lr_updated = 0\<rparr>"

definition patch_answer :: "model_env \<Rightarrow> patch_request \<Rightarrow> llm_row \<Rightarrow> bool \<Rightarrow> model_response" where
  "patch_answer E req existing is_default =
     (let upd = patched req existing
      in \<lparr>rp_id = lr_id existing, rp_name = lr_name upd, rp_type = lr_type upd, rp_kind = lr_kind upd, rp_base_url = lr_base_url upd,
          rp_model_name = lr_model_name upd, rp_has_key = (lr_api_key upd \<noteq> []), rp_api_version = lr_api_version upd,
          rp_dim = given (pq_dim req) (EmbeddingDim existing), rp_default = is_default, rp_created = mv_format E (lr_created existing)\<rparr>)"

definition PatchModel :: "model_env \<Rightarrow> string \<Rightarrow> string \<Rightarrow> patch_request \<Rightarrow> model_world \<Rightarrow> (err + model_response) \<times> model_world" where
  "PatchModel E ctx name req w =
     (case llm_List (mv_fault E ListQ) ctx (models_of w) of
        Inl e \<Rightarrow> (Inl (plain_error ''list models for patch'' e), w)
      | Inr rows \<Rightarrow>
          (case named name rows of
             None \<Rightarrow> (Inl (model_not_found name), w)
           | Some existing \<Rightarrow>
               (case llm_Update (mv_fault E UpdateQ) (mv_broken E) (mv_now E) ctx (lr_id existing) (patched req existing) (models_of w) of
                  (Some e, rows') \<Rightarrow> (Inl (plain_error ''patch model'' e), with_models rows' w)
                | (None, rows') \<Rightarrow>
                    promote_and_drop E ctx ''promote model to default'' (pq_default req = Some True) existing (patch_answer E req existing)
                      (with_models rows' w))))"

text \<open>The names of the agents of the tenant that refer to a model.\<close>

definition AgentsUsingModel :: "go_error option \<Rightarrow> string \<Rightarrow> string \<Rightarrow> agent_tables \<Rightarrow> go_error + string list" where
  "AgentsUsingModel fault ctx i db =
     (case fault of
        Some e \<Rightarrow> Inl (''list agents using model '' @ i @ '': '' @ e)
      | None \<Rightarrow> Inr (sort (map ag_name (filter (\<lambda>a. in_tenant ctx a \<and> ag_model_id a = Some i) (tb_agents db)))))"

definition DeleteModel :: "model_env \<Rightarrow> string \<Rightarrow> string \<Rightarrow> model_world \<Rightarrow> err option \<times> model_world" where
  "DeleteModel E ctx name w =
     (case llm_List (mv_fault E ListQ) ctx (models_of w) of
        Inl e \<Rightarrow> (Some (plain_error ''list models for delete'' e), w)
      | Inr rows \<Rightarrow>
          (case named name rows of
             None \<Rightarrow> (Some (model_not_found name), w)
           | Some p \<Rightarrow>
               (case AgentsUsingModel (mv_fault E UsersQ) ctx (lr_id p) (mw_db w) of
                  Inl e \<Rightarrow> (Some (plain_error ''check agents using model'' e), w)
                | Inr users \<Rightarrow>
                    if users \<noteq> []
                    then (Some (invalid_input (''cannot delete model '' @ [CHR 34] @ name @ [CHR 34] @ '': it is used by '' @
                            dec_nat (length users) @ '' agent(s): '' @ str_join '', '' users)), w)
                    else (case llm_Delete (mv_fault E DeleteQ) ctx (lr_id p) (models_of w) of
                            (Some e, rows') \<Rightarrow> (Some (Opaque e), with_models rows' w)
                          | (None, rows') \<Rightarrow> (None, drop_client E (lr_id p) (with_models rows' w))))))"

section \<open>The handlers\<close>

datatype 'a http_answer = Failure nat string | Answer nat 'a

definition domainErrorToHTTPStatus :: "err \<Rightarrow> nat" where
  "domainErrorToHTTPStatus e =
     (case as_domain e of
        None \<Rightarrow> 500
      | Some (code, _) \<Rightarrow>
          if code = CodeNotFound then 404 else if code = CodeAlreadyExists then 409 else if code = CodeInvalidInput then 400
          else if code = CodeUnauthorized then 401 else if code = CodeForbidden then 403 else 500)"

definition writeDomainError :: "err \<Rightarrow> 'a http_answer" where
  "writeDomainError e = Failure (domainErrorToHTTPStatus e) (go_err_text e)"

definition bad_request :: "string \<Rightarrow> 'a http_answer" where
  "bad_request message = Failure 400 message"

definition valid_kind :: "string \<Rightarrow> bool" where
  "valid_kind k \<longleftrightarrow> k \<in> {''chat'', ''embedding''}"

definition valid_type :: "string \<Rightarrow> bool" where
  "valid_type t \<longleftrightarrow> t \<in> {''ollama'', ''openai_compatible'', ''anthropic'', ''azure_openai'', ''openrouter''}"

definition kind_message :: string where
  "kind_message = ''kind must be one of: chat, embedding''"

definition type_message :: string where
  "type_message = ''type must be one of: ollama, openai_compatible, anthropic, azure_openai, openrouter''"

definition openrouter_url :: string where
  "openrouter_url = ''https://openrouter.ai/api/v1''"

definition check_embedding :: "create_request \<Rightarrow> string + create_request" where
  "check_embedding req =
     (if cq_dim req > 0
      then (if cq_base_url req = [] then Inl ''base_url is required for embedding models (e.g. https://api.openai.com/v1)''
            else if cq_api_key req = [] then Inl ''api_key is required for embedding models'' else Inr req)
      else Inr req)"

definition check_openrouter :: "create_request \<Rightarrow> string + create_request" where
  "check_openrouter req =
     (if cq_type req = ''openrouter''
      then (if cq_api_key req = [] then Inl ''api_key is required for openrouter''
            else Inr (req\<lparr>cq_type := ''openai_compatible'', cq_base_url := nonempty_or openrouter_url (cq_base_url req)\<rparr>))
      else Inr req)"

definition check_azure :: "create_request \<Rightarrow> string + create_request" where
  "check_azure req =
     (if cq_type req = ''azure_openai''
      then (if cq_base_url req = [] then Inl ''base_url is required for azure_openai (e.g. https://myresource.openai.azure.com)''
            else if cq_api_key req = [] then Inl ''api_key is required for azure_openai''
            else Inr (req\<lparr>cq_api_version := nonempty_or ''2024-10-21'' (cq_api_version req)\<rparr>))
      else Inr req)"

definition check_create :: "create_request \<Rightarrow> string + create_request" where
  "check_create req =
     (if cq_name req = [] then Inl ''name is required''
      else if cq_type req = [] then Inl ''type is required''
      else if cq_model_name req = [] then Inl ''model_name is required''
      else if \<not> valid_type (cq_type req) then Inl type_message
      else if cq_kind req = [] then Inl ''kind is required''
      else if \<not> valid_kind (cq_kind req) then Inl kind_message
      else bind_res (check_openrouter req) (\<lambda>req. bind_res (check_azure req) check_embedding))"

definition check_put :: "create_request \<Rightarrow> string + create_request" where
  "check_put req =
     (if cq_type req = [] then Inl ''type is required for PUT (full replace); use PATCH for partial updates''
      else if cq_model_name req = [] then Inl ''model_name is required for PUT (full replace); use PATCH for partial updates''
      else if cq_kind req = [] then Inl ''kind is required for PUT (full replace); use PATCH for partial updates''
      else if \<not> valid_kind (cq_kind req) then Inl kind_message
      else check_embedding req)"

definition patch_type :: "patch_request \<Rightarrow> string + patch_request" where
  "patch_type req =
     (case pq_type req of
        None \<Rightarrow> Inr req
      | Some t \<Rightarrow>
          if \<not> valid_type t then Inl type_message
          else if t = ''openrouter''
          then Inr (req\<lparr>pq_type := Some ''openai_compatible'', pq_base_url := Some (nonempty_or openrouter_url (given (pq_base_url req) []))\<rparr>)
          else Inr req)"

definition check_patch :: "patch_request \<Rightarrow> string + patch_request" where
  "check_patch req =
     (if (case pq_kind req of None \<Rightarrow> False | Some k \<Rightarrow> \<not> valid_kind k) then Inl kind_message
      else bind_res (patch_type req) (\<lambda>req.
        if pq_default req = Some False then Inl (''cannot clear is_default; set another model'' @ [CHR 39] @ ''s is_default=true instead'')
        else Inr req))"

text \<open>A body that cannot be decoded is refused before it is looked at.\<close>

definition with_body :: "go_error + 'r \<Rightarrow> ('r \<Rightarrow> string + 's) \<Rightarrow> ('s \<Rightarrow> 'a http_answer \<times> 'w) \<Rightarrow> 'w \<Rightarrow> 'a http_answer \<times> 'w" where
  "with_body body check run w =
     (case body of
        Inl e \<Rightarrow> (bad_request (''invalid request body: '' @ e), w)
      | Inr req \<Rightarrow> (case check req of Inl message \<Rightarrow> (bad_request message, w) | Inr req' \<Rightarrow> run req'))"

definition answer_with :: "nat \<Rightarrow> (err + 'a) \<times> 'w \<Rightarrow> 'a http_answer \<times> 'w" where
  "answer_with status r = (case r of (Inl e, w) \<Rightarrow> (writeDomainError e, w) | (Inr x, w) \<Rightarrow> (Answer status x, w))"

definition model_List_handler :: "model_env \<Rightarrow> string \<Rightarrow> string \<Rightarrow> model_world \<Rightarrow> model_response list http_answer" where
  "model_List_handler E ctx kind w =
     (case ListModels E ctx w of
        Inl e \<Rightarrow> writeDomainError e
      | Inr all \<Rightarrow>
          if kind = [] then Answer 200 all
          else if \<not> valid_kind kind then bad_request kind_message
          else Answer 200 (filter (\<lambda>m. rp_kind m = kind) all))"

definition model_Create_handler :: "model_env \<Rightarrow> string \<Rightarrow> go_error + create_request \<Rightarrow> model_world \<Rightarrow> model_response http_answer \<times> model_world" where
  "model_Create_handler E ctx body w = with_body body check_create (\<lambda>req. answer_with 201 (CreateModel E ctx req w)) w"

definition model_Update_handler ::
    "model_env \<Rightarrow> string \<Rightarrow> string \<Rightarrow> go_error + create_request \<Rightarrow> model_world \<Rightarrow> model_response http_answer \<times> model_world" where
  "model_Update_handler E ctx name body w =
     (if name = [] then (bad_request ''model name is required'', w)
      else with_body body check_put (\<lambda>req. answer_with 200 (UpdateModel E ctx name req w)) w)"

definition model_Patch_handler ::
    "model_env \<Rightarrow> string \<Rightarrow> string \<Rightarrow> go_error + patch_request \<Rightarrow> model_world \<Rightarrow> model_response http_answer \<times> model_world" where
  "model_Patch_handler E ctx name body w =
     (if name = [] then (bad_request ''model name is required'', w)
      else with_body body check_patch (\<lambda>req. answer_with 200 (PatchModel E ctx name req w)) w)"

definition model_Delete_handler :: "model_env \<Rightarrow> string \<Rightarrow> string \<Rightarrow> model_world \<Rightarrow> unit http_answer \<times> model_world" where
  "model_Delete_handler E ctx name w =
     (if name = [] then (bad_request ''model name is required'', w)
      else case DeleteModel E ctx name w of
             (Some e, w') \<Rightarrow> (writeDomainError e, w')
           | (None, w') \<Rightarrow> (Answer 204 (), w'))"

section \<open>The tables of models\<close>

lemma models_with_models [simp]: "models_of (with_models rows w) = rows"
  by (simp add: models_of_def with_models_def)

lemma models_drop_client [simp]: "models_of (drop_client E i w) = models_of w"
  by (simp add: models_of_def drop_client_def)

lemma associations_models: "tb_models (snd (createMCPAssociations fault ctx agent names db)) = tb_models db"
  by (auto simp: createMCPAssociations_def split: option.split prod.split)

lemma Update_models: "tb_models (snd (agents_Update C fault ctx name rec db)) = tb_models db"
proof -
  have "tb_models db' = tb_models db" if upd: "update_tx C fault ctx i name rec db = Inr db'" for i db'
    by (rule update_tx_ok [OF upd]) (simp add: without_owned_def)
  then show ?thesis by (auto simp: agents_Update_def Let_def split: option.splits sum.splits)
qed

lemma rebind_models: "tb_models (fold (rebind E ctx n) as db) = tb_models db"
  by (induction as arbitrary: db) (simp_all add: rebind_def Update_models)

lemma backfill_models [simp]: "models_of (backfillTenantAgentsToDefault E ctx i w) = models_of w"
  by (auto simp: backfillTenantAgentsToDefault_def models_of_def rebind_models split: sum.split)

text \<open>Every operation ends with the rows of one or two statements of the repository.\<close>

lemma set_default_models:
  "models_of (snd (set_default E ctx i w)) =
     snd (SetDefault (mv_fault E ClearQ) (mv_fault E PromoteQ) (mv_broken E) (mv_now E) ctx i (models_of w))"
  by (simp add: set_default_def split: prod.split)

lemma promote_models:
  "models_of (snd (promote_and_drop E ctx what wanted existing answer w)) =
     (if wanted \<and> \<not> lr_default existing then models_of (snd (set_default E ctx (lr_id existing) w)) else models_of w)"
  by (auto simp: promote_and_drop_def split: prod.split option.split)

lemma after_create_models:
  "models_of (snd (after_create E ctx req kind auto r w)) =
     (if kind = ''chat'' \<and> cq_default req \<and> \<not> auto then models_of (snd (set_default E ctx (lr_id r) w)) else models_of w)"
  by (auto simp: after_create_def Let_def split: prod.split option.split)

text \<open>
  A law of the table is a relation that every statement of the repository keeps; then every operation of the service
  keeps it.
\<close>

locale table_law =
  fixes E :: model_env and ctx :: string and Q :: "llm_row list \<Rightarrow> llm_row list \<Rightarrow> bool"
  assumes kept_refl: "Q rows rows"
    and kept_trans: "Q a b \<Longrightarrow> Q b c \<Longrightarrow> Q a c"
    and kept_create: "Q rows (snd (llm_Create (mv_fault E CreateQ) (mv_broken E) (mv_uuid E) (mv_now E) ctx m rows))"
    and kept_update: "Q rows (snd (llm_Update (mv_fault E UpdateQ) (mv_broken E) (mv_now E) ctx i m rows))"
    and kept_delete: "Q rows (snd (llm_Delete (mv_fault E DeleteQ) ctx i rows))"
    and kept_set: "Q rows (snd (SetDefault (mv_fault E ClearQ) (mv_fault E PromoteQ) (mv_broken E) (mv_now E) ctx i rows))"
begin

lemma promote_kept: "Q rows (models_of w) \<Longrightarrow> Q rows (models_of (snd (promote_and_drop E ctx what wanted existing answer w)))"
  using kept_set kept_trans unfolding promote_models set_default_models by (cases "wanted \<and> \<not> lr_default existing") auto

lemma after_create_kept: "Q rows (models_of w) \<Longrightarrow> Q rows (models_of (snd (after_create E ctx req kind auto r w)))"
  using kept_set kept_trans unfolding after_create_models set_default_models by (cases "kind = ''chat'' \<and> cq_default req \<and> \<not> auto") auto

lemma CreateModel_kept: "Q (models_of w) (models_of (snd (CreateModel E ctx req w)))"
proof (cases "auto_promoted E ctx req (or_chat (cq_kind req)) w")
  case (Inr auto)
  let ?c = "llm_Create (mv_fault E CreateQ) (mv_broken E) (mv_uuid E) (mv_now E) ctx (row_of_request req (or_chat (cq_kind req)) auto) (models_of w)"
  obtain res rows where c: "?c = (res, rows)" by (cases ?c) auto
  have "Q (models_of w) rows" using kept_create [of "models_of w" "row_of_request req (or_chat (cq_kind req)) auto"] by (simp add: c)
  then show ?thesis using after_create_kept by (cases res) (simp_all add: CreateModel_def Inr c)
qed (simp add: CreateModel_def kept_refl)

lemma update_result_kept:
  "llm_Update (mv_fault E UpdateQ) (mv_broken E) (mv_now E) ctx i m (models_of w) = (e, rows') \<Longrightarrow> Q (models_of w) rows'"
  using kept_update [of "models_of w" i m] by simp

lemma UpdateModel_kept: "Q (models_of w) (models_of (snd (UpdateModel E ctx name req w)))"
  using kept_refl update_result_kept promote_kept by (auto simp: UpdateModel_def Let_def split: sum.split option.split prod.split)

lemma PatchModel_kept: "Q (models_of w) (models_of (snd (PatchModel E ctx name req w)))"
  using kept_refl update_result_kept promote_kept by (auto simp: PatchModel_def Let_def split: sum.split option.split prod.split)

lemma DeleteModel_kept: "Q (models_of w) (models_of (snd (DeleteModel E ctx name w)))"
proof -
  have "Q (models_of w) rows'" if "llm_Delete (mv_fault E DeleteQ) ctx i (models_of w) = (e, rows')" for i e rows'
    using kept_delete [of "models_of w" i] that by simp
  then show ?thesis using kept_refl by (auto simp: DeleteModel_def split: sum.split option.split prod.split)
qed

end

interpretation index_law: table_law E ctx "\<lambda>a b. indexes_hold a \<longrightarrow> indexes_hold b" for E ctx
  by unfold_locales (auto intro: llm_Create_indexes llm_Update_indexes llm_Delete_indexes SetDefault_indexes)

interpretation tenant_law: table_law E ctx "\<lambda>a b. rows_of_others ctx b = rows_of_others ctx a" for E ctx
  by unfold_locales (auto simp: llm_Create_others llm_Update_others llm_Delete_others SetDefault_others)

text \<open>C28: Whatever is asked of the service, the table of models keeps its keys, its one default per tenant and its
  checks, and no row of another tenant changes.\<close>

theorem model_table_is_kept:
  assumes "indexes_hold (models_of w)"
    and "w' \<in> {snd (CreateModel E ctx req w), snd (UpdateModel E ctx name req w), snd (PatchModel E ctx name preq w), snd (DeleteModel E ctx name w)}"
  shows "indexes_hold (models_of w') \<and> rows_of_others ctx (models_of w') = rows_of_others ctx (models_of w)"
  using assms(2) index_law.CreateModel_kept [rule_format, OF assms(1)] index_law.UpdateModel_kept [rule_format, OF assms(1)]
    index_law.PatchModel_kept [rule_format, OF assms(1)] index_law.DeleteModel_kept [rule_format, OF assms(1)]
  by (auto simp: tenant_law.CreateModel_kept tenant_law.UpdateModel_kept tenant_law.PatchModel_kept tenant_law.DeleteModel_kept)

section \<open>The default of a tenant\<close>

lemma default_chat_only:
  assumes "indexes_hold rows" "r \<in> set rows" "default_chat tenant r"
  shows "filter (default_chat tenant) rows = [r]"
proof -
  have ids: "distinct (map lr_id rows)" using assms(1) by (simp add: indexes_hold_def)
  have same: "x = r" if "x \<in> set rows" "lr_id x = lr_id r" for x
    using ids that assms(2) by (auto simp: distinct_map inj_on_def)
  have "default_chat tenant x \<longleftrightarrow> lr_id x = lr_id r" if "x \<in> set rows" for x
    using one_default [OF assms(1) that assms(2) _ assms(3)] same [OF that] assms(3) by blast
  then have "filter (default_chat tenant) rows = filter (\<lambda>x. lr_id x = lr_id r) rows" by (rule filter_cong [OF refl])
  then show ?thesis by (simp add: filter_one_id [OF ids assms(2)])
qed

lemma created_row:
  assumes "llm_Create fault broken uuid now ctx m rows = (Inr r, rows')"
  shows "rows' = rows @ [r] \<and> lr_tenant r = tenantIDFromCtx ctx \<and> lr_default r = lr_default m
    \<and> lr_kind r = or_chat (lr_kind m) \<and> lr_id r = uuid \<and> indexes_hold rows'"
  using assms by (auto simp: llm_Create_def checked_def Let_def or_chat_def split: option.splits if_splits)

lemma no_fault_create: "llm_Create fault broken uuid now ctx m rows = (Inr r, rows') \<Longrightarrow> fault = None"
  by (auto simp: llm_Create_def checked_def Let_def split: option.splits)

lemma found_default:
  assumes "llm_GetDefault fault ctx ''chat'' rows = Inr (Some d)"
  shows "d \<in> set rows \<and> default_chat (tenantIDFromCtx ctx) d"
proof -
  have "first_row lr_id (\<lambda>r. lr_scope ctx r \<and> lr_default r \<and> lr_kind r = ''chat'') rows = Some d"
    using assms by (simp add: llm_GetDefault_def Let_def split: option.splits)
  from first_row_Some [OF this] show ?thesis by (simp add: default_chat_def lr_scope_def)
qed

lemma SetDefault_done:
  assumes "SetDefault fault1 fault2 broken now ctx i rows = (None, rows')"
  shows "rows' = map (turn_default now (tenantIDFromCtx ctx) i) rows"
  using assms by (auto simp: SetDefault_def checked_def Let_def promoted_cleared split: option.splits if_splits prod.splits)

text \<open>C27: A chat model that has been created leaves its tenant with exactly one default among the chat models: the
  first chat model becomes it, a later one only if this was asked for.\<close>

theorem chat_model_leaves_one_default:
  assumes "CreateModel E ctx req w = (Inr answer, w')" "or_chat (cq_kind req) = ''chat''" "indexes_hold (models_of w)"
  shows "\<exists>d. filter (default_chat (tenantIDFromCtx ctx)) (models_of w') = [d] \<and> (cq_default req \<longrightarrow> lr_id d = mv_uuid E)"
proof -
  let ?t = "tenantIDFromCtx ctx"
  obtain auto where auto: "auto_promoted E ctx req ''chat'' w = Inr auto"
    using assms(1,2) by (cases "auto_promoted E ctx req ''chat'' w") (auto simp: CreateModel_def)
  let ?c = "llm_Create (mv_fault E CreateQ) (mv_broken E) (mv_uuid E) (mv_now E) ctx (row_of_request req ''chat'' auto) (models_of w)"
  obtain r rows' where c: "?c = (Inr r, rows')"
    using assms(1,2) auto by (cases ?c; cases "fst ?c") (auto simp: CreateModel_def)
  let ?req = "req\<lparr>cq_default := cq_default req \<or> auto\<rparr>"
  have after: "after_create E ctx ?req ''chat'' auto r (with_models rows' w) = (Inr answer, w')"
    using assms(1,2) auto c by (simp add: CreateModel_def)
  have r: "rows' = models_of w @ [r]" "lr_tenant r = ?t" "lr_default r = auto" "lr_kind r = ''chat''" "lr_id r = mv_uuid E" "indexes_hold rows'"
    using created_row [OF c] by (auto simp: row_of_request_def or_chat_def)
  consider "cq_default req" | "\<not> cq_default req" "auto" | "\<not> cq_default req" "\<not> auto" by blast
  then show ?thesis
  proof cases
    case 1
    then have "\<not> auto" using auto by (auto simp: auto_promoted_def)
    then obtain w1 where sd: "set_default E ctx (lr_id r) (with_models rows' w) = (None, w1)" and w': "models_of w' = models_of w1"
      using after 1 unfolding after_create_def
      by (cases "set_default E ctx (lr_id r) (with_models rows' w)") (auto simp: Let_def split: option.splits)
    have committed: "SetDefault (mv_fault E ClearQ) (mv_fault E PromoteQ) (mv_broken E) (mv_now E) ctx (lr_id r) rows' = (None, models_of w1)"
      using sd by (auto simp: set_default_def split: prod.splits)
    let ?d = "turn_default (mv_now E) ?t (lr_id r) r"
    have m: "models_of w1 = map (turn_default (mv_now E) ?t (lr_id r)) rows'" by (rule SetDefault_done [OF committed])
    have "indexes_hold (models_of w1)" unfolding m by (rule turned_indexes [OF r(6)])
    moreover have "?d \<in> set (models_of w1)" unfolding m using r(1) by simp
    moreover have "default_chat ?t ?d" using r by (simp add: default_chat_def turn_default_def)
    ultimately have "filter (default_chat ?t) (models_of w1) = [?d]" by (rule default_chat_only)
    then show ?thesis using w' r(5) by auto
  next
    case 2
    have "models_of w' = rows'" using after 2 by (auto simp: after_create_def)
    moreover have "default_chat ?t r" using r 2 by (simp add: default_chat_def)
    ultimately show ?thesis using default_chat_only [OF r(6), of r ?t] r(1) 2 by auto
  next
    case 3
    have m: "models_of w' = rows'" using after 3 r(3) by (auto simp: after_create_def)
    obtain d where "llm_GetDefault (mv_fault E DefaultQ) ctx ''chat'' (models_of w) = Inr (Some d)"
      using auto 3 by (auto simp: auto_promoted_def split: sum.splits option.splits)
    from found_default [OF this] have "d \<in> set rows'" "default_chat ?t d" using r(1) by simp_all
    then show ?thesis using default_chat_only [OF r(6), of d ?t] m 3 by auto
  qed
qed

section \<open>Examples\<close>

definition example_env :: model_env where
  "example_env =
     \<lparr>mv_fault = (\<lambda>q. None), mv_agent_fault = (\<lambda>q. None), mv_broken = (\<lambda>rows. ''duplicate key value''), mv_codec = sample_codec,
      mv_uuid = ''m9'', mv_now = 7, mv_format = (\<lambda>t. []), mv_agents = False, mv_cache = True\<rparr>"

definition example_world :: "llm_row list \<Rightarrow> model_world" where
  "example_world rows = \<lparr>mw_db = sample_tables\<lparr>tb_models := rows\<rparr>, mw_dropped = []\<rparr>"

definition example_request :: create_request where
  "example_request =
     \<lparr>cq_name = ''new'', cq_type = ''ollama'', cq_kind = ''chat'', cq_base_url = [], cq_model_name = ''llama'', cq_api_key = [],
      cq_api_version = [], cq_dim = 0, cq_default = False\<rparr>"

definition first_model_row :: llm_row where
  "first_model_row =
     \<lparr>lr_id = ''m9'', lr_name = ''new'', lr_type = ''ollama'', lr_kind = ''chat'', lr_default = True, lr_base_url = [],
      lr_model_name = ''llama'', lr_api_key = [], lr_api_version = [], lr_config = Some 0, lr_tenant = ''t1'', lr_created = 7, lr_updated = 7\<rparr>"

lemma models_example [simp]: "models_of (example_world rows) = rows"
  by (simp add: models_of_def example_world_def)

lemma first_model_created:
  "CreateModel example_env ''t1'' example_request (example_world []) =
     (Inr (response_of example_env first_model_row), with_models [first_model_row] (example_world []))"
  by (simp add: CreateModel_def example_request_def or_chat_def auto_promoted_def llm_GetDefault_def first_row_def example_env_def
      llm_Create_def row_of_request_def checked_def indexes_hold_def row_checks_def Let_def EmbeddingDim_def tenantIDFromCtx_def
      after_create_def backfillTenantAgentsToDefault_def first_model_row_def)

theorem chat_model_leaves_one_default_witness:
  "\<exists>d. filter (default_chat ''t1'') [first_model_row] = [d]"
proof -
  have "or_chat (cq_kind example_request) = ''chat''" "indexes_hold (models_of (example_world []))"
    by (simp_all add: example_request_def or_chat_def indexes_hold_def)
  moreover have "tenantIDFromCtx ''t1'' = ''t1''" by (simp add: tenantIDFromCtx_def)
  ultimately show ?thesis using chat_model_leaves_one_default [OF first_model_created] unfolding models_with_models by metis
qed

theorem model_table_is_kept_witness:
  "indexes_hold (models_of (snd (DeleteModel example_env ''t1'' ''m1'' (example_world example_models))))"
proof -
  have "indexes_hold (models_of (example_world example_models))" using example_models_hold by simp
  from model_table_is_kept [OF this, of _ example_env "''t1''" example_request "''m1''"] show ?thesis by blast
qed

section \<open>Answers that are not true\<close>

text \<open>A default that is patched to another kind, or a model for embeddings that is promoted, leaves no default.\<close>

lemma promoted_embedding_leaves_no_default:
  assumes "indexes_hold (models_of w)" "r \<in> set (models_of w)" "lr_tenant r = tenantIDFromCtx ctx" "lr_kind r = ''embedding''"
    and "\<And>q. mv_fault E q = None" and "\<not> lr_default r"
  shows "llm_GetDefault None ctx ''chat'' (models_of (snd (promote_and_drop E ctx what True r answer w))) = Inr None"
  using embedding_takes_the_default [OF assms(1-4), of "mv_broken E" "mv_now E"] assms(5,6)
  by (simp add: promote_models set_default_models)

text \<open>A replacement answers with the empty text for a column that keeps its value.\<close>

lemma replacement_keeps_the_url:
  assumes "UpdateModel E ctx name req w = (Inr answer, w')" "cq_base_url req = []" "\<not> cq_default req"
  shows "rp_base_url answer = []
    \<and> map (\<lambda>r. (lr_id r, lr_base_url r)) (models_of w') = map (\<lambda>r. (lr_id r, lr_base_url r)) (models_of w)"
proof -
  obtain rows where l: "llm_List (mv_fault E ListQ) ctx (models_of w) = Inr rows"
    using assms(1) by (cases "llm_List (mv_fault E ListQ) ctx (models_of w)") (auto simp: UpdateModel_def)
  then obtain x where x: "named name rows = Some x" using assms(1) by (cases "named name rows") (auto simp: UpdateModel_def)
  let ?upd = "row_of_request req (or_chat (cq_kind req)) (lr_default x)"
  obtain rows' where u: "llm_Update (mv_fault E UpdateQ) (mv_broken E) (mv_now E) ctx (lr_id x) ?upd (models_of w) = (None, rows')"
    and p: "promote_and_drop E ctx ''promote model to default'' (cq_default req) x (update_answer E req x) (with_models rows' w) = (Inr answer, w')"
    using assms(1) l x by (auto simp: UpdateModel_def Let_def split: prod.splits option.splits)
  have "rows' = change_rows (\<lambda>r. lr_scope ctx r \<and> lr_id r = lr_id x) (merge_row (mv_now E) ?upd) (models_of w)"
    using u by (auto simp: llm_Update_def checked_def Let_def split: option.splits if_splits)
  moreover have "lr_base_url (merge_row t ?upd r) = lr_base_url r" for t r
    using assms(2) by (simp add: merge_row_def row_of_request_def nonempty_or_def)
  moreover have "models_of w' = rows'" "rp_base_url answer = []"
    using p assms(2,3) by (auto simp: promote_and_drop_def update_answer_def)
  ultimately show ?thesis by (simp add: change_rows_def)
qed

text \<open>A change that was written stays, and its cached client too, when the promotion after it fails.\<close>

lemma failed_promotion_keeps_the_client:
  assumes "fst (promote_and_drop E ctx what wanted existing answer w) = Inl e"
  shows "mw_dropped (snd (promote_and_drop E ctx what wanted existing answer w)) = mw_dropped w"
  using assms by (auto simp: promote_and_drop_def set_default_def with_models_def split: if_splits option.splits prod.splits)

text \<open>The preset \<open>openrouter\<close> passes the check of a replacement as it is and breaks the check of the table.\<close>

lemma openrouter_breaks_the_replacement:
  assumes "cq_type req = ''openrouter''" "x \<in> set rows" "lr_scope ctx x"
  shows "fst (llm_Update fault broken now ctx (lr_id x) (row_of_request req kind d) rows) \<noteq> None"
proof -
  let ?new = "change_rows (\<lambda>r. lr_scope ctx r \<and> lr_id r = lr_id x) (merge_row now (row_of_request req kind d)) rows"
  have "merge_row now (row_of_request req kind d) x \<in> set ?new" using assms(2,3) by (force simp: change_rows_def)
  moreover have "\<not> row_checks (merge_row now (row_of_request req kind d) x)"
    using assms(1) by (simp add: row_checks_def merge_row_def row_of_request_def nonempty_or_def)
  ultimately have "\<not> indexes_hold ?new" unfolding indexes_hold_def list_all_iff by blast
  then show ?thesis by (auto simp: llm_Update_def checked_def Let_def split: option.splits)
qed

lemma openrouter_passes_the_check:
  "cq_type req = ''openrouter'' \<Longrightarrow> cq_model_name req \<noteq> [] \<Longrightarrow> cq_kind req = ''chat'' \<Longrightarrow> cq_dim req = 0 \<Longrightarrow> check_put req = Inr req"
  by (simp add: check_put_def valid_kind_def check_embedding_def)

text \<open>A taken name is a conflict for a new model and an internal error for a renamed one.\<close>

lemma taken_name_status:
  assumes "unique_violation e"
  shows "domainErrorToHTTPStatus (already_exists message) = 409" "domainErrorToHTTPStatus (plain_error ''update model'' e) = 500"
  by (simp_all add: domainErrorToHTTPStatus_def already_exists_def new_error_def plain_error_def code_defs)

text \<open>What passes the check of a new model never breaks the checks of the table.\<close>

lemma checked_request_fits_the_table:
  assumes "check_create req = Inr req'"
  shows "row_checks (row_of_request req' (or_chat (cq_kind req')) d)"
proof -
  have v: "valid_type (cq_type req)" "valid_kind (cq_kind req)"
    using assms by (auto simp: check_create_def split: if_splits)
  obtain r1 r2 where r: "check_openrouter req = Inr r1" "check_azure r1 = Inr r2" "check_embedding r2 = Inr req'"
    using assms by (auto simp: check_create_def split: if_splits)
  have "cq_type r1 \<in> {''ollama'', ''openai_compatible'', ''anthropic'', ''azure_openai''} \<and> cq_kind r1 = cq_kind req"
    using r(1) v(1) by (auto simp: check_openrouter_def valid_type_def split: if_splits)
  moreover have "cq_type r2 = cq_type r1 \<and> cq_kind r2 = cq_kind r1" using r(2) by (auto simp: check_azure_def split: if_splits)
  moreover have "req' = r2" using r(3) by (auto simp: check_embedding_def split: if_splits)
  ultimately show ?thesis using v(2) by (auto simp: row_checks_def row_of_request_def or_chat_def valid_kind_def)
qed

end
