(* ===== verification/Model_Conversion.thy ===== *)
theory Model_Conversion
  imports Message_Modifier Session_Events Go_Text "HOL-Library.AList"
begin

text \<open>
  Messages on their way to the providers of models and back (\<open>internal/infrastructure/llm\<close>: \<open>openai_convert.go\<close>,
  \<open>gemini_convert.go\<close>, \<open>sse_parser.go\<close>, \<open>gemini_client.go\<close>), with the repair of tool calls that a model has written in
  the style of Python.

  The JSON library, the HTTP client and the scanner of lines are parameters; the frames of a response come as its lines.

  The theory shows that a message survives the way to the format of OpenAI and back, what the splitting of arguments
  keeps, and what of a conversation the format of Gemini loses.
\<close>

section \<open>The format of OpenAI\<close>

fun role_text :: "role \<Rightarrow> string" where
  "role_text System = ''system''"
| "role_text User = ''user''"
| "role_text Assistant = ''assistant''"
| "role_text Tool = ''tool''"
| "role_text (RoleOther s) = s"

definition role_of_text :: "string \<Rightarrow> role" where
  "role_of_text s =
     (if s = ''system'' then System else if s = ''user'' then User else if s = ''assistant'' then Assistant
      else if s = ''tool'' then Tool else RoleOther s)"

record openai_tool_call =
  oc_id :: string
  oc_type :: string
  oc_name :: string
  oc_arguments :: string

record openai_message =
  om_role :: string
  om_content :: string
  om_name :: string
  om_tool_calls :: "openai_tool_call list"
  om_tool_call_id :: string

definition schemaMessageToOpenAI :: "message \<Rightarrow> openai_message" where
  "schemaMessageToOpenAI m =
     \<lparr>om_role = role_text (ms_role m), om_content = ms_content m, om_name = ms_name m,
      om_tool_calls = map (\<lambda>tc. \<lparr>oc_id = tc_call_id tc, oc_type = ''function'', oc_name = tc_name tc, oc_arguments = tc_arguments tc\<rparr>) (ms_tool_calls m),
      om_tool_call_id = ms_tool_call_id m\<rparr>"

text \<open>Whether a text is JSON, and the value it stands for.\<close>

record json_values = json_lib +
  jv_valid :: "string \<Rightarrow> bool"
  jv_value :: "string \<Rightarrow> gval option"

section \<open>Tool calls in the style of Python\<close>

text \<open>The variables of the loop over the characters.\<close>

record split_state =
  sp_parts :: "string list"
  sp_current :: string
  sp_depth :: int
  sp_quoted :: bool
  sp_escaped :: bool

definition write_rune :: "string \<Rightarrow> split_state \<Rightarrow> split_state" where
  "write_rune ch v = v\<lparr>sp_current := sp_current v @ ch\<rparr>"

definition bracket_step :: "string \<Rightarrow> int" where
  "bracket_step ch = (if ch = ''['' \<or> ch = ''{'' then 1 else if ch = '']'' \<or> ch = ''}'' then - 1 else 0)"

definition split_step :: "string \<Rightarrow> split_state \<Rightarrow> split_state" where
  "split_step ch v =
     (if sp_escaped v then (write_rune ch v)\<lparr>sp_escaped := False\<rparr>
      else if ch = [CHR 92] then write_rune ch (v\<lparr>sp_escaped := True\<rparr>)
      else if ch = [CHR 34] then write_rune ch (v\<lparr>sp_quoted := \<not> sp_quoted v\<rparr>)
      else if sp_quoted v then write_rune ch v
      else let v' = v\<lparr>sp_depth := sp_depth v + bracket_step ch\<rparr>
           in if ch = '','' \<and> sp_depth v' = 0 then v'\<lparr>sp_parts := sp_parts v' @ [sp_current v'], sp_current := []\<rparr>
              else write_rune ch v')"

definition split_start :: split_state where
  "split_start = \<lparr>sp_parts = [], sp_current = [], sp_depth = 0, sp_quoted = False, sp_escaped = False\<rparr>"

definition splitRespectingQuotesAndBrackets :: "string \<Rightarrow> string list" where
  "splitRespectingQuotesAndBrackets s =
     (let v = fold split_step (runes s) split_start
      in sp_parts v @ (if sp_current v = [] then [] else [sp_current v]))"

definition trim_bytes :: "char set \<Rightarrow> string \<Rightarrow> string" where
  "trim_bytes cs s = rev (dropWhile (\<lambda>c. c \<in> cs) (rev (dropWhile (\<lambda>c. c \<in> cs) s)))"

text \<open>One part: the key and its value, if there is an equals sign.\<close>

definition python_arg :: "json_values \<Rightarrow> string \<Rightarrow> (string \<times> gval) option" where
  "python_arg J part =
     (let p = trim_space part
      in case str_index p ''='' of
           None \<Rightarrow> None
         | Some i \<Rightarrow>
             (let key = trim_space (take i p); val = trim_space (drop (i + 1) p)
              in Some (key, case jv_value J val of Some v \<Rightarrow> v | None \<Rightarrow> GStr (trim_bytes {CHR 34, CHR 39} val))))"

definition parsePythonStyleArgs :: "json_values \<Rightarrow> string \<Rightarrow> (string \<times> gval) list" where
  "parsePythonStyleArgs J s =
     fold (\<lambda>(k, v). AList.update k v) (List.map_filter (python_arg J) (splitRespectingQuotesAndBrackets s)) []"

fun last_index :: "char \<Rightarrow> string \<Rightarrow> nat option" where
  "last_index c [] = None"
| "last_index c (x # xs) = (case last_index c xs of Some i \<Rightarrow> Some (Suc i) | None \<Rightarrow> if x = c then Some 0 else None)"

definition sanitizeToolCall :: "json_values \<Rightarrow> string \<Rightarrow> string \<Rightarrow> string \<times> string" where
  "sanitizeToolCall J name arguments =
     (case str_index name ''('' of
        None \<Rightarrow> (name, arguments)
      | Some i \<Rightarrow>
          if arguments \<noteq> [] \<and> arguments \<noteq> ''{}'' \<and> jv_valid J arguments then (take i name, arguments)
          else (let toolName = trim_space (take i name); rest = drop (i + 1) name;
                    args_text = (case last_index (CHR 41) rest of Some j \<Rightarrow> take j rest | None \<Rightarrow> rest);
                    args = parsePythonStyleArgs J args_text
                in if args = [] then (toolName, arguments)
                   else case jl_marshal J (GMap args) of
                          None \<Rightarrow> (toolName, arguments)
                        | Some text \<Rightarrow> (toolName, text)))"

definition oaiMessageToSchema :: "json_values \<Rightarrow> openai_message \<Rightarrow> message" where
  "oaiMessageToSchema J oai =
     \<lparr>ms_role = role_of_text (om_role oai), ms_content = om_content oai, ms_name = om_name oai,
      ms_tool_calls = map (\<lambda>tc. let (name, args) = sanitizeToolCall J (oc_name tc) (oc_arguments tc)
                                in \<lparr>tc_call_id = oc_id tc, tc_type = ''function'', tc_name = name, tc_arguments = args\<rparr>) (om_tool_calls oai),
      ms_tool_call_id = om_tool_call_id oai, ms_tool_name = []\<rparr>"

section \<open>Descriptions of tools\<close>

datatype tool_params = NoParams | SchemaFails | NilSchema | EncodingFails | SchemaText string

record tool_spec =
  ts_name :: string
  ts_desc :: string
  ts_params :: tool_params

record tool_def =
  df_name :: string
  df_desc :: string
  df_parameters :: "string option"

fun params_text :: "tool_params \<Rightarrow> string option" where
  "params_text (SchemaText s) = Some s"
| "params_text _ = None"

definition schemaToolsToOpenAI :: "tool_spec list \<Rightarrow> tool_def list" where
  "schemaToolsToOpenAI ts = map (\<lambda>t. \<lparr>df_name = ts_name t, df_desc = ts_desc t, df_parameters = params_text (ts_params t)\<rparr>) ts"

text \<open>The list of tools of Gemini has one element or none.\<close>

definition schemaToolsToGemini :: "tool_spec list \<Rightarrow> tool_def list list" where
  "schemaToolsToGemini ts =
     (if ts = [] then []
      else [map (\<lambda>t. \<lparr>df_name = ts_name t, df_desc = ts_desc t, df_parameters = params_text (ts_params t)\<rparr>) ts])"

section \<open>The format of Gemini\<close>

record gemini_call =
  gc_name :: string
  gc_args :: "(string \<times> gval) list option"

record gemini_part =
  gp_text :: string
  gp_call :: "gemini_call option"
  gp_response :: "(string \<times> string) option"

record gemini_content =
  gn_role :: string
  gn_parts :: "gemini_part list"

definition text_part :: "string \<Rightarrow> gemini_part" where
  "text_part s = \<lparr>gp_text = s, gp_call = None, gp_response = None\<rparr>"

definition parseToolCallArgs :: "json_values \<Rightarrow> string \<Rightarrow> (string \<times> gval) list option" where
  "parseToolCallArgs J args =
     (if args = [] then None
      else case jl_object J args of None \<Rightarrow> Some [(''raw'', GStr args)] | Some m \<Rightarrow> Some m)"

definition schemaAssistantPartsToGemini :: "json_values \<Rightarrow> message \<Rightarrow> gemini_part list" where
  "schemaAssistantPartsToGemini J m =
     (if ms_content m = [] then [] else [text_part (ms_content m)]) @
     map (\<lambda>tc. \<lparr>gp_text = [], gp_call = Some \<lparr>gc_name = tc_name tc, gc_args = parseToolCallArgs J (tc_arguments tc)\<rparr>, gp_response = None\<rparr>)
       (ms_tool_calls m)"

text \<open>The response part carries the name that the message has and its content.\<close>

definition schemaToolResultPartsToGemini :: "message \<Rightarrow> gemini_part list" where
  "schemaToolResultPartsToGemini m = [\<lparr>gp_text = [], gp_call = None, gp_response = Some (ms_name m, ms_content m)\<rparr>]"

fun gemini_of :: "json_values \<Rightarrow> message \<Rightarrow> gemini_content list" where
  "gemini_of J m =
     (case ms_role m of
        User \<Rightarrow> [\<lparr>gn_role = ''user'', gn_parts = [text_part (ms_content m)]\<rparr>]
      | Assistant \<Rightarrow> [\<lparr>gn_role = ''model'', gn_parts = schemaAssistantPartsToGemini J m\<rparr>]
      | Tool \<Rightarrow> [\<lparr>gn_role = ''user'', gn_parts = schemaToolResultPartsToGemini m\<rparr>]
      | _ \<Rightarrow> [])"

fun to_gemini :: "json_values \<Rightarrow> message list \<Rightarrow> gemini_content option \<Rightarrow> gemini_content list \<times> gemini_content option" where
  "to_gemini J [] instruction = ([], instruction)"
| "to_gemini J (m # ms) instruction =
     (let (contents, i) = to_gemini J ms
            (if ms_role m = System then Some \<lparr>gn_role = [], gn_parts = [text_part (ms_content m)]\<rparr> else instruction)
      in (gemini_of J m @ contents, i))"

definition schemaMessagesToGemini :: "json_values \<Rightarrow> message list \<Rightarrow> gemini_content list \<times> gemini_content option" where
  "schemaMessagesToGemini J msgs = to_gemini J msgs None"

definition gemini_call_of :: "json_values \<Rightarrow> gemini_call \<Rightarrow> tool_call_ref" where
  "gemini_call_of J c =
     (let args = (case jl_marshal J (case gc_args c of None \<Rightarrow> GNil | Some m \<Rightarrow> GMap m) of None \<Rightarrow> ''{}'' | Some s \<Rightarrow> s)
      in \<lparr>tc_call_id = gc_name c, tc_type = ''function'', tc_name = gc_name c, tc_arguments = args\<rparr>)"

text \<open>A response is the list of the contents of its candidates.\<close>

definition geminiResponseToSchema :: "json_values \<Rightarrow> gemini_content list \<Rightarrow> message" where
  "geminiResponseToSchema J candidates =
     (case candidates of
        [] \<Rightarrow> \<lparr>ms_role = Assistant, ms_content = [], ms_name = [], ms_tool_calls = [], ms_tool_call_id = [], ms_tool_name = []\<rparr>
      | c # _ \<Rightarrow>
          \<lparr>ms_role = Assistant,
           ms_content = str_join newline (filter (\<lambda>t. t \<noteq> []) (map gp_text (gn_parts c))),
           ms_name = [],
           ms_tool_calls = map (gemini_call_of J) (List.map_filter gp_call (gn_parts c)),
           ms_tool_call_id = [], ms_tool_name = []\<rparr>)"

section \<open>Server-sent events\<close>

text \<open>
  The lines of a response and how the scanner ended.  \<open>decode\<close> is what a frame is taken for: malformed, without a choice,
  or a message; \<open>closed k\<close> is whether the reader has gone when message \<open>k\<close> is sent.
\<close>

datatype 'm sse_frame = Malformed | NoChoice | SseMessage 'm

fun sse_loop :: "(string \<Rightarrow> 'm sse_frame) \<Rightarrow> (nat \<Rightarrow> bool) \<Rightarrow> string \<Rightarrow> go_error option \<Rightarrow> nat \<Rightarrow> string list \<Rightarrow> 'm list \<times> go_error option" where
  "sse_loop decode closed what end_error k [] = ([], map_option (\<lambda>e. what @ '' SSE scan: '' @ e) end_error)"
| "sse_loop decode closed what end_error k (line # lines) =
     (if \<not> has_prefix line ''data: '' then sse_loop decode closed what end_error k lines
      else if trim_prefix line ''data: '' = ''[DONE]'' then ([], None)
      else case decode (trim_prefix line ''data: '') of
             Malformed \<Rightarrow> sse_loop decode closed what end_error k lines
           | NoChoice \<Rightarrow> sse_loop decode closed what end_error k lines
           | SseMessage m \<Rightarrow>
               if closed k then ([m], None)
               else (let (ms, e) = sse_loop decode closed what end_error (Suc k) lines in (m # ms, e)))"

definition parseSSEStream :: "(string \<Rightarrow> message sse_frame) \<Rightarrow> (nat \<Rightarrow> bool) \<Rightarrow> string list \<Rightarrow> go_error option \<Rightarrow> message list \<times> go_error option" where
  "parseSSEStream decode closed lines end_error = sse_loop decode closed ''proxy'' end_error 0 lines"

definition parseGeminiSSEStream :: "(string \<Rightarrow> message sse_frame) \<Rightarrow> (nat \<Rightarrow> bool) \<Rightarrow> string list \<Rightarrow> go_error option \<Rightarrow> message list \<times> go_error option" where
  "parseGeminiSSEStream decode closed lines end_error = sse_loop decode closed ''gemini'' end_error 0 lines"

text \<open>How the frames are decoded: the first choice or the first candidate.\<close>

definition openai_frame :: "json_values \<Rightarrow> (string \<Rightarrow> openai_message list option) \<Rightarrow> string \<Rightarrow> message sse_frame" where
  "openai_frame J decode data =
     (case decode data of
        None \<Rightarrow> Malformed
      | Some [] \<Rightarrow> NoChoice
      | Some (delta # _) \<Rightarrow> SseMessage (oaiMessageToSchema J delta))"

definition gemini_frame :: "json_values \<Rightarrow> (string \<Rightarrow> gemini_content list option) \<Rightarrow> string \<Rightarrow> message sse_frame" where
  "gemini_frame J decode data =
     (case decode data of
        None \<Rightarrow> Malformed
      | Some [] \<Rightarrow> NoChoice
      | Some cs \<Rightarrow> SseMessage (geminiResponseToSchema J cs))"

section \<open>What the format of OpenAI keeps\<close>

lemma role_roundtrip: "(\<And>s. ms_role m = RoleOther s \<Longrightarrow> s \<notin> {''system'', ''user'', ''assistant'', ''tool''}) \<Longrightarrow> role_of_text (role_text (ms_role m)) = ms_role m"
  by (cases "ms_role m") (auto simp: role_of_text_def)

lemma clean_name_unchanged: "CHR 0x28 \<notin> set n \<Longrightarrow> sanitizeToolCall J n a = (n, a)"
  using str_index_char_None [of n "CHR 0x28"] by (simp add: sanitizeToolCall_def)

text \<open>Whatever a model has written for a name, the name that goes to the tools has no parenthesis.\<close>

lemma sanitized_name: "CHR 0x28 \<notin> set (fst (sanitizeToolCall J n a))"
proof (cases "str_index n ''(''")
  case None
  then show ?thesis using str_index_char_None [of n "CHR 0x28"] by (simp add: sanitizeToolCall_def)
next
  case (Some i)
  have "CHR 0x28 \<notin> set (take i n)" by (rule str_index_char_Some) (use Some in simp)
  moreover have "fst (sanitizeToolCall J n a) \<in> {take i n, trim_space (take i n)}"
    using Some by (simp add: sanitizeToolCall_def Let_def split: option.split)
  ultimately show ?thesis using set_trim_space by fastforce
qed

lemma map_idem: "(\<And>x. x \<in> set xs \<Longrightarrow> f x = x) \<Longrightarrow> map f xs = xs"
  by (induction xs) auto

text \<open>A message survives the way to the format of OpenAI and back, if its role is not a spelling of a known one, its tool
  calls are calls of functions with names free of parentheses and it has no name of a tool, which the format does not
  have.
\<close>

theorem openai_message_roundtrip:
  assumes "\<And>s. ms_role m = RoleOther s \<Longrightarrow> s \<notin> {''system'', ''user'', ''assistant'', ''tool''}"
    and "\<And>tc. tc \<in> set (ms_tool_calls m) \<Longrightarrow> CHR 0x28 \<notin> set (tc_name tc) \<and> tc_type tc = ''function''"
    and "ms_tool_name m = []"
  shows "oaiMessageToSchema J (schemaMessageToOpenAI m) = m"
proof -
  let ?there = "\<lambda>tc. \<lparr>oc_id = tc_call_id tc, oc_type = ''function'', oc_name = tc_name tc, oc_arguments = tc_arguments tc\<rparr>"
  let ?home = "\<lambda>tc. let (name, args) = sanitizeToolCall J (oc_name tc) (oc_arguments tc)
                     in \<lparr>tc_call_id = oc_id tc, tc_type = ''function'', tc_name = name, tc_arguments = args\<rparr>"
  have call: "(?home \<circ> ?there) tc = tc" if "tc \<in> set (ms_tool_calls m)" for tc
    using assms(2) [OF that] by (simp add: clean_name_unchanged)
  have "map ?home (map ?there (ms_tool_calls m)) = ms_tool_calls m"
    unfolding map_map by (rule map_idem) (rule call)
  then show ?thesis
    using role_roundtrip [OF assms(1), of m] assms(3) by (simp add: oaiMessageToSchema_def schemaMessageToOpenAI_def)
qed

definition example_call_message :: message where
  "example_call_message =
     \<lparr>ms_role = Assistant, ms_content = ''let me look'', ms_name = [],
      ms_tool_calls = [\<lparr>tc_call_id = ''c1'', tc_type = ''function'', tc_name = ''read_file'', tc_arguments = ''{}''\<rparr>],
      ms_tool_call_id = [], ms_tool_name = []\<rparr>"

theorem openai_message_roundtrip_witness:
  "oaiMessageToSchema J (schemaMessageToOpenAI example_call_message) = example_call_message"
  by (rule openai_message_roundtrip) (auto simp: example_call_message_def)

section \<open>What the splitting keeps\<close>

definition split_text :: "split_state \<Rightarrow> string" where
  "split_text v = str_join '','' (sp_parts v @ [sp_current v])"

lemma str_join_snoc: "xs \<noteq> [] \<Longrightarrow> str_join sep (xs @ [x]) = str_join sep xs @ sep @ x"
proof (induction xs)
  case (Cons y ys)
  then show ?case by (cases ys) (auto simp: str_join_Cons)
qed simp

lemma split_text_current: "str_join sep (xs @ [x @ y]) = str_join sep (xs @ [x]) @ y"
  by (cases "xs = []") (simp_all add: str_join_snoc)

lemma split_text_write: "split_text (write_rune ch v) = split_text v @ ch"
  by (simp add: split_text_def write_rune_def split_text_current)

lemma split_text_flags [simp]:
  "split_text (v\<lparr>sp_depth := d\<rparr>) = split_text v" "split_text (v\<lparr>sp_quoted := b\<rparr>) = split_text v"
  "split_text (v\<lparr>sp_escaped := b\<rparr>) = split_text v"
  by (simp_all add: split_text_def)

lemma split_text_step: "split_text (split_step ch v) = split_text v @ ch"
proof -
  have comma: "split_text (v\<lparr>sp_parts := sp_parts v @ [sp_current v], sp_current := []\<rparr>) = split_text v @ '',''" for v
    by (simp add: split_text_def str_join_snoc [of "sp_parts v @ [sp_current v]", simplified])
  show ?thesis using comma [of "v\<lparr>sp_depth := sp_depth v + bracket_step ch\<rparr>"]
    by (auto simp: split_step_def Let_def split_text_write)
qed

lemma split_text_fold: "split_text (fold split_step cs v) = split_text v @ concat cs"
  by (induction cs arbitrary: v) (simp_all add: split_text_step)

text \<open>
  The splitting of the arguments that a model has written loses no character: the parts joined by commas are the
  text, but for a comma at its end.
\<close>

theorem split_loses_only_a_last_comma:
  "str_join '','' (splitRespectingQuotesAndBrackets s) = concat (runes s)
   \<or> str_join '','' (splitRespectingQuotesAndBrackets s) @ '','' = concat (runes s)"
proof -
  let ?v = "fold split_step (runes s) split_start"
  have joined: "str_join '','' (sp_parts ?v @ [sp_current ?v]) = concat (runes s)"
    using split_text_fold [of "runes s" split_start] by (simp add: split_text_def split_start_def)
  show ?thesis
  proof (cases "sp_current ?v = []")
    case True
    then show ?thesis using joined
      by (cases "sp_parts ?v = []") (simp_all add: splitRespectingQuotesAndBrackets_def str_join_snoc)
  next
    case False
    then show ?thesis using joined by (simp add: splitRespectingQuotesAndBrackets_def Let_def)
  qed
qed

lemma splits_outside_brackets:
  "splitRespectingQuotesAndBrackets (''a=1,b=[2,3],c='' @ [CHR 34] @ '',,'' @ [CHR 34])
   = [''a=1'', ''b=[2,3]'', ''c='' @ [CHR 34] @ '',,'' @ [CHR 34]]"
  by code_simp

section \<open>What the format of Gemini loses\<close>

lemma to_gemini_instruction:
  "snd (to_gemini J ms i) =
     (if filter (\<lambda>m. ms_role m = System) ms = [] then i
      else Some \<lparr>gn_role = [], gn_parts = [text_part (ms_content (last (filter (\<lambda>m. ms_role m = System) ms)))]\<rparr>)"
  by (induction ms arbitrary: i) (auto simp: Let_def case_prod_beta simp del: gemini_of.simps)

lemma to_gemini_contents: "fst (to_gemini J ms i) = concat (map (gemini_of J) ms)"
  by (induction ms arbitrary: i) (simp_all add: Let_def case_prod_beta)

lemma instruction_of_last_system:
  "snd (schemaMessagesToGemini J (xs @ [system_feedback text])) = Some \<lparr>gn_role = [], gn_parts = [text_part text]\<rparr>"
  by (simp add: schemaMessagesToGemini_def to_gemini_instruction) (simp add: system_feedback_def)

text \<open>The system instruction that Gemini gets is the last system message.  The modifier of messages puts the reminders
  behind the conversation as system messages, so with a reminder the prompt of the agent is not in what Gemini gets: the
  instruction is the last reminder, and the contents carry no system message.
\<close>

theorem reminder_replaces_the_prompt:
  assumes "reminders_of md \<noteq> []"
  shows "schemaMessagesToGemini J (fst (Modify md input)) =
           (concat (map (gemini_of J) (fill_messages (md_store md) 0 input)),
            Some \<lparr>gn_role = [], gn_parts = [text_part (fst (last (reminders_of md)))]\<rparr>)"
proof (rule prod_eqI)
  obtain rs r where rs: "reminders_of md = rs @ [r]" using assms by (metis append_butlast_last_id)
  have no_contents: "gemini_of J (system_feedback t) = []" for t
    by (simp add: system_feedback_def)
  have silent: "concat (map (gemini_of J) (map (\<lambda>r. system_feedback (fst r)) qs)) = []" for qs :: "(string \<times> int) list"
    by (induction qs) (simp_all add: system_feedback_def)
  show "fst (schemaMessagesToGemini J (fst (Modify md input))) = fst (concat (map (gemini_of J) (fill_messages (md_store md) 0 input)),
            Some \<lparr>gn_role = [], gn_parts = [text_part (fst (last (reminders_of md)))]\<rparr>)"
    using silent [of "reminders_of md"] no_contents
    by (simp only: schemaMessagesToGemini_def to_gemini_contents Modify_def reminder_messages_def fst_conv list.map
        concat.simps map_append concat_append append_Nil append_Nil2)
  have "fst (Modify md input) = (system_feedback (current_prompt md input) # fill_messages (md_store md) 0 input
          @ map (\<lambda>r. system_feedback (fst r)) rs) @ [system_feedback (fst r)]"
    by (simp add: Modify_def reminder_messages_def rs)
  then show "snd (schemaMessagesToGemini J (fst (Modify md input))) = snd (concat (map (gemini_of J) (fill_messages (md_store md) 0 input)),
            Some \<lparr>gn_role = [], gn_parts = [text_part (fst (last (reminders_of md)))]\<rparr>)"
    using instruction_of_last_system by (simp only: rs last_snoc snd_conv)
qed

definition example_modifier :: modifier where
  "example_modifier =
     \<lparr>md_system_prompt = ''You sell boats.'', md_urgency = None, md_max_steps = 0, md_store = None,
      md_providers = [\<lambda>sid. Some (''one task is open'', 10)], md_session_id = ''s1'', md_tool_names = [], md_step = 0\<rparr>"

definition no_json_values :: json_values where
  "no_json_values = \<lparr>jl_object = (\<lambda>s. None), jl_marshal = (\<lambda>v. None), jl_verb_v = (\<lambda>v. []), jl_verb_f0 = (\<lambda>s. s),
     jv_valid = (\<lambda>s. False), jv_value = (\<lambda>s. None)\<rparr>"

theorem reminder_replaces_the_prompt_witness:
  "schemaMessagesToGemini no_json_values (fst (Modify example_modifier [user_message ''hello'']))
   = ([\<lparr>gn_role = ''user'', gn_parts = [text_part ''hello'']\<rparr>],
      Some \<lparr>gn_role = [], gn_parts = [text_part ''one task is open'']\<rparr>)"
proof -
  have rs: "reminders_of example_modifier = [(''one task is open'', 10)]"
    by (simp add: reminders_of_def example_modifier_def List.map_filter_simps)
  then have "reminders_of example_modifier \<noteq> []" by simp
  from reminder_replaces_the_prompt [OF this, of no_json_values "[user_message ''hello'']"] show ?thesis
    by (simp add: rs user_message_def)
qed

text \<open>Calls of the same function get the same id, so their results cannot be told apart.\<close>

lemma gemini_ids_are_names: "tc \<in> set (ms_tool_calls (geminiResponseToSchema J cs)) \<Longrightarrow> tc_call_id tc = tc_name tc"
  by (auto simp: geminiResponseToSchema_def gemini_call_of_def Let_def split: list.splits)

text \<open>The calls of an answer go back to Gemini in their order, with the arguments as they are read.\<close>

lemma gemini_calls_in_order:
  "List.map_filter gp_call (schemaAssistantPartsToGemini J m)
   = map (\<lambda>tc. \<lparr>gc_name = tc_name tc, gc_args = parseToolCallArgs J (tc_arguments tc)\<rparr>) (ms_tool_calls m)"
  by (simp add: schemaAssistantPartsToGemini_def List.map_filter_def text_part_def comp_def)

section \<open>What a reader gets from a stream\<close>

definition frame_of :: "(string \<Rightarrow> 'm sse_frame) \<Rightarrow> string \<Rightarrow> 'm option" where
  "frame_of decode line =
     (if has_prefix line ''data: '' then (case decode (trim_prefix line ''data: '') of SseMessage m \<Rightarrow> Some m | _ \<Rightarrow> None) else None)"

lemma done_line: "has_prefix line ''data: '' \<and> trim_prefix line ''data: '' = ''[DONE]'' \<longleftrightarrow> line = ''data: [DONE]''"
proof
  assume l: "has_prefix line ''data: '' \<and> trim_prefix line ''data: '' = ''[DONE]''"
  then obtain rest where "line = ''data: '' @ rest" using has_prefix_split by blast
  then show "line = ''data: [DONE]''" using l trim_prefix_append [of "''data: ''" rest] by simp
next
  assume "line = ''data: [DONE]''"
  then show "has_prefix line ''data: '' \<and> trim_prefix line ''data: '' = ''[DONE]''"
    using has_prefix_append [of "''data: ''" "''[DONE]''"] trim_prefix_append [of "''data: ''" "''[DONE]''"] by simp
qed

lemma sse_loop_frames:
  "sse_loop decode (\<lambda>k. False) what end_error k lines =
     (List.map_filter (frame_of decode) (takeWhile (\<lambda>l. l \<noteq> ''data: [DONE]'') lines),
      if ''data: [DONE]'' \<in> set lines then None else map_option (\<lambda>e. what @ '' SSE scan: '' @ e) end_error)"
proof (induction lines arbitrary: k)
  case Nil
  show ?case by (simp add: List.map_filter_simps)
next
  case (Cons l ls)
  let ?data = "trim_prefix l ''data: ''"
  have marks: "l = ''data: [DONE]'' \<Longrightarrow> has_prefix l ''data: '' \<and> ?data = ''[DONE]''" using done_line [of l] by blast
  have other: "l \<noteq> ''data: [DONE]'' \<Longrightarrow> has_prefix l ''data: '' \<Longrightarrow> ?data \<noteq> ''[DONE]''" using done_line [of l] by blast
  consider "l = ''data: [DONE]''" | "l \<noteq> ''data: [DONE]''" "\<not> has_prefix l ''data: ''" | "l \<noteq> ''data: [DONE]''" "has_prefix l ''data: ''"
    by blast
  then show ?case
  proof cases
    case 1
    then show ?thesis using marks [OF 1] by (simp only: sse_loop.simps) (simp add: List.map_filter_def)
  next
    case 2
    then show ?thesis by (simp only: sse_loop.simps Cons) (simp add: List.map_filter_def frame_of_def)
  next
    case 3
    then show ?thesis using other [OF 3]
      by (cases "decode ?data"; simp only: sse_loop.simps Cons) (simp_all add: List.map_filter_def frame_of_def)
  qed
qed

text \<open>A stream of server-sent events gives a reader that stays exactly the messages of the frames before the end mark,
  in their order, and an error only when the scanner failed before the mark; lines that are no data, frames that cannot
  be decoded and frames without a choice are skipped.
\<close>

theorem stream_gives_frames_before_the_mark:
  "parseSSEStream decode (\<lambda>k. False) lines end_error =
     (List.map_filter (frame_of decode) (takeWhile (\<lambda>l. l \<noteq> ''data: [DONE]'') lines),
      if ''data: [DONE]'' \<in> set lines then None else map_option (\<lambda>e. ''proxy SSE scan: '' @ e) end_error)"
  unfolding parseSSEStream_def sse_loop_frames by (cases end_error) simp_all

text \<open>A reader that goes away ends the stream without an error; it has been sent the message that was under way.\<close>

lemma reader_gone_is_no_error:
  assumes "closed 0" "decode (trim_prefix l ''data: '') = SseMessage m" "has_prefix l ''data: ''" "trim_prefix l ''data: '' \<noteq> ''[DONE]''"
  shows "parseSSEStream decode closed (l # ls) e = ([m], None)"
  unfolding parseSSEStream_def using assms by (simp only: sse_loop.simps) simp

text \<open>A response that is cut off before the mark looks like one that is complete.\<close>

corollary cut_off_stream_is_complete:
  "snd (parseSSEStream decode (\<lambda>k. False) lines None) = None"
  by (simp add: parseSSEStream_def sse_loop_frames)

end
