(* ===== verification/Model_Access.thy ===== *)
theory Model_Access
  imports Model_Service Model_Conversion
begin

text \<open>
  How an agent gets its model (\<open>internal/infrastructure/llm\<close>: \<open>model_cache.go\<close>, \<open>azure_openai_client.go\<close>,
  \<open>gemini_client.go\<close>, \<open>byok.go\<close>, \<open>model_selector.go\<close>, \<open>model_params_wrapper.go\<close>, \<open>retry_wrapper.go\<close>,
  \<open>model_verify.go\<close>; \<open>delivery/http/byok_middleware.go\<close>; \<open>infrastructure/turnexecutorfactory/factory.go\<close>): clients made from a
  row of the table or from the keys of a user, the cache of clients, parameters and retries around them, and the choice
  among them for a turn.

  A client is the configuration it was made with.  The client of the OpenAI library is third-party code: whether it
  accepts a configuration is an argument, and so are the answers of a model.

  The theory shows that a cached client always is one of the current row, that a user's own key is the only one used for
  a request that carries one, and how often and how long a call is retried.
\<close>

section \<open>Clients\<close>

record openai_config =
  ox_base_url :: string
  ox_model :: string
  ox_key :: string
  ox_version :: string
  ox_azure :: bool
  ox_anthropic :: bool
  ox_extra :: "(string \<times> gval) list"

record model_params =
  pm_temperature :: "string option"
  pm_top_p :: "string option"
  pm_max_tokens :: "int option"
  pm_stop :: "string list"

datatype chat_client =
    OpenAIChat openai_config
  | AzureChat string string string openai_config
  | GeminiChat string string string
  | WithParams chat_client model_params
  | DebugChat "chat_client option" string

type_synonym openai_library = "openai_config \<Rightarrow> go_error option"

fun client_key :: "chat_client \<Rightarrow> string" where
  "client_key (OpenAIChat c) = ox_key c"
| "client_key (AzureChat base model version c) = ox_key c"
| "client_key (GeminiChat key model base) = key"
| "client_key (WithParams c p) = client_key c"
| "client_key (DebugChat c dir) = (case c of None \<Rightarrow> [] | Some m \<Rightarrow> client_key m)"

definition openai_client :: "openai_library \<Rightarrow> openai_config \<Rightarrow> go_error + chat_client" where
  "openai_client N c = (case N c of Some e \<Rightarrow> Inl e | None \<Rightarrow> Inr (OpenAIChat c))"

definition plain_config :: "string \<Rightarrow> string \<Rightarrow> string \<Rightarrow> openai_config" where
  "plain_config base model key =
     \<lparr>ox_base_url = base, ox_model = model, ox_key = key, ox_version = [], ox_azure = False, ox_anthropic = False, ox_extra = []\<rparr>"

definition trim_suffix :: "string \<Rightarrow> string \<Rightarrow> string" where
  "trim_suffix s p = (if has_suffix s p then take (length s - length p) s else s)"

text \<open>The endpoint of Ollama that speaks the format of OpenAI.\<close>

definition ollama_url :: "string \<Rightarrow> string" where
  "ollama_url url =
     (let u = (if has_suffix url ''/api'' then trim_suffix url ''/api'' @ ''/v1'' else url)
      in if str_contains u ''/v1'' then u else trim_right_byte (CHR 0x2F) u @ ''/v1'')"

definition NewAzureOpenAIChatModel :: "openai_library \<Rightarrow> string \<Rightarrow> string \<Rightarrow> string \<Rightarrow> string \<Rightarrow> go_error + chat_client" where
  "NewAzureOpenAIChatModel N base key model version =
     (if base = [] then Inl ''azure openai: base_url is required''
      else if key = [] then Inl ''azure openai: api_key is required''
      else if model = [] then Inl ''azure openai: model_name (deployment name) is required''
      else (let v = nonempty_or ''2024-10-21'' version;
                c = \<lparr>ox_base_url = trim_right_byte (CHR 0x2F) base, ox_model = model, ox_key = key, ox_version = v,
                     ox_azure = True, ox_anthropic = False, ox_extra = []\<rparr>
            in case N c of Some e \<Rightarrow> Inl (''azure openai: create client: '' @ e) | None \<Rightarrow> Inr (AzureChat base model v c)))"

definition gemini_base :: string where
  "gemini_base = ''https://generativelanguage.googleapis.com/v1beta''"

definition NewGeminiChatModel :: "string \<Rightarrow> string \<Rightarrow> string option \<Rightarrow> chat_client" where
  "NewGeminiChatModel key model base =
     GeminiChat key model (case base of None \<Rightarrow> gemini_base | Some url \<Rightarrow> trim_right_byte (CHR 0x2F) url)"

definition anthropic_url :: string where
  "anthropic_url = ''https://api.anthropic.com/v1''"

definition CreateClientFromDBModel :: "openai_library \<Rightarrow> llm_row \<Rightarrow> go_error + chat_client" where
  "CreateClientFromDBModel N r =
     (if lr_type r = ''ollama'' then openai_client N (plain_config (ollama_url (lr_base_url r)) (lr_model_name r) ''ollama'')
      else if lr_type r \<in> {''openai'', ''openai_compatible''} then openai_client N (plain_config (lr_base_url r) (lr_model_name r) (lr_api_key r))
      else if lr_type r = ''azure_openai'' then NewAzureOpenAIChatModel N (lr_base_url r) (lr_api_key r) (lr_model_name r) (lr_api_version r)
      else if lr_type r = ''anthropic''
      then openai_client N ((plain_config (nonempty_or anthropic_url (lr_base_url r)) (lr_model_name r) (lr_api_key r))\<lparr>ox_anthropic := True\<rparr>)
      else if lr_type r = ''google''
      then Inr (NewGeminiChatModel (lr_api_key r) (lr_model_name r) (if lr_base_url r = [] then None else Some (lr_base_url r)))
      else Inl (''unsupported provider type: '' @ lr_type r))"

text \<open>The client of the configuration file, absent without a provider (\<open>internal/app/llm_factory.go\<close>).\<close>

record llm_config =
  lg_provider :: string
  lg_openrouter :: openai_config
  lg_openrouter_provider :: "(string \<times> gval) list"
  lg_ollama :: openai_config
  lg_anthropic :: openai_config

definition created :: "openai_library \<Rightarrow> string \<Rightarrow> openai_config \<Rightarrow> err + chat_client option" where
  "created N what c =
     (case openai_client N c of Inl e \<Rightarrow> Inl (DomainError CodeInternal what (Some (Opaque e))) | Inr m \<Rightarrow> Inr (Some m))"

definition createChatModel :: "openai_library \<Rightarrow> llm_config \<Rightarrow> err + chat_client option" where
  "createChatModel N g =
     (if lg_provider g = [] then Inr None
      else if lg_provider g = ''openrouter''
      then created N ''failed to create openrouter chat model''
        ((plain_config (ox_base_url (lg_openrouter g)) (ox_model (lg_openrouter g)) (ox_key (lg_openrouter g)))
           \<lparr>ox_extra := (if lg_openrouter_provider g = [] then [] else [(''provider'', GMap (lg_openrouter_provider g))])\<rparr>)
      else if lg_provider g = ''ollama''
      then created N ''failed to create ollama chat model (via OpenAI-compatible endpoint)''
        (plain_config (ollama_url (ox_base_url (lg_ollama g))) (ox_model (lg_ollama g)) ''ollama'')
      else if lg_provider g = ''anthropic''
      then created N ''failed to create anthropic model''
        ((plain_config (nonempty_or anthropic_url (ox_base_url (lg_anthropic g))) (ox_model (lg_anthropic g)) (ox_key (lg_anthropic g)))
           \<lparr>ox_anthropic := True\<rparr>)
      else Inl (new_error CodeInvalidInput (''unsupported LLM provider: '' @ lg_provider g)))"

definition getModelName :: "llm_config \<Rightarrow> string" where
  "getModelName g =
     (if lg_provider g = ''openrouter'' then ox_model (lg_openrouter g)
      else if lg_provider g = ''anthropic'' then ox_model (lg_anthropic g) else ox_model (lg_ollama g))"

definition wrapWithDebugModel :: "chat_client option \<Rightarrow> string \<Rightarrow> chat_client option" where
  "wrapWithDebugModel m dir = (if dir = [] then m else Some (DebugChat m dir))"

section \<open>The cache of clients\<close>

record cached_model =
  cm_client :: chat_client
  cm_name :: string
  cm_created :: time

type_synonym model_cache = "string \<rightharpoonup> cached_model"

text \<open>The row is looked up by its identifier alone.\<close>

definition load_client :: "openai_library \<Rightarrow> go_error option \<Rightarrow> string \<Rightarrow> llm_row list \<Rightarrow> go_error + chat_client \<times> string" where
  "load_client N fault i rows =
     (case fault of
        Some e \<Rightarrow> Inl (''model ID '' @ i @ '' not found: '' @ e)
      | None \<Rightarrow>
          (case first_row lr_id (\<lambda>r. lr_id r = i) rows of
             None \<Rightarrow> Inl (''model ID '' @ i @ '' not found: record not found'')
           | Some r \<Rightarrow>
               (case CreateClientFromDBModel N r of
                  Inl e \<Rightarrow> Inl (''create client for model '' @ [CHR 34] @ lr_name r @ [CHR 34] @ '': '' @ e)
                | Inr c \<Rightarrow> Inr (c, lr_model_name r))))"

definition store_client :: "time \<Rightarrow> string \<Rightarrow> chat_client \<times> string \<Rightarrow> model_cache \<Rightarrow> model_cache" where
  "store_client now i c cache = cache(i \<mapsto> \<lparr>cm_client = fst c, cm_name = snd c, cm_created = now\<rparr>)"

definition cache_Get ::
    "openai_library \<Rightarrow> go_error option \<Rightarrow> time \<Rightarrow> string \<Rightarrow> llm_row list \<Rightarrow> model_cache \<Rightarrow> (go_error + chat_client \<times> string) \<times> model_cache" where
  "cache_Get N fault now i rows cache =
     (case cache i of
        Some m \<Rightarrow> (Inr (cm_client m, cm_name m), cache)
      | None \<Rightarrow>
          (case load_client N fault i rows of
             Inl e \<Rightarrow> (Inl e, cache)
           | Inr c \<Rightarrow> (Inr c, store_client now i c cache)))"

definition cache_Invalidate :: "string \<Rightarrow> model_cache \<Rightarrow> model_cache" where
  "cache_Invalidate i cache = map_delete i cache"

definition cache_InvalidateAll :: "model_cache \<Rightarrow> model_cache" where
  "cache_InvalidateAll cache = Map.empty"

section \<open>Keys of users\<close>

record byok_credentials =
  by_provider :: string
  by_key :: string
  by_model :: string
  by_base_url :: string

definition RedactAPIKey :: "string \<Rightarrow> string" where
  "RedactAPIKey key =
     (if key = [] then [] else if length key \<le> 8 then ''***'' else take 4 key @ ''...'' @ drop (length key - 4) key)"

definition BuildBYOKChatModel :: "openai_library \<Rightarrow> byok_credentials \<Rightarrow> go_error + chat_client" where
  "BuildBYOKChatModel N creds =
     (if by_key creds = [] then Inl ''byok: api key required''
      else if by_provider creds = [] then Inl ''byok: provider required''
      else let provider = lower_text (by_provider creds); key = by_key creds; model = by_model creds; url = by_base_url creds in
        if provider = ''openai'' then openai_client N (plain_config (nonempty_or ''https://api.openai.com/v1'' url) (nonempty_or ''gpt-4o-mini'' model) key)
        else if provider = ''openrouter'' then openai_client N (plain_config (nonempty_or openrouter_url url) model key)
        else if provider = ''openai_compatible''
        then (if url = [] then Inl ''byok: base_url required for openai_compatible provider'' else openai_client N (plain_config url model key))
        else if provider = ''ollama'' then openai_client N (plain_config (ollama_url (nonempty_or ''http://localhost:11434/v1'' url)) model key)
        else if provider = ''anthropic''
        then openai_client N ((plain_config (nonempty_or anthropic_url url) (nonempty_or ''claude-3-5-sonnet-20241022'' model) key)\<lparr>ox_anthropic := True\<rparr>)
        else Inl (''byok: unsupported provider '' @ [CHR 34] @ by_provider creds @ [CHR 34]))"

record byok_state =
  bs_enabled :: bool
  bs_allowed :: "string set"

definition newByokState :: "bool \<Rightarrow> string list \<Rightarrow> byok_state" where
  "newByokState enabled providers =
     \<lparr>bs_enabled = enabled, bs_allowed = set (map lower_text (filter (\<lambda>p. p \<noteq> []) (map trim_space providers)))\<rparr>"

datatype byok_outcome = PassOn "byok_credentials option" | Refused nat string

text \<open>The middleware, followed by the handler that makes credentials of the values in the context.\<close>

definition InjectBYOK :: "byok_state option \<Rightarrow> byok_credentials \<Rightarrow> byok_outcome" where
  "InjectBYOK state hdr =
     (if by_provider hdr = [] \<and> by_key hdr = [] \<and> by_model hdr = [] \<and> by_base_url hdr = [] then PassOn None
      else case state of
             None \<Rightarrow> Refused 403 ''BYOK is disabled''
           | Some s \<Rightarrow>
               if \<not> bs_enabled s then Refused 403 ''BYOK is disabled''
               else if by_provider hdr = [] \<or> by_key hdr = [] then Refused 400 ''X-BYOK-Provider and X-BYOK-API-Key are required for BYOK''
               else if bs_allowed s \<noteq> {} \<and> lower_text (by_provider hdr) \<notin> bs_allowed s
               then Refused 403 (''provider not allowed: '' @ by_provider hdr)
               else PassOn (Some (hdr\<lparr>by_provider := lower_text (by_provider hdr)\<rparr>)))"

definition propagateBYOK :: "byok_credentials option \<Rightarrow> byok_credentials option" where
  "propagateBYOK ctx =
     (case ctx of None \<Rightarrow> None | Some c \<Rightarrow> if by_provider c = [] \<or> by_key c = [] then None else Some c)"

section \<open>The selector\<close>

record model_selector =
  sel_models :: "string \<rightharpoonup> chat_client"
  sel_default :: "chat_client option"
  sel_names :: "string \<rightharpoonup> string"
  sel_default_name :: string
  sel_named :: "string \<rightharpoonup> chat_client"

definition NewModelSelector :: "chat_client option \<Rightarrow> string \<Rightarrow> model_selector" where
  "NewModelSelector m name = \<lparr>sel_models = Map.empty, sel_default = m, sel_names = Map.empty, sel_default_name = name, sel_named = Map.empty\<rparr>"

definition SetModel :: "string \<Rightarrow> chat_client \<Rightarrow> string \<Rightarrow> model_selector \<Rightarrow> model_selector" where
  "SetModel agent m name s = s\<lparr>sel_models := (sel_models s)(agent \<mapsto> m), sel_names := (sel_names s)(agent \<mapsto> name)\<rparr>"

definition Select :: "model_selector \<Rightarrow> string \<Rightarrow> chat_client option" where
  "Select s agent = (case sel_models s agent of Some m \<Rightarrow> Some m | None \<Rightarrow> sel_default s)"

definition ModelName :: "model_selector \<Rightarrow> string \<Rightarrow> string" where
  "ModelName s agent = (case sel_names s agent of Some n \<Rightarrow> n | None \<Rightarrow> sel_default_name s)"

definition RegisterNamedModel :: "string \<Rightarrow> chat_client \<Rightarrow> model_selector \<Rightarrow> model_selector" where
  "RegisterNamedModel name m s = s\<lparr>sel_named := (sel_named s)(name \<mapsto> m)\<rparr>"

definition ResolveByName :: "model_selector \<Rightarrow> string \<Rightarrow> go_error + chat_client" where
  "ResolveByName s name =
     (case sel_named s name of None \<Rightarrow> Inl (''named model '' @ [CHR 34] @ name @ [CHR 34] @ '' not registered'') | Some m \<Rightarrow> Inr m)"

section \<open>Parameters and retries\<close>

definition params_empty :: "model_params \<Rightarrow> bool" where
  "params_empty p \<longleftrightarrow> pm_temperature p = None \<and> pm_top_p p = None \<and> pm_max_tokens p = None \<and> pm_stop p = []"

definition WrapWithModelParams :: "chat_client \<Rightarrow> model_params \<Rightarrow> chat_client" where
  "WrapWithModelParams m p = (if params_empty p then m else WithParams m p)"

definition extra_fields :: "model_params \<Rightarrow> (string \<times> gval) list" where
  "extra_fields p =
     (case pm_temperature p of None \<Rightarrow> [] | Some x \<Rightarrow> [(''temperature'', GFloat x)]) @
     (case pm_top_p p of None \<Rightarrow> [] | Some x \<Rightarrow> [(''top_p'', GFloat x)]) @
     (case pm_max_tokens p of None \<Rightarrow> [] | Some n \<Rightarrow> [(''max_tokens'', GInt n)]) @
     (if pm_stop p = [] then [] else [(''stop'', GList (map GStr (pm_stop p)))])"

text \<open>
  What of the options of a call is sent: the client of the OpenAI library adds the extra fields to its request, the
  client of Gemini does not look at its options.
\<close>

fun sent_fields :: "chat_client \<Rightarrow> (string \<times> gval) list \<Rightarrow> (string \<times> gval) list" where
  "sent_fields (OpenAIChat c) opts = opts"
| "sent_fields (AzureChat base model version c) opts = opts"
| "sent_fields (GeminiChat key model base) opts = []"
| "sent_fields (WithParams c p) opts = sent_fields c (opts @ extra_fields p)"
| "sent_fields (DebugChat c dir) opts = (case c of None \<Rightarrow> [] | Some m \<Rightarrow> sent_fields m opts)"

definition non_retriable :: "string list" where
  "non_retriable = [''400'', ''401'', ''403'', ''404'', ''invalid'']"

definition retriable :: "string list" where
  "retriable =
     [''503'', ''service unavailable'', ''429'', ''too many requests'', ''rate limit'', ''502'', ''bad gateway'', ''timeout'',
      ''deadline exceeded'', ''connection refused'', ''connection reset'', ''eof'']"

definition isRetriable :: "go_error option \<Rightarrow> bool" where
  "isRetriable err =
     (case err of
        None \<Rightarrow> False
      | Some e \<Rightarrow>
          (let lower = lower_text e
           in if \<exists>p \<in> set non_retriable. str_contains lower p then False
              else if \<exists>p \<in> set retriable. str_contains lower p then True else True))"

record retry_config =
  rt_max :: int
  rt_base :: int

text \<open>Before attempt \<open>k\<close> the loop waits the base shifted by \<open>k - 1\<close> bits, in 64 bits.\<close>

definition retry_delay :: "int \<Rightarrow> nat \<Rightarrow> int" where
  "retry_delay base k = wrap64 (base * wrap64 (2 ^ (k - 1)))"

text \<open>
  \<open>call k\<close> is the answer to attempt \<open>k\<close>, \<open>gone k\<close> the error of the context when it ends the wait before attempt \<open>k\<close>;
  the attempts left are counted down.  The result lists the waits and the number of calls.
\<close>

fun generate_from ::
    "retry_config \<Rightarrow> (nat \<Rightarrow> go_error option) \<Rightarrow> (nat \<Rightarrow> go_error + 'm) \<Rightarrow> nat \<Rightarrow> nat \<Rightarrow> string \<Rightarrow> int list \<times> nat \<times> (go_error + 'm)" where
  "generate_from c gone call 0 k last_error =
     ([], 0, Inl (''all '' @ dec_int (wrap64 (rt_max c + 1)) @ '' retries failed: '' @ last_error))"
| "generate_from c gone call (Suc n) k last_error =
     (let waits = (if k > 0 then [retry_delay (rt_base c) k] else [])
      in case (if k > 0 then gone k else None) of
           Some e \<Rightarrow> (waits, 0, Inl e)
         | None \<Rightarrow>
             (case call k of
                Inr m \<Rightarrow> (waits, 1, Inr m)
              | Inl e \<Rightarrow>
                  if \<not> isRetriable (Some e) then (waits, 1, Inl e)
                  else (let (ws, calls, res) = generate_from c gone call n (Suc k) e in (waits @ ws, Suc calls, res))))"

definition retry_Generate ::
    "retry_config \<Rightarrow> (nat \<Rightarrow> go_error option) \<Rightarrow> (nat \<Rightarrow> go_error + 'm) \<Rightarrow> int list \<times> nat \<times> (go_error + 'm)" where
  "retry_Generate c gone call = generate_from c gone call (nat (rt_max c + 1)) 0 ''%!w(<nil>)''"

section \<open>Checking a model\<close>

record verify_result =
  vr_connectivity :: string
  vr_tool_calling :: string
  vr_ms :: int
  vr_model :: string
  vr_provider :: string
  vr_error :: "go_error option"

definition known_tool_calling :: "string \<Rightarrow> bool" where
  "known_tool_calling p \<longleftrightarrow> p \<in> {''openai'', ''anthropic'', ''google'', ''mistral'', ''azure_openai''}"

text \<open>The answer to the binding of the tool and the one to the question, as the calls that the model makes.\<close>

definition probeToolCalling :: "go_error option \<Rightarrow> go_error + tool_call_ref list \<Rightarrow> string" where
  "probeToolCalling bind_error answer =
     (if bind_error \<noteq> None then ''error''
      else case answer of Inl e \<Rightarrow> ''error'' | Inr calls \<Rightarrow> if calls \<noteq> [] then ''supported'' else ''not_detected'')"

definition VerifyModel ::
    "go_error option \<Rightarrow> int \<Rightarrow> go_error option \<Rightarrow> go_error + tool_call_ref list \<Rightarrow> string \<Rightarrow> string \<Rightarrow> verify_result" where
  "VerifyModel ping_error ms bind_error answer model provider =
     (case ping_error of
        Some e \<Rightarrow> \<lparr>vr_connectivity = ''error'', vr_tool_calling = ''skipped'', vr_ms = ms, vr_model = model, vr_provider = provider,
                   vr_error = Some (''connectivity check failed: '' @ e)\<rparr>
      | None \<Rightarrow> \<lparr>vr_connectivity = ''ok'',
                 vr_tool_calling = (if known_tool_calling provider then ''skipped'' else probeToolCalling bind_error answer),
                 vr_ms = ms, vr_model = model, vr_provider = provider, vr_error = None\<rparr>)"

definition verify_service ::
    "openai_library \<Rightarrow> (chat_client \<Rightarrow> string \<Rightarrow> string \<Rightarrow> verify_result) \<Rightarrow> model_env \<Rightarrow> string \<Rightarrow> string \<Rightarrow> model_world \<Rightarrow> err + verify_result" where
  "verify_service N verify E ctx name w =
     (case llm_List (mv_fault E ListQ) ctx (models_of w) of
        Inl e \<Rightarrow> Inl (plain_error ''list models for verify'' e)
      | Inr rows \<Rightarrow>
          (case named name rows of
             None \<Rightarrow> Inl (model_not_found name)
           | Some r \<Rightarrow>
               (case CreateClientFromDBModel N r of
                  Inl e \<Rightarrow> Inr \<lparr>vr_connectivity = ''error'', vr_tool_calling = ''skipped'', vr_ms = 0, vr_model = lr_model_name r,
                                vr_provider = lr_type r, vr_error = Some (''failed to create client: '' @ e)\<rparr>
                | Inr c \<Rightarrow> Inr (verify c (lr_model_name r) (lr_type r)))))"

definition model_Verify_handler ::
    "openai_library \<Rightarrow> (chat_client \<Rightarrow> string \<Rightarrow> string \<Rightarrow> verify_result) \<Rightarrow> model_env \<Rightarrow> string \<Rightarrow> string \<Rightarrow> model_world \<Rightarrow> verify_result http_answer" where
  "model_Verify_handler N verify E ctx name w =
     (if name = [] then bad_request ''model name is required''
      else case verify_service N verify E ctx name w of Inl e \<Rightarrow> writeDomainError e | Inr r \<Rightarrow> Answer 200 r)"

section \<open>The executor of a session\<close>

datatype 'p reminder =
    EnvironmentReminder string string
  | CapabilityReminder "string list"
  | GivenReminder 'p

text \<open>
  The parts of the factory that a session depends on; \<open>sf_read_config\<close> answers with the configuration of a capability,
  \<open>sf_float\<close> is the integer part of a number.
\<close>

record 'p session_factory =
  sf_library :: openai_library
  sf_task_manager :: bool
  sf_agent_pool :: bool
  sf_recaller :: bool
  sf_storer :: bool
  sf_max_entries :: int
  sf_read_config :: "(string \<Rightarrow> string \<Rightarrow> go_error + (string \<times> gval) list option) option"
  sf_float :: "string \<Rightarrow> int"
  sf_reminders :: "'p reminder list"
  sf_schema :: "(string \<Rightarrow> go_error + string) option"
  sf_uuid :: "(string \<Rightarrow> string) option"
  sf_model_id :: "(string \<Rightarrow> string option) option"
  sf_selector :: model_selector
  sf_complete :: bool

definition memory_max :: "'p session_factory \<Rightarrow> string \<Rightarrow> int" where
  "memory_max f agent =
     (case sf_read_config f of
        None \<Rightarrow> sf_max_entries f
      | Some read \<Rightarrow>
          (case read agent ''memory'' of
             Inr (Some cfg) \<Rightarrow>
               if map_of cfg ''unlimited_entries'' = Some (GBool True) then sf_max_entries f
               else (case map_of cfg ''max_entries'' of
                       Some (GFloat x) \<Rightarrow> if sf_float f x > 0 then sf_float f x else sf_max_entries f
                     | _ \<Rightarrow> sf_max_entries f)
           | _ \<Rightarrow> sf_max_entries f))"

fun is_environment :: "'p reminder \<Rightarrow> bool" where
  "is_environment (EnvironmentReminder root platform) = True"
| "is_environment _ = False"

definition capability_hint_texts :: "(string \<times> string) list" where
  "capability_hint_texts =
     [(''memory'', ''You have Memory capability. Use memory_recall at the start of conversations to check for prior context about this user. Use memory_store to save important facts for future conversations.''),
      (''knowledge'', ''You have Knowledge capability. Use knowledge_search to find relevant information from your knowledge base before answering questions.'')]"

definition capability_hints :: "'p session_factory \<Rightarrow> string \<Rightarrow> string list" where
  "capability_hints f agent =
     (case sf_read_config f of
        None \<Rightarrow> []
      | Some read \<Rightarrow> map snd (filter (\<lambda>c. case read agent (fst c) of Inr (Some cfg) \<Rightarrow> True | _ \<Rightarrow> False) capability_hint_texts))"

definition session_reminders :: "'p session_factory \<Rightarrow> string \<Rightarrow> string \<Rightarrow> string \<Rightarrow> 'p reminder list" where
  "session_reminders f root platform agent =
     (let rs = (if root \<noteq> [] \<or> platform \<noteq> [] then filter (\<lambda>r. \<not> is_environment r) (sf_reminders f) @ [EnvironmentReminder root platform]
                else sf_reminders f);
          hints = capability_hints f agent
      in rs @ (if hints = [] then [] else [CapabilityReminder hints]))"

text \<open>What the hints put in front of the model.\<close>

definition hint_reminder :: "string list \<Rightarrow> (string \<times> int) option" where
  "hint_reminder hints =
     (if hints = [] then None
      else Some (''## Capabilities'' @ newline @ concat (map (\<lambda>h. ''- '' @ h @ newline) hints), 5))"

definition byok_choice :: "'p session_factory \<Rightarrow> byok_credentials option \<Rightarrow> (chat_client \<times> string) option" where
  "byok_choice f creds =
     (case creds of
        None \<Rightarrow> None
      | Some c \<Rightarrow> (case BuildBYOKChatModel (sf_library f) c of Inl e \<Rightarrow> None | Inr m \<Rightarrow> Some (m, nonempty_or (by_provider c) (by_model c))))"

text \<open>The key of the user, else the model of the agent, else the selector; the cache may gain a client.\<close>

definition resolveModel ::
    "'p session_factory \<Rightarrow> go_error option \<Rightarrow> time \<Rightarrow> llm_row list \<Rightarrow> byok_credentials option \<Rightarrow> string \<Rightarrow> model_cache option
      \<Rightarrow> (chat_client option \<times> string) \<times> model_cache option" where
  "resolveModel f fault now rows creds agent cache =
     (let fallback = (Select (sf_selector f) agent, ModelName (sf_selector f) agent)
      in case byok_choice f creds of
           Some (m, name) \<Rightarrow> ((Some m, name), cache)
         | None \<Rightarrow>
             (case (cache, sf_model_id f) of
                (Some ca, Some ids) \<Rightarrow>
                  (case ids agent of
                     None \<Rightarrow> (fallback, cache)
                   | Some i \<Rightarrow>
                       (case cache_Get (sf_library f) fault now i rows ca of
                          (Inl e, ca') \<Rightarrow> (fallback, Some ca')
                        | (Inr (m, name), ca') \<Rightarrow> ((Some m, name), Some ca')))
              | _ \<Rightarrow> (fallback, cache)))"

record 'p session_executor =
  se_agent :: string
  se_agent_uuid :: string
  se_model :: chat_client
  se_model_name :: string
  se_schema :: string
  se_reminders :: "'p reminder list"
  se_user :: string
  se_recaller :: bool
  se_storer :: bool
  se_max_entries :: int
  se_task_manager :: bool
  se_agent_pool :: bool
  se_proxy :: bool

text \<open>Nothing without a model, nothing when a part of the factory is missing.\<close>

definition CreateForSession ::
    "'p session_factory \<Rightarrow> go_error option \<Rightarrow> time \<Rightarrow> llm_row list \<Rightarrow> byok_credentials option \<Rightarrow> bool \<Rightarrow> string \<Rightarrow> string \<Rightarrow> string \<Rightarrow> string
      \<Rightarrow> model_cache option \<Rightarrow> 'p session_executor option \<times> model_cache option" where
  "CreateForSession f fault now rows creds proxy root platform agent user cache =
     (case resolveModel f fault now rows creds agent cache of
        ((None, _), cache') \<Rightarrow> (None, cache')
      | ((Some m, name), cache') \<Rightarrow>
          (if \<not> sf_complete f then None
           else Some \<lparr>se_agent = agent, se_agent_uuid = (case sf_uuid f of None \<Rightarrow> [] | Some uuid \<Rightarrow> uuid agent), se_model = m, se_model_name = name,
                      se_schema = (case sf_schema f of None \<Rightarrow> [] | Some schema \<Rightarrow> (case schema agent of Inl e \<Rightarrow> [] | Inr i \<Rightarrow> i)),
                      se_reminders = session_reminders f root platform agent, se_user = user, se_recaller = sf_recaller f,
                      se_storer = sf_storer f, se_max_entries = memory_max f agent, se_task_manager = sf_task_manager f,
                      se_agent_pool = sf_agent_pool f, se_proxy = proxy\<rparr>, cache'))"

section \<open>The cache and the table\<close>

definition cache_coherent :: "openai_library \<Rightarrow> model_cache \<Rightarrow> llm_row list \<Rightarrow> bool" where
  "cache_coherent N cache rows \<longleftrightarrow>
     (\<forall>i m. cache i = Some m \<longrightarrow>
        (\<exists>r \<in> set rows. lr_id r = i \<and> CreateClientFromDBModel N r = Inr (cm_client m) \<and> cm_name m = lr_model_name r))"

text \<open>What a client is made of.\<close>

definition client_view :: "llm_row \<Rightarrow> string \<times> string \<times> string \<times> string \<times> string" where
  "client_view r = (lr_type r, lr_base_url r, lr_model_name r, lr_api_key r, lr_api_version r)"

lemma client_of_view: "client_view r = client_view s \<Longrightarrow> CreateClientFromDBModel N r = CreateClientFromDBModel N s \<and> lr_model_name r = lr_model_name s"
  by (simp add: client_view_def CreateClientFromDBModel_def)

text \<open>Rows that are not in \<open>X\<close> keep what their client is made of.\<close>

definition views_kept :: "string set \<Rightarrow> llm_row list \<Rightarrow> llm_row list \<Rightarrow> bool" where
  "views_kept X rows rows' \<longleftrightarrow>
     (\<forall>r \<in> set rows. lr_id r \<notin> X \<longrightarrow> (\<exists>s \<in> set rows'. lr_id s = lr_id r \<and> client_view s = client_view r))"

definition invalidate_all :: "string list \<Rightarrow> model_cache \<Rightarrow> model_cache" where
  "invalidate_all ids cache = fold cache_Invalidate ids cache"

lemma invalidate_all_apply: "invalidate_all ids cache j = (if j \<in> set ids then None else cache j)"
  unfolding invalidate_all_def by (induction ids arbitrary: cache) (simp_all add: cache_Invalidate_def)

lemma coherent_after:
  assumes "cache_coherent N cache rows" "views_kept (set ids) rows rows'"
  shows "cache_coherent N (invalidate_all ids cache) rows'"
  unfolding cache_coherent_def
proof (intro allI impI)
  fix i m assume "invalidate_all ids cache i = Some m"
  then have i: "i \<notin> set ids" "cache i = Some m" by (simp_all add: invalidate_all_apply split: if_splits)
  then obtain r where r: "r \<in> set rows" "lr_id r = i" "CreateClientFromDBModel N r = Inr (cm_client m)" "cm_name m = lr_model_name r"
    using assms(1) unfolding cache_coherent_def by blast
  then obtain s where s: "s \<in> set rows'" "lr_id s = i" "client_view s = client_view r"
    using assms(2) i(1) unfolding views_kept_def by blast
  then show "\<exists>r \<in> set rows'. lr_id r = i \<and> CreateClientFromDBModel N r = Inr (cm_client m) \<and> cm_name m = lr_model_name r"
    using client_of_view [OF s(3), of N] r by metis
qed

lemma loaded_coherent:
  assumes "cache_coherent N cache rows" "load_client N fault i rows = Inr c"
  shows "cache_coherent N (store_client now i c cache) rows"
proof -
  obtain r where "first_row lr_id (\<lambda>r. lr_id r = i) rows = Some r" "CreateClientFromDBModel N r = Inr (fst c)" "snd c = lr_model_name r"
    using assms(2) by (auto simp: load_client_def split: option.splits sum.splits)
  then show ?thesis using first_row_Some [of lr_id "\<lambda>r. lr_id r = i" rows r] assms(1)
    by (auto simp: cache_coherent_def store_client_def)
qed

lemma Get_coherent: "cache_coherent N cache rows \<Longrightarrow> cache_coherent N (snd (cache_Get N fault now i rows cache)) rows"
  using loaded_coherent by (auto simp: cache_Get_def split: option.split sum.split)

lemma views_kept_refl: "views_kept X rows rows"
  unfolding views_kept_def by blast

lemma views_kept_map: "(\<And>r. r \<in> set rows \<Longrightarrow> lr_id r \<notin> X \<Longrightarrow> lr_id (h r) = lr_id r \<and> client_view (h r) = client_view r) \<Longrightarrow> views_kept X rows (map h rows)"
  unfolding views_kept_def by force

lemma views_kept_trans: "views_kept X a b \<Longrightarrow> views_kept X b c \<Longrightarrow> views_kept X a c"
  unfolding views_kept_def by metis

lemma turned_view: "views_kept X rows (map (turn_default now tenant i) rows)"
  by (rule views_kept_map) (auto simp: turn_default_def client_view_def)

lemma SetDefault_views: "views_kept X rows (snd (SetDefault f1 f2 broken now ctx i rows))"
  by (subst SetDefault_cases) (simp add: promoted_cleared turned_view views_kept_refl)

lemma set_default_views: "views_kept X (models_of w) (models_of (snd (set_default E ctx i w)))"
  unfolding set_default_models by (rule SetDefault_views)

lemma Update_views: "views_kept {i} rows (snd (llm_Update fault broken now ctx i m rows))"
proof -
  have "views_kept {i} rows (change_rows (\<lambda>r. lr_scope ctx r \<and> lr_id r = i) (merge_row now m) rows)"
    unfolding change_rows_def by (rule views_kept_map) auto
  then show ?thesis by (auto simp: llm_Update_def checked_def Let_def views_kept_refl split: option.split)
qed

lemma Delete_views: "views_kept {i} rows (snd (llm_Delete fault ctx i rows))"
  by (auto simp: llm_Delete_def Let_def views_kept_def split: option.split)

lemma Create_views: "views_kept X rows (snd (llm_Create fault broken uuid now ctx m rows))"
  by (auto simp: llm_Create_def checked_def Let_def views_kept_def split: option.split)

lemma dropped_simps [simp]:
  "mw_dropped (with_models rows w) = mw_dropped w" "mw_dropped (snd (set_default E ctx i w)) = mw_dropped w"
  "mw_dropped (backfillTenantAgentsToDefault E ctx i w) = mw_dropped w"
  by (auto simp: with_models_def set_default_def backfillTenantAgentsToDefault_def split: prod.split sum.split)

lemma set_default_dropped: "set_default E ctx i w = (e, w1) \<Longrightarrow> mw_dropped w1 = mw_dropped w"
  using dropped_simps(2) [of E ctx i w] by simp

lemma promote_success:
  assumes "promote_and_drop E ctx what wanted existing answer w = (Inr x, w')" "mv_cache E"
  shows "mw_dropped w' = mw_dropped w @ [lr_id existing] \<and> views_kept X (models_of w) (models_of w')"
proof (cases "wanted \<and> \<not> lr_default existing")
  case True
  then obtain w1 where sd: "set_default E ctx (lr_id existing) w = (None, w1)"
    and w': "w' = drop_client E (lr_id existing) (backfillTenantAgentsToDefault E ctx (lr_id existing) w1)"
    using assms(1) by (auto simp: promote_and_drop_def split: prod.splits option.splits)
  have "mw_dropped w1 = mw_dropped w" "views_kept X (models_of w) (models_of w1)"
    using dropped_simps(2) [of E ctx "lr_id existing" w] set_default_views [of X w E ctx "lr_id existing"] by (simp_all add: sd)
  moreover have "models_of w' = models_of w1" by (simp add: w')
  moreover have "mw_dropped w' = mw_dropped w1 @ [lr_id existing]" using assms(2) by (simp add: w' drop_client_def)
  ultimately show ?thesis by simp
next
  case False
  then have "w' = drop_client E (lr_id existing) w" using assms(1) by (auto simp: promote_and_drop_def split: if_splits)
  then show ?thesis using assms(2) by (simp add: drop_client_def views_kept_refl models_of_def)
qed


lemma CreateModel_views: "CreateModel E ctx req w = (Inr x, w') \<Longrightarrow> mw_dropped w' = mw_dropped w \<and> views_kept X (models_of w) (models_of w')"
proof -
  assume ok: "CreateModel E ctx req w = (Inr x, w')"
  obtain auto where auto: "auto_promoted E ctx req (or_chat (cq_kind req)) w = Inr auto"
    using ok by (cases "auto_promoted E ctx req (or_chat (cq_kind req)) w") (auto simp: CreateModel_def)
  let ?c = "llm_Create (mv_fault E CreateQ) (mv_broken E) (mv_uuid E) (mv_now E) ctx (row_of_request req (or_chat (cq_kind req)) auto) (models_of w)"
  obtain r rows where c: "?c = (Inr r, rows)" using ok auto by (cases ?c; cases "fst ?c") (auto simp: CreateModel_def)
  let ?req = "req\<lparr>cq_default := cq_default req \<or> auto\<rparr>"
  have after: "after_create E ctx ?req (or_chat (cq_kind req)) auto r (with_models rows w) = (Inr x, w')"
    using ok auto c by (simp add: CreateModel_def)
  have "views_kept X (models_of w) rows" using Create_views [of X "models_of w" "mv_fault E CreateQ" "mv_broken E" "mv_uuid E" "mv_now E" ctx] c by (metis snd_conv)
  moreover have "views_kept X rows (models_of w')"
    using after_create_models [of E ctx ?req "or_chat (cq_kind req)" auto r "with_models rows w"] after
      set_default_views [of X "with_models rows w" E ctx "lr_id r"] views_kept_refl [of X rows] by (simp split: if_splits)
  moreover have "mw_dropped w' = mw_dropped w"
  proof -
    obtain e w1 where w1: "(if or_chat (cq_kind req) = ''chat'' \<and> cq_default ?req \<and> \<not> auto then set_default E ctx (lr_id r) (with_models rows w)
        else (None, with_models rows w)) = (e, w1)" by (metis surj_pair)
    then have "mw_dropped w1 = mw_dropped w" by (auto dest: set_default_dropped split: if_splits)
    then show ?thesis using after w1 by (auto simp: after_create_def Let_def split: option.splits if_splits)
  qed
  ultimately show ?thesis using views_kept_trans by blast
qed

lemma change_success:
  assumes "llm_Update (mv_fault E UpdateQ) (mv_broken E) (mv_now E) ctx (lr_id x) m (models_of w) = (None, rows')"
    and "promote_and_drop E ctx what wanted x answer (with_models rows' w) = (Inr y, w')" "mv_cache E"
  shows "mw_dropped w' = mw_dropped w @ [lr_id x] \<and> views_kept {lr_id x} (models_of w) (models_of w')"
proof -
  have "views_kept {lr_id x} (models_of w) rows'" using Update_views [of "lr_id x" "models_of w"] assms(1) by (metis snd_conv)
  moreover have "mw_dropped w' = mw_dropped w @ [lr_id x]" "views_kept {lr_id x} rows' (models_of w')"
    using promote_success [OF assms(2,3), of "{lr_id x}"] by simp_all
  ultimately show ?thesis using views_kept_trans by blast
qed

lemma UpdateModel_views:
  assumes "UpdateModel E ctx name req w = (Inr y, w')" "mv_cache E"
  shows "\<exists>i. mw_dropped w' = mw_dropped w @ [i] \<and> views_kept {i} (models_of w) (models_of w')"
proof -
  obtain rows where l: "llm_List (mv_fault E ListQ) ctx (models_of w) = Inr rows"
    using assms(1) by (cases "llm_List (mv_fault E ListQ) ctx (models_of w)") (auto simp: UpdateModel_def)
  then obtain x where x: "named name rows = Some x" using assms(1) by (cases "named name rows") (auto simp: UpdateModel_def)
  show ?thesis using assms l x by (auto simp: UpdateModel_def Let_def dest: change_success split: prod.splits option.splits)
qed

lemma PatchModel_views:
  assumes "PatchModel E ctx name req w = (Inr y, w')" "mv_cache E"
  shows "\<exists>i. mw_dropped w' = mw_dropped w @ [i] \<and> views_kept {i} (models_of w) (models_of w')"
proof -
  obtain rows where l: "llm_List (mv_fault E ListQ) ctx (models_of w) = Inr rows"
    using assms(1) by (cases "llm_List (mv_fault E ListQ) ctx (models_of w)") (auto simp: PatchModel_def)
  then obtain x where x: "named name rows = Some x" using assms(1) by (cases "named name rows") (auto simp: PatchModel_def)
  show ?thesis using assms l x by (auto simp: PatchModel_def Let_def dest: change_success split: prod.splits option.splits)
qed

lemma DeleteModel_views:
  assumes "DeleteModel E ctx name w = (None, w')" "mv_cache E"
  shows "\<exists>i. mw_dropped w' = mw_dropped w @ [i] \<and> views_kept {i} (models_of w) (models_of w')"
proof -
  obtain rows where l: "llm_List (mv_fault E ListQ) ctx (models_of w) = Inr rows"
    using assms(1) by (cases "llm_List (mv_fault E ListQ) ctx (models_of w)") (auto simp: DeleteModel_def)
  then obtain x where x: "named name rows = Some x" using assms(1) by (cases "named name rows") (auto simp: DeleteModel_def)
  obtain users where "AgentsUsingModel (mv_fault E UsersQ) ctx (lr_id x) (mw_db w) = Inr users" "users = []"
    using assms(1) l x by (auto simp: DeleteModel_def split: sum.splits if_splits)
  then obtain rows' where d: "llm_Delete (mv_fault E DeleteQ) ctx (lr_id x) (models_of w) = (None, rows')"
    and w': "w' = drop_client E (lr_id x) (with_models rows' w)"
    using assms(1) l x by (auto simp: DeleteModel_def split: prod.splits option.splits)
  have "views_kept {lr_id x} (models_of w) rows'" using Delete_views [of "lr_id x" "models_of w"] d by (metis snd_conv)
  moreover have "models_of w' = rows'" by (simp add: w')
  moreover have "mw_dropped w' = mw_dropped w @ [lr_id x]" using assms(2) by (simp add: w' drop_client_def)
  ultimately show ?thesis by blast
qed



text \<open>A request that has read the old row stores its client after the invalidation.\<close>

lemma late_store_is_stale:
  assumes "load_client N None i rows = Inr c" "first_row lr_id (\<lambda>r. lr_id r = i) rows' = Some r'"
    and "\<And>r. r \<in> set rows' \<Longrightarrow> lr_id r = i \<Longrightarrow> CreateClientFromDBModel N r \<noteq> Inr (fst c)"
  shows "\<not> cache_coherent N (store_client now i c (cache_Invalidate i cache)) rows'"
proof
  assume "cache_coherent N (store_client now i c (cache_Invalidate i cache)) rows'"
  moreover have "store_client now i c (cache_Invalidate i cache) i = Some \<lparr>cm_client = fst c, cm_name = snd c, cm_created = now\<rparr>"
    by (simp add: store_client_def)
  ultimately obtain r where "r \<in> set rows'" "lr_id r = i" "CreateClientFromDBModel N r = Inr (fst c)"
    unfolding cache_coherent_def by fastforce
  then show False using assms(3) by blast
qed

section \<open>The key that is used\<close>

lemma openai_client_key: "openai_client N c = Inr m \<Longrightarrow> client_key m = ox_key c"
  by (auto simp: openai_client_def split: option.splits)

lemma byok_client_key: "BuildBYOKChatModel N creds = Inr m \<Longrightarrow> client_key m = by_key creds"
  by (auto simp: BuildBYOKChatModel_def Let_def plain_config_def dest!: openai_client_key split: if_splits)


definition example_headers :: byok_credentials where
  "example_headers = \<lparr>by_provider = ''ollama'', by_key = ''k1'', by_model = ''llama'', by_base_url = []\<rparr>"


text \<open>When no client can be made of the credentials, the turn goes to the model of the tenant without a word to the user.\<close>

lemma bad_credentials_fall_back:
  "BuildBYOKChatModel (sf_library f) c = Inl e \<Longrightarrow>
    resolveModel f fault now rows (Some c) agent cache = resolveModel f fault now rows None agent cache"
  by (simp add: resolveModel_def byok_choice_def)

text \<open>The redaction of a key of nine characters shows all of them but one.\<close>

lemma redaction_of_a_short_key: "length key = 9 \<Longrightarrow> RedactAPIKey key = take 4 key @ ''...'' @ drop 5 key"
  by (auto simp: RedactAPIKey_def)

lemma redaction_is_short: "length (RedactAPIKey key) \<le> 11"
  by (simp add: RedactAPIKey_def)

text \<open>The parameters of an agent do not reach Gemini.\<close>

lemma gemini_gets_no_parameters: "sent_fields (WrapWithModelParams (GeminiChat key model base) p) opts = []"
  by (simp add: WrapWithModelParams_def)

lemma openai_gets_the_parameters: "sent_fields (WrapWithModelParams (OpenAIChat c) p) opts = opts @ extra_fields p"
  by (auto simp: WrapWithModelParams_def params_empty_def extra_fields_def)

text \<open>The wrapper for debugging makes a client of none: the factory takes it for a model.\<close>

lemma debug_wrapper_hides_the_missing_model:
  assumes "dir \<noteq> []" "sf_selector f = NewModelSelector (wrapWithDebugModel None dir) name" "cache = None"
  shows "fst (resolveModel f fault now rows None agent cache) = (Some (DebugChat None dir), name)"
  using assms by (simp add: resolveModel_def byok_choice_def NewModelSelector_def wrapWithDebugModel_def Select_def ModelName_def)

lemma ollama_speaks_v1: "str_contains (ollama_url url) ''/v1''"
proof -
  have "str_contains (u @ ''/v1'') ''/v1''" for u
    using str_contains_iff [of "u @ ''/v1''" "''/v1''"] by (metis append_Nil2)
  then show ?thesis by (simp add: ollama_url_def Let_def)
qed

text \<open>An agent that has the capability of memory or knowledge always has a reminder.\<close>

lemma capability_gives_a_reminder:
  assumes "sf_read_config f = Some read" "read agent ''memory'' = Inr (Some cfg)"
  shows "CapabilityReminder (capability_hints f agent) \<in> set (session_reminders f root platform agent)
    \<and> hint_reminder (capability_hints f agent) \<noteq> None"
  using assms by (simp add: session_reminders_def Let_def capability_hints_def capability_hint_texts_def hint_reminder_def)

section \<open>How often a call is retried\<close>

lemma isRetriable_iff: "isRetriable (Some e) \<longleftrightarrow> \<not> (\<exists>p \<in> set non_retriable. str_contains (lower_text e) p)"
  by (simp add: isRetriable_def Let_def)

lemma generate_bounds: "fst (snd (generate_from c gone call n k e)) \<le> n"
proof (induction n arbitrary: k e)
  case (Suc n)
  show ?case
    by (cases "if k > 0 then gone k else None"; cases "call k") (simp_all add: Let_def case_prod_beta Suc del: not_gr_zero)
qed simp

definition tried_again :: "(nat \<Rightarrow> go_error option) \<Rightarrow> (nat \<Rightarrow> go_error + 'm) \<Rightarrow> nat \<Rightarrow> bool" where
  "tried_again gone call j \<longleftrightarrow> (\<exists>e. call j = Inl e \<and> isRetriable (Some e)) \<and> gone (Suc j) = None"

lemma generate_success:
  assumes "i < n" "call (k + i) = Inr m" "\<And>j. j < i \<Longrightarrow> tried_again gone call (k + j)" "k > 0 \<Longrightarrow> gone k = None"
  shows "\<exists>waits. generate_from c gone call n k e = (waits, Suc i, Inr m)"
  using assms
proof (induction n arbitrary: k i e)
  case (Suc n)
  have gone: "(if k > 0 then gone k else None) = None" using Suc.prems(4) by simp
  show ?case
  proof (cases i)
    case 0
    then show ?thesis using Suc.prems(2) gone by simp
  next
    case (Suc i')
    have first: "tried_again gone call k" using Suc.prems(3) [of 0] Suc by simp
    then obtain e' where e': "call k = Inl e'" "isRetriable (Some e')" "gone (Suc k) = None" by (auto simp: tried_again_def)
    have "\<exists>waits. generate_from c gone call n (Suc k) e' = (waits, Suc i', Inr m)"
    proof (rule Suc.IH)
      show "i' < n" using Suc.prems(1) Suc by simp
      show "call (Suc k + i') = Inr m" using Suc.prems(2) Suc by simp
      show "tried_again gone call (Suc k + j)" if "j < i'" for j using Suc.prems(3) [of "Suc j"] that Suc by simp
      show "gone (Suc k) = None" by (rule e'(3))
    qed
    then obtain waits where "generate_from c gone call n (Suc k) e' = (waits, Suc i', Inr m)" by blast
    then show ?thesis using gone e' Suc by (simp add: Let_def)
  qed
qed simp

lemma generate_result:
  assumes "generate_from c gone call n k e = (waits, calls, Inr m)"
  shows "\<exists>i < n. call (k + i) = Inr m \<and> (\<forall>j < i. tried_again gone call (k + j)) \<and> (k > 0 \<longrightarrow> gone k = None)"
  using assms
proof (induction n arbitrary: k e waits calls)
  case (Suc n)
  have gone: "k > 0 \<Longrightarrow> gone k = None" using Suc.prems by (auto simp: Let_def split: option.splits)
  then have alive: "(if k > 0 then gone k else None) = None" by simp
  show ?case
  proof (cases "call k")
    case (Inr x)
    then have "x = m" using Suc.prems alive by (simp add: Let_def)
    then show ?thesis using Inr gone by (intro exI [of _ 0]) simp
  next
    case (Inl e')
    then have retry: "isRetriable (Some e')" using Suc.prems alive by (cases "isRetriable (Some e')") (simp_all add: Let_def)
    obtain ws cs res where rest: "generate_from c gone call n (Suc k) e' = (ws, cs, res)" by (metis prod_cases3)
    then have "res = Inr m" using Suc.prems Inl retry alive by (simp add: Let_def)
    then obtain i where i: "i < n" "call (Suc k + i) = Inr m" "\<forall>j < i. tried_again gone call (Suc k + j)" "gone (Suc k) = None"
      using Suc.IH rest by blast
    have "tried_again gone call (k + j)" if "j < Suc i" for j
      using that i(3,4) Inl retry by (cases j) (auto simp: tried_again_def)
    then show ?thesis using i(1,2) gone by (intro exI [of _ "Suc i"]) simp
  qed
qed simp

text \<open>A retried call is answered exactly if one of the first attempts succeeds after attempts whose errors may be
  retried, with the context alive in between; there are never more calls than the maximum of retries and one.\<close>

theorem retries_end_with_first_answer:
  "(snd (snd (retry_Generate c gone call)) = Inr m \<longleftrightarrow>
     (\<exists>i < nat (rt_max c + 1). call i = Inr m \<and> (\<forall>j < i. tried_again gone call j)))
   \<and> fst (snd (retry_Generate c gone call)) \<le> nat (rt_max c + 1)"
proof
  show "fst (snd (retry_Generate c gone call)) \<le> nat (rt_max c + 1)"
    using generate_bounds [of c gone call "nat (rt_max c + 1)" 0] by (auto simp: retry_Generate_def split: prod.splits)
  show "snd (snd (retry_Generate c gone call)) = Inr m \<longleftrightarrow>
     (\<exists>i < nat (rt_max c + 1). call i = Inr m \<and> (\<forall>j < i. tried_again gone call j))"
  proof
    assume "snd (snd (retry_Generate c gone call)) = Inr m"
    then obtain waits calls where "generate_from c gone call (nat (rt_max c + 1)) 0 ''%!w(<nil>)'' = (waits, calls, Inr m)"
      unfolding retry_Generate_def by (metis prod.collapse)
    from generate_result [OF this] show "\<exists>i < nat (rt_max c + 1). call i = Inr m \<and> (\<forall>j < i. tried_again gone call j)" by simp
  next
    assume "\<exists>i < nat (rt_max c + 1). call i = Inr m \<and> (\<forall>j < i. tried_again gone call j)"
    then obtain i where i: "i < nat (rt_max c + 1)" "call i = Inr m" "\<forall>j < i. tried_again gone call j" by blast
    have "\<exists>waits. generate_from c gone call (nat (rt_max c + 1)) 0 ''%!w(<nil>)'' = (waits, Suc i, Inr m)"
      by (rule generate_success) (use i in simp_all)
    then show "snd (snd (retry_Generate c gone call)) = Inr m" by (auto simp: retry_Generate_def)
  qed
qed

theorem retries_end_with_first_answer_witness:
  "snd (snd (retry_Generate \<lparr>rt_max = 0, rt_base = 1\<rparr> (\<lambda>k. None) (\<lambda>k. Inr 5))) = (Inr 5 :: go_error + int)"
  using retries_end_with_first_answer [of "\<lparr>rt_max = 0, rt_base = 1\<rparr>" "\<lambda>k. None" "\<lambda>k. Inr (5 :: int)" 5] by simp

text \<open>The digits of a port or of a request decide: this refused connection is not retried.\<close>

lemma refused_on_port_4000:
  "\<not> isRetriable (Some ''dial tcp 10.0.0.1:4000: connect: connection refused'')"
proof -
  have "str_contains (lower_text ''dial tcp 10.0.0.1:4000: connect: connection refused'') ''400''" by code_simp
  then show ?thesis unfolding isRetriable_iff non_retriable_def by simp
qed

text \<open>From the sixty-fourth retry on the shifted base is zero: the loop calls without a wait.\<close>

lemma late_retries_do_not_wait: "k \<ge> 65 \<Longrightarrow> retry_delay base k = 0"
proof -
  assume "k \<ge> 65"
  then have "k - 1 = 64 + (k - 65)" by simp
  then have "(2 :: int) ^ (k - 1) = 2 ^ 64 * 2 ^ (k - 65)" using power_add [of "2 :: int" 64 "k - 65"] by metis
  then have "wrap64 (2 ^ (k - 1)) = 0" by (simp add: wrap64_def)
  then show ?thesis by (simp add: retry_delay_def wrap64_def)
qed

end
