(* ===== verification/Auth_Tokens.thy ===== *)
theory Auth_Tokens
  imports Model_Service Session_Events "HOL-Library.Word"
begin

unbundle bit_operations_syntax

text \<open>
  Who may call the server: the form of an API token (\<open>internal/authprim/token.go\<close>), the table of tokens
  (\<open>persistence/configrepo/api_token_repository.go\<close>) with its handlers (\<open>delivery/http/token_handler.go\<close>), the
  middlewares that authenticate a request and give it a tenant (\<open>delivery/http/auth_middleware.go\<close>,
  \<open>tenant_middleware.go\<close>), the verifier and the local session (\<open>infrastructure/auth/eddsa_verifier.go\<close>,
  \<open>keypair.go\<close>, \<open>delivery/http/local_session_handler.go\<close>), the list of revoked sessions (\<open>auth_blacklist.go\<close>) and the
  security headers (\<open>security_middleware.go\<close>).

  A middleware maps a request and its context to a refusal or to the context the next handler gets.  The digest, the
  parser of UUIDs and the JWT library are arguments.  A mask of scopes is a word of 64 bits, as Go's \<open>int\<close> is.

  The theory shows that a created token is admitted with its name, mask and tenant until it is revoked and never again
  after that, that a request works for the tenant of its credential, and that key files are read back as written.
\<close>

section \<open>Scopes\<close>

definition ScopeChat :: "64 word" where "ScopeChat = 1"
definition ScopeTasks :: "64 word" where "ScopeTasks = 2"
definition ScopeAgentsRead :: "64 word" where "ScopeAgentsRead = 4"
definition ScopeConfig :: "64 word" where "ScopeConfig = 8"
definition ScopeAdmin :: "64 word" where "ScopeAdmin = 16"
definition ScopeAgentsWrite :: "64 word" where "ScopeAgentsWrite = 32"
definition ScopeModelsRead :: "64 word" where "ScopeModelsRead = 64"
definition ScopeModelsWrite :: "64 word" where "ScopeModelsWrite = 128"
definition ScopeMCPRead :: "64 word" where "ScopeMCPRead = 256"
definition ScopeMCPWrite :: "64 word" where "ScopeMCPWrite = 512"
definition ScopeTriggersRead :: "64 word" where "ScopeTriggersRead = 1024"
definition ScopeSchemasRead :: "64 word" where "ScopeSchemasRead = 4096"
definition ScopeSchemasWrite :: "64 word" where "ScopeSchemasWrite = 8192"

lemmas scope_bits = ScopeChat_def ScopeTasks_def ScopeAgentsRead_def ScopeConfig_def ScopeAdmin_def ScopeAgentsWrite_def
  ScopeModelsRead_def ScopeModelsWrite_def ScopeMCPRead_def ScopeMCPWrite_def ScopeTriggersRead_def ScopeSchemasRead_def
  ScopeSchemasWrite_def

definition ScopeAPIMask :: "64 word" where
  "ScopeAPIMask = ScopeChat OR ScopeTasks OR ScopeAgentsRead OR ScopeModelsRead OR ScopeMCPRead OR ScopeTriggersRead OR ScopeSchemasRead"

definition ScopeNameToMask :: "(string \<times> 64 word) list" where
  "ScopeNameToMask =
     [(''chat'', ScopeChat), (''tasks'', ScopeTasks), (''agents:read'', ScopeAgentsRead), (''agents'', ScopeAgentsRead),
      (''agents:write'', ScopeAgentsWrite), (''config'', ScopeConfig), (''admin'', ScopeAdmin), (''models:read'', ScopeModelsRead),
      (''models'', ScopeModelsRead), (''models:write'', ScopeModelsWrite), (''mcp:read'', ScopeMCPRead), (''mcp'', ScopeMCPRead),
      (''mcp:write'', ScopeMCPWrite), (''schemas:read'', ScopeSchemasRead), (''schemas'', ScopeSchemasRead),
      (''schemas:write'', ScopeSchemasWrite), (''api'', ScopeAPIMask)]"

definition ScopesToMask :: "string list \<Rightarrow> 64 word" where
  "ScopesToMask scopes = fold (\<lambda>s scopes_mask. case map_of ScopeNameToMask s of None \<Rightarrow> scopes_mask | Some b \<Rightarrow> scopes_mask OR b) scopes 0"

section \<open>Tokens\<close>

definition hexEncode :: "string \<Rightarrow> string" where
  "hexEncode b = concat (map (\<lambda>c. [hex_digit (of_char c div 16), hex_digit (of_char c mod 16)]) b)"

definition hex_value :: "char \<Rightarrow> nat option" where
  "hex_value c =
     (let n = of_char c :: nat
      in if 48 \<le> n \<and> n \<le> 57 then Some (n - 48) else if 97 \<le> n \<and> n \<le> 102 then Some (n - 87)
         else if 65 \<le> n \<and> n \<le> 70 then Some (n - 55) else None)"

text \<open>\<open>hex.DecodeString\<close> takes digits of both cases and refuses an odd number of them.\<close>

fun hexDecode :: "string \<Rightarrow> string option" where
  "hexDecode [] = Some []"
| "hexDecode [c] = None"
| "hexDecode (c # d # s) =
     (case (hex_value c, hex_value d) of
        (Some h, Some l) \<Rightarrow> map_option ((#) (char_of (16 * h + l))) (hexDecode s)
      | _ \<Rightarrow> None)"

definition TokenPrefix :: string where
  "TokenPrefix = ''bb_''"

definition HexLen :: nat where
  "HexLen = 64"

definition Generate :: "go_error + string \<Rightarrow> go_error + string" where
  "Generate random = (case random of Inl e \<Rightarrow> Inl (''generate random bytes: '' @ e) | Inr b \<Rightarrow> Inr (TokenPrefix @ hexEncode b))"

definition ValidateFormat :: "string \<Rightarrow> go_error option" where
  "ValidateFormat plain =
     (if \<not> has_prefix plain TokenPrefix \<or> length plain \<noteq> length TokenPrefix + HexLen
      then Some (''invalid token format: expected bb_<64-hex> (67 chars), got '' @ dec_nat (length plain) @ '' chars'')
      else case hexDecode (drop (length TokenPrefix) plain) of
             None \<Rightarrow> Some ''invalid token format: hex part is not valid hex''
           | Some _ \<Rightarrow> None)"

section \<open>The table of tokens\<close>

record token_row =
  tk_id :: string
  tk_user_sub :: string
  tk_name :: string
  tk_hash :: string
  tk_mask :: "64 word"
  tk_tenant :: string
  tk_created :: time
  tk_last_used :: "time option"
  tk_revoked :: "time option"

record token_info =
  ti_id :: string
  ti_name :: string
  ti_mask :: "64 word"
  ti_created :: time
  ti_last_used :: "time option"

record verified_token =
  vt_name :: string
  vt_mask :: "64 word"
  vt_tenant :: string

text \<open>The primary key, the constraint on the digest, and the width of the column of the mask.\<close>

definition tokens_hold :: "token_row list \<Rightarrow> bool" where
  "tokens_hold rows \<longleftrightarrow> distinct (map tk_id rows) \<and> distinct (map tk_hash rows) \<and>
     list_all (\<lambda>r. - (2 ^ 31) \<le> sint (tk_mask r) \<and> sint (tk_mask r) < 2 ^ 31) rows"

definition token_scope :: "string \<Rightarrow> token_row \<Rightarrow> bool" where
  "token_scope ctx r \<longleftrightarrow> tk_tenant r = tenantIDFromCtx ctx"

definition live :: "token_row \<Rightarrow> bool" where
  "live r \<longleftrightarrow> tk_revoked r = None"

definition tokens_Create ::
    "go_error option \<Rightarrow> (token_row list \<Rightarrow> go_error) \<Rightarrow> string \<Rightarrow> time \<Rightarrow> string \<Rightarrow> string \<Rightarrow> string \<Rightarrow> string \<Rightarrow> 64 word \<Rightarrow> token_row list
       \<Rightarrow> (go_error + string) \<times> token_row list" where
  "tokens_Create fault broken uuid now ctx sub name hash scopes_mask rows =
     (let new = rows @ [\<lparr>tk_id = uuid, tk_user_sub = sub, tk_name = name, tk_hash = hash, tk_mask = scopes_mask,
                         tk_tenant = tenantIDFromCtx ctx, tk_created = now, tk_last_used = None, tk_revoked = None\<rparr>]
      in case fault of
           Some e \<Rightarrow> (Inl (''create api token: '' @ e), rows)
         | None \<Rightarrow> if tokens_hold new then (Inr uuid, new) else (Inl (''create api token: '' @ broken new), rows))"

definition tokens_List :: "go_error option \<Rightarrow> string \<Rightarrow> token_row list \<Rightarrow> go_error + token_info list" where
  "tokens_List fault ctx rows =
     (case fault of
        Some e \<Rightarrow> Inl (''list api tokens: '' @ e)
      | None \<Rightarrow> Inr (map (\<lambda>r. \<lparr>ti_id = tk_id r, ti_name = tk_name r, ti_mask = tk_mask r, ti_created = tk_created r,
                                ti_last_used = tk_last_used r\<rparr>)
                        (sort_key (\<lambda>r. - tk_created r) (filter (\<lambda>r. token_scope ctx r \<and> live r) rows))))"

definition tokens_Delete :: "go_error option \<Rightarrow> time \<Rightarrow> string \<Rightarrow> string \<Rightarrow> token_row list \<Rightarrow> go_error option \<times> token_row list" where
  "tokens_Delete fault now ctx i rows =
     (let mine = (\<lambda>r. token_scope ctx r \<and> tk_id r = i \<and> live r)
      in case fault of
           Some e \<Rightarrow> (Some (''revoke api token '' @ i @ '': '' @ e), rows)
         | None \<Rightarrow> if filter mine rows = [] then (Some (''api token not found: '' @ i), rows)
                   else (None, change_rows mine (\<lambda>r. r\<lparr>tk_revoked := Some now\<rparr>) rows))"

text \<open>The lookup is not bound to a tenant; the second statement, of the last use, may fail without effect on the answer.\<close>

definition tokens_Verify :: "go_error option \<Rightarrow> bool \<Rightarrow> time \<Rightarrow> string \<Rightarrow> token_row list \<Rightarrow> (go_error + verified_token) \<times> token_row list" where
  "tokens_Verify fault stamp_fails now hash rows =
     (case (fault, first_row tk_id (\<lambda>r. tk_hash r = hash \<and> live r) rows) of
        (None, Some r) \<Rightarrow>
          (Inr \<lparr>vt_name = tk_name r, vt_mask = tk_mask r, vt_tenant = tk_tenant r\<rparr>,
           if stamp_fails then rows else change_rows (\<lambda>r'. tk_id r' = tk_id r) (\<lambda>r'. r'\<lparr>tk_last_used := Some now\<rparr>) rows)
      | _ \<Rightarrow> (Inl ''token not found'', rows))"

section \<open>Requests and their context\<close>

record served_request =
  rq_method :: string
  rq_path :: string
  rq_authorization :: string
  rq_tenant_header :: string
  rq_tls :: bool
  rq_forwarded_proto :: string

record request_ctx =
  cx_actor_type :: string
  cx_actor_id :: string
  cx_user_sub :: string
  cx_scopes :: "64 word"
  cx_tenant :: string

definition fresh_ctx :: request_ctx where
  "fresh_ctx = \<lparr>cx_actor_type = [], cx_actor_id = [], cx_user_sub = [], cx_scopes = 0, cx_tenant = []\<rparr>"

text \<open>A refusal has a status, the challenge of a 401 and the text of the body.\<close>

datatype passage = PassTo request_ctx | Refuse nat string string

definition writeUnauthorized :: "string \<Rightarrow> string \<Rightarrow> passage" where
  "writeUnauthorized code description =
     (let challenge = ''Bearer realm='' @ go_quote ''bytebrew''
      in Refuse 401
           (if code = [] then challenge
            else challenge @ '', error='' @ go_quote code @ '', error_description='' @ go_quote description)
           (if code = [] then ''unauthorized'' else code))"

record jwt_claims =
  jc_subject :: string
  jc_tenant :: string
  jc_scopes :: "64 word"

record auth_env =
  ae_digest :: "string \<Rightarrow> string"
  ae_uuid :: "string \<Rightarrow> bool"
  ae_jwt :: "(time \<Rightarrow> string \<Rightarrow> go_error + jwt_claims) option"

definition with_tenant_claim :: "auth_env \<Rightarrow> string \<Rightarrow> request_ctx \<Rightarrow> passage" where
  "with_tenant_claim E tenant cx =
     (if tenant = [] then PassTo cx
      else if ae_uuid E tenant then PassTo (cx\<lparr>cx_tenant := tenant\<rparr>)
      else Refuse 400 [] ''invalid tenant_id claim'')"

definition authenticateAPIToken ::
    "auth_env \<Rightarrow> go_error option \<Rightarrow> bool \<Rightarrow> time \<Rightarrow> string \<Rightarrow> request_ctx \<Rightarrow> token_row list \<Rightarrow> passage \<times> token_row list" where
  "authenticateAPIToken E fault stamp_fails now token cx rows =
     (case tokens_Verify fault stamp_fails now (ae_digest E token) rows of
        (Inl e, rows') \<Rightarrow> (writeUnauthorized ''invalid_token'' ''invalid api token'', rows')
      | (Inr v, rows') \<Rightarrow>
          (with_tenant_claim E (vt_tenant v) (cx\<lparr>cx_actor_type := ''api_token'', cx_actor_id := vt_name v, cx_scopes := vt_mask v\<rparr>), rows'))"

definition authenticateJWT :: "auth_env \<Rightarrow> time \<Rightarrow> string \<Rightarrow> request_ctx \<Rightarrow> passage" where
  "authenticateJWT E now token cx =
     (case ae_jwt E of
        None \<Rightarrow> writeUnauthorized ''invalid_token'' ''no jwt verifier configured''
      | Some verify \<Rightarrow>
          (case verify now token of
             Inl e \<Rightarrow> writeUnauthorized ''invalid_token'' ''invalid or expired token''
           | Inr c \<Rightarrow>
               with_tenant_claim E (jc_tenant c)
                 (cx\<lparr>cx_actor_type := ''admin'', cx_actor_id := jc_subject c, cx_user_sub := jc_subject c, cx_scopes := jc_scopes c\<rparr>)))"

definition BearerPrefix :: string where
  "BearerPrefix = ''Bearer ''"

definition Authenticate ::
    "auth_env \<Rightarrow> go_error option \<Rightarrow> bool \<Rightarrow> time \<Rightarrow> served_request \<Rightarrow> request_ctx \<Rightarrow> token_row list \<Rightarrow> passage \<times> token_row list" where
  "Authenticate E fault stamp_fails now rq cx rows =
     (if rq_authorization rq = [] \<or> \<not> has_prefix (rq_authorization rq) BearerPrefix then (writeUnauthorized [] [], rows)
      else let token = trim_prefix (rq_authorization rq) BearerPrefix
           in if has_prefix token TokenPrefix then authenticateAPIToken E fault stamp_fails now token cx rows
              else (authenticateJWT E now token cx, rows))"

text \<open>On public routes a valid credential only adds its tenant; nothing is refused.\<close>

definition add_tenant :: "auth_env \<Rightarrow> string \<Rightarrow> request_ctx \<Rightarrow> request_ctx" where
  "add_tenant E tenant cx = (if tenant = [] \<or> \<not> ae_uuid E tenant then cx else cx\<lparr>cx_tenant := tenant\<rparr>)"

definition AuthenticateOptional ::
    "auth_env \<Rightarrow> go_error option \<Rightarrow> bool \<Rightarrow> time \<Rightarrow> served_request \<Rightarrow> request_ctx \<Rightarrow> token_row list \<Rightarrow> request_ctx \<times> token_row list" where
  "AuthenticateOptional E fault stamp_fails now rq cx rows =
     (if rq_authorization rq = [] \<or> \<not> has_prefix (rq_authorization rq) BearerPrefix then (cx, rows)
      else let token = trim_prefix (rq_authorization rq) BearerPrefix
           in if has_prefix token TokenPrefix
              then (case tokens_Verify fault stamp_fails now (ae_digest E token) rows of
                      (Inl e, rows') \<Rightarrow> (cx, rows')
                    | (Inr v, rows') \<Rightarrow> (add_tenant E (vt_tenant v) cx, rows'))
              else case ae_jwt E of
                     None \<Rightarrow> (cx, rows)
                   | Some verify \<Rightarrow>
                       (case verify now token of Inl e \<Rightarrow> (cx, rows) | Inr c \<Rightarrow> (add_tenant E (jc_tenant c) cx, rows)))"

definition RequireScope :: "64 word \<Rightarrow> request_ctx \<Rightarrow> passage" where
  "RequireScope scope cx =
     (if cx_scopes cx AND ScopeAdmin \<noteq> 0 \<or> cx_scopes cx AND scope \<noteq> 0 then PassTo cx else Refuse 403 [] ''forbidden'')"

definition RequireAdminSession :: "request_ctx \<Rightarrow> passage" where
  "RequireAdminSession cx = (if cx_actor_type cx = ''admin'' then PassTo cx else Refuse 403 [] ''admin session required'')"

text \<open>The extractor takes the tenant of the context, else the header of the request.\<close>

definition ExtractTenantID :: "served_request \<Rightarrow> request_ctx \<Rightarrow> string" where
  "ExtractTenantID rq cx = (if cx_tenant cx = [] then rq_tenant_header rq else cx_tenant cx)"

definition TenantHandler :: "bool \<Rightarrow> served_request \<Rightarrow> request_ctx \<Rightarrow> passage" where
  "TenantHandler required rq cx =
     (let tenant = ExtractTenantID rq cx
      in if tenant = [] \<and> required then Refuse 403 [] ''tenant_id is required'' else PassTo (cx\<lparr>cx_tenant := tenant\<rparr>))"

section \<open>The handlers of tokens\<close>

record create_token_request =
  ct_name :: string
  ct_mask :: "64 word"
  ct_scopes :: "string list"

record create_token_response =
  ctr_id :: string
  ctr_name :: string
  ctr_token :: string
  ctr_mask :: "64 word"

definition CreateToken ::
    "auth_env \<Rightarrow> go_error + string \<Rightarrow> go_error option \<Rightarrow> (token_row list \<Rightarrow> go_error) \<Rightarrow> string \<Rightarrow> time \<Rightarrow> request_ctx
       \<Rightarrow> go_error + create_token_request \<Rightarrow> token_row list \<Rightarrow> create_token_response http_answer \<times> token_row list" where
  "CreateToken E random fault broken uuid now cx body rows =
     (case body of
        Inl e \<Rightarrow> (Failure 400 ''invalid request body'', rows)
      | Inr req \<Rightarrow>
          let scopes_mask = ct_mask req OR ScopesToMask (ct_scopes req)
          in if ct_name req = [] then (Failure 400 ''name required'', rows)
             else if scopes_mask = 0
             then (Failure 400 (''scopes required: supply non-zero scopes_mask or scopes like ['' @ go_quote ''api'' @ '']''), rows)
             else case Generate random of
                    Inl e \<Rightarrow> (Failure 500 ''generate token failed'', rows)
                  | Inr raw \<Rightarrow>
                      (case tokens_Create fault broken uuid now (cx_tenant cx) (cx_user_sub cx) (ct_name req) (ae_digest E raw) scopes_mask rows of
                         (Inl e, rows') \<Rightarrow> (Failure 409 (''create token: '' @ e), rows')
                       | (Inr i, rows') \<Rightarrow> (Answer 201 \<lparr>ctr_id = i, ctr_name = ct_name req, ctr_token = raw, ctr_mask = scopes_mask\<rparr>, rows')))"

definition ListTokens :: "go_error option \<Rightarrow> request_ctx \<Rightarrow> token_row list \<Rightarrow> token_info list http_answer" where
  "ListTokens fault cx rows =
     (case tokens_List fault (cx_tenant cx) rows of Inl e \<Rightarrow> Failure 500 (''list tokens: '' @ e) | Inr infos \<Rightarrow> Answer 200 infos)"

definition DeleteToken ::
    "auth_env \<Rightarrow> go_error option \<Rightarrow> time \<Rightarrow> request_ctx \<Rightarrow> string \<Rightarrow> token_row list \<Rightarrow> unit http_answer \<times> token_row list" where
  "DeleteToken E fault now cx i rows =
     (if \<not> ae_uuid E i then (Failure 400 ''invalid token id: must be a UUID'', rows)
      else case tokens_Delete fault now (cx_tenant cx) i rows of
             (Some e, rows') \<Rightarrow> (Failure 404 (''delete token: '' @ e), rows')
           | (None, rows') \<Rightarrow> (Answer 204 (), rows'))"

text \<open>The token of the administrator that the start-up may plant; an error is returned for a bad form only.\<close>

definition bootstrapAdminTokenName :: string where
  "bootstrapAdminTokenName = ''bootstrap-admin''"

definition seedBootstrapAdminToken ::
    "auth_env \<Rightarrow> go_error option \<Rightarrow> go_error option \<Rightarrow> (token_row list \<Rightarrow> go_error) \<Rightarrow> string \<Rightarrow> time \<Rightarrow> string \<Rightarrow> string \<Rightarrow> token_row list
       \<Rightarrow> go_error option \<times> token_row list" where
  "seedBootstrapAdminToken E list_fault fault broken uuid now ctx plain rows =
     (if plain = [] then (None, rows)
      else case ValidateFormat plain of
             Some e \<Rightarrow> (Some e, rows)
           | None \<Rightarrow>
               (case tokens_List list_fault ctx rows of
                  Inl e \<Rightarrow> (None, rows)
                | Inr infos \<Rightarrow>
                    if bootstrapAdminTokenName \<in> set (map ti_name infos) then (None, rows)
                    else (None, snd (tokens_Create fault broken uuid now ctx [] bootstrapAdminTokenName (ae_digest E plain) ScopeAdmin rows))))"

section \<open>Sessions of the administrator\<close>

text \<open>
  The JWT library: its parser asks the caller for the key, given whether the method is Ed25519 and its name, and checks
  signature and expiry at the given time; it signs claims with a private key, whose public half it knows.
\<close>

record jwt_library =
  jl_parse :: "(bool \<Rightarrow> string \<Rightarrow> go_error + string) \<Rightarrow> time \<Rightarrow> string \<Rightarrow> go_error + (string \<times> gval) list"
  jl_sign :: "string \<Rightarrow> (string \<times> gval) list \<Rightarrow> go_error + string"
  jl_public :: "string \<Rightarrow> string"

definition claim_text :: "string \<Rightarrow> (string \<times> gval) list \<Rightarrow> string" where
  "claim_text name claims = (case map_of claims name of Some (GStr s) \<Rightarrow> s | _ \<Rightarrow> [])"

definition NewEdDSAVerifier :: "string \<Rightarrow> go_error + string" where
  "NewEdDSAVerifier key =
     (if length key \<noteq> 32 then Inl (''invalid public key length: '' @ dec_nat (length key) @ '' (want 32)'') else Inr key)"

definition tenant_claim :: "(string \<times> gval) list \<Rightarrow> go_error + string" where
  "tenant_claim claims =
     (case map_of claims ''tenant_id'' of
        None \<Rightarrow> Inr []
      | Some GNil \<Rightarrow> Inr []
      | Some (GStr s) \<Rightarrow> if CHR 0x00 \<in> set s then Inl ''tenant_id claim contains invalid characters'' else Inr s
      | Some v \<Rightarrow> Inl ''tenant_id claim has unexpected type'')"

definition ed_key :: "string \<Rightarrow> bool \<Rightarrow> string \<Rightarrow> go_error + string" where
  "ed_key key is_ed alg = (if is_ed then Inr key else Inl (''unexpected signing method: '' @ alg))"

definition EdDSA_Verify :: "jwt_library \<Rightarrow> string \<Rightarrow> time \<Rightarrow> string \<Rightarrow> go_error + jwt_claims" where
  "EdDSA_Verify J key now token =
     (case jl_parse J (ed_key key) now token of
        Inl e \<Rightarrow> Inl (''verify token: '' @ e)
      | Inr claims \<Rightarrow>
          bind_res (tenant_claim claims)
            (\<lambda>tenant. Inr \<lparr>jc_subject = claim_text ''sub'' claims, jc_tenant = tenant, jc_scopes = ScopeAdmin\<rparr>))"

record session_handler =
  sh_key :: "string option"
  sh_ttl :: duration

definition NewLocalSessionHandler :: "string option \<Rightarrow> duration \<Rightarrow> session_handler" where
  "NewLocalSessionHandler key ttl = \<lparr>sh_key = key, sh_ttl = (if ttl \<le> 0 then 3600 * second else ttl)\<rparr>"

text \<open>The answer: the signed token, the time it ends and its type.\<close>

definition session_claims :: "string \<Rightarrow> string \<Rightarrow> time \<Rightarrow> duration \<Rightarrow> (string \<times> gval) list" where
  "session_claims sub tenant now ttl =
     [(''sub'', GStr sub), (''tenant_id'', GStr tenant), (''iat'', GInt (now div second)), (''exp'', GInt ((now + ttl) div second))]"

definition signed_session ::
    "jwt_library \<Rightarrow> string \<Rightarrow> string \<Rightarrow> string \<Rightarrow> time \<Rightarrow> duration \<Rightarrow> (string \<times> time \<times> string) http_answer" where
  "signed_session J key sub tenant now ttl =
     (case jl_sign J key (session_claims sub tenant now ttl) of
        Inl e \<Rightarrow> Failure 500 ''failed to sign session token''
      | Inr token \<Rightarrow> Answer 200 (token, now + ttl, ''Bearer''))"

definition Issue :: "jwt_library \<Rightarrow> session_handler \<Rightarrow> time \<Rightarrow> (string \<times> time \<times> string) http_answer" where
  "Issue J h now =
     (case sh_key h of
        None \<Rightarrow> Failure 500 ''local session signing key missing''
      | Some key \<Rightarrow> signed_session J key ''local-admin'' [] now (sh_ttl h))"

definition Refresh :: "jwt_library \<Rightarrow> session_handler \<Rightarrow> time \<Rightarrow> served_request \<Rightarrow> (string \<times> time \<times> string) http_answer" where
  "Refresh J h now rq =
     (case sh_key h of
        None \<Rightarrow> Failure 500 ''local session signing key missing''
      | Some key \<Rightarrow>
          if \<not> has_prefix (rq_authorization rq) BearerPrefix then Failure 401 ''missing bearer token''
          else case jl_parse J (\<lambda>is_ed alg. if is_ed then Inr (jl_public J key) else Inl ''signature is invalid'') now
                      (trim_prefix (rq_authorization rq) BearerPrefix) of
                 Inl e \<Rightarrow> Failure 401 ''invalid or expired token''
               | Inr claims \<Rightarrow>
                   signed_session J key (claim_text ''sub'' claims) (claim_text ''tenant_id'' claims) now (sh_ttl h))"

section \<open>Key files\<close>

text \<open>The files of the directory of keys by their name; reading can be denied, and then says why.\<close>

record key_dir =
  kd_files :: "string \<rightharpoonup> string"
  kd_denied :: "string \<Rightarrow> go_error option"

datatype read_error = NotExist | ReadFailed go_error

definition trimTrailingNewlines :: "string \<Rightarrow> string" where
  "trimTrailingNewlines b = rev (dropWhile (\<lambda>c. c \<in> {CHR 0x0A, CHR 0x0D, CHR '' '', CHR 0x09}) (rev b))"

definition readHexFile :: "key_dir \<Rightarrow> string \<Rightarrow> nat \<Rightarrow> read_error + string" where
  "readHexFile d path want =
     (case (kd_denied d path, kd_files d path) of
        (Some e, _) \<Rightarrow> Inl (ReadFailed e)
      | (None, None) \<Rightarrow> Inl NotExist
      | (None, Some raw) \<Rightarrow>
          (case hexDecode (trimTrailingNewlines raw) of
             None \<Rightarrow> Inl (ReadFailed (''decode hex '' @ path))
           | Some b \<Rightarrow> if length b \<noteq> want
                       then Inl (ReadFailed (path @ '': want '' @ dec_nat want @ '' bytes, got '' @ dec_nat (length b))) else Inr b))"

definition writeHexFile :: "string \<Rightarrow> string \<Rightarrow> key_dir \<Rightarrow> key_dir" where
  "writeHexFile path b d = d\<lparr>kd_files := (kd_files d)(path \<mapsto> hexEncode b @ newline)\<rparr>"

record keypair =
  kp_public :: string
  kp_private :: string

definition priv_file :: string where "priv_file = ''jwt_ed25519.priv''"
definition pub_file :: string where "pub_file = ''jwt_ed25519.pub''"

definition read_text :: "read_error \<Rightarrow> go_error" where
  "read_text e = (case e of NotExist \<Rightarrow> ''file does not exist'' | ReadFailed t \<Rightarrow> t)"

definition read_pair :: "string \<Rightarrow> string \<Rightarrow> key_dir \<Rightarrow> go_error + keypair" where
  "read_pair priv_message pub_message d =
     (case readHexFile d priv_file 64 of
        Inl e \<Rightarrow> Inl (priv_message @ read_text e)
      | Inr priv \<Rightarrow>
          (case readHexFile d pub_file 32 of
             Inl e \<Rightarrow> Inl (pub_message @ read_text e)
           | Inr pub \<Rightarrow> Inr \<lparr>kp_public = pub, kp_private = priv\<rparr>))"

text \<open>
  Between the first look and the exclusive creation of the private file another process may change the directory.
  A write that fails is taken to fail before it creates the file.
\<close>

definition LoadOrGenerateKeypair ::
    "string \<Rightarrow> go_error option \<Rightarrow> go_error + keypair \<Rightarrow> (key_dir \<Rightarrow> key_dir) \<Rightarrow> (string \<Rightarrow> go_error option) \<Rightarrow> key_dir
       \<Rightarrow> (go_error + keypair) \<times> key_dir" where
  "LoadOrGenerateKeypair dir mkdir generated rivals write_fault d =
     (if dir = [] then (Inl ''keypair dir is required'', d)
      else case mkdir of
        Some e \<Rightarrow> (Inl (''mkdir '' @ dir @ '': '' @ e), d)
      | None \<Rightarrow>
          if readHexFile d priv_file 64 \<noteq> Inl NotExist then (read_pair ''read private key: '' ''read public key: '' d, d)
          else case generated of
            Inl e \<Rightarrow> (Inl (''generate ed25519 keypair: '' @ e), d)
          | Inr kp \<Rightarrow>
              let d1 = rivals d
              in case (kd_files d1 priv_file, write_fault priv_file) of
                   (Some _, _) \<Rightarrow> (read_pair ''re-read private key after race: '' ''re-read public key after race: '' d1, d1)
                 | (None, Some e) \<Rightarrow> (Inl (''write private key: '' @ e), d1)
                 | (None, None) \<Rightarrow>
                     let d2 = writeHexFile priv_file (kp_private kp) d1
                     in case write_fault pub_file of
                          Some e \<Rightarrow> (Inl (''write public key: '' @ e), d2)
                        | None \<Rightarrow> (Inr kp, writeHexFile pub_file (kp_public kp) d2))"

definition LoadPublicKey :: "key_dir \<Rightarrow> string \<Rightarrow> read_error + string" where
  "LoadPublicKey d path = readHexFile d path 32"

section \<open>Revoked sessions\<close>

type_synonym blacklist = "string \<rightharpoonup> time"

definition black_Revoke :: "string \<Rightarrow> time \<Rightarrow> blacklist \<Rightarrow> blacklist" where
  "black_Revoke hash expires b = b(hash \<mapsto> expires)"

definition IsRevoked :: "time \<Rightarrow> string \<Rightarrow> blacklist \<Rightarrow> bool" where
  "IsRevoked now hash b = (case b hash of None \<Rightarrow> False | Some expires \<Rightarrow> now < expires)"

definition black_cleanup :: "time \<Rightarrow> blacklist \<Rightarrow> blacklist" where
  "black_cleanup now b = (\<lambda>hash. case b hash of None \<Rightarrow> None | Some expires \<Rightarrow> if expires < now then None else Some expires)"

section \<open>Security headers\<close>

type_synonym headers = "string \<rightharpoonup> string"

definition csp_start :: string where
  "csp_start = (let q = (\<lambda>s. [CHR 39] @ s @ [CHR 39])
     in ''default-src '' @ q ''self'' @ ''; script-src '' @ q ''self'' @ ''; style-src '' @ q ''self'' @ '' '' @ q ''unsafe-inline'' @
        '' https://fonts.googleapis.com; font-src '' @ q ''self'' @ '' https://fonts.gstatic.com data:; img-src '' @ q ''self'' @
        '' data: https:; connect-src '' @ q ''self'' @ ''; frame-ancestors '')"

definition no_ancestors :: string where
  "no_ancestors = [CHR 39] @ ''none'' @ [CHR 39]"

definition buildWidgetCSP :: "string list \<Rightarrow> string" where
  "buildWidgetCSP origins = csp_start @ (if origins = [] then no_ancestors else str_join '' '' origins)"

text \<open>\<open>EqualFold\<close> takes the long s, U+017F, for an s, too.\<close>

definition isTLS :: "served_request \<Rightarrow> bool" where
  "isTLS rq \<longleftrightarrow> rq_tls rq \<or> lower_ascii (replace_all [CHR 0xC5, CHR 0xBF] ''s'' (rq_forwarded_proto rq)) = ''https''"

definition setCommonSecurityHeaders :: "served_request \<Rightarrow> headers \<Rightarrow> headers" where
  "setCommonSecurityHeaders rq h =
     (let h' = h(''X-Content-Type-Options'' \<mapsto> ''nosniff'', ''Referrer-Policy'' \<mapsto> ''strict-origin-when-cross-origin'')
      in if isTLS rq then h'(''Strict-Transport-Security'' \<mapsto> ''max-age=31536000; includeSubDomains'') else h')"

definition header_text :: "string \<Rightarrow> headers \<Rightarrow> string" where
  "header_text name h = (case h name of None \<Rightarrow> [] | Some v \<Rightarrow> v)"

definition SecurityHeadersMiddleware :: "served_request \<Rightarrow> headers \<Rightarrow> headers" where
  "SecurityHeadersMiddleware rq h =
     (let h' = setCommonSecurityHeaders rq h;
          h'' = (if header_text ''Content-Security-Policy'' h' = [] then h'(''Content-Security-Policy'' \<mapsto> csp_start @ no_ancestors) else h')
      in h''(''X-Frame-Options'' \<mapsto> ''DENY''))"

text \<open>The origins of a tenant are a setting: an array of texts, or the text of such an array.\<close>

definition GetWidgetEmbedOrigins ::
    "(string \<Rightarrow> string list option) \<Rightarrow> (string \<Rightarrow> string option) \<Rightarrow> (string \<Rightarrow> go_error + string option) \<Rightarrow> string \<Rightarrow> string list" where
  "GetWidgetEmbedOrigins parse_texts parse_text setting tenant =
     (case setting tenant of
        Inl e \<Rightarrow> []
      | Inr None \<Rightarrow> []
      | Inr (Some raw) \<Rightarrow>
          (case parse_texts raw of
             Some origins \<Rightarrow> origins
           | None \<Rightarrow>
               (case parse_text raw of
                  None \<Rightarrow> []
                | Some inner \<Rightarrow> (case parse_texts inner of None \<Rightarrow> [] | Some origins \<Rightarrow> origins))))"

definition WidgetSecurityHeadersMiddleware :: "(string \<Rightarrow> string list) option \<Rightarrow> served_request \<Rightarrow> request_ctx \<Rightarrow> headers \<Rightarrow> headers" where
  "WidgetSecurityHeadersMiddleware lookup rq cx h =
     (let origins = (case lookup of None \<Rightarrow> [] | Some origins_of \<Rightarrow> if cx_tenant cx = [] then [] else origins_of (cx_tenant cx))
      in (map_delete ''X-Frame-Options'' (setCommonSecurityHeaders rq h))(''Content-Security-Policy'' \<mapsto> buildWidgetCSP origins))"

section \<open>Masks and texts\<close>

lemma scope_fold:
  "fold (\<lambda>s scopes_mask. case map_of ScopeNameToMask s of None \<Rightarrow> scopes_mask | Some b \<Rightarrow> scopes_mask OR b) scopes m = m OR ScopesToMask scopes"
proof (induction scopes arbitrary: m)
  case Nil
  then show ?case by (simp add: ScopesToMask_def)
next
  case (Cons s scopes)
  let ?f = "\<lambda>s scopes_mask. case map_of ScopeNameToMask s of None \<Rightarrow> scopes_mask | Some b \<Rightarrow> scopes_mask OR b"
  have "ScopesToMask (s # scopes) = fold ?f scopes (?f s 0)" by (simp add: ScopesToMask_def)
  also have "\<dots> = ?f s 0 OR ScopesToMask scopes" by (rule Cons.IH)
  finally have step: "ScopesToMask (s # scopes) = ?f s 0 OR ScopesToMask scopes" .
  have "fold ?f (s # scopes) m = ?f s m OR ScopesToMask scopes" using Cons.IH [of "?f s m"] by simp
  also have "\<dots> = m OR (?f s 0 OR ScopesToMask scopes)" by (cases "map_of ScopeNameToMask s") (simp_all add: or.assoc)
  finally show ?case by (simp only: step)
qed

lemma ScopesToMask_Cons:
  "ScopesToMask (s # scopes) = (case map_of ScopeNameToMask s of None \<Rightarrow> 0 | Some b \<Rightarrow> b) OR ScopesToMask scopes"
  by (subst ScopesToMask_def) (simp add: scope_fold split: option.split)

lemma ScopesToMask_Nil [simp]: "ScopesToMask [] = 0"
  by (simp add: ScopesToMask_def)

text \<open>A list of names has a bit exactly when one of the names that are known has it.\<close>

lemma mask_of_names:
  "ScopesToMask scopes AND z \<noteq> 0 \<longleftrightarrow> (\<exists>s\<in>set scopes. \<exists>m. map_of ScopeNameToMask s = Some m \<and> m AND z \<noteq> 0)"
proof (induction scopes)
  case (Cons s scopes)
  have "(a OR b) AND z \<noteq> 0 \<longleftrightarrow> a AND z \<noteq> 0 \<or> b AND z \<noteq> 0" for a b :: "64 word"
    by (simp add: bit.conj_disj_distrib2 or_eq_0_iff)
  then show ?case by (cases "map_of ScopeNameToMask s") (simp_all add: ScopesToMask_Cons Cons.IH)
qed simp

text \<open>The name of the administrator's scope is the only one that gives it.\<close>

lemma admin_by_name: "ScopesToMask scopes AND ScopeAdmin \<noteq> 0 \<longleftrightarrow> ''admin'' \<in> set scopes"
proof -
  have "map_of ScopeNameToMask s = Some m \<Longrightarrow> m AND ScopeAdmin \<noteq> 0 \<Longrightarrow> s = ''admin''" for s m
    by (auto simp: ScopeNameToMask_def ScopeAPIMask_def scope_bits split: if_splits)
  moreover have "map_of ScopeNameToMask ''admin'' = Some ScopeAdmin" "ScopeAdmin AND ScopeAdmin \<noteq> 0"
    by (simp_all add: ScopeNameToMask_def scope_bits)
  ultimately show ?thesis unfolding mask_of_names by blast
qed

lemma hex_value_digit [simp]: "n < 16 \<Longrightarrow> hex_value (hex_digit n) = Some n"
  by (auto simp: hex_value_def hex_digit_def Let_def)

lemma char_high [simp]: "of_char c div 16 < (16::nat)"
  by (rule less_mult_imp_div_less) simp

lemma hex_round_trip [simp]: "hexDecode (hexEncode b) = Some b"
proof (induction b)
  case (Cons c b)
  then show ?case by (simp add: hexEncode_def)
qed (simp add: hexEncode_def)

lemma length_hexEncode [simp]: "length (hexEncode b) = 2 * length b"
  by (induction b) (simp_all add: hexEncode_def)

lemma hexEncode_digits: "c \<in> set (hexEncode b) \<Longrightarrow> c \<notin> {CHR 0x0A, CHR 0x0D, CHR '' '', CHR 0x09}"
proof -
  have "hex_digit n \<notin> {CHR 0x0A, CHR 0x0D, CHR '' '', CHR 0x09}" if "n < 16" for n
  proof -
    have "hex_value (hex_digit n) \<noteq> None" using that by simp
    moreover have "hex_value CHR 0x0A = None" "hex_value CHR 0x0D = None" "hex_value CHR '' '' = None" "hex_value CHR 0x09 = None"
      by code_simp+
    ultimately show ?thesis by auto
  qed
  then show "c \<in> set (hexEncode b) \<Longrightarrow> c \<notin> {CHR 0x0A, CHR 0x0D, CHR '' '', CHR 0x09}"
    by (auto simp: hexEncode_def)
qed

text \<open>Tokens that the server makes have the form it asks for, and so do tokens with capital digits.\<close>

lemma generated_is_valid: "Generate (Inr b) = Inr plain \<Longrightarrow> length b = 32 \<Longrightarrow> ValidateFormat plain = None"
  by (auto simp: Generate_def ValidateFormat_def TokenPrefix_def HexLen_def has_prefix_def)

lemma generated_prefix: "Generate random = Inr plain \<Longrightarrow> has_prefix plain TokenPrefix"
  unfolding Generate_def by (cases random) (simp_all, metis has_prefix_append)

lemma capital_digits: "hexDecode (replicate (2 * n) CHR ''A'') = Some (replicate n CHR 0xAA)"
proof (induction n)
  case (Suc n)
  have "hex_value CHR ''A'' = Some 10" by (simp add: hex_value_def)
  moreover have "char_of (170 :: nat) = CHR 0xAA" by code_simp
  ultimately show ?case using Suc by simp
qed simp

lemma capital_digits_are_valid: "ValidateFormat (TokenPrefix @ replicate HexLen CHR ''A'') = None"
  using capital_digits [of 32] by (simp add: ValidateFormat_def has_prefix_def TokenPrefix_def HexLen_def)

section \<open>The life of a token\<close>

datatype token_op =
    TokenCreate "go_error option" "token_row list \<Rightarrow> go_error" string time string string string string "64 word"
  | TokenVerify "go_error option" bool time string
  | TokenDelete "go_error option" time string string

fun token_exec :: "token_op \<Rightarrow> token_row list \<Rightarrow> token_row list" where
  "token_exec (TokenCreate fault broken uuid now ctx sub name hash m) rows = snd (tokens_Create fault broken uuid now ctx sub name hash m rows)"
| "token_exec (TokenVerify fault stamp_fails now hash) rows = snd (tokens_Verify fault stamp_fails now hash rows)"
| "token_exec (TokenDelete fault now ctx i) rows = snd (tokens_Delete fault now ctx i rows)"

text \<open>An operation either appends a row with the keys new, or changes rows in their stamps only.\<close>

lemma token_exec_cases:
  "token_exec op rows = rows
   \<or> (\<exists>r. token_exec op rows = rows @ [r] \<and> tokens_hold (rows @ [r]))
   \<or> (\<exists>P now. token_exec op rows = change_rows P (\<lambda>r. r\<lparr>tk_last_used := Some now\<rparr>) rows)
   \<or> (\<exists>fault now ctx i. op = TokenDelete fault now ctx i
        \<and> token_exec op rows = change_rows (\<lambda>r. token_scope ctx r \<and> tk_id r = i \<and> live r) (\<lambda>r. r\<lparr>tk_revoked := Some now\<rparr>) rows)"
proof (cases op)
  case (TokenCreate fault broken uuid now ctx sub name hash m)
  then show ?thesis by (simp add: tokens_Create_def Let_def split: option.split)
next
  case (TokenVerify fault stamp_fails now hash)
  then show ?thesis by (auto simp: tokens_Verify_def split: option.split)
next
  case (TokenDelete fault now ctx i)
  then show ?thesis by (auto simp: tokens_Delete_def Let_def split: option.split)
qed

lemma change_rows_map: "(\<And>r. g (f r) = g r) \<Longrightarrow> map g (change_rows P f rows) = map g rows"
  by (simp add: change_rows_def)

lemma tokens_hold_change:
  assumes "\<And>r. tk_id (f r) = tk_id r" "\<And>r. tk_hash (f r) = tk_hash r" "\<And>r. tk_mask (f r) = tk_mask r"
  shows "tokens_hold (change_rows P f rows) = tokens_hold rows"
proof -
  have "list_all Q (change_rows P f rows) = list_all Q rows" if "\<And>r. Q (f r) = Q r" for Q
    by (induction rows) (simp_all add: change_rows_def that)
  then show ?thesis using assms by (simp add: tokens_hold_def change_rows_map)
qed

text \<open>A row with the same keys, name, mask and tenant; the token is live or it is not.\<close>

definition row_like :: "token_row \<Rightarrow> bool \<Rightarrow> token_row list \<Rightarrow> bool" where
  "row_like r alive rows \<longleftrightarrow>
     (\<exists>r'\<in>set rows. tk_id r' = tk_id r \<and> tk_hash r' = tk_hash r \<and> tk_name r' = tk_name r \<and> tk_mask r' = tk_mask r
        \<and> tk_tenant r' = tk_tenant r \<and> live r' = alive)"

definition revokes :: "token_row \<Rightarrow> token_op \<Rightarrow> bool" where
  "revokes r op = (case op of TokenDelete fault now ctx i \<Rightarrow> token_scope ctx r \<and> tk_id r = i | _ \<Rightarrow> False)"

lemma row_like_append: "row_like r alive rows \<Longrightarrow> row_like r alive (rows @ [r'])"
  by (auto simp: row_like_def)

lemma row_like_change:
  assumes "row_like r alive rows"
    and "\<And>x. tk_id (f x) = tk_id x" "\<And>x. tk_hash (f x) = tk_hash x" "\<And>x. tk_name (f x) = tk_name x"
        "\<And>x. tk_mask (f x) = tk_mask x" "\<And>x. tk_tenant (f x) = tk_tenant x"
    and "\<And>x. P x \<Longrightarrow> tk_id x = tk_id r \<Longrightarrow> tk_tenant x = tk_tenant r \<Longrightarrow> live x = alive \<Longrightarrow> live (f x) = alive"
  shows "row_like r alive (change_rows P f rows)"
proof -
  obtain x where "x \<in> set rows" and x: "tk_id x = tk_id r" "tk_hash x = tk_hash r" "tk_name x = tk_name r" "tk_mask x = tk_mask r"
      "tk_tenant x = tk_tenant r" "live x = alive"
    using assms(1) by (auto simp: row_like_def)
  then have "(if P x then f x else x) \<in> set (change_rows P f rows)" by (auto simp: change_rows_def)
  then show ?thesis unfolding row_like_def using x assms(2-7) by (intro bexI) auto
qed

interpretation keys_law: kept_law token_exec tokens_hold "\<lambda>op. True"
proof
  fix op :: token_op and rows :: "token_row list"
  assume "tokens_hold rows"
  then show "tokens_hold (token_exec op rows)"
    using token_exec_cases [of op rows] by (auto simp: tokens_hold_change)
qed

interpretation live_law: kept_law token_exec "row_like r True" "\<lambda>op. \<not> revokes r op" for r
proof
  fix op :: token_op and rows :: "token_row list"
  assume allowed: "\<not> revokes r op" and held: "row_like r True rows"
  consider (same) "token_exec op rows = rows" | (grown) r' where "token_exec op rows = rows @ [r']"
    | (stamped) P now where "token_exec op rows = change_rows P (\<lambda>x. x\<lparr>tk_last_used := Some now\<rparr>) rows"
    | (revoked) fault now ctx i where "op = TokenDelete fault now ctx i"
        "token_exec op rows = change_rows (\<lambda>x. token_scope ctx x \<and> tk_id x = i \<and> live x) (\<lambda>x. x\<lparr>tk_revoked := Some now\<rparr>) rows"
    using token_exec_cases [of op rows] by blast
  then show "row_like r True (token_exec op rows)"
  proof cases
    case revoked
    then show ?thesis using held allowed by (simp add: revokes_def) (rule row_like_change; simp add: token_scope_def)
  qed (use held in \<open>auto intro!: row_like_append row_like_change simp: live_def\<close>)
qed

interpretation dead_law: kept_law token_exec "row_like r False" "\<lambda>op. True" for r
proof
  fix op :: token_op and rows :: "token_row list"
  assume held: "row_like r False rows"
  then show "row_like r False (token_exec op rows)"
    using token_exec_cases [of op rows] by (auto intro!: row_like_append row_like_change simp: live_def)
qed

lemma row_like_stamp: "row_like r alive rows \<Longrightarrow> row_like r alive (change_rows P (\<lambda>x. x\<lparr>tk_last_used := Some now\<rparr>) rows)"
  by (rule row_like_change) (simp_all add: live_def)

lemma row_like_revoke:
  assumes "row_like r True rows"
  shows "row_like r True (change_rows P (\<lambda>x. x\<lparr>tk_revoked := Some now\<rparr>) rows)
    \<or> row_like r False (change_rows P (\<lambda>x. x\<lparr>tk_revoked := Some now\<rparr>) rows)"
proof -
  obtain x where "x \<in> set rows" and x: "tk_id x = tk_id r" "tk_hash x = tk_hash r" "tk_name x = tk_name r" "tk_mask x = tk_mask r"
      "tk_tenant x = tk_tenant r" using assms by (auto simp: row_like_def)
  let ?x = "if P x then x\<lparr>tk_revoked := Some now\<rparr> else x"
  have "?x \<in> set (change_rows P (\<lambda>x. x\<lparr>tk_revoked := Some now\<rparr>) rows)" using \<open>x \<in> set rows\<close> by (auto simp: change_rows_def)
  moreover have "live ?x \<or> \<not> live ?x" by simp
  ultimately show ?thesis unfolding row_like_def using x by (metis (no_types, lifting) token_row.surjective token_row.update_convs(9) token_row.select_convs)
qed

interpretation same_law: kept_law token_exec "\<lambda>rows. row_like r True rows \<or> row_like r False rows" "\<lambda>op. True" for r
proof
  fix op :: token_op and rows :: "token_row list"
  assume "row_like r True rows \<or> row_like r False rows"
  then show "row_like r True (token_exec op rows) \<or> row_like r False (token_exec op rows)"
  proof
    assume held: "row_like r True rows"
    show ?thesis
      using token_exec_cases [of op rows] held row_like_append [OF held] row_like_stamp [OF held] row_like_revoke [OF held]
      by (elim disjE exE conjE) simp_all
  qed (use dead_law.step_kept in blast)
qed

lemma same_row_kept: "r \<in> set rows \<Longrightarrow> \<exists>alive. row_like r alive (fold token_exec ops rows)"
  using same_law.run_kept [of ops r rows] by (auto simp: list_all_iff row_like_def)

lemma verify_row:
  assumes "tokens_hold rows" and "row_like r True rows"
  shows "fst (tokens_Verify None stamp_fails now (tk_hash r) rows) = Inr \<lparr>vt_name = tk_name r, vt_mask = tk_mask r, vt_tenant = tk_tenant r\<rparr>"
proof -
  obtain x where x: "x \<in> set rows" "tk_hash x = tk_hash r" "tk_name x = tk_name r" "tk_mask x = tk_mask r" "tk_tenant x = tk_tenant r" "live x"
    using assms(2) by (auto simp: row_like_def)
  have "filter (\<lambda>y. tk_hash y = tk_hash x) rows = [x]"
    using assms(1) x(1) by (intro filter_one_id) (simp_all add: tokens_hold_def)
  then have "filter live (filter (\<lambda>y. tk_hash y = tk_hash x) rows) = [x]" using x(6) by simp
  then have "filter (\<lambda>y. tk_hash y = tk_hash r \<and> live y) rows = [x]" by (simp add: x(2) conj_commute)
  then show ?thesis by (simp add: tokens_Verify_def first_row_only x)
qed

lemma verify_dead:
  assumes "tokens_hold rows" and "row_like r False rows"
  shows "tokens_Verify fault stamp_fails now (tk_hash r) rows = (Inl ''token not found'', rows)"
proof -
  obtain x where x: "x \<in> set rows" "tk_hash x = tk_hash r" "\<not> live x" using assms(2) by (auto simp: row_like_def)
  have "filter (\<lambda>y. tk_hash y = tk_hash x) rows = [x]"
    using assms(1) x(1) by (intro filter_one_id) (simp_all add: tokens_hold_def)
  then have "filter live (filter (\<lambda>y. tk_hash y = tk_hash x) rows) = []" using x(3) by simp
  then have "filter (\<lambda>y. tk_hash y = tk_hash r \<and> live y) rows = []" by (simp add: x(2) conj_commute)
  then show ?thesis by (simp add: tokens_Verify_def first_row_def split: option.split)
qed

definition bearer_request :: "string \<Rightarrow> served_request" where
  "bearer_request token =
     \<lparr>rq_method = ''GET'', rq_path = [], rq_authorization = BearerPrefix @ token, rq_tenant_header = [], rq_tls = True, rq_forwarded_proto = []\<rparr>"

lemma Authenticate_api:
  assumes "rq_authorization rq = BearerPrefix @ token" and "has_prefix token TokenPrefix"
  shows "Authenticate E fault stamp_fails now rq cx rows = authenticateAPIToken E fault stamp_fails now token cx rows"
proof -
  have "BearerPrefix \<noteq> []" by (simp add: BearerPrefix_def)
  then show ?thesis using assms by (simp add: Authenticate_def Let_def)
qed

lemma CreateToken_Inr:
  assumes "CreateToken E random fault broken uuid now cx body rows = (Answer n resp, rows')"
  obtains req where "body = Inr req" "ctr_name resp = ct_name req" "ctr_mask resp = ct_mask req OR ScopesToMask (ct_scopes req)"
    "ctr_mask resp \<noteq> 0" "Generate random = Inr (ctr_token resp)" "ctr_id resp = uuid" "n = 201"
    "tokens_hold rows'"
    "rows' = rows @ [\<lparr>tk_id = uuid, tk_user_sub = cx_user_sub cx, tk_name = ct_name req, tk_hash = ae_digest E (ctr_token resp),
       tk_mask = ctr_mask resp, tk_tenant = tenantIDFromCtx (cx_tenant cx), tk_created = now, tk_last_used = None, tk_revoked = None\<rparr>]"
  using assms by (auto simp: CreateToken_def tokens_Create_def Let_def split: sum.splits if_splits option.splits prod.splits)

lemma tenant_nonempty [simp]: "tenantIDFromCtx ctx \<noteq> []"
  by (simp add: tenantIDFromCtx_def CETenantID_def)

text \<open>C32: A token that was created is admitted, with its name, its scopes and the tenant of its creator, after any
  operations on the table but its own revocation in its tenant; its scopes are never empty.\<close>

theorem token_admits_until_revoked:
  assumes created: "CreateToken E (Inr random) fault broken uuid now cx body rows = (Answer n resp, rows')"
    and kept: "\<And>f t ctx. TokenDelete f t ctx uuid \<in> set ops \<Longrightarrow> tenantIDFromCtx ctx \<noteq> tenantIDFromCtx (cx_tenant cx)"
    and "rq_authorization rq = ''Bearer '' @ ctr_token resp" and "ae_uuid E (tenantIDFromCtx (cx_tenant cx))"
  shows "ctr_mask resp \<noteq> 0
    \<and> fst (Authenticate E None stamp_fails later rq cx0 (fold token_exec ops rows'))
      = PassTo (cx0\<lparr>cx_actor_type := ''api_token'', cx_actor_id := ctr_name resp, cx_scopes := ctr_mask resp,
                   cx_tenant := tenantIDFromCtx (cx_tenant cx)\<rparr>)"
proof -
  obtain req :: create_token_request where m: "ctr_mask resp \<noteq> 0" "ctr_name resp = ct_name req" and gen: "Generate (Inr random) = Inr (ctr_token resp)"
    and keys: "tokens_hold rows'"
    and new: "rows' = rows @ [\<lparr>tk_id = uuid, tk_user_sub = cx_user_sub cx, tk_name = ct_name req, tk_hash = ae_digest E (ctr_token resp),
       tk_mask = ctr_mask resp, tk_tenant = tenantIDFromCtx (cx_tenant cx), tk_created = now, tk_last_used = None, tk_revoked = None\<rparr>]"
    (is "_ = _ @ [?r]")
    using created by (rule CreateToken_Inr) (rule that; assumption)
  have "\<not> revokes ?r op" if "op \<in> set ops" for op
  proof (cases op)
    case (TokenDelete f t ctx i)
    then show ?thesis using that kept [of f t ctx] by (auto simp: revokes_def token_scope_def)
  qed (simp_all add: revokes_def)
  then have "row_like ?r True (fold token_exec ops rows')"
    by (intro live_law.run_kept) (auto simp: list_all_iff row_like_def live_def new)
  moreover have "tokens_hold (fold token_exec ops rows')" using keys by (intro keys_law.run_kept) (simp_all add: list_all_iff)
  ultimately have "fst (tokens_Verify None stamp_fails later (ae_digest E (ctr_token resp)) (fold token_exec ops rows'))
      = Inr \<lparr>vt_name = ct_name req, vt_mask = ctr_mask resp, vt_tenant = tenantIDFromCtx (cx_tenant cx)\<rparr>"
    using verify_row [of "fold token_exec ops rows'" ?r] by simp
  moreover have "has_prefix (ctr_token resp) TokenPrefix" using generated_prefix [OF gen] .
  ultimately show ?thesis using assms(3,4) m
    by (auto simp: Authenticate_api BearerPrefix_def authenticateAPIToken_def with_tenant_claim_def split: prod.split)
qed

text \<open>C33: Once the revocation of a token has been answered with success, the token is refused for ever: after any
  further operations, creations included, and even when the same digest is asked for again.\<close>

theorem revoked_token_never_passes:
  assumes created: "CreateToken E (Inr random) fault broken uuid now cx body rows = (Answer n resp, rows1)"
    and revoked: "DeleteToken E fault2 t cx' uuid (fold token_exec ops1 rows1) = (Answer m u, rows2)"
    and "rq_authorization rq = ''Bearer '' @ ctr_token resp"
  shows "fst (Authenticate E fault3 stamp_fails later rq cx0 (fold token_exec ops2 rows2))
    = writeUnauthorized ''invalid_token'' ''invalid api token''"
proof -
  obtain req :: create_token_request where gen: "Generate (Inr random) = Inr (ctr_token resp)" and keys: "tokens_hold rows1"
    and new: "rows1 = rows @ [\<lparr>tk_id = uuid, tk_user_sub = cx_user_sub cx, tk_name = ct_name req, tk_hash = ae_digest E (ctr_token resp),
       tk_mask = ctr_mask resp, tk_tenant = tenantIDFromCtx (cx_tenant cx), tk_created = now, tk_last_used = None, tk_revoked = None\<rparr>]"
    (is "_ = _ @ [?r]")
    using created by (rule CreateToken_Inr) (rule that; assumption)
  let ?mid = "fold token_exec ops1 rows1"
  have keys1: "tokens_hold ?mid" using keys by (intro keys_law.run_kept) (simp_all add: list_all_iff)
  have rows2: "rows2 = change_rows (\<lambda>r. token_scope (cx_tenant cx') r \<and> tk_id r = uuid \<and> live r) (\<lambda>r. r\<lparr>tk_revoked := Some t\<rparr>) ?mid"
    and found: "\<exists>x\<in>set ?mid. token_scope (cx_tenant cx') x \<and> tk_id x = uuid \<and> live x"
    using revoked by (auto simp: DeleteToken_def tokens_Delete_def Let_def filter_empty_conv split: if_splits option.splits prod.splits)
  obtain y where y: "y \<in> set ?mid" "token_scope (cx_tenant cx') y" "tk_id y = uuid" "live y" using found by blast
  obtain alive where "row_like ?r alive ?mid"
    using same_row_kept [of ?r rows1 ops1] by (auto simp: new)
  then obtain x where x: "x \<in> set ?mid" "tk_id x = uuid" "tk_hash x = tk_hash ?r" "tk_name x = tk_name ?r" "tk_mask x = tk_mask ?r"
      "tk_tenant x = tk_tenant ?r" by (auto simp: row_like_def)
  have "x = y" using keys1 x(1,2) y(1,3) by (auto simp: tokens_hold_def distinct_map inj_on_def)
  then have "x\<lparr>tk_revoked := Some t\<rparr> \<in> set rows2" using x(1) y by (auto simp: rows2 change_rows_def)
  then have "row_like ?r False rows2" unfolding row_like_def using x by (intro bexI) (auto simp: live_def)
  then have dead: "row_like ?r False (fold token_exec ops2 rows2)" by (intro dead_law.run_kept) (simp_all add: list_all_iff)
  have "tokens_hold rows2" using keys1 by (simp add: rows2 tokens_hold_change)
  then have "tokens_hold (fold token_exec ops2 rows2)" by (intro keys_law.run_kept) (simp_all add: list_all_iff)
  from verify_dead [OF this dead] have "tokens_Verify fault3 stamp_fails later (ae_digest E (ctr_token resp)) (fold token_exec ops2 rows2)
      = (Inl ''token not found'', fold token_exec ops2 rows2)" by simp
  moreover have "has_prefix (ctr_token resp) TokenPrefix" using generated_prefix [OF gen] .
  ultimately show ?thesis using assms(3) by (simp add: Authenticate_api BearerPrefix_def authenticateAPIToken_def)
qed

definition sample_auth_env :: auth_env where
  "sample_auth_env = \<lparr>ae_digest = (\<lambda>s. s), ae_uuid = (\<lambda>s. True), ae_jwt = None\<rparr>"

definition sample_bytes :: string where
  "sample_bytes = ''01234567890123456789012345678901''"

definition sample_token_request :: create_token_request where
  "sample_token_request = \<lparr>ct_name = ''ci'', ct_mask = 0, ct_scopes = [''api'']\<rparr>"

definition sample_token_row :: token_row where
  "sample_token_row = \<lparr>tk_id = ''t1'', tk_user_sub = [], tk_name = ''ci'', tk_hash = TokenPrefix @ hexEncode sample_bytes, tk_mask = ScopeAPIMask,
     tk_tenant = CETenantID, tk_created = 5, tk_last_used = None, tk_revoked = None\<rparr>"

definition sample_token_response :: create_token_response where
  "sample_token_response = \<lparr>ctr_id = ''t1'', ctr_name = ''ci'', ctr_token = TokenPrefix @ hexEncode sample_bytes, ctr_mask = ScopeAPIMask\<rparr>"

lemma api_mask: "ScopesToMask [''api''] = ScopeAPIMask" "ScopeAPIMask = 5447"
  by (simp_all add: ScopesToMask_def ScopeNameToMask_def ScopeAPIMask_def scope_bits)

lemma token_created_sample:
  "CreateToken sample_auth_env (Inr sample_bytes) None (\<lambda>r. []) ''t1'' 5 fresh_ctx (Inr sample_token_request) [] = (Answer 201 sample_token_response, [sample_token_row])"
  by (simp add: CreateToken_def sample_token_request_def api_mask tokens_Create_def Generate_def tokens_hold_def sample_auth_env_def fresh_ctx_def
      sample_token_response_def sample_token_row_def tenantIDFromCtx_def)

definition sample_ops :: "token_op list" where
  "sample_ops = [TokenVerify None False 7 (tk_hash sample_token_row), TokenDelete None 8 ''other'' ''t1'']"

lemma sample_ops_revoke_others:
  "TokenDelete f t ctx ''t1'' \<in> set sample_ops \<Longrightarrow> tenantIDFromCtx ctx \<noteq> tenantIDFromCtx (cx_tenant fresh_ctx)"
  by (simp add: sample_ops_def tenantIDFromCtx_def fresh_ctx_def CETenantID_def)

lemma sample_parts:
  "ctr_name sample_token_response = ''ci''" "ctr_mask sample_token_response = ScopeAPIMask" "tenantIDFromCtx (cx_tenant fresh_ctx) = CETenantID"
  by (simp_all add: sample_token_response_def fresh_ctx_def tenantIDFromCtx_def)

theorem token_admits_until_revoked_witness:
  "fst (Authenticate sample_auth_env None False 9 (bearer_request (ctr_token sample_token_response)) fresh_ctx
     (fold token_exec sample_ops [sample_token_row]))
   = PassTo (fresh_ctx\<lparr>cx_actor_type := ''api_token'', cx_actor_id := ''ci'', cx_scopes := ScopeAPIMask, cx_tenant := CETenantID\<rparr>)"
proof -
  have "rq_authorization (bearer_request (ctr_token sample_token_response)) = ''Bearer '' @ ctr_token sample_token_response"
    by (simp add: bearer_request_def BearerPrefix_def)
  moreover have "ae_uuid sample_auth_env (tenantIDFromCtx (cx_tenant fresh_ctx))" by (simp add: sample_auth_env_def)
  ultimately show ?thesis
    by (subst token_admits_until_revoked [OF token_created_sample sample_ops_revoke_others, THEN conjunct2])
      (simp_all add: sample_parts)
qed

lemma token_revoked_sample:
  "DeleteToken sample_auth_env None 8 fresh_ctx ''t1'' (fold token_exec [] [sample_token_row]) = (Answer 204 (), [sample_token_row\<lparr>tk_revoked := Some 8\<rparr>])"
  by (simp add: DeleteToken_def sample_auth_env_def tokens_Delete_def fresh_ctx_def token_scope_def sample_token_row_def live_def change_rows_def
      tenantIDFromCtx_def)

theorem revoked_token_never_passes_witness:
  "fst (Authenticate sample_auth_env None False 9 (bearer_request (ctr_token sample_token_response)) fresh_ctx
     (fold token_exec [TokenCreate None (\<lambda>r. []) ''t2'' 8 [] [] ''ci'' (tk_hash sample_token_row) 1] [sample_token_row\<lparr>tk_revoked := Some 8\<rparr>]))
   = writeUnauthorized ''invalid_token'' ''invalid api token''"
  by (rule revoked_token_never_passes [OF token_created_sample token_revoked_sample]) (simp add: bearer_request_def BearerPrefix_def)

text \<open>Only the name \<open>admin\<close> gives the administrator's scope by name, but the mask of a request is stored as it is.\<close>

lemma raw_mask_is_stored:
  assumes "CreateToken E (Inr random) fault broken uuid now cx (Inr req) rows = (Answer n resp, rows')"
  shows "ctr_mask resp AND ScopeAdmin \<noteq> 0 \<longleftrightarrow> ct_mask req AND ScopeAdmin \<noteq> 0 \<or> ''admin'' \<in> set (ct_scopes req)"
proof -
  have "ctr_mask resp = ct_mask req OR ScopesToMask (ct_scopes req)" using assms by (rule CreateToken_Inr) simp
  moreover have "(a OR b) AND ScopeAdmin \<noteq> 0 \<longleftrightarrow> a AND ScopeAdmin \<noteq> 0 \<or> b AND ScopeAdmin \<noteq> 0" for a b :: "64 word"
    by (simp add: bit.conj_disj_distrib2 or_eq_0_iff)
  ultimately show ?thesis by (simp only: admin_by_name)
qed

text \<open>A planted token that was revoked does not come back with the next start, and the start says nothing.\<close>

lemma revoked_bootstrap_stays_revoked:
  assumes "tokens_hold rows" and "r \<in> set rows" and "tk_hash r = ae_digest E plain" and "\<not> live r" and "ValidateFormat plain = None"
    and "broken = (\<lambda>rows. ''duplicate key value'')"
  shows "seedBootstrapAdminToken E list_fault None broken uuid now ctx plain rows = (None, rows)"
proof -
  have "\<not> tokens_hold (rows @ [x])" if "tk_hash x = tk_hash r" for x
    using that assms(2) by (auto simp: tokens_hold_def)
  then show ?thesis using assms(3,5)
    by (simp add: seedBootstrapAdminToken_def tokens_Create_def Let_def split: sum.split option.split)
qed

section \<open>Sessions, keys and headers\<close>

text \<open>A session that was issued is that of an administrator without a tenant until it expires, and a refreshed session
  keeps its subject; the library is asked to return what it signed, for the key that belongs to it, before the expiry.\<close>

lemma local_session_admits:
  assumes "Issue J h now = Answer 200 (token, ends, kind)" and "sh_key h = Some key" and "jl_public J key = public"
    and "\<And>claims keyfun t. jl_sign J key claims = Inr token \<Longrightarrow> keyfun True ''EdDSA'' = Inr public \<Longrightarrow> t < ends \<Longrightarrow>
           jl_parse J keyfun t token = Inr claims"
    and "t < ends"
  shows "EdDSA_Verify J public t token = Inr \<lparr>jc_subject = ''local-admin'', jc_tenant = [], jc_scopes = ScopeAdmin\<rparr>"
    and "ends = now + sh_ttl h"
    and "Refresh J h t (bearer_request token) = signed_session J key ''local-admin'' [] t (sh_ttl h)"
proof -
  let ?claims = "session_claims ''local-admin'' [] now (sh_ttl h)"
  have signed: "jl_sign J key ?claims = Inr token" and "ends = now + sh_ttl h"
    using assms(1,2) by (auto simp: Issue_def signed_session_def split: sum.splits)
  then show "ends = now + sh_ttl h" by simp
  have "jl_parse J (ed_key public) t token = Inr ?claims"
    using assms(4) [OF signed, of "ed_key public"] assms(5) by (simp add: ed_key_def)
  then show "EdDSA_Verify J public t token = Inr \<lparr>jc_subject = ''local-admin'', jc_tenant = [], jc_scopes = ScopeAdmin\<rparr>"
    by (simp add: EdDSA_Verify_def tenant_claim_def claim_text_def session_claims_def)
  have "jl_parse J (\<lambda>is_ed alg. if is_ed then Inr (jl_public J key) else Inl ''signature is invalid'') t token = Inr ?claims"
    using assms(4) [OF signed] assms(3,5) by simp
  then show "Refresh J h t (bearer_request token) = signed_session J key ''local-admin'' [] t (sh_ttl h)"
    using assms(2) by (simp add: Refresh_def bearer_request_def claim_text_def session_claims_def)
qed

text \<open>A credential without a tenant works for the tenant its request names in a header; one with a tenant does not.\<close>

lemma header_names_the_tenant:
  assumes "cx_tenant cx = []" and "rq_tenant_header rq \<noteq> []"
  shows "TenantHandler required rq cx = PassTo (cx\<lparr>cx_tenant := rq_tenant_header rq\<rparr>)"
  using assms by (simp add: TenantHandler_def ExtractTenantID_def)

lemma credential_names_the_tenant: "cx_tenant cx \<noteq> [] \<Longrightarrow> TenantHandler required rq cx = PassTo cx"
  by (simp add: TenantHandler_def ExtractTenantID_def)

lemma read_written [simp]:
  assumes "kd_denied d path = None" and "kd_files d path = Some (hexEncode b @ newline)" and "length b = want"
  shows "readHexFile d path want = Inr b"
proof -
  have "dropWhile (\<lambda>c. c \<in> {CHR 0x0A, CHR 0x0D, CHR '' '', CHR 0x09}) (rev (hexEncode b)) = rev (hexEncode b)"
  proof (cases "rev (hexEncode b)")
    case (Cons c cs)
    then have "c \<in> set (hexEncode b)" by (metis list.set_intros(1) set_rev)
    from hexEncode_digits [OF this] show ?thesis by (simp add: Cons)
  qed simp
  then have "trimTrailingNewlines (hexEncode b @ newline) = hexEncode b"
    by (simp add: trimTrailingNewlines_def newline_def)
  then show ?thesis using assms by (simp add: readHexFile_def)
qed

text \<open>The pair that the first start makes is the pair of every later start.\<close>

theorem keys_survive_restart:
  assumes "LoadOrGenerateKeypair dir None (Inr kp) (\<lambda>d. d) (\<lambda>f. None) d = (Inr kp1, d1)"
    and "kd_files d priv_file = None" and "\<And>f. kd_denied d f = None" and "length (kp_private kp) = 64" and "length (kp_public kp) = 32"
  shows "LoadOrGenerateKeypair dir None generated rivals faults d1 = (Inr kp1, d1)"
proof -
  have "dir \<noteq> []" using assms(1) by (auto simp: LoadOrGenerateKeypair_def)
  moreover have "readHexFile d priv_file 64 = Inl NotExist" using assms(2,3) by (simp add: readHexFile_def)
  ultimately have "kp1 = kp" and d1: "d1 = writeHexFile pub_file (kp_public kp) (writeHexFile priv_file (kp_private kp) d)"
    using assms(1,2) by (auto simp: LoadOrGenerateKeypair_def)
  have "priv_file \<noteq> pub_file" by (simp add: priv_file_def pub_file_def)
  then have "readHexFile d1 priv_file 64 = Inr (kp_private kp)" "readHexFile d1 pub_file 32 = Inr (kp_public kp)"
    using assms(3-5) by (simp_all add: d1 writeHexFile_def)
  then show ?thesis using \<open>dir \<noteq> []\<close> \<open>kp1 = kp\<close> by (simp add: LoadOrGenerateKeypair_def read_pair_def)
qed

text \<open>A start that ends between the two files leaves a private key without a public one, and no later start succeeds.\<close>

lemma half_a_pair_never_starts:
  assumes "kd_files d priv_file = Some x" and "kd_files d pub_file = None"
  shows "\<exists>e. LoadOrGenerateKeypair dir mkdir generated rivals faults d = (Inl e, d)"
proof -
  have "readHexFile d priv_file 64 \<noteq> Inl NotExist" using assms(1) by (simp add: readHexFile_def split: option.split)
  moreover have "\<exists>e. readHexFile d pub_file 32 = Inl e" using assms(2) by (simp add: readHexFile_def split: option.split)
  ultimately show ?thesis by (auto simp: LoadOrGenerateKeypair_def read_pair_def split: sum.split option.split)
qed

text \<open>Cleaning the list of revoked sessions changes no later answer.\<close>

lemma cleanup_changes_no_answer: "now \<le> later \<Longrightarrow> IsRevoked later hash (black_cleanup now b) = IsRevoked later hash b"
  by (auto simp: IsRevoked_def black_cleanup_def split: option.split)

lemma revoked_until_expiry: "IsRevoked now hash (black_Revoke hash expires b) \<longleftrightarrow> now < expires"
  by (simp add: IsRevoked_def black_Revoke_def)

text \<open>Pages of the server cannot be framed; the widget can, by the origins of its tenant alone.\<close>

lemma server_pages_are_not_framed:
  "SecurityHeadersMiddleware rq h ''X-Frame-Options'' = Some ''DENY''"
  "h ''Content-Security-Policy'' = None \<Longrightarrow> SecurityHeadersMiddleware rq h ''Content-Security-Policy'' = Some (csp_start @ no_ancestors)"
  by (simp_all add: SecurityHeadersMiddleware_def Let_def header_text_def setCommonSecurityHeaders_def)

lemma widget_is_framed_by_its_tenant:
  "WidgetSecurityHeadersMiddleware lookup rq cx h ''X-Frame-Options'' = None"
  "WidgetSecurityHeadersMiddleware (Some origins_of) rq cx h ''Content-Security-Policy''
   = Some (csp_start @ (if cx_tenant cx = [] \<or> origins_of (cx_tenant cx) = [] then no_ancestors else str_join '' '' (origins_of (cx_tenant cx))))"
  by (simp_all add: WidgetSecurityHeadersMiddleware_def Let_def map_delete_def buildWidgetCSP_def)

end
