(* ===== verification/Http_Routes.thy ===== *)
theory Http_Routes
  imports Auth_Tokens
begin

text \<open>
  The routes of the management interface (\<open>internal/app/routes_register.go\<close>), of the chat (\<open>app/chat_routes.go\<close>) and
  of the sessions (\<open>delivery/http/session_handler.go\<close>), each with the guard it is registered under, and the way of a
  request through the middlewares to its handler and into the audit log (\<open>delivery/http/audit_middleware.go\<close>).

  A route is a method, the pattern of its path and its guard; which route a request has is decided by the router and is
  given.  A handler maps the context of the request to its status and the new world.

  The theory shows that a token of an integration, whatever it asks for, reaches no handler that changes the
  configuration, and that every request that gets past authentication leaves one entry in the audit log, in the name of
  its caller.
\<close>

section \<open>Routes and guards\<close>

datatype guard = AnyCaller | Scoped "64 word" | AdminSession

record route =
  rt_method :: string
  rt_path :: string
  rt_guard :: guard

definition guarded :: "guard \<Rightarrow> (string \<times> string) list \<Rightarrow> route list" where
  "guarded g rs = map (\<lambda>(m, p). \<lparr>rt_method = m, rt_path = p, rt_guard = g\<rparr>) rs"

definition agent_routes :: "route list" where
  "agent_routes =
     guarded (Scoped ScopeAgentsRead) [(''GET'', ''/api/v1/agents''), (''GET'', ''/api/v1/agents/{name}'')] @
     guarded (Scoped ScopeAgentsWrite) [(''POST'', ''/api/v1/agents''), (''PUT'', ''/api/v1/agents/{name}''),
       (''PATCH'', ''/api/v1/agents/{name}''), (''DELETE'', ''/api/v1/agents/{name}'')]"

definition lifecycle_routes :: "route list" where
  "lifecycle_routes =
     guarded (Scoped ScopeAgentsRead) [(''GET'', ''/api/v1/agents/{name}/lifecycle'')]"

definition capability_routes :: "route list" where
  "capability_routes =
     guarded (Scoped ScopeAgentsRead) [(''GET'', ''/api/v1/agents/{name}/capabilities'')] @
     guarded (Scoped ScopeAgentsWrite) [(''POST'', ''/api/v1/agents/{name}/capabilities''),
       (''PUT'', ''/api/v1/agents/{name}/capabilities/{capId}''),
       (''DELETE'', ''/api/v1/agents/{name}/capabilities/{capId}'')]"

definition model_routes :: "route list" where
  "model_routes =
     guarded (Scoped ScopeModelsRead) [(''GET'', ''/api/v1/models'')] @
     guarded (Scoped ScopeModelsWrite) [(''POST'', ''/api/v1/models''), (''PUT'', ''/api/v1/models/{name}''),
       (''PATCH'', ''/api/v1/models/{name}''), (''DELETE'', ''/api/v1/models/{name}''),
       (''POST'', ''/api/v1/models/{name}/verify'')]"

definition task_routes :: "route list" where
  "task_routes =
     guarded (Scoped ScopeTasks) [(''POST'', ''/api/v1/tasks''), (''GET'', ''/api/v1/tasks''),
       (''GET'', ''/api/v1/tasks/{id}''), (''DELETE'', ''/api/v1/tasks/{id}''),
       (''GET'', ''/api/v1/tasks/{id}/subtasks''), (''POST'', ''/api/v1/tasks/{id}/approve''),
       (''POST'', ''/api/v1/tasks/{id}/start''), (''POST'', ''/api/v1/tasks/{id}/complete''),
       (''POST'', ''/api/v1/tasks/{id}/fail''), (''POST'', ''/api/v1/tasks/{id}/priority'')]"

definition dispatch_routes :: "route list" where
  "dispatch_routes =
     guarded (Scoped ScopeTasks) [(''GET'', ''/api/v1/dispatch/tasks/{taskId}''),
       (''GET'', ''/api/v1/sessions/{sessionId}/dispatch-tasks'')]"

definition config_routes :: "route list" where
  "config_routes =
     guarded (Scoped ScopeConfig) [(''POST'', ''/api/v1/config/reload''), (''POST'', ''/api/v1/config/import''),
       (''GET'', ''/api/v1/config/export'')]"

definition knowledge_routes :: "route list" where
  "knowledge_routes =
     guarded (Scoped ScopeAgentsRead) [(''GET'', ''/api/v1/agents/{name}/knowledge/status''),
       (''GET'', ''/api/v1/agents/{name}/knowledge/files'')] @
     guarded (Scoped ScopeAgentsWrite) [(''POST'', ''/api/v1/agents/{name}/knowledge/reindex''),
       (''POST'', ''/api/v1/agents/{name}/knowledge/files''),
       (''DELETE'', ''/api/v1/agents/{name}/knowledge/files/{file_id}''),
       (''POST'', ''/api/v1/agents/{name}/knowledge/files/{file_id}/reindex'')] @
     guarded (Scoped ScopeAgentsRead) [(''GET'', ''/api/v1/knowledge-bases''),
       (''GET'', ''/api/v1/knowledge-bases/{id}''), (''GET'', ''/api/v1/knowledge-bases/{id}/files''),
       (''GET'', ''/api/v1/knowledge-bases/{id}/files/{file_id}'')] @
     guarded (Scoped ScopeAgentsWrite) [(''POST'', ''/api/v1/knowledge-bases''),
       (''PUT'', ''/api/v1/knowledge-bases/{id}''), (''PATCH'', ''/api/v1/knowledge-bases/{id}''),
       (''DELETE'', ''/api/v1/knowledge-bases/{id}''),
       (''POST'', ''/api/v1/knowledge-bases/{id}/agents/{agent_name}''),
       (''DELETE'', ''/api/v1/knowledge-bases/{id}/agents/{agent_name}''),
       (''POST'', ''/api/v1/knowledge-bases/{id}/files''),
       (''DELETE'', ''/api/v1/knowledge-bases/{id}/files/{file_id}''),
       (''POST'', ''/api/v1/knowledge-bases/{id}/files/{file_id}/reindex'')]"

definition audit_routes :: "route list" where
  "audit_routes =
     guarded AdminSession [(''GET'', ''/api/v1/audit'')]"

definition token_routes :: "route list" where
  "token_routes =
     guarded AdminSession [(''POST'', ''/api/v1/auth/tokens''), (''GET'', ''/api/v1/auth/tokens''),
       (''DELETE'', ''/api/v1/auth/tokens/{id}'')]"

definition mcp_routes :: "route list" where
  "mcp_routes =
     guarded (Scoped ScopeMCPRead) [(''GET'', ''/api/v1/mcp-servers'')] @
     guarded (Scoped ScopeMCPWrite) [(''POST'', ''/api/v1/mcp-servers''),
       (''PUT'', ''/api/v1/mcp-servers/{name}''), (''PATCH'', ''/api/v1/mcp-servers/{name}''),
       (''DELETE'', ''/api/v1/mcp-servers/{name}'')]"

definition schema_routes :: "route list" where
  "schema_routes =
     guarded (Scoped ScopeSchemasRead) [(''GET'', ''/api/v1/schemas''), (''GET'', ''/api/v1/schemas/{id}''),
       (''GET'', ''/api/v1/schemas/{id}/agents''), (''GET'', ''/api/v1/schemas/{id}/agent-relations''),
       (''GET'', ''/api/v1/schemas/{id}/agent-relations/{relationId}'')] @
     guarded (Scoped ScopeSchemasWrite) [(''POST'', ''/api/v1/schemas''), (''PUT'', ''/api/v1/schemas/{id}''),
       (''PATCH'', ''/api/v1/schemas/{id}''), (''DELETE'', ''/api/v1/schemas/{id}''),
       (''POST'', ''/api/v1/schemas/{id}/agent-relations''),
       (''PUT'', ''/api/v1/schemas/{id}/agent-relations/{relationId}''),
       (''DELETE'', ''/api/v1/schemas/{id}/agent-relations/{relationId}'')]"

definition setting_routes :: "route list" where
  "setting_routes =
     guarded AdminSession [(''GET'', ''/api/v1/settings''), (''PUT'', ''/api/v1/settings/{key}'')]"

definition assistant_restore_routes :: "route list" where
  "assistant_restore_routes =
     guarded AdminSession [(''POST'', ''/api/v1/admin/builder-assistant/restore'')]"

definition session_routes :: "route list" where
  "session_routes =
     guarded AdminSession [(''GET'', ''/api/v1/sessions''), (''POST'', ''/api/v1/sessions''),
       (''GET'', ''/api/v1/sessions/{id}''), (''GET'', ''/api/v1/sessions/{id}/messages''),
       (''PUT'', ''/api/v1/sessions/{id}''), (''DELETE'', ''/api/v1/sessions/{id}'')]"

definition tool_metadata_routes :: "route list" where
  "tool_metadata_routes =
     guarded AdminSession [(''GET'', ''/api/v1/tools/metadata'')]"

definition memory_routes :: "route list" where
  "memory_routes =
     guarded (Scoped ScopeSchemasRead) [(''GET'', ''/api/v1/schemas/{id}/memory'')] @
     guarded (Scoped ScopeSchemasWrite) [(''DELETE'', ''/api/v1/schemas/{id}/memory''),
       (''DELETE'', ''/api/v1/schemas/{id}/memory/{entry_id}'')]"

definition catalog_routes :: "route list" where
  "catalog_routes =
     guarded AnyCaller [(''GET'', ''/api/v1/mcp/catalog'')]"

definition template_routes :: "route list" where
  "template_routes =
     guarded AnyCaller [(''GET'', ''/api/v1/schema-templates''), (''GET'', ''/api/v1/schema-templates/{name}'')] @
     guarded (Scoped ScopeSchemasWrite) [(''POST'', ''/api/v1/schema-templates/{name}/fork'')]"

definition usage_routes :: "route list" where
  "usage_routes =
     guarded AnyCaller [(''GET'', ''/api/v1/usage'')]"

definition tool_call_routes :: "route list" where
  "tool_call_routes =
     guarded AnyCaller [(''GET'', ''/api/v1/audit/tool-calls'')]"

definition resilience_routes :: "route list" where
  "resilience_routes =
     guarded AdminSession [(''GET'', ''/api/v1/resilience/circuit-breakers''),
       (''POST'', ''/api/v1/resilience/circuit-breakers/{name}/reset'')]"

text \<open>What a deployment has: the local issuer of sessions, the lifecycle of agents, its dispatcher, knowledge, a database.\<close>

record deployment =
  dp_local :: bool
  dp_lifecycle :: bool
  dp_dispatcher :: bool
  dp_knowledge :: bool
  dp_database :: bool
  dp_two_ports :: bool

definition management_routes :: "deployment \<Rightarrow> route list" where
  "management_routes d =
     agent_routes @ (if dp_lifecycle d then lifecycle_routes else []) @ capability_routes @ model_routes @ task_routes @
     (if dp_dispatcher d then dispatch_routes else []) @ config_routes @ (if dp_knowledge d then knowledge_routes else []) @
     audit_routes @ token_routes @ mcp_routes @ schema_routes @ setting_routes @ assistant_restore_routes @ session_routes @
     tool_metadata_routes @ memory_routes @ (if dp_database d then catalog_routes @ template_routes else []) @
     usage_routes @ tool_call_routes @ resilience_routes"

text \<open>The routes without any middleware.\<close>

definition public_routes :: "deployment \<Rightarrow> (string \<times> string) list" where
  "public_routes d =
     [(''GET'', ''/api/v1/health''), (''GET'', ''/api/v1/models/registry''), (''GET'', ''/api/v1/models/registry/providers'')] @
     (if dp_local d then [(''POST'', ''/api/v1/auth/local-session''), (''POST'', ''/api/v1/auth/local-session/refresh'')] else [])"

text \<open>The chat, the assistant of the administrator and the second list of agents: authenticated, without the middlewares
  of tenant and audit.\<close>

definition chat_routes :: "route list" where
  "chat_routes = guarded (Scoped ScopeChat) [(''POST'', ''/api/v1/schemas/{id}/chat'')]"

definition admin_assistant_routes :: "route list" where
  "admin_assistant_routes =
     guarded (Scoped ScopeAgentsRead) [(''POST'', ''/api/v1/admin/assistant/chat''), (''GET'', ''/api/v1/admin/assistant/last-session'')]"

definition secondary_agent_list :: "route list" where
  "secondary_agent_list = guarded (Scoped ScopeAgentsRead) [(''GET'', ''/api/v1/agents'')]"

section \<open>The audit log\<close>

definition resolveAuditAction :: "string \<Rightarrow> string \<Rightarrow> nat \<Rightarrow> string" where
  "resolveAuditAction m path status =
     (let change = (m = ''PUT'' \<or> m = ''PATCH'') in
      if m = ''POST'' \<and> has_prefix path ''/api/v1/auth/local-session'' then (if status \<ge> 400 then ''auth.fail'' else ''auth.success'')
      else if m = ''POST'' \<and> path = ''/api/v1/auth/tokens'' then ''token.create''
      else if m = ''DELETE'' \<and> has_prefix path ''/api/v1/auth/tokens/'' then ''token.revoke''
      else if m = ''POST'' \<and> path = ''/api/v1/agents'' then ''agent.create''
      else if change \<and> has_prefix path ''/api/v1/agents/'' then ''agent.update''
      else if m = ''DELETE'' \<and> has_prefix path ''/api/v1/agents/'' then ''agent.delete''
      else if m = ''POST'' \<and> str_contains path ''/agent-relations'' then ''agent_relation.create''
      else if m = ''DELETE'' \<and> str_contains path ''/agent-relations/'' then ''agent_relation.delete''
      else if m = ''POST'' \<and> has_suffix path ''/chat'' \<and> has_prefix path ''/api/v1/schemas/'' then ''chat.message''
      else if m = ''POST'' \<and> path = ''/api/v1/schemas'' then ''schema.create''
      else if change \<and> has_prefix path ''/api/v1/schemas/'' then ''schema.update''
      else if m = ''DELETE'' \<and> has_prefix path ''/api/v1/schemas/'' then ''schema.delete''
      else if m = ''POST'' \<and> path = ''/api/v1/models'' then ''model.create''
      else if change \<and> has_prefix path ''/api/v1/models/'' then ''model.update''
      else if m = ''DELETE'' \<and> has_prefix path ''/api/v1/models/'' then ''model.delete''
      else if m = ''POST'' \<and> path = ''/api/v1/mcp-servers'' then ''mcp.create''
      else if m = ''DELETE'' \<and> has_prefix path ''/api/v1/mcp-servers/'' then ''mcp.delete''
      else if m = ''POST'' \<and> path = ''/api/v1/knowledge-bases'' then ''kb.create''
      else if m = ''DELETE'' \<and> has_prefix path ''/api/v1/knowledge-bases/'' then ''kb.delete''
      else if change \<and> has_prefix path ''/api/v1/settings/'' then ''setting.update''
      else if m = ''DELETE'' \<and> has_prefix path ''/api/v1/sessions/'' then ''session.delete''
      else ''api_call'')"

record audit_entry =
  au_time :: time
  au_actor_type :: string
  au_actor_id :: string
  au_action :: string
  au_resource :: string
  au_status :: nat

definition audit_of :: "time \<Rightarrow> served_request \<Rightarrow> request_ctx \<Rightarrow> nat \<Rightarrow> audit_entry" where
  "audit_of now rq cx status =
     \<lparr>au_time = now, au_actor_type = cx_actor_type cx, au_actor_id = cx_actor_id cx,
      au_action = resolveAuditAction (rq_method rq) (rq_path rq) status,
      au_resource = rq_method rq @ '' '' @ rq_path rq, au_status = status\<rparr>"

section \<open>The way of a request\<close>

record server_env =
  se_auth :: auth_env
  se_fault :: "go_error option"
  se_stamp_fails :: bool
  se_required :: bool
  se_now :: time
  se_audit_fails :: bool

record 'w served =
  sv_status :: nat
  sv_rows :: "token_row list"
  sv_world :: 'w
  sv_log :: "audit_entry list"

definition check_guard :: "guard \<Rightarrow> request_ctx \<Rightarrow> passage" where
  "check_guard g cx = (case g of AnyCaller \<Rightarrow> PassTo cx | Scoped s \<Rightarrow> RequireScope s cx | AdminSession \<Rightarrow> RequireAdminSession cx)"

definition after_guard :: "guard \<Rightarrow> (request_ctx \<Rightarrow> 'w \<Rightarrow> nat \<times> 'w) \<Rightarrow> request_ctx \<Rightarrow> 'w \<Rightarrow> nat \<times> 'w" where
  "after_guard g handler cx w = (case check_guard g cx of PassTo cx' \<Rightarrow> handler cx' w | Refuse s challenge text' \<Rightarrow> (s, w))"

text \<open>The audit middleware runs the rest and then writes its entry, whose loss it ignores.\<close>

definition AuditMiddleware :: "server_env \<Rightarrow> served_request \<Rightarrow> (request_ctx \<Rightarrow> 'w \<Rightarrow> nat \<times> 'w) \<Rightarrow> request_ctx \<Rightarrow> token_row list \<Rightarrow> 'w
    \<Rightarrow> audit_entry list \<Rightarrow> 'w served" where
  "AuditMiddleware S rq rest cx rows w log =
     (let (s, w') = rest cx w
      in \<lparr>sv_status = s, sv_rows = rows, sv_world = w',
          sv_log = (if se_audit_fails S then log else log @ [audit_of (se_now S) rq cx s])\<rparr>)"

definition authenticated :: "server_env \<Rightarrow> served_request \<Rightarrow> token_row list \<Rightarrow> passage \<times> token_row list" where
  "authenticated S rq rows = Authenticate (se_auth S) (se_fault S) (se_stamp_fails S) (se_now S) rq fresh_ctx rows"

definition serve_management ::
    "server_env \<Rightarrow> route \<Rightarrow> (request_ctx \<Rightarrow> 'w \<Rightarrow> nat \<times> 'w) \<Rightarrow> served_request \<Rightarrow> token_row list \<Rightarrow> 'w \<Rightarrow> audit_entry list \<Rightarrow> 'w served" where
  "serve_management S r handler rq rows w log =
     (case authenticated S rq rows of
        (Refuse s challenge text', rows') \<Rightarrow> \<lparr>sv_status = s, sv_rows = rows', sv_world = w, sv_log = log\<rparr>
      | (PassTo cx, rows') \<Rightarrow>
          (case TenantHandler (se_required S) rq cx of
             Refuse s challenge text' \<Rightarrow> \<lparr>sv_status = s, sv_rows = rows', sv_world = w, sv_log = log\<rparr>
           | PassTo cx' \<Rightarrow> AuditMiddleware S rq (after_guard (rt_guard r) handler) cx' rows' w log))"

definition serve_chat_route ::
    "server_env \<Rightarrow> route \<Rightarrow> (request_ctx \<Rightarrow> 'w \<Rightarrow> nat \<times> 'w) \<Rightarrow> served_request \<Rightarrow> token_row list \<Rightarrow> 'w \<Rightarrow> nat \<times> token_row list \<times> 'w" where
  "serve_chat_route S r handler rq rows w =
     (case authenticated S rq rows of
        (Refuse s challenge text', rows') \<Rightarrow> (s, rows', w)
      | (PassTo cx, rows') \<Rightarrow> let (s, w') = after_guard (rt_guard r) handler cx w in (s, rows', w'))"

section \<open>What a token of an integration reaches\<close>

text \<open>A mask within the scope \<open>api\<close>; tokens made from that name, or from names of reading and of tasks, have one.\<close>

definition within_api :: "64 word \<Rightarrow> bool" where
  "within_api m \<longleftrightarrow> m AND ScopeAPIMask = m"

definition beyond_api :: "guard \<Rightarrow> bool" where
  "beyond_api g = (case g of AnyCaller \<Rightarrow> False | Scoped s \<Rightarrow> s AND ScopeAPIMask = 0 | AdminSession \<Rightarrow> True)"

definition changes_configuration :: "route \<Rightarrow> bool" where
  "changes_configuration r \<longleftrightarrow> rt_method r \<noteq> ''GET'' \<and> \<not> has_prefix (rt_path r) ''/api/v1/tasks''"

lemmas route_groups = agent_routes_def lifecycle_routes_def capability_routes_def model_routes_def task_routes_def dispatch_routes_def
  config_routes_def knowledge_routes_def audit_routes_def token_routes_def mcp_routes_def schema_routes_def setting_routes_def
  assistant_restore_routes_def session_routes_def tool_metadata_routes_def memory_routes_def catalog_routes_def template_routes_def
  usage_routes_def tool_call_routes_def resilience_routes_def

definition all_groups :: "route list list" where
  "all_groups =
     [agent_routes, lifecycle_routes, capability_routes, model_routes, task_routes, dispatch_routes, config_routes, knowledge_routes,
      audit_routes, token_routes, mcp_routes, schema_routes, setting_routes, assistant_restore_routes, session_routes,
      tool_metadata_routes, memory_routes, catalog_routes, template_routes, usage_routes, tool_call_routes, resilience_routes]"

lemma route_in_group: "r \<in> set (management_routes d) \<Longrightarrow> \<exists>g\<in>set all_groups. r \<in> set g"
  by (auto simp: management_routes_def all_groups_def split: if_splits)

lemma beyond_simps [simp]:
  "beyond_api AdminSession" "beyond_api (Scoped ScopeAgentsWrite)" "beyond_api (Scoped ScopeModelsWrite)"
  "beyond_api (Scoped ScopeMCPWrite)" "beyond_api (Scoped ScopeSchemasWrite)" "beyond_api (Scoped ScopeConfig)"
  by (simp_all add: beyond_api_def ScopeAPIMask_def scope_bits)

lemma groups_beyond_api: "list_all (list_all (\<lambda>r. changes_configuration r \<longrightarrow> beyond_api (rt_guard r))) all_groups"
  by (simp add: all_groups_def route_groups guarded_def changes_configuration_def has_prefix_def)

lemma configuration_beyond_api: "r \<in> set (management_routes d) \<Longrightarrow> changes_configuration r \<Longrightarrow> beyond_api (rt_guard r)"
  using route_in_group groups_beyond_api by (fastforce simp: list_all_iff)

lemma guard_refuses_api:
  assumes "beyond_api g" and "within_api (cx_scopes cx)" and "cx_actor_type cx = ''api_token''"
  shows "after_guard g handler cx w = (403, w)"
proof (cases g)
  case (Scoped s)
  have none: "cx_scopes cx AND b = 0" if "b AND ScopeAPIMask = 0" for b
  proof -
    have "cx_scopes cx AND b = cx_scopes cx AND (b AND ScopeAPIMask)"
      using assms(2) unfolding within_api_def by (metis and.assoc and.commute)
    then show ?thesis by (simp add: that)
  qed
  have "ScopeAdmin AND ScopeAPIMask = 0" by (simp add: ScopeAPIMask_def scope_bits)
  then show ?thesis using assms(1) by (simp add: Scoped beyond_api_def after_guard_def check_guard_def RequireScope_def none)
qed (use assms in \<open>simp_all add: beyond_api_def after_guard_def check_guard_def RequireAdminSession_def\<close>)

lemma verified_row:
  assumes "tokens_Verify fault stamp_fails now hash rows = (Inr v, rows')"
  shows "\<exists>r\<in>set rows. tk_hash r = hash \<and> live r \<and> vt_name v = tk_name r \<and> vt_mask v = tk_mask r \<and> vt_tenant v = tk_tenant r"
proof -
  obtain r where "first_row tk_id (\<lambda>r. tk_hash r = hash \<and> live r) rows = Some r"
    and "v = \<lparr>vt_name = tk_name r, vt_mask = tk_mask r, vt_tenant = tk_tenant r\<rparr>"
    using assms by (auto simp: tokens_Verify_def split: option.splits)
  then show ?thesis using first_row_Some [of tk_id "\<lambda>r. tk_hash r = hash \<and> live r" rows r] by auto
qed

lemma api_token_passes:
  assumes "authenticated S rq rows = (PassTo cx, rows')" and "rq_authorization rq = ''Bearer '' @ token" and "has_prefix token TokenPrefix"
  shows "cx_actor_type cx = ''api_token'' \<and> cx_user_sub cx = []
    \<and> (\<exists>r\<in>set rows. tk_hash r = ae_digest (se_auth S) token \<and> live r \<and> cx_actor_id cx = tk_name r \<and> cx_scopes cx = tk_mask r
         \<and> cx_tenant cx = tk_tenant r)"
proof -
  have "Authenticate (se_auth S) (se_fault S) (se_stamp_fails S) (se_now S) rq fresh_ctx rows
      = authenticateAPIToken (se_auth S) (se_fault S) (se_stamp_fails S) (se_now S) token fresh_ctx rows"
    using assms(2,3) by (intro Authenticate_api) (simp_all add: BearerPrefix_def)
  then obtain v where "tokens_Verify (se_fault S) (se_stamp_fails S) (se_now S) (ae_digest (se_auth S) token) rows = (Inr v, rows')"
    and "with_tenant_claim (se_auth S) (vt_tenant v)
       (fresh_ctx\<lparr>cx_actor_type := ''api_token'', cx_actor_id := vt_name v, cx_scopes := vt_mask v\<rparr>) = PassTo cx"
    using assms(1) by (auto simp: authenticated_def authenticateAPIToken_def writeUnauthorized_def Let_def split: prod.splits sum.splits)
  with verified_row [OF this(1)] show ?thesis by (auto simp: with_tenant_claim_def fresh_ctx_def split: if_splits)
qed

lemma TenantHandler_cases:
  "TenantHandler required rq cx = PassTo (cx\<lparr>cx_tenant := ExtractTenantID rq cx\<rparr>)
   \<or> TenantHandler required rq cx = Refuse 403 [] ''tenant_id is required''"
  by (simp add: TenantHandler_def Let_def)

lemma refused_status:
  assumes "authenticated S rq rows = (Refuse s challenge text', rows')"
  shows "s \<in> {400, 401}"
  using assms by (auto simp: authenticated_def Authenticate_def authenticateAPIToken_def authenticateJWT_def with_tenant_claim_def
      writeUnauthorized_def Let_def split: if_splits sum.splits prod.splits option.splits)

text \<open>C34: A token whose scopes lie within those of integrations runs no handler that changes the configuration: on every
  management route other than reading and tasks the request is refused and the world is as before.\<close>

theorem integration_tokens_keep_configuration:
  assumes "r \<in> set (management_routes d)" and "changes_configuration r"
    and "rq_authorization rq = ''Bearer '' @ token" and "has_prefix token TokenPrefix"
    and "\<And>row. row \<in> set rows \<Longrightarrow> tk_hash row = ae_digest (se_auth S) token \<Longrightarrow> within_api (tk_mask row)"
  shows "sv_world (serve_management S r handler rq rows w log) = w
    \<and> sv_status (serve_management S r handler rq rows w log) \<in> {400, 401, 403}"
proof (cases "authenticated S rq rows")
  case (Pair passage rows')
  show ?thesis
  proof (cases passage)
    case (Refuse s challenge text')
    then have "s \<in> {400, 401}" using refused_status Pair by blast
    then show ?thesis using Refuse Pair by (auto simp: serve_management_def)
  next
    case (PassTo cx)
    let ?cx = "cx\<lparr>cx_tenant := ExtractTenantID rq cx\<rparr>"
    from api_token_passes [OF _ assms(3,4)] Pair PassTo have "cx_actor_type ?cx = ''api_token''" and "within_api (cx_scopes ?cx)"
      using assms(5) by fastforce+
    with guard_refuses_api [OF configuration_beyond_api [OF assms(1,2)], of ?cx handler w]
    have "after_guard (rt_guard r) handler ?cx w = (403, w)" by blast
    then show ?thesis using TenantHandler_cases [of "se_required S" rq cx] Pair PassTo
      by (auto simp: serve_management_def AuditMiddleware_def)
  qed
qed

definition sample_server :: server_env where
  "sample_server = \<lparr>se_auth = sample_auth_env, se_fault = None, se_stamp_fails = False, se_required = False, se_now = 9, se_audit_fails = False\<rparr>"

definition agent_deletion :: route where
  "agent_deletion = \<lparr>rt_method = ''DELETE'', rt_path = ''/api/v1/agents/{name}'', rt_guard = Scoped ScopeAgentsWrite\<rparr>"

definition full_deployment :: deployment where
  "full_deployment = \<lparr>dp_local = True, dp_lifecycle = True, dp_dispatcher = True, dp_knowledge = True, dp_database = True, dp_two_ports = False\<rparr>"

theorem integration_tokens_keep_configuration_witness:
  "sv_world (serve_management sample_server agent_deletion (\<lambda>cx w. (204, w + 1)) (bearer_request (ctr_token sample_token_response))
     [sample_token_row] (0::nat) []) = 0"
proof (rule conjunct1 [OF integration_tokens_keep_configuration])
  show "agent_deletion \<in> set (management_routes full_deployment)"
    by (simp add: management_routes_def agent_routes_def guarded_def agent_deletion_def)
  show "changes_configuration agent_deletion"
    by (simp add: changes_configuration_def agent_deletion_def has_prefix_def)
  show "rq_authorization (bearer_request (ctr_token sample_token_response)) = ''Bearer '' @ ctr_token sample_token_response"
    by (simp add: bearer_request_def BearerPrefix_def)
  show "has_prefix (ctr_token sample_token_response) TokenPrefix" by (simp add: sample_token_response_def)
  show "within_api (tk_mask row)" if "row \<in> set [sample_token_row]" for row
    using that by (simp add: within_api_def sample_token_row_def)
qed

text \<open>Every list of names without one that writes or administers makes such a token.\<close>

lemma within_api_or: "within_api a \<Longrightarrow> within_api b \<Longrightarrow> within_api (a OR b)"
  by (simp add: within_api_def bit.conj_disj_distrib2)

lemma reading_names_are_within_api:
  assumes "set scopes \<inter> {''admin'', ''config'', ''agents:write'', ''models:write'', ''mcp:write'', ''schemas:write''} = {}"
  shows "within_api (ScopesToMask scopes)"
  using assms
proof (induction scopes)
  case (Cons s scopes)
  have "within_api m" if "map_of ScopeNameToMask s = Some m" for m
    using that Cons.prems by (auto simp: ScopeNameToMask_def within_api_def ScopeAPIMask_def scope_bits split: if_splits)
  then have "within_api (case map_of ScopeNameToMask s of None \<Rightarrow> 0 | Some b \<Rightarrow> b)"
    by (auto simp: within_api_def split: option.split)
  then show ?case using Cons by (auto simp: ScopesToMask_Cons intro: within_api_or)
qed (simp add: within_api_def)

text \<open>Every request that gets past authentication and tenant leaves one entry, in the name of its caller and with the
  status of its answer, refusals by a guard included.\<close>

theorem requests_are_audited:
  assumes "authenticated S rq rows = (PassTo cx, rows')" and "cx_tenant cx \<noteq> [] \<or> \<not> se_required S" and "\<not> se_audit_fails S"
  shows "\<exists>e. sv_log (serve_management S r handler rq rows w log) = log @ [e] \<and> au_actor_type e = cx_actor_type cx
    \<and> au_actor_id e = cx_actor_id cx \<and> au_status e = sv_status (serve_management S r handler rq rows w log)
    \<and> au_resource e = rq_method rq @ '' '' @ rq_path rq"
  using assms by (auto simp: serve_management_def TenantHandler_def ExtractTenantID_def Let_def AuditMiddleware_def audit_of_def
      split: prod.split)

text \<open>A credential names its tenant: on a management route the header is not asked.\<close>

theorem token_works_for_its_tenant:
  assumes "authenticated S rq rows = (PassTo cx, rows')" and "rq_authorization rq = ''Bearer '' @ token" and "has_prefix token TokenPrefix"
    and "\<And>row. row \<in> set rows \<Longrightarrow> tk_tenant row \<noteq> []"
    and "sv_world (serve_management S r (\<lambda>cx w. (200, Some cx)) rq rows None log) = Some cx'"
  shows "\<exists>row\<in>set rows. tk_hash row = ae_digest (se_auth S) token \<and> live row \<and> cx_tenant cx' = tk_tenant row"
proof -
  obtain row where row: "row \<in> set rows" "tk_hash row = ae_digest (se_auth S) token" "live row" "cx_tenant cx = tk_tenant row"
    using api_token_passes [OF assms(1-3)] by blast
  then have "TenantHandler (se_required S) rq cx = PassTo cx" using assms(4) by (intro credential_names_the_tenant) auto
  then have "snd (after_guard (rt_guard r) (\<lambda>cx w. (200, Some cx)) cx None) = Some cx'"
    using assms(1,5) by (simp add: serve_management_def AuditMiddleware_def case_prod_beta)
  moreover have "snd (after_guard (rt_guard r) (\<lambda>cx w. (200, Some cx)) cx None) \<in> {None, Some cx}"
    by (simp add: after_guard_def check_guard_def RequireScope_def RequireAdminSession_def split: guard.split)
  ultimately have "cx' = cx" by auto
  then show ?thesis using row by blast
qed

text \<open>The assistant, which can change the whole configuration by its tools, takes the token of an integration.\<close>

lemma assistant_takes_integration_tokens:
  assumes "r \<in> set admin_assistant_routes" and "authenticated S rq rows = (PassTo cx, rows')" and "cx_scopes cx = ScopeAPIMask"
  shows "serve_chat_route S r handler rq rows w = (case handler cx w of (s, w') \<Rightarrow> (s, rows', w'))"
proof -
  have "ScopeAPIMask AND ScopeAgentsRead \<noteq> 0" by (simp add: ScopeAPIMask_def scope_bits)
  moreover have "rt_guard r = Scoped ScopeAgentsRead" using assms(1) by (auto simp: admin_assistant_routes_def guarded_def)
  ultimately show ?thesis
    using assms(2,3) by (simp add: serve_chat_route_def after_guard_def check_guard_def RequireScope_def)
qed

text \<open>The log of tool calls has no guard, whereas the audit log asks for a session of the administrator.\<close>

lemma tool_calls_are_open:
  "\<forall>r\<in>set tool_call_routes. after_guard (rt_guard r) handler cx w = handler cx w"
  "\<forall>r\<in>set audit_routes. rt_guard r = AdminSession"
  by (simp_all add: tool_call_routes_def audit_routes_def guarded_def after_guard_def check_guard_def)

text \<open>The chat does not ask whether there is a tenant, even where one is required.\<close>

lemma chat_asks_for_no_tenant:
  assumes "authenticated S rq rows = (PassTo cx, rows')" and "cx_scopes cx AND ScopeChat \<noteq> 0" and "r \<in> set chat_routes"
  shows "serve_chat_route S r handler rq rows w = (case handler cx w of (s, w') \<Rightarrow> (s, rows', w'))"
proof -
  have "rt_guard r = Scoped ScopeChat" using assms(3) by (simp add: chat_routes_def guarded_def)
  then show ?thesis using assms(1,2) by (simp add: serve_chat_route_def after_guard_def check_guard_def RequireScope_def)
qed

text \<open>Clearing the memory of a schema is logged as its deletion, the change of a relation as that of its schema, and the
  loss of a capability as that of the agent.\<close>

lemma misleading_actions:
  "resolveAuditAction ''DELETE'' ''/api/v1/schemas/s1/memory'' n = ''schema.delete''"
  "resolveAuditAction ''PUT'' ''/api/v1/schemas/s1/agent-relations/r1'' n = ''schema.update''"
  "resolveAuditAction ''DELETE'' ''/api/v1/agents/a/capabilities/c1'' n = ''agent.delete''"
  "resolveAuditAction ''PATCH'' ''/api/v1/mcp-servers/m'' n = ''api_call''"
  by code_simp+

end
