(* ===== verification/Text_Chunker.thy ===== *)
theory Text_Chunker
  imports Go_Text
begin

text \<open>
  Splitting a document into pieces for embedding (\<open>internal/infrastructure/knowledge/chunker.go\<close>).

  The three loops that fill a buffer share \<open>add_piece\<close> and \<open>flush\<close>, which take the way to append to the result as an
  argument: texts for the two helpers, numbered chunks for the chunker of plain text.

  The theory shows that chunking loses no text but white space and keeps the order, that chunks are numbered by their
  position, and that a chunk is over the limit only if it is a single sentence, or in Markdown a single paragraph.
\<close>

section \<open>The chunkers\<close>

record chunk =
  ck_content :: string
  ck_order :: nat

datatype chunker = MarkdownChunker int | PlainTextChunker int

definition defaultMaxTokens :: int where
  "defaultMaxTokens = 1000"

definition chunkCharsPerToken :: int where
  "chunkCharsPerToken = 4"

text \<open>\<open>filepath.Ext\<close>: the part from the last dot of the last element of the path.\<close>

definition path_ext :: "string \<Rightarrow> string" where
  "path_ext path =
     (let rest = takeWhile (\<lambda>c. c \<noteq> CHR ''/'' \<and> c \<noteq> CHR ''.'') (rev path)
      in if length rest < length path \<and> rev path ! length rest = CHR ''.'' then CHR ''.'' # rev rest else [])"

definition ChunkerForFile :: "string \<Rightarrow> chunker" where
  "ChunkerForFile path =
     (if lower_text (path_ext path) = ''.md'' then MarkdownChunker defaultMaxTokens else PlainTextChunker defaultMaxTokens)"

fun max_tokens :: "chunker \<Rightarrow> int" where
  "max_tokens (MarkdownChunker n) = (if n \<le> 0 then defaultMaxTokens else n)"
| "max_tokens (PlainTextChunker n) = (if n \<le> 0 then defaultMaxTokens else n)"

definition estimateChunkTokens :: "string \<Rightarrow> int" where
  "estimateChunkTokens s = (if length s = 0 then 0 else (int (length s) + chunkCharsPerToken - 1) div chunkCharsPerToken)"

fun section_loop :: "string list \<Rightarrow> string list \<times> string list \<Rightarrow> string list \<times> string list" where
  "section_loop [] (sections, current) = (sections, current)"
| "section_loop (line # lines) (sections, current) =
     section_loop lines
       (if has_prefix line ''## '' \<and> current \<noteq> [] then (sections @ [str_join newline current], [line])
        else (sections, current @ [line]))"

definition splitMarkdownSections :: "string \<Rightarrow> string list" where
  "splitMarkdownSections content =
     (case section_loop (split_on newline content) ([], []) of (sections, current) \<Rightarrow>
        if current \<noteq> [] then sections @ [str_join newline current] else sections)"

definition splitParagraphs :: "string \<Rightarrow> string list" where
  "splitParagraphs content = split_on (newline @ newline) content"

text \<open>The period stays with the sentence before it; a blank rest is dropped.\<close>

function splitSentences :: "string \<Rightarrow> string list" where
  "splitSentences s =
     (case str_index s ''. '' of
        Some i \<Rightarrow> take (i + 1) s # splitSentences (drop (i + 2) s)
      | None \<Rightarrow> if trim_space s \<noteq> [] then [s] else [])"
  by pat_completeness auto
termination
proof (relation "measure length", simp)
  fix s i
  assume "str_index s ''. '' = Some i"
  from str_index_split [OF this] have "i + 2 \<le> length s" by simp
  then have "length s - (i + 2) < length s" by linarith
  then show "(drop (i + 2) s, s) \<in> measure length" by (simp only: in_measure length_drop)
qed

declare splitSentences.simps [simp del]

definition add_piece :: "('a list \<Rightarrow> string \<Rightarrow> 'a list) \<Rightarrow> string \<Rightarrow> int \<Rightarrow> string \<Rightarrow> 'a list \<times> string \<Rightarrow> 'a list \<times> string" where
  "add_piece emit sep maxTokens piece s =
     (case s of (result, buf) \<Rightarrow>
        let combined = (if buf \<noteq> [] then buf @ sep else buf) @ piece;
            (result1, buf1) = (if estimateChunkTokens combined > maxTokens \<and> buf \<noteq> [] then (emit result (trim_space buf), []) else (result, buf))
        in (result1, (if buf1 \<noteq> [] then buf1 @ sep else buf1) @ piece))"

definition flush :: "('a list \<Rightarrow> string \<Rightarrow> 'a list) \<Rightarrow> 'a list \<times> string \<Rightarrow> 'a list" where
  "flush emit s = (case s of (result, buf) \<Rightarrow> if buf \<noteq> [] then emit result (trim_space buf) else result)"

definition put_text :: "string list \<Rightarrow> string \<Rightarrow> string list" where
  "put_text result s = result @ [s]"

definition put_chunk :: "chunk list \<Rightarrow> string \<Rightarrow> chunk list" where
  "put_chunk chunks s = chunks @ [\<lparr>ck_content = s, ck_order = length chunks\<rparr>]"

definition gather :: "string \<Rightarrow> int \<Rightarrow> string list \<Rightarrow> string list" where
  "gather sep maxTokens pieces =
     flush put_text
       (fold (\<lambda>p s. if trim_space p = [] then s else add_piece put_text sep maxTokens (trim_space p) s) pieces ([], []))"

definition splitByParagraphs :: "string \<Rightarrow> int \<Rightarrow> string list" where
  "splitByParagraphs s maxTokens = gather (newline @ newline) maxTokens (splitParagraphs s)"

definition splitBySentences :: "string \<Rightarrow> int \<Rightarrow> string list" where
  "splitBySentences s maxTokens = gather '' '' maxTokens (splitSentences s)"

definition section_chunks :: "int \<Rightarrow> string \<Rightarrow> chunk list \<Rightarrow> chunk list" where
  "section_chunks maxTok sec chunks =
     (let s = trim_space sec
      in if s = [] then chunks
         else if estimateChunkTokens s \<le> maxTok then put_chunk chunks s
         else foldl put_chunk chunks (splitByParagraphs s maxTok))"

definition Markdown_Chunk :: "int \<Rightarrow> string \<Rightarrow> chunk list" where
  "Markdown_Chunk maxTok content =
     (if trim_space content = [] then [] else fold (section_chunks maxTok) (splitMarkdownSections content) [])"

definition paragraph_step :: "int \<Rightarrow> string \<Rightarrow> chunk list \<times> string \<Rightarrow> chunk list \<times> string" where
  "paragraph_step maxTok para s =
     (let p = trim_space para
      in if p = [] then s
         else if estimateChunkTokens p > maxTok then (foldl put_chunk (flush put_chunk s) (splitBySentences p maxTok), [])
         else add_piece put_chunk (newline @ newline) maxTok p s)"

definition PlainText_Chunk :: "int \<Rightarrow> string \<Rightarrow> chunk list" where
  "PlainText_Chunk maxTok content =
     (if trim_space content = [] then []
      else flush put_chunk (fold (paragraph_step maxTok) (splitParagraphs content) ([], [])))"

fun Chunk :: "chunker \<Rightarrow> string \<Rightarrow> chunk list" where
  "Chunk (MarkdownChunker n) content = Markdown_Chunk (max_tokens (MarkdownChunker n)) content"
| "Chunk (PlainTextChunker n) content = PlainText_Chunk (max_tokens (PlainTextChunker n)) content"

section \<open>The same text but for white space\<close>

definition space_step :: "(string \<times> string) set" where
  "space_step = {(x @ y, x @ r @ y) |x r y. r \<in> set space_runes}"

definition same_text :: "string \<Rightarrow> string \<Rightarrow> bool" where
  "same_text s t \<longleftrightarrow> (s, t) \<in> (space_step \<union> space_step\<inverse>)\<^sup>*"

lemma same_text_refl [simp]: "same_text s s"
  by (simp add: same_text_def)

lemma same_text_trans [trans]: "same_text a b \<Longrightarrow> same_text b c \<Longrightarrow> same_text a c"
  unfolding same_text_def by (rule rtrancl_trans)

lemma same_text_sym: "same_text a b \<Longrightarrow> same_text b a"
proof -
  have "sym (space_step \<union> space_step\<inverse>)" by (simp add: sym_Un_converse)
  then show "same_text a b \<Longrightarrow> same_text b a" unfolding same_text_def by (rule symD [OF sym_rtrancl])
qed

lemma space_step_context: "(s, t) \<in> space_step \<Longrightarrow> (a @ s @ b, a @ t @ b) \<in> space_step"
  unfolding space_step_def by clarsimp (metis append.assoc)

lemma same_text_context: "same_text s t \<Longrightarrow> same_text (a @ s @ b) (a @ t @ b)"
  unfolding same_text_def
proof (induction rule: rtrancl_induct)
  case (step t u)
  then have "(a @ t @ b, a @ u @ b) \<in> space_step \<union> space_step\<inverse>" using space_step_context by blast
  with step(3) show ?case by (rule rtrancl_into_rtrancl)
qed simp

lemma same_text_append: "same_text s s' \<Longrightarrow> same_text t t' \<Longrightarrow> same_text (s @ t) (s' @ t')"
  using same_text_trans [of "s @ t" "s' @ t" "s' @ t'"] same_text_context [of s s' "[]" t] same_text_context [of t t' s' "[]"] by simp

lemma same_text_rune: "r \<in> set space_runes \<Longrightarrow> same_text (x @ r @ y) (x @ y)"
  unfolding same_text_def space_step_def by blast

lemma drop_runes_same: "set rs \<subseteq> set space_runes \<Longrightarrow> same_text (drop_runes k rs s) s"
proof (induction k arbitrary: s)
  case (Suc k)
  show ?case
  proof (cases "filter (\<lambda>r. has_prefix s r) rs")
    case (Cons r rest)
    then have "r \<in> set (filter (\<lambda>r. has_prefix s r) rs)" by simp
    then have r: "has_prefix s r" "r \<in> set space_runes" using Suc(2) by auto
    have "same_text (drop_runes k rs (drop (length r) s)) (drop (length r) s)" using Suc by blast
    also have "same_text (drop (length r) s) s"
      using same_text_sym [OF same_text_rune [OF r(2), of "[]" "drop (length r) s"]] has_prefix_split [OF r(1)] by simp
    finally show ?thesis using Cons by simp
  qed simp
qed simp

lemma drop_runes_rev_same: "same_text (rev (drop_runes k (map rev space_runes) s)) (rev s)"
proof (induction k arbitrary: s)
  case (Suc k)
  show ?case
  proof (cases "filter (\<lambda>r. has_prefix s r) (map rev space_runes)")
    case (Cons r rest)
    then have "r \<in> set (filter (\<lambda>r. has_prefix s r) (map rev space_runes))" by simp
    then have r: "has_prefix s r" "rev r \<in> set space_runes" by auto
    have "same_text (rev (drop_runes k (map rev space_runes) (drop (length r) s))) (rev (drop (length r) s))" by (rule Suc)
    also have "same_text (rev (drop (length r) s)) (rev s)"
      using same_text_sym [OF same_text_rune [OF r(2), of "rev (drop (length r) s)" "[]"]] has_prefix_split [OF r(1)]
      by (metis append_Nil2 rev_append)
    finally show ?thesis using Cons by simp
  qed simp
qed simp

lemma trim_space_same [simp]: "same_text (trim_space s) s"
proof -
  have "same_text (trim_space s) (trim_left_space s)"
    using drop_runes_rev_same [of "length (trim_left_space s)" "rev (trim_left_space s)"]
    by (simp add: trim_space_def trim_right_space_def)
  also have "same_text (trim_left_space s) s" unfolding trim_left_space_def by (rule drop_runes_same) simp
  finally show ?thesis .
qed

lemma blank_same: "trim_space s = [] \<Longrightarrow> same_text [] s"
  using trim_space_same [of s] by simp

lemma blank_separators [simp]: "same_text [] newline" "same_text [] (newline @ newline)" "same_text [] '' ''"
proof -
  have nl: "same_text [] newline" using same_text_sym [OF same_text_rune [of newline "[]" "[]"]] by (simp add: newline_def space_runes_def)
  then show "same_text [] newline" "same_text [] (newline @ newline)" using same_text_append [OF nl nl] by simp_all
  show "same_text [] '' ''" using same_text_sym [OF same_text_rune [of "'' ''" "[]" "[]"]] by (simp add: space_runes_def)
qed

lemma join_same: "same_text [] sep \<Longrightarrow> same_text (concat ls) (str_join sep ls)"
proof (induction ls rule: induct_list012)
  case (3 l m ls)
  then show ?case using same_text_append [of l l "concat (m # ls)" "sep @ str_join sep (m # ls)"]
      same_text_append [of "[]" sep "concat (m # ls)" "str_join sep (m # ls)"] by simp
qed simp_all

lemma split_same: "same_text [] sep \<Longrightarrow> same_text (concat (split_on sep s)) s"
  using join_same [of sep "split_on sep s"] by (simp add: join_split_on)

section \<open>No text is lost\<close>

definition text_of :: "chunk list \<Rightarrow> string" where
  "text_of cs = concat (map ck_content cs)"

text \<open>What a loop has kept so far: the result and the buffer; \<open>f\<close> reads the text of a result.\<close>

definition emits :: "('a list \<Rightarrow> string) \<Rightarrow> ('a list \<Rightarrow> string \<Rightarrow> 'a list) \<Rightarrow> bool" where
  "emits f emit \<longleftrightarrow> (\<forall>result s. f (emit result s) = f result @ s)"

lemma emits_text [simp]: "emits concat put_text"
  by (simp add: emits_def put_text_def)

lemma emits_chunk [simp]: "emits text_of put_chunk"
  by (simp add: emits_def put_chunk_def text_of_def)

lemma flush_same: "emits f emit \<Longrightarrow> same_text (f (flush emit (result, buf))) (f result @ buf)"
  by (simp add: flush_def emits_def same_text_append)

lemma add_piece_cases:
  "add_piece emit sep n piece (result, buf) =
     (if buf = [] then (result, piece)
      else if estimateChunkTokens (buf @ sep @ piece) > n then (emit result (trim_space buf), piece)
      else (result, buf @ sep @ piece))"
  by (simp add: add_piece_def Let_def)

lemma add_piece_same:
  assumes "emits f emit" and "same_text [] sep" and "add_piece emit sep n piece (result, buf) = (result', buf')"
  shows "same_text (f result' @ buf') (f result @ buf @ piece)"
proof -
  consider "buf = []" | "buf \<noteq> []" "estimateChunkTokens (buf @ sep @ piece) > n" | "buf \<noteq> []" "\<not> estimateChunkTokens (buf @ sep @ piece) > n"
    by blast
  then show ?thesis
  proof cases
    case 2
    then show ?thesis using assms(1,3) same_text_context [OF trim_space_same, of "f result" buf piece]
      by (auto simp: add_piece_cases emits_def)
  next
    case 3
    then show ?thesis using assms(3) same_text_context [OF same_text_sym [OF assms(2)], of "f result @ buf" piece]
      by (simp add: add_piece_cases)
  qed (use assms(3) in \<open>simp add: add_piece_cases\<close>)
qed

text \<open>A loop over pieces whose body keeps the text, white space apart.\<close>

lemma fold_same:
  assumes "\<And>p result buf result' buf'. step p (result, buf) = (result', buf') \<Longrightarrow> same_text (f result' @ buf') (f result @ buf @ p)"
    and "fold step ps (result, buf) = (result', buf')"
  shows "same_text (f result' @ buf') (f result @ buf @ concat ps)"
  using assms(2)
proof (induction ps arbitrary: result buf)
  case (Cons p ps)
  obtain r1 b1 where s1: "step p (result, buf) = (r1, b1)" by (cases "step p (result, buf)")
  then have "same_text (f result' @ buf') (f r1 @ b1 @ concat ps)" using Cons by simp
  also have "same_text (f r1 @ b1 @ concat ps) (f result @ buf @ p @ concat ps)"
    using same_text_append [OF assms(1) [OF s1] same_text_refl [of "concat ps"]] by simp
  finally show ?case by simp
qed simp

lemma gather_same: "same_text [] sep \<Longrightarrow> same_text (concat (gather sep n ps)) (concat ps)"
proof -
  assume sep: "same_text [] sep"
  let ?step = "\<lambda>p s. if trim_space p = [] then s else add_piece put_text sep n (trim_space p) s"
  obtain result buf where r: "fold ?step ps ([], []) = (result, buf)" by (cases "fold ?step ps ([], [])")
  have "same_text (concat result' @ buf') (concat result @ buf @ p)" if "?step p (result, buf) = (result', buf')" for p result buf result' buf'
  proof (cases "trim_space p = []")
    case True
    then show ?thesis using that same_text_append [OF same_text_refl [of "concat result @ buf"] blank_same [OF True]] by simp
  next
    case False
    then have "same_text (concat result' @ buf') (concat result @ buf @ trim_space p)"
      using that add_piece_same [OF emits_text sep] by simp
    then show ?thesis using same_text_append [OF same_text_refl [of "concat result @ buf"] trim_space_same [of p]]
      by (simp add: same_text_trans)
  qed
  from fold_same [where f = concat, OF this r] have "same_text (concat result @ buf) (concat ps)" by simp
  then show ?thesis using flush_same [OF emits_text, of result buf] by (simp add: gather_def r same_text_trans)
qed

lemma splitByParagraphs_same: "same_text (concat (splitByParagraphs s n)) s"
  using same_text_trans [OF gather_same split_same] by (simp add: splitByParagraphs_def splitParagraphs_def)

lemma splitSentences_same: "same_text (concat (splitSentences s)) s"
proof (induction s rule: splitSentences.induct)
  case (1 s)
  show ?case
  proof (cases "str_index s ''. ''")
    case None
    then show ?thesis by (subst splitSentences.simps) (simp add: blank_same)
  next
    case (Some i)
    have s: "s = take (i + 1) s @ '' '' @ drop (i + 2) s"
    proof -
      have "s = take i s @ ''. '' @ drop (i + 2) s" using str_index_split [OF Some] by simp
      then have rest: "drop i s = ''. '' @ drop (i + 2) s" by (metis append_take_drop_id same_append_eq)
      have "take (i + 1) s = take i s @ take 1 (drop i s)" by (rule take_add)
      also have "\<dots> = take i s @ ''.''" by (simp add: rest)
      finally have "take (i + 1) s = take i s @ ''.''" .
      then show ?thesis using str_index_split [OF Some] by simp
    qed
    have "same_text (take (i + 1) s @ concat (splitSentences (drop (i + 2) s))) (take (i + 1) s @ drop (i + 2) s)"
      by (rule same_text_append [OF same_text_refl 1 [OF Some]])
    also have "same_text (take (i + 1) s @ drop (i + 2) s) s"
      using same_text_context [OF blank_separators(3), of "take (i + 1) s" "drop (i + 2) s"] s by simp
    finally show ?thesis using Some by (subst splitSentences.simps) simp
  qed
qed

lemma splitBySentences_same: "same_text (concat (splitBySentences s n)) s"
  using same_text_trans [OF gather_same splitSentences_same] by (simp add: splitBySentences_def)

lemma text_of_puts: "text_of (foldl put_chunk chunks ss) = text_of chunks @ concat ss"
  by (induction ss arbitrary: chunks) (simp_all add: put_chunk_def text_of_def)

lemma PlainText_same: "same_text (text_of (PlainText_Chunk n content)) content"
proof (cases "trim_space content = []")
  case True
  then show ?thesis by (simp add: PlainText_Chunk_def text_of_def blank_same)
next
  case False
  obtain chunks buf where r: "fold (paragraph_step n) (splitParagraphs content) ([], []) = (chunks, buf)"
    by (cases "fold (paragraph_step n) (splitParagraphs content) ([], [])")
  have "same_text (text_of result' @ buf') (text_of result @ buf @ p)" if step: "paragraph_step n p (result, buf) = (result', buf')"
    for p result buf result' buf'
  proof -
    consider (blank) "trim_space p = []" | (large) "trim_space p \<noteq> []" "estimateChunkTokens (trim_space p) > n"
      | (small) "trim_space p \<noteq> []" "\<not> estimateChunkTokens (trim_space p) > n" by blast
    then have "same_text (text_of result' @ buf') (text_of result @ buf @ trim_space p)"
    proof cases
      case blank
      then show ?thesis using step by (simp add: paragraph_step_def)
    next
      case large
      then show ?thesis using step same_text_append [OF flush_same [OF emits_chunk, of result buf] splitBySentences_same [of "trim_space p" n]]
        by (auto simp: paragraph_step_def text_of_puts)
    next
      case small
      then show ?thesis using step add_piece_same [OF emits_chunk blank_separators(2), of n "trim_space p" result buf result' buf']
        by (simp add: paragraph_step_def)
    qed
    then show ?thesis using same_text_append [OF same_text_refl [of "text_of result @ buf"] trim_space_same [of p]]
      by (simp add: same_text_trans)
  qed
  from fold_same [where f = text_of, OF this r] have "same_text (text_of chunks @ buf) (concat (splitParagraphs content))"
    by (simp add: text_of_def)
  also have "same_text (concat (splitParagraphs content)) content" by (simp add: splitParagraphs_def split_same)
  finally show ?thesis using False flush_same [OF emits_chunk, of chunks buf] by (simp add: PlainText_Chunk_def r same_text_trans)
qed

lemma section_loop_same:
  assumes "section_loop lines (sections, current) = (sections', current')"
  shows "same_text (concat sections' @ concat current') (concat sections @ concat current @ concat lines)"
  using assms
proof (induction lines arbitrary: sections current)
  case (Cons line lines)
  show ?case
  proof (cases "has_prefix line ''## '' \<and> current \<noteq> []")
    case True
    then have "section_loop lines (sections @ [str_join newline current], [line]) = (sections', current')" using Cons.prems by auto
    from Cons.IH [OF this]
    have "same_text (concat sections' @ concat current') (concat sections @ str_join newline current @ line @ concat lines)" by simp
    then show ?thesis
      using same_text_context [OF same_text_sym [OF join_same [of newline current]], of "concat sections" "line @ concat lines"]
      by (simp add: same_text_trans)
  next
    case False
    then have "section_loop lines (sections, current @ [line]) = (sections', current')" using Cons.prems by auto
    from Cons.IH [OF this] show ?thesis by simp
  qed
qed simp

lemma sections_same: "same_text (concat (splitMarkdownSections content)) content"
proof -
  obtain sections current where r: "section_loop (split_on newline content) ([], []) = (sections, current)"
    by (cases "section_loop (split_on newline content) ([], [])")
  have "same_text (concat sections @ str_join newline current) (concat sections @ concat current)"
    by (rule same_text_append [OF same_text_refl same_text_sym [OF join_same]]) simp
  also have "same_text (concat sections @ concat current) (concat (split_on newline content))"
    using section_loop_same [OF r] by simp
  also have "same_text (concat (split_on newline content)) content" by (simp add: split_same)
  finally show ?thesis by (auto simp: splitMarkdownSections_def r)
qed

lemma section_chunks_same: "same_text (text_of (section_chunks n sec chunks)) (text_of chunks @ sec)"
proof -
  consider "trim_space sec = []" | "trim_space sec \<noteq> []" "estimateChunkTokens (trim_space sec) \<le> n"
    | "trim_space sec \<noteq> []" "\<not> estimateChunkTokens (trim_space sec) \<le> n" by blast
  then have "same_text (text_of (section_chunks n sec chunks)) (text_of chunks @ trim_space sec)"
  proof cases
    case 3
    then show ?thesis
      using same_text_append [OF same_text_refl [of "text_of chunks"] splitByParagraphs_same [of "trim_space sec" n]]
      by (simp add: section_chunks_def text_of_puts)
  qed (simp_all add: section_chunks_def put_chunk_def text_of_def)
  then show ?thesis using same_text_append [OF same_text_refl [of "text_of chunks"] trim_space_same [of sec]]
    by (simp add: same_text_trans)
qed

lemma sections_fold_same: "same_text (text_of (fold (section_chunks n) secs chunks)) (text_of chunks @ concat secs)"
proof (induction secs arbitrary: chunks)
  case (Cons sec secs)
  have "same_text (text_of (fold (section_chunks n) secs (section_chunks n sec chunks))) (text_of (section_chunks n sec chunks) @ concat secs)"
    by (rule Cons)
  also have "same_text (text_of (section_chunks n sec chunks) @ concat secs) ((text_of chunks @ sec) @ concat secs)"
    by (rule same_text_append [OF section_chunks_same same_text_refl])
  finally show ?case by simp
qed simp

lemma Markdown_same: "same_text (text_of (Markdown_Chunk n content)) content"
proof (cases "trim_space content = []")
  case False
  have "same_text (text_of (fold (section_chunks n) (splitMarkdownSections content) [])) (concat (splitMarkdownSections content))"
    using sections_fold_same [of n "splitMarkdownSections content" "[]"] by (simp add: text_of_def)
  then show ?thesis using False sections_same by (simp add: Markdown_Chunk_def same_text_trans)
qed (simp add: Markdown_Chunk_def text_of_def blank_same)

section \<open>Positions\<close>

definition in_order :: "chunk list \<Rightarrow> bool" where
  "in_order cs \<longleftrightarrow> map ck_order cs = [0..<length cs]"

lemma numbered_put [simp]: "in_order cs \<Longrightarrow> in_order (put_chunk cs s)"
  by (simp add: in_order_def put_chunk_def)

lemma numbered_puts: "in_order cs \<Longrightarrow> in_order (foldl put_chunk cs ss)"
  by (induction ss arbitrary: cs) simp_all

lemma numbered_flush: "in_order (fst s) \<Longrightarrow> in_order (flush put_chunk s)"
  by (cases s) (simp add: flush_def)

lemma numbered_step: "in_order (fst s) \<Longrightarrow> in_order (fst (paragraph_step n p s))"
  by (cases s) (simp add: paragraph_step_def Let_def add_piece_cases numbered_puts numbered_flush)

lemma numbered_steps: "in_order (fst s) \<Longrightarrow> in_order (fst (fold (paragraph_step n) ps s))"
  by (induction ps arbitrary: s) (simp_all add: numbered_step)

lemma numbered_sections: "in_order cs \<Longrightarrow> in_order (fold (section_chunks n) secs cs)"
  by (induction secs arbitrary: cs) (simp_all add: section_chunks_def Let_def numbered_puts)

lemma Chunk_numbered: "in_order (Chunk c content)"
proof -
  have none: "in_order []" by (simp add: in_order_def)
  show ?thesis
    by (cases c) (simp_all add: Markdown_Chunk_def PlainText_Chunk_def none numbered_sections numbered_flush numbered_steps)
qed

section \<open>Sizes\<close>

definition fits :: "int \<Rightarrow> string \<Rightarrow> bool" where
  "fits n s \<longleftrightarrow> estimateChunkTokens s \<le> n"

lemma chunk_tokens_mono: "length s \<le> length t \<Longrightarrow> estimateChunkTokens s \<le> estimateChunkTokens t"
  by (auto simp: estimateChunkTokens_def chunkCharsPerToken_def intro: zdiv_mono1)

lemma fits_trim: "fits n s \<Longrightarrow> fits n (trim_space s)"
  using chunk_tokens_mono [OF length_trim_space, of s] by (simp add: fits_def)

definition lists :: "('a list \<Rightarrow> string list) \<Rightarrow> ('a list \<Rightarrow> string \<Rightarrow> 'a list) \<Rightarrow> bool" where
  "lists g emit \<longleftrightarrow> (\<forall>result s. g (emit result s) = g result @ [s])"

lemma lists_text [simp]: "lists (\<lambda>r. r) put_text"
  by (simp add: lists_def put_text_def)

lemma lists_chunk [simp]: "lists (map ck_content) put_chunk"
  by (simp add: lists_def put_chunk_def)

text \<open>What is put out satisfies \<open>Q\<close>, a buffer that is not empty satisfies \<open>R\<close>.\<close>

definition loop_inv :: "('a list \<Rightarrow> string list) \<Rightarrow> (string \<Rightarrow> bool) \<Rightarrow> (string \<Rightarrow> bool) \<Rightarrow> 'a list \<times> string \<Rightarrow> bool" where
  "loop_inv g Q R s \<longleftrightarrow> list_all Q (g (fst s)) \<and> (snd s \<noteq> [] \<longrightarrow> R (snd s))"

lemma add_piece_inv:
  assumes "lists g emit" and "\<And>b. R b \<Longrightarrow> Q (trim_space b)" and "\<And>b. fits n b \<Longrightarrow> R b" and "R piece" and "loop_inv g Q R s"
  shows "loop_inv g Q R (add_piece emit sep n piece s)"
  using assms by (cases s) (auto simp: add_piece_cases loop_inv_def lists_def fits_def)

lemma flush_inv:
  assumes "lists g emit" and "\<And>b. R b \<Longrightarrow> Q (trim_space b)" and "loop_inv g Q R s"
  shows "list_all Q (g (flush emit s))"
  using assms by (cases s) (auto simp: flush_def loop_inv_def lists_def)

text \<open>A text is within the limit, or it is one of the pieces it was made from.\<close>

definition fits_or_piece :: "int \<Rightarrow> string list \<Rightarrow> string \<Rightarrow> bool" where
  "fits_or_piece n ps s \<longleftrightarrow> fits n s \<or> s \<in> (\<lambda>p. trim_space (trim_space p)) ` set ps"

lemma gather_fits: "list_all (fits_or_piece n ps) (gather sep n ps)"
proof -
  let ?R = "\<lambda>b. fits n b \<or> b \<in> trim_space ` set ps"
  let ?step = "\<lambda>p s. if trim_space p = [] then s else add_piece put_text sep n (trim_space p) s"
  have RQ: "?R b \<Longrightarrow> fits_or_piece n ps (trim_space b)" for b by (auto simp: fits_or_piece_def fits_trim)
  have "set qs \<subseteq> set ps \<Longrightarrow> loop_inv (\<lambda>r. r) (fits_or_piece n ps) ?R s \<Longrightarrow> loop_inv (\<lambda>r. r) (fits_or_piece n ps) ?R (fold ?step qs s)" for qs s
  proof (induction qs arbitrary: s)
    case (Cons q qs)
    then have "loop_inv (\<lambda>r. r) (fits_or_piece n ps) ?R (?step q s)"
      using add_piece_inv [where Q = "fits_or_piece n ps" and R = ?R, OF lists_text RQ, of n "trim_space q" s sep] by auto
    then show ?case using Cons by simp
  qed simp
  from this [OF subset_refl, of "([], [])"] have "loop_inv (\<lambda>r. r) (fits_or_piece n ps) ?R (fold ?step ps ([], []))"
    by (simp add: loop_inv_def)
  from flush_inv [where R = ?R, OF lists_text RQ this] show ?thesis unfolding gather_def .
qed

text \<open>The pieces of a document: the sentences of its paragraphs, or the paragraphs of its sections.\<close>

fun pieces_of :: "chunker \<Rightarrow> string \<Rightarrow> string list" where
  "pieces_of (MarkdownChunker n) content = concat (map (\<lambda>s. splitParagraphs (trim_space s)) (splitMarkdownSections content))"
| "pieces_of (PlainTextChunker n) content = concat (map (\<lambda>p. splitSentences (trim_space p)) (splitParagraphs content))"

lemma fits_or_piece_mono: "list_all (fits_or_piece n ps) ss \<Longrightarrow> set ps \<subseteq> set qs \<Longrightarrow> list_all (fits_or_piece n qs) ss"
  by (induction ss) (auto simp: fits_or_piece_def)

lemma contents_puts: "map ck_content (foldl put_chunk cs ss) = map ck_content cs @ ss"
  by (induction ss arbitrary: cs) (simp_all add: put_chunk_def)

lemma PlainText_fits: "list_all (fits_or_piece n (pieces_of (PlainTextChunker m) content)) (map ck_content (PlainText_Chunk n content))"
proof -
  let ?Q = "fits_or_piece n (pieces_of (PlainTextChunker m) content)"
  have FQ: "fits n b \<Longrightarrow> ?Q (trim_space b)" for b by (simp add: fits_or_piece_def fits_trim)
  have "set ps \<subseteq> set (splitParagraphs content) \<Longrightarrow> loop_inv (map ck_content) ?Q (fits n) s
      \<Longrightarrow> loop_inv (map ck_content) ?Q (fits n) (fold (paragraph_step n) ps s)" for ps s
  proof (induction ps arbitrary: s)
    case (Cons p ps)
    have "list_all ?Q (splitBySentences (trim_space p) n)"
      using Cons(2) unfolding splitBySentences_def by (intro fits_or_piece_mono [OF gather_fits]) auto
    then have "loop_inv (map ck_content) ?Q (fits n) (paragraph_step n p s)"
      using Cons(3) flush_inv [where R = "fits n", OF lists_chunk FQ Cons(3)] add_piece_inv [where R = "fits n", OF lists_chunk FQ _ _ Cons(3)]
      by (auto simp: paragraph_step_def Let_def loop_inv_def contents_puts fits_def)
    then show ?case using Cons by simp
  qed simp
  from this [OF subset_refl, of "([], [])"]
  have "loop_inv (map ck_content) ?Q (fits n) (fold (paragraph_step n) (splitParagraphs content) ([], []))" by (simp add: loop_inv_def)
  from flush_inv [where R = "fits n", OF lists_chunk FQ this] show ?thesis by (simp add: PlainText_Chunk_def)
qed

lemma Markdown_fits: "list_all (fits_or_piece n (pieces_of (MarkdownChunker m) content)) (map ck_content (Markdown_Chunk n content))"
proof -
  let ?Q = "fits_or_piece n (pieces_of (MarkdownChunker m) content)"
  have "set secs \<subseteq> set (splitMarkdownSections content) \<Longrightarrow> list_all ?Q (map ck_content cs)
      \<Longrightarrow> list_all ?Q (map ck_content (fold (section_chunks n) secs cs))" for secs cs
  proof (induction secs arbitrary: cs)
    case (Cons sec secs)
    have "list_all ?Q (splitByParagraphs (trim_space sec) n)"
      using Cons(2) unfolding splitByParagraphs_def by (intro fits_or_piece_mono [OF gather_fits]) auto
    moreover have "fits n (trim_space sec) \<Longrightarrow> ?Q (trim_space sec)" by (simp add: fits_or_piece_def)
    ultimately have "list_all ?Q (map ck_content (section_chunks n sec cs))"
      using Cons(3) by (auto simp: section_chunks_def Let_def contents_puts put_chunk_def fits_def)
    then show ?case using Cons by simp
  qed simp
  from this [OF subset_refl, of "[]"] show ?thesis by (simp add: Markdown_Chunk_def)
qed

section \<open>The theorems\<close>

text \<open>C37: Chunking loses nothing: for every document and both chunkers, the contents of the chunks, one after the other, are
  the document up to white space, and the chunks are numbered by their position.\<close>

theorem chunks_are_the_document:
  "same_text (concat (map ck_content (Chunk c content))) content \<and> map ck_order (Chunk c content) = [0..<length (Chunk c content)]"
proof
  show "same_text (concat (map ck_content (Chunk c content))) content"
    using PlainText_same Markdown_same by (cases c) (simp_all add: text_of_def)
  show "map ck_order (Chunk c content) = [0..<length (Chunk c content)]" using Chunk_numbered by (simp add: in_order_def)
qed

text \<open>C38: Every chunk is within the limit of tokens unless it is a single piece of the document, a sentence in plain text and a
  paragraph of a section in Markdown; such a piece is never joined with another one.\<close>

theorem chunks_respect_the_limit:
  "list_all (fits_or_piece (max_tokens c) (pieces_of c content)) (map ck_content (Chunk c content))"
  using PlainText_fits Markdown_fits by (cases c) (simp_all del: pieces_of.simps)

section \<open>What the comments promise\<close>

text \<open>Two paragraphs of plain text that fit together become one chunk, one that is too long is cut at its sentences.\<close>

theorem plain_text_example:
  "map ck_content (Chunk (PlainTextChunker 4) (''One two.'' @ newline @ newline @ ''Three. '' @ newline @ newline @ ''A long one. And another.''))
   = [''One two.'' @ newline @ newline @ ''Three.'', ''A long one.'', ''And another.'']"
  by code_simp

text \<open>A Markdown section of one long paragraph is over the limit, although the chunker is said to respect it.\<close>

theorem long_paragraph_is_over_the_limit:
  "map (\<lambda>c. estimateChunkTokens (ck_content c)) (Chunk (MarkdownChunker 4) ''## A. And one more sentence. And another.'') = [11]"
  by code_simp
end
