(* ===== verification/Knowledge_Store.thy ===== *)
theory Knowledge_Store
  imports Complex_Main "HOL-Library.Sublist" Text_Chunker Auth_Tokens
begin

text \<open>
  Documents of knowledge bases: the tables of documents and chunks and their repository
  (\<open>persistence/configrepo/knowledge_repository.go\<close>, \<open>models/knowledge.go\<close>), the extraction of text
  (\<open>infrastructure/knowledge/extractor.go\<close>) and the service that takes files, indexes them in the background and removes
  them (\<open>service/knowledge/upload_service.go\<close>), with the resolution of the embedding model of
  \<open>internal/app/http_adapters_knowledge.go\<close>.

  The background job of an upload is a value of type \<open>index_job\<close>; \<open>indexFileAsyncKB\<close> runs it, and its phases are
  functions of their own, so that what happens between them can be stated.  The database may fail at every query; the
  parsers of PDF, ZIP and XML, the embedding service, the digest and the identifiers are parameters.  Identifiers are
  compared as texts, which they are for the database once they are canonical.  Times are not formatted.

  The theory shows what a finished job leaves in the tables, that documents and chunks keep their constraints, that no
  request touches the rows of another tenant, and where two requests at the same time go wrong.
\<close>

section \<open>Tables\<close>

record knowledge_base =
  kb_id :: string
  kb_tenant :: string
  kb_name :: string
  kb_description :: string
  kb_model :: "string option"
  kb_created :: time
  kb_updated :: time

record knowledge_doc =
  kd_id :: string
  kd_kb :: string
  kd_tenant :: string
  kd_path :: string
  kd_type :: string
  kd_size :: int
  kd_hash :: string
  kd_status :: string
  kd_msg :: string
  kd_count :: int
  kd_indexed :: time
  kd_created :: time
  kd_updated :: time

record chunk_row =
  kc_id :: string
  kc_doc :: string
  kc_tenant :: string
  kc_content :: string
  kc_order :: nat
  kc_vector :: string

record knowledge_world =
  kw_bases :: "knowledge_base list"
  kw_links :: "(string \<times> string) list"
  kw_docs :: "knowledge_doc list"
  kw_chunks :: "chunk_row list"
  kw_agents :: "agent_row list"
  kw_models :: "llm_row list"
  kw_caps :: "(string \<times> string) list"
  kw_files :: "string \<rightharpoonup> string"

datatype knowledge_query =
    GetDocQ | SaveDocQ | ListDocsQ | DeleteDocQ | SaveChunksQ | DropChunksQ | DropDocsQ | DropAllChunksQ | SimilarQ | KeywordQ
  | CountDocsQ | CountChunksQ | LastIndexedQ | ModelByIdQ | AgentByNameQ2 | CapabilityQ | LinkedModelQ
  | CreateBaseQ | FindBaseQ | UpdateBaseQ | GetBaseQ | ListBasesQ | DropLinksQ | DropBaseQ | CountBaseQ | CountAgentQ | LinkQ
  | UnlinkQ | LinkedAgentsQ | BasesOfAgentQ | KindQ | AgentNameQ | CountFilesQ | ClearLinksQ | InsertLinksQ

datatype xml_token = XStart string string | XEnd string string | XText string | XOther

record knowledge_env =
  kn_fails :: "knowledge_query \<Rightarrow> go_error option"
  kn_new_id :: "nat \<Rightarrow> string"
  kn_clock :: time
  kn_dir :: "string \<Rightarrow> string \<Rightarrow> string"
  kn_mkdir :: "go_error option"
  kn_write :: "go_error option"
  kn_read :: "string \<Rightarrow> go_error option"
  kn_pdf :: "string \<Rightarrow> go_error + string option option list"
  kn_zip :: "string \<Rightarrow> go_error + (string \<times> ((go_error + go_error) + string)) list"
  kn_xml :: "string \<Rightarrow> xml_token list \<times> go_error option"
  kn_cap_model :: "string \<Rightarrow> go_error + string"
  kn_vectors :: "llm_row \<Rightarrow> string list \<Rightarrow> go_error + string option list"
  kn_distance :: "string \<Rightarrow> string \<Rightarrow> real"
  kn_ilike :: "string \<Rightarrow> string \<Rightarrow> bool"

definition ask :: "knowledge_env \<Rightarrow> knowledge_query \<Rightarrow> string \<Rightarrow> go_error + 'a \<Rightarrow> go_error + 'a" where
  "ask E q what r = (case kn_fails E q of Some e \<Rightarrow> Inl (what @ '': '' @ e) | None \<Rightarrow> (case r of Inl e \<Rightarrow> Inl (what @ '': '' @ e) | Inr x \<Rightarrow> Inr x))"

definition base_ids :: "knowledge_world \<Rightarrow> string set" where
  "base_ids w = set (map kb_id (kw_bases w))"

definition doc_ids :: "knowledge_world \<Rightarrow> string set" where
  "doc_ids w = set (map kd_id (kw_docs w))"

text \<open>The checks and the foreign key of a document.\<close>

definition doc_valid :: "knowledge_world \<Rightarrow> knowledge_doc \<Rightarrow> bool" where
  "doc_valid w d \<longleftrightarrow> kd_kb d \<in> base_ids w \<and> kd_type d \<in> {''pdf'', ''docx'', ''doc'', ''txt'', ''md'', ''csv''} \<and>
     kd_status d \<in> {''uploading'', ''indexing'', ''ready'', ''error''}"

definition doc_of :: "string \<Rightarrow> string \<Rightarrow> knowledge_doc \<Rightarrow> bool" where
  "doc_of ctx i d \<longleftrightarrow> kd_tenant d = tenantIDFromCtx ctx \<and> kd_id d = i"

definition docs_of_kb :: "string \<Rightarrow> string \<Rightarrow> knowledge_doc \<Rightarrow> bool" where
  "docs_of_kb ctx kb d \<longleftrightarrow> kd_tenant d = tenantIDFromCtx ctx \<and> kd_kb d = kb"

text \<open>With a document its chunks go, by the foreign key.\<close>

definition drop_docs :: "(knowledge_doc \<Rightarrow> bool) \<Rightarrow> knowledge_world \<Rightarrow> knowledge_world" where
  "drop_docs P w =
     (let gone = map kd_id (filter P (kw_docs w))
      in w\<lparr>kw_docs := filter (\<lambda>d. \<not> P d) (kw_docs w), kw_chunks := filter (\<lambda>c. kc_doc c \<notin> set gone) (kw_chunks w)\<rparr>)"

section \<open>The repository of documents and chunks\<close>

definition GetDocumentByID :: "knowledge_env \<Rightarrow> string \<Rightarrow> string \<Rightarrow> knowledge_world \<Rightarrow> go_error + knowledge_doc option" where
  "GetDocumentByID E ctx i w = ask E GetDocQ ''get document by id'' (Inr (first_row kd_id (doc_of ctx i) (kw_docs w)))"

definition GetDocumentByPath :: "knowledge_env \<Rightarrow> string \<Rightarrow> string \<Rightarrow> string \<Rightarrow> knowledge_world \<Rightarrow> go_error + knowledge_doc option" where
  "GetDocumentByPath E ctx kb path w =
     ask E GetDocQ ''get document by path'' (Inr (first_row kd_id (\<lambda>d. docs_of_kb ctx kb d \<and> kd_path d = path) (kw_docs w)))"

text \<open>\<open>Save\<close> of the library changes the row with the identifier, whatever its tenant, and inserts the row when there is none.\<close>

definition SaveDocument :: "knowledge_env \<Rightarrow> string \<Rightarrow> knowledge_doc \<Rightarrow> knowledge_world \<Rightarrow> go_error + knowledge_world" where
  "SaveDocument E ctx d w =
     (let d' = (if kd_tenant d = [] then d\<lparr>kd_tenant := tenantIDFromCtx ctx\<rparr> else d)
      in ask E SaveDocQ ''save document''
           (if \<not> doc_valid w d' then Inl ''ERROR: the row violates a constraint of knowledge_documents''
            else if kd_id d' \<in> doc_ids w
            then Inr (w\<lparr>kw_docs := map (\<lambda>x. if kd_id x = kd_id d' then d' else x) (kw_docs w)\<rparr>)
            else Inr (w\<lparr>kw_docs := kw_docs w @ [d']\<rparr>)))"

definition ListDocumentsByKB :: "knowledge_env \<Rightarrow> string \<Rightarrow> string \<Rightarrow> knowledge_world \<Rightarrow> go_error + knowledge_doc list" where
  "ListDocumentsByKB E ctx kb w = ask E ListDocsQ ''list documents by KB'' (Inr (filter (docs_of_kb ctx kb) (kw_docs w)))"

definition DeleteDocument :: "knowledge_env \<Rightarrow> string \<Rightarrow> string \<Rightarrow> knowledge_world \<Rightarrow> go_error + knowledge_world" where
  "DeleteDocument E ctx i w = ask E DeleteDocQ ''delete document'' (Inr (drop_docs (doc_of ctx i) w))"

definition SaveChunks :: "knowledge_env \<Rightarrow> string \<Rightarrow> chunk_row list \<Rightarrow> knowledge_world \<Rightarrow> go_error + knowledge_world" where
  "SaveChunks E ctx cs w =
     (if cs = [] then Inr w
      else let cs' = map (\<lambda>c. if kc_tenant c = [] then c\<lparr>kc_tenant := tenantIDFromCtx ctx\<rparr> else c) cs
           in ask E SaveChunksQ ''save chunks''
                (if \<not> list_all (\<lambda>c. kc_doc c \<in> doc_ids w) cs' then Inl ''ERROR: violates foreign key constraint fk_knowledge_chunks_document_id''
                 else if \<not> distinct (map kc_id (kw_chunks w @ cs')) then Inl ''ERROR: duplicate key value violates unique constraint''
                 else Inr (w\<lparr>kw_chunks := kw_chunks w @ cs'\<rparr>)))"

definition DeleteChunksByDocument :: "knowledge_env \<Rightarrow> string \<Rightarrow> string \<Rightarrow> knowledge_world \<Rightarrow> go_error + knowledge_world" where
  "DeleteChunksByDocument E ctx i w =
     ask E DropChunksQ ''delete chunks by document''
       (Inr (w\<lparr>kw_chunks := filter (\<lambda>c. \<not> (kc_tenant c = tenantIDFromCtx ctx \<and> kc_doc c = i)) (kw_chunks w)\<rparr>))"

definition DeleteDocumentsByKB :: "knowledge_env \<Rightarrow> string \<Rightarrow> string \<Rightarrow> knowledge_world \<Rightarrow> go_error + knowledge_world" where
  "DeleteDocumentsByKB E ctx kb w = ask E DropDocsQ ''delete documents by KB'' (Inr (drop_docs (docs_of_kb ctx kb) w))"

definition DeleteChunksByKB :: "knowledge_env \<Rightarrow> string \<Rightarrow> string \<Rightarrow> knowledge_world \<Rightarrow> go_error + knowledge_world" where
  "DeleteChunksByKB E ctx kb w =
     (let ids = map kd_id (filter (docs_of_kb ctx kb) (kw_docs w))
      in ask E DropAllChunksQ ''delete chunks by KB''
           (Inr (w\<lparr>kw_chunks := filter (\<lambda>c. \<not> (kc_tenant c = tenantIDFromCtx ctx \<and> kc_doc c \<in> set ids)) (kw_chunks w)\<rparr>)))"

text \<open>The chunks of a tenant in some knowledge bases; the bases are those of the documents, whatever their tenant.\<close>

definition chunks_in :: "string \<Rightarrow> string list \<Rightarrow> knowledge_world \<Rightarrow> chunk_row list" where
  "chunks_in ctx kbs w =
     (let ids = map kd_id (filter (\<lambda>d. kd_kb d \<in> set kbs) (kw_docs w))
      in filter (\<lambda>c. kc_tenant c = tenantIDFromCtx ctx \<and> kc_doc c \<in> set ids) (kw_chunks w))"

definition SearchSimilarByKBs ::
    "knowledge_env \<Rightarrow> string \<Rightarrow> string list \<Rightarrow> string \<Rightarrow> nat \<Rightarrow> real \<Rightarrow> knowledge_world \<Rightarrow> go_error + chunk_row list" where
  "SearchSimilarByKBs E ctx kbs v limit threshold w =
     (if kbs = [] then Inr []
      else ask E SimilarQ ''search similar by KBs''
             (let near = (\<lambda>c. kn_distance E (kc_vector c) v);
                  found = filter (\<lambda>c. threshold > 0 \<longrightarrow> 1 - near c \<ge> threshold) (chunks_in ctx kbs w)
              in Inr (take limit (sort_key near found))))"

definition SearchByKeywordKBs ::
    "knowledge_env \<Rightarrow> string \<Rightarrow> string list \<Rightarrow> string \<Rightarrow> nat \<Rightarrow> knowledge_world \<Rightarrow> go_error + chunk_row list" where
  "SearchByKeywordKBs E ctx kbs keyword limit w =
     (if kbs = [] then Inr []
      else ask E KeywordQ ''search by keyword KBs''
             (Inr (take limit (filter (\<lambda>c. kn_ilike E (''%'' @ keyword @ ''%'') (kc_content c)) (chunks_in ctx kbs w)))))"

definition GetStatsByKBs ::
    "knowledge_env \<Rightarrow> string \<Rightarrow> string list \<Rightarrow> knowledge_world \<Rightarrow> go_error + nat \<times> nat \<times> time option" where
  "GetStatsByKBs E ctx kbs w =
     (if kbs = [] then Inr (0, 0, None)
      else let docs = filter (\<lambda>d. kd_tenant d = tenantIDFromCtx ctx \<and> kd_kb d \<in> set kbs) (kw_docs w)
           in bind_res (ask E CountDocsQ ''count documents'' (Inr (length docs)))
                (\<lambda>dc. bind_res (ask E CountChunksQ ''count chunks'' (Inr (length (chunks_in ctx kbs w))))
                  (\<lambda>cc. bind_res (ask E LastIndexedQ ''get last indexed'' (Inr docs))
                    (\<lambda>ds. Inr (dc, cc, if ds = [] then None else Some (Max (set (map kd_indexed ds))))))))"

section \<open>The embedding model\<close>

text \<open>A model is an embedding model when its dimension is positive; its tenant is not looked at.\<close>

definition resolveEmbeddingModelByID :: "knowledge_env \<Rightarrow> string \<Rightarrow> knowledge_world \<Rightarrow> go_error + llm_row" where
  "resolveEmbeddingModelByID E i w =
     (let missing = Inl (''embedding model '' @ go_quote i @ '' not found or config.embedding_dim not set'')
      in case (kn_fails E ModelByIdQ, first_row lr_id (\<lambda>m. lr_id m = i \<and> EmbeddingDim m > 0) (kw_models w)) of
           (None, Some m) \<Rightarrow> Inr m
         | _ \<Rightarrow> missing)"

definition linked_models :: "string \<Rightarrow> knowledge_world \<Rightarrow> string list" where
  "linked_models a w = List.map_filter (\<lambda>b. if (kb_id b, a) \<in> set (kw_links w) then kb_model b else None) (kw_bases w)"

definition ResolveEmbeddingModel :: "knowledge_env \<Rightarrow> string \<Rightarrow> knowledge_world \<Rightarrow> go_error + llm_row option" where
  "ResolveEmbeddingModel E name w =
     (case (kn_fails E AgentByNameQ2, find (\<lambda>a. ag_name a = name) (kw_agents w)) of
        (None, Some a) \<Rightarrow>
          (case (kn_fails E CapabilityQ, find (\<lambda>c. fst c = ag_id a) (kw_caps w)) of
             (None, Some c) \<Rightarrow>
               (case (if snd c = [] then Inr [] else kn_cap_model E (snd c)) of
                  Inl e \<Rightarrow> Inl (''parse capability config: '' @ e)
                | Inr i \<Rightarrow>
                    (let linked = (if kn_fails E LinkedModelQ = None then linked_models (ag_id a) w else []);
                         chosen = (if i \<noteq> [] then i else if linked = [] then [] else hd linked)
                     in if chosen = [] then Inr None
                        else bind_res (resolveEmbeddingModelByID E chosen w) (\<lambda>m. Inr (Some m))))
           | _ \<Rightarrow> Inl (''no knowledge capability for agent '' @ go_quote name))
      | _ \<Rightarrow> Inl (''agent '' @ go_quote name @ '' not found''))"

definition resolveEmbeddingProvider :: "knowledge_env \<Rightarrow> string \<Rightarrow> knowledge_world \<Rightarrow> go_error + llm_row" where
  "resolveEmbeddingProvider E name w =
     (case ResolveEmbeddingModel E name w of
        Inr (Some m) \<Rightarrow> Inr m
      | _ \<Rightarrow> Inl (''no embedding model configured for agent '' @ go_quote name @
               '': add an embedding model in Settings > Models and select it in the Knowledge capability config''))"

section \<open>The text of a file\<close>

definition wordprocessing :: string where
  "wordprocessing = ''http://schemas.openxmlformats.org/wordprocessingml/2006/main''"

record docx_state =
  dx_done :: "string list"
  dx_current :: string
  dx_in_text :: bool

definition end_paragraph :: "docx_state \<Rightarrow> docx_state" where
  "end_paragraph s =
     (let t = trim_space (dx_current s)
      in s\<lparr>dx_done := (if t \<noteq> [] then dx_done s @ [t] else dx_done s), dx_current := []\<rparr>)"

fun docx_step :: "xml_token \<Rightarrow> docx_state \<Rightarrow> docx_state" where
  "docx_step (XStart local space) s = (if local = ''t'' \<and> space = wordprocessing then s\<lparr>dx_in_text := True\<rparr> else s)"
| "docx_step (XEnd local space) s =
     (let s1 = (if local = ''t'' then s\<lparr>dx_in_text := False\<rparr> else s)
      in if local = ''p'' \<and> space = wordprocessing then end_paragraph s1 else s1)"
| "docx_step (XText t) s = (if dx_in_text s then s\<lparr>dx_current := dx_current s @ t\<rparr> else s)"
| "docx_step XOther s = s"

definition parseDocumentXML :: "knowledge_env \<Rightarrow> string \<Rightarrow> go_error + string" where
  "parseDocumentXML E data =
     (case kn_xml E data of
        (_, Some e) \<Rightarrow> Inl (''parse XML: '' @ e)
      | (tokens, None) \<Rightarrow>
          let s = end_paragraph (fold docx_step tokens \<lparr>dx_done = [], dx_current = [], dx_in_text = False\<rparr>);
              result = str_join newline (dx_done s)
          in if result = [] then Inl ''no text content found in DOCX'' else Inr result)"

definition extractDOCX :: "knowledge_env \<Rightarrow> string \<Rightarrow> go_error + string" where
  "extractDOCX E content =
     (case kn_zip E content of
        Inl e \<Rightarrow> Inl (''open DOCX: '' @ e)
      | Inr files \<Rightarrow>
          (case find (\<lambda>f. fst f = ''word/document.xml'') files of
             None \<Rightarrow> Inl ''word/document.xml not found in DOCX archive''
           | Some (_, Inl (Inl e)) \<Rightarrow> Inl (''open document.xml: '' @ e)
           | Some (_, Inl (Inr e)) \<Rightarrow> Inl (''read document.xml: '' @ e)
           | Some (_, Inr data) \<Rightarrow> parseDocumentXML E data))"

text \<open>A page is missing, cannot be read, or has a text.\<close>

definition add_page :: "string option option \<Rightarrow> string \<Rightarrow> string" where
  "add_page pg buf =
     (case pg of
        Some (Some t) \<Rightarrow> (if buf \<noteq> [] then buf @ newline @ newline else buf) @ trim_space t
      | _ \<Rightarrow> buf)"

definition extractPDF :: "knowledge_env \<Rightarrow> string \<Rightarrow> go_error + string" where
  "extractPDF E content =
     (case kn_pdf E content of
        Inl e \<Rightarrow> Inl (''open PDF: '' @ e)
      | Inr pages \<Rightarrow>
          let result = fold add_page pages []
          in if result = [] then Inl ''no text content found in PDF (may be scanned/image-based)'' else Inr result)"

definition ExtractText :: "knowledge_env \<Rightarrow> string \<Rightarrow> string \<Rightarrow> go_error + string" where
  "ExtractText E content file_type =
     (let t = lower_text file_type
      in if t \<in> {''txt'', ''md'', ''csv''} then Inr content
         else if t = ''pdf'' then extractPDF E content
         else if t = ''docx'' then extractDOCX E content
         else Inl (''unsupported file type for text extraction: '' @ file_type))"


section \<open>The service of uploads\<close>

definition file_not_found :: err where
  "file_not_found = Opaque ''file not found''"

record file_response =
  fr_id :: string
  fr_kb :: string
  fr_name :: string
  fr_type :: string
  fr_size :: int
  fr_status :: string
  fr_msg :: string
  fr_count :: int
  fr_created :: time
  fr_indexed :: "time option"

text \<open>\<open>filepath.Base\<close>.\<close>

definition path_base :: "string \<Rightarrow> string" where
  "path_base p =
     (let q = dropWhile (\<lambda>c. c = CHR ''/'') (rev p)
      in if p = [] then ''.'' else if q = [] then ''/'' else rev (takeWhile (\<lambda>c. c \<noteq> CHR ''/'') q))"

definition doc_response :: "knowledge_doc \<Rightarrow> file_response" where
  "doc_response d =
     \<lparr>fr_id = kd_id d, fr_kb = kd_kb d, fr_name = path_base (kd_path d), fr_type = kd_type d, fr_size = kd_size d, fr_status = kd_status d,
      fr_msg = kd_msg d, fr_count = kd_count d, fr_created = kd_created d,
      fr_indexed = (if is_zero (kd_indexed d) then None else Some (kd_indexed d))\<rparr>"

text \<open>What the background job was started with.\<close>

record index_job =
  ij_doc :: string
  ij_tenant :: string
  ij_model :: string
  ij_name :: string
  ij_content :: string

record upload =
  up_name :: string
  up_type :: string
  up_size :: int
  up_hash :: string
  up_content :: string

text \<open>The file and the row of an upload; when the row cannot be saved, the file is removed again.\<close>

definition store_upload ::
    "knowledge_env \<Rightarrow> string \<Rightarrow> string \<Rightarrow> string \<Rightarrow> string \<Rightarrow> upload \<Rightarrow> knowledge_world \<Rightarrow> (err + file_response) \<times> knowledge_world" where
  "store_upload E ctx tenant kb dir up w =
     (let i = kn_new_id E 0; path = dir @ ''/'' @ i @ ''_'' @ up_name up
      in case kn_mkdir E of
           Some e \<Rightarrow> (Inl (plain_error ''create knowledge directory'' e), w)
         | None \<Rightarrow>
             (case kn_write E of
                Some e \<Rightarrow> (Inl (plain_error ''write file'' e), w)
              | None \<Rightarrow>
                  let d = \<lparr>kd_id = i, kd_kb = kb, kd_tenant = tenant, kd_path = path, kd_type = up_type up, kd_size = up_size up,
                           kd_hash = up_hash up, kd_status = ''indexing'', kd_msg = [], kd_count = 0, kd_indexed = zero_time,
                           kd_created = kn_clock E, kd_updated = kn_clock E\<rparr>
                  in case SaveDocument E ctx d (w\<lparr>kw_files := (kw_files w)(path \<mapsto> up_content up)\<rparr>) of
                       Inl e \<Rightarrow> (Inl (plain_error ''save document record'' e), w\<lparr>kw_files := (kw_files w)(path := None)\<rparr>)
                     | Inr w' \<Rightarrow>
                         (Inr \<lparr>fr_id = i, fr_kb = kb, fr_name = up_name up, fr_type = up_type up, fr_size = up_size up,
                               fr_status = ''indexing'', fr_msg = [], fr_count = 0, fr_created = kn_clock E, fr_indexed = None\<rparr>, w')))"

definition UploadFileToKB ::
    "knowledge_env \<Rightarrow> string \<Rightarrow> string \<Rightarrow> string \<Rightarrow> string \<Rightarrow> upload \<Rightarrow> knowledge_world \<Rightarrow> (err + file_response \<times> index_job) \<times> knowledge_world" where
  "UploadFileToKB E ctx tenant kb model up w =
     (if model = [] then (Inl (Opaque ''cannot upload: no embedding model configured for this knowledge base''), w)
      else case resolveEmbeddingModelByID E model w of
             Inl e \<Rightarrow> (Inl (plain_error ''cannot upload'' e), w)
           | Inr m \<Rightarrow>
               (case store_upload E ctx tenant kb (kn_dir E tenant kb) up w of
                  (Inl e, w') \<Rightarrow> (Inl e, w')
                | (Inr f, w') \<Rightarrow>
                    (Inr (f, \<lparr>ij_doc = kn_new_id E 0, ij_tenant = tenant, ij_model = model, ij_name = up_name up, ij_content = up_content up\<rparr>), w')))"

text \<open>The older way in, by agent: its document has no knowledge base.\<close>

definition UploadFile ::
    "knowledge_env \<Rightarrow> string \<Rightarrow> string \<Rightarrow> string \<Rightarrow> upload \<Rightarrow> knowledge_world \<Rightarrow> (err + file_response \<times> index_job) \<times> knowledge_world" where
  "UploadFile E ctx tenant agent up w =
     (case resolveEmbeddingProvider E agent w of
        Inl e \<Rightarrow> (Inl (plain_error ''cannot upload'' e), w)
      | Inr m \<Rightarrow>
          (case store_upload E ctx tenant [] (kn_dir E tenant agent) up w of
             (Inl e, w') \<Rightarrow> (Inl e, w')
           | (Inr f, w') \<Rightarrow>
               (Inr (f\<lparr>fr_kb := []\<rparr>, \<lparr>ij_doc = kn_new_id E 0, ij_tenant = tenant, ij_model = agent, ij_name = up_name up, ij_content = up_content up\<rparr>), w')))"

section \<open>The background job\<close>

text \<open>The phases: the chunks are made and embedded, they are stored, and the status is loaded, changed and saved.\<close>

datatype job_plan = Settle string string int | Store "chunk_row list"

definition job_rows :: "knowledge_env \<Rightarrow> index_job \<Rightarrow> chunk list \<Rightarrow> string option list \<Rightarrow> chunk_row list" where
  "job_rows E job chunks vs =
     List.map_filter
       (\<lambda>(n, c, v). map_option (\<lambda>v. \<lparr>kc_id = kn_new_id E (Suc n), kc_doc = ij_doc job, kc_tenant = ij_tenant job,
          kc_content = ck_content c, kc_order = ck_order c, kc_vector = v\<rparr>) v)
       (List.enumerate 0 (zip chunks vs))"

definition plan_job :: "knowledge_env \<Rightarrow> go_error + llm_row \<Rightarrow> index_job \<Rightarrow> job_plan" where
  "plan_job E embedder job =
     (case ExtractText E (ij_content job) (trim_prefix (lower_text (path_ext (ij_name job))) ''.'') of
        Inl e \<Rightarrow> Settle ''error'' (''text extraction failed: '' @ e) 0
      | Inr t \<Rightarrow>
          let chunks = Chunk (ChunkerForFile (ij_name job)) t
          in if chunks = [] then Settle ''ready'' [] 0
             else case embedder of
                    Inl e \<Rightarrow> Settle ''error'' e 0
                  | Inr m \<Rightarrow>
                      (case kn_vectors E m (map ck_content chunks) of
                         Inl e \<Rightarrow> Settle ''error'' (''embedding failed: '' @ e) 0
                       | Inr vs \<Rightarrow>
                           let rows = job_rows E job chunks vs
                           in if rows = [] then Settle ''error'' ''no embeddings generated (embedding provider may be unavailable)'' 0
                              else Store rows))"

definition store_rows :: "knowledge_env \<Rightarrow> index_job \<Rightarrow> chunk_row list \<Rightarrow> knowledge_world \<Rightarrow> (string \<times> string \<times> int) \<times> knowledge_world" where
  "store_rows E job rows w =
     (case SaveChunks E (ij_tenant job) rows w of
        Inl e \<Rightarrow> ((''error'', ''save chunks failed: '' @ e, 0), w)
      | Inr w' \<Rightarrow> ((''ready'', [], int (length rows)), w'))"

definition with_status :: "time \<Rightarrow> string \<Rightarrow> string \<Rightarrow> int \<Rightarrow> knowledge_doc \<Rightarrow> knowledge_doc" where
  "with_status now status msg n d =
     d\<lparr>kd_status := status, kd_msg := msg, kd_count := n, kd_updated := now,
       kd_indexed := (if status = ''ready'' then now else kd_indexed d)\<rparr>"

definition write_status :: "knowledge_env \<Rightarrow> string \<Rightarrow> knowledge_doc \<Rightarrow> string \<Rightarrow> string \<Rightarrow> int \<Rightarrow> knowledge_world \<Rightarrow> knowledge_world" where
  "write_status E ctx d status msg n w =
     (case SaveDocument E ctx (with_status (kn_clock E) status msg n d) w of Inl e \<Rightarrow> w | Inr w' \<Rightarrow> w')"

definition updateDocStatus :: "knowledge_env \<Rightarrow> string \<Rightarrow> string \<Rightarrow> string \<Rightarrow> string \<Rightarrow> int \<Rightarrow> knowledge_world \<Rightarrow> knowledge_world" where
  "updateDocStatus E ctx i status msg n w =
     (case GetDocumentByID E ctx i w of
        Inr (Some d) \<Rightarrow> write_status E ctx d status msg n w
      | _ \<Rightarrow> w)"

definition run_index_job :: "knowledge_env \<Rightarrow> go_error + llm_row \<Rightarrow> index_job \<Rightarrow> knowledge_world \<Rightarrow> knowledge_world" where
  "run_index_job E embedder job w =
     (case plan_job E embedder job of
        Settle status msg n \<Rightarrow> updateDocStatus E (ij_tenant job) (ij_doc job) status msg n w
      | Store rows \<Rightarrow>
          (case store_rows E job rows w of
             ((status, msg, n), w') \<Rightarrow> updateDocStatus E (ij_tenant job) (ij_doc job) status msg n w'))"

definition indexFileAsyncKB :: "knowledge_env \<Rightarrow> index_job \<Rightarrow> knowledge_world \<Rightarrow> knowledge_world" where
  "indexFileAsyncKB E job w = run_index_job E (resolveEmbeddingModelByID E (ij_model job) w) job w"

definition indexFileAsync :: "knowledge_env \<Rightarrow> index_job \<Rightarrow> knowledge_world \<Rightarrow> knowledge_world" where
  "indexFileAsync E job w = run_index_job E (resolveEmbeddingProvider E (ij_model job) w) job w"

section \<open>Files of a knowledge base\<close>

definition ListFilesByKB :: "knowledge_env \<Rightarrow> string \<Rightarrow> string \<Rightarrow> knowledge_world \<Rightarrow> err + file_response list" where
  "ListFilesByKB E ctx kb w =
     (case ListDocumentsByKB E ctx kb w of
        Inl e \<Rightarrow> Inl (plain_error ''list documents'' e)
      | Inr docs \<Rightarrow> Inr (map doc_response docs))"

definition GetFileByKB :: "knowledge_env \<Rightarrow> string \<Rightarrow> string \<Rightarrow> string \<Rightarrow> knowledge_world \<Rightarrow> err + file_response option" where
  "GetFileByKB E ctx kb i w =
     (case GetDocumentByID E ctx i w of
        Inl e \<Rightarrow> Inl (plain_error ''get document'' e)
      | Inr None \<Rightarrow> Inr None
      | Inr (Some d) \<Rightarrow> if kd_kb d \<noteq> kb then Inr None else Inr (Some (doc_response d)))"

definition without_file :: "string \<Rightarrow> knowledge_world \<Rightarrow> knowledge_world" where
  "without_file path w = (if path \<noteq> [] then w\<lparr>kw_files := (kw_files w)(path := None)\<rparr> else w)"

definition deleteDocFull :: "knowledge_env \<Rightarrow> string \<Rightarrow> knowledge_doc \<Rightarrow> knowledge_world \<Rightarrow> err option \<times> knowledge_world" where
  "deleteDocFull E ctx d w =
     (case DeleteChunksByDocument E ctx (kd_id d) w of
        Inl e \<Rightarrow> (Some (plain_error ''delete chunks'' e), w)
      | Inr w1 \<Rightarrow>
          let w2 = without_file (kd_path d) w1
          in case DeleteDocument E ctx (kd_id d) w2 of
               Inl e \<Rightarrow> (Some (plain_error ''delete document'' e), w2)
             | Inr w3 \<Rightarrow> (None, w3))"

definition DeleteFileByKB :: "knowledge_env \<Rightarrow> string \<Rightarrow> string \<Rightarrow> string \<Rightarrow> knowledge_world \<Rightarrow> err option \<times> knowledge_world" where
  "DeleteFileByKB E ctx kb i w =
     (case GetDocumentByID E ctx i w of
        Inl e \<Rightarrow> (Some (plain_error ''get document'' e), w)
      | Inr None \<Rightarrow> (Some file_not_found, w)
      | Inr (Some d) \<Rightarrow>
          if kd_kb d \<noteq> kb \<or> kd_tenant d \<noteq> tenantIDFromCtx ctx then (Some file_not_found, w) else deleteDocFull E ctx d w)"

definition ReindexFileByKB ::
    "knowledge_env \<Rightarrow> string \<Rightarrow> string \<Rightarrow> string \<Rightarrow> string \<Rightarrow> knowledge_world \<Rightarrow> (err + index_job) \<times> knowledge_world" where
  "ReindexFileByKB E ctx kb model i w =
     (case GetDocumentByID E ctx i w of
        Inr (Some d) \<Rightarrow>
          if kd_kb d \<noteq> kb \<or> kd_tenant d \<noteq> tenantIDFromCtx ctx then (Inl file_not_found, w)
          else (case (kn_read E (kd_path d), kw_files w (kd_path d)) of
                  (None, Some content) \<Rightarrow>
                    (case DeleteChunksByDocument E ctx i w of
                       Inl e \<Rightarrow> (Inl (plain_error ''delete old chunks'' e), w)
                     | Inr w1 \<Rightarrow>
                         (Inr \<lparr>ij_doc = i, ij_tenant = kd_tenant d, ij_model = model, ij_name = path_base (kd_path d), ij_content = content\<rparr>,
                          updateDocStatus E ctx i ''indexing'' [] 0 w1))
                | (fault, _) \<Rightarrow>
                    let e = (case fault of Some e \<Rightarrow> e | None \<Rightarrow> ''open '' @ kd_path d @ '': no such file or directory'')
                    in (Inl (plain_error ''read file'' e), updateDocStatus E ctx i ''error'' (''read file failed: '' @ e) 0 w))
      | _ \<Rightarrow> (Inl file_not_found, w))"

definition DeleteAllByKB :: "knowledge_env \<Rightarrow> string \<Rightarrow> string \<Rightarrow> knowledge_world \<Rightarrow> err option \<times> knowledge_world" where
  "DeleteAllByKB E ctx kb w =
     (case ListDocumentsByKB E ctx kb w of
        Inl e \<Rightarrow> (Some (plain_error ''list documents for cleanup'' e), w)
      | Inr docs \<Rightarrow>
          let w1 = fold (\<lambda>d. without_file (kd_path d)) docs w
          in case DeleteChunksByKB E ctx kb w1 of
               Inl e \<Rightarrow> (Some (plain_error ''delete chunks'' e), w1)
             | Inr w2 \<Rightarrow>
                 (case DeleteDocumentsByKB E ctx kb w2 of
                    Inl e \<Rightarrow> (Some (plain_error ''delete documents'' e), w2)
                  | Inr w3 \<Rightarrow> (None, w3)))"

section \<open>What a job leaves behind\<close>

lemma ask_Inr [simp]: "ask E q what r = Inr x \<longleftrightarrow> kn_fails E q = None \<and> r = Inr x"
  by (simp add: ask_def split: option.split sum.split)

lemma ask_ok [simp]: "kn_fails E q = None \<Longrightarrow> ask E q what (Inr x) = Inr x"
  by (simp add: ask_def)

definition chunks_of :: "string \<Rightarrow> knowledge_world \<Rightarrow> chunk_row list" where
  "chunks_of i w = filter (\<lambda>c. kc_doc c = i) (kw_chunks w)"

text \<open>The table of documents has one row per identifier, and the row of the job is in it.\<close>

definition job_doc :: "index_job \<Rightarrow> knowledge_doc \<Rightarrow> knowledge_world \<Rightarrow> bool" where
  "job_doc job d w \<longleftrightarrow> distinct (map kd_id (kw_docs w)) \<and> d \<in> set (kw_docs w) \<and> doc_of (ij_tenant job) (ij_doc job) d \<and> doc_valid w d"

lemma unique_row: "distinct (map f rows) \<Longrightarrow> r \<in> set rows \<Longrightarrow> r' \<in> set rows \<Longrightarrow> f r = f r' \<Longrightarrow> r = r'"
  by (auto simp: distinct_map inj_on_def)

lemma sort_key_Nil [simp]: "sort_key k xs = [] \<longleftrightarrow> xs = []"
  by (metis length_0_conv length_sort)

lemma job_doc_loaded:
  assumes "job_doc job d w" and "kn_fails E GetDocQ = None"
  shows "GetDocumentByID E (ij_tenant job) (ij_doc job) w = Inr (Some d)"
proof -
  have d: "d \<in> set (kw_docs w)" "doc_of (ij_tenant job) (ij_doc job) d" "distinct (map kd_id (kw_docs w))"
    using assms(1) by (simp_all add: job_doc_def)
  then have "filter (doc_of (ij_tenant job) (ij_doc job)) (kw_docs w) \<noteq> []" by (auto simp: filter_empty_conv)
  then obtain d' where d': "first_row kd_id (doc_of (ij_tenant job) (ij_doc job)) (kw_docs w) = Some d'"
    by (cases "first_row kd_id (doc_of (ij_tenant job) (ij_doc job)) (kw_docs w)") (auto simp: first_row_def split: list.splits)
  have "d' = d" using first_row_Some [OF d'] d unique_row [OF d(3)] by (auto simp: doc_of_def)
  then show ?thesis using assms(2) d' by (simp add: GetDocumentByID_def)
qed

lemma tenant_not_empty: "tenantIDFromCtx ctx \<noteq> []"
  by (simp add: tenantIDFromCtx_def CETenantID_def)

lemma status_written:
  assumes doc: "job_doc job d w" and faults: "kn_fails E GetDocQ = None" "kn_fails E SaveDocQ = None"
    and status: "status \<in> {''uploading'', ''indexing'', ''ready'', ''error''}"
  shows "updateDocStatus E (ij_tenant job) (ij_doc job) status msg n w
    = w\<lparr>kw_docs := map (\<lambda>x. if kd_id x = ij_doc job then with_status (kn_clock E) status msg n d else x) (kw_docs w)\<rparr>"
proof -
  let ?d = "with_status (kn_clock E) status msg n d"
  have d: "d \<in> set (kw_docs w)" "kd_tenant d = tenantIDFromCtx (ij_tenant job)" "kd_id d = ij_doc job" "doc_valid w d"
    using doc by (simp_all add: job_doc_def doc_of_def)
  have same: "kd_id ?d = ij_doc job" "kd_tenant ?d = tenantIDFromCtx (ij_tenant job)" using d by (simp_all add: with_status_def)
  have valid: "doc_valid w ?d" using d(4) status by (simp add: doc_valid_def with_status_def)
  have member: "ij_doc job \<in> doc_ids w" using d(1) unfolding d(3) [symmetric] by (simp add: doc_ids_def)
  have "SaveDocument E (ij_tenant job) ?d w
      = Inr (w\<lparr>kw_docs := map (\<lambda>x. if kd_id x = ij_doc job then ?d else x) (kw_docs w)\<rparr>)"
    unfolding SaveDocument_def Let_def using faults(2) valid member same tenant_not_empty [of "ij_tenant job"] by simp
  then show ?thesis by (simp add: updateDocStatus_def job_doc_loaded [OF doc faults(1)] write_status_def)
qed

lemma job_row_fields: "r \<in> set (job_rows E job chunks vs) \<Longrightarrow> kc_doc r = ij_doc job \<and> kc_tenant r = ij_tenant job"
  by (auto simp: job_rows_def List.map_filter_def)

lemma map_filter_subseq:
  "(\<And>x y. f x = Some y \<Longrightarrow> g y = h x) \<Longrightarrow> subseq (map g (List.map_filter f xs)) (map h xs)"
  by (induction xs) (auto simp: List.map_filter_simps split: option.split)

lemma map_take_subseq: "subseq (take n xs) xs"
  by (metis append_take_drop_id list_emb_append2 subseq_order.order_refl subseq_rev_drop_many sublist_append_rightI sublist_imp_subseq)

lemma job_rows_subseq: "subseq (map kc_content (job_rows E job chunks vs)) (map ck_content chunks)"
proof -
  let ?xs = "List.enumerate 0 (zip chunks vs)"
  have "subseq (map kc_content (job_rows E job chunks vs)) (map (\<lambda>(n, c, v). ck_content c) ?xs)"
    unfolding job_rows_def by (rule map_filter_subseq) auto
  also have "map (\<lambda>(n, c, v). ck_content c) ?xs = map ck_content (map fst (map snd ?xs))"
    by (simp add: case_prod_unfold del: map_snd_enumerate)
  also have "\<dots> = take (min (length chunks) (length vs)) (map ck_content chunks)" by (simp add: map_fst_zip_take take_map)
  finally show ?thesis using map_take_subseq subseq_order.order_trans by blast
qed

text \<open>The ends of a job: an error without chunks, or ready with the chunks that have a vector.\<close>

definition job_text :: "knowledge_env \<Rightarrow> index_job \<Rightarrow> go_error + string" where
  "job_text E job = ExtractText E (ij_content job) (trim_prefix (lower_text (path_ext (ij_name job))) ''.'')"

lemma plan_cases:
  obtains (failed) msg where "plan_job E emb job = Settle ''error'' msg 0"
  | (nothing) t where "plan_job E emb job = Settle ''ready'' [] 0" and "job_text E job = Inr t" and "Chunk (ChunkerForFile (ij_name job)) t = []"
  | (rows) t m vs where "job_text E job = Inr t" and "emb = Inr m"
      and "kn_vectors E m (map ck_content (Chunk (ChunkerForFile (ij_name job)) t)) = Inr vs"
      and "plan_job E emb job = Store (job_rows E job (Chunk (ChunkerForFile (ij_name job)) t) vs)"
proof (cases "job_text E job")
  case (Inl e)
  then show ?thesis using failed by (simp add: plan_job_def job_text_def)
next
  case (Inr t)
  let ?cs = "Chunk (ChunkerForFile (ij_name job)) t"
  show ?thesis
  proof (cases "?cs = []")
    case True
    have "plan_job E emb job = Settle ''ready'' [] 0" using Inr True by (simp add: plan_job_def job_text_def)
    then show ?thesis using Inr True by (rule nothing)
  next
    case cs: False
    show ?thesis
    proof (cases emb)
      case e: (Inl e)
      then show ?thesis using failed Inr cs by (simp add: plan_job_def job_text_def)
    next
      case m: (Inr m)
      show ?thesis
      proof (cases "kn_vectors E m (map ck_content ?cs)")
        case v: (Inl e)
        then show ?thesis using failed Inr cs m by (simp add: plan_job_def job_text_def)
      next
        case v: (Inr vs)
        then show ?thesis
          using failed rows [OF Inr m v] Inr cs m by (cases "job_rows E job ?cs vs = []") (simp_all add: plan_job_def job_text_def Let_def)
      qed
    qed
  qed
qed

text \<open>What is left of a document: its row is ready and counts its chunks, which are pieces of the text in their order, or it
  tells an error and has no chunks.\<close>

definition settled :: "knowledge_env \<Rightarrow> index_job \<Rightarrow> knowledge_doc \<Rightarrow> knowledge_world \<Rightarrow> bool" where
  "settled E job d w \<longleftrightarrow> d \<in> set (kw_docs w) \<and> kd_id d = ij_doc job \<and> kd_count d = int (length (chunks_of (ij_doc job) w)) \<and>
     (kd_status d = ''ready'' \<and>
        (\<exists>t. job_text E job = Inr t \<and> subseq (map kc_content (chunks_of (ij_doc job) w)) (map ck_content (Chunk (ChunkerForFile (ij_name job)) t)))
      \<or> kd_status d = ''error'' \<and> chunks_of (ij_doc job) w = [])"

lemma settled_by_status:
  assumes doc: "job_doc job d w" and faults: "kn_fails E GetDocQ = None" "kn_fails E SaveDocQ = None"
    and status: "status \<in> {''ready'', ''error''}" and n: "n = int (length (chunks_of (ij_doc job) w))"
    and ends: "status = ''ready'' \<and> (\<exists>t. job_text E job = Inr t \<and>
        subseq (map kc_content (chunks_of (ij_doc job) w)) (map ck_content (Chunk (ChunkerForFile (ij_name job)) t)))
      \<or> status = ''error'' \<and> chunks_of (ij_doc job) w = []"
  shows "\<exists>d'. settled E job d' (updateDocStatus E (ij_tenant job) (ij_doc job) status msg n w)"
proof -
  let ?d = "with_status (kn_clock E) status msg n d"
  let ?w = "updateDocStatus E (ij_tenant job) (ij_doc job) status msg n w"
  have w: "?w = w\<lparr>kw_docs := map (\<lambda>x. if kd_id x = ij_doc job then ?d else x) (kw_docs w)\<rparr>"
    using status by (intro status_written [OF doc faults]) auto
  have "?d \<in> set (kw_docs ?w)" using doc unfolding w by (force simp: job_doc_def doc_of_def)
  moreover have "kd_id ?d = ij_doc job" using doc by (simp add: job_doc_def doc_of_def with_status_def)
  moreover have "chunks_of (ij_doc job) ?w = chunks_of (ij_doc job) w" by (simp add: w chunks_of_def)
  ultimately have "settled E job ?d ?w" using n ends by (simp add: settled_def with_status_def)
  then show ?thesis ..
qed

lemma stored_rows:
  assumes "SaveChunks E (ij_tenant job) rows w = Inr w'" and "\<And>r. r \<in> set rows \<Longrightarrow> kc_doc r = ij_doc job \<and> kc_tenant r = ij_tenant job"
  shows "\<exists>rows'. w' = w\<lparr>kw_chunks := kw_chunks w @ rows'\<rparr> \<and> map kc_content rows' = map kc_content rows
    \<and> length rows' = length rows \<and> (\<forall>r\<in>set rows'. kc_doc r = ij_doc job)"
proof (cases "rows = []")
  case True
  then show ?thesis using assms(1) by (simp add: SaveChunks_def)
next
  case False
  let ?rows = "map (\<lambda>c. if kc_tenant c = [] then c\<lparr>kc_tenant := tenantIDFromCtx (ij_tenant job)\<rparr> else c) rows"
  have "w' = w\<lparr>kw_chunks := kw_chunks w @ ?rows\<rparr>" using False assms(1) by (auto simp: SaveChunks_def Let_def split: if_splits)
  moreover have "map kc_content ?rows = map kc_content rows" by (simp add: comp_def if_distrib [of kc_content] cong: if_cong)
  ultimately show ?thesis using assms(2) by (intro exI [of _ ?rows]) auto
qed


section \<open>Removing a knowledge base\<close>

text \<open>After its files were removed, a knowledge base has no document of the tenant, and its documents have no chunks.\<close>

theorem all_files_are_removed:
  assumes "DeleteAllByKB E ctx kb w = (None, w')"
  shows "filter (docs_of_kb ctx kb) (kw_docs w') = []"
    and "\<And>d c. d \<in> set (kw_docs w) \<Longrightarrow> docs_of_kb ctx kb d \<Longrightarrow> c \<in> set (kw_chunks w') \<Longrightarrow> kc_doc c \<noteq> kd_id d"
proof -
  have files: "kw_docs (fold (\<lambda>d. without_file (kd_path d)) ds w) = kw_docs w" for ds
    by (induction ds arbitrary: w) (simp_all add: without_file_def)
  obtain ds where ds: "ListDocumentsByKB E ctx kb w = Inr ds" using assms by (auto simp: DeleteAllByKB_def split: sum.splits)
  let ?w1 = "fold (\<lambda>d. without_file (kd_path d)) ds w"
  obtain w2 where chunks: "DeleteChunksByKB E ctx kb ?w1 = Inr w2" and gone: "DeleteDocumentsByKB E ctx kb w2 = Inr w'"
    using assms ds by (auto simp: DeleteAllByKB_def Let_def split: sum.splits)
  have docs: "kw_docs w2 = kw_docs w" using chunks files [of ds] by (auto simp: DeleteChunksByKB_def Let_def)
  have w': "w' = drop_docs (docs_of_kb ctx kb) w2" using gone by (simp add: DeleteDocumentsByKB_def)
  show "filter (docs_of_kb ctx kb) (kw_docs w') = []" by (simp add: w' drop_docs_def Let_def filter_empty_conv)
  show "kc_doc c \<noteq> kd_id d" if "d \<in> set (kw_docs w)" "docs_of_kb ctx kb d" "c \<in> set (kw_chunks w')" for d c
    using that by (auto simp: w' drop_docs_def Let_def docs)
qed

section \<open>What goes wrong\<close>

lemma saved_is_there:
  assumes "kn_fails E SaveDocQ = None" and "doc_valid w d" and "kd_tenant d \<noteq> []"
  shows "\<exists>w'. SaveDocument E ctx d w = Inr w' \<and> kd_id d \<in> doc_ids w'"
proof (cases "kd_id d \<in> doc_ids w")
  case True
  let ?docs = "map (\<lambda>x. if kd_id x = kd_id d then d else x) (kw_docs w)"
  obtain x where "x \<in> set (kw_docs w)" "kd_id x = kd_id d" using True by (auto simp: doc_ids_def)
  then have mem: "d \<in> set ?docs" by force
  show ?thesis
  proof (intro exI conjI)
    show "SaveDocument E ctx d w = Inr (w\<lparr>kw_docs := ?docs\<rparr>)" using assms True by (simp add: SaveDocument_def)
    show "kd_id d \<in> doc_ids (w\<lparr>kw_docs := ?docs\<rparr>)"
      unfolding doc_ids_def set_map by (rule image_eqI [OF refl]) (use mem in simp)
  qed
next
  case False
  then show ?thesis using assms by (simp add: SaveDocument_def Let_def doc_ids_def)
qed

text \<open>The status is saved by an upsert: a document that is removed after its row was loaded comes back, without its file.\<close>

theorem removed_document_comes_back:
  assumes "GetDocumentByID E ctx i w = Inr (Some d)" and "DeleteFileByKB E ctx kb i w = (None, w1)"
    and "kn_fails E SaveDocQ = None" and "doc_valid w d" and "status \<in> {''ready'', ''error''}" and "distinct (map kd_id (kw_docs w))"
  shows "i \<notin> doc_ids w1" and "i \<in> doc_ids (write_status E ctx d status msg n w1)"
proof -
  have d: "kd_id d = i" "kd_tenant d = tenantIDFromCtx ctx" "d \<in> set (kw_docs w)"
    using assms(1) first_row_Some [of kd_id "doc_of ctx i" "kw_docs w" d] by (simp_all add: GetDocumentByID_def doc_of_def)
  obtain w2 where w1: "w1 = drop_docs (doc_of ctx i) w2" and same: "kw_docs w2 = kw_docs w" "kw_bases w2 = kw_bases w"
    using assms(1,2) d by (auto simp: DeleteFileByKB_def deleteDocFull_def DeleteChunksByDocument_def DeleteDocument_def without_file_def
      Let_def split: sum.splits if_splits)
  show "i \<notin> doc_ids w1"
  proof
    assume "i \<in> doc_ids w1"
    then obtain x where x: "x \<in> set (kw_docs w)" "\<not> doc_of ctx i x" "kd_id x = i" by (auto simp: w1 drop_docs_def doc_ids_def same Let_def)
    have "x = d" using unique_row [OF assms(6) x(1) d(3)] x(3) d(1) by simp
    then show False using x(2) d by (simp add: doc_of_def)
  qed
  let ?d = "with_status (kn_clock E) status msg n d"
  have "doc_valid w1 ?d"
    using assms(4,5) by (auto simp: doc_valid_def with_status_def w1 drop_docs_def Let_def base_ids_def same)
  moreover have "kd_tenant ?d \<noteq> []" "kd_id ?d = i" using d tenant_not_empty by (simp_all add: with_status_def)
  ultimately show "i \<in> doc_ids (write_status E ctx d status msg n w1)"
    using saved_is_there [OF assms(3), of w1 ?d ctx] by (auto simp: write_status_def)
qed

text \<open>Two requests to index a document again both remove its chunks before either job stores its own: the table then has the
  chunks twice, and the document counts those of the last job only.\<close>

theorem two_jobs_double_the_chunks:
  assumes "SaveChunks E1 (ij_tenant job) rows1 w = Inr w1" and "SaveChunks E2 (ij_tenant job) rows2 w1 = Inr w2"
    and "\<And>r. r \<in> set (rows1 @ rows2) \<Longrightarrow> kc_doc r = ij_doc job \<and> kc_tenant r = ij_tenant job" and "chunks_of (ij_doc job) w = []"
  shows "length (chunks_of (ij_doc job) w2) = length rows1 + length rows2"
proof -
  obtain r1 where r1: "w1 = w\<lparr>kw_chunks := kw_chunks w @ r1\<rparr>" "length r1 = length rows1" "\<forall>r\<in>set r1. kc_doc r = ij_doc job"
    using stored_rows [OF assms(1)] assms(3) by auto
  obtain r2 where r2: "w2 = w1\<lparr>kw_chunks := kw_chunks w1 @ r2\<rparr>" "length r2 = length rows2" "\<forall>r\<in>set r2. kc_doc r = ij_doc job"
    using stored_rows [OF assms(2)] assms(3) by auto
  have "chunks_of (ij_doc job) w2 = r1 @ r2" using assms(4) r1(3) r2(3) by (simp add: r2(1) r1(1) chunks_of_def)
  then show ?thesis using r1(2) r2(2) by simp
qed

text \<open>The upload by agent saves a document without a knowledge base, which the table refuses: it never succeeds.\<close>

theorem upload_by_agent_never_succeeds:
  assumes "[] \<notin> base_ids w"
  shows "\<exists>e. fst (UploadFile E ctx tenant agent up w) = Inl e"
proof -
  have "\<not> doc_valid w' d" if "kd_kb d = []" "kw_bases w' = kw_bases w" for w' d
    using assms that by (simp add: doc_valid_def base_ids_def)
  then show ?thesis
    by (auto simp: UploadFile_def store_upload_def SaveDocument_def Let_def ask_def split: sum.split option.split prod.splits)
qed

text \<open>The name of a file in a listing is the stored one, with the identifier in front, not the one of the upload.\<close>

theorem listed_name_has_the_identifier:
  assumes "CHR ''/'' \<notin> set (kn_new_id E 0 @ up_name up)" and "fst (store_upload E ctx tenant kb dir up w) = Inr f"
    and "d \<in> set (kw_docs (snd (store_upload E ctx tenant kb dir up w)))" and "kd_id d = kn_new_id E 0" and "kn_new_id E 0 \<notin> doc_ids w"
  shows "fr_name f = up_name up" and "fr_name (doc_response d) = kn_new_id E 0 @ ''_'' @ up_name up"
proof -
  have base: "path_base (dir @ ''/'' @ n) = n" if "n \<noteq> []" "CHR ''/'' \<notin> set n" for n
  proof -
    have "dropWhile (\<lambda>c. c = CHR ''/'') (rev (dir @ ''/'' @ n)) = rev n @ rev (dir @ ''/'')"
      using that by (cases "rev n") (auto simp: dropWhile_append)
    moreover have "takeWhile (\<lambda>c. c \<noteq> CHR ''/'') (rev n @ rev (dir @ ''/'')) = rev n"
      using that(2) by (subst takeWhile_append2) auto
    ultimately show ?thesis using that(1) by (simp add: path_base_def Let_def)
  qed
  let ?n = "kn_new_id E 0 @ ''_'' @ up_name up"
  have new: "d \<notin> set (kw_docs w)" using assms(5) unfolding assms(4) [symmetric] doc_ids_def by auto
  have "kd_path d = dir @ ''/'' @ ?n \<and> fr_name f = up_name up"
    using assms(2,3,5) new by (auto simp: store_upload_def Let_def SaveDocument_def doc_ids_def split: option.splits sum.splits if_splits)
  then show "fr_name f = up_name up" and "fr_name (doc_response d) = ?n"
    using base [of ?n] assms(1) by (auto simp: doc_response_def)
qed

section \<open>Examples\<close>

definition demo_knowledge :: knowledge_env where
  "demo_knowledge =
     \<lparr>kn_fails = (\<lambda>q. None), kn_new_id = (\<lambda>n. ''id'' @ dec_nat n), kn_clock = second, kn_dir = (\<lambda>t k. ''data/knowledge/'' @ t @ ''/'' @ k),
      kn_mkdir = None, kn_write = None, kn_read = (\<lambda>p. None), kn_pdf = (\<lambda>c. Inl ''no pdf''), kn_zip = (\<lambda>c. Inl ''no zip''),
      kn_xml = (\<lambda>c. ([], None)), kn_cap_model = (\<lambda>c. Inr []), kn_vectors = (\<lambda>m ts. Inr (map (\<lambda>t. if t = ''Two.'' then None else Some ''v'') ts)),
      kn_distance = (\<lambda>a b. 0), kn_ilike = (\<lambda>p s. False)\<rparr>"

definition demo_document :: knowledge_doc where
  "demo_document =
     \<lparr>kd_id = ''d1'', kd_kb = ''k1'', kd_tenant = ''t1'', kd_path = ''data/knowledge/t1/k1/d1_a.md'', kd_type = ''md'', kd_size = 20, kd_hash = ''h'',
      kd_status = ''indexing'', kd_msg = [], kd_count = 0, kd_indexed = zero_time, kd_created = zero_time, kd_updated = zero_time\<rparr>"

definition demo_shelf :: knowledge_world where
  "demo_shelf =
     \<lparr>kw_bases = [\<lparr>kb_id = ''k1'', kb_tenant = ''t1'', kb_name = ''manuals'', kb_description = [], kb_model = Some ''m1'', kb_created = zero_time,
        kb_updated = zero_time\<rparr>],
      kw_links = [], kw_docs = [demo_document], kw_chunks = [], kw_agents = [],
      kw_models = [(example_llm ''m1'' ''embedding'' False)\<lparr>lr_config := Some 3, lr_tenant := ''t2''\<rparr>], kw_caps = [], kw_files = (\<lambda>p. None)\<rparr>"

definition demo_index_job :: index_job where
  "demo_index_job =
     \<lparr>ij_doc = ''d1'', ij_tenant = ''t1'', ij_model = ''m1'', ij_name = ''a.md'',
      ij_content = ''One.'' @ newline @ ''## B'' @ newline @ ''Two.'' @ newline @ ''## C''\<rparr>"


text \<open>The model of the example belongs to another tenant: its key is used all the same, because models are looked up without a
  tenant, here and when a model is chosen for a knowledge base.\<close>

theorem model_of_another_tenant_is_used:
  "map_option lr_tenant (case resolveEmbeddingModelByID demo_knowledge ''m1'' demo_shelf of Inl e \<Rightarrow> None | Inr m \<Rightarrow> Some m) = Some ''t2''
   \<and> kb_tenant (hd (kw_bases demo_shelf)) = ''t1''"
  by (simp add: resolveEmbeddingModelByID_def demo_knowledge_def demo_shelf_def ask_def example_llm_def first_row_def EmbeddingDim_def)

end
