(* ===== verification/Delegation_Graph.thy ===== *)
theory Delegation_Graph
  imports Prelude
begin

text \<open>
  The search that keeps delegation free of cycles (\<open>internal/app/http_adapters_schema.go\<close>, function \<open>reachable\<close>).

  The adjacency map is built from the list of edges in their order; the search takes agents from the front of a queue,
  remembers every agent it has put there and stops as soon as it meets the target.

  The theory shows that the search ends, that it finds the target exactly when there is a path to it, and that an edge
  that passes the check keeps an acyclic graph acyclic.
\<close>

type_synonym edges = "(string \<times> string) list"

definition adjacent :: "edges \<Rightarrow> string \<Rightarrow> string list" where
  "adjacent es cur = map snd (filter (\<lambda>e. fst e = cur) es)"

text \<open>One round over the neighbours: the target is met, or the agents met for the first time join the queue.\<close>

fun visit :: "string \<Rightarrow> string list \<Rightarrow> string list \<Rightarrow> string list \<Rightarrow> (string list \<times> string list) option" where
  "visit dst [] visited queue = Some (visited, queue)"
| "visit dst (n # ns) visited queue =
     (if n = dst then None
      else if n \<in> set visited then visit dst ns visited queue
      else visit dst ns (n # visited) (queue @ [n]))"

lemma visit_Some:
  assumes "visit dst ns visited queue = Some (visited', queue')"
  shows "set visited' = set visited \<union> set ns" and "set queue' = set queue \<union> (set ns - set visited)" and "dst \<notin> set ns"
    and "visited' = visited \<and> queue' = queue \<or> set visited \<subset> set visited'"
  using assms by (induction dst ns visited queue rule: visit.induct) (auto split: if_splits)

lemma visit_None: "visit dst ns visited queue = None \<longleftrightarrow> dst \<in> set ns"
  by (induction dst ns visited queue rule: visit.induct) auto

definition unvisited :: "edges \<Rightarrow> string list \<Rightarrow> nat" where
  "unvisited es visited = card (set (map snd es) - set visited)"

lemma adjacent_targets: "set (adjacent es cur) \<subseteq> set (map snd es)"
  by (auto simp: adjacent_def)

lemma unvisited_less:
  assumes "visit dst (adjacent es cur) visited queue = Some (visited', queue')"
  shows "unvisited es visited' < unvisited es visited \<or> unvisited es visited' = unvisited es visited \<and> queue' = queue"
proof (cases "visited' = visited \<and> queue' = queue")
  case False
  then have "set visited \<subset> set visited'" using visit_Some(4) [OF assms] by blast
  moreover have "set visited' \<subseteq> set visited \<union> set (map snd es)" using visit_Some(1) [OF assms] adjacent_targets by blast
  ultimately have "set (map snd es) - set visited' \<subset> set (map snd es) - set visited" by blast
  then show ?thesis by (auto simp: unvisited_def intro: psubset_card_mono)
qed simp

function search :: "edges \<Rightarrow> string \<Rightarrow> string list \<Rightarrow> string list \<Rightarrow> bool" where
  "search es dst visited [] = False"
| "search es dst visited (cur # queue) =
     (case visit dst (adjacent es cur) visited queue of
        None \<Rightarrow> True
      | Some (visited', queue') \<Rightarrow> search es dst visited' queue')"
  by pat_completeness auto
termination
  by (relation "inv_image (less_than <*lex*> less_than) (\<lambda>(es, dst, visited, queue). (unvisited es visited, length queue))")
    (auto dest!: unvisited_less)

definition reachable :: "edges \<Rightarrow> string \<Rightarrow> string \<Rightarrow> bool" where
  "reachable es src dst = (if src = dst then True else search es dst [src] [src])"

section \<open>The search is exact\<close>

lemma adjacent_iff: "n \<in> set (adjacent es cur) \<longleftrightarrow> (cur, n) \<in> set es"
  by (force simp: adjacent_def)

lemma search_sound: "search es dst visited queue \<Longrightarrow> \<exists>q\<in>set queue. (q, dst) \<in> (set es)\<^sup>+"
proof (induction es dst visited queue rule: search.induct)
  case (2 es dst visited cur queue)
  show ?case
  proof (cases "visit dst (adjacent es cur) visited queue")
    case None
    then show ?thesis by (auto simp: visit_None adjacent_iff)
  next
    case (Some r)
    obtain visited' queue' where r: "r = (visited', queue')" by (cases r)
    have v: "visit dst (adjacent es cur) visited queue = Some (visited', queue')" using Some r by simp
    from 2 v have "\<exists>q\<in>set queue'. (q, dst) \<in> (set es)\<^sup>+" by simp
    then obtain q where "q \<in> set queue'" and path: "(q, dst) \<in> (set es)\<^sup>+" by blast
    then have "q \<in> set queue \<or> (cur, q) \<in> set es" using visit_Some(2) [OF v] by (auto simp: adjacent_iff)
    then show ?thesis using path by (auto intro: trancl_into_trancl2)
  qed
qed simp

text \<open>When nothing is found, the visited agents are closed under edges and the target is not among their neighbours.\<close>

lemma search_complete:
  assumes "\<not> search es dst visited queue" and "set queue \<subseteq> set visited"
    and "\<And>v n. v \<in> set visited - set queue \<Longrightarrow> (v, n) \<in> set es \<Longrightarrow> n \<in> set visited \<and> n \<noteq> dst"
  shows "\<exists>C. set visited \<subseteq> C \<and> (\<forall>v n. v \<in> C \<longrightarrow> (v, n) \<in> set es \<longrightarrow> n \<in> C \<and> n \<noteq> dst)"
  using assms
proof (induction es dst visited queue rule: search.induct)
  case (1 es dst visited)
  then show ?case by (intro exI [of _ "set visited"]) auto
next
  case (2 es dst visited cur queue)
  obtain visited' queue' where v: "visit dst (adjacent es cur) visited queue = Some (visited', queue')"
    using 2(2) by (cases "visit dst (adjacent es cur) visited queue") auto
  note V = visit_Some [OF v]
  have "\<not> search es dst visited' queue'" using 2(2) v by simp
  moreover have "set queue' \<subseteq> set visited'" using 2(3) V(1,2) by auto
  moreover have "n \<in> set visited' \<and> n \<noteq> dst" if mem: "x \<in> set visited' - set queue'" "(x, n) \<in> set es" for x n
  proof (cases "x = cur")
    case True
    then have "n \<in> set (adjacent es cur)" using mem(2) by (simp add: adjacent_iff)
    then show ?thesis using V(1,3) by auto
  next
    case False
    then have "x \<in> set visited - set (cur # queue)" using mem(1) V(1,2) by auto
    then show ?thesis using 2(4) mem(2) V(1) by blast
  qed
  ultimately have "\<exists>C. set visited' \<subseteq> C \<and> (\<forall>v n. v \<in> C \<longrightarrow> (v, n) \<in> set es \<longrightarrow> n \<in> C \<and> n \<noteq> dst)"
    by (rule 2(1) [OF v refl])
  moreover have "set visited \<subseteq> set visited'" using V(1) by simp
  ultimately show ?case by (meson subset_trans)
qed

lemma closed_path: "(a, b) \<in> E\<^sup>+ \<Longrightarrow> a \<in> C \<Longrightarrow> \<forall>v n. v \<in> C \<longrightarrow> (v, n) \<in> E \<longrightarrow> n \<in> C \<and> n \<noteq> dst \<Longrightarrow> b \<in> C \<and> b \<noteq> dst"
  by (induction rule: trancl_induct) auto

theorem reachable_iff_path: "reachable es src dst \<longleftrightarrow> (src, dst) \<in> (set es)\<^sup>*"
proof (cases "src = dst")
  case False
  have "search es dst [src] [src] \<longleftrightarrow> (src, dst) \<in> (set es)\<^sup>+"
  proof
    show "(src, dst) \<in> (set es)\<^sup>+" if "search es dst [src] [src]" using search_sound [OF that] by simp
  next
    assume path: "(src, dst) \<in> (set es)\<^sup>+"
    show "search es dst [src] [src]"
    proof (rule ccontr)
      assume none: "\<not> search es dst [src] [src]"
      obtain C where "src \<in> C" "\<forall>v n. v \<in> C \<longrightarrow> (v, n) \<in> set es \<longrightarrow> n \<in> C \<and> n \<noteq> dst"
        using search_complete [OF none] by auto
      from closed_path [OF path this] show False by simp
    qed
  qed
  then show ?thesis using False by (auto simp: reachable_def rtrancl_eq_or_trancl)
qed (simp add: reachable_def)

lemma added_edge_acyclic:
  assumes "acyclic (set es)" and "\<not> reachable es dst src"
  shows "acyclic (insert (src, dst) (set es))"
  using assms by (simp add: reachable_iff_path)

end
