(* ===== verification/Schema_Service.thy ===== *)
theory Schema_Service
  imports Delegation_Graph Auth_Tokens
begin

text \<open>
  Schemas and the relations of delegation in them: the tables and their repositories
  (\<open>persistence/configrepo/schema_repository.go\<close>, \<open>agent_relation_repository.go\<close>), the services over them
  (\<open>internal/app/http_adapters_schema.go\<close>) and their handlers (\<open>delivery/http/schema_handler.go\<close>).

  The tables are lists of rows.  A query may fail with an error of the database, which the environment decides; an
  identifier given by a request is read by the database, which knows one canonical text per identifier and refuses what
  is none.  The agents are those of the repository of agents.

  The theory shows that, as long as agents are named by their names or by canonical identifiers, no sequence of requests
  makes delegation circular in any schema, and that a request of one tenant changes nothing of another.
\<close>

section \<open>Tables\<close>

record schema_row =
  ss_id :: string
  ss_tenant :: string
  ss_name :: string
  ss_description :: string
  ss_entry :: "string option"
  ss_chat :: bool
  ss_fired :: "time option"
  ss_system :: bool
  ss_created :: time

record delegation_row =
  dr_id :: string
  dr_tenant :: string
  dr_schema :: string
  dr_source :: string
  dr_target :: string
  dr_config :: string

record schema_tables =
  st_schemas :: "schema_row list"
  st_relations :: "delegation_row list"
  st_agents :: "agent_row list"

datatype schema_query =
    ListSchemasQ | DeriveQ | GetSchemaQ | CreateSchemaQ | UpdateSchemaQ | DropRelationsQ | DropSchemaQ | FiredQ | AgentIdQ
  | SchemaIdsQ | LoadSchemasQ | ListRelationsQ | GetRelationQ | CreateRelationQ | UpdateRelationQ | DeleteRelationQ
  | EntryByNameQ | CountRelationsQ | CountMembersQ | AgentByNameQ | NameByIdQ | CountAgentsQ

record schema_env =
  se_fails :: "schema_query \<Rightarrow> go_error option"
  se_canon :: "string \<Rightarrow> string option"
  se_uuid_ok :: "string \<Rightarrow> bool"
  se_new_id :: string
  se_clock :: time

text \<open>An error of a statement: the row is missing, a foreign key is broken, or another error with its text.\<close>

datatype db_failure = RowMissing | KeyBroken string | DbFault go_error

definition failure_text :: "db_failure \<Rightarrow> go_error" where
  "failure_text e =
     (case e of
        RowMissing \<Rightarrow> ''record not found''
      | KeyBroken c \<Rightarrow> ''ERROR: violates foreign key constraint '' @ go_quote c @ '' (SQLSTATE 23503)''
      | DbFault t \<Rightarrow> t)"

text \<open>A statement runs unless the database fails; one that takes an identifier needs a canonical one.\<close>

definition query :: "schema_env \<Rightarrow> schema_query \<Rightarrow> db_failure + 'a \<Rightarrow> db_failure + 'a" where
  "query E q r = (case se_fails E q of Some e \<Rightarrow> Inl (DbFault e) | None \<Rightarrow> r)"

definition by_id :: "schema_env \<Rightarrow> schema_query \<Rightarrow> string \<Rightarrow> (string \<Rightarrow> db_failure + 'a) \<Rightarrow> db_failure + 'a" where
  "by_id E q i f =
     query E q (case se_canon E i of
                  None \<Rightarrow> Inl (DbFault (''invalid input syntax for type uuid: '' @ go_quote i))
                | Some u \<Rightarrow> f u)"

definition tenant_schema :: "string \<Rightarrow> string \<Rightarrow> schema_row \<Rightarrow> bool" where
  "tenant_schema ctx u s \<longleftrightarrow> ss_id s = u \<and> ss_tenant s = tenantIDFromCtx ctx"

definition tenant_relation :: "string \<Rightarrow> string \<Rightarrow> delegation_row \<Rightarrow> bool" where
  "tenant_relation ctx u r \<longleftrightarrow> dr_id r = u \<and> dr_tenant r = tenantIDFromCtx ctx"

definition agent_ids :: "schema_tables \<Rightarrow> string set" where
  "agent_ids db = set (map ag_id (st_agents db))"

text \<open>The primary keys, the indexes and the foreign keys of the two tables.\<close>

definition schema_keys :: "schema_row list \<Rightarrow> bool" where
  "schema_keys ss \<longleftrightarrow> distinct (map ss_id ss) \<and> distinct (map (\<lambda>s. (ss_tenant s, ss_name s)) ss)"

definition relation_keys :: "delegation_row list \<Rightarrow> bool" where
  "relation_keys rs \<longleftrightarrow> distinct (map dr_id rs) \<and> distinct (map (\<lambda>r. (dr_schema r, dr_source r, dr_target r)) rs)"

definition duplicate :: db_failure where
  "duplicate = DbFault ''ERROR: duplicate key value violates unique constraint (SQLSTATE 23505)''"

definition put_schemas :: "schema_row list \<Rightarrow> schema_tables \<Rightarrow> db_failure + schema_tables" where
  "put_schemas ss db =
     (if \<not> schema_keys ss then Inl duplicate
      else if \<exists>s\<in>set ss. case ss_entry s of None \<Rightarrow> False | Some a \<Rightarrow> a \<notin> agent_ids db
      then Inl (KeyBroken ''fk_schemas_entry_agent_id'')
      else Inr (db\<lparr>st_schemas := ss\<rparr>))"

definition put_relations :: "delegation_row list \<Rightarrow> schema_tables \<Rightarrow> db_failure + schema_tables" where
  "put_relations rs db =
     (if \<not> relation_keys rs then Inl duplicate
      else if \<exists>r\<in>set rs. dr_source r \<notin> agent_ids db then Inl (KeyBroken ''fk_agent_relations_source_agent_id'')
      else if \<exists>r\<in>set rs. dr_target r \<notin> agent_ids db then Inl (KeyBroken ''fk_agent_relations_target_agent_id'')
      else if \<exists>r\<in>set rs. dr_schema r \<notin> set (map ss_id (st_schemas db)) then Inl (KeyBroken ''fk_agent_relations_schema_id'')
      else Inr (db\<lparr>st_relations := rs\<rparr>))"

section \<open>The repository of schemas\<close>

record schema_record =
  sr_id :: string
  sr_name :: string
  sr_description :: string
  sr_system :: bool
  sr_agents :: "string list"
  sr_entry :: "string option"
  sr_chat :: bool
  sr_fired :: "time option"
  sr_created :: time

definition member_ids :: "string \<Rightarrow> string \<Rightarrow> schema_tables \<Rightarrow> string list" where
  "member_ids t u db =
     (let rs = filter (\<lambda>r. dr_schema r = u \<and> dr_tenant r = t) (st_relations db)
      in List.map_filter ss_entry (filter (\<lambda>s. ss_id s = u \<and> ss_tenant s = t) (st_schemas db)) @ map dr_source rs @ map dr_target rs)"

definition deriveAgentNames :: "schema_env \<Rightarrow> string \<Rightarrow> string \<Rightarrow> schema_tables \<Rightarrow> db_failure + string list" where
  "deriveAgentNames E ctx i db =
     by_id E DeriveQ i (\<lambda>u. let t = tenantIDFromCtx ctx
       in Inr (sort (remdups (map ag_name (filter (\<lambda>a. ag_id a \<in> set (member_ids t u db) \<and> ag_tenant a = t) (st_agents db))))))"

definition record_of :: "schema_row \<Rightarrow> string list \<Rightarrow> schema_record" where
  "record_of s names =
     \<lparr>sr_id = ss_id s, sr_name = ss_name s, sr_description = ss_description s, sr_system = ss_system s, sr_agents = names,
      sr_entry = ss_entry s, sr_chat = ss_chat s, sr_fired = ss_fired s, sr_created = ss_created s\<rparr>"

fun each_schema :: "schema_env \<Rightarrow> string \<Rightarrow> schema_tables \<Rightarrow> schema_row list \<Rightarrow> db_failure + schema_record list" where
  "each_schema E ctx db [] = Inr []"
| "each_schema E ctx db (s # ss) =
     bind_res (deriveAgentNames E ctx (ss_id s) db)
       (\<lambda>names. bind_res (each_schema E ctx db ss) (\<lambda>rest. Inr (record_of s names # rest)))"

definition schemas_List :: "schema_env \<Rightarrow> string \<Rightarrow> schema_tables \<Rightarrow> db_failure + schema_record list" where
  "schemas_List E ctx db =
     bind_res (query E ListSchemasQ (Inr (sort_key ss_created (filter (\<lambda>s. ss_tenant s = tenantIDFromCtx ctx) (st_schemas db)))))
       (each_schema E ctx db)"

definition schema_row_of :: "schema_env \<Rightarrow> string \<Rightarrow> string \<Rightarrow> schema_tables \<Rightarrow> db_failure + schema_row" where
  "schema_row_of E ctx i db =
     by_id E GetSchemaQ i (\<lambda>u. case first_row ss_id (tenant_schema ctx u) (st_schemas db) of
       None \<Rightarrow> Inl RowMissing | Some s \<Rightarrow> Inr s)"

definition schemas_GetByID :: "schema_env \<Rightarrow> string \<Rightarrow> string \<Rightarrow> schema_tables \<Rightarrow> db_failure + schema_record" where
  "schemas_GetByID E ctx i db =
     bind_res (schema_row_of E ctx i db)
       (\<lambda>s. bind_res (deriveAgentNames E ctx (ss_id s) db) (\<lambda>names. Inr (record_of s names)))"

text \<open>A schema that is not there is no error here.\<close>

definition schemas_GetModelByID :: "schema_env \<Rightarrow> string \<Rightarrow> string \<Rightarrow> schema_tables \<Rightarrow> db_failure + schema_row option" where
  "schemas_GetModelByID E ctx i db =
     (case schema_row_of E ctx i db of Inl RowMissing \<Rightarrow> Inr None | Inl e \<Rightarrow> Inl e | Inr s \<Rightarrow> Inr (Some s))"

definition change_schema ::
    "schema_env \<Rightarrow> schema_query \<Rightarrow> string \<Rightarrow> string \<Rightarrow> (schema_row \<Rightarrow> schema_row) \<Rightarrow> schema_tables \<Rightarrow> db_failure + schema_tables" where
  "change_schema E q ctx i f db =
     by_id E q i (\<lambda>u. if filter (tenant_schema ctx u) (st_schemas db) = [] then Inl RowMissing
                      else put_schemas (change_rows (tenant_schema ctx u) f (st_schemas db)) db)"

definition MarkChatFired :: "schema_env \<Rightarrow> string \<Rightarrow> string \<Rightarrow> schema_tables \<Rightarrow> db_failure + schema_tables" where
  "MarkChatFired E ctx i db = change_schema E FiredQ ctx i (\<lambda>s. s\<lparr>ss_fired := Some (se_clock E)\<rparr>) db"

text \<open>The entry agent of a record is given to the database as an identifier; the record gets the new identifier only.\<close>

definition canon_entry :: "schema_env \<Rightarrow> string option \<Rightarrow> db_failure + string option" where
  "canon_entry E entry =
     (case entry of
        None \<Rightarrow> Inr None
      | Some a \<Rightarrow> (case se_canon E a of
                     None \<Rightarrow> Inl (DbFault (''invalid input syntax for type uuid: '' @ go_quote a))
                   | Some u \<Rightarrow> Inr (Some u)))"

definition schemas_Create :: "schema_env \<Rightarrow> string \<Rightarrow> schema_record \<Rightarrow> schema_tables \<Rightarrow> db_failure + schema_record \<times> schema_tables" where
  "schemas_Create E ctx rec db =
     query E CreateSchemaQ
       (bind_res (canon_entry E (sr_entry rec))
         (\<lambda>entry. bind_res
           (put_schemas (st_schemas db @ [\<lparr>ss_id = se_new_id E, ss_tenant = tenantIDFromCtx ctx, ss_name = sr_name rec,
              ss_description = sr_description rec, ss_entry = entry, ss_chat = sr_chat rec, ss_fired = None,
              ss_system = sr_system rec, ss_created = se_clock E\<rparr>]) db)
           (\<lambda>db'. Inr (rec\<lparr>sr_id := se_new_id E\<rparr>, db'))))"

definition schemas_Update :: "schema_env \<Rightarrow> string \<Rightarrow> string \<Rightarrow> schema_record \<Rightarrow> schema_tables \<Rightarrow> db_failure + schema_tables" where
  "schemas_Update E ctx i rec db =
     bind_res (canon_entry E (sr_entry rec))
       (\<lambda>entry. change_schema E UpdateSchemaQ ctx i
          (\<lambda>s. s\<lparr>ss_name := sr_name rec, ss_description := sr_description rec, ss_entry := entry, ss_chat := sr_chat rec\<rparr>) db)"

text \<open>The relations go first; when the schema is not there, the transaction takes them back.\<close>

definition schemas_Delete :: "schema_env \<Rightarrow> string \<Rightarrow> string \<Rightarrow> schema_tables \<Rightarrow> db_failure + schema_tables" where
  "schemas_Delete E ctx i db =
     by_id E DropRelationsQ i (\<lambda>u.
       let db1 = db\<lparr>st_relations := filter (\<lambda>r. \<not> (dr_schema r = u \<and> dr_tenant r = tenantIDFromCtx ctx)) (st_relations db)\<rparr>
       in query E DropSchemaQ
            (if filter (tenant_schema ctx u) (st_schemas db) = [] then Inl RowMissing
             else Inr (db1\<lparr>st_schemas := filter (\<lambda>s. \<not> tenant_schema ctx u s) (st_schemas db),
                           st_relations := filter (\<lambda>r. dr_schema r \<noteq> u) (st_relations db1)\<rparr>)))"

definition schemas_ListForAgent :: "schema_env \<Rightarrow> string \<Rightarrow> string \<Rightarrow> schema_tables \<Rightarrow> db_failure + string list" where
  "schemas_ListForAgent E ctx name db =
     (let t = tenantIDFromCtx ctx
      in case (se_fails E AgentIdQ, find (\<lambda>a. ag_name a = name \<and> ag_tenant a = t) (st_agents db)) of
           (None, Some a) \<Rightarrow>
             query E SchemaIdsQ
               (let us = remdups (map dr_schema (filter (\<lambda>r. (dr_source r = ag_id a \<or> dr_target r = ag_id a) \<and> dr_tenant r = t) (st_relations db)))
                in if us = [] then Inr []
                   else query E LoadSchemasQ (Inr (map ss_name (filter (\<lambda>s. ss_tenant s = t \<and> ss_id s \<in> set us) (st_schemas db)))))
         | _ \<Rightarrow> Inr [])"

section \<open>The repository of relations\<close>

text \<open>The configuration of a relation is kept as its text; a relation of a request has no identifier yet.\<close>

definition relations_List :: "schema_env \<Rightarrow> string \<Rightarrow> string \<Rightarrow> schema_tables \<Rightarrow> db_failure + delegation_row list" where
  "relations_List E ctx i db =
     by_id E ListRelationsQ i (\<lambda>u. Inr (filter (\<lambda>r. dr_schema r = u \<and> dr_tenant r = tenantIDFromCtx ctx) (st_relations db)))"

definition relations_GetByID :: "schema_env \<Rightarrow> string \<Rightarrow> string \<Rightarrow> schema_tables \<Rightarrow> db_failure + delegation_row" where
  "relations_GetByID E ctx i db =
     by_id E GetRelationQ i (\<lambda>u. case first_row dr_id (tenant_relation ctx u) (st_relations db) of
       None \<Rightarrow> Inl RowMissing | Some r \<Rightarrow> Inr r)"

definition relations_Create ::
    "schema_env \<Rightarrow> string \<Rightarrow> string \<Rightarrow> string \<Rightarrow> string \<Rightarrow> string \<Rightarrow> schema_tables \<Rightarrow> db_failure + schema_tables" where
  "relations_Create E ctx sid source target config db =
     by_id E CreateRelationQ sid (\<lambda>u. by_id E CreateRelationQ source (\<lambda>a. by_id E CreateRelationQ target (\<lambda>b.
       put_relations (st_relations db @ [\<lparr>dr_id = se_new_id E, dr_tenant = tenantIDFromCtx ctx, dr_schema = u, dr_source = a,
         dr_target = b, dr_config = config\<rparr>]) db)))"

definition relations_Update ::
    "schema_env \<Rightarrow> string \<Rightarrow> string \<Rightarrow> string \<Rightarrow> string \<Rightarrow> string \<Rightarrow> schema_tables \<Rightarrow> db_failure + schema_tables" where
  "relations_Update E ctx i source target config db =
     by_id E UpdateRelationQ i (\<lambda>u. by_id E UpdateRelationQ source (\<lambda>a. by_id E UpdateRelationQ target (\<lambda>b.
       if filter (tenant_relation ctx u) (st_relations db) = [] then Inl RowMissing
       else put_relations (change_rows (tenant_relation ctx u) (\<lambda>r. r\<lparr>dr_source := a, dr_target := b, dr_config := config\<rparr>)
              (st_relations db)) db)))"

definition relations_Delete :: "schema_env \<Rightarrow> string \<Rightarrow> string \<Rightarrow> schema_tables \<Rightarrow> db_failure + schema_tables" where
  "relations_Delete E ctx i db =
     by_id E DeleteRelationQ i (\<lambda>u. if filter (tenant_relation ctx u) (st_relations db) = [] then Inl RowMissing
       else Inr (db\<lparr>st_relations := filter (\<lambda>r. \<not> tenant_relation ctx u r) (st_relations db)\<rparr>))"

section \<open>The service of schemas\<close>

record schema_info =
  si_id :: string
  si_name :: string
  si_description :: string
  si_agents :: "string list"
  si_system :: bool
  si_entry_name :: string
  si_count :: nat
  si_chat :: bool
  si_fired :: "time option"
  si_created :: time

record create_schema_request =
  cs_name :: string
  cs_description :: string
  cs_entry :: "string option"
  cs_chat :: "bool option"

record update_schema_request =
  us_name :: "string option"
  us_description :: "string option"
  us_entry :: "string option"
  us_chat :: "bool option"

text \<open>Names are looked up by identifier among the agents of all tenants.\<close>

definition resolveAgentNameByID :: "schema_env \<Rightarrow> string option \<Rightarrow> schema_tables \<Rightarrow> string" where
  "resolveAgentNameByID E a db =
     (if a = None \<or> a = Some [] then []
      else case by_id E NameByIdQ (the a) (\<lambda>u. Inr (find (\<lambda>x. ag_id x = u) (st_agents db))) of
             Inr (Some x) \<Rightarrow> ag_name x
           | _ \<Rightarrow> [])"

definition countAgentsInSchema :: "schema_env \<Rightarrow> string \<Rightarrow> schema_tables \<Rightarrow> nat" where
  "countAgentsInSchema E i db =
     (case by_id E CountAgentsQ i (\<lambda>u. let rs = filter (\<lambda>r. dr_schema r = u) (st_relations db) in
        Inr (length (remdups (List.map_filter ss_entry (filter (\<lambda>s. ss_id s = u) (st_schemas db)) @ map dr_source rs @ map dr_target rs)))) of
        Inl e \<Rightarrow> 0
      | Inr n \<Rightarrow> n)"

definition info_of :: "schema_env \<Rightarrow> schema_tables \<Rightarrow> schema_record \<Rightarrow> schema_info" where
  "info_of E db r =
     \<lparr>si_id = sr_id r, si_name = sr_name r, si_description = sr_description r, si_agents = sr_agents r, si_system = sr_system r,
      si_entry_name = resolveAgentNameByID E (sr_entry r) db, si_count = countAgentsInSchema E (sr_id r) db, si_chat = sr_chat r,
      si_fired = sr_fired r, si_created = sr_created r\<rparr>"

definition missing_or :: "string \<Rightarrow> string \<Rightarrow> db_failure \<Rightarrow> err" where
  "missing_or message what e = (if e = RowMissing then not_found message else plain_error what (failure_text e))"

definition ListSchemas :: "schema_env \<Rightarrow> string \<Rightarrow> schema_tables \<Rightarrow> err + schema_info list" where
  "ListSchemas E ctx db =
     (case schemas_List E ctx db of
        Inl e \<Rightarrow> Inl (plain_error ''list schemas'' (failure_text e))
      | Inr rs \<Rightarrow> Inr (map (info_of E db) rs))"

definition GetSchema :: "schema_env \<Rightarrow> string \<Rightarrow> string \<Rightarrow> schema_tables \<Rightarrow> err + schema_info" where
  "GetSchema E ctx i db =
     (case schemas_GetByID E ctx i db of
        Inl e \<Rightarrow> Inl (missing_or (''schema not found: '' @ i) ''get schema'' e)
      | Inr r \<Rightarrow> Inr (info_of E db r))"

definition name_taken :: "string \<Rightarrow> err" where
  "name_taken name = already_exists (''schema with name '' @ go_quote name @ '' already exists'')"

definition CreateSchema :: "schema_env \<Rightarrow> string \<Rightarrow> create_schema_request \<Rightarrow> schema_tables \<Rightarrow> (err + schema_info) \<times> schema_tables" where
  "CreateSchema E ctx req db =
     (let rec = \<lparr>sr_id = [], sr_name = cs_name req, sr_description = cs_description req, sr_system = False, sr_agents = [],
                 sr_entry = (if cs_entry req = Some [] then None else cs_entry req),
                 sr_chat = (case cs_chat req of None \<Rightarrow> False | Some b \<Rightarrow> b), sr_fired = None, sr_created = zero_time\<rparr>
      in case schemas_Create E ctx rec db of
           Inl e \<Rightarrow> (Inl (if unique_violation (failure_text e) then name_taken (cs_name req) else plain_error ''create schema'' (failure_text e)), db)
         | Inr (r, db') \<Rightarrow>
             (Inr \<lparr>si_id = sr_id r, si_name = sr_name r, si_description = sr_description r, si_agents = [], si_system = False,
                   si_entry_name = [], si_count = 0, si_chat = sr_chat r, si_fired = None, si_created = sr_created r\<rparr>, db'))"

text \<open>A text is a UUID by its 36 characters: four dashes and digits of base sixteen.\<close>

definition isUUID :: "string \<Rightarrow> bool" where
  "isUUID s \<longleftrightarrow> length s = 36 \<and>
     list_all (\<lambda>(i, c). if i \<in> {8, 13, 18, 23} then c = CHR ''-'' else hex_value c \<noteq> None) (List.enumerate 0 s)"

text \<open>Names of entry agents are looked up among the agents of all tenants.\<close>

definition resolveEntryAgentRef :: "schema_env \<Rightarrow> string \<Rightarrow> schema_tables \<Rightarrow> err + string" where
  "resolveEntryAgentRef E ref db =
     (if isUUID ref then Inr ref
      else case query E EntryByNameQ (Inr (find (\<lambda>a. ag_name a = ref) (st_agents db))) of
             Inr (Some a) \<Rightarrow> if ag_id a = [] then Inl (invalid_input (''agent not found: '' @ ref)) else Inr (ag_id a)
           | _ \<Rightarrow> Inl (invalid_input (''agent not found: '' @ ref)))"

definition requireAgentInSchema :: "schema_env \<Rightarrow> string \<Rightarrow> string \<Rightarrow> schema_tables \<Rightarrow> err option" where
  "requireAgentInSchema E i a db =
     (case by_id E CountRelationsQ i (\<lambda>u. Inr (filter (\<lambda>r. dr_schema r = u) (st_relations db))) of
        Inl e \<Rightarrow> Some (plain_error ''count schema relations'' (failure_text e))
      | Inr rs \<Rightarrow>
          if rs = [] then None
          else case by_id E CountMembersQ a (\<lambda>v. Inr (filter (\<lambda>r. dr_source r = v \<or> dr_target r = v) rs)) of
                 Inl e \<Rightarrow> Some (plain_error ''verify schema membership'' (failure_text e))
               | Inr [] \<Rightarrow> Some (invalid_input (''agent '' @ a @ '' is not a member of schema '' @ i))
               | Inr _ \<Rightarrow> None)"

definition entry_of_update :: "schema_env \<Rightarrow> string \<Rightarrow> string option \<Rightarrow> string option \<Rightarrow> schema_tables \<Rightarrow> err + string option" where
  "entry_of_update E i old wanted db =
     (case wanted of
        None \<Rightarrow> Inr old
      | Some ref \<Rightarrow>
          if ref = [] then Inr None
          else bind_res (resolveEntryAgentRef E ref db)
                 (\<lambda>a. case requireAgentInSchema E i a db of Some e \<Rightarrow> Inl e | None \<Rightarrow> Inr (Some a)))"

definition UpdateSchema :: "schema_env \<Rightarrow> string \<Rightarrow> string \<Rightarrow> update_schema_request \<Rightarrow> schema_tables \<Rightarrow> err option \<times> schema_tables" where
  "UpdateSchema E ctx i req db =
     (case schemas_GetByID E ctx i db of
        Inl e \<Rightarrow> (Some (missing_or (''schema not found: '' @ i) ''load schema for update'' e), db)
      | Inr old \<Rightarrow>
          (case entry_of_update E i (sr_entry old) (us_entry req) db of
             Inl e \<Rightarrow> (Some e, db)
           | Inr entry \<Rightarrow>
               let rec = old\<lparr>sr_name := (case us_name req of None \<Rightarrow> sr_name old | Some n \<Rightarrow> n),
                             sr_description := (case us_description req of None \<Rightarrow> sr_description old | Some t \<Rightarrow> t),
                             sr_entry := entry, sr_chat := (case us_chat req of None \<Rightarrow> sr_chat old | Some b \<Rightarrow> b)\<rparr>
               in case schemas_Update E ctx i rec db of
                    Inl e \<Rightarrow>
                      (Some (if e = RowMissing then not_found (''schema not found: '' @ i)
                             else if unique_violation (failure_text e) then name_taken (sr_name rec)
                             else plain_error ''update schema'' (failure_text e)), db)
                  | Inr db' \<Rightarrow> (None, db')))"

definition DeleteSchema :: "schema_env \<Rightarrow> string \<Rightarrow> string \<Rightarrow> schema_tables \<Rightarrow> err option \<times> schema_tables" where
  "DeleteSchema E ctx i db =
     (case schemas_Delete E ctx i db of
        Inl e \<Rightarrow> (Some (missing_or (''schema not found: '' @ i) ''delete schema'' e), db)
      | Inr db' \<Rightarrow> (None, db'))"

definition ListSchemaAgents :: "schema_env \<Rightarrow> string \<Rightarrow> string \<Rightarrow> schema_tables \<Rightarrow> err + string list" where
  "ListSchemaAgents E ctx i db =
     (case deriveAgentNames E ctx i db of
        Inl e \<Rightarrow> Inl (plain_error ''list schema agents'' (failure_text e))
      | Inr names \<Rightarrow> Inr names)"

section \<open>The service of relations\<close>

record relation_request =
  rr_source :: string
  rr_target :: string
  rr_config :: string

record relation_info =
  ri_id :: string
  ri_schema :: string
  ri_source :: string
  ri_target :: string
  ri_config :: string

definition resolveNameByID :: "schema_env \<Rightarrow> string \<Rightarrow> schema_tables \<Rightarrow> string" where
  "resolveNameByID E i db =
     (if i = [] then []
      else case by_id E NameByIdQ i (\<lambda>u. Inr (find (\<lambda>x. ag_id x = u) (st_agents db))) of
             Inr (Some x) \<Rightarrow> if ag_name x = [] then i else ag_name x
           | _ \<Rightarrow> i)"

definition resolveAgentRef :: "schema_env \<Rightarrow> string \<Rightarrow> string \<Rightarrow> schema_tables \<Rightarrow> err + string" where
  "resolveAgentRef E ctx ref db =
     (if ref = [] then Inl (invalid_input ''agent reference is empty'')
      else if isUUID ref then Inr ref
      else case query E AgentByNameQ (Inr (first_row ag_id (\<lambda>a. in_tenant ctx a \<and> ag_name a = ref) (st_agents db))) of
             Inr (Some a) \<Rightarrow> Inr (ag_id a)
           | _ \<Rightarrow> Inl (invalid_input (''agent not found: '' @ ref)))"

definition relation_info_of :: "schema_env \<Rightarrow> schema_tables \<Rightarrow> delegation_row \<Rightarrow> relation_info" where
  "relation_info_of E db r =
     \<lparr>ri_id = dr_id r, ri_schema = dr_schema r, ri_source = resolveNameByID E (dr_source r) db,
      ri_target = resolveNameByID E (dr_target r) db, ri_config = dr_config r\<rparr>"

definition ListAgentRelations :: "schema_env \<Rightarrow> string \<Rightarrow> string \<Rightarrow> schema_tables \<Rightarrow> err + relation_info list" where
  "ListAgentRelations E ctx i db =
     (case schemas_GetByID E ctx i db of
        Inl e \<Rightarrow> Inl (not_found (''schema not found: '' @ i))
      | Inr s \<Rightarrow>
          (case relations_List E ctx i db of
             Inl e \<Rightarrow> Inl (plain_error ''list agent relations'' (failure_text e))
           | Inr rs \<Rightarrow> Inr (map (relation_info_of E db) rs)))"

definition GetAgentRelation :: "schema_env \<Rightarrow> string \<Rightarrow> string \<Rightarrow> schema_tables \<Rightarrow> err + relation_info" where
  "GetAgentRelation E ctx i db =
     (case relations_GetByID E ctx i db of
        Inl e \<Rightarrow> Inl (missing_or (''agent relation not found: '' @ i) ''get agent relation'' e)
      | Inr r \<Rightarrow> Inr (relation_info_of E db r))"

definition same_agent_error :: err where
  "same_agent_error = invalid_input ''source and target must be different agents''"

definition graph_without :: "string \<Rightarrow> delegation_row list \<Rightarrow> edges" where
  "graph_without exclude rs = map (\<lambda>r. (dr_source r, dr_target r)) (filter (\<lambda>r. \<not> (exclude \<noteq> [] \<and> dr_id r = exclude)) rs)"

definition checkNoCycleExcluding :: "schema_env \<Rightarrow> string \<Rightarrow> string \<Rightarrow> string \<Rightarrow> string \<Rightarrow> string \<Rightarrow> schema_tables \<Rightarrow> err option" where
  "checkNoCycleExcluding E ctx i source target exclude db =
     (if source = target then Some same_agent_error
      else case relations_List E ctx i db of
             Inl e \<Rightarrow> Some (plain_error ''list existing agent relations'' (failure_text e))
           | Inr rs \<Rightarrow>
               if reachable (graph_without exclude rs) target source
               then Some (invalid_input ''circular delegation: adding this edge would close a cycle'') else None)"

definition ends_of :: "schema_env \<Rightarrow> string \<Rightarrow> relation_request \<Rightarrow> schema_tables \<Rightarrow> err + string \<times> string" where
  "ends_of E ctx req db =
     bind_res (resolveAgentRef E ctx (rr_source req) db)
       (\<lambda>source. bind_res (resolveAgentRef E ctx (rr_target req) db)
          (\<lambda>target. if source = target then Inl same_agent_error else Inr (source, target)))"

text \<open>A key to one of the two agents that is broken means that the agent has just been deleted.\<close>

definition create_relation_error :: "db_failure \<Rightarrow> err" where
  "create_relation_error e =
     (if e \<in> {KeyBroken ''fk_agent_relations_source_agent_id'', KeyBroken ''fk_agent_relations_target_agent_id''}
      then not_found ''source or target agent no longer exists (deleted concurrently)''
      else if unique_violation (failure_text e)
      then already_exists ''agent relation between these agents already exists in this schema''
      else plain_error ''create agent relation'' (failure_text e))"

text \<open>A schema without an entry agent gets the source as its entry; whether that works is not looked at.\<close>

definition assign_entry :: "schema_env \<Rightarrow> string \<Rightarrow> string \<Rightarrow> string \<Rightarrow> schema_record \<Rightarrow> schema_tables \<Rightarrow> schema_tables" where
  "assign_entry E ctx i source s db =
     (if sr_entry s = None \<and> source \<noteq> []
      then (case schemas_Update E ctx i (s\<lparr>sr_entry := Some source\<rparr>) db of Inl e \<Rightarrow> db | Inr db' \<Rightarrow> db')
      else db)"

definition CreateAgentRelation ::
    "schema_env \<Rightarrow> string \<Rightarrow> string \<Rightarrow> relation_request \<Rightarrow> schema_tables \<Rightarrow> (err + relation_info) \<times> schema_tables" where
  "CreateAgentRelation E ctx i req db =
     (case schemas_GetByID E ctx i db of
        Inl e \<Rightarrow> (Inl (not_found (''schema not found: '' @ i)), db)
      | Inr s \<Rightarrow>
          (case ends_of E ctx req db of
             Inl e \<Rightarrow> (Inl e, db)
           | Inr (source, target) \<Rightarrow>
               (case checkNoCycleExcluding E ctx i source target [] db of
                  Some e \<Rightarrow> (Inl e, db)
                | None \<Rightarrow>
                    (case relations_Create E ctx i source target (rr_config req) db of
                       Inl e \<Rightarrow> (Inl (create_relation_error e), db)
                     | Inr db1 \<Rightarrow>
                         let db2 = assign_entry E ctx i source s db1
                         in (Inr \<lparr>ri_id = se_new_id E, ri_schema = i, ri_source = resolveNameByID E source db2,
                                  ri_target = resolveNameByID E target db2, ri_config = rr_config req\<rparr>, db2)))))"

definition UpdateAgentRelation :: "schema_env \<Rightarrow> string \<Rightarrow> string \<Rightarrow> relation_request \<Rightarrow> schema_tables \<Rightarrow> err option \<times> schema_tables" where
  "UpdateAgentRelation E ctx i req db =
     (case ends_of E ctx req db of
        Inl e \<Rightarrow> (Some e, db)
      | Inr (source, target) \<Rightarrow>
          (case relations_GetByID E ctx i db of
             Inl e \<Rightarrow> (Some (missing_or (''agent relation not found: '' @ i) ''load agent relation for cycle check'' e), db)
           | Inr r \<Rightarrow>
               (case checkNoCycleExcluding E ctx (dr_schema r) source target i db of
                  Some e \<Rightarrow> (Some e, db)
                | None \<Rightarrow>
                    (case relations_Update E ctx i source target (rr_config req) db of
                       Inl e \<Rightarrow> (Some (missing_or (''agent relation not found: '' @ i) ''update agent relation'' e), db)
                     | Inr db' \<Rightarrow> (None, db')))))"

definition DeleteAgentRelation :: "schema_env \<Rightarrow> string \<Rightarrow> string \<Rightarrow> schema_tables \<Rightarrow> err option \<times> schema_tables" where
  "DeleteAgentRelation E ctx i db =
     (case relations_Delete E ctx i db of
        Inl e \<Rightarrow> (Some (missing_or (''agent relation not found: '' @ i) ''delete agent relation'' e), db)
      | Inr db' \<Rightarrow> (None, db'))"

section \<open>The handlers\<close>

definition answer_opt :: "err option \<times> 'w \<Rightarrow> unit http_answer \<times> 'w" where
  "answer_opt r = (case r of (Some e, w) \<Rightarrow> (writeDomainError e, w) | (None, w) \<Rightarrow> (Answer 204 (), w))"

definition answer_read :: "err + 'a \<Rightarrow> 'a http_answer" where
  "answer_read r = (case r of Inl e \<Rightarrow> writeDomainError e | Inr x \<Rightarrow> Answer 200 x)"

definition schema_List_handler :: "schema_env \<Rightarrow> string \<Rightarrow> schema_tables \<Rightarrow> schema_info list http_answer" where
  "schema_List_handler E ctx db = answer_read (ListSchemas E ctx db)"

definition schema_Get_handler :: "schema_env \<Rightarrow> string \<Rightarrow> string \<Rightarrow> schema_tables \<Rightarrow> schema_info http_answer" where
  "schema_Get_handler E ctx i db =
     (if i = [] then bad_request ''id is required''
      else if \<not> se_uuid_ok E i then bad_request ''invalid id: must be a valid UUID''
      else answer_read (GetSchema E ctx i db))"

definition schema_Create_handler ::
    "schema_env \<Rightarrow> string \<Rightarrow> go_error + create_schema_request \<Rightarrow> schema_tables \<Rightarrow> schema_info http_answer \<times> schema_tables" where
  "schema_Create_handler E ctx body db =
     with_body body (\<lambda>req. if cs_name req = [] then Inl ''name is required'' else Inr req) (\<lambda>req. answer_with 201 (CreateSchema E ctx req db)) db"

definition schema_Update_handler ::
    "schema_env \<Rightarrow> string \<Rightarrow> string \<Rightarrow> go_error + update_schema_request \<Rightarrow> schema_tables \<Rightarrow> unit http_answer \<times> schema_tables" where
  "schema_Update_handler E ctx i body db =
     (if i = [] then (bad_request ''id is required'', db)
      else with_body body
             (\<lambda>req. if us_name req = None \<or> us_name req = Some []
                    then Inl ''name is required for PUT (full replace); use PATCH for partial updates'' else Inr req)
             (\<lambda>req. answer_opt (UpdateSchema E ctx i req db)) db)"

definition schema_Patch_handler ::
    "schema_env \<Rightarrow> string \<Rightarrow> string \<Rightarrow> go_error + update_schema_request \<Rightarrow> schema_tables \<Rightarrow> unit http_answer \<times> schema_tables" where
  "schema_Patch_handler E ctx i body db =
     (if i = [] then (bad_request ''id is required'', db)
      else with_body body Inr (\<lambda>req. answer_opt (UpdateSchema E ctx i req db)) db)"

definition schema_Delete_handler :: "schema_env \<Rightarrow> string \<Rightarrow> string \<Rightarrow> schema_tables \<Rightarrow> unit http_answer \<times> schema_tables" where
  "schema_Delete_handler E ctx i db =
     (if i = [] then (bad_request ''id is required'', db) else answer_opt (DeleteSchema E ctx i db))"

definition schema_agents_handler :: "schema_env \<Rightarrow> string \<Rightarrow> string \<Rightarrow> schema_tables \<Rightarrow> string list http_answer" where
  "schema_agents_handler E ctx i db = (if i = [] then bad_request ''id is required'' else answer_read (ListSchemaAgents E ctx i db))"

definition relation_List_handler :: "schema_env \<Rightarrow> string \<Rightarrow> string \<Rightarrow> schema_tables \<Rightarrow> relation_info list http_answer" where
  "relation_List_handler E ctx i db = (if i = [] then bad_request ''id is required'' else answer_read (ListAgentRelations E ctx i db))"

definition relation_Get_handler :: "schema_env \<Rightarrow> string \<Rightarrow> string \<Rightarrow> schema_tables \<Rightarrow> relation_info http_answer" where
  "relation_Get_handler E ctx i db =
     (if i = [] then bad_request ''relationId is required'' else answer_read (GetAgentRelation E ctx i db))"

definition relation_Create_handler ::
    "schema_env \<Rightarrow> string \<Rightarrow> string \<Rightarrow> go_error + relation_request \<Rightarrow> schema_tables \<Rightarrow> relation_info http_answer \<times> schema_tables" where
  "relation_Create_handler E ctx i body db =
     (if i = [] then (bad_request ''id is required'', db)
      else with_body body (\<lambda>req. if rr_source req = [] \<or> rr_target req = [] then Inl ''source and target are required'' else Inr req)
             (\<lambda>req. answer_with 201 (CreateAgentRelation E ctx i req db)) db)"

definition relation_Update_handler ::
    "schema_env \<Rightarrow> string \<Rightarrow> string \<Rightarrow> go_error + relation_request \<Rightarrow> schema_tables \<Rightarrow> unit http_answer \<times> schema_tables" where
  "relation_Update_handler E ctx i body db =
     (if i = [] then (bad_request ''relationId is required'', db)
      else with_body body Inr (\<lambda>req. answer_opt (UpdateAgentRelation E ctx i req db)) db)"

definition relation_Delete_handler :: "schema_env \<Rightarrow> string \<Rightarrow> string \<Rightarrow> schema_tables \<Rightarrow> unit http_answer \<times> schema_tables" where
  "relation_Delete_handler E ctx i db =
     (if i = [] then (bad_request ''relationId is required'', db) else answer_opt (DeleteAgentRelation E ctx i db))"

section \<open>Delegation stays acyclic\<close>

lemma query_Inr [simp]: "query E q r = Inr x \<longleftrightarrow> se_fails E q = None \<and> r = Inr x"
  by (simp add: query_def split: option.split)

lemma by_id_Inr [simp]: "by_id E q i f = Inr x \<longleftrightarrow> se_fails E q = None \<and> (\<exists>u. se_canon E i = Some u \<and> f u = Inr x)"
  by (simp add: by_id_def split: option.split)

lemma put_schemas_Inr: "put_schemas ss db = Inr db' \<Longrightarrow> schema_keys ss \<and> db' = db\<lparr>st_schemas := ss\<rparr>"
  by (simp add: put_schemas_def split: if_splits)

lemma put_relations_Inr:
  "put_relations rs db = Inr db' \<Longrightarrow> relation_keys rs \<and> (\<forall>r\<in>set rs. dr_source r \<in> agent_ids db \<and> dr_target r \<in> agent_ids db) \<and> db' = db\<lparr>st_relations := rs\<rparr>"
  by (auto simp: put_relations_def split: if_splits)

definition graph_of :: "string \<Rightarrow> delegation_row list \<Rightarrow> (string \<times> string) set" where
  "graph_of u rs = {(dr_source r, dr_target r) |r. r \<in> set rs \<and> dr_schema r = u}"

text \<open>Keys are distinct, a relation is of the tenant of its schema, identifiers are canonical, and no schema has a cycle.\<close>

definition delegation_ok :: "(string \<Rightarrow> string option) \<Rightarrow> schema_tables \<Rightarrow> bool" where
  "delegation_ok c db \<longleftrightarrow>
     distinct (map ss_id (st_schemas db)) \<and> distinct (map dr_id (st_relations db)) \<and>
     (\<forall>r\<in>set (st_relations db). \<exists>s\<in>set (st_schemas db). ss_id s = dr_schema r \<and> ss_tenant s = dr_tenant r) \<and>
     (\<forall>s\<in>set (st_schemas db). c (ss_id s) = Some (ss_id s)) \<and> (\<forall>r\<in>set (st_relations db). c (dr_id r) = Some (dr_id r)) \<and>
     (\<forall>a\<in>set (st_agents db). c (ag_id a) = Some (ag_id a)) \<and>
     (\<forall>u. acyclic (graph_of u (st_relations db)))"

lemma okD:
  assumes "delegation_ok c db"
  shows "distinct (map ss_id (st_schemas db))" and "distinct (map dr_id (st_relations db))"
    and "r \<in> set (st_relations db) \<Longrightarrow> \<exists>s\<in>set (st_schemas db). ss_id s = dr_schema r \<and> ss_tenant s = dr_tenant r"
    and "s \<in> set (st_schemas db) \<Longrightarrow> c (ss_id s) = Some (ss_id s)" and "a \<in> set (st_agents db) \<Longrightarrow> c (ag_id a) = Some (ag_id a)"
    and "acyclic (graph_of u (st_relations db))" and "r \<in> set (st_relations db) \<Longrightarrow> c (dr_id r) = Some (dr_id r)"
  using assms by (auto simp: delegation_ok_def)

text \<open>Schemas may change and be added, as long as identifiers and tenants stay; relations may go.\<close>

lemma ok_schemas:
  assumes "delegation_ok c db" and "schema_keys ss"
    and "(\<lambda>s. (ss_id s, ss_tenant s)) ` set (st_schemas db) \<subseteq> (\<lambda>s. (ss_id s, ss_tenant s)) ` set ss"
    and "\<And>s. s \<in> set ss \<Longrightarrow> c (ss_id s) = Some (ss_id s)"
  shows "delegation_ok c (db\<lparr>st_schemas := ss\<rparr>)"
proof -
  have "\<exists>s\<in>set ss. ss_id s = dr_schema r \<and> ss_tenant s = dr_tenant r" if mem: "r \<in> set (st_relations db)" for r
  proof -
    obtain s where "s \<in> set (st_schemas db)" "ss_id s = dr_schema r" "ss_tenant s = dr_tenant r" using okD(3) [OF assms(1) mem] by blast
    then have "(dr_schema r, dr_tenant r) \<in> (\<lambda>s. (ss_id s, ss_tenant s)) ` set ss" using assms(3) by force
    then show ?thesis by auto
  qed
  then show ?thesis using assms(1,2,4) by (auto simp: delegation_ok_def schema_keys_def)
qed

lemma ok_change_schema:
  assumes "delegation_ok c db" and "change_schema E q ctx i f db = Inr db'"
    and "\<And>s. ss_id (f s) = ss_id s" and "\<And>s. ss_tenant (f s) = ss_tenant s"
  shows "delegation_ok c db'"
proof -
  obtain u where keys: "schema_keys (change_rows (tenant_schema ctx u) f (st_schemas db))"
    and db': "db' = db\<lparr>st_schemas := change_rows (tenant_schema ctx u) f (st_schemas db)\<rparr>"
    using assms(2) by (auto simp: change_schema_def dest!: put_schemas_Inr split: if_splits)
  have "map (\<lambda>s. (ss_id s, ss_tenant s)) (change_rows (tenant_schema ctx u) f (st_schemas db)) = map (\<lambda>s. (ss_id s, ss_tenant s)) (st_schemas db)"
    by (rule change_rows_map) (simp add: assms(3,4))
  from arg_cong [OF this, of set] have same: "(\<lambda>s. (ss_id s, ss_tenant s)) ` set (change_rows (tenant_schema ctx u) f (st_schemas db))
      = (\<lambda>s. (ss_id s, ss_tenant s)) ` set (st_schemas db)" by simp
  have "c (ss_id s) = Some (ss_id s)" if "s \<in> set (change_rows (tenant_schema ctx u) f (st_schemas db))" for s
    using that okD(4) [OF assms(1)] by (auto simp: change_rows_def assms(3) split: if_splits)
  then show ?thesis unfolding db' using keys same by (intro ok_schemas [OF assms(1)]) simp_all
qed

lemma graph_of_subset: "set rs' \<subseteq> set rs \<Longrightarrow> graph_of u rs' \<subseteq> graph_of u rs"
  by (auto simp: graph_of_def)

lemma ok_fewer_relations:
  assumes "delegation_ok c db"
  shows "delegation_ok c (db\<lparr>st_relations := filter P (st_relations db)\<rparr>)"
proof -
  have "acyclic (graph_of u (filter P (st_relations db)))" for u
    by (rule acyclic_subset [OF okD(6) [OF assms, of u] graph_of_subset]) auto
  moreover have "distinct (map dr_id (filter P (st_relations db)))" using okD(2) [OF assms] by (rule distinct_map_filter)
  ultimately show ?thesis using assms by (auto simp: delegation_ok_def)
qed

lemma schemas_Update_ok: "delegation_ok c db \<Longrightarrow> schemas_Update E ctx i rec db = Inr db' \<Longrightarrow> delegation_ok c db'"
  by (auto simp: schemas_Update_def elim!: ok_change_schema)

text \<open>What a tenant's schema has as relations are all relations with its identifier.\<close>

lemma relations_of_schema:
  assumes "delegation_ok c db" and "s \<in> set (st_schemas db)" and "tenant_schema ctx u s"
  shows "filter (\<lambda>r. dr_schema r = u \<and> dr_tenant r = tenantIDFromCtx ctx) (st_relations db) = filter (\<lambda>r. dr_schema r = u) (st_relations db)"
proof (rule filter_cong [OF refl])
  fix r assume "r \<in> set (st_relations db)"
  then obtain s' where s': "s' \<in> set (st_schemas db)" "ss_id s' = dr_schema r" "ss_tenant s' = dr_tenant r" using okD(3) [OF assms(1)] by blast
  have "s' = s" if "dr_schema r = u"
    using okD(1) [OF assms(1)] s' assms(2,3) that by (auto simp: distinct_map inj_on_def tenant_schema_def)
  then show "(dr_schema r = u \<and> dr_tenant r = tenantIDFromCtx ctx) = (dr_schema r = u)"
    using s'(3) assms(3) by (auto simp: tenant_schema_def)
qed

lemma schema_found:
  assumes "schemas_GetByID E ctx i db = Inr rec"
  shows "\<exists>u s. se_canon E i = Some u \<and> s \<in> set (st_schemas db) \<and> tenant_schema ctx u s"
proof -
  obtain u s where u: "se_canon E i = Some u" and first: "first_row ss_id (tenant_schema ctx u) (st_schemas db) = Some s"
    using assms by (auto simp: schemas_GetByID_def schema_row_of_def split: option.splits)
  show ?thesis using u first_row_Some [OF first] by (intro exI [of _ u] exI [of _ s]) simp
qed

definition canonical_ends :: "(string \<Rightarrow> string option) \<Rightarrow> relation_request \<Rightarrow> bool" where
  "canonical_ends c req \<longleftrightarrow> (\<forall>ref\<in>{rr_source req, rr_target req}. isUUID ref \<longrightarrow> c ref = Some ref)"

lemma resolved_canonical:
  assumes "delegation_ok c db" and "isUUID ref \<longrightarrow> c ref = Some ref" and "resolveAgentRef E ctx ref db = Inr a"
  shows "c a = Some a"
proof (cases "isUUID ref")
  case True
  then show ?thesis using assms(2,3) by (simp add: resolveAgentRef_def split: if_splits)
next
  case False
  then obtain x where first: "first_row ag_id (\<lambda>a. in_tenant ctx a \<and> ag_name a = ref) (st_agents db) = Some x" and a: "a = ag_id x"
    using assms(3) by (auto simp: resolveAgentRef_def split: if_splits sum.splits option.splits)
  show ?thesis using first_row_Some [OF first] okD(5) [OF assms(1), of x] by (simp add: a)
qed

lemma ends_canonical:
  assumes "delegation_ok c db" and "canonical_ends c req" and "ends_of E ctx req db = Inr (source, target)"
  shows "c source = Some source" and "c target = Some target" and "source \<noteq> target"
  using assms resolved_canonical [OF assms(1)] by (auto simp: ends_of_def canonical_ends_def split: if_splits)

lemma graph_append:
  "graph_of v (rs @ [r]) = (if dr_schema r = v then insert (dr_source r, dr_target r) (graph_of v rs) else graph_of v rs)"
  by (auto simp: graph_of_def)

lemma set_graph_without: "set (graph_without [] (filter (\<lambda>r. dr_schema r = u) rs)) = graph_of u rs"
  by (auto simp: graph_without_def graph_of_def)

lemma relations_Create_ok:
  assumes ok: "delegation_ok (se_canon E) db" and u: "se_canon E i = Some u" and s: "s \<in> set (st_schemas db)" "tenant_schema ctx u s"
    and ends: "se_canon E source = Some source" "se_canon E target = Some target"
    and check: "checkNoCycleExcluding E ctx i source target [] db = None"
    and new: "se_canon E (se_new_id E) = Some (se_new_id E)"
    and created: "relations_Create E ctx i source target config db = Inr db'"
  shows "delegation_ok (se_canon E) db'"
proof -
  let ?r = "\<lparr>dr_id = se_new_id E, dr_tenant = tenantIDFromCtx ctx, dr_schema = u, dr_source = source, dr_target = target, dr_config = config\<rparr>"
  have keys: "relation_keys (st_relations db @ [?r])" and db': "db' = db\<lparr>st_relations := st_relations db @ [?r]\<rparr>"
    using created u ends by (auto simp: relations_Create_def dest!: put_relations_Inr)
  obtain rs where "relations_List E ctx i db = Inr rs" and no: "\<not> reachable (graph_without [] rs) target source"
    using check by (auto simp: checkNoCycleExcluding_def split: if_splits sum.splits)
  then have "rs = filter (\<lambda>r. dr_schema r = u) (st_relations db)"
    using u relations_of_schema [OF ok s] by (auto simp: relations_List_def)
  with no have "acyclic (insert (source, target) (graph_of u (st_relations db)))"
    using added_edge_acyclic [of "graph_without [] rs"] okD(6) [OF ok] by (simp add: set_graph_without)
  then have "acyclic (graph_of v (st_relations db @ [?r]))" for v
    using okD(6) [OF ok, of v] by (cases "u = v") (simp_all add: graph_append del: acyclic_insert)
  moreover have "ss_id s = u" "ss_tenant s = tenantIDFromCtx ctx" using s(2) by (simp_all add: tenant_schema_def)
  ultimately show ?thesis using ok keys s(1) new by (auto simp: db' delegation_ok_def relation_keys_def)
qed

lemma relations_Update_ok:
  assumes ok: "delegation_ok (se_canon E) db" and found: "relations_GetByID E ctx i db = Inr r"
    and ends: "se_canon E source = Some source" "se_canon E target = Some target"
    and check: "checkNoCycleExcluding E ctx (dr_schema r) source target i db = None"
    and updated: "relations_Update E ctx i source target config db = Inr db'"
  shows "delegation_ok (se_canon E) db'"
proof -
  obtain u where u: "se_canon E i = Some u" and first: "first_row dr_id (tenant_relation ctx u) (st_relations db) = Some r"
    using found by (auto simp: relations_GetByID_def split: option.splits)
  note r = conjunct1 [OF first_row_Some [OF first]] conjunct2 [OF first_row_Some [OF first]]
  let ?f = "\<lambda>r. r\<lparr>dr_source := source, dr_target := target, dr_config := config\<rparr>"
  let ?rs = "change_rows (tenant_relation ctx u) ?f (st_relations db)"
  have keys: "relation_keys ?rs" and db': "db' = db\<lparr>st_relations := ?rs\<rparr>"
    using updated u ends by (auto simp: relations_Update_def dest!: put_relations_Inr split: if_splits)
  obtain s where s: "s \<in> set (st_schemas db)" "ss_id s = dr_schema r" "ss_tenant s = dr_tenant r" using okD(3) [OF ok r(1)] by blast
  then have ts: "tenant_schema ctx (dr_schema r) s" using r(2) by (simp add: tenant_schema_def tenant_relation_def)
  have canon: "se_canon E (dr_schema r) = Some (dr_schema r)" using okD(4) [OF ok s(1)] s(2) by simp
  obtain rs where "relations_List E ctx (dr_schema r) db = Inr rs" and no: "\<not> reachable (graph_without i rs) target source"
    using check by (auto simp: checkNoCycleExcluding_def split: if_splits sum.splits)
  then have rs: "rs = filter (\<lambda>x. dr_schema x = dr_schema r) (st_relations db)"
    using canon relations_of_schema [OF ok s(1) ts] by (auto simp: relations_List_def)
  let ?kept = "set (graph_without i rs)"
  have only: "x = r" if "x \<in> set (st_relations db)" "dr_id x = i \<or> tenant_relation ctx u x" for x
  proof -
    have "dr_id x = u" using that okD(7) [OF ok that(1)] u by (auto simp: tenant_relation_def)
    then show ?thesis using okD(2) [OF ok] that(1) r by (auto simp: distinct_map inj_on_def tenant_relation_def)
  qed
  have "?kept \<subseteq> graph_of (dr_schema r) (st_relations db)" by (auto simp: graph_without_def graph_of_def rs)
  then have "acyclic ?kept" by (rule acyclic_subset [OF okD(6) [OF ok]])
  then have new: "acyclic (insert (source, target) ?kept)" using no by (rule added_edge_acyclic)
  have mem: "\<exists>y\<in>set (st_relations db). x = y \<and> y \<noteq> r \<or> x = ?f r \<and> y = r" if upd: "x \<in> set ?rs" for x
  proof -
    from upd have "x \<in> (\<lambda>y. if tenant_relation ctx u y then ?f y else y) ` set (st_relations db)"
      unfolding change_rows_def set_map .
    then obtain y where y: "y \<in> set (st_relations db)" "x = (if tenant_relation ctx u y then ?f y else y)"
      by (rule imageE)
    show ?thesis
    proof (cases "y = r")
      case True
      then show ?thesis using y r(2) by (intro bexI [of _ y]) simp_all
    next
      case False
      then have "\<not> tenant_relation ctx u y" using only y(1) by blast
      then show ?thesis using y False by (intro bexI [of _ y]) simp_all
    qed
  qed
  have within: "graph_of v ?rs \<subseteq> (if v = dr_schema r then insert (source, target) ?kept else graph_of v (st_relations db))" for v
  proof
    fix e assume "e \<in> graph_of v ?rs"
    then obtain x where x: "x \<in> set ?rs" "dr_schema x = v" "e = (dr_source x, dr_target x)" by (auto simp: graph_of_def)
    from mem [OF x(1)] show "e \<in> (if v = dr_schema r then insert (source, target) ?kept else graph_of v (st_relations db))"
    proof (elim bexE disjE)
      fix y assume y: "y \<in> set (st_relations db)" "x = y \<and> y \<noteq> r"
      then have "dr_id y \<noteq> i" using only by blast
      then have "v = dr_schema r \<Longrightarrow> e \<in> ?kept" using x y by (auto simp: graph_without_def rs)
      moreover have "e \<in> graph_of v (st_relations db)" using x y by (auto simp: graph_of_def)
      ultimately show ?thesis by simp
    next
      fix y assume "x = ?f r \<and> y = r"
      then show ?thesis using x by simp
    qed
  qed
  have "acyclic (if v = dr_schema r then insert (source, target) ?kept else graph_of v (st_relations db))" for v
    using new okD(6) [OF ok, of v] by simp
  then have "acyclic (graph_of v ?rs)" for v by (rule acyclic_subset [OF _ within])
  moreover have "(\<exists>s\<in>set (st_schemas db). ss_id s = dr_schema x \<and> ss_tenant s = dr_tenant x) \<and> se_canon E (dr_id x) = Some (dr_id x)"
    if upd: "x \<in> set ?rs" for x
  proof -
    obtain y where "y \<in> set (st_relations db)" "dr_schema x = dr_schema y" "dr_tenant x = dr_tenant y" "dr_id x = dr_id y"
      using mem [OF upd] r(1) by auto
    then show ?thesis using okD(3,7) [OF ok, of y] by simp
  qed
  ultimately show ?thesis using ok keys by (simp add: db' delegation_ok_def relation_keys_def)
qed

text \<open>The requests to the service; what is asked is handed to the functions above.\<close>

datatype schema_request =
    AskSchema create_schema_request
  | AskSchemaChange string update_schema_request
  | AskSchemaRemoval string
  | AskRelation string relation_request
  | AskRelationChange string relation_request
  | AskRelationRemoval string
  | AskChat string

fun schema_exec :: "schema_env \<times> string \<times> schema_request \<Rightarrow> schema_tables \<Rightarrow> schema_tables" where
  "schema_exec (E, ctx, AskSchema req) db = snd (CreateSchema E ctx req db)"
| "schema_exec (E, ctx, AskSchemaChange i req) db = snd (UpdateSchema E ctx i req db)"
| "schema_exec (E, ctx, AskSchemaRemoval i) db = snd (DeleteSchema E ctx i db)"
| "schema_exec (E, ctx, AskRelation i req) db = snd (CreateAgentRelation E ctx i req db)"
| "schema_exec (E, ctx, AskRelationChange i req) db = snd (UpdateAgentRelation E ctx i req db)"
| "schema_exec (E, ctx, AskRelationRemoval i) db = snd (DeleteAgentRelation E ctx i db)"
| "schema_exec (E, ctx, AskChat i) db = (case MarkChatFired E ctx i db of Inl e \<Rightarrow> db | Inr db' \<Rightarrow> db')"

text \<open>New identifiers are canonical, and agents are named by canonical identifiers or by names.\<close>

definition canonical_request :: "(string \<Rightarrow> string option) \<Rightarrow> schema_env \<times> string \<times> schema_request \<Rightarrow> bool" where
  "canonical_request c a =
     (case a of (E, ctx, req) \<Rightarrow>
        se_canon E = c \<and> c (se_new_id E) = Some (se_new_id E) \<and>
        (case req of AskRelation i r \<Rightarrow> canonical_ends c r | AskRelationChange i r \<Rightarrow> canonical_ends c r | _ \<Rightarrow> True))"

lemma CreateSchema_ok:
  assumes "delegation_ok (se_canon E) db" and "se_canon E (se_new_id E) = Some (se_new_id E)"
  shows "delegation_ok (se_canon E) (snd (CreateSchema E ctx req db))"
proof -
  have "delegation_ok (se_canon E) db'" if "schemas_Create E ctx rec db = Inr (r, db')" for rec r db'
    using that assms okD(4) [OF assms(1)]
    by (auto simp: schemas_Create_def dest!: put_schemas_Inr intro!: ok_schemas)
  then show ?thesis using assms(1) by (auto simp: CreateSchema_def Let_def split: sum.split)
qed

lemma DeleteSchema_ok:
  assumes "delegation_ok c db"
  shows "delegation_ok c (snd (DeleteSchema E ctx i db))"
proof (cases "schemas_Delete E ctx i db")
  case (Inr db')
  then obtain u where db': "db' = db\<lparr>st_schemas := filter (\<lambda>s. \<not> tenant_schema ctx u s) (st_schemas db),
      st_relations := filter (\<lambda>r. dr_schema r \<noteq> u) (filter (\<lambda>r. \<not> (dr_schema r = u \<and> dr_tenant r = tenantIDFromCtx ctx)) (st_relations db))\<rparr>"
    by (auto simp: schemas_Delete_def Let_def split: if_splits)
  let ?rs = "filter (\<lambda>r. dr_schema r \<noteq> u) (filter (\<lambda>r. \<not> (dr_schema r = u \<and> dr_tenant r = tenantIDFromCtx ctx)) (st_relations db))"
  have fewer: "delegation_ok c (db\<lparr>st_relations := ?rs\<rparr>)" using ok_fewer_relations [OF ok_fewer_relations [OF assms]] by simp
  have "\<exists>s\<in>set (filter (\<lambda>s. \<not> tenant_schema ctx u s) (st_schemas db)). ss_id s = dr_schema r \<and> ss_tenant s = dr_tenant r"
    if r: "r \<in> set ?rs" for r
  proof -
    obtain s where "s \<in> set (st_schemas db)" "ss_id s = dr_schema r" "ss_tenant s = dr_tenant r" using okD(3) [OF assms, of r] r by auto
    then show ?thesis using r by (intro bexI [of _ s]) (auto simp: tenant_schema_def)
  qed
  moreover have "distinct (map ss_id (filter (\<lambda>s. \<not> tenant_schema ctx u s) (st_schemas db)))"
    using okD(1) [OF assms] by (rule distinct_map_filter)
  ultimately show ?thesis using fewer by (simp add: DeleteSchema_def Inr db' delegation_ok_def)
qed (simp add: DeleteSchema_def assms)

lemma UpdateSchema_ok: "delegation_ok c db \<Longrightarrow> delegation_ok c (snd (UpdateSchema E ctx i req db))"
  by (auto simp: UpdateSchema_def Let_def split: sum.split intro: schemas_Update_ok)

lemma assign_entry_ok: "delegation_ok c db \<Longrightarrow> delegation_ok c (assign_entry E ctx i source s db)"
  by (auto simp: assign_entry_def split: sum.split intro: schemas_Update_ok)

lemma CreateAgentRelation_ok:
  assumes ok: "delegation_ok (se_canon E) db" and "se_canon E (se_new_id E) = Some (se_new_id E)" and "canonical_ends (se_canon E) req"
  shows "delegation_ok (se_canon E) (snd (CreateAgentRelation E ctx i req db))"
proof -
  have "delegation_ok (se_canon E) db1"
    if "schemas_GetByID E ctx i db = Inr rec" and ends: "ends_of E ctx req db = Inr (source, target)"
      and "checkNoCycleExcluding E ctx i source target [] db = None" and "relations_Create E ctx i source target (rr_config req) db = Inr db1"
    for rec source target db1
    using schema_found [OF that(1)] ends_canonical [OF ok assms(3) ends] relations_Create_ok [OF ok _ _ _ _ _ that(3) assms(2) that(4)] by blast
  then show ?thesis using ok
    by (auto simp: CreateAgentRelation_def Let_def split: sum.split prod.split option.split intro!: assign_entry_ok)
qed

lemma UpdateAgentRelation_ok:
  assumes ok: "delegation_ok (se_canon E) db" and "canonical_ends (se_canon E) req"
  shows "delegation_ok (se_canon E) (snd (UpdateAgentRelation E ctx i req db))"
proof -
  have "delegation_ok (se_canon E) db'"
    if ends: "ends_of E ctx req db = Inr (source, target)" and "relations_GetByID E ctx i db = Inr r"
      and "checkNoCycleExcluding E ctx (dr_schema r) source target i db = None"
      and "relations_Update E ctx i source target (rr_config req) db = Inr db'"
    for r source target db'
    using ends_canonical [OF ok assms(2) ends] relations_Update_ok [OF ok that(2) _ _ that(3,4)] by blast
  then show ?thesis using ok
    by (auto simp: UpdateAgentRelation_def split: sum.split prod.split option.split)
qed

lemma DeleteAgentRelation_ok: "delegation_ok c db \<Longrightarrow> delegation_ok c (snd (DeleteAgentRelation E ctx i db))"
  by (auto simp: DeleteAgentRelation_def relations_Delete_def ok_fewer_relations split: sum.splits if_splits)

lemma schema_exec_ok:
  assumes "delegation_ok c db" and "canonical_request c a"
  shows "delegation_ok c (schema_exec a db)"
proof -
  obtain E ctx req where a: "a = (E, ctx, req)" by (cases a)
  have c: "c = se_canon E" and new: "se_canon E (se_new_id E) = Some (se_new_id E)" using assms(2) by (auto simp: a canonical_request_def)
  show ?thesis
  proof (cases req)
    case (AskRelation i r)
    then show ?thesis using assms CreateAgentRelation_ok [OF _ new] by (simp add: a c canonical_request_def)
  next
    case (AskRelationChange i r)
    then show ?thesis using assms UpdateAgentRelation_ok by (simp add: a c canonical_request_def)
  next
    case (AskChat i)
    then show ?thesis using assms(1) by (auto simp: a MarkChatFired_def split: sum.split intro: ok_change_schema)
  qed (use assms(1) new in \<open>simp_all add: a c CreateSchema_ok UpdateSchema_ok DeleteSchema_ok DeleteAgentRelation_ok\<close>)
qed

section \<open>Sequences of requests\<close>

interpretation acyclic_law: kept_law schema_exec "delegation_ok c" "canonical_request c" for c
  by unfold_locales (rule schema_exec_ok)

text \<open>The rows that do not belong to a tenant.\<close>

definition rows_outside :: "string \<Rightarrow> schema_tables \<Rightarrow> schema_row list \<times> delegation_row list \<times> agent_row list" where
  "rows_outside t db = (filter (\<lambda>s. ss_tenant s \<noteq> t) (st_schemas db), filter (\<lambda>r. dr_tenant r \<noteq> t) (st_relations db), st_agents db)"

lemma change_rows_outside: "(\<And>x. P x \<Longrightarrow> \<not> Q x \<and> \<not> Q (f x)) \<Longrightarrow> filter Q (change_rows P f rows) = filter Q rows"
  by (induction rows) (auto simp: change_rows_def)

lemma change_schema_outside:
  assumes "change_schema E q ctx i f db = Inr db'" and "\<And>s. ss_tenant (f s) = ss_tenant s"
  shows "rows_outside (tenantIDFromCtx ctx) db' = rows_outside (tenantIDFromCtx ctx) db"
proof -
  obtain u where "db' = db\<lparr>st_schemas := change_rows (tenant_schema ctx u) f (st_schemas db)\<rparr>"
    using assms(1) by (auto simp: change_schema_def dest!: put_schemas_Inr split: if_splits)
  then show ?thesis by (auto simp: rows_outside_def tenant_schema_def assms(2) intro!: change_rows_outside)
qed

lemma schemas_Update_outside:
  "schemas_Update E ctx i rec db = Inr db' \<Longrightarrow> rows_outside (tenantIDFromCtx ctx) db' = rows_outside (tenantIDFromCtx ctx) db"
  by (auto simp: schemas_Update_def elim!: change_schema_outside)

lemma assign_entry_outside: "rows_outside (tenantIDFromCtx ctx) (assign_entry E ctx i source s db) = rows_outside (tenantIDFromCtx ctx) db"
  by (auto simp: assign_entry_def split: sum.split intro: schemas_Update_outside)

lemma relations_Create_outside:
  "relations_Create E ctx sid source target config db = Inr db' \<Longrightarrow>
   rows_outside (tenantIDFromCtx ctx) db' = rows_outside (tenantIDFromCtx ctx) db"
  by (auto simp: relations_Create_def rows_outside_def dest!: put_relations_Inr)

lemma relations_Update_outside:
  assumes "relations_Update E ctx i source target config db = Inr db'"
  shows "rows_outside (tenantIDFromCtx ctx) db' = rows_outside (tenantIDFromCtx ctx) db"
proof -
  obtain u a b where "db' = db\<lparr>st_relations := change_rows (tenant_relation ctx u)
      (\<lambda>r. r\<lparr>dr_source := a, dr_target := b, dr_config := config\<rparr>) (st_relations db)\<rparr>"
    using assms by (auto simp: relations_Update_def dest!: put_relations_Inr split: if_splits)
  then show ?thesis by (auto simp: rows_outside_def tenant_relation_def intro!: change_rows_outside)
qed

lemma filter_outside: "(\<And>x. Q x \<Longrightarrow> P x) \<Longrightarrow> filter Q (filter P xs) = filter Q xs"
  by (induction xs) auto

text \<open>The relations that go with a schema are of its tenant, whatever schema they are looked up by.\<close>

lemma schemas_Delete_outside:
  assumes ok: "delegation_ok c db" and gone: "schemas_Delete E ctx i db = Inr db'"
  shows "rows_outside (tenantIDFromCtx ctx) db' = rows_outside (tenantIDFromCtx ctx) db"
proof -
  obtain u where some: "filter (tenant_schema ctx u) (st_schemas db) \<noteq> []"
    and db': "db' = db\<lparr>st_schemas := filter (\<lambda>s. \<not> tenant_schema ctx u s) (st_schemas db),
      st_relations := filter (\<lambda>r. dr_schema r \<noteq> u) (filter (\<lambda>r. \<not> (dr_schema r = u \<and> dr_tenant r = tenantIDFromCtx ctx)) (st_relations db))\<rparr>"
    using gone by (auto simp: schemas_Delete_def Let_def split: if_splits)
  obtain s where s: "s \<in> set (st_schemas db)" "ss_id s = u" "ss_tenant s = tenantIDFromCtx ctx"
    using some by (auto simp: filter_empty_conv tenant_schema_def)
  have "dr_tenant r = tenantIDFromCtx ctx" if r: "r \<in> set (st_relations db)" "dr_schema r = u" for r
  proof -
    obtain s' where "s' \<in> set (st_schemas db)" "ss_id s' = dr_schema r" "ss_tenant s' = dr_tenant r" using okD(3) [OF ok r(1)] by blast
    then show ?thesis using okD(1) [OF ok] s r(2) by (auto simp: distinct_map inj_on_def)
  qed
  then have "filter (\<lambda>r. dr_tenant r \<noteq> tenantIDFromCtx ctx) (st_relations db')
      = filter (\<lambda>r. dr_tenant r \<noteq> tenantIDFromCtx ctx) (st_relations db)"
    unfolding db' by (auto intro!: filter_cong)
  moreover have "filter (\<lambda>s. ss_tenant s \<noteq> tenantIDFromCtx ctx) (filter (\<lambda>s. \<not> tenant_schema ctx u s) (st_schemas db))
      = filter (\<lambda>s. ss_tenant s \<noteq> tenantIDFromCtx ctx) (st_schemas db)"
    by (rule filter_outside) (simp add: tenant_schema_def)
  ultimately show ?thesis by (simp add: rows_outside_def db')
qed

lemma relations_Delete_outside:
  "relations_Delete E ctx i db = Inr db' \<Longrightarrow> rows_outside (tenantIDFromCtx ctx) db' = rows_outside (tenantIDFromCtx ctx) db"
  by (auto simp: relations_Delete_def rows_outside_def tenant_relation_def filter_outside simp del: filter_filter split: if_splits)

lemma schemas_Create_outside:
  "schemas_Create E ctx rec db = Inr (r, db') \<Longrightarrow> rows_outside (tenantIDFromCtx ctx) db' = rows_outside (tenantIDFromCtx ctx) db"
  by (auto simp: schemas_Create_def rows_outside_def dest!: put_schemas_Inr)

lemma schema_exec_outside:
  assumes "delegation_ok c db"
  shows "rows_outside (tenantIDFromCtx ctx) (schema_exec (E, ctx, req) db) = rows_outside (tenantIDFromCtx ctx) db"
proof (cases req)
  case (AskSchema r)
  then show ?thesis by (auto simp: CreateSchema_def Let_def dest: schemas_Create_outside split: sum.split)
next
  case (AskSchemaChange i r)
  then show ?thesis by (auto simp: UpdateSchema_def Let_def dest: schemas_Update_outside split: sum.split)
next
  case (AskSchemaRemoval i)
  then show ?thesis by (auto simp: DeleteSchema_def dest: schemas_Delete_outside [OF assms] split: sum.split)
next
  case (AskRelation i r)
  then show ?thesis
    by (auto simp: CreateAgentRelation_def Let_def assign_entry_outside dest: relations_Create_outside split: sum.split prod.split option.split)
next
  case (AskRelationChange i r)
  then show ?thesis
    by (auto simp: UpdateAgentRelation_def dest: relations_Update_outside split: sum.split prod.split option.split)
next
  case (AskRelationRemoval i)
  then show ?thesis by (auto simp: DeleteAgentRelation_def dest: relations_Delete_outside split: sum.split)
next
  case (AskChat i)
  then show ?thesis by (auto simp: MarkChatFired_def dest: change_schema_outside split: sum.split)
qed

definition of_tenant :: "string \<Rightarrow> schema_env \<times> string \<times> schema_request \<Rightarrow> bool" where
  "of_tenant t a \<longleftrightarrow> tenantIDFromCtx (fst (snd a)) = t"

interpretation tenant_rows: kept_law schema_exec "\<lambda>db. delegation_ok c db \<and> rows_outside t db = X" "\<lambda>a. canonical_request c a \<and> of_tenant t a" for c t X
proof
  fix a db
  assume a: "canonical_request c a \<and> of_tenant t a" and db: "delegation_ok c db \<and> rows_outside t db = X"
  obtain E ctx req where parts: "a = (E, ctx, req)" by (cases a)
  have "tenantIDFromCtx ctx = t" using a by (simp add: parts of_tenant_def)
  then show "delegation_ok c (schema_exec a db) \<and> rows_outside t (schema_exec a db) = X"
    using schema_exec_ok [of c db a] schema_exec_outside [of c db ctx E req] a db by (simp add: parts)
qed

section \<open>The theorems\<close>

text \<open>C35: Delegation never becomes circular.  As long as every request names its agents by name or by the canonical text of
  their identifier, no sequence of creations, changes and removals of schemas and relations closes a cycle of delegation in
  any schema, whatever queries of the database fail.\<close>

theorem delegations_stay_acyclic:
  assumes "delegation_ok c db" and "list_all (canonical_request c) as"
  shows "acyclic (graph_of u (st_relations (fold schema_exec as db)))"
  by (rule okD(6) [OF acyclic_law.run_kept [OF assms(2,1)]])

text \<open>Whatever a tenant asks for, the schemas and relations of the others and all agents stay as they are.\<close>

theorem schema_requests_stay_in_tenant:
  assumes "delegation_ok c db" and "list_all (\<lambda>a. canonical_request c a \<and> of_tenant t a) as"
  shows "rows_outside t (fold schema_exec as db) = rows_outside t db"
  by (rule conjunct2 [OF tenant_rows.run_kept [OF assms(2) conjI [OF assms(1) refl]]])

section \<open>Examples\<close>

text \<open>A database that takes every text for an identifier and writes identifiers in small letters.\<close>

definition uuid_of :: "char \<Rightarrow> string" where
  "uuid_of x = replicate 8 x @ ''-'' @ replicate 4 x @ ''-'' @ replicate 4 x @ ''-'' @ replicate 4 x @ ''-'' @ replicate 12 x"

definition small_hex :: "char \<Rightarrow> char" where
  "small_hex x = (if x = CHR ''A'' then CHR ''a'' else if x = CHR ''B'' then CHR ''b'' else x)"

definition demo_canon :: "string \<Rightarrow> string option" where
  "demo_canon s = (if s = [] then None else Some (map small_hex s))"

definition demo_schema_env :: "string \<Rightarrow> schema_env" where
  "demo_schema_env i = \<lparr>se_fails = (\<lambda>q. None), se_canon = demo_canon, se_uuid_ok = isUUID, se_new_id = i, se_clock = zero_time\<rparr>"

definition demo_schemas :: schema_tables where
  "demo_schemas =
     \<lparr>st_schemas = [\<lparr>ss_id = ''s1'', ss_tenant = ''t1'', ss_name = ''support'', ss_description = [], ss_entry = None,
        ss_chat = False, ss_fired = None, ss_system = False, ss_created = zero_time\<rparr>],
      st_relations = [],
      st_agents = [(sample_row ''a1'' ''t1'')\<lparr>ag_name := ''lead''\<rparr>, (sample_row (uuid_of CHR ''b'') ''t1'')\<lparr>ag_name := ''aide''\<rparr>,
        (sample_row (uuid_of CHR ''c'') ''t2'')\<lparr>ag_name := ''other''\<rparr>]\<rparr>"

definition demo_relation :: "string \<Rightarrow> string \<Rightarrow> string \<Rightarrow> schema_env \<times> string \<times> schema_request" where
  "demo_relation i source target =
     (demo_schema_env i, ''t1'', AskRelation ''s1'' \<lparr>rr_source = source, rr_target = target, rr_config = []\<rparr>)"

definition demo_requests :: "(schema_env \<times> string \<times> schema_request) list" where
  "demo_requests = [demo_relation ''r2'' ''lead'' ''aide'', demo_relation ''r3'' ''aide'' ''lead'']"

lemma demo_schemas_ok: "delegation_ok demo_canon demo_schemas"
proof -
  have "acyclic (graph_of u (st_relations demo_schemas))" for u
    by (simp add: graph_of_def demo_schemas_def acyclic_def)
  moreover have "list_all (\<lambda>i. demo_canon i = Some i) (map ss_id (st_schemas demo_schemas) @ map ag_id (st_agents demo_schemas))"
    by (simp add: demo_canon_def demo_schemas_def sample_row_def small_hex_def uuid_of_def)
  ultimately show ?thesis by (simp add: delegation_ok_def demo_schemas_def)
qed

lemma demo_requests_canonical: "list_all (canonical_request demo_canon) demo_requests"
proof -
  have "\<not> isUUID ''lead''" and "\<not> isUUID ''aide''" by (simp_all add: isUUID_def)
  then show ?thesis
    by (simp add: demo_requests_def demo_relation_def canonical_request_def canonical_ends_def demo_schema_env_def demo_canon_def small_hex_def)
qed

text \<open>The first request is granted, the second one, which would close a cycle, is not.\<close>

definition edges_left :: "schema_tables \<Rightarrow> (string \<times> string) list" where
  "edges_left db = map (\<lambda>r. (dr_source r, dr_target r)) (st_relations db)"

theorem delegations_stay_acyclic_witness:
  "edges_left (fold schema_exec demo_requests demo_schemas) = [(''a1'', uuid_of CHR ''b'')]
   \<and> acyclic (graph_of ''s1'' (st_relations (fold schema_exec demo_requests demo_schemas)))"
proof
  show "edges_left (fold schema_exec demo_requests demo_schemas) = [(''a1'', uuid_of CHR ''b'')]" by code_simp
qed (rule delegations_stay_acyclic [OF demo_schemas_ok demo_requests_canonical])

section \<open>What the checks let through\<close>

text \<open>The check compares texts, the database identifiers: an agent named by its identifier in capital letters is another agent
  for the check and the same one for the table, so that an agent that delegates to itself is stored.\<close>

theorem capital_letters_close_a_cycle:
  "edges_left (schema_exec (demo_relation ''r4'' (uuid_of CHR ''b'') (uuid_of CHR ''B'')) demo_schemas)
   = [(uuid_of CHR ''b'', uuid_of CHR ''b'')]"
  by code_simp

text \<open>An identifier in a request is not looked up among the agents of the tenant: an agent of another tenant becomes a target.\<close>

theorem foreign_agent_becomes_target:
  "edges_left (schema_exec (demo_relation ''r2'' ''lead'' (uuid_of CHR ''c'')) demo_schemas) = [(''a1'', uuid_of CHR ''c'')]"
  by code_simp

text \<open>The name of an entry agent is looked up among the agents of all tenants, and the answer tells its name.\<close>

definition schema_entries :: "schema_tables \<Rightarrow> string option list" where
  "schema_entries db = map ss_entry (st_schemas db)"

definition entry_request :: "string \<Rightarrow> update_schema_request" where
  "entry_request name = \<lparr>us_name = None, us_description = None, us_entry = Some name, us_chat = None\<rparr>"

theorem entry_of_another_tenant:
  "schema_entries (snd (UpdateSchema (demo_schema_env []) ''t1'' ''s1'' (entry_request ''other'') demo_schemas)) = [Some (uuid_of CHR ''c'')]"
  by code_simp

text \<open>The answer to the creation of a schema has the zero time and no entry agent, whatever was asked and stored.\<close>

theorem created_schema_answers_zero_time:
  "fst (CreateSchema E ctx req db) = Inr info \<Longrightarrow> si_created info = zero_time \<and> si_entry_name info = [] \<and> si_count info = 0"
  by (auto simp: CreateSchema_def schemas_Create_def Let_def split: sum.splits)

text \<open>A relation changed into one that exists is an error without a class, that is an internal error for the client.\<close>

theorem duplicate_change_is_internal:
  assumes "ends_of E ctx req db = Inr (source, target)" and "relations_GetByID E ctx i db = Inr r"
    and "checkNoCycleExcluding E ctx (dr_schema r) source target i db = None"
    and "relations_Update E ctx i source target (rr_config req) db = Inl duplicate"
  shows "fst (UpdateAgentRelation E ctx i req db) = Some (plain_error ''update agent relation'' (failure_text duplicate))"
  using assms by (simp add: UpdateAgentRelation_def missing_or_def duplicate_def)

section \<open>The check is exact\<close>

text \<open>C36: The check for circular delegation is exact: in a schema without a cycle it refuses a relation, new or changed, exactly
  when the relation would close a cycle with those that stay, so that no useful relation is turned away.\<close>

theorem cycle_check_is_exact:
  assumes "relations_List E ctx i db = Inr rs" and "acyclic (set (graph_without exclude rs))"
  shows "checkNoCycleExcluding E ctx i source target exclude db = None
    \<longleftrightarrow> acyclic (insert (source, target) (set (graph_without exclude rs)))"
  using assms by (auto simp: checkNoCycleExcluding_def reachable_iff_path split: if_splits)

definition demo_linked :: schema_tables where
  "demo_linked = demo_schemas\<lparr>st_relations := [\<lparr>dr_id = ''r2'', dr_tenant = ''t1'', dr_schema = ''s1'',
     dr_source = ''a1'', dr_target = ''b1'', dr_config = []\<rparr>]\<rparr>"

text \<open>The way back is refused beside the relation, and is accepted when the relation itself is turned around.\<close>

theorem cycle_check_is_exact_witness:
  "let check = (\<lambda>exclude. checkNoCycleExcluding (demo_schema_env []) ''t1'' ''s1'' ''b1'' ''a1'' exclude demo_linked)
   in check [] \<noteq> None \<and> \<not> acyclic {(''b1'', ''a1''), (''a1'', ''b1'')}
      \<and> check ''r2'' = None"
proof -
  let ?E = "demo_schema_env []" and ?i = "''s1''"
  have listed: "relations_List ?E ''t1'' ?i demo_linked = Inr (st_relations demo_linked)"
    and edge: "graph_without [] (st_relations demo_linked) = [(''a1'', ''b1'')]"
    and apart: "''a1'' \<noteq> ''b1''"
    and refused: "checkNoCycleExcluding ?E ''t1'' ?i ''b1'' ''a1'' [] demo_linked \<noteq> None"
    and turned: "checkNoCycleExcluding ?E ''t1'' ?i ''b1'' ''a1'' ''r2'' demo_linked = None"
    by code_simp+
  have no_edges: "acyclic {}" by (simp add: acyclic_def)
  have "acyclic (set (graph_without [] (st_relations demo_linked)))" using apart by (simp add: edge no_edges)
  from cycle_check_is_exact [OF listed this, of "''b1''" "''a1''"]
  show ?thesis using refused turned by (simp add: Let_def edge)
qed

end
