(* ===== verification/Knowledge_Bases.thy ===== *)
theory Knowledge_Bases
  imports Knowledge_Store Schema_Service
begin

text \<open>
  Knowledge bases and their links to agents: the repository (\<open>persistence/configrepo/knowledge_base_repository.go\<close>), the
  service over it (\<open>kbStoreAdapter\<close> and \<open>kbFileManagerAdapter\<close> of \<open>internal/app/http_adapters_knowledge.go\<close>) and the handlers
  for bases and for the knowledge of an agent (\<open>delivery/http/knowledge_base_handler.go\<close>, \<open>knowledge_handler.go\<close>).

  The theory shows that no sequence of requests links an agent to a knowledge base of another tenant, that the names of
  uploaded files cannot leave their directory, and which answers of the handlers differ from what their comments say.
\<close>

section \<open>The repository of knowledge bases\<close>

definition base_row :: "string \<Rightarrow> string \<Rightarrow> knowledge_base \<Rightarrow> bool" where
  "base_row ctx i b \<longleftrightarrow> kb_tenant b = tenantIDFromCtx ctx \<and> kb_id b = i"

definition bases_hold :: "knowledge_base list \<Rightarrow> bool" where
  "bases_hold bs \<longleftrightarrow> distinct (map kb_id bs) \<and> distinct (map (\<lambda>b. (kb_tenant b, kb_name b)) bs)"

definition put_bases :: "knowledge_base list \<Rightarrow> knowledge_world \<Rightarrow> go_error + knowledge_world" where
  "put_bases bs w =
     (if \<not> bases_hold bs then Inl ''ERROR: duplicate key value violates unique constraint''
      else if \<exists>b\<in>set bs. case kb_model b of None \<Rightarrow> False | Some m \<Rightarrow> m \<notin> set (map lr_id (kw_models w))
      then Inl ''ERROR: violates foreign key constraint fk_knowledge_bases_embedding_model_id''
      else Inr (w\<lparr>kw_bases := bs\<rparr>))"

definition bases_Create :: "knowledge_env \<Rightarrow> string \<Rightarrow> knowledge_base \<Rightarrow> knowledge_world \<Rightarrow> go_error + knowledge_base \<times> knowledge_world" where
  "bases_Create E ctx b w =
     (let b' = b\<lparr>kb_id := kn_new_id E 0, kb_tenant := tenantIDFromCtx ctx\<rparr>
      in ask E CreateBaseQ ''create knowledge base'' (bind_res (put_bases (kw_bases w @ [b']) w) (\<lambda>w'. Inr (b', w'))))"

definition bases_Update :: "knowledge_env \<Rightarrow> string \<Rightarrow> knowledge_base \<Rightarrow> knowledge_world \<Rightarrow> go_error + knowledge_world" where
  "bases_Update E ctx b w =
     bind_res (ask E FindBaseQ ''find knowledge base''
         (case first_row kb_id (base_row ctx (kb_id b)) (kw_bases w) of None \<Rightarrow> Inl ''record not found'' | Some old \<Rightarrow> Inr old))
       (\<lambda>old. ask E UpdateBaseQ ''update knowledge base''
          (put_bases (change_rows (\<lambda>x. kb_id x = kb_id b) (\<lambda>x. b\<lparr>kb_tenant := kb_tenant old\<rparr>) (kw_bases w)) w))"

definition bases_GetByID :: "knowledge_env \<Rightarrow> string \<Rightarrow> string \<Rightarrow> knowledge_world \<Rightarrow> go_error + knowledge_base option" where
  "bases_GetByID E ctx i w = ask E GetBaseQ ''get knowledge base'' (Inr (first_row kb_id (base_row ctx i) (kw_bases w)))"

definition bases_List :: "knowledge_env \<Rightarrow> string \<Rightarrow> knowledge_world \<Rightarrow> go_error + knowledge_base list" where
  "bases_List E ctx w =
     ask E ListBasesQ ''list knowledge bases''
       (Inr (sort_key (\<lambda>b. - kb_created b) (filter (\<lambda>b. kb_tenant b = tenantIDFromCtx ctx) (kw_bases w))))"

text \<open>The links go first and for every tenant; with the base, its links, documents and chunks go by the foreign keys.\<close>

definition without_bases :: "(knowledge_base \<Rightarrow> bool) \<Rightarrow> knowledge_world \<Rightarrow> knowledge_world" where
  "without_bases P w =
     (let gone = map kb_id (filter P (kw_bases w))
      in (drop_docs (\<lambda>d. kd_kb d \<in> set gone) w)\<lparr>kw_bases := filter (\<lambda>b. \<not> P b) (kw_bases w),
           kw_links := filter (\<lambda>l. fst l \<notin> set gone) (kw_links w)\<rparr>)"

definition bases_Delete :: "knowledge_env \<Rightarrow> string \<Rightarrow> string \<Rightarrow> knowledge_world \<Rightarrow> go_error option \<times> knowledge_world" where
  "bases_Delete E ctx i w =
     (case ask E DropLinksQ ''delete KB agent links'' (Inr (w\<lparr>kw_links := filter (\<lambda>l. fst l \<noteq> i) (kw_links w)\<rparr>)) of
        Inl e \<Rightarrow> (Some e, w)
      | Inr w1 \<Rightarrow>
          (case ask E DropBaseQ ''delete knowledge base'' (Inr (without_bases (base_row ctx i) w1)) of
             Inl e \<Rightarrow> (Some e, w1)
           | Inr w2 \<Rightarrow> (None, w2)))"

definition ErrAgentNotInTenant :: go_error where
  "ErrAgentNotInTenant = ''agent not found in tenant''"

definition ErrKBsNotInTenant :: go_error where
  "ErrKBsNotInTenant = ''one or more knowledge bases not found in tenant''"

definition verifyKBAndAgentInTenant :: "knowledge_env \<Rightarrow> string \<Rightarrow> string \<Rightarrow> string \<Rightarrow> knowledge_world \<Rightarrow> go_error option" where
  "verifyKBAndAgentInTenant E ctx kb a w =
     (case ask E CountBaseQ ''verify knowledge base tenant'' (Inr (length (filter (base_row ctx kb) (kw_bases w)))) of
        Inl e \<Rightarrow> Some e
      | Inr n \<Rightarrow>
          if n = 0 then Some ErrKBsNotInTenant
          else (case ask E CountAgentQ ''verify agent tenant'' (Inr (length (filter (\<lambda>x. ag_id x = a \<and> in_tenant ctx x) (kw_agents w)))) of
                  Inl e \<Rightarrow> Some e
                | Inr m \<Rightarrow> if m = 0 then Some ErrAgentNotInTenant else None))"

definition bases_LinkAgent :: "knowledge_env \<Rightarrow> string \<Rightarrow> string \<Rightarrow> string \<Rightarrow> knowledge_world \<Rightarrow> go_error option \<times> knowledge_world" where
  "bases_LinkAgent E ctx kb a w =
     (case verifyKBAndAgentInTenant E ctx kb a w of
        Some e \<Rightarrow> (Some e, w)
      | None \<Rightarrow>
          (case ask E LinkQ ''link agent to KB'' (Inr (if (kb, a) \<in> set (kw_links w) then w else w\<lparr>kw_links := kw_links w @ [(kb, a)]\<rparr>)) of
             Inl e \<Rightarrow> (Some e, w)
           | Inr w' \<Rightarrow> (None, w')))"

definition bases_UnlinkAgent :: "knowledge_env \<Rightarrow> string \<Rightarrow> string \<Rightarrow> string \<Rightarrow> knowledge_world \<Rightarrow> go_error option \<times> knowledge_world" where
  "bases_UnlinkAgent E ctx kb a w =
     (case verifyKBAndAgentInTenant E ctx kb a w of
        Some e \<Rightarrow> (Some e, w)
      | None \<Rightarrow>
          (case ask E UnlinkQ ''unlink agent from KB'' (Inr (w\<lparr>kw_links := filter (\<lambda>l. l \<noteq> (kb, a)) (kw_links w)\<rparr>)) of
             Inl e \<Rightarrow> (Some e, w)
           | Inr w' \<Rightarrow> (None, w')))"

definition ListLinkedAgentIDs :: "knowledge_env \<Rightarrow> string \<Rightarrow> knowledge_world \<Rightarrow> go_error + string list" where
  "ListLinkedAgentIDs E kb w = ask E LinkedAgentsQ ''list linked agents'' (Inr (map snd (filter (\<lambda>l. fst l = kb) (kw_links w))))"

definition ListKBsByAgentID :: "knowledge_env \<Rightarrow> string \<Rightarrow> knowledge_world \<Rightarrow> go_error + string list" where
  "ListKBsByAgentID E a w = ask E BasesOfAgentQ ''list KBs by agent'' (Inr (map fst (filter (\<lambda>l. snd l = a) (kw_links w))))"

fun uniqueStrings :: "string list \<Rightarrow> string list" where
  "uniqueStrings [] = []"
| "uniqueStrings (s # ss) = s # filter (\<lambda>x. x \<noteq> s) (uniqueStrings ss)"

text \<open>The links of an agent are replaced in one transaction.\<close>

definition ReplaceAgentKBs :: "knowledge_env \<Rightarrow> string \<Rightarrow> string \<Rightarrow> string list \<Rightarrow> knowledge_world \<Rightarrow> go_error option \<times> knowledge_world" where
  "ReplaceAgentKBs E ctx a kbs w =
     (let known = length (filter (\<lambda>b. kb_id b \<in> set kbs \<and> kb_tenant b = tenantIDFromCtx ctx) (kw_bases w));
          replaced = bind_res (ask E ClearLinksQ ''clear agent KB links'' (Inr (filter (\<lambda>l. snd l \<noteq> a) (kw_links w))))
            (\<lambda>ls. if kbs = [] then Inr ls
                  else ask E InsertLinksQ ''insert agent KB links'' (Inr (ls @ map (\<lambda>k. (k, a)) (uniqueStrings kbs))))
      in case ask E CountAgentQ ''verify agent tenant'' (Inr (length (filter (\<lambda>x. ag_id x = a \<and> in_tenant ctx x) (kw_agents w)))) of
           Inl e \<Rightarrow> (Some e, w)
         | Inr n \<Rightarrow>
             if n = 0 then (Some ErrAgentNotInTenant, w)
             else (case (if kbs = [] then Inr (length (uniqueStrings kbs)) else ask E CountBaseQ ''verify kb tenants'' (Inr known)) of
                     Inl e \<Rightarrow> (Some e, w)
                   | Inr m \<Rightarrow>
                       if m \<noteq> length (uniqueStrings kbs) then (Some ErrKBsNotInTenant, w)
                       else (case replaced of Inl e \<Rightarrow> (Some e, w) | Inr ls \<Rightarrow> (None, w\<lparr>kw_links := ls\<rparr>))))"

definition ListKBsByAgentName :: "knowledge_env \<Rightarrow> string \<Rightarrow> string \<Rightarrow> knowledge_world \<Rightarrow> go_error + string list" where
  "ListKBsByAgentName E ctx name w =
     (case (kn_fails E AgentByNameQ2, find (\<lambda>a. ag_name a = name \<and> in_tenant ctx a) (kw_agents w)) of
        (None, Some a) \<Rightarrow> ListKBsByAgentID E (ag_id a) w
      | _ \<Rightarrow> Inr [])"

definition GetKBsWithEmbeddingModel :: "knowledge_env \<Rightarrow> string \<Rightarrow> string \<Rightarrow> knowledge_world \<Rightarrow> go_error + knowledge_base list" where
  "GetKBsWithEmbeddingModel E ctx name w =
     bind_res (ListKBsByAgentName E ctx name w)
       (\<lambda>ids. if ids = [] then Inr []
              else ask E ListBasesQ ''get KBs with embedding model''
                     (Inr (filter (\<lambda>b. kb_tenant b = tenantIDFromCtx ctx \<and> kb_id b \<in> set ids) (kw_bases w))))"

section \<open>The service of knowledge bases\<close>

record base_info =
  bi_id :: string
  bi_name :: string
  bi_description :: string
  bi_model :: string
  bi_files :: nat
  bi_agents :: "string list"
  bi_created :: time
  bi_updated :: time

record base_request =
  bq_name :: string
  bq_description :: string
  bq_model :: string

record base_patch =
  bp_name :: "string option"
  bp_description :: "string option"
  bp_model :: "string option"

text \<open>The kind of the model is checked, its tenant is not.\<close>

definition validateEmbeddingModelKind :: "knowledge_env \<Rightarrow> string \<Rightarrow> knowledge_world \<Rightarrow> err option" where
  "validateEmbeddingModelKind E i w =
     (if i = [] then None
      else case (kn_fails E KindQ, find (\<lambda>m. lr_id m = i) (kw_models w)) of
             (None, Some m) \<Rightarrow>
               if lr_kind m = [] then Some (Opaque (''embedding_model_id references unknown model: '' @ i))
               else if lr_kind m \<noteq> ''embedding''
               then Some (Opaque (''embedding_model_id must reference an embedding model, got kind='' @ lr_kind m))
               else None
           | _ \<Rightarrow> Some (Opaque (''embedding_model_id references unknown model: '' @ i)))"

definition linked_names :: "knowledge_env \<Rightarrow> string list \<Rightarrow> knowledge_world \<Rightarrow> string list" where
  "linked_names E ids w =
     (if kn_fails E AgentNameQ \<noteq> None then []
      else filter (\<lambda>n. n \<noteq> []) (List.map_filter (\<lambda>i. map_option ag_name (find (\<lambda>a. ag_id a = i) (kw_agents w))) ids))"

text \<open>What cannot be read is left out of the answer.\<close>

definition toInfo :: "knowledge_env \<Rightarrow> knowledge_base \<Rightarrow> knowledge_world \<Rightarrow> base_info" where
  "toInfo E b w =
     \<lparr>bi_id = kb_id b, bi_name = kb_name b, bi_description = kb_description b, bi_model = (case kb_model b of None \<Rightarrow> [] | Some m \<Rightarrow> m),
      bi_files = (if kn_fails E CountFilesQ = None then length (filter (\<lambda>d. kd_kb d = kb_id b) (kw_docs w)) else 0),
      bi_agents = linked_names E (case ListLinkedAgentIDs E (kb_id b) w of Inl e \<Rightarrow> [] | Inr ids \<Rightarrow> ids) w,
      bi_created = kb_created b, bi_updated = kb_updated b\<rparr>"

definition CreateBase :: "knowledge_env \<Rightarrow> string \<Rightarrow> string \<Rightarrow> base_request \<Rightarrow> knowledge_world \<Rightarrow> (err + base_info) \<times> knowledge_world" where
  "CreateBase E ctx tenant req w =
     (case validateEmbeddingModelKind E (bq_model req) w of
        Some e \<Rightarrow> (Inl e, w)
      | None \<Rightarrow>
          (case bases_Create E ctx \<lparr>kb_id = [], kb_tenant = tenant, kb_name = bq_name req, kb_description = bq_description req,
                 kb_model = (if bq_model req \<noteq> [] then Some (bq_model req) else None), kb_created = kn_clock E, kb_updated = kn_clock E\<rparr> w of
             Inl e \<Rightarrow> (Inl (Opaque e), w)
           | Inr (b, w') \<Rightarrow> (Inr (toInfo E b w'), w')))"

text \<open>A base that is not there is no error, but no answer either.\<close>

definition change_base ::
    "knowledge_env \<Rightarrow> string \<Rightarrow> string \<Rightarrow> (knowledge_base \<Rightarrow> knowledge_base) \<Rightarrow> knowledge_world \<Rightarrow> (err + base_info option) \<times> knowledge_world" where
  "change_base E ctx i f w =
     (case bases_GetByID E ctx i w of
        Inl e \<Rightarrow> (Inl (Opaque e), w)
      | Inr None \<Rightarrow> (Inr None, w)
      | Inr (Some b) \<Rightarrow>
          let b' = (f b)\<lparr>kb_updated := kn_clock E\<rparr>
          in case bases_Update E ctx b' w of
               Inl e \<Rightarrow> (Inl (Opaque e), w)
             | Inr w' \<Rightarrow> (Inr (Some (toInfo E b' w')), w'))"

definition UpdateBase :: "knowledge_env \<Rightarrow> string \<Rightarrow> string \<Rightarrow> base_request \<Rightarrow> knowledge_world \<Rightarrow> (err + base_info option) \<times> knowledge_world" where
  "UpdateBase E ctx i req w =
     (case validateEmbeddingModelKind E (bq_model req) w of
        Some e \<Rightarrow> (Inl e, w)
      | None \<Rightarrow>
          change_base E ctx i (\<lambda>b. b\<lparr>kb_name := bq_name req, kb_description := bq_description req,
            kb_model := (if bq_model req \<noteq> [] then Some (bq_model req) else None)\<rparr>) w)"

definition PatchBase :: "knowledge_env \<Rightarrow> string \<Rightarrow> string \<Rightarrow> base_patch \<Rightarrow> knowledge_world \<Rightarrow> (err + base_info option) \<times> knowledge_world" where
  "PatchBase E ctx i req w =
     (case (case bp_model req of Some m \<Rightarrow> if m \<noteq> [] then validateEmbeddingModelKind E m w else None | None \<Rightarrow> None) of
        Some e \<Rightarrow> (Inl e, w)
      | None \<Rightarrow>
          change_base E ctx i (\<lambda>b. b\<lparr>kb_name := (case bp_name req of Some n \<Rightarrow> n | None \<Rightarrow> kb_name b),
            kb_description := (case bp_description req of Some t \<Rightarrow> t | None \<Rightarrow> kb_description b),
            kb_model := (case bp_model req of Some m \<Rightarrow> if m = [] then None else Some m | None \<Rightarrow> kb_model b)\<rparr>) w)"

definition GetBase :: "knowledge_env \<Rightarrow> string \<Rightarrow> string \<Rightarrow> knowledge_world \<Rightarrow> err + base_info option" where
  "GetBase E ctx i w =
     (case bases_GetByID E ctx i w of
        Inl e \<Rightarrow> Inl (Opaque e)
      | Inr b \<Rightarrow> Inr (map_option (\<lambda>b. toInfo E b w) b))"

definition ListBases :: "knowledge_env \<Rightarrow> string \<Rightarrow> knowledge_world \<Rightarrow> err + base_info list" where
  "ListBases E ctx w = (case bases_List E ctx w of Inl e \<Rightarrow> Inl (Opaque e) | Inr bs \<Rightarrow> Inr (map (\<lambda>b. toInfo E b w) bs))"

text \<open>The name of an agent is looked up among the agents of all tenants.\<close>

definition resolveAgentID :: "knowledge_env \<Rightarrow> string \<Rightarrow> knowledge_world \<Rightarrow> err + string" where
  "resolveAgentID E name w =
     (case (kn_fails E AgentByNameQ2, find (\<lambda>a. ag_name a = name) (kw_agents w)) of
        (None, Some a) \<Rightarrow> if ag_id a = [] then Inl (Opaque (''agent '' @ go_quote name @ '' not found'')) else Inr (ag_id a)
      | _ \<Rightarrow> Inl (Opaque (''agent '' @ go_quote name @ '' not found'')))"

definition link_by_name ::
    "knowledge_env \<Rightarrow> (string \<Rightarrow> knowledge_world \<Rightarrow> go_error option \<times> knowledge_world) \<Rightarrow> string \<Rightarrow> knowledge_world \<Rightarrow> err option \<times> knowledge_world" where
  "link_by_name E change name w =
     (case resolveAgentID E name w of
        Inl e \<Rightarrow> (Some e, w)
      | Inr a \<Rightarrow> (case change a w of (e, w') \<Rightarrow> (map_option Opaque e, w')))"

definition LinkAgent :: "knowledge_env \<Rightarrow> string \<Rightarrow> string \<Rightarrow> string \<Rightarrow> knowledge_world \<Rightarrow> err option \<times> knowledge_world" where
  "LinkAgent E ctx kb name w = link_by_name E (bases_LinkAgent E ctx kb) name w"

definition UnlinkAgent :: "knowledge_env \<Rightarrow> string \<Rightarrow> string \<Rightarrow> string \<Rightarrow> knowledge_world \<Rightarrow> err option \<times> knowledge_world" where
  "UnlinkAgent E ctx kb name w = link_by_name E (bases_UnlinkAgent E ctx kb) name w"

definition DeleteBase :: "knowledge_env \<Rightarrow> string \<Rightarrow> string \<Rightarrow> knowledge_world \<Rightarrow> err option \<times> knowledge_world" where
  "DeleteBase E ctx i w = (case bases_Delete E ctx i w of (e, w') \<Rightarrow> (map_option Opaque e, w'))"


section \<open>Uploaded files\<close>

definition maxUploadSize :: int where
  "maxUploadSize = 50 * 2 ^ 20"

definition allowedMIMETypes :: "string \<Rightarrow> string list option" where
  "allowedMIMETypes ext =
     (if ext = ''.txt'' then Some [''text/plain'']
      else if ext = ''.md'' then Some [''text/plain'', ''text/markdown'', ''application/octet-stream'']
      else if ext = ''.csv'' then Some [''text/csv'', ''text/plain'', ''application/csv'', ''application/octet-stream'']
      else if ext = ''.pdf'' then Some [''application/pdf'', ''application/octet-stream'']
      else if ext = ''.docx'' then Some [''application/vnd.openxmlformats-officedocument.wordprocessingml.document'', ''application/octet-stream'',
             ''application/zip'']
      else None)"

definition backslash :: string where
  "backslash = [CHR 0x5C]"

definition sanitizeUploadFilename :: "string \<Rightarrow> string" where
  "sanitizeUploadFilename name =
     (let n = trim_space (replace_all backslash [] (replace_all ''/'' [] (replace_all ''..'' [] (path_base name))))
      in if n = ''.'' \<or> n = [] then [] else n)"

definition validateMIME :: "string \<Rightarrow> string list \<Rightarrow> bool" where
  "validateMIME ct allowed = (ct = [] \<or> lower_text (hd (split_byte (CHR '';'') ct)) \<in> set allowed)"

text \<open>The form of a request: it is too large or broken, it has no file, or a file with its name, type and content.\<close>

datatype upload_form = BrokenForm | NoFile | FormFile string string "go_error + string"

definition read_upload :: "(string \<Rightarrow> string) \<Rightarrow> upload_form \<Rightarrow> string + upload" where
  "read_upload sha form =
     (case form of
        BrokenForm \<Rightarrow> Inl ''file too large or invalid multipart form (max 50MB)''
      | NoFile \<Rightarrow> Inl ''file field is required''
      | FormFile filename ct body \<Rightarrow>
          let name = sanitizeUploadFilename filename; ext = lower_text (path_ext name)
          in if name = [] then Inl ''invalid filename''
             else case allowedMIMETypes ext of
                    None \<Rightarrow> Inl (''unsupported file type '' @ go_quote ext @ '', supported: txt, md, csv, pdf, docx'')
                  | Some allowed \<Rightarrow>
                      if \<not> validateMIME ct allowed then Inl (''file content type does not match extension '' @ go_quote ext)
                      else (case body of
                              Inl e \<Rightarrow> Inl ''failed to read file''
                            | Inr content \<Rightarrow>
                                if content = [] then Inl ''empty file''
                                else Inr \<lparr>up_name = name, up_type = trim_prefix ext ''.'', up_size = int (length content),
                                          up_hash = sha content, up_content = content\<rparr>))"

section \<open>The handlers of knowledge bases\<close>

definition bad_base_id :: "'a http_answer" where
  "bad_base_id = bad_request ''invalid knowledge base id: must be a UUID''"

definition base_missing :: "'a http_answer" where
  "base_missing = Failure 404 ''knowledge base not found''"

definition answer_option :: "(err + 'a option) \<times> 'w \<Rightarrow> 'a http_answer \<times> 'w" where
  "answer_option r =
     (case r of
        (Inl e, w) \<Rightarrow> (writeDomainError e, w)
      | (Inr None, w) \<Rightarrow> (base_missing, w)
      | (Inr (Some x), w) \<Rightarrow> (Answer 200 x, w))"

definition answer_status :: "string \<Rightarrow> err option \<times> 'w \<Rightarrow> string http_answer \<times> 'w" where
  "answer_status status r = (case r of (Some e, w) \<Rightarrow> (writeDomainError e, w) | (None, w) \<Rightarrow> (Answer 200 status, w))"

definition bases_List_handler :: "knowledge_env \<Rightarrow> string \<Rightarrow> knowledge_world \<Rightarrow> base_info list http_answer" where
  "bases_List_handler E ctx w = answer_read (ListBases E ctx w)"

definition bases_Get_handler :: "(string \<Rightarrow> bool) \<Rightarrow> knowledge_env \<Rightarrow> string \<Rightarrow> string \<Rightarrow> knowledge_world \<Rightarrow> base_info http_answer" where
  "bases_Get_handler ok E ctx i w = (if \<not> ok i then bad_base_id else fst (answer_option (GetBase E ctx i w, w)))"

definition bases_Create_handler ::
    "knowledge_env \<Rightarrow> string \<Rightarrow> go_error + base_request \<Rightarrow> knowledge_world \<Rightarrow> base_info http_answer \<times> knowledge_world" where
  "bases_Create_handler E ctx body w =
     (case body of
        Inl e \<Rightarrow> (bad_request ''invalid request body'', w)
      | Inr req \<Rightarrow>
          if bq_name req = [] then (bad_request ''name is required'', w)
          else answer_with 201 (CreateBase E ctx (tenantIDFromCtx ctx) req w))"

definition bases_Update_handler ::
    "(string \<Rightarrow> bool) \<Rightarrow> knowledge_env \<Rightarrow> string \<Rightarrow> string \<Rightarrow> go_error + base_request \<Rightarrow> knowledge_world \<Rightarrow> base_info http_answer \<times> knowledge_world" where
  "bases_Update_handler ok E ctx i body w =
     (if \<not> ok i then (bad_base_id, w)
      else case body of
             Inl e \<Rightarrow> (bad_request ''invalid request body'', w)
           | Inr req \<Rightarrow>
               if bq_name req = [] then (bad_request ''name is required for PUT (full replace); use PATCH for partial updates'', w)
               else answer_option (UpdateBase E ctx i req w))"

definition PatchKB ::
    "(string \<Rightarrow> bool) \<Rightarrow> knowledge_env \<Rightarrow> string \<Rightarrow> string \<Rightarrow> go_error + base_patch \<Rightarrow> knowledge_world \<Rightarrow> base_info http_answer \<times> knowledge_world" where
  "PatchKB ok E ctx i body w =
     (if \<not> ok i then (bad_base_id, w)
      else case body of
             Inl e \<Rightarrow> (bad_request ''invalid request body'', w)
           | Inr req \<Rightarrow> answer_option (PatchBase E ctx i req w))"

text \<open>A base is looked up first; the handlers for its files go on only when it is there.\<close>

definition with_base ::
    "knowledge_env \<Rightarrow> string \<Rightarrow> string \<Rightarrow> (base_info \<Rightarrow> 'a http_answer \<times> knowledge_world) \<Rightarrow> knowledge_world \<Rightarrow> 'a http_answer \<times> knowledge_world" where
  "with_base E ctx i f w =
     (case GetBase E ctx i w of
        Inl e \<Rightarrow> (writeDomainError e, w)
      | Inr None \<Rightarrow> (base_missing, w)
      | Inr (Some b) \<Rightarrow> f b)"

definition bases_Delete_handler ::
    "(string \<Rightarrow> bool) \<Rightarrow> knowledge_env \<Rightarrow> string \<Rightarrow> string \<Rightarrow> knowledge_world \<Rightarrow> string http_answer \<times> knowledge_world" where
  "bases_Delete_handler ok E ctx i w =
     (if \<not> ok i then (bad_base_id, w)
      else with_base E ctx i (\<lambda>b.
        case DeleteAllByKB E ctx i w of
          (Some e, w1) \<Rightarrow> (writeDomainError e, w1)
        | (None, w1) \<Rightarrow> answer_status ''deleted'' (DeleteBase E ctx i w1)) w)"

definition link_handler ::
    "(string \<Rightarrow> bool) \<Rightarrow> string \<Rightarrow> (string \<Rightarrow> string \<Rightarrow> knowledge_world \<Rightarrow> err option \<times> knowledge_world) \<Rightarrow> string \<Rightarrow> string \<Rightarrow> knowledge_world
       \<Rightarrow> string http_answer \<times> knowledge_world" where
  "link_handler ok status change i name w =
     (if \<not> ok i then (bad_base_id, w)
      else if i = [] \<or> name = [] then (bad_request ''kb id and agent_name are required'', w)
      else answer_status status (change i name w))"

definition LinkAgent_handler ::
    "(string \<Rightarrow> bool) \<Rightarrow> knowledge_env \<Rightarrow> string \<Rightarrow> string \<Rightarrow> string \<Rightarrow> knowledge_world \<Rightarrow> string http_answer \<times> knowledge_world" where
  "LinkAgent_handler ok E ctx = link_handler ok ''linked'' (LinkAgent E ctx)"

definition UnlinkAgent_handler ::
    "(string \<Rightarrow> bool) \<Rightarrow> knowledge_env \<Rightarrow> string \<Rightarrow> string \<Rightarrow> string \<Rightarrow> knowledge_world \<Rightarrow> string http_answer \<times> knowledge_world" where
  "UnlinkAgent_handler ok E ctx = link_handler ok ''unlinked'' (UnlinkAgent E ctx)"

definition no_embedding :: "'a http_answer" where
  "no_embedding = Failure 501 (''Knowledge indexing requires an embedding model. Configure one in Models '' @ [CHR 0xE2, CHR 0x86, CHR 0x92] @
     '' select type Embeddings.'')"

text \<open>The files of a base; whether the file manager is there is an argument.\<close>

definition GetFile_handler ::
    "(string \<Rightarrow> bool) \<Rightarrow> bool \<Rightarrow> knowledge_env \<Rightarrow> string \<Rightarrow> string \<Rightarrow> string \<Rightarrow> knowledge_world \<Rightarrow> file_response http_answer" where
  "GetFile_handler ok manager E ctx i f w =
     (if \<not> ok i then bad_base_id
      else if f = [] then bad_request ''file_id is required''
      else if \<not> manager then Failure 501 ''Knowledge indexing requires an embedding model.''
      else case GetFileByKB E ctx i f w of
             Inl e \<Rightarrow> writeDomainError e
           | Inr None \<Rightarrow> Failure 404 ''file not found''
           | Inr (Some r) \<Rightarrow> Answer 200 r)"

definition ListFiles_handler ::
    "(string \<Rightarrow> bool) \<Rightarrow> bool \<Rightarrow> knowledge_env \<Rightarrow> string \<Rightarrow> string \<Rightarrow> knowledge_world \<Rightarrow> file_response list http_answer" where
  "ListFiles_handler ok manager E ctx i w =
     (if \<not> ok i then bad_base_id
      else fst (with_base E ctx i (\<lambda>b. (if \<not> manager then no_embedding else answer_read (ListFilesByKB E ctx i w), w)) w))"

definition UploadFile_handler ::
    "(string \<Rightarrow> bool) \<Rightarrow> bool \<Rightarrow> (string \<Rightarrow> string) \<Rightarrow> knowledge_env \<Rightarrow> string \<Rightarrow> string \<Rightarrow> upload_form \<Rightarrow> knowledge_world
       \<Rightarrow> (file_response \<times> index_job) http_answer \<times> knowledge_world" where
  "UploadFile_handler ok manager sha E ctx i form w =
     (if \<not> ok i then (bad_base_id, w)
      else if \<not> manager then (no_embedding, w)
      else case GetBase E ctx i w of
             Inr (Some b) \<Rightarrow>
               if bi_model b = [] then (bad_request ''no embedding model configured for this knowledge base'', w)
               else (case read_upload sha form of
                       Inl message \<Rightarrow> (bad_request message, w)
                     | Inr up \<Rightarrow> answer_with 201 (UploadFileToKB E ctx (tenantIDFromCtx ctx) i (bi_model b) up w))
           | _ \<Rightarrow> (base_missing, w))"

definition DeleteFile_handler ::
    "(string \<Rightarrow> bool) \<Rightarrow> bool \<Rightarrow> knowledge_env \<Rightarrow> string \<Rightarrow> string \<Rightarrow> string \<Rightarrow> knowledge_world \<Rightarrow> string http_answer \<times> knowledge_world" where
  "DeleteFile_handler ok manager E ctx i f w =
     (if \<not> ok i then (bad_base_id, w)
      else if \<not> manager then (no_embedding, w)
      else with_base E ctx i (\<lambda>b. answer_status ''deleted'' (DeleteFileByKB E ctx i f w)) w)"

definition ReindexFile_handler ::
    "(string \<Rightarrow> bool) \<Rightarrow> bool \<Rightarrow> knowledge_env \<Rightarrow> string \<Rightarrow> string \<Rightarrow> string \<Rightarrow> knowledge_world \<Rightarrow> index_job http_answer \<times> knowledge_world" where
  "ReindexFile_handler ok manager E ctx i f w =
     (if \<not> ok i then (bad_base_id, w)
      else if \<not> manager then (no_embedding, w)
      else case GetBase E ctx i w of
             Inr (Some b) \<Rightarrow> answer_with 202 (ReindexFileByKB E ctx i (bi_model b) f w)
           | _ \<Rightarrow> (base_missing, w))"

section \<open>The handlers for the knowledge of an agent\<close>

definition status_of_files :: "file_response list \<Rightarrow> nat \<times> nat \<times> string" where
  "status_of_files fs =
     (length fs, length (filter (\<lambda>f. fr_status f = ''ready'') fs),
      if fs = [] then ''empty'' else if list_ex (\<lambda>f. fr_status f \<in> {''indexing'', ''uploading''}) fs then ''indexing'' else ''ready'')"

fun files_of_bases :: "knowledge_env \<Rightarrow> string \<Rightarrow> string list \<Rightarrow> knowledge_world \<Rightarrow> err + file_response list" where
  "files_of_bases E ctx [] w = Inr []"
| "files_of_bases E ctx (k # ks) w =
     bind_res (ListFilesByKB E ctx k w) (\<lambda>fs. bind_res (files_of_bases E ctx ks w) (\<lambda>rest. Inr (fs @ rest)))"

definition agent_ListFiles :: "knowledge_env \<Rightarrow> string \<Rightarrow> string \<Rightarrow> knowledge_world \<Rightarrow> err + file_response list" where
  "agent_ListFiles E ctx name w =
     (case ListKBsByAgentName E ctx name w of
        Inl e \<Rightarrow> Inr []
      | Inr kbs \<Rightarrow> files_of_bases E ctx kbs w)"

fun delete_in_bases :: "knowledge_env \<Rightarrow> string \<Rightarrow> string list \<Rightarrow> string \<Rightarrow> knowledge_world \<Rightarrow> err option \<times> knowledge_world" where
  "delete_in_bases E ctx [] f w = (Some file_not_found, w)"
| "delete_in_bases E ctx (k # ks) f w =
     (case DeleteFileByKB E ctx k f w of
        (None, w') \<Rightarrow> (None, w')
      | (Some e, w') \<Rightarrow> delete_in_bases E ctx ks f w')"

definition agent_DeleteFile :: "knowledge_env \<Rightarrow> string \<Rightarrow> string \<Rightarrow> string \<Rightarrow> knowledge_world \<Rightarrow> err option \<times> knowledge_world" where
  "agent_DeleteFile E ctx name f w =
     (case ListKBsByAgentName E ctx name w of
        Inl e \<Rightarrow> (Some file_not_found, w)
      | Inr kbs \<Rightarrow> delete_in_bases E ctx kbs f w)"

definition agent_ReindexFile :: "err option" where
  "agent_ReindexFile = Some (Opaque ''reindex requires KB-scoped endpoint'')"

definition GetStats :: "knowledge_env \<Rightarrow> string \<Rightarrow> string \<Rightarrow> knowledge_world \<Rightarrow> go_error + nat \<times> nat \<times> time option" where
  "GetStats E ctx name w =
     (case ListKBsByAgentName E ctx name w of
        Inl e \<Rightarrow> Inr (0, 0, None)
      | Inr kbs \<Rightarrow> GetStatsByKBs E ctx kbs w)"

definition agent_Status_handler :: "bool \<Rightarrow> knowledge_env \<Rightarrow> string \<Rightarrow> string \<Rightarrow> knowledge_world \<Rightarrow> (nat \<times> nat \<times> string) http_answer" where
  "agent_Status_handler lister E ctx name w =
     (if name = [] then bad_request ''agent name is required''
      else if lister then answer_read (bind_res (agent_ListFiles E ctx name w) (\<lambda>fs. Inr (status_of_files fs)))
      else case GetStats E ctx name w of
             Inl e \<Rightarrow> writeDomainError (Opaque e)
           | Inr (n, _, _) \<Rightarrow> Answer 200 (n, n, if n > 0 then ''ready'' else ''empty''))"

text \<open>What the reindexer of an agent answers, in the background, once the registry knows the agent or not.\<close>

definition Reindex :: "bool \<Rightarrow> string \<Rightarrow> err" where
  "Reindex known name =
     (if known
      then Opaque (''agent '' @ name @ '': legacy knowledge_path reindex is no longer supported; use capability Knowledge + knowledge base instead'')
      else Opaque (''agent not found: '' @ name))"

text \<open>The answer and the error that the background call logs.\<close>

definition agent_Reindex_handler :: "bool \<Rightarrow> bool \<Rightarrow> string \<Rightarrow> string http_answer \<times> err option" where
  "agent_Reindex_handler reindexer known name =
     (if name = [] then (bad_request ''agent name is required'', None)
      else if \<not> reindexer then (no_embedding, None)
      else (Answer 202 ''indexing_started'', Some (Reindex known name)))"

definition agent_ListFiles_handler :: "bool \<Rightarrow> knowledge_env \<Rightarrow> string \<Rightarrow> string \<Rightarrow> knowledge_world \<Rightarrow> file_response list http_answer" where
  "agent_ListFiles_handler lister E ctx name w =
     (if name = [] then bad_request ''agent name is required''
      else if \<not> lister then no_embedding
      else answer_read (agent_ListFiles E ctx name w))"

definition agent_DeleteFile_handler ::
    "bool \<Rightarrow> knowledge_env \<Rightarrow> string \<Rightarrow> string \<Rightarrow> string \<Rightarrow> knowledge_world \<Rightarrow> string http_answer \<times> knowledge_world" where
  "agent_DeleteFile_handler lister E ctx name f w =
     (if name = [] \<or> f = [] then (bad_request ''agent name and file_id are required'', w)
      else if \<not> lister then (no_embedding, w)
      else answer_status ''deleted'' (agent_DeleteFile E ctx name f w))"

definition agent_ReindexFile_handler :: "bool \<Rightarrow> string \<Rightarrow> string \<Rightarrow> string http_answer" where
  "agent_ReindexFile_handler lister name f =
     (if name = [] \<or> f = [] then bad_request ''agent name and file_id are required''
      else if \<not> lister then no_embedding
      else case agent_ReindexFile of Some e \<Rightarrow> writeDomainError e | None \<Rightarrow> Answer 202 ''reindex_started'')"

definition agent_UploadFile_handler ::
    "bool \<Rightarrow> (string \<Rightarrow> string) \<Rightarrow> knowledge_env \<Rightarrow> string \<Rightarrow> string \<Rightarrow> upload_form \<Rightarrow> knowledge_world
       \<Rightarrow> (file_response \<times> index_job) http_answer \<times> knowledge_world" where
  "agent_UploadFile_handler uploader sha E ctx name form w =
     (if name = [] then (bad_request ''agent name is required'', w)
      else if \<not> uploader then (no_embedding, w)
      else case read_upload sha form of
             Inl message \<Rightarrow> (bad_request message, w)
           | Inr up \<Rightarrow> answer_with 201 (UploadFile E ctx (tenantIDFromCtx ctx) name up w))"

section \<open>Links stay within a tenant\<close>

text \<open>Identifiers are distinct, and a link joins a base and an agent of one tenant.\<close>

definition links_hold :: "knowledge_world \<Rightarrow> bool" where
  "links_hold w \<longleftrightarrow> distinct (map kb_id (kw_bases w)) \<and>
     (\<forall>(k, a)\<in>set (kw_links w). \<exists>b\<in>set (kw_bases w). \<exists>x\<in>set (kw_agents w). kb_id b = k \<and> ag_id x = a \<and> kb_tenant b = ag_tenant x)"

lemma links_holdI:
  assumes "distinct (map kb_id (kw_bases w))"
    and "\<And>k a. (k, a) \<in> set (kw_links w) \<Longrightarrow> \<exists>b\<in>set (kw_bases w). \<exists>x\<in>set (kw_agents w). kb_id b = k \<and> ag_id x = a \<and> kb_tenant b = ag_tenant x"
  shows "links_hold w"
  using assms by (auto simp: links_hold_def)

lemma links_holdD:
  "links_hold w \<Longrightarrow> (k, a) \<in> set (kw_links w) \<Longrightarrow>
   \<exists>b\<in>set (kw_bases w). \<exists>x\<in>set (kw_agents w). kb_id b = k \<and> ag_id x = a \<and> kb_tenant b = ag_tenant x"
  by (auto simp: links_hold_def)

text \<open>Documents, chunks and files play no role.\<close>

lemma links_hold_cong:
  "kw_bases w' = kw_bases w \<Longrightarrow> kw_links w' = kw_links w \<Longrightarrow> kw_agents w' = kw_agents w \<Longrightarrow> links_hold w' = links_hold w"
  by (simp add: links_hold_def)

text \<open>Bases may change and be added, as long as identifiers and tenants stay.\<close>

lemma links_hold_bases:
  assumes "links_hold w" and "put_bases bs w = Inr w'"
    and "(\<lambda>b. (kb_id b, kb_tenant b)) ` set (kw_bases w) \<subseteq> (\<lambda>b. (kb_id b, kb_tenant b)) ` set bs"
  shows "links_hold w'"
proof -
  have w': "w' = w\<lparr>kw_bases := bs\<rparr>" and keys: "bases_hold bs" using assms(2) by (auto simp: put_bases_def split: if_splits)
  show ?thesis
  proof (rule links_holdI)
    show "distinct (map kb_id (kw_bases w'))" using keys by (simp add: w' bases_hold_def)
    fix k a assume "(k, a) \<in> set (kw_links w')"
    then obtain b x where b: "b \<in> set (kw_bases w)" and x: "x \<in> set (kw_agents w)" "kb_id b = k" "ag_id x = a" "kb_tenant b = ag_tenant x"
      using links_holdD [OF assms(1), of k a] by (auto simp: w')
    obtain b' where "b' \<in> set bs" "kb_id b' = kb_id b" "kb_tenant b' = kb_tenant b" using assms(3) b by force
    then show "\<exists>b\<in>set (kw_bases w'). \<exists>x\<in>set (kw_agents w'). kb_id b = k \<and> ag_id x = a \<and> kb_tenant b = ag_tenant x"
      using x by (auto simp: w')
  qed
qed

lemma bases_Create_links: "links_hold w \<Longrightarrow> bases_Create E ctx b w = Inr (b', w') \<Longrightarrow> links_hold w'"
  by (auto simp: bases_Create_def Let_def elim!: links_hold_bases)

lemma bases_Update_links:
  assumes "links_hold w" and "bases_Update E ctx b w = Inr w'"
  shows "links_hold w'"
proof -
  obtain old where first: "first_row kb_id (base_row ctx (kb_id b)) (kw_bases w) = Some old"
    and put: "put_bases (change_rows (\<lambda>x. kb_id x = kb_id b) (\<lambda>x. b\<lparr>kb_tenant := kb_tenant old\<rparr>) (kw_bases w)) w = Inr w'"
    using assms(2) by (auto simp: bases_Update_def split: option.splits)
  have old: "old \<in> set (kw_bases w)" "kb_id old = kb_id b" using first_row_Some [OF first] by (simp_all add: base_row_def)
  have distinct: "distinct (map kb_id (kw_bases w))" using assms(1) by (simp add: links_hold_def)
  show ?thesis
  proof (rule links_hold_bases [OF assms(1) put], rule image_subsetI)
    fix x assume x: "x \<in> set (kw_bases w)"
    let ?x = "if kb_id x = kb_id b then b\<lparr>kb_tenant := kb_tenant old\<rparr> else x"
    have "(kb_id x, kb_tenant x) = (kb_id ?x, kb_tenant ?x)" using unique_row [OF distinct x old(1)] old(2) by auto
    moreover have "?x \<in> set (change_rows (\<lambda>x. kb_id x = kb_id b) (\<lambda>x. b\<lparr>kb_tenant := kb_tenant old\<rparr>) (kw_bases w))"
      using x by (auto simp: change_rows_def)
    ultimately show "(kb_id x, kb_tenant x) \<in> (\<lambda>b. (kb_id b, kb_tenant b)) `
        set (change_rows (\<lambda>x. kb_id x = kb_id b) (\<lambda>x. b\<lparr>kb_tenant := kb_tenant old\<rparr>) (kw_bases w))"
      by (rule image_eqI)
  qed
qed

text \<open>Links may go.\<close>

lemma fewer_links: "links_hold w \<Longrightarrow> links_hold (w\<lparr>kw_links := filter P (kw_links w)\<rparr>)"
  by (auto simp: links_hold_def)

lemma without_bases_links:
  assumes "links_hold w"
  shows "links_hold (without_bases P w)"
proof (rule links_holdI)
  show "distinct (map kb_id (kw_bases (without_bases P w)))"
    using assms by (auto simp: links_hold_def without_bases_def Let_def intro: distinct_map_filter)
  fix k a assume link: "(k, a) \<in> set (kw_links (without_bases P w))"
  then obtain b x where b: "b \<in> set (kw_bases w)" "x \<in> set (kw_agents w)" "kb_id b = k" "ag_id x = a" "kb_tenant b = ag_tenant x"
    using links_holdD [OF assms, of k a] by (auto simp: without_bases_def Let_def)
  have "\<not> P b" using link b by (auto simp: without_bases_def Let_def)
  then show "\<exists>b\<in>set (kw_bases (without_bases P w)). \<exists>x\<in>set (kw_agents (without_bases P w)).
      kb_id b = k \<and> ag_id x = a \<and> kb_tenant b = ag_tenant x"
    using b by (auto simp: without_bases_def Let_def drop_docs_def)
qed

lemma DeleteBase_links: "links_hold w \<Longrightarrow> links_hold (snd (DeleteBase E ctx i w))"
  by (auto simp: DeleteBase_def bases_Delete_def ask_def fewer_links without_bases_links split: option.splits)

lemma added_links:
  assumes "links_hold w"
    and "\<And>k a. (k, a) \<in> set ls \<Longrightarrow> \<exists>b\<in>set (kw_bases w). \<exists>x\<in>set (kw_agents w). kb_id b = k \<and> ag_id x = a \<and> kb_tenant b = ag_tenant x"
  shows "links_hold (w\<lparr>kw_links := filter P (kw_links w) @ ls\<rparr>)"
  using assms by (auto simp: links_hold_def)

lemma verified:
  assumes "verifyKBAndAgentInTenant E ctx k a w = None"
  shows "\<exists>b\<in>set (kw_bases w). \<exists>x\<in>set (kw_agents w). kb_id b = k \<and> ag_id x = a \<and> kb_tenant b = ag_tenant x"
proof -
  have "filter (base_row ctx k) (kw_bases w) \<noteq> []" and "filter (\<lambda>x. ag_id x = a \<and> in_tenant ctx x) (kw_agents w) \<noteq> []"
    using assms by (auto simp: verifyKBAndAgentInTenant_def ask_def split: option.splits if_splits)
  then obtain b x where "b \<in> set (kw_bases w)" "base_row ctx k b" "x \<in> set (kw_agents w)" "ag_id x = a" "in_tenant ctx x"
    by (auto simp: filter_empty_conv)
  then show ?thesis by (intro bexI [of _ b] bexI [of _ x]) (simp_all add: base_row_def in_tenant_def)
qed

lemma LinkAgent_links:
  assumes "links_hold w"
  shows "links_hold (snd (LinkAgent E ctx k name w))"
proof -
  have "links_hold (w\<lparr>kw_links := kw_links w @ [(k, a)]\<rparr>)" if "verifyKBAndAgentInTenant E ctx k a w = None" for a
    using added_links [OF assms, of "[(k, a)]" "\<lambda>l. True"] verified [OF that] by simp
  then show ?thesis using assms
    by (auto simp: LinkAgent_def link_by_name_def bases_LinkAgent_def ask_def split: sum.split option.split)
qed

lemma UnlinkAgent_links: "links_hold w \<Longrightarrow> links_hold (snd (UnlinkAgent E ctx k name w))"
  by (auto simp: UnlinkAgent_def link_by_name_def bases_UnlinkAgent_def ask_def fewer_links split: sum.split option.split)

lemma set_uniqueStrings [simp]: "set (uniqueStrings ss) = set ss"
  by (induction ss) auto

lemma distinct_uniqueStrings [simp]: "distinct (uniqueStrings ss)"
  by (induction ss) auto

text \<open>As many bases of the tenant as there are different identifiers: each identifier is that of a base of the tenant.\<close>

lemma all_known:
  assumes "distinct (map kb_id bs)" and "length (filter (\<lambda>b. kb_id b \<in> set ks \<and> kb_tenant b = t) bs) = length (uniqueStrings ks)" and "k \<in> set ks"
  shows "\<exists>b\<in>set bs. kb_id b = k \<and> kb_tenant b = t"
proof -
  let ?found = "map kb_id (filter (\<lambda>b. kb_id b \<in> set ks \<and> kb_tenant b = t) bs)"
  have "card (set ?found) = length (uniqueStrings ks)"
    using distinct_card [OF distinct_map_filter [OF assms(1)]] assms(2) by (simp del: set_map)
  also have "\<dots> = card (set ks)" using distinct_card [OF distinct_uniqueStrings [of ks]] by simp
  finally have "set ?found = set ks" by (intro card_subset_eq) auto
  then have "k \<in> set ?found" using assms(3) by simp
  then show ?thesis by auto
qed

lemma ReplaceAgentKBs_links:
  assumes "links_hold w"
  shows "links_hold (snd (ReplaceAgentKBs E ctx a ks w))"
proof -
  have "links_hold (w\<lparr>kw_links := filter (\<lambda>l. snd l \<noteq> a) (kw_links w) @ map (\<lambda>k. (k, a)) (uniqueStrings ks)\<rparr>)"
    if known: "length (filter (\<lambda>b. kb_id b \<in> set ks \<and> kb_tenant b = tenantIDFromCtx ctx) (kw_bases w)) = length (uniqueStrings ks)"
      and agent: "filter (\<lambda>x. ag_id x = a \<and> in_tenant ctx x) (kw_agents w) \<noteq> []"
  proof (rule added_links [OF assms])
    fix k a' assume "(k, a') \<in> set (map (\<lambda>k. (k, a)) (uniqueStrings ks))"
    then have k: "k \<in> set ks" and a': "a' = a" by auto
    have "distinct (map kb_id (kw_bases w))" using assms by (simp add: links_hold_def)
    from all_known [OF this known k] obtain b where "b \<in> set (kw_bases w)" "kb_id b = k" "kb_tenant b = tenantIDFromCtx ctx" by blast
    moreover obtain x where "x \<in> set (kw_agents w)" "ag_id x = a" "ag_tenant x = tenantIDFromCtx ctx"
      using agent by (auto simp: filter_empty_conv in_tenant_def)
    ultimately show "\<exists>b\<in>set (kw_bases w). \<exists>x\<in>set (kw_agents w). kb_id b = k \<and> ag_id x = a' \<and> kb_tenant b = ag_tenant x"
      unfolding a' by metis
  qed
  note added = this
  let ?agents = "filter (\<lambda>x. ag_id x = a \<and> in_tenant ctx x) (kw_agents w)"
  let ?known = "length (filter (\<lambda>b. kb_id b \<in> set ks \<and> kb_tenant b = tenantIDFromCtx ctx) (kw_bases w))"
  consider (refused) "snd (ReplaceAgentKBs E ctx a ks w) = w"
    | (cleared) "snd (ReplaceAgentKBs E ctx a ks w) = w\<lparr>kw_links := filter (\<lambda>l. snd l \<noteq> a) (kw_links w)\<rparr>"
    | (replaced) "?agents \<noteq> []" "?known = length (uniqueStrings ks)"
        "snd (ReplaceAgentKBs E ctx a ks w) = w\<lparr>kw_links := filter (\<lambda>l. snd l \<noteq> a) (kw_links w) @ map (\<lambda>k. (k, a)) (uniqueStrings ks)\<rparr>"
  proof (cases "kn_fails E CountAgentQ = None \<and> ?agents \<noteq> []")
    case False
    then show ?thesis by (intro refused) (auto simp: ReplaceAgentKBs_def ask_def split: option.split)
  next
    case agent: True
    then have none: "kn_fails E CountAgentQ = None" "length ?agents \<noteq> 0" by simp_all
    show ?thesis
    proof (cases "kn_fails E ClearLinksQ")
      case (Some e)
      then show ?thesis using none by (intro refused) (simp add: ReplaceAgentKBs_def Let_def ask_def split: option.split)
    next
      case clear: None
      show ?thesis
      proof (cases "ks = []")
        case True
        then show ?thesis using none clear by (intro cleared) (simp add: ReplaceAgentKBs_def)
      next
        case ks: False
        show ?thesis
        proof (cases "kn_fails E CountBaseQ = None \<and> ?known = length (uniqueStrings ks) \<and> kn_fails E InsertLinksQ = None")
          case True
          then show ?thesis using none clear ks agent by (intro replaced) (simp_all add: ReplaceAgentKBs_def Let_def)
        next
          case False
          then show ?thesis using none clear ks
            by (intro refused) (auto simp: ReplaceAgentKBs_def Let_def ask_def split: option.split)
        qed
      qed
    qed
  qed
  then show ?thesis by cases (use assms fewer_links [OF assms] added in simp_all)
qed

text \<open>The service of files leaves bases, links and agents alone.\<close>

definition same_links :: "knowledge_world \<Rightarrow> knowledge_world \<Rightarrow> bool" where
  "same_links w w' \<longleftrightarrow> kw_bases w' = kw_bases w \<and> kw_links w' = kw_links w \<and> kw_agents w' = kw_agents w"

lemma same_links_refl [simp]: "same_links w w"
  by (simp add: same_links_def)

lemma same_links_hold: "same_links w w' \<Longrightarrow> links_hold w' = links_hold w"
  by (rule links_hold_cong) (simp_all add: same_links_def)

lemma SaveDocument_same: "SaveDocument E ctx d w = Inr w' \<Longrightarrow> same_links w w'"
  by (auto simp: SaveDocument_def Let_def same_links_def split: if_splits)

lemma updateDocStatus_same: "same_links w (updateDocStatus E ctx i status msg n w)"
  by (auto simp: updateDocStatus_def write_status_def dest: SaveDocument_same split: sum.split option.split)

lemma same_links_trans: "same_links a b \<Longrightarrow> same_links b c \<Longrightarrow> same_links a c"
  by (simp add: same_links_def)

lemma SaveChunks_same: "SaveChunks E ctx rows w = Inr w' \<Longrightarrow> same_links w w'"
  by (auto simp: SaveChunks_def Let_def same_links_def split: if_splits)

lemma job_same: "same_links w (indexFileAsyncKB E job w)"
  by (auto simp: indexFileAsyncKB_def run_index_job_def store_rows_def updateDocStatus_same
    intro: same_links_trans [OF SaveChunks_same updateDocStatus_same] split: job_plan.split sum.split)

lemma files_same: "same_links w (fold (\<lambda>d. without_file (kd_path d)) ds w)"
  by (induction ds arbitrary: w) (auto simp: same_links_def without_file_def)

lemma DeleteAllByKB_same: "same_links w (snd (DeleteAllByKB E ctx k w))"
  using files_same [of w] by (auto simp: DeleteAllByKB_def DeleteChunksByKB_def DeleteDocumentsByKB_def drop_docs_def ask_def Let_def
    same_links_def split: sum.split option.split)

lemma DeleteFileByKB_same: "same_links w (snd (DeleteFileByKB E ctx k i w))"
  by (auto simp: DeleteFileByKB_def deleteDocFull_def DeleteChunksByDocument_def DeleteDocument_def drop_docs_def without_file_def ask_def
    Let_def same_links_def split: sum.split option.split)

lemma ReindexFileByKB_same: "same_links w (snd (ReindexFileByKB E ctx k m i w))"
proof -
  have "same_links w (updateDocStatus E ctx i status msg n w1)" if "DeleteChunksByDocument E ctx i w = Inr w1" for status msg n w1
    using that same_links_trans [OF _ updateDocStatus_same, of w w1] by (auto simp: DeleteChunksByDocument_def same_links_def)
  then show ?thesis
    by (auto simp: ReindexFileByKB_def Let_def updateDocStatus_same split: sum.split option.split)
qed

lemma UploadFileToKB_same: "same_links w (snd (UploadFileToKB E ctx t k m up w))"
proof -
  have files: "same_links w (w\<lparr>kw_files := fs\<rparr>)" for fs by (simp add: same_links_def)
  show ?thesis
    by (auto simp: UploadFileToKB_def store_upload_def Let_def files split: sum.split option.split prod.split
      intro: same_links_trans [OF files SaveDocument_same])
qed

section \<open>Sequences of requests\<close>

datatype knowledge_request =
    AskBase "go_error + base_request"
  | AskBasePut string "go_error + base_request"
  | AskBasePatch string "go_error + base_patch"
  | AskBaseRemoval string
  | AskLink string string
  | AskUnlink string string
  | AskAgentBases string "string list"
  | AskUpload string upload_form
  | AskFileRemoval string string
  | AskAgentFileRemoval string string
  | AskReindex string string
  | RunJob index_job

record knowledge_call =
  kx_uuid :: "string \<Rightarrow> bool"
  kx_manager :: bool
  kx_sha :: "string \<Rightarrow> string"
  kx_env :: knowledge_env
  kx_ctx :: string
  kx_request :: knowledge_request

definition knowledge_exec :: "knowledge_call \<Rightarrow> knowledge_world \<Rightarrow> knowledge_world" where
  "knowledge_exec a w =
     (case kx_request a of
        AskBase body \<Rightarrow> snd (bases_Create_handler (kx_env a) (kx_ctx a) body w)
      | AskBasePut i body \<Rightarrow> snd (bases_Update_handler (kx_uuid a) (kx_env a) (kx_ctx a) i body w)
      | AskBasePatch i body \<Rightarrow> snd (PatchKB (kx_uuid a) (kx_env a) (kx_ctx a) i body w)
      | AskBaseRemoval i \<Rightarrow> snd (bases_Delete_handler (kx_uuid a) (kx_env a) (kx_ctx a) i w)
      | AskLink i name \<Rightarrow> snd (LinkAgent_handler (kx_uuid a) (kx_env a) (kx_ctx a) i name w)
      | AskUnlink i name \<Rightarrow> snd (UnlinkAgent_handler (kx_uuid a) (kx_env a) (kx_ctx a) i name w)
      | AskAgentBases i ks \<Rightarrow> snd (ReplaceAgentKBs (kx_env a) (kx_ctx a) i ks w)
      | AskUpload i form \<Rightarrow> snd (UploadFile_handler (kx_uuid a) (kx_manager a) (kx_sha a) (kx_env a) (kx_ctx a) i form w)
      | AskFileRemoval i f \<Rightarrow> snd (DeleteFile_handler (kx_uuid a) (kx_manager a) (kx_env a) (kx_ctx a) i f w)
      | AskAgentFileRemoval name f \<Rightarrow> snd (agent_DeleteFile_handler (kx_manager a) (kx_env a) (kx_ctx a) name f w)
      | AskReindex i f \<Rightarrow> snd (ReindexFile_handler (kx_uuid a) (kx_manager a) (kx_env a) (kx_ctx a) i f w)
      | RunJob job \<Rightarrow> indexFileAsyncKB (kx_env a) job w)"

lemma snd_answer_with [simp]: "snd (answer_with n r) = snd r"
  by (cases r; cases "fst r") (auto simp: answer_with_def)

lemma snd_answer_option [simp]: "snd (answer_option r) = snd r"
  by (cases r) (auto simp: answer_option_def split: sum.split option.split)

lemma snd_answer_status [simp]: "snd (answer_status s r) = snd r"
  by (cases r) (auto simp: answer_status_def split: option.split)

lemma snd_with_base: "snd (with_base E ctx i f w) = w \<or> (\<exists>b. snd (with_base E ctx i f w) = snd (f b))"
  by (auto simp: with_base_def split: sum.split option.split)

lemma CreateBase_links: "links_hold w \<Longrightarrow> links_hold (snd (CreateBase E ctx t req w))"
  by (auto simp: CreateBase_def dest: bases_Create_links split: option.split sum.split)

lemma change_base_links: "links_hold w \<Longrightarrow> links_hold (snd (change_base E ctx i f w))"
  by (auto simp: change_base_def Let_def dest: bases_Update_links split: option.split sum.split)

lemma delete_in_bases_same: "same_links w (snd (delete_in_bases E ctx ks f w))"
proof (induction ks arbitrary: w)
  case (Cons k ks)
  obtain r w' where r: "DeleteFileByKB E ctx k f w = (r, w')" by (cases "DeleteFileByKB E ctx k f w")
  then have "same_links w w'" using DeleteFileByKB_same [of w E ctx k f] by simp
  then show ?case using Cons [of w'] r by (auto intro: same_links_trans split: option.split)
qed simp

lemma DeleteAllByKB_links: "links_hold w \<Longrightarrow> DeleteAllByKB E ctx i w = (e, w') \<Longrightarrow> links_hold w'"
  using same_links_hold [OF DeleteAllByKB_same [of w E ctx i]] by simp

lemma knowledge_exec_links:
  assumes "links_hold w"
  shows "links_hold (knowledge_exec a w)"
proof (cases "kx_request a")
  case (AskBase body)
  then show ?thesis using assms CreateBase_links
    by (auto simp: knowledge_exec_def bases_Create_handler_def split: sum.split)
next
  case (AskBasePut i body)
  then show ?thesis using assms change_base_links
    by (auto simp: knowledge_exec_def bases_Update_handler_def UpdateBase_def split: sum.split option.split)
next
  case (AskBasePatch i body)
  then show ?thesis using assms change_base_links
    by (auto simp: knowledge_exec_def PatchKB_def PatchBase_def split: sum.split option.split)
next
  case (AskBaseRemoval i)
  then show ?thesis using assms DeleteAllByKB_links DeleteBase_links
    by (auto simp: knowledge_exec_def bases_Delete_handler_def with_base_def split: sum.split option.split prod.split)
next
  case (AskLink i name)
  then show ?thesis using assms LinkAgent_links by (simp add: knowledge_exec_def LinkAgent_handler_def link_handler_def)
next
  case (AskUnlink i name)
  then show ?thesis using assms UnlinkAgent_links by (simp add: knowledge_exec_def UnlinkAgent_handler_def link_handler_def)
next
  case (AskAgentBases i ks)
  then show ?thesis using assms ReplaceAgentKBs_links by (simp add: knowledge_exec_def)
next
  case (AskUpload i form)
  then show ?thesis using assms same_links_hold [OF UploadFileToKB_same]
    by (auto simp: knowledge_exec_def UploadFile_handler_def split: sum.split option.split)
next
  case (AskFileRemoval i f)
  then show ?thesis using assms same_links_hold [OF DeleteFileByKB_same]
    by (auto simp: knowledge_exec_def DeleteFile_handler_def with_base_def split: sum.split option.split)
next
  case (AskAgentFileRemoval name f)
  then show ?thesis using assms same_links_hold [OF delete_in_bases_same]
    by (auto simp: knowledge_exec_def agent_DeleteFile_handler_def agent_DeleteFile_def split: sum.split)
next
  case (AskReindex i f)
  then show ?thesis using assms same_links_hold [OF ReindexFileByKB_same]
    by (auto simp: knowledge_exec_def ReindexFile_handler_def split: sum.split option.split)
next
  case (RunJob job)
  then show ?thesis using assms same_links_hold [OF job_same] by (simp add: knowledge_exec_def)
qed

interpretation links_law: kept_law knowledge_exec links_hold "\<lambda>a. True"
  by unfold_locales (rule knowledge_exec_links)

text \<open>C40: A knowledge base is linked to agents of its own tenant only, whatever sequence of requests of whatever tenants creates,
  changes, links and removes bases, replaces the bases of agents, uploads and removes files and runs background jobs, and
  whatever queries of the database fail on the way.\<close>

theorem links_stay_within_tenants:
  assumes "links_hold w"
  shows "links_hold (fold knowledge_exec as w)"
  by (rule links_law.run_kept_always [OF TrueI assms])

definition demo_call :: "string \<Rightarrow> knowledge_request \<Rightarrow> knowledge_call" where
  "demo_call ctx req =
     \<lparr>kx_uuid = (\<lambda>i. True), kx_manager = True, kx_sha = (\<lambda>c. []), kx_env = demo_knowledge, kx_ctx = ctx, kx_request = req\<rparr>"

definition demo_staff :: knowledge_world where
  "demo_staff = demo_shelf\<lparr>kw_agents := [(sample_row ''a1'' ''t1'')\<lparr>ag_name := ''lead''\<rparr>, (sample_row ''a2'' ''t2'')\<lparr>ag_name := ''other''\<rparr>]\<rparr>"

text \<open>The base of the first tenant is not linked to an agent of the second one, whoever asks, but to the own agent.\<close>

theorem links_stay_within_tenants_witness:
  "links_hold (fold knowledge_exec [demo_call ''t1'' (AskLink ''k1'' ''other''), demo_call ''t2'' (AskLink ''k1'' ''other''), demo_call ''t1'' (AskLink ''k1'' ''lead'')] demo_staff)
   \<and> kw_links (fold knowledge_exec [demo_call ''t1'' (AskLink ''k1'' ''other''), demo_call ''t2'' (AskLink ''k1'' ''other''), demo_call ''t1'' (AskLink ''k1'' ''lead'')] demo_staff)
     = [(''k1'', ''a1'')]"
proof
  show "kw_links (fold knowledge_exec [demo_call ''t1'' (AskLink ''k1'' ''other''), demo_call ''t2'' (AskLink ''k1'' ''other''), demo_call ''t1'' (AskLink ''k1'' ''lead'')] demo_staff)
     = [(''k1'', ''a1'')]" by code_simp
qed (rule links_stay_within_tenants, simp add: links_hold_def demo_staff_def demo_shelf_def)

section \<open>Names of uploaded files\<close>

lemma split_char_parts: "p \<in> set (split_on [c] s) \<Longrightarrow> c \<notin> set p \<and> set p \<subseteq> set s"
proof (induction "[c]" s rule: split_on.induct)
  case (1 s)
  show ?case
  proof (cases "str_index s [c]")
    case None
    then show ?thesis using 1(2) str_index_char_None [of s c] by (subst (asm) split_on.simps) simp
  next
    case (Some i)
    then have parts: "split_on [c] s = take i s # split_on [c] (drop (i + length [c]) s)" by (subst split_on.simps) simp
    consider "p = take i s" | "p \<in> set (split_on [c] (drop (i + length [c]) s))" using 1(2) unfolding parts by auto
    then show ?thesis
    proof cases
      case 1
      then show ?thesis using str_index_char_Some [OF Some] set_take_subset [of i s] by simp
    next
      case 2
      then have "c \<notin> set p \<and> set p \<subseteq> set (drop (i + length [c]) s)" using 1(1) [OF Some] by simp
      then show ?thesis using set_drop_subset [of "i + length [c]" s] by blast
    qed
  qed
qed

lemma set_str_join: "set (str_join sep ls) \<subseteq> set sep \<union> (\<Union>l\<in>set ls. set l)"
  by (induction ls rule: induct_list012) auto

lemma set_replace_char: "set (replace_all [c] [] s) \<subseteq> set s - {c}"
  using set_str_join [of "[]" "split_on [c] s"] split_char_parts [of _ c s] by (fastforce simp: replace_all_def)

text \<open>No name leads out of the directory of its knowledge base: it has no slash and no backslash.\<close>

theorem sanitized_names_have_no_slash:
  "CHR ''/'' \<notin> set (sanitizeUploadFilename name)" and "CHR 0x5C \<notin> set (sanitizeUploadFilename name)"
proof -
  let ?s = "replace_all ''/'' [] (replace_all ''..'' [] (path_base name))"
  have "set (trim_space (replace_all backslash [] ?s)) \<subseteq> set ?s - {CHR 0x5C}"
    using set_trim_space set_replace_char [of "CHR 0x5C" ?s] unfolding backslash_def by blast
  moreover have "CHR ''/'' \<notin> set ?s" using set_replace_char [of "CHR ''/''"] by blast
  ultimately show "CHR ''/'' \<notin> set (sanitizeUploadFilename name)" and "CHR 0x5C \<notin> set (sanitizeUploadFilename name)"
    by (auto simp: sanitizeUploadFilename_def Let_def)
qed

text \<open>Two dots may be left all the same, because they are removed before the backslash between them.\<close>

theorem dots_are_left: "sanitizeUploadFilename (''.'' @ backslash @ ''.'') = ''..''"
  by code_simp

section \<open>What the handlers answer\<close>

text \<open>A link that the check of tenants refuses is answered as an internal error, not as a missing resource.\<close>

theorem refused_link_is_internal:
  assumes "ok i" and "i \<noteq> []" and "name \<noteq> []" and "resolveAgentID E name w = Inr a" and "verifyKBAndAgentInTenant E ctx i a w = Some e"
  shows "LinkAgent_handler ok E ctx i name w = (Failure 500 e, w)"
  using assms by (simp add: LinkAgent_handler_def link_handler_def LinkAgent_def link_by_name_def bases_LinkAgent_def answer_status_def
    writeDomainError_def domainErrorToHTTPStatus_def as_domain.simps)

text \<open>An agent of another tenant with the same name hides the own one: the link fails although base and agent are there.\<close>

definition demo_namesake :: knowledge_world where
  "demo_namesake = demo_shelf\<lparr>kw_agents := [(sample_row ''a2'' ''t2'')\<lparr>ag_name := ''lead''\<rparr>, (sample_row ''a1'' ''t1'')\<lparr>ag_name := ''lead''\<rparr>]\<rparr>"

theorem namesake_hides_agent:
  "fst (LinkAgent demo_knowledge ''t1'' ''k1'' ''lead'' demo_namesake) = Some (Opaque ErrAgentNotInTenant)"
  by (simp add: LinkAgent_def bases_LinkAgent_def resolveAgentID_def link_by_name_def verifyKBAndAgentInTenant_def ask_def demo_namesake_def
    demo_shelf_def demo_knowledge_def base_row_def in_tenant_def sample_row_def tenantIDFromCtx_def)

text \<open>Reindexing the knowledge of an agent is answered as started, and nothing is ever done.\<close>

theorem reindexing_an_agent_does_nothing:
  "name \<noteq> [] \<Longrightarrow> \<exists>e. agent_Reindex_handler True known name = (Answer 202 ''indexing_started'', Some e)"
  by (simp add: agent_Reindex_handler_def)

text \<open>Files that all failed to be indexed make a knowledge that is ready.\<close>

theorem failed_files_are_ready:
  "fs \<noteq> [] \<Longrightarrow> list_all (\<lambda>f. fr_status f = ''error'') fs \<Longrightarrow> status_of_files fs = (length fs, 0, ''ready'')"
  by (auto simp: status_of_files_def list_all_iff list_ex_iff filter_empty_conv)

text \<open>A second base with a name is an internal error.\<close>

theorem duplicate_base_is_internal:
  assumes "kn_fails E CreateBaseQ = None" and "bq_model req = []" and "bq_name req \<noteq> []" and "b \<in> set (kw_bases w)"
    and "kb_name b = bq_name req" and "kb_tenant b = tenantIDFromCtx ctx"
  shows "\<exists>e. bases_Create_handler E ctx (Inr req) w = (Failure 500 e, w)"
proof -
  have "\<not> bases_hold (kw_bases w @ [x])" if "kb_tenant x = tenantIDFromCtx ctx" "kb_name x = bq_name req" for x
    using assms(4-6) that by (force simp: bases_hold_def)
  then show ?thesis using assms(1-3)
    by (simp add: bases_Create_handler_def CreateBase_def validateEmbeddingModelKind_def bases_Create_def put_bases_def ask_def answer_with_def
      writeDomainError_def domainErrorToHTTPStatus_def as_domain.simps)
qed

end
