(* ===== verification/Spec2Isabelle.thy ===== *)
theory Spec2Isabelle
  imports Domain_Packet Manage_Tasks_Tool Tool_Wrappers Lifecycle_Manager Orchestrator Agent_Pool_Limit Shell_Session Task_Executor Task_Worker Turn_Engine Tool_Resolver Memory_Store Agent_Tools Model_Access Http_Routes Knowledge_Bases
begin

text \<open>
  Verification development for the ByteBrew engine (\<open>src/engine\<close>, Go).  Paths below are relative to
  \<open>src/engine/internal\<close>.
\<close>

end
